(* ===== verification/Go_Base.thy ===== *)
theory Go_Base
  imports Main "HOL-Library.Sublist"
begin

text \<open>
  Prelude of the development: the parts of Go and of its standard library that the modelled
  components use, and the generic lemmas they share.

  \<^item> Outcomes: a call returns, panics, or blocks forever.
  \<^item> Integer division of Go (towards zero), saturating \<open>time.Time.Sub\<close>, wrap-around of 64-bit
    products. Times and durations are numbers of nanoseconds (\<^typ>\<open>int\<close>).
  \<^item> Strings: a Go string is a list of bytes, here \<^typ>\<open>string\<close>. A \<open>for range\<close> loop reads the
    runes of the string (\<open>runes\<close>, the UTF-8 decoder of Go: an invalid byte is read as
    U+FFFD of width one) and \<open>WriteRune\<close> writes \<open>encode_rune\<close>.
\<close>

section \<open>Collections of facts\<close>

named_theorems go_frame \<open>what an operation leaves alone\<close>

named_theorems go_inv \<open>operations keep the invariant of their component\<close>

section \<open>Outcomes and numbers\<close>

text \<open>What a Go call does: return a value, panic, or wait for an event that no modelled step
  provides.\<close>

datatype 'a outcome = Return 'a | Panic string | Blocked

primrec obind :: "'a outcome \<Rightarrow> ('a \<Rightarrow> 'b outcome) \<Rightarrow> 'b outcome" where
  "obind (Return x) f = f x"
| "obind (Panic m) f = Panic m"
| "obind Blocked f = Blocked"

lemma obind_Return_iff [simp]: "obind r f = Return y \<longleftrightarrow> (\<exists>x. r = Return x \<and> f x = Return y)"
  by (cases r) auto

lemma obind_ReturnE:
  assumes "obind r f = Return y"
  obtains x where "r = Return x" "f x = Return y"
  using assms by auto

definition nil_deref :: "'a outcome" where
  "nil_deref = Panic ''nil pointer dereference''"

type_synonym time = int

type_synonym duration = int

definition go_quot :: "int \<Rightarrow> int \<Rightarrow> int" where
  "go_quot a b = sgn a * sgn b * (\<bar>a\<bar> div \<bar>b\<bar>)"

definition max_int64 :: int where
  "max_int64 = 2 ^ 63 - 1"

definition min_int64 :: int where
  "min_int64 = - (2 ^ 63)"

text \<open>Two's complement reading of the low 64 bits, the value of an \<open>int64\<close> product.\<close>

definition wrap64 :: "int \<Rightarrow> int" where
  "wrap64 x = (x + 2 ^ 63) mod 2 ^ 64 - 2 ^ 63"

text \<open>\<open>time.Time.Sub\<close> saturates at the ends of \<open>time.Duration\<close>.\<close>

definition time_sub :: "time \<Rightarrow> time \<Rightarrow> duration" where
  "time_sub a b = max min_int64 (min max_int64 (a - b))"

section \<open>Strings\<close>

definition HasPrefix :: "string \<Rightarrow> string \<Rightarrow> bool" where
  "HasPrefix s p \<longleftrightarrow> take (length p) s = p"

definition TrimPrefix :: "string \<Rightarrow> string \<Rightarrow> string" where
  "TrimPrefix s p = (if HasPrefix s p then drop (length p) s else s)"

definition HasSuffix :: "string \<Rightarrow> string \<Rightarrow> bool" where
  "HasSuffix s p \<longleftrightarrow> HasPrefix (rev s) (rev p)"

definition TrimSuffix :: "string \<Rightarrow> string \<Rightarrow> string" where
  "TrimSuffix s p = (if HasSuffix s p then take (length s - length p) s else s)"

fun Contains :: "string \<Rightarrow> string \<Rightarrow> bool" where
  "Contains [] p = (p = [])"
| "Contains (c # s) p = (HasPrefix (c # s) p \<or> Contains s p)"

text \<open>\<open>strings.LastIndexByte\<close>, with \<^term>\<open>None\<close> for -1.\<close>

fun LastIndexByte :: "string \<Rightarrow> char \<Rightarrow> nat option" where
  "LastIndexByte [] c = None"
| "LastIndexByte (x # xs) c =
     (case LastIndexByte xs c of
        Some i \<Rightarrow> Some (Suc i)
      | None \<Rightarrow> if x = c then Some 0 else None)"

text \<open>\<open>strings.Split\<close> with a separator of one byte.\<close>

fun SplitByte :: "string \<Rightarrow> char \<Rightarrow> string list" where
  "SplitByte [] c = [[]]"
| "SplitByte (x # xs) c =
     (if x = c then [] # SplitByte xs c
      else (case SplitByte xs c of
              [] \<Rightarrow> [[x]]
            | p # ps \<Rightarrow> (x # p) # ps))"

text \<open>\<open>strings.Trim\<close> with a cut set of single-byte characters.\<close>

definition TrimSet :: "string \<Rightarrow> char set \<Rightarrow> string" where
  "TrimSet s cs = rev (dropWhile (\<lambda>c. c \<in> cs) (rev (dropWhile (\<lambda>c. c \<in> cs) s)))"

text \<open>\<open>%d\<close> of \<open>fmt.Sprintf\<close>.\<close>

fun nat_digits :: "nat \<Rightarrow> string" where
  "nat_digits n = (if n < 10 then [char_of (48 + n)] else nat_digits (n div 10) @ [char_of (48 + n mod 10)])"

definition int_text :: "int \<Rightarrow> string" where
  "int_text i = (if i < 0 then CHR ''-'' # nat_digits (nat (- i)) else nat_digits (nat i))"

section \<open>UTF-8\<close>

type_synonym rune = nat

definition rune_error :: rune where
  "rune_error = 0xFFFD"

definition is_cont :: "nat \<Rightarrow> bool" where
  "is_cont b \<longleftrightarrow> 0x80 \<le> b \<and> b \<le> 0xBF"

text \<open>\<open>utf8.DecodeRune\<close> on the byte values of a non-empty string: the rune and its width.\<close>

fun decode_rune :: "nat list \<Rightarrow> rune \<times> nat" where
  "decode_rune [] = (rune_error, 0)"
| "decode_rune (b0 # bs) =
     (if b0 < 0x80 then (b0, 1)
      else case bs of
        [] \<Rightarrow> (rune_error, 1)
      | b1 # bs1 \<Rightarrow>
        if 0xC2 \<le> b0 \<and> b0 \<le> 0xDF then
          (if is_cont b1 then ((b0 - 0xC0) * 64 + (b1 - 0x80), 2) else (rune_error, 1))
        else (case bs1 of
          [] \<Rightarrow> (rune_error, 1)
        | b2 # bs2 \<Rightarrow>
          if 0xE0 \<le> b0 \<and> b0 \<le> 0xEF then
            (if is_cont b1 \<and> is_cont b2 \<and> (b0 = 0xE0 \<longrightarrow> 0xA0 \<le> b1) \<and> (b0 = 0xED \<longrightarrow> b1 \<le> 0x9F)
             then ((b0 - 0xE0) * 4096 + (b1 - 0x80) * 64 + (b2 - 0x80), 3)
             else (rune_error, 1))
          else (case bs2 of
            [] \<Rightarrow> (rune_error, 1)
          | b3 # _ \<Rightarrow>
            if 0xF0 \<le> b0 \<and> b0 \<le> 0xF4 \<and> is_cont b1 \<and> is_cont b2 \<and> is_cont b3
               \<and> (b0 = 0xF0 \<longrightarrow> 0x90 \<le> b1) \<and> (b0 = 0xF4 \<longrightarrow> b1 \<le> 0x8F)
            then ((b0 - 0xF0) * 262144 + (b1 - 0x80) * 4096 + (b2 - 0x80) * 64 + (b3 - 0x80), 4)
            else (rune_error, 1))))"

fun byte_runes :: "nat list \<Rightarrow> rune list" where
  "byte_runes [] = []"
| "byte_runes (b # bs) =
     (case decode_rune (b # bs) of (r, w) \<Rightarrow> r # byte_runes (drop (w - 1) bs))"

definition bytes_of :: "string \<Rightarrow> nat list" where
  "bytes_of s = map of_char s"

text \<open>The runes a \<open>for range\<close> loop over the string visits.\<close>

definition runes :: "string \<Rightarrow> rune list" where
  "runes s = byte_runes (bytes_of s)"

definition valid_rune :: "rune \<Rightarrow> bool" where
  "valid_rune r \<longleftrightarrow> r < 0xD800 \<or> (0xE000 \<le> r \<and> r \<le> 0x10FFFF)"

definition encode_bytes :: "rune \<Rightarrow> nat list" where
  "encode_bytes r0 =
     (let r = (if valid_rune r0 then r0 else rune_error) in
      if r < 0x80 then [r]
      else if r < 0x800 then [0xC0 + r div 64, 0x80 + r mod 64]
      else if r < 0x10000 then [0xE0 + r div 4096, 0x80 + r div 64 mod 64, 0x80 + r mod 64]
      else [0xF0 + r div 262144, 0x80 + r div 4096 mod 64, 0x80 + r div 64 mod 64, 0x80 + r mod 64])"

text \<open>\<open>utf8.EncodeRune\<close>, what \<open>strings.Builder.WriteRune\<close> appends.\<close>

definition encode_rune :: "rune \<Rightarrow> string" where
  "encode_rune r = map char_of (encode_bytes r)"

definition encode_runes :: "rune list \<Rightarrow> string" where
  "encode_runes rs = concat (map encode_rune rs)"

text \<open>The strings that are valid UTF-8: the encodings of lists of scalar values.\<close>

definition valid_utf8 :: "string \<Rightarrow> bool" where
  "valid_utf8 s \<longleftrightarrow> encode_runes (runes s) = s \<and> list_all valid_rune (runes s)"

section \<open>Lemmas on strings\<close>

lemma HasPrefix_prefix: "HasPrefix s p \<longleftrightarrow> prefix p s"
  by (metis HasPrefix_def append_eq_conv_conj prefix_def take_is_prefix)

lemma HasPrefix_append [simp]: "HasPrefix (p @ s) p"
  by (simp add: HasPrefix_def)

lemma HasSuffix_suffix: "HasSuffix s p \<longleftrightarrow> suffix p s"
  by (simp add: HasSuffix_def HasPrefix_prefix suffix_to_prefix)

lemma TrimSuffix_length: "length (TrimSuffix s p) \<le> length s"
  by (simp add: TrimSuffix_def)

lemma LastIndexByte_None: "LastIndexByte s c = None \<longleftrightarrow> c \<notin> set s"
  by (induction s) (auto split: option.splits)

lemma LastIndexByte_Some:
  "LastIndexByte s c = Some i \<Longrightarrow> s = take i s @ c # drop (Suc i) s \<and> c \<notin> set (drop (Suc i) s)"
proof (induction s arbitrary: i)
  case Nil
  then show ?case by simp
next
  case (Cons x xs)
  show ?case
  proof (cases "LastIndexByte xs c")
    case None
    with Cons.prems have "x = c" "i = 0" by (auto split: if_splits)
    with None show ?thesis by (simp add: LastIndexByte_None)
  next
    case (Some j)
    with Cons.prems Cons.IH [OF Some] show ?thesis by auto
  qed
qed

lemma LastIndexByte_append:
  "c \<notin> set t \<Longrightarrow> LastIndexByte (s @ c # t) c = Some (length s)"
proof (induction s)
  case Nil
  then have "LastIndexByte t c = None" by (simp add: LastIndexByte_None)
  then show ?case by simp
next
  case (Cons x s)
  then show ?case by simp
qed

lemma SplitByte_nonempty [simp]: "SplitByte s c \<noteq> []"
  by (cases s) (auto split: list.splits)

lemma SplitByte_no_sep: "c \<notin> set s \<Longrightarrow> SplitByte s c = [s]"
  by (induction s) auto

section \<open>Errors as values\<close>

text \<open>The rest of a call after one that may fail.\<close>

definition ebind :: "'e + 'a \<Rightarrow> ('a \<Rightarrow> 'e + 'b) \<Rightarrow> 'e + 'b" where
  "ebind r f = (case r of Inl e \<Rightarrow> Inl e | Inr x \<Rightarrow> f x)"

lemma ebind_simps [simp]: "ebind (Inl e) f = Inl e" "ebind (Inr x) f = f x"
  by (simp_all add: ebind_def)

lemma ebind_Inr_iff: "ebind r f = Inr y \<longleftrightarrow> (\<exists>x. r = Inr x \<and> f x = Inr y)"
  by (cases r) auto

lemma ebind_InrE:
  assumes "ebind r f = Inr y"
  obtains x where "r = Inr x" "f x = Inr y"
  using assms by (auto simp: ebind_Inr_iff)

section \<open>Lemmas on numbers\<close>

lemma go_quot_pos: "0 \<le> a \<Longrightarrow> 0 < b \<Longrightarrow> go_quot a b = a div b"
  by (auto simp: go_quot_def sgn_if)

lemma wrap64_id: "min_int64 \<le> x \<Longrightarrow> x \<le> max_int64 \<Longrightarrow> wrap64 x = x"
  by (simp add: wrap64_def min_int64_def max_int64_def)

lemma wrap64_bounds: "min_int64 \<le> wrap64 x \<and> wrap64 x \<le> max_int64"
proof -
  have "0 \<le> (x + 2 ^ 63) mod 2 ^ 64" "(x + 2 ^ 63) mod 2 ^ 64 < 2 ^ 64"
    by simp_all
  then show ?thesis unfolding wrap64_def min_int64_def max_int64_def by auto
qed

lemma time_sub_mono: "a \<le> b \<Longrightarrow> time_sub a n \<le> time_sub b n"
  by (auto simp: time_sub_def)

lemma time_sub_nonpos: "time_sub a n \<le> 0 \<longleftrightarrow> a \<le> n"
  by (auto simp: time_sub_def min_int64_def max_int64_def)

section \<open>Lemmas on UTF-8\<close>

lemma encode_bytes_lt: "b \<in> set (encode_bytes r) \<Longrightarrow> b < 256"
  by (auto simp: encode_bytes_def Let_def valid_rune_def rune_error_def split: if_splits)

lemma bytes_of_encode_rune: "bytes_of (encode_rune r) = encode_bytes r"
  using encode_bytes_lt [of _ r]
  by (auto simp: bytes_of_def encode_rune_def intro!: map_idI)

lemma encode_bytes_nonempty [simp]: "encode_bytes r \<noteq> []"
  by (simp add: encode_bytes_def Let_def)

lemma decode_encode2:
  assumes "0x80 \<le> r" "r < 0x800"
  shows "decode_rune ((0xC0 + r div 64) # (0x80 + r mod 64) # bs) = (r, 2)"
proof -
  have "2 \<le> r div 64" "r div 64 \<le> 31" "r mod 64 < 64"
    using assms by auto
  then show ?thesis by (simp add: is_cont_def)
qed

lemma digits64:
  fixes r :: nat
  shows "r div 64 = r div 4096 * 64 + r div 64 mod 64"
    and "r div 4096 = r div 262144 * 64 + r div 4096 mod 64"
proof -
  have "r div 64 = r div 64 div 64 * 64 + r div 64 mod 64"
    by (rule div_mult_mod_eq [symmetric])
  then show "r div 64 = r div 4096 * 64 + r div 64 mod 64"
    by (simp add: div_mult2_eq [symmetric])
  have "r div 4096 = r div 4096 div 64 * 64 + r div 4096 mod 64"
    by (rule div_mult_mod_eq [symmetric])
  then show "r div 4096 = r div 262144 * 64 + r div 4096 mod 64"
    by (simp add: div_mult2_eq [symmetric])
qed

lemma decode_encode3:
  assumes "0x800 \<le> r" "r < 0x10000" "valid_rune r"
  shows "decode_rune ((0xE0 + r div 4096) # (0x80 + r div 64 mod 64) # (0x80 + r mod 64) # bs) = (r, 3)"
proof -
  define a where "a = r div 4096"
  define b where "b = r div 64 mod 64"
  define c where "c = r mod 64"
  have eq: "r = a * 4096 + b * 64 + c"
    using digits64(1) [of r] div_mult_mod_eq [of r 64] unfolding a_def b_def c_def by linarith
  have lt: "b < 64" "c < 64" by (simp_all add: b_def c_def)
  have a: "a \<le> 15" using eq assms(2) by linarith
  have lo: "a = 0 \<Longrightarrow> 32 \<le> b" using assms(1) eq lt by linarith
  have sur: "a = 13 \<Longrightarrow> b \<le> 31" using assms(3) eq lt unfolding valid_rune_def by linarith
  have "decode_rune ((0xE0 + a) # (0x80 + b) # (0x80 + c) # bs) = (r, 3)"
    using eq lt a lo sur by (simp add: is_cont_def)
  then show ?thesis by (simp add: a_def b_def c_def)
qed

lemma decode_encode4:
  assumes "0x10000 \<le> r" "valid_rune r"
  shows "decode_rune ((0xF0 + r div 262144) # (0x80 + r div 4096 mod 64) # (0x80 + r div 64 mod 64)
           # (0x80 + r mod 64) # bs) = (r, 4)"
proof -
  define a where "a = r div 262144"
  define b where "b = r div 4096 mod 64"
  define c where "c = r div 64 mod 64"
  define d where "d = r mod 64"
  have eq: "r = a * 262144 + b * 4096 + c * 64 + d"
    using digits64 [of r] div_mult_mod_eq [of r 64] unfolding a_def b_def c_def d_def by linarith
  have lt: "b < 64" "c < 64" "d < 64" by (simp_all add: b_def c_def d_def)
  have a: "a \<le> 4" using eq assms unfolding valid_rune_def by linarith
  have lo: "a = 0 \<Longrightarrow> 16 \<le> b" using assms(1) eq lt by linarith
  have hi: "a = 4 \<Longrightarrow> b \<le> 15" using assms eq lt unfolding valid_rune_def by linarith
  have "decode_rune ((0xF0 + a) # (0x80 + b) # (0x80 + c) # (0x80 + d) # bs) = (r, 4)"
    using eq lt a lo hi by (simp add: is_cont_def)
  then show ?thesis by (simp add: a_def b_def c_def d_def)
qed

lemma decode_encode:
  assumes "valid_rune r"
  shows "decode_rune (encode_bytes r @ bs) = (r, length (encode_bytes r))"
proof -
  consider "r < 0x80" | "0x80 \<le> r" "r < 0x800" | "0x800 \<le> r" "r < 0x10000" | "0x10000 \<le> r"
    by linarith
  then show ?thesis
  proof cases
    case 1
    with assms show ?thesis by (simp add: encode_bytes_def)
  next
    case 2
    with assms decode_encode2 [of r bs] show ?thesis
      by (simp add: encode_bytes_def del: decode_rune.simps)
  next
    case 3
    with assms decode_encode3 [of r bs] show ?thesis
      by (simp add: encode_bytes_def del: decode_rune.simps)
  next
    case 4
    with assms decode_encode4 [of r bs] show ?thesis
      by (simp add: encode_bytes_def del: decode_rune.simps)
  qed
qed

lemma byte_runes_encode:
  "valid_rune r \<Longrightarrow> byte_runes (encode_bytes r @ bs) = r # byte_runes bs"
proof -
  assume v: "valid_rune r"
  obtain b t where bt: "encode_bytes r = b # t"
    using encode_bytes_nonempty [of r] by (cases "encode_bytes r") auto
  from decode_encode [OF v, of bs] bt show ?thesis
    by (simp del: decode_rune.simps)
qed

text \<open>Reading back what was written: the decoder inverts the encoder on scalar values.\<close>

lemma runes_encode_runes:
  "list_all valid_rune rs \<Longrightarrow> runes (encode_runes rs) = rs"
proof (induction rs)
  case Nil
  then show ?case by (simp add: runes_def encode_runes_def bytes_of_def)
next
  case (Cons r rs)
  have "bytes_of (encode_runes (r # rs)) = encode_bytes r @ bytes_of (encode_runes rs)"
    using bytes_of_encode_rune [of r] by (simp add: encode_runes_def bytes_of_def)
  with Cons show ?case by (simp add: runes_def byte_runes_encode)
qed

lemma runes_Nil [simp]: "runes [] = []"
  by (simp add: runes_def bytes_of_def)

lemma encode_runes_Nil [simp]: "encode_runes [] = []"
  by (simp add: encode_runes_def)

lemma encode_runes_Cons: "encode_runes (r # rs) = encode_rune r @ encode_runes rs"
  by (simp add: encode_runes_def)

lemma encode_runes_append: "encode_runes (rs @ ts) = encode_runes rs @ encode_runes ts"
  by (simp add: encode_runes_def)

lemma encode_rune_nonempty [simp]: "encode_rune r \<noteq> []"
  by (simp add: encode_rune_def)

lemma encode_runes_eq_Nil [simp]: "encode_runes rs = [] \<longleftrightarrow> rs = []"
  by (cases rs) (simp_all add: encode_runes_Cons)

lemma encode_rune_ascii: "r < 0x80 \<Longrightarrow> encode_rune r = [char_of r]"
  by (simp add: encode_rune_def encode_bytes_def valid_rune_def)

lemma valid_utf8_encode: "list_all valid_rune rs \<Longrightarrow> valid_utf8 (encode_runes rs)"
  by (simp add: valid_utf8_def runes_encode_runes)

text \<open>ASCII strings: runes are bytes.\<close>

definition ascii :: "string \<Rightarrow> bool" where
  "ascii s \<longleftrightarrow> list_all (\<lambda>c. of_char c < (0x80 :: nat)) s"

lemma runes_ascii: "ascii s \<Longrightarrow> runes s = map of_char s"
  by (induction s) (simp_all add: ascii_def runes_def bytes_of_def)

lemma encode_runes_ascii: "ascii s \<Longrightarrow> encode_runes (map of_char s) = s"
  by (induction s) (simp_all add: ascii_def encode_runes_Cons encode_rune_ascii)

lemma valid_utf8_ascii: "ascii s \<Longrightarrow> valid_utf8 s"
  by (auto simp: valid_utf8_def runes_ascii encode_runes_ascii)
    (auto simp: ascii_def list_all_iff valid_rune_def)

end
