(* ===== verification/Go_Net.thy ===== *)
theory Go_Net
  imports Go_Base
begin

text \<open>
  The part of Go's \<open>net\<close> package that the address code calls: \<open>net.ParseIP\<close>, here only
  whether the text is an address (the code compares the result with nil). IPv4 is dotted decimal
  without leading zeros; IPv6 follows \<open>netip.ParseAddr\<close>, with a scope zone refused.
\<close>

definition is_digit :: "char \<Rightarrow> bool" where
  "is_digit c \<longleftrightarrow> c \<in> set ''0123456789''"

definition is_hex :: "char \<Rightarrow> bool" where
  "is_hex c \<longleftrightarrow> c \<in> set ''0123456789abcdefABCDEF''"

definition dec_val :: "string \<Rightarrow> nat" where
  "dec_val s = fold (\<lambda>c v. v * 10 + (of_char c - of_char CHR ''0'')) s 0"

definition ipv4_field :: "string \<Rightarrow> bool" where
  "ipv4_field s \<longleftrightarrow> s \<noteq> [] \<and> list_all is_digit s \<and> length s \<le> 3 \<and> dec_val s \<le> 255
     \<and> (length s = 1 \<or> hd s \<noteq> CHR ''0'')"

definition parse_ipv4 :: "string \<Rightarrow> bool" where
  "parse_ipv4 s = (let fs = SplitByte s CHR ''.'' in length fs = 4 \<and> list_all ipv4_field fs)"

text \<open>The loop of \<open>parseIPv6\<close>: \<open>i\<close> bytes are written, \<open>ell\<close> says whether \<open>::\<close> was seen.\<close>

function ipv6_loop :: "nat \<Rightarrow> bool \<Rightarrow> string \<Rightarrow> bool" where
  "ipv6_loop i ell s =
     (if 16 \<le> i then s = [] \<and> \<not> ell
      else
        let digs = takeWhile is_hex s; rest = dropWhile is_hex s in
        if digs = [] \<or> 4 < length digs then False
        else if rest \<noteq> [] \<and> hd rest = CHR ''.'' then
          (ell \<or> i = 12) \<and> i + 4 \<le> 16 \<and> parse_ipv4 s \<and> (if i + 4 < 16 then ell else \<not> ell)
        else if rest = [] then (if i + 2 < 16 then ell else \<not> ell)
        else if hd rest \<noteq> CHR '':'' \<or> length rest = 1 then False
        else
          let s1 = tl rest in
          if hd s1 = CHR '':'' then
            (if ell then False
             else if tl s1 = [] then i + 2 < 16
             else ipv6_loop (i + 2) True (tl s1))
          else ipv6_loop (i + 2) ell s1)"
  by pat_completeness auto
termination
  by (relation "measure (\<lambda>(i, ell, s). 16 - i)") auto

definition parse_ipv6 :: "string \<Rightarrow> bool" where
  "parse_ipv6 s =
     (if take 2 s = ''::'' then (if drop 2 s = [] then True else ipv6_loop 0 True (drop 2 s))
      else ipv6_loop 0 False s)"

text \<open>\<open>net.ParseIP(s) != nil\<close>: the first of \<open>.\<close>, \<open>:\<close> and \<open>%\<close> selects the parser.\<close>

definition ParseIP :: "string \<Rightarrow> bool" where
  "ParseIP s =
     (case find (\<lambda>c. c \<in> {CHR ''.'', CHR '':'', CHR ''%''}) s of
        None \<Rightarrow> False
      | Some c \<Rightarrow>
          if c = CHR ''.'' then parse_ipv4 s
          else if c = CHR '':'' then CHR ''%'' \<notin> set s \<and> parse_ipv6 s
          else False)"

end
