(* ===== verification/Exterrors.thy ===== *)
theory Exterrors
  imports Go_Base
begin

text \<open>
  Model of \<^verbatim>\<open>framework/exterrors\<close>: the error values of the server, their chain of
  \<open>Unwrap\<close> methods, the classification into temporary and permanent failures, and the
  fields collected along the chain.

  An error value is one of the wrapper types of the package, a formatted wrapper
  (\<open>fmt.Errorf\<close> with \<open>%w\<close>), the \<open>*smtp.SMTPError\<close> of the SMTP library, or an opaque error.
  Errors that come from outside the package carry what their \<open>Temporary()\<close> method returns, if
  they have one.
\<close>

section \<open>Error values\<close>

type_synonym ench = "int \<times> int \<times> int"

text \<open>Values of \<open>interface{}\<close> stored as error fields. The enhanced codes of
  \<^verbatim>\<open>exterrors\<close> and of \<^verbatim>\<open>go-smtp\<close> are distinct dynamic types; \<open>FOther\<close> is a value of
  any other type, by its text.\<close>

datatype fval = FNil | FInt int | FStr string | FEnch ench | FSmtpEnch ench | FOther string

type_synonym fields = "string \<rightharpoonup> fval"

record smtp_info =
  Code :: int
  EnhancedCode :: ench
  Message :: string
  CheckName :: string
  TargetName :: string
  ModifierName :: string
  Reason :: string
  Misc :: fields

datatype goerr =
    Opaque string "bool option"
  | Wrapf string goerr
  | TemporaryErr goerr bool
  | FieldsWrap goerr fields
  | SMTPError smtp_info "goerr option"
  | LibSMTPError int ench string "bool option"

definition WithTemporary :: "goerr \<Rightarrow> bool \<Rightarrow> goerr" where
  "WithTemporary err temporary = TemporaryErr err temporary"

definition WithFields :: "goerr \<Rightarrow> fields \<Rightarrow> goerr" where
  "WithFields err fs = FieldsWrap err fs"

text \<open>The \<open>Error()\<close> method.\<close>

fun Error :: "goerr \<Rightarrow> string" where
  "Error (Opaque msg t) = msg"
| "Error (Wrapf pre e) = pre @ Error e"
| "Error (TemporaryErr e b) = Error e"
| "Error (FieldsWrap e f) = Error e"
| "Error (SMTPError se c) =
     (if Reason se \<noteq> '''' then Reason se
      else case c of Some e \<Rightarrow> Error e | None \<Rightarrow> Message se)"
| "Error (LibSMTPError c ec msg t) = msg"

text \<open>The \<open>Unwrap()\<close> method; \<^term>\<open>None\<close> for a type without it and for a nil result.\<close>

fun Unwrap :: "goerr \<Rightarrow> goerr option" where
  "Unwrap (Wrapf pre e) = Some e"
| "Unwrap (TemporaryErr e b) = Some e"
| "Unwrap (FieldsWrap e f) = Some e"
| "Unwrap (SMTPError se c) = c"
| "Unwrap _ = None"

definition smtp_Temporary :: "smtp_info \<Rightarrow> bool" where
  "smtp_Temporary se \<longleftrightarrow> go_quot (Code se) 100 = 4"

section \<open>Classification\<close>

text \<open>\<open>errors.As\<close> with a target of type \<open>TemporaryErr\<close>: the answer of the first error of the
  chain that has a \<open>Temporary()\<close> method.\<close>

fun as_temporary :: "goerr \<Rightarrow> bool option" where
  "as_temporary (Opaque msg t) = t"
| "as_temporary (Wrapf pre e) = as_temporary e"
| "as_temporary (TemporaryErr e b) = Some b"
| "as_temporary (FieldsWrap e f) = as_temporary e"
| "as_temporary (SMTPError se c) = Some (smtp_Temporary se)"
| "as_temporary (LibSMTPError c ec msg t) = t"

text \<open>A nil error has no \<open>Temporary()\<close> method.\<close>

definition IsTemporaryOrUnspec :: "goerr option \<Rightarrow> bool" where
  "IsTemporaryOrUnspec err =
     (case Option.bind err as_temporary of Some t \<Rightarrow> t | None \<Rightarrow> True)"

definition IsTemporary :: "goerr option \<Rightarrow> bool" where
  "IsTemporary err =
     (case Option.bind err as_temporary of Some t \<Rightarrow> t | None \<Rightarrow> False)"

definition SMTPCode :: "goerr option \<Rightarrow> int \<Rightarrow> int \<Rightarrow> int" where
  "SMTPCode err temporaryCode permanentCode =
     (if IsTemporary err then temporaryCode else permanentCode)"

text \<open>The first number is assigned twice, as in the source.\<close>

definition SMTPEnchCode :: "goerr option \<Rightarrow> ench \<Rightarrow> ench" where
  "SMTPEnchCode err code =
     (let code = (if IsTemporary err then (4, snd code) else code);
          code = (5, snd code)
      in code)"

section \<open>Fields\<close>

text \<open>The \<open>Fields()\<close> method of \<open>*SMTPError\<close>.\<close>

definition smtp_Fields :: "smtp_info \<Rightarrow> goerr option \<Rightarrow> fields" where
  "smtp_Fields se c =
     (let ctx = (Misc se)
            (''smtp_code'' \<mapsto> FInt (Code se),
             ''smtp_enchcode'' \<mapsto> FEnch (EnhancedCode se),
             ''smtp_msg'' \<mapsto> FStr (Message se));
          ctx = (if CheckName se \<noteq> '''' then ctx(''check'' \<mapsto> FStr (CheckName se)) else ctx);
          ctx = (if TargetName se \<noteq> '''' then ctx(''target'' \<mapsto> FStr (TargetName se)) else ctx)
      in if Reason se \<noteq> '''' then ctx(''reason'' \<mapsto> FStr (Reason se))
         else case c of
                Some e \<Rightarrow> ctx(''reason'' \<mapsto> FStr (Error e))
              | None \<Rightarrow> ctx)"

text \<open>The \<open>Fields()\<close> method of an error, for the types that have it.\<close>

fun own_fields :: "goerr \<Rightarrow> fields option" where
  "own_fields (FieldsWrap e f) = Some f"
| "own_fields (SMTPError se c) = Some (smtp_Fields se c)"
| "own_fields _ = None"

text \<open>The inner loop of \<open>Fields\<close>: a field already present and not nil is kept.\<close>

definition merge_fields :: "fields \<Rightarrow> fields \<Rightarrow> fields" where
  "merge_fields acc new =
     (\<lambda>k. case new k of
            None \<Rightarrow> acc k
          | Some v \<Rightarrow> (case acc k of
                         None \<Rightarrow> Some v
                       | Some w \<Rightarrow> if w \<noteq> FNil then Some w else Some v))"

definition add_own :: "fields \<Rightarrow> goerr \<Rightarrow> fields" where
  "add_own acc e = (case own_fields e of Some f \<Rightarrow> merge_fields acc f | None \<Rightarrow> acc)"

lemma size_Unwrap [termination_simp]: "Unwrap e = Some e' \<Longrightarrow> size e' < size e"
  by (cases e) auto

fun fields_loop :: "fields \<Rightarrow> goerr \<Rightarrow> fields" where
  "fields_loop acc err =
     (case Unwrap err of
        None \<Rightarrow> add_own acc err
      | Some e \<Rightarrow> fields_loop (add_own acc err) e)"

declare fields_loop.simps [simp del]

definition Fields :: "goerr option \<Rightarrow> fields" where
  "Fields err = (case err of None \<Rightarrow> Map.empty | Some e \<Rightarrow> fields_loop Map.empty e)"

section \<open>Lemmas\<close>

text \<open>A classification of errors that looks through wrappers.\<close>

locale error_classifier =
  fixes temporary :: "goerr option \<Rightarrow> bool"
  assumes with_temporary: "temporary (Some (WithTemporary e b)) = b"
    and with_fields: "temporary (Some (WithFields e f)) = temporary (Some e)"
    and wrapped: "temporary (Some (Wrapf p e)) = temporary (Some e)"
    and smtp: "temporary (Some (SMTPError se c)) = smtp_Temporary se"
begin

text \<open>Any number of field wrappers around an error keeps its class.\<close>

lemma with_many_fields: "temporary (Some (fold (\<lambda>f e. WithFields e f) fs e)) = temporary (Some e)"
  by (induction fs arbitrary: e) (simp_all add: with_fields)

lemma override_below_fields:
  "temporary (Some (fold (\<lambda>f e. WithFields e f) fs (WithTemporary e b))) = b"
  by (simp add: with_many_fields with_temporary)

end

interpretation unspec: error_classifier IsTemporaryOrUnspec
  by unfold_locales (simp_all add: IsTemporaryOrUnspec_def WithTemporary_def WithFields_def)

interpretation strict: error_classifier IsTemporary
  by unfold_locales (simp_all add: IsTemporary_def WithTemporary_def WithFields_def)

lemma smtp_Temporary_iff: "smtp_Temporary se \<longleftrightarrow> 400 \<le> Code se \<and> Code se < 500"
proof (cases "0 \<le> Code se")
  case True
  then show ?thesis by (auto simp: smtp_Temporary_def go_quot_pos)
next
  case False
  then have "go_quot (Code se) 100 \<le> 0"
    by (simp add: go_quot_def sgn_if div_int_pos_iff)
  with False show ?thesis by (simp add: smtp_Temporary_def)
qed

lemma IsTemporary_imp_unspec: "IsTemporary err \<Longrightarrow> IsTemporaryOrUnspec err"
  by (auto simp: IsTemporary_def IsTemporaryOrUnspec_def split: option.splits)

lemma merge_fields_empty [simp]:
  "merge_fields Map.empty f = f" "merge_fields f Map.empty = f"
  by (auto simp: merge_fields_def fun_eq_iff split: option.splits)

lemma merge_fields_assoc:
  "merge_fields (merge_fields a b) c = merge_fields a (merge_fields b c)"
  by (rule ext) (auto simp: merge_fields_def split: option.splits)

text \<open>The loop of \<open>Fields\<close> merges the accumulated fields with those of the rest of the chain.\<close>

lemma fields_loop_merge: "fields_loop acc err = merge_fields acc (fields_loop Map.empty err)"
proof (induction err arbitrary: acc rule: measure_induct_rule [of size])
  case (less err)
  have own: "add_own acc err = merge_fields acc (add_own Map.empty err)"
    by (simp add: add_own_def split: option.split)
  show ?case
  proof (cases "Unwrap err")
    case None
    with own show ?thesis by (simp add: fields_loop.simps)
  next
    case (Some e)
    have "fields_loop a err = merge_fields (add_own a err) (fields_loop Map.empty e)" for a
      using less.IH [OF size_Unwrap [OF Some], of "add_own a err"] Some
      by (simp add: fields_loop.simps [of a err])
    with own show ?thesis by (simp add: merge_fields_assoc)
  qed
qed

lemma Fields_unfold:
  "Fields (Some w) = merge_fields (case own_fields w of Some f \<Rightarrow> f | None \<Rightarrow> Map.empty) (Fields (Unwrap w))"
  using fields_loop_merge [of "add_own Map.empty w"]
  by (auto simp: Fields_def fields_loop.simps [of Map.empty w] add_own_def split: option.split)

section \<open>Properties\<close>

text \<open>Classification of wrapped errors: a temporary flag set with \<open>WithTemporary\<close> decides both
  classifications of the error, whatever the error inside says and however many layers of fields
  are wrapped around it; without any flag in the chain the two classifications differ.\<close>

theorem temporary_override:
  "IsTemporary (Some (fold (\<lambda>f e. WithFields e f) fs (WithTemporary e b))) = b \<and>
   IsTemporaryOrUnspec (Some (fold (\<lambda>f e. WithFields e f) fs (WithTemporary e b))) = b \<and>
   IsTemporary (Some (fold (\<lambda>f e. WithFields e f) fs (Opaque msg None))) = False \<and>
   IsTemporaryOrUnspec (Some (fold (\<lambda>f e. WithFields e f) fs (Opaque msg None))) = True"
  using strict.with_many_fields unspec.with_many_fields
  by (simp add: strict.override_below_fields unspec.override_below_fields)
     (simp add: IsTemporary_def IsTemporaryOrUnspec_def WithTemporary_def)

text \<open>The enhanced code of \<open>SMTPEnchCode\<close> is always permanent: the class 4 chosen for a
  temporary error is overwritten with 5, so a temporary failure is reported as 5.x.x together with
  the temporary code of \<open>SMTPCode\<close>.\<close>

theorem smtp_ench_code_always_permanent:
  "SMTPEnchCode err code = (5, snd code) \<and>
   SMTPCode (Some (WithTemporary e True)) t p = t \<and> fst (SMTPEnchCode (Some (WithTemporary e True)) code) = 5"
  by (simp add: SMTPEnchCode_def SMTPCode_def IsTemporary_def WithTemporary_def)

end
