(* ===== verification/Address.thy ===== *)
theory Address
  imports Go_Net Exterrors
begin

text \<open>
  Model of \<^verbatim>\<open>framework/address\<close> and \<^verbatim>\<open>framework/dns/norm.go\<close>: splitting, quoting,
  validating and normalizing e-mail addresses.

  The tables of Unicode and the packages \<^verbatim>\<open>idna\<close>, \<^verbatim>\<open>norm\<close> and
  \<^verbatim>\<open>precis\<close> are not part of the repository: they are the fields of the record
  \<open>textlib\<close>, an argument of every definition that uses them. A Go function with the results
  \<open>(string, error)\<close> is modelled by a pair, because callers use the string next to an error.
\<close>

section \<open>External text functions\<close>

record textlib =
  idna_ToASCII :: "string \<Rightarrow> string \<times> goerr option"
  idna_ToUnicode :: "string \<Rightarrow> string \<times> goerr option"
  nfc_String :: "string \<Rightarrow> string"
  unicode_ToLower :: "rune \<Rightarrow> rune"
  precis_CaseMapped :: "string \<Rightarrow> string \<times> goerr option"
  precis_CasePreserved :: "string \<Rightarrow> string \<times> goerr option"

definition errors_New :: "string \<Rightarrow> goerr" where
  "errors_New msg = Opaque msg None"

definition ascii_lower_rune :: "rune \<Rightarrow> rune" where
  "ascii_lower_rune r = (if 0x41 \<le> r \<and> r \<le> 0x5A then r + 0x20 else r)"

text \<open>\<open>strings.ToLower\<close>: byte-wise on ASCII strings, rune-wise otherwise.\<close>

definition ToLower :: "textlib \<Rightarrow> string \<Rightarrow> string" where
  "ToLower lib s =
     encode_runes (map (\<lambda>r. if r < 0x80 then ascii_lower_rune r else unicode_ToLower lib r) (runes s))"

text \<open>\<open>strings.EqualFold\<close> against a lower-case ASCII constant: Unicode simple folding adds only
  U+017F (for \<open>s\<close>) and U+212A (for \<open>k\<close>) to the ASCII letters.\<close>

definition fold_matches :: "rune \<Rightarrow> char \<Rightarrow> bool" where
  "fold_matches r c \<longleftrightarrow> ascii_lower_rune r = of_char c
     \<or> (c = CHR ''s'' \<and> r = 0x17F) \<or> (c = CHR ''k'' \<and> r = 0x212A)"

definition EqualFoldASCII :: "string \<Rightarrow> string \<Rightarrow> bool" where
  "EqualFoldASCII s t = list_all2 fold_matches (runes s) t"

section \<open>Splitting and quoting (split.go)\<close>

datatype split_err = MissingAt | EmptyLocal | EmptyDomain

definition split_error :: "split_err \<Rightarrow> goerr" where
  "split_error e = errors_New (case e of
      MissingAt \<Rightarrow> ''address: missing at-sign''
    | EmptyLocal \<Rightarrow> ''address: empty local-part''
    | EmptyDomain \<Rightarrow> ''address: empty domain'')"

definition Split :: "string \<Rightarrow> string \<times> string \<times> goerr option" where
  "Split addr =
     (if EqualFoldASCII addr ''postmaster'' then (addr, '''', None)
      else case LastIndexByte addr CHR ''@'' of
        None \<Rightarrow> ('''', '''', Some (split_error MissingAt))
      | Some indx \<Rightarrow>
          let mailbox = take indx addr; domain = drop (indx + 1) addr in
          if mailbox = '''' then ('''', '''', Some (split_error EmptyLocal))
          else if domain = '''' then ('''', '''', Some (split_error EmptyDomain))
          else (mailbox, domain, None))"

abbreviation "q_quote \<equiv> (0x22 :: rune)"
abbreviation "q_backslash \<equiv> (0x5C :: rune)"
abbreviation "q_at \<equiv> (0x40 :: rune)"

datatype unquote_err = QuoteNotLast | EscapeOutside | ExtraAt | EmptyResult

definition unquote_error :: "unquote_err \<Rightarrow> goerr" where
  "unquote_error e = errors_New (case e of
      QuoteNotLast \<Rightarrow> ''address: closing quote should be right before at-sign''
    | EscapeOutside \<Rightarrow> ''address: escapes are allowed only in quoted strings''
    | ExtraAt \<Rightarrow> ''address: extra at-sign in non-quoted local-part''
    | EmptyResult \<Rightarrow> ''address: empty local part'')"

text \<open>The loop of \<open>UnquoteMbox\<close> with its three flags and the builder's content so far.\<close>

fun unquote_loop :: "bool \<Rightarrow> bool \<Rightarrow> bool \<Rightarrow> rune list \<Rightarrow> rune list \<Rightarrow> unquote_err + rune list" where
  "unquote_loop quoted escaped terminatedQuote b [] = Inr b"
| "unquote_loop quoted escaped terminatedQuote b (ch # rest) =
     (if terminatedQuote then Inl QuoteNotLast
      else if ch = q_quote \<and> \<not> escaped then
        unquote_loop (\<not> quoted) escaped (if quoted then True else terminatedQuote) b rest
      else if ch = q_backslash \<and> \<not> escaped then
        (if \<not> quoted then Inl EscapeOutside
         else unquote_loop quoted True terminatedQuote b rest)
      else if ch = q_at \<and> \<not> quoted then Inl ExtraAt
      else unquote_loop quoted False terminatedQuote (b @ [ch]) rest)"

definition UnquoteMbox :: "string \<Rightarrow> string \<times> goerr option" where
  "UnquoteMbox mbox =
     (case unquote_loop False False False [] (runes mbox) of
        Inl e \<Rightarrow> ('''', Some (unquote_error e))
      | Inr b \<Rightarrow>
          if encode_runes b = '''' then ('''', Some (unquote_error EmptyResult))
          else (encode_runes b, None))"

definition mboxSpecial :: "rune \<Rightarrow> bool" where
  "mboxSpecial ch \<longleftrightarrow> ch \<in> set (map of_char ''()<>[]:;@, '') \<union> {q_backslash, q_quote}"

fun quote_loop :: "rune list \<Rightarrow> rune list \<times> bool" where
  "quote_loop [] = ([], False)"
| "quote_loop (ch # rest) =
     (case quote_loop rest of (out, quoted) \<Rightarrow>
        if mboxSpecial ch then
          ((if ch = q_backslash \<or> ch = q_quote then q_backslash # ch # out else ch # out), True)
        else (ch # out, quoted))"

definition QuoteMbox :: "string \<Rightarrow> string" where
  "QuoteMbox mbox =
     (case quote_loop (runes mbox) of (esc, quoted) \<Rightarrow>
        if quoted then [CHR 0x22] @ encode_runes esc @ [CHR 0x22] else mbox)"

section \<open>Validation (validation.go)\<close>

definition validGraphic :: "rune \<Rightarrow> bool" where
  "validGraphic ch \<longleftrightarrow> ch \<in> set (map of_char ''!#$%&*+-/=?^_`{|}~.'') \<union> {0x27}"

definition valid_plain_rune :: "rune \<Rightarrow> bool" where
  "valid_plain_rune ch \<longleftrightarrow> validGraphic ch
     \<or> (0x30 \<le> ch \<and> ch \<le> 0x39) \<or> (0x41 \<le> ch \<and> ch \<le> 0x5A) \<or> (0x61 \<le> ch \<and> ch \<le> 0x7A)
     \<or> 0x7F < ch"

definition control_rune :: "rune \<Rightarrow> bool" where
  "control_rune ch \<longleftrightarrow> ch < 0x20 \<or> ch = 0x7F"

definition ValidMailboxName :: "string \<Rightarrow> bool" where
  "ValidMailboxName mbox =
     (if HasPrefix mbox [CHR 0x22] then
        (case UnquoteMbox mbox of
           (raw, Some err) \<Rightarrow> False
         | (raw, None) \<Rightarrow> list_all (\<lambda>ch. \<not> control_rune ch) (runes raw))
      else list_all valid_plain_rune (runes mbox))"

definition ValidDomain :: "textlib \<Rightarrow> string \<Rightarrow> bool" where
  "ValidDomain lib domain =
     (if HasPrefix domain ''['' \<and> HasSuffix domain '']'' then
        ParseIP (take (length domain - 2) (drop 1 domain))
      else if 255 < length domain \<or> length domain = 0 then False
      else if HasPrefix domain ''.'' then False
      else if Contains domain ''..'' then False
      else case idna_ToASCII lib domain of
        (_, Some err) \<Rightarrow> False
      | (domainASCII, None) \<Rightarrow>
          list_all (\<lambda>label. \<not> 64 < length label) (SplitByte domainASCII CHR ''.''))"

definition Valid :: "textlib \<Rightarrow> string \<Rightarrow> bool" where
  "Valid lib addr =
     (if 320 < length addr then False
      else case Split addr of
        (_, _, Some err) \<Rightarrow> False
      | (mbox, domain, None) \<Rightarrow>
          if domain = '''' then True
          else ValidMailboxName mbox \<and> ValidDomain lib domain)"

section \<open>Normalization (norm.go, rfc6531.go, dns/norm.go, dns/idna.go)\<close>

definition WrapIP :: "string \<Rightarrow> string" where
  "WrapIP domain =
     (let trimmed = TrimSet domain {CHR ''['', CHR '']''} in
      if ParseIP trimmed then ''['' @ trimmed @ '']'' else domain)"

definition NormalizeUsername :: "string \<Rightarrow> string" where
  "NormalizeUsername username =
     (let parts = SplitByte username CHR ''@'' in
      if length parts = 2 then parts ! 0 @ ''@'' @ WrapIP (parts ! 1) else WrapIP username)"

definition dns_ForLookup :: "textlib \<Rightarrow> string \<Rightarrow> string \<times> goerr option" where
  "dns_ForLookup lib domain =
     (if HasPrefix domain ''['' \<and> HasSuffix domain '']''
         \<and> ParseIP (take (length domain - 2) (drop 1 domain))
      then (domain, None)
      else case idna_ToUnicode lib domain of
        (_, Some err) \<Rightarrow> (ToLower lib domain, Some err)
      | (uDomain, None) \<Rightarrow>
          (TrimSuffix (ToLower lib (nfc_String lib uDomain)) ''.'', None))"

definition dns_Equal :: "textlib \<Rightarrow> string \<Rightarrow> string \<Rightarrow> bool" where
  "dns_Equal lib domain1 domain2 =
     (if domain1 = domain2 then True
      else fst (dns_ForLookup lib domain1) = fst (dns_ForLookup lib domain2))"

definition dns_SelectIDNA :: "textlib \<Rightarrow> bool \<Rightarrow> string \<Rightarrow> string \<times> goerr option" where
  "dns_SelectIDNA lib ulabel domain =
     (if ulabel then (case idna_ToUnicode lib domain of (u, err) \<Rightarrow> (nfc_String lib u, err))
      else idna_ToASCII lib domain)"

definition ForLookup :: "textlib \<Rightarrow> string \<Rightarrow> string \<times> goerr option" where
  "ForLookup lib addr =
     (if addr = '''' then ('''', None)
      else case Split addr of
        (_, _, Some err) \<Rightarrow> (ToLower lib addr, Some err)
      | (mbox, domain, None) \<Rightarrow>
          (case (if domain \<noteq> '''' then dns_ForLookup lib domain else (domain, None)) of
             (_, Some err) \<Rightarrow> (ToLower lib addr, Some err)
           | (domain, None) \<Rightarrow>
               let mbox = ToLower lib (nfc_String lib mbox) in
               if domain = '''' then (mbox, None) else (mbox @ ''@'' @ domain, None)))"

definition CleanDomain :: "textlib \<Rightarrow> string \<Rightarrow> string \<times> goerr option" where
  "CleanDomain lib addr =
     (if addr = '''' then ('''', None)
      else case Split addr of
        (_, _, Some err) \<Rightarrow> (addr, Some err)
      | (mbox, domain, None) \<Rightarrow>
          (case idna_ToUnicode lib domain of
             (_, Some err) \<Rightarrow> (addr, Some err)
           | (uDomain, None) \<Rightarrow>
               let uDomain = ToLower lib (nfc_String lib uDomain) in
               if domain = '''' then (mbox, None) else (mbox @ ''@'' @ uDomain, None)))"

definition Equal :: "textlib \<Rightarrow> string \<Rightarrow> string \<Rightarrow> bool" where
  "Equal lib addr1 addr2 =
     (if addr1 = addr2 then True
      else fst (ForLookup lib addr1) = fst (ForLookup lib addr2))"

definition IsASCII :: "string \<Rightarrow> bool" where
  "IsASCII s = list_all (\<lambda>ch. \<not> 0x80 < ch) (runes s)"

definition FQDNDomain :: "string \<Rightarrow> string" where
  "FQDNDomain addr = (if HasSuffix addr ''.'' then addr else addr @ ''.'')"

definition precisEmail ::
  "textlib \<Rightarrow> string \<Rightarrow> (string \<Rightarrow> string \<times> goerr option) \<Rightarrow> string \<times> goerr option" where
  "precisEmail lib addr profile =
     (case Split addr of
        (_, _, Some err) \<Rightarrow> ('''', Some (Wrapf ''address: precis: '' err))
      | (mbox, domain, None) \<Rightarrow>
          (case profile mbox of
             (_, Some err) \<Rightarrow> ('''', Some (Wrapf ''address: precis: '' err))
           | (mbox, None) \<Rightarrow>
               (case dns_ForLookup lib domain of
                  (_, Some err) \<Rightarrow> ('''', Some (Wrapf ''address: precis: '' err))
                | (domain, None) \<Rightarrow> (mbox @ ''@'' @ WrapIP domain, None))))"

definition PRECISFold :: "textlib \<Rightarrow> string \<Rightarrow> string \<times> goerr option" where
  "PRECISFold lib addr = precisEmail lib addr (precis_CaseMapped lib)"

definition PRECIS :: "textlib \<Rightarrow> string \<Rightarrow> string \<times> goerr option" where
  "PRECIS lib addr = precisEmail lib addr (precis_CasePreserved lib)"

definition ErrUnicodeMailbox :: goerr where
  "ErrUnicodeMailbox = errors_New ''address: cannot convert the Unicode local-part to the ACE form''"

definition ToASCII :: "textlib \<Rightarrow> string \<Rightarrow> string \<times> goerr option" where
  "ToASCII lib addr =
     (case Split addr of
        (_, _, Some err) \<Rightarrow> (addr, Some err)
      | (mbox, domain, None) \<Rightarrow>
          if list_ex (\<lambda>ch. 128 < ch) (runes mbox) then (addr, Some ErrUnicodeMailbox)
          else if domain = '''' then (mbox, None)
          else (case idna_ToASCII lib domain of
                  (_, Some err) \<Rightarrow> (addr, Some err)
                | (aDomain, None) \<Rightarrow> (mbox @ ''@'' @ aDomain, None)))"

definition ToUnicode :: "textlib \<Rightarrow> string \<Rightarrow> string \<times> goerr option" where
  "ToUnicode lib addr =
     (case Split addr of
        (_, _, Some err) \<Rightarrow> (nfc_String lib addr, Some err)
      | (mbox, domain, None) \<Rightarrow>
          if domain = '''' then (mbox, None)
          else (case idna_ToUnicode lib domain of
                  (_, Some err) \<Rightarrow> (nfc_String lib addr, Some err)
                | (uDomain, None) \<Rightarrow> (mbox @ ''@'' @ nfc_String lib uDomain, None)))"

definition SelectIDNA :: "textlib \<Rightarrow> bool \<Rightarrow> string \<Rightarrow> string \<times> goerr option" where
  "SelectIDNA lib ulabel addr = (if ulabel then ToUnicode lib addr else ToASCII lib addr)"

section \<open>Lemmas\<close>

lemma Split_join:
  assumes "Split addr = (mbox, domain, None)" "domain \<noteq> ''''"
  shows "addr = mbox @ ''@'' @ domain \<and> mbox \<noteq> '''' \<and> CHR ''@'' \<notin> set domain"
proof -
  from assms have np: "\<not> EqualFoldASCII addr ''postmaster''"
    by (auto simp: Split_def split: if_splits)
  with assms obtain i where i: "LastIndexByte addr CHR ''@'' = Some i"
    and "mbox = take i addr" "domain = drop (Suc i) addr" "mbox \<noteq> ''''"
    by (auto simp: Split_def Let_def split: option.splits if_splits)
  with LastIndexByte_Some [OF i] show ?thesis by simp
qed

lemma Split_complete:
  assumes "mbox \<noteq> ''''" "domain \<noteq> ''''" "CHR ''@'' \<notin> set domain"
    and "\<not> EqualFoldASCII (mbox @ ''@'' @ domain) ''postmaster''"
  shows "Split (mbox @ ''@'' @ domain) = (mbox, domain, None)"
  using assms LastIndexByte_append [of "CHR ''@''" domain mbox]
  by (simp add: Split_def)

lemma char_of_quote: "char_of q_quote = CHR 0x22"
  by code_simp

lemma quote_loop_quoted: "snd (quote_loop rs) = list_ex mboxSpecial rs"
  by (induction rs) (auto split: prod.splits)

lemma quote_loop_valid:
  "list_all valid_rune rs \<Longrightarrow> list_all valid_rune (fst (quote_loop rs))"
  by (induction rs) (auto simp: valid_rune_def split: prod.splits)

lemma unquote_plain:
  "\<not> list_ex mboxSpecial rs \<Longrightarrow> unquote_loop False False False b rs = Inr (b @ rs)"
  by (induction rs arbitrary: b) (auto simp: mboxSpecial_def)

text \<open>Inside quotes the escaped text reads back as the original, and the closing quote ends it.\<close>

lemma unquote_quoted:
  "unquote_loop True False False b (fst (quote_loop rs) @ [q_quote]) = Inr (b @ rs)"
proof (induction rs arbitrary: b)
  case Nil
  then show ?case by simp
next
  case (Cons ch rs)
  then show ?case
    by (cases "ch = q_backslash \<or> ch = q_quote") (auto simp: mboxSpecial_def split: prod.splits)
qed

lemma runes_QuoteMbox:
  assumes "valid_utf8 m" "list_ex mboxSpecial (runes m)"
  shows "runes (QuoteMbox m) = q_quote # fst (quote_loop (runes m)) @ [q_quote]"
proof -
  let ?e = "fst (quote_loop (runes m))"
  have v: "list_all valid_rune (q_quote # ?e @ [q_quote])"
    using assms(1) quote_loop_valid by (simp add: valid_utf8_def valid_rune_def)
  have "QuoteMbox m = encode_runes (q_quote # ?e @ [q_quote])"
    using assms(2) quote_loop_quoted [of "runes m"]
    by (simp add: QuoteMbox_def case_prod_beta encode_runes_Cons encode_runes_append
          encode_rune_ascii char_of_quote)
  with runes_encode_runes [OF v] show ?thesis by simp
qed

lemma QuoteMbox_plain: "\<not> list_ex mboxSpecial (runes m) \<Longrightarrow> QuoteMbox m = m"
  using quote_loop_quoted [of "runes m"] by (simp add: QuoteMbox_def case_prod_beta)

lemma UnquoteMbox_QuoteMbox:
  assumes "valid_utf8 m" "m \<noteq> ''''"
  shows "UnquoteMbox (QuoteMbox m) = (m, None)"
proof (cases "list_ex mboxSpecial (runes m)")
  case True
  have "unquote_loop False False False [] (runes (QuoteMbox m)) = Inr (runes m)"
    using runes_QuoteMbox [OF assms(1) True] unquote_quoted [of "[]" "runes m"] by simp
  with assms show ?thesis by (simp add: UnquoteMbox_def valid_utf8_def)
next
  case False
  with assms unquote_plain [OF False, of "[]"] QuoteMbox_plain [OF False] show ?thesis
    by (simp add: UnquoteMbox_def valid_utf8_def)
qed

text \<open>Every rune is special, a control character or allowed without quotes.\<close>

lemma rune_classes: "mboxSpecial ch \<or> control_rune ch \<or> valid_plain_rune ch"
  unfolding mboxSpecial_def control_rune_def valid_plain_rune_def validGraphic_def
  by simp presburger

lemma runes_no_quote_prefix:
  "\<not> list_ex mboxSpecial (runes m) \<Longrightarrow> \<not> HasPrefix m [CHR 0x22]"
proof
  assume plain: "\<not> list_ex mboxSpecial (runes m)" and "HasPrefix m [CHR 0x22]"
  then obtain t where m: "m = CHR 0x22 # t"
    by (cases m) (auto simp: HasPrefix_def)
  then have "runes m = q_quote # runes t"
    by (simp add: runes_def bytes_of_def)
  with plain show False by (simp add: mboxSpecial_def)
qed

lemma ValidMailboxName_QuoteMbox:
  assumes "valid_utf8 m" "m \<noteq> ''''" "list_all (\<lambda>ch. \<not> control_rune ch) (runes m)"
  shows "ValidMailboxName (QuoteMbox m)"
proof (cases "list_ex mboxSpecial (runes m)")
  case True
  then have "HasPrefix (QuoteMbox m) [CHR 0x22]"
    using quote_loop_quoted [of "runes m"] by (simp add: QuoteMbox_def case_prod_beta HasPrefix_def)
  with UnquoteMbox_QuoteMbox [OF assms(1,2)] assms(3) show ?thesis
    by (simp add: ValidMailboxName_def)
next
  case False
  with assms(3) have "list_all valid_plain_rune (runes m)"
    using rune_classes by (auto simp: list_all_iff list_ex_iff)
  with False runes_no_quote_prefix [OF False] show ?thesis
    by (simp add: ValidMailboxName_def QuoteMbox_plain)
qed

lemma TrimSet_idem: "TrimSet (TrimSet s cs) cs = TrimSet s cs"
proof -
  let ?P = "\<lambda>c. c \<in> cs"
  have hd: "t = [] \<or> hd t \<notin> cs \<Longrightarrow> dropWhile ?P t = t" for t
    by (cases t) auto
  let ?t = "dropWhile ?P s"
  have "suffix (dropWhile ?P (rev ?t)) (rev ?t)" by (rule suffix_dropWhile)
  then have p: "prefix (rev (dropWhile ?P (rev ?t))) ?t" by (simp add: suffix_to_prefix)
  then have "TrimSet s cs = [] \<or> hd (TrimSet s cs) \<notin> cs"
    unfolding TrimSet_def using hd_dropWhile [of ?P s]
    by (metis append_is_Nil_conv hd_append2 prefix_def)
  moreover have "TrimSet s cs = [] \<or> hd (rev (TrimSet s cs)) \<notin> cs"
    unfolding TrimSet_def using hd_dropWhile [of ?P "rev ?t"] by auto
  ultimately show ?thesis
    using hd [of "TrimSet s cs"] hd [of "rev (TrimSet s cs)"] by (simp add: TrimSet_def [of "TrimSet s cs"])
qed

lemma TrimSet_wrap:
  "a \<in> cs \<Longrightarrow> b \<in> cs \<Longrightarrow> TrimSet (a # s @ [b]) cs = TrimSet s cs"
  by (auto simp: TrimSet_def dropWhile_append)
    (metis dropWhile.simps(1) dropWhile_eq_Nil_conv rev.simps(1))

lemma WrapIP_idem: "WrapIP (WrapIP d) = WrapIP d"
proof -
  let ?B = "{CHR ''['', CHR '']''}"
  have "TrimSet (''['' @ TrimSet d ?B @ '']'') ?B = TrimSet d ?B"
    using TrimSet_wrap [of "CHR ''[''" ?B "CHR '']''" "TrimSet d ?B"] by (simp add: TrimSet_idem)
  then show ?thesis by (simp add: WrapIP_def Let_def)
qed

lemma Equal_iff: "Equal lib a b \<longleftrightarrow> fst (ForLookup lib a) = fst (ForLookup lib b)"
  by (auto simp: Equal_def)

lemma dns_Equal_iff: "dns_Equal lib a b \<longleftrightarrow> fst (dns_ForLookup lib a) = fst (dns_ForLookup lib b)"
  by (auto simp: dns_Equal_def)

section \<open>Lower-case ASCII addresses\<close>

definition lower_ascii :: "string \<Rightarrow> bool" where
  "lower_ascii s \<longleftrightarrow> ascii s \<and> list_all (\<lambda>c. \<not> (0x41 \<le> (of_char c :: nat) \<and> of_char c \<le> (0x5A :: nat))) s"

lemma ToLower_lower_ascii: "lower_ascii s \<Longrightarrow> ToLower lib s = s"
proof -
  assume l: "lower_ascii s"
  then have "map (\<lambda>r. if r < 0x80 then ascii_lower_rune r else unicode_ToLower lib r) (map of_char s) = map of_char s"
    by (auto simp: lower_ascii_def ascii_def list_all_iff ascii_lower_rune_def)
  moreover have "ascii s" using l by (simp add: lower_ascii_def)
  ultimately show ?thesis by (simp only: ToLower_def runes_ascii encode_runes_ascii)
qed

definition sample_text :: textlib where
  "sample_text = \<lparr>idna_ToASCII = \<lambda>s. (s, None), idna_ToUnicode = \<lambda>s. (s, None), nfc_String = \<lambda>s. s,
     unicode_ToLower = \<lambda>r. r, precis_CaseMapped = \<lambda>s. (s, None), precis_CasePreserved = \<lambda>s. (s, None)\<rparr>"

lemma sample_ForLookup: "ForLookup sample_text ''b@y'' = (''b@y'', None)"
proof -
  have l: "lower_ascii ''b''" "lower_ascii ''y''" "ascii ''b@y''" by (simp_all add: lower_ascii_def ascii_def)
  have "\<not> EqualFoldASCII ''b@y'' ''postmaster''"
    using l(3) by (simp add: EqualFoldASCII_def runes_ascii)
  then have "Split ''b@y'' = (''b'', ''y'', None)" by (simp add: Split_def)
  moreover have "dns_ForLookup sample_text ''y'' = (''y'', None)"
    by (simp add: dns_ForLookup_def HasPrefix_def TrimSuffix_def HasSuffix_def sample_text_def
        ToLower_lower_ascii [OF l(2)])
  ultimately show ?thesis
    by (simp add: ForLookup_def sample_text_def ToLower_lower_ascii [OF l(1)])
qed

section \<open>Properties\<close>

text \<open>C39. Quoting round trip: for every non-empty local part that is valid UTF-8,
  \<open>UnquoteMbox\<close> applied to the result of \<open>QuoteMbox\<close> returns the local part without an error.\<close>

theorem quote_unquote_roundtrip:
  assumes "valid_utf8 m" "m \<noteq> ''''"
  shows "UnquoteMbox (QuoteMbox m) = (m, None)"
  using assms by (rule UnquoteMbox_QuoteMbox)

theorem quote_unquote_roundtrip_witness:
  "valid_utf8 ''a@b c'' \<and> UnquoteMbox (QuoteMbox ''a@b c'') = (''a@b c'', None)"
proof -
  have v: "valid_utf8 ''a@b c''" by (rule valid_utf8_ascii) (simp add: ascii_def)
  show ?thesis using v quote_unquote_roundtrip [OF v] by simp
qed

text \<open>Splitting is exact: an address splits into a local part and a non-empty domain exactly
  when it is that local part, an at-sign and that domain, the local part is not empty and the domain
  has no at-sign; so the two parts are unique and nothing is lost.\<close>

theorem split_exact:
  "(Split addr = (mbox, domain, None) \<and> domain \<noteq> '''') \<longleftrightarrow>
   (addr = mbox @ ''@'' @ domain \<and> mbox \<noteq> '''' \<and> domain \<noteq> '''' \<and> CHR ''@'' \<notin> set domain \<and>
    \<not> EqualFoldASCII addr ''postmaster'')"
proof
  assume a: "Split addr = (mbox, domain, None) \<and> domain \<noteq> ''''"
  then have "\<not> EqualFoldASCII addr ''postmaster''" by (auto simp: Split_def split: if_splits)
  with a Split_join [of addr mbox domain] show "addr = mbox @ ''@'' @ domain \<and> mbox \<noteq> '''' \<and> domain \<noteq> '''' \<and>
    CHR ''@'' \<notin> set domain \<and> \<not> EqualFoldASCII addr ''postmaster''" by blast
next
  assume "addr = mbox @ ''@'' @ domain \<and> mbox \<noteq> '''' \<and> domain \<noteq> '''' \<and> CHR ''@'' \<notin> set domain \<and>
    \<not> EqualFoldASCII addr ''postmaster''"
  with Split_complete [of mbox domain] show "Split addr = (mbox, domain, None) \<and> domain \<noteq> ''''" by blast
qed

end
