(* ===== verification/Module_Api.thy ===== *)
theory Module_Api
  imports Exterrors
begin

text \<open>
  Model of the interfaces of \<^verbatim>\<open>framework/module\<close> that the components share: message
  metadata, message buffers, and delivery targets.

  A delivery target is any code behind \<open>module.DeliveryTarget\<close> and \<open>module.Delivery\<close>. Its state
  has an arbitrary type; the record \<open>delivery_ops\<close> holds its methods as state-passing functions.
  \<open>dl_BodyNonAtomic\<close> is present when the delivery object also implements
  \<open>module.PartialDelivery\<close>; it returns the calls of \<open>SetStatus\<close> in order.
\<close>

type_synonym header = "(string \<times> string) list"

text \<open>\<open>buffer.Buffer\<close>: in memory, or a file of the queue directory.\<close>

datatype buffer = MemoryBuffer string | FileBuffer string

record mail_options =
  UTF8 :: bool
  RequireTLS :: bool

record conn_state =
  Hostname :: string
  AuthUser :: string

record msg_metadata =
  ID :: string
  OriginalFrom :: string
  DontTraceSender :: bool
  Quarantine :: bool
  OriginalRcpts :: "string \<rightharpoonup> string"
  SMTPOpts :: mail_options
  Conn :: "conn_state option"
  TLSRequireOverride :: bool

text \<open>\<open>DeepCopy\<close> copies the struct.\<close>

definition DeepCopy :: "msg_metadata \<Rightarrow> msg_metadata" where
  "DeepCopy m = m"

record 's delivery_ops =
  dt_Start :: "'s \<Rightarrow> msg_metadata \<Rightarrow> string \<Rightarrow> 's \<times> goerr option"
  dl_AddRcpt :: "'s \<Rightarrow> string \<Rightarrow> 's \<times> goerr option"
  dl_Body :: "'s \<Rightarrow> header \<Rightarrow> buffer \<Rightarrow> 's \<times> goerr option"
  dl_BodyNonAtomic :: "('s \<Rightarrow> header \<Rightarrow> buffer \<Rightarrow> 's \<times> (string \<times> goerr option) list) option"
  dl_Abort :: "'s \<Rightarrow> 's \<times> goerr option"
  dl_Commit :: "'s \<Rightarrow> 's \<times> goerr option"

section \<open>Observing a target\<close>

text \<open>
  The calls a client makes on a target, and the target that records them next to the state of
  another one. The order of the calls of a client is a statement about the recorded list.
\<close>

datatype dcall =
    CStart string
  | CAddRcpt string bool
  | CBody
  | CBodyNonAtomic
  | CAbort
  | CCommit

definition traced :: "'s delivery_ops \<Rightarrow> ('s \<times> dcall list) delivery_ops" where
  "traced t = \<lparr>
     dt_Start = (\<lambda>(s, cs) m f. case dt_Start t s m f of (s', e) \<Rightarrow> ((s', cs @ [CStart f]), e)),
     dl_AddRcpt = (\<lambda>(s, cs) r. case dl_AddRcpt t s r of (s', e) \<Rightarrow> ((s', cs @ [CAddRcpt r (e = None)]), e)),
     dl_Body = (\<lambda>(s, cs) h b. case dl_Body t s h b of (s', e) \<Rightarrow> ((s', cs @ [CBody]), e)),
     dl_BodyNonAtomic = map_option (\<lambda>f (s, cs) h b.
        case f s h b of (s', st) \<Rightarrow> ((s', cs @ [CBodyNonAtomic]), st)) (dl_BodyNonAtomic t),
     dl_Abort = (\<lambda>(s, cs). case dl_Abort t s of (s', e) \<Rightarrow> ((s', cs @ [CAbort]), e)),
     dl_Commit = (\<lambda>(s, cs). case dl_Commit t s of (s', e) \<Rightarrow> ((s', cs @ [CCommit]), e))\<rparr>"

text \<open>
  The protocol of \<open>module.Delivery\<close>: recipients are added after a successful \<open>Start\<close>, the body is
  sent at most once and only when some recipient was accepted, and the object is finished by
  exactly one \<open>Abort\<close> or \<open>Commit\<close>, where \<open>Commit\<close> needs the body.
\<close>

fun only_rcpts :: "dcall list \<Rightarrow> bool" where
  "only_rcpts [] = True"
| "only_rcpts (CAddRcpt r ok # cs) = only_rcpts cs"
| "only_rcpts (_ # cs) = False"

definition well_finished :: "dcall list \<Rightarrow> bool" where
  "well_finished cs \<longleftrightarrow>
     (\<exists>f. cs = [CStart f]) \<or>
     (\<exists>f rs tail. cs = CStart f # rs @ tail \<and> only_rcpts rs \<and>
        ((list_all (\<lambda>c. case c of CAddRcpt r ok \<Rightarrow> \<not> ok | _ \<Rightarrow> True) rs \<and> tail = [CAbort]) \<or>
         (list_ex (\<lambda>c. case c of CAddRcpt r ok \<Rightarrow> ok | _ \<Rightarrow> False) rs \<and>
          tail \<in> {[CBody, CAbort], [CBody, CCommit], [CBodyNonAtomic, CAbort], [CBodyNonAtomic, CCommit]})))"

text \<open>Metadata for the examples.\<close>

definition sample_msg :: msg_metadata where
  "sample_msg = \<lparr>ID = ''m1'', OriginalFrom = ''a@x'', DontTraceSender = False, Quarantine = False,
     OriginalRcpts = Map.empty, SMTPOpts = \<lparr>UTF8 = False, RequireTLS = False\<rparr>, Conn = None,
     TLSRequireOverride = False\<rparr>"

end
