(* ===== verification/Queue_Disk.thy ===== *)
theory Queue_Disk
  imports Module_Api "HOL-Library.AList"
begin

text \<open>
  Model of the on-disk part of \<^verbatim>\<open>internal/target/queue/queue.go\<close>: the three files of a
  queued message (\<open>ID.header\<close>, \<open>ID.body\<close>, \<open>ID.meta\<close>) and every function that writes, reads or
  removes them.

  The file system is a map from paths to contents; the path of a file of the queue directory is
  its name there, other paths are files elsewhere (a body kept in a temporary file). Every system
  call can fail: the argument \<open>fault\<close> says which calls do. A fault oracle also describes a process
  that is killed, because none of \<open>updateMetadataOnDisk\<close> and \<open>removeFromDisk\<close> undoes anything after
  a failure: the state after a kill before some call is the state in which that call and all later
  ones fail. For \<open>updateMetadataOnDisk\<close> the model also tracks what a power loss can leave of each
  file: a file that was written and not synced may hold anything, and a rename may or may not have
  reached the disk.
  \<open>encoding/json\<close> is trusted: the constructor \<open>MetaJson\<close> stands for the encoding of its argument,
  and reading it back gives that argument (so strings are taken to be valid UTF-8, which
  \<open>encoding/json\<close> would otherwise replace); a write that fails half way leaves \<open>Torn\<close>
  content. The header serialization of \<^verbatim>\<open>go-message/textproto\<close> is the argument \<open>header_lib\<close>.
\<close>

section \<open>Data\<close>

text \<open>\<open>smtp.SMTPError\<close>, the form in which errors are stored.\<close>

record smtp_err =
  sm_Code :: int
  sm_EnhancedCode :: ench
  sm_Message :: string

text \<open>\<open>QueueMetadata\<close>. A Go map from strings to numbers is an association list with distinct keys.\<close>

record queue_meta =
  MsgMeta :: msg_metadata
  From :: string
  To :: "string list"
  FailedRcpts :: "string list"
  TemporaryFailedRcpts :: "string list"
  RcptErrs :: "string \<rightharpoonup> smtp_err"
  TriesCount :: "(string \<times> int) list"
  FirstAttempt :: time
  LastAttempt :: time

datatype fcontent = Blob string | MetaJson queue_meta | Torn

type_synonym fs = "string \<rightharpoonup> fcontent"

datatype fsop = OpCreate | OpWrite | OpSync | OpRename | OpRemove | OpOpen | OpStat | OpRead | OpReadDir

type_synonym faults = "fsop \<Rightarrow> string \<Rightarrow> bool"

datatype os_err = ErrNotExist string | ErrIO fsop string | ErrDecode string | ErrEncode string

record header_lib =
  WriteHeader :: "header \<Rightarrow> string option"
  ReadHeader :: "string \<Rightarrow> header option"

definition no_faults :: faults where
  "no_faults op name = False"

abbreviation meta_name :: "string \<Rightarrow> string" where "meta_name i \<equiv> i @ ''.meta''"
abbreviation header_name :: "string \<Rightarrow> string" where "header_name i \<equiv> i @ ''.header''"
abbreviation body_name :: "string \<Rightarrow> string" where "body_name i \<equiv> i @ ''.body''"

section \<open>System calls\<close>

definition os_Remove :: "faults \<Rightarrow> string \<Rightarrow> fs \<Rightarrow> fs \<times> os_err option" where
  "os_Remove fault name fs =
     (if fault OpRemove name then (fs, Some (ErrIO OpRemove name))
      else case fs name of
             None \<Rightarrow> (fs, Some (ErrNotExist name))
           | Some _ \<Rightarrow> (fs(name := None), None))"

definition os_Stat :: "faults \<Rightarrow> string \<Rightarrow> fs \<Rightarrow> os_err option" where
  "os_Stat fault name fs =
     (if fault OpStat name then Some (ErrIO OpStat name)
      else if fs name = None then Some (ErrNotExist name) else None)"

definition os_Open :: "faults \<Rightarrow> string \<Rightarrow> fs \<Rightarrow> os_err + fcontent" where
  "os_Open fault name fs =
     (if fault OpOpen name then Inl (ErrIO OpOpen name)
      else case fs name of None \<Rightarrow> Inl (ErrNotExist name) | Some f \<Rightarrow> Inr f)"

text \<open>What a power loss can leave of each file: one of the listed contents (\<open>None\<close> in the list is
  a missing file), or anything. \<open>synced\<close> is a disk on which everything has been written out.\<close>

type_synonym loss = "string \<Rightarrow> fcontent option list option"

definition synced :: "fs \<Rightarrow> loss" where
  "synced fs n = Some [fs n]"

definition after_power_loss :: "loss \<Rightarrow> fs \<Rightarrow> bool" where
  "after_power_loss l fs \<longleftrightarrow> (\<forall>n. case l n of None \<Rightarrow> True | Some cs \<Rightarrow> fs n \<in> set cs)"

definition both_losses :: "fcontent option list option \<Rightarrow> fcontent option list option \<Rightarrow> fcontent option list option" where
  "both_losses a b = (case (a, b) of (Some x, Some y) \<Rightarrow> Some (x @ y) | _ \<Rightarrow> None)"

text \<open>\<open>os.Create\<close> truncates, \<open>File.Sync\<close> writes the content out, \<open>os.Rename\<close> replaces the target
  atomically: afterwards the target holds the old or the moved file, as far as that was written out.\<close>

datatype syscall = SysCreate string | SysWrite string fcontent | SysSync string | SysRename string string

fun syscall_run :: "faults \<Rightarrow> syscall \<Rightarrow> fs \<times> loss \<Rightarrow> (fs \<times> loss) \<times> os_err option" where
  "syscall_run fault (SysCreate p) (fs, l) =
     (if fault OpCreate p then ((fs, l), Some (ErrIO OpCreate p))
      else ((fs(p \<mapsto> Blob []), l(p := None)), None))"
| "syscall_run fault (SysWrite p c) (fs, l) =
     (if fault OpWrite p then ((fs(p \<mapsto> Torn), l(p := None)), Some (ErrIO OpWrite p))
      else ((fs(p \<mapsto> c), l(p := None)), None))"
| "syscall_run fault (SysSync p) (fs, l) =
     (if fault OpSync p then ((fs, l), Some (ErrIO OpSync p))
      else ((fs, l(p := Some [fs p])), None))"
| "syscall_run fault (SysRename p t) (fs, l) =
     (if fault OpRename p then ((fs, l), Some (ErrIO OpRename p))
      else ((fs(p := None, t := fs p), l(p := both_losses (l p) (Some [None]), t := both_losses (l p) (l t))), None))"

text \<open>A function that returns at the first error runs its calls up to the first that fails.\<close>

fun syscalls_run :: "faults \<Rightarrow> syscall list \<Rightarrow> fs \<times> loss \<Rightarrow> (fs \<times> loss) \<times> os_err option" where
  "syscalls_run fault [] st = (st, None)"
| "syscalls_run fault (c # cs) st =
     (case syscall_run fault c st of
        (st', Some e) \<Rightarrow> (st', Some e)
      | (st', None) \<Rightarrow> syscalls_run fault cs st')"

fun IsNotExist :: "os_err \<Rightarrow> bool" where
  "IsNotExist (ErrNotExist n) = True"
| "IsNotExist _ = False"

section \<open>Files of a message\<close>

definition tryRemoveDanglingFile :: "faults \<Rightarrow> string \<Rightarrow> fs \<Rightarrow> fs" where
  "tryRemoveDanglingFile fault name fs = fst (os_Remove fault name fs)"

text \<open>Errors of the three removals are logged only.\<close>

definition removeFromDisk :: "faults \<Rightarrow> string \<Rightarrow> fs \<Rightarrow> fs" where
  "removeFromDisk fault i fs =
     (let fs = fst (os_Remove fault (header_name i) fs);
          fs = fst (os_Remove fault (body_name i) fs)
      in fst (os_Remove fault (meta_name i) fs))"

definition discardBroken :: "faults \<Rightarrow> string \<Rightarrow> fs \<Rightarrow> fs" where
  "discardBroken fault i fs =
     (if fault OpRename (meta_name i) then fs
      else case fs (meta_name i) of
             None \<Rightarrow> fs
           | Some f \<Rightarrow> fs(meta_name i := None, i @ ''.meta_broken'' := Some f))"

definition stored_meta :: "queue_meta \<Rightarrow> queue_meta" where
  "stored_meta meta = meta\<lparr>MsgMeta := (DeepCopy (MsgMeta meta))\<lparr>Conn := None\<rparr>\<rparr>"

text \<open>On Windows the file is written in place; elsewhere it is written aside and renamed.\<close>

definition update_metadata_calls :: "bool \<Rightarrow> queue_meta \<Rightarrow> syscall list" where
  "update_metadata_calls windows meta =
     (let metaPath = meta_name (ID (MsgMeta meta));
          path = (if windows then metaPath else metaPath @ ''.new'') in
      [SysCreate path, SysWrite path (MetaJson (stored_meta meta)), SysSync path] @
      (if windows then [] else [SysRename path metaPath]))"

definition updateMetadata_run :: "bool \<Rightarrow> faults \<Rightarrow> queue_meta \<Rightarrow> fs \<Rightarrow> (fs \<times> loss) \<times> os_err option" where
  "updateMetadata_run windows fault meta fs =
     syscalls_run fault (update_metadata_calls windows meta) (fs, synced fs)"

definition updateMetadataOnDisk :: "bool \<Rightarrow> faults \<Rightarrow> queue_meta \<Rightarrow> fs \<Rightarrow> fs \<times> os_err option" where
  "updateMetadataOnDisk windows fault meta fs =
     (let ((fs', l), r) = updateMetadata_run windows fault meta fs in (fs', r))"

definition readMessageMeta :: "faults \<Rightarrow> string \<Rightarrow> fs \<Rightarrow> os_err + queue_meta" where
  "readMessageMeta fault i fs =
     (case os_Open fault (meta_name i) fs of
        Inl e \<Rightarrow> Inl e
      | Inr f \<Rightarrow>
          if fault OpRead (meta_name i) then Inl (ErrIO OpRead (meta_name i))
          else (case f of MetaJson m \<Rightarrow> Inr m | _ \<Rightarrow> Inl (ErrDecode (meta_name i))))"

definition open_buffer :: "faults \<Rightarrow> buffer \<Rightarrow> fs \<Rightarrow> os_err + string" where
  "open_buffer fault b fs =
     (case b of
        MemoryBuffer s \<Rightarrow> Inr s
      | FileBuffer p \<Rightarrow>
          (case os_Open fault p fs of
             Inl e \<Rightarrow> Inl e
           | Inr (Blob s) \<Rightarrow> Inr s
           | Inr _ \<Rightarrow> Inl (ErrDecode p)))"

definition openMessage ::
  "header_lib \<Rightarrow> faults \<Rightarrow> string \<Rightarrow> fs \<Rightarrow> fs \<times> (os_err + queue_meta \<times> header \<times> buffer)" where
  "openMessage lib fault i fs =
     (case readMessageMeta fault i fs of
        Inl e \<Rightarrow> (fs, Inl e)
      | Inr meta \<Rightarrow>
          (case os_Stat fault (body_name i) fs of
             Some e \<Rightarrow>
               ((if IsNotExist e then tryRemoveDanglingFile fault (meta_name i) fs else fs), Inl e)
           | None \<Rightarrow>
               (case os_Open fault (header_name i) fs of
                  Inl e \<Rightarrow>
                    ((if IsNotExist e
                      then tryRemoveDanglingFile fault (body_name i)
                             (tryRemoveDanglingFile fault (meta_name i) fs)
                      else fs), Inl e)
                | Inr f \<Rightarrow>
                    if fault OpRead (header_name i) then (fs, Inl (ErrIO OpRead (header_name i)))
                    else (case f of
                            Blob s \<Rightarrow>
                              (case ReadHeader lib s of
                                 None \<Rightarrow> (fs, Inl (ErrDecode (header_name i)))
                               | Some h \<Rightarrow> (fs, Inr (meta, h, FileBuffer (body_name i))))
                          | _ \<Rightarrow> (fs, Inl (ErrDecode (header_name i)))))))"

definition storeNewMessage ::
  "header_lib \<Rightarrow> bool \<Rightarrow> faults \<Rightarrow> queue_meta \<Rightarrow> header \<Rightarrow> buffer \<Rightarrow> fs \<Rightarrow> fs \<times> (os_err + buffer)" where
  "storeNewMessage lib windows fault meta hdr body fs =
     (let i = ID (MsgMeta meta); hp = header_name i; bp = body_name i in
      if fault OpCreate hp then (fs, Inl (ErrIO OpCreate hp))
      else
        let fs = fs(hp \<mapsto> Blob '''') in
        if fault OpWrite hp then
          (tryRemoveDanglingFile fault hp (fs(hp \<mapsto> Torn)), Inl (ErrIO OpWrite hp))
        else case WriteHeader lib hdr of
          None \<Rightarrow> (tryRemoveDanglingFile fault hp (fs(hp \<mapsto> Torn)), Inl (ErrEncode hp))
        | Some hs \<Rightarrow>
            let fs = fs(hp \<mapsto> Blob hs) in
            (case open_buffer fault body fs of
               Inl e \<Rightarrow> (tryRemoveDanglingFile fault hp fs, Inl e)
             | Inr content \<Rightarrow>
                 if fault OpCreate bp then (fs, Inl (ErrIO OpCreate bp))
                 else
                   let fs = fs(bp \<mapsto> Blob '''') in
                   if fault OpWrite bp then
                     (tryRemoveDanglingFile fault hp (tryRemoveDanglingFile fault bp (fs(bp \<mapsto> Torn))),
                      Inl (ErrIO OpWrite bp))
                   else
                     let fs = fs(bp \<mapsto> Blob content) in
                     (case updateMetadataOnDisk windows fault meta fs of
                        (fs, Some e) \<Rightarrow>
                          (tryRemoveDanglingFile fault hp (tryRemoveDanglingFile fault bp fs), Inl e)
                      | (fs, None) \<Rightarrow>
                          if fault OpSync hp then (fs, Inl (ErrIO OpSync hp))
                          else if fault OpSync bp then (fs, Inl (ErrIO OpSync bp))
                          else (fs, Inr (FileBuffer bp)))))"

section \<open>Administrative purge\<close>

text \<open>A directory entry is a name and whether it is a directory.\<close>

definition meta_entry_id :: "string \<times> bool \<Rightarrow> string option" where
  "meta_entry_id e =
     (if snd e \<or> \<not> HasSuffix (fst e) ''.meta'' then None
      else Some (take (length (fst e) - 5) (fst e)))"

fun purge_loop :: "faults \<Rightarrow> (queue_meta \<Rightarrow> bool) \<Rightarrow> (string \<times> bool) list \<Rightarrow> nat \<Rightarrow> fs \<Rightarrow> fs \<times> nat" where
  "purge_loop fault matches [] count fs = (fs, count)"
| "purge_loop fault matches (entry # es) count fs =
     (case meta_entry_id entry of
        None \<Rightarrow> purge_loop fault matches es count fs
      | Some i \<Rightarrow>
          (case readMessageMeta fault i fs of
             Inl e \<Rightarrow> purge_loop fault matches es count fs
           | Inr meta \<Rightarrow>
               if matches meta
               then purge_loop fault matches es (Suc count) (removeFromDisk fault i fs)
               else purge_loop fault matches es count fs))"

definition PurgeBySender ::
  "faults \<Rightarrow> (string \<times> bool) list \<Rightarrow> string \<Rightarrow> fs \<Rightarrow> fs \<times> (os_err + nat)" where
  "PurgeBySender fault dirInfo from fs =
     (if fault OpReadDir '''' then (fs, Inl (ErrIO OpReadDir ''''))
      else map_prod id Inr (purge_loop fault (\<lambda>meta. From meta = from) dirInfo 0 fs))"

definition PurgeByRecipient ::
  "faults \<Rightarrow> (string \<times> bool) list \<Rightarrow> string \<Rightarrow> fs \<Rightarrow> fs \<times> (os_err + nat)" where
  "PurgeByRecipient fault dirInfo rcpt fs =
     (if fault OpReadDir '''' then (fs, Inl (ErrIO OpReadDir ''''))
      else map_prod id Inr (purge_loop fault (\<lambda>meta. rcpt \<in> set (To meta)) dirInfo 0 fs))"

section \<open>Lemmas\<close>

text \<open>File names of different kinds never coincide.\<close>

lemma names_distinct [simp]:
  "i @ ''.meta'' \<noteq> j @ ''.header''" "j @ ''.header'' \<noteq> i @ ''.meta''"
  "i @ ''.meta'' \<noteq> j @ ''.body''" "j @ ''.body'' \<noteq> i @ ''.meta''"
  "i @ ''.header'' \<noteq> j @ ''.body''" "j @ ''.body'' \<noteq> i @ ''.header''"
  "i @ ''.meta.new'' \<noteq> j @ ''.header''" "j @ ''.header'' \<noteq> i @ ''.meta.new''"
  "i @ ''.meta.new'' \<noteq> j @ ''.body''" "j @ ''.body'' \<noteq> i @ ''.meta.new''"
  "i @ ''.meta.new'' \<noteq> j @ ''.meta''" "j @ ''.meta'' \<noteq> i @ ''.meta.new''"
  by (auto dest: arg_cong [where f = last])

lemma os_Remove_other [simp]: "n \<noteq> name \<Longrightarrow> fst (os_Remove fault name fs) n = fs n"
  by (auto simp: os_Remove_def split: option.split)

lemma os_Remove_gone: "\<not> fault OpRemove name \<Longrightarrow> fst (os_Remove fault name fs) name = None"
  by (auto simp: os_Remove_def split: option.split)

lemma tryRemove_other [simp]: "n \<noteq> name \<Longrightarrow> tryRemoveDanglingFile fault name fs n = fs n"
  by (simp add: tryRemoveDanglingFile_def)

lemma updateMetadataOnDisk_unfold:
  "updateMetadataOnDisk windows fault meta fs =
     (let metaPath = meta_name (ID (MsgMeta meta));
          path = (if windows then metaPath else metaPath @ ''.new'') in
      if fault OpCreate path then (fs, Some (ErrIO OpCreate path))
      else if fault OpWrite path then (fs(path \<mapsto> Torn), Some (ErrIO OpWrite path))
      else
        let fs = fs(path \<mapsto> MetaJson (stored_meta meta)) in
        if fault OpSync path then (fs, Some (ErrIO OpSync path))
        else if windows then (fs, None)
        else if fault OpRename path then (fs, Some (ErrIO OpRename path))
        else (fs(path := None, metaPath := fs path), None))"
  by (simp add: updateMetadataOnDisk_def updateMetadata_run_def update_metadata_calls_def Let_def)

lemma updateMetadata_success:
  assumes "updateMetadataOnDisk windows fault meta fs = (fs', None)"
  defines "mp \<equiv> meta_name (ID (MsgMeta meta))"
  shows "fs' mp = Some (MetaJson (stored_meta meta))"
    and "n \<noteq> mp \<Longrightarrow> n \<noteq> mp @ ''.new'' \<Longrightarrow> fs' n = fs n"
  using assms by (auto simp: updateMetadataOnDisk_unfold Let_def split: if_splits)

text \<open>Power loss: outside Windows nothing but \<open>ID.meta.new\<close> can be lost, and \<open>ID.meta\<close> is the old
  or the new file.\<close>

lemma updateMetadata_loss:
  assumes "updateMetadata_run False fault meta fs = ((fs', l), r)"
  defines "mp \<equiv> meta_name (ID (MsgMeta meta))"
  shows "l mp = Some [fs mp] \<or> l mp = Some [Some (MetaJson (stored_meta meta)), fs mp]"
    and "n \<noteq> mp \<Longrightarrow> n \<noteq> mp @ ''.new'' \<Longrightarrow> l n = Some [fs n]"
  using assms
  by (auto simp: updateMetadata_run_def update_metadata_calls_def synced_def both_losses_def Let_def
      split: if_splits)

lemma updateMetadata_cases:
  assumes "updateMetadataOnDisk False fault meta fs = (fs', r)"
  defines "mp \<equiv> meta_name (ID (MsgMeta meta))"
  shows "fs' mp = (if r = None then Some (MetaJson (stored_meta meta)) else fs mp)"
    and "n \<noteq> mp \<Longrightarrow> n \<noteq> mp @ ''.new'' \<Longrightarrow> fs' n = fs n"
    and "r = None \<Longrightarrow> (\<forall>op. op \<in> {OpCreate, OpWrite, OpSync, OpRename} \<longrightarrow> \<not> fault op (mp @ ''.new''))"
  using assms by (auto simp: updateMetadataOnDisk_unfold Let_def split: if_splits)

lemma updateMetadata_ok:
  assumes "\<And>op. \<not> fault op (meta_name (ID (MsgMeta meta)) @ ''.new'')"
  shows "snd (updateMetadataOnDisk False fault meta fs) = None"
  using assms by (simp add: updateMetadataOnDisk_unfold Let_def)

lemma removeFromDisk_frame:
  "n \<notin> {header_name i, body_name i, meta_name i} \<Longrightarrow> removeFromDisk fault i fs n = fs n"
  by (simp add: removeFromDisk_def Let_def)

lemma removeFromDisk_header:
  "\<not> fault OpRemove (header_name i) \<Longrightarrow> removeFromDisk fault i fs (header_name i) = None"
  by (simp add: removeFromDisk_def Let_def os_Remove_gone)

lemma openMessage_needs_all:
  assumes "openMessage lib fault i fs = (fs', Inr (meta, h, b))"
  shows "fs (meta_name i) = Some (MetaJson meta)" "fs (body_name i) \<noteq> None"
    "\<exists>s. fs (header_name i) = Some (Blob s) \<and> ReadHeader lib s = Some h"
    "b = FileBuffer (body_name i)" "fs' = fs"
  using assms
  by (auto simp: openMessage_def readMessageMeta_def os_Open_def os_Stat_def
      split: sum.splits option.splits if_splits fcontent.splits)

lemma openMessage_complete:
  assumes "fs (meta_name i) = Some (MetaJson meta)" "fs (body_name i) = Some (Blob content)"
    "fs (header_name i) = Some (Blob s)" "ReadHeader lib s = Some h" "\<And>op n. \<not> fault op n"
  shows "openMessage lib fault i fs = (fs, Inr (meta, h, FileBuffer (body_name i)))"
  using assms by (simp add: openMessage_def readMessageMeta_def os_Open_def os_Stat_def)

lemma open_buffer_other: "body \<noteq> FileBuffer n \<Longrightarrow> open_buffer fault body (fs(n := c)) = open_buffer fault body fs"
  by (cases body) (simp_all add: open_buffer_def os_Open_def)

text \<open>A successful store ran every call: the three files hold the message.\<close>

lemma storeNewMessage_steps:
  assumes "storeNewMessage lib windows fault meta hdr body fs = (fs', Inr b)"
  defines "i \<equiv> ID (MsgMeta meta)"
  obtains hs c where "WriteHeader lib hdr = Some hs"
    "open_buffer fault body (fs(header_name i \<mapsto> Blob hs)) = Inr c"
    "updateMetadataOnDisk windows fault meta (fs(header_name i \<mapsto> Blob hs, body_name i \<mapsto> Blob c)) = (fs', None)"
    "b = FileBuffer (body_name i)"
  using assms
  by (auto simp: storeNewMessage_def Let_def split: if_splits option.splits sum.splits prod.splits)

lemma storeNewMessage_success:
  assumes "storeNewMessage lib windows fault meta hdr body fs = (fs', Inr b)"
  defines "i \<equiv> ID (MsgMeta meta)"
  obtains hs c where "WriteHeader lib hdr = Some hs"
    "open_buffer fault body (fs(header_name i \<mapsto> Blob hs)) = Inr c"
    "fs' (meta_name i) = Some (MetaJson (stored_meta meta))"
    "fs' (header_name i) = Some (Blob hs)" "fs' (body_name i) = Some (Blob c)"
    "b = FileBuffer (body_name i)"
proof -
  from storeNewMessage_steps [OF assms(1)] obtain hs c where
    *: "WriteHeader lib hdr = Some hs"
    "open_buffer fault body (fs(header_name i \<mapsto> Blob hs)) = Inr c"
    "updateMetadataOnDisk windows fault meta (fs(header_name i \<mapsto> Blob hs, body_name i \<mapsto> Blob c)) = (fs', None)"
    "b = FileBuffer (body_name i)"
    unfolding i_def by blast
  from updateMetadata_success [OF *(3)] * show thesis
    by (intro that) (simp_all add: i_def)
qed

text \<open>A failed store leaves the metadata file as it was, unless the failure is that of a final
  \<open>Sync\<close>.\<close>

lemma storeNewMessage_failure:
  assumes "storeNewMessage lib False fault meta hdr body fs = (fs', Inl e)"
  defines "i \<equiv> ID (MsgMeta meta)"
  shows "fs' (meta_name i) = fs (meta_name i)
    \<or> e \<in> {ErrIO OpSync (header_name i), ErrIO OpSync (body_name i)}"
proof (cases "\<exists>fs0 fs1. updateMetadataOnDisk False fault meta fs0 = (fs1, None) \<and> fs' = fs1")
  case True
  then show ?thesis using assms
    by (auto simp: storeNewMessage_def Let_def split: if_splits option.splits sum.splits prod.splits
        dest: updateMetadata_cases(1))
next
  case False
  then show ?thesis using assms
    by (auto simp: storeNewMessage_def Let_def split: if_splits option.splits sum.splits prod.splits
        dest: updateMetadata_cases(1))
qed

text \<open>A failure of the last \<open>Sync\<close> comes after the metadata file is complete.\<close>

lemma storeNewMessage_late_sync:
  assumes "WriteHeader lib hdr = Some hs" "ReadHeader lib hs = Some h"
    and "fault = (\<lambda>op n. op = OpSync \<and> n = body_name (ID (MsgMeta meta)))"
  shows "\<exists>fs'. storeNewMessage lib False fault meta hdr (MemoryBuffer c) fs =
      (fs', Inl (ErrIO OpSync (body_name (ID (MsgMeta meta))))) \<and>
    openMessage lib no_faults (ID (MsgMeta meta)) fs' =
      (fs', Inr (stored_meta meta, h, FileBuffer (body_name (ID (MsgMeta meta)))))"
proof -
  let ?i = "ID (MsgMeta meta)"
  let ?fs = "fs(header_name ?i \<mapsto> Blob hs, body_name ?i \<mapsto> Blob c)"
  obtain fs' r where u: "updateMetadataOnDisk False fault meta ?fs = (fs', r)" by fastforce
  have r: "r = None"
    using u updateMetadata_ok [of fault meta ?fs] assms(3) by simp
  have "openMessage lib no_faults ?i fs' = (fs', Inr (stored_meta meta, h, FileBuffer (body_name ?i)))"
    using updateMetadata_cases [OF u] r assms(2) by (intro openMessage_complete) (auto simp: no_faults_def)
  moreover have "storeNewMessage lib False fault meta hdr (MemoryBuffer c) fs =
      (fs', Inl (ErrIO OpSync (body_name ?i)))"
    using u r assms(1,3) by (simp add: storeNewMessage_def open_buffer_def Let_def)
  ultimately show ?thesis by blast
qed

text \<open>A concrete message for the examples.\<close>

definition sample_meta :: queue_meta where
  "sample_meta = \<lparr>
     MsgMeta = \<lparr>ID = ''m1'', OriginalFrom = ''a@x'', DontTraceSender = False, Quarantine = False,
       OriginalRcpts = Map.empty, SMTPOpts = \<lparr>UTF8 = False, RequireTLS = False\<rparr>,
       Conn = Some \<lparr>Hostname = ''h'', AuthUser = ''a''\<rparr>, TLSRequireOverride = False\<rparr>,
     From = ''a@x'', To = [''b@y'', ''c@z''], FailedRcpts = [], TemporaryFailedRcpts = [],
     RcptErrs = Map.empty, TriesCount = [], FirstAttempt = 0, LastAttempt = 0\<rparr>"

definition sample_lib :: header_lib where
  "sample_lib = \<lparr>WriteHeader = (\<lambda>h. case h of [] \<Rightarrow> Some ''crlf'' | _ \<Rightarrow> None),
     ReadHeader = (\<lambda>s. if s = ''crlf'' then Some [] else None)\<rparr>"

lemma sample_store:
  "\<exists>fs'. storeNewMessage sample_lib False no_faults sample_meta [] (MemoryBuffer ''hi'') Map.empty =
     (fs', Inr (FileBuffer ''m1.body''))"
  by (simp add: storeNewMessage_def updateMetadataOnDisk_unfold open_buffer_def sample_lib_def
      sample_meta_def no_faults_def Let_def)

section \<open>Properties\<close>

text \<open>C2. Store and reload: after \<open>storeNewMessage\<close> succeeded, on every system and with whatever
  faults it survived, \<open>openMessage\<close> without faults returns the metadata that was handed to the
  encoder (the connection state removed; \<open>encoding/json\<close> is trusted to read back what it wrote), the
  same header, and a buffer that reads back the body. The body may be in memory or in any file
  except the header and body file the call creates for this message; the header library is assumed
  to parse what it prints.\<close>

theorem store_open_roundtrip:
  assumes "storeNewMessage lib windows fault meta hdr body fs = (fs', Inr b)"
    and "open_buffer fault body fs = Inr content"
    and "body \<noteq> FileBuffer (header_name (ID (MsgMeta meta)))" "body \<noteq> FileBuffer (body_name (ID (MsgMeta meta)))"
    and "\<And>hs. WriteHeader lib hdr = Some hs \<Longrightarrow> ReadHeader lib hs = Some hdr"
  shows "openMessage lib no_faults (ID (MsgMeta meta)) fs' = (fs', Inr (stored_meta meta, hdr, b))
    \<and> open_buffer no_faults b fs' = Inr content"
proof -
  let ?i = "ID (MsgMeta meta)"
  from storeNewMessage_success [OF assms(1)] obtain hs c where
    *: "WriteHeader lib hdr = Some hs" "open_buffer fault body (fs(header_name ?i \<mapsto> Blob hs)) = Inr c"
    "fs' (meta_name ?i) = Some (MetaJson (stored_meta meta))"
    "fs' (header_name ?i) = Some (Blob hs)" "fs' (body_name ?i) = Some (Blob c)"
    "b = FileBuffer (body_name ?i)" by blast
  have "c = content"
    using *(2) assms(2) by (simp add: open_buffer_other [OF assms(3)])
  with * assms(5) openMessage_complete [of fs' ?i "stored_meta meta" c hs lib hdr no_faults]
  show ?thesis by (simp add: no_faults_def open_buffer_def os_Open_def)
qed

theorem store_open_roundtrip_witness:
  "\<exists>fs'. storeNewMessage sample_lib False no_faults sample_meta [] (FileBuffer ''/tmp/b1'') [''/tmp/b1'' \<mapsto> Blob ''hi''] =
       (fs', Inr (FileBuffer ''m1.body'')) \<and>
     openMessage sample_lib no_faults ''m1'' fs' =
       (fs', Inr (stored_meta sample_meta, [], FileBuffer ''m1.body'')) \<and>
     open_buffer no_faults (FileBuffer ''m1.body'') fs' = Inr ''hi''"
proof -
  have i: "ID (MsgMeta sample_meta) = ''m1''" by (simp add: sample_meta_def)
  obtain fs' where f: "storeNewMessage sample_lib False no_faults sample_meta [] (FileBuffer ''/tmp/b1'')
      [''/tmp/b1'' \<mapsto> Blob ''hi''] = (fs', Inr (FileBuffer ''m1.body''))"
    by (simp add: storeNewMessage_def updateMetadataOnDisk_unfold open_buffer_def os_Open_def sample_lib_def
        sample_meta_def no_faults_def Let_def)
  have "openMessage sample_lib no_faults (ID (MsgMeta sample_meta)) fs' =
      (fs', Inr (stored_meta sample_meta, [], FileBuffer ''m1.body'')) \<and>
    open_buffer no_faults (FileBuffer ''m1.body'') fs' = Inr ''hi''"
    by (rule store_open_roundtrip [OF f])
       (simp_all add: sample_lib_def open_buffer_def os_Open_def no_faults_def i)
  with f i show ?thesis by metis
qed

text \<open>C5. Atomic metadata update, outside Windows (there the file is written in place): whatever
  system calls fail, and so wherever the process is killed, \<open>updateMetadataOnDisk\<close> leaves in
  \<open>ID.meta\<close> the old content or the complete new one; it reports success exactly for the new one,
  and touches no file but \<open>ID.meta\<close> and \<open>ID.meta.new\<close>. When the power is lost at that point, a file
  written and not synced may hold anything afterwards; still \<open>ID.meta\<close> is the complete old or the
  complete new file, and every other file but \<open>ID.meta.new\<close> is as it was (all were synced before).\<close>

theorem update_metadata_atomic:
  assumes "updateMetadata_run False fault meta fs = ((fs', l), r)"
  shows "updateMetadataOnDisk False fault meta fs = (fs', r)
    \<and> fs' (meta_name (ID (MsgMeta meta))) =
        (if r = None then Some (MetaJson (stored_meta meta)) else fs (meta_name (ID (MsgMeta meta))))
    \<and> (\<forall>n. n \<noteq> meta_name (ID (MsgMeta meta)) \<and> n \<noteq> meta_name (ID (MsgMeta meta)) @ ''.new'' \<longrightarrow> fs' n = fs n)
    \<and> (\<forall>fs2. after_power_loss l fs2 \<longrightarrow>
         fs2 (meta_name (ID (MsgMeta meta))) \<in> {fs (meta_name (ID (MsgMeta meta))), Some (MetaJson (stored_meta meta))} \<and>
         (\<forall>n. n \<noteq> meta_name (ID (MsgMeta meta)) \<and> n \<noteq> meta_name (ID (MsgMeta meta)) @ ''.new'' \<longrightarrow> fs2 n = fs n))"
proof -
  let ?mp = "meta_name (ID (MsgMeta meta))"
  have u: "updateMetadataOnDisk False fault meta fs = (fs', r)" using assms by (simp add: updateMetadataOnDisk_def)
  have "fs2 ?mp \<in> {fs ?mp, Some (MetaJson (stored_meta meta))} \<and>
      (\<forall>n. n \<noteq> ?mp \<and> n \<noteq> ?mp @ ''.new'' \<longrightarrow> fs2 n = fs n)" if l: "after_power_loss l fs2" for fs2
  proof -
    have c: "fs2 n \<in> set cs" if "l n = Some cs" for n cs
      using l that by (force simp: after_power_loss_def split: option.splits)
    show ?thesis using updateMetadata_loss [OF assms] c by fastforce
  qed
  with u updateMetadata_cases [OF u] show ?thesis by blast
qed

theorem update_metadata_atomic_witness:
  "\<exists>fs' l. updateMetadata_run False (\<lambda>op n. op = OpSync) sample_meta [''m1.meta'' \<mapsto> Blob ''old''] =
       ((fs', l), Some (ErrIO OpSync ''m1.meta.new'')) \<and> fs' ''m1.meta'' = Some (Blob ''old'') \<and>
     after_power_loss l [''m1.meta'' \<mapsto> Blob ''old'', ''m1.meta.new'' \<mapsto> Torn]"
proof -
  have i: "ID (MsgMeta sample_meta) = ''m1''" by (simp add: sample_meta_def)
  let ?old = "[''m1.meta'' \<mapsto> Blob ''old'']"
  obtain fs' where u: "updateMetadata_run False (\<lambda>op n. op = OpSync) sample_meta ?old =
      ((fs', (synced ?old)(''m1.meta.new'' := None)), Some (ErrIO OpSync ''m1.meta.new''))"
    by (simp add: updateMetadata_run_def update_metadata_calls_def i Let_def)
  have "after_power_loss ((synced ?old)(''m1.meta.new'' := None)) (?old(''m1.meta.new'' \<mapsto> Torn))"
    by (simp add: after_power_loss_def synced_def)
  with update_metadata_atomic [OF u] u show ?thesis by (auto simp: i fun_upd_twist)
qed

text \<open>Without the \<open>Sync\<close> this would fail: a rename of a file that was not written out can leave
  anything in \<open>ID.meta\<close>.\<close>

lemma unsynced_rename_torn:
  "\<exists>fs' l. syscalls_run no_faults [SysCreate ''n'', SysWrite ''n'' c, SysRename ''n'' ''m''] (fs, synced fs) = ((fs', l), None)
     \<and> after_power_loss l (fs(''n'' := None, ''m'' \<mapsto> Torn))"
  by (auto simp: no_faults_def after_power_loss_def synced_def both_losses_def)

text \<open>Failed store: when \<open>storeNewMessage\<close> returns an error that is not that of one of the two
  final \<open>Sync\<close> calls, no new metadata file exists, so a refused message is never loaded by
  \<open>readDiskQueue\<close>.\<close>

theorem store_failure_not_loaded:
  assumes "storeNewMessage lib False fault meta hdr body fs = (fs', Inl e)"
    and "fs (meta_name (ID (MsgMeta meta))) = None"
    and "e \<notin> {ErrIO OpSync (header_name (ID (MsgMeta meta))), ErrIO OpSync (body_name (ID (MsgMeta meta)))}"
  shows "\<exists>e'. readMessageMeta fault' (ID (MsgMeta meta)) fs' = Inl e'"
  using storeNewMessage_failure [OF assms(1)] assms(2,3)
  by (auto simp: readMessageMeta_def os_Open_def)

text \<open>Late failure: when the \<open>Sync\<close> of the body fails, \<open>storeNewMessage\<close> reports the error to
  the client, but all three files are in place: after a restart the refused message is loaded and
  delivered.\<close>

theorem store_sync_failure_still_queued:
  assumes "WriteHeader lib hdr = Some hs" "ReadHeader lib hs = Some h"
    and "fault = (\<lambda>op n. op = OpSync \<and> n = body_name (ID (MsgMeta meta)))"
  shows "\<exists>fs'. storeNewMessage lib False fault meta hdr (MemoryBuffer c) fs =
      (fs', Inl (ErrIO OpSync (body_name (ID (MsgMeta meta))))) \<and>
    openMessage lib no_faults (ID (MsgMeta meta)) fs' =
      (fs', Inr (stored_meta meta, h, FileBuffer (body_name (ID (MsgMeta meta)))))"
  by (rule storeNewMessage_late_sync [OF assms])

text \<open>Removal order: once \<open>removeFromDisk\<close> has removed the header, and whatever of its later
  removals fail or are cut off by a crash, the message can never be opened for delivery again;
  files of other messages are untouched.\<close>

theorem remove_never_redelivered:
  assumes "\<not> fault OpRemove (header_name i)"
  shows "(\<exists>fs' e. openMessage lib fault' i (removeFromDisk fault i fs) = (fs', Inl e))
    \<and> (\<forall>n. n \<notin> {header_name i, body_name i, meta_name i} \<longrightarrow> removeFromDisk fault i fs n = fs n)"
proof -
  obtain fs' r where o: "openMessage lib fault' i (removeFromDisk fault i fs) = (fs', r)" by fastforce
  have "r \<noteq> Inr x" for x
    using openMessage_needs_all [of lib fault' i _ fs' "fst x" "fst (snd x)" "snd (snd x)"] o
      removeFromDisk_header [of fault i fs] assms by fastforce
  then have "\<exists>e. r = Inl e" by (cases r) auto
  with o removeFromDisk_frame show ?thesis by blast
qed

end
