(* ===== verification/Dsn.thy ===== *)
theory Dsn
  imports Address Queue_Disk
begin

text \<open>
  Model of \<^verbatim>\<open>internal/dsn/dsn.go\<close>: the header fields and the parts of a bounce.

  \<open>textproto.Header.Add\<close> puts a field on top, so the blocks list the fields in reverse order of
  the calls. The library of \<^verbatim>\<open>go-message\<close> is a parameter: \<open>bl_WriteHeader\<close> is
  \<open>textproto.WriteHeader\<close>, which returns the text or refuses a field, \<open>bl_Multipart\<close> is what the
  multipart writer makes of the parts it is given. The functions that write a part return its
  header and its text, or the first error. \<open>smtp.SMTPError.Error\<close>, the layouts of a time, the
  current time and the boundary are parameters too. Writing to a buffer in memory does not fail.
\<close>

section \<open>Data\<close>

record dsn_envelope =
  env_MsgID :: string
  env_From :: string
  env_To :: string

record mta_info =
  ReportingMTA :: string
  ReceivedFromMTA :: string
  XSender :: string
  XMessageID :: string
  ArrivalDate :: time
  LastAttemptDate :: time

text \<open>The error of a recipient: \<open>*smtp.SMTPError\<close>, or the text of another error.\<close>

datatype diag = DiagSMTP smtp_err | DiagOther string

record rcpt_info =
  FinalRecipient :: string
  RemoteMTA :: string
  Action :: string
  Status :: ench
  DiagnosticCode :: diag

section \<open>Numbers and lines\<close>

definition ench_text :: "ench \<Rightarrow> string" where
  "ench_text ec = (case ec of (a, b, c) \<Rightarrow> int_text a @ ''.'' @ int_text b @ ''.'' @ int_text c)"

definition one_line :: "string \<Rightarrow> string" where
  "one_line s = map (\<lambda>c. if c = CHR ''\<newline>'' \<or> c = CHR 0x0D then CHR '' '' else c) s"

section \<open>Parameters\<close>

record dsn_lib =
  bl_text :: textlib
  bl_WriteHeader :: "header \<Rightarrow> goerr + string"
  bl_Multipart :: "(header \<times> string) list \<Rightarrow> string"
  bl_Boundary :: string
  bl_SMTPError :: "smtp_err \<Rightarrow> string"
  bl_Format :: "time \<Rightarrow> string"
  bl_String :: "time \<Rightarrow> string"
  bl_IsZero :: "time \<Rightarrow> bool"
  bl_Now :: time

definition diag_text :: "dsn_lib \<Rightarrow> diag \<Rightarrow> string" where
  "diag_text l d = (case d of DiagSMTP e \<Rightarrow> bl_SMTPError l e | DiagOther s \<Rightarrow> s)"

section \<open>Blocks of the report\<close>

definition add_idna :: "string \<Rightarrow> string \<Rightarrow> string \<Rightarrow> string \<times> goerr option \<Rightarrow> header \<Rightarrow> goerr + header" where
  "add_idna key pre what r h =
     (case r of
        (_, Some err) \<Rightarrow> Inl (Wrapf (''dsn: cannot convert '' @ what @ '' to a suitable representation: '') err)
      | (v, None) \<Rightarrow> Inr ((key, pre @ v) # h))"

text \<open>The date of the last attempt depends on the arrival date, as in the source.\<close>

definition mta_fields :: "dsn_lib \<Rightarrow> bool \<Rightarrow> mta_info \<Rightarrow> goerr + header" where
  "mta_fields l utf8 info =
     (if ReportingMTA info = '''' then Inl (errors_New ''dsn: Reporting-MTA field is mandatory'')
      else
        ebind (add_idna ''Reporting-MTA'' ''dns; '' ''Reporting-MTA'' (dns_SelectIDNA (bl_text l) utf8 (ReportingMTA info)) []) (\<lambda>h.
        ebind (if ReceivedFromMTA info \<noteq> ''''
               then add_idna ''Received-From-MTA'' ''dns; '' ''Received-From-MTA''
                      (dns_SelectIDNA (bl_text l) utf8 (ReceivedFromMTA info)) h
               else Inr h) (\<lambda>h.
        ebind (if XSender info \<noteq> ''''
               then add_idna ''X-Maddy-Sender'' (if utf8 then ''utf8; '' else ''rfc822; '') ''X-Maddy-Sender''
                      (SelectIDNA (bl_text l) utf8 (XSender info)) h
               else Inr h) (\<lambda>h.
          let h = (if XMessageID info \<noteq> '''' then (''X-Maddy-MsgID'', XMessageID info) # h else h);
              h = (if \<not> bl_IsZero l (ArrivalDate info)
                   then (''Arrival-Date'', bl_Format l (ArrivalDate info)) # h else h);
              h = (if \<not> bl_IsZero l (ArrivalDate info)
                   then (''Last-Attempt-Date'', bl_Format l (LastAttemptDate info)) # h else h)
          in Inr h))))"

definition mta_WriteTo :: "dsn_lib \<Rightarrow> bool \<Rightarrow> mta_info \<Rightarrow> goerr + string" where
  "mta_WriteTo l utf8 info = ebind (mta_fields l utf8 info) (bl_WriteHeader l)"

definition diagnostic :: "bool \<Rightarrow> diag \<Rightarrow> string option" where
  "diagnostic utf8 d =
     (case d of
        DiagSMTP e \<Rightarrow> Some (''smtp; '' @ int_text (sm_Code e) @ '' '' @ ench_text (sm_EnhancedCode e) @ '' '' @
                           one_line (sm_Message e))
      | DiagOther s \<Rightarrow> if utf8 then Some (''X-Maddy; '' @ one_line s) else None)"

definition rcpt_fields :: "dsn_lib \<Rightarrow> bool \<Rightarrow> rcpt_info \<Rightarrow> goerr + header" where
  "rcpt_fields l utf8 info =
     (if FinalRecipient info = '''' then Inl (errors_New ''dsn: Final-Recipient is required'')
      else
        ebind (add_idna ''Final-Recipient'' (if utf8 then ''utf8; '' else ''rfc822; '') ''Final-Recipient''
                 (SelectIDNA (bl_text l) utf8 (FinalRecipient info)) []) (\<lambda>h.
          if Action info = '''' then Inl (errors_New ''dsn: Action is required'')
          else let h = (''Action'', Action info) # h in
          if fst (Status info) = 0 then Inl (errors_New ''dsn: Status is required'')
          else let h = (''Status'', ench_text (Status info)) # h;
                   h = (case diagnostic utf8 (DiagnosticCode info) of Some v \<Rightarrow> (''Diagnostic-Code'', v) # h | None \<Rightarrow> h) in
          if RemoteMTA info \<noteq> ''''
          then add_idna ''Remote-MTA'' ''dns; '' ''Remote-MTA'' (dns_SelectIDNA (bl_text l) utf8 (RemoteMTA info)) h
          else Inr h))"

definition rcpt_WriteTo :: "dsn_lib \<Rightarrow> bool \<Rightarrow> rcpt_info \<Rightarrow> goerr + string" where
  "rcpt_WriteTo l utf8 info = ebind (rcpt_fields l utf8 info) (bl_WriteHeader l)"

section \<open>The message\<close>

definition truncate_second :: "time \<Rightarrow> time" where
  "truncate_second t = t - t mod 1000000000"

abbreviation nl :: string where "nl \<equiv> [CHR ''\<newline>'']"

definition failedText :: "dsn_lib \<Rightarrow> mta_info \<Rightarrow> string" where
  "failedText l info = nl @
     ''This is the mail delivery system at '' @ ReportingMTA info @ ''.'' @ nl @ nl @
     ''Unfortunately, your message could not be delivered to one or more'' @ nl @
     ''recipients. The usual cause of this problem is invalid'' @ nl @
     ''recipient address or maintenance at the recipient side.'' @ nl @ nl @
     ''Contact the postmaster for further assistance, provide the Message ID (below):'' @ nl @ nl @
     ''Message ID: '' @ XMessageID info @ nl @
     ''Arrival: '' @ bl_String l (ArrivalDate info) @ nl @
     ''Last delivery attempt: '' @ bl_String l (LastAttemptDate info) @ nl @ nl"

definition rcpt_line :: "dsn_lib \<Rightarrow> rcpt_info \<Rightarrow> string" where
  "rcpt_line l r = ''Delivery to '' @ FinalRecipient r @ '' failed with error: '' @
     diag_text l (DiagnosticCode r) @ nl"

definition writeHumanReadablePart :: "dsn_lib \<Rightarrow> mta_info \<Rightarrow> rcpt_info list \<Rightarrow> header \<times> string" where
  "writeHumanReadablePart l mtaInfo rcpts =
     ([(''Content-Description'', ''Notification''), (''Content-Type'', ''text/plain; charset=\"utf-8\"''),
       (''Content-Transfer-Encoding'', ''8bit'')],
      failedText l (mtaInfo\<lparr>ArrivalDate := truncate_second (ArrivalDate mtaInfo),
                            LastAttemptDate := truncate_second (LastAttemptDate mtaInfo)\<rparr>) @
      concat (map (rcpt_line l) rcpts))"

fun rcpt_blocks :: "dsn_lib \<Rightarrow> bool \<Rightarrow> rcpt_info list \<Rightarrow> goerr + string list" where
  "rcpt_blocks l utf8 [] = Inr []"
| "rcpt_blocks l utf8 (r # rs) =
     ebind (rcpt_WriteTo l utf8 r) (\<lambda>b. ebind (rcpt_blocks l utf8 rs) (\<lambda>bs. Inr (b # bs)))"

definition writeMachineReadablePart ::
  "dsn_lib \<Rightarrow> bool \<Rightarrow> mta_info \<Rightarrow> rcpt_info list \<Rightarrow> goerr + header \<times> string" where
  "writeMachineReadablePart l utf8 mtaInfo rcpts =
     ebind (mta_WriteTo l utf8 mtaInfo) (\<lambda>m.
     ebind (rcpt_blocks l utf8 rcpts) (\<lambda>bs.
       Inr ([(''Content-Description'', ''Delivery report''),
             (''Content-Type'', if utf8 then ''message/global-delivery-status'' else ''message/delivery-status'')],
            m @ concat bs)))"

definition writeHeader :: "dsn_lib \<Rightarrow> bool \<Rightarrow> header \<Rightarrow> goerr + header \<times> string" where
  "writeHeader l utf8 hdr =
     ebind (bl_WriteHeader l hdr) (\<lambda>s. Inr
       ([(''Content-Transfer-Encoding'', ''8bit''),
         (''Content-Type'', if utf8 then ''message/global-headers'' else ''message/rfc822-headers''),
         (''Content-Description'', ''Undelivered message header'')], s))"

definition GenerateDSN ::
  "dsn_lib \<Rightarrow> bool \<Rightarrow> dsn_envelope \<Rightarrow> mta_info \<Rightarrow> rcpt_info list \<Rightarrow> header \<Rightarrow> goerr + header \<times> string" where
  "GenerateDSN l utf8 envelope mtaInfo rcptsInfo failedHeader =
     (let reportHeader = [
        (''Subject'', ''Undelivered Mail Returned to Sender''), (''From'', env_From envelope),
        (''To'', env_To envelope), (''Auto-Submitted'', ''auto-replied''), (''MIME-Version'', ''1.0''),
        (''Content-Type'', ''multipart/report; report-type=delivery-status; boundary='' @ bl_Boundary l),
        (''Content-Transfer-Encoding'', ''8bit''), (''Message-Id'', env_MsgID envelope),
        (''Date'', bl_Format l (bl_Now l))];
          human = writeHumanReadablePart l mtaInfo rcptsInfo in
      ebind (writeMachineReadablePart l utf8 mtaInfo rcptsInfo) (\<lambda>machine.
      ebind (writeHeader l utf8 failedHeader) (\<lambda>orig.
        Inr (reportHeader, bl_Multipart l [human, machine, orig]))))"

section \<open>Lemmas\<close>

abbreviation no_newline :: "string \<Rightarrow> bool" where
  "no_newline s \<equiv> list_all (\<lambda>c. c \<noteq> CHR ''\<newline>'' \<and> c \<noteq> CHR 0x0D) s"

lemma one_line_no_newline: "no_newline (one_line s)"
  by (auto simp: one_line_def list_all_iff)

lemma digit_no_newline:
  fixes n :: nat
  assumes "n < 10"
  shows "char_of (48 + n) \<noteq> CHR ''\<newline>'' \<and> char_of (48 + n) \<noteq> CHR 0x0D"
proof -
  have a: "of_char (char_of (48 + n) :: char) = 48 + n" using assms by simp
  have "char_of (48 + n) \<noteq> c" if "of_char c < (48 :: nat)" for c :: char
  proof
    assume "char_of (48 + n) = c"
    with a have "of_char c = 48 + n" by metis
    with that show False by simp
  qed
  then show ?thesis by simp
qed

lemma nat_digits_no_newline: "no_newline (nat_digits n)"
proof (induction n rule: nat_digits.induct)
  case (1 n)
  then show ?case
    using digit_no_newline [of n] digit_no_newline [of "n mod 10"]
    by (subst nat_digits.simps) (auto simp del: nat_digits.simps)
qed

lemma int_text_no_newline: "no_newline (int_text i)"
  by (simp add: int_text_def nat_digits_no_newline del: nat_digits.simps)

lemma ench_text_no_newline: "no_newline (ench_text ec)"
  by (simp add: ench_text_def int_text_no_newline split: prod.split)

lemmas no_newline_texts = int_text_no_newline ench_text_no_newline one_line_no_newline

lemma diagnostic_no_newline: "diagnostic utf8 d = Some v \<Longrightarrow> no_newline v"
  by (auto simp: diagnostic_def no_newline_texts split: diag.splits if_splits)

text \<open>What a successful conversion of a block tells of its input.\<close>

lemma add_idna_Inr_iff: "add_idna k p w r h = Inr h' \<longleftrightarrow> snd r = None \<and> h' = (k, p @ fst r) # h"
  by (cases r) (auto simp: add_idna_def split: option.splits)

lemma rcpt_fields_Inr:
  "rcpt_fields l utf8 r = Inr h \<longleftrightarrow>
     FinalRecipient r \<noteq> '''' \<and> Action r \<noteq> '''' \<and> fst (Status r) \<noteq> 0 \<and>
     snd (SelectIDNA (bl_text l) utf8 (FinalRecipient r)) = None \<and>
     (RemoteMTA r \<noteq> '''' \<longrightarrow> snd (dns_SelectIDNA (bl_text l) utf8 (RemoteMTA r)) = None) \<and>
     h = (if RemoteMTA r \<noteq> '''' then [(''Remote-MTA'', ''dns; '' @ fst (dns_SelectIDNA (bl_text l) utf8 (RemoteMTA r)))] else []) @
         (case diagnostic utf8 (DiagnosticCode r) of Some v \<Rightarrow> [(''Diagnostic-Code'', v)] | None \<Rightarrow> []) @
         [(''Status'', ench_text (Status r)), (''Action'', Action r),
          (''Final-Recipient'', (if utf8 then ''utf8; '' else ''rfc822; '') @ fst (SelectIDNA (bl_text l) utf8 (FinalRecipient r)))]"
  by (auto simp: rcpt_fields_def ebind_Inr_iff add_idna_Inr_iff Let_def split: option.splits)

lemma rcpt_blocks_Inr:
  "rcpt_blocks l utf8 rs = Inr bs \<longleftrightarrow> list_all2 (\<lambda>r b. rcpt_WriteTo l utf8 r = Inr b) rs bs"
proof (induction rs arbitrary: bs)
  case (Cons r rs)
  show ?case by (cases bs) (auto simp: ebind_Inr_iff Cons.IH)
qed auto

section \<open>Bounces are generated and complete\<close>

text \<open>The fields that \<open>textproto.WriteHeader\<close> accepts: keys of printable ASCII without a colon,
  values without line breaks.\<close>

definition key_ok :: "string \<Rightarrow> bool" where
  "key_ok k = list_all (\<lambda>c. 33 \<le> (of_char c :: nat) \<and> of_char c \<le> (126 :: nat) \<and> c \<noteq> CHR '':'') k"

definition field_ok :: "string \<times> string \<Rightarrow> bool" where
  "field_ok f = (key_ok (fst f) \<and> no_newline (snd f))"

definition converts :: "string \<times> goerr option \<Rightarrow> bool" where
  "converts r = (snd r = None \<and> no_newline (fst r))"

definition mta_ok :: "dsn_lib \<Rightarrow> bool \<Rightarrow> mta_info \<Rightarrow> bool" where
  "mta_ok l utf8 info =
     (ReportingMTA info \<noteq> '''' \<and> converts (dns_SelectIDNA (bl_text l) utf8 (ReportingMTA info)) \<and>
      (ReceivedFromMTA info = '''' \<or> converts (dns_SelectIDNA (bl_text l) utf8 (ReceivedFromMTA info))) \<and>
      (XSender info = '''' \<or> converts (SelectIDNA (bl_text l) utf8 (XSender info))) \<and>
      no_newline (XMessageID info))"

definition rcpt_ok :: "dsn_lib \<Rightarrow> bool \<Rightarrow> rcpt_info \<Rightarrow> bool" where
  "rcpt_ok l utf8 r =
     (FinalRecipient r \<noteq> '''' \<and> converts (SelectIDNA (bl_text l) utf8 (FinalRecipient r)) \<and>
      Action r \<noteq> '''' \<and> no_newline (Action r) \<and> fst (Status r) \<noteq> 0 \<and>
      (RemoteMTA r = '''' \<or> converts (dns_SelectIDNA (bl_text l) utf8 (RemoteMTA r))))"

lemma key_ok_const:
  "key_ok ''Reporting-MTA''" "key_ok ''Received-From-MTA''" "key_ok ''X-Maddy-Sender''"
  "key_ok ''X-Maddy-MsgID''" "key_ok ''Arrival-Date''" "key_ok ''Last-Attempt-Date''"
  "key_ok ''Final-Recipient''" "key_ok ''Action''" "key_ok ''Status''" "key_ok ''Diagnostic-Code''"
  "key_ok ''Remote-MTA''"
  by (simp_all add: key_ok_def)

lemma no_newline_prefix:
  "no_newline ''dns; ''" "no_newline (if utf8 then ''utf8; '' else ''rfc822; '')"
  by simp_all

lemma add_idna_ok:
  assumes "list_all field_ok h" "c \<longrightarrow> converts r" "key_ok k" "no_newline p"
  shows "\<exists>h'. (if c then add_idna k p w r h else Inr h) = Inr h' \<and> list_all field_ok h'"
  using assms by (cases c) (auto simp: add_idna_Inr_iff converts_def field_ok_def)

lemma mta_fields_ok:
  assumes ok: "mta_ok l utf8 info" and fmt: "\<And>t. no_newline (bl_Format l t)"
  shows "\<exists>h. mta_fields l utf8 info = Inr h \<and> list_all field_ok h"
proof -
  let ?a = "add_idna ''Reporting-MTA'' ''dns; '' ''Reporting-MTA'' (dns_SelectIDNA (bl_text l) utf8 (ReportingMTA info)) []"
  let ?b = "\<lambda>h. if ReceivedFromMTA info \<noteq> '''' then add_idna ''Received-From-MTA'' ''dns; '' ''Received-From-MTA''
      (dns_SelectIDNA (bl_text l) utf8 (ReceivedFromMTA info)) h else Inr h"
  let ?c = "\<lambda>h. if XSender info \<noteq> '''' then add_idna ''X-Maddy-Sender'' (if utf8 then ''utf8; '' else ''rfc822; '')
      ''X-Maddy-Sender'' (SelectIDNA (bl_text l) utf8 (XSender info)) h else Inr h"
  obtain h1 where h1: "?a = Inr h1" "list_all field_ok h1"
    using add_idna_ok [of "[]" True "dns_SelectIDNA (bl_text l) utf8 (ReportingMTA info)" "''Reporting-MTA''" "''dns; ''"] ok
    by (auto simp: mta_ok_def key_ok_const)
  obtain h2 where h2: "?b h1 = Inr h2" "list_all field_ok h2"
    using add_idna_ok [OF h1(2), of "ReceivedFromMTA info \<noteq> ''''" "dns_SelectIDNA (bl_text l) utf8 (ReceivedFromMTA info)"
        "''Received-From-MTA''" "''dns; ''" "''Received-From-MTA''"] ok
    by (auto simp only: mta_ok_def key_ok_const no_newline_prefix)
  obtain h3 where h3: "?c h2 = Inr h3" "list_all field_ok h3"
    using add_idna_ok [OF h2(2), of "XSender info \<noteq> ''''" "SelectIDNA (bl_text l) utf8 (XSender info)"
        "''X-Maddy-Sender''" "if utf8 then ''utf8; '' else ''rfc822; ''" "''X-Maddy-Sender''"] ok
    by (auto simp only: mta_ok_def key_ok_const no_newline_prefix)
  have "mta_fields l utf8 info =
    (let h = (if XMessageID info \<noteq> '''' then (''X-Maddy-MsgID'', XMessageID info) # h3 else h3);
         h = (if \<not> bl_IsZero l (ArrivalDate info) then (''Arrival-Date'', bl_Format l (ArrivalDate info)) # h else h)
     in Inr (if \<not> bl_IsZero l (ArrivalDate info) then (''Last-Attempt-Date'', bl_Format l (LastAttemptDate info)) # h else h))"
    using ok by (simp only: mta_fields_def h1(1) h2(1) h3(1) ebind_def sum.case mta_ok_def if_False Let_def)
  then show ?thesis using h3(2) ok fmt by (simp add: Let_def field_ok_def key_ok_const mta_ok_def)
qed

lemma rcpt_fields_ok:
  assumes "rcpt_ok l utf8 r"
  shows "\<exists>h. rcpt_fields l utf8 r = Inr h \<and> list_all field_ok h"
  using assms diagnostic_no_newline [of utf8 "DiagnosticCode r"]
  by (auto simp: rcpt_ok_def converts_def rcpt_fields_Inr field_ok_def key_ok_const ench_text_no_newline
      split: option.splits)

lemma rcpt_blocks_ok:
  assumes w: "\<And>h. list_all field_ok h \<Longrightarrow> \<exists>s. bl_WriteHeader l h = Inr s"
  shows "list_all (rcpt_ok l utf8) rs \<Longrightarrow> \<exists>bs. rcpt_blocks l utf8 rs = Inr bs"
proof (induction rs)
  case (Cons r rs)
  then obtain h where "rcpt_fields l utf8 r = Inr h" "list_all field_ok h" using rcpt_fields_ok [of l utf8 r] by auto
  with w Cons show ?case by (fastforce simp: rcpt_WriteTo_def ebind_Inr_iff)
qed simp

text \<open>What a block says of its recipient.\<close>

definition reports :: "dsn_lib \<Rightarrow> bool \<Rightarrow> rcpt_info \<Rightarrow> header \<Rightarrow> bool" where
  "reports l utf8 r fs =
     (map_of fs ''Final-Recipient'' = Some ((if utf8 then ''utf8; '' else ''rfc822; '') @
        fst (SelectIDNA (bl_text l) utf8 (FinalRecipient r))) \<and>
      map_of fs ''Action'' = Some (Action r) \<and> map_of fs ''Status'' = Some (ench_text (Status r)) \<and>
      map_of fs ''Diagnostic-Code'' = diagnostic utf8 (DiagnosticCode r) \<and>
      (case map_of fs ''Diagnostic-Code'' of Some v \<Rightarrow> no_newline v | None \<Rightarrow> True))"

lemma rcpt_fields_report: "rcpt_fields l utf8 r = Inr fs \<Longrightarrow> reports l utf8 r fs"
  using diagnostic_no_newline [of utf8 "DiagnosticCode r"]
  by (auto simp: rcpt_fields_Inr reports_def split: option.splits)

lemma GenerateDSN_status:
  assumes "GenerateDSN l utf8 envelope mtaInfo rcptsInfo failedHeader = Inr (h, body)" "r \<in> set rcptsInfo"
  shows "fst (Status r) \<noteq> 0"
proof -
  obtain bs where "rcpt_blocks l utf8 rcptsInfo = Inr bs"
    using assms(1) by (auto simp: GenerateDSN_def writeMachineReadablePart_def ebind_Inr_iff Let_def)
  with assms(2) obtain b where "rcpt_WriteTo l utf8 r = Inr b"
    by (auto simp: rcpt_blocks_Inr list_all2_conv_all_nth in_set_conv_nth)
  then show ?thesis by (auto simp: rcpt_WriteTo_def ebind_Inr_iff rcpt_fields_Inr)
qed

text \<open>A bounce is generated whatever the errors of the recipients say: if the names and
  addresses of the report can be represented and every recipient has a status, then
  \<open>GenerateDSN\<close> returns a message, even when the error texts, which come from other servers,
  contain line breaks, and \<open>textproto.WriteHeader\<close> refuses values with line breaks.\<close>

theorem bounce_always_generated:
  assumes "\<And>h. list_all field_ok h \<Longrightarrow> \<exists>s. bl_WriteHeader l h = Inr s"
    and "\<And>t. no_newline (bl_Format l t)"
    and "mta_ok l utf8 mtaInfo" and "list_all (rcpt_ok l utf8) rcptsInfo"
    and "bl_WriteHeader l failedHeader = Inr orig"
  shows "\<exists>h body. GenerateDSN l utf8 envelope mtaInfo rcptsInfo failedHeader = Inr (h, body)"
proof -
  obtain fs where fs: "mta_fields l utf8 mtaInfo = Inr fs" "list_all field_ok fs"
    using mta_fields_ok [OF assms(3,2)] by blast
  obtain m where m: "mta_WriteTo l utf8 mtaInfo = Inr m"
    using assms(1) [OF fs(2)] fs(1) by (auto simp: mta_WriteTo_def ebind_def)
  obtain bs where "rcpt_blocks l utf8 rcptsInfo = Inr bs" using rcpt_blocks_ok [OF assms(1,4)] by blast
  with m assms(5) show ?thesis
    by (simp add: GenerateDSN_def writeMachineReadablePart_def writeHeader_def ebind_def Let_def)
qed

text \<open>A bounce tells the sender of every failed recipient: it is addressed to the return path,
  its parts are the text for the sender with one line per recipient, the report and the header
  of the message, and the report has one block per recipient, in order, with its address, its
  status and, for an SMTP error, a diagnostic of one line.\<close>

theorem bounce_reports_every_recipient:
  assumes "GenerateDSN l utf8 envelope mtaInfo rcptsInfo failedHeader = Inr (h, body)"
  shows "(''To'', env_To envelope) \<in> set h \<and>
    (\<exists>mh oh m bs orig.
       body = bl_Multipart l [writeHumanReadablePart l mtaInfo rcptsInfo, (mh, m @ concat bs), (oh, orig)] \<and>
       mta_WriteTo l utf8 mtaInfo = Inr m \<and> bl_WriteHeader l failedHeader = Inr orig \<and>
       (\<exists>intro. snd (writeHumanReadablePart l mtaInfo rcptsInfo) = intro @ concat (map (rcpt_line l) rcptsInfo)) \<and>
       list_all2 (\<lambda>r b. \<exists>fs. bl_WriteHeader l fs = Inr b \<and> reports l utf8 r fs) rcptsInfo bs)"
proof -
  obtain m bs orig where m: "mta_WriteTo l utf8 mtaInfo = Inr m" and b: "rcpt_blocks l utf8 rcptsInfo = Inr bs"
    and o: "bl_WriteHeader l failedHeader = Inr orig"
    using assms by (auto simp: GenerateDSN_def writeMachineReadablePart_def writeHeader_def ebind_Inr_iff Let_def)
  obtain mh where mh: "writeMachineReadablePart l utf8 mtaInfo rcptsInfo = Inr (mh, m @ concat bs)"
    using m b by (simp add: writeMachineReadablePart_def ebind_def)
  obtain oh where oh: "writeHeader l utf8 failedHeader = Inr (oh, orig)" using o by (simp add: writeHeader_def ebind_def)
  have to: "(''To'', env_To envelope) \<in> set h" and
    hb: "body = bl_Multipart l [writeHumanReadablePart l mtaInfo rcptsInfo, (mh, m @ concat bs), (oh, orig)]"
    using assms by (auto simp: GenerateDSN_def mh oh ebind_def Let_def)
  have "list_all2 (\<lambda>r b. \<exists>fs. rcpt_fields l utf8 r = Inr fs \<and> bl_WriteHeader l fs = Inr b) rcptsInfo bs"
    using b by (simp add: rcpt_blocks_Inr rcpt_WriteTo_def ebind_Inr_iff)
  then have "list_all2 (\<lambda>r b. \<exists>fs. bl_WriteHeader l fs = Inr b \<and> reports l utf8 r fs) rcptsInfo bs"
    by (rule list_all2_mono) (use rcpt_fields_report in blast)
  moreover have "\<exists>intro. snd (writeHumanReadablePart l mtaInfo rcptsInfo) = intro @ concat (map (rcpt_line l) rcptsInfo)"
    by (auto simp: writeHumanReadablePart_def)
  ultimately show ?thesis using m o to hb by blast
qed

definition sample_field_text :: "string \<times> string \<Rightarrow> string" where
  "sample_field_text f = fst f @ '': '' @ snd f @ [CHR 0x0D, CHR ''\<newline>'']"

definition sample_dsn_lib :: dsn_lib where
  "sample_dsn_lib = \<lparr>
     bl_text = \<lparr>idna_ToASCII = (\<lambda>s. (s, None)), idna_ToUnicode = (\<lambda>s. (s, None)), nfc_String = (\<lambda>s. s),
       unicode_ToLower = (\<lambda>r. r), precis_CaseMapped = (\<lambda>s. (s, None)), precis_CasePreserved = (\<lambda>s. (s, None))\<rparr>,
     bl_WriteHeader = (\<lambda>h. if list_all field_ok h then Inr (concat (map sample_field_text h) @ [CHR 0x0D, CHR ''\<newline>''])
                           else Inl (errors_New ''failed to write header field'')),
     bl_Multipart = (\<lambda>ps. concat (map (\<lambda>p. ''--b'' @ concat (map sample_field_text (fst p)) @ snd p) ps) @ ''--b--''),
     bl_Boundary = ''b'', bl_SMTPError = (\<lambda>e. sm_Message e), bl_Format = (\<lambda>t. ''now''), bl_String = (\<lambda>t. ''now''),
     bl_IsZero = (\<lambda>t. t = 0), bl_Now = 5\<rparr>"

definition sample_mta_info :: mta_info where
  "sample_mta_info = \<lparr>ReportingMTA = ''mx'', ReceivedFromMTA = '''', XSender = '''', XMessageID = ''m1'',
     ArrivalDate = 3, LastAttemptDate = 4\<rparr>"

definition sample_rcpt_info :: rcpt_info where
  "sample_rcpt_info = \<lparr>FinalRecipient = ''b@d'', RemoteMTA = '''', Action = ''failed'', Status = (5, 1, 1),
     DiagnosticCode = DiagSMTP \<lparr>sm_Code = 550, sm_EnhancedCode = (5, 1, 1), sm_Message = ''no'' @ nl @ ''Bcc: all''\<rparr>\<rparr>"

definition sample_envelope :: dsn_envelope where
  "sample_envelope = \<lparr>env_MsgID = ''<i@d>'', env_From = ''MAILER-DAEMON@d'', env_To = ''a@d''\<rparr>"

lemma sample_mta_ok: "mta_ok sample_dsn_lib True sample_mta_info"
  by (simp add: mta_ok_def sample_dsn_lib_def sample_mta_info_def converts_def dns_SelectIDNA_def)

lemma sample_rcpt_ok: "rcpt_ok sample_dsn_lib True sample_rcpt_info"
  by (simp add: rcpt_ok_def sample_dsn_lib_def sample_rcpt_info_def converts_def SelectIDNA_def Address.ToUnicode_def Split_def)

lemma sample_diagnostic:
  "diagnostic True (DiagnosticCode sample_rcpt_info) = Some ''smtp; 550 5.1.1 no Bcc: all''"
  by (simp add: diagnostic_def sample_rcpt_info_def int_text_def ench_text_def one_line_def char_of_def bit_0)

lemma sample_generated:
  "\<exists>h body. GenerateDSN sample_dsn_lib True sample_envelope sample_mta_info [sample_rcpt_info] [] = Inr (h, body)"
proof -
  have w: "\<exists>s. bl_WriteHeader sample_dsn_lib h = Inr s" if "list_all field_ok h" for h
    using that by (simp add: sample_dsn_lib_def)
  obtain fs where fs: "mta_fields sample_dsn_lib True sample_mta_info = Inr fs" "list_all field_ok fs"
    using mta_fields_ok [OF sample_mta_ok] by (auto simp: sample_dsn_lib_def)
  obtain bs where bs: "rcpt_blocks sample_dsn_lib True [sample_rcpt_info] = Inr bs"
    using rcpt_blocks_ok [OF w, of True "[sample_rcpt_info]"] sample_rcpt_ok by auto
  from w [OF fs(2)] fs(1) bs w [of "[]"] show ?thesis
    by (auto simp: GenerateDSN_def writeMachineReadablePart_def mta_WriteTo_def writeHeader_def ebind_def Let_def
        simp del: rcpt_blocks.simps)
qed

end
