(* ===== verification/Time_Wheel.thy ===== *)
theory Time_Wheel
  imports Go_Base
begin

text \<open>
  Model of \<^verbatim>\<open>internal/target/queue/timewheel.go\<close>: the scheduler of delivery attempts.

  The goroutine \<open>tick\<close>, any number of concurrent calls of \<open>Add\<close>, and one call of \<open>Close\<close> are
  interleaved by the step relation \<open>wheel_step\<close>: one rule per atomic action or channel
  rendezvous. An \<open>Add\<close> passes through \<open>checked\<close> (after it read \<open>stopped\<close>) and \<open>notifying\<close>
  (blocked on the send to \<open>updateNotify\<close>). Elements of the list carry a number, the identity of
  the \<open>*list.Element\<close>. \<open>dispatched\<close> is a history variable: the elements handed to the dispatch
  function with the time of the call; \<open>panicked\<close> counts sends on the closed channel.
\<close>

section \<open>State\<close>

record 'v timeslot =
  Time :: time
  Value :: 'v

type_synonym 'v element = "nat \<times> 'v timeslot"

datatype 'v tick_pc =
    TScan
  | TIdle
  | TWait time "'v element"
  | TStopping
  | TDone

datatype close_pc = CNotCalled | CStopStored | CAwaitAck | CAcked | CClosed

record 'v wheel =
  stopped :: bool
  slots :: "'v element list"
  next_id :: nat
  tick :: "'v tick_pc"
  checked :: "'v timeslot list"
  notifying :: "time list"
  closer :: close_pc
  chan_open :: bool
  clock :: time
  dispatched :: "('v element \<times> time) list"
  panicked :: nat

definition NewTimeWheel :: "time \<Rightarrow> 'v wheel" where
  "NewTimeWheel now = \<lparr>stopped = False, slots = [], next_id = 0, tick = TScan, checked = [],
     notifying = [], closer = CNotCalled, chan_open = True, clock = now, dispatched = [], panicked = 0\<rparr>"

section \<open>Operations\<close>

text \<open>The search loop of \<open>tick\<close>: a later element wins only if it is strictly closer.\<close>

fun scan :: "time \<Rightarrow> 'v element option \<Rightarrow> 'v element list \<Rightarrow> 'v element option" where
  "scan now best [] = best"
| "scan now None (e # es) = scan now (Some e) es"
| "scan now (Some b) (e # es) =
     scan now (if time_sub (Time (snd e)) now < time_sub (Time (snd b)) now then Some e else Some b) es"

definition list_Remove :: "nat \<Rightarrow> 'v element list \<Rightarrow> 'v element list" where
  "list_Remove i es = filter (\<lambda>e. fst e \<noteq> i) es"

definition push_slot :: "'v timeslot \<Rightarrow> 'v wheel \<Rightarrow> 'v wheel" where
  "push_slot s w = w\<lparr>slots := slots w @ [(next_id w, s)], next_id := Suc (next_id w),
     notifying := notifying w @ [Time s]\<rparr>"

text \<open>The effect of one call of \<open>Add\<close> up to its send: ignored once the wheel is stopped. \<open>Add\<close> panics for a nil value; the values of the
  model are not nil, as those of the queue, whose slots are structures.\<close>

definition wheel_Add :: "time \<Rightarrow> 'v \<Rightarrow> 'v wheel \<Rightarrow> 'v wheel" where
  "wheel_Add target v w =
     (if stopped w then w else push_slot \<lparr>Time = target, Value = v\<rparr> w)"

definition tick_scan :: "'v wheel \<Rightarrow> 'v wheel" where
  "tick_scan w = w\<lparr>tick := (case scan (clock w) None (slots w) of
                              None \<Rightarrow> TIdle
                            | Some e \<Rightarrow> TWait (clock w) e)\<rparr>"

text \<open>The code removes the slot under the lock and dispatches it after the unlock. The removed slot is known to the tick goroutine alone, so that no other
  goroutine can observe it in between, and removal and dispatch are one step.\<close>

definition tick_fire :: "time \<Rightarrow> 'v element \<Rightarrow> 'v wheel \<Rightarrow> 'v wheel" where
  "tick_fire now e w = w\<lparr>slots := list_Remove (fst e) (slots w),
     dispatched := dispatched w @ [(e, clock w)], tick := TScan\<rparr>"

definition tick_notified :: "time \<Rightarrow> 'v element \<Rightarrow> time \<Rightarrow> 'v wheel \<Rightarrow> 'v wheel" where
  "tick_notified now e newTarget w =
     (if time_sub (Time (snd e)) now \<le> time_sub newTarget now then w else w\<lparr>tick := TScan\<rparr>)"

section \<open>Steps\<close>

inductive wheel_step :: "'v wheel \<Rightarrow> 'v wheel \<Rightarrow> bool" where
  add_check: "\<not> stopped w \<Longrightarrow> wheel_step w (w\<lparr>checked := checked w @ [s]\<rparr>)"
| add_push: "s \<in> set (checked w) \<Longrightarrow>
     wheel_step w (push_slot s (w\<lparr>checked := remove1 s (checked w)\<rparr>))"
| add_wakes: "t \<in> set (notifying w) \<Longrightarrow> chan_open w \<Longrightarrow> tick w = TIdle \<Longrightarrow>
     wheel_step w (w\<lparr>notifying := remove1 t (notifying w), tick := TScan\<rparr>)"
| add_notifies: "t \<in> set (notifying w) \<Longrightarrow> chan_open w \<Longrightarrow> tick w = TWait now e \<Longrightarrow>
     wheel_step w (tick_notified now e t (w\<lparr>notifying := remove1 t (notifying w)\<rparr>))"
| add_panics: "t \<in> set (notifying w) \<Longrightarrow> \<not> chan_open w \<Longrightarrow>
     wheel_step w (w\<lparr>notifying := remove1 t (notifying w), panicked := Suc (panicked w)\<rparr>)"
| scans: "tick w = TScan \<Longrightarrow> wheel_step w (tick_scan w)"
| fires: "tick w = TWait now e \<Longrightarrow> now + time_sub (Time (snd e)) now \<le> clock w \<Longrightarrow>
     wheel_step w (tick_fire now e w)"
| time_passes: "clock w \<le> t \<Longrightarrow> wheel_step w (w\<lparr>clock := t\<rparr>)"
| close_store: "closer w = CNotCalled \<Longrightarrow> wheel_step w (w\<lparr>stopped := True, closer := CStopStored\<rparr>)"
| close_send: "closer w = CStopStored \<Longrightarrow> tick w = TIdle \<or> (\<exists>now e. tick w = TWait now e) \<Longrightarrow>
     wheel_step w (w\<lparr>closer := CAwaitAck, tick := TStopping\<rparr>)"
| close_ack: "closer w = CAwaitAck \<Longrightarrow> tick w = TStopping \<Longrightarrow>
     wheel_step w (w\<lparr>closer := CAcked, tick := TDone\<rparr>)"
| close_chan: "closer w = CAcked \<Longrightarrow> wheel_step w (w\<lparr>closer := CClosed, chan_open := False\<rparr>)"

inductive wheel_reachable :: "time \<Rightarrow> 'v wheel \<Rightarrow> bool" for t0 where
  start: "wheel_reachable t0 (NewTimeWheel t0)"
| step: "wheel_reachable t0 w \<Longrightarrow> wheel_step w w' \<Longrightarrow> wheel_reachable t0 w'"

inductive_cases wheel_stepE: "wheel_step w w'"

section \<open>Invariant\<close>

text \<open>Every element is pending or dispatched, never both, never twice.\<close>

definition wheel_ids :: "'v wheel \<Rightarrow> nat list" where
  "wheel_ids w = map fst (slots w) @ map (fst \<circ> fst) (dispatched w)"

definition ids_inv :: "'v wheel \<Rightarrow> bool" where
  "ids_inv w \<longleftrightarrow> distinct (wheel_ids w) \<and> set (wheel_ids w) = {0..<next_id w}"

text \<open>What the goroutine waits for is the closest element, except for elements whose
  notification it has not received yet.\<close>

definition wait_inv :: "'v wheel \<Rightarrow> bool" where
  "wait_inv w \<longleftrightarrow>
     (case tick w of
        TIdle \<Rightarrow> (\<forall>x \<in> set (slots w). Time (snd x) \<in> set (notifying w))
      | TWait now e \<Rightarrow> e \<in> set (slots w) \<and> now \<le> clock w \<and>
          (\<forall>x \<in> set (slots w). time_sub (Time (snd e)) now \<le> time_sub (Time (snd x)) now
                               \<or> Time (snd x) \<in> set (notifying w))
      | _ \<Rightarrow> True)"

definition close_inv :: "'v wheel \<Rightarrow> bool" where
  "close_inv w \<longleftrightarrow> (closer w \<noteq> CNotCalled \<longrightarrow> stopped w)
     \<and> (closer w = CAwaitAck \<longrightarrow> tick w = TStopping)
     \<and> (closer w \<in> {CAcked, CClosed} \<longrightarrow> tick w = TDone)
     \<and> (chan_open w \<longleftrightarrow> closer w \<noteq> CClosed)
     \<and> (0 < panicked w \<longrightarrow> closer w = CClosed)
     \<and> (tick w \<in> {TStopping, TDone} \<longrightarrow> closer w \<in> {CAwaitAck, CAcked, CClosed})"

definition wheel_inv :: "'v wheel \<Rightarrow> bool" where
  "wheel_inv w \<longleftrightarrow> ids_inv w \<and> wait_inv w \<and> close_inv w"

section \<open>Lemmas\<close>

lemma scan_in: "scan now best es = Some e \<Longrightarrow> best = Some e \<or> e \<in> set es"
  by (induction now best es rule: scan.induct) (auto split: if_splits)

lemma scan_None: "scan now best es = None \<longleftrightarrow> best = None \<and> es = []"
  by (induction now best es rule: scan.induct) auto

lemma scan_le_best:
  "scan now (Some b) es = Some e \<Longrightarrow> time_sub (Time (snd e)) now \<le> time_sub (Time (snd b)) now"
proof (induction es arbitrary: b)
  case Nil
  then show ?case by simp
next
  case (Cons x es)
  show ?case
  proof (cases "time_sub (Time (snd x)) now < time_sub (Time (snd b)) now")
    case True
    with Cons.IH [of x] Cons.prems show ?thesis by simp
  next
    case False
    with Cons.IH [of b] Cons.prems show ?thesis by simp
  qed
qed

lemma scan_min:
  "scan now best es = Some e \<Longrightarrow> x \<in> set es \<Longrightarrow> time_sub (Time (snd e)) now \<le> time_sub (Time (snd x)) now"
proof (induction now best es rule: scan.induct)
  case (1 now best)
  then show ?case by simp
next
  case (2 now e' es)
  then show ?case by (auto dest: scan_le_best)
next
  case (3 now b e' es)
  show ?case
  proof (cases "x \<in> set es")
    case True
    with "3" show ?thesis by simp
  next
    case False
    with "3.prems" have "x = e'" by simp
    with "3.prems"(1) scan_le_best [of now e' es e] scan_le_best [of now b es e] show ?thesis
      by (cases "time_sub (Time (snd e')) now < time_sub (Time (snd b)) now") auto
  qed
qed

lemma scan_minimal:
  assumes "scan now None es = Some e"
  shows "e \<in> set es \<and> (\<forall>x \<in> set es. time_sub (Time (snd e)) now \<le> time_sub (Time (snd x)) now)"
  using scan_in [OF assms] scan_min [OF assms] by auto

lemma list_Remove_ids: "distinct (map fst es) \<Longrightarrow> e \<in> set es \<Longrightarrow>
    distinct (map fst (list_Remove (fst e) es)) \<and>
    set (map fst es) = insert (fst e) (set (map fst (list_Remove (fst e) es))) \<and>
    fst e \<notin> set (map fst (list_Remove (fst e) es))"
  by (auto simp: list_Remove_def distinct_map inj_on_def)

lemma ids_inv_push: "ids_inv w \<Longrightarrow> ids_inv (push_slot s w)"
  by (auto simp: ids_inv_def wheel_ids_def push_slot_def)

lemma ids_inv_fire:
  assumes "ids_inv w" "e \<in> set (slots w)"
  shows "ids_inv (tick_fire now e w)"
proof -
  from assms(1) have "distinct (map fst (slots w))" by (simp add: ids_inv_def wheel_ids_def)
  from list_Remove_ids [OF this assms(2)] assms(1) show ?thesis
    by (auto simp: ids_inv_def wheel_ids_def tick_fire_def)
qed

lemmas wheel_defs = push_slot_def tick_scan_def tick_fire_def tick_notified_def

lemma step_ids_inv: "wheel_step w w' \<Longrightarrow> ids_inv w \<Longrightarrow> wait_inv w \<Longrightarrow> ids_inv w'"
proof (induction rule: wheel_step.induct)
  case (add_push s w)
  then have "ids_inv (w\<lparr>checked := remove1 s (checked w)\<rparr>)"
    by (simp add: ids_inv_def wheel_ids_def)
  then show ?case by (rule ids_inv_push)
next
  case (fires w now e)
  then have "e \<in> set (slots w)" by (simp add: wait_inv_def)
  with fires show ?case by (blast intro: ids_inv_fire)
qed (simp_all add: ids_inv_def wheel_ids_def tick_scan_def tick_notified_def)

lemma scan_wait_inv: "wait_inv (tick_scan w)"
proof (cases "scan (clock w) None (slots w)")
  case None
  then show ?thesis by (simp add: wait_inv_def tick_scan_def scan_None)
next
  case (Some e)
  from scan_minimal [OF Some] Some show ?thesis by (simp add: wait_inv_def tick_scan_def)
qed

lemma in_remove1: "x \<in> set (remove1 t xs) \<or> x = t \<or> x \<notin> set xs"
  by (metis in_set_remove1)

lemma step_wait_inv: "wheel_step w w' \<Longrightarrow> wait_inv w \<Longrightarrow> close_inv w \<Longrightarrow> wait_inv w'"
proof (induction rule: wheel_step.induct)
  case (add_push s w)
  then show ?case
    by (auto simp: wait_inv_def push_slot_def split: tick_pc.splits)
next
  case (add_notifies t w now e)
  show ?case
  proof (cases "time_sub (Time (snd e)) now \<le> time_sub t now")
    case True
    have "time_sub (Time (snd e)) now \<le> time_sub (Time (snd x)) now
        \<or> Time (snd x) \<in> set (remove1 t (notifying w))" if "x \<in> set (slots w)" for x
      using add_notifies that True in_remove1 [of "Time (snd x)" t "notifying w"]
      by (auto simp: wait_inv_def)
    with True add_notifies show ?thesis by (simp add: wait_inv_def tick_notified_def)
  next
    case False
    then show ?thesis by (simp add: wait_inv_def tick_notified_def)
  qed
next
  case (add_panics t w)
  then have "tick w = TDone" by (simp add: close_inv_def)
  then show ?case by (simp add: wait_inv_def)
next
  case (scans w)
  show ?case by (rule scan_wait_inv)
qed (auto simp: wait_inv_def tick_fire_def split: tick_pc.splits)

lemma step_close_inv: "wheel_step w w' \<Longrightarrow> close_inv w \<Longrightarrow> close_inv w'"
  by (induction rule: wheel_step.induct)
    (auto simp: close_inv_def push_slot_def tick_scan_def tick_fire_def tick_notified_def
      split: option.splits)

lemma wheel_inv_init: "wheel_inv (NewTimeWheel now)"
  by (simp add: wheel_inv_def ids_inv_def wheel_ids_def wait_inv_def close_inv_def NewTimeWheel_def)

lemma step_wheel_inv: "wheel_step w w' \<Longrightarrow> wheel_inv w \<Longrightarrow> wheel_inv w'"
  unfolding wheel_inv_def by (blast intro: step_ids_inv step_wait_inv step_close_inv)

lemma reachable_wheel_inv: "wheel_reachable t0 w \<Longrightarrow> wheel_inv w"
  by (induction rule: wheel_reachable.induct) (auto intro: wheel_inv_init step_wheel_inv)

text \<open>An entry is dispatched at its time or later, unless the wheel has been running for the
  longest duration an \<open>int64\<close> can hold (292 years), where \<open>Sub\<close> saturates.\<close>

definition due_inv :: "time \<Rightarrow> 'v wheel \<Rightarrow> bool" where
  "due_inv t0 w \<longleftrightarrow> t0 \<le> clock w
     \<and> (\<forall>now e. tick w = TWait now e \<longrightarrow> t0 \<le> now)
     \<and> (\<forall>(e, t) \<in> set (dispatched w). Time (snd e) \<le> t \<or> t0 + max_int64 \<le> t)"

lemma fire_due:
  assumes "t0 \<le> now" "now + time_sub (Time s) now \<le> c"
  shows "Time s \<le> c \<or> t0 + max_int64 \<le> c"
  using assms by (auto simp: time_sub_def max_def min_def split: if_splits)

lemma step_due_inv: "wheel_step w w' \<Longrightarrow> due_inv t0 w \<Longrightarrow> due_inv t0 w'"
proof (induction rule: wheel_step.induct)
  case (fires w now e)
  then have "t0 \<le> now" by (auto simp: due_inv_def)
  from fire_due [OF this fires(2)] fires(3) show ?case
    by (auto simp: due_inv_def tick_fire_def)
qed (auto simp: due_inv_def push_slot_def tick_scan_def tick_notified_def split: option.splits)

lemma due_inv_init: "due_inv t0 (NewTimeWheel t0)"
  by (simp add: due_inv_def NewTimeWheel_def)

lemma reachable_due_inv: "wheel_reachable t0 w \<Longrightarrow> due_inv t0 w"
  by (induction rule: wheel_reachable.induct) (blast intro: due_inv_init step_due_inv)+

section \<open>Scheduling contract\<close>

text \<open>What a client may assume of a scheduler: an accepted entry is pending exactly once more,
  whatever was pending stays pending, and a stopped scheduler accepts nothing.\<close>

locale scheduler =
  fixes add :: "time \<Rightarrow> 'v \<Rightarrow> 'w \<Rightarrow> 'w"
    and pending :: "'w \<Rightarrow> (time \<times> 'v) list"
    and halted :: "'w \<Rightarrow> bool"
  assumes add_pending: "\<not> halted w \<Longrightarrow> pending (add t v w) = pending w @ [(t, v)]"
    and add_halted: "halted w \<Longrightarrow> add t v w = w"
    and halted_add: "halted (add t v w) = halted w"
begin

lemma add_many:
  "\<not> halted w \<Longrightarrow> pending (fold (\<lambda>(t, v). add t v) es w) = pending w @ es"
  by (induction es arbitrary: w) (auto simp: add_pending halted_add)

lemma pending_mono: "set (pending w) \<subseteq> set (pending (add t v w))"
  by (cases "halted w") (auto simp: add_pending add_halted)

end

definition wheel_pending :: "'v wheel \<Rightarrow> (time \<times> 'v) list" where
  "wheel_pending w = map (\<lambda>e. (Time (snd e), Value (snd e))) (slots w)"

interpretation wheel: scheduler wheel_Add wheel_pending stopped
  by unfold_locales (simp_all add: wheel_Add_def wheel_pending_def push_slot_def)

section \<open>Concrete runs\<close>

text \<open>A run in which one entry is added, awaited and dispatched, and the run in which \<open>Add\<close>
  reads \<open>stopped\<close> before \<open>Close\<close> sets it and reaches its send after \<open>Close\<close> returned.\<close>

definition run_dispatch :: "nat wheel" where
  "run_dispatch = \<lparr>stopped = False, slots = [], next_id = 1, tick = TScan, checked = [],
     notifying = [5], closer = CNotCalled, chan_open = True, clock = 7,
     dispatched = [((0, \<lparr>Time = 5, Value = 1\<rparr>), 7)], panicked = 0\<rparr>"

definition run_race :: "nat wheel" where
  "run_race = \<lparr>stopped = True, slots = [(0, \<lparr>Time = 5, Value = 1\<rparr>)], next_id = 1, tick = TDone,
     checked = [], notifying = [], closer = CClosed, chan_open = False, clock = 0,
     dispatched = [], panicked = 1\<rparr>"

definition run_idle :: "nat wheel" where
  "run_idle = \<lparr>stopped = False, slots = [(0, \<lparr>Time = 5, Value = 1\<rparr>)], next_id = 1, tick = TIdle,
     checked = [], notifying = [5], closer = CNotCalled, chan_open = True, clock = 0,
     dispatched = [], panicked = 0\<rparr>"

lemma run_idle_reachable: "wheel_reachable 0 run_idle"
proof -
  let ?s = "\<lparr>Time = 5, Value = 1 :: nat\<rparr>"
  let ?w0 = "NewTimeWheel 0 :: nat wheel"
  let ?w1 = "?w0\<lparr>checked := checked ?w0 @ [?s]\<rparr>"
  let ?w2 = "tick_scan ?w1"
  let ?w3 = "push_slot ?s (?w2\<lparr>checked := remove1 ?s (checked ?w2)\<rparr>)"
  note ev = NewTimeWheel_def push_slot_def tick_scan_def
  have 1: "wheel_step ?w0 ?w1" by (rule add_check) (simp add: ev)
  have 2: "wheel_step ?w1 ?w2" by (rule scans) (simp add: ev)
  have 3: "wheel_step ?w2 ?w3" by (rule add_push) (simp add: ev)
  have eq: "?w3 = run_idle" by (simp add: run_idle_def ev)
  note step = wheel_reachable.step
  from step [OF step [OF step [OF wheel_reachable.start 1] 2] 3] show ?thesis by (simp only: eq)
qed

lemma run_dispatch_reachable: "wheel_reachable 0 run_dispatch"
proof -
  let ?s = "\<lparr>Time = 5, Value = 1 :: nat\<rparr>"
  let ?w0 = "NewTimeWheel 0 :: nat wheel"
  let ?w1 = "?w0\<lparr>checked := checked ?w0 @ [?s]\<rparr>"
  let ?w2 = "push_slot ?s (?w1\<lparr>checked := remove1 ?s (checked ?w1)\<rparr>)"
  let ?w3 = "tick_scan ?w2"
  let ?w4 = "?w3\<lparr>clock := 7\<rparr>"
  let ?w5 = "tick_fire 0 (0, ?s) ?w4"
  have 1: "wheel_step ?w0 ?w1" by (rule add_check) (simp add: NewTimeWheel_def)
  have 2: "wheel_step ?w1 ?w2" by (rule add_push) (simp add: NewTimeWheel_def)
  have 3: "wheel_step ?w2 ?w3" by (rule scans) (simp add: NewTimeWheel_def push_slot_def)
  have 4: "wheel_step ?w3 ?w4"
    by (rule time_passes) (simp add: NewTimeWheel_def push_slot_def tick_scan_def)
  have 5: "wheel_step ?w4 ?w5"
    by (rule fires) (simp_all add: NewTimeWheel_def push_slot_def tick_scan_def time_sub_def
        min_int64_def max_int64_def)
  have eq: "?w5 = run_dispatch"
    by (simp add: run_dispatch_def NewTimeWheel_def push_slot_def tick_scan_def tick_fire_def
        list_Remove_def)
  note step = wheel_reachable.step
  from step [OF step [OF step [OF step [OF step [OF wheel_reachable.start 1] 2] 3] 4] 5]
  show ?thesis by (simp only: eq)
qed

lemma run_race_reachable: "wheel_reachable 0 run_race"
proof -
  let ?s = "\<lparr>Time = 5, Value = 1 :: nat\<rparr>"
  let ?w0 = "NewTimeWheel 0 :: nat wheel"
  let ?w1 = "?w0\<lparr>checked := checked ?w0 @ [?s]\<rparr>"
  let ?w2 = "tick_scan ?w1"
  let ?w3 = "?w2\<lparr>stopped := True, closer := CStopStored\<rparr>"
  let ?w4 = "?w3\<lparr>closer := CAwaitAck, tick := TStopping\<rparr>"
  let ?w5 = "?w4\<lparr>closer := CAcked, tick := TDone\<rparr>"
  let ?w6 = "?w5\<lparr>closer := CClosed, chan_open := False\<rparr>"
  let ?w7 = "push_slot ?s (?w6\<lparr>checked := remove1 ?s (checked ?w6)\<rparr>)"
  let ?w8 = "?w7\<lparr>notifying := remove1 5 (notifying ?w7), panicked := Suc (panicked ?w7)\<rparr>"
  note ev = NewTimeWheel_def push_slot_def tick_scan_def
  have 1: "wheel_step ?w0 ?w1" by (rule add_check) (simp add: ev)
  have 2: "wheel_step ?w1 ?w2" by (rule scans) (simp add: ev)
  have 3: "wheel_step ?w2 ?w3" by (rule close_store) (simp add: ev)
  have 4: "wheel_step ?w3 ?w4" by (rule close_send) (simp_all add: ev)
  have 5: "wheel_step ?w4 ?w5" by (rule close_ack) simp_all
  have 6: "wheel_step ?w5 ?w6" by (rule close_chan) simp
  have 7: "wheel_step ?w6 ?w7" by (rule add_push) (simp add: ev)
  have 8: "wheel_step ?w7 ?w8" by (rule add_panics) (simp_all add: ev)
  have eq: "?w8 = run_race" by (simp add: run_race_def ev)
  note step = wheel_reachable.step
  from step [OF step [OF step [OF step [OF wheel_reachable.start 1] 2] 3] 4]
  have r4: "wheel_reachable 0 ?w4" .
  from step [OF step [OF step [OF step [OF r4 5] 6] 7] 8] show ?thesis by (simp only: eq)
qed

section \<open>Properties\<close>

text \<open>C35. Exactly-once dispatch: in every reachable state, under every interleaving of \<open>Add\<close>,
  \<open>tick\<close> and \<open>Close\<close>, each element ever inserted is either pending or dispatched, never both, and
  none is dispatched twice.\<close>

theorem wheel_exactly_once:
  assumes "wheel_reachable t0 w"
  shows "distinct (map fst (slots w) @ map (fst \<circ> fst) (dispatched w)) \<and>
    set (map fst (slots w)) \<union> set (map (fst \<circ> fst) (dispatched w)) = {0..<next_id w}"
  using reachable_wheel_inv [OF assms] unfolding wheel_inv_def ids_inv_def wheel_ids_def
  by simp

theorem wheel_exactly_once_witness:
  "wheel_reachable 0 run_dispatch \<and> dispatched run_dispatch \<noteq> [] \<and>
   distinct (map fst (slots run_dispatch) @ map (fst \<circ> fst) (dispatched run_dispatch))"
  using run_dispatch_reachable wheel_exactly_once [OF run_dispatch_reachable]
  by (simp add: run_dispatch_def)

text \<open>C36. No overlooked entry: whenever the goroutine sleeps until the entry \<open>e\<close> is due, every
  pending entry is due no earlier than \<open>e\<close> or the \<open>Add\<close> that inserted it is still blocked on its
  notification; and it sleeps without a timer only if every pending entry has such an \<open>Add\<close>.\<close>

theorem wheel_no_lost_wakeup:
  assumes "wheel_reachable t0 w" "x \<in> set (slots w)"
  shows "(tick w = TIdle \<longrightarrow> Time (snd x) \<in> set (notifying w)) \<and>
    (\<forall>now e. tick w = TWait now e \<longrightarrow> e \<in> set (slots w) \<and>
       (time_sub (Time (snd e)) now \<le> time_sub (Time (snd x)) now \<or> Time (snd x) \<in> set (notifying w)))"
  using reachable_wheel_inv [OF assms(1)] assms(2)
  by (auto simp: wheel_inv_def wait_inv_def split: tick_pc.splits)

theorem wheel_no_lost_wakeup_witness:
  "wheel_reachable 0 run_idle \<and> tick run_idle = TIdle \<and>
   Time (snd (0 :: nat, \<lparr>Time = 5, Value = 1 :: nat\<rparr>)) \<in> set (notifying run_idle)"
proof -
  have m: "(0, \<lparr>Time = 5, Value = 1\<rparr>) \<in> set (slots run_idle)" "tick run_idle = TIdle"
    by (simp_all add: run_idle_def)
  from wheel_no_lost_wakeup [OF run_idle_reachable m(1)] run_idle_reachable m(2) show ?thesis by blast
qed

text \<open>Never early: an entry dispatched at time \<open>t\<close> was due at \<open>t\<close> or before, as long as the
  wheel has not been running for 292 years.\<close>

theorem wheel_never_early:
  assumes "wheel_reachable t0 w" "(e, t) \<in> set (dispatched w)" "t < t0 + max_int64"
  shows "Time (snd e) \<le> t"
  using reachable_due_inv [OF assms(1)] assms(2,3) by (auto simp: due_inv_def)

text \<open>\<open>Add\<close> racing with \<open>Close\<close>: the server can reach a state where a delivery goroutine has
  panicked with a send on the closed channel \<open>updateNotify\<close>, and its entry is in the list of a
  wheel whose goroutine has ended.\<close>

theorem wheel_add_close_race:
  "\<exists>w :: nat wheel. wheel_reachable 0 w \<and> 0 < panicked w \<and> slots w \<noteq> [] \<and> tick w = TDone"
  using run_race_reachable by (intro exI [of _ run_race]) (simp add: run_race_def)

end
