(* ===== verification/Queue.thy ===== *)
theory Queue
  imports Dsn Time_Wheel "HOL-Library.Multiset"
begin

text \<open>
  Model of the delivery part of \<^verbatim>\<open>internal/target/queue/queue.go\<close>: one delivery attempt
  (\<open>deliver\<close>), the bookkeeping after it (\<open>tryDelivery\<close>), bounces (\<open>emitDSN\<close>), dispatch, loading
  at start-up (\<open>readDiskQueue\<close>) and the delivery object through which messages enter the queue.

  The delivery target and the pipeline for bounces are arbitrary \<open>delivery_ops\<close>. \<open>math.Pow\<close> is exact: \<open>retryTimeScale\<close> is a
  fraction (5/4, never changed by the code), whose powers up to the 22nd are exact in
  \<open>float64\<close>. A value that does not fit in \<open>int64\<close> is converted to \<open>ovf\<close>, because Go leaves that
  conversion to the implementation. Calls of \<open>time.Now\<close> are arguments. Log output is not modelled.
\<close>

section \<open>State\<close>

record queue =
  q_location :: string
  q_hostname :: string
  q_autogenMsgDomain :: string
  q_hasDSN :: bool
  q_initialRetryTime :: duration
  q_retryTimeScale :: "int \<times> int"
  q_maxTries :: int
  q_postInitDelay :: duration

record queue_slot =
  slot_ID :: string
  slot_Meta :: "queue_meta option"
  slot_Hdr :: header
  slot_Body :: buffer

text \<open>What the queue changes: the directory, the wheel, the target and the pipeline for bounces.\<close>

record ('t, 'd) qstate =
  disk :: fs
  wheel :: "queue_slot wheel"
  tgt :: 't
  dsnp :: 'd

definition second :: duration where
  "second = 1000000000"

definition NewQueue :: "string list \<Rightarrow> goerr + queue" where
  "NewQueue inlineArgs =
     (let q = \<lparr>q_location = '''', q_hostname = '''', q_autogenMsgDomain = '''', q_hasDSN = False,
               q_initialRetryTime = 15 * 60 * second, q_retryTimeScale = (5, 4), q_maxTries = 0,
               q_postInitDelay = 10 * second\<rparr> in
      case inlineArgs of
        [] \<Rightarrow> Inr q
      | [loc] \<Rightarrow> Inr (q\<lparr>q_location := loc\<rparr>)
      | _ \<Rightarrow> Inl (Opaque ''queue: wrong amount of inline arguments'' None))"

section \<open>Errors\<close>

definition toSMTPErr :: "goerr option \<Rightarrow> smtp_err option" where
  "toSMTPErr err =
     (case err of
        None \<Rightarrow> None
      | Some e \<Rightarrow>
          let res = \<lparr>sm_Code = 554, sm_EnhancedCode = (5, 0, 0), sm_Message = ''Internal server error''\<rparr>;
              res = (if IsTemporaryOrUnspec err
                     then res\<lparr>sm_Code := 451, sm_EnhancedCode := (4, 0, 0)\<rparr> else res);
              ctxInfo = Fields err;
              res = (case ctxInfo ''smtp_code'' of Some (FInt c) \<Rightarrow> res\<lparr>sm_Code := c\<rparr> | _ \<Rightarrow> res);
              res = (case ctxInfo ''smtp_enchcode'' of
                       Some (FSmtpEnch ec) \<Rightarrow> res\<lparr>sm_EnhancedCode := ec\<rparr> | _ \<Rightarrow> res);
              res = (case ctxInfo ''smtp_msg'' of Some (FStr m) \<Rightarrow> res\<lparr>sm_Message := m\<rparr> | _ \<Rightarrow> res)
          in case e of
               LibSMTPError c ec m t \<Rightarrow>
                 Some \<lparr>sm_Code = c, sm_EnhancedCode = ec, sm_Message = m\<rparr>
             | _ \<Rightarrow> Some res)"

type_synonym errs = "string \<rightharpoonup> goerr"

text \<open>\<open>partialError.SetStatus\<close>: a nil error is ignored.\<close>

definition SetStatus :: "string \<times> goerr option \<Rightarrow> errs \<Rightarrow> errs" where
  "SetStatus st perr = (case snd st of None \<Rightarrow> perr | Some e \<Rightarrow> perr(fst st \<mapsto> e))"

definition expandToPartialErr :: "string list \<Rightarrow> goerr \<Rightarrow> errs \<Rightarrow> errs" where
  "expandToPartialErr rcpts err perr = fold (\<lambda>r m. m(r \<mapsto> err)) rcpts perr"

section \<open>One delivery attempt\<close>

fun add_rcpts ::
  "'s delivery_ops \<Rightarrow> 's \<Rightarrow> string list \<Rightarrow> errs \<Rightarrow> string list \<Rightarrow> 's \<times> errs \<times> string list" where
  "add_rcpts ops s [] perr acceptedRcpts = (s, perr, acceptedRcpts)"
| "add_rcpts ops s (rcpt # rcpts) perr acceptedRcpts =
     (case dl_AddRcpt ops s rcpt of
        (s', Some err) \<Rightarrow> add_rcpts ops s' rcpts (perr(rcpt \<mapsto> err)) acceptedRcpts
      | (s', None) \<Rightarrow> add_rcpts ops s' rcpts perr (acceptedRcpts @ [rcpt]))"

definition send_body ::
  "'s delivery_ops \<Rightarrow> 's \<Rightarrow> header \<Rightarrow> buffer \<Rightarrow> string list \<Rightarrow> errs \<Rightarrow> 's \<times> errs" where
  "send_body ops s hdr body acceptedRcpts perr =
     (case dl_BodyNonAtomic ops of
        Some f \<Rightarrow> (case f s hdr body of (s', sts) \<Rightarrow> (s', fold SetStatus sts perr))
      | None \<Rightarrow>
          (case dl_Body ops s hdr body of
             (s', Some err) \<Rightarrow> (s', expandToPartialErr acceptedRcpts err perr)
           | (s', None) \<Rightarrow> (s', perr)))"

text \<open>\<open>tag\<close> is the hexadecimal Unix time that makes the identifier of the attempt.\<close>

definition deliver ::
  "'s delivery_ops \<Rightarrow> string \<Rightarrow> queue_meta \<Rightarrow> header \<Rightarrow> buffer \<Rightarrow> 's \<Rightarrow> 's \<times> errs" where
  "deliver ops tag meta hdr body s =
     (let msgMeta = DeepCopy (MsgMeta meta);
          msgMeta = msgMeta\<lparr>ID := ID msgMeta @ ''-'' @ tag\<rparr> in
      case dt_Start ops s msgMeta (From meta) of
        (s, Some err) \<Rightarrow> (s, expandToPartialErr (To meta) err Map.empty)
      | (s, None) \<Rightarrow>
          (case add_rcpts ops s (To meta) Map.empty [] of
             (s, perr, acceptedRcpts) \<Rightarrow>
               if acceptedRcpts = [] then (fst (dl_Abort ops s), perr)
               else
                 (case send_body ops s hdr body acceptedRcpts perr of
                    (s, perr) \<Rightarrow>
                      if list_all (\<lambda>r. perr r \<noteq> None) acceptedRcpts
                      then (fst (dl_Abort ops s), perr)
                      else (case dl_Commit ops s of
                              (s, Some err) \<Rightarrow> (s, expandToPartialErr acceptedRcpts err perr)
                            | (s, None) \<Rightarrow> (s, perr)))))"

section \<open>Bounces\<close>

text \<open>Reading the code of a recipient without a stored error dereferences nil.\<close>

fun dsn_rcpts :: "queue_meta \<Rightarrow> string list \<Rightarrow> rcpt_info list outcome" where
  "dsn_rcpts meta [] = Return []"
| "dsn_rcpts meta (rcpt # rcpts) =
     (case RcptErrs meta rcpt of
        None \<Rightarrow> Panic ''nil pointer dereference''
      | Some rcptErr \<Rightarrow>
          let originalRcpt = (case OriginalRcpts (MsgMeta meta) rcpt of Some o' \<Rightarrow> o' | None \<Rightarrow> '''');
              info = \<lparr>FinalRecipient = (if originalRcpt \<noteq> '''' then originalRcpt else rcpt),
                      RemoteMTA = '''', Action = ''failed'', Status = sm_EnhancedCode rcptErr,
                      DiagnosticCode = DiagSMTP rcptErr\<rparr>
          in (case dsn_rcpts meta rcpts of
                Return infos \<Rightarrow> Return (info # infos)
              | Panic m \<Rightarrow> Panic m
              | Blocked \<Rightarrow> Blocked))"

definition dsn_meta :: "queue_meta \<Rightarrow> string \<Rightarrow> msg_metadata" where
  "dsn_meta meta dsnID = \<lparr>ID = dsnID, OriginalFrom = '''', DontTraceSender = False, Quarantine = False,
     OriginalRcpts = Map.empty,
     SMTPOpts = \<lparr>UTF8 = UTF8 (SMTPOpts (MsgMeta meta)), RequireTLS = RequireTLS (SMTPOpts (MsgMeta meta))\<rparr>,
     Conn = None, TLSRequireOverride = False\<rparr>"

definition dsn_mta_info :: "queue \<Rightarrow> queue_meta \<Rightarrow> mta_info" where
  "dsn_mta_info q meta = \<lparr>ReportingMTA = q_hostname q,
     ReceivedFromMTA = (case Conn (MsgMeta meta) of
         Some c \<Rightarrow> if \<not> DontTraceSender (MsgMeta meta) then Hostname c else ''''
       | None \<Rightarrow> ''''),
     XSender = From meta, XMessageID = ID (MsgMeta meta),
     ArrivalDate = FirstAttempt meta, LastAttemptDate = LastAttempt meta\<rparr>"

text \<open>The dialogue with the pipeline; a failed call makes the deferred function abort.\<close>

definition send_dsn ::
  "'d delivery_ops \<Rightarrow> msg_metadata \<Rightarrow> string \<Rightarrow> header \<Rightarrow> string \<Rightarrow> 'd \<Rightarrow> 'd" where
  "send_dsn ops dsnMeta rcpt dsnHeader dsnBody d =
     (case dt_Start ops d dsnMeta '''' of
        (d, Some err) \<Rightarrow> d
      | (d, None) \<Rightarrow>
          (case dl_AddRcpt ops d rcpt of
             (d, Some err) \<Rightarrow> fst (dl_Abort ops d)
           | (d, None) \<Rightarrow>
               (case dl_Body ops d dsnHeader (MemoryBuffer dsnBody) of
                  (d, Some err) \<Rightarrow> fst (dl_Abort ops d)
                | (d, None) \<Rightarrow>
                    (case dl_Commit ops d of
                       (d, Some err) \<Rightarrow> fst (dl_Abort ops d)
                     | (d, None) \<Rightarrow> d))))"

definition emitDSN ::
  "queue \<Rightarrow> 'd delivery_ops \<Rightarrow> (goerr + string) \<Rightarrow> dsn_lib \<Rightarrow> queue_meta \<Rightarrow> header \<Rightarrow> string list \<Rightarrow> 'd \<Rightarrow> 'd outcome" where
  "emitDSN q ops genID bl meta hdr failedRcpts d =
     (if \<not> q_hasDSN q then Return d
      else if OriginalFrom (MsgMeta meta) = '''' then Return d
      else case genID of
        Inl err \<Rightarrow> Return d
      | Inr dsnID \<Rightarrow>
          let env = \<lparr>env_MsgID = ''<'' @ dsnID @ ''@'' @ q_autogenMsgDomain q @ ''>'',
                     env_From = ''MAILER-DAEMON@'' @ q_autogenMsgDomain q,
                     env_To = OriginalFrom (MsgMeta meta)\<rparr> in
          (case dsn_rcpts meta failedRcpts of
             Panic m \<Rightarrow> Panic m
           | Blocked \<Rightarrow> Blocked
           | Return rcptInfo \<Rightarrow>
               (case GenerateDSN bl (UTF8 (SMTPOpts (MsgMeta meta))) env (dsn_mta_info q meta) rcptInfo hdr of
                  Inl err \<Rightarrow> Return d
                | Inr (dsnHeader, dsnBody) \<Rightarrow>
                    Return (send_dsn ops (dsn_meta meta dsnID) (From meta) dsnHeader dsnBody d))))"

section \<open>Bookkeeping\<close>

definition tries_get :: "(string \<times> int) list \<Rightarrow> string \<Rightarrow> int" where
  "tries_get m k = (case map_of m k of Some n \<Rightarrow> n | None \<Rightarrow> 0)"

record try_state =
  ts_RcptErrs :: "string \<rightharpoonup> smtp_err"
  ts_Tries :: "(string \<times> int) list"
  ts_smallest :: int
  ts_new :: "string list"
  ts_failed :: "string list"

definition try_rcpt :: "int \<Rightarrow> errs \<Rightarrow> string \<Rightarrow> try_state \<Rightarrow> try_state" where
  "try_rcpt maxTries perr rcpt ts =
     (case perr rcpt of
        None \<Rightarrow> ts
      | Some rcptErr \<Rightarrow>
          let ts = ts\<lparr>ts_RcptErrs := (ts_RcptErrs ts)(rcpt := toSMTPErr (Some rcptErr))\<rparr>;
              temporary = IsTemporaryOrUnspec (Some rcptErr) in
          if \<not> temporary \<or> maxTries \<le> tries_get (ts_Tries ts) rcpt + 1
          then ts\<lparr>ts_Tries := AList.delete rcpt (ts_Tries ts), ts_failed := ts_failed ts @ [rcpt]\<rparr>
          else
            let count = tries_get (ts_Tries ts) rcpt + 1 in
            ts\<lparr>ts_Tries := AList.update rcpt count (ts_Tries ts), ts_new := ts_new ts @ [rcpt],
               ts_smallest := (if count < ts_smallest ts then count else ts_smallest ts)\<rparr>)"

definition try_loop :: "int \<Rightarrow> errs \<Rightarrow> string list \<Rightarrow> try_state \<Rightarrow> try_state" where
  "try_loop maxTries perr rcpts ts = fold (try_rcpt maxTries perr) rcpts ts"

definition pow_trunc :: "int \<times> int \<Rightarrow> int \<Rightarrow> int" where
  "pow_trunc x n =
     (if 0 \<le> n then fst x ^ nat n div snd x ^ nat n else snd x ^ nat (- n) div fst x ^ nat (- n))"

definition scaleFactor :: "int \<Rightarrow> int \<times> int \<Rightarrow> int \<Rightarrow> int" where
  "scaleFactor ovf scale smallestTriesCount =
     (let x = pow_trunc scale (smallestTriesCount - 1) in if x \<le> max_int64 then x else ovf)"

definition retryDelay :: "int \<Rightarrow> queue \<Rightarrow> int \<Rightarrow> duration" where
  "retryDelay ovf q smallestTriesCount =
     wrap64 (q_initialRetryTime q * scaleFactor ovf (q_retryTimeScale q) smallestTriesCount)"

definition try_init :: "queue_meta \<Rightarrow> try_state" where
  "try_init meta = \<lparr>ts_RcptErrs = RcptErrs meta, ts_Tries = TriesCount meta, ts_smallest = 999999,
     ts_new = [], ts_failed = []\<rparr>"

text \<open>Everything outside the queue that one attempt depends on.\<close>

record ('t, 'd) attempt_env =
  ae_target :: "'t delivery_ops"
  ae_dsn :: "'d delivery_ops"
  ae_suffix :: string
  ae_genID :: "goerr + string"
  ae_lib :: dsn_lib
  ae_fault :: faults
  ae_windows :: bool
  ae_ovf :: int
  ae_now1 :: time
  ae_now2 :: time

definition tryDelivery ::
  "queue \<Rightarrow> ('t, 'd) attempt_env \<Rightarrow> queue_meta \<Rightarrow> header \<Rightarrow> buffer \<Rightarrow> ('t, 'd) qstate \<Rightarrow> ('t, 'd) qstate outcome" where
  "tryDelivery q env meta hdr body st =
     (case deliver (ae_target env) (ae_suffix env) meta hdr body (tgt st) of
        (t, perr) \<Rightarrow>
          let st = st\<lparr>tgt := t\<rparr>;
              ts = try_loop (q_maxTries q) perr (To meta) (try_init meta);
              meta = meta\<lparr>RcptErrs := ts_RcptErrs ts, TriesCount := ts_Tries ts\<rparr>;
              dsn = (if ts_failed ts \<noteq> []
                     then emitDSN q (ae_dsn env) (ae_genID env) (ae_lib env) meta hdr (ts_failed ts) (dsnp st)
                     else Return (dsnp st)) in
          case dsn of
            Panic m \<Rightarrow> Panic m
          | Blocked \<Rightarrow> Blocked
          | Return d \<Rightarrow>
              let st = st\<lparr>dsnp := d\<rparr> in
              if ts_new ts = []
              then Return (st\<lparr>disk := removeFromDisk (ae_fault env) (ID (MsgMeta meta)) (disk st)\<rparr>)
              else
                let meta = meta\<lparr>To := ts_new ts, LastAttempt := ae_now1 env\<rparr>;
                    st = st\<lparr>disk := fst (updateMetadataOnDisk (ae_windows env) (ae_fault env) meta (disk st))\<rparr>;
                    nextTryTime = ae_now2 env + retryDelay (ae_ovf env) q (ts_smallest ts)
                in Return (st\<lparr>wheel := wheel_Add nextTryTime
                      \<lparr>slot_ID = ID (MsgMeta meta), slot_Meta = None, slot_Hdr = [], slot_Body = MemoryBuffer ''''\<rparr>
                      (wheel st)\<rparr>))"

section \<open>Dispatch and start-up\<close>

text \<open>The goroutine started by \<open>dispatch\<close>, once it holds the semaphore. A panic is recovered and
  the metadata file is renamed.\<close>

definition dispatch ::
  "queue \<Rightarrow> header_lib \<Rightarrow> ('t, 'd) attempt_env \<Rightarrow> queue_slot \<Rightarrow> ('t, 'd) qstate \<Rightarrow> ('t, 'd) qstate outcome" where
  "dispatch q lib env slot st =
     (let recover = (\<lambda>st r. case r of
            Panic m \<Rightarrow> Return (st\<lparr>disk := discardBroken (ae_fault env) (slot_ID slot) (disk st)\<rparr>)
          | _ \<Rightarrow> r) in
      case slot_Meta slot of
        Some meta \<Rightarrow> recover st (tryDelivery q env meta (slot_Hdr slot) (slot_Body slot) st)
      | None \<Rightarrow>
          (case openMessage lib (ae_fault env) (slot_ID slot) (disk st) of
             (fs, Inl err) \<Rightarrow> Return (st\<lparr>disk := fs\<rparr>)
           | (fs, Inr (meta, hdr, body)) \<Rightarrow>
               let st = st\<lparr>disk := fs\<rparr> in recover st (tryDelivery q env meta hdr body st)))"

definition load_slot :: "string \<Rightarrow> queue_slot" where
  "load_slot i = \<lparr>slot_ID = i, slot_Meta = None, slot_Hdr = [], slot_Body = MemoryBuffer ''''\<rparr>"

definition smallestTries :: "(string \<times> int) list \<Rightarrow> int" where
  "smallestTries counts = fold (\<lambda>kv m. if snd kv < m then snd kv else m) counts 999999"

definition load_time :: "int \<Rightarrow> queue \<Rightarrow> time \<Rightarrow> queue_meta \<Rightarrow> time" where
  "load_time ovf q now meta =
     (let nextTryTime = LastAttempt meta + retryDelay ovf q (smallestTries (TriesCount meta)) in
      if time_sub nextTryTime now < q_postInitDelay q then now + q_postInitDelay q else nextTryTime)"

text \<open>One entry of the directory.\<close>

definition load_entry ::
  "int \<Rightarrow> queue \<Rightarrow> time \<Rightarrow> faults \<Rightarrow> string \<Rightarrow> fs \<times> queue_slot wheel \<Rightarrow> fs \<times> queue_slot wheel" where
  "load_entry ovf q now fault i st =
     (case st of (fs, w) \<Rightarrow>
        (case readMessageMeta fault i fs of
           Inl err \<Rightarrow> (fs, w)
         | Inr meta \<Rightarrow>
             (case os_Stat fault (header_name i) fs of
                Some err \<Rightarrow>
                  ((if IsNotExist err
                    then tryRemoveDanglingFile fault (body_name i) (tryRemoveDanglingFile fault (meta_name i) fs)
                    else fs), w)
              | None \<Rightarrow>
                  (case os_Stat fault (body_name i) fs of
                     Some err \<Rightarrow>
                       ((if IsNotExist err
                         then tryRemoveDanglingFile fault (header_name i) (tryRemoveDanglingFile fault (meta_name i) fs)
                         else fs), w)
                   | None \<Rightarrow> (fs, wheel_Add (load_time ovf q now meta) (load_slot i) w)))))"

fun load_loop ::
  "int \<Rightarrow> queue \<Rightarrow> time \<Rightarrow> faults \<Rightarrow> (string \<times> bool) list \<Rightarrow> fs \<times> queue_slot wheel \<Rightarrow> fs \<times> queue_slot wheel" where
  "load_loop ovf q now fault [] st = st"
| "load_loop ovf q now fault (entry # es) st =
     (case meta_entry_id entry of
        None \<Rightarrow> load_loop ovf q now fault es st
      | Some i \<Rightarrow> load_loop ovf q now fault es (load_entry ovf q now fault i st))"

definition readDiskQueue ::
  "int \<Rightarrow> queue \<Rightarrow> time \<Rightarrow> faults \<Rightarrow> (string \<times> bool) list \<Rightarrow> fs \<times> queue_slot wheel \<Rightarrow> os_err + fs \<times> queue_slot wheel" where
  "readDiskQueue ovf q now fault dirInfo st =
     (if fault OpReadDir '''' then Inl (ErrIO OpReadDir '''')
      else Inr (load_loop ovf q now fault dirInfo st))"

section \<open>Messages entering the queue\<close>

record queue_delivery =
  qd_meta :: "queue_meta option"
  qd_header :: header
  qd_body :: "buffer option"

definition queue_Start :: "time \<Rightarrow> msg_metadata \<Rightarrow> string \<Rightarrow> queue_delivery" where
  "queue_Start now msgMeta mailFrom =
     \<lparr>qd_meta = Some \<lparr>MsgMeta = msgMeta, From = mailFrom, To = [], FailedRcpts = [],
         TemporaryFailedRcpts = [], RcptErrs = Map.empty, TriesCount = [], FirstAttempt = now,
         LastAttempt = now\<rparr>,
      qd_header = [], qd_body = None\<rparr>"

definition queue_AddRcpt :: "string \<Rightarrow> queue_delivery \<Rightarrow> queue_delivery outcome" where
  "queue_AddRcpt rcptTo qd =
     (case qd_meta qd of
        None \<Rightarrow> nil_deref
      | Some meta \<Rightarrow> Return (qd\<lparr>qd_meta := Some (meta\<lparr>To := To meta @ [rcptTo]\<rparr>)\<rparr>))"

definition queue_Body ::
  "header_lib \<Rightarrow> bool \<Rightarrow> faults \<Rightarrow> header \<Rightarrow> buffer \<Rightarrow> queue_delivery \<times> fs \<Rightarrow> (queue_delivery \<times> fs \<times> os_err option) outcome" where
  "queue_Body lib windows fault hdr body st =
     (case st of (qd, fs) \<Rightarrow>
        (case qd_meta qd of
           None \<Rightarrow> nil_deref
         | Some meta \<Rightarrow>
             (case storeNewMessage lib windows fault meta hdr body fs of
                (fs, Inl err) \<Rightarrow> Return (qd, fs, Some err)
              | (fs, Inr storedBody) \<Rightarrow>
                  Return (qd\<lparr>qd_body := Some storedBody, qd_header := hdr\<rparr>, fs, None))))"

definition queue_Abort :: "faults \<Rightarrow> queue_delivery \<times> fs \<Rightarrow> (queue_delivery \<times> fs) outcome" where
  "queue_Abort fault st =
     (case st of (qd, fs) \<Rightarrow>
        if qd_body qd \<noteq> None then
          (case qd_meta qd of
             None \<Rightarrow> nil_deref
           | Some meta \<Rightarrow> Return (qd, removeFromDisk fault (ID (MsgMeta meta)) fs))
        else Return (qd, fs))"

text \<open>The zero \<open>time.Time\<close> is the first instant of year 1; only its position before every
  other time matters.\<close>

definition queue_Commit ::
  "time \<Rightarrow> queue_delivery \<times> queue_slot wheel \<Rightarrow> (queue_delivery \<times> queue_slot wheel) outcome" where
  "queue_Commit zeroTime st =
     (case st of (qd, w) \<Rightarrow>
        (case qd_meta qd of
           None \<Rightarrow> Panic ''queue: double Commit''
         | Some meta \<Rightarrow>
             let w = wheel_Add zeroTime
                   \<lparr>slot_ID = ID (MsgMeta meta), slot_Meta = Some meta, slot_Hdr = qd_header qd,
                    slot_Body = (case qd_body qd of Some b \<Rightarrow> b | None \<Rightarrow> MemoryBuffer '''')\<rparr> w
             in Return (qd\<lparr>qd_meta := None, qd_body := None\<rparr>, w)))"

section \<open>Lemmas on one attempt\<close>

lemma expandToPartialErr_apply:
  "expandToPartialErr rs e m r = (if r \<in> set rs then Some e else m r)"
  unfolding expandToPartialErr_def by (induction rs arbitrary: m) auto

abbreviation call_ok :: "dcall \<Rightarrow> bool" where
  "call_ok c \<equiv> (case c of CAddRcpt r ok \<Rightarrow> ok | _ \<Rightarrow> False)"

abbreviation call_refused :: "dcall \<Rightarrow> bool" where
  "call_refused c \<equiv> (case c of CAddRcpt r ok \<Rightarrow> \<not> ok | _ \<Rightarrow> True)"

lemma only_rcpts_append: "only_rcpts (xs @ ys) \<longleftrightarrow> only_rcpts xs \<and> only_rcpts ys"
  by (induction xs rule: only_rcpts.induct) auto

lemma not_ok_refused: "only_rcpts xs \<Longrightarrow> \<not> list_ex call_ok xs \<Longrightarrow> list_all call_refused xs"
  by (induction xs rule: only_rcpts.induct) auto

lemma add_rcpts_traced:
  assumes "add_rcpts (traced ops) (s, cs) rs perr acc = ((s', cs'), perr', acc')"
  shows "\<exists>xs. cs' = cs @ xs \<and> only_rcpts xs \<and> (acc' \<noteq> [] \<longleftrightarrow> acc \<noteq> [] \<or> list_ex call_ok xs)"
  using assms
proof (induction rs arbitrary: s cs perr acc)
  case Nil
  then show ?case by (intro exI [of _ "[]"]) simp
next
  case (Cons r rs)
  obtain s1 e where a: "dl_AddRcpt ops s r = (s1, e)" by fastforce
  let ?acc = "if e = None then acc @ [r] else acc"
  from Cons.prems a have "\<exists>perr1. add_rcpts (traced ops) (s1, cs @ [CAddRcpt r (e = None)]) rs perr1 ?acc = ((s', cs'), perr', acc')"
    by (cases e) (auto simp: traced_def)
  then obtain xs where "cs' = cs @ [CAddRcpt r (e = None)] @ xs" "only_rcpts xs"
    "acc' \<noteq> [] \<longleftrightarrow> ?acc \<noteq> [] \<or> list_ex call_ok xs"
    using Cons.IH by fastforce
  then show ?case
    by (intro exI [of _ "CAddRcpt r (e = None) # xs"]) (auto split: if_splits)
qed

lemma send_body_traced:
  assumes "send_body (traced ops) (s, cs) h b acc perr = ((s', cs'), perr')"
  shows "cs' = cs @ [CBody] \<or> cs' = cs @ [CBodyNonAtomic]"
  using assms
  by (auto simp: send_body_def traced_def split: option.splits prod.splits)

text \<open>Who is left without an error after an attempt.\<close>

lemma deliver_well_finished:
  assumes "deliver (traced ops) tag meta hdr body (s, []) = ((s', cs), perr)"
  shows "well_finished cs"
proof -
  let ?m = "(DeepCopy (MsgMeta meta))\<lparr>ID := ID (DeepCopy (MsgMeta meta)) @ ''-'' @ tag\<rparr>"
  obtain s1 e where st: "dt_Start ops s ?m (From meta) = (s1, e)" by fastforce
  show ?thesis
  proof (cases e)
    case (Some err)
    with assms st have "cs = [CStart (From meta)]"
      by (simp add: deliver_def Let_def traced_def)
    then show ?thesis by (simp add: well_finished_def)
  next
    case None
    obtain s2 cs2 perr2 acc where ar:
      "add_rcpts (traced ops) (s1, [CStart (From meta)]) (To meta) Map.empty [] = ((s2, cs2), perr2, acc)"
      by (metis surj_pair)
    from add_rcpts_traced [OF ar] obtain xs where
      cs2: "cs2 = CStart (From meta) # xs" and xs: "only_rcpts xs" and acc: "acc \<noteq> [] \<longleftrightarrow> list_ex call_ok xs"
      by auto
    show ?thesis
    proof (cases "acc = []")
      case True
      with assms st None ar cs2 have "cs = CStart (From meta) # xs @ [CAbort]"
        by (simp add: deliver_def Let_def traced_def case_prod_beta)
      with xs acc True not_ok_refused [OF xs] show ?thesis unfolding well_finished_def by blast
    next
      case False
      obtain s3 cs3 perr3 where sb:
        "send_body (traced ops) (s2, cs2) hdr body acc perr2 = ((s3, cs3), perr3)" by (metis surj_pair)
      have "cs = cs3 @ [CAbort] \<or> cs = cs3 @ [CCommit]"
        using assms st None ar sb False
        by (auto simp: deliver_def Let_def traced_def split: if_splits prod.splits option.splits)
      with send_body_traced [OF sb] cs2 have
        "\<exists>tail. cs = CStart (From meta) # xs @ tail \<and>
           tail \<in> {[CBody, CAbort], [CBody, CCommit], [CBodyNonAtomic, CAbort], [CBodyNonAtomic, CCommit]}"
        by auto
      with xs acc False show ?thesis unfolding well_finished_def by blast
    qed
  qed
qed

section \<open>Lemmas on the bookkeeping\<close>

text \<open>A recipient is retried when its error is temporary and its last try is not yet reached.\<close>

definition retried :: "int \<Rightarrow> errs \<Rightarrow> (string \<times> int) list \<Rightarrow> string \<Rightarrow> bool" where
  "retried maxTries perr tries r \<longleftrightarrow>
     perr r \<noteq> None \<and> IsTemporaryOrUnspec (perr r) \<and> tries_get tries r + 1 < maxTries"

definition given_up :: "int \<Rightarrow> errs \<Rightarrow> (string \<times> int) list \<Rightarrow> string \<Rightarrow> bool" where
  "given_up maxTries perr tries r \<longleftrightarrow>
     perr r \<noteq> None \<and> (\<not> IsTemporaryOrUnspec (perr r) \<or> maxTries \<le> tries_get tries r + 1)"

lemma tries_get_update: "tries_get (AList.update r n m) k = (if k = r then n else tries_get m k)"
  by (simp add: tries_get_def update_conv')

lemma tries_get_delete: "tries_get (AList.delete r m) k = (if k = r then 0 else tries_get m k)"
  by (simp add: tries_get_def delete_conv')

lemma try_rcpt_cases:
  "try_rcpt mx perr r ts =
     (if retried mx perr (ts_Tries ts) r then
        ts\<lparr>ts_RcptErrs := (ts_RcptErrs ts)(r := toSMTPErr (perr r)),
           ts_Tries := AList.update r (tries_get (ts_Tries ts) r + 1) (ts_Tries ts),
           ts_new := ts_new ts @ [r],
           ts_smallest := min (tries_get (ts_Tries ts) r + 1) (ts_smallest ts)\<rparr>
      else if given_up mx perr (ts_Tries ts) r then
        ts\<lparr>ts_RcptErrs := (ts_RcptErrs ts)(r := toSMTPErr (perr r)),
           ts_Tries := AList.delete r (ts_Tries ts), ts_failed := ts_failed ts @ [r]\<rparr>
      else ts)"
  by (auto simp: try_rcpt_def retried_def given_up_def Let_def split: option.splits)

lemma rcpt_trichotomy: "perr r = None \<or> retried mx perr m r \<or> given_up mx perr m r"
  by (auto simp: retried_def given_up_def)

lemma try_loop_Nil [simp]: "try_loop mx perr [] ts = ts"
  by (simp add: try_loop_def)

lemma try_loop_Cons [simp]:
  "try_loop mx perr (r # rs) ts = try_loop mx perr rs (try_rcpt mx perr r ts)"
  by (simp add: try_loop_def)

text \<open>Nothing is lost: every occurrence of a recipient is delivered, retried or given up.\<close>

lemma try_loop_partition:
  "mset (ts_new (try_loop mx perr rs ts)) + mset (ts_failed (try_loop mx perr rs ts))
     + mset (filter (\<lambda>r. perr r = None) rs)
   = mset rs + mset (ts_new ts) + mset (ts_failed ts)"
proof (induction rs arbitrary: ts)
  case Nil
  then show ?case by simp
next
  case (Cons r rs)
  consider "perr r = None" | "retried mx perr (ts_Tries ts) r" | "given_up mx perr (ts_Tries ts) r"
    using rcpt_trichotomy [of perr r mx "ts_Tries ts"] by metis
  then show ?case
  proof cases
    case 1
    then have "try_rcpt mx perr r ts = ts" by (simp add: try_rcpt_def)
    with 1 Cons.IH [of ts] show ?thesis by simp
  next
    case 2
    then obtain e where "perr r = Some e" by (auto simp: retried_def)
    with 2 Cons.IH [of "try_rcpt mx perr r ts"] show ?thesis by (simp add: try_rcpt_cases)
  next
    case 3
    then obtain e where "perr r = Some e" and "\<not> retried mx perr (ts_Tries ts) r"
      by (auto simp: retried_def given_up_def)
    with 3 Cons.IH [of "try_rcpt mx perr r ts"] show ?thesis by (simp add: try_rcpt_cases)
  qed
qed

lemma try_rcpt_other_tries:
  "k \<noteq> r \<Longrightarrow> tries_get (ts_Tries (try_rcpt mx perr r ts)) k = tries_get (ts_Tries ts) k"
  by (simp add: try_rcpt_cases tries_get_update tries_get_delete)

lemma try_loop_other_tries:
  "k \<notin> set rs \<Longrightarrow> tries_get (ts_Tries (try_loop mx perr rs ts)) k = tries_get (ts_Tries ts) k"
  by (induction rs arbitrary: ts) (auto simp: try_rcpt_other_tries)

lemma retried_cong: "tries_get m r = tries_get m' r \<Longrightarrow> retried mx perr m r = retried mx perr m' r"
  by (simp add: retried_def)

lemma given_up_cong: "tries_get m r = tries_get m' r \<Longrightarrow> given_up mx perr m r = given_up mx perr m' r"
  by (simp add: given_up_def)

text \<open>With distinct recipients the decision for each depends on its own error and count only.\<close>

lemma try_loop_distinct:
  assumes "distinct rs"
  shows "ts_new (try_loop mx perr rs ts) = ts_new ts @ filter (retried mx perr (ts_Tries ts)) rs"
    and "ts_failed (try_loop mx perr rs ts) = ts_failed ts @ filter (given_up mx perr (ts_Tries ts)) rs"
    and "r \<in> set rs \<Longrightarrow> retried mx perr (ts_Tries ts) r \<Longrightarrow>
      tries_get (ts_Tries (try_loop mx perr rs ts)) r = tries_get (ts_Tries ts) r + 1"
proof -
  have "ts_new (try_loop mx perr rs ts) = ts_new ts @ filter (retried mx perr (ts_Tries ts)) rs \<and>
    ts_failed (try_loop mx perr rs ts) = ts_failed ts @ filter (given_up mx perr (ts_Tries ts)) rs \<and>
    (\<forall>r \<in> set rs. retried mx perr (ts_Tries ts) r \<longrightarrow>
      tries_get (ts_Tries (try_loop mx perr rs ts)) r = tries_get (ts_Tries ts) r + 1)"
    using assms
  proof (induction rs arbitrary: ts)
    case Nil
    then show ?case by simp
  next
    case (Cons x rs)
    let ?ts = "try_rcpt mx perr x ts"
    have same: "tries_get (ts_Tries ?ts) k = tries_get (ts_Tries ts) k" if "k \<in> set rs" for k
      using that Cons.prems by (auto intro: try_rcpt_other_tries)
    have f: "filter (retried mx perr (ts_Tries ?ts)) rs = filter (retried mx perr (ts_Tries ts)) rs"
      "filter (given_up mx perr (ts_Tries ?ts)) rs = filter (given_up mx perr (ts_Tries ts)) rs"
      by (auto intro!: filter_cong dest: same simp: retried_cong [OF same] given_up_cong [OF same])
    have excl: "\<not> (retried mx perr (ts_Tries ts) x \<and> given_up mx perr (ts_Tries ts) x)"
      by (auto simp: retried_def given_up_def)
    have IH: "ts_new (try_loop mx perr rs ?ts) = ts_new ?ts @ filter (retried mx perr (ts_Tries ts)) rs"
      "ts_failed (try_loop mx perr rs ?ts) = ts_failed ?ts @ filter (given_up mx perr (ts_Tries ts)) rs"
      "\<And>r. r \<in> set rs \<Longrightarrow> retried mx perr (ts_Tries ts) r \<Longrightarrow>
         tries_get (ts_Tries (try_loop mx perr rs ?ts)) r = tries_get (ts_Tries ts) r + 1"
      using Cons.IH [of ?ts] Cons.prems f same by (auto simp: retried_cong [OF same])
    have "tries_get (ts_Tries (try_loop mx perr rs ?ts)) x = tries_get (ts_Tries ?ts) x"
      using Cons.prems by (intro try_loop_other_tries) simp
    then have "retried mx perr (ts_Tries ts) x \<Longrightarrow>
        tries_get (ts_Tries (try_loop mx perr rs ?ts)) x = tries_get (ts_Tries ts) x + 1"
      by (simp add: try_rcpt_cases tries_get_update)
    with IH excl show ?case by (auto simp: try_rcpt_cases)
  qed
  then show "ts_new (try_loop mx perr rs ts) = ts_new ts @ filter (retried mx perr (ts_Tries ts)) rs"
    and "ts_failed (try_loop mx perr rs ts) = ts_failed ts @ filter (given_up mx perr (ts_Tries ts)) rs"
    and "r \<in> set rs \<Longrightarrow> retried mx perr (ts_Tries ts) r \<Longrightarrow>
      tries_get (ts_Tries (try_loop mx perr rs ts)) r = tries_get (ts_Tries ts) r + 1"
    by auto
qed

text \<open>A recipient may be listed several times (the queue does not remove duplicates). Each copy
  advances the one counter of the recipient; giving a copy up resets it. So \<open>m\<close> copies of a
  recipient with a temporary error give up \<open>(t + m) div max_tries\<close> copies and leave the counter at
  the remainder.\<close>

lemma try_rcpt_other_lists:
  "k \<noteq> r \<Longrightarrow> count_list (ts_new (try_rcpt mx perr r ts)) k = count_list (ts_new ts) k"
  "k \<noteq> r \<Longrightarrow> count_list (ts_failed (try_rcpt mx perr r ts)) k = count_list (ts_failed ts) k"
  by (simp_all add: try_rcpt_cases)

lemma try_loop_delivered:
  assumes "perr r = None"
  shows "count_list (ts_new (try_loop mx perr rs ts)) r = count_list (ts_new ts) r"
    and "count_list (ts_failed (try_loop mx perr rs ts)) r = count_list (ts_failed ts) r"
    and "tries_get (ts_Tries (try_loop mx perr rs ts)) r = tries_get (ts_Tries ts) r"
proof -
  have step: "count_list (ts_new (try_rcpt mx perr x ts)) r = count_list (ts_new ts) r \<and>
      count_list (ts_failed (try_rcpt mx perr x ts)) r = count_list (ts_failed ts) r \<and>
      tries_get (ts_Tries (try_rcpt mx perr x ts)) r = tries_get (ts_Tries ts) r" for x ts
    using assms
    by (cases "x = r") (simp_all add: try_rcpt_cases retried_def given_up_def tries_get_update tries_get_delete)
  have "count_list (ts_new (try_loop mx perr rs ts)) r = count_list (ts_new ts) r \<and>
      count_list (ts_failed (try_loop mx perr rs ts)) r = count_list (ts_failed ts) r \<and>
      tries_get (ts_Tries (try_loop mx perr rs ts)) r = tries_get (ts_Tries ts) r"
    by (induction rs arbitrary: ts) (simp_all add: step)
  then show "count_list (ts_new (try_loop mx perr rs ts)) r = count_list (ts_new ts) r"
    and "count_list (ts_failed (try_loop mx perr rs ts)) r = count_list (ts_failed ts) r"
    and "tries_get (ts_Tries (try_loop mx perr rs ts)) r = tries_get (ts_Tries ts) r"
    by blast+
qed

lemma try_loop_permanent:
  assumes "perr r \<noteq> None" "\<not> IsTemporaryOrUnspec (perr r)"
  shows "count_list (ts_new (try_loop mx perr rs ts)) r = count_list (ts_new ts) r"
    and "count_list (ts_failed (try_loop mx perr rs ts)) r = count_list (ts_failed ts) r + count_list rs r"
proof -
  have step: "count_list (ts_new (try_rcpt mx perr x ts)) r = count_list (ts_new ts) r \<and>
      count_list (ts_failed (try_rcpt mx perr x ts)) r =
        count_list (ts_failed ts) r + (if x = r then 1 else 0)" for x ts
    using assms by (cases "x = r") (simp_all add: try_rcpt_other_lists try_rcpt_cases retried_def given_up_def)
  have "count_list (ts_new (try_loop mx perr rs ts)) r = count_list (ts_new ts) r \<and>
      count_list (ts_failed (try_loop mx perr rs ts)) r = count_list (ts_failed ts) r + count_list rs r"
    by (induction rs arbitrary: ts) (simp_all add: step)
  then show "count_list (ts_new (try_loop mx perr rs ts)) r = count_list (ts_new ts) r"
    and "count_list (ts_failed (try_loop mx perr rs ts)) r = count_list (ts_failed ts) r + count_list rs r"
    by blast+
qed

text \<open>A counter at or above the limit (the limit was lowered) behaves like the limit less one.\<close>

definition capped :: "int \<Rightarrow> int \<Rightarrow> int" where
  "capped mx t = min t (mx - 1)"

lemma capped_step:
  assumes "1 \<le> mx" "0 \<le> t"
  shows "t + 1 < mx \<Longrightarrow> capped mx (t + 1) = capped mx t + 1"
    and "\<not> t + 1 < mx \<Longrightarrow> capped mx t + 1 = mx"
    and "capped mx 0 = 0"
  using assms by (simp_all add: capped_def)

lemma try_loop_temporary:
  fixes rs :: "string list"
  assumes "perr r \<noteq> None" "IsTemporaryOrUnspec (perr r)" "1 \<le> mx" "0 \<le> tries_get (ts_Tries ts) r"
  defines "n \<equiv> capped mx (tries_get (ts_Tries ts) r) + int (count_list rs r)"
  shows "int (count_list (ts_failed (try_loop mx perr rs ts)) r) = int (count_list (ts_failed ts) r) + n div mx
    \<and> int (count_list (ts_new (try_loop mx perr rs ts)) r) =
      int (count_list (ts_new ts) r) + int (count_list rs r) - n div mx
    \<and> capped mx (tries_get (ts_Tries (try_loop mx perr rs ts)) r) = n mod mx
    \<and> (r \<in> set rs \<longrightarrow> tries_get (ts_Tries (try_loop mx perr rs ts)) r = n mod mx)"
  using assms(4) unfolding n_def
proof (induction rs arbitrary: ts)
  case Nil
  have "0 \<le> capped mx (tries_get (ts_Tries ts) r)" "capped mx (tries_get (ts_Tries ts) r) < mx"
    using Nil assms(3) by (simp_all add: capped_def)
  then show ?case by simp
next
  case (Cons x rs)
  let ?t = "tries_get (ts_Tries ts) r" and ?m = "int (count_list rs r)"
  show ?case
  proof (cases "x = r")
    case False
    then show ?thesis
      using Cons.IH [of "try_rcpt mx perr x ts"] Cons.prems
      by (simp add: try_rcpt_other_lists try_rcpt_other_tries)
  next
    case True
    show ?thesis
    proof (cases "?t + 1 < mx")
      case lt: True
      then have r: "retried mx perr (ts_Tries ts) r" using assms(1,2) by (simp add: retried_def)
      have c: "capped mx (?t + 1) + ?m = capped mx ?t + (1 + ?m)"
        using capped_step(1) [OF assms(3) Cons.prems lt] by simp
      have "tries_get (ts_Tries (try_loop mx perr rs (try_rcpt mx perr r ts))) r = ?t + 1" if "r \<notin> set rs"
        using that r by (simp add: try_loop_other_tries try_rcpt_cases tries_get_update)
      moreover have "(capped mx ?t + (1 + ?m)) mod mx = ?t + 1" if "r \<notin> set rs"
        using that lt Cons.prems by (simp add: capped_def)
      ultimately show ?thesis
        using Cons.IH [of "try_rcpt mx perr r ts"] Cons.prems True r c
        by (auto simp: try_rcpt_cases tries_get_update)
    next
      case ge: False
      then have r: "\<not> retried mx perr (ts_Tries ts) r" "given_up mx perr (ts_Tries ts) r"
        using assms(1,2) by (simp_all add: retried_def given_up_def)
      have c: "capped mx ?t + (1 + ?m) = mx + ?m"
        using capped_step(2) [OF assms(3) Cons.prems ge] by simp
      have dm: "(capped mx ?t + (1 + ?m)) div mx = 1 + ?m div mx" "(capped mx ?t + (1 + ?m)) mod mx = ?m mod mx"
        unfolding c using assms(3) by (simp_all add: div_add_self1)
      have "tries_get (ts_Tries (try_loop mx perr rs (try_rcpt mx perr r ts))) r = 0" if "r \<notin> set rs"
        using that r by (simp add: try_loop_other_tries try_rcpt_cases tries_get_delete)
      then show ?thesis
        using Cons.IH [of "try_rcpt mx perr r ts"] True r capped_step(3) [OF assms(3) Cons.prems]
        by (auto simp: try_rcpt_cases tries_get_delete dm)
    qed
  qed
qed

section \<open>Lemmas on bounces\<close>

lemma toSMTPErr_Some: "\<exists>e'. toSMTPErr (Some e) = Some e'"
  by (cases e) (auto simp: toSMTPErr_def Let_def)

lemma try_loop_failed_have_errors:
  "list_all (\<lambda>r. ts_RcptErrs ts r \<noteq> None) (ts_failed ts) \<Longrightarrow>
   list_all (\<lambda>r. ts_RcptErrs (try_loop mx perr rs ts) r \<noteq> None) (ts_failed (try_loop mx perr rs ts))"
proof (induction rs arbitrary: ts)
  case Nil
  then show ?case by simp
next
  case (Cons x rs)
  have "list_all (\<lambda>r. ts_RcptErrs (try_rcpt mx perr x ts) r \<noteq> None) (ts_failed (try_rcpt mx perr x ts))"
    using Cons.prems toSMTPErr_Some
    by (auto simp: try_rcpt_def Let_def list_all_iff split: option.splits)
  from Cons.IH [OF this] show ?case by simp
qed

lemma dsn_rcpts_return:
  "list_all (\<lambda>r. RcptErrs meta r \<noteq> None) rs \<Longrightarrow>
   \<exists>infos. dsn_rcpts meta rs = Return infos \<and> length infos = length rs"
  by (induction rs) (auto simp: Let_def)

lemma dsn_rcpts_status:
  "dsn_rcpts meta rs = Return infos \<Longrightarrow> r \<in> set rs \<Longrightarrow>
   \<exists>e. RcptErrs meta r = Some e \<and> (\<exists>info \<in> set infos. Status info = sm_EnhancedCode e)"
  by (induction rs arbitrary: infos) (auto simp: Let_def split: option.splits outcome.splits)

lemma emitDSN_returns:
  assumes "list_all (\<lambda>r. RcptErrs meta r \<noteq> None) failed"
  shows "\<exists>d'. emitDSN q ops genID bl meta hdr failed d = Return d'"
  using dsn_rcpts_return [OF assms]
  by (auto simp: emitDSN_def Let_def split: sum.splits)

section \<open>Lemmas on the outcome of an attempt\<close>

text \<open>The attempt never panics and never blocks: the error of every recipient it gives up was
  stored before the bounce is built.\<close>

lemma tryDelivery_result:
  assumes "ts = try_loop (q_maxTries q) (snd (deliver (ae_target env) (ae_suffix env) meta hdr body (tgt st)))
             (To meta) (try_init meta)"
    and "i = ID (MsgMeta meta)"
    and "meta' = meta\<lparr>RcptErrs := ts_RcptErrs ts, TriesCount := ts_Tries ts, To := ts_new ts,
             LastAttempt := ae_now1 env\<rparr>"
  obtains st' where "tryDelivery q env meta hdr body st = Return st'"
    and "ts_new ts = [] \<Longrightarrow> disk st' = removeFromDisk (ae_fault env) i (disk st)"
    and "ts_new ts = [] \<Longrightarrow> wheel st' = wheel st"
    and "ts_new ts \<noteq> [] \<Longrightarrow>
      disk st' = fst (updateMetadataOnDisk (ae_windows env) (ae_fault env) meta' (disk st))"
    and "ts_new ts \<noteq> [] \<Longrightarrow>
      wheel st' = wheel_Add (ae_now2 env + retryDelay (ae_ovf env) q (ts_smallest ts)) (load_slot i) (wheel st)"
proof -
  obtain t perr where d: "deliver (ae_target env) (ae_suffix env) meta hdr body (tgt st) = (t, perr)"
    by fastforce
  let ?m = "meta\<lparr>RcptErrs := ts_RcptErrs ts, TriesCount := ts_Tries ts\<rparr>"
  have "list_all (\<lambda>r. ts_RcptErrs ts r \<noteq> None) (ts_failed ts)"
    unfolding assms(1) by (rule try_loop_failed_have_errors) (simp add: try_init_def)
  then have "list_all (\<lambda>r. RcptErrs ?m r \<noteq> None) (ts_failed ts)" by simp
  from emitDSN_returns [OF this, of q "ae_dsn env" "ae_genID env" "ae_lib env" hdr "dsnp st"]
  obtain d' where e: "(if ts_failed ts \<noteq> [] then emitDSN q (ae_dsn env) (ae_genID env) (ae_lib env) ?m hdr (ts_failed ts) (dsnp st)
        else Return (dsnp st)) = Return d'"
    by (cases "ts_failed ts = []") auto
  have tl: "try_loop (q_maxTries q) perr (To meta) (try_init meta) = ts"
    using assms(1) d by simp
  have r: "tryDelivery q env meta hdr body st =
    (if ts_new ts = []
     then Return (st\<lparr>tgt := t, dsnp := d', disk := removeFromDisk (ae_fault env) i (disk st)\<rparr>)
     else Return (st\<lparr>tgt := t, dsnp := d',
            disk := fst (updateMetadataOnDisk (ae_windows env) (ae_fault env) meta' (disk st)),
            wheel := wheel_Add (ae_now2 env + retryDelay (ae_ovf env) q (ts_smallest ts)) (load_slot i) (wheel st)\<rparr>))"
    using e unfolding tryDelivery_def d assms(2,3) load_slot_def
    by (cases "ts_failed ts = []") (simp_all add: tl Let_def)
  show thesis
  proof (cases "ts_new ts = []")
    case True
    show thesis by (rule that [OF r [unfolded if_P [OF True]]]) (use True in simp_all)
  next
    case False
    show thesis by (rule that [OF r [unfolded if_not_P [OF False]]]) (use False in simp_all)
  qed
qed

section \<open>Lifetime of a message\<close>

text \<open>Successive attempts for a message on disk, each with its own environment.\<close>

fun run_attempts ::
  "queue \<Rightarrow> header_lib \<Rightarrow> string \<Rightarrow> ('t, 'd) attempt_env list \<Rightarrow> ('t, 'd) qstate \<Rightarrow> ('t, 'd) qstate outcome" where
  "run_attempts q lib i [] st = Return st"
| "run_attempts q lib i (env # envs) st =
     (case dispatch q lib env (load_slot i) st of
        Return st' \<Rightarrow> run_attempts q lib i envs st'
      | Panic m \<Rightarrow> Panic m
      | Blocked \<Rightarrow> Blocked)"

definition gone :: "string \<Rightarrow> fs \<Rightarrow> bool" where
  "gone i fs \<longleftrightarrow> fs (meta_name i) = None \<and> fs (header_name i) = None \<and> fs (body_name i) = None"

definition on_disk :: "header_lib \<Rightarrow> string \<Rightarrow> queue_meta \<Rightarrow> fs \<Rightarrow> bool" where
  "on_disk lib i meta fs \<longleftrightarrow> fs (meta_name i) = Some (MetaJson meta) \<and> ID (MsgMeta meta) = i \<and>
     (\<exists>hs h. fs (header_name i) = Some (Blob hs) \<and> ReadHeader lib hs = Some h) \<and>
     (\<exists>c. fs (body_name i) = Some (Blob c))"

definition calm :: "('t, 'd) attempt_env \<Rightarrow> bool" where
  "calm env \<longleftrightarrow> ae_fault env = no_faults \<and> \<not> ae_windows env"

text \<open>The tries a recipient with \<open>m\<close> copies and counter \<open>t\<close> has left are at most
  \<open>m * max_tries - t\<close>. While the message is queued, every recipient left has at most \<open>b\<close> of them.\<close>

definition tries_left :: "queue \<Rightarrow> queue_meta \<Rightarrow> string \<Rightarrow> int" where
  "tries_left q meta r = int (count_list (To meta) r) * q_maxTries q - tries_get (TriesCount meta) r"

definition queued :: "queue \<Rightarrow> header_lib \<Rightarrow> string \<Rightarrow> int \<Rightarrow> fs \<Rightarrow> bool" where
  "queued q lib i b fs \<longleftrightarrow> gone i fs \<or>
     (\<exists>meta. on_disk lib i meta fs \<and> To meta \<noteq> [] \<and> 1 \<le> q_maxTries q \<and>
        (\<forall>r \<in> set (To meta). tries_left q meta r \<le> b \<and>
           0 \<le> tries_get (TriesCount meta) r \<and> tries_get (TriesCount meta) r < q_maxTries q))"

text \<open>An attempt that leaves a recipient in the queue uses at least one of its tries.\<close>

lemma try_loop_uses_try:
  assumes "1 \<le> q_maxTries q" "ts = try_loop (q_maxTries q) perr (To meta) (try_init meta)" "r \<in> set (ts_new ts)"
    and "\<And>r. r \<in> set (To meta) \<Longrightarrow> 0 \<le> tries_get (TriesCount meta) r \<and> tries_get (TriesCount meta) r < q_maxTries q"
  shows "r \<in> set (To meta)" and "0 \<le> tries_get (ts_Tries ts) r" and "tries_get (ts_Tries ts) r < q_maxTries q"
    and "int (count_list (ts_new ts) r) * q_maxTries q - tries_get (ts_Tries ts) r < tries_left q meta r"
proof -
  let ?mx = "q_maxTries q" and ?t = "tries_get (TriesCount meta) r" and ?m = "int (count_list (To meta) r)"
  have new: "count_list (ts_new ts) r \<noteq> 0" using assms(3) by (simp add: count_list_0_iff)
  then have temp: "perr r \<noteq> None" "IsTemporaryOrUnspec (perr r)"
    using try_loop_delivered(1) [of perr r ?mx "To meta" "try_init meta"]
      try_loop_permanent(1) [of perr r ?mx "To meta" "try_init meta"] assms(2)
    by (auto simp: try_init_def)
  have "mset (ts_new ts) + mset (ts_failed ts) + mset (filter (\<lambda>r. perr r = None) (To meta)) = mset (To meta)"
    using try_loop_partition [of ?mx perr "To meta" "try_init meta"] assms(2) by (simp add: try_init_def)
  then have "set (ts_new ts) \<subseteq> set (To meta)"
    by (metis set_mset_mset set_mset_union Un_upper1 add.assoc)
  with assms(3) show r: "r \<in> set (To meta)" by blast
  from assms(4) [OF r] have t: "0 \<le> ?t" "?t < ?mx" by simp_all
  then have c: "capped ?mx ?t = ?t" by (simp add: capped_def)
  have l: "int (count_list (ts_new ts) r) = ?m - (?t + ?m) div ?mx" "tries_get (ts_Tries ts) r = (?t + ?m) mod ?mx"
    using try_loop_temporary [of perr r ?mx "try_init meta" "To meta"] temp assms(1) t r c assms(2)
    by (simp_all add: try_init_def)
  show "0 \<le> tries_get (ts_Tries ts) r" "tries_get (ts_Tries ts) r < ?mx" using l(2) assms(1) by simp_all
  have "(?m - d) * ?mx - a = ?m * ?mx - (?t + ?m)" if "d * ?mx + a = ?t + ?m" for d a
    using that by (simp add: left_diff_distrib)
  from this [OF div_mult_mod_eq] have
    "int (count_list (ts_new ts) r) * ?mx - tries_get (ts_Tries ts) r = ?m * ?mx - (?t + ?m)"
    unfolding l .
  moreover have "0 < ?m" using r by (metis count_list_0_iff of_nat_0_less_iff gr0I)
  ultimately show "int (count_list (ts_new ts) r) * ?mx - tries_get (ts_Tries ts) r < tries_left q meta r"
    by (simp add: tries_left_def)
qed

lemma removeFromDisk_gone: "gone i (removeFromDisk no_faults i fs)"
  by (simp add: gone_def removeFromDisk_def Let_def no_faults_def os_Remove_gone)

lemma on_disk_update:
  assumes "on_disk lib i meta fs" "ID (MsgMeta meta') = i"
  shows "on_disk lib i (stored_meta meta') (fst (updateMetadataOnDisk False no_faults meta' fs))"
proof -
  obtain fs' r where u: "updateMetadataOnDisk False no_faults meta' fs = (fs', r)" by fastforce
  moreover have "r = None"
    using updateMetadata_ok [of no_faults meta' fs] u by (simp add: no_faults_def)
  ultimately show ?thesis
    using updateMetadata_cases [OF u] assms
    by (auto simp: on_disk_def stored_meta_def DeepCopy_def)
qed

lemma dispatch_gone:
  "gone i (disk st) \<Longrightarrow> dispatch q lib env (load_slot i) st = Return st"
  by (simp add: dispatch_def load_slot_def openMessage_def readMessageMeta_def os_Open_def gone_def)

lemma dispatch_on_disk:
  assumes "on_disk lib i meta (disk st)" "calm env"
  obtains hdr where "dispatch q lib env (load_slot i) st = tryDelivery q env meta hdr (FileBuffer (body_name i)) st"
proof -
  from assms obtain c hs h where
    f: "disk st (meta_name i) = Some (MetaJson meta)" "disk st (body_name i) = Some (Blob c)"
    "disk st (header_name i) = Some (Blob hs)" "ReadHeader lib hs = Some h"
    by (auto simp: on_disk_def)
  have o: "openMessage lib (ae_fault env) i (disk st) = (disk st, Inr (meta, h, FileBuffer (body_name i)))"
    using openMessage_complete [OF f] assms(2) by (simp add: calm_def no_faults_def)
  obtain st' where "tryDelivery q env meta h (FileBuffer (body_name i)) st = Return st'"
    by (rule tryDelivery_result [OF refl refl refl])
  with o show thesis
    by (intro that [of h]) (simp add: dispatch_def load_slot_def Let_def)
qed

lemma dispatch_queued:
  assumes "queued q lib i b (disk st)" "calm env"
  obtains st' where "dispatch q lib env (load_slot i) st = Return st'" "queued q lib i (b - 1) (disk st')"
proof (cases "gone i (disk st)")
  case True
  then show thesis using that [of st] by (simp add: dispatch_gone queued_def)
next
  case False
  with assms(1) obtain meta where m: "on_disk lib i meta (disk st)" "1 \<le> q_maxTries q"
    "\<And>r. r \<in> set (To meta) \<Longrightarrow> tries_left q meta r \<le> b"
    "\<And>r. r \<in> set (To meta) \<Longrightarrow> 0 \<le> tries_get (TriesCount meta) r \<and> tries_get (TriesCount meta) r < q_maxTries q"
    by (auto simp: queued_def)
  from dispatch_on_disk [OF m(1) assms(2)] obtain hdr where
    d: "dispatch q lib env (load_slot i) st = tryDelivery q env meta hdr (FileBuffer (body_name i)) st" .
  define ts where "ts = try_loop (q_maxTries q)
    (snd (deliver (ae_target env) (ae_suffix env) meta hdr (FileBuffer (body_name i)) (tgt st))) (To meta) (try_init meta)"
  define meta' where "meta' = meta\<lparr>RcptErrs := ts_RcptErrs ts, TriesCount := ts_Tries ts, To := ts_new ts,
    LastAttempt := ae_now1 env\<rparr>"
  have i: "i = ID (MsgMeta meta)" using m(1) by (simp add: on_disk_def)
  from tryDelivery_result [OF ts_def i meta'_def] obtain st' where
    r: "tryDelivery q env meta hdr (FileBuffer (body_name i)) st = Return st'"
    "ts_new ts = [] \<Longrightarrow> disk st' = removeFromDisk (ae_fault env) i (disk st)"
    "ts_new ts \<noteq> [] \<Longrightarrow> disk st' = fst (updateMetadataOnDisk (ae_windows env) (ae_fault env) meta' (disk st))"
    by blast
  have tr: "int (count_list (ts_new ts) x) * q_maxTries q - tries_get (ts_Tries ts) x \<le> b - 1 \<and>
      0 \<le> tries_get (ts_Tries ts) x \<and> tries_get (ts_Tries ts) x < q_maxTries q" if "x \<in> set (ts_new ts)" for x
    using try_loop_uses_try [OF m(2) ts_def that m(4)] m(3) [of x] by simp
  have "queued q lib i (b - 1) (disk st')"
  proof (cases "ts_new ts = []")
    case True
    with r(2) assms(2) removeFromDisk_gone show ?thesis by (simp add: queued_def calm_def)
  next
    case False
    have "on_disk lib i (stored_meta meta') (disk st')"
      using on_disk_update [OF m(1), of meta'] r(3) [OF False] assms(2) i
      by (simp add: calm_def meta'_def)
    with False tr m(2) show ?thesis
      unfolding queued_def
      by (intro disjI2 exI [of _ "stored_meta meta'"]) (simp add: stored_meta_def meta'_def tries_left_def)
  qed
  with d r(1) show thesis using that by simp
qed

lemma run_attempts_queued:
  assumes "queued q lib i b (disk st)" "list_all calm envs"
  obtains st' where "run_attempts q lib i envs st = Return st'" "queued q lib i (b - int (length envs)) (disk st')"
  using assms
proof (induction envs arbitrary: st b thesis)
  case Nil
  then show ?case by simp
next
  case (Cons env envs)
  from Cons.prems(3) have "calm env" by simp
  from dispatch_queued [OF Cons.prems(2) this] obtain st1 where
    1: "dispatch q lib env (load_slot i) st = Return st1" "queued q lib i (b - 1) (disk st1)" .
  from Cons.prems(3) have "list_all calm envs" by simp
  from Cons.IH [OF _ 1(2) this] obtain st' where
    "run_attempts q lib i envs st1 = Return st'" "queued q lib i (b - 1 - int (length envs)) (disk st')" .
  with 1 show ?case by (intro Cons.prems(1)) (simp_all add: algebra_simps)
qed

lemma queued_none_left_gone:
  assumes "queued q lib i b fs" "b \<le> 0"
  shows "gone i fs"
proof (rule ccontr)
  assume "\<not> gone i fs"
  with assms(1) obtain meta where
    q: "To meta \<noteq> []" "1 \<le> q_maxTries q" "\<And>r. r \<in> set (To meta) \<Longrightarrow> tries_left q meta r \<le> b"
    "\<And>r. r \<in> set (To meta) \<Longrightarrow> tries_get (TriesCount meta) r < q_maxTries q"
    by (auto simp: queued_def)
  define r where "r = hd (To meta)"
  have m: "r \<in> set (To meta)" "tries_left q meta r \<le> b" "tries_get (TriesCount meta) r < q_maxTries q"
    "1 \<le> q_maxTries q"
    using q hd_in_set [OF q(1)] by (simp_all add: r_def)
  have "count_list (To meta) r \<noteq> 0" using m(1) by (simp add: count_list_0_iff)
  then have "1 \<le> int (count_list (To meta) r)" by simp
  with m(4) have "q_maxTries q \<le> int (count_list (To meta) r) * q_maxTries q" by simp
  with m(2,3) assms(2) show False by (simp add: tries_left_def)
qed

section \<open>Lemmas on start-up\<close>

lemma time_sub_ge: "min_int64 < d \<Longrightarrow> d \<le> time_sub a now \<Longrightarrow> now + d \<le> a"
  by (auto simp: time_sub_def max_def min_def split: if_splits)

lemma load_time_late:
  "min_int64 < q_postInitDelay q \<Longrightarrow> now + q_postInitDelay q \<le> load_time ovf q now meta"
  by (auto simp: load_time_def Let_def not_less intro: time_sub_ge)

text \<open>A message is loaded when its metadata decodes and the two other files exist.\<close>

definition complete_meta :: "fs \<Rightarrow> string \<Rightarrow> queue_meta option" where
  "complete_meta fs i =
     (case fs (meta_name i) of
        Some (MetaJson meta) \<Rightarrow>
          if fs (header_name i) \<noteq> None \<and> fs (body_name i) \<noteq> None then Some meta else None
      | _ \<Rightarrow> None)"

lemma load_entry_no_faults:
  "load_entry ovf q now no_faults i (fs, w) =
     (fst (load_entry ovf q now no_faults i (fs, w)),
      (case complete_meta fs i of
         Some meta \<Rightarrow> wheel_Add (load_time ovf q now meta) (load_slot i) w
       | None \<Rightarrow> w))"
  by (auto simp: load_entry_def complete_meta_def readMessageMeta_def os_Open_def os_Stat_def no_faults_def
      split: option.splits fcontent.splits)

lemma load_entry_other:
  "n \<notin> {meta_name i, header_name i, body_name i} \<Longrightarrow> fst (load_entry ovf q now fault i (fs, w)) n = fs n"
  by (simp add: load_entry_def split: sum.split option.split)

lemma load_entry_frame:
  "j \<noteq> i \<Longrightarrow> complete_meta (fst (load_entry ovf q now fault i (fs, w))) j = complete_meta fs j"
  by (simp add: complete_meta_def load_entry_other split: option.split fcontent.split)

lemma meta_entry_id_inj:
  "meta_entry_id a = Some i \<Longrightarrow> meta_entry_id b = Some i \<Longrightarrow> fst a = fst b"
proof -
  have eq: "meta_entry_id e = Some i \<Longrightarrow> fst e = meta_name i" for e
    by (auto simp: meta_entry_id_def HasSuffix_suffix suffix_def split: if_splits)
  show "meta_entry_id a = Some i \<Longrightarrow> meta_entry_id b = Some i \<Longrightarrow> fst a = fst b"
    using eq [of a] eq [of b] by simp
qed

fun loaded ::
  "int \<Rightarrow> queue \<Rightarrow> time \<Rightarrow> (string \<times> bool) list \<Rightarrow> fs \<Rightarrow> (time \<times> queue_slot) list" where
  "loaded ovf q now [] fs = []"
| "loaded ovf q now (e # es) fs =
     (case meta_entry_id e of
        None \<Rightarrow> loaded ovf q now es fs
      | Some i \<Rightarrow>
          (case complete_meta fs i of
             None \<Rightarrow> loaded ovf q now es fs
           | Some meta \<Rightarrow> (load_time ovf q now meta, load_slot i) # loaded ovf q now es fs))"

lemma loaded_cong:
  assumes "\<And>e i. e \<in> set es \<Longrightarrow> meta_entry_id e = Some i \<Longrightarrow> complete_meta fs i = complete_meta fs' i"
  shows "loaded ovf q now es fs = loaded ovf q now es fs'"
  using assms
proof (induction es)
  case (Cons e es)
  have "loaded ovf q now es fs = loaded ovf q now es fs'"
    using Cons.prems by (intro Cons.IH) (meson list.set_intros(2))
  moreover have "meta_entry_id e = Some i \<Longrightarrow> complete_meta fs i = complete_meta fs' i" for i
    using Cons.prems [of e i] by simp
  ultimately show ?case by (simp split: option.split)
qed simp

lemma load_loop_pending:
  assumes "distinct (map fst dirInfo)" "\<not> stopped w"
  shows "wheel_pending (snd (load_loop ovf q now no_faults dirInfo (fs, w))) =
    wheel_pending w @ loaded ovf q now dirInfo fs"
  using assms
proof (induction dirInfo arbitrary: fs w)
  case Nil
  then show ?case by simp
next
  case (Cons e es)
  show ?case
  proof (cases "meta_entry_id e")
    case None
    with Cons show ?thesis by simp
  next
    case (Some i)
    let ?fs = "fst (load_entry ovf q now no_faults i (fs, w))"
    let ?w = "snd (load_entry ovf q now no_faults i (fs, w))"
    have w: "?w = (case complete_meta fs i of
        Some meta \<Rightarrow> wheel_Add (load_time ovf q now meta) (load_slot i) w | None \<Rightarrow> w)"
      using load_entry_no_faults [of ovf q now i fs w] by (metis snd_conv)
    have same: "loaded ovf q now es ?fs = loaded ovf q now es fs"
    proof (rule loaded_cong)
      fix e' j assume "e' \<in> set es" "meta_entry_id e' = Some j"
      with Some Cons.prems(1) meta_entry_id_inj [of e i e'] have "j \<noteq> i" by force
      then show "complete_meta ?fs j = complete_meta fs j" by (rule load_entry_frame)
    qed
    have "\<not> stopped ?w"
      using Cons.prems(2) by (simp add: w wheel.halted_add split: option.split)
    moreover have "distinct (map fst es)" using Cons.prems(1) by simp
    ultimately have "wheel_pending (snd (load_loop ovf q now no_faults es (?fs, ?w))) =
        wheel_pending ?w @ loaded ovf q now es fs"
      using Cons.IH [of ?w ?fs] same by simp
    then have "wheel_pending (snd (load_loop ovf q now no_faults (e # es) (fs, w))) =
        wheel_pending ?w @ loaded ovf q now es fs"
      using Some by simp
    with Some Cons.prems(2) show ?thesis
      unfolding w by (simp add: wheel.add_pending split: option.split)
  qed
qed

lemma loaded_late:
  assumes "min_int64 < q_postInitDelay q" "(t, s) \<in> set (loaded ovf q now es fs)"
  shows "now + q_postInitDelay q \<le> t"
  using assms(2)
proof (induction es)
  case Nil
  then show ?case by simp
next
  case (Cons e es)
  then show ?case
    using load_time_late [OF assms(1)] by (auto split: option.splits)
qed

section \<open>Lemmas on accepting a message\<close>

text \<open>The calls of a client that hands one message to the queue.\<close>

fun queue_AddRcpts :: "string list \<Rightarrow> queue_delivery \<Rightarrow> queue_delivery outcome" where
  "queue_AddRcpts [] qd = Return qd"
| "queue_AddRcpts (r # rs) qd =
     (case queue_AddRcpt r qd of Return qd' \<Rightarrow> queue_AddRcpts rs qd' | Panic m \<Rightarrow> Panic m | Blocked \<Rightarrow> Blocked)"

definition enqueue ::
  "header_lib \<Rightarrow> faults \<Rightarrow> time \<Rightarrow> time \<Rightarrow> msg_metadata \<Rightarrow> string \<Rightarrow> string list \<Rightarrow> header \<Rightarrow> buffer \<Rightarrow>
   fs \<times> queue_slot wheel \<Rightarrow> (queue_delivery \<times> (fs \<times> queue_slot wheel) \<times> os_err option) outcome" where
  "enqueue lib fault zeroTime now msgMeta mailFrom rcpts hdr body st =
     (case queue_AddRcpts rcpts (queue_Start now msgMeta mailFrom) of
        Panic m \<Rightarrow> Panic m
      | Blocked \<Rightarrow> Blocked
      | Return qd \<Rightarrow>
          (case queue_Body lib False fault hdr body (qd, fst st) of
             Panic m \<Rightarrow> Panic m
           | Blocked \<Rightarrow> Blocked
           | Return (qd, fs, Some err) \<Rightarrow>
               (case queue_Abort fault (qd, fs) of
                  Panic m \<Rightarrow> Panic m
                | Blocked \<Rightarrow> Blocked
                | Return (qd, fs) \<Rightarrow> Return (qd, (fs, snd st), Some err))
           | Return (qd, fs, None) \<Rightarrow>
               (case queue_Commit zeroTime (qd, snd st) of
                  Panic m \<Rightarrow> Panic m
                | Blocked \<Rightarrow> Blocked
                | Return (qd, w) \<Rightarrow> Return (qd, (fs, w), None))))"

definition new_meta :: "time \<Rightarrow> msg_metadata \<Rightarrow> string \<Rightarrow> string list \<Rightarrow> queue_meta" where
  "new_meta now msgMeta mailFrom rcpts =
     \<lparr>MsgMeta = msgMeta, From = mailFrom, To = rcpts, FailedRcpts = [], TemporaryFailedRcpts = [],
      RcptErrs = Map.empty, TriesCount = [], FirstAttempt = now, LastAttempt = now\<rparr>"

lemma queue_AddRcpts_meta:
  "qd_meta qd = Some (new_meta now m f rs0) \<Longrightarrow>
   queue_AddRcpts rs qd = Return (qd\<lparr>qd_meta := Some (new_meta now m f (rs0 @ rs))\<rparr>)"
  by (induction rs arbitrary: qd rs0) (simp_all add: queue_AddRcpt_def new_meta_def)

lemma enqueue_steps:
  "enqueue lib fault z now m f rcpts hdr body (fs, w) =
     (case storeNewMessage lib False fault (new_meta now m f rcpts) hdr body fs of
        (fs', Inl err) \<Rightarrow>
          Return ((queue_Start now m f)\<lparr>qd_meta := Some (new_meta now m f rcpts)\<rparr>, (fs', w), Some err)
      | (fs', Inr b) \<Rightarrow>
          Return (\<lparr>qd_meta = None, qd_header = hdr, qd_body = None\<rparr>,
            (fs', wheel_Add z \<lparr>slot_ID = ID m, slot_Meta = Some (new_meta now m f rcpts),
                    slot_Hdr = hdr, slot_Body = b\<rparr> w), None))"
proof -
  have "queue_AddRcpts rcpts (queue_Start now m f) =
      Return ((queue_Start now m f)\<lparr>qd_meta := Some (new_meta now m f rcpts)\<rparr>)"
    using queue_AddRcpts_meta [of "queue_Start now m f" now m f "[]" rcpts]
    by (simp add: queue_Start_def new_meta_def)
  then show ?thesis
    by (simp add: enqueue_def queue_Body_def queue_Abort_def queue_Commit_def queue_Start_def Let_def
        split: prod.split sum.split) (simp add: new_meta_def)
qed

section \<open>A concrete queue for the examples\<close>

definition sample_queue :: queue where
  "sample_queue = \<lparr>q_location = ''/q'', q_hostname = ''h'', q_autogenMsgDomain = ''d'', q_hasDSN = True,
     q_initialRetryTime = 900 * second, q_retryTimeScale = (5, 4), q_maxTries = 2,
     q_postInitDelay = 10 * second\<rparr>"

definition sample_target :: "nat delivery_ops" where
  "sample_target = \<lparr>
     dt_Start = (\<lambda>n m f. (n, None)),
     dl_AddRcpt = (\<lambda>n r. (n, if r = ''b@y'' then Some (Opaque ''busy'' None) else None)),
     dl_Body = (\<lambda>n h b. (n, None)), dl_BodyNonAtomic = None,
     dl_Abort = (\<lambda>n. (n, None)), dl_Commit = (\<lambda>n. (Suc n, None))\<rparr>"

definition sample_env :: "(nat, nat) attempt_env" where
  "sample_env = \<lparr>ae_target = sample_target, ae_dsn = sample_target, ae_suffix = ''5f'', ae_genID = Inr ''d1'',
     ae_lib = sample_dsn_lib, ae_fault = no_faults, ae_windows = False, ae_ovf = 0,
     ae_now1 = 1, ae_now2 = 2\<rparr>"

definition sample_state :: "(nat, nat) qstate" where
  "sample_state = \<lparr>
     disk = [''m1.header'' \<mapsto> Blob ''crlf'', ''m1.body'' \<mapsto> Blob ''hi'', ''m1.meta'' \<mapsto> MetaJson sample_meta],
     wheel = NewTimeWheel 0, tgt = 0, dsnp = 0\<rparr>"

section \<open>Properties\<close>

text \<open>C6. Delivery protocol: against every target, an attempt starts the delivery once, adds the
  recipients, sends the body exactly when some recipient was accepted, and finishes a started
  delivery by exactly one \<open>Abort\<close> or \<open>Commit\<close>, \<open>Commit\<close> only after the body.\<close>

theorem deliver_follows_protocol:
  "well_finished (snd (fst (deliver (traced ops) tag meta hdr body (s, []))))"
  using deliver_well_finished [of ops tag meta hdr body s]
  by (metis prod.collapse)

text \<open>No recipient is lost: after an attempt, the recipients to retry, the recipients
  reported in the bounce and the recipients without an error make up exactly the recipients that
  were tried, counted with multiplicity.\<close>

theorem try_delivery_accounts_for_all:
  "mset (ts_new (try_loop mx perr (To meta) (try_init meta)))
     + mset (ts_failed (try_loop mx perr (To meta) (try_init meta)))
     + mset (filter (\<lambda>r. perr r = None) (To meta)) = mset (To meta)"
  using try_loop_partition [of mx perr "To meta" "try_init meta"] by (simp add: try_init_def)

text \<open>C7. Retry decision, for every recipient of the list, listed once or several times, when
  \<open>max_tries\<close> is at least one and the stored counter is not negative: a recipient without an error
  is neither retried nor given up; with a permanent error every copy is given up and none retried;
  with a temporary or unspecified error each copy uses one try of the recipient's counter, giving a
  copy up resets the counter, so that of \<open>m\<close> copies \<open>(t + m) div max_tries\<close> are given up, the others
  are retried and the counter becomes \<open>(t + m) mod max_tries\<close>, where \<open>t\<close> is the old counter (or
  \<open>max_tries - 1\<close> when it is above that).\<close>

theorem try_delivery_decision:
  assumes "1 \<le> mx" "0 \<le> tries_get (TriesCount meta) r" "r \<in> set (To meta)"
  shows "let ts = try_loop mx perr (To meta) (try_init meta);
             m = int (count_list (To meta) r);
             n = min (tries_get (TriesCount meta) r) (mx - 1) + m
         in if perr r = None then r \<notin> set (ts_new ts) \<and> r \<notin> set (ts_failed ts)
            else if \<not> IsTemporaryOrUnspec (perr r)
            then r \<notin> set (ts_new ts) \<and> int (count_list (ts_failed ts) r) = m
            else int (count_list (ts_failed ts) r) = n div mx \<and>
                 int (count_list (ts_new ts) r) = m - n div mx \<and>
                 tries_get (ts_Tries ts) r = n mod mx"
  using try_loop_delivered [of perr r mx "To meta" "try_init meta"]
    try_loop_permanent [of perr r mx "To meta" "try_init meta"]
    try_loop_temporary [of perr r mx "try_init meta" "To meta"] assms
  by (simp add: Let_def try_init_def capped_def count_list_0_iff)

theorem try_delivery_decision_witness:
  "let ts = try_loop 2 [''a@x'' \<mapsto> Opaque ''busy'' None] [''a@x'', ''a@x''] (try_init (sample_meta\<lparr>To := [''a@x'', ''a@x'']\<rparr>))
   in count_list (ts_failed ts) ''a@x'' = 1 \<and> count_list (ts_new ts) ''a@x'' = 1 \<and> tries_get (ts_Tries ts) ''a@x'' = 0"
proof -
  have "IsTemporaryOrUnspec (Some (Opaque ''busy'' None))" by code_simp
  moreover have "tries_get (TriesCount sample_meta) ''a@x'' = 0" by (simp add: sample_meta_def tries_get_def)
  ultimately show ?thesis
    using try_delivery_decision [of 2 "sample_meta\<lparr>To := [''a@x'', ''a@x'']\<rparr>" "''a@x''"
        "[''a@x'' \<mapsto> Opaque ''busy'' None]"]
    by (simp add: Let_def)
qed

text \<open>With distinct recipients, exactly those whose error is temporary or
  unspecified and whose tries are not used up are retried, with their count increased by one; all
  others with an error are given up.\<close>

theorem try_delivery_distinct:
  assumes "distinct (To meta)"
  shows "let ts = try_loop mx perr (To meta) (try_init meta) in
    ts_new ts = filter (\<lambda>r. perr r \<noteq> None \<and> IsTemporaryOrUnspec (perr r)
                          \<and> tries_get (TriesCount meta) r + 1 < mx) (To meta) \<and>
    ts_failed ts = filter (\<lambda>r. perr r \<noteq> None \<and> (\<not> IsTemporaryOrUnspec (perr r)
                          \<or> mx \<le> tries_get (TriesCount meta) r + 1)) (To meta) \<and>
    (\<forall>r \<in> set (ts_new ts). tries_get (ts_Tries ts) r = tries_get (TriesCount meta) r + 1)"
  using try_loop_distinct [OF assms, where mx = mx and perr = perr and ts = "try_init meta"]
  by (simp add: Let_def try_init_def retried_def [abs_def] given_up_def [abs_def])

text \<open>An attempt never panics and never blocks: \<open>tryDelivery\<close> returns for every target,
  every bounce pipeline and every failing system call. In particular the bounce never reads the
  error of a recipient that has none.\<close>

theorem try_delivery_returns: "\<exists>st'. tryDelivery q env meta hdr body st = Return st'"
  by (rule tryDelivery_result [OF refl refl refl, of q env meta hdr body st]) blast

text \<open>C1. Bounded lifetime: a message stored with no earlier tries is gone from the disk after
  at most \<open>max_tries\<close> attempts for each copy of the recipient listed most often (so after
  \<open>max_tries\<close> attempts when no recipient is listed twice), whatever the targets and the bounce
  pipeline answer in each attempt and whatever the clock shows, as long as the system calls of the
  attempts succeed and the server does not run on Windows (\<open>calm\<close>). No attempt panics or blocks.\<close>

theorem message_leaves_queue:
  assumes "on_disk lib i meta (disk st)" "To meta \<noteq> []" "TriesCount meta = []"
    and "1 \<le> q_maxTries q" "list_all calm envs"
    and "\<forall>r \<in> set (To meta). int (count_list (To meta) r) * q_maxTries q \<le> int (length envs)"
  shows "\<exists>st'. run_attempts q lib i envs st = Return st' \<and> gone i (disk st')"
proof -
  have "queued q lib i (int (length envs)) (disk st)"
    using assms(1-4,6) by (auto simp: queued_def tries_get_def tries_left_def)
  from run_attempts_queued [OF this assms(5)] obtain st' where
    "run_attempts q lib i envs st = Return st'" "queued q lib i (int (length envs) - int (length envs)) (disk st')" .
  with queued_none_left_gone show ?thesis by fastforce
qed

definition twice_meta :: queue_meta where
  "twice_meta = sample_meta\<lparr>To := [''b@y'', ''b@y'']\<rparr>"

definition twice_state :: "(nat, nat) qstate" where
  "twice_state = sample_state\<lparr>disk := (disk sample_state)(''m1.meta'' \<mapsto> MetaJson twice_meta)\<rparr>"

theorem message_leaves_queue_witness:
  "\<exists>st'. run_attempts sample_queue sample_lib ''m1'' (replicate 4 sample_env) twice_state = Return st' \<and>
     gone ''m1'' (disk st')"
proof -
  have d: "on_disk sample_lib ''m1'' twice_meta (disk twice_state)"
    by (simp add: on_disk_def sample_state_def sample_meta_def sample_lib_def twice_state_def twice_meta_def)
  show ?thesis
    by (rule message_leaves_queue [OF d])
       (simp_all add: twice_meta_def sample_meta_def sample_queue_def calm_def sample_env_def list_all_iff)
qed

text \<open>No bounce loops: a message that is itself a bounce never causes a bounce, because the
  metadata \<open>emitDSN\<close> gives to the bounce has the null return path.\<close>

theorem dsn_never_bounces:
  "emitDSN q ops genID bl (meta\<lparr>MsgMeta := dsn_meta meta0 dsnID\<rparr>) hdr failed d = Return d"
  by (simp add: emitDSN_def dsn_meta_def)

text \<open>A bounce is lost when an error has no enhanced code: if one of the failed recipients got
  an SMTP error of the library whose enhanced code has class 0 (the server sent none), then
  \<open>toSMTPErr\<close> keeps that code, \<open>GenerateDSN\<close> refuses the recipient and the sender is told about
  none of the failed recipients.\<close>

theorem bounce_lost_without_status:
  assumes "list_all (\<lambda>r. RcptErrs meta r \<noteq> None) failed" "r \<in> set failed"
    and "RcptErrs meta r = toSMTPErr (Some (LibSMTPError c (0, s, n) msg t))"
  shows "emitDSN q ops genID bl meta hdr failed d = Return d"
proof -
  obtain infos where i: "dsn_rcpts meta failed = Return infos" using dsn_rcpts_return [OF assms(1)] by blast
  have "\<exists>info \<in> set infos. Status info = (0, s, n)"
    using dsn_rcpts_status [OF i assms(2)] assms(3) by (fastforce simp: toSMTPErr_def Let_def)
  then have "GenerateDSN bl u e m infos hdr \<noteq> Inr x" for u e m x
    using GenerateDSN_status [of bl u e m infos hdr] by (cases x) fastforce
  then show ?thesis by (auto simp: emitDSN_def i Let_def split: sum.splits)
qed

text \<open>The enhanced status code of the server's own SMTP errors is dropped: whatever enhanced
  code an \<open>exterrors.SMTPError\<close> carries, \<open>toSMTPErr\<close> stores 4.0.0 or 5.0.0, because the field has
  type \<open>exterrors.EnhancedCode\<close> and the type assertion asks for \<open>smtp.EnhancedCode\<close>. Code and
  message are kept.\<close>

theorem to_smtp_err_loses_enhanced_code:
  "toSMTPErr (Some (SMTPError se c)) =
     Some \<lparr>sm_Code = Code se,
           sm_EnhancedCode = (if smtp_Temporary se then (4, 0, 0) else (5, 0, 0)),
           sm_Message = Message se\<rparr>"
proof -
  have k: "Fields (Some (SMTPError se c)) k = Some v"
    if "smtp_Fields se c k = Some v" "v \<noteq> FNil" for k v
    using that by (auto simp: Fields_unfold merge_fields_def split: option.split)
  have "Fields (Some (SMTPError se c)) ''smtp_code'' = Some (FInt (Code se))"
    "Fields (Some (SMTPError se c)) ''smtp_enchcode'' = Some (FEnch (EnhancedCode se))"
    "Fields (Some (SMTPError se c)) ''smtp_msg'' = Some (FStr (Message se))"
    by (rule k; simp add: smtp_Fields_def Let_def split: option.split)+
  then show ?thesis
    by (simp add: toSMTPErr_def Let_def unspec.smtp)
qed

text \<open>Loading at start-up: with a working file system, \<open>readDiskQueue\<close> schedules exactly one
  attempt for every message whose three files exist, none for any other, and none earlier than the
  configured delay after start-up.\<close>

theorem read_disk_queue_schedules:
  assumes "distinct (map fst dirInfo)" "\<not> stopped w" "min_int64 < q_postInitDelay q"
  shows "\<exists>fs' w'. readDiskQueue ovf q now no_faults dirInfo (fs, w) = Inr (fs', w') \<and>
    wheel_pending w' = wheel_pending w @ loaded ovf q now dirInfo fs \<and>
    (\<forall>(t, s) \<in> set (loaded ovf q now dirInfo fs). now + q_postInitDelay q \<le> t)"
proof -
  obtain fs' w' where l: "load_loop ovf q now no_faults dirInfo (fs, w) = (fs', w')" by fastforce
  with load_loop_pending [OF assms(1,2), of ovf q now fs] have
    "wheel_pending w' = wheel_pending w @ loaded ovf q now dirInfo fs" by simp
  with l loaded_late [OF assms(3)] show ?thesis
    by (auto simp: readDiskQueue_def no_faults_def)
qed

text \<open>C8. Accepting a message: whatever system calls fail, handing a message to the queue never
  panics. Without an error, the message is on disk with all its recipients, and is scheduled
  exactly once, for the zero time; with an error, nothing is scheduled.\<close>

theorem enqueue_durable:
  assumes "\<And>hs. WriteHeader lib hdr = Some hs \<Longrightarrow> ReadHeader lib hs = Some hdr" "\<not> stopped w"
  shows "\<exists>qd fs' w' e. enqueue lib fault z now m f rcpts hdr body (fs, w) = Return (qd, (fs', w'), e) \<and>
    (case e of
       Some err \<Rightarrow> w' = w
     | None \<Rightarrow>
         openMessage lib no_faults (ID m) fs' =
           (fs', Inr (stored_meta (new_meta now m f rcpts), hdr, FileBuffer (body_name (ID m)))) \<and>
         (\<exists>s. slot_ID s = ID m \<and> wheel_pending w' = wheel_pending w @ [(z, s)]))"
proof -
  let ?m = "new_meta now m f rcpts"
  obtain fs' r where s: "storeNewMessage lib False fault ?m hdr body fs = (fs', r)" by fastforce
  have i: "ID (MsgMeta ?m) = ID m" by (simp add: new_meta_def)
  show ?thesis
  proof (cases r)
    case (Inl err)
    with s show ?thesis by (simp add: enqueue_steps)
  next
    case (Inr b)
    with s have s': "storeNewMessage lib False fault ?m hdr body fs = (fs', Inr b)" by simp
    from storeNewMessage_success [OF s'] obtain hs c where
      "WriteHeader lib hdr = Some hs" "fs' (meta_name (ID m)) = Some (MetaJson (stored_meta ?m))"
      "fs' (header_name (ID m)) = Some (Blob hs)" "fs' (body_name (ID m)) = Some (Blob c)"
      unfolding i by blast
    then have "openMessage lib no_faults (ID m) fs' = (fs', Inr (stored_meta ?m, hdr, FileBuffer (body_name (ID m))))"
      using assms(1) by (intro openMessage_complete) (simp_all add: no_faults_def)
    with s' assms(2) show ?thesis by (simp add: enqueue_steps wheel.add_pending)
  qed
qed

theorem enqueue_durable_witness:
  "\<exists>qd fs' w' e. enqueue sample_lib no_faults 0 5 (MsgMeta sample_meta) ''a@x'' [''b@y''] [] (MemoryBuffer ''hi'')
      (Map.empty, wheel sample_state) = Return (qd, (fs', w'), e)"
proof -
  have "\<And>hs. WriteHeader sample_lib [] = Some hs \<Longrightarrow> ReadHeader sample_lib hs = Some []"
    by (simp add: sample_lib_def)
  moreover have "\<not> stopped (wheel sample_state)"
    by (simp add: sample_state_def NewTimeWheel_def)
  ultimately show ?thesis
    using enqueue_durable [of sample_lib "[]" "wheel sample_state" no_faults 0 5 "MsgMeta sample_meta" "''a@x''"
        "[''b@y'']" "MemoryBuffer ''hi''" Map.empty] by blast
qed

text \<open>Retry schedule: with the values \<open>NewQueue\<close> sets, the delay before the next attempt after
  1, 2, ..., 20 tries is 15 minutes times the listed factors, without overflow. The delay never
  shrinks, but \<open>time.Duration(math.Pow(...))\<close> truncates, so the first four delays are equal.\<close>

theorem retry_schedule:
  "\<exists>q. NewQueue [] = Inr q \<and>
     map (retryDelay ovf q) [1, 2, 3, 4, 5, 6, 7, 8, 9, 10, 11, 12, 13, 14, 15, 16, 17, 18, 19, 20] =
     map (\<lambda>k. k * (15 * 60 * second)) [1, 1, 1, 1, 2, 3, 3, 4, 5, 7, 9, 11, 14, 18, 22, 28, 35, 44, 55, 69]"
  by (simp add: NewQueue_def retryDelay_def scaleFactor_def pow_trunc_def second_def max_int64_def
      wrap64_def)

end
