(* ===== verification/Limiters.thy ===== *)
theory Limiters
  imports Module_Api "HOL-Library.AList"
begin

text \<open>
  Model of \<^verbatim>\<open>internal/limits/limiters\<close>: the interface \<open>L\<close> of blocking limiters, its
  implementations \<open>Semaphore\<close>, \<open>Rate\<close> and \<open>MultiLimit\<close>, and \<open>BucketSet\<close>, a set of limiters
  indexed by strings.

  A channel is its capacity and its number of elements. \<open>TakeContext\<close> waits until it can take or
  its context ends; its argument says, for every \<open>select\<close>, whether the branch of the context is
  chosen although the other one is ready. When the other one is not ready, the context ends: a
  wait that another goroutine ends by a release is the same call made after that release.
  \<open>Take\<close> has no context; it is \<open>Blocked\<close> when it has to wait.
\<close>

section \<open>The interface\<close>

text \<open>\<open>L\<close>: the methods of a limiter with state \<open>'l\<close>; \<open>'c\<close> are the choices of the \<open>select\<close>s.\<close>

record ('l, 'c) limiter_ops =
  op_Take :: "'l \<Rightarrow> ('l \<times> bool) outcome"
  op_TakeContext :: "'c \<Rightarrow> 'l \<Rightarrow> ('l \<times> goerr option) outcome"
  op_Release :: "'l \<Rightarrow> 'l outcome"
  op_Close :: "'l \<Rightarrow> 'l outcome"

definition ctx_err :: goerr where
  "ctx_err = Opaque ''context deadline exceeded'' None"

definition ErrClosed :: goerr where
  "ErrClosed = Opaque ''limiters: Rate bucket is closed'' None"

section \<open>Semaphore\<close>

record semaphore =
  sem_cap :: nat
  sem_len :: nat

text \<open>\<open>make(chan struct{}, max)\<close> panics for a negative size.\<close>

definition NewSemaphore :: "int \<Rightarrow> semaphore outcome" where
  "NewSemaphore n =
     (if n < 0 then Panic ''makechan: size out of range''
      else Return \<lparr>sem_cap = nat n, sem_len = 0\<rparr>)"

definition sem_Take :: "semaphore \<Rightarrow> (semaphore \<times> bool) outcome" where
  "sem_Take s =
     (if sem_cap s = 0 then Return (s, True)
      else if sem_len s < sem_cap s then Return (s\<lparr>sem_len := sem_len s + 1\<rparr>, True)
      else Blocked)"

definition sem_TakeContext :: "bool \<Rightarrow> semaphore \<Rightarrow> (semaphore \<times> goerr option) outcome" where
  "sem_TakeContext late s =
     (if sem_cap s = 0 then Return (s, None)
      else if sem_len s < sem_cap s \<and> \<not> late then Return (s\<lparr>sem_len := sem_len s + 1\<rparr>, None)
      else Return (s, Some ctx_err))"

definition sem_Release :: "semaphore \<Rightarrow> semaphore outcome" where
  "sem_Release s =
     (if sem_cap s = 0 then Return s
      else if 0 < sem_len s then Return (s\<lparr>sem_len := sem_len s - 1\<rparr>)
      else Panic ''limiters: mismatched Release call'')"

definition sem_Close :: "semaphore \<Rightarrow> semaphore outcome" where
  "sem_Close s = Return s"

section \<open>Rate\<close>

record rate =
  rt_cap :: nat
  rt_len :: nat
  rt_closed :: bool
  rt_stopped :: bool
  rt_interval :: duration

fun rate_prefill :: "nat \<Rightarrow> rate \<Rightarrow> rate" where
  "rate_prefill 0 r = r"
| "rate_prefill (Suc n) r = rate_prefill n (r\<lparr>rt_len := rt_len r + 1\<rparr>)"

definition NewRate :: "int \<Rightarrow> duration \<Rightarrow> rate outcome" where
  "NewRate burstSize interval =
     (if burstSize < 0 then Panic ''makechan: size out of range''
      else
        let r = \<lparr>rt_cap = nat burstSize, rt_len = 0, rt_closed = False, rt_stopped = False,
                 rt_interval = interval\<rparr> in
        if burstSize = 0 then Return r else Return (rate_prefill (nat burstSize) r))"

text \<open>One round of \<open>fill\<close> after the timer: up to \<open>burstSize\<close> sends, until the bucket is full.\<close>

fun rate_fill :: "nat \<Rightarrow> rate \<Rightarrow> rate" where
  "rate_fill 0 r = r"
| "rate_fill (Suc n) r =
     (if rt_len r < rt_cap r then rate_fill n (r\<lparr>rt_len := rt_len r + 1\<rparr>) else r)"

text \<open>What the goroutine does in one iteration of its loop: \<open>stop_branch\<close> says which ready branch
  its \<open>select\<close> takes. It ends when it has closed the bucket.\<close>

definition rate_tick :: "bool \<Rightarrow> rate \<Rightarrow> rate" where
  "rate_tick stop_branch r =
     (if rt_closed r \<or> rt_cap r = 0 then r
      else if rt_stopped r \<and> stop_branch then r\<lparr>rt_closed := True\<rparr>
      else rate_fill (rt_cap r) r)"

definition rate_Take :: "rate \<Rightarrow> (rate \<times> bool) outcome" where
  "rate_Take r =
     (if rt_cap r = 0 then Return (r, True)
      else if 0 < rt_len r then Return (r\<lparr>rt_len := rt_len r - 1\<rparr>, True)
      else if rt_closed r then Return (r, False)
      else Blocked)"

definition rate_TakeContext :: "bool \<Rightarrow> rate \<Rightarrow> (rate \<times> goerr option) outcome" where
  "rate_TakeContext late r =
     (if rt_cap r = 0 then Return (r, None)
      else if late then Return (r, Some ctx_err)
      else if 0 < rt_len r then Return (r\<lparr>rt_len := rt_len r - 1\<rparr>, None)
      else if rt_closed r then Return (r, Some ErrClosed)
      else Return (r, Some ctx_err))"

definition rate_Release :: "rate \<Rightarrow> rate outcome" where
  "rate_Release r = Return r"

definition rate_Close :: "rate \<Rightarrow> rate outcome" where
  "rate_Close r =
     (if rt_stopped r then Panic ''close of closed channel'' else Return (r\<lparr>rt_stopped := True\<rparr>))"

section \<open>The limiters that the configuration creates\<close>

datatype limiter = LSemaphore semaphore | LRate rate

fun limiter_Take :: "limiter \<Rightarrow> (limiter \<times> bool) outcome" where
  "limiter_Take (LSemaphore s) = obind (sem_Take s) (\<lambda>(s, ok). Return (LSemaphore s, ok))"
| "limiter_Take (LRate r) = obind (rate_Take r) (\<lambda>(r, ok). Return (LRate r, ok))"

fun limiter_TakeContext :: "bool \<Rightarrow> limiter \<Rightarrow> (limiter \<times> goerr option) outcome" where
  "limiter_TakeContext late (LSemaphore s) =
     obind (sem_TakeContext late s) (\<lambda>(s, e). Return (LSemaphore s, e))"
| "limiter_TakeContext late (LRate r) = obind (rate_TakeContext late r) (\<lambda>(r, e). Return (LRate r, e))"

fun limiter_Release :: "limiter \<Rightarrow> limiter outcome" where
  "limiter_Release (LSemaphore s) = obind (sem_Release s) (\<lambda>s. Return (LSemaphore s))"
| "limiter_Release (LRate r) = obind (rate_Release r) (\<lambda>r. Return (LRate r))"

fun limiter_Close :: "limiter \<Rightarrow> limiter outcome" where
  "limiter_Close (LSemaphore s) = obind (sem_Close s) (\<lambda>s. Return (LSemaphore s))"
| "limiter_Close (LRate r) = obind (rate_Close r) (\<lambda>r. Return (LRate r))"

definition basic_ops :: "(limiter, bool) limiter_ops" where
  "basic_ops = \<lparr>op_Take = limiter_Take, op_TakeContext = limiter_TakeContext,
     op_Release = limiter_Release, op_Close = limiter_Close\<rparr>"

section \<open>MultiLimit\<close>

text \<open>\<open>for \<dots> range\<close> over the wrapped limiters, calling one method of each.\<close>

fun each :: "('l \<Rightarrow> 'l outcome) \<Rightarrow> 'l list \<Rightarrow> 'l list outcome" where
  "each f [] = Return []"
| "each f (l # ls) = obind (f l) (\<lambda>l. obind (each f ls) (\<lambda>ls. Return (l # ls)))"

text \<open>\<open>got\<close> are the limiters before index \<open>i\<close>, the rest starts at \<open>i\<close>.\<close>

fun multi_take_loop ::
  "('l, 'c) limiter_ops \<Rightarrow> 'l list \<Rightarrow> 'l list \<Rightarrow> ('l list \<times> bool) outcome" where
  "multi_take_loop ops got [] = Return (got, True)"
| "multi_take_loop ops got (l # ls) =
     obind (op_Take ops l) (\<lambda>(l, ok).
       if ok then multi_take_loop ops (got @ [l]) ls
       else obind (each (op_Release ops) got) (\<lambda>got. Return (got @ l # ls, False)))"

fun multi_takectx_loop ::
  "('l, 'c) limiter_ops \<Rightarrow> (nat \<Rightarrow> 'c) \<Rightarrow> 'l list \<Rightarrow> 'l list \<Rightarrow> ('l list \<times> goerr option) outcome" where
  "multi_takectx_loop ops c got [] = Return (got, None)"
| "multi_takectx_loop ops c got (l # ls) =
     obind (op_TakeContext ops (c (length got)) l) (\<lambda>(l, err).
       case err of
         None \<Rightarrow> multi_takectx_loop ops c (got @ [l]) ls
       | Some e \<Rightarrow> obind (each (op_Release ops) got) (\<lambda>got. Return (got @ l # ls, Some e)))"

definition multi_ops :: "('l, 'c) limiter_ops \<Rightarrow> ('l list, nat \<Rightarrow> 'c) limiter_ops" where
  "multi_ops ops = \<lparr>
     op_Take = multi_take_loop ops [],
     op_TakeContext = (\<lambda>c. multi_takectx_loop ops c []),
     op_Release = each (op_Release ops),
     op_Close = each (op_Close ops)\<rparr>"

section \<open>BucketSet\<close>

text \<open>\<open>bs_New\<close> is \<^term>\<open>None\<close> for a nil function; the map is an association list with distinct keys.\<close>

record 'l bucket_set =
  bs_New :: "'l outcome option"
  bs_ReapInterval :: duration
  bs_MaxBuckets :: int
  bs_m :: "(string \<times> 'l \<times> time) list"

definition NewBucketSet :: "'l outcome option \<Rightarrow> duration \<Rightarrow> int \<Rightarrow> 'l bucket_set" where
  "NewBucketSet new reapInterval maxBuckets =
     \<lparr>bs_New = new, bs_ReapInterval = reapInterval, bs_MaxBuckets = maxBuckets, bs_m = []\<rparr>"

text \<open>The loop that drops stale buckets.\<close>

fun bs_reap ::
  "('l, 'c) limiter_ops \<Rightarrow> duration \<Rightarrow> time \<Rightarrow> (string \<times> 'l \<times> time) list \<Rightarrow> (string \<times> 'l \<times> time) list outcome" where
  "bs_reap ops interval now [] = Return []"
| "bs_reap ops interval now ((k, l, lastUse) # m) =
     (if interval < time_sub lastUse now
      then obind (op_Close ops l) (\<lambda>_. bs_reap ops interval now m)
      else obind (bs_reap ops interval now m) (\<lambda>m. Return ((k, l, lastUse) # m)))"

definition bs_Close :: "('l, 'c) limiter_ops \<Rightarrow> 'l bucket_set \<Rightarrow> 'l bucket_set outcome" where
  "bs_Close ops r =
     obind (each (\<lambda>(k, l, t). obind (op_Close ops l) (\<lambda>l. Return (k, l, t))) (bs_m r))
       (\<lambda>m. Return (r\<lparr>bs_m := m\<rparr>))"

text \<open>\<open>take\<close> returns the bucket of the key, or nil (\<^term>\<open>None\<close>) when the set is full. \<open>now\<close> is the
  time of the check for stale buckets, \<open>use\<close> the one stored as \<open>lastUse\<close>.\<close>

definition bs_take ::
  "('l, 'c) limiter_ops \<Rightarrow> time \<Rightarrow> time \<Rightarrow> string \<Rightarrow> 'l bucket_set \<Rightarrow> ('l bucket_set \<times> 'l option) outcome" where
  "bs_take ops now use key r =
     obind (if bs_MaxBuckets r < int (length (bs_m r))
            then obind (bs_reap ops (bs_ReapInterval r) now (bs_m r)) (\<lambda>m. Return (r\<lparr>bs_m := m\<rparr>))
            else Return r)
       (\<lambda>r. if bs_MaxBuckets r < int (length (bs_m r)) then Return (r, None)
            else case map_of (bs_m r) key of
                   Some (l, t) \<Rightarrow> Return (r\<lparr>bs_m := AList.update key (l, use) (bs_m r)\<rparr>, Some l)
                 | None \<Rightarrow>
                     (case bs_New r of
                        None \<Rightarrow> nil_deref
                      | Some new \<Rightarrow>
                          obind new (\<lambda>l. Return (r\<lparr>bs_m := AList.update key (l, use) (bs_m r)\<rparr>, Some l))))"

definition bs_store :: "string \<Rightarrow> 'l \<Rightarrow> 'l bucket_set \<Rightarrow> 'l bucket_set" where
  "bs_store key l r =
     (case map_of (bs_m r) key of
        None \<Rightarrow> r
      | Some (l0, t) \<Rightarrow> r\<lparr>bs_m := AList.update key (l, t) (bs_m r)\<rparr>)"

text \<open>Calling a method of the nil interface that \<open>take\<close> may return panics.\<close>

definition bs_Take ::
  "('l, 'c) limiter_ops \<Rightarrow> time \<Rightarrow> time \<Rightarrow> string \<Rightarrow> 'l bucket_set \<Rightarrow> ('l bucket_set \<times> bool) outcome" where
  "bs_Take ops now use key r =
     (if bs_New r = None then Return (r, True)
      else obind (bs_take ops now use key r) (\<lambda>(r, bucket).
             case bucket of
               None \<Rightarrow> nil_deref
             | Some l \<Rightarrow> obind (op_Take ops l) (\<lambda>(l, ok). Return (bs_store key l r, ok))))"

definition bs_TakeContext ::
  "('l, 'c) limiter_ops \<Rightarrow> 'c \<Rightarrow> time \<Rightarrow> time \<Rightarrow> string \<Rightarrow> 'l bucket_set \<Rightarrow> ('l bucket_set \<times> goerr option) outcome" where
  "bs_TakeContext ops c now use key r =
     (if bs_New r = None then Return (r, None)
      else obind (bs_take ops now use key r) (\<lambda>(r, bucket).
             case bucket of
               None \<Rightarrow> nil_deref
             | Some l \<Rightarrow> obind (op_TakeContext ops c l) (\<lambda>(l, e). Return (bs_store key l r, e))))"

definition bs_Release ::
  "('l, 'c) limiter_ops \<Rightarrow> string \<Rightarrow> 'l bucket_set \<Rightarrow> 'l bucket_set outcome" where
  "bs_Release ops key r =
     (if bs_New r = None then Return r
      else case map_of (bs_m r) key of
             None \<Rightarrow> Return r
           | Some (l, t) \<Rightarrow> obind (op_Release ops l) (\<lambda>l. Return (bs_store key l r)))"

section \<open>The contract of a limiter\<close>

text \<open>
  \<open>held n l\<close>: the limiter \<open>l\<close> is in a state that \<open>n\<close> successful takes without a release can
  lead to. A take always returns, a failed one leaves the number of holders unchanged, a
  successful one adds a holder, and every holder can release.
\<close>

text \<open>The state of a bucket set in which \<open>f k\<close> takes with key \<open>k\<close> are held: the buckets were used
  in the past, and a fresh bucket has no holders.\<close>

definition set_held :: "(nat \<Rightarrow> 'l \<Rightarrow> bool) \<Rightarrow> time \<Rightarrow> (string \<Rightarrow> nat) \<Rightarrow> 'l bucket_set \<Rightarrow> bool" where
  "set_held held now f r \<longleftrightarrow>
     (\<exists>l0. bs_New r = Some (Return l0) \<and> held 0 l0) \<and> 0 \<le> bs_ReapInterval r \<and>
     distinct (map fst (bs_m r)) \<and>
     (\<forall>(k, l, t) \<in> set (bs_m r). held (f k) l \<and> t \<le> now) \<and>
     (\<forall>k. k \<notin> fst ` set (bs_m r) \<longrightarrow> f k = 0)"

locale limiter_contract =
  fixes ops :: "('l, 'c) limiter_ops"
    and held :: "nat \<Rightarrow> 'l \<Rightarrow> bool"
  assumes take_returns: "held n l \<Longrightarrow> \<exists>l' e. op_TakeContext ops c l = Return (l', e)"
    and take_ok: "held n l \<Longrightarrow> op_TakeContext ops c l = Return (l', None) \<Longrightarrow> held (Suc n) l'"
    and take_err: "held n l \<Longrightarrow> op_TakeContext ops c l = Return (l', Some e) \<Longrightarrow> held n l'"
    and release_ok: "held (Suc n) l \<Longrightarrow> \<exists>l'. op_Release ops l = Return l' \<and> held n l'"
begin

lemma each_release:
  "list_all (held (Suc n)) ls \<Longrightarrow> \<exists>ls'. each (op_Release ops) ls = Return ls' \<and> list_all (held n) ls'"
proof (induction ls)
  case (Cons l ls)
  then obtain l' ls' where "op_Release ops l = Return l'" "held n l'"
    "each (op_Release ops) ls = Return ls'" "list_all (held n) ls'"
    using release_ok [of n l] by auto
  then show ?case by simp
qed simp

lemma multi_loop:
  assumes "list_all (held (Suc n)) got" "list_all (held n) ls"
  shows "\<exists>ls' e. multi_takectx_loop ops c got ls = Return (ls', e) \<and>
    list_all (held (if e = None then Suc n else n)) ls'"
  using assms
proof (induction ls arbitrary: got)
  case (Cons l ls)
  then have h: "held n l" by simp
  obtain l' e where t: "op_TakeContext ops (c (length got)) l = Return (l', e)"
    using take_returns [OF h] by blast
  show ?case
  proof (cases e)
    case None
    with t take_ok [OF h] Cons.prems show ?thesis
      using Cons.IH [of "got @ [l']"] by simp
  next
    case (Some err)
    with t take_err [OF h] have "held n l'" by blast
    with each_release [OF Cons.prems(1)] t Some Cons.prems(2) show ?thesis
      by (auto intro!: exI [of _ "Some err"])
  qed
qed simp

lemma reap_nothing:
  assumes "0 \<le> interval" "\<forall>(k, l, t) \<in> set m. t \<le> now"
  shows "bs_reap ops interval now m = Return m"
  using assms(2)
proof (induction m)
  case (Cons x m)
  then obtain k l t where x: "x = (k, l, t)" "t \<le> now" by (cases x) auto
  then have "\<not> interval < time_sub t now"
    using assms(1) by (auto simp: time_sub_def min_int64_def max_int64_def)
  with Cons x show ?case by simp
qed simp

lemma take_full:
  assumes "set_held held now f r" "bs_MaxBuckets r < int (length (bs_m r))"
  shows "bs_take ops now use key r = Return (r, None)"
proof -
  have "bs_reap ops (bs_ReapInterval r) now (bs_m r) = Return (bs_m r)"
    using assms(1) by (intro reap_nothing) (auto simp: set_held_def)
  with assms(2) show ?thesis by (simp add: bs_take_def)
qed

lemma set_held_update:
  assumes "set_held held now f r" "now \<le> now'" "use \<le> now'" "held n l"
  shows "set_held held now' (f(key := n)) (r\<lparr>bs_m := AList.update key (l, use) (bs_m r)\<rparr>)"
proof -
  have "distinct (map fst (AList.update key (l, use) (bs_m r)))"
    using assms(1) by (simp add: set_held_def distinct_update)
  moreover have "held ((f(key := n)) k) l' \<and> t \<le> now'"
    if "(k, l', t) \<in> set (AList.update key (l, use) (bs_m r))" for k l' t
  proof -
    have d: "distinct (map fst (bs_m r))" using assms(1) by (simp add: set_held_def)
    from that have "map_of (AList.update key (l, use) (bs_m r)) k = Some (l', t)"
      using distinct_update [OF d, of key "(l, use)"] by simp
    then have "k = key \<and> l' = l \<and> t = use \<or> k \<noteq> key \<and> (k, l', t) \<in> set (bs_m r)"
      by (auto simp: update_conv' dest: map_of_SomeD split: if_splits)
    with assms show ?thesis by (fastforce simp: set_held_def)
  qed
  moreover have "(f(key := n)) k = 0" if "k \<notin> fst ` set (AList.update key (l, use) (bs_m r))" for k
    using that assms(1) by (auto simp: set_held_def dom_update)
  ultimately show ?thesis using assms(1) by (auto simp: set_held_def)
qed

lemma set_TakeContext:
  assumes "set_held held now f r" "now \<le> use" "int (length (bs_m r)) \<le> bs_MaxBuckets r"
  shows "\<exists>r' e. bs_TakeContext ops c now use key r = Return (r', e) \<and>
    set_held held use (if e = None then f(key := Suc (f key)) else f) r'"
proof -
  from assms(1) obtain l0 where new: "bs_New r = Some (Return l0)" "held 0 l0"
    by (auto simp: set_held_def)
  obtain l where take: "bs_take ops now use key r = Return (r\<lparr>bs_m := AList.update key (l, use) (bs_m r)\<rparr>, Some l)"
    and l: "held (f key) l"
  proof (cases "map_of (bs_m r) key")
    case None
    then have "f key = 0" using assms(1) by (auto simp: set_held_def map_of_eq_None_iff)
    with None new assms(3) show thesis by (intro that [of l0]) (simp_all add: bs_take_def)
  next
    case (Some x)
    then obtain l t where x: "map_of (bs_m r) key = Some (l, t)" by (cases x) auto
    then have "held (f key) l" using assms(1) by (auto simp: set_held_def dest!: map_of_SomeD)
    with x assms(3) show thesis by (intro that [of l]) (simp_all add: bs_take_def)
  qed
  obtain l' e where t: "op_TakeContext ops c l = Return (l', e)" using take_returns [OF l] by blast
  let ?n = "if e = None then Suc (f key) else f key"
  have "held ?n l'" using take_ok [OF l] take_err [OF l] t by auto
  then have "set_held held use (f(key := ?n)) (r\<lparr>bs_m := AList.update key (l', use) (bs_m r)\<rparr>)"
    by (rule set_held_update [OF assms(1,2) order_refl])
  moreover have "bs_store key l' (r\<lparr>bs_m := AList.update key (l, use) (bs_m r)\<rparr>) =
      r\<lparr>bs_m := AList.update key (l', use) (bs_m r)\<rparr>"
    by (simp add: bs_store_def update_conv' )
  ultimately show ?thesis
    using take t new(1) by (auto simp: bs_TakeContext_def split: if_splits)
qed

lemma set_Release:
  assumes "set_held held now f r" "0 < f key"
  shows "\<exists>r'. bs_Release ops key r = Return r' \<and> set_held held now (f(key := f key - 1)) r'"
proof -
  from assms have "key \<in> fst ` set (bs_m r)" by (auto simp: set_held_def)
  then obtain l t where m: "map_of (bs_m r) key = Some (l, t)" by (metis imageE map_of_eq_None_iff not_None_eq surj_pair imageI)
  then have h: "held (Suc (f key - 1)) l" and t: "t \<le> now"
    using assms by (auto simp: set_held_def dest!: map_of_SomeD)
  from release_ok [OF h] obtain l' where r: "op_Release ops l = Return l'" "held (f key - 1) l'" by blast
  have "set_held held now (f(key := f key - 1)) (r\<lparr>bs_m := AList.update key (l', t) (bs_m r)\<rparr>)"
    using r(2) by (rule set_held_update [OF assms(1) order_refl t])
  with m r assms(1) show ?thesis by (auto simp: bs_Release_def bs_store_def set_held_def)
qed

lemma multi_contract: "limiter_contract (multi_ops ops) (\<lambda>n. list_all (held n))"
proof
  fix n ls c ls' e
  assume h: "list_all (held n) ls"
  from multi_loop [of n "[]" ls c] h show "\<exists>l' e. op_TakeContext (multi_ops ops) c ls = Return (l', e)"
    by (auto simp: multi_ops_def)
  from multi_loop [of n "[]" ls c] h
  show "op_TakeContext (multi_ops ops) c ls = Return (ls', None) \<Longrightarrow> list_all (held (Suc n)) ls'"
    and "op_TakeContext (multi_ops ops) c ls = Return (ls', Some e) \<Longrightarrow> list_all (held n) ls'"
    by (auto simp: multi_ops_def)
next
  fix n ls
  assume "list_all (held (Suc n)) ls"
  from each_release [OF this] show "\<exists>l'. op_Release (multi_ops ops) ls = Return l' \<and> list_all (held n) l'"
    by (simp add: multi_ops_def)
qed

end

section \<open>The limiters fulfil the contract\<close>

fun basic_held :: "nat \<Rightarrow> limiter \<Rightarrow> bool" where
  "basic_held n (LSemaphore s) \<longleftrightarrow> sem_cap s = 0 \<or> sem_len s = n \<and> n \<le> sem_cap s"
| "basic_held n (LRate r) \<longleftrightarrow> rt_len r \<le> rt_cap r"

definition multi_held :: "nat \<Rightarrow> limiter list \<Rightarrow> bool" where
  "multi_held n ls \<longleftrightarrow> list_all (basic_held n) ls"

interpretation basic: limiter_contract basic_ops basic_held
proof
  fix n l c l' e
  assume h: "basic_held n l"
  show "\<exists>l' e. op_TakeContext basic_ops c l = Return (l', e)"
    by (cases l) (auto simp: basic_ops_def sem_TakeContext_def rate_TakeContext_def)
  show "op_TakeContext basic_ops c l = Return (l', None) \<Longrightarrow> basic_held (Suc n) l'"
    and "op_TakeContext basic_ops c l = Return (l', Some e) \<Longrightarrow> basic_held n l'"
    using h by (cases l;
        auto simp: basic_ops_def sem_TakeContext_def rate_TakeContext_def split: if_splits)+
next
  fix n l
  assume "basic_held (Suc n) l"
  then show "\<exists>l'. op_Release basic_ops l = Return l' \<and> basic_held n l'"
    by (cases l) (auto simp: basic_ops_def sem_Release_def rate_Release_def)
qed

interpretation multi: limiter_contract "multi_ops basic_ops" multi_held
  using basic.multi_contract by (simp add: multi_held_def [abs_def])

lemma NewSemaphore_held: "NewSemaphore m = Return s \<Longrightarrow> basic_held 0 (LSemaphore s)"
  by (auto simp: NewSemaphore_def split: if_splits)

lemma rate_prefill_len: "rt_len (rate_prefill n r) = rt_len r + n" "rt_cap (rate_prefill n r) = rt_cap r"
  by (induction n arbitrary: r) auto

lemma NewRate_held: "NewRate b i = Return r \<Longrightarrow> basic_held 0 (LRate r)"
  by (auto simp: NewRate_def Let_def rate_prefill_len split: if_splits)

lemma rate_fill_len: "rt_len r \<le> rt_cap r \<Longrightarrow>
    rt_len (rate_fill n r) = min (rt_cap r) (rt_len r + n) \<and> rt_cap (rate_fill n r) = rt_cap r"
  by (induction n arbitrary: r) (auto simp: min_def)

lemma rate_tick_held: "basic_held n (LRate r) \<Longrightarrow> basic_held n (LRate (rate_tick b r))"
  using rate_fill_len [of r "rt_cap r"] by (auto simp: rate_tick_def)

section \<open>Runs of the token bucket\<close>

text \<open>\<open>n\<close> successful takes in a row.\<close>

fun rate_takes :: "nat \<Rightarrow> rate \<Rightarrow> rate option" where
  "rate_takes 0 r = Some r"
| "rate_takes (Suc n) r =
     (case rate_TakeContext False r of Return (r', None) \<Rightarrow> rate_takes n r' | _ \<Rightarrow> None)"

lemma rate_takes_iff:
  "0 < rt_cap r \<Longrightarrow> (\<exists>r'. rate_takes n r = Some r') \<longleftrightarrow> n \<le> rt_len r"
  by (induction n arbitrary: r) (auto simp: rate_TakeContext_def)

lemma rate_takes_frame:
  "rate_takes n r = Some r' \<Longrightarrow>
   rt_cap r' = rt_cap r \<and> rt_len r' \<le> rt_len r \<and> rt_closed r' = rt_closed r \<and> rt_stopped r' = rt_stopped r"
  by (induction n arbitrary: r) (fastforce simp: rate_TakeContext_def split: if_splits)+

lemma rate_prefill_flags [simp]:
  "rt_closed (rate_prefill n r) = rt_closed r" "rt_stopped (rate_prefill n r) = rt_stopped r"
  by (induction n arbitrary: r) auto

lemma rate_tick_full:
  assumes "\<not> rt_closed r" "\<not> rt_stopped r" "rt_len r \<le> rt_cap r"
  shows "rt_len (rate_tick b r) = rt_cap r" "rt_cap (rate_tick b r) = rt_cap r"
  using assms rate_fill_len [of r "rt_cap r"] by (auto simp: rate_tick_def)

section \<open>Properties\<close>

text \<open>All or nothing: \<open>MultiLimit.TakeContext\<close> over semaphores and rate limiters that \<open>n\<close>
  callers hold always returns; a failure in the middle has given back every semaphore it took,
  and never panics while doing so; and no semaphore is ever held by more callers than its
  capacity.\<close>

theorem multi_limit_all_or_nothing:
  assumes "multi_held n ls"
  shows "\<exists>ls' e. op_TakeContext (multi_ops basic_ops) c ls = Return (ls', e) \<and>
    multi_held (if e = None then Suc n else n) ls' \<and>
    (\<forall>s. LSemaphore s \<in> set ls' \<and> sem_cap s \<noteq> 0 \<longrightarrow>
       sem_len s = (if e = None then Suc n else n) \<and> sem_len s \<le> sem_cap s)"
proof -
  obtain ls' e where t: "op_TakeContext (multi_ops basic_ops) c ls = Return (ls', e)"
    using multi.take_returns [OF assms] by blast
  then have "multi_held (if e = None then Suc n else n) ls'"
    using multi.take_ok [OF assms] multi.take_err [OF assms] by (cases e) auto
  with t show ?thesis by (fastforce simp: multi_held_def list_all_iff)
qed

text \<open>Rate: a new rate limiter with a positive burst size admits exactly that many requests
  before its first refill, and after a refill, whatever was taken, again exactly that many.\<close>

theorem rate_burst_exact:
  assumes "0 < burst"
  shows "\<exists>r. NewRate burst interval = Return r \<and>
    (\<forall>n. (\<exists>r'. rate_takes n r = Some r') \<longleftrightarrow> int n \<le> burst) \<and>
    (\<forall>k r1 n. rate_takes k r = Some r1 \<longrightarrow>
       ((\<exists>r'. rate_takes n (rate_tick b r1) = Some r') \<longleftrightarrow> int n \<le> burst))"
proof -
  define r where "r = rate_prefill (nat burst) \<lparr>rt_cap = nat burst, rt_len = 0, rt_closed = False,
    rt_stopped = False, rt_interval = interval\<rparr>"
  have r: "rt_cap r = nat burst" "rt_len r = nat burst" "\<not> rt_closed r" "\<not> rt_stopped r"
    by (simp_all add: r_def rate_prefill_len)
  have "NewRate burst interval = Return r" using assms by (simp add: NewRate_def Let_def r_def)
  moreover have "(\<exists>r'. rate_takes n r = Some r') \<longleftrightarrow> int n \<le> burst" for n
    using rate_takes_iff [of r n] r(1,2) assms by auto
  moreover have "(\<exists>r'. rate_takes n (rate_tick b r1) = Some r') \<longleftrightarrow> int n \<le> burst"
    if "rate_takes k r = Some r1" for k r1 n
    using rate_takes_frame [OF that] r rate_tick_full [of r1 b] rate_takes_iff [of "rate_tick b r1" n] assms
    by auto
  ultimately show ?thesis by blast
qed

text \<open>A full bucket set panics: when it holds more than \<open>MaxBuckets\<close> buckets, all used in the
  past, no bucket is ever stale, because the age is computed with the wrong sign; \<open>take\<close> returns
  nil for every key and \<open>Take\<close> and \<open>TakeContext\<close> dereference it. The documentation promises that
  stale buckets are removed and that \<open>Take\<close> returns false.\<close>

theorem bucket_set_full_panics:
  assumes "set_held multi_held now f r" "bs_MaxBuckets r < int (length (bs_m r))"
  shows "bs_Take (multi_ops basic_ops) now use key r = nil_deref \<and>
    bs_TakeContext (multi_ops basic_ops) c now use key r = nil_deref"
  using multi.take_full [OF assms] assms(1)
  by (auto simp: bs_Take_def bs_TakeContext_def set_held_def)

end
