(* ===== verification/Limits.thy ===== *)
theory Limits
  imports Limiters
begin

text \<open>
  Model of \<^verbatim>\<open>internal/limits/limits.go\<close>: the module \<open>limits\<close>, a group of limiters for all
  messages, per source address, per source domain and per destination domain.

  \<open>Init\<close> reads the children of the configuration block; \<open>strconv.Atoi\<close> is modelled,
  \<open>time.ParseDuration\<close> is the argument \<open>parse_dur\<close>. The source address is the string that
  \<open>addr.String()\<close> returns.
\<close>

section \<open>Configuration\<close>

record cfg_child =
  ch_Name :: string
  ch_Args :: "string list"

datatype limit_err =
    ErrArgs | ErrKind string | ErrScope string | ErrBurst | ErrTooMany | ErrConcurrency | ErrNumber string | ErrDuration string

fun digits_value :: "int \<Rightarrow> string \<Rightarrow> int option" where
  "digits_value acc [] = Some acc"
| "digits_value acc (c # cs) =
     (let d = of_char c - 48 in if 0 \<le> d \<and> d \<le> 9 then digits_value (acc * 10 + d) cs else None)"

text \<open>\<open>strconv.Atoi\<close>: an optional sign, at least one decimal digit, within 64 bits.\<close>

definition Atoi :: "string \<Rightarrow> int option" where
  "Atoi s =
     (case s of
        [] \<Rightarrow> None
      | c # cs \<Rightarrow>
          let neg = (c = CHR ''-''); ds = (if c = CHR ''-'' \<or> c = CHR ''+'' then cs else s) in
          if ds = [] then None
          else case digits_value 0 ds of
                 None \<Rightarrow> None
               | Some n \<Rightarrow>
                   let n = (if neg then - n else n) in
                   if min_int64 \<le> n \<and> n \<le> max_int64 then Some n else None)"

text \<open>A constructor is what \<open>rateCtor\<close> and \<open>concurrencyCtor\<close> return; running it may panic.\<close>

datatype ctor = CtorRate int duration | CtorConcurrency int

definition run_ctor :: "ctor \<Rightarrow> limiter outcome" where
  "run_ctor c =
     (case c of
        CtorRate burst period \<Rightarrow> obind (NewRate burst period) (\<lambda>r. Return (LRate r))
      | CtorConcurrency n \<Rightarrow> obind (NewSemaphore n) (\<lambda>s. Return (LSemaphore s)))"

definition rateCtor :: "(string \<Rightarrow> duration option) \<Rightarrow> string list \<Rightarrow> limit_err + ctor" where
  "rateCtor parse_dur args =
     (case args of
        [] \<Rightarrow> Inl ErrBurst
      | [b] \<Rightarrow> (case Atoi b of None \<Rightarrow> Inl (ErrNumber b) | Some burst \<Rightarrow> Inr (CtorRate burst 1000000000))
      | [b, p] \<Rightarrow>
          (case parse_dur p of
             None \<Rightarrow> Inl (ErrDuration p)
           | Some period \<Rightarrow>
               (case Atoi b of None \<Rightarrow> Inl (ErrNumber b) | Some burst \<Rightarrow> Inr (CtorRate burst period)))
      | _ \<Rightarrow> Inl ErrTooMany)"

definition concurrencyCtor :: "string list \<Rightarrow> limit_err + ctor" where
  "concurrencyCtor args =
     (case args of
        [a] \<Rightarrow> (case Atoi a of None \<Rightarrow> Inl (ErrNumber a) | Some n \<Rightarrow> Inr (CtorConcurrency n))
      | _ \<Rightarrow> Inl ErrConcurrency)"

record limit_lists =
  globalL :: "limiter list"
  ipL :: "ctor list"
  sourceL :: "ctor list"
  destL :: "ctor list"

text \<open>One child: the limiter of scope \<open>all\<close> is created at once, the others when a bucket is.\<close>

definition init_child ::
  "(string \<Rightarrow> duration option) \<Rightarrow> cfg_child \<Rightarrow> limit_lists \<Rightarrow> (limit_err + limit_lists) outcome" where
  "init_child parse_dur child ls =
     (case ch_Args child of
        [] \<Rightarrow> Return (Inl ErrArgs)
      | kind # args \<Rightarrow>
          let ctor = (if kind = ''rate'' then rateCtor parse_dur args
                      else if kind = ''concurrency'' then concurrencyCtor args
                      else Inl (ErrKind kind)) in
          (case ctor of
             Inl e \<Rightarrow> Return (Inl e)
           | Inr c \<Rightarrow>
               if ch_Name child = ''all'' then
                 obind (run_ctor c) (\<lambda>l. Return (Inr (ls\<lparr>globalL := globalL ls @ [l]\<rparr>)))
               else if ch_Name child = ''ip'' then Return (Inr (ls\<lparr>ipL := ipL ls @ [c]\<rparr>))
               else if ch_Name child = ''source'' then Return (Inr (ls\<lparr>sourceL := sourceL ls @ [c]\<rparr>))
               else if ch_Name child = ''destination'' then Return (Inr (ls\<lparr>destL := destL ls @ [c]\<rparr>))
               else Return (Inl (ErrScope (ch_Name child)))))"

fun init_children ::
  "(string \<Rightarrow> duration option) \<Rightarrow> cfg_child list \<Rightarrow> limit_lists \<Rightarrow> (limit_err + limit_lists) outcome" where
  "init_children parse_dur [] ls = Return (Inr ls)"
| "init_children parse_dur (child # cs) ls =
     obind (init_child parse_dur child ls) (\<lambda>r.
       case r of Inl e \<Rightarrow> Return (Inl e) | Inr ls \<Rightarrow> init_children parse_dur cs ls)"

fun run_ctors :: "ctor list \<Rightarrow> limiter list outcome" where
  "run_ctors [] = Return []"
| "run_ctors (c # cs) = obind (run_ctor c) (\<lambda>l. obind (run_ctors cs) (\<lambda>ls. Return (l # ls)))"

section \<open>The group\<close>

type_synonym buckets = "limiter list bucket_set"

record group =
  g_global :: "limiter list"
  g_ip :: "buckets option"
  g_source :: "buckets option"
  g_dest :: "buckets option"

definition minute :: duration where
  "minute = 60 * 1000000000"

text \<open>The constructor of the destination buckets runs over \<open>sourceL\<close>, as written.\<close>

definition group_Init ::
  "(string \<Rightarrow> duration option) \<Rightarrow> cfg_child list \<Rightarrow> (limit_err + group) outcome" where
  "group_Init parse_dur children =
     obind (init_children parse_dur children \<lparr>globalL = [], ipL = [], sourceL = [], destL = []\<rparr>) (\<lambda>r.
       case r of
         Inl e \<Rightarrow> Return (Inl e)
       | Inr ls \<Rightarrow> Return (Inr \<lparr>
           g_global = globalL ls,
           g_ip = (if ipL ls = [] then None
                   else Some (NewBucketSet (Some (run_ctors (ipL ls))) minute 20010)),
           g_source = (if sourceL ls = [] then None
                   else Some (NewBucketSet (Some (run_ctors (sourceL ls))) minute 20010)),
           g_dest = (if destL ls = [] then None
                   else Some (NewBucketSet (Some (run_ctors (sourceL ls))) minute 20010))\<rparr>))"

abbreviation mops :: "(limiter list, nat \<Rightarrow> bool) limiter_ops" where
  "mops \<equiv> multi_ops basic_ops"

text \<open>The choices of the \<open>select\<close>s and the clock readings of one call.\<close>

record take_env =
  te_global :: "nat \<Rightarrow> bool"
  te_ip :: "nat \<Rightarrow> bool"
  te_source :: "nat \<Rightarrow> bool"
  te_dest :: "nat \<Rightarrow> bool"
  te_now :: time
  te_use :: time

text \<open>A method called on a nil \<open>*BucketSet\<close> reads a field of it and panics.\<close>

definition opt_Release :: "string \<Rightarrow> buckets option \<Rightarrow> buckets option outcome" where
  "opt_Release key b =
     (case b of None \<Rightarrow> nil_deref | Some r \<Rightarrow> obind (bs_Release mops key r) (\<lambda>r. Return (Some r)))"

definition TakeMsg :: "take_env \<Rightarrow> string \<Rightarrow> string \<Rightarrow> group \<Rightarrow> (group \<times> goerr option) outcome" where
  "TakeMsg env addr sourceDomain g =
     obind (op_TakeContext mops (te_global env) (g_global g)) (\<lambda>(gl, err).
       let g = g\<lparr>g_global := gl\<rparr> in
       case err of
         Some e \<Rightarrow> Return (g, Some e)
       | None \<Rightarrow>
           obind (case g_ip g of
                    None \<Rightarrow> Return (g, None)
                  | Some r \<Rightarrow>
                      obind (bs_TakeContext mops (te_ip env) (te_now env) (te_use env) addr r) (\<lambda>(r, err).
                        let g = g\<lparr>g_ip := Some r\<rparr> in
                        case err of
                          None \<Rightarrow> Return (g, None)
                        | Some e \<Rightarrow> obind (op_Release mops (g_global g)) (\<lambda>gl.
                            Return (g\<lparr>g_global := gl\<rparr>, Some e))))
             (\<lambda>(g, err). case err of
                Some e \<Rightarrow> Return (g, Some e)
              | None \<Rightarrow>
                  (case g_source g of
                     None \<Rightarrow> Return (g, None)
                   | Some r \<Rightarrow>
                       obind (bs_TakeContext mops (te_source env) (te_now env) (te_use env) sourceDomain r) (\<lambda>(r, err).
                         let g = g\<lparr>g_source := Some r\<rparr> in
                         case err of
                           None \<Rightarrow> Return (g, None)
                         | Some e \<Rightarrow> obind (op_Release mops (g_global g)) (\<lambda>gl.
                             let g = g\<lparr>g_global := gl\<rparr> in
                             obind (opt_Release addr (g_ip g)) (\<lambda>ip.
                               Return (g\<lparr>g_ip := ip\<rparr>, Some e)))))))"

definition TakeDest :: "take_env \<Rightarrow> string \<Rightarrow> group \<Rightarrow> (group \<times> goerr option) outcome" where
  "TakeDest env domain g =
     (case g_dest g of
        None \<Rightarrow> Return (g, None)
      | Some r \<Rightarrow>
          obind (bs_TakeContext mops (te_dest env) (te_now env) (te_use env) domain r)
            (\<lambda>(r, err). Return (g\<lparr>g_dest := Some r\<rparr>, err)))"

definition ReleaseMsg :: "string \<Rightarrow> string \<Rightarrow> group \<Rightarrow> group outcome" where
  "ReleaseMsg addr sourceDomain g =
     obind (op_Release mops (g_global g)) (\<lambda>gl.
       let g = g\<lparr>g_global := gl\<rparr> in
       obind (if g_ip g = None then Return None else opt_Release addr (g_ip g)) (\<lambda>ip.
         let g = g\<lparr>g_ip := ip\<rparr> in
         obind (if g_source g = None then Return None else opt_Release sourceDomain (g_source g)) (\<lambda>source.
           Return (g\<lparr>g_source := source\<rparr>))))"

definition ReleaseDest :: "string \<Rightarrow> group \<Rightarrow> group outcome" where
  "ReleaseDest domain g =
     (case g_dest g of
        None \<Rightarrow> Return g
      | Some r \<Rightarrow> obind (bs_Release mops domain r) (\<lambda>r. Return (g\<lparr>g_dest := Some r\<rparr>)))"

section \<open>The invariant of the group\<close>

text \<open>\<open>hs\<close> lists the messages in flight: the source address and domain of each \<open>TakeMsg\<close> that has
  succeeded and was not yet released. Limits per source need limits per address, because of the
  panic stated below.\<close>

definition group_held :: "time \<Rightarrow> (string \<times> string) list \<Rightarrow> group \<Rightarrow> bool" where
  "group_held now hs g \<longleftrightarrow>
     multi_held (length hs) (g_global g) \<and>
     (\<forall>r. g_ip g = Some r \<longrightarrow> set_held multi_held now (count_list (map fst hs)) r) \<and>
     (\<forall>r. g_source g = Some r \<longrightarrow> set_held multi_held now (count_list (map snd hs)) r) \<and>
     (g_ip g = None \<longrightarrow> g_source g = None)"

definition group_room :: "group \<Rightarrow> bool" where
  "group_room g \<longleftrightarrow>
     (\<forall>r. g_ip g = Some r \<longrightarrow> int (length (bs_m r)) \<le> bs_MaxBuckets r) \<and>
     (\<forall>r. g_source g = Some r \<longrightarrow> int (length (bs_m r)) \<le> bs_MaxBuckets r)"

lemma set_held_mono: "set_held h now f r \<Longrightarrow> now \<le> now' \<Longrightarrow> set_held h now' f r"
  by (fastforce simp: set_held_def)

lemma count_Cons: "count_list (x # xs) = (count_list xs)(x := Suc (count_list xs x))"
  by (auto simp: fun_eq_iff)

lemma count_remove1:
  "x \<in> set xs \<Longrightarrow> count_list (map f (remove1 x xs)) = (count_list (map f xs))(f x := count_list (map f xs) (f x) - 1)"
proof (induction xs)
  case (Cons y ys)
  have "x \<in> set ys \<Longrightarrow> count_list (map f ys) (f x) \<noteq> 0" by (simp add: count_list_0_iff)
  with Cons show ?case by (auto simp: fun_eq_iff)
qed simp

lemma opt_Release_held:
  assumes "\<forall>r. b = Some r \<longrightarrow> set_held multi_held now f r" "b \<noteq> None" "0 < f key"
  shows "\<exists>b'. opt_Release key b = Return b' \<and> b' \<noteq> None \<and>
    (\<forall>r. b' = Some r \<longrightarrow> set_held multi_held now (f(key := f key - 1)) r)"
proof -
  from assms(2) obtain r where b: "b = Some r" by blast
  with assms(1) have "set_held multi_held now f r" by simp
  from multi.set_Release [OF this assms(3)] b show ?thesis by (auto simp: opt_Release_def)
qed

lemma maybe_Release_held:
  assumes "\<forall>r. b = Some r \<longrightarrow> set_held multi_held now (count_list (map f hs)) r" "x \<in> set hs"
  shows "\<exists>b'. (if b = None then Return None else opt_Release (f x) b) = Return b' \<and> (b' = None \<longleftrightarrow> b = None) \<and>
    (\<forall>r. b' = Some r \<longrightarrow> set_held multi_held now (count_list (map f (remove1 x hs))) r)"
proof (cases "b = None")
  case False
  have "0 < count_list (map f hs) (f x)"
    using assms(2) by (metis count_list_0_iff gr0I imageI list.set_map)
  from opt_Release_held [OF assms(1) False this] False show ?thesis
    by (auto simp: count_remove1 [OF assms(2)])
qed simp

lemma global_Release:
  "multi_held (Suc n) ls \<Longrightarrow> \<exists>ls'. op_Release mops ls = Return ls' \<and> multi_held n ls'"
  by (rule multi.release_ok)

lemma set_take:
  assumes "set_held multi_held now (count_list ks) r" "now \<le> use" "int (length (bs_m r)) \<le> bs_MaxBuckets r"
  shows "\<exists>r' e. bs_TakeContext mops c now use key r = Return (r', e) \<and>
    set_held multi_held use (if e = None then count_list (key # ks) else count_list ks) r'"
  using multi.set_TakeContext [OF assms, of c key] by (simp only: count_Cons)

lemma ip_take:
  assumes "group_held (te_now env) hs g" "te_now env \<le> te_use env" "group_room g" "g_ip g = Some r"
  shows "\<exists>r' e. bs_TakeContext mops c (te_now env) (te_use env) addr r = Return (r', e) \<and>
    set_held multi_held (te_use env) (if e = None then count_list (addr # map fst hs) else count_list (map fst hs)) r'"
  using assms by (intro set_take) (auto simp: group_held_def group_room_def)

lemma source_take:
  assumes "group_held (te_now env) hs g" "te_now env \<le> te_use env" "group_room g" "g_source g = Some r"
  shows "\<exists>r' e. bs_TakeContext mops c (te_now env) (te_use env) sdom r = Return (r', e) \<and>
    set_held multi_held (te_use env) (if e = None then count_list (sdom # map snd hs) else count_list (map snd hs)) r'"
  using assms by (intro set_take) (auto simp: group_held_def group_room_def)

text \<open>Constructors with sizes that are not negative create limiters without holders.\<close>

definition ctor_ok :: "ctor \<Rightarrow> bool" where
  "ctor_ok c \<longleftrightarrow> (case c of CtorRate b p \<Rightarrow> 0 \<le> b | CtorConcurrency n \<Rightarrow> 0 \<le> n)"

lemma run_ctor_Return: "run_ctor c = Return l \<Longrightarrow> basic_held 0 l"
  using NewSemaphore_held NewRate_held by (cases c) (fastforce simp: run_ctor_def)+

lemma run_ctor_held: "ctor_ok c \<Longrightarrow> \<exists>l. run_ctor c = Return l \<and> basic_held 0 l"
proof -
  assume "ctor_ok c"
  then have "\<exists>l. run_ctor c = Return l"
    by (cases c) (auto simp: run_ctor_def ctor_ok_def NewSemaphore_def NewRate_def Let_def)
  with run_ctor_Return show ?thesis by blast
qed

lemma init_child_held:
  "init_child parse_dur child ls = Return (Inr ls') \<Longrightarrow> multi_held 0 (globalL ls) \<Longrightarrow> multi_held 0 (globalL ls')"
  using run_ctor_Return
  by (auto simp: init_child_def multi_held_def Let_def split: list.splits sum.splits if_splits)

lemma init_children_held:
  "init_children parse_dur cs ls = Return (Inr ls') \<Longrightarrow> multi_held 0 (globalL ls) \<Longrightarrow> multi_held 0 (globalL ls')"
proof (induction cs arbitrary: ls)
  case (Cons c cs)
  then obtain ls1 where "init_child parse_dur c ls = Return (Inr ls1)"
    "init_children parse_dur cs ls1 = Return (Inr ls')"
    by (auto split: sum.splits dest: sum.exhaust_sel) (metis sum.exhaust)
  with Cons init_child_held show ?case by blast
qed simp

lemma run_ctors_held: "list_all ctor_ok cs \<Longrightarrow> \<exists>ls. run_ctors cs = Return ls \<and> multi_held 0 ls"
proof (induction cs)
  case (Cons c cs)
  with run_ctor_held [of c] show ?case by (auto simp: multi_held_def)
qed (simp add: multi_held_def)

lemma NewBucketSet_held:
  "list_all ctor_ok cs \<Longrightarrow>
   set_held multi_held now (count_list []) (NewBucketSet (Some (run_ctors cs)) minute 20010)"
  using run_ctors_held [of cs] by (auto simp: set_held_def NewBucketSet_def minute_def)

text \<open>Taking a destination again and again, without a release.\<close>

fun take_dests :: "take_env \<Rightarrow> string list \<Rightarrow> group \<Rightarrow> (group \<times> goerr option) outcome" where
  "take_dests env [] g = Return (g, None)"
| "take_dests env (d # ds) g =
     obind (TakeDest env d g) (\<lambda>(g, err).
       case err of None \<Rightarrow> take_dests env ds g | Some e \<Rightarrow> Return (g, Some e))"

lemma take_dests_unlimited:
  assumes "g_dest g = Some r" "bs_New r = Some (Return [])" "bs_MaxBuckets r = 20010"
    and "bs_m r = [] \<or> (\<exists>t. bs_m r = [(d, [], t)])"
  shows "\<exists>g'. take_dests env (replicate n d) g = Return (g', None)"
  using assms
proof (induction n arbitrary: g r)
  case (Suc n)
  let ?r = "r\<lparr>bs_m := [(d, [], te_use env)]\<rparr>"
  have "TakeDest env d g = Return (g\<lparr>g_dest := Some ?r\<rparr>, None)"
    using Suc.prems
    by (auto simp: TakeDest_def bs_TakeContext_def bs_take_def bs_store_def multi_ops_def)
  with Suc.IH [of "g\<lparr>g_dest := Some ?r\<rparr>" ?r] Suc.prems show ?case by simp
qed simp

definition sample_group :: group where
  "sample_group = \<lparr>g_global = [LSemaphore \<lparr>sem_cap = 2, sem_len = 1\<rparr>],
     g_ip = Some \<lparr>bs_New = Some (Return [LSemaphore \<lparr>sem_cap = 1, sem_len = 0\<rparr>]), bs_ReapInterval = 60,
       bs_MaxBuckets = 5, bs_m = [(''a'', [LSemaphore \<lparr>sem_cap = 1, sem_len = 1\<rparr>], 0)]\<rparr>,
     g_source = None, g_dest = None\<rparr>"

definition sample_take :: take_env where
  "sample_take = \<lparr>te_global = (\<lambda>_. False), te_ip = (\<lambda>_. False), te_source = (\<lambda>_. False), te_dest = (\<lambda>_. False),
     te_now = 3, te_use = 4\<rparr>"

lemma sample_group_held: "group_held 3 [(''a'', ''x'')] sample_group"
  by (auto simp: group_held_def sample_group_def multi_held_def set_held_def)

section \<open>Properties\<close>

lemma TakeMsg_held:
  assumes "group_held (te_now env) hs g" "te_now env \<le> te_use env" "group_room g"
  shows "\<exists>g' e. TakeMsg env addr sdom g = Return (g', e) \<and>
    group_held (te_use env) (if e = None then (addr, sdom) # hs else hs) g'"
proof -
  let ?now = "te_use env"
  from assms(1) have gh: "multi_held (length hs) (g_global g)" by (simp add: group_held_def)
  obtain gl e1 where 1: "op_TakeContext mops (te_global env) (g_global g) = Return (gl, e1)"
    using multi.take_returns [OF gh] by blast
  show ?thesis
  proof (cases e1)
    case (Some e)
    with 1 multi.take_err [OF gh] assms(1,2) show ?thesis
      by (auto simp: TakeMsg_def Let_def group_held_def intro: set_held_mono)
  next
    case None
    with 1 multi.take_ok [OF gh] have gl: "multi_held (Suc (length hs)) gl" by blast
    from global_Release [OF gl] obtain gl0 where gl0: "op_Release mops gl = Return gl0" "multi_held (length hs) gl0"
      by blast
    show ?thesis
    proof (cases "g_ip g")
      case no_ip: None
      with 1 None gl assms(1) show ?thesis by (simp add: TakeMsg_def Let_def group_held_def)
    next
      case (Some r)
      from ip_take [OF assms Some, of "te_ip env" addr] obtain r' e2 where
        2: "bs_TakeContext mops (te_ip env) (te_now env) ?now addr r = Return (r', e2)"
        "set_held multi_held ?now (if e2 = None then count_list (addr # map fst hs) else count_list (map fst hs)) r'"
        by blast
      show ?thesis
      proof (cases "e2 = None")
        case False
        then obtain e where e: "e2 = Some e" by blast
        have "TakeMsg env addr sdom g = Return (g\<lparr>g_global := gl0, g_ip := Some r'\<rparr>, Some e)"
          using 1 None Some 2(1) gl0 by (simp add: TakeMsg_def Let_def e)
        moreover have "group_held ?now hs (g\<lparr>g_global := gl0, g_ip := Some r'\<rparr>)"
          using 2(2) gl0 assms(1,2) by (simp add: e group_held_def) (blast intro: set_held_mono)
        ultimately show ?thesis by fastforce
      next
        case True
        note ip_ok = True
        show ?thesis
        proof (cases "g_source g")
          case no_source: None
          with 1 None Some 2 ip_ok gl show ?thesis by (simp add: TakeMsg_def Let_def group_held_def)
        next
          case source: (Some q)
          from source_take [OF assms source, of "te_source env" sdom] obtain q' e3 where
            3: "bs_TakeContext mops (te_source env) (te_now env) ?now sdom q = Return (q', e3)"
            "set_held multi_held ?now (if e3 = None then count_list (sdom # map snd hs) else count_list (map snd hs)) q'"
            by blast
          from 2 ip_ok opt_Release_held [of "Some r'" ?now "count_list (addr # map fst hs)" addr]
          obtain b' where b: "opt_Release addr (Some r') = Return b'" "b' \<noteq> None"
            "\<forall>r. b' = Some r \<longrightarrow> set_held multi_held ?now (count_list (map fst hs)) r"
            by (auto simp: count_Cons)
          show ?thesis
            using 1 None Some 2 ip_ok source 3 gl gl0 b
            by (cases e3) (simp_all add: TakeMsg_def Let_def group_held_def)
        qed
      qed
    qed
  qed
qed

text \<open>Taking is balanced: while the bucket sets have room, \<open>TakeMsg\<close> returns; on success the
  message is counted once in the global limiters, the limiters of its address and of its source
  domain; on an error, wherever it occurs, no counter of any limiter has changed.\<close>

theorem take_msg_balanced:
  assumes "group_held (te_now env) hs g" "te_now env \<le> te_use env" "group_room g"
  shows "\<exists>g' e. TakeMsg env addr sdom g = Return (g', e) \<and>
    group_held (te_use env) (if e = None then (addr, sdom) # hs else hs) g'"
  using TakeMsg_held [OF assms] .

lemma ReleaseMsg_held:
  assumes "group_held now hs g" "(addr, sdom) \<in> set hs"
  shows "\<exists>g'. ReleaseMsg addr sdom g = Return g' \<and> group_held now (remove1 (addr, sdom) hs) g'"
proof -
  have n: "multi_held (Suc (length (remove1 (addr, sdom) hs))) (g_global g)"
    using assms by (auto simp: group_held_def length_remove1 dest: length_pos_if_in_set)
  from global_Release [OF n] obtain gl where
    gl: "op_Release mops (g_global g) = Return gl" "multi_held (length (remove1 (addr, sdom) hs)) gl" by blast
  obtain ip where ip: "(if g_ip g = None then Return None else opt_Release addr (g_ip g)) = Return ip"
    "ip = None \<longleftrightarrow> g_ip g = None"
    "\<forall>r. ip = Some r \<longrightarrow> set_held multi_held now (count_list (map fst (remove1 (addr, sdom) hs))) r"
    using maybe_Release_held [of "g_ip g" now fst hs "(addr, sdom)"] assms
    by (metis fst_conv group_held_def)
  obtain so where so: "(if g_source g = None then Return None else opt_Release sdom (g_source g)) = Return so"
    "so = None \<longleftrightarrow> g_source g = None"
    "\<forall>r. so = Some r \<longrightarrow> set_held multi_held now (count_list (map snd (remove1 (addr, sdom) hs))) r"
    using maybe_Release_held [of "g_source g" now snd hs "(addr, sdom)"] assms
    by (metis snd_conv group_held_def)
  have "ReleaseMsg addr sdom g = Return (g\<lparr>g_global := gl, g_ip := ip, g_source := so\<rparr>)"
    using gl(1) ip(1) so(1) by (auto simp: ReleaseMsg_def Let_def split: if_splits)
  with gl(2) ip so assms(1) show ?thesis by (simp add: group_held_def)
qed

text \<open>Releasing never panics: a message in flight can always be released, and exactly its
  counters go down. In particular the panic of \<open>Semaphore.Release\<close> is not reachable.\<close>

theorem release_msg_balanced:
  assumes "group_held now hs g" "(addr, sdom) \<in> set hs"
  shows "\<exists>g'. ReleaseMsg addr sdom g = Return g' \<and> group_held now (remove1 (addr, sdom) hs) g'"
  using ReleaseMsg_held [OF assms] .

text \<open>Start of the group: when the configuration is accepted and all its sizes are not
  negative, \<open>Init\<close> yields a group without messages in flight; so the two preceding properties apply
  from the start, provided limits per source come with limits per address.\<close>

theorem group_init_held:
  assumes "init_children parse_dur children \<lparr>globalL = [], ipL = [], sourceL = [], destL = []\<rparr> = Return (Inr ls)"
    and "list_all ctor_ok (ipL ls)" "list_all ctor_ok (sourceL ls)"
    and "ipL ls = [] \<Longrightarrow> sourceL ls = []"
  shows "\<exists>g. group_Init parse_dur children = Return (Inr g) \<and> group_held now [] g \<and> group_room g"
proof -
  have "multi_held 0 (globalL ls)"
    using init_children_held [OF assms(1)] by (simp add: multi_held_def)
  with assms NewBucketSet_held show ?thesis
    by (auto simp: group_Init_def group_held_def group_room_def NewBucketSet_def)
qed

text \<open>Source limits without address limits: when a source limiter refuses a message and no
  limits per address are configured, \<open>TakeMsg\<close> panics on the nil bucket set instead of returning
  the error.\<close>

theorem take_msg_nil_ip_panics:
  assumes "g_ip g = None" "g_source g = Some r"
    and "op_TakeContext mops (te_global env) (g_global g) = Return (gl, None)"
    and "op_Release mops gl = Return gl'"
    and "bs_TakeContext mops (te_source env) (te_now env) (te_use env) d r = Return (r', Some e)"
  shows "TakeMsg env a d g = nil_deref"
  using assms by (simp add: TakeMsg_def opt_Release_def nil_deref_def Let_def)

text \<open>Destination limits are not enforced: with one concurrent message per destination domain
  configured and nothing else, every number of messages is admitted to the same domain at the same
  time, because \<open>Init\<close> builds the destination buckets from the source limits.\<close>

theorem destination_limit_not_enforced:
  "\<exists>g. group_Init parse_dur [\<lparr>ch_Name = ''destination'', ch_Args = [''concurrency'', ''1'']\<rparr>] = Return (Inr g) \<and>
     (\<forall>env n d. \<exists>g'. take_dests env (replicate n d) g = Return (g', None))"
proof -
  let ?r = "NewBucketSet (Some (Return [])) minute 20010"
  let ?g = "\<lparr>g_global = [], g_ip = None, g_source = None, g_dest = Some ?r\<rparr>"
  have "group_Init parse_dur [\<lparr>ch_Name = ''destination'', ch_Args = [''concurrency'', ''1'']\<rparr>] = Return (Inr ?g)"
    by (simp add: group_Init_def init_child_def concurrencyCtor_def Atoi_def Let_def min_int64_def max_int64_def)
  moreover have "\<exists>g'. take_dests env (replicate n d) ?g = Return (g', None)" for env n d
    by (rule take_dests_unlimited [of ?g ?r]) (simp_all add: NewBucketSet_def)
  ultimately show ?thesis by blast
qed

end
