(* ===== verification/Dmarc.thy ===== *)
theory Dmarc
  imports Address Module_Api
begin

text \<open>
  Model of \<^verbatim>\<open>internal/dmarc\<close>: the lookup of the policy of a From domain, alignment of
  authenticated identifiers, and the verifier that turns both into an action on the message.

  Parameters, all from outside the repository: the public suffix list and the record parser of
  \<^verbatim>\<open>go-msgauth\<close>, \<open>strings.EqualFold\<close> on arbitrary strings, \<open>net/mail.ParseAddressList\<close>, the
  resolver, and \<open>rand.Int31n(100)\<close>. The goroutine of \<open>FetchRecord\<close> is run to its end; its only
  effect is the element it sends on the channel.
\<close>

section \<open>Data\<close>

datatype result_value = ResultEmpty | ResultNone | ResultPass | ResultFail | ResultTempError | ResultPermError | ResultOther string

fun rv_text :: "result_value \<Rightarrow> string" where
  "rv_text ResultEmpty = ''''"
| "rv_text ResultNone = ''none''"
| "rv_text ResultPass = ''pass''"
| "rv_text ResultFail = ''fail''"
| "rv_text ResultTempError = ''temperror''"
| "rv_text ResultPermError = ''permerror''"
| "rv_text (ResultOther s) = s"

record dkim_result =
  dkim_Value :: result_value
  dkim_Reason :: string
  dkim_Domain :: string
  dkim_Identifier :: string

record spf_result =
  spf_Value :: result_value
  spf_From :: string
  spf_Helo :: string

record dmarc_result =
  dm_Value :: result_value
  dm_Reason :: string
  dm_From :: string

datatype auth_result = DKIM dkim_result | SPF spf_result | DMARC dmarc_result | OtherResult string

datatype policy = PolicyNone | PolicyReject | PolicyQuarantine

record dmarc_record =
  DKIMStrict :: bool
  SPFStrict :: bool
  Percent :: "int option"
  rec_Policy :: policy
  SubdomainPolicy :: "policy option"

text \<open>Errors of a lookup: \<open>*net.DNSError\<close> with what \<open>IsNotFound\<close> and \<open>Temporary()\<close> say, the
  recovered panic, or any other error.\<close>

datatype rec_err = DNSError bool bool string | ErrPanic | RecErr goerr

fun rec_err_text :: "rec_err \<Rightarrow> string" where
  "rec_err_text (DNSError nf t msg) = msg"
| "rec_err_text ErrPanic = ''panic during policy fetch''"
| "rec_err_text (RecErr e) = Error e"

fun is_not_found :: "rec_err \<Rightarrow> bool" where
  "is_not_found (DNSError nf t msg) = nf"
| "is_not_found _ = False"

record dmarc_lib =
  EqualFold :: "string \<Rightarrow> string \<Rightarrow> bool"
  PublicSuffix :: "string \<Rightarrow> string"
  EffectiveTLDPlusOne :: "string \<Rightarrow> goerr + string"
  ParseRecord :: "string \<Rightarrow> goerr + dmarc_record"
  ParseAddressList :: "string \<Rightarrow> goerr + string list"
  FQDN :: "string \<Rightarrow> string"

type_synonym txt_lookup = "string \<Rightarrow> (string list \<times> rec_err option) outcome"

section \<open>The policy record\<close>

text \<open>A lookup error other than \<open>not found\<close> ends the search.\<close>

definition lookup_txts :: "txt_lookup \<Rightarrow> string \<Rightarrow> (rec_err + string list) outcome" where
  "lookup_txts lookup name =
     obind (lookup name) (\<lambda>(txts, err).
       case err of
         Some e \<Rightarrow> if is_not_found e then Return (Inr txts) else Return (Inl e)
       | None \<Rightarrow> Return (Inr txts))"

definition select_record ::
  "dmarc_lib \<Rightarrow> string \<Rightarrow> string list \<Rightarrow> string \<times> dmarc_record option \<times> rec_err option" where
  "select_record lib policyDomain txts =
     (case filter (\<lambda>txt. HasPrefix txt ''v=DMARC1'') txts of
        [r] \<Rightarrow> (case ParseRecord lib r of
                  Inl e \<Rightarrow> (policyDomain, None, Some (RecErr e))
                | Inr rec \<Rightarrow> (policyDomain, Some rec, None))
      | _ \<Rightarrow> ('''', None, None))"

definition FetchRecord ::
  "dmarc_lib \<Rightarrow> txt_lookup \<Rightarrow> string \<Rightarrow> (string \<times> dmarc_record option \<times> rec_err option) outcome" where
  "FetchRecord lib lookup fromDomain =
     obind (lookup_txts lookup (FQDN lib (''_dmarc.'' @ fromDomain))) (\<lambda>r.
       case r of
         Inl e \<Rightarrow> Return ('''', None, Some e)
       | Inr txts \<Rightarrow>
           if txts = [] then
             (case EffectiveTLDPlusOne lib fromDomain of
                Inl e \<Rightarrow> Return ('''', None, Some (RecErr e))
              | Inr orgDomain \<Rightarrow>
                  obind (lookup_txts lookup (FQDN lib (''_dmarc.'' @ orgDomain))) (\<lambda>r.
                    case r of
                      Inl e \<Rightarrow> Return ('''', None, Some e)
                    | Inr txts \<Rightarrow>
                        if txts = [] then Return ('''', None, None)
                        else Return (select_record lib orgDomain txts)))
           else Return (select_record lib fromDomain txts))"

section \<open>Alignment\<close>

definition isAligned :: "dmarc_lib \<Rightarrow> string \<Rightarrow> string \<Rightarrow> bool \<Rightarrow> bool" where
  "isAligned lib fromDomain authDomain strict =
     (if strict then EqualFold lib fromDomain authDomain
      else if EqualFold lib fromDomain (PublicSuffix lib fromDomain)
      then EqualFold lib fromDomain authDomain
      else case EffectiveTLDPlusOne lib fromDomain of
             Inl e \<Rightarrow> False
           | Inr orgDomainFrom \<Rightarrow>
               (case EffectiveTLDPlusOne lib authDomain of
                  Inl e \<Rightarrow> False
                | Inr authDomainFrom \<Rightarrow> EqualFold lib orgDomainFrom authDomainFrom))"

record eval_result =
  er_Authres :: dmarc_result
  er_SPFResult :: spf_result
  er_SPFAligned :: bool
  er_DKIMResult :: dkim_result
  er_DKIMAligned :: bool

definition no_spf :: spf_result where
  "no_spf = \<lparr>spf_Value = ResultEmpty, spf_From = '''', spf_Helo = ''''\<rparr>"

definition no_dkim :: dkim_result where
  "no_dkim = \<lparr>dkim_Value = ResultEmpty, dkim_Reason = '''', dkim_Domain = '''', dkim_Identifier = ''''\<rparr>"

record eval_state =
  es_spfAligned :: bool
  es_spfResult :: spf_result
  es_dkimAligned :: bool
  es_dkimResult :: dkim_result
  es_dkimPresent :: bool
  es_dkimTempFail :: bool

definition eval_init :: eval_state where
  "eval_init = \<lparr>es_spfAligned = False, es_spfResult = no_spf, es_dkimAligned = False,
     es_dkimResult = no_dkim, es_dkimPresent = False, es_dkimTempFail = False\<rparr>"

fun eval_step :: "dmarc_lib \<Rightarrow> string \<Rightarrow> dmarc_record \<Rightarrow> auth_result \<Rightarrow> eval_state \<Rightarrow> eval_state" where
  "eval_step lib fromDomain record' (DKIM r) st =
     (let st = st\<lparr>es_dkimPresent := True\<rparr>;
          st = (if dkim_Value (es_dkimResult st) = ResultEmpty then st\<lparr>es_dkimResult := r\<rparr> else st) in
      if isAligned lib fromDomain (dkim_Domain r) (DKIMStrict record') then
        let st = st\<lparr>es_dkimResult := r\<rparr> in
        (case dkim_Value r of
           ResultPass \<Rightarrow> st\<lparr>es_dkimAligned := True\<rparr>
         | ResultTempError \<Rightarrow> st\<lparr>es_dkimTempFail := True\<rparr>
         | _ \<Rightarrow> st)
      else st)"
| "eval_step lib fromDomain record' (SPF r) st =
     (let st = st\<lparr>es_spfResult := r\<rparr>;
          aligned = (if spf_From r = '''' then isAligned lib fromDomain (spf_Helo r) (SPFStrict record')
                     else isAligned lib fromDomain (spf_From r) (SPFStrict record')) in
      if aligned \<and> spf_Value r = ResultPass then st\<lparr>es_spfAligned := True\<rparr> else st)"
| "eval_step lib fromDomain record' _ st = st"

definition EvaluateAlignment ::
  "dmarc_lib \<Rightarrow> string \<Rightarrow> dmarc_record \<Rightarrow> auth_result list \<Rightarrow> eval_result" where
  "EvaluateAlignment lib fromDomain record' results =
     (let st = fold (eval_step lib fromDomain record') results eval_init;
          res = (\<lambda>v reason. \<lparr>er_Authres = \<lparr>dm_Value = v, dm_Reason = reason, dm_From = fromDomain\<rparr>,
                   er_SPFResult = es_spfResult st, er_SPFAligned = es_spfAligned st,
                   er_DKIMResult = es_dkimResult st, er_DKIMAligned = es_dkimAligned st\<rparr>) in
      if \<not> es_dkimPresent st \<or> spf_Value (es_spfResult st) = ResultEmpty
      then res ResultNone ''Not enough information (required checks are disabled)''
      else if es_dkimTempFail st \<and> \<not> es_dkimAligned st \<and> \<not> es_spfAligned st
      then res ResultTempError ''DKIM authentication temp error''
      else if \<not> es_dkimAligned st \<and> spf_Value (es_spfResult st) = ResultTempError
      then res ResultTempError ''SPF authentication temp error''
      else if es_dkimAligned st \<or> es_spfAligned st then res ResultPass ''''
      else res ResultFail ''No aligned identifiers'')"

section \<open>The From domain\<close>

fun extract_first :: "string \<Rightarrow> string list \<Rightarrow> goerr + string" where
  "extract_first firstFrom [] = Inr firstFrom"
| "extract_first firstFrom (v # vs) =
     (if firstFrom = '''' then extract_first v vs
      else Inl (errors_New ''dmarc: multiple From header fields are not allowed''))"

text \<open>\<open>froms\<close> are the values of the From fields of the header.\<close>

definition ExtractFromDomain :: "dmarc_lib \<Rightarrow> string list \<Rightarrow> goerr + string" where
  "ExtractFromDomain lib froms =
     (case extract_first '''' froms of
        Inl e \<Rightarrow> Inl e
      | Inr firstFrom \<Rightarrow>
          if firstFrom = '''' then Inl (errors_New ''dmarc: missing From header field'')
          else case ParseAddressList lib firstFrom of
            Inl e \<Rightarrow>
              Inl (errors_New (''dmarc: malformed From header field: '' @
                (if HasPrefix (Error e) ''mail: '' then drop 6 (Error e) else Error e)))
          | Inr [] \<Rightarrow> Inl (errors_New ''dmarc: missing address in From field'')
          | Inr [a] \<Rightarrow>
              (case Split a of
                 (_, _, Some e) \<Rightarrow> Inl (Wrapf ''dmarc: malformed From header field: '' e)
               | (_, domain, None) \<Rightarrow> Inr domain)
          | Inr _ \<Rightarrow> Inl (errors_New ''dmarc: multiple addresses in From field are not allowed''))"

section \<open>The verifier\<close>

record verify_data =
  policyDomain :: string
  fromDomain :: string
  vd_record :: "dmarc_record option"
  recordErr :: "rec_err option"

text \<open>The channel of capacity one.\<close>

record verifier =
  fetchCh :: "verify_data option"

definition NewVerifier :: verifier where
  "NewVerifier = \<lparr>fetchCh = None\<rparr>"

text \<open>What is sent on the channel; \<^term>\<open>None\<close> when the lookup never returns.\<close>

definition fetch_data :: "dmarc_lib \<Rightarrow> txt_lookup \<Rightarrow> string list \<Rightarrow> verify_data option" where
  "fetch_data lib lookup froms =
     (case ExtractFromDomain lib froms of
        Inl e \<Rightarrow> Some \<lparr>policyDomain = '''', fromDomain = '''', vd_record = None, recordErr = Some (RecErr e)\<rparr>
      | Inr from \<Rightarrow>
          (case FetchRecord lib lookup from of
             Return (pd, rec, err) \<Rightarrow> Some \<lparr>policyDomain = pd, fromDomain = from, vd_record = rec, recordErr = err\<rparr>
           | Panic m \<Rightarrow> Some \<lparr>policyDomain = '''', fromDomain = '''', vd_record = None, recordErr = Some ErrPanic\<rparr>
           | Blocked \<Rightarrow> None))"

text \<open>The send blocks when the channel already holds an element.\<close>

definition verifier_FetchRecord :: "dmarc_lib \<Rightarrow> txt_lookup \<Rightarrow> string list \<Rightarrow> verifier \<Rightarrow> verifier" where
  "verifier_FetchRecord lib lookup froms v =
     (if fetchCh v \<noteq> None then v else v\<lparr>fetchCh := fetch_data lib lookup froms\<rparr>)"

definition bare_result :: "dmarc_result \<Rightarrow> eval_result" where
  "bare_result r = \<lparr>er_Authres = r, er_SPFResult = no_spf, er_SPFAligned = False, er_DKIMResult = no_dkim,
     er_DKIMAligned = False\<rparr>"

text \<open>\<open>rand\<close> is the value of \<open>rand.Int31n(100)\<close>.\<close>

definition apply_data ::
  "dmarc_lib \<Rightarrow> int \<Rightarrow> auth_result list \<Rightarrow> verify_data \<Rightarrow> eval_result \<times> policy" where
  "apply_data lib rand authRes data =
     (case recordErr data of
        Some e \<Rightarrow>
          let result = \<lparr>dm_Value = ResultPermError, dm_Reason = ''Policy lookup failed: '' @ rec_err_text e,
                        dm_From = fromDomain data\<rparr> in
          (case e of
             DNSError nf temporary msg \<Rightarrow>
               if temporary then (bare_result (result\<lparr>dm_Value := ResultTempError\<rparr>), PolicyReject)
               else (bare_result result, PolicyNone)
           | _ \<Rightarrow> (bare_result result, PolicyNone))
      | None \<Rightarrow>
          (case vd_record data of
             None \<Rightarrow> (bare_result \<lparr>dm_Value = ResultNone, dm_Reason = '''', dm_From = fromDomain data\<rparr>, PolicyNone)
           | Some rec \<Rightarrow>
               let result = EvaluateAlignment lib (fromDomain data) rec authRes in
               if dm_Value (er_Authres result) = ResultPass \<or> dm_Value (er_Authres result) = ResultNone
               then (result, PolicyNone)
               else if (case Percent rec of Some p \<Rightarrow> p < rand | None \<Rightarrow> False) then (result, PolicyNone)
               else if \<not> EqualFold lib (policyDomain data) (fromDomain data) \<and> SubdomainPolicy rec \<noteq> None
               then (result, the (SubdomainPolicy rec))
               else (result, rec_Policy rec)))"

definition Apply ::
  "dmarc_lib \<Rightarrow> int \<Rightarrow> auth_result list \<Rightarrow> verifier \<Rightarrow> (verifier \<times> eval_result \<times> policy) outcome" where
  "Apply lib rand authRes v =
     (case fetchCh v of
        None \<Rightarrow> Blocked
      | Some data \<Rightarrow> Return (v\<lparr>fetchCh := None\<rparr>, apply_data lib rand authRes data))"

section \<open>Lemmas\<close>

definition dkim_aligned :: "dmarc_lib \<Rightarrow> string \<Rightarrow> dmarc_record \<Rightarrow> result_value \<Rightarrow> auth_result \<Rightarrow> bool" where
  "dkim_aligned lib fd rec v r \<longleftrightarrow>
     (case r of DKIM d \<Rightarrow> dkim_Value d = v \<and> isAligned lib fd (dkim_Domain d) (DKIMStrict rec) | _ \<Rightarrow> False)"

definition spf_aligned :: "dmarc_lib \<Rightarrow> string \<Rightarrow> dmarc_record \<Rightarrow> auth_result \<Rightarrow> bool" where
  "spf_aligned lib fd rec r \<longleftrightarrow>
     (case r of
        SPF s \<Rightarrow> spf_Value s = ResultPass \<and>
          isAligned lib fd (if spf_From s = '''' then spf_Helo s else spf_From s) (SPFStrict rec)
      | _ \<Rightarrow> False)"

definition is_dkim :: "auth_result \<Rightarrow> bool" where
  "is_dkim r \<longleftrightarrow> (case r of DKIM d \<Rightarrow> True | _ \<Rightarrow> False)"

text \<open>The value of the last SPF result.\<close>

fun last_spf :: "result_value \<Rightarrow> auth_result list \<Rightarrow> result_value" where
  "last_spf v [] = v"
| "last_spf v (SPF s # rs) = last_spf (spf_Value s) rs"
| "last_spf v (_ # rs) = last_spf v rs"

lemma eval_fold:
  "let st' = fold (eval_step lib fd rec) rs st in
     es_dkimPresent st' = (es_dkimPresent st \<or> list_ex is_dkim rs) \<and>
     es_dkimAligned st' = (es_dkimAligned st \<or> list_ex (dkim_aligned lib fd rec ResultPass) rs) \<and>
     es_dkimTempFail st' = (es_dkimTempFail st \<or> list_ex (dkim_aligned lib fd rec ResultTempError) rs) \<and>
     es_spfAligned st' = (es_spfAligned st \<or> list_ex (spf_aligned lib fd rec) rs) \<and>
     spf_Value (es_spfResult st') = last_spf (spf_Value (es_spfResult st)) rs"
proof (induction rs arbitrary: st)
  case Nil
  then show ?case by (simp add: Let_def)
next
  case (Cons r rs)
  from Cons.IH [of "eval_step lib fd rec r st"] show ?case
    by (cases r) (auto simp: Let_def dkim_aligned_def spf_aligned_def is_dkim_def split: result_value.split)
qed

lemma EvaluateAlignment_value:
  "dm_Value (er_Authres (EvaluateAlignment lib fd rec rs)) =
     (let dk = list_ex (dkim_aligned lib fd rec ResultPass) rs; sp = list_ex (spf_aligned lib fd rec) rs;
          spf = last_spf ResultEmpty rs in
      if \<not> list_ex is_dkim rs \<or> spf = ResultEmpty then ResultNone
      else if dk then ResultPass
      else if spf = ResultTempError then ResultTempError
      else if sp then ResultPass
      else if list_ex (dkim_aligned lib fd rec ResultTempError) rs then ResultTempError
      else ResultFail)"
  using eval_fold [of lib fd rec rs eval_init]
  by (simp add: EvaluateAlignment_def eval_init_def no_spf_def Let_def)

section \<open>Properties\<close>

text \<open>DMARC verdict: for every list of results, the verdict depends only on five facts about
  it, given here as a decision table. In particular a message passes exactly when DKIM and SPF were
  both checked and a passing DKIM signature is aligned, or a passing SPF identity is aligned and
  the last SPF result is not a temporary error.\<close>

theorem dmarc_verdict:
  "dm_Value (er_Authres (EvaluateAlignment lib fd rec rs)) =
     (let dk = list_ex (dkim_aligned lib fd rec ResultPass) rs; sp = list_ex (spf_aligned lib fd rec) rs;
          spf = last_spf ResultEmpty rs in
      if \<not> (list_ex is_dkim rs \<and> spf \<noteq> ResultEmpty) then ResultNone
      else if dk then ResultPass
      else if spf = ResultTempError then ResultTempError
      else if sp then ResultPass
      else if list_ex (dkim_aligned lib fd rec ResultTempError) rs then ResultTempError
      else ResultFail)"
  by (simp add: EvaluateAlignment_value Let_def)

text \<open>Sampling is off by one: of the 100 values \<open>rand.Int31n(100)\<close> can have, the published
  policy is applied for \<open>pct + 1\<close> of them (at most 100); with \<open>pct=0\<close> one failing message in a
  hundred is still rejected.\<close>

theorem dmarc_pct_off_by_one:
  assumes "recordErr data = None" "vd_record data = Some rec" "Percent rec = Some p" "0 \<le> p"
    and "dm_Value (er_Authres (EvaluateAlignment lib (fromDomain data) rec rs)) = ResultFail"
    and "SubdomainPolicy rec = None" "rec_Policy rec = PolicyReject"
  shows "card {r. 0 \<le> r \<and> r < 100 \<and> snd (apply_data lib r rs data) = PolicyReject} = nat (min 100 (p + 1))"
proof -
  have "{r. 0 \<le> r \<and> r < 100 \<and> snd (apply_data lib r rs data) = PolicyReject} = {0..<min 100 (p + 1)}"
    using assms by (auto simp: apply_data_def Let_def)
  then show ?thesis by simp
qed

end
