(* ===== verification/Check_Runner.thy ===== *)
theory Check_Runner
  imports Dmarc "HOL-Library.AList" "HOL-Library.Multiset"
begin

text \<open>
  Model of \<^verbatim>\<open>internal/msgpipeline/check_runner.go\<close>: groups of checks run on a message, their
  state objects, and the merging of their results.

  Checks and their state objects are numbers that stand for pointers. The functions behind
  \<open>module.Check\<close> and \<open>module.CheckState\<close> are the record \<open>check_env\<close>; they act on a state
  \<open>'c\<close> of their own. \<open>runAndMergeResults\<close> starts a goroutine for every check and merges results
  under locks; the model runs them one after the other in the order \<open>ce_sched\<close> chooses, and the
  decision is shown not to depend on it. A check that panics (\<^term>\<open>None\<close>) is recovered and
  contributes nothing.
\<close>

section \<open>Interfaces\<close>

record check_result =
  res_Reason :: "goerr option"
  res_Reject :: bool
  res_Quarantine :: bool
  res_AuthResult :: "auth_result list"
  res_Header :: header

definition empty_result :: check_result where
  "empty_result = \<lparr>res_Reason = None, res_Reject = False, res_Quarantine = False, res_AuthResult = [], res_Header = []\<rparr>"

record 'c check_env =
  ce_State :: "nat \<Rightarrow> msg_metadata \<Rightarrow> 'c \<Rightarrow> 'c \<times> (goerr + nat)"
  ce_Connection :: "nat \<Rightarrow> 'c \<Rightarrow> 'c \<times> check_result option"
  ce_Sender :: "nat \<Rightarrow> string \<Rightarrow> 'c \<Rightarrow> 'c \<times> check_result option"
  ce_Rcpt :: "nat \<Rightarrow> string \<Rightarrow> 'c \<Rightarrow> 'c \<times> check_result option"
  ce_Body :: "nat \<Rightarrow> header \<Rightarrow> buffer \<Rightarrow> 'c \<Rightarrow> 'c \<times> check_result option"
  ce_Close :: "nat \<Rightarrow> 'c \<Rightarrow> 'c"
  ce_sched :: "nat list \<Rightarrow> nat list"

text \<open>The fields of \<open>checkRunner\<close>. \<open>msgMeta\<close> is the object shared with the pipeline.\<close>

record check_runner =
  cr_msgMeta :: msg_metadata
  cr_mailFrom :: string
  cr_mailFromReceived :: bool
  cr_checkedRcpts :: "string list"
  cr_checkedRcptsPerCheck :: "(nat \<times> string) list"
  cr_doDMARC :: bool
  cr_didDMARCFetch :: bool
  cr_dmarcVerify :: verifier
  cr_states :: "(nat \<times> nat) list"
  cr_AuthResult :: "auth_result list"
  cr_Header :: header
  cr_Quarantine :: bool

definition newCheckRunner :: "msg_metadata \<Rightarrow> check_runner" where
  "newCheckRunner msgMeta = \<lparr>cr_msgMeta = msgMeta, cr_mailFrom = '''', cr_mailFromReceived = False,
     cr_checkedRcpts = [], cr_checkedRcptsPerCheck = [], cr_doDMARC = False, cr_didDMARCFetch = False,
     cr_dmarcVerify = NewVerifier, cr_states = [], cr_AuthResult = [], cr_Header = [], cr_Quarantine = False\<rparr>"

section \<open>Merging results\<close>

text \<open>\<open>textproto.Header.Add\<close> and \<open>AddRaw\<close> put a field on top.\<close>

definition AddRaw :: "string \<times> string \<Rightarrow> header \<Rightarrow> header" where
  "AddRaw f h = f # h"

text \<open>The two \<open>sync.Once\<close> variables: \<^term>\<open>None\<close> before the first call of \<open>Do\<close>.\<close>

record once_errs =
  oe_quarantine :: "goerr option option"
  oe_reject :: "goerr option option"

definition merge_result :: "check_result \<Rightarrow> check_runner \<times> once_errs \<Rightarrow> check_runner \<times> once_errs" where
  "merge_result r st =
     (case st of (cr, oe) \<Rightarrow>
        let cr = cr\<lparr>cr_AuthResult := cr_AuthResult cr @ res_AuthResult r,
                    cr_Header := fold AddRaw (res_Header r) (cr_Header cr)\<rparr> in
        if res_Quarantine r then
          (cr, if oe_quarantine oe = None then oe\<lparr>oe_quarantine := Some (res_Reason r)\<rparr> else oe)
        else if res_Reject r then
          (cr, if oe_reject oe = None then oe\<lparr>oe_reject := Some (res_Reason r)\<rparr> else oe)
        else (cr, oe))"

type_synonym 'c cstate = "check_runner \<times> 'c"

fun run_states ::
  "(nat \<Rightarrow> 'c cstate \<Rightarrow> 'c cstate \<times> check_result option) \<Rightarrow> nat list \<Rightarrow> 'c cstate \<times> once_errs \<Rightarrow> 'c cstate \<times> once_errs" where
  "run_states runner [] st = st"
| "run_states runner (s # ss) ((cr, c), oe) =
     (case runner s (cr, c) of
        ((cr, c), None) \<Rightarrow> run_states runner ss ((cr, c), oe)
      | ((cr, c), Some r) \<Rightarrow>
          (case merge_result r (cr, oe) of (cr, oe) \<Rightarrow> run_states runner ss ((cr, c), oe)))"

definition finish_merge :: "once_errs \<Rightarrow> check_runner \<Rightarrow> check_runner \<times> goerr option" where
  "finish_merge oe cr =
     (case oe_reject oe of
        Some (Some e) \<Rightarrow> (cr, Some e)
      | _ \<Rightarrow> (case oe_quarantine oe of
                Some (Some e) \<Rightarrow> (cr\<lparr>cr_Quarantine := True\<rparr>, None)
              | _ \<Rightarrow> (cr, None)))"

definition runAndMergeResults ::
  "'c check_env \<Rightarrow> (nat \<Rightarrow> 'c cstate \<Rightarrow> 'c cstate \<times> check_result option) \<Rightarrow> nat list \<Rightarrow> 'c cstate \<Rightarrow> 'c cstate \<times> goerr option" where
  "runAndMergeResults env runner states st =
     (case run_states runner (ce_sched env states) (st, \<lparr>oe_quarantine = None, oe_reject = None\<rparr>) of
        ((cr, c), oe) \<Rightarrow> (case finish_merge oe cr of (cr, e) \<Rightarrow> ((cr, c), e)))"

section \<open>Calls of the checks\<close>

definition lift_call ::
  "('c \<Rightarrow> 'c \<times> check_result option) \<Rightarrow> 'c cstate \<Rightarrow> 'c cstate \<times> check_result option" where
  "lift_call f st = (case st of (cr, c) \<Rightarrow> (case f c of (c, r) \<Rightarrow> ((cr, c), r)))"

text \<open>\<open>CheckRcpt\<close> with the guard against repeated calls.\<close>

definition call_rcpt ::
  "'c check_env \<Rightarrow> string \<Rightarrow> nat \<Rightarrow> 'c cstate \<Rightarrow> 'c cstate \<times> check_result option" where
  "call_rcpt env rcpt s st =
     (case st of (cr, c) \<Rightarrow>
        if (s, rcpt) \<in> set (cr_checkedRcptsPerCheck cr) then ((cr, c), Some empty_result)
        else lift_call (ce_Rcpt env s rcpt)
               (cr\<lparr>cr_checkedRcptsPerCheck := (s, rcpt) # cr_checkedRcptsPerCheck cr\<rparr>, c))"

fun closeStates :: "'c check_env \<Rightarrow> nat list \<Rightarrow> 'c \<Rightarrow> 'c" where
  "closeStates env [] c = c"
| "closeStates env (s # ss) c = closeStates env ss (ce_Close env s c)"

text \<open>The loop that looks up or creates the states: all states, new states, and the map of new
  ones (later entries first, so that they hide earlier ones for the same check).\<close>

fun init_states ::
  "'c check_env \<Rightarrow> check_runner \<Rightarrow> nat list \<Rightarrow> nat list \<times> nat list \<times> (nat \<times> nat) list \<Rightarrow> 'c \<Rightarrow>
   'c \<times> (goerr + nat list \<times> nat list \<times> (nat \<times> nat) list)" where
  "init_states env cr [] acc c = (c, Inr acc)"
| "init_states env cr (check # checks) (states, newStates, newMap) c =
     (case map_of (cr_states cr) check of
        Some s \<Rightarrow> init_states env cr checks (states @ [s], newStates, newMap) c
      | None \<Rightarrow>
          (case ce_State env check (cr_msgMeta cr) c of
             (c, Inl err) \<Rightarrow> (closeStates env states c, Inl err)
           | (c, Inr s) \<Rightarrow> init_states env cr checks (states @ [s], newStates @ [s], (check, s) # newMap) c))"

text \<open>The replay of the recipients seen so far.\<close>

fun replay_rcpts ::
  "'c check_env \<Rightarrow> nat list \<Rightarrow> string list \<Rightarrow> 'c cstate \<Rightarrow> 'c cstate \<times> goerr option" where
  "replay_rcpts env states [] st = (st, None)"
| "replay_rcpts env states (rcpt # rcpts) st =
     (case runAndMergeResults env (call_rcpt env rcpt) states st of
        (st, Some err) \<Rightarrow> (st, Some err)
      | (st, None) \<Rightarrow> replay_rcpts env states rcpts st)"

definition replay_sender ::
  "'c check_env \<Rightarrow> nat list \<Rightarrow> 'c cstate \<Rightarrow> 'c cstate \<times> goerr option" where
  "replay_sender env newStates st =
     (if \<not> cr_mailFromReceived (fst st) then (st, None)
      else case runAndMergeResults env (\<lambda>s. lift_call (ce_Connection env s)) newStates st of
        (st, Some err) \<Rightarrow> (st, Some err)
      | (st, None) \<Rightarrow>
          runAndMergeResults env (\<lambda>s st. lift_call (ce_Sender env s (cr_mailFrom (fst st))) st) newStates st)"

definition checkStates ::
  "'c check_env \<Rightarrow> nat list \<Rightarrow> 'c cstate \<Rightarrow> 'c cstate \<times> (goerr + nat list)" where
  "checkStates env checks st =
     (case st of (cr, c) \<Rightarrow>
        (case init_states env cr checks ([], [], []) c of
           (c, Inl err) \<Rightarrow> ((cr, c), Inl err)
         | (c, Inr (states, newStates, newMap)) \<Rightarrow>
             if newStates = [] then ((cr, c), Inr states)
             else case replay_sender env newStates (cr, c) of
               ((cr, c), Some err) \<Rightarrow> ((cr, closeStates env states c), Inl err)
             | ((cr, c), None) \<Rightarrow>
                 (case replay_rcpts env states (cr_checkedRcpts cr) (cr, c) of
                    ((cr, c), Some err) \<Rightarrow> ((cr, closeStates env states c), Inl err)
                  | ((cr, c), None) \<Rightarrow> ((cr\<lparr>cr_states := newMap @ cr_states cr\<rparr>, c), Inr states))))"

definition checkConnSender ::
  "'c check_env \<Rightarrow> nat list \<Rightarrow> string \<Rightarrow> 'c cstate \<Rightarrow> 'c cstate \<times> goerr option" where
  "checkConnSender env checks mailFrom st =
     (case st of (cr, c) \<Rightarrow>
        (case checkStates env checks (cr\<lparr>cr_mailFrom := mailFrom, cr_mailFromReceived := True\<rparr>, c) of
           (st, Inl err) \<Rightarrow> (st, Some err)
         | (st, Inr states) \<Rightarrow> (st, None)))"

definition checkRcpt ::
  "'c check_env \<Rightarrow> nat list \<Rightarrow> string \<Rightarrow> 'c cstate \<Rightarrow> 'c cstate \<times> goerr option" where
  "checkRcpt env checks rcptTo st =
     (case checkStates env checks st of
        (st, Inl err) \<Rightarrow> (st, Some err)
      | (st, Inr states) \<Rightarrow>
          (case runAndMergeResults env (call_rcpt env rcptTo) states st of
             ((cr, c), err) \<Rightarrow> ((cr\<lparr>cr_checkedRcpts := cr_checkedRcpts cr @ [rcptTo]\<rparr>, c), err)))"

text \<open>The keys of a header are stored in canonical form.\<close>

definition header_values :: "string \<Rightarrow> header \<Rightarrow> string list" where
  "header_values k h = map snd (filter (\<lambda>(k', v). k' = k) h)"

definition checkBody ::
  "'c check_env \<Rightarrow> dmarc_lib \<Rightarrow> txt_lookup \<Rightarrow> nat list \<Rightarrow> header \<Rightarrow> buffer \<Rightarrow> 'c cstate \<Rightarrow> 'c cstate \<times> goerr option" where
  "checkBody env lib lookup checks hdr body st =
     (case checkStates env checks st of
        (st, Inl err) \<Rightarrow> (st, Some err)
      | ((cr, c), Inr states) \<Rightarrow>
          let cr = (if cr_doDMARC cr \<and> \<not> cr_didDMARCFetch cr
                    then cr\<lparr>cr_dmarcVerify := verifier_FetchRecord lib lookup (header_values ''From'' hdr) (cr_dmarcVerify cr),
                            cr_didDMARCFetch := True\<rparr>
                    else cr) in
          runAndMergeResults env (\<lambda>s. lift_call (ce_Body env s hdr body)) states (cr, c))"

section \<open>Applying results\<close>

definition dmarc_reject :: "eval_result \<Rightarrow> goerr" where
  "dmarc_reject res =
     (let temp = dm_Value (er_Authres res) = ResultTempError in
      SMTPError \<lparr>Code = (if temp then 450 else 550), EnhancedCode = (if temp then (4, 7, 1) else (5, 7, 1)),
        Message = ''DMARC check failed'', CheckName = ''dmarc'', TargetName = '''', ModifierName = '''', Reason = '''',
        Misc = [''reason'' \<mapsto> FStr (dm_Reason (er_Authres res)),
                ''dkim_res'' \<mapsto> FOther (rv_text (dkim_Value (er_DKIMResult res))),
                ''spf_res'' \<mapsto> FOther (rv_text (spf_Value (er_SPFResult res))),
                ''dkim_domain'' \<mapsto> FStr (dkim_Domain (er_DKIMResult res)),
                ''spf_from'' \<mapsto> FStr (spf_From (er_SPFResult res))]\<rparr> None)"

text \<open>\<open>format\<close> is \<open>authres.Format\<close> with the host name, \<open>rand\<close> the random number of \<open>Apply\<close>.\<close>

definition add_results :: "(auth_result list \<Rightarrow> string) \<Rightarrow> header \<Rightarrow> check_runner \<Rightarrow> header" where
  "add_results format hdr cr =
     fold AddRaw (cr_Header cr)
       (if cr_AuthResult cr \<noteq> [] then AddRaw (''Authentication-Results'', format (cr_AuthResult cr)) hdr else hdr)"

definition applyResults ::
  "dmarc_lib \<Rightarrow> int \<Rightarrow> (auth_result list \<Rightarrow> string) \<Rightarrow> header \<Rightarrow> check_runner \<Rightarrow> (check_runner \<times> header \<times> goerr option) outcome" where
  "applyResults lib rand format hdr cr =
     (let cr = (if cr_Quarantine cr then cr\<lparr>cr_msgMeta := (cr_msgMeta cr)\<lparr>Quarantine := True\<rparr>\<rparr> else cr) in
      if \<not> cr_doDMARC cr then Return (cr, add_results format hdr cr, None)
      else obind (Apply lib rand (cr_AuthResult cr) (cr_dmarcVerify cr)) (\<lambda>(v, res, policy).
        let cr = cr\<lparr>cr_dmarcVerify := v, cr_AuthResult := cr_AuthResult cr @ [DMARC (er_Authres res)]\<rparr> in
        case policy of
          PolicyReject \<Rightarrow> Return (cr, hdr, Some (dmarc_reject res))
        | PolicyQuarantine \<Rightarrow>
            let cr = cr\<lparr>cr_msgMeta := (cr_msgMeta cr)\<lparr>Quarantine := True\<rparr>\<rparr> in
            Return (cr, add_results format hdr cr, None)
        | PolicyNone \<Rightarrow> Return (cr, add_results format hdr cr, None)))"

definition cr_close :: "'c check_env \<Rightarrow> check_runner \<Rightarrow> 'c \<Rightarrow> 'c" where
  "cr_close env cr c = closeStates env (map snd (AList.clearjunk (cr_states cr))) c"

section \<open>Invariants of the check states\<close>

text \<open>
  A relation between the recorded recipients and the state of the checks that every single call
  keeps is kept by every operation of the runner. What the calls of \<open>CheckBody\<close> need not keep is kept by the other
  operations.
\<close>

locale check_calls =
  fixes env :: "'c check_env" and J :: "(nat \<times> string) list \<Rightarrow> 'c \<Rightarrow> bool"
  assumes J_State: "J p c \<Longrightarrow> J p (fst (ce_State env k m c))"
    and J_Connection: "J p c \<Longrightarrow> J p (fst (ce_Connection env s c))"
    and J_Sender: "J p c \<Longrightarrow> J p (fst (ce_Sender env s f c))"
    and J_Rcpt: "J p c \<Longrightarrow> (s, r) \<notin> set p \<Longrightarrow> J ((s, r) # p) (fst (ce_Rcpt env s r c))"
    and J_Close: "J p c \<Longrightarrow> J p (ce_Close env s c)"
begin

abbreviation JS :: "'c cstate \<Rightarrow> bool" where
  "JS st \<equiv> J (cr_checkedRcptsPerCheck (fst st)) (snd st)"

lemma merge_keeps [simp]:
  "cr_checkedRcptsPerCheck (fst (merge_result r (cr, oe))) = cr_checkedRcptsPerCheck cr"
  by (simp add: merge_result_def Let_def)

lemma finish_keeps [simp]:
  "cr_checkedRcptsPerCheck (fst (finish_merge oe cr)) = cr_checkedRcptsPerCheck cr"
  by (simp add: finish_merge_def split: option.split)

lemma run_states_J:
  assumes "\<And>s st. JS st \<Longrightarrow> JS (fst (runner s st))" "JS (fst st)"
  shows "JS (fst (run_states runner ss st))"
  using assms(2)
proof (induction ss arbitrary: st)
  case (Cons s ss)
  obtain cr c oe where st: "st = ((cr, c), oe)" by (metis surj_pair)
  obtain cr1 c1 r where r: "runner s (cr, c) = ((cr1, c1), r)" by (metis surj_pair)
  with assms(1) [of "(cr, c)" s] Cons.prems st have j: "J (cr_checkedRcptsPerCheck cr1) c1" by simp
  show ?case
  proof (cases r)
    case None
    with Cons.IH [of "((cr1, c1), oe)"] j st r show ?thesis by simp
  next
    case (Some x)
    obtain cr2 oe2 where m: "merge_result x (cr1, oe) = (cr2, oe2)" by fastforce
    with merge_keeps [of x cr1 oe] j have "J (cr_checkedRcptsPerCheck cr2) c1" by simp
    with Cons.IH [of "((cr2, c1), oe2)"] st r Some m show ?thesis by simp
  qed
qed simp

lemma run_merge_J:
  assumes "\<And>s st. JS st \<Longrightarrow> JS (fst (runner s st))" "JS st"
  shows "JS (fst (runAndMergeResults env runner ss st))"
  using run_states_J [of runner "(st, \<lparr>oe_quarantine = None, oe_reject = None\<rparr>)" "ce_sched env ss"] assms
  by (auto simp: runAndMergeResults_def split: prod.split) (metis finish_keeps fst_conv)

lemma call_rcpt_J: "JS st \<Longrightarrow> JS (fst (call_rcpt env r s st))"
  using J_Rcpt by (auto simp: call_rcpt_def lift_call_def split: prod.split) (metis fst_conv)

lemma closeStates_J: "J p c \<Longrightarrow> J p (closeStates env ss c)"
  by (induction ss arbitrary: c) (auto intro: J_Close)

lemma init_states_J: "J p c \<Longrightarrow> J p (fst (init_states env cr ks acc c))"
proof (induction ks arbitrary: acc c)
  case (Cons k ks)
  obtain a n m where acc: "acc = (a, n, m)" by (metis surj_pair)
  have "J p (fst (ce_State env k (cr_msgMeta cr) c))" using Cons.prems by (rule J_State)
  with Cons acc show ?case
    by (auto simp: closeStates_J split: option.split prod.split sum.split)
qed simp

lemma replay_rcpts_J: "JS st \<Longrightarrow> JS (fst (replay_rcpts env ss rs st))"
proof (induction rs arbitrary: st)
  case (Cons r rs)
  have "JS (fst (runAndMergeResults env (call_rcpt env r) ss st))"
    using Cons.prems by (intro run_merge_J call_rcpt_J)
  with Cons.IH show ?case by (auto split: prod.split option.split)
qed simp

lemma lift_J: "(\<And>c p. J p c \<Longrightarrow> J p (fst (f c))) \<Longrightarrow> JS st \<Longrightarrow> JS (fst (lift_call f st))"
  by (auto simp: lift_call_def split: prod.split) (metis fst_conv)

lemma replay_sender_J: "JS st \<Longrightarrow> JS (fst (replay_sender env ss st))"
proof -
  assume j: "JS st"
  have a: "JS (fst (runAndMergeResults env (\<lambda>s. lift_call (ce_Connection env s)) ss st))"
    using j by (intro run_merge_J lift_J J_Connection)
  have "JS st' \<Longrightarrow> JS (fst (runAndMergeResults env (\<lambda>s st. lift_call (ce_Sender env s (cr_mailFrom (fst st))) st) ss st'))" for st'
    by (intro run_merge_J lift_J J_Sender)
  with a j show ?thesis by (auto simp: replay_sender_def split: prod.split option.split)
qed

lemma checkStates_J: "JS st \<Longrightarrow> JS (fst (checkStates env ks st))"
proof -
  assume j: "JS st"
  obtain cr c where st: "st = (cr, c)" by fastforce
  obtain c1 r where i: "init_states env cr ks ([], [], []) c = (c1, r)" by fastforce
  with init_states_J [of "cr_checkedRcptsPerCheck cr" c cr ks "([], [], [])"] j st
  have j1: "JS (cr, c1)" by simp
  show ?thesis
  proof (cases r)
    case (Inl e)
    with i st j1 show ?thesis by (simp add: checkStates_def)
  next
    case (Inr x)
    obtain a n m where x: "x = (a, n, m)" by (metis surj_pair)
    obtain st2 e2 where s: "replay_sender env n (cr, c1) = (st2, e2)" by fastforce
    with replay_sender_J [OF j1, of n] have j2: "JS st2" by simp
    obtain st3 e3 where p: "replay_rcpts env a (cr_checkedRcpts (fst st2)) st2 = (st3, e3)" by fastforce
    with replay_rcpts_J [OF j2, of a "cr_checkedRcpts (fst st2)"] have j3: "JS st3" by simp
    show ?thesis
      using i st Inr x s p j1 j2 j3
      by (auto simp: checkStates_def closeStates_J split: prod.split option.split)
  qed
qed

lemma checkConnSender_J: "JS st \<Longrightarrow> JS (fst (checkConnSender env ks f st))"
  using checkStates_J [of "((fst st)\<lparr>cr_mailFrom := f, cr_mailFromReceived := True\<rparr>, snd st)" ks]
  by (auto simp: checkConnSender_def split: prod.split sum.split)

lemma checkRcpt_J: "JS st \<Longrightarrow> JS (fst (checkRcpt env ks r st))"
proof -
  assume j: "JS st"
  obtain st1 x where s: "checkStates env ks st = (st1, x)" by fastforce
  with checkStates_J [OF j, of ks] have j1: "JS st1" by simp
  have "JS (fst (runAndMergeResults env (call_rcpt env r) a st1))" for a
    using j1 by (intro run_merge_J call_rcpt_J)
  with s j1 show ?thesis by (auto simp: checkRcpt_def split: prod.split sum.split) (metis fst_conv snd_conv)
qed

end

locale check_invariant = check_calls +
  assumes J_Body: "J p c \<Longrightarrow> J p (fst (ce_Body env s h b c))"
begin

lemma checkBody_J: "JS st \<Longrightarrow> JS (fst (checkBody env lib lookup ks h b st))"
proof -
  assume j: "JS st"
  obtain cr c x where s: "checkStates env ks st = ((cr, c), x)" by (metis surj_pair)
  with checkStates_J [OF j, of ks] have j1: "JS (cr, c)" by simp
  have r: "JS (cr', c) \<Longrightarrow> JS (fst (runAndMergeResults env (\<lambda>s. lift_call (ce_Body env s h b)) a (cr', c)))" for cr' a
    by (intro run_merge_J lift_J J_Body)
  with s j1 show ?thesis by (auto simp: checkBody_def Let_def split: sum.split)
qed

end

section \<open>Calls of \<open>CheckRcpt\<close>\<close>

text \<open>Checks that record the calls of \<open>CheckRcpt\<close> next to their own state.\<close>

definition traced_checks :: "'c check_env \<Rightarrow> ('c \<times> (nat \<times> string) list) check_env" where
  "traced_checks env = \<lparr>
     ce_State = (\<lambda>k m (c, l). case ce_State env k m c of (c, r) \<Rightarrow> ((c, l), r)),
     ce_Connection = (\<lambda>s (c, l). case ce_Connection env s c of (c, r) \<Rightarrow> ((c, l), r)),
     ce_Sender = (\<lambda>s f (c, l). case ce_Sender env s f c of (c, r) \<Rightarrow> ((c, l), r)),
     ce_Rcpt = (\<lambda>s r (c, l). case ce_Rcpt env s r c of (c, x) \<Rightarrow> ((c, (s, r) # l), x)),
     ce_Body = (\<lambda>s h b (c, l). case ce_Body env s h b c of (c, r) \<Rightarrow> ((c, l), r)),
     ce_Close = (\<lambda>s (c, l). (ce_Close env s c, l)),
     ce_sched = ce_sched env\<rparr>"

definition recorded :: "(nat \<times> string) list \<Rightarrow> 'c \<times> (nat \<times> string) list \<Rightarrow> bool" where
  "recorded p c \<longleftrightarrow> snd c = p \<and> distinct p"

interpretation traced_checks: check_invariant "traced_checks env" recorded for env
  by unfold_locales (auto simp: traced_checks_def recorded_def split: prod.split)

text \<open>The operations of the runner, in any order.\<close>

datatype cr_op =
    RunSender "nat list" string
  | RunRcpt "nat list" string
  | RunBody "nat list" header buffer

fun run_op :: "'c check_env \<Rightarrow> dmarc_lib \<Rightarrow> txt_lookup \<Rightarrow> cr_op \<Rightarrow> 'c cstate \<Rightarrow> 'c cstate" where
  "run_op env lib lookup (RunSender ks f) st = fst (checkConnSender env ks f st)"
| "run_op env lib lookup (RunRcpt ks r) st = fst (checkRcpt env ks r st)"
| "run_op env lib lookup (RunBody ks h b) st = fst (checkBody env lib lookup ks h b st)"

lemma run_ops_recorded:
  "recorded (cr_checkedRcptsPerCheck (fst st)) (snd st) \<Longrightarrow>
   recorded (cr_checkedRcptsPerCheck (fst (fold (run_op (traced_checks env) lib lookup) ops st)))
     (snd (fold (run_op (traced_checks env) lib lookup) ops st))"
proof (induction ops arbitrary: st)
  case (Cons x ops)
  have "recorded (cr_checkedRcptsPerCheck (fst (run_op (traced_checks env) lib lookup x st)))
      (snd (run_op (traced_checks env) lib lookup x st))"
    using Cons.prems
    by (cases x) (simp_all add: traced_checks.checkConnSender_J traced_checks.checkRcpt_J traced_checks.checkBody_J)
  from Cons.IH [OF this] show ?case by simp
qed simp

section \<open>Lemmas on merging\<close>

lemma run_states_results:
  "run_states (\<lambda>s st. (st, Some (res s))) ss ((cr, c), oe) =
     (case fold merge_result (map res ss) (cr, oe) of (cr, oe) \<Rightarrow> ((cr, c), oe))"
  by (induction ss arbitrary: cr oe) (auto split: prod.split)

text \<open>Which decision a result asks for; \<open>Quarantine\<close> hides \<open>Reject\<close>.\<close>

definition asks_reject :: "check_result \<Rightarrow> bool" where
  "asks_reject r \<longleftrightarrow> res_Reject r \<and> \<not> res_Quarantine r"

definition has_reason :: "check_result \<Rightarrow> bool" where
  "has_reason r \<longleftrightarrow> res_Reject r \<or> res_Quarantine r \<longrightarrow> res_Reason r \<noteq> None"

lemma fold_merge:
  assumes "list_all has_reason rs"
    and "oe_reject oe \<noteq> Some None" "oe_quarantine oe \<noteq> Some None"
  shows "let (cr', oe') = fold merge_result rs (cr, oe) in
    oe_reject oe' \<noteq> Some None \<and> oe_quarantine oe' \<noteq> Some None \<and>
    (oe_reject oe' \<noteq> None \<longleftrightarrow> oe_reject oe \<noteq> None \<or> list_ex asks_reject rs) \<and>
    (oe_quarantine oe' \<noteq> None \<longleftrightarrow> oe_quarantine oe \<noteq> None \<or> list_ex res_Quarantine rs) \<and>
    cr_Quarantine cr' = cr_Quarantine cr \<and>
    cr_AuthResult cr' = cr_AuthResult cr @ concat (map res_AuthResult rs)"
  using assms
proof (induction rs arbitrary: cr oe)
  case (Cons r rs)
  obtain cr1 oe1 where m: "merge_result r (cr, oe) = (cr1, oe1)" by fastforce
  have h: "has_reason r" using Cons.prems(1) by simp
  have *: "oe_reject oe1 \<noteq> Some None" "oe_quarantine oe1 \<noteq> Some None"
    "oe_reject oe1 \<noteq> None \<longleftrightarrow> oe_reject oe \<noteq> None \<or> asks_reject r"
    "oe_quarantine oe1 \<noteq> None \<longleftrightarrow> oe_quarantine oe \<noteq> None \<or> res_Quarantine r"
    "cr_Quarantine cr1 = cr_Quarantine cr" "cr_AuthResult cr1 = cr_AuthResult cr @ res_AuthResult r"
    using m h Cons.prems(2,3)
    by (auto simp: merge_result_def Let_def has_reason_def asks_reject_def split: if_splits)
  from Cons.IH [of oe1 cr1] Cons.prems(1) * m show ?case
    by (simp add: case_prod_beta Let_def)
qed simp

lemma finish_merge_decision:
  assumes "oe_reject oe \<noteq> Some None" "oe_quarantine oe \<noteq> Some None"
  shows "snd (finish_merge oe cr) \<noteq> None \<longleftrightarrow> oe_reject oe \<noteq> None"
    and "oe_reject oe = None \<Longrightarrow>
      cr_Quarantine (fst (finish_merge oe cr)) \<longleftrightarrow> cr_Quarantine cr \<or> oe_quarantine oe \<noteq> None"
  using assms by (auto simp: finish_merge_def split: option.split)

section \<open>Lemmas on the states of a group\<close>

lemma merge_result_frame:
  "merge_result r (cr, oe) = (cr', oe') \<Longrightarrow>
   cr_states cr' = cr_states cr \<and> cr_checkedRcptsPerCheck cr' = cr_checkedRcptsPerCheck cr"
  by (auto simp: merge_result_def Let_def split: if_splits)

lemma finish_merge_frame:
  "finish_merge oe cr = (cr', e) \<Longrightarrow>
   cr_states cr' = cr_states cr \<and> cr_checkedRcptsPerCheck cr' = cr_checkedRcptsPerCheck cr"
  by (auto simp: finish_merge_def split: option.splits)

lemma run_states_cr_states:
  assumes "\<And>s st. cr_states (fst (fst (runner s st))) = cr_states (fst st)"
  shows "cr_states (fst (fst (run_states runner ss st))) = cr_states (fst (fst st))"
proof (induction ss arbitrary: st)
  case (Cons s ss)
  obtain cr c oe where st: "st = ((cr, c), oe)" by (metis surj_pair)
  obtain cr1 c1 x where r: "runner s (cr, c) = ((cr1, c1), x)" by (metis surj_pair)
  with assms [of s "(cr, c)"] have e: "cr_states cr1 = cr_states cr" by simp
  show ?case
  proof (cases x)
    case (Some y)
    obtain cr2 oe2 where m: "merge_result y (cr1, oe) = (cr2, oe2)" by fastforce
    from Cons.IH [of "((cr2, c1), oe2)"] merge_result_frame [OF m] st r Some m e show ?thesis by simp
  qed (use Cons.IH [of "((cr1, c1), oe)"] st r e in simp)
qed simp

lemma run_merge_cr_states:
  assumes "\<And>s st. cr_states (fst (fst (runner s st))) = cr_states (fst st)"
  shows "cr_states (fst (fst (runAndMergeResults env runner ss st))) = cr_states (fst st)"
proof -
  let ?st = "(st, \<lparr>oe_quarantine = None, oe_reject = None\<rparr>)"
  have "cr_states (fst (fst (run_states runner (ce_sched env ss) ?st))) = cr_states (fst st)"
    using run_states_cr_states [of runner "ce_sched env ss" ?st] assms by simp
  then show ?thesis
    by (auto simp: runAndMergeResults_def split: prod.split dest: finish_merge_frame)
qed

lemma call_cr_states [simp]:
  "cr_states (fst (fst (lift_call f st))) = cr_states (fst st)"
  "cr_states (fst (fst (call_rcpt env r s st))) = cr_states (fst st)"
  by (auto simp: call_rcpt_def lift_call_def split: prod.split)

lemma replay_rcpts_cr_states: "cr_states (fst (fst (replay_rcpts env ss rs st))) = cr_states (fst st)"
proof (induction rs arbitrary: st)
  case (Cons r rs)
  have "cr_states (fst (fst (runAndMergeResults env (call_rcpt env r) ss st))) = cr_states (fst st)"
    by (rule run_merge_cr_states) simp
  with Cons.IH show ?case by (auto split: prod.split option.split)
qed simp

lemma replay_sender_cr_states: "cr_states (fst (fst (replay_sender env ss st))) = cr_states (fst st)"
proof -
  have "cr_states (fst (fst (runAndMergeResults env (\<lambda>s. lift_call (ce_Connection env s)) ss st))) = cr_states (fst st)"
    "cr_states (fst (fst (runAndMergeResults env (\<lambda>s st. lift_call (ce_Sender env s (cr_mailFrom (fst st))) st) ss st')))
      = cr_states (fst st')" for st'
    by (rule run_merge_cr_states; simp)+
  then show ?thesis by (auto simp: replay_sender_def split: prod.split option.split)
qed

text \<open>Every check handled so far has a state, and only checks without one get a new one.\<close>

definition registered :: "check_runner \<Rightarrow> nat set \<Rightarrow> nat list \<times> nat list \<times> (nat \<times> nat) list \<Rightarrow> bool" where
  "registered cr K acc = (case acc of (a, n, m) \<Rightarrow>
     (\<forall>k \<in> K. \<exists>s \<in> set a. map_of (m @ cr_states cr) k = Some s) \<and>
     (\<forall>k. map_of m k \<noteq> None \<longrightarrow> map_of (cr_states cr) k = None) \<and> (n = [] \<longleftrightarrow> m = []))"

lemma init_states_registered:
  assumes "init_states env cr ks acc c = (c', Inr acc')" "registered cr K acc"
  shows "registered cr (K \<union> set ks) acc'"
  using assms
proof (induction ks arbitrary: acc c K)
  case (Cons k ks)
  obtain a n m where acc: "acc = (a, n, m)" by (metis surj_pair)
  show ?case
  proof (cases "map_of (cr_states cr) k")
    case None
    with Cons.prems(1) acc obtain c1 s where
      s: "init_states env cr ks (a @ [s], n @ [s], (k, s) # m) c1 = (c', Inr acc')"
      by (auto split: prod.splits sum.splits)
    have "registered cr (insert k K) (a @ [s], n @ [s], (k, s) # m)"
      using Cons.prems(2) acc None by (auto simp: registered_def)
    from Cons.IH [OF s this] show ?thesis by simp
  next
    case (Some s)
    then have "registered cr (insert k K) (a @ [s], n, m)"
      using Cons.prems(2) acc by (auto simp: registered_def map_add_def split: option.split)
    with Cons.IH [of "(a @ [s], n, m)" c "insert k K"] Cons.prems(1) acc Some show ?thesis by simp
  qed
qed simp

lemma checkStates_registered:
  assumes "checkStates env ks st = ((cr', c'), Inr states)"
  shows "\<forall>k \<in> set ks. \<exists>s \<in> set states. map_of (cr_states cr') k = Some s"
proof -
  obtain cr c where st: "st = (cr, c)" by fastforce
  from assms st obtain c1 n m where i: "init_states env cr ks ([], [], []) c = (c1, Inr (states, n, m))"
    and *: "cr_states cr' = (if n = [] then cr_states cr else m @ cr_states cr)"
    using replay_sender_cr_states [of env] replay_rcpts_cr_states [of env]
    by (auto simp: checkStates_def split: prod.splits sum.splits option.splits if_splits) (metis fst_conv)+
  have "registered cr {} ([], [], [])" by (simp add: registered_def)
  from init_states_registered [OF i this] * show ?thesis by (auto simp: registered_def split: if_splits)
qed

lemma run_states_covers:
  assumes "run_states (call_rcpt env r) ss ((cr, c), oe) = ((cr', c'), oe')"
  shows "set (cr_checkedRcptsPerCheck cr) \<union> {(s, r) | s. s \<in> set ss} \<subseteq> set (cr_checkedRcptsPerCheck cr')"
  using assms
proof (induction ss arbitrary: cr c oe)
  case (Cons s ss)
  obtain cr1 c1 x where r: "call_rcpt env r s (cr, c) = ((cr1, c1), x)" by (metis surj_pair)
  then have 1: "insert (s, r) (set (cr_checkedRcptsPerCheck cr)) \<subseteq> set (cr_checkedRcptsPerCheck cr1)"
    by (auto simp: call_rcpt_def lift_call_def split: prod.splits if_splits)
  show ?case
  proof (cases x)
    case None
    with Cons r have "set (cr_checkedRcptsPerCheck cr1) \<union> {(s, r) | s. s \<in> set ss} \<subseteq> set (cr_checkedRcptsPerCheck cr')"
      by simp
    with 1 show ?thesis by auto
  next
    case (Some y)
    obtain cr2 oe2 where m: "merge_result y (cr1, oe) = (cr2, oe2)" by fastforce
    with Cons r Some have "set (cr_checkedRcptsPerCheck cr2) \<union> {(s, r) | s. s \<in> set ss} \<subseteq> set (cr_checkedRcptsPerCheck cr')"
      by simp
    with 1 merge_result_frame [OF m] show ?thesis by auto
  qed
qed simp

lemma run_merge_covers:
  assumes "\<forall>ss. set (ce_sched env ss) = set ss"
    and "runAndMergeResults env (call_rcpt env r) states (cr, c) = ((cr', c'), e)"
  shows "cr_states cr' = cr_states cr \<and> (\<forall>s \<in> set states. (s, r) \<in> set (cr_checkedRcptsPerCheck cr'))"
proof -
  obtain cr1 oe1 where
    r: "run_states (call_rcpt env r) (ce_sched env states) ((cr, c), \<lparr>oe_quarantine = None, oe_reject = None\<rparr>) = ((cr1, c'), oe1)"
    and f: "finish_merge oe1 cr1 = (cr', e)"
    using assms(2) by (auto simp: runAndMergeResults_def split: prod.splits)
  have "cr_states cr' = cr_states cr"
    using run_merge_cr_states [of "call_rcpt env r" env states "(cr, c)"] assms(2) by simp
  with run_states_covers [OF r] finish_merge_frame [OF f] assms(1) show ?thesis by auto
qed

definition sample_checks :: "(nat list \<Rightarrow> nat list) \<Rightarrow> unit check_env" where
  "sample_checks sched = \<lparr>ce_State = \<lambda>k m c. (c, Inr k), ce_Connection = \<lambda>s c. (c, None), ce_Sender = \<lambda>s f c. (c, None),
     ce_Rcpt = \<lambda>s r c. (c, None), ce_Body = \<lambda>s h b c. (c, None), ce_Close = \<lambda>s c. c, ce_sched = sched\<rparr>"

section \<open>Calls of \<open>CheckBody\<close>\<close>

text \<open>Checks that record the calls of \<open>CheckBody\<close> with their results.\<close>

type_synonym body_call = "nat \<times> header \<times> buffer \<times> check_result option"

definition logged_checks :: "'c check_env \<Rightarrow> ('c \<times> body_call list) check_env" where
  "logged_checks env = \<lparr>
     ce_State = (\<lambda>k m (c, l). case ce_State env k m c of (c, r) \<Rightarrow> ((c, l), r)),
     ce_Connection = (\<lambda>s (c, l). case ce_Connection env s c of (c, r) \<Rightarrow> ((c, l), r)),
     ce_Sender = (\<lambda>s f (c, l). case ce_Sender env s f c of (c, r) \<Rightarrow> ((c, l), r)),
     ce_Rcpt = (\<lambda>s r (c, l). case ce_Rcpt env s r c of (c, x) \<Rightarrow> ((c, l), x)),
     ce_Body = (\<lambda>s h b (c, l). case ce_Body env s h b c of (c, r) \<Rightarrow> ((c, l @ [(s, h, b, r)]), r)),
     ce_Close = (\<lambda>s (c, l). (ce_Close env s c, l)),
     ce_sched = ce_sched env\<rparr>"

interpretation logged_checks: check_calls "logged_checks env" "\<lambda>p c. snd c = l" for env l
  by unfold_locales (auto simp: logged_checks_def split: prod.split)

text \<open>A call that did not ask for rejection. A check that panicked has no result.\<close>

definition accepts :: "body_call \<Rightarrow> bool" where
  "accepts x = (case x of (s, h, b, r) \<Rightarrow> (case r of None \<Rightarrow> True | Some y \<Rightarrow> \<not> asks_reject y))"

lemma accepts_simps [simp]: "accepts (s, h, b, None)" "accepts (s, h, b, Some y) \<longleftrightarrow> \<not> asks_reject y"
  by (simp_all add: accepts_def)

text \<open>Checks give a reason with a rejection, and the scheduler runs all of them.\<close>

definition sound_checks :: "'c check_env \<Rightarrow> bool" where
  "sound_checks env \<longleftrightarrow>
     (\<forall>ss. set (ce_sched env ss) = set ss) \<and> (\<forall>s h b c r. snd (ce_Body env s h b c) = Some r \<longrightarrow> has_reason r)"

lemma merge_result_reject:
  assumes "merge_result r (cr, oe) = (cr', oe')" "has_reason r" "oe_reject oe \<noteq> Some None"
  shows "oe_reject oe' \<noteq> Some None" "oe_reject oe' = None \<longleftrightarrow> oe_reject oe = None \<and> \<not> asks_reject r"
  using assms by (auto simp: merge_result_def Let_def has_reason_def asks_reject_def split: if_splits)

lemma run_states_logged:
  assumes "sound_checks env" "oe_reject oe \<noteq> Some None"
    and "run_states (\<lambda>s. lift_call (ce_Body (logged_checks env) s h b)) ss ((cr, c), oe) = ((cr', c'), oe')"
  shows "\<exists>es. snd c' = snd c @ es \<and> map (\<lambda>(s, h, b, r). (s, h, b)) es = map (\<lambda>s. (s, h, b)) ss \<and> oe_reject oe' \<noteq> Some None \<and>
    (oe_reject oe' = None \<longleftrightarrow> oe_reject oe = None \<and> list_all accepts es)"
  using assms(2,3)
proof (induction ss arbitrary: cr c oe)
  case (Cons s ss)
  obtain c0 l where c: "c = (c0, l)" by fastforce
  obtain c1 x where x: "ce_Body env s h b c0 = (c1, x)" by fastforce
  then have call: "lift_call (ce_Body (logged_checks env) s h b) (cr, c) = ((cr, c1, l @ [(s, h, b, x)]), x)"
    by (simp add: c lift_call_def logged_checks_def)
  show ?case
  proof (cases x)
    case None
    with Cons.prems call have "run_states (\<lambda>s. lift_call (ce_Body (logged_checks env) s h b)) ss ((cr, c1, l @ [(s, h, b, x)]), oe) = ((cr', c'), oe')"
      by simp
    from Cons.IH [OF Cons.prems(1) this] obtain es where
      "snd c' = snd (c1, l @ [(s, h, b, x)]) @ es" "map (\<lambda>(s, h, b, r). (s, h, b)) es = map (\<lambda>s. (s, h, b)) ss" "oe_reject oe' \<noteq> Some None"
      "oe_reject oe' = None \<longleftrightarrow> oe_reject oe = None \<and> list_all accepts es" by (elim exE conjE) (rule that)
    with None c show ?thesis by (intro exI [of _ "(s, h, b, x) # es"]) simp
  next
    case (Some y)
    obtain cr1 oe1 where m: "merge_result y (cr, oe) = (cr1, oe1)" by fastforce
    have "has_reason y" using assms(1) x Some unfolding sound_checks_def by (metis snd_conv)
    note m1 = merge_result_reject [OF m this Cons.prems(1)]
    from Cons.prems call Some m have "run_states (\<lambda>s. lift_call (ce_Body (logged_checks env) s h b)) ss ((cr1, c1, l @ [(s, h, b, x)]), oe1) = ((cr', c'), oe')"
      by simp
    from Cons.IH [OF m1(1) this] obtain es where
      "snd c' = snd (c1, l @ [(s, h, b, x)]) @ es" "map (\<lambda>(s, h, b, r). (s, h, b)) es = map (\<lambda>s. (s, h, b)) ss" "oe_reject oe' \<noteq> Some None"
      "oe_reject oe' = None \<longleftrightarrow> oe_reject oe1 = None \<and> list_all accepts es" by (elim exE conjE) (rule that)
    with Some c m1(2) show ?thesis by (intro exI [of _ "(s, h, b, x) # es"]) auto
  qed
qed simp

lemma checkStates_keeps_states:
  assumes "checkStates env ks (cr, c) = ((cr', c'), x)" "map_of (cr_states cr) k = Some s"
  shows "map_of (cr_states cr') k = Some s"
proof (cases x)
  case (Inl e)
  then have "cr_states cr' = cr_states cr" using assms(1) replay_sender_cr_states [of env] replay_rcpts_cr_states [of env]
    by (auto simp: checkStates_def split: prod.splits sum.splits option.splits if_splits) (metis fst_conv)+
  with assms(2) show ?thesis by simp
next
  case (Inr states)
  from assms(1) Inr obtain c1 n m where i: "init_states env cr ks ([], [], []) c = (c1, Inr (states, n, m))"
    and *: "cr_states cr' = (if n = [] then cr_states cr else m @ cr_states cr)"
    using replay_sender_cr_states [of env] replay_rcpts_cr_states [of env]
    by (auto simp: checkStates_def split: prod.splits sum.splits option.splits if_splits) (metis fst_conv)+
  have "registered cr {} ([], [], [])" by (simp add: registered_def)
  from init_states_registered [OF i this] assms(2) have "map_of m k = None" by (auto simp: registered_def)
  with * assms(2) show ?thesis by (simp add: map_add_def)
qed

lemma checkBody_logged:
  assumes "sound_checks env" "checkBody (logged_checks env) lib lookup ks h b (cr, c) = ((cr', c'), None)"
  shows "\<exists>es. snd c' = snd c @ es \<and> list_all accepts es \<and>
      (\<forall>k \<in> set ks. \<exists>s r. map_of (cr_states cr') k = Some s \<and> (s, h, b, r) \<in> set es)"
    and "map_of (cr_states cr) k = Some s \<Longrightarrow> map_of (cr_states cr') k = Some s"
proof -
  from assms(2) obtain cr1 c1 states cr2 where s: "checkStates (logged_checks env) ks (cr, c) = ((cr1, c1), Inr states)"
    "runAndMergeResults (logged_checks env) (\<lambda>s. lift_call (ce_Body (logged_checks env) s h b)) states (cr2, c1) = ((cr', c'), None)"
    "cr_states cr2 = cr_states cr1"
    by (auto simp: checkBody_def Let_def split: prod.splits sum.splits if_splits)
  have c1: "snd c1 = snd c" using logged_checks.checkStates_J [where env = env and l = "snd c" and st = "(cr, c)" and ks = ks] s(1) by simp
  have st: "cr_states cr' = cr_states cr1"
    using run_merge_cr_states [of "\<lambda>s. lift_call (ce_Body (logged_checks env) s h b)" "logged_checks env" states "(cr2, c1)"] s(2,3) by simp
  show "map_of (cr_states cr) k = Some s \<Longrightarrow> map_of (cr_states cr') k = Some s"
    using checkStates_keeps_states [OF s(1)] st by simp
  obtain cr3 oe where r: "run_states (\<lambda>s. lift_call (ce_Body (logged_checks env) s h b)) (ce_sched env states)
      ((cr2, c1), \<lparr>oe_quarantine = None, oe_reject = None\<rparr>) = ((cr3, c'), oe)" and f: "finish_merge oe cr3 = (cr', None)"
    using s(2) by (auto simp: runAndMergeResults_def logged_checks_def split: prod.splits)
  have sched: "set (ce_sched env states) = set states"
    using assms(1) by (auto simp: sound_checks_def)
  have "oe_reject \<lparr>oe_quarantine = None, oe_reject = None\<rparr> \<noteq> Some None" by simp
  from run_states_logged [OF assms(1) this r] obtain es where es: "snd c' = snd c1 @ es" "map (\<lambda>(s, h, b, r). (s, h, b)) es = map (\<lambda>s. (s, h, b)) (ce_sched env states)"
    "oe_reject oe \<noteq> Some None"
    "oe_reject oe = None \<longleftrightarrow> oe_reject \<lparr>oe_quarantine = None, oe_reject = None\<rparr> = None \<and> list_all accepts es"
    by (elim exE conjE) (rule that)
  have "oe_reject oe = None" using f es(3) by (auto simp: finish_merge_def split: option.splits)
  moreover have "\<exists>s r. map_of (cr_states cr') k = Some s \<and> (s, h, b, r) \<in> set es" if k: "k \<in> set ks" for k
  proof -
    obtain s where s': "s \<in> set states" "map_of (cr_states cr') k = Some s" using checkStates_registered [OF s(1)] k st by auto
    have "(s, h, b) \<in> set (map (\<lambda>(s, h, b, r). (s, h, b)) es)" unfolding es(2) using s'(1) sched by auto
    with s'(2) show ?thesis by auto
  qed
  ultimately show "\<exists>es. snd c' = snd c @ es \<and> list_all accepts es \<and>
      (\<forall>k \<in> set ks. \<exists>s r. map_of (cr_states cr') k = Some s \<and> (s, h, b, r) \<in> set es)"
    using es(1,4) c1 by auto
qed

section \<open>Properties\<close>

text \<open>Once per recipient: for every set of checks and every sequence of operations of the
  runner, whatever fails in between, no state object of a check has \<open>CheckRcpt\<close> called twice for
  the same recipient.\<close>

theorem check_rcpt_at_most_once:
  "distinct (snd (snd (fold (run_op (traced_checks env) lib lookup) ops (newCheckRunner msgMeta, (c, [])))))"
  using run_ops_recorded [of "(newCheckRunner msgMeta, (c, []))" env lib lookup ops]
  by (simp add: recorded_def newCheckRunner_def)

text \<open>C37. Decision of a group of checks: when every check that rejects or quarantines gives a
  reason, the group rejects the message exactly when some check asks for rejection (and not for
  quarantine at the same time), and otherwise quarantines it exactly when some check asks for that;
  the order in which the goroutines finish does not matter.\<close>

theorem check_group_decision:
  assumes "set (ce_sched env states) = set states" "\<forall>s \<in> set states. has_reason (res s)"
  shows "(let ((cr', c'), err) = runAndMergeResults env (\<lambda>s st. (st, Some (res s))) states (cr, c) in
    (err \<noteq> None \<longleftrightarrow> (\<exists>s \<in> set states. asks_reject (res s))) \<and>
    (err = None \<longrightarrow> (cr_Quarantine cr' \<longleftrightarrow> cr_Quarantine cr \<or> (\<exists>s \<in> set states. res_Quarantine (res s)))))"
proof -
  let ?rs = "map res (ce_sched env states)" and ?oe = "\<lparr>oe_quarantine = None, oe_reject = None\<rparr>"
  obtain cr1 oe1 where f: "fold merge_result ?rs (cr, ?oe) = (cr1, oe1)" by fastforce
  have "list_all has_reason ?rs" using assms by (auto simp: list_all_iff)
  with fold_merge [of ?rs ?oe cr] f have *: "oe_reject oe1 \<noteq> Some None" "oe_quarantine oe1 \<noteq> Some None"
    "oe_reject oe1 \<noteq> None \<longleftrightarrow> (\<exists>s \<in> set states. asks_reject (res s))"
    "oe_quarantine oe1 \<noteq> None \<longleftrightarrow> (\<exists>s \<in> set states. res_Quarantine (res s))"
    "cr_Quarantine cr1 = cr_Quarantine cr"
    using assms(1) by (auto simp: list_ex_iff)
  obtain cr2 e where e: "finish_merge oe1 cr1 = (cr2, e)" by fastforce
  from finish_merge_decision [OF *(1,2), of cr1] * e f show ?thesis
    by (auto simp: runAndMergeResults_def run_states_results)
qed

theorem check_group_decision_witness:
  "snd (runAndMergeResults (sample_checks rev)
     (\<lambda>s st. (st, Some (empty_result\<lparr>res_Reject := (s = 2), res_Quarantine := (s = 1),
        res_Reason := Some (errors_New ''spam'')\<rparr>))) [1, 2] (newCheckRunner sample_msg, ())) \<noteq> None"
  using check_group_decision [of "sample_checks rev" "[1, 2]"
      "\<lambda>s. empty_result\<lparr>res_Reject := (s = 2), res_Quarantine := (s = 1), res_Reason := Some (errors_New ''spam'')\<rparr>"
      "newCheckRunner sample_msg" "()"]
  by (simp add: sample_checks_def has_reason_def asks_reject_def case_prod_beta insert_commute)

text \<open>Every check of a group sees the recipient: after \<open>checkRcpt\<close> without an error, every
  check of the group has a registered state object, and that object has been asked about the
  recipient, now or before.\<close>

theorem check_rcpt_covers:
  assumes "\<forall>ss. set (ce_sched env ss) = set ss" "checkRcpt env ks r st = ((cr', c'), None)"
  shows "\<forall>k \<in> set ks. \<exists>s. map_of (cr_states cr') k = Some s \<and> (s, r) \<in> set (cr_checkedRcptsPerCheck cr')"
proof -
  from assms(2) obtain cr1 c1 states cr2 where
    s: "checkStates env ks st = ((cr1, c1), Inr states)"
    and m: "runAndMergeResults env (call_rcpt env r) states (cr1, c1) = ((cr2, c'), None)"
    and cr': "cr' = cr2\<lparr>cr_checkedRcpts := cr_checkedRcpts cr2 @ [r]\<rparr>"
    by (auto simp: checkRcpt_def split: prod.splits sum.splits)
  from run_merge_covers [OF assms(1) m] checkStates_registered [OF s] cr' show ?thesis by fastforce
qed

end
