(* ===== verification/Msg_Pipeline.thy ===== *)
theory Msg_Pipeline
  imports Check_Runner
begin

text \<open>
  Model of \<^verbatim>\<open>internal/msgpipeline/msgpipeline.go\<close> and \<^verbatim>\<open>internal/modify/group.go\<close>: routing
  of a message by its sender and recipients, with checks, modifiers and delivery targets.

  Modifiers, tables, targets, blocks of the configuration and their state objects are numbers that
  stand for pointers. Checks, modifiers and targets act on states of their own, the three parts of
  \<open>world\<close>. Go iterates over maps in an arbitrary order; \<open>pe_order\<close> chooses it. A call on a
  target does not change the metadata object. The \<open>Received\<close> field is the argument \<open>pe_received\<close>,
  the tables are the argument \<open>pe_Lookup\<close>.
\<close>

section \<open>Results\<close>

type_synonym ('s, 'a) sres = "'s \<times> (goerr + 'a)"

definition sbind :: "('s, 'a) sres \<Rightarrow> ('a \<Rightarrow> 's \<Rightarrow> ('s, 'b) sres) \<Rightarrow> ('s, 'b) sres" where
  "sbind r f = (case r of (s, Inl e) \<Rightarrow> (s, Inl e) | (s, Inr x) \<Rightarrow> f x s)"

definition of_err :: "'s \<times> goerr option \<Rightarrow> ('s, unit) sres" where
  "of_err r = (case r of (s, None) \<Rightarrow> (s, Inr ()) | (s, Some e) \<Rightarrow> (s, Inl e))"

definition wrap_err :: "(goerr \<Rightarrow> goerr) \<Rightarrow> ('s, 'a) sres \<Rightarrow> ('s, 'a) sres" where
  "wrap_err f r = (case r of (s, Inl e) \<Rightarrow> (s, Inl (f e)) | (s, Inr x) \<Rightarrow> (s, Inr x))"

lemma sbind_simps [simp]: "sbind (s, Inl e) f = (s, Inl e)" "sbind (s, Inr x) f = f x s"
  by (simp_all add: sbind_def)

section \<open>Groups of modifiers\<close>

record 'm mod_env =
  me_State :: "nat \<Rightarrow> msg_metadata \<Rightarrow> 'm \<Rightarrow> 'm \<times> (goerr + nat)"
  me_Sender :: "nat \<Rightarrow> string \<Rightarrow> 'm \<Rightarrow> 'm \<times> (goerr + string)"
  me_Rcpt :: "nat \<Rightarrow> string \<Rightarrow> 'm \<Rightarrow> 'm \<times> (goerr + string list)"
  me_Body :: "nat \<Rightarrow> header \<Rightarrow> buffer \<Rightarrow> 'm \<Rightarrow> 'm \<times> (goerr + header)"
  me_Close :: "nat \<Rightarrow> 'm \<Rightarrow> 'm"

definition mg_Close :: "'m mod_env \<Rightarrow> nat list \<Rightarrow> 'm \<Rightarrow> 'm" where
  "mg_Close env states m = fold (me_Close env) states m"

fun mg_ModStateForMsg ::
  "'m mod_env \<Rightarrow> msg_metadata \<Rightarrow> nat list \<Rightarrow> nat list \<Rightarrow> 'm \<Rightarrow> ('m, nat list) sres" where
  "mg_ModStateForMsg env msgMeta [] states m = (m, Inr states)"
| "mg_ModStateForMsg env msgMeta (modifier # mods) states m =
     (case me_State env modifier msgMeta m of
        (m, Inl err) \<Rightarrow> (mg_Close env states m, Inl err)
      | (m, Inr s) \<Rightarrow> mg_ModStateForMsg env msgMeta mods (states @ [s]) m)"

fun mg_RewriteSender :: "'m mod_env \<Rightarrow> nat list \<Rightarrow> string \<Rightarrow> 'm \<Rightarrow> ('m, string) sres" where
  "mg_RewriteSender env [] mailFrom m = (m, Inr mailFrom)"
| "mg_RewriteSender env (s # ss) mailFrom m =
     sbind (me_Sender env s mailFrom m) (mg_RewriteSender env ss)"

text \<open>The inner loop: one modifier applied to every address obtained so far.\<close>

fun rewrite_each :: "(string \<Rightarrow> 'm \<Rightarrow> ('m, string list) sres) \<Rightarrow> string list \<Rightarrow> 'm \<Rightarrow> ('m, string list) sres" where
  "rewrite_each f [] m = (m, Inr [])"
| "rewrite_each f (r # rs) m =
     sbind (f r m) (\<lambda>part m. sbind (rewrite_each f rs m) (\<lambda>rest m. (m, Inr (part @ rest))))"

fun mg_RewriteRcpt :: "'m mod_env \<Rightarrow> nat list \<Rightarrow> string list \<Rightarrow> 'm \<Rightarrow> ('m, string list) sres" where
  "mg_RewriteRcpt env [] result m = (m, Inr result)"
| "mg_RewriteRcpt env (s # ss) result m =
     sbind (rewrite_each (me_Rcpt env s) result m) (mg_RewriteRcpt env ss)"

fun mg_RewriteBody :: "'m mod_env \<Rightarrow> nat list \<Rightarrow> header \<Rightarrow> buffer \<Rightarrow> 'm \<Rightarrow> ('m, header) sres" where
  "mg_RewriteBody env [] h b m = (m, Inr h)"
| "mg_RewriteBody env (s # ss) h b m = sbind (me_Body env s h b m) (\<lambda>h. mg_RewriteBody env ss h b)"

section \<open>Configuration and environment\<close>

record rcpt_block =
  rb_checks :: "nat list"
  rb_modifiers :: "nat list"
  rb_rejectErr :: "goerr option"
  rb_targets :: "nat list"

record source_block =
  sb_checks :: "nat list"
  sb_modifiers :: "nat list"
  sb_rejectErr :: "goerr option"
  sb_rcptIn :: "(nat \<times> nat) list"
  sb_perRcpt :: "string \<rightharpoonup> nat"
  sb_defaultRcpt :: nat

record pipeline =
  pc_globalChecks :: "nat list"
  pc_globalModifiers :: "nat list"
  pc_sourceIn :: "(nat \<times> source_block) list"
  pc_perSource :: "string \<rightharpoonup> source_block"
  pc_defaultSource :: source_block
  pc_doDMARC :: bool
  pc_FirstPipeline :: bool
  pc_blocks :: "nat \<Rightarrow> rcpt_block"

record 't tgt_env =
  te_Start :: "nat \<Rightarrow> msg_metadata \<Rightarrow> string \<Rightarrow> 't \<Rightarrow> 't \<times> (goerr + nat)"
  te_AddRcpt :: "nat \<Rightarrow> string \<Rightarrow> 't \<Rightarrow> 't \<times> goerr option"
  te_Body :: "nat \<Rightarrow> header \<Rightarrow> buffer \<Rightarrow> 't \<Rightarrow> 't \<times> goerr option"
  te_IsPartial :: "nat \<Rightarrow> bool"
  te_BodyNonAtomic :: "nat \<Rightarrow> header \<Rightarrow> buffer \<Rightarrow> 't \<Rightarrow> 't \<times> (string \<times> goerr option) list"
  te_Commit :: "nat \<Rightarrow> 't \<Rightarrow> 't \<times> goerr option"
  te_Abort :: "nat \<Rightarrow> 't \<Rightarrow> 't \<times> goerr option"
  te_IsPipeline :: "nat \<Rightarrow> bool"

record ('c, 'm, 't) pipe_env =
  pe_cfg :: pipeline
  pe_text :: textlib
  pe_dmarc :: dmarc_lib
  pe_txt :: txt_lookup
  pe_rand :: int
  pe_format :: "auth_result list \<Rightarrow> string"
  pe_received :: "msg_metadata \<Rightarrow> goerr + string"
  pe_Lookup :: "nat \<Rightarrow> string \<Rightarrow> goerr + bool"
  pe_checks :: "'c check_env"
  pe_mods :: "'m mod_env"
  pe_tgts :: "'t tgt_env"
  pe_order :: "nat list \<Rightarrow> nat list"

record ('c, 'm, 't) world =
  w_c :: 'c
  w_m :: 'm
  w_t :: 't

text \<open>\<open>msgpipelineDelivery\<close>. The metadata object is that of the check runner.\<close>

record mp_delivery =
  dd_global :: "nat list option"
  dd_source :: "nat list option"
  dd_rcptMods :: "(nat \<times> nat list) list"
  dd_sourceAddr :: string
  dd_sourceBlock :: source_block
  dd_deliveries :: "(nat \<times> nat \<times> string list) list"
  dd_cr :: check_runner

type_synonym ('c, 'm, 't) pstate = "mp_delivery \<times> ('c, 'm, 't) world"

text \<open>Running an operation of the checks or of the modifiers inside the pipeline.\<close>

definition on_checks ::
  "('c cstate \<Rightarrow> 'c cstate \<times> goerr option) \<Rightarrow> ('c, 'm, 't) pstate \<Rightarrow> (('c, 'm, 't) pstate, unit) sres" where
  "on_checks f st =
     (case st of (dd, w) \<Rightarrow>
        (case f (dd_cr dd, w_c w) of
           ((cr, c), e) \<Rightarrow> of_err ((dd\<lparr>dd_cr := cr\<rparr>, w\<lparr>w_c := c\<rparr>), e)))"

definition on_mods ::
  "('m \<Rightarrow> ('m, 'a) sres) \<Rightarrow> ('c, 'm, 't) pstate \<Rightarrow> (('c, 'm, 't) pstate, 'a) sres" where
  "on_mods f st = (case st of (dd, w) \<Rightarrow> (case f (w_m w) of (m, r) \<Rightarrow> ((dd, w\<lparr>w_m := m\<rparr>), r)))"

definition mods_of :: "nat list option \<Rightarrow> nat list" where
  "mods_of s = (case s of Some ss \<Rightarrow> ss | None \<Rightarrow> [])"

section \<open>Routing\<close>

definition smtp_error :: "int \<Rightarrow> ench \<Rightarrow> string \<Rightarrow> goerr \<Rightarrow> string \<Rightarrow> goerr" where
  "smtp_error code ec msg err reason =
     SMTPError \<lparr>Code = code, EnhancedCode = ec, Message = msg, CheckName = '''', TargetName = '''',
       ModifierName = '''', Reason = reason, Misc = Map.empty\<rparr> (Some err)"

text \<open>The first table that contains the key; a failing lookup is logged and skipped.\<close>

fun first_match :: "(nat \<Rightarrow> string \<Rightarrow> goerr + bool) \<Rightarrow> string \<Rightarrow> (nat \<times> 'b) list \<Rightarrow> 'b option" where
  "first_match lookup key [] = None"
| "first_match lookup key ((t, b) # ts) =
     (case lookup t key of Inr True \<Rightarrow> Some b | _ \<Rightarrow> first_match lookup key ts)"

definition srcBlockForAddr :: "('c, 'm, 't) pipe_env \<Rightarrow> string \<Rightarrow> goerr + source_block" where
  "srcBlockForAddr env mailFrom =
     (case (if mailFrom \<noteq> '''' then ForLookup (pe_text env) mailFrom else (mailFrom, None)) of
        (_, Some err) \<Rightarrow>
          Inl (smtp_error 501 (5, 1, 7) ''Unable to normalize the sender address'' err '''')
      | (cleanFrom, None) \<Rightarrow>
          (case first_match (pe_Lookup env) cleanFrom (pc_sourceIn (pe_cfg env)) of
             Some b \<Rightarrow> Inr b
           | None \<Rightarrow>
               (case pc_perSource (pe_cfg env) cleanFrom of
                  Some b \<Rightarrow> Inr b
                | None \<Rightarrow>
                    (case Split cleanFrom of
                       (_, domain, err) \<Rightarrow>
                         if err \<noteq> None \<and> cleanFrom \<noteq> '''' then
                           Inl (smtp_error 501 (5, 1, 3) ''Invalid sender address'' (the err)
                             ''Can't extract local-part and host-part'')
                         else case pc_perSource (pe_cfg env) domain of
                                Some b \<Rightarrow> Inr b
                              | None \<Rightarrow> Inr (pc_defaultSource (pe_cfg env))))))"

definition rcptBlockForAddr :: "('c, 'm, 't) pipe_env \<Rightarrow> source_block \<Rightarrow> string \<Rightarrow> goerr + nat" where
  "rcptBlockForAddr env sb rcptTo =
     (case ForLookup (pe_text env) rcptTo of
        (_, Some err) \<Rightarrow>
          Inl (smtp_error 553 (5, 1, 2) ''Unable to normalize the recipient address'' err '''')
      | (cleanRcpt, None) \<Rightarrow>
          (case first_match (pe_Lookup env) cleanRcpt (sb_rcptIn sb) of
             Some b \<Rightarrow> Inr b
           | None \<Rightarrow>
               (case sb_perRcpt sb cleanRcpt of
                  Some b \<Rightarrow> Inr b
                | None \<Rightarrow>
                    (case Split cleanRcpt of
                       (_, _, Some err) \<Rightarrow>
                         Inl (smtp_error 501 (5, 1, 3) ''Invalid recipient address'' err
                           ''Can't extract local-part and host-part'')
                     | (_, domain, None) \<Rightarrow>
                         (case sb_perRcpt sb domain of
                            Some b \<Rightarrow> Inr b
                          | None \<Rightarrow> Inr (sb_defaultRcpt sb))))))"

section \<open>Start\<close>

definition initRunGlobalModifiers ::
  "('c, 'm, 't) pipe_env \<Rightarrow> string \<Rightarrow> ('c, 'm, 't) pstate \<Rightarrow> (('c, 'm, 't) pstate, string) sres" where
  "initRunGlobalModifiers env mailFrom st =
     sbind (on_mods (mg_ModStateForMsg (pe_mods env) (cr_msgMeta (dd_cr (fst st)))
              (pc_globalModifiers (pe_cfg env)) []) st) (\<lambda>gs st.
       case on_mods (mg_RewriteSender (pe_mods env) gs mailFrom) st of
         (st, Inl err) \<Rightarrow> (case st of (dd, w) \<Rightarrow> ((dd, w\<lparr>w_m := mg_Close (pe_mods env) gs (w_m w)\<rparr>), Inl err))
       | ((dd, w), Inr mailFrom) \<Rightarrow> ((dd\<lparr>dd_global := Some gs\<rparr>, w), Inr mailFrom))"

definition start_source ::
  "('c, 'm, 't) pipe_env \<Rightarrow> source_block \<Rightarrow> string \<Rightarrow> ('c, 'm, 't) pstate \<Rightarrow> (('c, 'm, 't) pstate, unit) sres" where
  "start_source env sb mailFrom st =
     (let st = ((fst st)\<lparr>dd_sourceBlock := sb\<rparr>, snd st) in
      sbind (on_checks (checkConnSender (pe_checks env) (sb_checks sb) mailFrom) st) (\<lambda>_ st.
      sbind (on_mods (mg_ModStateForMsg (pe_mods env) (cr_msgMeta (dd_cr (fst st))) (sb_modifiers sb) []) st) (\<lambda>gs st.
      sbind (on_mods (mg_RewriteSender (pe_mods env) gs mailFrom) st) (\<lambda>mailFrom (dd, w).
        ((dd\<lparr>dd_source := Some gs, dd_sourceAddr := mailFrom\<rparr>, w), Inr ())))))"

definition mp_start ::
  "('c, 'm, 't) pipe_env \<Rightarrow> string \<Rightarrow> ('c, 'm, 't) pstate \<Rightarrow> (('c, 'm, 't) pstate, unit) sres" where
  "mp_start env mailFrom st =
     sbind (on_checks (checkConnSender (pe_checks env) (pc_globalChecks (pe_cfg env)) mailFrom) st) (\<lambda>_ st.
     sbind (initRunGlobalModifiers env mailFrom st) (\<lambda>mailFrom st.
       case srcBlockForAddr env mailFrom of
         Inl err \<Rightarrow> (st, Inl err)
       | Inr sb \<Rightarrow>
           (case sb_rejectErr sb of
              Some err \<Rightarrow> (st, Inl err)
            | None \<Rightarrow> start_source env sb mailFrom st)))"

definition mp_close :: "('c, 'm, 't) pipe_env \<Rightarrow> ('c, 'm, 't) pstate \<Rightarrow> ('c, 'm, 't) world" where
  "mp_close env st =
     (case st of (dd, w) \<Rightarrow>
        let w = w\<lparr>w_c := cr_close (pe_checks env) (dd_cr dd) (w_c w)\<rparr>;
            w = w\<lparr>w_m := mg_Close (pe_mods env) (mods_of (dd_global dd)) (w_m w)\<rparr>;
            w = w\<lparr>w_m := mg_Close (pe_mods env) (mods_of (dd_source dd)) (w_m w)\<rparr>
        in w\<lparr>w_m := fold (\<lambda>b. mg_Close (pe_mods env) (mods_of (map_of (dd_rcptMods dd) b)))
                      (pe_order env (map fst (dd_rcptMods dd))) (w_m w)\<rparr>)"

definition zero_block :: source_block where
  "zero_block = \<lparr>sb_checks = [], sb_modifiers = [], sb_rejectErr = None, sb_rcptIn = [], sb_perRcpt = Map.empty,
     sb_defaultRcpt = 0\<rparr>"

definition mp_Start ::
  "('c, 'm, 't) pipe_env \<Rightarrow> msg_metadata \<Rightarrow> string \<Rightarrow> ('c, 'm, 't) world \<Rightarrow> ('c, 'm, 't) world \<times> (goerr + mp_delivery)" where
  "mp_Start env msgMeta mailFrom w =
     (let dd = \<lparr>dd_global = None, dd_source = None, dd_rcptMods = [], dd_sourceAddr = '''',
                dd_sourceBlock = zero_block, dd_deliveries = [],
                dd_cr = (newCheckRunner msgMeta)\<lparr>cr_doDMARC := pc_doDMARC (pe_cfg env)\<rparr>\<rparr> in
      case mp_start env mailFrom (dd, w) of
        (st, Inl err) \<Rightarrow> (mp_close env st, Inl err)
      | ((dd, w), Inr _) \<Rightarrow> (w, Inr dd))"

section \<open>Recipients\<close>

definition getRcptModifiers ::
  "('c, 'm, 't) pipe_env \<Rightarrow> nat \<Rightarrow> ('c, 'm, 't) pstate \<Rightarrow> (('c, 'm, 't) pstate, nat list) sres" where
  "getRcptModifiers env b st =
     (case map_of (dd_rcptMods (fst st)) b of
        Some ss \<Rightarrow> (st, Inr ss)
      | None \<Rightarrow>
          sbind (on_mods (mg_ModStateForMsg (pe_mods env) (cr_msgMeta (dd_cr (fst st)))
                   (rb_modifiers (pc_blocks (pe_cfg env) b)) []) st) (\<lambda>ss st.
            (case on_mods (mg_RewriteSender (pe_mods env) ss (dd_sourceAddr (fst st))) st of
               ((dd, w), _) \<Rightarrow> ((dd\<lparr>dd_rcptMods := dd_rcptMods dd @ [(b, ss)]\<rparr>, w), Inr ss))))"

definition getDelivery ::
  "('c, 'm, 't) pipe_env \<Rightarrow> nat \<Rightarrow> ('c, 'm, 't) pstate \<Rightarrow> (('c, 'm, 't) pstate, nat) sres" where
  "getDelivery env tgt st =
     (case st of (dd, w) \<Rightarrow>
        (case map_of (dd_deliveries dd) tgt of
           Some (d, _) \<Rightarrow> (st, Inr d)
         | None \<Rightarrow>
             (case te_Start (pe_tgts env) tgt (cr_msgMeta (dd_cr dd)) (dd_sourceAddr dd) (w_t w) of
                (t, Inl err) \<Rightarrow> ((dd, w\<lparr>w_t := t\<rparr>), Inl err)
              | (t, Inr d) \<Rightarrow>
                  ((dd\<lparr>dd_deliveries := dd_deliveries dd @ [(tgt, d, [])]\<rparr>, w\<lparr>w_t := t\<rparr>), Inr d))))"

definition append_rcpt :: "nat \<Rightarrow> string \<Rightarrow> mp_delivery \<Rightarrow> mp_delivery" where
  "append_rcpt tgt rcpt dd = dd\<lparr>dd_deliveries :=
     map (\<lambda>(t, d, rs). if t = tgt then (t, d, rs @ [rcpt]) else (t, d, rs)) (dd_deliveries dd)\<rparr>"

definition effective :: "string \<Rightarrow> goerr \<Rightarrow> goerr" where
  "effective to err = WithFields err [''effective_rcpt'' \<mapsto> FStr to]"

text \<open>The loop over the targets of a block.\<close>

fun add_to_targets ::
  "('c, 'm, 't) pipe_env \<Rightarrow> string \<Rightarrow> string \<Rightarrow> nat list \<Rightarrow> ('c, 'm, 't) pstate \<Rightarrow> (('c, 'm, 't) pstate, unit) sres" where
  "add_to_targets env originalTo to [] st = (st, Inr ())"
| "add_to_targets env originalTo to (tgt # tgts) st =
     (let wrap = (if te_IsPipeline (pe_tgts env) tgt then id else effective to) in
      sbind (wrap_err wrap (getDelivery env tgt st)) (\<lambda>d (dd, w).
        case te_AddRcpt (pe_tgts env) d to (w_t w) of
          (t, Some err) \<Rightarrow> ((dd, w\<lparr>w_t := t\<rparr>), Inl (wrap err))
        | (t, None) \<Rightarrow>
            add_to_targets env originalTo to tgts (append_rcpt tgt originalTo dd, w\<lparr>w_t := t\<rparr>)))"

definition set_original :: "string \<Rightarrow> string \<Rightarrow> mp_delivery \<Rightarrow> mp_delivery" where
  "set_original to originalTo dd =
     (if originalTo \<noteq> to
      then dd\<lparr>dd_cr := (dd_cr dd)\<lparr>cr_msgMeta := (cr_msgMeta (dd_cr dd))\<lparr>
             OriginalRcpts := (OriginalRcpts (cr_msgMeta (dd_cr dd)))(to \<mapsto> originalTo)\<rparr>\<rparr>\<rparr>
      else dd)"

text \<open>The loop over the addresses the modifiers of the block return.\<close>

fun add_final ::
  "('c, 'm, 't) pipe_env \<Rightarrow> string \<Rightarrow> nat list \<Rightarrow> string list \<Rightarrow> ('c, 'm, 't) pstate \<Rightarrow> (('c, 'm, 't) pstate, unit) sres" where
  "add_final env originalTo tgts [] st = (st, Inr ())"
| "add_final env originalTo tgts (to # tos) (dd, w) =
     sbind (add_to_targets env originalTo to tgts (set_original to originalTo dd, w))
       (\<lambda>_. add_final env originalTo tgts tos)"

definition add_one ::
  "('c, 'm, 't) pipe_env \<Rightarrow> string \<Rightarrow> string \<Rightarrow> ('c, 'm, 't) pstate \<Rightarrow> (('c, 'm, 't) pstate, unit) sres" where
  "add_one env originalTo to st =
     (case rcptBlockForAddr env (dd_sourceBlock (fst st)) to of
        Inl err \<Rightarrow> (st, Inl (effective to err))
      | Inr b \<Rightarrow>
          let blk = pc_blocks (pe_cfg env) b in
          (case rb_rejectErr blk of
             Some err \<Rightarrow> (st, Inl (effective to err))
           | None \<Rightarrow>
               sbind (wrap_err (effective to) (on_checks (checkRcpt (pe_checks env) (rb_checks blk) to) st)) (\<lambda>_ st.
               sbind (wrap_err (effective to) (getRcptModifiers env b st)) (\<lambda>ss st.
                 case on_mods (mg_RewriteRcpt (pe_mods env) ss [to]) st of
                   ((dd, w), Inl err) \<Rightarrow>
                     ((dd, w\<lparr>w_m := mg_Close (pe_mods env) ss (w_m w)\<rparr>), Inl (effective to err))
                 | (st, Inr newTo) \<Rightarrow> add_final env originalTo (rb_targets blk) newTo st))))"

fun add_all ::
  "('c, 'm, 't) pipe_env \<Rightarrow> string \<Rightarrow> string list \<Rightarrow> ('c, 'm, 't) pstate \<Rightarrow> (('c, 'm, 't) pstate, unit) sres" where
  "add_all env originalTo [] st = (st, Inr ())"
| "add_all env originalTo (to # tos) st =
     sbind (add_one env originalTo to st) (\<lambda>_. add_all env originalTo tos)"

definition mp_AddRcpt ::
  "('c, 'm, 't) pipe_env \<Rightarrow> string \<Rightarrow> ('c, 'm, 't) pstate \<Rightarrow> (('c, 'm, 't) pstate, unit) sres" where
  "mp_AddRcpt env to st =
     sbind (on_checks (checkRcpt (pe_checks env) (pc_globalChecks (pe_cfg env)) to) st) (\<lambda>_ st.
     sbind (on_checks (checkRcpt (pe_checks env) (sb_checks (dd_sourceBlock (fst st))) to) st) (\<lambda>_ st.
     sbind (on_mods (mg_RewriteRcpt (pe_mods env) (mods_of (dd_global (fst st))) [to]) st) (\<lambda>resultTo st.
     sbind (on_mods (rewrite_each (\<lambda>r. mg_RewriteRcpt (pe_mods env) (mods_of (dd_source (fst st))) [r]) resultTo) st)
       (add_all env to))))"

section \<open>Body\<close>


definition check_body ::
  "('c, 'm, 't) pipe_env \<Rightarrow> header \<Rightarrow> buffer \<Rightarrow> nat list \<Rightarrow> ('c, 'm, 't) pstate \<Rightarrow> (('c, 'm, 't) pstate, unit) sres" where
  "check_body env hdr body checks =
     on_checks (checkBody (pe_checks env) (pe_dmarc env) (pe_txt env) checks hdr body)"

text \<open>The modifiers of the recipient blocks, in an arbitrary order.\<close>

fun rewrite_blocks ::
  "('c, 'm, 't) pipe_env \<Rightarrow> nat list \<Rightarrow> header \<Rightarrow> buffer \<Rightarrow> ('c, 'm, 't) pstate \<Rightarrow> (('c, 'm, 't) pstate, header) sres" where
  "rewrite_blocks env [] hdr body st = (st, Inr hdr)"
| "rewrite_blocks env (b # bs) hdr body st =
     sbind (on_mods (mg_RewriteBody (pe_mods env) (mods_of (map_of (dd_rcptMods (fst st)) b)) hdr body) st)
       (\<lambda>hdr. rewrite_blocks env bs hdr body)"

definition rewrite_body ::
  "('c, 'm, 't) pipe_env \<Rightarrow> header \<Rightarrow> buffer \<Rightarrow> ('c, 'm, 't) pstate \<Rightarrow> (('c, 'm, 't) pstate, header) sres" where
  "rewrite_body env hdr body st =
     sbind (on_mods (mg_RewriteBody (pe_mods env) (mods_of (dd_global (fst st))) hdr body) st) (\<lambda>hdr st.
     sbind (on_mods (mg_RewriteBody (pe_mods env) (mods_of (dd_source (fst st))) hdr body) st) (\<lambda>hdr st.
       rewrite_blocks env (pe_order env (map fst (dd_rcptMods (fst st)))) hdr body st))"

definition delivery_of :: "mp_delivery \<Rightarrow> nat \<Rightarrow> nat \<times> string list" where
  "delivery_of dd tgt = (case map_of (dd_deliveries dd) tgt of Some x \<Rightarrow> x | None \<Rightarrow> (0, []))"






section \<open>Body with a status for every recipient\<close>

type_synonym statuses = "(string \<times> goerr option) list"

definition setStatusAll :: "('c, 'm, 't) pipe_env \<Rightarrow> mp_delivery \<Rightarrow> goerr \<Rightarrow> statuses" where
  "setStatusAll env dd err =
     concat (map (\<lambda>tgt. map (\<lambda>r. (r, Some err)) (snd (delivery_of dd tgt)))
       (pe_order env (map fst (dd_deliveries dd))))"

definition original_status :: "mp_delivery \<Rightarrow> string \<times> goerr option \<Rightarrow> string \<times> goerr option" where
  "original_status dd st =
     (case OriginalRcpts (cr_msgMeta (dd_cr dd)) (fst st) of Some o' \<Rightarrow> (o', snd st) | None \<Rightarrow> st)"

fun deliver_non_atomic ::
  "('c, 'm, 't) pipe_env \<Rightarrow> header \<Rightarrow> buffer \<Rightarrow> nat list \<Rightarrow> ('c, 'm, 't) pstate \<Rightarrow> ('c, 'm, 't) pstate \<times> statuses" where
  "deliver_non_atomic env hdr body [] st = (st, [])"
| "deliver_non_atomic env hdr body (tgt # tgts) (dd, w) =
     (let (d, rcpts) = delivery_of dd tgt;
          (t, out) = (if te_IsPartial (pe_tgts env) d
                      then (case te_BodyNonAtomic (pe_tgts env) d hdr body (w_t w) of
                              (t, sts) \<Rightarrow> (t, map (original_status dd) sts))
                      else (case te_Body (pe_tgts env) d hdr body (w_t w) of
                              (t, Some err) \<Rightarrow> (t, map (\<lambda>r. (r, Some err)) rcpts)
                            | (t, None) \<Rightarrow> (t, [])));
          (st, rest) = deliver_non_atomic env hdr body tgts (dd, w\<lparr>w_t := t\<rparr>)
      in (st, out @ rest))"

definition mp_BodyNonAtomic ::
  "('c, 'm, 't) pipe_env \<Rightarrow> header \<Rightarrow> buffer \<Rightarrow> ('c, 'm, 't) pstate \<Rightarrow> ('c, 'm, 't) pstate \<times> statuses" where
  "mp_BodyNonAtomic env hdr body st =
     (case sbind (check_body env hdr body (pc_globalChecks (pe_cfg env)) st) (\<lambda>_ st.
           sbind (check_body env hdr body (sb_checks (dd_sourceBlock (fst st))) st) (\<lambda>_ st.
             rewrite_body env hdr body st)) of
        ((dd, w), Inl err) \<Rightarrow> ((dd, w), setStatusAll env dd err)
      | ((dd, w), Inr hdr) \<Rightarrow>
          deliver_non_atomic env hdr body (pe_order env (map fst (dd_deliveries dd))) (dd, w))"

section \<open>Commit and Abort\<close>

fun commit_all :: "('c, 'm, 't) pipe_env \<Rightarrow> nat list \<Rightarrow> 't \<Rightarrow> 't \<times> goerr option" where
  "commit_all env [] t = (t, None)"
| "commit_all env (d # ds) t =
     (case te_Commit (pe_tgts env) d t of
        (t, Some err) \<Rightarrow> (t, Some err)
      | (t, None) \<Rightarrow> commit_all env ds t)"

fun abort_all :: "('c, 'm, 't) pipe_env \<Rightarrow> nat list \<Rightarrow> goerr option \<Rightarrow> 't \<Rightarrow> 't \<times> goerr option" where
  "abort_all env [] lastErr t = (t, lastErr)"
| "abort_all env (d # ds) lastErr t =
     (case te_Abort (pe_tgts env) d t of
        (t, Some err) \<Rightarrow> abort_all env ds (Some err) t
      | (t, None) \<Rightarrow> abort_all env ds lastErr t)"

definition handles :: "('c, 'm, 't) pipe_env \<Rightarrow> mp_delivery \<Rightarrow> nat list" where
  "handles env dd = map (\<lambda>tgt. fst (delivery_of dd tgt)) (pe_order env (map fst (dd_deliveries dd)))"

definition mp_Commit :: "('c, 'm, 't) pipe_env \<Rightarrow> ('c, 'm, 't) pstate \<Rightarrow> ('c, 'm, 't) world \<times> goerr option" where
  "mp_Commit env st =
     (let w = mp_close env st in
      case commit_all env (handles env (fst st)) (w_t w) of (t, e) \<Rightarrow> (w\<lparr>w_t := t\<rparr>, e))"

definition mp_Abort :: "('c, 'm, 't) pipe_env \<Rightarrow> ('c, 'm, 't) pstate \<Rightarrow> ('c, 'm, 't) world \<times> goerr option" where
  "mp_Abort env st =
     (let w = mp_close env st in
      case abort_all env (handles env (fst st)) None (w_t w) of (t, e) \<Rightarrow> (w\<lparr>w_t := t\<rparr>, e))"

section \<open>Frames\<close>

text \<open>Checks and modifiers touch neither the targets nor the list of deliveries.\<close>

definition same_targets :: "('c, 'm, 't) pstate \<Rightarrow> ('c, 'm, 't) pstate \<Rightarrow> bool" where
  "same_targets st st' \<longleftrightarrow> w_t (snd st') = w_t (snd st) \<and> dd_deliveries (fst st') = dd_deliveries (fst st)"

lemma same_targets_refl [simp]: "same_targets st st"
  by (simp add: same_targets_def)

lemma same_targets_trans: "same_targets a b \<Longrightarrow> same_targets b c \<Longrightarrow> same_targets a c"
  by (simp add: same_targets_def)

lemma on_checks_same [go_frame]: "same_targets st (fst (on_checks f st))"
  by (auto simp: on_checks_def of_err_def same_targets_def split: prod.split option.split)

lemma on_mods_same [go_frame]: "same_targets st (fst (on_mods f st))"
  by (auto simp: on_mods_def same_targets_def split: prod.split)

lemma sbind_same [go_frame]:
  assumes "same_targets st (fst r)" "\<And>x st'. same_targets st' (fst (f x st'))"
  shows "same_targets st (fst (sbind r f))"
  using assms same_targets_trans [OF assms(1) assms(2)] by (auto simp: sbind_def split: prod.split sum.split)

lemma wrap_err_fst [simp]: "fst (wrap_err f r) = fst r"
  by (auto simp: wrap_err_def split: prod.split sum.split)

lemma getRcptModifiers_same [go_frame]: "same_targets st (fst (getRcptModifiers env b st))"
proof (cases "map_of (dd_rcptMods (fst st)) b")
  case None
  have "same_targets st' (fst (case on_mods (mg_RewriteSender (pe_mods env) ss (dd_sourceAddr (fst st'))) st' of
      ((dd, w), _) \<Rightarrow> ((dd\<lparr>dd_rcptMods := dd_rcptMods dd @ [(b, ss)]\<rparr>, w), Inr ss)))" for ss st'
    using on_mods_same [of st' "mg_RewriteSender (pe_mods env) ss (dd_sourceAddr (fst st'))"]
    by (auto simp: same_targets_def split: prod.split)
  with None show ?thesis
    unfolding getRcptModifiers_def by (auto intro!: go_frame)
qed (simp add: getRcptModifiers_def)


lemma rewrite_blocks_same [go_frame]: "same_targets st (fst (rewrite_blocks env bs hdr body st))"
  by (induction bs arbitrary: hdr st) (auto intro!: go_frame)

lemma rewrite_body_same: "same_targets st (fst (rewrite_body env hdr body st))"
  unfolding rewrite_body_def by (intro go_frame)


section \<open>The deliveries of a message\<close>

text \<open>Targets that record the deliveries they start and finish.\<close>

datatype tcall = TStart nat | TAbort nat | TCommit nat bool

definition traced_tgts :: "'t tgt_env \<Rightarrow> ('t \<times> tcall list) tgt_env" where
  "traced_tgts e = \<lparr>
     te_Start = (\<lambda>k m f (t, l). case te_Start e k m f t of
        (t, Inl err) \<Rightarrow> ((t, l), Inl err) | (t, Inr d) \<Rightarrow> ((t, l @ [TStart d]), Inr d)),
     te_AddRcpt = (\<lambda>d r (t, l). case te_AddRcpt e d r t of (t, x) \<Rightarrow> ((t, l), x)),
     te_Body = (\<lambda>d h b (t, l). case te_Body e d h b t of (t, x) \<Rightarrow> ((t, l), x)),
     te_IsPartial = te_IsPartial e,
     te_BodyNonAtomic = (\<lambda>d h b (t, l). case te_BodyNonAtomic e d h b t of (t, x) \<Rightarrow> ((t, l), x)),
     te_Commit = (\<lambda>d (t, l). case te_Commit e d t of (t, x) \<Rightarrow> ((t, l @ [TCommit d (x = None)]), x)),
     te_Abort = (\<lambda>d (t, l). case te_Abort e d t of (t, x) \<Rightarrow> ((t, l @ [TAbort d]), x)),
     te_IsPipeline = te_IsPipeline e\<rparr>"

definition traced_env :: "('c, 'm, 't) pipe_env \<Rightarrow> ('c, 'm, 't \<times> tcall list) pipe_env" where
  "traced_env e = \<lparr>pe_cfg = pe_cfg e, pe_text = pe_text e, pe_dmarc = pe_dmarc e, pe_txt = pe_txt e,
     pe_rand = pe_rand e, pe_format = pe_format e, pe_received = pe_received e, pe_Lookup = pe_Lookup e,
     pe_checks = pe_checks e, pe_mods = pe_mods e, pe_tgts = traced_tgts (pe_tgts e), pe_order = pe_order e\<rparr>"

definition started :: "('c, 'm, 't \<times> tcall list) pstate \<Rightarrow> bool" where
  "started st \<longleftrightarrow> snd (w_t (snd st)) = map (\<lambda>x. TStart (fst (snd x))) (dd_deliveries (fst st)) \<and>
     distinct (map fst (dd_deliveries (fst st)))"

lemma started_same: "started st \<Longrightarrow> same_targets st st' \<Longrightarrow> started st'"
  by (simp add: started_def same_targets_def)

lemma started_sbind [go_inv]:
  assumes "started (fst r)" "\<And>x st'. started st' \<Longrightarrow> started (fst (f x st'))"
  shows "started (fst (sbind r f))"
  using assms by (auto simp: sbind_def split: prod.split sum.split)

lemma getDelivery_started: "started st \<Longrightarrow> started (fst (getDelivery (traced_env env) tgt st))"
  by (auto simp: getDelivery_def traced_env_def traced_tgts_def started_def map_of_eq_None_iff
      split: prod.split sum.split option.split)

lemma append_rcpt_started: "started (append_rcpt tgt r dd, w) \<longleftrightarrow> started (dd, w)"
proof -
  have "map fst (dd_deliveries (append_rcpt tgt r dd)) = map fst (dd_deliveries dd)"
    "map (\<lambda>x. TStart (fst (snd x))) (dd_deliveries (append_rcpt tgt r dd)) = map (\<lambda>x. TStart (fst (snd x))) (dd_deliveries dd)"
    by (auto simp: append_rcpt_def)
  then show ?thesis by (simp add: started_def)
qed

lemma te_AddRcpt_started:
  "started (dd, w) \<Longrightarrow> te_AddRcpt (traced_tgts e) d to (w_t w) = (t, x) \<Longrightarrow> started (dd, w\<lparr>w_t := t\<rparr>)"
  by (cases "w_t w") (auto simp: started_def traced_tgts_def split: prod.splits)

lemma add_to_targets_started:
  "started st \<Longrightarrow> started (fst (add_to_targets (traced_env env) o' to tgts st))"
proof (induction tgts arbitrary: st)
  case (Cons tgt tgts)
  have g: "started (fst (wrap_err f (getDelivery (traced_env env) tgt st)))" for f
    using getDelivery_started [OF Cons.prems] by simp
  have k: "started (fst (case te_AddRcpt (pe_tgts (traced_env env)) d to (w_t (snd st')) of
      (t, Some err) \<Rightarrow> ((fst st', (snd st')\<lparr>w_t := t\<rparr>), Inl (f err))
    | (t, None) \<Rightarrow> add_to_targets (traced_env env) o' to tgts (append_rcpt tgt o' (fst st'), (snd st')\<lparr>w_t := t\<rparr>)))"
    if "started st'" for d st' f
    using that te_AddRcpt_started [of "fst st'" "snd st'" "pe_tgts env" d to] Cons.IH
    by (auto simp: traced_env_def append_rcpt_started split: prod.split option.split)
  show ?case
    unfolding add_to_targets.simps Let_def
    by (rule started_sbind [OF g]) (use k in \<open>auto simp: case_prod_beta\<close>)
qed simp

lemma set_original_started: "started (set_original to o' dd, w) \<longleftrightarrow> started (dd, w)"
  by (simp add: started_def set_original_def)

lemma add_final_started [go_inv]:
  "started st \<Longrightarrow> started (fst (add_final (traced_env env) o' tgts tos st))"
proof (induction tos arbitrary: st)
  case (Cons to tos)
  obtain dd w where st: "st = (dd, w)" by fastforce
  have "started (fst (add_to_targets (traced_env env) o' to tgts (set_original to o' dd, w)))"
    using Cons.prems st by (intro add_to_targets_started) (simp add: set_original_started)
  with Cons.IH st show ?case by (auto intro: started_sbind)
qed simp

lemma started_on_checks [go_inv]: "started st \<Longrightarrow> started (fst (on_checks f st))"
  using started_same on_checks_same by blast

lemma started_on_mods [go_inv]: "started st \<Longrightarrow> started (fst (on_mods f st))"
  using started_same on_mods_same by blast

lemma started_getRcptModifiers [go_inv]: "started st \<Longrightarrow> started (fst (getRcptModifiers env b st))"
  using started_same getRcptModifiers_same by blast

lemma rewrite_final_started [go_inv]:
  assumes "started st"
  shows "started (fst (case on_mods f st of
      ((dd, w), Inl err) \<Rightarrow> ((dd, w\<lparr>w_m := mg_Close me ss (w_m w)\<rparr>), Inl (g err))
    | (st, Inr newTo) \<Rightarrow> add_final (traced_env env) o' tgts newTo st))"
proof -
  obtain dd w r where o: "on_mods f st = ((dd, w), r)" by (metis surj_pair)
  with started_on_mods [OF assms, of f] have s: "started (dd, w)" by simp
  then have "started (dd, w\<lparr>w_m := m\<rparr>)" for m by (simp add: started_def)
  with o add_final_started [OF s] show ?thesis by (cases r) simp_all
qed

lemma add_one_started [go_inv]: "started st \<Longrightarrow> started (fst (add_one (traced_env env) o' to st))"
  unfolding add_one_def Let_def
  by (auto split: sum.split option.split intro!: go_inv)

lemma init_sender_started [go_inv]:
  assumes "started st"
  shows "started (fst (case on_mods f st of
      (st, Inl err) \<Rightarrow> (case st of (dd, w) \<Rightarrow> ((dd, w\<lparr>w_m := g w\<rparr>), Inl err))
    | ((dd, w), Inr mailFrom) \<Rightarrow> ((dd\<lparr>dd_global := gs\<rparr>, w), Inr mailFrom)))"
proof -
  obtain dd w r where o: "on_mods f st = ((dd, w), r)" by (metis surj_pair)
  with started_on_mods [OF assms, of f] have "started (dd, w)" by simp
  then have "started (dd, w\<lparr>w_m := m\<rparr>)" "started (dd\<lparr>dd_global := gs\<rparr>, w)" for m by (simp_all add: started_def)
  with o show ?thesis by (cases r) simp_all
qed

lemma mp_start_started: "started st \<Longrightarrow> started (fst (mp_start (traced_env env) f st))"
proof -
  assume st: "started st"
  have i: "started st' \<Longrightarrow> started (fst (initRunGlobalModifiers (traced_env env) f st'))" for st'
  proof -
    assume "started st'"
    then have "started (fst (on_mods (mg_ModStateForMsg (pe_mods (traced_env env)) (cr_msgMeta (dd_cr (fst st')))
        (pc_globalModifiers (pe_cfg (traced_env env))) []) st'))" by (rule started_on_mods)
    then show ?thesis
      unfolding initRunGlobalModifiers_def
      by (rule started_sbind) (rule init_sender_started)
  qed
  have s: "started st' \<Longrightarrow> started (fst (start_source (traced_env env) sb g st'))" for st' sb g
    unfolding start_source_def Let_def
    by (intro go_inv) (auto simp: started_def)
  show ?thesis
    unfolding mp_start_def
    by (intro go_inv st) (auto intro!: go_inv i s split: sum.split option.split)
qed

lemma add_all_started [go_inv]: "started st \<Longrightarrow> started (fst (add_all (traced_env env) o' tos st))"
  by (induction tos arbitrary: st) (auto intro!: go_inv)

lemma mp_AddRcpt_started: "started st \<Longrightarrow> started (fst (mp_AddRcpt (traced_env env) to st))"
  unfolding mp_AddRcpt_def
  by (intro go_inv)

lemma mp_Start_started:
  assumes "mp_Start (traced_env env) m f w = (w', Inr dd)" "snd (w_t w) = []"
  shows "started (dd, w')"
proof -
  let ?dd = "\<lparr>dd_global = None, dd_source = None, dd_rcptMods = [], dd_sourceAddr = '''',
    dd_sourceBlock = zero_block, dd_deliveries = [],
    dd_cr = (newCheckRunner m)\<lparr>cr_doDMARC := pc_doDMARC (pe_cfg (traced_env env))\<rparr>\<rparr>"
  have "started (?dd, w)" using assms(2) by (simp add: started_def)
  then have "started (fst (mp_start (traced_env env) f (?dd, w)))" by (rule mp_start_started)
  with assms(1) show ?thesis by (auto simp: mp_Start_def Let_def split: prod.splits sum.splits)
qed

text \<open>Recipients are added one after the other; refused ones do not stop the next.\<close>

fun add_rcpt_seq :: "('c, 'm, 't) pipe_env \<Rightarrow> string list \<Rightarrow> ('c, 'm, 't) pstate \<Rightarrow> ('c, 'm, 't) pstate" where
  "add_rcpt_seq env [] st = st"
| "add_rcpt_seq env (r # rs) st = add_rcpt_seq env rs (fst (mp_AddRcpt env r st))"

lemma add_rcpt_seq_started: "started st \<Longrightarrow> started (add_rcpt_seq (traced_env env) rs st)"
  by (induction rs arbitrary: st) (simp_all add: mp_AddRcpt_started)

lemma traced_finish [simp]:
  "te_Abort (pe_tgts (traced_env env)) d (t, l) =
     ((fst (te_Abort (pe_tgts env) d t), l @ [TAbort d]), snd (te_Abort (pe_tgts env) d t))"
  "te_Commit (pe_tgts (traced_env env)) d (t, l) =
     ((fst (te_Commit (pe_tgts env) d t), l @ [TCommit d (snd (te_Commit (pe_tgts env) d t) = None)]),
      snd (te_Commit (pe_tgts env) d t))"
  by (simp_all add: traced_env_def traced_tgts_def split: prod.split)

lemma abort_all_log:
  "fst (abort_all (traced_env env) ds e (t, l)) = (t', l') \<Longrightarrow> l' = l @ map TAbort ds"
proof (induction ds arbitrary: e t l)
  case (Cons d ds)
  then show ?case by (auto split: option.splits dest: Cons.IH)
qed simp

lemma commit_all_log:
  "commit_all (traced_env env) ds (t, l) = ((t', l'), None) \<Longrightarrow> l' = l @ map (\<lambda>d. TCommit d True) ds"
proof (induction ds arbitrary: t l)
  case (Cons d ds)
  then show ?case by (auto split: option.splits dest: Cons.IH)
qed simp

lemma finish_log:
  "snd (fst (abort_all (traced_env env) ds e x)) = snd x @ map TAbort ds"
  "snd (commit_all (traced_env env) ds x) = None \<Longrightarrow>
     snd (fst (commit_all (traced_env env) ds x)) = snd x @ map (\<lambda>d. TCommit d True) ds"
  using abort_all_log [of env ds e "fst x" "snd x"] commit_all_log [of env ds "fst x" "snd x"]
  by (metis prod.collapse)+

lemma delivery_of_keys:
  assumes "distinct (map fst (dd_deliveries dd))"
  shows "map (\<lambda>tgt. fst (delivery_of dd tgt)) (map fst (dd_deliveries dd)) = map (\<lambda>x. fst (snd x)) (dd_deliveries dd)"
  using assms by (auto simp: delivery_of_def)

lemma handles_mset:
  assumes "\<And>xs. mset (pe_order env xs) = mset xs" "distinct (map fst (dd_deliveries dd))"
  shows "mset (handles env dd) = mset (map (\<lambda>x. fst (snd x)) (dd_deliveries dd))"
proof -
  have "mset (handles env dd) = image_mset (\<lambda>tgt. fst (delivery_of dd tgt)) (mset (pe_order env (map fst (dd_deliveries dd))))"
    by (simp add: handles_def)
  also have "\<dots> = mset (map (\<lambda>tgt. fst (delivery_of dd tgt)) (map fst (dd_deliveries dd)))"
    by (simp only: assms(1) mset_map)
  finally show ?thesis by (simp only: delivery_of_keys [OF assms(2)])
qed

lemma mp_close_w_t [simp]: "w_t (mp_close env st) = w_t (snd st)"
  by (simp add: mp_close_def Let_def split: prod.split)

section \<open>The metadata during the checks of the body\<close>

lemma run_states_meta:
  assumes "\<And>s st. cr_msgMeta (fst (fst (runner s st))) = cr_msgMeta (fst st)"
  shows "cr_msgMeta (fst (fst (run_states runner ss st))) = cr_msgMeta (fst (fst st))"
proof (induction ss arbitrary: st)
  case (Cons s ss)
  obtain cr c oe where st: "st = ((cr, c), oe)" by (metis surj_pair)
  obtain cr1 c1 x where r: "runner s (cr, c) = ((cr1, c1), x)" by (metis surj_pair)
  with assms [of s "(cr, c)"] have e: "cr_msgMeta cr1 = cr_msgMeta cr" by simp
  show ?case
  proof (cases x)
    case (Some y)
    obtain cr2 oe2 where m: "merge_result y (cr1, oe) = (cr2, oe2)" by fastforce
    then have "cr_msgMeta cr2 = cr_msgMeta cr1" by (auto simp: merge_result_def Let_def split: if_splits)
    with Cons.IH [of "((cr2, c1), oe2)"] st r Some m e show ?thesis by simp
  qed (use Cons.IH [of "((cr1, c1), oe)"] st r e in simp)
qed simp

lemma run_merge_meta:
  assumes "\<And>s st. cr_msgMeta (fst (fst (runner s st))) = cr_msgMeta (fst st)"
  shows "cr_msgMeta (fst (fst (runAndMergeResults env runner ss st))) = cr_msgMeta (fst st)"
proof -
  let ?st = "(st, \<lparr>oe_quarantine = None, oe_reject = None\<rparr>)"
  have "cr_msgMeta (fst (fst (run_states runner (ce_sched env ss) ?st))) = cr_msgMeta (fst st)"
    using run_states_meta [of runner "ce_sched env ss" ?st] assms by simp
  then show ?thesis
    by (auto simp: runAndMergeResults_def finish_merge_def split: prod.split option.split)
qed

lemma call_meta [simp]:
  "cr_msgMeta (fst (fst (lift_call f st))) = cr_msgMeta (fst st)"
  "cr_msgMeta (fst (fst (call_rcpt env r s st))) = cr_msgMeta (fst st)"
  by (auto simp: call_rcpt_def lift_call_def split: prod.split)

lemma replay_rcpts_meta: "cr_msgMeta (fst (fst (replay_rcpts env ss rs st))) = cr_msgMeta (fst st)"
proof (induction rs arbitrary: st)
  case (Cons r rs)
  have "cr_msgMeta (fst (fst (runAndMergeResults env (call_rcpt env r) ss st))) = cr_msgMeta (fst st)"
    by (rule run_merge_meta) simp
  with Cons.IH show ?case by (auto split: prod.split option.split)
qed simp

lemma replay_sender_meta: "cr_msgMeta (fst (fst (replay_sender env ss st))) = cr_msgMeta (fst st)"
proof -
  have "cr_msgMeta (fst (fst (runAndMergeResults env (\<lambda>s. lift_call (ce_Connection env s)) ss st))) = cr_msgMeta (fst st)"
    "cr_msgMeta (fst (fst (runAndMergeResults env (\<lambda>s st. lift_call (ce_Sender env s (cr_mailFrom (fst st))) st) ss st')))
      = cr_msgMeta (fst st')" for st'
    by (rule run_merge_meta; simp)+
  then show ?thesis by (auto simp: replay_sender_def split: prod.split option.split)
qed

lemma checkStates_meta: "cr_msgMeta (fst (fst (checkStates env ks st))) = cr_msgMeta (fst st)"
proof -
  have "replay_sender env n (cr, c) = ((cr', c'), e) \<Longrightarrow> cr_msgMeta cr' = cr_msgMeta cr"
    "replay_rcpts env a rs (cr, c) = ((cr', c'), e) \<Longrightarrow> cr_msgMeta cr' = cr_msgMeta cr" for a n rs cr c cr' c' e
    using replay_sender_meta [of env n "(cr, c)"] replay_rcpts_meta [of env a rs "(cr, c)"] by simp_all
  then show ?thesis
    by (fastforce simp: checkStates_def split: prod.split sum.split option.split)
qed

lemma checkBody_meta: "cr_msgMeta (fst (fst (checkBody env lib lookup ks h b st))) = cr_msgMeta (fst st)"
proof -
  obtain cr c x where s: "checkStates env ks st = ((cr, c), x)" by (metis surj_pair)
  with checkStates_meta [of env ks st] have "cr_msgMeta cr = cr_msgMeta (fst st)" by simp
  moreover have "cr_msgMeta (fst (fst (runAndMergeResults env (\<lambda>s. lift_call (ce_Body env s h b)) a (cr', c)))) = cr_msgMeta cr'" for a cr'
    using run_merge_meta [of "\<lambda>s. lift_call (ce_Body env s h b)" env a "(cr', c)"] by simp
  ultimately show ?thesis using s by (auto simp: checkBody_def Let_def split: sum.split)
qed

abbreviation meta_of :: "('c, 'm, 't) pstate \<Rightarrow> msg_metadata" where
  "meta_of st \<equiv> cr_msgMeta (dd_cr (fst st))"

lemma sbind_meta:
  assumes "meta_of (fst r) = meta_of st" "\<And>x st'. meta_of (fst (f x st')) = meta_of st'"
  shows "meta_of (fst (sbind r f)) = meta_of st"
  using assms by (auto simp: sbind_def split: prod.split sum.split)

lemma check_body_meta: "meta_of (fst (check_body env hdr body checks st)) = meta_of st"
proof -
  obtain dd w where st: "st = (dd, w)" by fastforce
  obtain cr c e where c: "checkBody (pe_checks env) (pe_dmarc env) (pe_txt env) checks hdr body (dd_cr dd, w_c w) = ((cr, c), e)"
    by (metis surj_pair)
  with checkBody_meta [of "pe_checks env" "pe_dmarc env" "pe_txt env" checks hdr body "(dd_cr dd, w_c w)"]
  have "cr_msgMeta cr = cr_msgMeta (dd_cr dd)" by simp
  with st c show ?thesis by (simp add: check_body_def on_checks_def of_err_def split: option.split)
qed

lemma on_mods_fst: "fst (fst (on_mods f st)) = fst st"
  by (auto simp: on_mods_def split: prod.split)

lemma rewrite_blocks_meta: "meta_of (fst (rewrite_blocks env bs hdr body st)) = meta_of st"
  by (induction bs arbitrary: hdr st) (simp_all add: sbind_meta on_mods_fst)

lemma rewrite_body_meta: "meta_of (fst (rewrite_body env hdr body st)) = meta_of st"
  unfolding rewrite_body_def by (intro sbind_meta rewrite_blocks_meta) (simp_all add: on_mods_fst)

lemma deliver_non_atomic_fst: "fst (fst (deliver_non_atomic env hdr body tgts st)) = fst st"
  by (induction tgts arbitrary: st) (auto simp: Let_def case_prod_beta)

section \<open>What the checks said before the body is sent\<close>

text \<open>The pipeline with checks that record the calls of \<open>CheckBody\<close>.\<close>

definition logged_env :: "('c, 'm, 't) pipe_env \<Rightarrow> ('c \<times> body_call list, 'm, 't) pipe_env" where
  "logged_env e = \<lparr>pe_cfg = pe_cfg e, pe_text = pe_text e, pe_dmarc = pe_dmarc e, pe_txt = pe_txt e,
     pe_rand = pe_rand e, pe_format = pe_format e, pe_received = pe_received e, pe_Lookup = pe_Lookup e,
     pe_checks = logged_checks (pe_checks e), pe_mods = pe_mods e, pe_tgts = pe_tgts e, pe_order = pe_order e\<rparr>"

lemma logged_env_fields [simp]:
  "pe_cfg (logged_env e) = pe_cfg e" "pe_checks (logged_env e) = logged_checks (pe_checks e)" "pe_order (logged_env e) = pe_order e"
  "pe_dmarc (logged_env e) = pe_dmarc e" "pe_rand (logged_env e) = pe_rand e"
  by (simp_all add: logged_env_def)













section \<open>A concrete pipeline for the examples\<close>

text \<open>Target 2 refuses every recipient, the others accept; their state lists what they received.\<close>

definition sample_tgts :: "(nat \<times> string) list tgt_env" where
  "sample_tgts = \<lparr>te_Start = \<lambda>k m f t. (t, Inr k),
     te_AddRcpt = \<lambda>d r t. if d = 2 then (t, Some (errors_New ''no such user'')) else (t @ [(d, r)], None),
     te_Body = \<lambda>d h b t. (t @ [(d, ''body'')], None), te_IsPartial = \<lambda>d. False,
     te_BodyNonAtomic = \<lambda>d h b t. (t, []), te_Commit = \<lambda>d t. (t, None), te_Abort = \<lambda>d t. (t, None),
     te_IsPipeline = \<lambda>k. False\<rparr>"

definition sample_pipe :: "nat list \<Rightarrow> (unit, unit, (nat \<times> string) list) pipe_env" where
  "sample_pipe tgts = \<lparr>
     pe_cfg = \<lparr>pc_globalChecks = [], pc_globalModifiers = [], pc_sourceIn = [], pc_perSource = Map.empty,
       pc_defaultSource = zero_block, pc_doDMARC = False, pc_FirstPipeline = False,
       pc_blocks = \<lambda>b. \<lparr>rb_checks = [], rb_modifiers = [], rb_rejectErr = None, rb_targets = tgts\<rparr>\<rparr>,
     pe_text = sample_text,
     pe_dmarc = \<lparr>EqualFold = (=), PublicSuffix = \<lambda>d. d, EffectiveTLDPlusOne = Inr,
       ParseRecord = \<lambda>_. Inl (errors_New ''bad''), ParseAddressList = \<lambda>s. Inr [s], FQDN = \<lambda>d. d\<rparr>,
     pe_txt = \<lambda>n. Return ([], None), pe_rand = 0, pe_format = \<lambda>rs. '''', pe_received = \<lambda>m. Inr '''',
     pe_Lookup = \<lambda>t k. Inr False, pe_checks = sample_checks rev,
     pe_mods = \<lparr>me_State = \<lambda>k m c. (c, Inr k), me_Sender = \<lambda>s f c. (c, Inr f), me_Rcpt = \<lambda>s r c. (c, Inr [r]),
       me_Body = \<lambda>s h b c. (c, Inr h), me_Close = \<lambda>s c. c\<rparr>,
     pe_tgts = sample_tgts, pe_order = rev\<rparr>"

definition sample_dd :: mp_delivery where
  "sample_dd = \<lparr>dd_global = Some [], dd_source = Some [], dd_rcptMods = [], dd_sourceAddr = '''',
     dd_sourceBlock = zero_block, dd_deliveries = [],
     dd_cr = (newCheckRunner sample_msg)\<lparr>cr_mailFromReceived := True\<rparr>\<rparr>"

lemma sample_pipe_sel:
  "pe_cfg (sample_pipe tgts) = \<lparr>pc_globalChecks = [], pc_globalModifiers = [], pc_sourceIn = [], pc_perSource = Map.empty,
     pc_defaultSource = zero_block, pc_doDMARC = False, pc_FirstPipeline = False,
     pc_blocks = \<lambda>b. \<lparr>rb_checks = [], rb_modifiers = [], rb_rejectErr = None, rb_targets = tgts\<rparr>\<rparr>"
  "pe_text (sample_pipe tgts) = sample_text" "pe_rand (sample_pipe tgts) = 0"
  "pe_Lookup (sample_pipe tgts) = (\<lambda>t k. Inr False)" "pe_checks (sample_pipe tgts) = sample_checks rev"
  "pe_mods (sample_pipe tgts) = \<lparr>me_State = \<lambda>k m c. (c, Inr k), me_Sender = \<lambda>s f c. (c, Inr f),
     me_Rcpt = \<lambda>s r c. (c, Inr [r]), me_Body = \<lambda>s h b c. (c, Inr h), me_Close = \<lambda>s c. c\<rparr>"
  "pe_tgts (sample_pipe tgts) = sample_tgts" "pe_order (sample_pipe tgts) = rev"
  by (simp_all add: sample_pipe_def)

lemmas sample_simps = sample_pipe_sel sample_tgts_def sample_checks_def traced_env_def traced_tgts_def
  newCheckRunner_def on_checks_def on_mods_def of_err_def wrap_err_def mods_of_def Let_def
  checkConnSender_def checkStates_def checkRcpt_def checkBody_def runAndMergeResults_def finish_merge_def

lemma sample_Start:
  "mp_Start (traced_env (sample_pipe tgts)) sample_msg '''' \<lparr>w_c = (), w_m = (), w_t = ([], [])\<rparr> =
     (\<lparr>w_c = (), w_m = (), w_t = ([], [])\<rparr>, Inr sample_dd)"
  by (simp add: mp_Start_def mp_start_def initRunGlobalModifiers_def start_source_def srcBlockForAddr_def
      Split_def sample_dd_def sample_simps zero_block_def)

lemma sample_rcptBlock: "rcptBlockForAddr (sample_pipe tgts) zero_block ''b@y'' = Inr 0"
proof -
  have "\<not> EqualFoldASCII ''b@y'' ''postmaster''"
    by (simp add: EqualFoldASCII_def runes_ascii ascii_def)
  then show ?thesis
    by (simp add: rcptBlockForAddr_def sample_pipe_sel sample_ForLookup zero_block_def Split_def)
qed

section \<open>Properties\<close>

text \<open>C9. Life of the deliveries: for every configuration, all checks and modifiers, and every
  sequence of recipients, accepted or refused, \<open>Abort\<close> aborts exactly the deliveries that were
  started on targets, each once; and when \<open>Commit\<close> reports success, it has committed exactly
  those, each once.\<close>

theorem pipeline_finishes_deliveries:
  assumes "\<And>xs. mset (pe_order env xs) = mset xs" "snd (w_t w) = []"
    and "mp_Start (traced_env env) m f w = (w', Inr dd)" "st = add_rcpt_seq (traced_env env) rcpts (dd, w')"
  shows "\<exists>ds ds'. mset ds = mset ds' \<and>
    snd (w_t (fst (mp_Abort (traced_env env) st))) = map TStart ds @ map TAbort ds' \<and>
    (snd (mp_Commit (traced_env env) st) = None \<longrightarrow>
     snd (w_t (fst (mp_Commit (traced_env env) st))) = map TStart ds @ map (\<lambda>d. TCommit d True) ds')"
proof -
  have s: "started st"
    unfolding assms(4) using assms(3,2) by (intro add_rcpt_seq_started) (rule mp_Start_started)
  let ?ds = "map (\<lambda>x. fst (snd x)) (dd_deliveries (fst st))" and ?ds' = "handles (traced_env env) (fst st)"
  have "mset ?ds' = mset ?ds"
    using s assms(1) by (intro handles_mset) (simp_all add: started_def traced_env_def)
  moreover have l: "snd (w_t (snd st)) = map TStart ?ds" using s by (simp add: started_def comp_def)
  moreover have "snd (w_t (fst (mp_Abort (traced_env env) st))) = map TStart ?ds @ map TAbort ?ds'"
    using finish_log(1) [of env ?ds' None "w_t (snd st)"] l
    by (simp add: mp_Abort_def Let_def case_prod_beta)
  moreover have "snd (w_t (fst (mp_Commit (traced_env env) st))) = map TStart ?ds @ map (\<lambda>d. TCommit d True) ?ds'"
    if "snd (mp_Commit (traced_env env) st) = None"
    using that finish_log(2) [of env ?ds' "w_t (snd st)"] l
    by (simp add: mp_Commit_def Let_def case_prod_beta)
  ultimately show ?thesis by metis
qed

theorem pipeline_finishes_deliveries_witness:
  "\<exists>ds ds'. mset ds = mset ds' \<and>
    snd (w_t (fst (mp_Abort (traced_env (sample_pipe [1, 3]))
      (add_rcpt_seq (traced_env (sample_pipe [1, 3])) [''b@y'', ''c@z''] (sample_dd, \<lparr>w_c = (), w_m = (), w_t = ([], [])\<rparr>))))) =
    map TStart ds @ map TAbort ds'"
proof -
  have o: "mset (pe_order (sample_pipe [1, 3]) xs) = mset xs" for xs by (simp add: sample_pipe_def)
  show ?thesis
    using pipeline_finishes_deliveries [OF o _ sample_Start refl, of "[''b@y'', ''c@z'']"] by fastforce
qed





text \<open>\<open>BodyNonAtomic\<close> ignores quarantine: whatever the checks report, it never marks the
  message as quarantined and leaves all metadata as it was, because it does not apply the results
  of the checks; \<open>Body\<close> does.\<close>

theorem body_non_atomic_ignores_quarantine:
  "meta_of (fst (mp_BodyNonAtomic env hdr body st)) = meta_of st"
proof -
  let ?r = "sbind (check_body env hdr body (pc_globalChecks (pe_cfg env)) st) (\<lambda>_ st.
     sbind (check_body env hdr body (sb_checks (dd_sourceBlock (fst st))) st) (\<lambda>_ st. rewrite_body env hdr body st))"
  have "meta_of (fst ?r) = meta_of st"
    by (intro sbind_meta check_body_meta rewrite_body_meta)
  then show ?thesis
    by (auto simp: mp_BodyNonAtomic_def deliver_non_atomic_fst split: prod.split sum.split)
qed

text \<open>A refused recipient can still get the message: with two targets of which the second
  refuses, \<open>AddRcpt\<close> returns an error to the client, but the first target keeps the recipient and
  will deliver the message to it with the rest.\<close>

theorem add_rcpt_error_keeps_recipient:
  "\<exists>st' e. mp_AddRcpt (sample_pipe [1, 2]) ''b@y'' (sample_dd, \<lparr>w_c = (), w_m = (), w_t = []\<rparr>) = (st', Inl e) \<and>
     w_t (snd st') = [(1, ''b@y'')] \<and> map fst (dd_deliveries (fst st')) = [1, 2]"
  by (simp add: mp_AddRcpt_def add_one_def getRcptModifiers_def getDelivery_def append_rcpt_def set_original_def
      sample_dd_def sample_rcptBlock zero_block_def [THEN arg_cong [where f = sb_checks]] sample_simps)

end
