(* ===== verification/Cfg_Lexer.thy ===== *)
theory Cfg_Lexer
  imports Go_Base Exterrors
begin

text \<open>
  Model of \<^verbatim>\<open>framework/config/lexer\<close>: the scanner that cuts a configuration file into tokens
  (\<^verbatim>\<open>lexer.go\<close>, \<^verbatim>\<open>parse.go\<close>) and the dispenser that walks over the tokens
  (\<^verbatim>\<open>dispenser.go\<close>).

  The scanner reads runes, so its input is the list of runes of the file; a reader that fails
  half way is not modelled. The dispenser is a record with the same fields as the struct; its
  methods are defined on every extension of it, because the parser embeds it.
\<close>

section \<open>Scanner\<close>

record token =
  tk_File :: string
  tk_Line :: int
  tk_Text :: string

abbreviation "r_nl \<equiv> (0x0A :: rune)"
abbreviation "r_cr \<equiv> (0x0D :: rune)"
abbreviation "r_quote \<equiv> (0x22 :: rune)"
abbreviation "r_hash \<equiv> (0x23 :: rune)"
abbreviation "r_backslash \<equiv> (0x5C :: rune)"

text \<open>\<open>unicode.IsSpace\<close>.\<close>

definition IsSpace :: "rune \<Rightarrow> bool" where
  "IsSpace r \<longleftrightarrow> r \<in> {0x09, 0x0A, 0x0B, 0x0C, 0x0D, 0x20, 0x85, 0xA0, 0x1680, 0x2028, 0x2029, 0x202F, 0x205F, 0x3000}
     \<or> (0x2000 \<le> r \<and> r \<le> 0x200A)"

text \<open>The loop of \<open>next\<close>. The arguments are the local variables \<open>val\<close>, \<open>comment\<close>, \<open>quoted\<close> and
  \<open>escaped\<close>, the line on which the token began, the current line and the rest of the input. The result
  is the token, if one was loaded, with the line and the input after it.\<close>

fun lex_loop :: "rune list \<Rightarrow> bool \<Rightarrow> bool \<Rightarrow> bool \<Rightarrow> int \<Rightarrow> int \<Rightarrow> rune list \<Rightarrow> token option \<times> int \<times> rune list" where
  "lex_loop val comment quoted escaped start line [] =
     (if val \<noteq> [] then (Some \<lparr>tk_File = '''', tk_Line = start, tk_Text = encode_runes val\<rparr>, line, [])
      else (None, line, []))"
| "lex_loop val comment quoted escaped start line (ch # rest) =
     (if quoted then
        (if \<not> escaped \<and> ch = r_backslash then lex_loop val comment quoted True start line rest
         else if \<not> escaped \<and> ch = r_quote
         then (Some \<lparr>tk_File = '''', tk_Line = start, tk_Text = encode_runes val\<rparr>, line, rest)
         else lex_loop (val @ (if escaped \<and> ch \<noteq> r_quote then [r_backslash] else []) @ [ch]) comment quoted False start
                (if ch = r_nl then line + 1 else line) rest)
      else if IsSpace ch then
        (if ch = r_cr then lex_loop val comment quoted escaped start line rest
         else
           let line = (if ch = r_nl then line + 1 else line);
               comment = (if ch = r_nl then False else comment) in
           if val \<noteq> [] then (Some \<lparr>tk_File = '''', tk_Line = start, tk_Text = encode_runes val\<rparr>, line, rest)
           else lex_loop val comment quoted escaped start line rest)
      else
        let comment = (if ch = r_hash then True else comment) in
        if comment then lex_loop val comment quoted escaped start line rest
        else if val = [] then
          (if ch = r_quote then lex_loop val comment True escaped line line rest
           else lex_loop [ch] comment quoted escaped line line rest)
        else lex_loop (val @ [ch]) comment quoted escaped start line rest)"

record lexer =
  lx_reader :: "rune list"
  lx_line :: int

definition lexer_next :: "lexer \<Rightarrow> token option \<times> lexer" where
  "lexer_next l =
     (case lex_loop [] False False False 0 (lx_line l) (lx_reader l) of
        (t, line, rest) \<Rightarrow> (t, \<lparr>lx_reader = rest, lx_line = line\<rparr>))"

text \<open>\<open>load\<close> drops a byte order mark. An empty file is an error (\<open>io.EOF\<close>).\<close>

definition lexer_load :: "string \<Rightarrow> lexer option" where
  "lexer_load input =
     (case runes input of
        [] \<Rightarrow> None
      | firstCh # rest \<Rightarrow> Some \<lparr>lx_reader = (if firstCh = 0xFEFF then rest else firstCh # rest), lx_line = 1\<rparr>)"

lemma lex_loop_shorter:
  "lex_loop val c q e s l rs = (Some t, l', rs') \<Longrightarrow> length rs' < length rs \<or> (rs' = [] \<and> rs = [] \<and> val \<noteq> [])"
proof (induction rs arbitrary: val c q e s l)
  case (Cons ch rest)
  show ?case using Cons.prems by (auto simp: Let_def split: if_splits dest!: Cons.IH)
qed (auto split: if_splits)

lemma lexer_next_shorter:
  "lexer_next l = (Some t, l') \<Longrightarrow> length (lx_reader l') < length (lx_reader l)"
  using lex_loop_shorter by (fastforce simp: lexer_next_def split: prod.splits)

function lex_all :: "lexer \<Rightarrow> token list" where
  "lex_all l = (case lexer_next l of (None, _) \<Rightarrow> [] | (Some t, l') \<Rightarrow> t # lex_all l')"
  by pat_completeness auto
termination
  by (relation "measure (\<lambda>l. length (lx_reader l))") (auto dest: lexer_next_shorter [OF sym])

declare lex_all.simps [simp del]

definition allTokens :: "string \<Rightarrow> token list option" where
  "allTokens input = map_option lex_all (lexer_load input)"

section \<open>Dispenser\<close>

record dispenser =
  ds_filename :: string
  ds_tokens :: "token list"
  ds_cursor :: int
  ds_nesting :: int

definition NewDispenser :: "string \<Rightarrow> string \<Rightarrow> dispenser" where
  "NewDispenser filename input = \<lparr>ds_filename = filename,
     ds_tokens = (case allTokens input of Some ts \<Rightarrow> ts | None \<Rightarrow> []), ds_cursor = -1, ds_nesting = 0\<rparr>"

definition NewDispenserTokens :: "string \<Rightarrow> token list \<Rightarrow> dispenser" where
  "NewDispenserTokens filename tokens =
     \<lparr>ds_filename = filename, ds_tokens = tokens, ds_cursor = -1, ds_nesting = 0\<rparr>"

abbreviation ds_len :: "'a dispenser_scheme \<Rightarrow> int" where
  "ds_len d \<equiv> int (length (ds_tokens d))"

text \<open>A token by its index; the callers stay within the list.\<close>

abbreviation ds_at :: "'a dispenser_scheme \<Rightarrow> int \<Rightarrow> token" where
  "ds_at d i \<equiv> ds_tokens d ! nat i"

abbreviation ds_loaded :: "'a dispenser_scheme \<Rightarrow> bool" where
  "ds_loaded d \<equiv> 0 \<le> ds_cursor d \<and> ds_cursor d < ds_len d"

abbreviation ds_advance :: "'a dispenser_scheme \<Rightarrow> 'a dispenser_scheme" where
  "ds_advance d \<equiv> d\<lparr>ds_cursor := ds_cursor d + 1\<rparr>"

definition numLineBreaks :: "'a dispenser_scheme \<Rightarrow> int \<Rightarrow> int" where
  "numLineBreaks d tknIdx =
     (if tknIdx < 0 \<or> ds_len d \<le> tknIdx then 0
      else int (count_list (tk_Text (ds_at d tknIdx)) CHR ''\<newline>''))"

definition Next :: "'a dispenser_scheme \<Rightarrow> bool \<times> 'a dispenser_scheme" where
  "Next d = (if ds_cursor d < ds_len d - 1 then (True, ds_advance d) else (False, d))"

definition NextArg :: "'a dispenser_scheme \<Rightarrow> bool \<times> 'a dispenser_scheme" where
  "NextArg d =
     (if ds_cursor d < 0 then (True, ds_advance d)
      else if ds_len d \<le> ds_cursor d then (False, d)
      else if ds_cursor d < ds_len d - 1 \<and>
              tk_File (ds_at d (ds_cursor d)) = tk_File (ds_at d (ds_cursor d + 1)) \<and>
              tk_Line (ds_at d (ds_cursor d)) + numLineBreaks d (ds_cursor d) = tk_Line (ds_at d (ds_cursor d + 1))
      then (True, ds_advance d) else (False, d))"

definition NextLine :: "'a dispenser_scheme \<Rightarrow> bool \<times> 'a dispenser_scheme" where
  "NextLine d =
     (if ds_cursor d < 0 then (True, ds_advance d)
      else if ds_len d \<le> ds_cursor d then (False, d)
      else if ds_cursor d < ds_len d - 1 \<and>
              (tk_File (ds_at d (ds_cursor d)) \<noteq> tk_File (ds_at d (ds_cursor d + 1)) \<or>
               tk_Line (ds_at d (ds_cursor d)) + numLineBreaks d (ds_cursor d) < tk_Line (ds_at d (ds_cursor d + 1)))
      then (True, ds_advance d) else (False, d))"

definition Val :: "'a dispenser_scheme \<Rightarrow> string" where
  "Val d = (if ds_loaded d then tk_Text (ds_at d (ds_cursor d)) else '''')"

definition Line :: "'a dispenser_scheme \<Rightarrow> int" where
  "Line d = (if ds_loaded d then tk_Line (ds_at d (ds_cursor d)) else 0)"

definition File :: "'a dispenser_scheme \<Rightarrow> string" where
  "File d = (if ds_loaded d then
               (if tk_File (ds_at d (ds_cursor d)) \<noteq> '''' then tk_File (ds_at d (ds_cursor d)) else ds_filename d)
             else ds_filename d)"

definition NextBlock :: "'a dispenser_scheme \<Rightarrow> bool \<times> 'a dispenser_scheme" where
  "NextBlock d =
     (if 0 < ds_nesting d then
        (let d = snd (Next d) in
         if Val d = ''}'' then (False, d\<lparr>ds_nesting := ds_nesting d - 1\<rparr>) else (True, d))
      else case NextArg d of
        (False, d) \<Rightarrow> (False, d)
      | (True, d) \<Rightarrow>
          if Val d \<noteq> ''{'' then (False, d\<lparr>ds_cursor := ds_cursor d - 1\<rparr>)
          else
            let d = snd (Next d) in
            if Val d = ''}'' then (False, d) else (True, d\<lparr>ds_nesting := ds_nesting d + 1\<rparr>))"

text \<open>\<open>Args\<close> stores into the given variables; here it returns what it stores.\<close>

fun Args :: "nat \<Rightarrow> 'a dispenser_scheme \<Rightarrow> (bool \<times> string list) \<times> 'a dispenser_scheme" where
  "Args 0 d = ((True, []), d)"
| "Args (Suc n) d =
     (case NextArg d of
        (False, d) \<Rightarrow> ((False, []), d)
      | (True, d) \<Rightarrow> (case Args n d of ((ok, vs), d') \<Rightarrow> ((ok, Val d # vs), d')))"

lemma NextArg_measure:
  "NextArg d = (True, d') \<Longrightarrow> ds_tokens d' = ds_tokens d \<and> ds_cursor d' = ds_cursor d + 1 \<and> ds_cursor d < ds_len d"
  by (auto simp: NextArg_def split: if_splits)

function RemainingArgs :: "'a dispenser_scheme \<Rightarrow> string list \<times> 'a dispenser_scheme" where
  "RemainingArgs d =
     (case NextArg d of
        (False, d) \<Rightarrow> ([], d)
      | (True, d) \<Rightarrow>
          if Val d = ''{'' then ([], d\<lparr>ds_cursor := ds_cursor d - 1\<rparr>)
          else (case RemainingArgs d of (args, d') \<Rightarrow> (Val d # args, d')))"
  by pat_completeness auto
termination
  by (relation "measure (\<lambda>d. nat (ds_len d - ds_cursor d))") (auto dest!: NextArg_measure [OF sym])

section \<open>Errors\<close>

text \<open>\<open>Err\<close>, \<open>SyntaxErr\<close>, \<open>ArgErr\<close> and \<open>EOFErr\<close>.\<close>

definition ds_Err :: "'a dispenser_scheme \<Rightarrow> string \<Rightarrow> goerr" where
  "ds_Err d msg = Opaque (File d @ '':'' @ int_text (Line d) @ '' - Error during parsing: '' @ msg) None"

definition ds_SyntaxErr :: "'a dispenser_scheme \<Rightarrow> string \<Rightarrow> goerr" where
  "ds_SyntaxErr d expected = Opaque (File d @ '':'' @ int_text (Line d) @ '' - Syntax error: Unexpected token '' @
     [CHR 0x27] @ Val d @ [CHR 0x27] @ '', expecting '' @ [CHR 0x27] @ expected @ [CHR 0x27]) None"

definition ds_ArgErr :: "'a dispenser_scheme \<Rightarrow> goerr" where
  "ds_ArgErr d =
     (if Val d = ''{'' then ds_Err d (''Unexpected token '' @ [CHR 0x27] @ ''{'' @ [CHR 0x27] @ '', expecting argument'')
      else ds_Err d (''Wrong argument count or unexpected line ending after '' @ [CHR 0x27] @ Val d @ [CHR 0x27]))"

definition ds_EOFErr :: "'a dispenser_scheme \<Rightarrow> goerr" where
  "ds_EOFErr d = ds_Err d ''Unexpected EOF''"

end
