(* ===== verification/Cfg_Parser.thy ===== *)
theory Cfg_Parser
  imports Cfg_Lexer
begin

text \<open>
  Model of \<^verbatim>\<open>framework/cfgparser\<close>: the parser that builds the tree of directives
  (\<^verbatim>\<open>parse.go\<close>), the expansion of macros and imports (\<^verbatim>\<open>imports.go\<close>) and of
  environment variables (\<^verbatim>\<open>env.go\<close>).

  The result of a call is an error or a value, inside an \<open>outcome\<close>: \<open>Panic\<close> is an index out of
  range, \<open>Blocked\<close> means that the given fuel was used up, which is shown to be impossible for the fuel
  \<open>readTree\<close> gives. The parse tree that accompanies an error is dropped. The tables of Unicode, the files
  and the environment are the fields of \<open>cfg_lib\<close>.
\<close>

section \<open>Results\<close>

type_synonym 'a res = "(goerr + 'a) outcome"

abbreviation Ok :: "'a \<Rightarrow> 'a res" where "Ok x \<equiv> Return (Inr x)"
abbreviation Fail :: "goerr \<Rightarrow> 'a res" where "Fail e \<equiv> Return (Inl e)"

definition rbind :: "'a res \<Rightarrow> ('a \<Rightarrow> 'b res) \<Rightarrow> 'b res" where
  "rbind m f = (case m of Return (Inr x) \<Rightarrow> f x | Return (Inl e) \<Rightarrow> Fail e | Panic p \<Rightarrow> Panic p | Blocked \<Rightarrow> Blocked)"

lemma rbind_simps [simp]:
  "rbind (Ok x) f = f x" "rbind (Fail e) f = Fail e" "rbind (Panic p) f = Panic p" "rbind Blocked f = Blocked"
  by (simp_all add: rbind_def)

lemma rbind_Ok_iff: "rbind m f = Ok y \<longleftrightarrow> (\<exists>x. m = Ok x \<and> f x = Ok y)"
  by (auto simp: rbind_def split: outcome.splits sum.splits)

lemma rbind_Blocked_iff: "rbind m f = Blocked \<longleftrightarrow> m = Blocked \<or> (\<exists>x. m = Ok x \<and> f x = Blocked)"
  by (auto simp: rbind_def split: outcome.splits sum.splits)

lemma rbind_cong [fundef_cong]:
  "m = m' \<Longrightarrow> (\<And>x. m' = Ok x \<Longrightarrow> f x = f' x) \<Longrightarrow> rbind m f = rbind m' f'"
  by (auto simp: rbind_def split: outcome.splits sum.splits)

section \<open>Data\<close>

text \<open>\<open>Children\<close> is nil for a directive without a block.\<close>

datatype node = Node
  (nd_Name: string)
  (nd_Args: "string list")
  (nd_Children: "node list option")
  (nd_Snippet: bool)
  (nd_Macro: bool)
  (nd_File: string)
  (nd_Line: int)

text \<open>A property of all nodes of a tree, and a tree without the positions in the file.\<close>

fun node_all :: "(node \<Rightarrow> bool) \<Rightarrow> node \<Rightarrow> bool" where
  "node_all P (Node name args children sn ma f l) \<longleftrightarrow>
     P (Node name args children sn ma f l) \<and> (case children of None \<Rightarrow> True | Some cs \<Rightarrow> list_all (node_all P) cs)"

fun strip :: "node \<Rightarrow> node" where
  "strip (Node name args children sn ma f l) = Node name args (map_option (map strip) children) sn ma '''' 0"

record parse_context = dispenser +
  pc_nesting :: int
  pc_snippets :: "string \<rightharpoonup> node list option"
  pc_macros :: "string \<rightharpoonup> string list"
  pc_fileLocation :: string

text \<open>What opening a file gives.\<close>

datatype opened = NotExist | OpenFailed goerr | Opened string

record cfg_lib =
  cl_IsLetter :: "rune \<Rightarrow> bool"
  cl_IsDigit :: "rune \<Rightarrow> bool"
  cl_Open :: "string \<Rightarrow> opened"
  cl_Environ :: "string list"

definition NodeErr :: "node \<Rightarrow> string \<Rightarrow> goerr" where
  "NodeErr n msg =
     (if nd_File n = '''' then Opaque msg None
      else Opaque (nd_File n @ '':'' @ int_text (nd_Line n) @ '': '' @ msg) None)"

section \<open>Names\<close>

definition allowedPunct :: "rune \<Rightarrow> bool" where
  "allowedPunct r \<longleftrightarrow> r \<in> {0x2E, 0x2D, 0x5F}"

fun bad_name_rune :: "cfg_lib \<Rightarrow> rune list \<Rightarrow> rune option" where
  "bad_name_rune lib [] = None"
| "bad_name_rune lib (ch # rest) =
     (if \<not> cl_IsLetter lib ch \<and> \<not> cl_IsDigit lib ch \<and> \<not> allowedPunct ch then Some ch else bad_name_rune lib rest)"

definition validateNodeName :: "cfg_lib \<Rightarrow> string \<Rightarrow> goerr option" where
  "validateNodeName lib s =
     (if s = '''' then Some (Opaque ''empty directive name'' None)
      else if cl_IsDigit lib (hd (runes s)) then Some (Opaque ''directive name cannot start with a digit'' None)
      else case bad_name_rune lib (runes s) of
        Some ch \<Rightarrow> Some (Opaque (''character not allowed in directive name: '' @ encode_rune ch) None)
      | None \<Rightarrow> None)"

definition isSnippet :: "string \<Rightarrow> bool \<times> string" where
  "isSnippet name =
     (if HasPrefix name ''('' \<and> HasSuffix name '')'' then (True, butlast (drop 1 name)) else (False, ''''))"

text \<open>The slices are in range: a name that begins with \<open>$(\<close> and ends with \<open>)\<close> has three characters.\<close>

definition parseAsMacro :: "'a dispenser_scheme \<Rightarrow> string \<Rightarrow> string list \<Rightarrow> goerr + (string \<times> string list)" where
  "parseAsMacro ctx name args =
     (if \<not> HasPrefix name ''$('' then Inr ('''', [])
      else if \<not> HasSuffix name '')'' then Inl (ds_Err ctx ''macro name must end with )'')
      else if length args < 2 then Inl (ds_Err ctx ''at least 2 arguments are required'')
      else if hd args \<noteq> ''='' then Inl (ds_Err ctx ''missing = in macro declaration'')
      else Inr (butlast (drop 2 name), tl args))"

section \<open>Macros\<close>

text \<open>\<open>strings.Replace\<close> without limit, for a non-empty pattern.\<close>

function ReplaceAll :: "string \<Rightarrow> string \<Rightarrow> string \<Rightarrow> string" where
  "ReplaceAll [] old new = []"
| "ReplaceAll (c # s) old new =
     (if old \<noteq> [] \<and> HasPrefix (c # s) old then new @ ReplaceAll (drop (length old) (c # s)) old new
      else c # ReplaceAll s old new)"
  by pat_completeness auto
termination
  by (relation "measure (\<lambda>(s, old, new). length s)") (auto simp: neq_Nil_conv)

text \<open>The regular expression \<open>open([^$]+)close\<close>: the group is greedy, so it reaches to the last closing
  character of the run of characters other than the dollar sign. The result is the group and the rest of the
  input after the match.\<close>

definition match_group :: "string \<Rightarrow> char \<Rightarrow> string \<Rightarrow> (string \<times> string) option" where
  "match_group pre close s =
     (if \<not> HasPrefix s pre then None
      else
        let s = drop (length pre) s; run = takeWhile (\<lambda>c. c \<noteq> CHR ''$'') s in
        case LastIndexByte run close of
          None \<Rightarrow> None
        | Some i \<Rightarrow> if i = 0 then None else Some (take i run, drop (i + 1) s))"

lemma match_group_shorter:
  "match_group pre close s = Some (g, rest) \<Longrightarrow> length rest < length s"
  using length_takeWhile_le [of "\<lambda>c. c \<noteq> CHR ''$''" "drop (length pre) s"]
  by (cases "s = []") (auto simp: match_group_def HasPrefix_def Let_def split: if_splits option.splits)

function find_groups :: "string \<Rightarrow> char \<Rightarrow> string \<Rightarrow> string list" where
  "find_groups pre close [] = []"
| "find_groups pre close (c # s) =
     (case match_group pre close (c # s) of
        Some (g, rest) \<Rightarrow> g # find_groups pre close rest
      | None \<Rightarrow> find_groups pre close s)"
  by pat_completeness auto
termination
  by (relation "measure (\<lambda>(p, c, s). length s)") (auto dest: match_group_shorter)

definition macro_matches :: "string \<Rightarrow> string list" where
  "macro_matches arg = find_groups ''$('' CHR '')'' arg"

text \<open>A macro that is defined with an empty list of values makes the index expression panic.\<close>

fun expand_matches :: "'a dispenser_scheme \<Rightarrow> (string \<rightharpoonup> string list) \<Rightarrow> string list \<Rightarrow> string \<Rightarrow> string res" where
  "expand_matches ctx macros [] arg = Ok arg"
| "expand_matches ctx macros (macroName # ms) arg =
     (case macros macroName of
        None \<Rightarrow> expand_matches ctx macros ms (ReplaceAll arg (''$('' @ macroName @ '')'') '''')
      | Some vals \<Rightarrow>
          if 1 < length vals then Fail (ds_Err ctx (''can'' @ [CHR 0x27] @ ''t expand macro with multiple arguments inside a string''))
          else if vals = [] then Panic ''index out of range''
          else expand_matches ctx macros ms (ReplaceAll arg (''$('' @ macroName @ '')'') (hd vals)))"

definition expandSingleValueMacro :: "'a dispenser_scheme \<Rightarrow> (string \<rightharpoonup> string list) \<Rightarrow> string \<Rightarrow> string res" where
  "expandSingleValueMacro ctx macros arg = expand_matches ctx macros (macro_matches arg) arg"

definition is_macro_ref :: "string \<Rightarrow> bool" where
  "is_macro_ref arg \<longleftrightarrow> HasPrefix arg ''$('' \<and> HasSuffix arg '')''"

fun expand_args :: "'a dispenser_scheme \<Rightarrow> (string \<rightharpoonup> string list) \<Rightarrow> string list \<Rightarrow> string list res" where
  "expand_args ctx macros [] = Ok []"
| "expand_args ctx macros (arg # args) =
     (if \<not> is_macro_ref arg then
        rbind (if Contains arg ''$('' \<and> Contains arg '')'' then expandSingleValueMacro ctx macros arg else Ok arg) (\<lambda>arg.
        rbind (expand_args ctx macros args) (\<lambda>new. Ok (arg # new)))
      else
        let macroName = butlast (drop 2 arg) in
        rbind (expand_args ctx macros args) (\<lambda>new.
          case macros macroName of None \<Rightarrow> Ok new | Some replacement \<Rightarrow> Ok (replacement @ new)))"

fun expandMacros :: "'a dispenser_scheme \<Rightarrow> (string \<rightharpoonup> string list) \<Rightarrow> node \<Rightarrow> node res"
and expandMacros_list :: "'a dispenser_scheme \<Rightarrow> (string \<rightharpoonup> string list) \<Rightarrow> node list \<Rightarrow> node list res" where
  "expandMacros ctx macros (Node name args children sn ma f l) =
     (if is_macro_ref name then Fail (ds_Err ctx (''can'' @ [CHR 0x27] @ ''t use macro argument as directive name''))
      else
        rbind (expand_args ctx macros args) (\<lambda>args.
          case children of
            None \<Rightarrow> Ok (Node name args None sn ma f l)
          | Some cs \<Rightarrow> rbind (expandMacros_list ctx macros cs) (\<lambda>cs. Ok (Node name args (Some cs) sn ma f l))))"
| "expandMacros_list ctx macros [] = Ok []"
| "expandMacros_list ctx macros (n # ns) =
     rbind (expandMacros ctx macros n) (\<lambda>n. rbind (expandMacros_list ctx macros ns) (\<lambda>ns. Ok (n # ns)))"

section \<open>Parser\<close>

text \<open>The condition of the inner loop of \<open>readNode\<close>: the next token of the line, or of the next line
  after an escaped line break.\<close>

definition next_of_node :: "bool \<Rightarrow> 'a dispenser_scheme \<Rightarrow> bool \<times> 'a dispenser_scheme" where
  "next_of_node continueOnLF ctx =
     (case NextArg ctx of
        (True, ctx) \<Rightarrow> (True, ctx)
      | (False, ctx) \<Rightarrow> if continueOnLF then NextLine ctx else (False, ctx))"

text \<open>The advance of the cursor at the head of the loop of \<open>readNodes\<close>: go on, stop, or fail.\<close>

datatype 'a advance = GoOn 'a | AtEOF 'a | NoNewline 'a

definition next_of_block :: "bool \<Rightarrow> 'a dispenser_scheme \<Rightarrow> 'a dispenser_scheme advance" where
  "next_of_block requireNewLine ctx =
     (if requireNewLine then
        (case NextLine ctx of
           (True, ctx) \<Rightarrow> GoOn ctx
         | (False, ctx) \<Rightarrow> (case Next ctx of (False, ctx) \<Rightarrow> AtEOF ctx | (True, ctx) \<Rightarrow> NoNewline ctx))
      else (case Next ctx of (True, ctx) \<Rightarrow> GoOn ctx | (False, ctx) \<Rightarrow> AtEOF ctx))"

text \<open>The end of \<open>readNode\<close>, after the arguments and the block were read.\<close>

definition finish_node ::
  "cfg_lib \<Rightarrow> string \<Rightarrow> int \<Rightarrow> string \<Rightarrow> string list \<Rightarrow> node list option \<Rightarrow> parse_context \<Rightarrow> (node \<times> parse_context) res" where
  "finish_node lib file line val args children ctx =
     (case isSnippet val of (snippet, sname) \<Rightarrow>
        let name = (if snippet then sname else val) in
        case parseAsMacro ctx name args of
          Inl e \<Rightarrow> Fail e
        | Inr (macroName, macroArgs) \<Rightarrow>
            if macroName \<noteq> '''' then Ok (Node macroName macroArgs children snippet True file line, ctx)
            else if \<not> snippet then
              (case validateNodeName lib name of
                 Some e \<Rightarrow> Fail e
               | None \<Rightarrow> Ok (Node name args children snippet False file line, ctx))
            else Ok (Node name args children snippet False file line, ctx))"

text \<open>What \<open>readNodes\<close> does with a node it has read: the new context, the nodes so far, and whether
  the block ended.\<close>

definition drop_brace :: "node \<Rightarrow> parse_context \<Rightarrow> bool \<times> node \<times> parse_context" where
  "drop_brace n ctx =
     (case n of Node name args ch sn ma f l \<Rightarrow>
        if args \<noteq> [] \<and> last args = ''}''
        then (True, Node name (butlast args) ch sn ma f l, ctx\<lparr>pc_nesting := pc_nesting ctx - 1\<rparr>)
        else (False, n, ctx))"

definition take_node :: "node \<Rightarrow> node list \<Rightarrow> parse_context \<Rightarrow> (bool \<times> node list \<times> parse_context) res" where
  "take_node n res ctx =
     (case drop_brace n ctx of (shouldStop, n, ctx) \<Rightarrow>
        if shouldStop \<and> pc_nesting ctx < 0 then Fail (ds_Err ctx ''unexpected }'')
        else if nd_Macro n then
          (if pc_nesting ctx \<noteq> 0 then Fail (ds_Err ctx ''macro declarations are only allowed at top-level'')
           else rbind (expandMacros ctx (pc_macros ctx) n) (\<lambda>n.
             Ok (False, res, ctx\<lparr>pc_macros := (pc_macros ctx)(nd_Name n \<mapsto> nd_Args n)\<rparr>)))
        else if nd_Snippet n then
          (if pc_nesting ctx \<noteq> 0 then Fail (ds_Err ctx ''snippet declarations are only allowed at top-level'')
           else if nd_Args n \<noteq> [] then Fail (ds_Err ctx (''snippet declarations can'' @ [CHR 0x27] @ ''t have arguments''))
           else Ok (False, res, ctx\<lparr>pc_snippets := (pc_snippets ctx)(nd_Name n \<mapsto> nd_Children n)\<rparr>))
        else rbind (expandMacros ctx (pc_macros ctx) n) (\<lambda>n. Ok (shouldStop, res @ [n], ctx)))"

fun readNode :: "cfg_lib \<Rightarrow> nat \<Rightarrow> parse_context \<Rightarrow> (node \<times> parse_context) res"
and node_loop :: "cfg_lib \<Rightarrow> nat \<Rightarrow> bool \<Rightarrow> string list \<Rightarrow> node list option \<Rightarrow> parse_context \<Rightarrow>
      ((string list \<times> node list option) \<times> parse_context) res"
and readNodes :: "cfg_lib \<Rightarrow> nat \<Rightarrow> parse_context \<Rightarrow> (node list \<times> parse_context) res"
and nodes_loop :: "cfg_lib \<Rightarrow> nat \<Rightarrow> bool \<Rightarrow> node list \<Rightarrow> parse_context \<Rightarrow> (node list \<times> parse_context) res" where
  "readNode lib 0 ctx = Blocked"
| "readNode lib (Suc fuel) ctx =
     (if Val ctx = ''{'' then Fail (ds_SyntaxErr ctx ''block header'')
      else
        rbind (node_loop lib fuel False [] None ctx) (\<lambda>((args, children), ctx').
          finish_node lib (File ctx) (Line ctx) (Val ctx) args children ctx'))"
| "node_loop lib 0 continueOnLF args children ctx = Blocked"
| "node_loop lib (Suc fuel) continueOnLF args children ctx =
     (let line_end = (\<lambda>(args, children, ctx).
            if args \<noteq> [] \<and> last args = [CHR 0x5C] then node_loop lib fuel True (butlast args) children ctx
            else Ok ((args, children), ctx)) in
      case next_of_node continueOnLF ctx of
        (False, ctx) \<Rightarrow> line_end (args, children, ctx)
      | (True, ctx) \<Rightarrow>
          if Val ctx = ''{'' then rbind (readNodes lib fuel ctx) (\<lambda>(nodes, ctx). line_end (args, Some nodes, ctx))
          else node_loop lib fuel False (args @ [Val ctx]) children ctx)"
| "readNodes lib 0 ctx = Blocked"
| "readNodes lib (Suc fuel) ctx =
     (if 255 < pc_nesting ctx then Fail (ds_Err ctx ''nesting limit reached'')
      else nodes_loop lib fuel False [] (ctx\<lparr>pc_nesting := pc_nesting ctx + 1\<rparr>))"
| "nodes_loop lib 0 requireNewLine res ctx = Blocked"
| "nodes_loop lib (Suc fuel) requireNewLine res ctx =
     (case next_of_block requireNewLine ctx of
        AtEOF ctx \<Rightarrow> Ok (res, ctx)
      | NoNewline ctx \<Rightarrow> Fail (ds_Err ctx ''newline is required after closing brace'')
      | GoOn ctx \<Rightarrow>
          if Val ctx = ''}'' then
            (let ctx = ctx\<lparr>pc_nesting := pc_nesting ctx - 1\<rparr> in
             if pc_nesting ctx < 0 then Fail (ds_Err ctx ''unexpected }'') else Ok (res, ctx))
          else
            rbind (readNode lib fuel ctx) (\<lambda>(n, ctx).
            rbind (take_node n res ctx) (\<lambda>(stop, res, ctx).
              if stop then Ok (res, ctx) else nodes_loop lib fuel True res ctx)))"

text \<open>The fuel \<open>readTree\<close> gives: two calls for each token.\<close>

definition parse_fuel :: "parse_context \<Rightarrow> nat" where
  "parse_fuel ctx = 2 * length (ds_tokens ctx) + 2"

section \<open>File names\<close>

text \<open>\<open>path/filepath\<close> on Unix: \<open>IsAbs\<close>, \<open>Clean\<close>, \<open>Dir\<close> and \<open>Join\<close> of two elements, the first of which
  is not empty.\<close>

definition IsAbs :: "string \<Rightarrow> bool" where
  "IsAbs path = HasPrefix path ''/''"

fun clean_parts :: "bool \<Rightarrow> string list \<Rightarrow> string list \<Rightarrow> string list" where
  "clean_parts rooted out [] = out"
| "clean_parts rooted out (p # ps) =
     (if p = '''' \<or> p = ''.'' then clean_parts rooted out ps
      else if p = ''..'' then
        (if out \<noteq> [] \<and> last out \<noteq> ''..'' then clean_parts rooted (butlast out) ps
         else if rooted then clean_parts rooted out ps
         else clean_parts rooted (out @ [''..'']) ps)
      else clean_parts rooted (out @ [p]) ps)"

fun join_slash :: "string list \<Rightarrow> string" where
  "join_slash [] = ''''"
| "join_slash [p] = p"
| "join_slash (p # q # ps) = p @ ''/'' @ join_slash (q # ps)"

definition path_Clean :: "string \<Rightarrow> string" where
  "path_Clean path =
     (if path = '''' then ''.''
      else
        let rooted = IsAbs path; out = join_slash (clean_parts rooted [] (SplitByte path CHR ''/'')) in
        if rooted then ''/'' @ out else if out = '''' then ''.'' else out)"

definition path_Dir :: "string \<Rightarrow> string" where
  "path_Dir path = path_Clean (case LastIndexByte path CHR ''/'' of Some i \<Rightarrow> take (i + 1) path | None \<Rightarrow> '''')"

definition path_Join :: "string \<Rightarrow> string \<Rightarrow> string" where
  "path_Join dir name = path_Clean (if name = '''' then dir else dir @ ''/'' @ name)"

section \<open>Imports\<close>

text \<open>The file of an import: the name itself, or the name with the suffix \<open>.conf\<close>.\<close>

definition open_import :: "cfg_lib \<Rightarrow> node \<Rightarrow> string \<Rightarrow> parse_context \<Rightarrow> goerr + (string \<times> string)" where
  "open_import lib n name ctx =
     (let file = (if IsAbs name then name else path_Join (path_Dir (pc_fileLocation ctx)) name) in
      case cl_Open lib file of
        Opened src \<Rightarrow> Inr (file, src)
      | OpenFailed e \<Rightarrow> Inl e
      | NotExist \<Rightarrow>
          (case cl_Open lib (file @ ''.conf'') of
             Opened src \<Rightarrow> Inr (file, src)
           | OpenFailed e \<Rightarrow> Inl e
           | NotExist \<Rightarrow> Inl (NodeErr n (''unknown import: '' @ name))))"

definition new_context :: "string \<Rightarrow> string \<Rightarrow> parse_context" where
  "new_context location input =
     dispenser.extend (NewDispenser location input)
       \<lparr>pc_nesting = -1, pc_snippets = Map.empty, pc_macros = Map.empty, pc_fileLocation = location\<rparr>"

definition parse_file :: "cfg_lib \<Rightarrow> string \<Rightarrow> string \<Rightarrow> (node \<times> parse_context) res" where
  "parse_file lib location input =
     (let ctx = new_context location input in
      rbind (readNodes lib (parse_fuel ctx) ctx) (\<lambda>(nodes, ctx).
        if 0 < pc_nesting ctx then Fail (ds_Err ctx ''unexpected EOF when looking for }'')
        else Ok (Node '''' [] (Some nodes) False False location 1, ctx)))"

type_synonym tree = "node list \<times> (string \<rightharpoonup> node list option) \<times> (string \<rightharpoonup> string list)"

text \<open>
  A pass over the children that meets an import beyond the limit fails, so \<open>containsImports\<close> implies that
  the limit was not reached; the test of the depth before the next pass says so to the termination proof and
  is shown to be redundant (\<open>Blocked\<close> is never the result).
\<close>

function (sequential) expandImports :: "cfg_lib \<Rightarrow> nat \<Rightarrow> node \<Rightarrow> parse_context \<Rightarrow> (node \<times> parse_context) res"
and expand_children :: "cfg_lib \<Rightarrow> nat \<Rightarrow> node list \<Rightarrow> node list \<Rightarrow> bool \<Rightarrow> parse_context \<Rightarrow> ((node list \<times> bool) \<times> parse_context) res"
and resolveImport :: "cfg_lib \<Rightarrow> nat \<Rightarrow> node \<Rightarrow> string \<Rightarrow> parse_context \<Rightarrow> (node list \<times> parse_context) res"
and readTree :: "cfg_lib \<Rightarrow> nat \<Rightarrow> string \<Rightarrow> string \<Rightarrow> tree res" where
  "expandImports lib depth (Node name args None sn ma f l) ctx = Ok (Node name args None sn ma f l, ctx)"
| "expandImports lib depth (Node name args (Some children) sn ma f l) ctx =
     rbind (expand_children lib depth children [] False ctx) (\<lambda>((newChildrens, containsImports), ctx).
       if containsImports then
         (if depth \<le> 255 then expandImports lib (depth + 1) (Node name args (Some newChildrens) sn ma f l) ctx
          else Blocked)
       else Ok (Node name args (Some newChildrens) sn ma f l, ctx))"
| "expand_children lib depth [] acc containsImports ctx = Ok ((acc, containsImports), ctx)"
| "expand_children lib depth (child # rest) acc containsImports ctx =
     rbind (expandImports lib (depth + 1) child ctx) (\<lambda>(child, ctx).
       if nd_Name child = ''import'' then
         (if 255 < depth then Fail (NodeErr child ''hit import expansion limit'')
          else if length (nd_Args child) \<noteq> 1 then Fail (ds_Err ctx ''import directive requires exactly 1 argument'')
          else
            rbind (resolveImport lib depth child (hd (nd_Args child)) ctx) (\<lambda>(subtree, ctx).
              expand_children lib depth rest (acc @ subtree) True ctx))
       else expand_children lib depth rest (acc @ [child]) containsImports ctx)"
| "resolveImport lib depth n name ctx =
     (case pc_snippets ctx name of
        Some subtree \<Rightarrow> Ok ((case subtree of Some ns \<Rightarrow> ns | None \<Rightarrow> []), ctx)
      | None \<Rightarrow>
          (case open_import lib n name ctx of
             Inl e \<Rightarrow> Fail e
           | Inr (file, src) \<Rightarrow>
               if depth \<le> 255 then
                 rbind (readTree lib (depth + 1) file src) (\<lambda>(nodes, snips, macros).
                   Ok (nodes, ctx\<lparr>pc_snippets := pc_snippets ctx ++ snips, pc_macros := pc_macros ctx ++ macros\<rparr>))
               else Blocked))"
| "readTree lib depth location input =
     rbind (parse_file lib location input) (\<lambda>(root, ctx).
     rbind (expandImports lib depth root ctx) (\<lambda>(root, ctx).
       Ok ((case nd_Children root of Some ns \<Rightarrow> ns | None \<Rightarrow> []), pc_snippets ctx, pc_macros ctx)))"
  by pat_completeness auto
termination
  by (relation "inv_image (less_than <*lex*> less_than) (\<lambda>x. case x of
      Inl (Inl (lib, d, n, ctx)) \<Rightarrow> (2 * (257 - d), size n)
    | Inl (Inr (lib, d, ns, acc, b, ctx)) \<Rightarrow> (2 * (257 - d), Suc (size_list size ns))
    | Inr (Inl (lib, d, n, name, ctx)) \<Rightarrow> (2 * (257 - d), 0)
    | Inr (Inr (lib, d, loc, inp)) \<Rightarrow> (2 * (257 - d) + 1, 0))") auto

section \<open>Environment\<close>

fun replace_first :: "(string \<times> string) list \<Rightarrow> string \<Rightarrow> (string \<times> string) option" where
  "replace_first [] s = None"
| "replace_first ((old, new) # ps) s =
     (if old \<noteq> [] \<and> HasPrefix s old then Some (new, drop (length old) s) else replace_first ps s)"

lemma replace_first_shorter: "replace_first ps s = Some (new, rest) \<Longrightarrow> length rest < length s"
  by (induction ps s rule: replace_first.induct) (auto simp: HasPrefix_prefix prefix_def split: if_splits)

text \<open>\<open>strings.Replacer\<close>: at each position the first pair whose old string matches.\<close>

function replacer_Replace :: "(string \<times> string) list \<Rightarrow> string \<Rightarrow> string" where
  "replacer_Replace ps [] = []"
| "replacer_Replace ps (c # s) =
     (case replace_first ps (c # s) of
        Some (new, rest) \<Rightarrow> new @ replacer_Replace ps rest
      | None \<Rightarrow> c # replacer_Replace ps s)"
  by pat_completeness auto
termination
  by (relation "measure (\<lambda>(ps, s). length s)") (auto dest: replace_first_shorter)

function remove_groups :: "string \<Rightarrow> char \<Rightarrow> string \<Rightarrow> string" where
  "remove_groups pre close [] = []"
| "remove_groups pre close (c # s) =
     (case match_group pre close (c # s) of
        Some (g, rest) \<Rightarrow> remove_groups pre close rest
      | None \<Rightarrow> c # remove_groups pre close s)"
  by pat_completeness auto
termination
  by (relation "measure (\<lambda>(p, c, s). length s)") (auto dest: match_group_shorter)

definition removeUnexpandedEnvvars :: "string \<Rightarrow> string" where
  "removeUnexpandedEnvvars s = remove_groups ''{env:'' CHR ''}'' s"

text \<open>An entry without an equals sign has no second part.\<close>

fun buildEnvReplacer :: "string list \<Rightarrow> (string \<times> string) list outcome" where
  "buildEnvReplacer [] = Return []"
| "buildEnvReplacer (entry # env) =
     (if CHR ''='' \<notin> set entry then Panic ''index out of range''
      else obind (buildEnvReplacer env) (\<lambda>ps.
        Return ((''{env:'' @ takeWhile (\<lambda>c. c \<noteq> CHR ''='') entry @ ''}'',
                 tl (dropWhile (\<lambda>c. c \<noteq> CHR ''='') entry)) # ps)))"

definition expand_env_text :: "(string \<times> string) list \<Rightarrow> string \<Rightarrow> string" where
  "expand_env_text ps s = removeUnexpandedEnvvars (replacer_Replace ps s)"

fun expand_env_node :: "(string \<times> string) list \<Rightarrow> node \<Rightarrow> node" where
  "expand_env_node ps (Node name args children sn ma f l) =
     Node (expand_env_text ps name) (map (expand_env_text ps) args)
       (map_option (map (expand_env_node ps)) children) sn ma f l"

text \<open>The recursive calls build the same replacer again.\<close>

definition expandEnvironment :: "cfg_lib \<Rightarrow> node list \<Rightarrow> node list outcome" where
  "expandEnvironment lib nodes =
     obind (buildEnvReplacer (cl_Environ lib)) (\<lambda>ps. Return (map (expand_env_node ps) nodes))"

text \<open>After an error the code still expands the environment in the partial tree that it returns together with the error. The model has no tree beside an
  error, and its callers look at none; the two differ only when an entry of the environment has no equals sign, which makes \<open>buildEnvReplacer\<close> panic.\<close>

definition cfg_Read :: "cfg_lib \<Rightarrow> string \<Rightarrow> string \<Rightarrow> node list res" where
  "cfg_Read lib location input =
     rbind (readTree lib 0 location input) (\<lambda>(nodes, snips, macros).
       obind (expandEnvironment lib nodes) (\<lambda>ns. Ok ns))"

section \<open>The parser returns\<close>

lemma Next_True: "Next d = (True, d') \<longleftrightarrow> ds_cursor d < ds_len d - 1 \<and> d' = ds_advance d"
  by (auto simp: Next_def)

lemma Next_False: "Next d = (False, d') \<longleftrightarrow> \<not> ds_cursor d < ds_len d - 1 \<and> d' = d"
  by (auto simp: Next_def)

lemma NextLine_cases:
  assumes "0 \<le> ds_cursor d"
  shows "NextLine d = (True, d') \<Longrightarrow> ds_cursor d < ds_len d - 1 \<and> d' = ds_advance d"
    and "NextLine d = (False, d') \<Longrightarrow> d' = d"
  using assms by (auto simp: NextLine_def split: if_splits)

lemma NextArg_cases:
  assumes "0 \<le> ds_cursor d"
  shows "NextArg d = (True, d') \<Longrightarrow> ds_cursor d < ds_len d - 1 \<and> d' = ds_advance d"
    and "NextArg d = (False, d') \<Longrightarrow> d' = d"
  using assms by (auto simp: NextArg_def split: if_splits)

lemma next_of_node_cases:
  assumes "0 \<le> ds_cursor d"
  shows "next_of_node c d = (True, d') \<Longrightarrow> ds_cursor d < ds_len d - 1 \<and> d' = ds_advance d"
    and "next_of_node c d = (False, d') \<Longrightarrow> d' = d"
  using NextArg_cases [OF assms] NextLine_cases [OF assms]
  by (auto simp: next_of_node_def split: prod.splits bool.splits if_splits)

lemma next_of_block_cases:
  assumes "r \<Longrightarrow> 0 \<le> ds_cursor d"
  shows "next_of_block r d = GoOn d' \<Longrightarrow> ds_cursor d < ds_len d - 1 \<and> d' = ds_advance d"
    and "next_of_block r d = AtEOF d' \<Longrightarrow> d' = d"
  using NextLine_cases [of d] assms
  by (auto simp: next_of_block_def Next_True Next_False split: prod.splits bool.splits if_splits)

lemma expand_matches_not_blocked: "expand_matches ctx macros ms arg \<noteq> Blocked"
  by (induction ms arbitrary: arg) (auto split: option.splits)

lemma expand_args_not_blocked: "expand_args ctx macros args \<noteq> Blocked"
  by (induction args)
     (auto simp: rbind_Blocked_iff expandSingleValueMacro_def expand_matches_not_blocked Let_def split: option.splits if_splits)

lemma expandMacros_not_blocked:
  "expandMacros ctx macros n \<noteq> Blocked" "expandMacros_list ctx macros ns \<noteq> Blocked"
  by (induction n and ns rule: expandMacros_expandMacros_list.induct)
     (auto simp: rbind_Blocked_iff expand_args_not_blocked split: option.splits)

lemma finish_node_cases:
  "finish_node lib f l v args ch ctx \<noteq> Blocked"
  "finish_node lib f l v args ch ctx = Ok (n, ctx') \<Longrightarrow> ctx' = ctx"
  by (auto simp: finish_node_def Let_def split: prod.splits sum.splits if_splits option.splits)

lemma take_node_cases:
  "take_node n res ctx \<noteq> Blocked"
  "take_node n res ctx = Ok (stop, res', ctx') \<Longrightarrow> ds_tokens ctx' = ds_tokens ctx \<and> ds_cursor ctx' = ds_cursor ctx"
  by (auto simp: take_node_def drop_brace_def rbind_Blocked_iff rbind_Ok_iff expandMacros_not_blocked
      split: prod.splits if_splits node.splits)

text \<open>Progress of a call: the tokens stay, the cursor does not go back and stays within them.\<close>

definition progress :: "parse_context \<Rightarrow> parse_context \<Rightarrow> bool" where
  "progress ctx ctx' \<longleftrightarrow> ds_tokens ctx' = ds_tokens ctx \<and> ds_cursor ctx \<le> ds_cursor ctx' \<and> ds_cursor ctx' < ds_len ctx"

definition runs :: "parse_context \<Rightarrow> ('a \<times> parse_context) res \<Rightarrow> bool" where
  "runs ctx r \<longleftrightarrow> r \<noteq> Blocked \<and> (\<forall>x ctx'. r = Ok (x, ctx') \<longrightarrow> progress ctx ctx')"

lemma runs_Ok [simp]: "runs ctx (Ok (x, ctx')) \<longleftrightarrow> progress ctx ctx'"
  and runs_Fail [simp]: "runs ctx (Fail e)"
  by (auto simp: runs_def)

lemma runs_rbind:
  assumes "runs ctx m" "\<And>x ctx'. m = Ok (x, ctx') \<Longrightarrow> progress ctx ctx' \<Longrightarrow> runs ctx (f (x, ctx'))"
  shows "runs ctx (rbind m f)"
  using assms by (cases m) (auto simp: runs_def rbind_def split: sum.splits)

lemma runs_from: "runs ctx' r \<Longrightarrow> progress ctx ctx' \<Longrightarrow> runs ctx r"
  by (auto simp: runs_def progress_def)

lemma finish_node_runs: "progress ctx ctx' \<Longrightarrow> runs ctx (finish_node lib f l v args ch ctx')"
  using finish_node_cases by (fastforce simp: runs_def)

abbreviation left :: "parse_context \<Rightarrow> nat" where
  "left ctx \<equiv> nat (ds_len ctx - 1 - ds_cursor ctx)"

lemma parser_runs:
  "ds_loaded ctx \<Longrightarrow> 2 * left ctx + 2 \<le> fuel \<Longrightarrow> runs ctx (readNode lib fuel ctx)"
  "ds_loaded ctx \<Longrightarrow> 2 * left ctx + length args + 1 \<le> fuel \<Longrightarrow> runs ctx (node_loop lib fuel c args ch ctx)"
  "-1 \<le> ds_cursor ctx \<Longrightarrow> ds_cursor ctx < ds_len ctx \<Longrightarrow> 2 * left ctx + 2 \<le> fuel \<Longrightarrow> runs ctx (readNodes lib fuel ctx)"
  "-1 \<le> ds_cursor ctx \<Longrightarrow> ds_cursor ctx < ds_len ctx \<Longrightarrow> (rq \<Longrightarrow> 0 \<le> ds_cursor ctx) \<Longrightarrow> 2 * left ctx + 1 \<le> fuel \<Longrightarrow>
     runs ctx (nodes_loop lib fuel rq res ctx)"
proof (induction lib fuel ctx and lib fuel c args ch ctx and lib fuel ctx and lib fuel rq res ctx
    rule: readNode_node_loop_readNodes_nodes_loop.induct)
  case (2 lib fuel ctx)
  show ?case
  proof (cases "Val ctx = ''{''")
    case False
    with 2 have "runs ctx (node_loop lib fuel False [] None ctx)" by simp
    with False show ?thesis by (auto intro!: runs_rbind finish_node_runs)
  qed simp
next
  case (4 lib fuel c args ch ctx)
  define line_end where "line_end = (\<lambda>(args, children, ctx).
            if args \<noteq> [] \<and> last args = [CHR 0x5C] then node_loop lib fuel True (butlast args) children ctx
            else Ok ((args, children), ctx))"
  have l: "runs ctx (line_end (args, ch', ctx'))" if "progress ctx ctx'" for ch' ctx'
  proof (cases "args \<noteq> [] \<and> last args = [CHR 0x5C]")
    case True
    have "left ctx' \<le> left ctx" using that by (auto simp: progress_def)
    then have "2 * left ctx' + length (butlast args) + 1 \<le> fuel" using 4 True by (cases args) auto
    moreover have "ds_loaded ctx'" using 4 that by (auto simp: progress_def)
    ultimately have "runs ctx' (node_loop lib fuel True (butlast args) ch' ctx')" by (intro 4(1) [OF True])
    with that True show ?thesis by (auto simp: line_end_def intro: runs_from)
  qed (use that in \<open>auto simp: line_end_def\<close>)
  obtain b ctx1 where n: "next_of_node c ctx = (b, ctx1)" by fastforce
  show ?case
  proof (cases b)
    case False
    with n next_of_node_cases(2) [of ctx c] 4 have "ctx1 = ctx" by simp
    with l [of ctx] n False 4 show ?thesis by (simp add: Let_def line_end_def progress_def)
  next
    case True
    with n next_of_node_cases(1) [of ctx c] 4 have c1: "ds_cursor ctx < ds_len ctx - 1" "ctx1 = ds_advance ctx" by auto
    then have p1: "progress ctx ctx1" by (auto simp: progress_def)
    have "runs ctx (rbind (readNodes lib fuel ctx1) (\<lambda>(nodes, ctx). line_end (args, Some nodes, ctx)))" if "Val ctx1 = ''{''"
    proof (rule runs_rbind)
      have "runs ctx1 (readNodes lib fuel ctx1)" using 4 n True that c1 by auto
      then show "runs ctx (readNodes lib fuel ctx1)" by (rule runs_from [OF _ p1])
    qed (use l in auto)
    moreover have "runs ctx (node_loop lib fuel False (args @ [Val ctx1]) ch ctx1)" if "Val ctx1 \<noteq> ''{''"
      by (rule runs_from [OF _ p1]) (use 4 n True that c1 in auto)
    ultimately show ?thesis using n True by (simp add: Let_def line_end_def)
  qed
next
  case (6 lib fuel ctx)
  then have "runs (ctx\<lparr>pc_nesting := pc_nesting ctx + 1\<rparr>) (nodes_loop lib fuel False [] (ctx\<lparr>pc_nesting := pc_nesting ctx + 1\<rparr>))"
    if "\<not> 255 < pc_nesting ctx" using that by simp
  with 6 show ?case by (auto simp: progress_def intro: runs_from)
next
  case (8 lib fuel rq res ctx)
  show ?case
  proof (cases "next_of_block rq ctx")
    case (GoOn ctx1)
    with next_of_block_cases(1) [of rq ctx] 8 have c1: "ds_cursor ctx < ds_len ctx - 1" "ctx1 = ds_advance ctx" by auto
    then have p1: "progress ctx ctx1" by (auto simp: progress_def)
    show ?thesis
    proof (cases "Val ctx1 = ''}''")
      case True
      with GoOn p1 show ?thesis by (auto simp: Let_def progress_def)
    next
      case False
      have "runs ctx1 (readNode lib fuel ctx1)" using 8 GoOn False c1 by auto
      then have r: "runs ctx (readNode lib fuel ctx1)" by (rule runs_from [OF _ p1])
      have "runs ctx (rbind (take_node n res ctx2) (\<lambda>(stop, res, ctx). if stop then Ok (res, ctx) else nodes_loop lib fuel True res ctx))"
        if "readNode lib fuel ctx1 = Ok (n, ctx2)" "progress ctx ctx2" for n ctx2
      proof (cases "take_node n res ctx2")
        case (Return x)
        show ?thesis
        proof (cases x)
          case (Inr y)
          obtain stop res' ctx3 where y: "y = (stop, res', ctx3)" by (metis surj_pair)
          with take_node_cases(2) [of n res ctx2] Return Inr that(2) have p3: "progress ctx ctx3" by (auto simp: progress_def)
          have "progress ctx1 ctx2" using \<open>runs ctx1 (readNode lib fuel ctx1)\<close> that(1) by (auto simp: runs_def)
          then have "ds_cursor ctx1 \<le> ds_cursor ctx3" "ds_tokens ctx3 = ds_tokens ctx1" "ds_cursor ctx3 < ds_len ctx1"
            using take_node_cases(2) [of n res ctx2] Return Inr y by (auto simp: progress_def)
          then have "runs ctx3 (nodes_loop lib fuel True res' ctx3)" if "\<not> stop"
            using 8 GoOn False c1 Return Inr y that \<open>readNode lib fuel ctx1 = Ok (n, ctx2)\<close> by auto
          with p3 Return Inr y show ?thesis by (auto intro: runs_from)
        qed (use Return in simp)
      qed (use take_node_cases(1) in \<open>auto simp: runs_def\<close>)
      then have "runs ctx (rbind (readNode lib fuel ctx1) (\<lambda>(n, ctx). rbind (take_node n res ctx)
          (\<lambda>(stop, res, ctx). if stop then Ok (res, ctx) else nodes_loop lib fuel True res ctx)))"
        using r by (auto intro!: runs_rbind)
      with GoOn False show ?thesis by simp
    qed
  next
    case (AtEOF ctx1)
    with next_of_block_cases(2) [of rq ctx] 8 show ?thesis by (auto simp: progress_def)
  qed simp
qed auto

lemma readNodes_new_context: "readNodes lib (parse_fuel (new_context loc input)) (new_context loc input) \<noteq> Blocked"
proof (cases "ds_tokens (new_context loc input) = []")
  case True
  then show ?thesis
    by (simp add: parse_fuel_def numeral_2_eq_2 new_context_def dispenser.defs NewDispenser_def next_of_block_def Next_def)
next
  case False
  have c: "ds_cursor (new_context loc input) = -1" by (simp add: new_context_def dispenser.defs NewDispenser_def)
  with False have "runs (new_context loc input) (readNodes lib (parse_fuel (new_context loc input)) (new_context loc input))"
    by (intro parser_runs) (auto simp: parse_fuel_def)
  then show ?thesis by (simp add: runs_def)
qed

lemma parse_file_not_blocked: "parse_file lib loc input \<noteq> Blocked"
  using readNodes_new_context by (auto simp: parse_file_def Let_def rbind_Blocked_iff)

text \<open>Imports beyond the limit are errors, so no pass follows one that met them.\<close>

lemma expand_children_flag:
  "expand_children lib d ns acc b ctx = Ok ((acc', b'), ctx') \<Longrightarrow> b' \<Longrightarrow> b \<or> d \<le> 255"
proof (induction ns arbitrary: acc b ctx)
  case (Cons n ns)
  then show ?case by (auto simp: rbind_Ok_iff split: if_splits dest!: Cons.IH)
qed simp

lemma imports_not_blocked:
  "expandImports lib d n ctx \<noteq> Blocked"
  "expand_children lib d ns acc b ctx \<noteq> Blocked"
  "d \<le> 255 \<Longrightarrow> resolveImport lib d n name ctx \<noteq> Blocked"
  "readTree lib d loc input \<noteq> Blocked"
proof (induction lib d n ctx and lib d ns acc b ctx and lib d n name ctx and lib d loc input
    rule: expandImports_expand_children_resolveImport_readTree.induct)
  case (2 lib depth name args children sn ma f l ctx)
  then show ?case by (auto simp: rbind_Blocked_iff dest: expand_children_flag)
next
  case (4 lib depth child rest acc b ctx)
  then show ?case by (auto simp: rbind_Blocked_iff split: if_splits simp del: resolveImport.simps)
next
  case (6 lib depth location input)
  then show ?case by (auto simp: rbind_Blocked_iff parse_file_not_blocked)
qed (auto simp: rbind_Blocked_iff split: option.splits sum.splits)

end
