(* ===== verification/Cfg_Print.thy ===== *)
theory Cfg_Print
  imports Cfg_Parser
begin

text \<open>
  A printer for configuration trees and the proof that the scanner and the parser read its output
  back. Every word is printed in quotes, so that arguments may contain white space, comment signs, quotes
  and line breaks.
\<close>

section \<open>Printer\<close>

definition escape :: "rune list \<Rightarrow> rune list" where
  "escape rs = concat (map (\<lambda>r. if r = r_quote then [r_backslash, r_quote] else [r]) rs)"

definition print_word :: "string \<Rightarrow> rune list" where
  "print_word w = r_quote # escape (runes w) @ [r_quote, 0x20]"

abbreviation "r_open \<equiv> (0x7B :: rune)"
abbreviation "r_close \<equiv> (0x7D :: rune)"

fun print_node :: "node \<Rightarrow> rune list" where
  "print_node (Node name args children sn ma f l) =
     concat (map print_word (name # args)) @
     (case children of
        None \<Rightarrow> [r_nl]
      | Some cs \<Rightarrow> [r_open, r_nl] @ concat (map print_node cs) @ [r_close, r_nl])"

definition print_tree :: "node list \<Rightarrow> string" where
  "print_tree ns = encode_runes (concat (map print_node ns))"

section \<open>Tokens of a printed tree\<close>

abbreviation tok :: "int \<Rightarrow> string \<Rightarrow> token" where
  "tok l s \<equiv> \<lparr>tk_File = '''', tk_Line = l, tk_Text = s\<rparr>"

definition breaks :: "string \<Rightarrow> int" where
  "breaks s = int (count_list s CHR ''\<newline>'')"

fun word_toks :: "int \<Rightarrow> string list \<Rightarrow> token list \<times> int" where
  "word_toks l [] = ([], l)"
| "word_toks l (w # ws) = (case word_toks (l + breaks w) ws of (ts, l') \<Rightarrow> (tok l w # ts, l'))"

fun node_toks :: "int \<Rightarrow> node \<Rightarrow> token list \<times> int"
and nodes_toks :: "int \<Rightarrow> node list \<Rightarrow> token list \<times> int" where
  "node_toks l (Node name args children sn ma f ln) =
     (case word_toks l (name # args) of (ts, l1) \<Rightarrow>
        case children of
          None \<Rightarrow> (ts, l1 + 1)
        | Some cs \<Rightarrow> (case nodes_toks (l1 + 1) cs of (us, l2) \<Rightarrow> (ts @ [tok l1 ''{''] @ us @ [tok l2 ''}''], l2 + 1)))"
| "nodes_toks l [] = ([], l)"
| "nodes_toks l (n # ns) = (case node_toks l n of (ts, l1) \<Rightarrow> case nodes_toks l1 ns of (us, l2) \<Rightarrow> (ts @ us, l2))"

section \<open>Scanning\<close>

lemma valid_rune_ascii: "r < 0x80 \<Longrightarrow> valid_rune r"
  by (simp add: valid_rune_def)


abbreviation at_line :: "int \<Rightarrow> rune list \<Rightarrow> lexer" where
  "at_line l rs \<equiv> \<lparr>lx_reader = rs, lx_line = l\<rparr>"

definition scannable :: "string \<Rightarrow> bool" where
  "scannable w \<longleftrightarrow> valid_utf8 w \<and> r_backslash \<notin> set (runes w)"

lemma lex_quoted:
  "r_backslash \<notin> set rs \<Longrightarrow>
   lex_loop val c True False s l (escape rs @ r_quote # rest) =
     (Some (tok s (encode_runes (val @ rs))), l + int (count_list rs r_nl), rest)"
  by (induction rs arbitrary: val l) (auto simp: escape_def)

lemma of_char_of_newline: "of_char (CHR ''\<newline>'') = (10 :: nat)"
  by simp

lemma char_of_eq_newline: "b < 256 \<Longrightarrow> char_of b = CHR ''\<newline>'' \<longleftrightarrow> b = (10 :: nat)"
proof
  assume b: "b < 256" and e: "char_of b = CHR ''\<newline>''"
  have "of_char (char_of b :: char) = b" using b by simp
  with e show "b = 10" by (metis of_char_of_newline)
qed (simp add: char_of_def bit_0)

lemma count_encode_rune: "valid_rune r \<Longrightarrow> count_list (encode_rune r) CHR ''\<newline>'' = (if r = r_nl then 1 else 0)"
proof (cases "r < 0x80")
  case True
  then show ?thesis by (simp add: encode_rune_ascii char_of_eq_newline)
next
  case False
  assume "valid_rune r"
  with False have "0x80 \<le> b" if "b \<in> set (encode_bytes r)" for b
    using that by (auto simp: encode_bytes_def Let_def split: if_splits)
  with encode_bytes_lt [of _ r] have "CHR ''\<newline>'' \<notin> set (encode_rune r)"
    using char_of_eq_newline by (fastforce simp: encode_rune_def)
  with False show ?thesis by (simp add: count_list_0_iff)
qed

lemma count_encode: "list_all valid_rune rs \<Longrightarrow> count_list (encode_runes rs) CHR ''\<newline>'' = count_list rs r_nl"
  by (induction rs) (auto simp: encode_runes_Cons count_encode_rune)

lemma breaks_runes: "valid_utf8 w \<Longrightarrow> breaks w = int (count_list (runes w) r_nl)"
  using count_encode [of "runes w"] by (simp add: breaks_def valid_utf8_def)

lemma lex_all_word:
  assumes "scannable w"
  shows "lex_all (at_line l (print_word w @ rest)) = tok l w # lex_all (at_line (l + breaks w) (0x20 # rest))"
proof -
  have "encode_runes (runes w) = w" using assms by (simp add: scannable_def valid_utf8_def)
  then show ?thesis
    using assms lex_quoted [of "runes w" "[]" False l l "0x20 # rest"]
    by (subst lex_all.simps) (simp add: print_word_def lexer_next_def IsSpace_def scannable_def breaks_runes)
qed

lemma lex_all_space: "lex_all (at_line l (0x20 # rest)) = lex_all (at_line l rest)"
  by (subst (1 2) lex_all.simps) (simp add: lexer_next_def IsSpace_def)

lemma lex_all_nl: "lex_all (at_line l (r_nl # rest)) = lex_all (at_line (l + 1) rest)"
  by (subst (1 2) lex_all.simps) (simp add: lexer_next_def IsSpace_def)

lemma lex_all_brace:
  "lex_all (at_line l (r_open # r_nl # rest)) = tok l ''{'' # lex_all (at_line (l + 1) rest)"
  "lex_all (at_line l (r_close # r_nl # rest)) = tok l ''}'' # lex_all (at_line (l + 1) rest)"
  by (subst lex_all.simps, simp add: lexer_next_def IsSpace_def encode_runes_Cons encode_rune_ascii char_of_def bit_0)+

lemma lex_all_Nil: "lex_all (at_line l []) = []"
  by (subst lex_all.simps) (simp add: lexer_next_def)

lemma lex_all_words:
  "list_all scannable ws \<Longrightarrow> word_toks l ws = (ts, l') \<Longrightarrow>
   lex_all (at_line l (concat (map print_word ws) @ rest)) = ts @ lex_all (at_line l' rest)"
proof (induction ws arbitrary: l ts)
  case (Cons w ws)
  obtain us where "word_toks (l + breaks w) ws = (us, l')" "ts = tok l w # us"
    using Cons.prems by (auto split: prod.splits)
  with Cons show ?case by (simp add: lex_all_word lex_all_space)
qed simp

abbreviation scannable_node :: "node \<Rightarrow> bool" where
  "scannable_node \<equiv> node_all (\<lambda>n. list_all scannable (nd_Name n # nd_Args n))"

lemma lex_all_nodes:
  "scannable_node n \<Longrightarrow> node_toks l n = (ts, l') \<Longrightarrow>
     lex_all (at_line l (print_node n @ rest)) = ts @ lex_all (at_line l' rest)"
  "list_all scannable_node ns \<Longrightarrow> nodes_toks l ns = (us, l2) \<Longrightarrow>
     lex_all (at_line l (concat (map print_node ns) @ rest)) = us @ lex_all (at_line l2 rest)"
proof (induction l n and l ns arbitrary: ts l' rest and us l2 rest rule: node_toks_nodes_toks.induct)
  case (1 l name args children sn ma f ln)
  obtain ws l1 where w: "word_toks l (name # args) = (ws, l1)" by fastforce
  have s: "list_all scannable (name # args)" using 1 by simp
  show ?case
  proof (cases children)
    case None
    with 1 w lex_all_words [OF s w, of "r_nl # rest"] show ?thesis by (auto simp: lex_all_nl)
  next
    case (Some cs)
    obtain us l2 where u: "nodes_toks (l1 + 1) cs = (us, l2)" by fastforce
    have "lex_all (at_line (l1 + 1) (concat (map print_node cs) @ [r_close, r_nl] @ rest)) =
        us @ lex_all (at_line l2 ([r_close, r_nl] @ rest))"
      using 1 Some w u by auto
    with 1 Some w u lex_all_words [OF s w, of "[r_open, r_nl] @ concat (map print_node cs) @ [r_close, r_nl] @ rest"]
    show ?thesis by (auto simp: lex_all_brace)
  qed
next
  case (3 l n ns)
  then show ?case by (auto split: prod.splits)
qed simp

lemma print_valid:
  "scannable_node n \<Longrightarrow> list_all valid_rune (print_node n)"
proof (induction n)
  case (Node name args children sn ma f l)
  have e: "list_all valid_rune (escape (runes w))" if "scannable w" for w
    using that by (auto simp: escape_def scannable_def valid_utf8_def list_all_iff valid_rune_ascii)
  have "list_all valid_rune (concat (map print_word (name # args)))"
    using Node.prems e by (auto simp: print_word_def list_all_iff valid_rune_ascii)
  moreover have "list_all valid_rune (concat (map print_node cs))" if "children = Some cs" for cs
    using Node that by (auto simp: list_all_iff)
  ultimately show ?case by (auto simp: valid_rune_ascii split: option.splits)
qed

lemma print_tree_tokens:
  assumes "list_all scannable_node ns"
  shows "ds_tokens (NewDispenser loc (print_tree ns)) = fst (nodes_toks 1 ns)"
proof (cases ns)
  case Nil
  then show ?thesis by (simp add: NewDispenser_def print_tree_def allTokens_def lexer_load_def)
next
  case (Cons n ms)
  let ?rs = "concat (map print_node ns)"
  have "list_all valid_rune ?rs" using assms print_valid by (auto simp: list_all_iff)
  then have r: "runes (print_tree ns) = ?rs" by (simp add: print_tree_def runes_encode_runes)
  obtain rs where q: "?rs = r_quote # rs" using Cons by (cases n) (simp add: print_word_def)
  obtain ts l where t: "nodes_toks 1 ns = (ts, l)" by fastforce
  have "lex_all (at_line 1 ?rs) = ts" using lex_all_nodes(2) [OF assms t, of "[]"] by (simp add: lex_all_Nil)
  with r q t show ?thesis by (simp add: NewDispenser_def allTokens_def lexer_load_def)
qed

text \<open>A file given by the words of its lines.\<close>

definition print_lines :: "string list list \<Rightarrow> string" where
  "print_lines ls = encode_runes (concat (map (\<lambda>ws. concat (map print_word ws) @ [r_nl]) ls))"

fun line_toks :: "int \<Rightarrow> string list list \<Rightarrow> token list" where
  "line_toks l [] = []"
| "line_toks l (ws # ls) = (case word_toks l ws of (ts, l') \<Rightarrow> ts @ line_toks (l' + 1) ls)"

lemma lex_all_lines:
  "list_all (list_all scannable) ls \<Longrightarrow>
   lex_all (at_line l (concat (map (\<lambda>ws. concat (map print_word ws) @ [r_nl]) ls))) = line_toks l ls"
proof (induction ls arbitrary: l)
  case (Cons ws ls)
  obtain ts l' where w: "word_toks l ws = (ts, l')" by fastforce
  with Cons lex_all_words [of ws l ts l'] show ?case by (simp add: lex_all_nl)
qed (simp add: lex_all_Nil)

lemma print_lines_tokens:
  assumes "list_all (list_all scannable) ls"
  shows "ds_tokens (NewDispenser loc (print_lines ls)) = line_toks 1 ls"
proof (cases ls)
  case Nil
  then show ?thesis by (simp add: NewDispenser_def print_lines_def allTokens_def lexer_load_def)
next
  case (Cons ws ms)
  let ?rs = "concat (map (\<lambda>ws. concat (map print_word ws) @ [r_nl]) ls)"
  have "list_all valid_rune (print_word w)" if "scannable w" for w
    using that by (auto simp: print_word_def escape_def scannable_def valid_utf8_def list_all_iff valid_rune_ascii)
  then have "list_all valid_rune ?rs" using assms by (fastforce simp: list_all_iff valid_rune_ascii)
  then have r: "runes (print_lines ls) = ?rs" unfolding print_lines_def by (rule runes_encode_runes)
  obtain x rs where q: "?rs = x # rs" "x \<noteq> 0xFEFF" using Cons by (cases ws) (auto simp: print_word_def)
  with r lex_all_lines [OF assms, of 1] show ?thesis by (simp add: NewDispenser_def allTokens_def lexer_load_def)
qed

section \<open>Parsing\<close>

abbreviation end_line :: "token \<Rightarrow> int" where
  "end_line t \<equiv> tk_Line t + breaks (tk_Text t)"

definition at_tok :: "parse_context \<Rightarrow> token list \<Rightarrow> token \<Rightarrow> token list \<Rightarrow> bool" where
  "at_tok ctx pre t post \<longleftrightarrow> ds_tokens ctx = pre @ t # post \<and> ds_cursor ctx = int (length pre)"

lemma Val_at: "at_tok ctx pre t post \<Longrightarrow> Val ctx = tk_Text t"
  by (auto simp: at_tok_def Val_def)

lemma numLineBreaks_at: "at_tok ctx pre t post \<Longrightarrow> numLineBreaks ctx (ds_cursor ctx) = breaks (tk_Text t)"
  by (auto simp: at_tok_def numLineBreaks_def breaks_def)

lemma at_tok_nths:
  "at_tok ctx pre t (u # post) \<Longrightarrow> ds_at ctx (ds_cursor ctx) = t \<and> ds_at ctx (ds_cursor ctx + 1) = u \<and>
     \<not> ds_len ctx \<le> ds_cursor ctx \<and> \<not> ds_cursor ctx < 0 \<and> ds_cursor ctx < ds_len ctx - 1"
  by (auto simp: at_tok_def nth_append nat_add_distrib)

lemma NextArg_at:
  assumes "at_tok ctx pre t (u # post)" "tk_File t = ''''" "tk_File u = ''''"
  shows "NextArg ctx = (if end_line t = tk_Line u then (True, ds_advance ctx) else (False, ctx))"
  using at_tok_nths [OF assms(1)] numLineBreaks_at [OF assms(1)] assms(2,3) by (auto simp: NextArg_def)

lemma NextLine_at:
  assumes "at_tok ctx pre t (u # post)" "tk_File t = ''''" "tk_File u = ''''"
  shows "NextLine ctx = (if end_line t < tk_Line u then (True, ds_advance ctx) else (False, ctx))"
  using at_tok_nths [OF assms(1)] numLineBreaks_at [OF assms(1)] assms(2,3) by (auto simp: NextLine_def)

lemma NextArg_last: "at_tok ctx pre t [] \<Longrightarrow> NextArg ctx = (False, ctx)"
  and NextLine_last: "at_tok ctx pre t [] \<Longrightarrow> NextLine ctx = (False, ctx)"
  and Next_last: "at_tok ctx pre t [] \<Longrightarrow> Next ctx = (False, ctx)"
  by (auto simp: at_tok_def NextArg_def NextLine_def Next_def)

lemma at_tok_advance: "at_tok ctx pre t (u # post) \<Longrightarrow> at_tok (ds_advance ctx) (pre @ [t]) u post"
  by (auto simp: at_tok_def)

definition arg_ok :: "string \<Rightarrow> bool" where
  "arg_ok w \<longleftrightarrow> w \<noteq> ''{'' \<and> w \<noteq> ''}'' \<and> w \<noteq> [CHR 0x5C] \<and> \<not> Contains w ''$(''"

definition name_ok :: "cfg_lib \<Rightarrow> string \<Rightarrow> bool" where
  "name_ok lib name \<longleftrightarrow> validateNodeName lib name = None \<and> name \<noteq> ''{'' \<and> name \<noteq> ''}'' \<and>
     \<not> HasPrefix name ''('' \<and> \<not> HasPrefix name ''$(''"

definition node_ok :: "cfg_lib \<Rightarrow> node \<Rightarrow> bool" where
  "node_ok lib n \<longleftrightarrow> \<not> nd_Snippet n \<and> \<not> nd_Macro n \<and> name_ok lib (nd_Name n) \<and> list_all arg_ok (nd_Args n)"

lemma Contains_prefix: "HasPrefix s p \<Longrightarrow> Contains s p"
  by (cases s) (auto simp: HasPrefix_def)

lemma expand_args_id: "list_all arg_ok args \<Longrightarrow> expand_args ctx macros args = Ok args"
  by (induction args) (auto simp: arg_ok_def is_macro_ref_def dest: Contains_prefix)

lemma expandMacros_id:
  "node_all (node_ok lib) n \<Longrightarrow> expandMacros ctx macros n = Ok n"
  "list_all (node_all (node_ok lib)) ns \<Longrightarrow> expandMacros_list ctx macros ns = Ok ns"
  by (induction n and ns rule: expandMacros_expandMacros_list.induct)
     (auto simp: node_ok_def name_ok_def is_macro_ref_def expand_args_id split: option.splits)

lemma word_toks_last:
  "word_toks l ws = (ts, l') \<Longrightarrow> length ts = length ws \<and> end_line (last (tok l '''' # ts)) = l' \<and> tk_File (last (tok l '''' # ts)) = ''''"
proof (induction ws arbitrary: l ts)
  case (Cons w ws)
  then obtain us where u: "word_toks (l + breaks w) ws = (us, l')" "ts = tok l w # us" by (auto split: prod.splits)
  with Cons.IH [OF u(1)] show ?case by (auto simp: breaks_def)
qed (simp add: breaks_def)

lemma node_loop_words:
  assumes "word_toks (end_line t) ws = (ts, l')" "list_all arg_ok ws" "at_tok ctx pre t (ts @ post)" "tk_File t = ''''"
  shows "node_loop lib (fuel + length ws) False args ch ctx =
     node_loop lib fuel False (args @ ws) ch (ctx\<lparr>ds_cursor := ds_cursor ctx + int (length ws)\<rparr>)"
  using assms
proof (induction ws arbitrary: t ts ctx pre args)
  case (Cons w ws)
  obtain us where u: "word_toks (end_line (tok (end_line t) w)) ws = (us, l')" "ts = tok (end_line t) w # us"
    using Cons.prems by (auto split: prod.splits)
  have a: "at_tok ctx pre t (tok (end_line t) w # us @ post)" using Cons.prems u by simp
  note a' = at_tok_advance [OF a]
  have n: "next_of_node False ctx = (True, ds_advance ctx)"
    using NextArg_at [OF a] Cons.prems by (simp add: next_of_node_def)
  have "node_loop lib (fuel + length (w # ws)) False args ch ctx = node_loop lib (fuel + length ws) False (args @ [w]) ch (ds_advance ctx)"
    using n Val_at [OF a'] Cons.prems(2) by (simp add: arg_ok_def)
  also have "\<dots> = node_loop lib fuel False ((args @ [w]) @ ws) ch ((ds_advance ctx)\<lparr>ds_cursor := ds_cursor (ds_advance ctx) + int (length ws)\<rparr>)"
    using Cons.prems u a' by (intro Cons.IH [of "tok (end_line t) w" us _ "pre @ [t]"]) auto
  finally show ?case by (simp add: algebra_simps)
qed simp

text \<open>The rest of the tokens begins on a later line.\<close>

definition later :: "int \<Rightarrow> token list \<Rightarrow> bool" where
  "later l post \<longleftrightarrow> (case post of [] \<Rightarrow> True | u # _ \<Rightarrow> tk_File u = '''' \<and> l \<le> tk_Line u)"

lemma next_of_node_later:
  assumes "at_tok ctx pre t post" "tk_File t = ''''" "end_line t < l" "later l post"
  shows "next_of_node False ctx = (False, ctx)"
  using assms NextArg_last [of ctx pre t] NextArg_at [of ctx pre t]
  by (cases post) (auto simp: next_of_node_def later_def)

lemma finish_node_ok:
  "name_ok lib name \<Longrightarrow> finish_node lib f l name args ch ctx = Ok (Node name args ch False False f l, ctx)"
  by (auto simp: finish_node_def name_ok_def isSnippet_def parseAsMacro_def split: prod.splits)

lemma last_arg_ok: "list_all arg_ok args \<Longrightarrow> args \<noteq> [] \<Longrightarrow> last args \<noteq> ''}'' \<and> last args \<noteq> [CHR 0x5C]"
  by (auto simp: list_all_iff arg_ok_def)

lemma node_loop_end:
  "next_of_node False ctx = (False, ctx) \<Longrightarrow> list_all arg_ok args \<Longrightarrow>
   node_loop lib (Suc fuel) False args ch ctx = Ok ((args, ch), ctx)"
  using last_arg_ok [of args] by auto

lemma node_loop_block:
  "next_of_node False ctx = (True, ctx2) \<Longrightarrow> Val ctx2 = ''{'' \<Longrightarrow> readNodes lib fuel ctx2 = Ok (Ns, ctx3) \<Longrightarrow>
   list_all arg_ok args \<Longrightarrow> node_loop lib (Suc fuel) False args ch ctx = Ok ((args, Some Ns), ctx3)"
  using last_arg_ok [of args] by auto

lemma readNode_ok:
  "node_loop lib fuel False [] None ctx = Ok ((args, ch), ctx') \<Longrightarrow> Val ctx = name \<Longrightarrow> name_ok lib name \<Longrightarrow>
   readNode lib (Suc fuel) ctx = Ok (Node name args ch False False (File ctx) (Line ctx), ctx')"
  by (auto simp: finish_node_ok name_ok_def)

lemma take_node_ok:
  assumes "node_all (node_ok lib) n"
  shows "take_node n res ctx = Ok (False, res @ [n], ctx)"
proof -
  have n: "node_ok lib n" using assms by (cases n) simp
  then have d: "drop_brace n ctx = (False, n, ctx)"
    using last_arg_ok [of "nd_Args n"] by (cases n) (auto simp: drop_brace_def node_ok_def)
  from n show ?thesis by (simp add: take_node_def d node_ok_def expandMacros_id(1) [OF assms])
qed

fun node_depth :: "node \<Rightarrow> nat" where
  "node_depth (Node name args children sn ma f l) =
     (case children of None \<Rightarrow> 0 | Some cs \<Rightarrow> Suc (foldr max (map node_depth cs) 0))"

lemma foldr_max_le: "foldr max xs (0 :: nat) \<le> k \<longleftrightarrow> (\<forall>x \<in> set xs. x \<le> k)"
  by (induction xs) auto

definition reads :: "cfg_lib \<Rightarrow> node list \<Rightarrow> node list \<Rightarrow> bool" where
  "reads lib ns Ns \<longleftrightarrow> map strip Ns = map strip ns \<and> list_all (node_all (node_ok lib)) Ns"

lemma node_toks_shape:
  assumes "node_toks l n = (ts, l')"
  shows "ts \<noteq> []" "hd ts = tok l (nd_Name n)" "tk_File (last ts) = ''''" "end_line (last ts) < l'"
proof -
  obtain name args children sn ma f ln where n: "n = Node name args children sn ma f ln" by (cases n)
  obtain ws l1 where w: "word_toks l (name # args) = (ws, l1)" by fastforce
  from w have h: "ws \<noteq> []" "hd ws = tok l name" by (auto split: prod.splits)
  have "ts \<noteq> [] \<and> hd ts = tok l (nd_Name n) \<and> tk_File (last ts) = '''' \<and> end_line (last ts) < l'"
    using assms n w h word_toks_last [OF w] by (auto simp: breaks_def split: option.splits prod.splits)
  then show "ts \<noteq> []" "hd ts = tok l (nd_Name n)" "tk_File (last ts) = ''''" "end_line (last ts) < l'" by auto
qed

text \<open>Position before a list of tokens.\<close>

definition before :: "parse_context \<Rightarrow> token list \<Rightarrow> token list \<Rightarrow> bool" where
  "before ctx pre ts \<longleftrightarrow> ds_tokens ctx = pre @ ts \<and> ds_cursor ctx = int (length pre) - 1"

lemma at_tok_last:
  "xs \<noteq> [] \<Longrightarrow> ds_tokens ctx = pre @ xs @ post \<Longrightarrow> ds_cursor ctx = int (length pre + length xs) - 1 \<Longrightarrow>
   at_tok ctx (pre @ butlast xs) (last xs) post"
  by (cases xs rule: rev_cases) (simp_all add: at_tok_def)

lemma block_go_on:
  assumes "before ctx pre (u # post)" "rq \<Longrightarrow> pre \<noteq> [] \<and> tk_File (last pre) = '''' \<and> end_line (last pre) < tk_Line u" "tk_File u = ''''"
  shows "next_of_block rq ctx = GoOn (ds_advance ctx)" "at_tok (ds_advance ctx) pre u post"
proof -
  show "at_tok (ds_advance ctx) pre u post" using assms(1) by (simp add: at_tok_def before_def)
  show "next_of_block rq ctx = GoOn (ds_advance ctx)"
  proof (cases rq)
    case True
    with assms have "at_tok ctx ([] @ butlast pre) (last pre) (u # post)" by (intro at_tok_last) (auto simp: before_def)
    from NextLine_at [OF this] True assms show ?thesis by (simp add: next_of_block_def)
  next
    case False
    with assms(1) show ?thesis by (simp add: next_of_block_def Next_def before_def)
  qed
qed

lemma block_eof:
  assumes "before ctx pre []" "rq \<Longrightarrow> pre \<noteq> []"
  shows "next_of_block rq ctx = AtEOF ctx"
proof (cases rq)
  case True
  with assms have "at_tok ctx ([] @ butlast pre) (last pre) []" by (intro at_tok_last) (auto simp: before_def)
  from NextLine_last [OF this] Next_last [OF this] True show ?thesis by (simp add: next_of_block_def)
next
  case False
  with assms(1) show ?thesis by (simp add: next_of_block_def Next_def before_def)
qed

lemma parse_printed:
  "node_toks l n = (ts, l') \<Longrightarrow> node_all (node_ok lib) n \<Longrightarrow> before ctx pre (ts @ post) \<Longrightarrow> later l' post \<Longrightarrow>
     pc_nesting ctx + int (node_depth n) \<le> 256 \<Longrightarrow> 0 \<le> pc_nesting ctx \<Longrightarrow> 2 * length ts \<le> fuel \<Longrightarrow>
     \<exists>N. readNode lib fuel (ds_advance ctx) = Ok (N, ctx\<lparr>ds_cursor := ds_cursor ctx + int (length ts)\<rparr>) \<and> reads lib [n] [N]"
  "nodes_toks l ns = (us, l2) \<Longrightarrow> list_all (node_all (node_ok lib)) ns \<Longrightarrow> before ctx pre (us @ post) \<Longrightarrow>
     (rq \<Longrightarrow> pre \<noteq> [] \<and> tk_File (last pre) = '''' \<and> end_line (last pre) < l) \<Longrightarrow>
     post = [] \<or> (\<exists>post'. post = tok l2 ''}'' # post' \<and> 1 \<le> pc_nesting ctx) \<Longrightarrow>
     \<forall>n \<in> set ns. pc_nesting ctx + int (node_depth n) \<le> 256 \<Longrightarrow> 0 \<le> pc_nesting ctx \<Longrightarrow> 2 * length us + 1 \<le> fuel \<Longrightarrow>
     \<exists>Ns. nodes_loop lib fuel rq res ctx =
        Ok (res @ Ns, if post = [] then ctx\<lparr>ds_cursor := ds_cursor ctx + int (length us)\<rparr>
                      else ctx\<lparr>ds_cursor := ds_cursor ctx + int (length us) + 1, pc_nesting := pc_nesting ctx - 1\<rparr>) \<and> reads lib ns Ns"
proof (induction l n and l ns arbitrary: ts l' ctx pre post fuel and us l2 ctx pre post fuel rq res
    rule: node_toks_nodes_toks.induct)
  case (1 l name args children sn ma f ln)
  obtain as l1 where w: "word_toks (end_line (tok l name)) args = (as, l1)" by fastforce
  then have w': "word_toks l (name # args) = (tok l name # as, l1)" by simp
  note lw = word_toks_last [OF w']
  have length_as: "length as = length args" using lw by simp
  have wf: "name_ok lib name" "list_all arg_ok args" "\<not> sn" "\<not> ma" using 1(3) by (auto simp: node_ok_def)
  define tail where "tail = drop (Suc (length as)) ts"
  have ts: "ts = (tok l name # as) @ tail" using 1(2) w' by (auto simp: tail_def split: option.splits prod.splits)
  let ?c0 = "ds_advance ctx" and ?c1 = "ctx\<lparr>ds_cursor := ds_cursor ctx + 1 + int (length args)\<rparr>"
  have a0: "at_tok ?c0 pre (tok l name) (as @ tail @ post)" using 1(4) ts by (simp add: before_def at_tok_def)
  have a1: "at_tok ?c1 (pre @ butlast (tok l name # as)) (last (tok l name # as)) (tail @ post)"
    by (rule at_tok_last) (use 1(4) ts lw in \<open>auto simp: before_def\<close>)
  obtain fuel2 where f2: "fuel = Suc (Suc fuel2 + length args)" "2 * length tail + length args \<le> Suc fuel2"
  proof
    have "Suc (Suc (length args)) \<le> fuel" using 1(8) ts lw by auto
    then show "fuel = Suc (Suc (fuel - length args - 2) + length args)" by simp
    show "2 * length tail + length args \<le> Suc (fuel - length args - 2)" using 1(8) ts lw by auto
  qed
  have loop: "node_loop lib (Suc fuel2 + length args) False [] None ?c0 = node_loop lib (Suc fuel2) False args None ?c1"
    using node_loop_words [OF w wf(2) a0, of lib "Suc fuel2" "[]" None] by simp
  show ?case
  proof (cases children)
    case None
    with 1(2) w' ts have t: "tail = []" "l' = l1 + 1" by auto
    then have "next_of_node False ?c1 = (False, ?c1)"
      using next_of_node_later [OF a1, of l'] lw 1(5) by auto
    from trans [OF loop node_loop_end [OF this wf(2)]]
    have "readNode lib fuel ?c0 = Ok (Node name args None False False (File ?c0) (Line ?c0), ?c1)"
      unfolding f2(1) by (rule readNode_ok) (use Val_at [OF a0] wf in auto)
    with wf t ts lw None show ?thesis by (auto simp: reads_def node_ok_def algebra_simps)
  next
    case (Some cs)
    obtain us l2 where u: "nodes_toks (l1 + 1) cs = (us, l2)" by fastforce
    with 1(2) w' ts Some have t: "tail = tok l1 ''{'' # us @ [tok l2 ''}'']" "l' = l2 + 1" by auto
    let ?c2 = "ds_advance ?c1"
    have n: "next_of_node False ?c1 = (True, ?c2)"
      using a1 t lw NextArg_at [of ?c1] by (auto simp: next_of_node_def)
    have a2: "at_tok ?c2 ((pre @ butlast (tok l name # as)) @ [last (tok l name # as)]) (tok l1 ''{'') (us @ tok l2 ''}'' # post)"
      by (rule at_tok_advance) (use a1 t in simp)
    obtain fuel4 where f4: "fuel2 = Suc fuel4" using f2(2) t by (cases fuel2) auto
    let ?c3 = "?c2\<lparr>pc_nesting := pc_nesting ctx + 1\<rparr>"
    have dp: "pc_nesting ctx + 1 + int (node_depth c) \<le> 256" if "c \<in> set cs" for c
      using 1(6) Some that foldr_max_le [of "map node_depth cs" "foldr max (map node_depth cs) 0"] by fastforce
    have "\<exists>Ns. nodes_loop lib fuel4 False [] ?c3 =
        Ok ([] @ Ns, if tok l2 ''}'' # post = [] then ?c3\<lparr>ds_cursor := ds_cursor ?c3 + int (length us)\<rparr>
                      else ?c3\<lparr>ds_cursor := ds_cursor ?c3 + int (length us) + 1, pc_nesting := pc_nesting ?c3 - 1\<rparr>) \<and> reads lib cs Ns"
      using 1(3,4,7) Some u dp f2(2) f4 t ts
      by (intro 1(1) [OF w'[symmetric] Some u, of ?c3 "pre @ (tok l name # as) @ [tok l1 ''{'']"])
         (auto simp: before_def length_as)
    then obtain Ns where N: "nodes_loop lib fuel4 False [] ?c3 =
        Ok (Ns, ?c3\<lparr>ds_cursor := ds_cursor ?c3 + int (length us) + 1, pc_nesting := pc_nesting ctx\<rparr>)" "reads lib cs Ns"
      by auto
    have "pc_nesting ctx \<le> 255" using 1(6) Some by simp
    with N f4 have "readNodes lib fuel2 ?c2 = Ok (Ns, ctx\<lparr>ds_cursor := ds_cursor ctx + int (length ts)\<rparr>)"
      using t ts lw by (auto simp: algebra_simps)
    from trans [OF loop node_loop_block [OF n _ this wf(2)]]
    have "readNode lib fuel ?c0 = Ok (Node name args (Some Ns) False False (File ?c0) (Line ?c0),
        ctx\<lparr>ds_cursor := ds_cursor ctx + int (length ts)\<rparr>)"
      unfolding f2(1) by (intro readNode_ok) (use Val_at [OF a0] Val_at [OF a2] wf in auto)
    with wf Some N(2) show ?thesis by (auto simp: reads_def node_ok_def)
  qed
next
  case (2 l)
  then have u: "us = []" "l2 = l" by auto
  obtain fuel' where f: "fuel = Suc fuel'" using 2 by (cases fuel) auto
  show ?case
  proof (cases post)
    case Nil
    with 2 u block_eof [of ctx pre rq] f show ?thesis by (auto simp: reads_def)
  next
    case (Cons t post')
    with 2 u have t: "t = tok l ''}''" "1 \<le> pc_nesting ctx" by auto
    from block_go_on [of ctx pre t post' rq] 2 u t Cons
    have g: "next_of_block rq ctx = GoOn (ds_advance ctx)" "at_tok (ds_advance ctx) pre t post'" by auto
    with Val_at [OF g(2)] t u f Cons show ?thesis by (auto simp: reads_def)
  qed
next
  case (3 l n ns)
  obtain ts l1 where n: "node_toks l n = (ts, l1)" by fastforce
  obtain vs where v: "nodes_toks l1 ns = (vs, l2)" "us = ts @ vs" using 3(3) n by (auto split: prod.splits)
  note sh = node_toks_shape [OF n]
  obtain ts' where ts: "ts = tok l (nd_Name n) # ts'" using sh(1,2) by (cases ts) auto
  then have ts1: "1 \<le> length ts" by simp
  have nm: "nd_Name n \<noteq> ''}''" using 3(4) by (cases n) (auto simp: node_ok_def name_ok_def)
  obtain fuel' where f: "fuel = Suc fuel'" using 3 by (cases fuel) auto
  have g: "next_of_block rq ctx = GoOn (ds_advance ctx)" "at_tok (ds_advance ctx) pre (tok l (nd_Name n)) (ts' @ vs @ post)"
    using block_go_on [of ctx pre "tok l (nd_Name n)" "ts' @ vs @ post" rq] 3(5,6) v(2) ts by auto
  have la: "later l1 (vs @ post)"
  proof (cases ns)
    case Nil
    with v 3(7) show ?thesis by (auto simp: later_def)
  next
    case (Cons m ms)
    obtain xs l3 where x: "node_toks l1 m = (xs, l3)" by fastforce
    with node_toks_shape(1,2) [OF x] v Cons show ?thesis
      by (cases xs) (auto simp: later_def split: prod.splits)
  qed
  let ?c = "ctx\<lparr>ds_cursor := ds_cursor ctx + int (length ts)\<rparr>"
  have "\<exists>N. readNode lib fuel' (ds_advance ctx) = Ok (N, ?c) \<and> reads lib [n] [N]"
    using 3(4-10) la v f n ts by (intro 3(1)) auto
  then obtain N where N: "readNode lib fuel' (ds_advance ctx) = Ok (N, ?c)" "reads lib [n] [N]" by blast
  have "\<exists>Ns. nodes_loop lib fuel' True (res @ [N]) ?c =
        Ok ((res @ [N]) @ Ns, if post = [] then ?c\<lparr>ds_cursor := ds_cursor ?c + int (length vs)\<rparr>
                      else ?c\<lparr>ds_cursor := ds_cursor ?c + int (length vs) + 1, pc_nesting := pc_nesting ?c - 1\<rparr>) \<and> reads lib ns Ns"
    using 3(4-10) v f n sh ts1 by (intro 3(2) [where pre = "pre @ ts"]) (auto simp: before_def)
  then obtain Ns where Ns: "nodes_loop lib fuel' True (res @ [N]) ?c =
        Ok ((res @ [N]) @ Ns, if post = [] then ?c\<lparr>ds_cursor := ds_cursor ?c + int (length vs)\<rparr>
                      else ?c\<lparr>ds_cursor := ds_cursor ?c + int (length vs) + 1, pc_nesting := pc_nesting ?c - 1\<rparr>)" "reads lib ns Ns" by blast
  have "nodes_loop lib fuel rq res ctx = nodes_loop lib fuel' True (res @ [N]) ?c"
    using g(1) Val_at [OF g(2)] nm N f take_node_ok [of lib N res ?c] by (simp add: reads_def)
  with Ns N(2) v(2) show ?case by (intro exI [of _ "N # Ns"]) (auto simp: reads_def algebra_simps)
qed

section \<open>Imports and environment\<close>

abbreviation no_import :: "node \<Rightarrow> bool" where
  "no_import n \<equiv> nd_Name n \<noteq> ''import''"

lemma expandImports_id:
  "node_all no_import n \<Longrightarrow> expandImports lib d n ctx = Ok (n, ctx)"
proof (induction n arbitrary: d ctx)
  case (Node name args children sn ma f l)
  show ?case
  proof (cases children)
    case (Some cs)
    have "expand_children lib d xs acc False ctx = Ok ((acc @ xs, False), ctx)" if "set xs \<subseteq> set cs" for xs acc
      using that
    proof (induction xs arbitrary: acc)
      case (Cons x xs)
      with Node.prems Some have "node_all no_import x" by (auto simp: list_all_iff)
      moreover from this have "nd_Name x \<noteq> ''import''" by (cases x) simp
      ultimately show ?case using Cons Node.IH [of cs x] Some by simp
    qed simp
    from this [of cs "[]"] Some show ?thesis by simp
  qed simp
qed

lemma Contains_drop: "Contains (drop k s) p \<Longrightarrow> Contains s p"
  by (induction s arbitrary: k) (auto simp: drop_Cons split: nat.splits)

lemma remove_groups_id: "\<not> Contains s pre \<Longrightarrow> remove_groups pre close s = s"
  by (induction pre close s rule: remove_groups.induct) (auto simp: match_group_def split: option.splits)

lemma replacer_id: "\<not> Contains s ''{env:'' \<Longrightarrow> list_all (\<lambda>p. HasPrefix (fst p) ''{env:'') ps \<Longrightarrow> replacer_Replace ps s = s"
proof (induction s)
  case (Cons c s)
  have "replace_first ps (c # s) = None"
  proof -
    have p: "\<not> prefix ''{env:'' (c # s)" using Cons.prems(1) by (simp add: HasPrefix_prefix)
    show ?thesis
      using Cons.prems(2)
    proof (induction ps)
      case (Cons q qs)
      with p have "\<not> prefix (fst q) (c # s)" using prefix_order.trans by (fastforce simp: HasPrefix_prefix)
      with Cons show ?case by (cases q) (simp add: HasPrefix_prefix)
    qed simp
  qed
  with Cons show ?case by simp
qed simp

lemma buildEnvReplacer_keys: "buildEnvReplacer env = Return ps \<Longrightarrow> list_all (\<lambda>p. HasPrefix (fst p) ''{env:'') ps"
  by (induction env arbitrary: ps) (auto simp: HasPrefix_def split: if_splits)

definition env_free :: "node \<Rightarrow> bool" where
  "env_free n \<longleftrightarrow> list_all (\<lambda>w. \<not> Contains w ''{env:'') (nd_Name n # nd_Args n)"

lemma expand_env_id:
  assumes "list_all (\<lambda>p. HasPrefix (fst p) ''{env:'') ps"
  shows "node_all env_free n \<Longrightarrow> expand_env_node ps n = n"
proof (induction n)
  case (Node name args children sn ma f l)
  have t: "\<not> Contains w ''{env:'' \<Longrightarrow> expand_env_text ps w = w" for w
    using assms by (simp add: expand_env_text_def removeUnexpandedEnvvars_def replacer_id remove_groups_id)
  have "map (expand_env_node ps) cs = cs" if "children = Some cs" for cs
    using Node that by (auto simp: list_all_iff intro: map_idI)
  with Node.prems t show ?case by (auto simp: env_free_def list_all_iff intro: map_idI split: option.splits)
qed

text \<open>Properties of names and arguments survive the loss of positions.\<close>

lemma node_all_strip:
  assumes "\<And>n. P (strip n) = P n"
  shows "node_all P (strip n) = node_all P n"
proof (induction n)
  case (Node name args children sn ma f l)
  have "list_all (node_all P) (map strip cs) = list_all (node_all P) cs" if "children = Some cs" for cs
    using Node that by (auto simp: list_all_iff)
  with assms [of "Node name args children sn ma f l"] show ?case by (auto split: option.splits)
qed

lemma strip_sel [simp]:
  "nd_Name (strip n) = nd_Name n" "nd_Args (strip n) = nd_Args n" "nd_Snippet (strip n) = nd_Snippet n" "nd_Macro (strip n) = nd_Macro n"
  by (cases n; simp)+

lemma same_strip_all:
  assumes "map strip Ns = map strip ns" "\<And>n. P (strip n) = P n" "list_all (node_all P) ns"
  shows "list_all (node_all P) Ns"
proof -
  have "list_all (node_all P) (map strip Ns)" using assms by (simp add: list_all_iff node_all_strip)
  with assms(2) show ?thesis by (auto simp: list_all_iff node_all_strip)
qed

section \<open>Round trip\<close>

definition printable :: "cfg_lib \<Rightarrow> node \<Rightarrow> bool" where
  "printable lib n \<longleftrightarrow> node_ok lib n \<and> list_all scannable (nd_Name n # nd_Args n) \<and> no_import n \<and> env_free n"

lemma node_all_mono: "node_all P n \<Longrightarrow> (\<And>n. P n \<Longrightarrow> Q n) \<Longrightarrow> node_all Q n"
proof (induction n)
  case (Node name args children sn ma f l)
  then show ?case by (auto simp: list_all_iff split: option.splits)
qed

lemma printable_parts:
  assumes "list_all (node_all (printable lib)) ns"
  shows "list_all (node_all (node_ok lib)) ns" "list_all scannable_node ns" "list_all (node_all no_import) ns" "list_all (node_all env_free) ns"
  using assms by (auto simp: list_all_iff printable_def elim!: node_all_mono)

lemma parse_file_printed:
  assumes "list_all (node_all (printable lib)) ns" "list_all (\<lambda>n. node_depth n \<le> 256) ns"
  shows "\<exists>Ns ctx. parse_file lib loc (print_tree ns) = Ok (Node '''' [] (Some Ns) False False loc 1, ctx) \<and> reads lib ns Ns"
proof -
  let ?ctx = "new_context loc (print_tree ns)"
  let ?c0 = "?ctx\<lparr>pc_nesting := 0\<rparr>"
  obtain us l2 where u: "nodes_toks 1 ns = (us, l2)" by fastforce
  have t: "ds_tokens ?ctx = us" "ds_cursor ?ctx = -1" "pc_nesting ?ctx = -1"
    using print_tree_tokens [OF printable_parts(2) [OF assms(1)], of loc] u
    by (auto simp: new_context_def dispenser.defs NewDispenser_def)
  have "\<exists>Ns. nodes_loop lib (2 * length us + 1) False [] ?c0 =
      Ok ([] @ Ns, if [] = ([] :: token list) then ?c0\<lparr>ds_cursor := ds_cursor ?c0 + int (length us)\<rparr>
        else ?c0\<lparr>ds_cursor := ds_cursor ?c0 + int (length us) + 1, pc_nesting := pc_nesting ?c0 - 1\<rparr>) \<and> reads lib ns Ns"
    by (rule parse_printed(2) [OF u printable_parts(1) [OF assms(1)]])
       (use t assms(2) in \<open>auto simp: before_def list_all_iff\<close>)
  then obtain Ns where "nodes_loop lib (2 * length us + 1) False [] ?c0 =
      Ok (Ns, ?c0\<lparr>ds_cursor := ds_cursor ?c0 + int (length us)\<rparr>)" "reads lib ns Ns" by auto
  then show ?thesis using t by (auto simp: parse_file_def parse_fuel_def)
qed

lemma readTree_printed:
  assumes "list_all (node_all (printable lib)) ns" "list_all (\<lambda>n. node_depth n \<le> 256) ns"
  shows "\<exists>Ns snips macros. readTree lib d loc (print_tree ns) = Ok (Ns, snips, macros) \<and> map strip Ns = map strip ns"
proof -
  obtain Ns ctx where p: "parse_file lib loc (print_tree ns) = Ok (Node '''' [] (Some Ns) False False loc 1, ctx)"
    and r: "reads lib ns Ns" using parse_file_printed [OF assms, of loc] by blast
  have s: "map strip Ns = map strip ns" using r by (simp add: reads_def)
  have "list_all (node_all no_import) Ns"
    by (rule same_strip_all [OF s]) (use printable_parts(3) [OF assms(1)] in auto)
  then have e: "expandImports lib d (Node '''' [] (Some Ns) False False loc 1) ctx = Ok (Node '''' [] (Some Ns) False False loc 1, ctx)"
    by (intro expandImports_id) simp
  from p e s show ?thesis by (simp del: expandImports.simps)
qed

lemma read_printed:
  assumes "list_all (node_all (printable lib)) ns" "list_all (\<lambda>n. node_depth n \<le> 256) ns"
    and "buildEnvReplacer (cl_Environ lib) = Return ps"
  shows "\<exists>ns'. cfg_Read lib location (print_tree ns) = Ok ns' \<and> map strip ns' = map strip ns"
proof -
  obtain Ns snips macros where r: "readTree lib 0 location (print_tree ns) = Ok (Ns, snips, macros)" "map strip Ns = map strip ns"
    using readTree_printed [OF assms(1,2)] by blast
  have "list_all (node_all env_free) Ns"
    by (rule same_strip_all [OF r(2)]) (use printable_parts(4) [OF assms(1)] in \<open>auto simp: env_free_def\<close>)
  then have "map (expand_env_node ps) Ns = Ns"
    using expand_env_id [OF buildEnvReplacer_keys [OF assms(3)]] by (auto simp: list_all_iff intro: map_idI)
  with r assms(3) show ?thesis by (simp add: cfg_Read_def expandEnvironment_def del: readTree.simps)
qed

end
