(* ===== verification/Cfg_Tree.thy ===== *)
theory Cfg_Tree
  imports Cfg_Print
begin

text \<open>
  What the parser guarantees of every tree it returns: the calls end, snippets and macros are expanded,
  names are valid, imports are resolved.
\<close>

section \<open>Well-formed trees\<close>

definition good :: "cfg_lib \<Rightarrow> node \<Rightarrow> bool" where
  "good lib n \<longleftrightarrow> \<not> nd_Snippet n \<and> \<not> nd_Macro n \<and> validateNodeName lib (nd_Name n) = None"

abbreviation good_nodes :: "cfg_lib \<Rightarrow> node list \<Rightarrow> bool" where
  "good_nodes lib ns \<equiv> list_all (node_all (good lib)) ns"

definition good_children :: "cfg_lib \<Rightarrow> node list option \<Rightarrow> bool" where
  "good_children lib ch \<longleftrightarrow> (case ch of None \<Rightarrow> True | Some ns \<Rightarrow> good_nodes lib ns)"

definition good_snippets :: "cfg_lib \<Rightarrow> (string \<rightharpoonup> node list option) \<Rightarrow> bool" where
  "good_snippets lib sn \<longleftrightarrow> (\<forall>k ch. sn k = Some ch \<longrightarrow> good_children lib ch)"

text \<open>A node as \<open>readNode\<close> returns it: snippets and macros are still marked.\<close>

definition read_node_ok :: "cfg_lib \<Rightarrow> node \<Rightarrow> bool" where
  "read_node_ok lib n \<longleftrightarrow> good_children lib (nd_Children n) \<and> (\<not> nd_Snippet n \<longrightarrow> \<not> nd_Macro n \<longrightarrow> good lib n)"

lemma good_children_simps [simp]: "good_children lib None" "good_children lib (Some ns) \<longleftrightarrow> good_nodes lib ns"
  by (simp_all add: good_children_def)

lemma node_all_good: "node_all (good lib) n \<longleftrightarrow> good lib n \<and> good_children lib (nd_Children n)"
  by (cases n) (auto simp: good_children_def split: option.splits)

lemma expandMacros_keeps:
  "expandMacros ctx macros n = Ok n' \<Longrightarrow>
     nd_Name n' = nd_Name n \<and> nd_Snippet n' = nd_Snippet n \<and> nd_Macro n' = nd_Macro n \<and>
     (good_children lib (nd_Children n) \<longrightarrow> good_children lib (nd_Children n'))"
  "expandMacros_list ctx macros ns = Ok ns' \<Longrightarrow> good_nodes lib ns \<Longrightarrow> good_nodes lib ns'"
  by (induction n and ns arbitrary: n' and ns' rule: expandMacros_expandMacros_list.induct)
     (auto simp: rbind_Ok_iff good_children_def good_def node_all_good split: option.splits if_splits)

section \<open>The parser keeps it\<close>

definition yields :: "cfg_lib \<Rightarrow> ('a \<Rightarrow> bool) \<Rightarrow> ('a \<times> parse_context) res \<Rightarrow> bool" where
  "yields lib P r \<longleftrightarrow> (\<forall>x ctx'. r = Ok (x, ctx') \<longrightarrow> P x \<and> good_snippets lib (pc_snippets ctx'))"

lemma yields_simps [simp]:
  "yields lib P (Ok (x, ctx)) \<longleftrightarrow> P x \<and> good_snippets lib (pc_snippets ctx)"
  "yields lib P (Fail e)" "yields lib P Blocked" "yields lib P (Panic m)"
  by (auto simp: yields_def)

lemma yields_rbind:
  assumes "yields lib P m" "\<And>x ctx. m = Ok (x, ctx) \<Longrightarrow> P x \<Longrightarrow> good_snippets lib (pc_snippets ctx) \<Longrightarrow> yields lib Q (f (x, ctx))"
  shows "yields lib Q (rbind m f)"
  using assms by (cases m) (auto simp: yields_def rbind_def split: sum.splits)

lemma next_snippets:
  "next_of_node c ctx = (b, ctx') \<Longrightarrow> pc_snippets ctx' = pc_snippets ctx"
  "next_of_block r ctx = GoOn ctx' \<Longrightarrow> pc_snippets ctx' = pc_snippets ctx"
  "next_of_block r ctx = AtEOF ctx' \<Longrightarrow> pc_snippets ctx' = pc_snippets ctx"
  by (auto simp: next_of_node_def next_of_block_def NextArg_def NextLine_def Next_def split: prod.splits if_splits bool.splits)

lemma finish_node_good:
  "good_children lib ch \<Longrightarrow> good_snippets lib (pc_snippets ctx) \<Longrightarrow> yields lib (read_node_ok lib) (finish_node lib f l v args ch ctx)"
  by (auto simp: finish_node_def Let_def read_node_ok_def good_def split: prod.splits sum.splits option.splits)

lemma take_node_good:
  assumes "read_node_ok lib n" "good_nodes lib res" "good_snippets lib (pc_snippets ctx)" "take_node n res ctx = Ok (stop, res', ctx')"
  shows "good_nodes lib res' \<and> good_snippets lib (pc_snippets ctx')"
proof -
  obtain b m ctx1 where d: "drop_brace n ctx = (b, m, ctx1)" by (metis surj_pair)
  then have m: "read_node_ok lib m" "pc_snippets ctx1 = pc_snippets ctx"
    using assms(1) by (cases n; auto simp: drop_brace_def read_node_ok_def good_def split: if_splits)+
  show ?thesis
    using assms(2-4) d m expandMacros_keeps(1) [of ctx1 "pc_macros ctx1" m _ lib]
    by (auto simp: take_node_def rbind_Ok_iff node_all_good good_def read_node_ok_def good_snippets_def split: if_splits)
qed

lemma parser_good:
  "good_snippets lib (pc_snippets ctx) \<Longrightarrow> yields lib (read_node_ok lib) (readNode lib fuel ctx)"
  "good_snippets lib (pc_snippets ctx) \<Longrightarrow> good_children lib ch \<Longrightarrow> yields lib (\<lambda>x. good_children lib (snd x)) (node_loop lib fuel c args ch ctx)"
  "good_snippets lib (pc_snippets ctx) \<Longrightarrow> yields lib (good_nodes lib) (readNodes lib fuel ctx)"
  "good_snippets lib (pc_snippets ctx) \<Longrightarrow> good_nodes lib res \<Longrightarrow> yields lib (good_nodes lib) (nodes_loop lib fuel rq res ctx)"
proof (induction lib fuel ctx and lib fuel c args ch ctx and lib fuel ctx and lib fuel rq res ctx
    rule: readNode_node_loop_readNodes_nodes_loop.induct)
  case (2 lib fuel ctx)
  then show ?case by (auto intro!: yields_rbind [where P = "\<lambda>x. good_children lib (snd x)"] finish_node_good)
next
  case (4 lib fuel c args ch ctx)
  define line_end where "line_end = (\<lambda>(args, children, ctx).
            if args \<noteq> [] \<and> last args = [CHR 0x5C] then node_loop lib fuel True (butlast args) children ctx
            else Ok ((args, children), ctx))"
  let ?P = "\<lambda>x :: string list \<times> node list option. good_children lib (snd x)"
  have l: "yields lib ?P (line_end (args, ch', ctx'))" if "good_children lib ch'" "good_snippets lib (pc_snippets ctx')" for ch' ctx'
    using 4(1) that by (auto simp: line_end_def)
  obtain b ctx1 where n: "next_of_node c ctx = (b, ctx1)" by fastforce
  with next_snippets(1) [OF n] 4 have s: "good_snippets lib (pc_snippets ctx1)" by simp
  show ?case
  proof (cases b)
    case False
    with l [OF 4(5) s] n show ?thesis by (simp add: Let_def line_end_def)
  next
    case True
    have "yields lib ?P (rbind (readNodes lib fuel ctx1) (\<lambda>(nodes, ctx). line_end (args, Some nodes, ctx)))" if "Val ctx1 = ''{''"
      using 4(2) [OF line_end_def n [symmetric]] True that s l by (auto intro!: yields_rbind)
    moreover have "yields lib ?P (node_loop lib fuel False (args @ [Val ctx1]) ch ctx1)" if "Val ctx1 \<noteq> ''{''"
      using 4(3) [OF line_end_def n [symmetric]] True that s 4(5) by auto
    ultimately show ?thesis using n True by (simp add: Let_def line_end_def)
  qed
next
  case (8 lib fuel rq res ctx)
  show ?case
  proof (cases "next_of_block rq ctx")
    case (GoOn ctx1)
    with next_snippets(2) [OF GoOn] 8 have s: "good_snippets lib (pc_snippets ctx1)" by simp
    have "yields lib (good_nodes lib) (rbind (readNode lib fuel ctx1) (\<lambda>(n, ctx). rbind (take_node n res ctx)
          (\<lambda>(stop, res, ctx). if stop then Ok (res, ctx) else nodes_loop lib fuel True res ctx)))" if v: "Val ctx1 \<noteq> ''}''"
    proof -
      have "yields lib (good_nodes lib) (rbind (take_node n res ctx2)
          (\<lambda>(stop, res, ctx). if stop then Ok (res, ctx) else nodes_loop lib fuel True res ctx))"
        if "read_node_ok lib n" "good_snippets lib (pc_snippets ctx2)" "readNode lib fuel ctx1 = Ok (n, ctx2)" for n ctx2
        using take_node_good [OF that(1) 8(4) that(2)] 8(2) [OF GoOn v that(3) refl]
        by (cases "take_node n res ctx2") (auto simp: rbind_def split: sum.splits)
      then show ?thesis using 8(1) [OF GoOn v s] by (auto intro!: yields_rbind)
    qed
    with GoOn s 8(4) show ?thesis by (auto simp: Let_def)
  next
    case (AtEOF ctx1)
    with next_snippets(3) [OF AtEOF] 8 show ?thesis by simp
  qed simp
qed auto

lemma parse_file_good: "yields lib (\<lambda>n. nd_Name n = '''' \<and> good_children lib (nd_Children n)) (parse_file lib loc input)"
proof -
  have "yields lib (good_nodes lib) (readNodes lib fuel (new_context loc input))" for fuel
    by (rule parser_good) (simp add: new_context_def dispenser.defs good_snippets_def)
  then show ?thesis by (auto simp: parse_file_def Let_def intro!: yields_rbind)
qed

section \<open>Imports\<close>

text \<open>A tree whose inner nodes are well formed and are not imports.\<close>

definition resolved :: "cfg_lib \<Rightarrow> node \<Rightarrow> bool" where
  "resolved lib n \<longleftrightarrow> good lib n \<and> no_import n"

abbreviation resolved_children :: "cfg_lib \<Rightarrow> node \<Rightarrow> bool" where
  "resolved_children lib n \<equiv> (case nd_Children n of None \<Rightarrow> True | Some ns \<Rightarrow> list_all (node_all (resolved lib)) ns)"

lemma good_nodes_resolved: "list_all (node_all (resolved lib)) ns \<Longrightarrow> good_nodes lib ns"
  by (auto simp: list_all_iff resolved_def elim!: node_all_mono)

lemma imports_good:
  "good_snippets lib (pc_snippets ctx) \<Longrightarrow> good_children lib (nd_Children n) \<Longrightarrow>
     yields lib (\<lambda>n'. nd_Name n' = nd_Name n \<and> nd_Snippet n' = nd_Snippet n \<and> nd_Macro n' = nd_Macro n \<and>
        good_children lib (nd_Children n') \<and> resolved_children lib n') (expandImports lib d n ctx)"
  "good_snippets lib (pc_snippets ctx) \<Longrightarrow> good_nodes lib ns \<Longrightarrow> good_nodes lib acc \<Longrightarrow> (\<not> b \<longrightarrow> list_all (node_all (resolved lib)) acc) \<Longrightarrow>
     yields lib (\<lambda>(ns', b'). good_nodes lib ns' \<and> (\<not> b' \<longrightarrow> list_all (node_all (resolved lib)) ns')) (expand_children lib d ns acc b ctx)"
  "good_snippets lib (pc_snippets ctx) \<Longrightarrow> yields lib (good_nodes lib) (resolveImport lib d n name ctx)"
  "readTree lib d loc input = Ok (nodes, snips, macros) \<Longrightarrow> good_snippets lib snips \<and> list_all (node_all (resolved lib)) nodes"
proof (induction lib d n ctx and lib d ns acc b ctx and lib d n name ctx and lib d loc input
    arbitrary: and and and nodes snips macros
    rule: expandImports_expand_children_resolveImport_readTree.induct)
  case (2 lib depth name args children sn ma f l ctx)
  have "yields lib (\<lambda>(ns', b'). good_nodes lib ns' \<and> (\<not> b' \<longrightarrow> list_all (node_all (resolved lib)) ns'))
      (expand_children lib depth children [] False ctx)" using 2 by simp
  then show ?case
    using 2(2)
    by (subst expandImports.simps(2))
       (auto intro!: yields_rbind [of lib "\<lambda>(ns', b'). good_nodes lib ns' \<and> (\<not> b' \<longrightarrow> list_all (node_all (resolved lib)) ns')"]
         simp del: expandImports.simps split: if_splits)
next
  case (4 lib depth child rest acc b ctx)
  have c: "good lib child" "good_children lib (nd_Children child)" using 4(6) by (auto simp: node_all_good)
  let ?P = "\<lambda>n'. nd_Name n' = nd_Name child \<and> nd_Snippet n' = nd_Snippet child \<and> nd_Macro n' = nd_Macro child \<and>
        good_children lib (nd_Children n') \<and> resolved_children lib n'"
  have e: "yields lib ?P (expandImports lib (depth + 1) child ctx)" using 4(1,5) c by simp
  have g: "node_all (good lib) n" if "?P n" for n using that c by (simp add: node_all_good good_def)
  have r: "node_all (resolved lib) n" if "?P n" "nd_Name n \<noteq> ''import''" for n
    using that c by (cases n) (auto simp: resolved_def good_def split: option.splits)
  show ?case
    unfolding expand_children.simps
  proof (rule yields_rbind [OF e])
    fix n ctx2 assume n: "expandImports lib (depth + 1) child ctx = Ok (n, ctx2)" "?P n" "good_snippets lib (pc_snippets ctx2)"
    show "yields lib (\<lambda>(ns', b'). good_nodes lib ns' \<and> (\<not> b' \<longrightarrow> list_all (node_all (resolved lib)) ns'))
      (case (n, ctx2) of (child, ctx) \<Rightarrow>
       if nd_Name child = ''import'' then
         (if 255 < depth then Fail (NodeErr child ''hit import expansion limit'')
          else if length (nd_Args child) \<noteq> 1 then Fail (ds_Err ctx ''import directive requires exactly 1 argument'')
          else
            rbind (resolveImport lib depth child (hd (nd_Args child)) ctx) (\<lambda>(subtree, ctx).
              expand_children lib depth rest (acc @ subtree) True ctx))
       else expand_children lib depth rest (acc @ [child]) b ctx)"
      using 4(2,3,4) [OF n(1) refl] n g [OF n(2)] r [OF n(2)] 4(6-8) by (auto intro!: yields_rbind [of lib "good_nodes lib"])
  qed
next
  case (5 lib depth n name ctx)
  show ?case
  proof (cases "pc_snippets ctx name")
    case None
    show ?thesis
    proof (cases "open_import lib n name ctx")
      case (Inr x)
      obtain fl src where x: "x = (fl, src)" by fastforce
      have "good_snippets lib snips \<and> list_all (node_all (resolved lib)) nodes"
        if "depth \<le> 255" "readTree lib (depth + 1) fl src = Ok (nodes, snips, macros)" for nodes snips macros
        using 5(1) [OF None Inr x [symmetric] that] .
      with None Inr x 5(2) show ?thesis
        by (cases "readTree lib (depth + 1) fl src")
           (auto simp: rbind_def good_snippets_def map_add_Some_iff good_nodes_resolved split: sum.splits simp del: readTree.simps)
    qed (use None in simp)
  next
    case (Some subtree)
    with 5(2) have "good_children lib subtree" by (auto simp: good_snippets_def)
    with Some 5(2) show ?thesis by (cases subtree) simp_all
  qed
next
  case (6 lib depth location input)
  from 6(2) [unfolded readTree.simps] obtain root ctx root' ctx' where
    p: "parse_file lib location input = Ok (root, ctx)" and e: "expandImports lib depth root ctx = Ok (root', ctx')"
    and r: "nodes = (case nd_Children root' of Some ns \<Rightarrow> ns | None \<Rightarrow> [])" "snips = pc_snippets ctx'"
    by (auto simp: rbind_Ok_iff simp del: expandImports.simps)
  have "good_snippets lib (pc_snippets ctx)" "good_children lib (nd_Children root)"
    using parse_file_good [of lib location input] p by (auto simp: yields_def)
  from 6(1) [OF p refl this] e have "good_snippets lib (pc_snippets ctx')" "resolved_children lib root'"
    by (auto simp: yields_def simp del: expandImports.simps)
  with r show ?case by (auto split: option.splits)
qed auto

section \<open>Examples\<close>

definition sample_cfg :: cfg_lib where
  "sample_cfg = \<lparr>
     cl_IsLetter = (\<lambda>r. (0x41 \<le> r \<and> r \<le> 0x5A) \<or> (0x61 \<le> r \<and> r \<le> 0x7A)),
     cl_IsDigit = (\<lambda>r. 0x30 \<le> r \<and> r \<le> 0x39),
     cl_Open = (\<lambda>f. NotExist), cl_Environ = [''A=b'']\<rparr>"

definition sample_node :: node where
  "sample_node = Node ''smtp'' [''tcp://0.0.0.0:25'', ''a b''] (Some [Node ''tls'' [''off''] None False False '''' 0]) False False '''' 0"

text \<open>The context for a file that is given by its words.\<close>

definition lines_context :: "string \<Rightarrow> string list list \<Rightarrow> parse_context" where
  "lines_context loc ls = \<lparr>ds_filename = loc, ds_tokens = line_toks 1 ls, ds_cursor = -1, ds_nesting = 0,
     pc_nesting = -1, pc_snippets = Map.empty, pc_macros = Map.empty, pc_fileLocation = loc\<rparr>"

lemma scannable_ascii: "ascii w \<Longrightarrow> CHR 0x5C \<notin> set w \<Longrightarrow> scannable w"
proof -
  assume w: "ascii w" "CHR 0x5C \<notin> set w"
  have "of_char c \<noteq> r_backslash" if "c \<in> set w" for c
  proof
    assume "of_char c = r_backslash"
    then have "c = char_of (0x5C :: nat)" by (metis char_of_char)
    then have "c = CHR 0x5C" by (simp add: char_of_def bit_0)
    with that w show False by simp
  qed
  with w show ?thesis by (simp add: scannable_def valid_utf8_ascii runes_ascii image_iff)
qed

lemma new_context_lines:
  "list_all (list_all scannable) ls \<Longrightarrow> new_context loc (print_lines ls) = lines_context loc ls"
  using print_lines_tokens [of ls loc] by (simp add: new_context_def lines_context_def dispenser.defs NewDispenser_def)

lemma parse_lines_Panic:
  assumes "list_all (list_all scannable) ls" "readNodes lib (2 * length (line_toks 1 ls) + 2) (lines_context loc ls) = Panic m"
  shows "parse_file lib loc (print_lines ls) = Panic m"
  using assms by (simp add: parse_file_def new_context_lines parse_fuel_def lines_context_def Let_def)

lemma read_lines:
  assumes "list_all (list_all scannable) ls" "readNodes lib (2 * length (line_toks 1 ls) + 2) (lines_context loc ls) = Ok (ns, ctx)"
    and "\<not> 0 < pc_nesting ctx" "list_all (node_all no_import) ns" "list_all (node_all env_free) ns"
    and "buildEnvReplacer (cl_Environ lib) = Return ps"
  shows "cfg_Read lib loc (print_lines ls) = Ok ns"
proof -
  have "parse_file lib loc (print_lines ls) = Ok (Node '''' [] (Some ns) False False loc 1, ctx)"
    using assms(1-3) by (simp add: parse_file_def new_context_lines parse_fuel_def lines_context_def Let_def)
  moreover have "expandImports lib 0 (Node '''' [] (Some ns) False False loc 1) ctx = Ok (Node '''' [] (Some ns) False False loc 1, ctx)"
    using assms(4) by (intro expandImports_id) simp
  moreover have "map (expand_env_node ps) ns = ns"
    using expand_env_id [OF buildEnvReplacer_keys [OF assms(6)]] assms(5) by (auto simp: list_all_iff intro: map_idI)
  ultimately show ?thesis using assms(6) by (simp add: cfg_Read_def expandEnvironment_def del: expandImports.simps)
qed

definition empty_macro_config :: "string list list" where
  "empty_macro_config = [[''$(a)'', ''='', ''$(b)''], [''x'', ''y$(a)'']]"

definition macro_brace_config :: "string list list" where
  "macro_brace_config = [[''a'', ''{''], [''$(x)'', ''='', ''b'', ''}''], [''c'']]"

lemma match_group_greedy:
  assumes "CHR ''$'' \<notin> set g" "close \<noteq> CHR ''$''" "g \<noteq> []"
  shows "match_group pre close (pre @ g @ [close]) = Some (g, [])"
proof -
  have t: "takeWhile (\<lambda>c. c \<noteq> CHR ''$'') (g @ [close]) = g @ [close]"
    using assms by (auto simp: takeWhile_eq_all_conv)
  have "LastIndexByte (g @ close # []) close = Some (length g)" by (rule LastIndexByte_append) simp
  with t assms(3) show ?thesis by (simp add: match_group_def)
qed

section \<open>Properties\<close>

text \<open>C4. Round trip of the configuration language: a tree whose names are valid and whose words contain no
  backslash and no reference to a macro or an environment variable is read back from its printed form,
  with its structure and all words, even those with white space, quotes, comment signs or line breaks.\<close>

theorem config_print_read:
  assumes "list_all (node_all (printable lib)) ns" "list_all (\<lambda>n. node_depth n \<le> 256) ns"
    and "buildEnvReplacer (cl_Environ lib) = Return ps"
  shows "\<exists>ns'. cfg_Read lib location (print_tree ns) = Ok ns' \<and> map strip ns' = map strip ns"
  using read_printed [OF assms] .

lemma sample_printable: "list_all (node_all (printable sample_cfg)) [sample_node]"
  by (simp add: sample_node_def printable_def node_ok_def name_ok_def arg_ok_def env_free_def scannable_def valid_utf8_ascii ascii_def HasPrefix_def validateNodeName_def runes_ascii sample_cfg_def allowedPunct_def)

theorem config_print_read_witness:
  "\<exists>ns'. cfg_Read sample_cfg ''maddy.conf'' (print_tree [sample_node]) = Ok ns' \<and> map strip ns' = map strip [sample_node]"
proof (rule config_print_read [OF sample_printable])
  show "list_all (\<lambda>n. node_depth n \<le> 256) [sample_node]" by (simp add: sample_node_def)
  show "buildEnvReplacer (cl_Environ sample_cfg) = Return [(''{env:A}'', ''b'')]" by (simp add: sample_cfg_def)
qed

text \<open>C30. Reading a configuration ends: for every input, every content of the files it imports and every
  environment, \<open>Read\<close> returns a tree or an error or panics; the fuel given to the parser and the limit on
  nested imports are enough.\<close>

theorem config_read_ends: "cfg_Read lib location input \<noteq> Blocked"
proof -
  have "buildEnvReplacer env \<noteq> Blocked" for env
  proof (induction env)
    case (Cons e env)
    then show ?case by (cases "buildEnvReplacer env") auto
  qed simp
  then show ?thesis
    using imports_not_blocked(4) [of lib 0 location input]
    by (cases "buildEnvReplacer (cl_Environ lib)") (auto simp: cfg_Read_def rbind_Blocked_iff expandEnvironment_def simp del: readTree.simps)
qed

text \<open>C31. Trees are well formed: in every tree that the parser returns, at every depth, no node is marked as
  snippet or macro, every name is a valid directive name, and no import is left.\<close>

theorem config_tree_resolved:
  assumes "readTree lib 0 location input = Ok (nodes, snips, macros)"
  shows "list_all (node_all (\<lambda>n. \<not> nd_Snippet n \<and> \<not> nd_Macro n \<and> validateNodeName lib (nd_Name n) = None \<and> nd_Name n \<noteq> ''import'')) nodes"
  using imports_good(4) [OF assms] by (auto simp: list_all_iff resolved_def good_def elim!: node_all_mono)

theorem config_tree_resolved_witness:
  "\<exists>nodes. length nodes = 1 \<and>
     list_all (node_all (\<lambda>n. \<not> nd_Snippet n \<and> \<not> nd_Macro n \<and> validateNodeName sample_cfg (nd_Name n) = None \<and> nd_Name n \<noteq> ''import'')) nodes"
proof -
  obtain nodes snips macros where "readTree sample_cfg 0 ''maddy.conf'' (print_tree [sample_node]) = Ok (nodes, snips, macros)"
    "map strip nodes = map strip [sample_node]"
    using readTree_printed [OF sample_printable, of 0 "''maddy.conf''"] by (auto simp: sample_node_def)
  from config_tree_resolved [OF this(1)] arg_cong [OF this(2), of length] show ?thesis by auto
qed

text \<open>A macro with an empty value crashes the parser: after \<open>$(a) = $(b)\<close> with an undefined \<open>b\<close>, using
  \<open>a\<close> inside a word indexes an empty slice.\<close>

theorem config_empty_macro_panics:
  "cfg_Read sample_cfg ''maddy.conf'' (print_lines empty_macro_config) = Panic ''index out of range''"
proof -
  have s: "list_all (list_all scannable) empty_macro_config"
    by (simp add: empty_macro_config_def scannable_ascii ascii_def)
  have "case readNodes sample_cfg 12 (lines_context ''maddy.conf'' empty_macro_config) of
      Panic m \<Rightarrow> m = ''index out of range'' | _ \<Rightarrow> False" by code_simp
  moreover have "length (line_toks 1 empty_macro_config) = 5" by code_simp
  ultimately have "parse_file sample_cfg ''maddy.conf'' (print_lines empty_macro_config) = Panic ''index out of range''"
    by (intro parse_lines_Panic [OF s]) (auto split: outcome.splits)
  then show ?thesis by (simp add: cfg_Read_def)
qed

text \<open>A macro declaration before a closing brace on the same line escapes the check for the top level and
  swallows the rest of the file: the directive \<open>c\<close> after the block becomes a child of the block.\<close>

theorem config_macro_brace_swallows:
  "\<exists>n. cfg_Read sample_cfg ''maddy.conf'' (print_lines macro_brace_config) = Ok [n] \<and>
     strip n = Node ''a'' [] (Some [Node ''c'' [] None False False '''' 0]) False False '''' 0"
proof -
  let ?r = "readNodes sample_cfg 16 (lines_context ''maddy.conf'' macro_brace_config)"
  have s: "list_all (list_all scannable) macro_brace_config"
    by (simp add: macro_brace_config_def scannable_ascii ascii_def)
  have "case ?r of Return (Inr (ns, ctx)) \<Rightarrow>
      map strip ns = [Node ''a'' [] (Some [Node ''c'' [] None False False '''' 0]) False False '''' 0] \<and> pc_nesting ctx = 0 | _ \<Rightarrow> False"
    by code_simp
  then obtain n ctx where r: "?r = Ok ([n], ctx)" "pc_nesting ctx = 0"
    and n: "map strip [n] = map strip [Node ''a'' [] (Some [Node ''c'' [] None False False '''' 0]) False False '''' 0]"
    by (auto split: outcome.splits sum.splits)
  have "length (line_toks 1 macro_brace_config) = 7" by code_simp
  moreover have "list_all (node_all no_import) [n]" by (rule same_strip_all [OF n]) simp_all
  moreover have "list_all (node_all env_free) [n]" by (rule same_strip_all [OF n]) (simp_all add: env_free_def HasPrefix_def)
  ultimately have "cfg_Read sample_cfg ''maddy.conf'' (print_lines macro_brace_config) = Ok [n]"
    using r by (intro read_lines [OF s, where ps = "[(''{env:A}'', ''b'')]"]) (auto simp: sample_cfg_def)
  with n show ?thesis by auto
qed

text \<open>Removal of undefined environment variables takes away the text between two of them: the regular
  expression is greedy.\<close>

theorem env_removal_greedy:
  "CHR ''$'' \<notin> set (a @ s @ b) \<Longrightarrow> removeUnexpandedEnvvars (''{env:'' @ a @ ''}'' @ s @ ''{env:'' @ b @ ''}'') = ''''"
  using match_group_greedy [of "a @ ''}'' @ s @ ''{env:'' @ b" "CHR ''}''" "''{env:''"]
  by (simp add: removeUnexpandedEnvvars_def)

end
