(* ===== verification/Imap_Seq.thy ===== *)
theory Imap_Seq
  imports Go_Base
begin

text \<open>
  Model of \<^verbatim>\<open>internal/go-imap-mess/sequid.go\<close>: conversion between message sequence numbers and
  UIDs of an open mailbox.

  A \<open>uint32\<close> is a natural number below \<open>2 ^ 32\<close>; conversions and decrements that can leave this range are
  taken modulo \<open>2 ^ 32\<close>. In a range of the IMAP protocol 0 stands for \<open>*\<close>.
\<close>

type_synonym uint32 = nat

definition MaxUint32 :: uint32 where
  "MaxUint32 = 2 ^ 32 - 1"

definition to_uint32 :: "nat \<Rightarrow> uint32" where
  "to_uint32 n = n mod 2 ^ 32"

text \<open>\<open>x - 1\<close> on \<open>uint32\<close>.\<close>

definition dec32 :: "uint32 \<Rightarrow> uint32" where
  "dec32 x = (if x = 0 then MaxUint32 else x - 1)"

record seq =
  Start :: uint32
  Stop :: uint32

definition uselessSeq :: seq where
  "uselessSeq = \<lparr>Start = MaxUint32, Stop = MaxUint32\<rparr>"

section \<open>Binary search\<close>

text \<open>\<open>sort.Search\<close>.\<close>

function search_loop :: "(nat \<Rightarrow> bool) \<Rightarrow> nat \<Rightarrow> nat \<Rightarrow> nat" where
  "search_loop f i j =
     (if i < j then
        let h = (i + j) div 2 in
        if \<not> f h then search_loop f (h + 1) j else search_loop f i h
      else i)"
  by pat_completeness auto
termination
  by (relation "measure (\<lambda>(f, i, j). j - i)") auto

declare search_loop.simps [simp del]

definition Search :: "nat \<Rightarrow> (nat \<Rightarrow> bool) \<Rightarrow> nat" where
  "Search n f = search_loop f 0 n"

section \<open>UIDs to sequence numbers\<close>

definition uidToSeq :: "uint32 list \<Rightarrow> seq \<Rightarrow> seq \<times> bool" where
  "uidToSeq uidMap sq =
     (if uidMap = [] then (uselessSeq, False)
      else
        let lst = uidMap ! (length uidMap - 1);
            start =
              (if Start sq = 0 then Some (to_uint32 (length uidMap))
               else if lst < Start sq then None
               else if Start sq < uidMap ! 0 then Some 1
               else Some (to_uint32 (Search (length uidMap) (\<lambda>i. Start sq \<le> uidMap ! i) + 1)))
        in case start of
             None \<Rightarrow> (uselessSeq, False)
           | Some st \<Rightarrow>
               if st = MaxUint32 then (uselessSeq, False)
               else if Stop sq = 0 \<or> lst < Stop sq then
                 (let sp = to_uint32 (length uidMap) in
                  if sp < st \<or> sp = MaxUint32 then (uselessSeq, False) else (\<lparr>Start = st, Stop = sp\<rparr>, True))
               else if Stop sq < uidMap ! 0 then (uselessSeq, False)
               else if Start sq = Stop sq then (\<lparr>Start = st, Stop = st\<rparr>, True)
               else
                 (let sp = to_uint32 (Search (length uidMap) (\<lambda>i. Stop sq \<le> uidMap ! i) + 1);
                      sp = (if to_uint32 (length uidMap) < sp \<or> uidMap ! (sp - 1) \<noteq> Stop sq then dec32 sp else sp) in
                  if sp < st \<or> sp = MaxUint32 then (uselessSeq, False) else (\<lparr>Start = st, Stop = sp\<rparr>, True)))"

section \<open>Sequence numbers to UIDs\<close>

text \<open>The two loops skip messages with UID 0. The number of messages fits in \<open>uint32\<close>, because UIDs are
  distinct, so the increment of \<open>start\<close> does not wrap.\<close>

function seq_start :: "uint32 list \<Rightarrow> bool \<Rightarrow> uint32 \<Rightarrow> uint32 option" where
  "seq_start uidMap single start =
     (if start \<noteq> 0 \<and> length uidMap < start then None
      else
        let u = (if start = 0 then uidMap ! (length uidMap - 1) else uidMap ! (start - 1)) in
        if u \<noteq> 0 then Some u
        else if single then None
        else seq_start uidMap single (start + 1))"
  by pat_completeness auto
termination
  by (relation "measure (\<lambda>(m, s, start). length m + 1 - start)") auto

function seq_stop :: "uint32 list \<Rightarrow> uint32 \<Rightarrow> uint32 option" where
  "seq_stop uidMap stop =
     (let u = (if stop = 0 \<or> length uidMap < stop then uidMap ! (length uidMap - 1) else uidMap ! (stop - 1)) in
      if u \<noteq> 0 then Some u
      else if dec32 stop = 0 then None
      else seq_stop uidMap (dec32 stop))"
  by pat_completeness auto
termination
  by (relation "measure (\<lambda>(m, stop). if stop = 0 then 2 ^ 32 else stop)") (auto simp: dec32_def MaxUint32_def)

declare seq_start.simps [simp del] seq_stop.simps [simp del]

definition seqToUid :: "uint32 list \<Rightarrow> seq \<Rightarrow> seq \<times> bool" where
  "seqToUid uidMap sq =
     (if uidMap = [] then (uselessSeq, False)
      else case seq_start uidMap (Start sq = Stop sq) (Start sq) of
        None \<Rightarrow> (uselessSeq, False)
      | Some st \<Rightarrow>
          if Start sq = Stop sq then (\<lparr>Start = st, Stop = st\<rparr>, True)
          else (case seq_stop uidMap (Stop sq) of
                  None \<Rightarrow> (uselessSeq, False)
                | Some sp \<Rightarrow> (\<lparr>Start = st, Stop = sp\<rparr>, True)))"

section \<open>Lemmas\<close>

lemma search_loop_spec:
  assumes "i \<le> j" "\<And>k l. f k \<Longrightarrow> k \<le> l \<Longrightarrow> l < n \<Longrightarrow> f l" "j \<le> n" "\<forall>k < i. \<not> f k" "j < n \<Longrightarrow> f j"
  shows "search_loop f i j \<le> n \<and> (\<forall>k < search_loop f i j. \<not> f k) \<and> (search_loop f i j < n \<longrightarrow> f (search_loop f i j))"
  using assms
proof (induction f i j rule: search_loop.induct)
  case (1 f i j)
  show ?case
  proof (cases "i < j")
    case True
    define h where "h = (i + j) div 2"
    have h: "i \<le> h" "h < j" using True by (auto simp: h_def)
    show ?thesis
    proof (cases "f h")
      case False
      have e: "search_loop f i j = search_loop f (h + 1) j"
        by (subst search_loop.simps) (simp add: Let_def True False h_def [symmetric])
      have "\<not> f k" if "k < h + 1" for k
        using False 1(4) [of k h] that h 1(5) by auto
      then show ?thesis
        unfolding e using h by (intro 1(1) [OF True h_def False _ 1(4) 1(5) _ 1(7)]) auto
    next
      case fh: True
      have e: "search_loop f i j = search_loop f i h"
        by (subst search_loop.simps) (simp add: Let_def True fh h_def [symmetric])
      show ?thesis
        unfolding e by (rule 1(2) [OF True h_def _ h(1) 1(4) _ 1(6)]) (use fh h 1(5) in auto)
    qed
  next
    case False
    have e: "search_loop f i j = i" by (subst search_loop.simps) (simp add: False)
    from False 1(3) have "i = j" by simp
    with 1(5-7) show ?thesis unfolding e by blast
  qed
qed

text \<open>UID maps of open mailboxes: strictly increasing and positive.\<close>

definition uid_map :: "uint32 list \<Rightarrow> bool" where
  "uid_map m \<longleftrightarrow> sorted_wrt (<) m \<and> (\<forall>u \<in> set m. 0 < u) \<and> length m < MaxUint32"

lemma uid_map_mono: "uid_map m \<Longrightarrow> i < j \<Longrightarrow> j < length m \<Longrightarrow> m ! i < m ! j"
  by (auto simp: uid_map_def sorted_wrt_iff_nth_less)

lemma uid_map_le: "uid_map m \<Longrightarrow> i \<le> j \<Longrightarrow> j < length m \<Longrightarrow> m ! i \<le> m ! j"
  using uid_map_mono [of m i j] by (cases "i = j") auto

lemma uid_map_less_iff: "uid_map m \<Longrightarrow> i < length m \<Longrightarrow> j < length m \<Longrightarrow> m ! i < m ! j \<longleftrightarrow> i < j"
  by (metis linorder_neqE_nat order.asym uid_map_mono less_irrefl)

lemma Search_spec:
  fixes u :: uint32
  assumes "uid_map m"
  defines "k \<equiv> Search (length m) (\<lambda>i. u \<le> m ! i)"
  shows "k \<le> length m" "i < k \<Longrightarrow> m ! i < u" "k < length m \<Longrightarrow> u \<le> m ! k"
proof -
  have "k \<le> length m \<and> (\<forall>i < k. \<not> u \<le> m ! i) \<and> (k < length m \<longrightarrow> u \<le> m ! k)"
    unfolding k_def Search_def
    by (rule search_loop_spec) (use assms(1) uid_map_le in \<open>auto intro: order_trans\<close>)
  then show "k \<le> length m" "i < k \<Longrightarrow> m ! i < u" "k < length m \<Longrightarrow> u \<le> m ! k" by auto
qed

lemma Search_index:
  assumes "uid_map m" "k < length m"
  shows "Search (length m) (\<lambda>i. m ! k \<le> m ! i) = k"
proof -
  let ?s = "Search (length m) (\<lambda>i. m ! k \<le> m ! i)"
  note sp = Search_spec [OF assms(1), where u = "m ! k"]
  have "\<not> k < ?s" using sp(2) by blast
  moreover have "\<not> ?s < k" using sp(3) uid_map_mono [OF assms(1), of ?s k] assms(2) by fastforce
  ultimately show ?thesis by simp
qed

lemma to_uint32_id: "n \<le> MaxUint32 \<Longrightarrow> to_uint32 n = n"
  by (simp add: to_uint32_def MaxUint32_def)

text \<open>The reference: the positions of the messages in a range of UIDs.\<close>

lemma uidToSeq_member:
  assumes "uid_map m" "k < length m"
  shows "uidToSeq m \<lparr>Start = m ! k, Stop = m ! k\<rparr> = (\<lparr>Start = k + 1, Stop = k + 1\<rparr>, True)"
proof -
  have "k + 1 < MaxUint32 + 1" "k + 1 \<noteq> MaxUint32" using assms by (auto simp: uid_map_def)
  moreover have "m ! k \<le> m ! (length m - 1)" "m ! 0 \<le> m ! k" "0 < m ! k"
    using uid_map_le [OF assms(1)] assms by (auto simp: uid_map_def)
  ultimately show ?thesis
    using assms by (auto simp: uidToSeq_def Let_def Search_index to_uint32_id)
qed

lemma uidToSeq_range:
  assumes m: "uid_map m" and ab: "a < b" "b < length m"
  shows "uidToSeq m \<lparr>Start = m ! a, Stop = m ! b\<rparr> = (\<lparr>Start = a + 1, Stop = b + 1\<rparr>, True)"
proof -
  have l: "length m < MaxUint32" using m by (simp add: uid_map_def)
  have "m ! a < m ! b" "m ! b \<le> m ! (length m - 1)" "m ! 0 \<le> m ! a" "0 < m ! a"
    using uid_map_le [OF m] uid_map_mono [OF m] ab m by (auto simp: uid_map_def)
  then show ?thesis
    using ab l m by (auto simp: uidToSeq_def Let_def Search_index to_uint32_id)
qed

lemma seqToUid_range:
  assumes m: "uid_map m" and ab: "a \<le> b" "b < length m"
  shows "seqToUid m \<lparr>Start = a + 1, Stop = b + 1\<rparr> = (\<lparr>Start = m ! a, Stop = m ! b\<rparr>, True)"
proof -
  have "0 < m ! a" "0 < m ! b" using m ab by (auto simp: uid_map_def)
  then have "seq_start m s (a + 1) = Some (m ! a)" "seq_stop m (b + 1) = Some (m ! b)" for s
    using ab by (subst seq_start.simps, simp, subst seq_stop.simps, simp)+
  with ab show ?thesis by (auto simp: seqToUid_def)
qed

section \<open>Properties\<close>

text \<open>Sequence numbers and UIDs: in a mailbox with increasing UIDs, the conversion of a range of sequence
  numbers to UIDs and back returns the same range.\<close>

theorem seq_uid_roundtrip:
  assumes "uid_map m" "1 \<le> a" "a \<le> b" "b \<le> length m"
  shows "snd (seqToUid m \<lparr>Start = a, Stop = b\<rparr>) \<and>
    uidToSeq m (fst (seqToUid m \<lparr>Start = a, Stop = b\<rparr>)) = (\<lparr>Start = a, Stop = b\<rparr>, True)"
  using seqToUid_range [OF assms(1), of "a - 1" "b - 1"] uidToSeq_member [OF assms(1), of "a - 1"]
    uidToSeq_range [OF assms(1), of "a - 1" "b - 1"] assms(2-4)
  by (cases "a = b") auto

text \<open>Ranges of UIDs: for a range of two different UIDs the binary searches return exactly the positions of the
  messages in the range, and fail exactly when there is none.\<close>

theorem uid_range_positions:
  assumes "uid_map m" "0 < u" "u < v"
  shows "case uidToSeq m \<lparr>Start = u, Stop = v\<rparr> of (sq, ok) \<Rightarrow>
    {i. i < length m \<and> u \<le> m ! i \<and> m ! i \<le> v} = (if ok then {Start sq - 1 ..< Stop sq} else {}) \<and>
    (ok \<longleftrightarrow> (\<exists>i < length m. u \<le> m ! i \<and> m ! i \<le> v))"
proof (cases "m = []")
  case True
  then show ?thesis by (simp add: uidToSeq_def)
next
  case False
  note m = assms(1)
  let ?n = "length m" and ?a = "Search (length m) (\<lambda>i. u \<le> m ! i)" and ?b = "Search (length m) (\<lambda>i. v \<le> m ! i)"
  note A = Search_spec [OF m, where u = u] and B = Search_spec [OF m, where u = v]
  have n: "?n < MaxUint32" "0 < ?n" using m False by (auto simp: uid_map_def)
  have lo: "u \<le> m ! i \<longleftrightarrow> ?a \<le> i" if "i < ?n" for i
    using A(2) [of i] A(3) uid_map_le [OF m, of ?a i] that by (meson le_less_trans not_le order.trans)
  have hi: "v \<le> m ! i \<longleftrightarrow> ?b \<le> i" if "i < ?n" for i
    using B(2) [of i] B(3) uid_map_le [OF m, of ?b i] that by (meson le_less_trans not_le order.trans)
  have last: "m ! i \<le> m ! (?n - 1)" "m ! 0 \<le> m ! i" if "i < ?n" for i using uid_map_le [OF m] that by auto
  show ?thesis
  proof (cases "m ! (?n - 1) < u")
    case True
    with last have "\<not> u \<le> m ! i" if "i < ?n" for i using that by (meson le_less_trans not_le)
    with True False assms(2) show ?thesis by (auto simp: uidToSeq_def Let_def)
  next
    case f1: False
    then have "?a \<le> ?n - 1" using lo [of "?n - 1"] n by simp
    with n have a: "?a < ?n" by linarith
    have st: "u < m ! 0 \<Longrightarrow> ?a = 0" using lo [of 0] n by simp
    show ?thesis
    proof (cases "m ! (?n - 1) < v")
      case True
      then have "{i. i < ?n \<and> u \<le> m ! i \<and> m ! i \<le> v} = {?a ..< ?n}" using lo last by fastforce
      moreover have "uidToSeq m \<lparr>Start = u, Stop = v\<rparr> = (\<lparr>Start = ?a + 1, Stop = ?n\<rparr>, True)"
        using True False f1 st a n assms(2) by (auto simp: uidToSeq_def to_uint32_id Let_def)
      ultimately show ?thesis using a by auto
    next
      case f2: False
      then have "?b \<le> ?n - 1" using hi [of "?n - 1"] n by simp
      with n have b: "?b < ?n" by linarith
      show ?thesis
      proof (cases "v < m ! 0")
        case True
        then have "\<not> m ! i \<le> v" if "i < ?n" for i using last that by (meson le_less_trans not_le)
        moreover have "snd (uidToSeq m \<lparr>Start = u, Stop = v\<rparr>) = False"
          using True f2 False f1 st a n assms(2,3) by (auto simp: uidToSeq_def to_uint32_id Let_def)
        ultimately show ?thesis by (auto split: prod.splits)
      next
        case f3: False
        define sp where "sp = (if m ! ?b = v then ?b + 1 else ?b)"
        have le: "m ! i \<le> v \<longleftrightarrow> i < sp" if "i < ?n" for i
        proof (cases "m ! ?b = v")
          case True
          have "m ! i \<le> v \<longleftrightarrow> \<not> m ! ?b < m ! i" by (auto simp: True not_less)
          then show ?thesis using uid_map_less_iff [OF m b that] True by (auto simp: sp_def)
        next
          case ne: False
          have "m ! i \<noteq> v" using hi [OF that] B(3) [OF b] uid_map_le [OF m, of ?b i] that ne by fastforce
          then have "m ! i \<le> v \<longleftrightarrow> \<not> v \<le> m ! i" by auto
          then show ?thesis using hi [OF that] ne by (auto simp: sp_def)
        qed
        then have S: "{i. i < ?n \<and> u \<le> m ! i \<and> m ! i \<le> v} = {?a ..< sp}" using lo b by (auto simp: sp_def)
        have b0: "0 < ?b" if "m ! ?b \<noteq> v"
          using f3 B(3) [OF b] that by (metis gr0I not_less order.antisym)
        have v0: "m ! 0 = v" if "?b = 0" using b0 that by fastforce
        have "uidToSeq m \<lparr>Start = u, Stop = v\<rparr> =
            (if sp < ?a + 1 \<or> sp = MaxUint32 then (uselessSeq, False) else (\<lparr>Start = ?a + 1, Stop = sp\<rparr>, True))"
          using False f1 f2 f3 st a b n b0 v0 assms(2,3) by (auto simp: uidToSeq_def to_uint32_id Let_def sp_def dec32_def)
        moreover have "sp \<noteq> MaxUint32" using b n by (auto simp: sp_def)
        moreover have "(\<exists>i < ?n. u \<le> m ! i \<and> m ! i \<le> v) \<longleftrightarrow> ?a < sp"
          using S by (metis (mono_tags, lifting) atLeastLessThan_empty_iff Collect_empty_eq)
        ultimately show ?thesis using S by auto
      qed
    qed
  qed
qed

text \<open>A UID that is not in the mailbox is given the number of another message: between two messages,
  \<open>uidToSeq\<close> answers with the position of the next message and reports success.\<close>

theorem uid_gap_wrong_message:
  assumes "uid_map m" "k + 1 < length m" "m ! k < u" "u < m ! (k + 1)"
  shows "uidToSeq m \<lparr>Start = u, Stop = u\<rparr> = (\<lparr>Start = k + 2, Stop = k + 2\<rparr>, True)"
proof -
  let ?s = "Search (length m) (\<lambda>i. u \<le> m ! i)"
  note sp = Search_spec [OF assms(1), where u = u]
  have "\<not> k + 1 < ?s" using sp(2) [of "k + 1"] assms(4) by auto
  moreover have "\<not> ?s < k + 1" using sp(3) uid_map_le [OF assms(1), of ?s k] assms(2,3) by fastforce
  ultimately have s: "?s = k + 1" by simp
  have "m ! 0 \<le> m ! k" "m ! (k + 1) \<le> m ! (length m - 1)" using uid_map_le [OF assms(1)] assms(2) by auto
  moreover have "length m < MaxUint32" using assms(1) by (simp add: uid_map_def)
  ultimately show ?thesis
    using assms s by (auto simp: uidToSeq_def Let_def to_uint32_id)
qed

end
