(* ===== verification/Imap_Mess.thy ===== *)
theory Imap_Mess
  imports Imap_Seq Go_Net
begin

text \<open>
  Model of \<^verbatim>\<open>internal/go-imap-mess\<close> (\<^verbatim>\<open>mailbox.go\<close>, \<^verbatim>\<open>sequpdate.go\<close>,
  \<^verbatim>\<open>updatesync.go\<close>): which connections have a mailbox open, and how changes of the mailbox reach them.

  Objects that the code refers to by pointer live in two lists of the manager; a pointer is an index.
  Handles that no connection closed stay in the list. Keys of mailboxes are numbers. A map that is nil is
  \<open>None\<close>. A channel of capacity one is the number of its elements. The connection is the list of updates that
  were sent to it, the sink the list of updates that were put into it; sending does not fail. An operation that
  takes the lock of a handle is one step on this handle; \<open>Sync\<close> releases the lock before it sends.
  The operations of \<open>imap.SeqSet\<close> are the fields of \<open>seqset_lib\<close>, the order in which Go visits a map is the
  argument \<open>ord\<close>. A loop over a range that ends at the largest \<open>uint32\<close> does not end (\<open>Blocked\<close>).
\<close>

section \<open>Sets of numbers\<close>

type_synonym seqset = "seq list"

record seqset_lib =
  ss_Empty :: "seqset \<Rightarrow> bool"
  ss_Clear :: "seqset \<Rightarrow> seqset"
  ss_AddNum :: "seqset \<Rightarrow> uint32 \<Rightarrow> seqset"
  ss_AddRange :: "seqset \<Rightarrow> uint32 \<Rightarrow> uint32 \<Rightarrow> seqset"
  ss_AddSet :: "seqset \<Rightarrow> seqset \<Rightarrow> seqset"
  ss_Contains :: "seqset \<Rightarrow> uint32 \<Rightarrow> bool"
  ss_String :: "seqset \<Rightarrow> string"
  ss_Parse :: "string \<Rightarrow> seqset option"

text \<open>The loops \<open>for i := set.Start; i <= set.Stop; i++\<close> over all ranges of a set: the numbers they visit.\<close>

definition range_uids :: "seq \<Rightarrow> uint32 list outcome" where
  "range_uids r = (if Start r \<le> Stop r \<and> Stop r = MaxUint32 then Blocked else Return [Start r ..< Stop r + 1])"

fun set_uids :: "seqset \<Rightarrow> uint32 list outcome" where
  "set_uids [] = Return []"
| "set_uids (r # rs) = obind (range_uids r) (\<lambda>us. obind (set_uids rs) (\<lambda>vs. Return (us @ vs)))"

section \<open>Data\<close>

record flags_update =
  fu_uid :: uint32
  newFlags :: "string list"

text \<open>The updates sent to a client: a \<open>MessageUpdate\<close> with number, UID and flags, an \<open>ExpungeUpdate\<close> with a
  number, and the two kinds of \<open>MailboxUpdate\<close>.\<close>

datatype client_update =
  MessageUpdate uint32 uint32 "string list"
| ExpungeUpdate uint32
| ExistsUpdate uint32
| RecentUpdate uint32

record mailbox_handle =
  h_key :: nat
  h_shared :: "nat option"
  h_conn :: "client_update list option"
  idleerNotify :: "nat option"
  uidMap :: "uint32 list"
  recent :: "seqset option"
  hasNewRecent :: bool
  recentCount :: uint32
  pendingExpunge :: seqset
  pendingCreated :: seqset
  pendingFlags :: "flags_update list"

record shared_handle =
  sh_key :: nat
  sh_handles :: "nat list option"

datatype update_type = UpdNewMessage | UpdFlags | UpdRemoved | UpdMboxDestroyed

record update =
  upd_Type :: update_type
  upd_Key :: nat
  upd_SeqSet :: string
  upd_NewFlags :: "string list"

text \<open>\<open>mg_objs\<close> and \<open>mg_shareds\<close> hold the objects. The two hooks are nil or the list of keys they were called
  with.\<close>

record manager =
  mg_handles :: "nat \<rightharpoonup> nat"
  mg_sink :: "update list option"
  ExternalSubscribe :: "nat list option"
  ExternalUnsubscribe :: "nat list option"
  mg_objs :: "mailbox_handle list"
  mg_shareds :: "shared_handle list"

definition NewManager :: manager where
  "NewManager = \<lparr>mg_handles = Map.empty, mg_sink = None, ExternalSubscribe = None, ExternalUnsubscribe = None,
     mg_objs = [], mg_shareds = []\<rparr>"

definition SetExternalSink :: "update list option \<Rightarrow> manager \<Rightarrow> manager" where
  "SetExternalSink upds m = m\<lparr>mg_sink := upds\<rparr>"

definition to_sink :: "update \<Rightarrow> manager \<Rightarrow> manager" where
  "to_sink u m = m\<lparr>mg_sink := map_option (\<lambda>s. s @ [u]) (mg_sink m)\<rparr>"

definition uid_update :: "update_type \<Rightarrow> nat \<Rightarrow> uint32 \<Rightarrow> string list \<Rightarrow> update" where
  "uid_update ty key uid flags = \<lparr>upd_Type = ty, upd_Key = key, upd_SeqSet = nat_digits uid, upd_NewFlags = flags\<rparr>"

definition set_update :: "seqset_lib \<Rightarrow> update_type \<Rightarrow> nat \<Rightarrow> seqset \<Rightarrow> update" where
  "set_update lib ty key s = \<lparr>upd_Type = ty, upd_Key = key, upd_SeqSet = ss_String lib s, upd_NewFlags = []\<rparr>"

section \<open>Opening a mailbox\<close>

definition ManagementHandle :: "nat \<Rightarrow> uint32 list \<Rightarrow> seqset option \<Rightarrow> manager \<Rightarrow> nat \<times> manager" where
  "ManagementHandle key uids recents m =
     (length (mg_objs m),
      m\<lparr>mg_objs := mg_objs m @ [\<lparr>h_key = key, h_shared = None, h_conn = None, idleerNotify = None, uidMap = uids,
        recent = recents, hasNewRecent = False, recentCount = 0, pendingExpunge = [], pendingCreated = [],
        pendingFlags = []\<rparr>]\<rparr>)"

text \<open>Lookup of the shared object or its allocation, the new handle, and its registration.\<close>

definition open_shared :: "nat \<Rightarrow> manager \<Rightarrow> nat \<times> shared_handle list" where
  "open_shared key m =
     (case mg_handles m key of
        Some s \<Rightarrow> (s, mg_shareds m)
      | None \<Rightarrow> (length (mg_shareds m), mg_shareds m @ [\<lparr>sh_key = key, sh_handles = Some []\<rparr>]))"

definition new_handle :: "nat \<Rightarrow> nat \<Rightarrow> client_update list option \<Rightarrow> uint32 list \<Rightarrow> seqset \<Rightarrow> uint32 list \<Rightarrow> mailbox_handle" where
  "new_handle key sh conn uids rs rus =
     \<lparr>h_key = key, h_shared = Some sh, h_conn = conn, idleerNotify = None, uidMap = uids, recent = Some rs,
      hasNewRecent = False, recentCount = to_uint32 (length rus), pendingExpunge = [], pendingCreated = [],
      pendingFlags = []\<rparr>"

definition Mailbox ::
    "nat \<Rightarrow> client_update list option \<Rightarrow> uint32 list \<Rightarrow> seqset option \<Rightarrow> manager \<Rightarrow> (nat \<times> manager) outcome" where
  "Mailbox key conn uids recents m =
     (case recents of
        None \<Rightarrow> nil_deref
      | Some rs \<Rightarrow>
          obind (set_uids rs) (\<lambda>rus.
            let (sh, shs) = open_shared key m;
                h = length (mg_objs m);
                m' = m\<lparr>mg_objs := mg_objs m @ [new_handle key sh conn uids rs rus]\<rparr>
            in case sh_handles (shs ! sh) of
                 None \<Rightarrow> Panic ''assignment to entry in nil map''
               | Some hs \<Rightarrow>
                   let m' = m'\<lparr>mg_shareds := shs[sh := (shs ! sh)\<lparr>sh_handles := Some (hs @ [h])\<rparr>]\<rparr> in
                   Return (h,
                     if mg_handles m key \<noteq> None then m'
                     else m'\<lparr>mg_handles := (mg_handles m)(key \<mapsto> sh),
                             ExternalSubscribe := map_option (\<lambda>l. l @ [key]) (ExternalSubscribe m)\<rparr>)))"

section \<open>Changes\<close>

definition idleUpdate :: "mailbox_handle \<Rightarrow> mailbox_handle" where
  "idleUpdate hndl = hndl\<lparr>idleerNotify := map_option (\<lambda>n. if n < 1 then n + 1 else n) (idleerNotify hndl)\<rparr>"

text \<open>The handles behind a shared object, in the order of the iteration.\<close>

definition shared_handles :: "(nat list \<Rightarrow> nat list) \<Rightarrow> manager \<Rightarrow> nat \<Rightarrow> nat list" where
  "shared_handles ord m sh = ord (case sh_handles (mg_shareds m ! sh) of None \<Rightarrow> [] | Some hs \<Rightarrow> hs)"

fun newMessages_loop :: "seqset_lib \<Rightarrow> seqset \<Rightarrow> nat list \<Rightarrow> bool \<Rightarrow> mailbox_handle list \<Rightarrow> (bool \<times> mailbox_handle list) outcome" where
  "newMessages_loop lib uid [] addedRecent objs = Return (addedRecent, objs)"
| "newMessages_loop lib uid (a # as) addedRecent objs =
     (let hndl = (objs ! a)\<lparr>pendingCreated := ss_AddSet lib (pendingCreated (objs ! a)) uid\<rparr> in
      if addedRecent then newMessages_loop lib uid as addedRecent (objs[a := idleUpdate hndl])
      else (case recent hndl of
              None \<Rightarrow> nil_deref
            | Some r \<Rightarrow>
                obind (set_uids uid) (\<lambda>us.
                  newMessages_loop lib uid as True
                    (objs[a := idleUpdate (hndl\<lparr>recent := Some (ss_AddSet lib r uid),
                       recentCount := to_uint32 (recentCount hndl + length us), hasNewRecent := True\<rparr>)]))))"

definition newMessages :: "seqset_lib \<Rightarrow> (nat list \<Rightarrow> nat list) \<Rightarrow> nat \<Rightarrow> seqset \<Rightarrow> manager \<Rightarrow> (bool \<times> manager) outcome" where
  "newMessages lib ord key uid m =
     (case mg_handles m key of
        None \<Rightarrow> Return (False, m)
      | Some sh \<Rightarrow>
          obind (newMessages_loop lib uid (shared_handles ord m sh) False (mg_objs m))
            (\<lambda>(added, objs). Return (\<not> added, m\<lparr>mg_objs := objs\<rparr>)))"

definition NewMessages :: "seqset_lib \<Rightarrow> (nat list \<Rightarrow> nat list) \<Rightarrow> nat \<Rightarrow> seqset \<Rightarrow> manager \<Rightarrow> (bool \<times> manager) outcome" where
  "NewMessages lib ord key uid m = newMessages lib ord key uid (to_sink (set_update lib UpdNewMessage key uid) m)"

fun newMessage_loop :: "seqset_lib \<Rightarrow> uint32 \<Rightarrow> nat list \<Rightarrow> bool \<Rightarrow> mailbox_handle list \<Rightarrow> (bool \<times> mailbox_handle list) outcome" where
  "newMessage_loop lib uid [] addedRecent objs = Return (addedRecent, objs)"
| "newMessage_loop lib uid (a # as) addedRecent objs =
     (let hndl = (objs ! a)\<lparr>pendingCreated := ss_AddNum lib (pendingCreated (objs ! a)) uid\<rparr> in
      if addedRecent then newMessage_loop lib uid as addedRecent (objs[a := idleUpdate hndl])
      else (case recent hndl of
              None \<Rightarrow> nil_deref
            | Some r \<Rightarrow>
                newMessage_loop lib uid as True
                  (objs[a := idleUpdate (hndl\<lparr>recent := Some (ss_AddNum lib r uid), hasNewRecent := True,
                     recentCount := to_uint32 (recentCount hndl + 1)\<rparr>)])))"

definition NewMessage :: "seqset_lib \<Rightarrow> (nat list \<Rightarrow> nat list) \<Rightarrow> nat \<Rightarrow> uint32 \<Rightarrow> manager \<Rightarrow> (bool \<times> manager) outcome" where
  "NewMessage lib ord key uid m =
     (let m = to_sink (uid_update UpdNewMessage key uid []) m in
      case mg_handles m key of
        None \<Rightarrow> Return (True, m)
      | Some sh \<Rightarrow>
          obind (newMessage_loop lib uid (shared_handles ord m sh) False (mg_objs m))
            (\<lambda>(added, objs). Return (\<not> added, m\<lparr>mg_objs := objs\<rparr>)))"

text \<open>One step, like all calls of this theory. The code clears the map of handles under the read lock alone, so that a concurrent reader may race with it, and
  the send to the sink in \<open>MailboxDestroyed\<close> may block; neither is expressed here.\<close>

definition mailboxDestroyed :: "nat \<Rightarrow> manager \<Rightarrow> manager" where
  "mailboxDestroyed key m =
     (case mg_handles m key of
        None \<Rightarrow> m
      | Some sh \<Rightarrow>
          m\<lparr>mg_shareds := (mg_shareds m)[sh := (mg_shareds m ! sh)\<lparr>sh_handles := None\<rparr>],
            mg_handles := (mg_handles m)(key := None),
            ExternalUnsubscribe := map_option (\<lambda>l. l @ [key]) (ExternalUnsubscribe m)\<rparr>)"

definition MailboxDestroyed :: "nat \<Rightarrow> manager \<Rightarrow> manager" where
  "MailboxDestroyed key m =
     mailboxDestroyed key (to_sink \<lparr>upd_Type = UpdMboxDestroyed, upd_Key = key, upd_SeqSet = [], upd_NewFlags = []\<rparr> m)"

text \<open>A loop that changes every handle in the same way.\<close>

fun each_handle :: "(mailbox_handle \<Rightarrow> mailbox_handle) \<Rightarrow> nat list \<Rightarrow> mailbox_handle list \<Rightarrow> mailbox_handle list" where
  "each_handle f [] objs = objs"
| "each_handle f (a # as) objs = each_handle f as (objs[a := f (objs ! a)])"

definition expunge_set :: "seqset_lib \<Rightarrow> seqset \<Rightarrow> mailbox_handle \<Rightarrow> mailbox_handle" where
  "expunge_set lib sq hndl = idleUpdate (hndl\<lparr>pendingExpunge := ss_AddSet lib (pendingExpunge hndl) sq\<rparr>)"

definition expunge_num :: "seqset_lib \<Rightarrow> uint32 \<Rightarrow> mailbox_handle \<Rightarrow> mailbox_handle" where
  "expunge_num lib uid hndl = idleUpdate (hndl\<lparr>pendingExpunge := ss_AddNum lib (pendingExpunge hndl) uid\<rparr>)"

definition removedSet :: "seqset_lib \<Rightarrow> (nat list \<Rightarrow> nat list) \<Rightarrow> nat \<Rightarrow> seqset \<Rightarrow> manager \<Rightarrow> manager" where
  "removedSet lib ord key sq m =
     (case mg_handles m key of
        None \<Rightarrow> m
      | Some sh \<Rightarrow> m\<lparr>mg_objs := each_handle (expunge_set lib sq) (shared_handles ord m sh) (mg_objs m)\<rparr>)"

text \<open>\<open>enqueueFlagsUpdate\<close>: inside the loop the name \<open>upd\<close> means the element of the list, so that the assignment
  writes back the flags that are already there.\<close>

fun replace_pending :: "uint32 \<Rightarrow> flags_update list \<Rightarrow> flags_update list option" where
  "replace_pending uid [] = None"
| "replace_pending uid (upd # us) =
     (if fu_uid upd = uid then Some (upd\<lparr>newFlags := newFlags upd\<rparr> # us) else map_option (Cons upd) (replace_pending uid us))"

definition RecentFlag :: string where
  "RecentFlag = CHR 0x5C # ''Recent''"

definition enqueueFlagsUpdate :: "seqset_lib \<Rightarrow> uint32 \<Rightarrow> string list \<Rightarrow> mailbox_handle \<Rightarrow> mailbox_handle outcome" where
  "enqueueFlagsUpdate lib uid flags hndl =
     (case recent hndl of
        None \<Rightarrow> nil_deref
      | Some r \<Rightarrow>
          let upd = \<lparr>fu_uid = uid, newFlags = (if ss_Contains lib r uid then flags @ [RecentFlag] else flags)\<rparr>;
              pend = (case replace_pending uid (pendingFlags hndl) of
                        Some p \<Rightarrow> p
                      | None \<Rightarrow> pendingFlags hndl @ [upd])
          in Return (idleUpdate (hndl\<lparr>pendingFlags := pend\<rparr>)))"

fun flags_loop :: "seqset_lib \<Rightarrow> uint32 \<Rightarrow> string list \<Rightarrow> nat list \<Rightarrow> mailbox_handle list \<Rightarrow> mailbox_handle list outcome" where
  "flags_loop lib uid flags [] objs = Return objs"
| "flags_loop lib uid flags (a # as) objs =
     obind (enqueueFlagsUpdate lib uid flags (objs ! a)) (\<lambda>h. flags_loop lib uid flags as (objs[a := h]))"

definition flagsChanged :: "seqset_lib \<Rightarrow> (nat list \<Rightarrow> nat list) \<Rightarrow> nat \<Rightarrow> uint32 \<Rightarrow> string list \<Rightarrow> manager \<Rightarrow> manager outcome" where
  "flagsChanged lib ord key uid flags m =
     (case mg_handles m key of
        None \<Rightarrow> Return m
      | Some sh \<Rightarrow>
          obind (flags_loop lib uid flags (shared_handles ord m sh) (mg_objs m)) (\<lambda>objs. Return (m\<lparr>mg_objs := objs\<rparr>)))"

text \<open>\<open>strconv.ParseUint\<close> with base 10 and 32 bits.\<close>

definition ParseUint32 :: "string \<Rightarrow> uint32 option" where
  "ParseUint32 s = (if s \<noteq> [] \<and> list_all is_digit s \<and> dec_val s \<le> MaxUint32 then Some (dec_val s) else None)"

definition ExternalUpdate :: "seqset_lib \<Rightarrow> (nat list \<Rightarrow> nat list) \<Rightarrow> update \<Rightarrow> manager \<Rightarrow> manager outcome" where
  "ExternalUpdate lib ord upd m =
     (case upd_Type upd of
        UpdNewMessage \<Rightarrow>
          (case ss_Parse lib (upd_SeqSet upd) of
             None \<Rightarrow> Return m
           | Some sq \<Rightarrow> obind (newMessages lib ord (upd_Key upd) sq m) (\<lambda>(_, m). Return m))
      | UpdFlags \<Rightarrow>
          (case ParseUint32 (upd_SeqSet upd) of
             None \<Rightarrow> Return m
           | Some uid \<Rightarrow> flagsChanged lib ord (upd_Key upd) uid (upd_NewFlags upd) m)
      | UpdRemoved \<Rightarrow>
          (case ss_Parse lib (upd_SeqSet upd) of
             None \<Rightarrow> Return m
           | Some sq \<Rightarrow> Return (removedSet lib ord (upd_Key upd) sq m))
      | UpdMboxDestroyed \<Rightarrow> Return (mailboxDestroyed (upd_Key upd) m))"

section \<open>Operations of a handle\<close>

text \<open>\<open>ResolveSeq\<close> returns the set, or \<open>None\<close> for \<open>ErrNoMessages\<close>, with which the code returns an empty set.
  For UIDs it changes its argument, which is then the result.\<close>

definition resolve_uid_range :: "uint32 list \<Rightarrow> seq \<Rightarrow> seq" where
  "resolve_uid_range m r =
     (let lst = m ! (length m - 1);
          st = (if Start r = 0 then lst else Start r);
          sp = (if Stop r = 0 then lst else Stop r)
      in if sp < st then \<lparr>Start = sp, Stop = st\<rparr> else \<lparr>Start = st, Stop = sp\<rparr>)"

fun resolve_seq_loop :: "seqset_lib \<Rightarrow> uint32 list \<Rightarrow> seqset \<Rightarrow> seqset \<Rightarrow> seqset" where
  "resolve_seq_loop lib m result [] = result"
| "resolve_seq_loop lib m result (r # rs) =
     (case seqToUid m r of
        (sq, ok) \<Rightarrow> resolve_seq_loop lib m (if ok then ss_AddRange lib result (Start sq) (Stop sq) else result) rs)"

definition ResolveSeq :: "seqset_lib \<Rightarrow> bool \<Rightarrow> seqset \<Rightarrow> mailbox_handle \<Rightarrow> seqset option" where
  "ResolveSeq lib uid sq hndl =
     (if uidMap hndl = [] then None
      else if uid then Some (map (resolve_uid_range (uidMap hndl)) sq)
      else let result = resolve_seq_loop lib (uidMap hndl) [] sq in
           if result = [] then None else Some result)"

text \<open>The fields of \<open>imap.SearchCriteria\<close> that are read or written here; \<open>cr_rest\<close> stands for the others.\<close>

datatype criteria = Criteria
  (cr_SeqNum: "seqset option")
  (cr_Uid: "seqset option")
  (cr_Not: "criteria list")
  (cr_Or: "(criteria \<times> criteria) list")
  (cr_rest: string)

definition resolved_set :: "seqset option \<Rightarrow> seqset" where
  "resolved_set r = (case r of None \<Rightarrow> [] | Some s \<Rightarrow> s)"

definition resolve_uids :: "seqset_lib \<Rightarrow> mailbox_handle \<Rightarrow> seqset option \<Rightarrow> seqset option \<Rightarrow> seqset option" where
  "resolve_uids lib hndl seqNum uid =
     (let uid = map_option (\<lambda>u. resolved_set (ResolveSeq lib True u hndl)) uid in
      case seqNum of
        None \<Rightarrow> uid
      | Some s \<Rightarrow> Some (ss_AddSet lib (resolved_set uid) (resolved_set (ResolveSeq lib False s hndl))))"

fun ResolveCriteria :: "seqset_lib \<Rightarrow> mailbox_handle \<Rightarrow> criteria \<Rightarrow> criteria" where
  "ResolveCriteria lib hndl (Criteria seqNum uid nots ors rest) =
     Criteria None (resolve_uids lib hndl seqNum uid) (map (ResolveCriteria lib hndl) nots)
       (map (map_prod (ResolveCriteria lib hndl) (ResolveCriteria lib hndl)) ors) rest"

definition UidAsSeq :: "uint32 \<Rightarrow> mailbox_handle \<Rightarrow> uint32 \<times> bool" where
  "UidAsSeq uid hndl = (case uidToSeq (uidMap hndl) \<lparr>Start = uid, Stop = uid\<rparr> of (sq, ok) \<Rightarrow> (Start sq, ok))"

definition IsRecent :: "seqset_lib \<Rightarrow> uint32 \<Rightarrow> mailbox_handle \<Rightarrow> bool outcome" where
  "IsRecent lib uid hndl = (case recent hndl of None \<Rightarrow> nil_deref | Some r \<Rightarrow> Return (ss_Contains lib r uid))"

definition MsgsCount :: "mailbox_handle \<Rightarrow> nat" where
  "MsgsCount hndl = length (uidMap hndl)"

text \<open>\<open>Sync\<close>: what it collects while it holds the lock, and what it sends.\<close>

record sync_batch =
  sb_flags :: "flags_update list"
  sb_expunged :: "uint32 list"
  sb_newMsgCount :: uint32
  sb_hasNewRecent :: bool
  sb_recentCount :: uint32

definition sync_expunge :: "seqset_lib \<Rightarrow> bool \<Rightarrow> mailbox_handle \<Rightarrow> mailbox_handle \<times> uint32 list" where
  "sync_expunge lib expunge hndl =
     (if expunge \<and> \<not> ss_Empty lib (pendingExpunge hndl) then
        let gone = ss_Contains lib (pendingExpunge hndl) in
        (hndl\<lparr>uidMap := filter (\<lambda>u. \<not> gone u) (uidMap hndl), pendingExpunge := ss_Clear lib (pendingExpunge hndl)\<rparr>,
         map (\<lambda>(i, _). to_uint32 (i + 1)) (filter (\<lambda>(_, u). gone u) (enumerate 0 (uidMap hndl))))
      else (hndl, []))"

definition sync_collect :: "seqset_lib \<Rightarrow> bool \<Rightarrow> mailbox_handle \<Rightarrow> (mailbox_handle \<times> sync_batch) outcome" where
  "sync_collect lib expunge hndl =
     (let flags = pendingFlags hndl;
          (hndl, expunged) = sync_expunge lib expunge (hndl\<lparr>pendingFlags := []\<rparr>)
      in if ss_Empty lib (pendingCreated hndl) then
           Return (hndl, \<lparr>sb_flags = flags, sb_expunged = expunged, sb_newMsgCount = 0, sb_hasNewRecent = False, sb_recentCount = 0\<rparr>)
         else
           obind (set_uids (pendingCreated hndl)) (\<lambda>us.
             let hndl' = hndl\<lparr>uidMap := uidMap hndl @ us, pendingCreated := ss_Clear lib (pendingCreated hndl), hasNewRecent := False\<rparr> in
             Return (hndl', \<lparr>sb_flags = flags, sb_expunged = expunged, sb_newMsgCount = to_uint32 (length (uidMap hndl')),
               sb_hasNewRecent = hasNewRecent hndl, sb_recentCount = recentCount hndl\<rparr>)))"

fun flag_messages :: "uint32 list \<Rightarrow> flags_update list \<Rightarrow> client_update list" where
  "flag_messages m [] = []"
| "flag_messages m (upd # us) =
     (case uidToSeq m \<lparr>Start = fu_uid upd, Stop = fu_uid upd\<rparr> of
        (sq, ok) \<Rightarrow> (if ok then [MessageUpdate (Start sq) (fu_uid upd) (newFlags upd)] else [])) @ flag_messages m us"

definition batch_updates :: "uint32 list \<Rightarrow> sync_batch \<Rightarrow> client_update list" where
  "batch_updates m b =
     flag_messages m (sb_flags b) @ map ExpungeUpdate (rev (sb_expunged b)) @
     (if 0 < sb_newMsgCount b then
        ExistsUpdate (sb_newMsgCount b) # (if sb_hasNewRecent b then [RecentUpdate (sb_recentCount b)] else [])
      else [])"

definition sync_send :: "sync_batch \<Rightarrow> mailbox_handle \<Rightarrow> mailbox_handle" where
  "sync_send b hndl = hndl\<lparr>h_conn := map_option (\<lambda>l. l @ batch_updates (uidMap hndl) b) (h_conn hndl)\<rparr>"

definition Sync :: "seqset_lib \<Rightarrow> bool \<Rightarrow> mailbox_handle \<Rightarrow> mailbox_handle outcome" where
  "Sync lib expunge hndl =
     (if h_conn hndl = None then Return hndl
      else obind (sync_collect lib expunge hndl) (\<lambda>(hndl, b). Return (sync_send b hndl)))"

text \<open>Operations that start at a handle \<open>h\<close> and reach all handles of its mailbox.\<close>

definition FlagsChanged ::
    "seqset_lib \<Rightarrow> (nat list \<Rightarrow> nat list) \<Rightarrow> nat \<Rightarrow> uint32 \<Rightarrow> string list \<Rightarrow> bool \<Rightarrow> manager \<Rightarrow> manager outcome" where
  "FlagsChanged lib ord h uid flags silent m =
     (let hndl = mg_objs m ! h;
          m = to_sink (uid_update UpdFlags (h_key hndl) uid flags) m
      in if h_conn hndl = None then Return m
         else case h_shared hndl of
           None \<Rightarrow> nil_deref
         | Some sh \<Rightarrow>
             obind (flags_loop lib uid flags (filter (\<lambda>a. \<not> (a = h \<and> silent)) (shared_handles ord m sh)) (mg_objs m))
               (\<lambda>objs. Return (m\<lparr>mg_objs := objs\<rparr>)))"

definition Removed :: "seqset_lib \<Rightarrow> (nat list \<Rightarrow> nat list) \<Rightarrow> nat \<Rightarrow> uint32 \<Rightarrow> manager \<Rightarrow> manager outcome" where
  "Removed lib ord h uid m =
     (let hndl = mg_objs m ! h;
          m = to_sink (uid_update UpdRemoved (h_key hndl) uid []) m
      in if h_conn hndl = None then Return m
         else case h_shared hndl of
           None \<Rightarrow> nil_deref
         | Some sh \<Rightarrow> Return (m\<lparr>mg_objs := each_handle (expunge_num lib uid) (shared_handles ord m sh) (mg_objs m)\<rparr>))"

definition RemovedSet :: "seqset_lib \<Rightarrow> (nat list \<Rightarrow> nat list) \<Rightarrow> nat \<Rightarrow> seqset \<Rightarrow> manager \<Rightarrow> manager outcome" where
  "RemovedSet lib ord h sq m =
     (let hndl = mg_objs m ! h;
          m = to_sink (set_update lib UpdRemoved (h_key hndl) sq) m
      in if h_conn hndl = None then Return m
         else case h_shared hndl of
           None \<Rightarrow> nil_deref
         | Some sh \<Rightarrow> Return (m\<lparr>mg_objs := each_handle (expunge_set lib sq) (shared_handles ord m sh) (mg_objs m)\<rparr>))"

definition handle_Close :: "nat \<Rightarrow> manager \<Rightarrow> manager outcome" where
  "handle_Close h m =
     (let hndl = mg_objs m ! h in
      if h_conn hndl = None then Return m
      else case h_shared hndl of
        None \<Rightarrow> nil_deref
      | Some sh \<Rightarrow>
          let shared = mg_shareds m ! sh;
              hs = map_option (removeAll h) (sh_handles shared);
              m' = m\<lparr>mg_shareds := (mg_shareds m)[sh := shared\<lparr>sh_handles := hs\<rparr>]\<rparr>
          in Return (case hs of
               Some (_ # _) \<Rightarrow> m'
             | _ \<Rightarrow> m'\<lparr>mg_handles := (mg_handles m)(sh_key shared := None),
                       ExternalUnsubscribe := map_option (\<lambda>l. l @ [sh_key shared]) (ExternalUnsubscribe m)\<rparr>))"

section \<open>Idle\<close>

text \<open>The goroutine that runs \<open>Idle\<close>: before \<open>Idle\<close>, about to call \<open>Sync\<close>, inside \<open>Sync\<close> after the lock was
  released, waiting in the \<open>select\<close>, finished. Producers take the lock of the handle for one step.\<close>

datatype idle_pc = Not_Idle | At_Sync | Sending sync_batch | Waiting | Finished

type_synonym idle_state = "idle_pc \<times> mailbox_handle"

definition hasPending :: "seqset_lib \<Rightarrow> mailbox_handle \<Rightarrow> bool" where
  "hasPending lib hndl \<longleftrightarrow> \<not> ss_Empty lib (pendingCreated hndl) \<or> \<not> ss_Empty lib (pendingExpunge hndl) \<or> pendingFlags hndl \<noteq> []"

text \<open>The steps of the goroutine itself.\<close>

inductive idle_own :: "seqset_lib \<Rightarrow> idle_state \<Rightarrow> idle_state \<Rightarrow> bool" for lib where
  idle_begin: "idle_own lib (Not_Idle, hndl) (if hasPending lib hndl then At_Sync else Waiting, hndl\<lparr>idleerNotify := Some 0\<rparr>)"
| idle_collect: "sync_collect lib True hndl = Return (hndl', b) \<Longrightarrow> idle_own lib (At_Sync, hndl) (Sending b, hndl')"
| idle_send: "idle_own lib (Sending b, hndl) (Waiting, sync_send b hndl)"
| idle_wake: "idleerNotify hndl = Some (Suc n) \<Longrightarrow> idle_own lib (Waiting, hndl) (At_Sync, hndl\<lparr>idleerNotify := Some n\<rparr>)"
| idle_done: "idle_own lib (Waiting, hndl) (Finished, hndl\<lparr>idleerNotify := None\<rparr>)"

text \<open>The steps of the other goroutines on this handle: the bodies of the loops above.\<close>

inductive produce :: "seqset_lib \<Rightarrow> mailbox_handle \<Rightarrow> mailbox_handle \<Rightarrow> bool" for lib where
  produce_created: "newMessage_loop lib uid [0] added [hndl] = Return (added', [hndl']) \<Longrightarrow> produce lib hndl hndl'"
| produce_created_set: "newMessages_loop lib sq [0] added [hndl] = Return (added', [hndl']) \<Longrightarrow> produce lib hndl hndl'"
| produce_expunge: "produce lib hndl (expunge_num lib uid hndl)"
| produce_expunge_set: "produce lib hndl (expunge_set lib sq hndl)"
| produce_flags: "enqueueFlagsUpdate lib uid flags hndl = Return hndl' \<Longrightarrow> produce lib hndl hndl'"

inductive idle_step :: "seqset_lib \<Rightarrow> idle_state \<Rightarrow> idle_state \<Rightarrow> bool" for lib where
  step_own: "idle_own lib s s' \<Longrightarrow> idle_step lib s s'"
| step_produce: "produce lib hndl hndl' \<Longrightarrow> idle_step lib (pc, hndl) (pc, hndl')"

inductive_cases idle_ownE: "idle_own lib s s'"
inductive_cases produceE: "produce lib hndl hndl'"
inductive_cases idle_stepE: "idle_step lib s s'"

end
