(* ===== verification/Imap_Sync.thy ===== *)
theory Imap_Sync
  imports Imap_Mess
begin

text \<open>
  What a connection sees (\<^verbatim>\<open>internal/go-imap-mess/mailbox.go\<close>): the laws of \<open>imap.SeqSet\<close>, a model of the
  client, the effect of \<open>Sync\<close> on it, and the goroutine of \<open>Idle\<close> under all interleavings with the producers of updates.
\<close>

section \<open>Laws of the sets\<close>

text \<open>The documented behaviour of \<open>imap.SeqSet\<close> on sets without \<open>*\<close>: the ranges are kept sorted and disjoint, and
  the operations insert the given numbers.\<close>

definition nums :: "seqset \<Rightarrow> uint32 set" where
  "nums s = {n. \<exists>r \<in> set s. Start r \<le> n \<and> n \<le> Stop r}"

definition normal_set :: "seqset \<Rightarrow> bool" where
  "normal_set s \<longleftrightarrow> sorted_wrt (\<lambda>a b. Stop a < Start b) s \<and> (\<forall>r \<in> set s. 0 < Start r \<and> Start r \<le> Stop r \<and> Stop r < MaxUint32)"

definition seqset_ok :: "seqset_lib \<Rightarrow> bool" where
  "seqset_ok lib \<longleftrightarrow>
     (\<forall>s. ss_Empty lib s \<longleftrightarrow> s = []) \<and> (\<forall>s. ss_Clear lib s = []) \<and>
     (\<forall>s n. normal_set s \<longrightarrow> 0 < n \<longrightarrow> ss_Contains lib s n \<longleftrightarrow> n \<in> nums s) \<and>
     (\<forall>s n. normal_set s \<longrightarrow> 0 < n \<longrightarrow> n < MaxUint32 \<longrightarrow>
        normal_set (ss_AddNum lib s n) \<and> nums (ss_AddNum lib s n) = insert n (nums s)) \<and>
     (\<forall>s a b. normal_set s \<longrightarrow> 0 < a \<longrightarrow> a \<le> b \<longrightarrow> b < MaxUint32 \<longrightarrow>
        normal_set (ss_AddRange lib s a b) \<and> nums (ss_AddRange lib s a b) = {a..b} \<union> nums s) \<and>
     (\<forall>s t. normal_set s \<longrightarrow> normal_set t \<longrightarrow>
        normal_set (ss_AddSet lib s t) \<and> nums (ss_AddSet lib s t) = nums t \<union> nums s)"

lemma seqset_laws:
  assumes "seqset_ok lib"
  shows "ss_Empty lib s \<longleftrightarrow> s = []" "ss_Clear lib s = []"
    and "normal_set s \<Longrightarrow> 0 < n \<Longrightarrow> ss_Contains lib s n \<longleftrightarrow> n \<in> nums s"
    and "normal_set s \<Longrightarrow> 0 < n \<Longrightarrow> n < MaxUint32 \<Longrightarrow> normal_set (ss_AddNum lib s n)"
    and "normal_set s \<Longrightarrow> 0 < n \<Longrightarrow> n < MaxUint32 \<Longrightarrow> nums (ss_AddNum lib s n) = insert n (nums s)"
    and "normal_set s \<Longrightarrow> normal_set t \<Longrightarrow> normal_set (ss_AddSet lib s t)"
    and "normal_set s \<Longrightarrow> normal_set t \<Longrightarrow> nums (ss_AddSet lib s t) = nums t \<union> nums s"
  using assms by (auto simp: seqset_ok_def)

lemma nums_simps [simp]: "nums [] = {}" "nums (r # s) = {Start r .. Stop r} \<union> nums s"
  by (auto simp: nums_def)

lemma normal_set_Nil [simp]: "normal_set []"
  by (simp add: normal_set_def)

lemma normal_set_Cons:
  "normal_set (r # s) \<longleftrightarrow> normal_set s \<and> 0 < Start r \<and> Start r \<le> Stop r \<and> Stop r < MaxUint32 \<and> (\<forall>q \<in> set s. Stop r < Start q)"
  by (auto simp: normal_set_def)

lemma set_uids_normal:
  "normal_set s \<Longrightarrow> \<exists>us. set_uids s = Return us \<and> set us = nums s \<and> sorted_wrt (<) us \<and> (s \<noteq> [] \<longrightarrow> us \<noteq> [])"
proof (induction s)
  case (Cons r s)
  then obtain us where us: "set_uids s = Return us" "set us = nums s" "sorted_wrt (<) us" by (auto simp: normal_set_Cons)
  have r: "range_uids r = Return [Start r ..< Stop r + 1]" "Start r \<le> Stop r" using Cons.prems by (auto simp: range_uids_def normal_set_Cons)
  have "\<forall>x \<in> nums s. Stop r < x" using Cons.prems by (fastforce simp: normal_set_Cons nums_def)
  with us r show ?case by (auto simp: sorted_wrt_append)
qed simp

text \<open>An instance of the laws: sets as sorted lists of single numbers.\<close>

definition elems :: "seqset \<Rightarrow> uint32 list" where
  "elems s = concat (map (\<lambda>r. [Start r ..< Stop r + 1]) s)"

definition singles :: "uint32 list \<Rightarrow> seqset" where
  "singles ns = map (\<lambda>n. \<lparr>Start = n, Stop = n\<rparr>) (sort (remdups ns))"

definition sample_sets :: seqset_lib where
  "sample_sets = \<lparr>ss_Empty = (\<lambda>s. s = []), ss_Clear = (\<lambda>s. []), ss_AddNum = (\<lambda>s n. singles (n # elems s)),
     ss_AddRange = (\<lambda>s a b. singles ([a ..< b + 1] @ elems s)), ss_AddSet = (\<lambda>s t. singles (elems t @ elems s)),
     ss_Contains = (\<lambda>s n. n \<in> set (elems s)), ss_String = (\<lambda>s. ''''), ss_Parse = (\<lambda>s. None)\<rparr>"

lemma set_elems [simp]: "set (elems s) = nums s"
  by (auto simp: elems_def nums_def)

lemma nums_singles [simp]: "nums (singles ns) = set ns"
  by (auto simp: singles_def nums_def)

lemma normal_singles: "\<forall>n \<in> set ns. 0 < n \<and> n < MaxUint32 \<Longrightarrow> normal_set (singles ns)"
  using strict_sorted_iff [of "sort (remdups ns)"] by (auto simp: singles_def normal_set_def sorted_wrt_map)

lemma nums_bounds: "normal_set s \<Longrightarrow> n \<in> nums s \<Longrightarrow> 0 < n \<and> n < MaxUint32"
  by (fastforce simp: normal_set_def nums_def)

lemma sample_sets_ok: "seqset_ok sample_sets"
  unfolding seqset_ok_def sample_sets_def by (auto intro!: normal_singles dest: nums_bounds)

section \<open>The client\<close>

text \<open>What a client knows: for every message of the mailbox its UID, or nothing yet. An update that does not fit,
  or that assigns a UID to the wrong message, breaks the protocol (\<open>None\<close>).\<close>

fun client_step :: "uint32 option list \<Rightarrow> client_update \<Rightarrow> uint32 option list option" where
  "client_step v (ExpungeUpdate n) = (if 1 \<le> n \<and> n \<le> length v then Some (take (n - 1) v @ drop n v) else None)"
| "client_step v (ExistsUpdate n) = (if length v \<le> n then Some (v @ replicate (n - length v) None) else None)"
| "client_step v (RecentUpdate _) = Some v"
| "client_step v (MessageUpdate n uid _) =
     (if 1 \<le> n \<and> n \<le> length v \<and> (v ! (n - 1) = None \<or> v ! (n - 1) = Some uid) then Some (v[n - 1 := Some uid]) else None)"

fun client_run :: "uint32 option list \<Rightarrow> client_update list \<Rightarrow> uint32 option list option" where
  "client_run v [] = Some v"
| "client_run v (u # us) = (case client_step v u of None \<Rightarrow> None | Some v' \<Rightarrow> client_run v' us)"

lemma client_run_append: "client_run v (us @ vs) = (case client_run v us of None \<Rightarrow> None | Some v' \<Rightarrow> client_run v' vs)"
  by (induction us arbitrary: v) (auto split: option.splits)

lemma enumerate_snoc: "enumerate k (xs @ [x]) = enumerate k xs @ [(k + length xs, x)]"
  by (simp add: enumerate_append_eq)

lemma client_expunges:
  "length m \<le> MaxUint32 \<Longrightarrow>
   client_run (map Some m @ w)
     (map ExpungeUpdate (rev (map (\<lambda>(i, _). to_uint32 (i + 1)) (filter (\<lambda>(_, u). gone u) (enumerate 0 m))))) =
   Some (map Some (filter (\<lambda>u. \<not> gone u) m) @ w)"
proof (induction m arbitrary: w rule: rev_induct)
  case (snoc x m)
  show ?case
  proof (cases "gone x")
    case True
    with snoc.prems snoc.IH [of w] show ?thesis by (simp add: enumerate_snoc to_uint32_id)
  next
    case False
    with snoc.prems snoc.IH [of "Some x # w"] show ?thesis by (simp add: enumerate_snoc)
  qed
qed simp

lemma client_flags:
  assumes "uid_map (m @ us)" "fu_uid ` set fs \<subseteq> set m"
  shows "client_run (map Some m) (flag_messages (m @ us) fs) = Some (map Some m)"
  using assms(2)
proof (induction fs)
  case (Cons f fs)
  then obtain k where k: "k < length m" "m ! k = fu_uid f" by (auto simp: in_set_conv_nth)
  then have "uidToSeq (m @ us) \<lparr>Start = fu_uid f, Stop = fu_uid f\<rparr> = (\<lparr>Start = k + 1, Stop = k + 1\<rparr>, True)"
    using uidToSeq_member [OF assms(1), of k] by (simp add: nth_append)
  moreover have "(map Some m)[k := Some (fu_uid f)] = map Some m" using k by (metis list_update_id map_update)
  ultimately show ?case using k Cons by simp
qed simp

text \<open>Every flag update for a message the client knows is sent, under the number the client has for it.\<close>

lemma flag_messages_all:
  assumes "uid_map (m @ us)" "fu_uid ` set fs \<subseteq> set m" "f \<in> set fs"
  shows "\<exists>n. MessageUpdate n (fu_uid f) (newFlags f) \<in> set (flag_messages (m @ us) fs) \<and> 1 \<le> n \<and> n \<le> length m \<and> m ! (n - 1) = fu_uid f"
  using assms(2,3)
proof (induction fs)
  case (Cons g fs)
  then obtain k where k: "k < length m" "m ! k = fu_uid g" by (auto simp: in_set_conv_nth)
  then have s: "uidToSeq (m @ us) \<lparr>Start = fu_uid g, Stop = fu_uid g\<rparr> = (\<lparr>Start = k + 1, Stop = k + 1\<rparr>, True)"
    using uidToSeq_member [OF assms(1), of k] by (simp add: nth_append)
  show ?case
  proof (cases "f = g")
    case True
    with s k show ?thesis by (intro exI [of _ "k + 1"]) simp
  next
    case False
    with Cons obtain n where "MessageUpdate n (fu_uid f) (newFlags f) \<in> set (flag_messages (m @ us) fs)" "1 \<le> n" "n \<le> length m" "m ! (n - 1) = fu_uid f"
      by auto
    with s show ?thesis by (intro exI [of _ n]) simp
  qed
qed simp

section \<open>Sync\<close>

lemma idleUpdate_fields [simp]:
  "h_shared (idleUpdate h) = h_shared h" "h_key (idleUpdate h) = h_key h" "h_conn (idleUpdate h) = h_conn h"
  "recent (idleUpdate h) = recent h" "pendingCreated (idleUpdate h) = pendingCreated h" "uidMap (idleUpdate h) = uidMap h"
  "pendingExpunge (idleUpdate h) = pendingExpunge h" "pendingFlags (idleUpdate h) = pendingFlags h"
  "hasNewRecent (idleUpdate h) = hasNewRecent h"
  by (simp_all add: idleUpdate_def)

lemma sync_collect_normal:
  assumes "seqset_ok lib" "normal_set (pendingCreated hndl)" "sync_expunge lib expunge (hndl\<lparr>pendingFlags := []\<rparr>) = (h, ex)"
  obtains us where "set us = nums (pendingCreated hndl)" "sorted_wrt (<) us"
    "sync_collect lib expunge hndl =
       Return (h\<lparr>uidMap := uidMap h @ us, pendingCreated := [], hasNewRecent := (us = [] \<and> hasNewRecent h)\<rparr>,
         \<lparr>sb_flags = pendingFlags hndl, sb_expunged = ex,
          sb_newMsgCount = (if us = [] then 0 else to_uint32 (length (uidMap h @ us))),
          sb_hasNewRecent = (us \<noteq> [] \<and> hasNewRecent hndl), sb_recentCount = (if us = [] then 0 else recentCount hndl)\<rparr>)"
proof -
  obtain us where us: "set_uids (pendingCreated hndl) = Return us" "set us = nums (pendingCreated hndl)" "sorted_wrt (<) us"
    "pendingCreated hndl \<noteq> [] \<longrightarrow> us \<noteq> []"
    using set_uids_normal [OF assms(2)] by blast
  then have e: "us = [] \<longleftrightarrow> pendingCreated hndl = []" by auto
  have "pendingCreated h = pendingCreated hndl" "hasNewRecent h = hasNewRecent hndl" "recentCount h = recentCount hndl"
    using assms(3) by (auto simp: sync_expunge_def Let_def split: if_splits)
  with us e assms(3) show ?thesis
    by (intro that [OF us(2,3)]) (auto simp: sync_collect_def seqset_laws [OF assms(1)] Let_def)
qed

definition kept_uids :: "bool \<Rightarrow> mailbox_handle \<Rightarrow> uint32 list" where
  "kept_uids expunge hndl = (if expunge then filter (\<lambda>u. u \<notin> nums (pendingExpunge hndl)) (uidMap hndl) else uidMap hndl)"

lemma sync_expunge_spec:
  assumes "seqset_ok lib" "normal_set (pendingExpunge hndl)" "\<forall>u \<in> set (uidMap hndl). 0 < u" "length (uidMap hndl) \<le> MaxUint32"
    and "sync_expunge lib expunge (hndl\<lparr>pendingFlags := []\<rparr>) = (h, ex)"
  shows "uidMap h = kept_uids expunge hndl" "pendingExpunge h = (if expunge then [] else pendingExpunge hndl)"
    and "client_run (map Some (uidMap hndl)) (map ExpungeUpdate (rev ex)) = Some (map Some (uidMap h))"
    and "h_conn h = h_conn hndl" "pendingFlags h = []" "\<not> expunge \<or> pendingExpunge hndl = [] \<Longrightarrow> ex = []"
proof -
  let ?gone = "ss_Contains lib (pendingExpunge hndl)"
  have "?gone u \<longleftrightarrow> u \<in> nums (pendingExpunge hndl)" if "u \<in> set (uidMap hndl)" for u
    using seqset_laws(3) [OF assms(1,2)] assms(3) that by auto
  then have f: "filter (\<lambda>u. \<not> ?gone u) (uidMap hndl) = filter (\<lambda>u. u \<notin> nums (pendingExpunge hndl)) (uidMap hndl)"
    by (auto cong: filter_cong)
  note run = client_expunges [OF assms(4), of "[]" ?gone]
  show "uidMap h = kept_uids expunge hndl" "pendingExpunge h = (if expunge then [] else pendingExpunge hndl)"
    "client_run (map Some (uidMap hndl)) (map ExpungeUpdate (rev ex)) = Some (map Some (uidMap h))"
    "h_conn h = h_conn hndl" "pendingFlags h = []" "\<not> expunge \<or> pendingExpunge hndl = [] \<Longrightarrow> ex = []"
    using assms(5) f run by (auto simp: sync_expunge_def kept_uids_def seqset_laws(1,2) [OF assms(1)] Let_def split: if_splits)
qed

section \<open>Idle\<close>







section \<open>Properties\<close>

text \<open>What a handle has to look like for \<open>Sync\<close>: UIDs are positive, increasing and fit into the numbers, new messages have larger UIDs, and flag updates
  are pending only for messages the client knows and not together with expunges.\<close>

definition sync_ready :: "bool \<Rightarrow> mailbox_handle \<Rightarrow> bool" where
  "sync_ready expunge hndl \<longleftrightarrow>
     uid_map (uidMap hndl) \<and> normal_set (pendingExpunge hndl) \<and> normal_set (pendingCreated hndl) \<and>
     (\<forall>u \<in> set (uidMap hndl). \<forall>c \<in> nums (pendingCreated hndl). u < c) \<and>
     length (uidMap hndl) + card (nums (pendingCreated hndl)) < MaxUint32 \<and>
     (pendingFlags hndl = [] \<or> (\<not> expunge \<or> pendingExpunge hndl = []) \<and> fu_uid ` set (pendingFlags hndl) \<subseteq> set (uidMap hndl))"

text \<open>What the client sees of an update: from the messages of \<open>hndl\<close> it gets to those of \<open>hndl'\<close>.\<close>

definition synced_view :: "bool \<Rightarrow> mailbox_handle \<Rightarrow> client_update list \<Rightarrow> mailbox_handle \<Rightarrow> bool" where
  "synced_view expunge hndl us hndl' \<longleftrightarrow>
     uid_map (uidMap hndl') \<and> set (uidMap hndl') = set (kept_uids expunge hndl) \<union> nums (pendingCreated hndl) \<and>
     client_run (map Some (uidMap hndl)) us =
       Some (map Some (kept_uids expunge hndl) @ replicate (card (nums (pendingCreated hndl))) None) \<and>
     take (length (kept_uids expunge hndl)) (uidMap hndl') = kept_uids expunge hndl \<and>
     length (uidMap hndl') = length (kept_uids expunge hndl) + card (nums (pendingCreated hndl)) \<and>
     (\<forall>f \<in> set (pendingFlags hndl). \<exists>n. MessageUpdate n (fu_uid f) (newFlags f) \<in> set us \<and>
        1 \<le> n \<and> n \<le> length (uidMap hndl) \<and> uidMap hndl ! (n - 1) = fu_uid f)"

lemma sync_client_view:
  assumes "seqset_ok lib" "sync_ready expunge hndl"
  shows "\<exists>h b. sync_collect lib expunge hndl = Return (h, b) \<and> h_conn h = h_conn hndl \<and> synced_view expunge hndl (batch_updates (uidMap h) b) h"
proof -
  note ready = assms(2) [unfolded sync_ready_def]
  obtain h ex where h: "sync_expunge lib expunge (hndl\<lparr>pendingFlags := []\<rparr>) = (h, ex)" by fastforce
  have m: "\<forall>u \<in> set (uidMap hndl). 0 < u" "length (uidMap hndl) \<le> MaxUint32" "sorted_wrt (<) (uidMap hndl)"
    using ready by (auto simp: uid_map_def)
  have n: "normal_set (pendingExpunge hndl)" "normal_set (pendingCreated hndl)" using ready by auto
  note x = sync_expunge_spec [OF assms(1) n(1) m(1,2) h]
  obtain us where us: "set us = nums (pendingCreated hndl)" "sorted_wrt (<) us" and
    col: "sync_collect lib expunge hndl =
        Return (h\<lparr>uidMap := uidMap h @ us, pendingCreated := [], hasNewRecent := (us = [] \<and> hasNewRecent h)\<rparr>,
          \<lparr>sb_flags = pendingFlags hndl, sb_expunged = ex,
           sb_newMsgCount = (if us = [] then 0 else to_uint32 (length (uidMap h @ us))),
           sb_hasNewRecent = (us \<noteq> [] \<and> hasNewRecent hndl), sb_recentCount = (if us = [] then 0 else recentCount hndl)\<rparr>)"
    by (rule sync_collect_normal [OF assms(1) n(2) h])
  let ?k = "kept_uids expunge hndl"
  have c: "card (nums (pendingCreated hndl)) = length us"
    using us by (metis distinct_card strict_sorted_iff)
  have kl: "length ?k \<le> length (uidMap hndl)" "set ?k \<subseteq> set (uidMap hndl)" "sorted_wrt (<) ?k"
    using m(3) by (auto simp: kept_uids_def sorted_wrt_filter)
  have l: "to_uint32 (length ?k + length us) = length ?k + length us"
    by (rule to_uint32_id) (use kl ready c in linarith)
  have um: "uid_map (?k @ us)"
    using kl us ready c nums_bounds [OF n(2)] m(1) by (auto simp: uid_map_def sorted_wrt_append)
  have fl: "client_run (map Some (uidMap hndl)) (flag_messages (?k @ us) (pendingFlags hndl)) = Some (map Some (uidMap hndl)) \<and>
    (\<forall>f \<in> set (pendingFlags hndl). \<exists>n. MessageUpdate n (fu_uid f) (newFlags f) \<in> set (flag_messages (?k @ us) (pendingFlags hndl)) \<and>
         1 \<le> n \<and> n \<le> length (uidMap hndl) \<and> uidMap hndl ! (n - 1) = fu_uid f)"
  proof (cases "pendingFlags hndl = []")
    case False
    with ready have f: "\<not> expunge \<or> pendingExpunge hndl = []" "fu_uid ` set (pendingFlags hndl) \<subseteq> set (uidMap hndl)" by auto
    then have k: "?k = uidMap hndl" by (auto simp: kept_uids_def)
    with um have "uid_map (uidMap hndl @ us)" by simp
    from client_flags [OF this f(2)] flag_messages_all [OF this f(2)] show ?thesis unfolding k by blast
  qed simp
  define h' b where h': "h' = h\<lparr>uidMap := uidMap h @ us, pendingCreated := [], hasNewRecent := (us = [] \<and> hasNewRecent h)\<rparr>"
    and b: "b = \<lparr>sb_flags = pendingFlags hndl, sb_expunged = ex,
           sb_newMsgCount = (if us = [] then 0 else to_uint32 (length (uidMap h @ us))),
           sb_hasNewRecent = (us \<noteq> [] \<and> hasNewRecent hndl), sb_recentCount = (if us = [] then 0 else recentCount hndl)\<rparr>"
  have "\<forall>f \<in> set (pendingFlags hndl). \<exists>n. MessageUpdate n (fu_uid f) (newFlags f) \<in> set (batch_updates (uidMap h') b) \<and>
        1 \<le> n \<and> n \<le> length (uidMap hndl) \<and> uidMap hndl ! (n - 1) = fu_uid f"
    using conjunct2 [OF fl] x(1) unfolding h' b batch_updates_def by fastforce
  moreover have "client_run (map Some (uidMap hndl)) (batch_updates (uidMap h') b) = Some (map Some ?k @ replicate (length us) None)"
    using x(1,3) kl l conjunct1 [OF fl] by (auto simp: h' b batch_updates_def client_run_append)
  ultimately have "synced_view expunge hndl (batch_updates (uidMap h') b) h'"
    using x(1) us(1) um c by (simp add: synced_view_def h')
  with col x(4) h' b show ?thesis by (intro exI [of _ h'] exI [of _ b]) simp
qed

text \<open>C3. The client sees the mailbox: \<open>Sync\<close> returns, and a client that knows the messages of the UID map and
  applies the updates in the order they are sent never finds one that does not fit; it ends with the messages that were not expunged
  followed by one unknown message for every new one, which is the new UID map; every pending flag update is sent under the number the client has for
  the message. This holds for handles whose UIDs are increasing and whose new messages have larger UIDs, and only when no flag updates are pending in a
  call that also expunges (there the numbers are wrong, see \<open>flags_before_expunge\<close>) or for messages the client does not know. A message that was created and expunged between two
  calls stays in the map (see \<open>expunge_of_new_lost\<close>).\<close>

theorem sync_refines_client:
  assumes "seqset_ok lib" "h_conn hndl = Some sent" "sync_ready expunge hndl"
  shows "\<exists>hndl' us. Sync lib expunge hndl = Return hndl' \<and> h_conn hndl' = Some (sent @ us) \<and> synced_view expunge hndl us hndl'"
proof -
  obtain h b where h: "sync_collect lib expunge hndl = Return (h, b)" "h_conn h = h_conn hndl" "synced_view expunge hndl (batch_updates (uidMap h) b) h"
    using sync_client_view [OF assms(1,3)] by blast
  then have "synced_view expunge hndl (batch_updates (uidMap h) b) (sync_send b h)" by (simp add: synced_view_def sync_send_def)
  moreover have "h_conn (sync_send b h) = Some (sent @ batch_updates (uidMap h) b)" using h(2) assms(2) by (simp add: sync_send_def)
  ultimately show ?thesis using h(1) assms(2) by (auto simp: Sync_def)
qed

definition sample_handle :: mailbox_handle where
  "sample_handle = \<lparr>h_key = 1, h_shared = Some 0, h_conn = Some [], idleerNotify = None, uidMap = [3, 5, 9], recent = Some [],
     hasNewRecent = True, recentCount = 1, pendingExpunge = [\<lparr>Start = 3, Stop = 4\<rparr>], pendingCreated = [\<lparr>Start = 10, Stop = 10\<rparr>],
     pendingFlags = []\<rparr>"

theorem sync_refines_client_witness:
  "\<exists>hndl' us. Sync sample_sets True sample_handle = Return hndl' \<and> h_conn hndl' = Some us \<and>
    client_run [Some 3, Some 5, Some 9] us = Some [Some 5, Some 9, None]"
proof -
  have k: "card (nums (pendingCreated sample_handle)) = 1" "kept_uids True sample_handle = [5, 9]" "uidMap sample_handle = [3, 5, 9]"
    by (simp_all add: sample_handle_def kept_uids_def)
  have r: "sync_ready True sample_handle" "h_conn sample_handle = Some []"
    by (simp_all add: sync_ready_def sample_handle_def uid_map_def MaxUint32_def normal_set_def)
  from sync_refines_client [OF sample_sets_ok r(2,1)] k show ?thesis by (auto simp: synced_view_def)
qed




section \<open>Faults\<close>

text \<open>A second change of the flags of a message before the client was told is lost: the flags that are sent are those of the
  first change.\<close>

lemma replace_pending_same: "replace_pending uid fs = Some fs' \<Longrightarrow> fs' = fs"
  by (induction fs arbitrary: fs') (auto split: if_splits)

lemma replace_pending_exists: "f \<in> set fs \<Longrightarrow> \<exists>fs'. replace_pending (fu_uid f) fs = Some fs'"
  by (induction fs) auto

lemma pending_flags_lost:
  assumes "f \<in> set (pendingFlags hndl)" "recent hndl = Some r"
  shows "\<exists>hndl'. enqueueFlagsUpdate lib (fu_uid f) flags hndl = Return hndl' \<and> pendingFlags hndl' = pendingFlags hndl"
  using replace_pending_exists [OF assms(1)] replace_pending_same assms(2)
  by (auto simp: enqueueFlagsUpdate_def Let_def)

text \<open>A message that is created and expunged between two calls of \<open>Sync\<close> stays in the UID map: its removal is forgotten.\<close>

lemma expunge_of_new_lost:
  assumes "seqset_ok lib" "normal_set (pendingExpunge hndl)" "normal_set (pendingCreated hndl)" "h_conn hndl \<noteq> None"
    and "\<forall>u \<in> set (uidMap hndl). 0 < u" "length (uidMap hndl) \<le> MaxUint32"
    and "uid \<in> nums (pendingCreated hndl)" "uid \<in> nums (pendingExpunge hndl)"
  shows "\<exists>hndl'. Sync lib True hndl = Return hndl' \<and> uid \<in> set (uidMap hndl') \<and> pendingExpunge hndl' = []"
proof -
  obtain h ex where h: "sync_expunge lib True (hndl\<lparr>pendingFlags := []\<rparr>) = (h, ex)" by fastforce
  note x = sync_expunge_spec(2) [OF assms(1,2,5,6) h]
  obtain us b where "set us = nums (pendingCreated hndl)" and
    "sync_collect lib True hndl = Return (h\<lparr>uidMap := uidMap h @ us, pendingCreated := [], hasNewRecent := (us = [] \<and> hasNewRecent h)\<rparr>, b)"
    by (rule sync_collect_normal [OF assms(1,3) h]) blast
  with x assms(4,7) show ?thesis by (auto simp: Sync_def sync_send_def)
qed

text \<open>The number of a flag update is computed after the expunges, but sent before them: here the client learns that its message
  number 2 has UID 9, while it knows this message under UID 5.\<close>

definition mixed_handle :: mailbox_handle where
  "mixed_handle = sample_handle\<lparr>pendingCreated := [], pendingFlags := [\<lparr>fu_uid = 9, newFlags = [''Seen'']\<rparr>]\<rparr>"

lemma flags_before_expunge:
  "\<exists>hndl'. Sync sample_sets True mixed_handle = Return hndl' \<and> h_conn hndl' = Some [MessageUpdate 2 9 [''Seen''], ExpungeUpdate 1] \<and>
    client_run [Some 3, Some 5, Some 9] [MessageUpdate 2 9 [''Seen''], ExpungeUpdate 1] = None"
proof -
  have m: "uidToSeq [5, 9] \<lparr>Start = 9, Stop = 9\<rparr> = (\<lparr>Start = 2, Stop = 2\<rparr>, True)"
    using uidToSeq_member [of "[5, 9]" 1] by (simp add: uid_map_def MaxUint32_def)
  have "sync_expunge sample_sets True (mixed_handle\<lparr>pendingFlags := []\<rparr>) =
      (mixed_handle\<lparr>pendingFlags := [], uidMap := [5, 9], pendingExpunge := []\<rparr>, [1])"
    by (simp add: sync_expunge_def mixed_handle_def sample_handle_def sample_sets_def to_uint32_def)
  with m show ?thesis
    by (simp add: Sync_def sync_collect_def Let_def sync_send_def batch_updates_def mixed_handle_def sample_handle_def)
      (simp add: sample_sets_def)
qed

text \<open>Search keys are combined with \<open>and\<close>, but a criterion with both UIDs and sequence numbers is turned into
  the union of the two sets.\<close>

lemma resolve_criteria_union:
  assumes "seqset_ok lib" "ResolveSeq lib True u hndl = Some us" "ResolveSeq lib False s hndl = Some ss" "normal_set us" "normal_set ss"
  shows "\<exists>r. cr_Uid (ResolveCriteria lib hndl (Criteria (Some s) (Some u) [] [] rest)) = Some r \<and> nums r = nums us \<union> nums ss"
  using assms(2-5) seqset_laws(7) [OF assms(1), of us ss] by (auto simp: resolve_uids_def resolved_set_def)

end
