(* ===== verification/Imap_Registry.thy ===== *)
theory Imap_Registry
  imports Imap_Sync "HOL-Library.Multiset"
begin

text \<open>
  Who is told (\<^verbatim>\<open>internal/go-imap-mess/sequpdate.go\<close>): the invariant of the registry of open mailboxes over all
  histories of calls, delivery of new messages to every handle, and the fault of closing a stale handle.
\<close>

section \<open>Loops over handles\<close>

lemma each_handle_length [simp]: "length (each_handle f as objs) = length objs"
  by (induction f as objs rule: each_handle.induct) auto

lemma each_handle_nth:
  "distinct as \<Longrightarrow> h < length objs \<Longrightarrow> each_handle f as objs ! h = (if h \<in> set as then f (objs ! h) else objs ! h)"
proof (induction as arbitrary: objs)
  case (Cons a as)
  then show ?case by (cases "h = a") auto
qed simp

text \<open>What \<open>NewMessage\<close> does with the first handle and with the others.\<close>

definition note_created :: "seqset_lib \<Rightarrow> uint32 \<Rightarrow> mailbox_handle \<Rightarrow> mailbox_handle" where
  "note_created lib uid h = idleUpdate (h\<lparr>pendingCreated := ss_AddNum lib (pendingCreated h) uid\<rparr>)"

definition note_recent :: "seqset_lib \<Rightarrow> uint32 \<Rightarrow> mailbox_handle \<Rightarrow> mailbox_handle" where
  "note_recent lib uid h = idleUpdate (h\<lparr>pendingCreated := ss_AddNum lib (pendingCreated h) uid,
     recent := map_option (\<lambda>r. ss_AddNum lib r uid) (recent h), hasNewRecent := True, recentCount := to_uint32 (recentCount h + 1)\<rparr>)"

lemma newMessage_loop_added: "newMessage_loop lib uid as True objs = Return (True, each_handle (note_created lib uid) as objs)"
  by (induction as arbitrary: objs) (auto simp: note_created_def Let_def)

lemma newMessage_loop_first:
  "recent (objs ! a) \<noteq> None \<Longrightarrow>
   newMessage_loop lib uid (a # as) False objs =
     Return (True, each_handle (note_created lib uid) as (objs[a := note_recent lib uid (objs ! a)]))"
  by (auto simp: newMessage_loop_added note_recent_def Let_def)

definition note_created_set :: "seqset_lib \<Rightarrow> seqset \<Rightarrow> mailbox_handle \<Rightarrow> mailbox_handle" where
  "note_created_set lib s h = idleUpdate (h\<lparr>pendingCreated := ss_AddSet lib (pendingCreated h) s\<rparr>)"

definition note_recent_set :: "seqset_lib \<Rightarrow> seqset \<Rightarrow> uint32 list \<Rightarrow> mailbox_handle \<Rightarrow> mailbox_handle" where
  "note_recent_set lib s us h = idleUpdate (h\<lparr>pendingCreated := ss_AddSet lib (pendingCreated h) s,
     recent := map_option (\<lambda>r. ss_AddSet lib r s) (recent h), recentCount := to_uint32 (recentCount h + length us), hasNewRecent := True\<rparr>)"

lemma newMessages_loop_added: "newMessages_loop lib s as True objs = Return (True, each_handle (note_created_set lib s) as objs)"
  by (induction as arbitrary: objs) (auto simp: note_created_set_def Let_def)

lemma newMessages_loop_first:
  "recent (objs ! a) \<noteq> None \<Longrightarrow> set_uids s = Return us \<Longrightarrow>
   newMessages_loop lib s (a # as) False objs =
     Return (True, each_handle (note_created_set lib s) as (objs[a := note_recent_set lib s us (objs ! a)]))"
  by (auto simp: newMessages_loop_added note_recent_set_def Let_def)

section \<open>Registry\<close>

text \<open>The order of a map iteration visits every key once.\<close>

definition map_order :: "(nat list \<Rightarrow> nat list) \<Rightarrow> bool" where
  "map_order ord \<longleftrightarrow> (\<forall>xs. mset (ord xs) = mset xs)"

lemma map_orderD: "map_order ord \<Longrightarrow> set (ord xs) = set xs \<and> (distinct (ord xs) \<longleftrightarrow> distinct xs)"
  by (metis map_order_def mset_eq_imp_distinct_iff mset_eq_setD)

definition handle_ok :: "mailbox_handle \<Rightarrow> bool" where
  "handle_ok h \<longleftrightarrow> normal_set (pendingCreated h) \<and> normal_set (pendingExpunge h) \<and> (\<forall>r. recent h = Some r \<longrightarrow> normal_set r) \<and>
     (h_conn h \<noteq> None \<longrightarrow> h_shared h \<noteq> None)"

definition shared_ok :: "mailbox_handle list \<Rightarrow> nat \<Rightarrow> shared_handle \<Rightarrow> bool" where
  "shared_ok objs sh s \<longleftrightarrow>
     (\<forall>hs. sh_handles s = Some hs \<longrightarrow>
        distinct hs \<and> (\<forall>h \<in> set hs. h < length objs \<and> h_shared (objs ! h) = Some sh \<and> recent (objs ! h) \<noteq> None))"

definition registry_ok :: "manager \<Rightarrow> bool" where
  "registry_ok m \<longleftrightarrow>
     (\<forall>h < length (mg_objs m). handle_ok (mg_objs m ! h) \<and>
        (\<forall>sh. h_shared (mg_objs m ! h) = Some sh \<longrightarrow> sh < length (mg_shareds m) \<and> sh_key (mg_shareds m ! sh) = h_key (mg_objs m ! h))) \<and>
     (\<forall>sh < length (mg_shareds m). shared_ok (mg_objs m) sh (mg_shareds m ! sh)) \<and>
     (\<forall>key sh. mg_handles m key = Some sh \<longrightarrow>
        sh < length (mg_shareds m) \<and> sh_key (mg_shareds m ! sh) = key \<and>
        (\<exists>hs. sh_handles (mg_shareds m ! sh) = Some hs \<and> hs \<noteq> []))"

text \<open>Changes of handles that keep the registry.\<close>

definition keeps_handle :: "mailbox_handle \<Rightarrow> mailbox_handle \<Rightarrow> bool" where
  "keeps_handle h h' \<longleftrightarrow> h_shared h' = h_shared h \<and> h_key h' = h_key h \<and> (recent h' = None \<longleftrightarrow> recent h = None) \<and>
     (handle_ok h \<longrightarrow> handle_ok h')"

definition keeps_objs :: "mailbox_handle list \<Rightarrow> mailbox_handle list \<Rightarrow> bool" where
  "keeps_objs objs objs' \<longleftrightarrow> length objs' = length objs \<and> (\<forall>i < length objs. keeps_handle (objs ! i) (objs' ! i))"

lemma keeps_handle_refl [simp]: "keeps_handle h h"
  by (simp add: keeps_handle_def)

lemma keeps_objs_refl [simp]: "keeps_objs objs objs"
  by (simp add: keeps_objs_def)

lemma keeps_objs_trans: "keeps_objs a b \<Longrightarrow> keeps_objs b c \<Longrightarrow> keeps_objs a c"
  by (simp add: keeps_objs_def keeps_handle_def)

lemma keeps_objs_update: "(a < length objs \<Longrightarrow> keeps_handle (objs ! a) h) \<Longrightarrow> keeps_objs objs (objs[a := h])"
  unfolding keeps_objs_def by (cases "a < length objs") (auto simp: nth_list_update)

lemma keeps_each: "(\<And>h. keeps_handle h (f h)) \<Longrightarrow> keeps_objs objs (each_handle f as objs)"
proof (induction as arbitrary: objs)
  case (Cons a as)
  from keeps_objs_trans [OF keeps_objs_update Cons.IH] Cons.prems show ?case by simp
qed simp

lemma keeps_shared_ok: "keeps_objs objs objs' \<Longrightarrow> shared_ok objs sh s \<Longrightarrow> shared_ok objs' sh s"
  by (simp add: shared_ok_def keeps_objs_def keeps_handle_def)

lemma registry_ok_objs:
  assumes "registry_ok m" "keeps_objs (mg_objs m) (mg_objs m')" "mg_shareds m' = mg_shareds m" "mg_handles m' = mg_handles m"
  shows "registry_ok m'"
  using assms(1,3,4) assms(2) [unfolded keeps_objs_def keeps_handle_def] keeps_shared_ok [OF assms(2)]
  by (simp add: registry_ok_def)

lemma registry_ok_shared:
  assumes "registry_ok m" "sh_handles (mg_shareds m ! sh) = Some hs" "sh < length (mg_shareds m)" "map_order ord"
  shows "distinct (shared_handles ord m sh)" "set (shared_handles ord m sh) = set hs"
    and "h \<in> set (shared_handles ord m sh) \<Longrightarrow> h < length (mg_objs m) \<and> recent (mg_objs m ! h) \<noteq> None"
  using assms map_orderD [OF assms(4), of hs] by (auto simp: registry_ok_def shared_ok_def shared_handles_def)

lemma handle_ok_fields [simp]:
  "handle_ok (h\<lparr>idleerNotify := n\<rparr>) \<longleftrightarrow> handle_ok h" "handle_ok (h\<lparr>pendingFlags := p\<rparr>) \<longleftrightarrow> handle_ok h"
  "handle_ok (idleUpdate h) \<longleftrightarrow> handle_ok h"
  by (simp_all add: handle_ok_def idleUpdate_def)

lemma keeps_collect:
  assumes "seqset_ok lib" "sync_collect lib expunge h = Return (h', b)"
  shows "keeps_handle h h'"
proof -
  obtain g ex where g: "sync_expunge lib expunge (h\<lparr>pendingFlags := []\<rparr>) = (g, ex)" by fastforce
  then have "keeps_handle h g"
    by (auto simp: sync_expunge_def keeps_handle_def handle_ok_def seqset_laws [OF assms(1)] Let_def split: if_splits)
  moreover have "keeps_handle g h'"
    using assms(2) g
    by (auto simp: sync_collect_def keeps_handle_def handle_ok_def seqset_laws [OF assms(1)] Let_def obind_Return_iff split: if_splits)
  ultimately show ?thesis by (simp add: keeps_handle_def)
qed

lemma keeps_notes:
  assumes "seqset_ok lib"
  shows "0 < uid \<Longrightarrow> uid < MaxUint32 \<Longrightarrow> keeps_handle h (note_created lib uid h)"
    and "0 < uid \<Longrightarrow> uid < MaxUint32 \<Longrightarrow> keeps_handle h (note_recent lib uid h)"
    and "0 < uid \<Longrightarrow> uid < MaxUint32 \<Longrightarrow> keeps_handle h (expunge_num lib uid h)"
    and "normal_set s \<Longrightarrow> keeps_handle h (note_created_set lib s h)"
    and "normal_set s \<Longrightarrow> keeps_handle h (note_recent_set lib s us h)"
    and "normal_set s \<Longrightarrow> keeps_handle h (expunge_set lib s h)"
  by (auto simp: keeps_handle_def handle_ok_def note_created_def note_recent_def note_created_set_def note_recent_set_def
    expunge_num_def expunge_set_def idleUpdate_def intro: seqset_laws(4,6) [OF assms])

lemma keeps_flags: "enqueueFlagsUpdate lib uid flags h = Return h' \<Longrightarrow> keeps_handle h h'"
  by (cases "recent h") (auto simp: enqueueFlagsUpdate_def keeps_handle_def Let_def nil_deref_def)

lemma keeps_Sync:
  assumes "seqset_ok lib" "Sync lib expunge h = Return h'"
  shows "keeps_handle h h'"
proof (cases "h_conn h")
  case (Some l)
  with assms(2) obtain g b where g: "sync_collect lib expunge h = Return (g, b)" "h' = sync_send b g"
    by (auto simp: Sync_def obind_Return_iff)
  have "keeps_handle g (sync_send b g)" by (simp add: keeps_handle_def handle_ok_def sync_send_def)
  with keeps_collect [OF assms(1) g(1)] g(2) show ?thesis by (simp add: keeps_handle_def)
qed (use assms in \<open>simp add: Sync_def\<close>)

lemma flags_loop_runs:
  assumes "\<forall>a \<in> set as. a < length objs \<and> recent (objs ! a) \<noteq> None" "seqset_ok lib"
  shows "\<exists>objs'. flags_loop lib uid flags as objs = Return objs' \<and> keeps_objs objs objs'"
  using assms(1)
proof (induction as arbitrary: objs)
  case (Cons a as)
  then obtain h where h: "enqueueFlagsUpdate lib uid flags (objs ! a) = Return h"
    by (auto simp: enqueueFlagsUpdate_def Let_def)
  have k: "keeps_objs objs (objs[a := h])" using keeps_flags [OF h] by (rule keeps_objs_update)
  have "\<forall>b \<in> set as. b < length (objs[a := h]) \<and> recent (objs[a := h] ! b) \<noteq> None"
    using Cons.prems k by (auto simp: keeps_objs_def keeps_handle_def)
  from Cons.IH [OF this] obtain objs' where "flags_loop lib uid flags as (objs[a := h]) = Return objs'"
    "keeps_objs (objs[a := h]) objs'" by blast
  with h keeps_objs_trans [OF k] show ?case by auto
qed auto

lemma new_loops_run:
  assumes "seqset_ok lib" "\<forall>a \<in> set as. a < length objs \<and> recent (objs ! a) \<noteq> None"
  shows "0 < uid \<Longrightarrow> uid < MaxUint32 \<Longrightarrow>
      \<exists>objs'. newMessage_loop lib uid as False objs = Return (as \<noteq> [], objs') \<and> keeps_objs objs objs'"
    and "normal_set s \<Longrightarrow>
      \<exists>objs'. newMessages_loop lib s as False objs = Return (as \<noteq> [], objs') \<and> keeps_objs objs objs'"
proof -
  show "\<exists>objs'. newMessage_loop lib uid as False objs = Return (as \<noteq> [], objs') \<and> keeps_objs objs objs'"
    if "0 < uid" "uid < MaxUint32"
  proof (cases as)
    case (Cons a as')
    with assms(2) have "recent (objs ! a) \<noteq> None" by simp
    from newMessage_loop_first [OF this] show ?thesis
      using keeps_objs_trans [OF keeps_objs_update keeps_each] keeps_notes(1,2) [OF assms(1) that] Cons
      by (metis list.distinct(1))
  qed simp
  show "\<exists>objs'. newMessages_loop lib s as False objs = Return (as \<noteq> [], objs') \<and> keeps_objs objs objs'"
    if n: "normal_set s"
  proof (cases as)
    case (Cons a as')
    obtain us where us: "set_uids s = Return us" using set_uids_normal [OF n] by blast
    from Cons assms(2) have "recent (objs ! a) \<noteq> None" by simp
    from newMessages_loop_first [OF this us] show ?thesis
      using keeps_objs_trans [OF keeps_objs_update keeps_each] keeps_notes(4,5) [OF assms(1) n] Cons
      by (metis list.distinct(1))
  qed simp
qed

section \<open>Histories\<close>

text \<open>The calls that the backend makes. The set-up and the end of \<open>Idle\<close> appear with the change of the channel
  alone.\<close>

datatype mgr_op =
  OpMailbox nat "client_update list option" "uint32 list" "seqset option"
| OpManagement nat "uint32 list" "seqset option"
| OpNewMessage nat uint32
| OpNewMessages nat seqset
| OpDestroyed nat
| OpExternal update
| OpSink "update list option"
| OpFlags nat uint32 "string list" bool
| OpRemoved nat uint32
| OpRemovedSet nat seqset
| OpSync nat bool
| OpIdle nat "nat option"
| OpClose nat

fun mgr_exec :: "seqset_lib \<Rightarrow> (nat list \<Rightarrow> nat list) \<Rightarrow> mgr_op \<Rightarrow> manager \<Rightarrow> manager outcome" where
  "mgr_exec lib ord (OpMailbox key conn uids recents) m = obind (Mailbox key conn uids recents m) (\<lambda>(_, m). Return m)"
| "mgr_exec lib ord (OpManagement key uids recents) m = Return (snd (ManagementHandle key uids recents m))"
| "mgr_exec lib ord (OpNewMessage key uid) m = obind (NewMessage lib ord key uid m) (\<lambda>(_, m). Return m)"
| "mgr_exec lib ord (OpNewMessages key s) m = obind (NewMessages lib ord key s m) (\<lambda>(_, m). Return m)"
| "mgr_exec lib ord (OpDestroyed key) m = Return (MailboxDestroyed key m)"
| "mgr_exec lib ord (OpExternal upd) m = ExternalUpdate lib ord upd m"
| "mgr_exec lib ord (OpSink upds) m = Return (SetExternalSink upds m)"
| "mgr_exec lib ord (OpFlags h uid flags silent) m = FlagsChanged lib ord h uid flags silent m"
| "mgr_exec lib ord (OpRemoved h uid) m = Removed lib ord h uid m"
| "mgr_exec lib ord (OpRemovedSet h s) m = RemovedSet lib ord h s m"
| "mgr_exec lib ord (OpSync h expunge) m =
     obind (Sync lib expunge (mg_objs m ! h)) (\<lambda>hndl. Return (m\<lparr>mg_objs := (mg_objs m)[h := hndl]\<rparr>))"
| "mgr_exec lib ord (OpIdle h n) m = Return (m\<lparr>mg_objs := (mg_objs m)[h := (mg_objs m ! h)\<lparr>idleerNotify := n\<rparr>]\<rparr>)"
| "mgr_exec lib ord (OpClose h) m = handle_Close h m"

text \<open>What callers have to observe: UIDs are positive and not the largest number, sets contain only such UIDs,
  \<open>recents\<close> is not nil for a connection, and a handle was obtained before.\<close>

definition uid_ok :: "uint32 \<Rightarrow> bool" where
  "uid_ok uid \<longleftrightarrow> 0 < uid \<and> uid < MaxUint32"

fun op_ok :: "seqset_lib \<Rightarrow> manager \<Rightarrow> mgr_op \<Rightarrow> bool" where
  "op_ok lib m (OpMailbox key conn uids recents) \<longleftrightarrow> (case recents of None \<Rightarrow> False | Some r \<Rightarrow> normal_set r)"
| "op_ok lib m (OpManagement key uids recents) \<longleftrightarrow> (case recents of None \<Rightarrow> True | Some r \<Rightarrow> normal_set r)"
| "op_ok lib m (OpNewMessage key uid) \<longleftrightarrow> uid_ok uid"
| "op_ok lib m (OpNewMessages key s) \<longleftrightarrow> normal_set s"
| "op_ok lib m (OpExternal upd) \<longleftrightarrow> (case ss_Parse lib (upd_SeqSet upd) of None \<Rightarrow> True | Some s \<Rightarrow> normal_set s)"
| "op_ok lib m (OpFlags h uid flags silent) \<longleftrightarrow> h < length (mg_objs m)"
| "op_ok lib m (OpRemoved h uid) \<longleftrightarrow> h < length (mg_objs m) \<and> uid_ok uid"
| "op_ok lib m (OpRemovedSet h s) \<longleftrightarrow> h < length (mg_objs m) \<and> normal_set s"
| "op_ok lib m (OpSync h expunge) \<longleftrightarrow> h < length (mg_objs m)"
| "op_ok lib m (OpIdle h n) \<longleftrightarrow> h < length (mg_objs m)"
| "op_ok lib m (OpClose h) \<longleftrightarrow> h < length (mg_objs m)"
| "op_ok lib m _ \<longleftrightarrow> True"

inductive mgr_reach :: "seqset_lib \<Rightarrow> (nat list \<Rightarrow> nat list) \<Rightarrow> manager \<Rightarrow> bool" for lib ord where
  reach_new: "mgr_reach lib ord NewManager"
| reach_step: "mgr_reach lib ord m \<Longrightarrow> op_ok lib m op \<Longrightarrow> mgr_exec lib ord op m = Return m' \<Longrightarrow> mgr_reach lib ord m'"

text \<open>An operation runs and keeps the registry.\<close>

definition runs :: "manager outcome \<Rightarrow> bool" where
  "runs r \<longleftrightarrow> (\<exists>m'. r = Return m' \<and> registry_ok m')"

lemma runs_Return [simp]: "runs (Return m) \<longleftrightarrow> registry_ok m"
  by (simp add: runs_def)

lemma registry_ok_sink [simp]: "registry_ok (to_sink u m) \<longleftrightarrow> registry_ok m" "registry_ok (m\<lparr>mg_sink := x\<rparr>) \<longleftrightarrow> registry_ok m"
  by (simp_all add: to_sink_def registry_ok_def)

lemma to_sink_fields [simp]:
  "mg_handles (to_sink u m) = mg_handles m" "mg_objs (to_sink u m) = mg_objs m" "mg_shareds (to_sink u m) = mg_shareds m"
  "shared_handles ord (to_sink u m) sh = shared_handles ord m sh"
  by (simp_all add: to_sink_def shared_handles_def)

lemma registered_handles:
  assumes "registry_ok m" "mg_handles m key = Some sh" "map_order ord"
  obtains hs where "sh < length (mg_shareds m)" "sh_key (mg_shareds m ! sh) = key" "sh_handles (mg_shareds m ! sh) = Some hs" "hs \<noteq> []"
    "distinct (shared_handles ord m sh)" "set (shared_handles ord m sh) = set hs"
    "\<forall>h \<in> set (shared_handles ord m sh). h < length (mg_objs m) \<and> recent (mg_objs m ! h) \<noteq> None"
proof -
  obtain hs where "sh < length (mg_shareds m)" "sh_key (mg_shareds m ! sh) = key" "sh_handles (mg_shareds m ! sh) = Some hs" "hs \<noteq> []"
    using assms(1,2) unfolding registry_ok_def by blast
  with registry_ok_shared [OF assms(1) this(3,1) assms(3)] that show ?thesis by blast
qed

lemma shared_handles_ok:
  assumes "registry_ok m" "sh < length (mg_shareds m)" "map_order ord"
  shows "\<forall>h \<in> set (shared_handles ord m sh). h < length (mg_objs m) \<and> recent (mg_objs m ! h) \<noteq> None"
proof (cases "sh_handles (mg_shareds m ! sh)")
  case None
  then show ?thesis using map_orderD [OF assms(3), of "[]"] by (simp add: shared_handles_def)
next
  case (Some hs)
  from registry_ok_shared(3) [OF assms(1) Some assms(2,3)] show ?thesis by blast
qed

lemma runs_objs:
  "registry_ok m \<Longrightarrow> keeps_objs (mg_objs m) objs \<Longrightarrow> runs (Return (m\<lparr>mg_objs := objs\<rparr>))"
  using registry_ok_objs [of m "m\<lparr>mg_objs := objs\<rparr>"] by simp

lemma runs_newMessages:
  assumes "registry_ok m" "map_order ord" "seqset_ok lib" "normal_set s"
  shows "runs (obind (newMessages lib ord key s m) (\<lambda>(_, m). Return m))"
proof (cases "mg_handles m key")
  case (Some sh)
  from registered_handles [OF assms(1) Some assms(2)] new_loops_run(2) [OF assms(3) _ assms(4), of "shared_handles ord m sh" "mg_objs m"]
  obtain objs where "newMessages_loop lib s (shared_handles ord m sh) False (mg_objs m) = Return (shared_handles ord m sh \<noteq> [], objs)"
    "keeps_objs (mg_objs m) objs" by metis
  with Some assms runs_objs show ?thesis by (simp add: newMessages_def)
qed (use assms in \<open>simp add: newMessages_def\<close>)

lemma runs_NewMessage:
  assumes "registry_ok m" "map_order ord" "seqset_ok lib" "uid_ok uid"
  shows "runs (obind (NewMessage lib ord key uid m) (\<lambda>(_, m). Return m))"
proof (cases "mg_handles m key")
  case (Some sh)
  from registered_handles [OF assms(1) Some assms(2)] new_loops_run(1) [OF assms(3), of "shared_handles ord m sh" "mg_objs m" uid] assms(4)
  obtain objs where "newMessage_loop lib uid (shared_handles ord m sh) False (mg_objs m) = Return (shared_handles ord m sh \<noteq> [], objs)"
    "keeps_objs (mg_objs m) objs" unfolding uid_ok_def by metis
  with Some assms runs_objs [of "to_sink u m" objs for u] show ?thesis by (simp add: NewMessage_def)
qed (use assms in \<open>simp add: NewMessage_def\<close>)

lemma runs_flagsChanged:
  assumes "registry_ok m" "map_order ord" "seqset_ok lib"
  shows "runs (flagsChanged lib ord key uid flags m)"
proof (cases "mg_handles m key")
  case (Some sh)
  from registered_handles [OF assms(1) Some assms(2)] flags_loop_runs [of "shared_handles ord m sh" "mg_objs m" lib uid flags] assms(3)
  obtain objs where "flags_loop lib uid flags (shared_handles ord m sh) (mg_objs m) = Return objs" "keeps_objs (mg_objs m) objs" by metis
  with Some assms runs_objs show ?thesis by (simp add: flagsChanged_def)
qed (use assms in \<open>simp add: flagsChanged_def\<close>)

lemma runs_removedSet:
  assumes "registry_ok m" "seqset_ok lib" "normal_set s"
  shows "registry_ok (removedSet lib ord key s m)"
  using assms(1) runs_objs [OF assms(1) keeps_each, of "expunge_set lib s"] keeps_notes(6) [OF assms(2,3)]
  by (auto simp: removedSet_def split: option.splits)

lemma own_shared_ok:
  assumes "registry_ok m" "h < length (mg_objs m)" "h_conn (mg_objs m ! h) \<noteq> None"
  obtains sh where "h_shared (mg_objs m ! h) = Some sh" "sh < length (mg_shareds m)"
  using assms by (auto simp: registry_ok_def handle_ok_def)

lemma runs_FlagsChanged:
  assumes "registry_ok m" "map_order ord" "seqset_ok lib" "h < length (mg_objs m)"
  shows "runs (FlagsChanged lib ord h uid flags silent m)"
proof (cases "h_conn (mg_objs m ! h) = None")
  case False
  then obtain sh where sh: "h_shared (mg_objs m ! h) = Some sh" "sh < length (mg_shareds m)"
    using own_shared_ok [OF assms(1,4)] by blast
  let ?hs = "filter (\<lambda>a. \<not> (a = h \<and> silent)) (shared_handles ord m sh)"
  have "\<forall>a \<in> set ?hs. a < length (mg_objs m) \<and> recent (mg_objs m ! a) \<noteq> None"
    using shared_handles_ok [OF assms(1) sh(2) assms(2)] by auto
  from flags_loop_runs [OF this assms(3), of uid flags]
  obtain objs where "flags_loop lib uid flags ?hs (mg_objs m) = Return objs" "keeps_objs (mg_objs m) objs" by blast
  with sh False assms(1) runs_objs [of "to_sink u m" objs for u] show ?thesis by (simp add: FlagsChanged_def Let_def)
qed (use assms in \<open>simp add: FlagsChanged_def\<close>)

lemma runs_removals:
  assumes "registry_ok m" "seqset_ok lib" "h < length (mg_objs m)"
  shows "uid_ok uid \<Longrightarrow> runs (Removed lib ord h uid m)" "normal_set s \<Longrightarrow> runs (RemovedSet lib ord h s m)"
proof -
  have k: "runs (Return (to_sink u m\<lparr>mg_objs := objs\<rparr>))" if "keeps_objs (mg_objs m) objs" for u objs
    using runs_objs [of "to_sink u m" objs] that assms(1) by simp
  have sh: "h_conn (mg_objs m ! h) = None \<or> h_shared (mg_objs m ! h) \<noteq> None"
    using own_shared_ok [OF assms(1,3)] by (metis option.distinct(1))
  show "runs (Removed lib ord h uid m)" if "uid_ok uid"
    using sh assms(1) k [OF keeps_each [OF keeps_notes(3) [OF assms(2) that [unfolded uid_ok_def, THEN conjunct1] that [unfolded uid_ok_def, THEN conjunct2]]]]
    by (auto simp: Removed_def Let_def)
  show "runs (RemovedSet lib ord h s m)" if "normal_set s"
    using sh assms(1) k [OF keeps_each [OF keeps_notes(6) [OF assms(2) that]]] by (auto simp: RemovedSet_def Let_def)
qed

text \<open>Changes of shared objects: handles are only taken out.\<close>

lemma registry_ok_shrink:
  assumes "registry_ok m" "sh < length (mg_shareds m)"
    and "\<And>hs'. x = Some hs' \<Longrightarrow> \<exists>hs. sh_handles (mg_shareds m ! sh) = Some hs \<and> set hs' \<subseteq> set hs \<and> distinct hs'"
    and "mg_shareds m' = (mg_shareds m)[sh := (mg_shareds m ! sh)\<lparr>sh_handles := x\<rparr>]" "mg_objs m' = mg_objs m"
    and "mg_handles m' \<subseteq>\<^sub>m mg_handles m" "x = None \<or> x = Some [] \<Longrightarrow> mg_handles m' (sh_key (mg_shareds m ! sh)) = None"
  shows "registry_ok m'"
proof -
  have sk: "sh_key (mg_shareds m' ! i) = sh_key (mg_shareds m ! i)" for i
    using assms(2,4) by (cases "i = sh") (auto simp: nth_list_update)
  have shared: "shared_ok (mg_objs m) i (mg_shareds m' ! i)" if "i < length (mg_shareds m)" for i
  proof (cases "i = sh")
    case True
    have "shared_ok (mg_objs m) sh (mg_shareds m ! sh)" using assms(1,2) by (simp add: registry_ok_def)
    with True assms(2,3,4) show ?thesis unfolding shared_ok_def by (auto simp: nth_list_update) blast+
  qed (use assms(1,4) that in \<open>simp add: registry_ok_def\<close>)
  have reg: "\<exists>hs. sh_handles (mg_shareds m' ! i) = Some hs \<and> hs \<noteq> []" "i < length (mg_shareds m)" "sh_key (mg_shareds m ! i) = key"
    if i: "mg_handles m' key = Some i" for key i
  proof -
    have "mg_handles m key = Some i" using assms(6) i by (auto simp: map_le_def dom_def)
    with assms(1) have r: "i < length (mg_shareds m)" "sh_key (mg_shareds m ! i) = key"
      "\<exists>hs. sh_handles (mg_shareds m ! i) = Some hs \<and> hs \<noteq> []" unfolding registry_ok_def by blast+
    show "i < length (mg_shareds m)" "sh_key (mg_shareds m ! i) = key" by fact+
    show "\<exists>hs. sh_handles (mg_shareds m' ! i) = Some hs \<and> hs \<noteq> []"
    proof (cases "i = sh")
      case True
      with assms(2,4,7) i r(2) show ?thesis by (cases x) auto
    qed (use assms(4) r(3) in simp)
  qed
  show ?thesis
    using assms(1) sk shared reg assms(4,5) unfolding registry_ok_def by simp
qed

lemma registry_ok_destroyed: "registry_ok m \<Longrightarrow> registry_ok (mailboxDestroyed key m)"
proof (cases "mg_handles m key")
  case (Some sh)
  assume m: "registry_ok m"
  with Some have "sh < length (mg_shareds m)" "sh_key (mg_shareds m ! sh) = key" unfolding registry_ok_def by blast+
  then show ?thesis
    using Some by (intro registry_ok_shrink [OF m, where x = None]) (auto simp: mailboxDestroyed_def map_le_def)
qed (simp add: mailboxDestroyed_def)

lemma runs_Close:
  assumes "registry_ok m" "h < length (mg_objs m)"
  shows "runs (handle_Close h m)"
proof (cases "h_conn (mg_objs m ! h) = None")
  case False
  then obtain sh where sh: "h_shared (mg_objs m ! h) = Some sh" "sh < length (mg_shareds m)"
    using own_shared_ok [OF assms] by blast
  let ?s = "mg_shareds m ! sh" and ?x = "map_option (removeAll h) (sh_handles (mg_shareds m ! sh))"
  have ok: "shared_ok (mg_objs m) sh ?s" using assms(1) sh(2) by (simp add: registry_ok_def)
  have "\<exists>m'. handle_Close h m = Return m' \<and> mg_shareds m' = (mg_shareds m)[sh := ?s\<lparr>sh_handles := ?x\<rparr>] \<and> mg_objs m' = mg_objs m \<and>
      mg_handles m' \<subseteq>\<^sub>m mg_handles m \<and> (?x = None \<or> ?x = Some [] \<longrightarrow> mg_handles m' (sh_key ?s) = None)"
    using False sh by (cases ?x rule: option.exhaust [case_names None Some]) (auto simp: handle_Close_def Let_def map_le_def split: list.splits option.splits)
  then obtain m' where m': "handle_Close h m = Return m'" "mg_shareds m' = (mg_shareds m)[sh := ?s\<lparr>sh_handles := ?x\<rparr>]"
    "mg_objs m' = mg_objs m" "mg_handles m' \<subseteq>\<^sub>m mg_handles m" "?x = None \<or> ?x = Some [] \<Longrightarrow> mg_handles m' (sh_key ?s) = None"
    by blast
  have "registry_ok m'"
  proof (rule registry_ok_shrink [OF assms(1) sh(2) _ m'(2-5)])
    show "\<exists>hs. sh_handles ?s = Some hs \<and> set hs' \<subseteq> set hs \<and> distinct hs'" if "?x = Some hs'" for hs'
      using ok that by (auto simp: shared_ok_def distinct_removeAll)
  qed
  with m'(1) show ?thesis by simp
qed (use assms in \<open>simp add: handle_Close_def\<close>)

lemma registry_ok_grow:
  assumes "registry_ok m" "sh < length shs" "length (mg_shareds m) \<le> length shs"
    and shs: "\<And>i. i < length (mg_shareds m) \<Longrightarrow> shs ! i = mg_shareds m ! i"
    and new: "\<And>i. length (mg_shareds m) \<le> i \<Longrightarrow> i < length shs \<Longrightarrow> i = sh \<and> shs ! i = \<lparr>sh_key = key, sh_handles = Some []\<rparr>"
    and sh: "sh_key (shs ! sh) = key" "sh_handles (shs ! sh) = Some hs"
    and h: "handle_ok hndl" "h_shared hndl = Some sh" "h_key hndl = key" "recent hndl \<noteq> None"
    and m': "mg_objs m' = mg_objs m @ [hndl]" "mg_shareds m' = shs[sh := (shs ! sh)\<lparr>sh_handles := Some (hs @ [length (mg_objs m)])\<rparr>]"
      "mg_handles m' = (mg_handles m)(key \<mapsto> sh)"
  shows "registry_ok m'"
proof -
  have sk: "sh_key (mg_shareds m' ! i) = sh_key (shs ! i)" for i
    using assms(2) m'(2) by (cases "i = sh") (auto simp: nth_list_update)
  have old: "shared_ok (mg_objs m) i (shs ! i)" if "i < length shs" for i
    using assms(1) shs new [of i] that by (cases "i < length (mg_shareds m)") (auto simp: registry_ok_def shared_ok_def)
  have ext: "shared_ok (mg_objs m') i (shs ! i)" if "i < length shs" for i
    using old [OF that] m'(1) by (fastforce simp: shared_ok_def nth_append)
  have shared: "shared_ok (mg_objs m') i (mg_shareds m' ! i)" if "i < length shs" for i
  proof (cases "i = sh")
    case True
    have "length (mg_objs m) \<notin> set hs" "distinct hs" using old [OF assms(2)] sh(2) by (auto simp: shared_ok_def)
    with True ext [OF assms(2)] sh(2) m' h assms(2) show ?thesis by (auto simp: shared_ok_def)
  qed (use ext [OF that] m'(2) in simp)
  have objs: "handle_ok (mg_objs m' ! i) \<and> (\<forall>s. h_shared (mg_objs m' ! i) = Some s \<longrightarrow> s < length shs \<and> sh_key (shs ! s) = h_key (mg_objs m' ! i))"
    if "i < length (mg_objs m')" for i
  proof (cases "i < length (mg_objs m)")
    case True
    with assms(1,3) shs m'(1) show ?thesis unfolding registry_ok_def by (auto simp: nth_append)
  next
    case False
    with that m'(1) have "mg_objs m' ! i = hndl" by (simp add: nth_append)
    with h sh assms(2) show ?thesis by auto
  qed
  have reg: "s < length shs \<and> sh_key (shs ! s) = k \<and> (\<exists>hs. sh_handles (mg_shareds m' ! s) = Some hs \<and> hs \<noteq> [])"
    if "mg_handles m' k = Some s" for k s
  proof (cases "s = sh")
    case True
    show ?thesis
    proof (cases "k = key")
      case False
      with that m'(3) have "mg_handles m k = Some s" by simp
      with assms(1) have "s < length (mg_shareds m)" "sh_key (mg_shareds m ! s) = k" unfolding registry_ok_def by blast+
      with shs True sh False show ?thesis by auto
    qed (use True sh assms(2) m'(2) in auto)
  next
    case False
    with that m'(3) have "mg_handles m k = Some s" by (auto split: if_splits)
    with assms(1) have "s < length (mg_shareds m)" "sh_key (mg_shareds m ! s) = k" "\<exists>hs. sh_handles (mg_shareds m ! s) = Some hs \<and> hs \<noteq> []"
      unfolding registry_ok_def by blast+
    with shs False m'(2) assms(3) show ?thesis by auto
  qed
  show ?thesis
    using sk shared objs reg m'(2) unfolding registry_ok_def by simp
qed

lemma runs_Mailbox:
  assumes "registry_ok m" "normal_set r"
  shows "runs (obind (Mailbox key conn uids (Some r) m) (\<lambda>(_, m). Return m))"
proof -
  obtain us where us: "set_uids r = Return us" using set_uids_normal [OF assms(2)] by blast
  have h: "handle_ok (new_handle key sh conn uids r us)" "h_shared (new_handle key sh conn uids r us) = Some sh"
    "h_key (new_handle key sh conn uids r us) = key" "recent (new_handle key sh conn uids r us) \<noteq> None" for sh
    using assms(2) by (auto simp: new_handle_def handle_ok_def)
  show ?thesis
  proof (cases "mg_handles m key")
    case None
    let ?n = "length (mg_shareds m)"
    have "registry_ok m'"
      if "mg_objs m' = mg_objs m @ [new_handle key ?n conn uids r us]" "mg_handles m' = (mg_handles m)(key \<mapsto> ?n)"
        "mg_shareds m' = mg_shareds m @ [\<lparr>sh_key = key, sh_handles = Some [length (mg_objs m)]\<rparr>]" for m'
      by (rule registry_ok_grow [OF assms(1), where sh = ?n and hs = "[]" and key = key and shs = "mg_shareds m @ [\<lparr>sh_key = key, sh_handles = Some []\<rparr>]"])
        (use that h in \<open>auto simp: nth_append\<close>)
    with None us show ?thesis by (simp add: Mailbox_def open_shared_def Let_def)
  next
    case (Some sh)
    then obtain hs where sh: "sh < length (mg_shareds m)" "sh_key (mg_shareds m ! sh) = key" "sh_handles (mg_shareds m ! sh) = Some hs"
      using assms(1) unfolding registry_ok_def by blast
    have "(mg_handles m)(key \<mapsto> sh) = mg_handles m" using Some by auto
    then have "registry_ok m'"
      if "mg_objs m' = mg_objs m @ [new_handle key sh conn uids r us]" "mg_handles m' = mg_handles m"
        "mg_shareds m' = (mg_shareds m)[sh := (mg_shareds m ! sh)\<lparr>sh_handles := Some (hs @ [length (mg_objs m)])\<rparr>]" for m'
      using that sh h by (intro registry_ok_grow [OF assms(1), where sh = sh and key = key and shs = "mg_shareds m"]) auto
    with Some us sh show ?thesis by (simp add: Mailbox_def open_shared_def Let_def)
  qed
qed

lemma registry_ok_management:
  assumes "registry_ok m" "\<And>r. recents = Some r \<Longrightarrow> normal_set r"
  shows "registry_ok (snd (ManagementHandle key uids recents m))"
proof -
  let ?o = "mg_objs (snd (ManagementHandle key uids recents m))"
  have o: "?o ! i = mg_objs m ! i" if "i < length (mg_objs m)" for i using that by (simp add: ManagementHandle_def nth_append)
  have l: "length ?o = length (mg_objs m) + 1" by (simp add: ManagementHandle_def)
  have n: "handle_ok (?o ! length (mg_objs m))" "h_shared (?o ! length (mg_objs m)) = None"
    using assms(2) by (auto simp: ManagementHandle_def handle_ok_def)
  have "shared_ok ?o i s" if "shared_ok (mg_objs m) i s" for i s
    using that o l by (fastforce simp: shared_ok_def)
  moreover have "mg_handles (snd (ManagementHandle key uids recents m)) = mg_handles m"
    "mg_shareds (snd (ManagementHandle key uids recents m)) = mg_shareds m" by (simp_all add: ManagementHandle_def)
  ultimately show ?thesis
    using assms(1) o n l unfolding registry_ok_def by (auto simp: less_Suc_eq)
qed

lemma mgr_exec_runs:
  assumes "registry_ok m" "map_order ord" "seqset_ok lib" "op_ok lib m op"
  shows "runs (mgr_exec lib ord op m)"
proof (cases op)
  case (OpMailbox key conn uids recents)
  with assms show ?thesis by (auto intro: runs_Mailbox split: option.splits)
next
  case (OpManagement key uids recents)
  with assms show ?thesis by (auto intro: registry_ok_management split: option.splits)
next
  case (OpNewMessage key uid)
  with assms runs_NewMessage show ?thesis by simp
next
  case (OpNewMessages key s)
  with assms runs_newMessages [of "to_sink u m" for u] show ?thesis by (simp add: NewMessages_def)
next
  case (OpDestroyed key)
  with assms registry_ok_destroyed show ?thesis by (simp add: MailboxDestroyed_def)
next
  case (OpExternal upd)
  with assms runs_newMessages runs_flagsChanged runs_removedSet registry_ok_destroyed show ?thesis
    by (auto simp: ExternalUpdate_def split: update_type.splits option.splits)
next
  case (OpFlags h uid flags silent)
  with assms runs_FlagsChanged show ?thesis by simp
next
  case (OpSync h expunge)
  then have h: "h < length (mg_objs m)" using assms(4) by simp
  then have "handle_ok (mg_objs m ! h)" using assms(1) by (simp add: registry_ok_def)
  then have "\<exists>h'. Sync lib expunge (mg_objs m ! h) = Return h'"
    by (cases "sync_expunge lib expunge ((mg_objs m ! h)\<lparr>pendingFlags := []\<rparr>)")
      (auto simp: Sync_def handle_ok_def elim: sync_collect_normal [OF assms(3)])
  then obtain h' where h': "Sync lib expunge (mg_objs m ! h) = Return h'" by blast
  have "keeps_objs (mg_objs m) ((mg_objs m)[h := h'])" using keeps_Sync [OF assms(3) h'] by (rule keeps_objs_update)
  with OpSync h' runs_objs [OF assms(1)] show ?thesis by simp
next
  case (OpIdle h n)
  have "keeps_objs (mg_objs m) ((mg_objs m)[h := (mg_objs m ! h)\<lparr>idleerNotify := n\<rparr>])"
    by (rule keeps_objs_update) (simp add: keeps_handle_def)
  with OpIdle runs_objs [OF assms(1)] show ?thesis by simp
qed (use assms runs_removals runs_Close in \<open>auto simp: SetExternalSink_def\<close>)

lemma reach_registry_ok: "mgr_reach lib ord m \<Longrightarrow> map_order ord \<Longrightarrow> seqset_ok lib \<Longrightarrow> registry_ok m"
proof (induction rule: mgr_reach.induct)
  case reach_new
  then show ?case by (simp add: NewManager_def registry_ok_def)
next
  case (reach_step m op m')
  with mgr_exec_runs [of m ord lib op] show ?case by simp
qed

lemma note_effects:
  assumes "seqset_ok lib" "uid_ok uid" "handle_ok h"
  shows "nums (pendingCreated (note_created lib uid h)) = insert uid (nums (pendingCreated h))"
    and "nums (pendingCreated (note_recent lib uid h)) = insert uid (nums (pendingCreated h))"
    and "idleerNotify (note_created lib uid h) = map_option (\<lambda>n. Suc (n - 1)) (idleerNotify h)"
    and "idleerNotify (note_recent lib uid h) = map_option (\<lambda>n. Suc (n - 1)) (idleerNotify h)"
    and "recent (note_created lib uid h) = recent h" "hasNewRecent (note_recent lib uid h)"
    and "recent h = Some r \<Longrightarrow> \<exists>r'. recent (note_recent lib uid h) = Some r' \<and> nums r' = insert uid (nums r)"
  using assms(2,3) seqset_laws(5) [OF assms(1)]
  by (cases "idleerNotify h"; auto simp: note_created_def note_recent_def uid_ok_def handle_ok_def idleUpdate_def)+

section \<open>Properties\<close>

text \<open>A new message reaches every connection that has the mailbox open, in every reachable state and every order of the map: it is
  put into the list of created messages of each handle, waiting ones are woken, exactly one handle gets the \<open>\Recent\<close> flag, and the
  result asks for a stored flag exactly when no connection has the mailbox open.\<close>

theorem new_message_reaches_all:
  assumes "mgr_reach lib ord m" "map_order ord" "seqset_ok lib" "uid_ok uid"
    and "hs = (case mg_handles m key of None \<Rightarrow> [] | Some sh \<Rightarrow> (case sh_handles (mg_shareds m ! sh) of None \<Rightarrow> [] | Some l \<Rightarrow> l))"
  shows "\<exists>m'. NewMessage lib ord key uid m = Return (hs = [], m') \<and> length (mg_objs m') = length (mg_objs m) \<and>
    (\<forall>h < length (mg_objs m). h \<notin> set hs \<longrightarrow> mg_objs m' ! h = mg_objs m ! h) \<and>
    (\<forall>h \<in> set hs. nums (pendingCreated (mg_objs m' ! h)) = insert uid (nums (pendingCreated (mg_objs m ! h))) \<and>
       (idleerNotify (mg_objs m ! h) \<noteq> None \<longrightarrow> (\<exists>n. idleerNotify (mg_objs m' ! h) = Some (Suc n)))) \<and>
    (hs \<noteq> [] \<longrightarrow> (\<exists>h \<in> set hs. hasNewRecent (mg_objs m' ! h) \<and>
       (\<exists>r r'. recent (mg_objs m ! h) = Some r \<and> recent (mg_objs m' ! h) = Some r' \<and> nums r' = insert uid (nums r)) \<and>
       (\<forall>h' \<in> set hs - {h}. recent (mg_objs m' ! h') = recent (mg_objs m ! h'))))"
proof (cases "mg_handles m key")
  case None
  with assms(5) show ?thesis by (auto simp: NewMessage_def)
next
  case (Some sh)
  have reg: "registry_ok m" using reach_registry_ok [OF assms(1-3)] .
  let ?as = "shared_handles ord m sh"
  obtain l where l: "sh_handles (mg_shareds m ! sh) = Some l" "l \<noteq> []" "distinct ?as" "set ?as = set l"
    "\<forall>h \<in> set ?as. h < length (mg_objs m) \<and> recent (mg_objs m ! h) \<noteq> None"
    using registered_handles [OF reg Some assms(2)] by metis
  then obtain a as where a: "?as = a # as" by (cases ?as) auto
  have hs: "hs = l" using assms(5) Some l(1) by simp
  let ?f = "note_created lib uid" and ?objs = "mg_objs m"
  define objs' where "objs' = each_handle ?f as (?objs[a := note_recent lib uid (?objs ! a)])"
  have loop: "newMessage_loop lib uid ?as False ?objs = Return (True, objs')"
    using newMessage_loop_first [of ?objs a lib uid as] l(5) a by (simp add: objs'_def)
  have nth: "objs' ! h = (if h = a then note_recent lib uid (?objs ! a) else if h \<in> set as then ?f (?objs ! h) else ?objs ! h)"
    if "h < length ?objs" for h
    using each_handle_nth [of as h "?objs[a := note_recent lib uid (?objs ! a)]" ?f] l(3) a that by (auto simp: objs'_def)
  have ok: "handle_ok (?objs ! h)" if "h < length ?objs" for h using reg that by (simp add: registry_ok_def)
  note eff = note_effects [OF assms(3,4) ok]
  have members: "set hs = insert a (set as)" "a \<notin> set as" "\<forall>h \<in> set hs. h < length ?objs" "recent (?objs ! a) \<noteq> None"
    using l a hs by auto
  have "nums (pendingCreated (objs' ! h)) = insert uid (nums (pendingCreated (?objs ! h))) \<and>
      (idleerNotify (?objs ! h) \<noteq> None \<longrightarrow> (\<exists>n. idleerNotify (objs' ! h) = Some (Suc n)))" if "h \<in> set hs" for h
  proof (cases "h = a")
    case True
    with nth [of h] members that eff(2,4) [of h] show ?thesis by auto
  next
    case False
    with members(1) that have "h \<in> set as" by simp
    with False nth [of h] members(3) that eff(1,3) [of h] show ?thesis by auto
  qed
  moreover have "\<exists>h \<in> set hs. hasNewRecent (objs' ! h) \<and>
       (\<exists>r r'. recent (?objs ! h) = Some r \<and> recent (objs' ! h) = Some r' \<and> nums r' = insert uid (nums r)) \<and>
       (\<forall>h' \<in> set hs - {h}. recent (objs' ! h') = recent (?objs ! h'))"
    using nth members eff(5-7) by (intro bexI [of _ a]) auto
  moreover have "length objs' = length ?objs" by (simp add: objs'_def)
  moreover have "\<forall>h < length ?objs. h \<notin> set hs \<longrightarrow> objs' ! h = ?objs ! h" using nth members(1) by simp
  moreover have "NewMessage lib ord key uid m = Return (hs = [], to_sink (uid_update UpdNewMessage key uid []) m\<lparr>mg_objs := objs'\<rparr>)"
    using loop Some l(2) hs by (simp add: NewMessage_def)
  ultimately show ?thesis by simp
qed

definition sample_manager :: manager where
  "sample_manager = \<lparr>mg_handles = [1 \<mapsto> 0], mg_sink = None, ExternalSubscribe = None, ExternalUnsubscribe = None,
     mg_objs = [new_handle 1 0 (Some []) [3, 5, 9] [] []], mg_shareds = [\<lparr>sh_key = 1, sh_handles = Some [0]\<rparr>]\<rparr>"

lemma sample_manager_reach: "mgr_reach sample_sets (\<lambda>x. x) sample_manager"
proof -
  have "mgr_exec sample_sets (\<lambda>x. x) (OpMailbox 1 (Some []) [3, 5, 9] (Some [])) NewManager = Return sample_manager"
    by (simp add: Mailbox_def NewManager_def open_shared_def sample_manager_def Let_def new_handle_def to_uint32_def)
  then show ?thesis by (rule mgr_reach.reach_step [OF mgr_reach.reach_new, rotated]) simp
qed

text \<open>Histories with the handles that are open: \<open>Mailbox\<close> opens one, \<open>Close\<close> of a handle with a connection ends it. A history is
  disturbed by the two kinds of calls after which handles can be open without being listed (see \<open>stale_close_unregisters\<close>): a
  mailbox is destroyed, or a handle is closed that is not open any more.\<close>

definition open_after :: "mgr_op \<Rightarrow> manager \<Rightarrow> nat set \<Rightarrow> nat set" where
  "open_after op m opn =
     (case op of
        OpMailbox key conn uids recents \<Rightarrow> insert (length (mg_objs m)) opn
      | OpClose h \<Rightarrow> if h_conn (mg_objs m ! h) = None then opn else opn - {h}
      | _ \<Rightarrow> opn)"

definition disturbs :: "mgr_op \<Rightarrow> nat set \<Rightarrow> bool" where
  "disturbs op opn =
     (case op of
        OpDestroyed key \<Rightarrow> True
      | OpExternal upd \<Rightarrow> upd_Type upd = UpdMboxDestroyed
      | OpClose h \<Rightarrow> h \<notin> opn
      | _ \<Rightarrow> False)"

inductive mgr_hist :: "seqset_lib \<Rightarrow> (nat list \<Rightarrow> nat list) \<Rightarrow> nat set \<Rightarrow> bool \<Rightarrow> manager \<Rightarrow> bool" for lib ord where
  hist_new: "mgr_hist lib ord {} True NewManager"
| hist_step: "mgr_hist lib ord opn quiet m \<Longrightarrow> op_ok lib m op \<Longrightarrow> mgr_exec lib ord op m = Return m' \<Longrightarrow>
    mgr_hist lib ord (open_after op m opn) (quiet \<and> \<not> disturbs op opn) m'"

lemma hist_reach: "mgr_hist lib ord opn quiet m \<Longrightarrow> mgr_reach lib ord m"
  by (induction rule: mgr_hist.induct) (auto intro: mgr_reach.intros)

definition listed_in :: "manager \<Rightarrow> nat \<Rightarrow> nat \<Rightarrow> nat \<Rightarrow> bool" where
  "listed_in m key sh h \<longleftrightarrow> mg_handles m key = Some sh \<and> (\<exists>hs. sh_handles (mg_shareds m ! sh) = Some hs \<and> h \<in> set hs)"

definition open_ok :: "nat set \<Rightarrow> bool \<Rightarrow> manager \<Rightarrow> bool" where
  "open_ok opn quiet m \<longleftrightarrow>
     (\<forall>h sh hs. sh < length (mg_shareds m) \<and> sh_handles (mg_shareds m ! sh) = Some hs \<and> h \<in> set hs \<longrightarrow> h \<in> opn) \<and>
     (\<forall>h \<in> opn. h < length (mg_objs m)) \<and>
     (quiet \<longrightarrow> (\<forall>h \<in> opn. \<exists>key sh. listed_in m key sh h))"

lemma open_ok_listed:
  "open_ok opn quiet m \<Longrightarrow> sh < length (mg_shareds m) \<Longrightarrow> sh_handles (mg_shareds m ! sh) = Some hs \<Longrightarrow> h \<in> set hs \<Longrightarrow> h \<in> opn"
  unfolding open_ok_def by blast

lemma open_okI:
  assumes "\<And>h sh hs. sh < length (mg_shareds m) \<Longrightarrow> sh_handles (mg_shareds m ! sh) = Some hs \<Longrightarrow> h \<in> set hs \<Longrightarrow> h \<in> opn"
    and "\<And>h. h \<in> opn \<Longrightarrow> h < length (mg_objs m)" "\<And>h. quiet \<Longrightarrow> h \<in> opn \<Longrightarrow> \<exists>key sh. listed_in m key sh h"
  shows "open_ok opn quiet m"
  using assms unfolding open_ok_def by blast

lemma open_ok_length: "open_ok opn quiet m \<Longrightarrow> h \<in> opn \<Longrightarrow> h < length (mg_objs m)"
  by (simp add: open_ok_def)

lemma open_ok_quiet: "open_ok opn quiet m \<Longrightarrow> quiet \<Longrightarrow> h \<in> opn \<Longrightarrow> \<exists>key sh. listed_in m key sh h"
  by (simp add: open_ok_def)

text \<open>Most calls change handles only.\<close>

definition same_registry :: "manager \<Rightarrow> manager \<Rightarrow> bool" where
  "same_registry m m' \<longleftrightarrow> mg_shareds m' = mg_shareds m \<and> mg_handles m' = mg_handles m \<and> length (mg_objs m') = length (mg_objs m)"

lemma open_ok_same: "open_ok opn quiet m \<Longrightarrow> same_registry m m' \<Longrightarrow> open_ok opn quiet m'"
  by (simp add: open_ok_def same_registry_def listed_in_def)

lemma open_ok_loud: "open_ok opn quiet m \<Longrightarrow> open_ok opn (quiet \<and> b) m"
  by (simp add: open_ok_def)

lemma loop_lengths:
  "flags_loop lib uid flags as objs = Return objs' \<Longrightarrow> length objs' = length objs"
  "newMessage_loop lib uid as added objs = Return (b, objs') \<Longrightarrow> length objs' = length objs"
  "newMessages_loop lib s as added objs = Return (b, objs') \<Longrightarrow> length objs' = length objs"
  by (induction as arbitrary: objs added) (auto simp: Let_def obind_Return_iff nil_deref_def split: if_splits option.splits)

lemma same_registry_step:
  assumes "mgr_exec lib ord op m = Return m'"
    and "\<And>key conn uids recents. op \<noteq> OpMailbox key conn uids recents" "\<And>key uids recents. op \<noteq> OpManagement key uids recents"
    and "\<And>key. op \<noteq> OpDestroyed key" "\<And>upd. op = OpExternal upd \<Longrightarrow> upd_Type upd \<noteq> UpdMboxDestroyed" "\<And>h. op \<noteq> OpClose h"
  shows "same_registry m m'"
  using assms
  by (cases op)
    (auto simp: same_registry_def NewMessage_def NewMessages_def newMessages_def flagsChanged_def FlagsChanged_def removedSet_def Removed_def
      RemovedSet_def ExternalUpdate_def SetExternalSink_def Let_def obind_Return_iff nil_deref_def
      split: option.splits if_splits update_type.splits dest!: loop_lengths)

lemma open_ok_mailbox:
  assumes "registry_ok m" "open_ok opn quiet m" "Mailbox key conn uids (Some r) m = Return (h, m')"
  shows "open_ok (insert (length (mg_objs m)) opn) quiet m'"
proof -
  let ?n = "length (mg_objs m)" and ?k = "length (mg_shareds m)"
  have reg: "sh < ?k \<and> (\<exists>hs. sh_handles (mg_shareds m ! sh) = Some hs)" if "mg_handles m k = Some sh" for k sh
    using assms(1) that unfolding registry_ok_def by blast
  obtain us where us: "set_uids r = Return us" using assms(3) by (cases "set_uids r") (auto simp: Mailbox_def)
  obtain sh hs shs where sh: "open_shared key m = (sh, shs)" "sh_handles (shs ! sh) = Some hs" "sh < length shs" "?k \<le> length shs"
    "\<And>i. i < ?k \<Longrightarrow> shs ! i = mg_shareds m ! i" "\<And>i. ?k \<le> i \<Longrightarrow> i < length shs \<Longrightarrow> sh_handles (shs ! i) = Some []"
    "mg_handles m key = Some sh \<or> mg_handles m key = None \<and> sh = ?k"
  proof (cases "mg_handles m key")
    case None
    then show thesis
      by (intro that [of ?k "mg_shareds m @ [\<lparr>sh_key = key, sh_handles = Some []\<rparr>]" "[]"]) (auto simp: open_shared_def nth_append)
  next
    case (Some s)
    with reg [OF Some] obtain hs where "sh_handles (mg_shareds m ! s) = Some hs" "s < ?k" by blast
    with Some show thesis by (intro that [of s "mg_shareds m" hs]) (auto simp: open_shared_def)
  qed
  have m': "mg_shareds m' = shs[sh := (shs ! sh)\<lparr>sh_handles := Some (hs @ [?n])\<rparr>]" "mg_handles m' = (mg_handles m)(key \<mapsto> sh)"
    "length (mg_objs m') = Suc ?n"
    using assms(3) us sh(1,2,7) by (auto simp: Mailbox_def Let_def split: if_splits)
  have old: "x \<in> opn" if "i < length shs" "sh_handles (shs ! i) = Some hs'" "x \<in> set hs'" for i hs' x
    using assms(2) sh(5,6) [of i] that open_ok_listed [OF assms(2), of i hs' x] by (cases "i < ?k") auto
  have "x \<in> insert ?n opn" if "i < length (mg_shareds m')" "sh_handles (mg_shareds m' ! i) = Some hs'" "x \<in> set hs'" for i hs' x
    using that m'(1) sh(2,3) old [of i hs' x] old [of sh hs x] by (cases "i = sh") auto
  moreover have "listed_in m' key sh ?n" using m' sh(3) by (simp add: listed_in_def)
  moreover have "\<exists>k s. listed_in m' k s x" if l: "listed_in m k s x" for k s x
  proof (cases "s = sh")
    case True
    from l reg [of k s] have "s < ?k" by (simp add: listed_in_def)
    with l True sh(2,5) have "x \<in> set hs" by (auto simp: listed_in_def)
    with m' sh(3) show ?thesis by (intro exI [of _ key] exI [of _ sh]) (simp add: listed_in_def)
  next
    case False
    from l reg [of k s] have s: "mg_handles m k = Some s" "s < ?k" by (simp_all add: listed_in_def)
    with sh(7) False have "k \<noteq> key" by auto
    with l False m'(1,2) sh(5) [OF s(2)] have "listed_in m' k s x" by (simp add: listed_in_def)
    then show ?thesis by blast
  qed
  ultimately show ?thesis
    using open_ok_length [OF assms(2)] open_ok_quiet [OF assms(2)] m'(3) by (intro open_okI) (blast, force, blast)
qed

lemma open_ok_destroyed:
  assumes "registry_ok m" "open_ok opn quiet m"
  shows "open_ok opn False (mailboxDestroyed key m)"
proof (cases "mg_handles m key")
  case (Some sh)
  then have "sh < length (mg_shareds m)" using assms(1) unfolding registry_ok_def by blast
  with Some open_ok_listed [OF assms(2)] open_ok_length [OF assms(2)] show ?thesis
    by (intro open_okI) (auto simp: mailboxDestroyed_def nth_list_update split: if_splits)
qed (use open_ok_loud [OF assms(2), of False] in \<open>simp add: mailboxDestroyed_def\<close>)

lemma open_ok_close:
  assumes "registry_ok m" "open_ok opn quiet m" "handle_Close h m = Return m'" "h < length (mg_objs m)" "h_conn (mg_objs m ! h) \<noteq> None"
  shows "open_ok (opn - {h}) (quiet \<and> h \<in> opn) m'"
proof -
  obtain sh where sh: "h_shared (mg_objs m ! h) = Some sh" "sh < length (mg_shareds m)" using own_shared_ok [OF assms(1,4,5)] .
  let ?x = "map_option (removeAll h) (sh_handles (mg_shareds m ! sh))" and ?k = "sh_key (mg_shareds m ! sh)"
  have m': "mg_shareds m' = (mg_shareds m)[sh := (mg_shareds m ! sh)\<lparr>sh_handles := ?x\<rparr>]" "mg_objs m' = mg_objs m"
    "mg_handles m' = (if ?x = None \<or> ?x = Some [] then (mg_handles m)(?k := None) else mg_handles m)"
    using assms(3,5) sh by (auto simp: handle_Close_def Let_def split: option.splits list.splits)
  have elsewhere: "h \<notin> set hs" if "i < length (mg_shareds m)" "i \<noteq> sh" "sh_handles (mg_shareds m ! i) = Some hs" for i hs
    using assms(1) that sh(1) unfolding registry_ok_def shared_ok_def by fastforce
  have "x \<in> opn - {h}" if "i < length (mg_shareds m')" "sh_handles (mg_shareds m' ! i) = Some hs" "x \<in> set hs" for i hs x
  proof (cases "i = sh")
    case True
    with that m'(1) sh(2) obtain z where "sh_handles (mg_shareds m ! sh) = Some z" "hs = removeAll h z" by auto
    with that(3) open_ok_listed [OF assms(2) sh(2)] show ?thesis by auto
  next
    case False
    with that m'(1) elsewhere [of i hs] open_ok_listed [OF assms(2), of i hs x] show ?thesis by auto
  qed
  moreover have "\<exists>k s. listed_in m' k s x" if q: quiet "h \<in> opn" and x: "x \<in> opn" "x \<noteq> h" for x
  proof -
    obtain k s hs k' s' hs' where l: "mg_handles m k = Some s" "sh_handles (mg_shareds m ! s) = Some hs" "x \<in> set hs"
      "mg_handles m k' = Some s'" "sh_handles (mg_shareds m ! s') = Some hs'" "h \<in> set hs'"
      using assms(2) q x(1) unfolding open_ok_def listed_in_def by meson
    have r: "s < length (mg_shareds m)" "s' < length (mg_shareds m)" "sh_key (mg_shareds m ! s) = k" "sh_key (mg_shareds m ! s') = k'"
      using assms(1) l(1,4) unfolding registry_ok_def by blast+
    have "s' = sh" using elsewhere [OF r(2) _ l(5)] l(6) by blast
    have h: "mg_handles m' k = Some s"
    proof (cases "s = sh")
      case True
      with l(2,3) x(2) have y: "?x = Some (removeAll h hs)" "x \<in> set (removeAll h hs)" by simp_all
      have "removeAll h hs \<noteq> []" using y(2) by (metis empty_iff empty_set)
      with y(1) have "\<not> (?x = None \<or> ?x = Some [])" by (metis option.distinct(1) option.inject)
      with m'(3) l(1) show ?thesis by (metis (full_types))
    next
      case False
      with \<open>s' = sh\<close> r(4) l(1,4) have "k \<noteq> ?k" by auto
      with m'(3) l(1) show ?thesis by simp
    qed
    have "\<exists>hs. sh_handles (mg_shareds m' ! s) = Some hs \<and> x \<in> set hs" using l(2,3) m'(1) sh(2) x(2) by (cases "s = sh") auto
    with h show ?thesis by (auto simp: listed_in_def)
  qed
  ultimately show ?thesis using open_ok_length [OF assms(2)] m'(2) by (intro open_okI) (blast, simp, blast)
qed

lemma open_ok_step:
  assumes "registry_ok m" "open_ok opn quiet m" "op_ok lib m op" "mgr_exec lib ord op m = Return m'"
  shows "open_ok (open_after op m opn) (quiet \<and> \<not> disturbs op opn) m'"
proof -
  consider (mailbox) key conn uids recents where "op = OpMailbox key conn uids recents" | (mgmt) key uids recents where "op = OpManagement key uids recents"
    | (destroyed) key where "op = OpDestroyed key" | (external) upd where "op = OpExternal upd" "upd_Type upd = UpdMboxDestroyed"
    | (close) h where "op = OpClose h"
    | (other) "\<And>key conn uids recents. op \<noteq> OpMailbox key conn uids recents" "\<And>key uids recents. op \<noteq> OpManagement key uids recents"
      "\<And>key. op \<noteq> OpDestroyed key" "\<And>upd. op = OpExternal upd \<Longrightarrow> upd_Type upd \<noteq> UpdMboxDestroyed" "\<And>h. op \<noteq> OpClose h"
    by metis
  then show ?thesis
  proof cases
    case mailbox
    with assms(3) obtain r where "recents = Some r" by (auto split: option.splits)
    with mailbox assms(4) open_ok_mailbox [OF assms(1,2)] show ?thesis by (auto simp: open_after_def disturbs_def obind_Return_iff)
  next
    case mgmt
    with assms(4) have m': "mg_shareds m' = mg_shareds m" "mg_handles m' = mg_handles m" "length (mg_objs m') = Suc (length (mg_objs m))"
      by (auto simp: ManagementHandle_def)
    have "open_ok opn quiet m'"
      using open_ok_listed [OF assms(2)] open_ok_length [OF assms(2)] open_ok_quiet [OF assms(2)]
      by (intro open_okI) (simp_all add: m' listed_in_def less_SucI)
    with mgmt show ?thesis by (simp add: open_after_def disturbs_def)
  next
    case destroyed
    have "registry_ok (to_sink u m)" "open_ok opn quiet (to_sink u m)" for u
      using assms(1,2) open_ok_same [of opn quiet m] by (simp_all add: same_registry_def)
    from open_ok_destroyed [OF this] destroyed assms(4) show ?thesis by (auto simp: open_after_def disturbs_def MailboxDestroyed_def)
  next
    case external
    with assms(4) open_ok_destroyed [OF assms(1,2)] show ?thesis by (auto simp: open_after_def disturbs_def ExternalUpdate_def)
  next
    case close
    show ?thesis
    proof (cases "h_conn (mg_objs m ! h) = None")
      case True
      with close assms(4) open_ok_loud [OF assms(2)] show ?thesis by (simp add: open_after_def disturbs_def handle_Close_def Let_def)
    next
      case False
      with close assms(3,4) open_ok_close [OF assms(1,2)] show ?thesis by (auto simp: open_after_def disturbs_def)
    qed
  next
    case other
    then have "open_after op m opn = opn" "\<not> disturbs op opn" by (cases op; simp add: open_after_def disturbs_def)+
    with open_ok_same [OF assms(2) same_registry_step [OF assms(4) other]] show ?thesis by simp
  qed
qed

lemma hist_open_ok: "mgr_hist lib ord opn quiet m \<Longrightarrow> map_order ord \<Longrightarrow> seqset_ok lib \<Longrightarrow> open_ok opn quiet m"
proof (induction rule: mgr_hist.induct)
  case hist_new
  then show ?case by (simp add: open_ok_def NewManager_def)
next
  case (hist_step opn quiet m op m')
  with open_ok_step [OF reach_registry_ok [OF hist_reach]] show ?case by blast
qed

text \<open>C28. The registry of open mailboxes: after every sequence of calls that respect the conditions of the interface (calls are atomic steps),
  each registered mailbox lists at least one handle, each only once, and only handles that belong to it and are open: opened by
  \<open>Mailbox\<close> and, if they have a connection, not yet ended by \<open>Close\<close>. As long as no mailbox was destroyed and no handle was closed twice,
  every open handle is listed under its mailbox. Every further call that respects the conditions returns without a panic.\<close>

theorem registry_invariant:
  assumes "mgr_hist lib ord opn quiet m" "map_order ord" "seqset_ok lib"
  shows "(\<forall>key sh. mg_handles m key = Some sh \<longrightarrow> (\<exists>hs. sh_handles (mg_shareds m ! sh) = Some hs \<and> hs \<noteq> [] \<and> distinct hs \<and>
      (\<forall>h \<in> set hs. h \<in> opn \<and> h < length (mg_objs m) \<and> h_key (mg_objs m ! h) = key \<and> h_shared (mg_objs m ! h) = Some sh))) \<and>
    (quiet \<longrightarrow> (\<forall>h \<in> opn. \<exists>sh hs. mg_handles m (h_key (mg_objs m ! h)) = Some sh \<and> sh_handles (mg_shareds m ! sh) = Some hs \<and> h \<in> set hs)) \<and>
    (\<forall>op. op_ok lib m op \<longrightarrow> (\<exists>m'. mgr_exec lib ord op m = Return m'))"
proof -
  have reg: "registry_ok m" using reach_registry_ok [OF hist_reach [OF assms(1)] assms(2,3)] .
  have opn: "open_ok opn quiet m" using hist_open_ok [OF assms] .
  have own: "distinct hs \<and> hs \<noteq> [] \<and> (\<forall>h \<in> set hs. h \<in> opn \<and> h < length (mg_objs m) \<and> h_key (mg_objs m ! h) = key \<and> h_shared (mg_objs m ! h) = Some sh)"
    if k: "mg_handles m key = Some sh" "sh_handles (mg_shareds m ! sh) = Some hs" for key sh hs
  proof -
    from k reg have sh: "sh < length (mg_shareds m)" "sh_key (mg_shareds m ! sh) = key" "hs \<noteq> []" unfolding registry_ok_def by force+
    then have "distinct hs \<and> (\<forall>h \<in> set hs. h < length (mg_objs m) \<and> h_shared (mg_objs m ! h) = Some sh)"
      using reg k(2) by (auto simp: registry_ok_def shared_ok_def)
    moreover from this have "\<forall>h \<in> set hs. h_key (mg_objs m ! h) = key" using reg sh(2) by (auto simp: registry_ok_def)
    moreover have "\<forall>h \<in> set hs. h \<in> opn" using open_ok_listed [OF opn sh(1) k(2)] by blast
    ultimately show ?thesis using sh(3) by blast
  qed
  have "\<exists>hs. sh_handles (mg_shareds m ! sh) = Some hs" if "mg_handles m key = Some sh" for key sh
    using reg that unfolding registry_ok_def by blast
  moreover have "\<exists>sh hs. mg_handles m (h_key (mg_objs m ! h)) = Some sh \<and> sh_handles (mg_shareds m ! sh) = Some hs \<and> h \<in> set hs"
    if "quiet" "h \<in> opn" for h
  proof -
    from open_ok_quiet [OF opn that] obtain key sh hs where
      l: "mg_handles m key = Some sh" "sh_handles (mg_shareds m ! sh) = Some hs" "h \<in> set hs" by (auto simp: listed_in_def)
    with own [OF l(1,2)] show ?thesis by auto
  qed
  moreover have "\<exists>m'. mgr_exec lib ord op m = Return m'" if "op_ok lib m op" for op
    using mgr_exec_runs [OF reg assms(2,3) that] by (auto simp: runs_def)
  ultimately show ?thesis
  proof (intro conjI allI impI ballI)
    fix key sh assume k: "mg_handles m key = Some sh" and ex: "\<And>key sh. mg_handles m key = Some sh \<Longrightarrow> \<exists>hs. sh_handles (mg_shareds m ! sh) = Some hs"
    from ex [OF k] obtain hs where hs: "sh_handles (mg_shareds m ! sh) = Some hs" by blast
    with own [OF k hs] show "\<exists>hs. sh_handles (mg_shareds m ! sh) = Some hs \<and> hs \<noteq> [] \<and> distinct hs \<and>
        (\<forall>h \<in> set hs. h \<in> opn \<and> h < length (mg_objs m) \<and> h_key (mg_objs m ! h) = key \<and> h_shared (mg_objs m ! h) = Some sh)" by simp
  qed
qed

lemma sample_manager_hist: "mgr_hist sample_sets (\<lambda>x. x) {0} True sample_manager"
proof -
  have "mgr_exec sample_sets (\<lambda>x. x) (OpMailbox 1 (Some []) [3, 5, 9] (Some [])) NewManager = Return sample_manager"
    by (simp add: Mailbox_def NewManager_def open_shared_def sample_manager_def Let_def new_handle_def to_uint32_def)
  from mgr_hist.hist_step [OF mgr_hist.hist_new _ this] show ?thesis by (simp add: open_after_def disturbs_def NewManager_def)
qed

theorem registry_invariant_witness:
  "\<exists>hs. sh_handles (mg_shareds sample_manager ! 0) = Some hs \<and> set hs = {0} \<and> (\<exists>m'. mgr_exec sample_sets (\<lambda>x. x) (OpClose 0) sample_manager = Return m')"
proof -
  have r: "mg_handles sample_manager 1 = Some 0" "op_ok sample_sets sample_manager (OpClose 0)" by (simp_all add: sample_manager_def)
  have "map_order (\<lambda>x. x)" by (simp add: map_order_def)
  note i = registry_invariant [OF sample_manager_hist this sample_sets_ok]
  from i r(1) obtain hs where "sh_handles (mg_shareds sample_manager ! 0) = Some hs" "hs \<noteq> []" "\<forall>h \<in> set hs. h \<in> {0}" by metis
  moreover from this have "set hs = {0}" by (cases hs) auto
  moreover from i r(2) have "\<exists>m'. mgr_exec sample_sets (\<lambda>x. x) (OpClose 0) sample_manager = Return m'" by blast
  ultimately show ?thesis by blast
qed

section \<open>Faults\<close>

lemma Mailbox_effects:
  assumes "Mailbox key conn uids (Some r) m = Return (h, m')"
    and "\<And>sh. mg_handles m key = Some sh \<Longrightarrow> sh < length (mg_shareds m) \<and> sh_key (mg_shareds m ! sh) = key"
  obtains sh us where "h = length (mg_objs m)" "mg_objs m' = mg_objs m @ [new_handle key sh conn uids r us]"
    "mg_handles m' key = Some sh" "sh < length (mg_shareds m')" "sh_key (mg_shareds m' ! sh) = key"
    "mg_handles m key = None \<Longrightarrow> sh = length (mg_shareds m)"
    "\<And>i. i < length (mg_shareds m) \<Longrightarrow> i \<noteq> sh \<Longrightarrow> mg_shareds m' ! i = mg_shareds m ! i"
proof -
  obtain us where us: "set_uids r = Return us" using assms(1) by (cases "set_uids r") (auto simp: Mailbox_def)
  show ?thesis
  proof (cases "mg_handles m key")
    case None
    with assms(1) us show ?thesis
      by (intro that [of "length (mg_shareds m)" us]) (auto simp: Mailbox_def open_shared_def Let_def nth_append)
  next
    case (Some sh)
    with assms us show ?thesis
      by (intro that [of sh us]) (auto simp: Mailbox_def open_shared_def Let_def nth_list_update split: option.splits)
  qed
qed

text \<open>Closing a handle of a mailbox that was destroyed or renamed cuts off the connections that opened the mailbox afterwards:
  the handle \<open>h2\<close> is still open, but a new message does not reach it any more.\<close>

theorem stale_close_unregisters:
  assumes "registry_ok m0" "Mailbox key (Some c1) uids1 (Some r1) m0 = Return (h1, m1)"
    and "Mailbox key (Some c2) uids2 (Some r2) (MailboxDestroyed key m1) = Return (h2, m2)" "handle_Close h1 m2 = Return m3"
  shows "mg_handles m2 key \<noteq> None \<and> h2 \<noteq> h1 \<and> (\<exists>m4. NewMessage lib ord key uid m3 = Return (True, m4) \<and> mg_objs m4 = mg_objs m2)"
proof -
  have r0: "mg_handles m0 key = Some sh \<Longrightarrow> sh < length (mg_shareds m0) \<and> sh_key (mg_shareds m0 ! sh) = key" for sh
    using assms(1) unfolding registry_ok_def by blast
  obtain sh us where m1: "h1 = length (mg_objs m0)" "mg_objs m1 = mg_objs m0 @ [new_handle key sh (Some c1) uids1 r1 us]"
    "mg_handles m1 key = Some sh" "sh < length (mg_shareds m1)" "sh_key (mg_shareds m1 ! sh) = key"
    using Mailbox_effects [OF assms(2) r0] by metis
  let ?d = "MailboxDestroyed key m1"
  have d: "mg_handles ?d key = None" "mg_objs ?d = mg_objs m1" "length (mg_shareds ?d) = length (mg_shareds m1)"
    "mg_shareds ?d ! sh = \<lparr>sh_key = key, sh_handles = None\<rparr>"
    using m1 by (auto simp: MailboxDestroyed_def mailboxDestroyed_def)
  obtain sh2 us2 where m2: "h2 = length (mg_objs ?d)" "mg_objs m2 = mg_objs ?d @ [new_handle key sh2 (Some c2) uids2 r2 us2]"
    "mg_handles m2 key = Some sh2" "sh2 = length (mg_shareds ?d)" "mg_shareds m2 ! sh = mg_shareds ?d ! sh"
    using Mailbox_effects [OF assms(3)] d(1,3) m1(4) by (metis less_irrefl option.distinct(1))
  have "mg_objs m2 ! h1 = new_handle key sh (Some c1) uids1 r1 us" using m1 m2 d by (simp add: nth_append)
  then have "mg_handles m3 key = None" "mg_objs m3 = mg_objs m2"
    using assms(4) m2(5) d(4) by (auto simp: handle_Close_def new_handle_def)
  with m1 m2 d show ?thesis by (simp add: NewMessage_def)
qed

end
