(* ===== verification/Go_Lib.thy ===== *)
theory Go_Lib
  imports Go_Base "HOL-Library.Word"
begin

text \<open>
  What the program uses of \<^verbatim>\<open>strings\<close>, \<^verbatim>\<open>crypto/sha256\<close> and \<^verbatim>\<open>encoding/base64\<close>: trimming and cutting, the digest over 32-bit words,
  and the standard encoding with its decoder.

  The decoder skips line breaks and accepts padding at the end only. Shown: decoding an encoded string gives the string back.
\<close>

unbundle bit_operations_syntax

section \<open>Strings\<close>

text \<open>\<open>strings.TrimSpace\<close> and \<open>bytes.TrimSpace\<close>: the encodings of white space are taken away at both ends.\<close>

definition space_runes :: "rune list" where
  "space_runes = [0x09, 0x0A, 0x0B, 0x0C, 0x0D, 0x20, 0x85, 0xA0, 0x1680] @ [0x2000 ..< 0x200B] @
     [0x2028, 0x2029, 0x202F, 0x205F, 0x3000]"

function trim_left :: "string list \<Rightarrow> string \<Rightarrow> string" where
  "trim_left encs s =
     (case find (\<lambda>e. e \<noteq> [] \<and> HasPrefix s e) encs of
        None \<Rightarrow> s
      | Some e \<Rightarrow> trim_left encs (drop (length e) s))"
  by pat_completeness auto
termination
proof (relation "measure (\<lambda>(encs, s). length s)")
  fix encs s e
  assume "find (\<lambda>e. e \<noteq> [] \<and> HasPrefix s e) encs = Some e"
  then have "e \<noteq> []" "HasPrefix s e" by (auto simp: find_Some_iff)
  then show "((encs, drop (length e) s), encs, s) \<in> measure (\<lambda>(encs, s). length s)"
    by (cases s) (auto simp: HasPrefix_def)
qed simp

declare trim_left.simps [simp del]

definition TrimSpace :: "string \<Rightarrow> string" where
  "TrimSpace s =
     (let encs = map encode_rune space_runes in
      rev (trim_left (map rev encs) (rev (trim_left encs s))))"

text \<open>The first occurrence of a separator, as in \<open>strings.SplitN\<close> with 2, and \<open>strings.LastIndex\<close>.\<close>

fun cut_at :: "string \<Rightarrow> string \<Rightarrow> (string \<times> string) option" where
  "cut_at sep [] = (if sep = [] then Some ([], []) else None)"
| "cut_at sep (c # s) =
     (if HasPrefix (c # s) sep then Some ([], drop (length sep) (c # s))
      else map_option (\<lambda>(a, b). (c # a, b)) (cut_at sep s))"

fun before_last :: "string \<Rightarrow> string \<Rightarrow> string option" where
  "before_last sep [] = (if sep = [] then Some [] else None)"
| "before_last sep (c # s) =
     (case before_last sep s of
        Some a \<Rightarrow> Some (c # a)
      | None \<Rightarrow> if HasPrefix (c # s) sep then Some [] else None)"

section \<open>SHA-256\<close>

text \<open>The constants are the first 32 bits of the fractional parts of the cube roots of the first 64 primes and of the square roots of the first eight. \<open>iroot\<close>
  finds the bits of an integer root from the highest one on.\<close>

fun iroot :: "nat \<Rightarrow> int \<Rightarrow> nat \<Rightarrow> int \<Rightarrow> int" where
  "iroot k n 0 r = r"
| "iroot k n (Suc i) r = (let r' = r + 2 ^ i in iroot k n i (if r' ^ k \<le> n then r' else r))"

definition small_primes :: "int list" where
  "small_primes = filter (\<lambda>n. list_all (\<lambda>d. n mod d \<noteq> 0) [2..n - 1]) [2..311]"

definition root_bits :: "nat \<Rightarrow> int \<Rightarrow> 32 word" where
  "root_bits k p = word_of_int (iroot k (p * 2 ^ (32 * k)) 36 0)"

definition sha_K :: "32 word list" where
  "sha_K = map (root_bits 3) small_primes"

definition sha_init :: "32 word list" where
  "sha_init = map (root_bits 2) [2, 3, 5, 7, 11, 13, 17, 19]"

definition be_bytes :: "nat \<Rightarrow> nat \<Rightarrow> nat list" where
  "be_bytes k n = map (\<lambda>i. n div 256 ^ (k - Suc i) mod 256) [0..<k]"

definition sha_pad :: "nat list \<Rightarrow> nat list" where
  "sha_pad bs = bs @ [0x80] @ replicate ((119 - length bs mod 64) mod 64) 0 @ be_bytes 8 (8 * length bs mod 2 ^ 64)"

fun sha_words :: "nat list \<Rightarrow> 32 word list" where
  "sha_words (a # b # c # d # bs) = word_of_nat (((a * 256 + b) * 256 + c) * 256 + d) # sha_words bs"
| "sha_words _ = []"

definition rotr :: "nat \<Rightarrow> 32 word \<Rightarrow> 32 word" where
  "rotr n x = drop_bit n x OR push_bit (32 - n) x"

text \<open>The message schedule: a block of 16 words is extended to 64.\<close>

definition sha_next :: "32 word list \<Rightarrow> 32 word list" where
  "sha_next w =
     (let n = length w; x15 = w ! (n - 15); x2 = w ! (n - 2);
          s0 = rotr 7 x15 XOR rotr 18 x15 XOR drop_bit 3 x15;
          s1 = rotr 17 x2 XOR rotr 19 x2 XOR drop_bit 10 x2
      in w @ [w ! (n - 16) + s0 + w ! (n - 7) + s1])"

definition sha_schedule :: "32 word list \<Rightarrow> 32 word list" where
  "sha_schedule block = (sha_next ^^ 48) block"

fun sha_round :: "32 word \<times> 32 word \<Rightarrow> 32 word list \<Rightarrow> 32 word list" where
  "sha_round (k, w) [a, b, c, d, e, f, g, h] =
     (let s1 = rotr 6 e XOR rotr 11 e XOR rotr 25 e;
          ch = (e AND f) XOR ((NOT e) AND g);
          t1 = h + s1 + ch + k + w;
          s0 = rotr 2 a XOR rotr 13 a XOR rotr 22 a;
          maj = (a AND b) XOR (a AND c) XOR (b AND c);
          t2 = s0 + maj
      in [t1 + t2, a, b, c, d + t1, e, f, g])"
| "sha_round _ st = st"

definition sha_block :: "32 word list \<Rightarrow> 32 word list \<Rightarrow> 32 word list" where
  "sha_block st block = map2 (+) st (fold sha_round (zip sha_K (sha_schedule block)) st)"

fun sha_blocks :: "nat \<Rightarrow> 32 word list \<Rightarrow> 32 word list \<Rightarrow> 32 word list" where
  "sha_blocks 0 ws st = st"
| "sha_blocks (Suc n) ws st = sha_blocks n (drop 16 ws) (sha_block st (take 16 ws))"

definition Sum256 :: "string \<Rightarrow> string" where
  "Sum256 s =
     (let ws = sha_words (sha_pad (bytes_of s))
      in concat (map (\<lambda>w. map char_of (be_bytes 4 (unat w))) (sha_blocks (length ws div 16) ws sha_init)))"

section \<open>Base64\<close>

definition b64_char :: "nat \<Rightarrow> char" where
  "b64_char n = char_of (if n < 26 then n + 65 else if n < 52 then n + 71 else if n < 62 then n - 4 else if n = 62 then 43 else 47 :: nat)"

definition b64_val :: "char \<Rightarrow> nat option" where
  "b64_val c =
     (let k = of_char c in
      if 65 \<le> k \<and> k \<le> 90 then Some (k - 65) else if 97 \<le> k \<and> k \<le> 122 then Some (k - 71) else if 48 \<le> k \<and> k \<le> 57 then Some (k + 4)
      else if k = 43 then Some 62 else if k = (47 :: nat) then Some 63 else None)"

fun b64_encode :: "nat list \<Rightarrow> string" where
  "b64_encode [] = []"
| "b64_encode [a] = [b64_char (a div 4), b64_char (a mod 4 * 16), CHR ''='', CHR ''='']"
| "b64_encode [a, b] = [b64_char (a div 4), b64_char (a mod 4 * 16 + b div 16), b64_char (b mod 16 * 4), CHR ''='']"
| "b64_encode (a # b # c # bs) =
     b64_char (a div 4) # b64_char (a mod 4 * 16 + b div 16) # b64_char (b mod 16 * 4 + c div 64) # b64_char (c mod 64) # b64_encode bs"

definition EncodeToString :: "string \<Rightarrow> string" where
  "EncodeToString s = b64_encode (bytes_of s)"

text \<open>Bits that the padding leaves over are ignored.\<close>

fun b64_decode :: "string \<Rightarrow> nat list option" where
  "b64_decode [] = Some []"
| "b64_decode (p # q # r # s # cs) =
     (case (b64_val p, b64_val q) of
        (Some x, Some y) \<Rightarrow>
          (if s = CHR ''='' then
             if cs \<noteq> [] then None
             else if r = CHR ''='' then Some [x * 4 + y div 16]
             else (case b64_val r of None \<Rightarrow> None | Some z \<Rightarrow> Some [x * 4 + y div 16, y mod 16 * 16 + z div 4])
           else
             (case (b64_val r, b64_val s) of
                (Some z, Some u) \<Rightarrow> map_option (\<lambda>bs. (x * 4 + y div 16) # (y mod 16 * 16 + z div 4) # (z mod 4 * 64 + u) # bs) (b64_decode cs)
              | _ \<Rightarrow> None))
      | _ \<Rightarrow> None)"
| "b64_decode _ = None"

definition DecodeString :: "string \<Rightarrow> string option" where
  "DecodeString s = map_option (map char_of) (b64_decode (filter (\<lambda>c. c \<noteq> CHR 0x0A \<and> c \<noteq> CHR 0x0D) s))"

section \<open>Lemmas\<close>

lemma be_bytes_length [simp]: "length (be_bytes k n) = k"
  by (simp add: be_bytes_def)

lemma sha_round_length [simp]: "length (sha_round kw st) = length st"
  by (cases "(kw, st)" rule: sha_round.cases) (simp_all add: Let_def)

lemma sha_fold_length [simp]: "length (fold sha_round kws st) = length st"
  by (induction kws arbitrary: st) simp_all

lemma sha_blocks_length [simp]: "length (sha_blocks n ws st) = length st"
  by (induction n arbitrary: ws st) (simp_all add: sha_block_def)

lemma Sum256_length: "length (Sum256 s) = 32"
proof -
  have "length (concat (map (\<lambda>w. map char_of (be_bytes 4 (unat w))) ws) :: string) = 4 * length ws" for ws :: "32 word list"
    by (induction ws) simp_all
  then show ?thesis by (simp add: Sum256_def Let_def sha_init_def)
qed

lemma b64_val_char [simp]:
  assumes "n < 64"
  shows "b64_val (b64_char n) = Some n"
proof -
  consider "n < 26" | "26 \<le> n" "n < 52" | "52 \<le> n" "n < 62" | "n = 62" | "n = 63" using assms by linarith
  then show ?thesis by cases (auto simp: b64_val_def b64_char_def Let_def)
qed

lemma sextets [simp]:
  fixes a b c :: nat
  shows "a < 256 \<Longrightarrow> a div 4 < 64" "b < 256 \<Longrightarrow> a mod 4 * 16 + b div 16 < 64" "c < 256 \<Longrightarrow> b mod 16 * 4 + c div 64 < 64"
proof -
  have m: "a mod 4 \<le> 3" "b mod 16 \<le> 15" by (simp_all add: less_Suc_eq_le [symmetric])
  show "a < 256 \<Longrightarrow> a div 4 < 64" by linarith
  show "b < 256 \<Longrightarrow> a mod 4 * 16 + b div 16 < 64" using m(1) by linarith
  show "c < 256 \<Longrightarrow> b mod 16 * 4 + c div 64 < 64" using m(2) by linarith
qed

lemma b64_char_plain: "n < 64 \<Longrightarrow> b64_char n \<notin> {CHR ''='', CHR 0x0A, CHR 0x0D, CHR '':''}"
proof -
  assume "n < 64"
  then have "b64_val (b64_char n) \<noteq> None" by simp
  moreover have "b64_val (CHR ''='') = None" "b64_val (CHR 0x0A) = None" "b64_val (CHR 0x0D) = None" "b64_val (CHR '':'') = None"
    by (simp_all add: b64_val_def)
  ultimately show ?thesis by auto
qed

lemma octets:
  assumes "b < 256" "c < (256 :: nat)"
  shows "a div 4 * 4 + (a mod 4 * 16 + b div 16) div 16 = a" "(a mod 4 * 16 + b div 16) mod 16 * 16 + (b mod 16 * 4 + c div 64) div 4 = b"
    "(b mod 16 * 4 + c div 64) mod 4 * 64 + c mod 64 = c"
proof -
  have d: "b div 16 < 16" "c div 64 < 4" using assms by linarith+
  have "(a mod 4 * 16 + b div 16) div 16 = a mod 4" "(a mod 4 * 16 + b div 16) mod 16 = b div 16"
    "(b mod 16 * 4 + c div 64) div 4 = b mod 16" "(b mod 16 * 4 + c div 64) mod 4 = c div 64" using d by simp_all
  then show "a div 4 * 4 + (a mod 4 * 16 + b div 16) div 16 = a" "(a mod 4 * 16 + b div 16) mod 16 * 16 + (b mod 16 * 4 + c div 64) div 4 = b"
    "(b mod 16 * 4 + c div 64) mod 4 * 64 + c mod 64 = c" by simp_all
qed

lemma b64_decode_encode: "\<forall>b\<in>set bs. b < 256 \<Longrightarrow> b64_decode (b64_encode bs) = Some bs"
proof (induction bs rule: b64_encode.induct)
  case (2 a)
  then show ?case by simp
next
  case (3 a b)
  then have "a < 256" "b < 256" by simp_all
  moreover have "b64_char (b mod 16 * 4) \<noteq> CHR ''=''" using b64_char_plain [of "b mod 16 * 4"] by simp
  ultimately show ?case using octets(1,2) [where a = a and b = b and c = 0] by simp
next
  case (4 a b c bs)
  then have n: "a < 256" "b < 256" "c < 256" "b64_decode (b64_encode bs) = Some bs" by simp_all
  moreover have "b64_char (c mod 64) \<noteq> CHR ''=''" using b64_char_plain [of "c mod 64"] by simp
  ultimately show ?case using octets(1,2) [where a = a and b = b and c = c] octets(3) [where b = b and c = c] by simp
qed simp

lemma b64_encode_chars: "\<forall>b\<in>set bs. b < 256 \<Longrightarrow> set (b64_encode bs) \<inter> {CHR 0x0A, CHR 0x0D, CHR '':''} = {}"
proof (induction bs rule: b64_encode.induct)
  case (2 a)
  then show ?case using b64_char_plain [of "a div 4"] b64_char_plain [of "a mod 4 * 16"] by simp
next
  case (3 a b)
  then show ?case using b64_char_plain [of "a div 4"] b64_char_plain [of "a mod 4 * 16 + b div 16"] b64_char_plain [of "b mod 16 * 4"] by simp
next
  case (4 a b c bs)
  then show ?case
    using b64_char_plain [of "a div 4"] b64_char_plain [of "a mod 4 * 16 + b div 16"] b64_char_plain [of "b mod 16 * 4 + c div 64"] b64_char_plain [of "c mod 64"] by simp
qed simp

lemma bytes_of_lt: "b \<in> set (bytes_of s) \<Longrightarrow> b < 256"
  by (auto simp: bytes_of_def)

lemma DecodeString_EncodeToString: "DecodeString (EncodeToString s) = Some s"
proof -
  have "filter (\<lambda>c. c \<noteq> CHR 0x0A \<and> c \<noteq> CHR 0x0D) (EncodeToString s) = EncodeToString s"
    using b64_encode_chars [of "bytes_of s"] bytes_of_lt [of _ s] unfolding EncodeToString_def by (intro filter_True) blast
  then show ?thesis using b64_decode_encode [of "bytes_of s"] bytes_of_lt [of _ s] by (simp add: DecodeString_def EncodeToString_def bytes_of_def o_def)
qed

lemma EncodeToString_no_colon: "CHR '':'' \<notin> set (EncodeToString s)"
  using b64_encode_chars [of "bytes_of s"] bytes_of_lt [of _ s] unfolding EncodeToString_def by blast

end
