(* ===== verification/Pgp_Verify.thy ===== *)
theory Pgp_Verify
  imports Address Module_Api Go_Lib
begin

text \<open>
  Model of \<^verbatim>\<open>internal/pgp_verify/pgp_verify.go\<close>: which messages the server accepts. A message must be
  encrypted, that is a \<open>multipart/encrypted\<close> message whose second part is an OpenPGP message of session key
  packets and one encrypted data packet, or a step of the Secure-Join handshake.

  Bytes are numbers in the packet scanner and characters elsewhere. The scanner walks over the payload by index, as the code does; bit masks
  are written as quotients and remainders. The MIME libraries are the fields of \<open>mime_lib\<close>: reading a
  multipart body is the list of its parts and how the list ends; a part is its \<open>Content-Type\<close> and the result of reading it.
\<close>

section \<open>The packet scanner\<close>

text \<open>The loop over partial body lengths; \<open>None\<close> is \<open>return false\<close>.\<close>

function skip_partial :: "nat list \<Rightarrow> nat \<Rightarrow> nat option" where
  "skip_partial p i =
     (if i < length p \<and> 224 \<le> p ! i \<and> p ! i < 255 then
        let i' = i + (1 + 2 ^ (p ! i mod 32)) in
        if length p \<le> i' then None else skip_partial p i'
      else Some i)"
  by pat_completeness auto
termination
  by (relation "measure (\<lambda>(p, i). length p - i)") auto

declare skip_partial.simps [simp del]

text \<open>The final length: the number of bytes of the body and the index after the length.\<close>

definition read_length :: "nat list \<Rightarrow> nat \<Rightarrow> (nat \<times> nat) option" where
  "read_length p i =
     (if p ! i < 192 then Some (p ! i, i + 1)
      else if p ! i < 224 then
        (if length p \<le> i + 1 then None else Some ((p ! i - 192) * 2 ^ 8 + p ! (i + 1) + 192, i + 2))
      else if p ! i = 255 then
        (if length p \<le> i + 4 then None
         else Some (p ! (i + 1) * 2 ^ 24 + p ! (i + 2) * 2 ^ 16 + p ! (i + 3) * 2 ^ 8 + p ! (i + 4), i + 5))
      else None)"

definition read_packet :: "nat list \<Rightarrow> nat \<Rightarrow> (nat \<times> nat) option" where
  "read_packet p i =
     (if p ! i div 64 \<noteq> 3 \<or> length p \<le> i + 1 then None
      else case skip_partial p (i + 1) of
        None \<Rightarrow> None
      | Some j \<Rightarrow> map_option (\<lambda>(n, j). (p ! i mod 64, j + n)) (read_length p j))"

lemma skip_partial_ge: "skip_partial p i = Some j \<Longrightarrow> i \<le> j"
proof (induction p i rule: skip_partial.induct)
  case (1 p i)
  then show ?case using skip_partial.simps [of p i] by (fastforce simp: Let_def split: if_splits)
qed

lemma read_length_ge: "read_length p i = Some (n, j) \<Longrightarrow> i < j"
  by (auto simp: read_length_def split: if_splits)

lemma read_packet_ge: "read_packet p i = Some (t, j) \<Longrightarrow> i < j"
  by (auto simp: read_packet_def dest!: skip_partial_ge read_length_ge split: if_splits option.splits)

function packets_loop :: "nat list \<Rightarrow> nat \<Rightarrow> bool" where
  "packets_loop p i =
     (if i < length p then
        (case read_packet p i of
           None \<Rightarrow> False
         | Some (packetTypeID, i') \<Rightarrow>
             if i' = length p then packetTypeID = 18
             else if packetTypeID \<noteq> 1 \<and> packetTypeID \<noteq> 3 then False
             else packets_loop p i')
      else False)"
  by pat_completeness auto
termination
  by (relation "measure (\<lambda>(p, i). length p - i)") (auto dest!: read_packet_ge)

declare packets_loop.simps [simp del]

definition isEncryptedOpenPGPPayload :: "nat list \<Rightarrow> bool" where
  "isEncryptedOpenPGPPayload payload = (if payload = [] then False else packets_loop payload 0)"

definition armor_header :: string where
  "armor_header = ''-----BEGIN PGP MESSAGE-----''"

definition armor_footer :: string where
  "armor_footer = ''-----END PGP MESSAGE-----''"

abbreviation "LF \<equiv> CHR 0x0A"
abbreviation "CR \<equiv> CHR 0x0D"

definition isValidEncryptedPayload :: "string \<Rightarrow> bool" where
  "isValidEncryptedPayload payload =
     (let p = TrimSpace payload in
      if HasPrefix p armor_header \<and> HasSuffix p armor_footer then
        (case (case cut_at [LF, LF] p of Some ab \<Rightarrow> Some ab | None \<Rightarrow> cut_at [CR, LF, CR, LF] p) of
           None \<Rightarrow> False
         | Some (_, b64WithFooter) \<Rightarrow>
             (case before_last armor_footer b64WithFooter of
                None \<Rightarrow> False
              | Some b64Content \<Rightarrow>
                  let b64Content =
                        (case before_last [LF, CHR ''=''] b64Content of
                           Some a \<Rightarrow> a
                         | None \<Rightarrow> (case before_last [CR, LF, CHR ''=''] b64Content of Some a \<Rightarrow> a | None \<Rightarrow> b64Content));
                      b64Encoded = filter (\<lambda>c. c \<noteq> LF \<and> c \<noteq> CR \<and> c \<noteq> CHR '' '') b64Content
                  in (case b64_decode b64Encoded of None \<Rightarrow> False | Some bs \<Rightarrow> isEncryptedOpenPGPPayload bs)))
      else isEncryptedOpenPGPPayload (bytes_of p))"

section \<open>Messages\<close>

record mime_part =
  mp_ContentType :: string
  mp_Data :: "goerr + string"

datatype parts_end = PartsEOF | PartsErr goerr

record mime_lib =
  ml_Get :: "header \<Rightarrow> string \<Rightarrow> string"
  ParseMediaType :: "string \<Rightarrow> goerr + (string \<times> string)"
  ReadParts :: "string \<Rightarrow> string \<Rightarrow> mime_part list \<times> parts_end"

text \<open>\<open>ParseMediaType\<close> returns the type and the boundary parameter; \<open>ReadParts\<close> takes boundary and body.\<close>

fun encrypted_parts :: "textlib \<Rightarrow> nat \<Rightarrow> mime_part list \<Rightarrow> parts_end \<Rightarrow> goerr + bool" where
  "encrypted_parts tx partsCount [] (PartsErr e) = Inl e"
| "encrypted_parts tx partsCount [] PartsEOF = Inr (partsCount = 2)"
| "encrypted_parts tx partsCount (part # parts) fin =
     (if partsCount = 0 then
        if \<not> HasPrefix (ToLower tx (mp_ContentType part)) ''application/pgp-encrypted'' then Inr False
        else (case mp_Data part of
                Inl e \<Rightarrow> Inl e
              | Inr partBody \<Rightarrow>
                  if TrimSpace partBody \<noteq> ''Version: 1'' then Inr False
                  else encrypted_parts tx (partsCount + 1) parts fin)
      else if partsCount = 1 then
        if \<not> HasPrefix (ToLower tx (mp_ContentType part)) ''application/octet-stream'' then Inr False
        else (case mp_Data part of
                Inl e \<Rightarrow> Inl e
              | Inr partBody \<Rightarrow>
                  if \<not> isValidEncryptedPayload partBody then Inr False
                  else encrypted_parts tx (partsCount + 1) parts fin)
      else Inr False)"

definition IsValidEncryptedMessage :: "textlib \<Rightarrow> mime_lib \<Rightarrow> string \<Rightarrow> string \<Rightarrow> goerr + bool" where
  "IsValidEncryptedMessage tx ml contentType body =
     (case ParseMediaType ml contentType of
        Inl e \<Rightarrow> Inl e
      | Inr (mediatype, boundary) \<Rightarrow>
          if mediatype \<noteq> ''multipart/encrypted'' then Inr False
          else (case ReadParts ml boundary body of (parts, fin) \<Rightarrow> encrypted_parts tx 0 parts fin))"

fun join_parts :: "textlib \<Rightarrow> nat \<Rightarrow> mime_part list \<Rightarrow> parts_end \<Rightarrow> bool" where
  "join_parts tx partsFound [] (PartsErr e) = False"
| "join_parts tx partsFound [] PartsEOF = (partsFound \<ge> 1)"
| "join_parts tx partsFound (part # parts) fin =
     (if partsFound + 1 = 1 then
        if \<not> HasPrefix (ToLower tx (mp_ContentType part)) ''text/plain'' then False
        else (case mp_Data part of
                Inl e \<Rightarrow> False
              | Inr partBody \<Rightarrow>
                  if \<not> HasPrefix (ToLower tx (TrimSpace (take 8192 partBody))) ''secure-join:'' then False
                  else join_parts tx (partsFound + 1) parts fin)
      else join_parts tx (partsFound + 1) parts fin)"

definition IsSecureJoinMessage :: "textlib \<Rightarrow> mime_lib \<Rightarrow> header \<Rightarrow> string \<Rightarrow> bool" where
  "IsSecureJoinMessage tx ml hdr body =
     (let secureJoinHeader = ToLower tx (TrimSpace (ml_Get ml hdr ''Secure-Join''));
          contentType = ml_Get ml hdr ''Content-Type''
      in if \<not> HasPrefix secureJoinHeader ''vc-'' \<and> \<not> HasPrefix secureJoinHeader ''vg-'' then False
         else if \<not> HasPrefix (ToLower tx contentType) ''multipart/'' then False
         else (case ParseMediaType ml contentType of
                 Inl e \<Rightarrow> False
               | Inr (mediatype, boundary) \<Rightarrow>
                   if mediatype \<noteq> ''multipart/mixed'' \<and> mediatype \<noteq> ''multipart/alternative'' then False
                   else (case ReadParts ml boundary body of (parts, fin) \<Rightarrow> join_parts tx 0 parts fin)))"

definition IsAcceptedMessage :: "textlib \<Rightarrow> mime_lib \<Rightarrow> header \<Rightarrow> goerr + string \<Rightarrow> goerr + bool" where
  "IsAcceptedMessage tx ml hdr body =
     (case body of
        Inl e \<Rightarrow> Inl e
      | Inr bodyData \<Rightarrow>
          (case IsValidEncryptedMessage tx ml (ml_Get ml hdr ''Content-Type'') bodyData of
             Inl e \<Rightarrow> Inl e
           | Inr isEncrypted \<Rightarrow> if isEncrypted then Inr True else Inr (IsSecureJoinMessage tx ml hdr bodyData)))"

section \<open>The grammar of OpenPGP messages\<close>

text \<open>RFC 4880 in the new format: a packet has a tag, a body that is cut into partial chunks and a last one, and an encrypted message
  is a sequence of session key packets (tags 1 and 3) followed by one integrity protected data packet (tag 18).\<close>

inductive length_octets :: "nat list \<Rightarrow> nat \<Rightarrow> bool" where
  one_octet: "a < 192 \<Longrightarrow> length_octets [a] a"
| two_octets: "192 \<le> a \<Longrightarrow> a < 224 \<Longrightarrow> length_octets [a, b] ((a - 192) * 2 ^ 8 + b + 192)"
| five_octets: "length_octets [255, a, b, c, d] (a * 2 ^ 24 + b * 2 ^ 16 + c * 2 ^ 8 + d)"

inductive pgp_body :: "nat list \<Rightarrow> bool" where
  last_chunk: "length_octets l (length d) \<Longrightarrow> pgp_body (l @ d)"
| partial_chunk: "224 \<le> a \<Longrightarrow> a < 255 \<Longrightarrow> length d = 2 ^ (a mod 32) \<Longrightarrow> pgp_body r \<Longrightarrow> pgp_body (a # d @ r)"

definition pgp_packet :: "nat \<Rightarrow> nat list \<Rightarrow> bool" where
  "pgp_packet t bs \<longleftrightarrow> (\<exists>a r. bs = a # r \<and> a div 64 = 3 \<and> a mod 64 = t \<and> pgp_body r)"

inductive pgp_encrypted :: "nat list \<Rightarrow> bool" where
  data_packet: "pgp_packet 18 bs \<Longrightarrow> pgp_encrypted bs"
| key_packet: "pgp_packet t bs \<Longrightarrow> t = 1 \<or> t = 3 \<Longrightarrow> pgp_encrypted r \<Longrightarrow> pgp_encrypted (bs @ r)"

subsection \<open>The scanner accepts the grammar\<close>

lemma length_octets_nonempty: "length_octets l n \<Longrightarrow> l \<noteq> []"
  by (auto elim: length_octets.cases)

lemma pgp_body_nonempty: "pgp_body bs \<Longrightarrow> bs \<noteq> []"
  by (auto elim!: pgp_body.cases dest: length_octets_nonempty)

lemma read_length_octets:
  "length_octets l n \<Longrightarrow> read_length (pre @ l @ suf) (length pre) = Some (n, length pre + length l)"
  by (erule length_octets.cases) (auto simp: read_length_def nth_append)

lemma length_octets_first: "length_octets l n \<Longrightarrow> l ! 0 < 224 \<or> l ! 0 = 255"
  by (auto elim!: length_octets.cases)

lemma read_body:
  "pgp_body bs \<Longrightarrow>
   \<exists>j n k. skip_partial (pre @ bs @ suf) (length pre) = Some j \<and> read_length (pre @ bs @ suf) j = Some (n, k) \<and>
     k + n = length pre + length bs"
proof (induction bs arbitrary: pre rule: pgp_body.induct)
  case (last_chunk l d)
  have "(pre @ (l @ d) @ suf) ! length pre = l ! 0" using length_octets_nonempty [OF last_chunk] by (cases l) (auto simp: nth_append)
  then have "skip_partial (pre @ (l @ d) @ suf) (length pre) = Some (length pre)"
    using length_octets_first [OF last_chunk] by (subst skip_partial.simps) auto
  with read_length_octets [OF last_chunk, of pre "d @ suf"] show ?case by auto
next
  case (partial_chunk a d r)
  let ?p = "pre @ (a # d @ r) @ suf"
  have e: "(pre @ a # d) @ r @ suf = ?p" "length (pre @ a # d) = length pre + (1 + 2 ^ (a mod 32))" using partial_chunk(3) by auto
  have "skip_partial ?p (length pre) = skip_partial ?p (length (pre @ a # d))"
    using partial_chunk(1-3) pgp_body_nonempty [OF partial_chunk(4)] by (subst skip_partial.simps) (auto simp: Let_def)
  with partial_chunk.IH [of "pre @ a # d"] show ?case unfolding e(1) using partial_chunk(3) by auto
qed

lemma read_pgp_packet:
  assumes "pgp_packet t bs"
  shows "read_packet (pre @ bs @ suf) (length pre) = Some (t, length pre + length bs)"
proof -
  obtain a r where a: "bs = a # r" "a div 64 = 3" "a mod 64 = t" "pgp_body r" using assms by (auto simp: pgp_packet_def)
  obtain j n k where "skip_partial ((pre @ [a]) @ r @ suf) (length (pre @ [a])) = Some j"
    "read_length ((pre @ [a]) @ r @ suf) j = Some (n, k)" "k + n = length (pre @ [a]) + length r"
    using read_body [OF a(4), of "pre @ [a]" suf] by blast
  with a pgp_body_nonempty [OF a(4)] show ?thesis by (auto simp: read_packet_def nth_append)
qed

lemma pgp_encrypted_nonempty: "pgp_encrypted bs \<Longrightarrow> bs \<noteq> []"
  by (induction rule: pgp_encrypted.induct) (auto simp: pgp_packet_def)

lemma packets_loop_complete: "pgp_encrypted bs \<Longrightarrow> packets_loop (pre @ bs) (length pre)"
proof (induction bs arbitrary: pre rule: pgp_encrypted.induct)
  case (data_packet bs)
  then have "bs \<noteq> []" by (auto simp: pgp_packet_def)
  with read_pgp_packet [OF data_packet, of pre "[]"] show ?case by (subst packets_loop.simps) simp
next
  case (key_packet t bs r)
  have "bs \<noteq> []" "r \<noteq> []" using key_packet(1) pgp_encrypted_nonempty [OF key_packet(3)] by (auto simp: pgp_packet_def)
  with read_pgp_packet [OF key_packet(1), of pre r] key_packet(2) key_packet.IH [of "pre @ bs"] show ?case
    by (subst packets_loop.simps) auto
qed

subsection \<open>The scanner accepts nothing else\<close>

lemma read_length_sound:
  assumes "i < length p" "read_length p i = Some (n, k)" "k + n \<le> length p"
  shows "length_octets (take (k - i) (drop i p)) n" "i < k"
proof -
  have d: "drop i p = p ! i # drop (i + 1) p" using assms(1) by (simp add: Cons_nth_drop_Suc)
  consider "p ! i < 192" | "192 \<le> p ! i" "p ! i < 224" | "p ! i = 255"
    using assms(2) by (auto simp: read_length_def split: if_splits)
  then show "length_octets (take (k - i) (drop i p)) n"
  proof cases
    case 1
    then show ?thesis using assms(2) d by (auto simp: read_length_def intro: one_octet)
  next
    case 2
    have "drop (i + 1) p = p ! (i + 1) # drop (i + 2) p" using 2 assms(2) by (auto simp: read_length_def Cons_nth_drop_Suc split: if_splits)
    with 2 d two_octets [of "p ! i" "p ! (i + 1)"] assms(2) show ?thesis by (auto simp: read_length_def numeral_2_eq_2 split: if_splits)
  next
    case 3
    then have l: "i + 4 < length p" "k = i + 5" "n = p ! (i + 1) * 2 ^ 24 + p ! (i + 2) * 2 ^ 16 + p ! (i + 3) * 2 ^ 8 + p ! (i + 4)"
      using assms(2) by (auto simp: read_length_def split: if_splits)
    have "take 5 (drop i p) = [255, p ! (i + 1), p ! (i + 2), p ! (i + 3), p ! (i + 4)]"
      using l(1) 3 by (auto simp: list_eq_iff_nth_eq nth_Cons numeral_eq_Suc split: nat.splits)
    with l five_octets show ?thesis by simp
  qed
  show "i < k" using read_length_ge [OF assms(2)] .
qed

lemma read_body_sound:
  "skip_partial p i = Some j \<Longrightarrow> read_length p j = Some (n, k) \<Longrightarrow> i < length p \<Longrightarrow> k + n \<le> length p \<Longrightarrow>
   pgp_body (take (k + n - i) (drop i p))"
proof (induction p i rule: skip_partial.induct)
  case (1 p i)
  show ?case
  proof (cases "224 \<le> p ! i \<and> p ! i < 255")
    case True
    let ?c = "2 ^ (p ! i mod 32)" and ?i = "i + (1 + 2 ^ (p ! i mod 32))"
    have s: "\<not> length p \<le> ?i" "skip_partial p ?i = Some j" using 1(2,4) True by (subst (asm) skip_partial.simps; auto simp: Let_def split: if_splits)+
    have b: "pgp_body (take (k + n - ?i) (drop ?i p))" using 1(1) [OF _ refl s(1,2)] 1(3-5) True s(1) by simp
    have ij: "?i \<le> j" "j < k" using skip_partial_ge [OF s(2)] read_length_ge [OF 1(3)] by auto
    have "take (k + n - i) (drop i p) = p ! i # take ?c (drop (i + 1) p) @ take (k + n - ?i) (drop ?i p)"
    proof -
      have "drop i p = p ! i # drop (i + 1) p" using 1(4) by (simp add: Cons_nth_drop_Suc)
      moreover have "k + n - i = Suc (?c + (k + n - ?i))" using ij by simp
      moreover have "drop ?i p = drop ?c (drop (i + 1) p)" by (simp add: add.commute)
      ultimately show ?thesis by (simp only: take_Suc_Cons take_add)
    qed
    moreover have "length (take ?c (drop (i + 1) p)) = ?c" using s(1) by simp
    ultimately show ?thesis using partial_chunk True b by metis
  next
    case False
    then have "j = i" using 1(2) by (subst (asm) skip_partial.simps) (auto split: if_splits)
    with read_length_sound [OF 1(4) _ 1(5)] 1(3) have l: "length_octets (take (k - i) (drop i p)) n" "i < k" by auto
    have "take (k + n - i) (drop i p) = take (k - i) (drop i p) @ take n (drop k p)"
      using l(2) take_add [of "k - i" n "drop i p"] by (simp add: add.commute)
    moreover have "length (take n (drop k p)) = n" using 1(5) by simp
    ultimately show ?thesis using last_chunk [of "take (k - i) (drop i p)" "take n (drop k p)"] l(1) by simp
  qed
qed

lemma read_packet_sound:
  assumes "read_packet p i = Some (t, k)" "i < length p" "k \<le> length p"
  shows "pgp_packet t (take (k - i) (drop i p))"
proof -
  obtain j n m where j: "p ! i div 64 = 3" "i + 1 < length p" "skip_partial p (i + 1) = Some j" "read_length p j = Some (n, m)"
    "t = p ! i mod 64" "k = m + n"
    using assms(1) by (auto simp: read_packet_def split: if_splits option.splits)
  have "pgp_body (take (k - (i + 1)) (drop (i + 1) p))" using read_body_sound [OF j(3,4,2)] assms(3) j(6) by simp
  moreover have "take (k - i) (drop i p) = p ! i # take (k - (i + 1)) (drop (i + 1) p)"
    using assms(2) read_packet_ge [OF assms(1)] by (simp add: Cons_nth_drop_Suc [symmetric] take_Cons' )
  ultimately show ?thesis using j by (simp add: pgp_packet_def)
qed

lemma packets_loop_sound: "packets_loop p i \<Longrightarrow> pgp_encrypted (drop i p)"
proof (induction p i rule: packets_loop.induct)
  case (1 p i)
  obtain t k where t: "i < length p" "read_packet p i = Some (t, k)" "k = length p \<and> t = 18 \<or> k \<noteq> length p \<and> (t = 1 \<or> t = 3) \<and> packets_loop p k"
    using 1(2) by (subst (asm) packets_loop.simps) (auto split: if_splits option.splits)
  show ?case
  proof (cases "k = length p")
    case True
    with t read_packet_sound [OF t(2,1)] show ?thesis by (auto intro: data_packet)
  next
    case False
    with t have k: "t = 1 \<or> t = 3" "packets_loop p k" by auto
    then have "k \<le> length p" using packets_loop.simps [of p k] by (auto split: if_splits)
    with read_packet_sound [OF t(2,1)] have "pgp_packet t (take (k - i) (drop i p))" by blast
    moreover have "pgp_encrypted (drop k p)" using 1(1) [OF t(1,2) refl False _ k(2)] k(1) by auto
    moreover have "drop i p = take (k - i) (drop i p) @ drop k p"
      using read_packet_ge [OF t(2)] by (metis add.commute append_take_drop_id drop_drop le_add_diff_inverse2 less_imp_le)
    ultimately show ?thesis using key_packet k(1) by metis
  qed
qed

section \<open>Armor\<close>

lemma before_last_short: "length s < length sep \<Longrightarrow> before_last sep s = None"
  by (induction s) (auto simp: HasPrefix_def)

lemma before_last_end: "sep \<noteq> [] \<Longrightarrow> before_last sep (a @ sep) = Some a"
proof (induction a)
  case Nil
  then show ?case by (cases sep) (auto simp: before_last_short HasPrefix_def)
qed simp

lemma before_last_crc: "LF \<notin> set crc \<Longrightarrow> before_last [LF, CHR ''=''] (a @ [LF, CHR ''=''] @ crc @ [LF]) = Some a"
proof -
  assume c: "LF \<notin> set crc"
  then have "before_last [LF, CHR ''=''] (crc @ [LF]) = None" by (induction crc) (auto simp: HasPrefix_def)
  then have "before_last [LF, CHR ''=''] ([LF, CHR ''=''] @ crc @ [LF]) = Some []" by (simp add: HasPrefix_def)
  then show ?thesis by (induction a) auto
qed

lemma cut_at_first: "hd sep \<notin> set h \<Longrightarrow> sep \<noteq> [] \<Longrightarrow> cut_at sep (h @ sep @ r) = Some (h, r)"
proof (induction h)
  case Nil
  then show ?case by (cases sep) (auto simp: HasPrefix_def)
next
  case (Cons c h)
  then have "\<not> HasPrefix (c # h @ sep @ r) sep" by (cases sep) (auto simp: HasPrefix_def)
  with Cons show ?case by simp
qed

lemma space_bytes:
  "list_all (\<lambda>r. encode_bytes r \<noteq> [] \<and> hd (encode_bytes r) < 256 \<and> hd (encode_bytes r) \<notin> {45, 0xD2, 86} \<and>
     last (encode_bytes r) < 256 \<and> last (encode_bytes r) \<notin> {45, 1, 49}) space_runes"
  by (simp add: space_runes_def encode_bytes_def valid_rune_def)

lemma char_of_neq: "n < 256 \<Longrightarrow> n \<noteq> of_char c \<Longrightarrow> (char_of (n :: nat) :: char) \<noteq> c"
proof
  assume n: "n < 256" "n \<noteq> of_char c" and "(char_of n :: char) = c"
  then have "of_char (char_of n :: char) = (of_char c :: nat)" by simp
  with n show False by simp
qed

lemma space_encodings:
  assumes "e \<in> set (map encode_rune space_runes)"
  shows "e \<noteq> []" "of_char c \<in> {45 :: nat, 0xD2, 86} \<Longrightarrow> hd e \<noteq> c" "of_char c \<in> {45 :: nat, 1, 49} \<Longrightarrow> last e \<noteq> c"
proof -
  obtain r where r: "r \<in> set space_runes" "e = map char_of (encode_bytes r)" using assms by (auto simp: encode_rune_def)
  then have b: "encode_bytes r \<noteq> []" "hd (encode_bytes r) < 256" "hd (encode_bytes r) \<notin> {45, 0xD2, 86}"
    "last (encode_bytes r) < 256" "last (encode_bytes r) \<notin> {45, 1, 49}" using space_bytes by (auto simp: list_all_iff)
  then show "e \<noteq> []" using r by simp
  have l: "hd e = char_of (hd (encode_bytes r))" "last e = char_of (last (encode_bytes r))" using b(1) r(2) by (simp_all add: list.map_sel last_map)
  show "hd e \<noteq> c" if "of_char c \<in> {45 :: nat, 0xD2, 86}" unfolding l by (rule char_of_neq) (use b that in metis)+
  show "last e \<noteq> c" if "of_char c \<in> {45 :: nat, 1, 49}" unfolding l by (rule char_of_neq) (use b that in metis)+
qed

lemma trim_left_id:
  assumes "\<forall>e \<in> set encs. e \<noteq> [] \<longrightarrow> hd e \<noteq> c"
  shows "trim_left encs (c # s) = c # s"
proof -
  have "\<not> (e \<noteq> [] \<and> HasPrefix (c # s) e)" if "e \<in> set encs" for e
    using assms that by (cases e) (auto simp: HasPrefix_def)
  then have "find (\<lambda>e. e \<noteq> [] \<and> HasPrefix (c # s) e) encs = None" by (simp add: find_None_iff)
  then show ?thesis by (subst trim_left.simps) simp
qed

lemma TrimSpace_id:
  assumes "of_char c \<in> {45 :: nat, 0xD2, 86}" "of_char d \<in> {45 :: nat, 1, 49}"
  shows "TrimSpace (c # s @ [d]) = c # s @ [d]"
proof -
  have "trim_left (map encode_rune space_runes) (c # s @ [d]) = c # s @ [d]"
    by (rule trim_left_id) (use space_encodings(2) [OF _ assms(1)] in simp)
  moreover have "trim_left (map rev (map encode_rune space_runes)) (d # rev s @ [c]) = d # rev s @ [c]"
  proof (rule trim_left_id, intro ballI impI)
    fix e assume "e \<in> set (map rev (map encode_rune space_runes))"
    then obtain e' where "e' \<in> set (map encode_rune space_runes)" "e = rev e'" by auto
    then show "hd e \<noteq> d" using space_encodings(1) [of e'] space_encodings(3) [OF _ assms(2), of e'] by (simp add: hd_rev)
  qed
  ultimately show ?thesis by (simp add: TrimSpace_def)
qed

lemmas TrimSpace_dashes = TrimSpace_id [of "CHR ''-''" "CHR ''-''", simplified]

lemma isEncryptedOpenPGPPayload_grammar: "isEncryptedOpenPGPPayload p \<longleftrightarrow> pgp_encrypted p"
  using packets_loop_sound [of p 0] packets_loop_complete [of p "[]"] pgp_encrypted_nonempty [of p]
  by (auto simp: isEncryptedOpenPGPPayload_def)

section \<open>Accepted messages\<close>

text \<open>An encrypted message in the sense of RFC 3156: exactly two parts, of which the second is an OpenPGP message.\<close>

definition pgp_mime :: "mime_lib \<Rightarrow> string \<Rightarrow> string \<Rightarrow> bool" where
  "pgp_mime ml contentType body \<longleftrightarrow>
     (\<exists>bd p1 p2 v d. ParseMediaType ml contentType = Inr (''multipart/encrypted'', bd) \<and>
        ReadParts ml bd body = ([p1, p2], PartsEOF) \<and> mp_Data p1 = Inr v \<and> TrimSpace v = ''Version: 1'' \<and>
        mp_Data p2 = Inr d \<and> isValidEncryptedPayload d)"

lemma encrypted_parts_0: "encrypted_parts tx 0 parts fin = Inr True \<Longrightarrow>
   fin = PartsEOF \<and> (\<exists>p1 p2 v d. parts = [p1, p2] \<and> mp_Data p1 = Inr v \<and> TrimSpace v = ''Version: 1'' \<and> mp_Data p2 = Inr d \<and>
     isValidEncryptedPayload d)"
  by (cases parts; cases "tl parts"; cases "tl (tl parts)"; cases fin) (auto split: if_splits sum.splits)

lemma accepted_cases:
  assumes "IsAcceptedMessage tx ml hdr content = Inr True"
  obtains body where "content = Inr body" "pgp_mime ml (ml_Get ml hdr ''Content-Type'') body \<or> IsSecureJoinMessage tx ml hdr body"
  using assms encrypted_parts_0
  by (auto simp: IsAcceptedMessage_def IsValidEncryptedMessage_def pgp_mime_def split: sum.splits if_splits prod.splits)

lemma armored_grammar:
  assumes "\<forall>b \<in> set bs. b < 256" "filter (\<lambda>c. c \<noteq> LF \<and> c \<noteq> CR \<and> c \<noteq> CHR '' '') content = b64_encode bs" "LF \<notin> set crc"
  shows "isValidEncryptedPayload (armor_header @ [LF, LF] @ content @ [LF, CHR ''=''] @ crc @ [LF] @ armor_footer) \<longleftrightarrow> pgp_encrypted bs"
proof -
  let ?b = "content @ [LF, CHR ''=''] @ crc @ [LF]"
  let ?p = "armor_header @ [LF, LF] @ ?b @ armor_footer"
  have "?p = CHR ''-'' # (tl armor_header @ [LF, LF] @ ?b @ butlast armor_footer) @ ''-''"
    by (simp add: armor_header_def armor_footer_def)
  then have t: "TrimSpace ?p = ?p" using TrimSpace_dashes by metis
  have hs: "HasPrefix ?p armor_header" "HasSuffix ?p armor_footer" by (simp_all add: HasPrefix_def HasSuffix_def)
  have c: "cut_at [LF, LF] ?p = Some (armor_header, ?b @ armor_footer)"
    by (rule cut_at_first) (simp_all add: armor_header_def)
  have f: "before_last armor_footer (?b @ armor_footer) = Some ?b" by (rule before_last_end) (simp add: armor_footer_def)
  note crc = before_last_crc [OF assms(3), of content]
  have "isValidEncryptedPayload ?p \<longleftrightarrow> isEncryptedOpenPGPPayload bs"
    unfolding isValidEncryptedPayload_def Let_def t c using hs f crc assms(2) b64_decode_encode [OF assms(1)] by simp
  then show ?thesis by (simp add: isEncryptedOpenPGPPayload_grammar)
qed

lemma sample_armored:
  "isValidEncryptedPayload (armor_header @ [LF, LF] @ ''0gEK'' @ [LF, CHR ''=''] @ ''abcd'' @ [LF] @ armor_footer)"
proof -
  have "pgp_body ([1] @ [10])" by (rule last_chunk) (use one_octet [of 1] in simp)
  then have "pgp_encrypted [210, 1, 10]" by (intro data_packet) (simp add: pgp_packet_def)
  moreover have "b64_encode [210, 1, 10] = ''0gEK''" by code_simp
  ultimately show ?thesis using armored_grammar [of "[210, 1, 10]" "''0gEK''" "''abcd''"] by simp
qed

section \<open>Properties\<close>

text \<open>C38. The packet scanner decides the grammar: a payload passes exactly when it is a sequence of session key packets followed by
  one encrypted data packet that ends with the payload, for all length encodings including partial lengths.\<close>

theorem pgp_scanner_grammar: "isEncryptedOpenPGPPayload p \<longleftrightarrow> pgp_encrypted p"
  by (rule isEncryptedOpenPGPPayload_grammar)

text \<open>Armored messages: a payload in ASCII armor, with any line breaks in the base 64 text and any checksum line, passes exactly
  when the bytes it encodes are an encrypted message.\<close>

theorem armored_payload:
  assumes "\<forall>b \<in> set bs. b < 256" "filter (\<lambda>c. c \<noteq> LF \<and> c \<noteq> CR \<and> c \<noteq> CHR '' '') content = b64_encode bs" "LF \<notin> set crc"
  shows "isValidEncryptedPayload (armor_header @ [LF, LF] @ content @ [LF, CHR ''=''] @ crc @ [LF] @ armor_footer) \<longleftrightarrow> pgp_encrypted bs"
  using assms by (rule armored_grammar)

section \<open>Faults\<close>

text \<open>White space is taken away from binary payloads too: an encrypted message in binary form whose last byte is a line feed is refused.\<close>

definition binary_message :: string where
  "binary_message = [CHR 0xD2, CHR 0x01, CHR 0x0A]"

lemma binary_payload_trimmed: "pgp_encrypted (bytes_of binary_message) \<and> \<not> isValidEncryptedPayload binary_message"
proof -
  have b: "bytes_of binary_message = [210, 1, 10]" by (simp add: binary_message_def bytes_of_def)
  have "pgp_body ([1] @ [10])" by (rule last_chunk) (use one_octet [of 1] in simp)
  then have "pgp_encrypted [210, 1, 10]" by (intro data_packet) (simp add: pgp_packet_def)
  moreover have "\<not> isValidEncryptedPayload binary_message"
  proof -
    let ?encs = "map encode_rune space_runes"
    have "trim_left ?encs binary_message = binary_message"
      unfolding binary_message_def by (rule trim_left_id) (use space_encodings(2) [where c = "CHR 0xD2"] in simp)
    moreover have "trim_left (map rev ?encs) [CHR 0x01, CHR 0xD2] = [CHR 0x01, CHR 0xD2]"
    proof (rule trim_left_id, intro ballI impI)
      fix e assume "e \<in> set (map rev ?encs)"
      then obtain e' where "e' \<in> set ?encs" "e = rev e'" by auto
      then show "hd e \<noteq> CHR 0x01" using space_encodings(1) [of e'] space_encodings(3) [of e' "CHR 0x01"] by (simp add: hd_rev)
    qed
    moreover have "trim_left (map rev ?encs) [CHR 0x0A, CHR 0x01, CHR 0xD2] = trim_left (map rev ?encs) [CHR 0x01, CHR 0xD2]"
      by (subst trim_left.simps) (simp add: space_runes_def encode_rune_def encode_bytes_def valid_rune_def HasPrefix_def char_of_def bit_0 bit_Suc)
    ultimately have "TrimSpace binary_message = [CHR 0xD2, CHR 0x01]" by (simp add: TrimSpace_def binary_message_def)
    moreover have "\<not> isEncryptedOpenPGPPayload [0xD2, 1]" by code_simp
    ultimately show ?thesis by (simp add: isValidEncryptedPayload_def armor_header_def HasPrefix_def bytes_of_def)
  qed
  ultimately show ?thesis using b by simp
qed

end
