(* ===== verification/Smtp_Session.thy ===== *)
theory Smtp_Session
  imports Pgp_Verify Limits "HOL-Library.Multiset"
begin

text \<open>
  Model of the SMTP endpoint: \<^verbatim>\<open>internal/endpoint/smtp/session.go\<close>, \<^verbatim>\<open>submission.go\<close>,
  \<^verbatim>\<open>date.go\<close> and the sessions of \<^verbatim>\<open>smtp.go\<close>.

  A session is the object that \<^verbatim>\<open>go-smtp\<close> drives through its commands. It takes a place in the limits,
  starts a delivery on the message pipeline and finishes both. The pipeline is a delivery target in the sense of
  \<open>Module_Api\<close>, the limits are those of \<open>Limits\<close>; together with the number of sessions they are the world
  that all sessions share. What the network and the buffers yield is an argument of a command: the header or the
  error of parsing it, the buffer, its content. Log output, metrics, tracing and the lookup of the client's name are left out.
\<close>

section \<open>Data\<close>

record subm_lib =
  sl_Set :: "header \<Rightarrow> string \<Rightarrow> string \<Rightarrow> header"
  sl_FieldsByKey :: "header \<Rightarrow> string \<Rightarrow> string list"
  sl_ParseAddress :: "string \<Rightarrow> goerr option"
  sl_ParseAddressList :: "string \<Rightarrow> goerr + string list"
  sl_timeParse :: "string \<Rightarrow> string \<Rightarrow> bool"
  sl_EqualFold :: "string \<Rightarrow> string \<Rightarrow> bool"

text \<open>What the endpoint uses of \<^verbatim>\<open>go-smtp\<close>: two constants, and what its errors answer to \<open>Temporary\<close>.\<close>

record smtp_lib =
  lib_ErrAuthRequired :: goerr
  lib_EnhancedCodeNotSet :: ench
  lib_Temporary :: "int \<Rightarrow> bool option"

record 's endpoint =
  ep_authAlwaysRequired :: bool
  ep_submission :: bool
  ep_deferServerReject :: bool
  ep_maxLoggedRcptErrors :: int
  ep_maxReceived :: int
  ep_Domain :: string
  ep_text :: textlib
  ep_mime :: mime_lib
  ep_subm :: subm_lib
  ep_lib :: smtp_lib
  ep_pipeline :: "'s delivery_ops"

record 's smtp_world =
  sw_limits :: group
  sw_target :: 's
  sw_sessionCnt :: int

text \<open>\<open>sn_addr\<close> is the text of the address of the client, or 127.0.0.1 when it is no TCP address. \<open>sn_delivery\<close> tells whether the field
  \<open>delivery\<close> is set.\<close>

record session =
  sn_conn :: conn_state
  sn_addr :: string
  repeatedMailErrs :: int
  loggedRcptErrors :: int
  sn_mailFrom :: string
  sn_opts :: mail_options
  sn_msgMeta :: "msg_metadata option"
  sn_delivery :: bool
  deliveryErr :: "goerr option"
  sn_rcpts :: "string list"

type_synonym 's sstate = "session \<times> 's smtp_world"

definition no_opts :: mail_options where
  "no_opts = \<lparr>UTF8 = False, RequireTLS = False\<rparr>"

definition newSession :: "conn_state \<Rightarrow> string \<Rightarrow> session" where
  "newSession conn addr = \<lparr>sn_conn = conn, sn_addr = addr, repeatedMailErrs = 0, loggedRcptErrors = 0, sn_mailFrom = '''',
     sn_opts = no_opts, sn_msgMeta = None, sn_delivery = False, deliveryErr = None, sn_rcpts = []\<rparr>"

definition smtp_error :: "int \<Rightarrow> ench \<Rightarrow> string \<Rightarrow> goerr" where
  "smtp_error code ec msg =
     SMTPError \<lparr>Code = code, EnhancedCode = ec, Message = msg, CheckName = '''', TargetName = '''', ModifierName = '''',
       Reason = '''', Misc = Map.empty\<rparr> None"

section \<open>Errors\<close>

text \<open>\<open>errors.Is\<close> for the error of an expired context.\<close>

fun is_deadline :: "goerr \<Rightarrow> bool" where
  "is_deadline (Wrapf pre e) \<longleftrightarrow> is_deadline e"
| "is_deadline (TemporaryErr e b) \<longleftrightarrow> is_deadline e"
| "is_deadline (FieldsWrap e f) \<longleftrightarrow> is_deadline e"
| "is_deadline (SMTPError se c) \<longleftrightarrow> (case c of None \<Rightarrow> False | Some e \<Rightarrow> is_deadline e)"
| "is_deadline (Opaque msg t) \<longleftrightarrow> msg = ''context deadline exceeded''"
| "is_deadline (LibSMTPError c ec msg t) \<longleftrightarrow> False"

definition lib_error :: "smtp_lib \<Rightarrow> int \<Rightarrow> ench \<Rightarrow> string \<Rightarrow> goerr" where
  "lib_error lib code ec msg = LibSMTPError code ec msg (lib_Temporary lib code)"

definition mangle :: "bool \<Rightarrow> string \<Rightarrow> string" where
  "mangle mangleUTF8 msg =
     (if mangleUTF8 then encode_runes (map (\<lambda>ch. if 128 < ch then 0x3F else ch) (runes msg)) else msg)"

definition wrapErr :: "'s endpoint \<Rightarrow> string \<Rightarrow> bool \<Rightarrow> goerr \<Rightarrow> goerr" where
  "wrapErr ep msgId mangleUTF8 err =
     (if is_deadline err then lib_error (ep_lib ep) 451 (4, 4, 5) ''High load, try again later''
      else
        let code = (if IsTemporary (Some err) then 451 else 554);
            ctxInfo = Fields (Some err);
            code = (case ctxInfo ''smtp_code'' of Some (FInt c) \<Rightarrow> c | _ \<Rightarrow> code);
            ec = (case ctxInfo ''smtp_enchcode'' of Some (FEnch ec) \<Rightarrow> ec | _ \<Rightarrow> lib_EnhancedCodeNotSet (ep_lib ep));
            msg = (case ctxInfo ''smtp_msg'' of Some (FStr m) \<Rightarrow> m | _ \<Rightarrow> ''Internal server error'');
            (code, ec, msg) = (case err of LibSMTPError c e m t \<Rightarrow> (c, e, m) | _ \<Rightarrow> (code, ec, msg));
            msg = (if msgId \<noteq> '''' then msg @ '' (msg ID = '' @ msgId @ '')'' else msg)
        in lib_error (ep_lib ep) code ec (mangle mangleUTF8 msg))"

section \<open>The end of a transaction\<close>

definition releaseLimits :: "'s sstate \<Rightarrow> 's sstate outcome" where
  "releaseLimits st =
     (case st of (s, w) \<Rightarrow>
        (case (if sn_mailFrom s = '''' then ('''', '''', None) else Split (sn_mailFrom s)) of
           (_, _, Some e) \<Rightarrow> Return (s, w)
         | (_, domain, None) \<Rightarrow>
             (case sn_msgMeta s of
                None \<Rightarrow> nil_deref
              | Some _ \<Rightarrow> obind (ReleaseMsg (sn_addr s) domain (sw_limits w)) (\<lambda>g. Return (s, w\<lparr>sw_limits := g\<rparr>)))))"

definition cleanSession :: "'s sstate \<Rightarrow> 's sstate outcome" where
  "cleanSession st =
     obind (releaseLimits st) (\<lambda>(s, w).
       Return (s\<lparr>sn_mailFrom := '''', sn_opts := no_opts, sn_msgMeta := None, sn_delivery := False, deliveryErr := None,
         sn_rcpts := []\<rparr>, w))"

definition sess_abort :: "'s endpoint \<Rightarrow> 's sstate \<Rightarrow> 's sstate outcome" where
  "sess_abort ep st =
     (case st of (s, w) \<Rightarrow>
        (case dl_Abort (ep_pipeline ep) (sw_target w) of (t, _) \<Rightarrow>
           (case sn_msgMeta s of
              None \<Rightarrow> nil_deref
            | Some _ \<Rightarrow> cleanSession (s, w\<lparr>sw_target := t\<rparr>))))"

definition Reset :: "'s endpoint \<Rightarrow> 's sstate \<Rightarrow> 's sstate outcome" where
  "Reset ep st = (if sn_delivery (fst st) then sess_abort ep st else Return st)"

definition Logout :: "'s endpoint \<Rightarrow> 's sstate \<Rightarrow> 's sstate outcome" where
  "Logout ep st =
     obind (if sn_delivery (fst st) then sess_abort ep st else Return st) (\<lambda>(s, w).
       Return (s, w\<lparr>sw_sessionCnt := sw_sessionCnt w - 1\<rparr>))"

text \<open>\<open>early\<close> is the result of \<open>RunEarlyChecks\<close>.\<close>

definition NewSession ::
    "'s endpoint \<Rightarrow> conn_state \<Rightarrow> string \<Rightarrow> goerr option \<Rightarrow> 's smtp_world \<Rightarrow> ('s smtp_world \<times> (goerr + session)) outcome" where
  "NewSession ep conn addr early w =
     (let s = newSession conn addr in
      case early of
        Some e \<Rightarrow> obind (Logout ep (s, w)) (\<lambda>(s, w). Return (w, Inl (wrapErr ep '''' True e)))
      | None \<Rightarrow> Return (w\<lparr>sw_sessionCnt := sw_sessionCnt w + 1\<rparr>, Inr s))"

text \<open>\<open>auth\<close> is the result of the authentication provider.\<close>

definition AuthPlain :: "'s endpoint \<Rightarrow> string \<Rightarrow> goerr option \<Rightarrow> goerr option \<Rightarrow> session \<Rightarrow> session \<times> goerr option" where
  "AuthPlain ep username early auth s =
     (case early of
        Some e \<Rightarrow> (s, Some (wrapErr ep '''' True e))
      | None \<Rightarrow>
          (case auth of
             Some e \<Rightarrow>
               (s, Some (if IsTemporary (Some e) then lib_error (ep_lib ep) 454 (4, 7, 0) ''Temporary authentication failure''
                         else lib_error (ep_lib ep) 535 (5, 7, 8) ''Invalid credentials''))
           | None \<Rightarrow> (s\<lparr>sn_conn := (sn_conn s)\<lparr>AuthUser := username\<rparr>\<rparr>, None)))"

section \<open>MAIL and RCPT\<close>

definition sender_domain :: "string \<Rightarrow> goerr + string" where
  "sender_domain from =
     (if from = '''' then Inr '''' else case Split from of (_, _, Some e) \<Rightarrow> Inl e | (_, domain, None) \<Rightarrow> Inr domain)"

definition startDelivery ::
    "'s endpoint \<Rightarrow> take_env \<Rightarrow> goerr + string \<Rightarrow> string \<Rightarrow> mail_options \<Rightarrow> 's sstate \<Rightarrow> ('s sstate \<times> string \<times> goerr option) outcome" where
  "startDelivery ep te msgID from opts st =
     (case msgID of
        Inl e \<Rightarrow> Return (st, '''', Some e)
      | Inr mid \<Rightarrow>
          if \<not> UTF8 opts \<and> list_ex (\<lambda>ch. 128 < ch) (runes from) then
            Return (st, '''', Some (smtp_error 550 (5, 6, 7) ''SMTPUTF8 is required for non-ASCII senders''))
          else
            (case (if from = '''' then (from, None) else CleanDomain (ep_text ep) from) of
               (_, Some e) \<Rightarrow> Return (st, '''', Some (smtp_error 553 (5, 1, 7) ''Unable to normalize the sender address''))
             | (cleanFrom, None) \<Rightarrow>
                 (case sender_domain cleanFrom of
                    Inl e \<Rightarrow> Return (st, '''', Some e)
                  | Inr domain \<Rightarrow>
                      (case st of (s, w) \<Rightarrow>
                         obind (TakeMsg te (sn_addr s) domain (sw_limits w)) (\<lambda>(g, err).
                           let w = w\<lparr>sw_limits := g\<rparr> in
                           case err of
                             Some e \<Rightarrow> Return ((s, w), '''', Some e)
                           | None \<Rightarrow>
                               let meta = \<lparr>ID = mid, OriginalFrom = from, DontTraceSender = False, Quarantine = False,
                                     OriginalRcpts = Map.empty, SMTPOpts = opts, Conn = Some (sn_conn s), TLSRequireOverride = False\<rparr>
                               in (case dt_Start (ep_pipeline ep) (sw_target w) meta cleanFrom of
                                     (t, Some e) \<Rightarrow>
                                       obind (ReleaseMsg (sn_addr s) domain g) (\<lambda>g.
                                         Return ((s, w\<lparr>sw_limits := g, sw_target := t\<rparr>), mid, Some e))
                                   | (t, None) \<Rightarrow>
                                       Return ((s\<lparr>sn_msgMeta := Some meta, sn_mailFrom := cleanFrom, sn_delivery := True\<rparr>,
                                         w\<lparr>sw_target := t\<rparr>), mid, None)))))))"

definition Mail ::
    "'s endpoint \<Rightarrow> take_env \<Rightarrow> goerr + string \<Rightarrow> string \<Rightarrow> mail_options \<Rightarrow> 's sstate \<Rightarrow> ('s sstate \<times> goerr option) outcome" where
  "Mail ep te msgID from opts st =
     (if ep_authAlwaysRequired ep \<and> AuthUser (sn_conn (fst st)) = '''' then Return (st, Some (lib_ErrAuthRequired (ep_lib ep)))
      else
        obind (if ep_deferServerReject ep then Return (st, '''', None) else startDelivery ep te msgID from opts st) (\<lambda>((s, w), mid, err).
          case err of
            Some e \<Rightarrow> Return ((s, w), Some (wrapErr ep mid (\<not> UTF8 opts) e))
          | None \<Rightarrow> Return ((s\<lparr>sn_mailFrom := from, sn_opts := opts\<rparr>, w), None)))"

definition sess_rcpt :: "'s endpoint \<Rightarrow> string \<Rightarrow> 's sstate \<Rightarrow> 's sstate \<times> goerr option" where
  "sess_rcpt ep to st =
     (case st of (s, w) \<Rightarrow>
        if \<not> IsASCII to \<and> \<not> UTF8 (sn_opts s) then
          (st, Some (smtp_error 553 (5, 6, 7) ''SMTPUTF8 is required for non-ASCII recipients''))
        else
          (case CleanDomain (ep_text ep) to of
             (_, Some e) \<Rightarrow> (st, Some (smtp_error 501 (5, 1, 2) ''Unable to normalize the recipient address''))
           | (cleanTo, None) \<Rightarrow>
               (case dl_AddRcpt (ep_pipeline ep) (sw_target w) cleanTo of
                  (t, err) \<Rightarrow> ((s\<lparr>sn_rcpts := sn_rcpts s @ [cleanTo]\<rparr>, w\<lparr>sw_target := t\<rparr>), err))))"

text \<open>The second half of \<open>Rcpt\<close>, with a delivery.\<close>

definition add_rcpt :: "'s endpoint \<Rightarrow> string \<Rightarrow> 's sstate \<Rightarrow> ('s sstate \<times> goerr option) outcome" where
  "add_rcpt ep to st =
     (case sess_rcpt ep to st of
        (st, None) \<Rightarrow> (case sn_msgMeta (fst st) of None \<Rightarrow> nil_deref | Some _ \<Rightarrow> Return (st, None))
      | ((s, w), Some e) \<Rightarrow>
          (case sn_msgMeta s of
             None \<Rightarrow> nil_deref
           | Some meta \<Rightarrow>
               let s = (if loggedRcptErrors s < ep_maxLoggedRcptErrors ep then s\<lparr>loggedRcptErrors := loggedRcptErrors s + 1\<rparr> else s) in
               Return ((s, w), Some (wrapErr ep (ID meta) (\<not> UTF8 (sn_opts s)) e))))"

definition Rcpt ::
    "'s endpoint \<Rightarrow> take_env \<Rightarrow> goerr + string \<Rightarrow> string \<Rightarrow> 's sstate \<Rightarrow> ('s sstate \<times> goerr option) outcome" where
  "Rcpt ep te msgID to st =
     (case st of (s, w) \<Rightarrow>
        if sn_delivery s then add_rcpt ep to st
        else
          (case deliveryErr s of
             Some e \<Rightarrow> Return ((s\<lparr>repeatedMailErrs := repeatedMailErrs s + 1\<rparr>, w), Some e)
           | None \<Rightarrow>
               obind (startDelivery ep te msgID (sn_mailFrom s) (sn_opts s) st) (\<lambda>((s, w), mid, err).
                 case err of
                   Some e \<Rightarrow>
                     let e = wrapErr ep mid (\<not> UTF8 (sn_opts s)) e in
                     Return ((s\<lparr>deliveryErr := Some e\<rparr>, w), Some e)
                 | None \<Rightarrow> add_rcpt ep to (s, w))))"

section \<open>Submission\<close>

text \<open>\<open>commentRE\<close>: white space followed by a text in parentheses at the end, on one line.\<close>

definition comment_here :: "string \<Rightarrow> bool" where
  "comment_here s =
     (let r = dropWhile (\<lambda>c. c = CHR '' '' \<or> c = CHR 0x09) s in
      r \<noteq> s \<and> HasPrefix r ''('' \<and> HasSuffix (drop 1 r) '')'' \<and> LF \<notin> set r)"

fun strip_comment :: "string \<Rightarrow> string" where
  "strip_comment [] = []"
| "strip_comment (c # s) = (if comment_here (c # s) then [] else c # strip_comment s)"

definition dateTimeLayouts :: "string list" where
  "dateTimeLayouts =
     [''Mon, 02 Jan 2006 15:04:05 -0700'', ''_2 Jan 2006 15:04:05 -0700'', ''_2 Jan 2006 15:04:05 MST'', ''_2 Jan 2006 15:04 -0700'',
      ''_2 Jan 2006 15:04 MST'', ''_2 Jan 06 15:04:05 -0700'', ''_2 Jan 06 15:04:05 MST'', ''_2 Jan 06 15:04 -0700'',
      ''_2 Jan 06 15:04 MST'', ''Mon, _2 Jan 2006 15:04:05 -0700'', ''Mon, _2 Jan 2006 15:04:05 MST'', ''Mon, _2 Jan 2006 15:04 -0700'',
      ''Mon, _2 Jan 2006 15:04 MST'', ''Mon, _2 Jan 06 15:04:05 -0700'', ''Mon, _2 Jan 06 15:04:05 MST'', ''Mon, _2 Jan 06 15:04 -0700'',
      ''Mon, _2 Jan 06 15:04 MST'']"

definition parseMessageDateTime :: "subm_lib \<Rightarrow> string \<Rightarrow> goerr option" where
  "parseMessageDateTime sl maybeDate =
     (let d = strip_comment maybeDate in
      if list_ex (\<lambda>layout. sl_timeParse sl layout d) dateTimeLayouts then None
      else Some (errors_New (''date '' @ d @ '' could not be parsed'')))"

definition subm_error :: "ench \<Rightarrow> string \<Rightarrow> string \<Rightarrow> string \<Rightarrow> goerr option \<Rightarrow> goerr" where
  "subm_error ec msg k v cause =
     SMTPError \<lparr>Code = 554, EnhancedCode = ec, Message = msg, CheckName = '''', TargetName = '''', ModifierName = '''', Reason = '''',
       Misc = (if k = '''' then Map.empty else [k \<mapsto> FStr v])(''modifier'' \<mapsto> FStr ''submission_prepare'')\<rparr> cause"

text \<open>The loop over the fields with lists of addresses.\<close>

fun check_lists :: "subm_lib \<Rightarrow> mime_lib \<Rightarrow> header \<Rightarrow> string list \<Rightarrow> goerr option" where
  "check_lists sl ml hdr [] = None"
| "check_lists sl ml hdr (k # ks) =
     (let value = ml_Get ml hdr k in
      if value = '''' then check_lists sl ml hdr ks
      else (case sl_ParseAddressList sl value of
              Inl e \<Rightarrow> Some (subm_error (5, 6, 0) (''Invalid address in '' @ k) ''addr'' value (Some e))
            | Inr _ \<Rightarrow> check_lists sl ml hdr ks))"

text \<open>\<open>now\<close> is the text of the current time; \<open>uuid\<close> the result of \<open>msgIDField\<close>. The metadata is changed in every case.\<close>

definition check_from :: "subm_lib \<Rightarrow> mime_lib \<Rightarrow> string \<Rightarrow> header \<Rightarrow> goerr + header" where
  "check_from sl ml now hdr =
     (case sl_ParseAddressList sl (ml_Get ml hdr ''From'') of
        Inl e \<Rightarrow> Inl (subm_error (5, 6, 0) ''Invalid address in From'' ''addr'' (ml_Get ml hdr ''From'') (Some e))
      | Inr addrs \<Rightarrow>
          if 1 < length addrs \<and> ml_Get ml hdr ''Sender'' = '''' then
            Inl (subm_error (5, 6, 0) ''Missing Sender header field'' ''from'' (ml_Get ml hdr ''From'') None)
          else
            let dateHdr = ml_Get ml hdr ''Date'' in
            if dateHdr \<noteq> '''' then
              (case parseMessageDateTime sl dateHdr of
                 Some e \<Rightarrow> Inl (subm_error (0, 0, 0) ''Malformed Date header'' ''date'' dateHdr (Some e))
               | None \<Rightarrow> Inr hdr)
            else Inr (sl_Set sl hdr ''Date'' now))"

definition check_fields :: "subm_lib \<Rightarrow> mime_lib \<Rightarrow> string \<Rightarrow> header \<Rightarrow> goerr + header" where
  "check_fields sl ml now hdr =
     (if ml_Get ml hdr ''From'' = '''' then
        Inl (subm_error (5, 6, 0) ''Message does not contains a From header field'' '''' '''' None)
      else
        let sender = ml_Get ml hdr ''Sender'' in
        case (if sender = '''' then None else sl_ParseAddress sl sender) of
          Some e \<Rightarrow> Inl (subm_error (5, 6, 0) ''Invalid address in Sender'' ''addr'' sender (Some e))
        | None \<Rightarrow>
            (case check_lists sl ml hdr [''To'', ''Cc'', ''Bcc'', ''Reply-To''] of
               Some e \<Rightarrow> Inl e
             | None \<Rightarrow> check_from sl ml now hdr))"

definition submissionPrepare ::
    "'s endpoint \<Rightarrow> goerr + string \<Rightarrow> string \<Rightarrow> msg_metadata \<Rightarrow> header \<Rightarrow> msg_metadata \<times> (goerr + header)" where
  "submissionPrepare ep uuid now meta hdr =
     (let meta = meta\<lparr>DontTraceSender := True\<rparr>; sl = ep_subm ep; ml = ep_mime ep in
      if ml_Get ml hdr ''Message-ID'' = '''' then
        (case uuid of
           Inl e \<Rightarrow> (meta, Inl (errors_New ''Message-ID generation failed''))
         | Inr u \<Rightarrow> (meta, check_fields sl ml now (sl_Set sl hdr ''Message-ID'' (''<'' @ u @ ''@'' @ ep_Domain ep @ ''>''))))
      else (meta, check_fields sl ml now hdr))"

section \<open>DATA\<close>

record data_input =
  di_header :: "goerr + header"
  di_uuid :: "goerr + string"
  di_now :: string
  di_buffer :: "goerr + buffer"
  di_open :: "goerr + (goerr + string)"

definition prepareBody :: "'s endpoint \<Rightarrow> data_input \<Rightarrow> msg_metadata \<Rightarrow> msg_metadata \<times> (goerr + header \<times> buffer)" where
  "prepareBody ep di meta =
     (case di_header di of
        Inl e \<Rightarrow> (meta, Inl (Wrapf ''I/O error while parsing header: '' e))
      | Inr hdr \<Rightarrow>
          (case (if ep_submission ep then submissionPrepare ep (di_uuid di) (di_now di) meta hdr else (meta, Inr hdr)) of
             (meta, Inl e) \<Rightarrow> (meta, Inl e)
           | (meta, Inr hdr) \<Rightarrow>
               (case di_buffer di of
                  Inl e \<Rightarrow> (meta, Inl (Wrapf ''I/O error while writing buffer: '' e))
                | Inr buf \<Rightarrow> (meta, Inr (hdr, buf)))))"

definition unencrypted_err :: goerr where
  "unencrypted_err = SMTPError \<lparr>Code = 523, EnhancedCode = (5, 7, 1), Message = ''Encryption Needed: Invalid Unencrypted Mail'',
     CheckName = '''', TargetName = '''', ModifierName = '''', Reason = ''unencrypted message'', Misc = Map.empty\<rparr> None"

text \<open>Opening the buffer and the check of the encryption.\<close>

definition verify_body :: "'s endpoint \<Rightarrow> data_input \<Rightarrow> header \<Rightarrow> goerr + bool" where
  "verify_body ep di hdr =
     (case di_open di of
        Inl e \<Rightarrow> Inl e
      | Inr content \<Rightarrow>
          (case IsAcceptedMessage (ep_text ep) (ep_mime ep) hdr content of
             Inl e \<Rightarrow> Inl (Wrapf ''PGP verification failed: '' e)
           | Inr ok \<Rightarrow> Inr ok))"

definition checkRoutingLoops :: "'s endpoint \<Rightarrow> header \<Rightarrow> goerr option" where
  "checkRoutingLoops ep hdr =
     (let receivedCount = int (length (sl_FieldsByKey (ep_subm ep) hdr ''Received'')) in
      if ep_maxReceived ep < receivedCount then
        Some (smtp_error 554 (5, 4, 6) (''Too many Received header fields ('' @ int_text receivedCount @ ''), possible forwarding loop''))
      else None)"

definition tls_override :: "'s endpoint \<Rightarrow> header \<Rightarrow> msg_metadata \<Rightarrow> msg_metadata" where
  "tls_override ep hdr meta =
     (if sl_EqualFold (ep_subm ep) (ml_Get (ep_mime ep) hdr ''TLS-Required'') ''No'' then meta\<lparr>TLSRequireOverride := True\<rparr> else meta)"

text \<open>The part of \<open>Data\<close> between the buffering of the body and the deferred \<open>cleanSession\<close>.\<close>

definition data_deliver ::
    "'s endpoint \<Rightarrow> data_input \<Rightarrow> header \<Rightarrow> buffer \<Rightarrow> msg_metadata \<Rightarrow> 's \<Rightarrow> msg_metadata \<times> 's \<times> goerr option" where
  "data_deliver ep di hdr buf meta t =
     (case verify_body ep di hdr of
        Inl e \<Rightarrow> (meta, t, Some e)
      | Inr isEncrypted \<Rightarrow>
          if \<not> isEncrypted then (meta, t, Some unencrypted_err)
          else
            (case checkRoutingLoops ep hdr of
               Some e \<Rightarrow> (meta, t, Some e)
             | None \<Rightarrow>
                 let meta = tls_override ep hdr meta in
                 case dl_Body (ep_pipeline ep) t hdr buf of
                   (t, Some e) \<Rightarrow> (meta, t, Some e)
                 | (t, None) \<Rightarrow> (case dl_Commit (ep_pipeline ep) t of (t, err) \<Rightarrow> (meta, t, err))))"

definition Data :: "'s endpoint \<Rightarrow> data_input \<Rightarrow> 's sstate \<Rightarrow> ('s sstate \<times> goerr option) outcome" where
  "Data ep di st =
     (case st of (s, w) \<Rightarrow>
        (case sn_msgMeta s of
           None \<Rightarrow> nil_deref
         | Some meta \<Rightarrow>
             let wrap = wrapErr ep (ID meta) (\<not> UTF8 (sn_opts s)) in
             (case prepareBody ep di meta of
                (meta, Inl e) \<Rightarrow> Return ((s\<lparr>sn_msgMeta := Some meta\<rparr>, w), Some (wrap e))
              | (meta, Inr (hdr, buf)) \<Rightarrow>
                  (case data_deliver ep di hdr buf meta (sw_target w) of
                     (meta, t, err) \<Rightarrow>
                       obind (cleanSession (s\<lparr>sn_msgMeta := Some meta\<rparr>, w\<lparr>sw_target := t\<rparr>)) (\<lambda>st.
                         Return (st, map_option wrap err))))))"

text \<open>For LMTP the status of every recipient is collected. A delivery that is no \<open>PartialDelivery\<close> panics.\<close>

definition lmtp_deliver ::
    "'s endpoint \<Rightarrow> data_input \<Rightarrow> string list \<Rightarrow> header \<Rightarrow> buffer \<Rightarrow> msg_metadata \<Rightarrow> 's \<Rightarrow>
      (msg_metadata \<times> 's \<times> (string \<times> goerr option) list \<times> goerr option) outcome" where
  "lmtp_deliver ep di rcpts hdr buf meta t =
     (case verify_body ep di hdr of
        Inl e \<Rightarrow> Return (meta, t, [], Some e)
      | Inr isAccepted \<Rightarrow>
          if \<not> isAccepted then Return (meta, t, map (\<lambda>r. (r, Some unencrypted_err)) rcpts, None)
          else
            let meta = tls_override ep hdr meta in
            (case checkRoutingLoops ep hdr of
               Some e \<Rightarrow> Return (meta, t, [], Some e)
             | None \<Rightarrow>
                 (case dl_BodyNonAtomic (ep_pipeline ep) of
                    None \<Rightarrow> Panic ''interface conversion''
                  | Some body \<Rightarrow>
                      (case body t hdr buf of (t, statuses) \<Rightarrow>
                         (case dl_Commit (ep_pipeline ep) t of (t, err) \<Rightarrow> Return (meta, t, statuses, err))))))"

definition LMTPData ::
    "'s endpoint \<Rightarrow> data_input \<Rightarrow> 's sstate \<Rightarrow> ('s sstate \<times> (string \<times> goerr option) list \<times> goerr option) outcome" where
  "LMTPData ep di st =
     (case st of (s, w) \<Rightarrow>
        (case sn_msgMeta s of
           None \<Rightarrow> nil_deref
         | Some meta \<Rightarrow>
             let wrap = wrapErr ep (ID meta) (\<not> UTF8 (sn_opts s)) in
             (case prepareBody ep di meta of
                (meta, Inl e) \<Rightarrow> Return ((s\<lparr>sn_msgMeta := Some meta\<rparr>, w), [], Some (wrap e))
              | (meta, Inr (hdr, buf)) \<Rightarrow>
                  obind (lmtp_deliver ep di (sn_rcpts s) hdr buf meta (sw_target w)) (\<lambda>(meta, t, statuses, err).
                    obind (cleanSession (s\<lparr>sn_msgMeta := Some meta\<rparr>, w\<lparr>sw_target := t\<rparr>)) (\<lambda>st.
                      Return (st, map (map_prod id (map_option wrap)) statuses, map_option wrap err))))))"

section \<open>Histories\<close>

text \<open>The commands of a client, as \<^verbatim>\<open>go-smtp\<close> turns them into calls.\<close>

datatype cmd =
    CmdAuth string "goerr option" "goerr option"
  | CmdMail take_env "goerr + string" string mail_options
  | CmdRcpt take_env "goerr + string" string
  | CmdData data_input
  | CmdLMTPData data_input
  | CmdReset

fun sess_exec :: "'s endpoint \<Rightarrow> cmd \<Rightarrow> 's sstate \<Rightarrow> 's sstate outcome" where
  "sess_exec ep (CmdAuth u early auth) st = Return (fst (AuthPlain ep u early auth (fst st)), snd st)"
| "sess_exec ep (CmdMail te mid from opts) st = obind (Mail ep te mid from opts st) (\<lambda>(st, _). Return st)"
| "sess_exec ep (CmdRcpt te mid to) st = obind (Rcpt ep te mid to st) (\<lambda>(st, _). Return st)"
| "sess_exec ep (CmdData di) st = obind (Data ep di st) (\<lambda>(st, _). Return st)"
| "sess_exec ep (CmdLMTPData di) st = obind (LMTPData ep di st) (\<lambda>(st, _, _). Return st)"
| "sess_exec ep CmdReset st = Reset ep st"

text \<open>The place in the limits that a session occupies.\<close>

definition sess_held :: "session \<Rightarrow> (string \<times> string) list" where
  "sess_held s =
     (if sn_delivery s then (case sender_domain (sn_mailFrom s) of Inl e \<Rightarrow> [] | Inr d \<Rightarrow> [(sn_addr s, d)]) else [])"

definition sess_ok :: "session \<Rightarrow> bool" where
  "sess_ok s \<longleftrightarrow> (sn_delivery s \<longrightarrow> sn_msgMeta s \<noteq> None \<and> (\<exists>d. sender_domain (sn_mailFrom s) = Inr d))"

text \<open>A sender that \<open>CleanDomain\<close> leaves in its limits.\<close>

definition clean_sender :: "'s endpoint \<Rightarrow> string \<Rightarrow> bool" where
  "clean_sender ep from \<longleftrightarrow> (from \<noteq> '''' \<longrightarrow> sender_domain (fst (CleanDomain (ep_text ep) from)) = sender_domain from)"

fun cmd_ok :: "'s endpoint \<Rightarrow> session \<Rightarrow> cmd \<Rightarrow> bool" where
  "cmd_ok ep s (CmdMail te mid from opts) \<longleftrightarrow> \<not> sn_delivery s \<and> (ep_deferServerReject ep \<or> clean_sender ep from)"
| "cmd_ok ep s (CmdData di) \<longleftrightarrow> sn_delivery s"
| "cmd_ok ep s (CmdLMTPData di) \<longleftrightarrow> sn_delivery s \<and> dl_BodyNonAtomic (ep_pipeline ep) \<noteq> None"
| "cmd_ok ep s _ \<longleftrightarrow> True"

lemma group_held_mono: "group_held t hs g \<Longrightarrow> t \<le> t' \<Longrightarrow> group_held t' hs g"
  by (auto simp: group_held_def intro: set_held_mono)

lemma clean_release:
  assumes "sess_ok s" "sn_delivery s" "group_held t (sess_held s @ hs) (sw_limits w)"
  shows "\<exists>g. cleanSession (s, w) = Return (s\<lparr>sn_mailFrom := '''', sn_opts := no_opts, sn_msgMeta := None, sn_delivery := False,
      deliveryErr := None, sn_rcpts := []\<rparr>, w\<lparr>sw_limits := g\<rparr>) \<and> group_held t hs g"
proof -
  obtain d meta where d: "sender_domain (sn_mailFrom s) = Inr d" "sn_msgMeta s = Some meta" using assms(1,2) by (auto simp: sess_ok_def)
  then have "group_held t ((sn_addr s, d) # hs) (sw_limits w)" using assms(2,3) by (simp add: sess_held_def)
  from ReleaseMsg_held [OF this, of "sn_addr s" d] obtain g where
    g: "ReleaseMsg (sn_addr s) d (sw_limits w) = Return g" "group_held t hs g" by auto
  obtain l where l: "(if sn_mailFrom s = '''' then ('''', '''', None) else Split (sn_mailFrom s)) = (l, d, None)"
    using d(1) by (auto simp: sender_domain_def split: if_splits prod.splits option.splits)
  have "releaseLimits (s, w) = Return (s, w\<lparr>sw_limits := g\<rparr>)" by (simp add: releaseLimits_def l d(2) g(1))
  with g(2) show ?thesis by (auto simp: cleanSession_def)
qed

lemma startDelivery_held:
  assumes "\<not> sn_delivery s" "group_held t hs (sw_limits w)" "t \<le> te_now te" "te_now te \<le> te_use te" "group_room (sw_limits w)"
  obtains s' w' mid err where "startDelivery ep te i from opts (s, w) = Return ((s', w'), mid, err)"
    "err = None \<Longrightarrow> sn_delivery s' \<and> sn_msgMeta s' \<noteq> None \<and> sn_mailFrom s' = (if from = '''' then from else fst (CleanDomain (ep_text ep) from)) \<and>
       (\<exists>d. sender_domain (sn_mailFrom s') = Inr d) \<and> sn_addr s' = sn_addr s"
    "err \<noteq> None \<Longrightarrow> s' = s" "group_held (te_use te) (sess_held s' @ hs) (sw_limits w')" "sn_addr s' = sn_addr s" "deliveryErr s' = deliveryErr s"
proof -
  have held: "sess_held s = []" "group_held (te_use te) hs (sw_limits w)" "group_held (te_now te) hs (sw_limits w)"
    using assms group_held_mono by (auto simp: sess_held_def)
  obtain cf ce where c: "(if from = '''' then (from, None) else CleanDomain (ep_text ep) from) = (cf, ce)" by fastforce
  show ?thesis
  proof (cases "(\<exists>e. i = Inl e) \<or> (\<not> UTF8 opts \<and> list_ex (\<lambda>ch. 128 < ch) (runes from)) \<or> ce \<noteq> None \<or> (\<exists>e. sender_domain cf = Inl e)")
    case True
    then have "\<exists>mid err. startDelivery ep te i from opts (s, w) = Return ((s, w), mid, Some err)"
      unfolding startDelivery_def c by (cases ce; cases i; cases "sender_domain cf") auto
    with that [of s w] held show ?thesis by fastforce
  next
    case False
    then obtain mid d where d: "i = Inr mid" "\<not> (\<not> UTF8 opts \<and> list_ex (\<lambda>ch. 128 < ch) (runes from))" "ce = None" "sender_domain cf = Inr d"
      by (cases i; cases "sender_domain cf") auto
    obtain g err where g: "TakeMsg te (sn_addr s) d (sw_limits w) = Return (g, err)"
      "group_held (te_use te) (if err = None then (sn_addr s, d) # hs else hs) g"
      using TakeMsg_held [OF held(3) assms(4,5)] by blast
    show ?thesis
    proof (cases err)
      case (Some e)
      then have "startDelivery ep te i from opts (s, w) = Return ((s, w\<lparr>sw_limits := g\<rparr>), '''', Some e)"
        unfolding startDelivery_def d(1) c using d(2-4) g by auto
      with that [of s "w\<lparr>sw_limits := g\<rparr>"] held g Some show ?thesis by fastforce
    next
      case None
      let ?meta = "\<lparr>ID = mid, OriginalFrom = from, DontTraceSender = False, Quarantine = False,
         OriginalRcpts = Map.empty, SMTPOpts = opts, Conn = Some (sn_conn s), TLSRequireOverride = False\<rparr>"
      obtain tg se where tg: "dt_Start (ep_pipeline ep) (sw_target w) ?meta cf = (tg, se)" by fastforce
      have gh: "group_held (te_use te) ((sn_addr s, d) # hs) g" using g(2) None by simp
      show ?thesis
      proof (cases se)
        case (Some e)
        from ReleaseMsg_held [OF gh, of "sn_addr s" d] obtain g' where
          g': "ReleaseMsg (sn_addr s) d g = Return g'" "group_held (te_use te) hs g'" by auto
        then have "startDelivery ep te i from opts (s, w) = Return ((s, w\<lparr>sw_limits := g', sw_target := tg\<rparr>), mid, Some e)"
          unfolding startDelivery_def d(1) c using d(2-4) g None tg Some by auto
        with that [of s "w\<lparr>sw_limits := g', sw_target := tg\<rparr>"] held g' show ?thesis by fastforce
      next
        case se: None
        let ?s = "s\<lparr>sn_msgMeta := Some ?meta, sn_mailFrom := cf, sn_delivery := True\<rparr>"
        have "startDelivery ep te i from opts (s, w) = Return ((?s, w\<lparr>sw_limits := g, sw_target := tg\<rparr>), mid, None)"
          unfolding startDelivery_def d(1) c using d(2-4) g None tg se by auto
        moreover have "cf = (if from = '''' then from else fst (CleanDomain (ep_text ep) from))" using c by (auto split: if_splits)
        ultimately show ?thesis using that [of ?s "w\<lparr>sw_limits := g, sw_target := tg\<rparr>" mid None] d gh
          by (simp add: sess_held_def)
      qed
    qed
  qed
qed

text \<open>A state after a command: it is well formed and the limits count it once.\<close>

definition balanced :: "time \<Rightarrow> (string \<times> string) list \<Rightarrow> 's sstate \<Rightarrow> bool" where
  "balanced t hs st \<longleftrightarrow> sess_ok (fst st) \<and> group_held t (sess_held (fst st) @ hs) (sw_limits (snd st))"

lemma sess_ok_fields [simp]:
  "sess_ok (s\<lparr>deliveryErr := e\<rparr>) \<longleftrightarrow> sess_ok s" "sess_held (s\<lparr>deliveryErr := e\<rparr>) = sess_held s"
  "sess_ok (s\<lparr>repeatedMailErrs := n\<rparr>) \<longleftrightarrow> sess_ok s" "sess_held (s\<lparr>repeatedMailErrs := n\<rparr>) = sess_held s"
  "sess_ok (s\<lparr>loggedRcptErrors := n\<rparr>) \<longleftrightarrow> sess_ok s" "sess_held (s\<lparr>loggedRcptErrors := n\<rparr>) = sess_held s"
  "sess_ok (s\<lparr>sn_rcpts := r\<rparr>) \<longleftrightarrow> sess_ok s" "sess_held (s\<lparr>sn_rcpts := r\<rparr>) = sess_held s"
  "sess_ok (s\<lparr>sn_opts := o'\<rparr>) \<longleftrightarrow> sess_ok s" "sess_held (s\<lparr>sn_opts := o'\<rparr>) = sess_held s"
  "sess_ok (s\<lparr>sn_conn := c\<rparr>) \<longleftrightarrow> sess_ok s" "sess_held (s\<lparr>sn_conn := c\<rparr>) = sess_held s"
  "sess_held (s\<lparr>sn_msgMeta := mt\<rparr>) = sess_held s" "sess_ok s \<Longrightarrow> sess_ok (s\<lparr>sn_msgMeta := Some x\<rparr>)"
  by (auto simp: sess_ok_def sess_held_def split: sum.splits)

lemma add_rcpt_balanced:
  assumes "balanced t hs (s, w)" "sn_delivery s"
  shows "\<exists>st' e. add_rcpt ep to (s, w) = Return (st', e) \<and> balanced t hs st'"
proof -
  obtain meta where meta: "sn_msgMeta s = Some meta" using assms by (auto simp: balanced_def sess_ok_def)
  obtain s1 w1 e where r: "sess_rcpt ep to (s, w) = ((s1, w1), e)" by (metis surj_pair)
  then have "balanced t hs (s1, w1)" "sn_msgMeta s1 = Some meta"
    using assms(1) meta by (auto simp: sess_rcpt_def balanced_def split: if_splits prod.splits option.splits)
  with r show ?thesis by (cases e) (auto simp: add_rcpt_def balanced_def Let_def)
qed

lemma clean_balanced:
  assumes "balanced t hs (s, w)" "sn_delivery s"
  shows "\<exists>s' w'. cleanSession (s, w) = Return (s', w') \<and> balanced t hs (s', w') \<and> \<not> sn_delivery s' \<and> sw_target w' = sw_target w \<and>
    sw_sessionCnt w' = sw_sessionCnt w"
proof -
  obtain g where g: "cleanSession (s, w) = Return (s\<lparr>sn_mailFrom := '''', sn_opts := no_opts, sn_msgMeta := None, sn_delivery := False,
      deliveryErr := None, sn_rcpts := []\<rparr>, w\<lparr>sw_limits := g\<rparr>)" "group_held t hs g"
    using clean_release [of s t hs w] assms by (auto simp: balanced_def)
  then show ?thesis by (simp add: balanced_def sess_ok_def sess_held_def)
qed

lemma balanced_target [simp]:
  "balanced t hs (s, w\<lparr>sw_target := x\<rparr>) \<longleftrightarrow> balanced t hs (s, w)" "balanced t hs (s, w\<lparr>sw_sessionCnt := n\<rparr>) \<longleftrightarrow> balanced t hs (s, w)"
  by (simp_all add: balanced_def)

lemma abort_balanced:
  assumes "balanced t hs (s, w)" "sn_delivery s"
  shows "\<exists>s' w'. sess_abort ep (s, w) = Return (s', w') \<and> balanced t hs (s', w') \<and> \<not> sn_delivery s' \<and> sw_sessionCnt w' = sw_sessionCnt w"
proof -
  obtain x e where x: "dl_Abort (ep_pipeline ep) (sw_target w) = (x, e)" by fastforce
  with clean_balanced [of t hs s "w\<lparr>sw_target := x\<rparr>"] assms show ?thesis
    by (auto simp: sess_abort_def balanced_def sess_ok_def)
qed

lemma start_balanced:
  assumes "balanced t hs (s, w)" "\<not> sn_delivery s" "t \<le> te_now te" "te_now te \<le> te_use te" "group_room (sw_limits w)"
  obtains s' w' mid err where "startDelivery ep te i from opts (s, w) = Return ((s', w'), mid, err)" "balanced (te_use te) hs (s', w')"
    "err = None \<Longrightarrow> sn_delivery s' \<and> sn_msgMeta s' \<noteq> None \<and>
       sn_mailFrom s' = (if from = '''' then from else fst (CleanDomain (ep_text ep) from)) \<and> sn_addr s' = sn_addr s"
    "err \<noteq> None \<Longrightarrow> s' = s"
proof -
  have "group_held t hs (sw_limits w)" using assms(1,2) by (simp add: balanced_def sess_held_def)
  from startDelivery_held [OF assms(2) this assms(3-5)] that assms(2) show ?thesis
    unfolding balanced_def sess_ok_def by (metis fst_conv snd_conv)
qed

lemma balanced_mono: "balanced t hs st \<Longrightarrow> t \<le> t' \<Longrightarrow> balanced t' hs st"
  using group_held_mono by (auto simp: balanced_def)

fun cmd_time :: "time \<Rightarrow> cmd \<Rightarrow> time" where
  "cmd_time t (CmdMail te mid from opts) = te_use te"
| "cmd_time t (CmdRcpt te mid to) = te_use te"
| "cmd_time t _ = t"

fun times_ok :: "time \<Rightarrow> cmd \<Rightarrow> bool" where
  "times_ok t (CmdMail te mid from opts) \<longleftrightarrow> t \<le> te_now te \<and> te_now te \<le> te_use te"
| "times_ok t (CmdRcpt te mid to) \<longleftrightarrow> t \<le> te_now te \<and> te_now te \<le> te_use te"
| "times_ok t _ \<longleftrightarrow> True"

lemma exec_mail:
  assumes "balanced t hs (s, w)" "cmd_ok ep s (CmdMail te i from opts)" "times_ok t (CmdMail te i from opts)" "group_room (sw_limits w)"
  shows "\<exists>st'. sess_exec ep (CmdMail te i from opts) (s, w) = Return st' \<and> balanced (te_use te) hs st'"
proof -
  have b: "balanced (te_use te) hs (s, w)" using balanced_mono [OF assms(1)] assms(3) by auto
  have nd: "\<not> sn_delivery s" and tt: "t \<le> te_now te" "te_now te \<le> te_use te" using assms(2,3) by simp_all
  consider "ep_authAlwaysRequired ep \<and> AuthUser (sn_conn s) = ''''" | "\<not> (ep_authAlwaysRequired ep \<and> AuthUser (sn_conn s) = '''')" "ep_deferServerReject ep"
    | "\<not> (ep_authAlwaysRequired ep \<and> AuthUser (sn_conn s) = '''')" "\<not> ep_deferServerReject ep" by blast
  then show ?thesis
  proof cases
    case 1
    with b show ?thesis by (simp add: Mail_def)
  next
    case 2
    with b nd show ?thesis by (auto simp: Mail_def balanced_def sess_ok_def sess_held_def)
  next
    case 3
    obtain s' w' mid err where st: "startDelivery ep te i from opts (s, w) = Return ((s', w'), mid, err)" "balanced (te_use te) hs (s', w')"
      "err = None \<Longrightarrow> sn_delivery s' \<and> sn_msgMeta s' \<noteq> None \<and> sn_mailFrom s' = (if from = '''' then from else fst (CleanDomain (ep_text ep) from)) \<and> sn_addr s' = sn_addr s"
      using start_balanced [OF assms(1) nd tt assms(4)] by metis
    show ?thesis
    proof (cases err)
      case None
      with st(3) have e: "sn_delivery s'" "sn_msgMeta s' \<noteq> None" "sender_domain (sn_mailFrom s') = sender_domain from"
        using assms(2) 3(2) by (auto simp: clean_sender_def)
      with st(2) have "balanced (te_use te) hs (s'\<lparr>sn_mailFrom := from, sn_opts := opts\<rparr>, w')"
        by (auto simp: balanced_def sess_ok_def sess_held_def)
      with 3 st(1) None show ?thesis by (auto simp: Mail_def)
    qed (use 3 st in \<open>auto simp: Mail_def\<close>)
  qed
qed

lemma exec_rcpt:
  assumes "balanced t hs (s, w)" "times_ok t (CmdRcpt te i to)" "group_room (sw_limits w)"
  shows "\<exists>st'. sess_exec ep (CmdRcpt te i to) (s, w) = Return st' \<and> balanced (te_use te) hs st'"
proof -
  have b: "balanced (te_use te) hs (s, w)" and tt: "t \<le> te_now te" "te_now te \<le> te_use te"
    using balanced_mono [OF assms(1)] assms(2) by auto
  show ?thesis
  proof (cases "sn_delivery s")
    case True
    with add_rcpt_balanced [OF b True, of ep to] show ?thesis by (auto simp: Rcpt_def)
  next
    case False
    show ?thesis
    proof (cases "deliveryErr s")
      case None
      obtain s' w' mid err where st: "startDelivery ep te i (sn_mailFrom s) (sn_opts s) (s, w) = Return ((s', w'), mid, err)"
        "balanced (te_use te) hs (s', w')" "err = None \<Longrightarrow> sn_delivery s'"
        using start_balanced [OF assms(1) False tt assms(3)] by metis
      show ?thesis
      proof (cases err)
        case e: None
        with add_rcpt_balanced [OF st(2), of ep to] st None False show ?thesis by (auto simp: Rcpt_def)
      qed (use st None False in \<open>auto simp: Rcpt_def Let_def balanced_def\<close>)
    qed (use b False in \<open>auto simp: Rcpt_def balanced_def\<close>)
  qed
qed

lemma exec_data:
  assumes "balanced t hs (s, w)" "sn_delivery s"
  shows "\<exists>st'. sess_exec ep (CmdData di) (s, w) = Return st' \<and> balanced t hs st'"
    and "dl_BodyNonAtomic (ep_pipeline ep) \<noteq> None \<Longrightarrow> \<exists>st'. sess_exec ep (CmdLMTPData di) (s, w) = Return st' \<and> balanced t hs st'"
proof -
  obtain meta where meta: "sn_msgMeta s = Some meta" using assms by (auto simp: balanced_def sess_ok_def)
  obtain meta1 r where r: "prepareBody ep di meta = (meta1, r)" by fastforce
  have b: "balanced t hs (s\<lparr>sn_msgMeta := Some x\<rparr>, w)" for x using assms(1) by (simp add: balanced_def)
  have cl: "\<exists>s' w'. cleanSession (s\<lparr>sn_msgMeta := Some x\<rparr>, w\<lparr>sw_target := y\<rparr>) = Return (s', w') \<and> balanced t hs (s', w')" for x y
    using clean_balanced [of t hs "s\<lparr>sn_msgMeta := Some x\<rparr>" "w\<lparr>sw_target := y\<rparr>"] b [of x] assms(2) by auto
  show "\<exists>st'. sess_exec ep (CmdData di) (s, w) = Return st' \<and> balanced t hs st'"
  proof (cases r)
    case (Inr hb)
    obtain hdr buf where hb: "hb = (hdr, buf)" by fastforce
    obtain m2 x e where "data_deliver ep di hdr buf meta1 (sw_target w) = (m2, x, e)" by (metis surj_pair)
    with Inr hb r meta cl [of m2 x] show ?thesis by (auto simp: Data_def Let_def)
  qed (use r meta b in \<open>auto simp: Data_def Let_def\<close>)
  show "\<exists>st'. sess_exec ep (CmdLMTPData di) (s, w) = Return st' \<and> balanced t hs st'" if na: "dl_BodyNonAtomic (ep_pipeline ep) \<noteq> None"
  proof (cases r)
    case (Inr hb)
    obtain hdr buf where hb: "hb = (hdr, buf)" by fastforce
    have "\<exists>q. lmtp_deliver ep di (sn_rcpts s) hdr buf meta1 (sw_target w) = Return q"
      using na by (auto simp: lmtp_deliver_def Let_def split: sum.splits option.splits prod.splits)
    then obtain m2 x sts e where "lmtp_deliver ep di (sn_rcpts s) hdr buf meta1 (sw_target w) = Return (m2, x, sts, e)" by (metis surj_pair)
    with Inr hb r meta cl [of m2 x] show ?thesis by (auto simp: LMTPData_def Let_def)
  qed (use r meta b in \<open>auto simp: LMTPData_def Let_def\<close>)
qed

lemma exec_balanced:
  assumes b: "balanced t hs (s, w)" and "cmd_ok ep s c" "times_ok t c" "group_room (sw_limits w)"
  shows "\<exists>st'. sess_exec ep c (s, w) = Return st' \<and> balanced (cmd_time t c) hs st'"
proof (cases c)
  case (CmdAuth u early auth)
  then show ?thesis using b by (auto simp: AuthPlain_def balanced_def split: option.splits)
next
  case (CmdMail te i sender opts)
  then show ?thesis using exec_mail [OF b, of ep te i sender opts] assms(2-4) by simp
next
  case (CmdRcpt te i to)
  then show ?thesis using exec_rcpt [OF b, of te i to ep] assms(2-4) by simp
next
  case CmdReset
  then show ?thesis using abort_balanced [OF b, of ep] b by (fastforce simp: Reset_def)
qed (use exec_data [OF b] assms(2) in simp_all)

lemma nil_deref_Return [simp]: "nil_deref \<noteq> Return x"
  by (simp add: nil_deref_def)

lemma clean_cnt: "cleanSession (s, w) = Return (s', w') \<Longrightarrow> sw_sessionCnt w' = sw_sessionCnt w"
  by (auto simp: cleanSession_def releaseLimits_def split: prod.splits option.splits if_splits)

lemma start_cnt:
  assumes "startDelivery ep te i from opts (s, w) = Return ((s', w'), r)"
  shows "sw_sessionCnt w' = sw_sessionCnt w"
proof -
  obtain cf ce where c: "(if from = '''' then (from, None) else CleanDomain (ep_text ep) from) = (cf, ce)" by fastforce
  show ?thesis using assms unfolding startDelivery_def c
    by (cases i; cases ce; cases "sender_domain cf")
      (auto simp: Let_def case_prod_unfold split: option.split_asm if_split_asm)
qed

lemma rcpt_cnt: "add_rcpt ep to (s, w) = Return ((s', w'), r) \<Longrightarrow> sw_sessionCnt w' = sw_sessionCnt w"
  by (auto simp: add_rcpt_def sess_rcpt_def Let_def split: prod.splits option.splits if_splits)

lemma exec_cnt: "sess_exec ep c (s, w) = Return (s', w') \<Longrightarrow> sw_sessionCnt w' = sw_sessionCnt w"
proof (induction ep c "(s, w)" rule: sess_exec.induct)
  case (2 ep te i sender opts)
  then show ?case by (auto simp: Mail_def dest: start_cnt split: if_splits option.splits)
next
  case (3 ep te i to)
  then show ?case by (auto simp: Rcpt_def Let_def dest!: start_cnt rcpt_cnt split: if_splits option.splits)
next
  case (4 ep di)
  then show ?case by (auto simp: Data_def Let_def dest!: clean_cnt split: option.splits prod.splits sum.splits)
next
  case (5 ep di)
  then show ?case by (auto simp: LMTPData_def Let_def dest!: clean_cnt split: option.splits prod.splits sum.splits)
next
  case (6 ep)
  then show ?case by (auto simp: Reset_def sess_abort_def dest!: clean_cnt split: if_splits option.splits prod.splits)
qed (simp add: AuthPlain_def)

lemma Logout_balanced:
  assumes "balanced t hs (s, w)"
  shows "\<exists>s' w'. Logout ep (s, w) = Return (s', w') \<and> group_held t hs (sw_limits w') \<and> sw_sessionCnt w' = sw_sessionCnt w - 1"
proof (cases "sn_delivery s")
  case True
  then obtain s' w' where "sess_abort ep (s, w) = Return (s', w')" "balanced t hs (s', w')" "\<not> sn_delivery s'" "sw_sessionCnt w' = sw_sessionCnt w"
    using abort_balanced [OF assms, of ep] by auto
  with True show ?thesis by (auto simp: Logout_def balanced_def sess_held_def)
next
  case False
  with assms show ?thesis by (auto simp: Logout_def balanced_def sess_held_def)
qed

section \<open>Many sessions\<close>

text \<open>The server with the sessions that are open. Their commands interleave; \<open>srv_refused\<close> counts the connections that the
  early checks refused.\<close>

record 's server =
  srv_now :: time
  srv_sessions :: "session list"
  srv_refused :: nat
  srv_world :: "'s smtp_world"

datatype event =
    Connect conn_state string "goerr option"
  | Command nat cmd
  | Disconnect nat

definition remove_nth :: "nat \<Rightarrow> 'a list \<Rightarrow> 'a list" where
  "remove_nth i xs = take i xs @ drop (Suc i) xs"

fun server_step :: "'s endpoint \<Rightarrow> event \<Rightarrow> 's server \<Rightarrow> 's server outcome" where
  "server_step ep (Connect conn addr early) v =
     obind (NewSession ep conn addr early (srv_world v)) (\<lambda>(w, r).
       Return (case r of
          Inl e \<Rightarrow> v\<lparr>srv_world := w, srv_refused := Suc (srv_refused v)\<rparr>
        | Inr s \<Rightarrow> v\<lparr>srv_world := w, srv_sessions := srv_sessions v @ [s]\<rparr>))"
| "server_step ep (Command i c) v =
     obind (sess_exec ep c (srv_sessions v ! i, srv_world v)) (\<lambda>(s, w).
       Return (v\<lparr>srv_world := w, srv_sessions := (srv_sessions v)[i := s], srv_now := cmd_time (srv_now v) c\<rparr>))"
| "server_step ep (Disconnect i) v =
     obind (Logout ep (srv_sessions v ! i, srv_world v)) (\<lambda>(s, w).
       Return (v\<lparr>srv_world := w, srv_sessions := remove_nth i (srv_sessions v)\<rparr>))"

fun event_ok :: "'s endpoint \<Rightarrow> 's server \<Rightarrow> event \<Rightarrow> bool" where
  "event_ok ep v (Connect conn addr early) \<longleftrightarrow> True"
| "event_ok ep v (Command i c) \<longleftrightarrow>
     i < length (srv_sessions v) \<and> cmd_ok ep (srv_sessions v ! i) c \<and> times_ok (srv_now v) c \<and> group_room (sw_limits (srv_world v))"
| "event_ok ep v (Disconnect i) \<longleftrightarrow> i < length (srv_sessions v)"

inductive server_reach :: "'s endpoint \<Rightarrow> 's server \<Rightarrow> 's server \<Rightarrow> bool" for ep v0 where
  reach_start: "server_reach ep v0 v0"
| reach_step: "server_reach ep v0 v \<Longrightarrow> event_ok ep v ev \<Longrightarrow> server_step ep ev v = Return v' \<Longrightarrow> server_reach ep v0 v'"

definition server_held :: "'s server \<Rightarrow> (string \<times> string) list" where
  "server_held v = concat (map sess_held (srv_sessions v))"

definition server_inv :: "'s server \<Rightarrow> bool" where
  "server_inv v \<longleftrightarrow>
     list_all sess_ok (srv_sessions v) \<and> group_held (srv_now v) (server_held v) (sw_limits (srv_world v)) \<and>
     sw_sessionCnt (srv_world v) = int (length (srv_sessions v)) - int (srv_refused v)"

lemma group_held_mset: "mset hs = mset hs' \<Longrightarrow> group_held t hs g \<longleftrightarrow> group_held t hs' g"
proof -
  assume m: "mset hs = mset hs'"
  have "count_list (map f hs) = count_list (map f hs')" for f :: "string \<times> string \<Rightarrow> string"
    using m by (intro ext) (metis count_mset mset_map)
  moreover have "length hs = length hs'" using m by (rule mset_eq_length)
  ultimately show ?thesis by (simp add: group_held_def)
qed

lemma concat_split:
  fixes f :: "'a \<Rightarrow> 'b list"
  assumes "i < length xs"
  shows "mset (concat (map f (xs[i := y]))) = mset (f y @ concat (map f (remove_nth i xs)))"
  using assms by (simp add: remove_nth_def upd_conv_take_nth_drop)

lemma server_balanced:
  assumes "server_inv v" "i < length (srv_sessions v)"
  shows "balanced (srv_now v) (concat (map sess_held (remove_nth i (srv_sessions v)))) (srv_sessions v ! i, srv_world v)"
proof -
  have "mset (server_held v) = mset (sess_held (srv_sessions v ! i) @ concat (map sess_held (remove_nth i (srv_sessions v))))"
    unfolding server_held_def using concat_split [OF assms(2), of sess_held "srv_sessions v ! i"] by simp
  from group_held_mset [OF this] assms show ?thesis by (simp add: balanced_def server_inv_def list_all_length)
qed

lemma server_step_inv:
  assumes "server_inv v" "event_ok ep v ev"
  shows "\<exists>v'. server_step ep ev v = Return v' \<and> server_inv v'"
proof (cases ev)
  case (Connect conn addr early)
  then show ?thesis using assms(1)
    by (cases early) (auto simp: NewSession_def Logout_def newSession_def server_inv_def server_held_def sess_ok_def sess_held_def)
next
  case (Command i c)
  with assms(2) have e: "i < length (srv_sessions v)" "cmd_ok ep (srv_sessions v ! i) c" "times_ok (srv_now v) c"
    "group_room (sw_limits (srv_world v))" by auto
  from exec_balanced [OF server_balanced [OF assms(1) e(1)] e(2-4)] obtain s' w' where
    x: "sess_exec ep c (srv_sessions v ! i, srv_world v) = Return (s', w')"
       "balanced (cmd_time (srv_now v) c) (concat (map sess_held (remove_nth i (srv_sessions v)))) (s', w')" by auto
  let ?ss = "(srv_sessions v)[i := s']"
  have "mset (concat (map sess_held ?ss)) = mset (sess_held s' @ concat (map sess_held (remove_nth i (srv_sessions v))))"
    by (rule concat_split [OF e(1)])
  from group_held_mset [OF this] x(2) have "group_held (cmd_time (srv_now v) c) (concat (map sess_held ?ss)) (sw_limits w')"
    by (simp add: balanced_def)
  moreover have "list_all sess_ok ?ss" using assms(1) x(2) e(1)
    by (auto simp: server_inv_def balanced_def list_all_length nth_list_update)
  ultimately show ?thesis using Command x(1) exec_cnt [OF x(1)] assms(1) by (simp add: server_inv_def server_held_def)
next
  case (Disconnect i)
  then have i: "i < length (srv_sessions v)" using assms(2) by simp
  from Logout_balanced [OF server_balanced [OF assms(1) i]] obtain s' w' where
    x: "Logout ep (srv_sessions v ! i, srv_world v) = Return (s', w')" "sw_sessionCnt w' = sw_sessionCnt (srv_world v) - 1"
      "group_held (srv_now v) (concat (map sess_held (remove_nth i (srv_sessions v)))) (sw_limits w')" by blast
  have "list_all sess_ok (remove_nth i (srv_sessions v))" "length (remove_nth i (srv_sessions v)) = length (srv_sessions v) - 1"
    using assms(1) i by (auto simp: remove_nth_def server_inv_def list_all_iff dest: in_set_takeD in_set_dropD)
  with x assms(1) i Disconnect show ?thesis by (auto simp: server_inv_def server_held_def)
qed

lemma reach_inv: "server_reach ep v0 v \<Longrightarrow> server_inv v0 \<Longrightarrow> server_inv v"
  by (induction rule: server_reach.induct) (use server_step_inv in fastforce)+

section \<open>What reaches the pipeline\<close>

lemma verify_accepted:
  assumes "verify_body ep di hdr = Inr True"
  shows "\<exists>body. di_open di = Inr (Inr body) \<and>
    (pgp_mime (ep_mime ep) (ml_Get (ep_mime ep) hdr ''Content-Type'') body \<or> IsSecureJoinMessage (ep_text ep) (ep_mime ep) hdr body)"
  using assms accepted_cases by (auto simp: verify_body_def split: sum.splits) metis

lemma loops_ok: "checkRoutingLoops ep hdr = None \<Longrightarrow> int (length (sl_FieldsByKey (ep_subm ep) hdr ''Received'')) \<le> ep_maxReceived ep"
  by (simp add: checkRoutingLoops_def Let_def split: if_splits)

lemma data_deliver_accepted:
  assumes "data_deliver ep di hdr buf meta t = (meta', t', err)" "t' \<noteq> t \<or> err = None"
  shows "verify_body ep di hdr = Inr True" "checkRoutingLoops ep hdr = None"
  using assms by (auto simp: data_deliver_def split: sum.splits option.splits if_splits)

lemma lmtp_deliver_accepted:
  assumes "lmtp_deliver ep di rcpts hdr buf meta t = Return (meta', t', sts, err)" "t' \<noteq> t \<or> (\<exists>r. (r, None) \<in> set sts)"
  shows "verify_body ep di hdr = Inr True" "checkRoutingLoops ep hdr = None"
  using assms by (auto simp: lmtp_deliver_def Let_def split: sum.splits option.splits if_splits)

lemma clean_target: "cleanSession (s, w) = Return (s', w') \<Longrightarrow> sw_target w' = sw_target w \<and> \<not> sn_delivery s'"
  by (auto simp: cleanSession_def releaseLimits_def split: prod.splits option.splits if_splits)

lemma Data_cases:
  assumes "Data ep di (s, w) = Return ((s', w'), err)" "sn_msgMeta s = Some meta" "prepareBody ep di meta = (meta', Inr (hdr, buf))"
  obtains meta2 t e where "data_deliver ep di hdr buf meta' (sw_target w) = (meta2, t, e)" "sw_target w' = t" "\<not> sn_delivery s'" "e = None \<longleftrightarrow> err = None"
  using assms by (auto simp: Data_def Let_def split: prod.splits dest!: clean_target)

definition accepted_input :: "'s endpoint \<Rightarrow> data_input \<Rightarrow> header \<Rightarrow> bool" where
  "accepted_input ep di hdr \<longleftrightarrow>
     (\<exists>body. di_open di = Inr (Inr body) \<and>
       (pgp_mime (ep_mime ep) (ml_Get (ep_mime ep) hdr ''Content-Type'') body \<or> IsSecureJoinMessage (ep_text ep) (ep_mime ep) hdr body)) \<and>
     int (length (sl_FieldsByKey (ep_subm ep) hdr ''Received'')) \<le> ep_maxReceived ep"

lemma Data_accepted:
  assumes "Data ep di (s, w) = Return ((s', w'), err)" "sw_target w' \<noteq> sw_target w \<or> err = None"
  shows "\<exists>meta meta' hdr buf. sn_msgMeta s = Some meta \<and> prepareBody ep di meta = (meta', Inr (hdr, buf)) \<and> accepted_input ep di hdr"
proof -
  obtain meta where m: "sn_msgMeta s = Some meta" using assms(1) by (auto simp: Data_def split: option.splits)
  obtain meta' r where p: "prepareBody ep di meta = (meta', r)" by fastforce
  obtain hdr buf where r: "r = Inr (hdr, buf)" using assms m p by (cases r) (auto simp: Data_def Let_def)
  from Data_cases [OF assms(1) m p [unfolded r]] assms(2) obtain meta2 t e where
    d: "data_deliver ep di hdr buf meta' (sw_target w) = (meta2, t, e)" "t \<noteq> sw_target w \<or> e = None" by metis
  from verify_accepted [OF data_deliver_accepted(1) [OF d]] loops_ok [OF data_deliver_accepted(2) [OF d]]
  have "accepted_input ep di hdr" by (simp add: accepted_input_def)
  with m p r show ?thesis by blast
qed

lemma LMTPData_accepted:
  assumes "LMTPData ep di (s, w) = Return ((s', w'), sts, err)" "sw_target w' \<noteq> sw_target w \<or> (\<exists>r. (r, None) \<in> set sts)"
  shows "\<exists>meta meta' hdr buf. sn_msgMeta s = Some meta \<and> prepareBody ep di meta = (meta', Inr (hdr, buf)) \<and> accepted_input ep di hdr"
proof -
  obtain meta where m: "sn_msgMeta s = Some meta" using assms(1) by (auto simp: LMTPData_def split: option.splits)
  obtain meta' r where p: "prepareBody ep di meta = (meta', r)" by fastforce
  obtain hdr buf where r: "r = Inr (hdr, buf)" using assms m p by (cases r) (auto simp: LMTPData_def Let_def)
  from assms m p r obtain meta2 t sts' e where d: "lmtp_deliver ep di (sn_rcpts s) hdr buf meta' (sw_target w) = Return (meta2, t, sts', e)"
    "t \<noteq> sw_target w \<or> (\<exists>r. (r, None) \<in> set sts')"
    by (auto simp: LMTPData_def Let_def dest!: clean_target) blast
  from verify_accepted [OF lmtp_deliver_accepted(1) [OF d]] loops_ok [OF lmtp_deliver_accepted(2) [OF d]]
  have "accepted_input ep di hdr" by (simp add: accepted_input_def)
  with m p r show ?thesis by blast
qed

section \<open>Properties\<close>

definition sample_ops :: "unit delivery_ops" where
  "sample_ops = \<lparr>dt_Start = (\<lambda>s m f. (s, None)), dl_AddRcpt = (\<lambda>s r. (s, None)), dl_Body = (\<lambda>s h b. (s, None)),
     dl_BodyNonAtomic = None, dl_Abort = (\<lambda>s. (s, None)), dl_Commit = (\<lambda>s. (s, None))\<rparr>"

definition sample_mime :: mime_lib where
  "sample_mime = \<lparr>ml_Get = (\<lambda>h k. ''-''), ParseMediaType = (\<lambda>ct. Inr (''multipart/encrypted'', ''b'')),
     ReadParts = (\<lambda>b body. ([\<lparr>mp_ContentType = ''application/pgp-encrypted'', mp_Data = Inr ''Version: 1''\<rparr>,
       \<lparr>mp_ContentType = ''application/octet-stream'', mp_Data = Inr body\<rparr>], PartsEOF))\<rparr>"

definition sample_subm :: subm_lib where
  "sample_subm = \<lparr>sl_Set = (\<lambda>h k v. h), sl_FieldsByKey = (\<lambda>h k. []), sl_ParseAddress = (\<lambda>a. None), sl_ParseAddressList = (\<lambda>a. Inr [a]),
     sl_timeParse = (\<lambda>l d. True), sl_EqualFold = (=)\<rparr>"

definition sample_ep :: "(unit \<times> dcall list) endpoint" where
  "sample_ep = \<lparr>ep_authAlwaysRequired = False, ep_submission = False, ep_deferServerReject = True, ep_maxLoggedRcptErrors = 5,
     ep_maxReceived = 50, ep_Domain = ''x'', ep_text = sample_text, ep_mime = sample_mime, ep_subm = sample_subm,
     ep_lib = \<lparr>lib_ErrAuthRequired = errors_New ''auth'', lib_EnhancedCodeNotSet = (-1, -1, -1), lib_Temporary = (\<lambda>c. Some (c div 100 = 4))\<rparr>,
     ep_pipeline = traced sample_ops\<rparr>"

definition sample_conn :: conn_state where
  "sample_conn = \<lparr>Hostname = ''h'', AuthUser = ''''\<rparr>"

definition sample_world :: "(unit \<times> dcall list) smtp_world" where
  "sample_world = \<lparr>sw_limits = \<lparr>g_global = [LSemaphore \<lparr>sem_cap = 2, sem_len = 0\<rparr>], g_ip = None, g_source = None, g_dest = None\<rparr>,
     sw_target = ((), []), sw_sessionCnt = 0\<rparr>"

definition sample_server :: "(unit \<times> dcall list) server" where
  "sample_server = \<lparr>srv_now = 0, srv_sessions = [], srv_refused = 0, srv_world = sample_world\<rparr>"

definition sample_meta :: msg_metadata where
  "sample_meta = \<lparr>ID = ''i'', OriginalFrom = '''', DontTraceSender = False, Quarantine = False, OriginalRcpts = Map.empty, SMTPOpts = no_opts,
     Conn = Some sample_conn, TLSRequireOverride = False\<rparr>"

definition sample_input :: "string \<Rightarrow> data_input" where
  "sample_input body = \<lparr>di_header = Inr [], di_uuid = Inr ''u'', di_now = ''n'', di_buffer = Inr (MemoryBuffer body), di_open = Inr (Inr body)\<rparr>"

definition sample_take2 :: take_env where
  "sample_take2 = sample_take\<lparr>te_now := 4, te_use := 5\<rparr>"

definition sample_session :: session where
  "sample_session = (newSession sample_conn ''a'')\<lparr>sn_msgMeta := Some sample_meta, sn_delivery := True\<rparr>"

definition sample_busy :: "(unit \<times> dcall list) smtp_world" where
  "sample_busy = sample_world\<lparr>sw_limits := \<lparr>g_global = [LSemaphore \<lparr>sem_cap = 2, sem_len = 1\<rparr>], g_ip = None, g_source = None, g_dest = None\<rparr>\<rparr>"

definition sample_body :: string where
  "sample_body = armor_header @ [LF, LF] @ ''0gEK'' @ [LF, CHR ''=''] @ ''abcd'' @ [LF] @ armor_footer"

lemmas sample_defs = sample_ops_def sample_mime_def sample_subm_def sample_ep_def sample_conn_def sample_world_def sample_server_def
  sample_meta_def sample_input_def

lemma sample_ep_fields [simp]:
  "ep_text sample_ep = sample_text" "ep_mime sample_ep = sample_mime" "ep_subm sample_ep = sample_subm" "ep_submission sample_ep = False"
  "ep_maxReceived sample_ep = 50" "ep_pipeline sample_ep = traced sample_ops" "ml_Get sample_mime h k = ''-''"
  "sl_FieldsByKey sample_subm h k = []" "di_header (sample_input b) = Inr []" "di_buffer (sample_input b) = Inr (MemoryBuffer b)"
  "di_open (sample_input b) = Inr (Inr b)" "sl_EqualFold sample_subm = (=)" "sn_msgMeta sample_session = Some sample_meta"
  "sw_target sample_busy = ((), [])" "sw_target (sample_world\<lparr>sw_target := x\<rparr>) = x"
  by (simp_all add: sample_defs sample_session_def sample_busy_def)

lemma sample_types:
  "HasPrefix (ToLower sample_text ''application/pgp-encrypted'') ''application/pgp-encrypted''"
  "HasPrefix (ToLower sample_text ''application/octet-stream'') ''application/octet-stream''"
  "TrimSpace ''Version: 1'' = ''Version: 1''"
  using TrimSpace_id [of "CHR ''V''" "CHR ''1''" "''ersion: ''"]
  by (simp_all add: ToLower_lower_ascii lower_ascii_def ascii_def HasPrefix_def)

lemma sample_no_join: "\<not> IsSecureJoinMessage sample_text sample_mime [] b"
proof -
  have "ToLower sample_text ''-'' = ''-''" by (simp add: ToLower_lower_ascii lower_ascii_def ascii_def)
  then show ?thesis by (simp add: IsSecureJoinMessage_def Let_def HasPrefix_def)
qed

lemma sample_verify: "verify_body sample_ep (sample_input sample_body) [] = Inr True"
  using sample_armored
  by (simp add: sample_types sample_mime_def verify_body_def IsAcceptedMessage_def IsValidEncryptedMessage_def sample_body_def)

text \<open>C19. Limits are balanced: in any sequence of connections, commands and disconnections of any number of sessions, each command one step, and
  whatever limiters, pipeline and checks answer, the limits count exactly the sessions with a delivery, each once, under its address and its sender
  domain, the counter of the sessions is their number less the refused connections, and the next command returns without a panic. Three cases in which
  the code fails are excluded by hypotheses: the sender has a normalized domain or errors of the sender are answered only at RCPT (\<open>cmd_ok\<close>), since a
  delivery is otherwise released under another domain than it was taken under; no table of limiters is above its bound at a command
  (\<open>group_room\<close>), since a full one panics; limits per source domain come with limits per address (the last conjunct of \<open>group_held\<close>),
  since they are otherwise released through a nil pointer. The library lets MAIL through only without a delivery and DATA only with one, and time does
  not run backwards.\<close>

theorem session_limits_balanced:
  assumes "server_reach ep v0 v" "srv_sessions v0 = []" "srv_refused v0 = 0" "sw_sessionCnt (srv_world v0) = 0"
    "group_held (srv_now v0) [] (sw_limits (srv_world v0))"
  shows "group_held (srv_now v) (server_held v) (sw_limits (srv_world v)) \<and>
    sw_sessionCnt (srv_world v) = int (length (srv_sessions v)) - int (srv_refused v) \<and>
    (\<forall>ev. event_ok ep v ev \<longrightarrow> (\<exists>v'. server_step ep ev v = Return v'))"
proof -
  have "server_inv v0" using assms(2-5) by (simp add: server_inv_def server_held_def)
  from reach_inv [OF assms(1) this] have "server_inv v" .
  with server_step_inv [of v ep] show ?thesis unfolding server_inv_def by blast
qed

theorem session_limits_balanced_witness:
  "\<exists>v v'. server_reach sample_ep sample_server v \<and> length (srv_sessions v) = 1 \<and> sw_sessionCnt (srv_world v) = 1 \<and>
    server_step sample_ep (Command 0 (CmdRcpt sample_take2 (Inr ''i'') ''b@y'')) v = Return v'"
proof -
  let ?c = "Connect sample_conn ''a'' None" and ?m = "Command 0 (CmdMail sample_take (Inr ''i'') '''' no_opts)"
  let ?v1 = "\<lparr>srv_now = 0, srv_sessions = [newSession sample_conn ''a''], srv_refused = 0, srv_world = sample_world\<lparr>sw_sessionCnt := 1\<rparr>\<rparr>"
  let ?v2 = "?v1\<lparr>srv_now := 4\<rparr>"
  have v: "server_step sample_ep ?c sample_server = Return ?v1" "server_step sample_ep ?m ?v1 = Return ?v2"
    by (simp_all add: NewSession_def newSession_def Mail_def sample_defs sample_take_def)
  have e: "event_ok sample_ep ?v1 ?m" by (simp add: newSession_def sample_defs sample_take_def group_room_def)
  have r: "server_reach sample_ep sample_server ?v2"
    by (rule reach_step [OF reach_step [OF reach_start _ v(1)] e v(2)]) simp
  have g: "group_held (srv_now sample_server) [] (sw_limits (srv_world sample_server))"
    by (simp add: group_held_def multi_held_def sample_defs)
  have z: "srv_sessions sample_server = []" "srv_refused sample_server = 0" "sw_sessionCnt (srv_world sample_server) = 0"
    by (simp_all add: sample_server_def sample_world_def)
  have "event_ok sample_ep ?v2 (Command 0 (CmdRcpt sample_take2 (Inr ''i'') ''b@y''))"
    by (simp add: sample_defs sample_take2_def sample_take_def group_room_def)
  with session_limits_balanced [OF r z g] obtain v' where
    "server_step sample_ep (Command 0 (CmdRcpt sample_take2 (Inr ''i'') ''b@y'')) ?v2 = Return v'" by blast
  with r show ?thesis by (intro exI [of _ ?v2] exI [of _ v']) simp
qed

text \<open>C20. Only accepted messages reach the pipeline: when \<open>Data\<close> or \<open>LMTPData\<close> changes the state of the pipeline or reports success,
  then the header was parsed and prepared, the buffered body is a PGP/MIME message with an encrypted payload or a message of the key
  exchange, and the message has no more Received fields than allowed.\<close>

theorem session_only_accepted:
  assumes "(\<exists>err. Data ep di (s, w) = Return ((s', w'), err) \<and> (sw_target w' \<noteq> sw_target w \<or> err = None)) \<or>
    (\<exists>sts err. LMTPData ep di (s, w) = Return ((s', w'), sts, err) \<and> (sw_target w' \<noteq> sw_target w \<or> (\<exists>r. (r, None) \<in> set sts)))"
  shows "\<exists>meta meta' hdr buf body. sn_msgMeta s = Some meta \<and> prepareBody ep di meta = (meta', Inr (hdr, buf)) \<and>
    di_open di = Inr (Inr body) \<and>
    (pgp_mime (ep_mime ep) (ml_Get (ep_mime ep) hdr ''Content-Type'') body \<or> IsSecureJoinMessage (ep_text ep) (ep_mime ep) hdr body) \<and>
    int (length (sl_FieldsByKey (ep_subm ep) hdr ''Received'')) \<le> ep_maxReceived ep"
  using assms Data_accepted [of ep di s w s' w'] LMTPData_accepted [of ep di s w s' w'] unfolding accepted_input_def by metis

lemma sample_clean:
  "cleanSession (sample_session\<lparr>sn_msgMeta := Some m\<rparr>, sample_busy\<lparr>sw_target := x\<rparr>) =
    Return (newSession sample_conn ''a'', sample_world\<lparr>sw_target := x\<rparr>)"
proof -
  have "op_Release mops [LSemaphore \<lparr>sem_cap = 2, sem_len = 1\<rparr>] = Return [LSemaphore \<lparr>sem_cap = 2, sem_len = 0\<rparr>]" by code_simp
  then show ?thesis
    by (simp add: cleanSession_def releaseLimits_def sample_session_def newSession_def sample_busy_def sample_world_def ReleaseMsg_def
        Let_def)
qed

theorem session_only_accepted_witness:
  "\<exists>s' w'. Data sample_ep (sample_input sample_body) (sample_session, sample_busy) = Return ((s', w'), None) \<and>
    sw_target w' = ((), [CBody, CCommit]) \<and> pgp_mime sample_mime ''-'' sample_body"
proof -
  have "\<exists>s' w'. Data sample_ep (sample_input sample_body) (sample_session, sample_busy) = Return ((s', w'), None) \<and>
    sw_target w' = ((), [CBody, CCommit])"
    using sample_verify
    by (simp add: Data_def prepareBody_def data_deliver_def checkRoutingLoops_def traced_def sample_ops_def sample_clean Let_def)
  then obtain s' w' where d: "Data sample_ep (sample_input sample_body) (sample_session, sample_busy) = Return ((s', w'), None)"
    "sw_target w' = ((), [CBody, CCommit])" by blast
  with session_only_accepted [of sample_ep "sample_input sample_body" sample_session sample_busy s' w'] have
    "pgp_mime sample_mime ''-'' sample_body \<or> IsSecureJoinMessage sample_text sample_mime [] sample_body"
    by (auto simp: prepareBody_def)
  then show ?thesis using d by (auto simp: sample_no_join)
qed

text \<open>A refused delivery is dropped: when the body is not encrypted, loops, or is refused by the pipeline, \<open>Data\<close> answers
  with an error and forgets the delivery without a call of \<open>Abort\<close> or \<open>Commit\<close>; the RSET that follows does nothing.\<close>

theorem session_refused_not_finished:
  assumes "ep_pipeline ep = traced ops" "sess_ok s" "sn_delivery s" "group_held t (sess_held s @ hs) (sw_limits w)" "sn_msgMeta s = Some meta"
    "prepareBody ep di meta = (meta', Inr (hdr, buf))"
    "verify_body ep di hdr \<noteq> Inr True \<or> checkRoutingLoops ep hdr \<noteq> None \<or> snd (dl_Body ops (fst (sw_target w)) hdr buf) \<noteq> None"
  shows "\<exists>s' w' e. Data ep di (s, w) = Return ((s', w'), Some e) \<and>
    snd (sw_target w') \<in> {snd (sw_target w), snd (sw_target w) @ [CBody]} \<and> Reset ep (s', w') = Return (s', w')"
proof -
  obtain st' where "sess_exec ep (CmdData di) (s, w) = Return st'"
    using exec_data(1) [of t hs s w ep di] assms(2-4) by (auto simp: balanced_def)
  then obtain s' w' err where d: "Data ep di (s, w) = Return ((s', w'), err)" by auto
  obtain meta2 x e where x: "data_deliver ep di hdr buf meta' (sw_target w) = (meta2, x, e)" "sw_target w' = x" "\<not> sn_delivery s'" "e = None \<longleftrightarrow> err = None"
    by (rule Data_cases [OF d assms(5,6)])
  have "e \<noteq> None \<and> snd x \<in> {snd (sw_target w), snd (sw_target w) @ [CBody]}"
  proof (cases "verify_body ep di hdr = Inr True \<and> checkRoutingLoops ep hdr = None")
    case True
    then obtain y m where "dl_Body ops (fst (sw_target w)) hdr buf = (y, Some m)" using assms(7) by (metis option.exhaust surj_pair snd_conv)
    then have "dl_Body (ep_pipeline ep) (sw_target w) hdr buf = ((y, snd (sw_target w) @ [CBody]), Some m)"
      by (simp add: assms(1) traced_def case_prod_unfold)
    with x(1) True show ?thesis by (auto simp: data_deliver_def Let_def)
  next
    case False
    with x(1) show ?thesis by (cases "checkRoutingLoops ep hdr") (auto simp: data_deliver_def dest: sym split: sum.splits if_splits)
  qed
  with d x show ?thesis by (auto simp: Reset_def)
qed

lemma sample_unencrypted: "verify_body sample_ep (sample_input ''--'') [] \<noteq> Inr True"
proof -
  have "\<not> isValidEncryptedPayload ''--''" using TrimSpace_dashes [of "[]"]
    by (simp add: isValidEncryptedPayload_def Let_def HasPrefix_def armor_header_def isEncryptedOpenPGPPayload_def bytes_of_def
        packets_loop.simps read_packet_def)
  then show ?thesis using sample_no_join [of "''--''"]
    by (simp add: sample_types sample_mime_def verify_body_def IsAcceptedMessage_def IsValidEncryptedMessage_def)
qed

text \<open>A refused sender blocks the connection: after the start of a deferred delivery failed, RSET changes nothing, MAIL accepts any new sender,
  and every RCPT is answered with the old error, without asking limits or pipeline.\<close>

theorem session_deferred_error_sticks:
  assumes "ep_deferServerReject ep" "\<not> sn_delivery s" "deliveryErr s = Some e" "\<not> ep_authAlwaysRequired ep \<or> AuthUser (sn_conn s) \<noteq> ''''"
  shows "\<exists>s1 s2. Reset ep (s, w) = Return (s, w) \<and> Mail ep te i sender opts (s, w) = Return ((s1, w), None) \<and>
    Rcpt ep te' i' to (s1, w) = Return ((s2, w), Some e) \<and> deliveryErr s2 = Some e \<and> \<not> sn_delivery s2"
  using assms by (auto simp: Reset_def Mail_def Rcpt_def)

section \<open>Faults\<close>

text \<open>\<open>Mail\<close> replaces the normalized sender by the one of the client. When the two have different domains and the delivery is not deferred,
  the limits are released for a domain that was never taken.\<close>

lemma released_domain:
  assumes "Mail ep te i sender opts (s, w) = Return ((s', w'), None)" "sn_msgMeta s' \<noteq> None" "sender_domain sender = Inr d"
  shows "releaseLimits (s', w') = obind (ReleaseMsg (sn_addr s') d (sw_limits w')) (\<lambda>g. Return (s', w'\<lparr>sw_limits := g\<rparr>))"
proof -
  have "sn_mailFrom s' = sender" using assms(1) by (auto simp: Mail_def split: if_splits option.splits)
  then obtain l where "(if sn_mailFrom s' = '''' then ('''', '''', None) else Split (sn_mailFrom s')) = (l, d, None)"
    using assms(3) by (auto simp: sender_domain_def split: if_splits prod.splits option.splits)
  with assms(2) show ?thesis by (auto simp: releaseLimits_def)
qed

end
