(* ===== verification/Smtp_Conn.thy ===== *)
theory Smtp_Conn
  imports Address Module_Api "HOL-Library.AList"
begin

text \<open>
  Model of the wrapper around the SMTP client: \<^verbatim>\<open>internal/smtpconn/smtpconn.go\<close>.

  The client itself, of \<^verbatim>\<open>go-smtp\<close>, and the network behind it are the argument \<open>net_ops\<close>; a client is a number, the state of all of them is
  threaded through. The wrapper turns the errors of the client into errors with SMTP codes, converts addresses for servers
  without SMTPUTF8, and remembers the accepted recipients. Timeouts and log output are left out.
\<close>

section \<open>The client\<close>

record tls_config =
  ServerName :: string
  InsecureSkipVerify :: bool

text \<open>\<open>no_OpError\<close> tells which errors are network errors: address, operation, and whether a DNS error is inside. \<open>no_Temporary\<close>
  is the answer of the errors of \<^verbatim>\<open>go-smtp\<close> for a code, \<open>no_format\<close> the text of a map of errors.\<close>

record 'n net_ops =
  no_Dial :: "string \<Rightarrow> 'n \<Rightarrow> 'n \<times> (goerr + nat)"
  no_TLSClient :: "nat \<Rightarrow> tls_config \<Rightarrow> 'n \<Rightarrow> 'n"
  no_Hello :: "nat \<Rightarrow> 'n \<Rightarrow> 'n \<times> goerr option"
  no_Extension :: "nat \<Rightarrow> string \<Rightarrow> 'n \<Rightarrow> bool"
  no_StartTLS :: "nat \<Rightarrow> tls_config \<Rightarrow> 'n \<Rightarrow> 'n \<times> goerr option"
  no_Mail :: "nat \<Rightarrow> string \<Rightarrow> mail_options \<Rightarrow> 'n \<Rightarrow> 'n \<times> goerr option"
  no_Rcpt :: "nat \<Rightarrow> string \<Rightarrow> 'n \<Rightarrow> 'n \<times> goerr option"
  no_Data :: "nat \<Rightarrow> 'n \<Rightarrow> 'n \<times> goerr option"
  no_WriteHeader :: "nat \<Rightarrow> header \<Rightarrow> 'n \<Rightarrow> 'n \<times> goerr option"
  no_Copy :: "nat \<Rightarrow> string \<Rightarrow> 'n \<Rightarrow> 'n \<times> goerr option"
  no_CloseData :: "nat \<Rightarrow> 'n \<Rightarrow> 'n \<times> goerr option"
  no_CloseLMTP :: "nat \<Rightarrow> 'n \<Rightarrow> 'n \<times> (string \<times> goerr option) list \<times> goerr option"
  no_Reset :: "nat \<Rightarrow> 'n \<Rightarrow> 'n \<times> goerr option"
  no_Quit :: "nat \<Rightarrow> 'n \<Rightarrow> 'n \<times> goerr option"
  no_Close :: "nat \<Rightarrow> 'n \<Rightarrow> 'n \<times> goerr option"
  no_OpError :: "goerr \<Rightarrow> (string \<times> string \<times> bool) option"
  no_isVerify :: "goerr \<Rightarrow> goerr option"
  no_Temporary :: "int \<Rightarrow> bool option"
  no_format :: "(string \<times> goerr option) list \<Rightarrow> string"

record smtp_c =
  sc_AddrInSMTPMsg :: bool
  sc_serverName :: string
  sc_cl :: "nat option"
  sc_rcpts :: "string list"
  sc_lmtp :: bool

definition smtpconn_New :: smtp_c where
  "smtpconn_New = \<lparr>sc_AddrInSMTPMsg = False, sc_serverName = '''', sc_cl = None, sc_rcpts = [], sc_lmtp = False\<rparr>"

record endp =
  en_Host :: string
  en_IsTLS :: bool

section \<open>Errors\<close>

text \<open>\<open>TLSError\<close> is a wrapper with a text of its own.\<close>

definition TLSError :: "goerr \<Rightarrow> goerr" where
  "TLSError e = Wrapf ''smtpconn: '' e"

definition net_error :: "int \<Rightarrow> ench \<Rightarrow> string \<Rightarrow> fields \<Rightarrow> goerr \<Rightarrow> goerr" where
  "net_error code ec msg misc e =
     SMTPError \<lparr>Code = code, EnhancedCode = ec, Message = msg, CheckName = '''', TargetName = '''', ModifierName = '''', Reason = '''',
       Misc = misc\<rparr> (Some e)"

definition wrapClientErr :: "'n net_ops \<Rightarrow> smtp_c \<Rightarrow> string \<Rightarrow> goerr \<Rightarrow> goerr" where
  "wrapClientErr no c serverName err =
     (let other =
            (case no_OpError no err of
               Some (addr, op, dns) \<Rightarrow>
                 if dns then
                   net_error (SMTPCode (Some err) 450 550) (SMTPEnchCode (Some err) (0, 4, 4)) ''DNS error''
                     [''remote_server'' \<mapsto> FOther addr, ''io_op'' \<mapsto> FStr op] err
                 else
                   net_error 450 (4, 4, 2) ''Network I/O error'' [''remote_addr'' \<mapsto> FOther addr, ''io_op'' \<mapsto> FStr op] err
             | None \<Rightarrow> WithFields err [''remote_server'' \<mapsto> FStr serverName])
      in case err of
           Wrapf pre e \<Rightarrow> if pre = ''smtpconn: '' then err else other
         | SMTPError se cause \<Rightarrow> err
         | LibSMTPError code ec message t \<Rightarrow>
             let msg = (if sc_AddrInSMTPMsg c then serverName @ '' said: '' @ message else message);
                 (code, ec, t) = (if code = 552 then (452, (4, snd ec), no_Temporary no 452) else (code, ec, t))
             in net_error code ec msg [''remote_server'' \<mapsto> FStr serverName] (LibSMTPError code ec message t)
         | _ \<Rightarrow> other)"

definition wrap_opt :: "'n net_ops \<Rightarrow> smtp_c \<Rightarrow> goerr option \<Rightarrow> goerr option" where
  "wrap_opt no c = map_option (wrapClientErr no c (sc_serverName c))"

section \<open>Connecting\<close>

text \<open>A second HELO after STARTTLS.\<close>

definition hello_tls :: "'n net_ops \<Rightarrow> nat \<Rightarrow> 'n \<Rightarrow> 'n \<times> (goerr + bool \<times> nat)" where
  "hello_tls no cl n =
     (case no_Hello no cl n of
        (n, None) \<Rightarrow> (n, Inr (True, cl))
      | (n, Some e) \<Rightarrow>
          (fst (no_Close no cl n), Inl (case no_isVerify no e of Some tlsErr \<Rightarrow> TLSError tlsErr | None \<Rightarrow> e)))"

text \<open>\<open>QUIT\<close>, and a plain close if it fails.\<close>

definition quit_close :: "'n net_ops \<Rightarrow> nat \<Rightarrow> 'n \<Rightarrow> 'n" where
  "quit_close no cl n = (case no_Quit no cl n of (n, None) \<Rightarrow> n | (n, Some e) \<Rightarrow> fst (no_Close no cl n))"

definition attemptConnect ::
    "'n net_ops \<Rightarrow> endp \<Rightarrow> bool \<Rightarrow> tls_config option \<Rightarrow> 'n \<Rightarrow> ('n \<times> (goerr + bool \<times> nat)) outcome" where
  "attemptConnect no ep starttls tlsConfig n =
     (case no_Dial no (en_Host ep) n of
        (n, Inl e) \<Rightarrow> Return (n, Inl e)
      | (n, Inr cl) \<Rightarrow>
          obind (if en_IsTLS ep then
                   (case tlsConfig of
                      None \<Rightarrow> nil_deref
                    | Some cfg \<Rightarrow> Return (no_TLSClient no cl (cfg\<lparr>ServerName := en_Host ep\<rparr>) n))
                 else Return n) (\<lambda>n.
            case no_Hello no cl n of
              (n, Some e) \<Rightarrow> Return (fst (no_Close no cl n), Inl e)
            | (n, None) \<Rightarrow>
                if \<not> starttls then Return (n, Inr (False, cl))
                else if \<not> no_Extension no cl ''STARTTLS'' n then
                  Return (quit_close no cl n, Inl (Opaque ''TLS required but unsupported by downstream'' None))
                else
                  (case tlsConfig of
                     None \<Rightarrow> nil_deref
                   | Some cfg \<Rightarrow>
                       (case no_StartTLS no cl (cfg\<lparr>ServerName := en_Host ep\<rparr>) n of
                          (n, Some e) \<Rightarrow> Return (quit_close no cl n, Inl (TLSError e))
                        | (n, None) \<Rightarrow> Return (hello_tls no cl n)))))"

text \<open>\<open>Connect\<close> and \<open>ConnectLMTP\<close>. The flag \<open>lmtp\<close> is set as soon as the dialer has succeeded.\<close>

definition conn_Connect ::
    "'n net_ops \<Rightarrow> bool \<Rightarrow> endp \<Rightarrow> bool \<Rightarrow> tls_config option \<Rightarrow> smtp_c \<times> 'n \<Rightarrow> ((smtp_c \<times> 'n) \<times> (goerr + bool)) outcome" where
  "conn_Connect no lmtp ep starttls tlsConfig st =
     (case st of (c, n) \<Rightarrow>
        obind (attemptConnect no ep starttls tlsConfig n) (\<lambda>(n', r).
          let c = (if isl (snd (no_Dial no (en_Host ep) n)) then c else c\<lparr>sc_lmtp := lmtp\<rparr>) in
          case r of
            Inl e \<Rightarrow> Return ((c, n'), Inl (wrapClientErr no c (en_Host ep) e))
          | Inr (didTLS, cl) \<Rightarrow> Return ((c\<lparr>sc_serverName := en_Host ep, sc_cl := Some cl\<rparr>, n'), Inr didTLS)))"

section \<open>A transaction\<close>

definition conn_Mail ::
    "'n net_ops \<Rightarrow> textlib \<Rightarrow> string \<Rightarrow> mail_options \<Rightarrow> smtp_c \<times> 'n \<Rightarrow> ('n \<times> goerr option) outcome" where
  "conn_Mail no tx from opts st =
     (case st of (c, n) \<Rightarrow>
        (case sc_cl c of
           None \<Rightarrow> nil_deref
         | Some cl \<Rightarrow>
             let outOpts = \<lparr>UTF8 = False, RequireTLS = RequireTLS opts\<rparr>;
                 (from, outOpts, err) =
                   (if UTF8 opts then
                      if no_Extension no cl ''SMTPUTF8'' n then (from, outOpts\<lparr>UTF8 := True\<rparr>, None)
                      else (case ToASCII tx from of (from, err) \<Rightarrow> (from, outOpts, err))
                    else (from, outOpts, None))
             in case err of
                  Some e \<Rightarrow>
                    Return (n, Some (net_error 550 (5, 6, 7) ''SMTPUTF8 is unsupported, cannot convert sender address''
                      [''remote_server'' \<mapsto> FStr (sc_serverName c)] e))
                | None \<Rightarrow> (case no_Mail no cl from outOpts n of (n, err) \<Rightarrow> Return (n, wrap_opt no c err))))"

text \<open>The recipient is remembered as it was sent, after the conversion.\<close>

definition conn_Rcpt :: "'n net_ops \<Rightarrow> textlib \<Rightarrow> string \<Rightarrow> smtp_c \<times> 'n \<Rightarrow> ((smtp_c \<times> 'n) \<times> goerr option) outcome" where
  "conn_Rcpt no tx to st =
     (case st of (c, n) \<Rightarrow>
        (case sc_cl c of
           None \<Rightarrow> nil_deref
         | Some cl \<Rightarrow>
             (case (if \<not> IsASCII to \<and> \<not> no_Extension no cl ''SMTPUTF8'' n then ToASCII tx to else (to, None)) of
                (_, Some e) \<Rightarrow>
                  Return ((c, n), Some (net_error 553 (5, 6, 7) ''SMTPUTF8 is unsupported, cannot convert recipient address''
                    [''remote_server'' \<mapsto> FStr (sc_serverName c)] e))
              | (to, None) \<Rightarrow>
                  (case no_Rcpt no cl to n of
                     (n, Some e) \<Rightarrow> Return ((c, n), wrap_opt no c (Some e))
                   | (n, None) \<Rightarrow> Return ((c\<lparr>sc_rcpts := sc_rcpts c @ [to]\<rparr>, n), None)))))"

text \<open>The steps of sending a message; \<open>finish\<close> closes the writer.\<close>

definition send_message ::
    "'n net_ops \<Rightarrow> nat \<Rightarrow> header \<Rightarrow> string \<Rightarrow> ('n \<Rightarrow> 'n \<times> goerr option) \<Rightarrow> 'n \<Rightarrow> 'n \<times> goerr option" where
  "send_message no cl hdr body finish n =
     (case no_Data no cl n of
        (n, Some e) \<Rightarrow> (n, Some e)
      | (n, None) \<Rightarrow>
          (case no_WriteHeader no cl hdr n of
             (n, Some e) \<Rightarrow> (n, Some e)
           | (n, None) \<Rightarrow>
               (case no_Copy no cl body n of
                  (n, Some e) \<Rightarrow> (n, Some e)
                | (n, None) \<Rightarrow> finish n)))"

text \<open>The errors of an LMTP server as one error: a single one is passed through.\<close>

definition lmtpError :: "'n net_ops \<Rightarrow> (string \<times> goerr option) list \<Rightarrow> goerr" where
  "lmtpError no sts =
     (case List.map_filter snd sts of
        [e] \<Rightarrow> Wrapf '''' e
      | _ \<Rightarrow> Opaque (''multiple errors reported by LMTP downstream: '' @ no_format no sts) None)"

text \<open>A map from recipients to statuses: the last status of a recipient stays.\<close>

definition status_map :: "(string \<times> goerr option) list \<Rightarrow> (string \<times> goerr option) list" where
  "status_map sts = fold (\<lambda>(r, e). AList.update r e) sts []"

definition conn_LMTPData ::
    "'n net_ops \<Rightarrow> header \<Rightarrow> string \<Rightarrow> smtp_c \<times> 'n \<Rightarrow> ('n \<times> (string \<times> goerr option) list \<times> goerr option) outcome" where
  "conn_LMTPData no hdr body st =
     (case st of (c, n) \<Rightarrow>
        (case sc_cl c of
           None \<Rightarrow> nil_deref
         | Some cl \<Rightarrow>
             (case send_message no cl hdr body (\<lambda>n. (n, None)) n of
                (n, Some e) \<Rightarrow> Return (n, [], wrap_opt no c (Some e))
              | (n, None) \<Rightarrow>
                  (case no_CloseLMTP no cl n of (n, sts, err) \<Rightarrow> Return (n, sts, wrap_opt no c err)))))"

definition conn_Data :: "'n net_ops \<Rightarrow> header \<Rightarrow> string \<Rightarrow> smtp_c \<times> 'n \<Rightarrow> ('n \<times> goerr option) outcome" where
  "conn_Data no hdr body st =
     (case st of (c, n) \<Rightarrow>
        if sc_lmtp c then
          obind (conn_LMTPData no hdr body st) (\<lambda>(n, sts, err). Return
            (case err of
               Some e \<Rightarrow> (n, Some e)
             | None \<Rightarrow>
                 let statusCb = status_map sts in
                 (n, if list_ex (\<lambda>(r, e). e \<noteq> None) statusCb then Some (lmtpError no statusCb) else None)))
        else
          (case sc_cl c of
             None \<Rightarrow> nil_deref
           | Some cl \<Rightarrow>
               (case send_message no cl hdr body (no_CloseData no cl) n of (n, err) \<Rightarrow> Return (n, wrap_opt no c err))))"

text \<open>When QUIT fails the client is closed but stays in the object.\<close>

definition conn_Close :: "'n net_ops \<Rightarrow> smtp_c \<times> 'n \<Rightarrow> ((smtp_c \<times> 'n) \<times> goerr option) outcome" where
  "conn_Close no st =
     (case st of (c, n) \<Rightarrow>
        (case sc_cl c of
           None \<Rightarrow> nil_deref
         | Some cl \<Rightarrow>
             (case no_Quit no cl n of
                (n, Some e) \<Rightarrow> (case no_Close no cl n of (n, err) \<Rightarrow> Return ((c, n), err))
              | (n, None) \<Rightarrow> Return ((c\<lparr>sc_cl := None, sc_serverName := ''''\<rparr>, n), None))))"

definition DirectClose :: "'n net_ops \<Rightarrow> smtp_c \<times> 'n \<Rightarrow> (smtp_c \<times> 'n) outcome" where
  "DirectClose no st =
     (case st of (c, n) \<Rightarrow>
        (case sc_cl c of
           None \<Rightarrow> nil_deref
         | Some cl \<Rightarrow> Return (c\<lparr>sc_cl := None, sc_serverName := ''''\<rparr>, fst (no_Close no cl n))))"

end
