(* ===== verification/Mx_Auth.thy ===== *)
theory Mx_Auth
  imports Exterrors
begin

text \<open>
  Model of the security levels of outgoing connections and the policies that establish and demand them:
  \<^verbatim>\<open>framework/module/mxauth.go\<close>, \<^verbatim>\<open>internal/target/remote/security.go\<close>, \<^verbatim>\<open>dane.go\<close>, \<^verbatim>\<open>policy_group.go\<close>, and the two loops of
  \<^verbatim>\<open>connect.go\<close> that run the policies of a delivery.

  A policy object of one delivery is a value of \<open>policy\<close>; its future is the answer that the lookup will give. The MTA-STS cache, the
  DNSSEC resolver and the verification of certificates are arguments. A wait for a future ends with the answer, or with the error of the context.
\<close>

section \<open>Levels\<close>

datatype TLSLevel = TLSNone | TLSEncrypted | TLSAuthenticated

datatype MXLevel = MXNone | MX_MTASTS | MX_DNSSEC

primrec tls_rank :: "TLSLevel \<Rightarrow> nat" where
  "tls_rank TLSNone = 0"
| "tls_rank TLSEncrypted = 1"
| "tls_rank TLSAuthenticated = 2"

primrec mx_rank :: "MXLevel \<Rightarrow> nat" where
  "mx_rank MXNone = 0"
| "mx_rank MX_MTASTS = 1"
| "mx_rank MX_DNSSEC = 2"

instantiation TLSLevel :: linorder
begin

definition less_eq_TLSLevel :: "TLSLevel \<Rightarrow> TLSLevel \<Rightarrow> bool" where
  "less_eq_TLSLevel a b \<longleftrightarrow> tls_rank a \<le> tls_rank b"

definition less_TLSLevel :: "TLSLevel \<Rightarrow> TLSLevel \<Rightarrow> bool" where
  "less_TLSLevel a b \<longleftrightarrow> tls_rank a < tls_rank b"

instance
proof
  fix x y :: TLSLevel
  show "x \<le> y \<Longrightarrow> y \<le> x \<Longrightarrow> x = y" by (cases x; cases y) (simp_all add: less_eq_TLSLevel_def)
qed (auto simp: less_eq_TLSLevel_def less_TLSLevel_def)

end

instantiation MXLevel :: linorder
begin

definition less_eq_MXLevel :: "MXLevel \<Rightarrow> MXLevel \<Rightarrow> bool" where
  "less_eq_MXLevel a b \<longleftrightarrow> mx_rank a \<le> mx_rank b"

definition less_MXLevel :: "MXLevel \<Rightarrow> MXLevel \<Rightarrow> bool" where
  "less_MXLevel a b \<longleftrightarrow> mx_rank a < mx_rank b"

instance
proof
  fix x y :: MXLevel
  show "x \<le> y \<Longrightarrow> y \<le> x \<Longrightarrow> x = y" by (cases x; cases y) (simp_all add: less_eq_MXLevel_def)
qed (auto simp: less_eq_MXLevel_def less_MXLevel_def)

end

lemmas level_simps = less_eq_TLSLevel_def less_TLSLevel_def less_eq_MXLevel_def less_MXLevel_def

lemma level_bounds [simp]: "TLSNone \<le> l" "MXNone \<le> m" "l \<le> TLSAuthenticated" "m \<le> MX_DNSSEC"
  by (cases l; cases m; simp add: level_simps)+

lemma no_level_below [simp]: "\<not> l < TLSNone" "\<not> m < MXNone"
  by (simp_all add: level_simps)

fun tls_String :: "TLSLevel \<Rightarrow> string" where
  "tls_String TLSNone = ''none''"
| "tls_String TLSEncrypted = ''encrypted''"
| "tls_String TLSAuthenticated = ''authenticated''"

fun mx_String :: "MXLevel \<Rightarrow> string" where
  "mx_String MXNone = ''none''"
| "mx_String MX_MTASTS = ''mtasts''"
| "mx_String MX_DNSSEC = ''dnssec''"

section \<open>DANE\<close>

record cert =
  IsCA :: bool
  cert_Raw :: string

record tls_state =
  HandshakeComplete :: bool
  VerifiedChains :: bool
  st_ServerName :: string
  PeerCertificates :: "cert list"

record tlsa =
  Usage :: nat
  Selector :: nat
  MatchingType :: nat
  tlsa_Certificate :: string

text \<open>\<open>da_Verify\<close> tells whether a record matches a certificate, \<open>da_x509\<close> is the verification of a chain with the given name, roots and
  intermediates.\<close>

record dane_lib =
  da_Verify :: "tlsa \<Rightarrow> cert \<Rightarrow> bool"
  da_x509 :: "string \<Rightarrow> cert list \<Rightarrow> cert list \<Rightarrow> cert \<Rightarrow> bool"

definition policy_error :: "int \<Rightarrow> ench \<Rightarrow> string \<Rightarrow> string \<Rightarrow> fields \<Rightarrow> goerr" where
  "policy_error code ec msg target misc =
     SMTPError \<lparr>Code = code, EnhancedCode = ec, Message = msg, CheckName = '''', TargetName = target, ModifierName = '''', Reason = '''',
       Misc = misc\<rparr> None"

definition usable_tlsa :: "tlsa \<Rightarrow> bool" where
  "usable_tlsa r \<longleftrightarrow> MatchingType r \<in> {0, 1, 2} \<and> Selector r \<in> {0, 1}"

definition no_match_err :: "tls_state \<Rightarrow> goerr" where
  "no_match_err st = policy_error 550 (5, 7, 0) ''No matching TLSA records'' ''remote'' [''remote_server'' \<mapsto> FStr (st_ServerName st)]"

definition verifyDANE :: "dane_lib \<Rightarrow> tlsa list \<Rightarrow> tls_state \<Rightarrow> (bool \<times> goerr option) outcome" where
  "verifyDANE da recs st =
     (if recs = [] then Return (False, None)
      else if \<not> HandshakeComplete st then
        Return (False, Some (policy_error 550 (5, 7, 1) ''TLS is required but unsupported or failed (enforced by DANE)'' ''remote''
          [''remote_server'' \<mapsto> FStr (st_ServerName st)]))
      else
        let eeRecs = filter (\<lambda>r. usable_tlsa r \<and> Usage r = 3) recs;
            taRecs = filter (\<lambda>r. usable_tlsa r \<and> Usage r = 2) recs
        in if eeRecs = [] \<and> taRecs = [] then Return (False, None)
           else
             (case PeerCertificates st of
                [] \<Rightarrow> Panic ''index out of range''
              | leaf # _ \<Rightarrow>
                  if list_ex (\<lambda>r. da_Verify da r leaf) eeRecs then Return (True, None)
                  else if taRecs = [] then Return (True, Some (no_match_err st))
                  else
                    let is_root = (\<lambda>c. list_ex (\<lambda>r. IsCA c \<and> da_Verify da r c) taRecs) in
                    if da_x509 da (st_ServerName st) (filter is_root (PeerCertificates st)) (filter (\<lambda>c. \<not> is_root c) (PeerCertificates st)) leaf
                    then Return (True, None)
                    else Return (False, Some (no_match_err st))))"

text \<open>The DNSSEC-aware resolver: \<open>CheckCNAMEAD\<close> (authenticated, canonical name), \<open>AuthLookupCNAME\<close> (authenticated), \<open>AuthLookupTLSA\<close>
  (error, authenticated, records).\<close>

record ext_resolver =
  CheckCNAMEAD :: "string \<Rightarrow> goerr + bool \<times> string"
  AuthLookupCNAME :: "string \<Rightarrow> goerr + bool"
  AuthLookupTLSA :: "string \<Rightarrow> goerr option \<times> bool \<times> tlsa list"
  dns_IsNotFound :: "goerr \<Rightarrow> bool"

text \<open>The second half of \<open>discoverTLSA\<close>: the canonical name first, then the initial one.\<close>

definition lookup_tlsa :: "ext_resolver \<Rightarrow> string \<Rightarrow> string \<Rightarrow> goerr + tlsa list" where
  "lookup_tlsa er mx rname =
     (let fallback =
            (case AuthLookupTLSA er mx of
               (err, ad, recs) \<Rightarrow>
                 (case err of
                    Some e \<Rightarrow> if \<not> dns_IsNotFound er e then Inl e else if \<not> ad then Inr [] else Inr recs
                  | None \<Rightarrow> if \<not> ad then Inr [] else Inr recs))
      in if rname \<noteq> mx then
           (case AuthLookupTLSA er rname of
              (err, ad, recs) \<Rightarrow>
                (case err of
                   Some e \<Rightarrow> if \<not> dns_IsNotFound er e then Inl e else if ad \<and> recs \<noteq> [] then Inr recs else fallback
                 | None \<Rightarrow> if ad \<and> recs \<noteq> [] then Inr recs else fallback))
         else fallback)"

definition discoverTLSA :: "ext_resolver \<Rightarrow> string \<Rightarrow> goerr + tlsa list" where
  "discoverTLSA er mx =
     (case CheckCNAMEAD er mx of
        Inl e \<Rightarrow> Inl e
      | Inr (adA, rname) \<Rightarrow>
          if rname = '''' then Inl (Opaque ''no address associated with the host'' None)
          else if \<not> adA then
            if rname = mx then Inr []
            else (case AuthLookupCNAME er mx of
                    Inl e \<Rightarrow> Inl e
                  | Inr cnameAD \<Rightarrow> if \<not> cnameAD then Inr [] else lookup_tlsa er mx rname)
          else lookup_tlsa er mx rname)"

section \<open>Policies\<close>

record sts_policy =
  sts_Match :: "string \<Rightarrow> bool"
  sts_Enforce :: bool

datatype policy =
    MTASTS "(goerr + sts_policy) option"
  | STSPreload
  | DNSSEC
  | DANE "(goerr + tlsa list) option"
  | LocalPolicy TLSLevel MXLevel

record policy_env =
  px_mtastsGet :: "string \<Rightarrow> goerr + sts_policy"
  px_extResolver :: "ext_resolver option"
  px_FQDN :: "string \<Rightarrow> string"
  px_dane :: dane_lib
  px_ctx_mx :: "goerr option"
  px_ctx_conn :: "goerr option"

text \<open>\<open>Future.GetContext\<close>. A future that was never made panics.\<close>

definition fut_get :: "goerr option \<Rightarrow> (goerr + 'a) option \<Rightarrow> (goerr + 'a) outcome" where
  "fut_get ctx fut =
     (case fut of
        None \<Rightarrow> Panic ''nil future used''
      | Some r \<Rightarrow> Return (case ctx of Some e \<Rightarrow> Inl e | None \<Rightarrow> r))"

definition mtasts_PrepareDomain :: "policy_env \<Rightarrow> string \<Rightarrow> policy" where
  "mtasts_PrepareDomain env domain = MTASTS (Some (px_mtastsGet env domain))"

definition dane_PrepareConn :: "policy_env \<Rightarrow> string \<Rightarrow> (goerr + tlsa list) option \<Rightarrow> policy" where
  "dane_PrepareConn env mx fut =
     (case px_extResolver env of None \<Rightarrow> DANE fut | Some er \<Rightarrow> DANE (Some (discoverTLSA er (px_FQDN env mx))))"

definition mtasts_CheckMX :: "policy_env \<Rightarrow> (goerr + sts_policy) option \<Rightarrow> string \<Rightarrow> (goerr + MXLevel) outcome" where
  "mtasts_CheckMX env fut mx =
     obind (fut_get (px_ctx_mx env) fut) (\<lambda>r. Return
       (case r of
          Inl e \<Rightarrow> Inr MXNone
        | Inr pol \<Rightarrow>
            if \<not> sts_Match pol mx then
              if sts_Enforce pol then
                Inl (policy_error 550 (5, 7, 0) ''Failed to establish the MX record authenticity (MTA-STS)'' '''' Map.empty)
              else Inr MXNone
            else Inr MX_MTASTS))"

definition dnssec_CheckMX :: "bool \<Rightarrow> MXLevel" where
  "dnssec_CheckMX dnssec = (if dnssec then MX_DNSSEC else MXNone)"

definition local_CheckMX :: "MXLevel \<Rightarrow> MXLevel \<Rightarrow> goerr + MXLevel" where
  "local_CheckMX minMXLevel mxLevel =
     (if mxLevel < minMXLevel then
        Inl (policy_error 451 (4, 7, 0) ''Failed to establish the MX record authenticity'' ''''
          [''mx_level'' \<mapsto> FOther (mx_String mxLevel), ''required_mx_level'' \<mapsto> FOther (mx_String minMXLevel)])
      else Inr MXNone)"

definition mtasts_CheckConn :: "policy_env \<Rightarrow> (goerr + sts_policy) option \<Rightarrow> TLSLevel \<Rightarrow> tls_state \<Rightarrow> (goerr + TLSLevel) outcome" where
  "mtasts_CheckConn env fut tlsLevel st =
     obind (fut_get (px_ctx_conn env) fut) (\<lambda>r. Return
       (case r of
          Inl e \<Rightarrow> Inr TLSNone
        | Inr pol \<Rightarrow>
            if \<not> sts_Enforce pol then Inr TLSNone
            else if \<not> HandshakeComplete st then
              Inl (policy_error 451 (4, 7, 1) ''TLS is required but unavailable or failed (MTA-STS)'' '''' Map.empty)
            else if \<not> VerifiedChains st then
              Inl (policy_error 451 (4, 7, 1)
                ''Recipient server TLS certificate is not trusted but authentication is required by MTA-STS'' ''''
                [''tls_level'' \<mapsto> FOther (tls_String tlsLevel)])
            else Inr TLSNone))"

definition dane_CheckConn :: "policy_env \<Rightarrow> (goerr + tlsa list) option \<Rightarrow> tls_state \<Rightarrow> (goerr + TLSLevel) outcome" where
  "dane_CheckConn env fut st =
     (case px_extResolver env of
        None \<Rightarrow> Return (Inr TLSNone)
      | Some er \<Rightarrow>
          obind (fut_get (px_ctx_conn env) fut) (\<lambda>r.
            case r of
              Inl e \<Rightarrow> Return (if dns_IsNotFound er e then Inr TLSNone else Inl (WithTemporary e True))
            | Inr recs \<Rightarrow>
                obind (verifyDANE (px_dane env) recs st) (\<lambda>(overridePKIX, err). Return
                  (case err of
                     Some e \<Rightarrow> Inl e
                   | None \<Rightarrow> Inr (if overridePKIX then TLSAuthenticated else TLSNone)))))"

definition local_CheckConn :: "TLSLevel \<Rightarrow> TLSLevel \<Rightarrow> goerr + TLSLevel" where
  "local_CheckConn minTLSLevel tlsLevel =
     (if tlsLevel < minTLSLevel then
        Inl (policy_error 451 (4, 7, 1) ''TLS it not available or unauthenticated but required'' ''''
          [''tls_level'' \<mapsto> FOther (tls_String tlsLevel), ''required_tls_level'' \<mapsto> FOther (tls_String minTLSLevel)])
      else Inr TLSNone)"

lemmas policy_method_defs [simp] = mtasts_PrepareDomain_def dane_PrepareConn_def mtasts_CheckMX_def dnssec_CheckMX_def local_CheckMX_def
  mtasts_CheckConn_def dane_CheckConn_def local_CheckConn_def

text \<open>The methods of the interface, by the policy.\<close>

fun PrepareDomain :: "policy_env \<Rightarrow> string \<Rightarrow> policy \<Rightarrow> policy" where
  "PrepareDomain env domain (MTASTS _) = mtasts_PrepareDomain env domain"
| "PrepareDomain env domain p = p"

fun PrepareConn :: "policy_env \<Rightarrow> string \<Rightarrow> policy \<Rightarrow> policy" where
  "PrepareConn env mx (DANE fut) = dane_PrepareConn env mx fut"
| "PrepareConn env mx p = p"

fun CheckMX :: "policy_env \<Rightarrow> MXLevel \<Rightarrow> string \<Rightarrow> bool \<Rightarrow> policy \<Rightarrow> (goerr + MXLevel) outcome" where
  "CheckMX env mxLevel mx dnssec (MTASTS fut) = mtasts_CheckMX env fut mx"
| "CheckMX env mxLevel mx dnssec STSPreload = Return (Inr mxLevel)"
| "CheckMX env mxLevel mx dnssec DNSSEC = Return (Inr (dnssec_CheckMX dnssec))"
| "CheckMX env mxLevel mx dnssec (DANE fut) = Return (Inr MXNone)"
| "CheckMX env mxLevel mx dnssec (LocalPolicy minTLSLevel minMXLevel) = Return (local_CheckMX minMXLevel mxLevel)"

fun CheckConn :: "policy_env \<Rightarrow> TLSLevel \<Rightarrow> tls_state \<Rightarrow> policy \<Rightarrow> (goerr + TLSLevel) outcome" where
  "CheckConn env tlsLevel st (MTASTS fut) = mtasts_CheckConn env fut tlsLevel st"
| "CheckConn env tlsLevel st STSPreload = Return (Inr tlsLevel)"
| "CheckConn env tlsLevel st DNSSEC = Return (Inr TLSNone)"
| "CheckConn env tlsLevel st (DANE fut) = dane_CheckConn env fut st"
| "CheckConn env tlsLevel st (LocalPolicy minTLSLevel minMXLevel) = Return (local_CheckConn minTLSLevel tlsLevel)"

section \<open>Groups of policies\<close>

text \<open>The order in which a group applies its policies.\<close>

definition policy_names :: "string list" where
  "policy_names = [''mtasts'', ''sts_preload'', ''dane'', ''dnssec'', ''local_policy'']"

fun group_blocks :: "(string \<Rightarrow> goerr + 'p) \<Rightarrow> string list \<Rightarrow> (string \<rightharpoonup> 'p) \<Rightarrow> goerr + (string \<rightharpoonup> 'p)" where
  "group_blocks mk [] pols = Inr pols"
| "group_blocks mk (b # bs) pols =
     (case pols b of
        Some _ \<Rightarrow> Inl (Opaque (''duplicate policy block: '' @ b) None)
      | None \<Rightarrow> (case mk b of Inl e \<Rightarrow> Inl e | Inr p \<Rightarrow> group_blocks mk bs (pols(b \<mapsto> p))))"

definition PolicyGroup_Init :: "(string \<Rightarrow> goerr + 'p) \<Rightarrow> string list \<Rightarrow> goerr + 'p list" where
  "PolicyGroup_Init mk blocks =
     (case group_blocks mk blocks Map.empty of
        Inl e \<Rightarrow> Inl e
      | Inr pols \<Rightarrow> Inr (List.map_filter pols policy_names))"

text \<open>The loop of \<open>attemptMX\<close> before the connection: the level and the policies with their lookups started.\<close>

fun check_mx_all ::
    "policy_env \<Rightarrow> string \<Rightarrow> bool \<Rightarrow> MXLevel \<Rightarrow> policy list \<Rightarrow> (policy list \<times> (goerr + MXLevel)) outcome" where
  "check_mx_all env mx dnssec mxLevel [] = Return ([], Inr mxLevel)"
| "check_mx_all env mx dnssec mxLevel (p # ps) =
     obind (CheckMX env mxLevel mx dnssec p) (\<lambda>r.
       case r of
         Inl e \<Rightarrow> Return (p # ps, Inl e)
       | Inr policyLevel \<Rightarrow>
           let mxLevel = (if policyLevel > mxLevel then policyLevel else mxLevel) in
           obind (check_mx_all env mx dnssec mxLevel ps) (\<lambda>(ps, r). Return (PrepareConn env mx p # ps, r)))"

text \<open>The loop after it.\<close>

fun check_conn_all :: "policy_env \<Rightarrow> tls_state \<Rightarrow> TLSLevel \<Rightarrow> policy list \<Rightarrow> (goerr + TLSLevel) outcome" where
  "check_conn_all env st tlsLevel [] = Return (Inr tlsLevel)"
| "check_conn_all env st tlsLevel (p # ps) =
     obind (CheckConn env tlsLevel st p) (\<lambda>r.
       case r of
         Inl e \<Rightarrow> Return (Inl e)
       | Inr policyLevel \<Rightarrow> check_conn_all env st (if policyLevel > tlsLevel then policyLevel else tlsLevel) ps)"

section \<open>Lemmas\<close>

lemma CheckMX_cases:
  assumes "CheckMX env l mx dnssec p = Return (Inr l')"
  shows "l' = MXNone \<or> l' = l \<or> (l' = MX_MTASTS \<and> (\<exists>pol. p = MTASTS (Some (Inr pol)) \<and> sts_Match pol mx)) \<or> (l' = MX_DNSSEC \<and> p = DNSSEC \<and> dnssec)"
    "p = MTASTS (Some (Inr pol)) \<Longrightarrow> px_ctx_mx env = None \<Longrightarrow> sts_Enforce pol \<Longrightarrow> sts_Match pol mx"
    "p = LocalPolicy tl' ml' \<Longrightarrow> ml' \<le> l"
  using assms by (cases p; fastforce simp: fut_get_def split: option.splits sum.splits if_splits)+

lemma check_mx_all_ok:
  assumes "check_mx_all env mx dnssec l ps = Return (ps', Inr l')"
  shows "l \<le> l' \<and> ps' = map (PrepareConn env mx) ps \<and>
    (l < l' \<longrightarrow> (l' = MX_MTASTS \<and> (\<exists>pol. MTASTS (Some (Inr pol)) \<in> set ps \<and> sts_Match pol mx)) \<or> (l' = MX_DNSSEC \<and> DNSSEC \<in> set ps \<and> dnssec)) \<and>
    (\<forall>pol. MTASTS (Some (Inr pol)) \<in> set ps \<longrightarrow> px_ctx_mx env = None \<longrightarrow> sts_Enforce pol \<longrightarrow> sts_Match pol mx) \<and>
    (\<forall>tl' ml'. LocalPolicy tl' ml' \<in> set ps \<longrightarrow> ml' \<le> l')"
  using assms
proof (induction ps arbitrary: l ps')
  case (Cons p ps)
  obtain l1 qs where p: "CheckMX env l mx dnssec p = Return (Inr l1)"
    and q: "check_mx_all env mx dnssec (if l1 > l then l1 else l) ps = Return (qs, Inr l')" "ps' = PrepareConn env mx p # qs"
    using Cons.prems by (cases "CheckMX env l mx dnssec p") (auto simp: Let_def split: sum.split_asm)
  note c = CheckMX_cases [OF p]
  let ?m = "if l1 > l then l1 else l"
  note ih = Cons.IH [OF q(1)]
  have m: "l \<le> ?m" "?m \<le> l'" using ih by auto
  have "(l' = MX_MTASTS \<and> (\<exists>pol. MTASTS (Some (Inr pol)) \<in> set (p # ps) \<and> sts_Match pol mx)) \<or> (l' = MX_DNSSEC \<and> DNSSEC \<in> set (p # ps) \<and> dnssec)"
    if "l < l'"
  proof (cases "?m < l'")
    case True
    with ih show ?thesis by auto
  next
    case False
    with m(2) that have "l' = l1" "l < l1" by (auto split: if_splits)
    then show ?thesis using c(1) level_bounds(2) [of l] by (auto simp: not_less)
  qed
  moreover have "sts_Match pol mx" if "MTASTS (Some (Inr pol)) \<in> set (p # ps)" "px_ctx_mx env = None" "sts_Enforce pol" for pol
    using that ih c(2) [of pol] by auto
  moreover have "ml' \<le> l'" if "LocalPolicy tl' ml' \<in> set (p # ps)" for tl' ml'
  proof (cases "LocalPolicy tl' ml' = p")
    case True
    then show ?thesis using c(3) [of tl' ml'] m by auto
  qed (use that ih in auto)
  ultimately show ?case using m ih q(2) by auto
qed simp

lemma CheckConn_cases:
  assumes "CheckConn env l st p = Return (Inr l')"
  shows "l' = TLSNone \<or> l' = l \<or> (l' = TLSAuthenticated \<and> px_extResolver env \<noteq> None \<and> (\<exists>recs. p = DANE (Some (Inr recs)) \<and> verifyDANE (px_dane env) recs st = Return (True, None)))"
    "p = MTASTS (Some (Inr pol)) \<Longrightarrow> px_ctx_conn env = None \<Longrightarrow> sts_Enforce pol \<Longrightarrow> HandshakeComplete st \<and> VerifiedChains st"
    "p = DANE (Some (Inr recs)) \<Longrightarrow> px_ctx_conn env = None \<Longrightarrow> px_extResolver env \<noteq> None \<Longrightarrow> \<exists>b. verifyDANE (px_dane env) recs st = Return (b, None)"
    "p = LocalPolicy tl' ml' \<Longrightarrow> tl' \<le> l"
  using assms by (cases p; fastforce simp: fut_get_def split: option.splits sum.splits if_splits)+

lemma check_conn_all_ok:
  assumes "check_conn_all env st l ps = Return (Inr l')"
  shows "l \<le> l' \<and>
    (l < l' \<longrightarrow> l' = TLSAuthenticated \<and> px_extResolver env \<noteq> None \<and> (\<exists>recs. DANE (Some (Inr recs)) \<in> set ps \<and> verifyDANE (px_dane env) recs st = Return (True, None))) \<and>
    (\<forall>pol. MTASTS (Some (Inr pol)) \<in> set ps \<longrightarrow> px_ctx_conn env = None \<longrightarrow> sts_Enforce pol \<longrightarrow> HandshakeComplete st \<and> VerifiedChains st) \<and>
    (\<forall>recs. DANE (Some (Inr recs)) \<in> set ps \<longrightarrow> px_ctx_conn env = None \<longrightarrow> px_extResolver env \<noteq> None \<longrightarrow>
      (\<exists>b. verifyDANE (px_dane env) recs st = Return (b, None))) \<and>
    (\<forall>tl' ml'. LocalPolicy tl' ml' \<in> set ps \<longrightarrow> tl' \<le> l')"
  using assms
proof (induction ps arbitrary: l)
  case (Cons p ps)
  obtain l1 where p: "CheckConn env l st p = Return (Inr l1)"
    and q: "check_conn_all env st (if l1 > l then l1 else l) ps = Return (Inr l')"
    using Cons.prems by (cases "CheckConn env l st p") (auto split: sum.split_asm)
  note c = CheckConn_cases [OF p]
  let ?m = "if l1 > l then l1 else l"
  note ih = Cons.IH [OF q]
  have m: "l \<le> ?m" "?m \<le> l'" using ih by auto
  have "l' = TLSAuthenticated \<and> px_extResolver env \<noteq> None \<and> (\<exists>recs. DANE (Some (Inr recs)) \<in> set (p # ps) \<and> verifyDANE (px_dane env) recs st = Return (True, None))"
    if "l < l'"
  proof (cases "?m < l'")
    case True
    with ih show ?thesis by auto
  next
    case False
    with m(2) that have "l' = l1" "l < l1" by (auto split: if_splits)
    then show ?thesis using c(1) level_bounds(1) [of l] by (auto simp: not_less)
  qed
  moreover have "HandshakeComplete st \<and> VerifiedChains st" if "MTASTS (Some (Inr pol)) \<in> set (p # ps)" "px_ctx_conn env = None" "sts_Enforce pol" for pol
    using that ih c(2) [of pol] by auto
  moreover have "\<exists>b. verifyDANE (px_dane env) recs st = Return (b, None)"
    if "DANE (Some (Inr recs)) \<in> set (p # ps)" "px_ctx_conn env = None" "px_extResolver env \<noteq> None" for recs
    using that ih c(3) [of recs] by auto
  moreover have "tl' \<le> l'" if "LocalPolicy tl' ml' \<in> set (p # ps)" for tl' ml'
  proof (cases "LocalPolicy tl' ml' = p")
    case True
    then show ?thesis using c(4) [of tl' ml'] m by auto
  qed (use that ih in auto)
  ultimately show ?case using m by auto
qed simp

text \<open>The order of a group is fixed: the local policy comes last whatever the order of the configuration.\<close>

lemma group_blocks_pols:
  "group_blocks mk bs pols = Inr pols' \<Longrightarrow>
     distinct bs \<and> (\<forall>b \<in> set bs. pols b = None) \<and> (\<forall>b. pols' b = (if b \<in> set bs then (case mk b of Inr p \<Rightarrow> Some p | Inl e \<Rightarrow> None) else pols b))"
proof (induction bs arbitrary: pols)
  case (Cons b bs)
  then obtain p where p: "pols b = None" "mk b = Inr p" "group_blocks mk bs (pols(b \<mapsto> p)) = Inr pols'"
    by (auto split: option.splits sum.splits)
  from Cons.IH [OF p(3)] p(1,2) show ?case by (auto split: if_splits)
qed simp

lemma group_order:
  assumes "PolicyGroup_Init mk blocks = Inr L"
  shows "L = List.map_filter (\<lambda>n. if n \<in> set blocks then (case mk n of Inr p \<Rightarrow> Some p | Inl e \<Rightarrow> None) else None) policy_names"
proof -
  obtain pols where "group_blocks mk blocks Map.empty = Inr pols" "L = List.map_filter pols policy_names"
    using assms by (auto simp: PolicyGroup_Init_def split: sum.splits)
  with group_blocks_pols [of mk blocks Map.empty pols] show ?thesis by (auto intro!: arg_cong [where f = "\<lambda>f. List.map_filter f policy_names"])
qed

section \<open>Properties\<close>

text \<open>The decision of DANE: without records nothing is asked; with records TLS is required; without usable records nothing else. Otherwise
  the connection is accepted exactly when the certificate of the server matches an end-entity record or chains to a certificate of the
  server that matches a trust-anchor record, and then it counts as authenticated.\<close>

theorem dane_decision:
  assumes "HandshakeComplete st \<longrightarrow> PeerCertificates st \<noteq> []"
  shows "\<exists>ov err. verifyDANE da recs st = Return (ov, err) \<and>
    (let usable = filter (\<lambda>r. usable_tlsa r \<and> Usage r \<in> {2, 3}) recs;
         ee = (\<exists>r \<in> set usable. Usage r = 3 \<and> da_Verify da r (hd (PeerCertificates st)));
         root = (\<lambda>c. IsCA c \<and> (\<exists>r \<in> set usable. Usage r = 2 \<and> da_Verify da r c));
         ta = (\<exists>r \<in> set usable. Usage r = 2) \<and> da_x509 da (st_ServerName st) (filter root (PeerCertificates st))
                (filter (\<lambda>c. \<not> root c) (PeerCertificates st)) (hd (PeerCertificates st))
     in (err = None \<longleftrightarrow> recs = [] \<or> (HandshakeComplete st \<and> (usable = [] \<or> ee \<or> ta))) \<and>
        (err = None \<longrightarrow> (ov \<longleftrightarrow> HandshakeComplete st \<and> usable \<noteq> [] \<and> (ee \<or> ta))))"
proof (cases "recs = [] \<or> \<not> HandshakeComplete st")
  case True
  then show ?thesis by (auto simp: verifyDANE_def Let_def)
next
  case False
  obtain leaf cs where c: "PeerCertificates st = leaf # cs" using assms False by (cases "PeerCertificates st") auto
  let ?ee = "filter (\<lambda>r. usable_tlsa r \<and> Usage r = 3) recs" and ?ta = "filter (\<lambda>r. usable_tlsa r \<and> Usage r = 2) recs"
  let ?u = "filter (\<lambda>r. usable_tlsa r \<and> Usage r \<in> {2, 3}) recs"
  have u: "?u = [] \<longleftrightarrow> ?ee = [] \<and> ?ta = []" by (auto simp: filter_empty_conv)
  define root where "root = (\<lambda>c. IsCA c \<and> (\<exists>r \<in> set ?u. Usage r = 2 \<and> da_Verify da r c))"
  define E where "E \<longleftrightarrow> (\<exists>r \<in> set ?u. Usage r = 3 \<and> da_Verify da r leaf)"
  define T where "T \<longleftrightarrow> (\<exists>r \<in> set ?u. Usage r = 2)"
  define X where "X \<longleftrightarrow> da_x509 da (st_ServerName st) (filter root (leaf # cs)) (filter (\<lambda>c. \<not> root c) (leaf # cs)) leaf"
  have r: "list_ex (\<lambda>r. IsCA c \<and> da_Verify da r c) ?ta \<longleftrightarrow> root c" for c by (auto simp: list_ex_iff root_def)
  have ee: "list_ex (\<lambda>r. da_Verify da r leaf) ?ee \<longleftrightarrow> E" by (auto simp: list_ex_iff E_def)
  have ta: "?ta = [] \<longleftrightarrow> \<not> T" by (auto simp: filter_empty_conv T_def)
  have "E \<longrightarrow> ?u \<noteq> []" "T \<longrightarrow> ?u \<noteq> []" by (auto simp: E_def T_def filter_empty_conv)
  moreover have "verifyDANE da recs st = (if ?u = [] then Return (False, None) else if E then Return (True, None)
      else if \<not> T then Return (True, Some (no_match_err st)) else if X then Return (True, None) else Return (False, Some (no_match_err st)))"
    unfolding verifyDANE_def Let_def r ee ta u X_def c using False by (auto simp: c ee)
  moreover have ri: "(IsCA c \<and> (\<exists>r \<in> set ?u. Usage r = 2 \<and> da_Verify da r c)) = root c" for c by (simp only: root_def)
  ultimately show ?thesis
    unfolding Let_def c list.sel ri E_def [symmetric] T_def [symmetric] root_def [symmetric] X_def [symmetric] using False
    by (cases "?u = []"; cases E; cases T; cases X) auto
qed

definition sample_dane :: dane_lib where
  "sample_dane = \<lparr>da_Verify = (\<lambda>r c. cert_Raw c = tlsa_Certificate r), da_x509 = (\<lambda>_ _ _ _. False)\<rparr>"

definition sample_tls :: tls_state where
  "sample_tls = \<lparr>HandshakeComplete = True, VerifiedChains = False, st_ServerName = ''mx'', PeerCertificates = [\<lparr>IsCA = False, cert_Raw = ''k''\<rparr>]\<rparr>"

definition sample_tlsa :: tlsa where
  "sample_tlsa = \<lparr>Usage = 3, Selector = 1, MatchingType = 1, tlsa_Certificate = ''k''\<rparr>"

lemma policies_ok:
  assumes "check_mx_all env mx dnssec MXNone ps = Return (ps', Inr ml)" "check_conn_all env st l ps' = Return (Inr tl')"
    "px_ctx_mx env = None" "px_ctx_conn env = None"
  shows "(\<forall>minTLS minMX. LocalPolicy minTLS minMX \<in> set ps \<longrightarrow> minTLS \<le> tl' \<and> minMX \<le> ml) \<and>
    (\<forall>pol. MTASTS (Some (Inr pol)) \<in> set ps \<longrightarrow> sts_Enforce pol \<longrightarrow> sts_Match pol mx \<and> HandshakeComplete st \<and> VerifiedChains st) \<and>
    (\<forall>fut er recs. DANE fut \<in> set ps \<longrightarrow> px_extResolver env = Some er \<longrightarrow> discoverTLSA er (px_FQDN env mx) = Inr recs \<longrightarrow>
      (\<exists>ov. verifyDANE (px_dane env) recs st = Return (ov, None))) \<and>
    (ml = MX_MTASTS \<longrightarrow> (\<exists>pol. MTASTS (Some (Inr pol)) \<in> set ps \<and> sts_Match pol mx)) \<and>
    (ml = MX_DNSSEC \<longrightarrow> DNSSEC \<in> set ps \<and> dnssec) \<and>
    (tl' = l \<or> tl' = TLSAuthenticated \<and> (\<exists>fut er recs. DANE fut \<in> set ps \<and> px_extResolver env = Some er \<and>
      discoverTLSA er (px_FQDN env mx) = Inr recs \<and> verifyDANE (px_dane env) recs st = Return (True, None)))"
proof -
  note m = check_mx_all_ok [OF assms(1)] and c = check_conn_all_ok [OF assms(2)]
  have ps': "ps' = map (PrepareConn env mx) ps" using m by blast
  have keep: "LocalPolicy a b \<in> set ps'" if "LocalPolicy a b \<in> set ps" for a b
    using that unfolding ps' set_map by (rule rev_image_eqI) simp
  have keep_sts: "MTASTS f \<in> set ps'" if "MTASTS f \<in> set ps" for f
    using that unfolding ps' set_map by (rule rev_image_eqI) simp
  have prep: "DANE (Some (discoverTLSA er (px_FQDN env mx))) \<in> set ps'" if "DANE fut \<in> set ps" "px_extResolver env = Some er" for fut er
    using that(1) unfolding ps' set_map by (rule rev_image_eqI) (simp add: that(2))
  have ml: "MXNone < ml \<or> ml = MXNone" by (cases ml) (simp_all add: level_simps)
  show ?thesis
  proof (intro conjI allI impI)
    fix fut er recs assume d: "DANE fut \<in> set ps" "px_extResolver env = Some er" "discoverTLSA er (px_FQDN env mx) = Inr recs"
    from prep [OF d(1,2)] d(3) have "DANE (Some (Inr recs)) \<in> set ps'" by simp
    with c d(2) assms(4) show "\<exists>ov. verifyDANE (px_dane env) recs st = Return (ov, None)" by blast
  next
    show "tl' = l \<or> tl' = TLSAuthenticated \<and> (\<exists>fut er recs. DANE fut \<in> set ps \<and> px_extResolver env = Some er \<and>
      discoverTLSA er (px_FQDN env mx) = Inr recs \<and> verifyDANE (px_dane env) recs st = Return (True, None))"
    proof (cases "l < tl'")
      case True
      with c obtain er recs where d: "tl' = TLSAuthenticated" "px_extResolver env = Some er" "DANE (Some (Inr recs)) \<in> set ps'"
        "verifyDANE (px_dane env) recs st = Return (True, None)" by auto
      then obtain p where p: "p \<in> set ps" "PrepareConn env mx p = DANE (Some (Inr recs))" unfolding ps' by auto
      obtain fut where "p = DANE fut" using p(2) d(2) by (cases p rule: policy.exhaust) auto
      with p d show ?thesis by auto
    qed (use c in auto)
  qed (use m c keep keep_sts ml assms(3,4) in blast)+
qed

text \<open>C27. Policies are enforced: when both loops over the policies accept an MX and a connection, then every local policy has its minimal levels,
  an enforced MTA-STS policy lists the MX and the certificate was verified, and the TLSA records accept the connection. A level above the
  initial one has its reason: a matching MTA-STS policy, an authenticated lookup of the MX, or a matching TLSA record.\<close>

theorem policies_enforced:
  assumes "check_mx_all env mx dnssec MXNone ps = Return (ps', Inr ml)" "check_conn_all env st l ps' = Return (Inr tl')"
    "px_ctx_mx env = None" "px_ctx_conn env = None"
  shows "(\<forall>minTLS minMX. LocalPolicy minTLS minMX \<in> set ps \<longrightarrow> minTLS \<le> tl' \<and> minMX \<le> ml) \<and>
    (\<forall>pol. MTASTS (Some (Inr pol)) \<in> set ps \<longrightarrow> sts_Enforce pol \<longrightarrow> sts_Match pol mx \<and> HandshakeComplete st \<and> VerifiedChains st) \<and>
    (\<forall>fut er recs. DANE fut \<in> set ps \<longrightarrow> px_extResolver env = Some er \<longrightarrow> discoverTLSA er (px_FQDN env mx) = Inr recs \<longrightarrow>
      (\<exists>ov. verifyDANE (px_dane env) recs st = Return (ov, None))) \<and>
    (ml = MX_MTASTS \<longrightarrow> (\<exists>pol. MTASTS (Some (Inr pol)) \<in> set ps \<and> sts_Match pol mx)) \<and>
    (ml = MX_DNSSEC \<longrightarrow> DNSSEC \<in> set ps \<and> dnssec) \<and>
    (tl' = l \<or> tl' = TLSAuthenticated \<and> (\<exists>fut er recs. DANE fut \<in> set ps \<and> px_extResolver env = Some er \<and>
      discoverTLSA er (px_FQDN env mx) = Inr recs \<and> verifyDANE (px_dane env) recs st = Return (True, None)))"
  using assms by (rule policies_ok)

definition sample_env :: policy_env where
  "sample_env = \<lparr>px_mtastsGet = (\<lambda>_. Inr \<lparr>sts_Match = (\<lambda>m. m = ''mx''), sts_Enforce = True\<rparr>), px_extResolver = None, px_FQDN = id,
     px_dane = sample_dane, px_ctx_mx = None, px_ctx_conn = None\<rparr>"

theorem policies_enforced_witness:
  "\<exists>ps' ml tl'. check_mx_all sample_env ''mx'' False MXNone [PrepareDomain sample_env ''d'' (MTASTS None), LocalPolicy TLSAuthenticated MX_MTASTS] = Return (ps', Inr ml) \<and>
    check_conn_all sample_env (sample_tls\<lparr>VerifiedChains := True\<rparr>) TLSAuthenticated ps' = Return (Inr tl') \<and>
    TLSAuthenticated \<le> tl' \<and> MX_MTASTS \<le> ml"
proof -
  let ?ps = "[PrepareDomain sample_env ''d'' (MTASTS None), LocalPolicy TLSAuthenticated MX_MTASTS]"
  obtain ps' ml tl' where r: "check_mx_all sample_env ''mx'' False MXNone ?ps = Return (ps', Inr ml)"
    "check_conn_all sample_env (sample_tls\<lparr>VerifiedChains := True\<rparr>) TLSAuthenticated ps' = Return (Inr tl')"
    by (simp add: sample_env_def sample_tls_def fut_get_def level_simps)
  with policies_enforced [OF r] show ?thesis by (fastforce simp: sample_env_def)
qed

end
