(* ===== verification/Conn_Pool.thy ===== *)
theory Conn_Pool
  imports Exterrors "HOL-Library.Multiset" "HOL-Library.AList"
begin

text \<open>
  Model of the pool of idle connections: \<^verbatim>\<open>internal/smtpconn/pool/pool.go\<close>.

  The pool maps keys to slots, a slot holds a channel of idle connections. Channels are objects of their own, because a
  \<open>Get\<close> that has released the lock still receives from the channel while other goroutines close it and remove its key.
  The operations under the lock are functions that return the channels they have closed; their callers empty these channels.
  \<open>pool_Get\<close> and \<open>pool_CleanUp\<close> are the operations as one goroutine runs them alone, \<open>pool_step\<close> is the step relation over all
  interleavings of the same parts.
\<close>

section \<open>Data\<close>

record pool_config =
  MaxKeys :: nat
  MaxConnsPerKey :: int
  MaxConnLifetimeSec :: int
  StaleKeyLifetimeSec :: int

record slot =
  sl_c :: nat
  sl_lastUse :: int

text \<open>Channels are numbers below \<open>pl_next\<close>; a channel has its contents and tells whether it is closed. \<open>pl_keys\<close> is \<^term>\<open>None\<close>
  after \<open>Close\<close>, \<open>pl_ticker\<close> tells whether the goroutine of \<open>cleanUpTick\<close> runs.\<close>

record 'c pool =
  pl_keys :: "(string \<times> slot) list option"
  pl_chans :: "nat \<Rightarrow> 'c list \<times> bool"
  pl_next :: nat
  pl_ticker :: bool

record ('c, 'n) conn_ops =
  c_Usable :: "'c \<Rightarrow> 'n \<Rightarrow> bool \<times> 'n"
  c_LastUseAt :: "'c \<Rightarrow> time"
  c_Close :: "'c \<Rightarrow> 'n \<Rightarrow> 'n"

definition second :: duration where
  "second = 1000000000"

definition unix :: "time \<Rightarrow> int" where
  "unix t = t div second"

definition NewPool :: "'c pool" where
  "NewPool = \<lparr>pl_keys = Some [], pl_chans = (\<lambda>_. ([], False)), pl_next = 0, pl_ticker = True\<rparr>"

section \<open>Channels\<close>

definition chan_close :: "nat \<Rightarrow> 'c pool \<Rightarrow> 'c pool outcome" where
  "chan_close ch p =
     (case pl_chans p ch of
        (xs, True) \<Rightarrow> Panic ''close of closed channel''
      | (xs, False) \<Rightarrow> Return (p\<lparr>pl_chans := (pl_chans p)(ch := (xs, True))\<rparr>))"

text \<open>A receive that does not wait; for a channel that is open or closed, \<^term>\<open>None\<close> means empty.\<close>

definition chan_recv :: "nat \<Rightarrow> 'c pool \<Rightarrow> ('c \<times> 'c pool) option" where
  "chan_recv ch p =
     (case pl_chans p ch of
        ([], cl) \<Rightarrow> None
      | (c # xs, cl) \<Rightarrow> Some (c, p\<lparr>pl_chans := (pl_chans p)(ch := (xs, cl))\<rparr>))"

text \<open>A send that does not wait.\<close>

definition chan_send :: "pool_config \<Rightarrow> nat \<Rightarrow> 'c \<Rightarrow> 'c pool \<Rightarrow> ('c pool \<times> bool) outcome" where
  "chan_send cfg ch c p =
     (case pl_chans p ch of
        (xs, True) \<Rightarrow> Panic ''send on closed channel''
      | (xs, False) \<Rightarrow>
          if int (length xs) < MaxConnsPerKey cfg then Return (p\<lparr>pl_chans := (pl_chans p)(ch := (xs @ [c], False))\<rparr>, True)
          else Return (p, False))"

section \<open>Operations under the lock\<close>

definition stale :: "pool_config \<Rightarrow> time \<Rightarrow> string \<times> slot \<Rightarrow> bool" where
  "stale cfg now kv \<longleftrightarrow> \<not> sl_lastUse (snd kv) + StaleKeyLifetimeSec cfg > unix now"

text \<open>The loops that close and delete slots; they differ in the condition.\<close>

fun evict :: "(string \<times> slot \<Rightarrow> bool) \<Rightarrow> (string \<times> slot) list \<Rightarrow> 'c pool \<Rightarrow> ('c pool \<times> nat list) outcome" where
  "evict P [] p = Return (p, [])"
| "evict P (kv # kvs) p =
     (if P kv then
        obind (chan_close (sl_c (snd kv)) p) (\<lambda>p.
          obind (evict P kvs (p\<lparr>pl_keys := map_option (AList.delete (fst kv)) (pl_keys p)\<rparr>)) (\<lambda>(p, chs).
            Return (p, sl_c (snd kv) # chs)))
      else evict P kvs p)"

definition pool_keys :: "'c pool \<Rightarrow> (string \<times> slot) list" where
  "pool_keys p = (case pl_keys p of None \<Rightarrow> [] | Some ks \<Rightarrow> ks)"

definition CleanUp_locked :: "pool_config \<Rightarrow> time \<Rightarrow> 'c pool \<Rightarrow> ('c pool \<times> nat list) outcome" where
  "CleanUp_locked cfg now p = evict (stale cfg now) (pool_keys p) p"

datatype lookup = CallNew | Dropped nat | Bucket nat

definition Get_locked :: "pool_config \<Rightarrow> time \<Rightarrow> string \<Rightarrow> 'c pool \<Rightarrow> ('c pool \<times> lookup) outcome" where
  "Get_locked cfg now key p =
     (case map_of (pool_keys p) key of
        None \<Rightarrow> Return (p, CallNew)
      | Some bucket \<Rightarrow>
          if unix now - sl_lastUse bucket > MaxConnLifetimeSec cfg then
            obind (chan_close (sl_c bucket) (p\<lparr>pl_keys := map_option (AList.delete key) (pl_keys p)\<rparr>)) (\<lambda>p.
              Return (p, Dropped (sl_c bucket)))
          else Return (p, Bucket (sl_c bucket)))"

definition add_slot :: "pool_config \<Rightarrow> time \<Rightarrow> string \<Rightarrow> 'c pool \<Rightarrow> ('c pool \<times> slot) outcome" where
  "add_slot cfg now key p =
     (if MaxConnsPerKey cfg < 0 then Panic ''makechan: size out of range''
      else
        let bucket = \<lparr>sl_c = pl_next p, sl_lastUse = unix now\<rparr> in
        Return (p\<lparr>pl_keys := map_option (AList.update key bucket) (pl_keys p), pl_chans := (pl_chans p)(pl_next p := ([], False)),
          pl_next := Suc (pl_next p)\<rparr>, bucket))"

datatype returned = Kept | Full | NoPool

text \<open>The time of last use is assigned to a copy of the slot, the one in the map keeps its time.\<close>

definition Return_locked :: "pool_config \<Rightarrow> time \<Rightarrow> string \<Rightarrow> 'c \<Rightarrow> 'c pool \<Rightarrow> ('c pool \<times> nat list \<times> returned) outcome" where
  "Return_locked cfg now key c p =
     (case pl_keys p of
        None \<Rightarrow> Return (p, [], NoPool)
      | Some keys \<Rightarrow>
          obind (case map_of keys key of
                   Some bucket \<Rightarrow> Return (p, [], bucket)
                 | None \<Rightarrow>
                     obind (if length keys = MaxKeys cfg then evict (stale cfg now) keys p else Return (p, [])) (\<lambda>(p, chs).
                       obind (add_slot cfg now key p) (\<lambda>(p, bucket). Return (p, chs, bucket))))
            (\<lambda>(p, chs, bucket).
              obind (chan_send cfg (sl_c bucket) c p) (\<lambda>(p, sent). Return (p, chs, if sent then Kept else Full))))"

definition Close_locked :: "'c pool \<Rightarrow> ('c pool \<times> nat list) outcome" where
  "Close_locked p =
     (if \<not> pl_ticker p then Blocked
      else obind (evict (\<lambda>_. True) (pool_keys p) (p\<lparr>pl_ticker := False\<rparr>)) (\<lambda>(p, chs). Return (p\<lparr>pl_keys := None\<rparr>, chs)))"

section \<open>Operations of one goroutine\<close>

text \<open>The loops that empty a closed channel.\<close>

fun drain :: "('c, 'n) conn_ops \<Rightarrow> nat list \<Rightarrow> 'c pool \<times> 'n \<Rightarrow> 'c pool \<times> 'n" where
  "drain ops [] st = st"
| "drain ops (ch # chs) (p, n) =
     (case pl_chans p ch of (xs, cl) \<Rightarrow>
        drain ops chs (p\<lparr>pl_chans := (pl_chans p)(ch := ([], cl))\<rparr>, fold (c_Close ops) xs n))"

text \<open>The loop of \<open>Get\<close>: the rest of the channel and the connection found. The clock is read for every connection.\<close>

fun get_loop :: "('c, 'n) conn_ops \<Rightarrow> pool_config \<Rightarrow> (nat \<Rightarrow> time) \<Rightarrow> nat \<Rightarrow> 'c list \<Rightarrow> 'n \<Rightarrow> 'c list \<times> 'n \<times> 'c option" where
  "get_loop ops cfg now i [] n = ([], n, None)"
| "get_loop ops cfg now i (c # cs) n =
     (case c_Usable ops c n of
        (False, n) \<Rightarrow> get_loop ops cfg now (Suc i) cs (c_Close ops c n)
      | (True, n) \<Rightarrow>
          if c_LastUseAt ops c + MaxConnLifetimeSec cfg * second < now i then get_loop ops cfg now (Suc i) cs (c_Close ops c n)
          else (cs, n, Some c))"

text \<open>\<open>new\<close> is the constructor of the configuration.\<close>

definition pool_Get ::
    "('c, 'n) conn_ops \<Rightarrow> pool_config \<Rightarrow> (nat \<Rightarrow> time) \<Rightarrow> ('n \<Rightarrow> 'n \<times> (goerr + 'c option)) \<Rightarrow> string \<Rightarrow> 'c pool \<times> 'n \<Rightarrow>
      (('c pool \<times> 'n) \<times> (goerr + 'c option)) outcome" where
  "pool_Get ops cfg now new key st =
     obind (Get_locked cfg (now 0) key (fst st)) (\<lambda>(p, r).
       case r of
         CallNew \<Rightarrow> (case new (snd st) of (n, x) \<Rightarrow> Return ((p, n), x))
       | Dropped ch \<Rightarrow> (case drain ops [ch] (p, snd st) of (p, n) \<Rightarrow> (case new n of (n, x) \<Rightarrow> Return ((p, n), x)))
       | Bucket ch \<Rightarrow>
           (case pl_chans p ch of (xs, cl) \<Rightarrow>
              (case get_loop ops cfg now 1 xs (snd st) of (rest, n, r) \<Rightarrow>
                 let p = p\<lparr>pl_chans := (pl_chans p)(ch := (rest, cl))\<rparr> in
                 (case r of
                    Some c \<Rightarrow> Return ((p, n), Inr (Some c))
                  | None \<Rightarrow> (case new n of (n, x) \<Rightarrow> Return ((p, n), x))))))"

definition pool_Return :: "('c, 'n) conn_ops \<Rightarrow> pool_config \<Rightarrow> time \<Rightarrow> string \<Rightarrow> 'c \<Rightarrow> 'c pool \<times> 'n \<Rightarrow> ('c pool \<times> 'n) outcome" where
  "pool_Return ops cfg now key c st =
     obind (Return_locked cfg now key c (fst st)) (\<lambda>(p, chs, r).
       case drain ops chs (p, snd st) of (p, n) \<Rightarrow> Return (p, if r = Full then c_Close ops c n else n))"

definition pool_CleanUp :: "('c, 'n) conn_ops \<Rightarrow> pool_config \<Rightarrow> time \<Rightarrow> 'c pool \<times> 'n \<Rightarrow> ('c pool \<times> 'n) outcome" where
  "pool_CleanUp ops cfg now st =
     obind (CleanUp_locked cfg now (fst st)) (\<lambda>(p, chs). Return (drain ops chs (p, snd st)))"

definition pool_Close :: "('c, 'n) conn_ops \<Rightarrow> 'c pool \<times> 'n \<Rightarrow> ('c pool \<times> 'n) outcome" where
  "pool_Close ops st = obind (Close_locked (fst st)) (\<lambda>(p, chs). Return (drain ops chs (p, snd st)))"

section \<open>All interleavings\<close>

text \<open>Goroutines that have left the lock: a \<open>Get\<close> that receives, or somebody who empties a closed channel.\<close>

datatype activity = Receiving nat | Draining nat

text \<open>Beside the pool: the connections that users hold, those that were closed, and those that \<open>Return\<close> dropped after the end of the pool.\<close>

record 'c pool_state =
  ps_pool :: "'c pool"
  ps_acts :: "activity multiset"
  ps_out :: "'c multiset"
  ps_closed :: "'c multiset"
  ps_lost :: "'c multiset"

definition start_state :: "'c pool_state" where
  "start_state = \<lparr>ps_pool = NewPool, ps_acts = {#}, ps_out = {#}, ps_closed = {#}, ps_lost = {#}\<rparr>"

fun lookup_acts :: "lookup \<Rightarrow> activity multiset" where
  "lookup_acts CallNew = {#}"
| "lookup_acts (Dropped ch) = {#Draining ch#}"
| "lookup_acts (Bucket ch) = {#Receiving ch#}"

definition drains :: "nat list \<Rightarrow> activity multiset" where
  "drains chs = mset (map Draining chs)"

definition idle :: "'c pool \<Rightarrow> 'c multiset" where
  "idle p = (\<Sum>ch \<in> {..< pl_next p}. mset (fst (pl_chans p ch)))"

definition all_conns :: "'c pool_state \<Rightarrow> 'c multiset" where
  "all_conns s = idle (ps_pool s) + ps_out s + ps_closed s + ps_lost s"

inductive pool_step :: "pool_config \<Rightarrow> 'c pool_state \<Rightarrow> 'c pool_state \<Rightarrow> bool" for cfg where
  dial: "c \<notin># all_conns s \<Longrightarrow> pool_step cfg s (s\<lparr>ps_out := ps_out s + {#c#}\<rparr>)"
| get: "Get_locked cfg now key (ps_pool s) = Return (p, r) \<Longrightarrow>
    pool_step cfg s (s\<lparr>ps_pool := p, ps_acts := ps_acts s + lookup_acts r\<rparr>)"
| receive: "Receiving ch \<in># ps_acts s \<Longrightarrow> chan_recv ch (ps_pool s) = Some (c, p) \<Longrightarrow>
    pool_step cfg s (s\<lparr>ps_pool := p, ps_out := ps_out s + {#c#}, ps_acts := ps_acts s - {#Receiving ch#}\<rparr>)"
| discard: "Receiving ch \<in># ps_acts s \<Longrightarrow> chan_recv ch (ps_pool s) = Some (c, p) \<Longrightarrow>
    pool_step cfg s (s\<lparr>ps_pool := p, ps_closed := ps_closed s + {#c#}\<rparr>)"
| nothing: "Receiving ch \<in># ps_acts s \<Longrightarrow> chan_recv ch (ps_pool s) = None \<Longrightarrow>
    pool_step cfg s (s\<lparr>ps_acts := ps_acts s - {#Receiving ch#}\<rparr>)"
| empty_one: "Draining ch \<in># ps_acts s \<Longrightarrow> chan_recv ch (ps_pool s) = Some (c, p) \<Longrightarrow>
    pool_step cfg s (s\<lparr>ps_pool := p, ps_closed := ps_closed s + {#c#}\<rparr>)"
| empty_end: "Draining ch \<in># ps_acts s \<Longrightarrow> chan_recv ch (ps_pool s) = None \<Longrightarrow>
    pool_step cfg s (s\<lparr>ps_acts := ps_acts s - {#Draining ch#}\<rparr>)"
| user_close: "c \<in># ps_out s \<Longrightarrow> pool_step cfg s (s\<lparr>ps_out := ps_out s - {#c#}, ps_closed := ps_closed s + {#c#}\<rparr>)"
| put: "c \<in># ps_out s \<Longrightarrow> Return_locked cfg now key c (ps_pool s) = Return (p, chs, r) \<Longrightarrow>
    pool_step cfg s (s\<lparr>ps_pool := p, ps_acts := ps_acts s + drains chs, ps_out := ps_out s - {#c#},
      ps_closed := ps_closed s + (if r = Full then {#c#} else {#}), ps_lost := ps_lost s + (if r = NoPool then {#c#} else {#})\<rparr>)"
| clean: "CleanUp_locked cfg now (ps_pool s) = Return (p, chs) \<Longrightarrow>
    pool_step cfg s (s\<lparr>ps_pool := p, ps_acts := ps_acts s + drains chs\<rparr>)"
| close: "Close_locked (ps_pool s) = Return (p, chs) \<Longrightarrow>
    pool_step cfg s (s\<lparr>ps_pool := p, ps_acts := ps_acts s + drains chs\<rparr>)"

inductive pool_reach :: "pool_config \<Rightarrow> 'c pool_state \<Rightarrow> bool" for cfg where
  reach_0: "pool_reach cfg start_state"
| reach_S: "pool_reach cfg s \<Longrightarrow> pool_step cfg s s' \<Longrightarrow> pool_reach cfg s'"

section \<open>The invariant\<close>

definition pool_ok :: "pool_config \<Rightarrow> 'c pool \<Rightarrow> bool" where
  "pool_ok cfg p \<longleftrightarrow>
     distinct (map fst (pool_keys p)) \<and> distinct (map (sl_c \<circ> snd) (pool_keys p)) \<and>
     (\<forall>kv \<in> set (pool_keys p). sl_c (snd kv) < pl_next p \<and> \<not> snd (pl_chans p (sl_c (snd kv)))) \<and>
     (\<forall>ch. int (length (fst (pl_chans p ch))) \<le> MaxConnsPerKey cfg) \<and>
     (\<forall>ch \<ge> pl_next p. pl_chans p ch = ([], False))"

lemma pool_keys_fields [simp]:
  "pool_keys (p\<lparr>pl_chans := x\<rparr>) = pool_keys p" "pool_keys (p\<lparr>pl_ticker := b\<rparr>) = pool_keys p" "pool_keys (p\<lparr>pl_next := n\<rparr>) = pool_keys p"
  "pool_keys (p\<lparr>pl_keys := Some ks\<rparr>) = ks" "pool_keys (p\<lparr>pl_keys := None\<rparr>) = []"
  by (simp_all add: pool_keys_def)

lemma pool_keys_Some: "kv \<in> set (pool_keys p) \<Longrightarrow> pl_keys p = Some (pool_keys p)"
  by (cases "pl_keys p") (auto simp: pool_keys_def)

lemma delete_filter: "AList.delete k ks = filter (\<lambda>kv. fst kv \<noteq> k) ks"
  by (auto simp: AList.delete_eq intro!: filter_cong)

lemma key_unique:
  assumes "distinct (map fst ks)" "x \<in> set ks" "y \<in> set ks" "fst x = fst y"
  shows "x = y"
  using assms map_of_is_SomeI [of ks] by (metis option.inject prod.collapse)

lemma idle_update:
  assumes "ch < pl_next p"
  shows "idle (p\<lparr>pl_chans := (pl_chans p)(ch := (xs, cl))\<rparr>) + mset (fst (pl_chans p ch)) = idle p + mset xs"
proof -
  have "idle (p\<lparr>pl_chans := (pl_chans p)(ch := (xs, cl))\<rparr>) =
    mset xs + (\<Sum>c \<in> {..< pl_next p} - {ch}. mset (fst (pl_chans p c)))"
    unfolding idle_def using assms by (subst sum.remove [of _ ch]) (auto intro!: sum.cong)
  moreover have "idle p = mset (fst (pl_chans p ch)) + (\<Sum>c \<in> {..< pl_next p} - {ch}. mset (fst (pl_chans p c)))"
    unfolding idle_def using assms by (subst sum.remove [of _ ch]) auto
  ultimately show ?thesis by simp
qed

lemma idle_fields [simp]: "idle (p\<lparr>pl_keys := ks\<rparr>) = idle p" "idle (p\<lparr>pl_ticker := b\<rparr>) = idle p"
  by (simp_all add: idle_def)

lemma recv_ok:
  assumes "pool_ok cfg p" "chan_recv ch p = Some (c, p')"
  shows "pool_ok cfg p'" "idle p = idle p' + {#c#}"
proof -
  obtain xs cl where c: "pl_chans p ch = (c # xs, cl)" "p' = p\<lparr>pl_chans := (pl_chans p)(ch := (xs, cl))\<rparr>"
    using assms(2) by (auto simp: chan_recv_def split: prod.splits list.splits)
  then have ch: "ch < pl_next p" using assms(1) by (metis Pair_inject list.discI not_le pool_ok_def)
  have "int (length (c # xs)) \<le> MaxConnsPerKey cfg" using assms(1) c(1) unfolding pool_ok_def by (metis fst_conv)
  with assms(1) c ch show "pool_ok cfg p'" by (auto simp: pool_ok_def)
  show "idle p = idle p' + {#c#}" using idle_update [OF ch, of xs cl] c by simp
qed

lemma close_slot_ok:
  assumes "pool_ok cfg p" "(k, sl) \<in> set (pool_keys p)"
  shows "\<exists>p'. chan_close (sl_c sl) p = Return p' \<and>
    pool_ok cfg (p'\<lparr>pl_keys := map_option (AList.delete k) (pl_keys p')\<rparr>) \<and>
    idle p' = idle p \<and> pl_keys p' = pl_keys p \<and> pl_next p' = pl_next p \<and> pl_ticker p' = pl_ticker p"
proof -
  obtain ks where ks: "pl_keys p = Some ks" "pool_keys p = ks" using pool_keys_Some [OF assms(2)] by simp
  obtain xs where x: "pl_chans p (sl_c sl) = (xs, False)" "sl_c sl < pl_next p" using assms by (cases "pl_chans p (sl_c sl)") (auto simp: pool_ok_def)
  let ?p = "p\<lparr>pl_chans := (pl_chans p)(sl_c sl := (xs, True))\<rparr>"
  have d: "distinct (map fst ks)" "distinct (map (sl_c \<circ> snd) ks)" using assms(1) ks by (auto simp: pool_ok_def)
  have other: "sl_c (snd kv) \<noteq> sl_c sl" if "kv \<in> set ks" "fst kv \<noteq> k" for kv
  proof
    assume "sl_c (snd kv) = sl_c sl"
    then have "kv = (k, sl)" using d(2) that(1) assms(2) ks unfolding distinct_map by (metis comp_apply inj_on_def snd_conv)
    with that(2) show False by simp
  qed
  have "pool_ok cfg (?p\<lparr>pl_keys := map_option (AList.delete k) (pl_keys ?p)\<rparr>)"
    using assms(1) ks x d other by (auto simp: pool_ok_def delete_filter distinct_map_filter) (metis fst_conv)
  moreover have "idle ?p = idle p" using idle_update [OF x(2), of xs True] x(1) by simp
  ultimately show ?thesis using x(1) by (intro exI [of _ ?p]) (simp add: chan_close_def)
qed

lemma evict_ok:
  assumes "pool_ok cfg p" "distinct (map fst kvs)" "set kvs \<subseteq> set (pool_keys p)"
  shows "\<exists>p' chs. evict P kvs p = Return (p', chs) \<and> pool_ok cfg p' \<and> idle p' = idle p \<and>
    pl_keys p' = map_option (filter (\<lambda>kv. \<not> (P kv \<and> fst kv \<in> fst ` set kvs))) (pl_keys p) \<and> pl_next p' = pl_next p \<and> pl_ticker p' = pl_ticker p"
  using assms
proof (induction kvs arbitrary: p)
  case Nil
  then show ?case by (cases "pl_keys p") simp_all
next
  case (Cons kv kvs)
  obtain k sl where kv: "kv = (k, sl)" by fastforce
  have k: "pl_keys p = Some (pool_keys p)" "(k, sl) \<in> set (pool_keys p)" "k \<notin> fst ` set kvs"
    using Cons.prems kv pool_keys_Some [of kv p] by auto
  have uniq: "x = (k, sl)" if "x \<in> set (pool_keys p)" "fst x = k" for x
    using key_unique [OF _ that(1) k(2)] that(2) Cons.prems(1) by (simp add: pool_ok_def)
  show ?case
  proof (cases "P kv")
    case True
    obtain p1 where p1: "chan_close (sl_c sl) p = Return p1" "pool_ok cfg (p1\<lparr>pl_keys := Some (AList.delete k (pool_keys p))\<rparr>)"
      "idle p1 = idle p" "pl_keys p1 = pl_keys p" "pl_next p1 = pl_next p" "pl_ticker p1 = pl_ticker p"
      using close_slot_ok [OF Cons.prems(1) k(2)] k(1) by fastforce
    let ?p2 = "p1\<lparr>pl_keys := Some (AList.delete k (pool_keys p))\<rparr>"
    have "set kvs \<subseteq> set (pool_keys ?p2)" using Cons.prems(3) k(3) by (auto simp: delete_filter image_iff)
    from Cons.IH [OF p1(2) _ this] Cons.prems(2) obtain p' chs where p': "evict P kvs ?p2 = Return (p', chs)" "pool_ok cfg p'" "idle p' = idle p"
      "pl_keys p' = Some (filter (\<lambda>kv. \<not> (P kv \<and> fst kv \<in> fst ` set kvs)) (AList.delete k (pool_keys p)))" "pl_next p' = pl_next p" "pl_ticker p' = pl_ticker p"
      using p1 by auto
    have "filter (\<lambda>kv. \<not> (P kv \<and> fst kv \<in> fst ` set kvs)) (AList.delete k (pool_keys p)) =
      filter (\<lambda>x. \<not> (P x \<and> fst x \<in> fst ` set (kv # kvs))) (pool_keys p)"
      unfolding delete_filter filter_filter using True uniq kv by (intro filter_cong refl) auto
    with p' True k kv p1 show ?thesis by auto
  next
    case False
    from Cons.IH [OF Cons.prems(1), of] Cons.prems obtain p' chs where p': "evict P kvs p = Return (p', chs)" "pool_ok cfg p'" "idle p' = idle p"
      "pl_keys p' = Some (filter (\<lambda>kv. \<not> (P kv \<and> fst kv \<in> fst ` set kvs)) (pool_keys p))" "pl_next p' = pl_next p" "pl_ticker p' = pl_ticker p"
      using k(1) by auto
    have "filter (\<lambda>kv. \<not> (P kv \<and> fst kv \<in> fst ` set kvs)) (pool_keys p) = filter (\<lambda>x. \<not> (P x \<and> fst x \<in> fst ` set (kv # kvs))) (pool_keys p)"
      using False uniq kv by (intro filter_cong refl) auto
    with p' False k kv show ?thesis by auto
  qed
qed

lemma Get_ok:
  assumes "pool_ok cfg p"
  shows "\<exists>p' r. Get_locked cfg now key p = Return (p', r) \<and> pool_ok cfg p' \<and> idle p' = idle p"
proof (cases "map_of (pool_keys p) key")
  case (Some sl)
  then have m: "(key, sl) \<in> set (pool_keys p)" by (rule map_of_SomeD)
  show ?thesis
  proof (cases "unix now - sl_lastUse sl > MaxConnLifetimeSec cfg")
    case True
    from close_slot_ok [OF assms m] obtain p' where p': "chan_close (sl_c sl) p = Return p'"
      "pool_ok cfg (p'\<lparr>pl_keys := map_option (AList.delete key) (pl_keys p')\<rparr>)" "idle p' = idle p" "pl_keys p' = pl_keys p" by blast
    then have "chan_close (sl_c sl) (p\<lparr>pl_keys := map_option (AList.delete key) (pl_keys p)\<rparr>) =
      Return (p'\<lparr>pl_keys := map_option (AList.delete key) (pl_keys p')\<rparr>)"
      by (auto simp: chan_close_def split: prod.splits bool.splits)
    with p' True Some show ?thesis by (simp add: Get_locked_def)
  qed (use assms Some in \<open>simp add: Get_locked_def\<close>)
qed (use assms in \<open>simp add: Get_locked_def\<close>)

lemma CleanUp_ok:
  assumes "pool_ok cfg p"
  shows "\<exists>p' chs. CleanUp_locked cfg now p = Return (p', chs) \<and> pool_ok cfg p' \<and> idle p' = idle p"
  using evict_ok [OF assms, of "pool_keys p" "stale cfg now"] assms by (auto simp: CleanUp_locked_def pool_ok_def)

lemma Close_ok:
  assumes "pool_ok cfg p" "pl_ticker p"
  shows "\<exists>p' chs. Close_locked p = Return (p', chs) \<and> pool_ok cfg p' \<and> idle p' = idle p"
proof -
  have "pool_ok cfg (p\<lparr>pl_ticker := False\<rparr>)" using assms(1) by (simp add: pool_ok_def)
  from evict_ok [OF this, of "pool_keys p" "\<lambda>_. True"] assms(1) obtain p' chs where
    "evict (\<lambda>_. True) (pool_keys p) (p\<lparr>pl_ticker := False\<rparr>) = Return (p', chs)" "pool_ok cfg p'" "idle p' = idle p"
    by (auto simp: pool_ok_def)
  with assms(2) show ?thesis by (simp add: Close_locked_def pool_ok_def)
qed

lemma send_ok:
  assumes "pool_ok cfg p" "(k, sl) \<in> set (pool_keys p)"
  shows "\<exists>p' b. chan_send cfg (sl_c sl) c p = Return (p', b) \<and> pool_ok cfg p' \<and> idle p' = idle p + (if b then {#c#} else {#}) \<and> pl_keys p' = pl_keys p"
proof -
  obtain xs where x: "pl_chans p (sl_c sl) = (xs, False)" "sl_c sl < pl_next p" using assms by (cases "pl_chans p (sl_c sl)") (auto simp: pool_ok_def)
  let ?p = "p\<lparr>pl_chans := (pl_chans p)(sl_c sl := (xs @ [c], False))\<rparr>"
  have "idle ?p = idle p + {#c#}" using idle_update [OF x(2), of "xs @ [c]" False] x(1) by simp
  moreover have "pool_ok cfg ?p" if "int (length xs) < MaxConnsPerKey cfg" using assms(1) that x by (auto simp: pool_ok_def)
  ultimately show ?thesis using x assms(1) by (auto simp: chan_send_def)
qed

lemma add_slot_ok:
  assumes "pool_ok cfg p" "pl_keys p = Some ks" "key \<notin> fst ` set ks" "0 \<le> MaxConnsPerKey cfg"
  shows "\<exists>p' sl. add_slot cfg now key p = Return (p', sl) \<and> pool_ok cfg p' \<and> idle p' = idle p \<and> pl_keys p' = Some (ks @ [(key, sl)])"
proof -
  let ?sl = "\<lparr>sl_c = pl_next p, sl_lastUse = unix now\<rparr>"
  let ?p = "p\<lparr>pl_keys := Some (ks @ [(key, ?sl)]), pl_chans := (pl_chans p)(pl_next p := ([], False)), pl_next := Suc (pl_next p)\<rparr>"
  have u: "AList.update key ?sl ks = ks @ [(key, ?sl)]" using assms(3) by (induction ks) auto
  have pk: "pool_keys p = ks" using assms(2) by (simp add: pool_keys_def)
  have "pool_ok cfg ?p" using assms(1,3,4) unfolding pool_ok_def pk by (auto simp: pool_keys_def)
  moreover have "idle ?p = idle p" using assms(1) by (simp add: idle_def pool_ok_def lessThan_Suc)
  ultimately show ?thesis using assms(2,4) u by (simp add: add_slot_def Let_def)
qed

lemma Return_ok:
  assumes "pool_ok cfg p" "0 \<le> MaxConnsPerKey cfg"
  shows "\<exists>p' chs r. Return_locked cfg now key c p = Return (p', chs, r) \<and> pool_ok cfg p' \<and>
    idle p' = idle p + (if r = Kept then {#c#} else {#}) \<and> (pl_keys p = None \<longleftrightarrow> r = NoPool)"
proof (cases "pl_keys p")
  case (Some ks)
  then have pk: "pool_keys p = ks" by (simp add: pool_keys_def)
  have "\<exists>p1 chs sl. (case map_of ks key of Some bucket \<Rightarrow> Return (p, [], bucket)
      | None \<Rightarrow> obind (if length ks = MaxKeys cfg then evict (stale cfg now) ks p else Return (p, [])) (\<lambda>(p, chs).
          obind (add_slot cfg now key p) (\<lambda>(p, bucket). Return (p, chs, bucket)))) = Return (p1, chs, sl) \<and>
      pool_ok cfg p1 \<and> idle p1 = idle p \<and> (key, sl) \<in> set (pool_keys p1)"
  proof (cases "map_of ks key")
    case (Some sl)
    then show ?thesis using assms(1) pk by (auto dest: map_of_SomeD)
  next
    case None
    have "\<exists>p1 chs ks1. (if length ks = MaxKeys cfg then evict (stale cfg now) ks p else Return (p, [])) = Return (p1, chs) \<and>
      pool_ok cfg p1 \<and> idle p1 = idle p \<and> pl_keys p1 = Some ks1 \<and> set ks1 \<subseteq> set ks"
      using evict_ok [OF assms(1), of ks "stale cfg now"] assms(1) Some pk by (auto simp: pool_ok_def)
    then obtain p1 chs ks1 where p1: "(if length ks = MaxKeys cfg then evict (stale cfg now) ks p else Return (p, [])) = Return (p1, chs)"
      "pool_ok cfg p1" "idle p1 = idle p" "pl_keys p1 = Some ks1" "set ks1 \<subseteq> set ks" by blast
    have "key \<notin> fst ` set ks1" using None p1(5) by (auto simp: map_of_eq_None_iff)
    from add_slot_ok [OF p1(2,4) this assms(2)] obtain p2 sl where
      "add_slot cfg now key p1 = Return (p2, sl)" "pool_ok cfg p2" "idle p2 = idle p1" "pl_keys p2 = Some (ks1 @ [(key, sl)])" by blast
    with None p1 show ?thesis by (simp add: pool_keys_def)
  qed
  then obtain p1 chs sl where p1: "(case map_of ks key of Some bucket \<Rightarrow> Return (p, [], bucket)
      | None \<Rightarrow> obind (if length ks = MaxKeys cfg then evict (stale cfg now) ks p else Return (p, [])) (\<lambda>(p, chs).
          obind (add_slot cfg now key p) (\<lambda>(p, bucket). Return (p, chs, bucket)))) = Return (p1, chs, sl)"
      "pool_ok cfg p1" "idle p1 = idle p" "(key, sl) \<in> set (pool_keys p1)" by blast
  from send_ok [OF p1(2,4), of c] obtain p' b where
    "chan_send cfg (sl_c sl) c p1 = Return (p', b)" "pool_ok cfg p'" "idle p' = idle p1 + (if b then {#c#} else {#})" by blast
  with p1 Some show ?thesis by (simp add: Return_locked_def)
qed (use assms in \<open>simp add: Return_locked_def\<close>)

lemma step_conserves:
  assumes "pool_step cfg s s'" "pool_ok cfg (ps_pool s)" "0 \<le> MaxConnsPerKey cfg"
  shows "pool_ok cfg (ps_pool s') \<and> (all_conns s' = all_conns s \<or> (\<exists>c. c \<notin># all_conns s \<and> all_conns s' = all_conns s + {#c#}))"
  using assms(1)
proof cases
  case (get now key p r)
  then show ?thesis using Get_ok [OF assms(2), of now key] by (auto simp: all_conns_def)
next
  case (receive ch c p)
  then show ?thesis using recv_ok [OF assms(2), of ch c p] by (auto simp: all_conns_def)
next
  case (discard ch c p)
  then show ?thesis using recv_ok [OF assms(2), of ch c p] by (auto simp: all_conns_def)
next
  case (empty_one ch c p)
  then show ?thesis using recv_ok [OF assms(2), of ch c p] by (auto simp: all_conns_def)
next
  case (put c now key p chs r)
  then show ?thesis using Return_ok [OF assms(2,3), of now key c] by (cases r) (auto simp: all_conns_def)
next
  case (clean now p chs)
  then show ?thesis using CleanUp_ok [OF assms(2), of now] by (auto simp: all_conns_def)
next
  case (close p chs)
  then have "pl_ticker (ps_pool s)" by (simp add: Close_locked_def split: if_splits)
  with close show ?thesis using Close_ok [OF assms(2)] by (auto simp: all_conns_def)
qed (use assms(2) in \<open>auto simp: all_conns_def\<close>)

lemma reach_ok:
  assumes "pool_reach cfg s" "0 \<le> MaxConnsPerKey cfg"
  shows "pool_ok cfg (ps_pool s) \<and> (\<forall>c. count (all_conns s) c \<le> 1)"
  using assms(1)
proof induction
  case reach_0
  then show ?case using assms(2) by (simp add: start_state_def NewPool_def pool_ok_def pool_keys_def all_conns_def idle_def)
next
  case (reach_S s s')
  from step_conserves [OF reach_S.hyps(2) _ assms(2)] reach_S.IH show ?case by (auto simp: not_in_iff)
qed

text \<open>What the loop of \<open>Get\<close> selects: the first connection that is usable and was used recently; all before it are closed.\<close>

lemma get_loop_Some:
  assumes "get_loop ops cfg now i xs n = (rest, n', Some c)"
  shows "\<exists>pre m. xs = pre @ c # rest \<and> c_Usable ops c m = (True, n') \<and>
    now (i + length pre) \<le> c_LastUseAt ops c + MaxConnLifetimeSec cfg * second"
  using assms
proof (induction xs arbitrary: i n)
  case (Cons x xs)
  obtain b m where u: "c_Usable ops x n = (b, m)" by fastforce
  show ?case
  proof (cases "b \<and> \<not> c_LastUseAt ops x + MaxConnLifetimeSec cfg * second < now i")
    case True
    with Cons.prems u show ?thesis by (intro exI [of _ "[]"] exI [of _ n]) auto
  next
    case False
    then have "get_loop ops cfg now (Suc i) xs (c_Close ops x m) = (rest, n', Some c)" using Cons.prems u by (auto split: bool.splits if_splits)
    from Cons.IH [OF this] obtain pre k where "xs = pre @ c # rest" "c_Usable ops c k = (True, n')"
      "now (Suc i + length pre) \<le> c_LastUseAt ops c + MaxConnLifetimeSec cfg * second" by blast
    then show ?thesis by (intro exI [of _ "x # pre"] exI [of _ k]) auto
  qed
qed simp

section \<open>Properties\<close>

text \<open>C26. Connections are exclusive: however the calls of \<open>Get\<close>, \<open>Return\<close>, \<open>CleanUp\<close> and \<open>Close\<close> of all goroutines interleave, a connection is
  in one place only. It is idle in one slot, or held by one user, or was closed once, or was dropped once after the end of the pool. No
  operation panics on a closed channel, and no lock is kept.\<close>

theorem pool_exclusive:
  assumes "pool_reach cfg s" "0 \<le> MaxConnsPerKey cfg"
  shows "(\<forall>c. count (idle (ps_pool s)) c + count (ps_out s) c + count (ps_closed s) c + count (ps_lost s) c \<le> 1) \<and>
    (\<forall>now key. \<exists>r. Get_locked cfg now key (ps_pool s) = Return r) \<and>
    (\<forall>now key c. \<exists>r. Return_locked cfg now key c (ps_pool s) = Return r) \<and>
    (\<forall>now. \<exists>r. CleanUp_locked cfg now (ps_pool s) = Return r) \<and>
    (pl_ticker (ps_pool s) \<longrightarrow> (\<exists>r. Close_locked (ps_pool s) = Return r))"
proof -
  from reach_ok [OF assms] have ok: "pool_ok cfg (ps_pool s)" "\<forall>c. count (all_conns s) c \<le> 1" by auto
  from ok(2) have "\<forall>c. count (idle (ps_pool s)) c + count (ps_out s) c + count (ps_closed s) c + count (ps_lost s) c \<le> 1"
    by (simp add: all_conns_def add.assoc)
  with Get_ok [OF ok(1)] Return_ok [OF ok(1) assms(2)] CleanUp_ok [OF ok(1)] Close_ok [OF ok(1)] show ?thesis by fastforce
qed

definition sample_cfg :: pool_config where
  "sample_cfg = \<lparr>MaxKeys = 2, MaxConnsPerKey = 1, MaxConnLifetimeSec = 150, StaleKeyLifetimeSec = 300\<rparr>"

theorem pool_exclusive_witness:
  "\<exists>s :: nat pool_state. pool_reach sample_cfg s \<and> idle (ps_pool s) = {#7#} \<and> 7 \<notin># ps_out s + ps_closed s \<and>
    (\<exists>r. Get_locked sample_cfg 0 ''a'' (ps_pool s) = Return r)"
proof -
  let ?s1 = "start_state\<lparr>ps_out := {#7 :: nat#}\<rparr>"
  have d: "pool_step sample_cfg start_state ?s1"
    using dial [of 7 start_state sample_cfg] by (simp add: start_state_def NewPool_def all_conns_def idle_def)
  obtain p chs r where r: "Return_locked sample_cfg 0 ''a'' 7 NewPool = Return (p, chs, r)" "r = Kept" "idle p = {#7 :: nat#}"
    by (simp add: Return_locked_def NewPool_def sample_cfg_def add_slot_def chan_send_def Let_def idle_def)
  let ?s2 = "?s1\<lparr>ps_pool := p, ps_acts := drains chs, ps_out := {#}\<rparr>"
  have "pool_step sample_cfg ?s1 ?s2"
    using put [of 7 ?s1 sample_cfg 0 "''a''" p chs r] r by (simp add: start_state_def)
  then have reach: "pool_reach sample_cfg ?s2" using reach_S [OF reach_S [OF reach_0 d]] by blast
  have z: "0 \<le> MaxConnsPerKey sample_cfg" by (simp add: sample_cfg_def)
  from pool_exclusive [OF reach z] reach r(3) show ?thesis
    by (intro exI [of _ ?s2]) (simp add: start_state_def)
qed

section \<open>Faults\<close>

text \<open>The time of last use of a slot never changes, so that a slot is dropped a fixed time after its creation, however often it is used.\<close>

lemma last_use_stuck:
  assumes "Return_locked cfg now key c p = Return (p', chs, r)" "map_of (pool_keys p) key = Some sl"
  shows "pl_keys p' = pl_keys p"
  using assms by (auto simp: Return_locked_def pool_keys_def chan_send_def split: option.splits prod.splits bool.splits if_splits)

text \<open>Stale slots are collected only when their number is exactly \<open>MaxKeys\<close>. Without stale slots the number passes the limit and grows on.\<close>

lemma keys_unbounded:
  assumes "Return_locked cfg now key c p = Return (p', chs, r)" "pl_keys p = Some ks" "key \<notin> fst ` set ks"
    "MaxKeys cfg < length ks \<or> list_all (\<lambda>kv. \<not> stale cfg now kv) ks"
  shows "length (pool_keys p') = Suc (length ks) \<and> chs = []"
proof -
  have e: "evict (stale cfg now) ks p = Return (p, [])" if "list_all (\<lambda>kv. \<not> stale cfg now kv) ks" using that by (induction ks) auto
  have u: "length (AList.update key v ks) = Suc (length ks)" for v using assms(3) by (induction ks) auto
  have n: "map_of ks key = None" using assms(3) by (simp add: map_of_eq_None_iff)
  have b: "(if length ks = MaxKeys cfg then evict (stale cfg now) ks p else Return (p, [])) = Return (p, [])" using e assms(4) by auto
  show ?thesis using assms(1,2) unfolding Return_locked_def
    by (auto simp: n b add_slot_def chan_send_def pool_keys_def Let_def u split: if_splits prod.splits bool.splits)
qed

end
