(* ===== verification/Endpoint_Cache.thy ===== *)
theory Endpoint_Cache
  imports Address Go_Net
begin

text \<open>
  Model of the overrides of destinations: \<^verbatim>\<open>internal/endpoint_cache/endpoint_cache.go\<close>.

  The table of the database is a map from keys to rows. A query fails when \<open>fault\<close> says so; a failing query counts as an answer without a row.
\<close>

record override =
  TargetHost :: string
  Comment :: string

type_synonym overrides = "string \<rightharpoonup> override"

type_synonym mx_record = "string \<times> nat"

definition normalizeKey :: "textlib \<Rightarrow> string \<Rightarrow> string" where
  "normalizeKey tx key =
     (let k = TrimPrefix key ''['';
          k = TrimSuffix k '']'';
          k = (if HasPrefix (ToLower tx k) ''ipv6:'' then drop 5 k else k);
          k = TrimSuffix k ''.''
      in ToLower tx k)"

definition First :: "(string \<Rightarrow> bool) \<Rightarrow> overrides \<Rightarrow> string \<Rightarrow> override option" where
  "First fault db key = (if fault key then None else db key)"

definition Resolve :: "textlib \<Rightarrow> (string \<Rightarrow> bool) \<Rightarrow> overrides \<Rightarrow> string \<Rightarrow> string" where
  "Resolve tx fault db key =
     (let cleanKey = normalizeKey tx key in
      case First fault db cleanKey of
        Some override \<Rightarrow> TargetHost override
      | None \<Rightarrow> if ParseIP cleanKey then cleanKey else '''')"

text \<open>\<open>os\<close> is the lookup of the operating system.\<close>

definition ResolveMX ::
    "textlib \<Rightarrow> (string \<Rightarrow> bool) \<Rightarrow> overrides \<Rightarrow> (string \<Rightarrow> goerr + mx_record list) \<Rightarrow> string \<Rightarrow> goerr + mx_record list \<times> bool" where
  "ResolveMX tx fault db os domain =
     (case First fault db (normalizeKey tx domain) of
        Some override \<Rightarrow> Inr ([(TargetHost override, 0)], True)
      | None \<Rightarrow> map_sum id (\<lambda>records. (records, False)) (os domain))"

definition set_key :: "textlib \<Rightarrow> string \<Rightarrow> string" where
  "set_key tx lookupKey = TrimSuffix (ToLower tx lookupKey) ''.''"

definition cache_Set :: "textlib \<Rightarrow> string \<Rightarrow> string \<Rightarrow> string \<Rightarrow> overrides \<Rightarrow> overrides" where
  "cache_Set tx lookupKey targetHost comment db = db(set_key tx lookupKey \<mapsto> \<lparr>TargetHost = targetHost, Comment = comment\<rparr>)"

definition cache_Delete :: "textlib \<Rightarrow> string \<Rightarrow> overrides \<Rightarrow> overrides" where
  "cache_Delete tx lookupKey db = db(set_key tx lookupKey := None)"

definition cache_Get :: "textlib \<Rightarrow> string \<Rightarrow> overrides \<Rightarrow> override option" where
  "cache_Get tx lookupKey db = db (set_key tx lookupKey)"

section \<open>Lemmas\<close>

definition lower_char :: "char \<Rightarrow> char" where
  "lower_char c = char_of (ascii_lower_rune (of_char c))"

lemma of_lower_char: "(of_char c :: nat) < 128 \<Longrightarrow> (of_char (lower_char c) :: nat) = ascii_lower_rune (of_char c)"
  by (simp add: lower_char_def ascii_lower_rune_def)

lemma ToLower_ascii:
  assumes "ascii s"
  shows "ToLower tx s = map lower_char s"
proof -
  have l: "list_all (\<lambda>c. (of_char c :: nat) < 128) s" using assms by (simp add: ascii_def)
  then have "map (\<lambda>r. if r < 0x80 then ascii_lower_rune r else unicode_ToLower tx r) (map of_char s) = map of_char (map lower_char s)"
    by (auto simp: list_all_iff of_lower_char)
  moreover have "ascii (map lower_char s)"
    using l by (auto simp: ascii_def list_all_iff of_lower_char ascii_lower_rune_def)
  ultimately show ?thesis using assms by (simp only: ToLower_def runes_ascii encode_runes_ascii)
qed

lemma lower_char_dot:
  assumes "(of_char c :: nat) < 128"
  shows "lower_char c = CHR ''.'' \<longleftrightarrow> c = CHR ''.''"
proof
  assume "lower_char c = CHR ''.''"
  then have "ascii_lower_rune (of_char c) = 46" using of_lower_char [OF assms] by simp
  then have "(of_char c :: nat) = of_char (CHR ''.'')" by (simp add: ascii_lower_rune_def split: if_splits)
  then show "c = CHR ''.''" by (simp only: of_char_eq_iff)
next
  assume "c = CHR ''.''"
  then have "(of_char (lower_char c) :: nat) = of_char (CHR ''.'')" using of_lower_char [OF assms] by (simp add: ascii_lower_rune_def)
  then show "lower_char c = CHR ''.''" by (simp only: of_char_eq_iff)
qed

lemma TrimSuffix_one: "TrimSuffix (xs @ [c]) [d] = (if c = d then xs else xs @ [c])" "TrimSuffix [] [d] = []"
  by (simp_all add: TrimSuffix_def HasSuffix_def HasPrefix_def)

lemma TrimSuffix_dot: "ascii k \<Longrightarrow> TrimSuffix (map lower_char k) ''.'' = map lower_char (TrimSuffix k ''.'')"
  by (cases k rule: rev_cases) (simp_all add: TrimSuffix_one lower_char_dot ascii_def)

text \<open>A key in one of the forms that an operator writes: no brackets and no address prefix.\<close>

definition plain_key :: "textlib \<Rightarrow> string \<Rightarrow> bool" where
  "plain_key tx k \<longleftrightarrow> ascii k \<and> \<not> HasPrefix k ''['' \<and> \<not> HasSuffix k '']'' \<and> \<not> HasPrefix (ToLower tx k) ''ipv6:''"

lemma normalize_plain:
  assumes "plain_key tx k"
  shows "normalizeKey tx k = set_key tx k"
proof -
  have "ascii (TrimSuffix k ''.'')" using assms by (cases k rule: rev_cases) (auto simp: plain_key_def TrimSuffix_one ascii_def)
  moreover have "TrimSuffix k '']'' = k" using assms by (simp add: plain_key_def TrimSuffix_def)
  then have "normalizeKey tx k = ToLower tx (TrimSuffix k ''.'')" using assms by (simp add: plain_key_def normalizeKey_def TrimPrefix_def)
  ultimately show ?thesis using assms TrimSuffix_dot [of k] by (simp add: plain_key_def set_key_def ToLower_ascii)
qed

lemma normalize_bracket: "\<not> HasPrefix k ''['' \<Longrightarrow> \<not> HasSuffix k '']'' \<Longrightarrow> normalizeKey tx (''['' @ k @ '']'') = normalizeKey tx k"
proof -
  assume k: "\<not> HasPrefix k ''[''" "\<not> HasSuffix k '']''"
  have "TrimPrefix (''['' @ k @ '']'') ''['' = k @ '']''" by (simp add: TrimPrefix_def HasPrefix_def)
  with k show ?thesis using TrimSuffix_one(1) [of k "CHR '']''" "CHR '']''"]
    by (simp add: normalizeKey_def TrimPrefix_def) (simp add: TrimSuffix_def)
qed

section \<open>Properties\<close>

text \<open>Overrides take effect: after \<open>Set\<close> with a plain key, mail for this key, in any mixture of case, with or without a final dot or
  brackets, goes to the target, also when the MX is looked up; the answer for every other key stays as it was; and \<open>Delete\<close> undoes it.\<close>

theorem override_takes_effect:
  assumes "plain_key tx k" "\<not> fault (set_key tx k)"
  shows "Resolve tx fault (cache_Set tx k target comment db) k' =
      (if normalizeKey tx k' = set_key tx k then target else Resolve tx fault db k') \<and>
    ResolveMX tx fault (cache_Set tx k target comment db) os k' =
      (if normalizeKey tx k' = set_key tx k then Inr ([(target, 0)], True) else ResolveMX tx fault db os k') \<and>
    normalizeKey tx k = set_key tx k \<and> normalizeKey tx (''['' @ k @ '']'') = set_key tx k \<and>
    cache_Get tx k (cache_Set tx k target comment db) = Some \<lparr>TargetHost = target, Comment = comment\<rparr> \<and>
    (db (set_key tx k) = None \<longrightarrow> cache_Delete tx k (cache_Set tx k target comment db) = db)"
proof -
  have "normalizeKey tx (''['' @ k @ '']'') = set_key tx k"
    using normalize_bracket [of k tx] normalize_plain [OF assms(1)] assms(1) by (simp add: plain_key_def)
  moreover have "cache_Delete tx k (cache_Set tx k target comment db) = db" if "db (set_key tx k) = None"
    using that by (auto simp: cache_Delete_def cache_Set_def)
  ultimately show ?thesis using assms(2) normalize_plain [OF assms(1)]
    by (simp add: Resolve_def ResolveMX_def First_def cache_Set_def cache_Get_def Let_def)
qed

section \<open>Faults\<close>

text \<open>\<open>Set\<close> keeps the brackets of a key that \<open>Resolve\<close> takes away: an override for an address in brackets has no effect.\<close>

lemma bracket_override_ignored:
  "Resolve tx (\<lambda>_. False) (cache_Set tx ''[1.1.1.1]'' t c Map.empty) ''[1.1.1.1]'' = Resolve tx (\<lambda>_. False) Map.empty ''[1.1.1.1]''"
proof -
  have l: "ToLower tx ''1.1.1.1'' = ''1.1.1.1''" "ToLower tx ''[1.1.1.1]'' = ''[1.1.1.1]''"
    by (simp_all add: ToLower_lower_ascii lower_ascii_def ascii_def)
  then have "normalizeKey tx ''[1.1.1.1]'' = ''1.1.1.1''" "set_key tx ''[1.1.1.1]'' = ''[1.1.1.1]''"
    by (simp_all add: normalizeKey_def set_key_def TrimPrefix_def TrimSuffix_def HasPrefix_def HasSuffix_def)
  then show ?thesis by (simp add: Resolve_def First_def cache_Set_def)
qed

end
