(* ===== verification/Remote.thy ===== *)
theory Remote
  imports Smtp_Conn Mx_Auth Conn_Pool Endpoint_Cache Limits
begin

text \<open>
  Model of the delivery to other servers: \<^verbatim>\<open>internal/target/remote/remote.go\<close> and \<^verbatim>\<open>connect.go\<close>.

  A delivery groups its recipients by domain. For every domain it tries an HTTP request first and an SMTP connection then: from the pool, or a new
  one to the first usable MX under the policies of the target. At the end the connections go back to the pool. The network, the resolvers and
  the clock are arguments.

  The code runs one goroutine per domain, and the goroutines share the policies and the metadata of the delivery. The model runs them one after the
  other, in any order, and lets the others interfere: before a goroutine reads the policies or the metadata, \<open>re_otherPolicies\<close> and
  \<open>re_otherMeta\<close> say what the goroutines of the other domains have made of them in the meantime. What these can do is \<open>others_rely\<close>.
\<close>

section \<open>Data\<close>

record mx_conn =
  mc_C :: smtp_c
  mc_domain :: string
  mc_dnssecOk :: bool
  mc_errored :: bool
  mc_reuseLimit :: int
  mc_transactions :: int
  mc_lastUseAt :: time
  mc_mxLevel :: MXLevel
  mc_tlsLevel :: TLSLevel

record 'n remote_env =
  rt_ipv4 :: bool
  rt_tlsConfig :: "tls_config option"
  rt_overrides :: "((string \<Rightarrow> bool) \<times> overrides) option"
  rt_endpointRewrite :: string
  rt_policies :: "policy list"
  rt_allowSecOverride :: bool
  rt_relaxedREQUIRETLS :: bool
  rt_connReuseLimit :: int
  rt_pool :: pool_config
  re_text :: textlib
  re_net :: "'n net_ops"
  re_TLSState :: "nat \<Rightarrow> 'n \<Rightarrow> tls_state"
  re_policy :: policy_env
  re_LookupMX :: "string \<Rightarrow> goerr + mx_record list"
  re_AuthLookupMX :: "(string \<Rightarrow> goerr + bool \<times> mx_record list) option"
  re_osLookupMX :: "string \<Rightarrow> goerr + mx_record list"
  re_LookupIP4 :: "string \<Rightarrow> string list"
  re_To4 :: "string \<Rightarrow> bool"
  re_dnsReason :: "goerr \<Rightarrow> string"
  re_SortPref :: "mx_record list \<Rightarrow> mx_record list"
  re_POST :: "string \<Rightarrow> string \<Rightarrow> string list \<Rightarrow> header \<Rightarrow> string \<Rightarrow> 'n \<Rightarrow> 'n \<times> (goerr + int)"
  re_now :: "nat \<Rightarrow> time"
  re_otherPolicies :: "policy list \<times> 'n \<Rightarrow> policy list \<times> 'n"
  re_otherMeta :: "msg_metadata \<times> 'n \<Rightarrow> msg_metadata \<times> 'n"

record 'n remote_world =
  rw_net :: 'n
  rw_pool :: "mx_conn pool"
  rw_limits :: group

text \<open>\<open>rd_addr\<close> is the address of the client of the message, or 127.0.0.1.\<close>

record remote_delivery =
  rd_mailFrom :: string
  rd_addr :: string
  rd_msgMeta :: msg_metadata
  rd_recipients :: "string list"
  rd_rcptsByDomain :: "(string \<times> string list) list"
  rd_connections :: "(string \<times> mx_conn) list"
  rd_policies :: "policy list"

type_synonym 'n rstate = "remote_delivery \<times> 'n remote_world"

section \<open>Connections of the pool\<close>

definition mx_Usable :: "'n net_ops \<Rightarrow> mx_conn \<Rightarrow> 'n \<Rightarrow> bool \<times> 'n" where
  "mx_Usable no c n =
     (case sc_cl (mc_C c) of
        None \<Rightarrow> (False, n)
      | Some cl \<Rightarrow>
          if mc_transactions c > mc_reuseLimit c \<or> mc_errored c then (False, n)
          else (case no_Reset no cl n of (n, err) \<Rightarrow> (err = None, n)))"

text \<open>A connection of the pool has a client, see \<open>mx_Usable\<close>; so \<open>Close\<close> returns.\<close>

definition mx_Close :: "'n net_ops \<Rightarrow> mx_conn \<Rightarrow> 'n \<Rightarrow> 'n" where
  "mx_Close no c n = (case conn_Close no (mc_C c, n) of Return ((_, n), _) \<Rightarrow> n | _ \<Rightarrow> n)"

definition mx_ops :: "'n net_ops \<Rightarrow> (mx_conn, 'n) conn_ops" where
  "mx_ops no = \<lparr>c_Usable = mx_Usable no, c_LastUseAt = mc_lastUseAt, c_Close = mx_Close no\<rparr>"

section \<open>Connecting\<close>

text \<open>The host that is dialled.\<close>

definition resolve_cached :: "'n remote_env \<Rightarrow> string \<Rightarrow> string" where
  "resolve_cached env key = (case rt_overrides env of None \<Rightarrow> '''' | Some (fault, db) \<Rightarrow> Resolve (re_text env) fault db key)"

definition connect_host :: "'n remote_env \<Rightarrow> string \<Rightarrow> string" where
  "connect_host env host =
     (let resolved = resolve_cached env host;
          h = (if resolved \<noteq> '''' then resolved else host)
      in if rt_ipv4 env then
           if \<not> ParseIP h then (case re_LookupIP4 env h of a # _ \<Rightarrow> a | [] \<Rightarrow> h)
           else if \<not> re_To4 env h then (case re_LookupIP4 env (TrimSuffix host ''.'') of a # _ \<Rightarrow> a | [] \<Rightarrow> h)
           else h
         else h)"

lemma obind_cong [fundef_cong]: "r = r' \<Longrightarrow> (\<And>x. r' = Return x \<Longrightarrow> f x = g x) \<Longrightarrow> obind r f = obind r' g"
  by (cases r') auto

text \<open>The loop behind the label \<open>retry\<close>: first with the verification of the certificate, then without, then without TLS.\<close>

function connect_retry ::
    "'n net_ops \<Rightarrow> string \<Rightarrow> tls_config option \<Rightarrow> TLSLevel \<Rightarrow> goerr option \<Rightarrow> smtp_c \<times> 'n \<Rightarrow>
      ((smtp_c \<times> 'n) \<times> TLSLevel \<times> goerr option \<times> goerr option) outcome" where
  "connect_retry no connectHost tlsCfg tlsLevel tlsErr st =
     obind (conn_Connect no False \<lparr>en_Host = connectHost, en_IsTLS = False\<rparr> False None st) (\<lambda>((c, n), r).
       case r of
         Inl e \<Rightarrow> Return ((c, n), TLSNone, None, Some e)
       | Inr _ \<Rightarrow>
           (case sc_cl c of
              None \<Rightarrow> nil_deref
            | Some cl \<Rightarrow>
                (case tlsCfg of
                   None \<Rightarrow> Return ((c, n), TLSNone, tlsErr, None)
                 | Some cfg \<Rightarrow>
                     if \<not> no_Extension no cl ''STARTTLS'' n then Return ((c, n), TLSNone, tlsErr, None)
                     else
                       (case no_StartTLS no cl cfg n of
                          (n, Some e) \<Rightarrow> obind (DirectClose no (c, n)) (\<lambda>st. Return (st, TLSNone, None, Some e))
                        | (n, None) \<Rightarrow>
                            (case no_Hello no cl n of
                               (n, None) \<Rightarrow> Return ((c, n), tlsLevel, tlsErr, None)
                             | (n, Some e) \<Rightarrow>
                                 if no_isVerify no e \<noteq> None \<and> tlsLevel = TLSAuthenticated then
                                   obind (DirectClose no (c, n)) (\<lambda>st.
                                     connect_retry no connectHost (Some (cfg\<lparr>InsecureSkipVerify := True\<rparr>)) TLSEncrypted (Some e) st)
                                 else
                                   obind (DirectClose no (c, n)) (\<lambda>st. connect_retry no connectHost None TLSNone (Some e) st))))))"
  by pat_completeness auto

termination connect_retry
  by (relation "measure (\<lambda>(_, _, cfg, lvl, _). if cfg = None then 0 else if lvl = TLSAuthenticated then 2 else 1)") auto

declare connect_retry.simps [simp del]

definition connect ::
    "'n remote_env \<Rightarrow> string \<Rightarrow> smtp_c \<times> 'n \<Rightarrow> ((smtp_c \<times> 'n) \<times> TLSLevel \<times> goerr option \<times> goerr option) outcome" where
  "connect env host st =
     (let tlsCfg = map_option (\<lambda>c. c\<lparr>ServerName := host\<rparr>) (rt_tlsConfig env);
          connectHost = connect_host env host
      in if ParseIP connectHost then
           let cfg = (case tlsCfg of None \<Rightarrow> \<lparr>ServerName = '''', InsecureSkipVerify = False\<rparr> | Some c \<Rightarrow> c) in
           connect_retry (re_net env) connectHost (Some (cfg\<lparr>InsecureSkipVerify := True\<rparr>)) TLSEncrypted None st
         else connect_retry (re_net env) connectHost tlsCfg TLSAuthenticated None st)"

text \<open>Every policy is read once by either loop of \<open>attemptMX\<close>, so that interference before the loop stands for interference between its reads.\<close>

definition attemptMX ::
    "'n remote_env \<Rightarrow> bool \<Rightarrow> string \<Rightarrow> mx_conn \<times> policy list \<times> 'n \<Rightarrow> ((mx_conn \<times> policy list \<times> 'n) \<times> goerr option) outcome" where
  "attemptMX env cacheOverride host st =
     (case st of (conn, ps, n) \<Rightarrow>
        case re_otherPolicies env (ps, n) of (ps, n) \<Rightarrow>
        obind (if cacheOverride then Return (ps, Inr MXNone) else check_mx_all (re_policy env) host (mc_dnssecOk conn) MXNone ps) (\<lambda>(ps, r).
          case r of
            Inl e \<Rightarrow> Return ((conn, ps, n), Some e)
          | Inr mxLevel \<Rightarrow>
              obind (connect env host (mc_C conn, n)) (\<lambda>((c, n), tlsLevel, tlsErr, err).
                let conn = conn\<lparr>mc_C := c\<rparr> in
                case err of
                  Some e \<Rightarrow> Return ((conn, ps, n), Some e)
                | None \<Rightarrow>
                    (case sc_cl c of
                       None \<Rightarrow> nil_deref
                     | Some cl \<Rightarrow>
                         let tlsState = re_TLSState env cl n in
                         case re_otherPolicies env (ps, n) of (ps, n) \<Rightarrow>
                         obind (if cacheOverride then Return (Inr tlsLevel) else check_conn_all (re_policy env) tlsState tlsLevel ps) (\<lambda>r.
                           case r of
                             Inl e \<Rightarrow>
                               obind (conn_Close (re_net env) (c, n)) (\<lambda>((c, n), _).
                                 Return ((conn\<lparr>mc_C := c\<rparr>, ps, n), Some (WithFields e
                                   [''tls_err'' \<mapsto> (case tlsErr of None \<Rightarrow> FNil | Some te \<Rightarrow> FOther (Error te))])))
                           | Inr tlsLevel \<Rightarrow> Return ((conn\<lparr>mc_mxLevel := mxLevel, mc_tlsLevel := tlsLevel\<rparr>, ps, n), None))))))"

section \<open>MX records\<close>

definition remote_error :: "int \<Rightarrow> ench \<Rightarrow> string \<Rightarrow> string \<Rightarrow> string \<Rightarrow> fields \<Rightarrow> goerr option \<Rightarrow> goerr" where
  "remote_error code ec msg target reason misc cause =
     SMTPError \<lparr>Code = code, EnhancedCode = ec, Message = msg, CheckName = '''', TargetName = target, ModifierName = '''', Reason = reason,
       Misc = misc\<rparr> cause"

text \<open>The branches for addresses in place of a domain.\<close>

definition ip_mx :: "'n remote_env \<Rightarrow> string \<Rightarrow> (bool \<times> mx_record list \<times> bool)" where
  "ip_mx env host =
     (if rt_overrides env \<noteq> None \<and> resolve_cached env host \<noteq> host then (False, [(resolve_cached env host, 0)], True)
      else (False, [(host, 0)], False))"

definition literal_host :: "'n remote_env \<Rightarrow> string \<Rightarrow> string option" where
  "literal_host env domain =
     (if HasPrefix domain ''['' \<and> HasSuffix domain '']'' then
        let host = drop 1 (take (length domain - 1) domain);
            host = (if HasPrefix (ToLower (re_text env) host) ''ipv6:'' then drop 5 host else host)
        in if ParseIP host then Some host else None
      else None)"

definition lookupMX :: "'n remote_env \<Rightarrow> string \<Rightarrow> goerr + (bool \<times> mx_record list \<times> bool)" where
  "lookupMX env domain =
     (case literal_host env domain of
        Some host \<Rightarrow> Inr (ip_mx env host)
      | None \<Rightarrow>
          if ParseIP domain then Inr (ip_mx env domain)
          else
            (case (case rt_overrides env of
                     None \<Rightarrow> None
                   | Some (fault, db) \<Rightarrow>
                       (case ResolveMX (re_text env) fault db (re_osLookupMX env) domain of
                          Inr (records, True) \<Rightarrow> if records \<noteq> [] then Some records else None
                        | _ \<Rightarrow> None)) of
               Some records \<Rightarrow> Inr (False, records, True)
             | None \<Rightarrow>
                 (case (case re_AuthLookupMX env of
                          Some auth \<Rightarrow> auth domain
                        | None \<Rightarrow> map_sum id (Pair False) (re_LookupMX env (px_FQDN (re_policy env) domain))) of
                    Inl e \<Rightarrow>
                      Inl (remote_error (SMTPCode (Some e) 451 554) (SMTPEnchCode (Some e) (0, 4, 4)) ''MX lookup error'' ''remote''
                        (re_dnsReason env e) Map.empty (Some e))
                  | Inr (dnssecOk, records) \<Rightarrow>
                      let records = re_SortPref env records;
                          records = (if records = [] then [(domain, 0)] else records)
                      in Inr (dnssecOk, records, False))))"

text \<open>The loop over the records: the last error, or none after the first usable MX.\<close>

fun try_mxs ::
    "'n remote_env \<Rightarrow> bool \<Rightarrow> mx_record list \<Rightarrow> goerr option \<Rightarrow> mx_conn \<times> policy list \<times> 'n \<Rightarrow>
      ((mx_conn \<times> policy list \<times> 'n) \<times> (goerr + goerr option)) outcome" where
  "try_mxs env cacheOverride [] lastErr st = Return (st, Inr lastErr)"
| "try_mxs env cacheOverride ((host, pref) # records) lastErr st =
     (if host = ''.'' then
        Return (st, Inl (remote_error 556 (5, 1, 10) ''Domain does not accept email (null MX)'' '''' '''' Map.empty None))
      else
        obind (attemptMX env cacheOverride host st) (\<lambda>(st, err).
          case err of
            Some e \<Rightarrow> try_mxs env cacheOverride records (Some e) st
          | None \<Rightarrow> Return (st, Inr lastErr)))"

definition fresh_conn :: "'n remote_env \<Rightarrow> string \<Rightarrow> time \<Rightarrow> mx_conn" where
  "fresh_conn env domain now =
     \<lparr>mc_C = smtpconn_New\<lparr>sc_AddrInSMTPMsg := True\<rparr>, mc_domain = domain, mc_dnssecOk = False, mc_errored = False,
       mc_reuseLimit = rt_connReuseLimit env, mc_transactions = 0, mc_lastUseAt = now, mc_mxLevel = MXNone, mc_tlsLevel = TLSNone\<rparr>"

definition newConn ::
    "'n remote_env \<Rightarrow> string \<Rightarrow> policy list \<times> 'n \<Rightarrow> ((policy list \<times> 'n) \<times> (goerr + mx_conn)) outcome" where
  "newConn env domain st =
     (case st of (ps, n) \<Rightarrow>
        let ps = map (PrepareDomain (re_policy env) domain) ps in
        case lookupMX env domain of
          Inl e \<Rightarrow> Return ((ps, n), Inl e)
        | Inr (dnssecOk, records, cacheOverride) \<Rightarrow>
            obind (try_mxs env cacheOverride records None ((fresh_conn env domain (re_now env 0))\<lparr>mc_dnssecOk := dnssecOk\<rparr>, ps, n)) (\<lambda>((conn, ps, n), r).
              case r of
                Inl e \<Rightarrow> Return ((ps, n), Inl e)
              | Inr lastErr \<Rightarrow>
                  (case sc_cl (mc_C conn) of
                     Some _ \<Rightarrow> Return ((ps, n), Inr conn)
                   | None \<Rightarrow>
                       (case lastErr of
                          None \<Rightarrow> nil_deref
                        | Some e \<Rightarrow>
                            Return ((ps, n), Inl (remote_error (SMTPCode (Some e) 451 550) (SMTPEnchCode (Some e) (0, 4, 0))
                              (''No usable MXs, last err: '' @ Error e) ''remote'' '''' [''domain'' \<mapsto> FStr domain] (Some e)))))))"

section \<open>Connections of a delivery\<close>

definition requiretls_error :: "string \<Rightarrow> fields \<Rightarrow> goerr" where
  "requiretls_error msg misc = remote_error 550 (5, 7, 30) msg '''' '''' misc None"

text \<open>The demands of REQUIRETLS on a connection.\<close>

definition requiretls_check :: "mx_conn \<Rightarrow> goerr option" where
  "requiretls_check conn =
     (if mc_tlsLevel conn < TLSAuthenticated then
        Some (requiretls_error ''TLS it not available or unauthenticated but required (REQUIRETLS)''
          [''tls_level'' \<mapsto> FOther (tls_String (mc_tlsLevel conn))])
      else if mc_mxLevel conn < MX_MTASTS then
        Some (requiretls_error ''Failed to establish the MX record authenticity (REQUIRETLS)''
          [''mx_level'' \<mapsto> FOther (mx_String (mc_mxLevel conn))])
      else None)"

text \<open>\<open>conn.Close()\<close> followed by the return of an error.\<close>

definition close_with :: "'n remote_env \<Rightarrow> mx_conn \<Rightarrow> goerr \<Rightarrow> 'n rstate \<Rightarrow> ('n rstate \<times> (goerr + mx_conn)) outcome" where
  "close_with env conn e st =
     (case st of (rd, w) \<Rightarrow>
        obind (conn_Close (re_net env) (mc_C conn, rw_net w)) (\<lambda>((_, n), _). Return ((rd, w\<lparr>rw_net := n\<rparr>), Inl e)))"

text \<open>The metadata as the other goroutines leave it.\<close>

definition other_meta :: "'n remote_env \<Rightarrow> 'n rstate \<Rightarrow> 'n rstate" where
  "other_meta env st =
     (case st of (rd, w) \<Rightarrow>
        case re_otherMeta env (rd_msgMeta rd, rw_net w) of (m, n) \<Rightarrow> (rd\<lparr>rd_msgMeta := m\<rparr>, w\<lparr>rw_net := n\<rparr>))"

text \<open>The first half of \<open>connectionForDomain\<close>: a connection from the pool or a new one. The pool has no constructor of its own.\<close>

definition obtain_conn :: "'n remote_env \<Rightarrow> string \<Rightarrow> 'n rstate \<Rightarrow> ('n rstate \<times> (goerr + mx_conn)) outcome" where
  "obtain_conn env domain st =
     (case st of (rd, w) \<Rightarrow>
        obind (pool_Get (mx_ops (re_net env)) (rt_pool env) (re_now env) (\<lambda>n. (n, Inr None)) domain (rw_pool w, rw_net w)) (\<lambda>((p, n), r).
          case other_meta env (rd, w\<lparr>rw_pool := p, rw_net := n\<rparr>) of (rd, w) \<Rightarrow>
          case r of
            Inl e \<Rightarrow> Return ((rd, w), Inl e)
          | Inr pooledConn \<Rightarrow>
              (case (if RequireTLS (SMTPOpts (rd_msgMeta rd)) then None else pooledConn) of
                 Some conn \<Rightarrow> Return ((rd, w), Inr conn)
               | None \<Rightarrow>
                   obind (newConn env domain (rd_policies rd, rw_net w)) (\<lambda>((ps, n), r).
                     Return ((rd\<lparr>rd_policies := ps\<rparr>, w\<lparr>rw_net := n\<rparr>), r)))))"

definition connectionForDomain ::
    "'n remote_env \<Rightarrow> take_env \<Rightarrow> string \<Rightarrow> 'n rstate \<Rightarrow> ('n rstate \<times> (goerr + mx_conn)) outcome" where
  "connectionForDomain env te domain st =
     (case map_of (rd_connections (fst st)) domain of
        Some c \<Rightarrow> Return (st, Inr c)
      | None \<Rightarrow>
          obind (obtain_conn env domain st) (\<lambda>(st, r).
            case r of
              Inl e \<Rightarrow> Return (st, Inl e)
            | Inr conn \<Rightarrow>
                (case other_meta env st of (rd, w) \<Rightarrow>
                 case (if RequireTLS (SMTPOpts (rd_msgMeta rd)) then requiretls_check conn else None) of
                   Some e \<Rightarrow> close_with env conn e (rd, w)
                 | None \<Rightarrow>
                     obind (TakeDest te domain (rw_limits w)) (\<lambda>(g, err).
                       case other_meta env (rd, w\<lparr>rw_limits := g\<rparr>) of (rd, w) \<Rightarrow>
                       case err of
                         Some e \<Rightarrow> close_with env conn e (rd, w)
                       | None \<Rightarrow>
                           (case sc_cl (mc_C conn) of
                              None \<Rightarrow> nil_deref
                            | Some cl \<Rightarrow>
                                let rd = (if rt_relaxedREQUIRETLS env \<and> \<not> no_Extension (re_net env) cl ''REQUIRETLS'' (rw_net w) then
                                            rd\<lparr>rd_msgMeta := (rd_msgMeta rd)\<lparr>SMTPOpts := (SMTPOpts (rd_msgMeta rd))\<lparr>RequireTLS := False\<rparr>\<rparr>\<rparr>
                                          else rd) in
                                obind (conn_Mail (re_net env) (re_text env) (rd_mailFrom rd) (SMTPOpts (rd_msgMeta rd)) (mc_C conn, rw_net w)) (\<lambda>(n, err).
                                  let w = w\<lparr>rw_net := n\<rparr> in
                                  case err of
                                    Some e \<Rightarrow> close_with env conn e (rd, w)
                                  | None \<Rightarrow>
                                      let conn = conn\<lparr>mc_lastUseAt := re_now env 1\<rparr> in
                                      Return ((rd\<lparr>rd_connections := AList.update domain conn (rd_connections rd)\<rparr>, w), Inr conn)))))))"

section \<open>HTTP\<close>

text \<open>The rest of a string after the first occurrence of a text.\<close>

fun after_first :: "string \<Rightarrow> string \<Rightarrow> string option" where
  "after_first p [] = (if p = [] then Some [] else None)"
| "after_first p (c # s) = (if HasPrefix (c # s) p then Some (drop (length p) (c # s)) else after_first p s)"

definition buildRewriteURL :: "string \<Rightarrow> string" where
  "buildRewriteURL raw =
     (let raw = (if \<not> Contains raw ''://'' then ''https://'' @ raw else raw);
          afterScheme = the (after_first ''://'' raw)
      in if CHR ''/'' \<notin> set afterScheme \<or> dropWhile (\<lambda>c. c \<noteq> CHR ''/'') afterScheme = ''/'' then
           rev (dropWhile (\<lambda>c. c = CHR ''/'') (rev raw)) @ ''/mxdeliv''
         else raw)"

text \<open>\<open>body\<close> is what opening and reading the buffer yields.\<close>

definition doHTTPRequestURL ::
    "'n remote_env \<Rightarrow> remote_delivery \<Rightarrow> string \<Rightarrow> string list \<Rightarrow> header \<Rightarrow> goerr + string \<Rightarrow> 'n \<Rightarrow> 'n \<times> goerr option" where
  "doHTTPRequestURL env rd url rcpts hdr body n =
     (case body of
        Inl e \<Rightarrow> (n, Some e)
      | Inr content \<Rightarrow>
          (case re_POST env url (rd_mailFrom rd) rcpts hdr content n of
             (n, Inl e) \<Rightarrow> (n, Some e)
           | (n, Inr code) \<Rightarrow> (n, if code \<noteq> 200 then Some (Opaque (''HTTP '' @ int_text code) None) else None)))"

definition doHTTPRequest ::
    "'n remote_env \<Rightarrow> remote_delivery \<Rightarrow> string \<Rightarrow> string \<Rightarrow> string list \<Rightarrow> header \<Rightarrow> goerr + string \<Rightarrow> 'n \<Rightarrow> 'n \<times> goerr option" where
  "doHTTPRequest env rd scheme host = doHTTPRequestURL env rd (scheme @ ''://'' @ host @ ''/mxdeliv'')"

definition http_host :: "'n remote_env \<Rightarrow> string \<Rightarrow> string" where
  "http_host env host =
     (let host = TrimSuffix (TrimPrefix host ''['') '']'';
          resolved = resolve_cached env host;
          host = (if resolved \<noteq> '''' \<and> resolved \<noteq> host then resolved else host)
      in if Contains host '':'' then ''['' @ host @ '']'' else host)"

definition tryHTTP ::
    "'n remote_env \<Rightarrow> remote_delivery \<Rightarrow> string \<Rightarrow> string list \<Rightarrow> header \<Rightarrow> goerr + string \<Rightarrow> 'n \<Rightarrow> 'n \<times> goerr option" where
  "tryHTTP env rd host rcpts hdr body n =
     (if rt_endpointRewrite env \<noteq> '''' then doHTTPRequestURL env rd (buildRewriteURL (rt_endpointRewrite env)) rcpts hdr body n
      else
        let host = http_host env host in
        case doHTTPRequest env rd ''https'' host rcpts hdr body n of
          (n, None) \<Rightarrow> (n, None)
        | (n, Some _) \<Rightarrow> doHTTPRequest env rd ''http'' host rcpts hdr body n)"

section \<open>The delivery\<close>

definition remote_Start ::
    "'n remote_env \<Rightarrow> take_env \<Rightarrow> string \<Rightarrow> msg_metadata \<Rightarrow> string \<Rightarrow> 'n remote_world \<Rightarrow>
      ('n remote_world \<times> (goerr + remote_delivery)) outcome" where
  "remote_Start env te addr meta mailFrom w =
     (let policies = (if TLSRequireOverride meta \<and> rt_allowSecOverride env then [] else rt_policies env) in
      case (if mailFrom = '''' then ('''', '''', None) else Split mailFrom) of
        (_, _, Some e) \<Rightarrow> Return (w, Inl (remote_error 501 (5, 1, 8) ''Malformed sender address'' ''remote'' '''' Map.empty (Some e)))
      | (_, ratelimitDomain, None) \<Rightarrow>
          obind (TakeMsg te addr ratelimitDomain (rw_limits w)) (\<lambda>(g, err).
            let w = w\<lparr>rw_limits := g\<rparr> in
            case err of
              Some e \<Rightarrow>
                Return (w, Inl (remote_error 451 (4, 4, 5) ''High load, try again later'' ''remote'' ''Global limit timeout'' Map.empty (Some e)))
            | None \<Rightarrow>
                Return (w, Inr \<lparr>rd_mailFrom = mailFrom, rd_addr = addr, rd_msgMeta = meta, rd_recipients = [], rd_rcptsByDomain = [],
                  rd_connections = [], rd_policies = policies\<rparr>)))"

definition remote_AddRcpt :: "string \<Rightarrow> remote_delivery \<Rightarrow> remote_delivery \<times> goerr option" where
  "remote_AddRcpt to rd =
     (if Quarantine (rd_msgMeta rd) then
        (rd, Some (remote_error 550 (5, 7, 0) ''Refusing to deliver a quarantined message'' ''remote'' '''' Map.empty None))
      else
        (case Split to of
           (_, _, Some e) \<Rightarrow> (rd, Some e)
         | (_, domain, None) \<Rightarrow>
             if domain = '''' then
               (rd, Some (remote_error 550 (5, 1, 1) ''<postmaster> address it no supported'' ''remote'' '''' Map.empty None))
             else
               let old = (case map_of (rd_rcptsByDomain rd) domain of None \<Rightarrow> [] | Some rs \<Rightarrow> rs) in
               (rd\<lparr>rd_rcptsByDomain := AList.update domain (old @ [to]) (rd_rcptsByDomain rd), rd_recipients := rd_recipients rd @ [to]\<rparr>, None)))"

type_synonym statuses = "(string \<times> goerr option) list"

definition moduleError :: "goerr \<Rightarrow> goerr" where
  "moduleError err = WithFields err [''target'' \<mapsto> FStr ''remote'']"

fun send_rcpts :: "'n remote_env \<Rightarrow> string list \<Rightarrow> smtp_c \<times> 'n \<Rightarrow> ((smtp_c \<times> 'n) \<times> statuses) outcome" where
  "send_rcpts env [] st = Return (st, [])"
| "send_rcpts env (r # rs) st =
     obind (conn_Rcpt (re_net env) (re_text env) r st) (\<lambda>(st, err).
       obind (send_rcpts env rs st) (\<lambda>(st, sts). Return
         (st, (case err of None \<Rightarrow> sts | Some e \<Rightarrow> (r, Some (moduleError e)) # sts))))"

text \<open>The SMTP part of the goroutine of a domain, with a connection.\<close>

definition smtp_deliver ::
    "'n remote_env \<Rightarrow> string list \<Rightarrow> header \<Rightarrow> goerr + string \<Rightarrow> mx_conn \<times> 'n \<Rightarrow> ((mx_conn \<times> 'n) \<times> statuses) outcome" where
  "smtp_deliver env rcpts hdr body st =
     (case st of (conn, n) \<Rightarrow>
        obind (send_rcpts env rcpts (mc_C conn, n)) (\<lambda>((c, n), sts).
          let conn = conn\<lparr>mc_C := c\<rparr> in
          case body of
            Inl e \<Rightarrow> Return ((conn, n), sts @ map (\<lambda>r. (r, Some e)) (sc_rcpts c))
          | Inr content \<Rightarrow>
              obind (conn_Data (re_net env) hdr content (c, n)) (\<lambda>(n, err).
                Return ((conn\<lparr>mc_errored := (err \<noteq> None), mc_lastUseAt := re_now env 2\<rparr>, n), sts @ map (\<lambda>r. (r, err)) (sc_rcpts c)))))"

definition deliver_domain ::
    "'n remote_env \<Rightarrow> take_env \<Rightarrow> header \<Rightarrow> goerr + string \<Rightarrow> string \<times> string list \<Rightarrow> 'n rstate \<Rightarrow> ('n rstate \<times> statuses) outcome" where
  "deliver_domain env te hdr body dr st =
     (case (dr, st) of ((domain, rcpts), (rd, w)) \<Rightarrow>
        (case tryHTTP env rd domain rcpts hdr body (rw_net w) of
           (n, None) \<Rightarrow> Return ((rd, w\<lparr>rw_net := n\<rparr>), map (\<lambda>r. (r, None)) rcpts)
         | (n, Some _) \<Rightarrow>
             obind (connectionForDomain env te domain (rd, w\<lparr>rw_net := n\<rparr>)) (\<lambda>((rd, w), r).
               case r of
                 Inl e \<Rightarrow> Return ((rd, w), map (\<lambda>r. (r, Some e)) rcpts)
               | Inr conn \<Rightarrow>
                   obind (smtp_deliver env rcpts hdr body (conn, rw_net w)) (\<lambda>((conn, n), sts).
                     Return ((rd\<lparr>rd_connections := AList.update domain conn (rd_connections rd)\<rparr>, w\<lparr>rw_net := n\<rparr>), sts)))))"

fun deliver_domains ::
    "'n remote_env \<Rightarrow> take_env \<Rightarrow> header \<Rightarrow> goerr + string \<Rightarrow> (string \<times> string list) list \<Rightarrow> 'n rstate \<Rightarrow> ('n rstate \<times> statuses) outcome" where
  "deliver_domains env te hdr body [] st = Return (st, [])"
| "deliver_domains env te hdr body (d # ds) st =
     obind (deliver_domain env te hdr body d st) (\<lambda>(st, sts).
       obind (deliver_domains env te hdr body ds st) (\<lambda>(st, sts'). Return (st, sts @ sts')))"

text \<open>\<open>order\<close> is the order in which the goroutines run; see \<open>re_otherPolicies\<close> and \<open>re_otherMeta\<close> for their interleaving.\<close>

definition remote_BodyNonAtomic ::
    "'n remote_env \<Rightarrow> take_env \<Rightarrow> ((string \<times> string list) list \<Rightarrow> (string \<times> string list) list) \<Rightarrow> header \<Rightarrow> goerr + string \<Rightarrow>
      'n rstate \<Rightarrow> ('n rstate \<times> statuses) outcome" where
  "remote_BodyNonAtomic env te order hdr body st =
     (if Quarantine (rd_msgMeta (fst st)) then
        Return (st, map (\<lambda>r. (r, Some (remote_error 550 (5, 7, 0) ''Refusing to deliver quarantined message'' ''remote'' '''' Map.empty None)))
          (rd_recipients (fst st)))
      else deliver_domains env te hdr body (order (rd_rcptsByDomain (fst st))) st)"

text \<open>Several errors as one error; \<open>fmt\<close> is the text of the map.\<close>

definition multipleErrs :: "(statuses \<Rightarrow> string) \<Rightarrow> statuses \<Rightarrow> goerr" where
  "multipleErrs fmt errs =
     (let tmp = list_ex (\<lambda>(r, e). IsTemporary e) errs in
      FieldsWrap (Opaque (''Partial delivery failure, per-rcpt info: '' @ fmt errs) None)
        [''smtp_code'' \<mapsto> FInt (if tmp then 451 else 550), ''smtp_enchcode'' \<mapsto> FEnch (if tmp then (4, 0, 0) else (5, 0, 0)),
         ''smtp_msg'' \<mapsto> FStr ''Partial delivery failure, additional attempts may result in duplicates'', ''target'' \<mapsto> FStr ''remote'',
         ''errs'' \<mapsto> FOther (fmt errs)])"

definition remote_Body ::
    "'n remote_env \<Rightarrow> take_env \<Rightarrow> ((string \<times> string list) list \<Rightarrow> (string \<times> string list) list) \<Rightarrow> (statuses \<Rightarrow> string) \<Rightarrow> header \<Rightarrow>
      goerr + string \<Rightarrow> 'n rstate \<Rightarrow> ('n rstate \<times> goerr option) outcome" where
  "remote_Body env te order fmt hdr body st =
     obind (remote_BodyNonAtomic env te order hdr body st) (\<lambda>(st, sts).
       let errs = status_map sts in
       Return (st, (case List.map_filter snd errs of
          [] \<Rightarrow> None
        | e # _ \<Rightarrow> if length errs = 1 then Some e else Some (multipleErrs fmt errs))))"

text \<open>The loop of \<open>Close\<close> over the connections.\<close>

fun close_conns :: "'n remote_env \<Rightarrow> (string \<times> mx_conn) list \<Rightarrow> 'n remote_world \<Rightarrow> 'n remote_world outcome" where
  "close_conns env [] w = Return w"
| "close_conns env ((d, conn) # cs) w =
     obind (ReleaseDest (mc_domain conn) (rw_limits w)) (\<lambda>g.
       let conn = conn\<lparr>mc_transactions := mc_transactions conn + 1\<rparr>; w = w\<lparr>rw_limits := g\<rparr> in
       case mx_Usable (re_net env) conn (rw_net w) of
         (False, n) \<Rightarrow>
           obind (conn_Close (re_net env) (mc_C conn, n)) (\<lambda>((_, n), _). close_conns env cs (w\<lparr>rw_net := n\<rparr>))
       | (True, n) \<Rightarrow>
           obind (pool_Return (mx_ops (re_net env)) (rt_pool env) (re_now env 3) (mc_domain conn) conn (rw_pool w, n)) (\<lambda>(p, n).
             close_conns env cs (w\<lparr>rw_pool := p, rw_net := n\<rparr>)))"

text \<open>\<open>Close\<close>, which \<open>Abort\<close> and \<open>Commit\<close> call.\<close>

definition remote_Close :: "'n remote_env \<Rightarrow> 'n rstate \<Rightarrow> ('n remote_world \<times> goerr option) outcome" where
  "remote_Close env st =
     (case st of (rd, w) \<Rightarrow>
        obind (close_conns env (rd_connections rd) w) (\<lambda>w.
          case (if rd_mailFrom rd = '''' then ('''', '''', None) else Split (rd_mailFrom rd)) of
            (_, _, Some e) \<Rightarrow> Return (w, Some e)
          | (_, ratelimitDomain, None) \<Rightarrow>
              obind (ReleaseMsg (rd_addr rd) ratelimitDomain (rw_limits w)) (\<lambda>g. Return (w\<lparr>rw_limits := g\<rparr>, None))))"

section \<open>Lemmas on connections\<close>

lemma nil_deref_simps [simp]: "nil_deref \<noteq> Return x"
  by (simp add: nil_deref_def)

lemma Connect_plain:
  assumes "conn_Connect no lmtp ep False None (c, n) = Return ((c', n'), Inr b)"
  shows "\<exists>cl. sc_cl c' = Some cl"
proof -
  obtain m r where r: "attemptConnect no ep False None n = Return (m, r)"
    using assms unfolding conn_Connect_def prod.case by (auto elim!: obind_ReturnE simp del: obind_Return_iff)
  with assms show ?thesis by (cases r) (auto simp: conn_Connect_def Let_def)
qed

lemma Connect_returns: "\<exists>c' n' r. conn_Connect no lmtp \<lparr>en_Host = h, en_IsTLS = False\<rparr> False tc (c, n) = Return ((c', n'), r)"
proof -
  have "\<exists>m r. attemptConnect no \<lparr>en_Host = h, en_IsTLS = False\<rparr> False tc n = Return (m, r)"
    by (auto simp: attemptConnect_def split: prod.splits sum.splits option.splits)
  then obtain m r where "attemptConnect no \<lparr>en_Host = h, en_IsTLS = False\<rparr> False tc n = Return (m, r)" by blast
  then show ?thesis by (cases r) (auto simp: conn_Connect_def Let_def)
qed

text \<open>What a level of TLS returned by the loop stands for.\<close>

definition tls_handshake :: "'n net_ops \<Rightarrow> tls_config \<Rightarrow> smtp_c \<times> 'n \<Rightarrow> bool" where
  "tls_handshake no cfg st \<longleftrightarrow>
     (\<exists>cl n0 n1. sc_cl (fst st) = Some cl \<and> no_StartTLS no cl cfg n0 = (n1, None) \<and> no_Hello no cl n1 = (snd st, None))"

lemma connect_retry_level:
  assumes "connect_retry no h tlsCfg l te st = Return (st', l', te', None)"
  shows "(\<exists>cl. sc_cl (fst st') = Some cl) \<and> (l' = TLSAuthenticated \<longrightarrow> l = TLSAuthenticated \<and> (\<exists>cfg. tlsCfg = Some cfg \<and> tls_handshake no cfg st'))"
  using assms
proof (induction no h tlsCfg l te st rule: connect_retry.induct)
  case (1 no h tlsCfg l te st)
  obtain c n r where cc: "conn_Connect no False \<lparr>en_Host = h, en_IsTLS = False\<rparr> False None st = Return ((c, n), r)"
    using Connect_returns [of no False h None "fst st" "snd st"] by auto
  note eq = "1.prems" [unfolded connect_retry.simps [of no h tlsCfg l te st] cc obind.simps prod.case]
  obtain b where r: "r = Inr b" using eq by (cases r) auto
  with cc Connect_plain [of no False "\<lparr>en_Host = h, en_IsTLS = False\<rparr>" "fst st" "snd st"] obtain cl where cl: "sc_cl c = Some cl" by auto
  have dc: "DirectClose no (c, m) = Return (c\<lparr>sc_cl := None, sc_serverName := ''''\<rparr>, fst (no_Close no cl m))" for m
    by (simp add: DirectClose_def cl)
  show ?case
  proof (cases "\<exists>cfg. tlsCfg = Some cfg \<and> no_Extension no cl ''STARTTLS'' n")
    case False
    with eq r cl show ?thesis by (auto split: option.splits)
  next
    case True
    then obtain cfg where cfg: "tlsCfg = Some cfg" "no_Extension no cl ''STARTTLS'' n" by blast
    obtain n1 where s: "no_StartTLS no cl cfg n = (n1, None)"
      using eq r cl cfg dc by (auto split: prod.splits option.splits)
    obtain n2 he where h: "no_Hello no cl n1 = (n2, he)" by fastforce
    show ?thesis
    proof (cases he)
      case None
      with s h cl have "tls_handshake no cfg (c, n2)" by (auto simp: tls_handshake_def)
      with eq r cl cfg s h None show ?thesis by auto
    next
      case (Some e)
      note st = cc refl refl cl cfg(1) _ s [symmetric] refl h [symmetric] Some
      show ?thesis
      proof (cases "no_isVerify no e \<noteq> None \<and> l = TLSAuthenticated")
        case True
        with eq r cl cfg s h Some dc have "connect_retry no h (Some (cfg\<lparr>InsecureSkipVerify := True\<rparr>)) TLSEncrypted (Some e)
          (c\<lparr>sc_cl := None, sc_serverName := ''''\<rparr>, fst (no_Close no cl n2)) = Return (st', l', te', None)" by auto
        from "1.IH"(1) [OF st True dc this] cfg(2) show ?thesis by simp
      next
        case False
        with eq r cl cfg s h Some dc have "connect_retry no h None TLSNone (Some e)
          (c\<lparr>sc_cl := None, sc_serverName := ''''\<rparr>, fst (no_Close no cl n2)) = Return (st', l', te', None)" by auto
        from "1.IH"(2) [OF st False dc this] cfg(2) show ?thesis by simp
      qed
    qed
  qed
qed

lemma connect_level:
  assumes "connect env host st = Return (st', l, te, None)"
  shows "(\<exists>cl. sc_cl (fst st') = Some cl) \<and> (l = TLSAuthenticated \<longrightarrow>
    (\<exists>cfg. rt_tlsConfig env = Some cfg \<and> tls_handshake (re_net env) (cfg\<lparr>ServerName := host\<rparr>) st') \<and> \<not> ParseIP (connect_host env host))"
proof (cases "ParseIP (connect_host env host)")
  case True
  then show ?thesis using assms connect_retry_level by (fastforce simp: connect_def Let_def)
next
  case False
  then have "connect_retry (re_net env) (connect_host env host) (map_option (\<lambda>c. c\<lparr>ServerName := host\<rparr>) (rt_tlsConfig env)) TLSAuthenticated None st =
    Return (st', l, te, None)" using assms by (simp add: connect_def Let_def)
  from connect_retry_level [OF this] False show ?thesis by auto
qed

lemma attemptMX_ok:
  assumes "attemptMX env ov host (conn, ps, n) = Return ((conn', ps', n'), None)"
  shows "\<exists>cl l0 te ps1 n1 ps2 n2. sc_cl (mc_C conn') = Some cl \<and> re_otherPolicies env (ps, n) = (ps1, n1) \<and>
    connect env host (mc_C conn, n1) = Return ((mc_C conn', n2), l0, te, None) \<and> re_otherPolicies env (ps2, n2) = (ps', n') \<and>
    (if ov then mc_mxLevel conn' = MXNone
     else check_mx_all (re_policy env) host (mc_dnssecOk conn) MXNone ps1 = Return (ps2, Inr (mc_mxLevel conn')) \<and>
       check_conn_all (re_policy env) (re_TLSState env cl n2) l0 ps' = Return (Inr (mc_tlsLevel conn')))"
proof -
  obtain ps1 n1 where i: "re_otherPolicies env (ps, n) = (ps1, n1)" by fastforce
  obtain ps2 r where r: "(if ov then Return (ps1, Inr MXNone) else check_mx_all (re_policy env) host (mc_dnssecOk conn) MXNone ps1) = Return (ps2, r)"
    using assms unfolding attemptMX_def prod.case i by (auto elim!: obind_ReturnE simp del: obind_Return_iff)
  note eq = assms [unfolded attemptMX_def prod.case i r obind.simps]
  obtain ml where ml: "r = Inr ml" using eq by (cases r) auto
  obtain c n2 l0 te err where c: "connect env host (mc_C conn, n1) = Return ((c, n2), l0, te, err)"
    using eq ml by (auto elim!: obind_ReturnE simp del: obind_Return_iff)
  obtain ps3 n3 where j: "re_otherPolicies env (ps2, n2) = (ps3, n3)" by fastforce
  note eq = eq [unfolded ml sum.case c obind.simps prod.case Let_def]
  have err: "err = None" using eq by (cases err) auto
  obtain cl where cl: "sc_cl c = Some cl" using connect_level [of env host "(mc_C conn, n1)" "(c, n2)" l0 te] c err by auto
  obtain q where q: "(if ov then Return (Inr l0) else check_conn_all (re_policy env) (re_TLSState env cl n2) l0 ps3) = Return q"
    using eq err cl j by (auto elim!: obind_ReturnE simp del: obind_Return_iff)
  note eq = eq [unfolded err option.case cl j prod.case q obind.simps]
  obtain tl' where tl': "q = Inr tl'" using eq by (cases q) auto
  have "conn\<lparr>mc_C := c, mc_mxLevel := ml, mc_tlsLevel := tl'\<rparr> = conn'" "ps3 = ps'" "n3 = n'" using eq tl' by simp_all
  with c cl r ml q tl' err i j show ?thesis by (cases ov) auto
qed

text \<open>What the goroutines of the other domains can do. They prepare the policies for a domain of \<open>D\<close> and for a server of \<open>M\<close>, and in relaxed mode they
  clear the REQUIRETLS flag; several such steps have the effect of the last one. Without other domains nothing happens.\<close>

definition others_rely :: "'n remote_env \<Rightarrow> string set \<Rightarrow> string set \<Rightarrow> bool" where
  "others_rely env D M \<longleftrightarrow>
     (\<forall>ps n. list_all2 (\<lambda>p q. q = p \<or> (\<exists>d\<in>D. q = PrepareDomain (re_policy env) d p) \<or> (\<exists>mx\<in>M. q = PrepareConn (re_policy env) mx p))
        ps (fst (re_otherPolicies env (ps, n)))) \<and>
     (\<forall>m n. fst (re_otherMeta env (m, n)) = m \<or>
        D \<noteq> {} \<and> rt_relaxedREQUIRETLS env \<and> fst (re_otherMeta env (m, n)) = m\<lparr>SMTPOpts := (SMTPOpts m)\<lparr>RequireTLS := False\<rparr>\<rparr>)"

text \<open>Where the lookups that the policies hold come from.\<close>

definition sts_from :: "policy_env \<Rightarrow> string set \<Rightarrow> policy list \<Rightarrow> bool" where
  "sts_from env D ps \<longleftrightarrow> (\<forall>r. MTASTS (Some r) \<in> set ps \<longrightarrow> (\<exists>d\<in>D. r = px_mtastsGet env d))"

definition tlsa_from :: "policy_env \<Rightarrow> string set \<Rightarrow> policy list \<Rightarrow> bool" where
  "tlsa_from env M ps \<longleftrightarrow> (\<forall>er r. px_extResolver env = Some er \<longrightarrow> DANE (Some r) \<in> set ps \<longrightarrow> (\<exists>mx\<in>M. r = discoverTLSA er (px_FQDN env mx)))"

lemma sts_from_PrepareDomain: "sts_from env (insert d D) (map (PrepareDomain env d) ps)"
proof -
  have "r = px_mtastsGet env d" if "MTASTS (Some r) = PrepareDomain env d p" for r p using that by (cases p) auto
  then show ?thesis by (force simp: sts_from_def)
qed

lemma sts_from_PrepareConn: "sts_from env D ps \<Longrightarrow> sts_from env D (map (PrepareConn env mx) ps)"
proof -
  have "p = MTASTS (Some r)" if "MTASTS (Some r) = PrepareConn env mx p" for r p using that by (cases p) (auto split: option.splits)
  then show "sts_from env D ps \<Longrightarrow> sts_from env D (map (PrepareConn env mx) ps)" by (force simp: sts_from_def)
qed

lemma tlsa_from_PrepareConn: "tlsa_from env (insert mx M) (map (PrepareConn env mx) ps)"
proof -
  have "r = discoverTLSA er (px_FQDN env mx)" if "DANE (Some r) = PrepareConn env mx p" "px_extResolver env = Some er" for r p er
    using that by (cases p) auto
  then show ?thesis by (force simp: tlsa_from_def)
qed

lemma others_step:
  assumes "others_rely env D M" "re_otherPolicies env (ps, n) = (ps', n')" "q \<in> set ps'"
  shows "\<exists>p\<in>set ps. q = p \<or> (\<exists>d\<in>D. q = PrepareDomain (re_policy env) d p) \<or> (\<exists>mx\<in>M. q = PrepareConn (re_policy env) mx p)"
proof -
  let ?R = "\<lambda>p q. q = p \<or> (\<exists>d\<in>D. q = PrepareDomain (re_policy env) d p) \<or> (\<exists>mx\<in>M. q = PrepareConn (re_policy env) mx p)"
  have "list_all2 ?R ps (fst (re_otherPolicies env (ps, n)))" using assms(1) unfolding others_rely_def by blast
  then have "list_all2 ?R ps ps'" using assms(2) by simp
  then have r: "length ps = length ps'" "\<And>i. i < length ps \<Longrightarrow> ?R (ps ! i) (ps' ! i)" by (simp_all add: list_all2_conv_all_nth)
  from assms(3) obtain k where "k < length ps'" "ps' ! k = q" by (auto simp: in_set_conv_nth)
  with r(1) r(2) [of k] show ?thesis by (intro bexI [of _ "ps ! k"]) simp_all
qed

lemma sts_from_others:
  assumes "others_rely env D M" "re_otherPolicies env (ps, n) = (ps', n')" "sts_from (re_policy env) (insert d D) ps"
  shows "sts_from (re_policy env) (insert d D) ps'"
  unfolding sts_from_def
proof (intro allI impI)
  fix r assume "MTASTS (Some r) \<in> set ps'"
  from others_step [OF assms(1,2) this] obtain p where p: "p \<in> set ps" "MTASTS (Some r) = p \<or> (\<exists>e\<in>D. MTASTS (Some r) = PrepareDomain (re_policy env) e p) \<or>
    (\<exists>mx\<in>M. MTASTS (Some r) = PrepareConn (re_policy env) mx p)" by blast
  then have "p = MTASTS (Some r) \<or> (\<exists>e\<in>D. r = px_mtastsGet (re_policy env) e)"
    by (cases p rule: policy.exhaust) (auto split: option.splits)
  with p(1) assms(3) show "\<exists>e\<in>insert d D. r = px_mtastsGet (re_policy env) e" by (auto simp: sts_from_def)
qed

lemma tlsa_from_others:
  assumes "others_rely env D M" "re_otherPolicies env (ps, n) = (ps', n')" "tlsa_from (re_policy env) (insert mx M) ps"
  shows "tlsa_from (re_policy env) (insert mx M) ps'"
  unfolding tlsa_from_def
proof (intro allI impI)
  fix er r assume er: "px_extResolver (re_policy env) = Some er" and "DANE (Some r) \<in> set ps'"
  from others_step [OF assms(1,2) this(2)] obtain p where p: "p \<in> set ps" "DANE (Some r) = p \<or> (\<exists>e\<in>D. DANE (Some r) = PrepareDomain (re_policy env) e p) \<or>
    (\<exists>m\<in>M. DANE (Some r) = PrepareConn (re_policy env) m p)" by blast
  then have "p = DANE (Some r) \<or> (\<exists>m\<in>M. r = discoverTLSA er (px_FQDN (re_policy env) m))" using er by (cases p rule: policy.exhaust) auto
  with p(1) assms(3) er show "\<exists>m\<in>insert mx M. r = discoverTLSA er (px_FQDN (re_policy env) m)" by (auto simp: tlsa_from_def)
qed

lemma other_meta_RequireTLS:
  assumes "others_rely env D M" "rt_relaxedREQUIRETLS env \<Longrightarrow> D = {}" "other_meta env (rd, w) = (rd', w')"
  shows "rd_msgMeta rd' = rd_msgMeta rd"
proof -
  have "fst (re_otherMeta env (rd_msgMeta rd, rw_net w)) = rd_msgMeta rd" using assms(1,2) unfolding others_rely_def by blast
  with assms(3) show ?thesis by (auto simp: other_meta_def split: prod.splits)
qed

lemma check_mx_sts: "check_mx_all env mx d l ps = Return (ps', r) \<Longrightarrow> sts_from env D ps \<Longrightarrow> sts_from env D ps'"
proof (induction ps arbitrary: l ps' r)
  case (Cons p ps)
  have t: "sts_from env D (p # ps) \<longleftrightarrow> sts_from env D [p] \<and> sts_from env D ps" for p ps by (auto simp: sts_from_def)
  obtain q where q: "CheckMX env l mx d p = Return q" using Cons.prems by (auto elim!: obind_ReturnE simp del: obind_Return_iff)
  show ?case
  proof (cases q)
    case (Inr pl)
    then obtain l1 ps1 r1 where c: "check_mx_all env mx d l1 ps = Return (ps1, r1)" "ps' = PrepareConn env mx p # ps1"
      using Cons.prems q by (auto simp: Let_def)
    from Cons.prems(2) t [of p ps] have s: "sts_from env D [p]" "sts_from env D ps" by simp_all
    with Cons.IH [OF c(1)] sts_from_PrepareConn [OF s(1), of mx] t [of "PrepareConn env mx p" ps1] c(2) show ?thesis by simp
  qed (use Cons.prems q in auto)
qed simp

lemma attemptMX_frame:
  assumes "attemptMX env ov host (conn, ps, n) = Return ((conn', ps', n'), err)" "others_rely env D M" "sts_from (re_policy env) (insert d D) ps"
  shows "sts_from (re_policy env) (insert d D) ps' \<and> mc_dnssecOk conn' = mc_dnssecOk conn \<and>
    (err \<noteq> None \<longrightarrow> mc_mxLevel conn' = mc_mxLevel conn \<and> mc_tlsLevel conn' = mc_tlsLevel conn)"
proof -
  obtain ps1 n1 where i: "re_otherPolicies env (ps, n) = (ps1, n1)" by fastforce
  obtain ps2 r where r: "(if ov then Return (ps1, Inr MXNone) else check_mx_all (re_policy env) host (mc_dnssecOk conn) MXNone ps1) = Return (ps2, r)"
    using assms unfolding attemptMX_def prod.case i by (auto elim!: obind_ReturnE simp del: obind_Return_iff)
  then have p: "sts_from (re_policy env) (insert d D) ps2" using check_mx_sts sts_from_others [OF assms(2) i assms(3)] by (auto split: if_splits)
  note eq = assms(1) [unfolded attemptMX_def prod.case i r obind.simps]
  show ?thesis
  proof (cases r)
    case (Inr ml)
    then obtain c n2 l0 te e where c: "connect env host (mc_C conn, n1) = Return ((c, n2), l0, te, e)"
      using eq by (auto elim!: obind_ReturnE simp del: obind_Return_iff)
    note eq = eq [unfolded Inr sum.case c obind.simps prod.case Let_def]
    show ?thesis
    proof (cases "e = None")
      case True
      then obtain cl where cl: "sc_cl c = Some cl" using connect_level [of env host "(mc_C conn, n1)" "(c, n2)" l0 te] c by auto
      obtain ps3 n3 where j: "re_otherPolicies env (ps2, n2) = (ps3, n3)" by fastforce
      obtain q where q: "(if ov then Return (Inr l0) else check_conn_all (re_policy env) (re_TLSState env cl n2) l0 ps3) = Return q"
        using eq True cl j by (auto elim!: obind_ReturnE simp del: obind_Return_iff)
      note eq = eq [unfolded True option.case cl j prod.case q obind.simps]
      with sts_from_others [OF assms(2) j p] show ?thesis by (cases q) auto
    qed (use eq p in auto)
  qed (use eq p in auto)
qed

lemma try_mxs_ok:
  assumes "try_mxs env ov recs le (conn, ps, n) = Return ((conn', ps', n'), Inr le')" "others_rely env D M" "sts_from (re_policy env) (insert d D) ps"
  shows "(mc_mxLevel conn' = mc_mxLevel conn \<and> mc_tlsLevel conn' = mc_tlsLevel conn) \<or>
    (\<exists>host pref conn0 ps0 n0. (host, pref) \<in> set recs \<and> attemptMX env ov host (conn0, ps0, n0) = Return ((conn', ps', n'), None) \<and>
      sts_from (re_policy env) (insert d D) ps0 \<and> mc_dnssecOk conn0 = mc_dnssecOk conn)"
  using assms
proof (induction recs arbitrary: le conn ps n)
  case (Cons rec recs)
  obtain host pref where rec: "rec = (host, pref)" by fastforce
  then have "host \<noteq> ''.''" using Cons.prems by auto
  then obtain conn1 ps1 n1 err where a: "attemptMX env ov host (conn, ps, n) = Return ((conn1, ps1, n1), err)"
    using Cons.prems rec by (auto elim!: obind_ReturnE simp del: obind_Return_iff)
  note f = attemptMX_frame [OF a Cons.prems(2,3)]
  show ?case
  proof (cases err)
    case None
    with a Cons.prems rec \<open>host \<noteq> ''.''\<close> show ?thesis by fastforce
  next
    case (Some e)
    then have "try_mxs env ov recs (Some e) (conn1, ps1, n1) = Return ((conn', ps', n'), Inr le')"
      using a Cons.prems rec \<open>host \<noteq> ''.''\<close> by simp
    from Cons.IH [OF this Cons.prems(2)] f Some show ?thesis by fastforce
  qed
qed simp

lemma newConn_ok:
  assumes "newConn env domain (ps, n) = Return ((ps', n'), Inr conn)" "others_rely env D M"
  shows "(mc_mxLevel conn = MXNone \<and> mc_tlsLevel conn = TLSNone) \<or>
    (\<exists>dnssec recs ov host pref conn0 ps0 n0. lookupMX env domain = Inr (dnssec, recs, ov) \<and> (host, pref) \<in> set recs \<and>
      attemptMX env ov host (conn0, ps0, n0) = Return ((conn, ps', n'), None) \<and> mc_dnssecOk conn0 = dnssec \<and>
      sts_from (re_policy env) (insert domain D) ps0)"
proof -
  obtain dnssec recs ov where l: "lookupMX env domain = Inr (dnssec, recs, ov)"
    using assms by (cases "lookupMX env domain") (auto simp: newConn_def Let_def)
  let ?c = "(fresh_conn env domain (re_now env 0))\<lparr>mc_dnssecOk := dnssec\<rparr>" and ?ps = "map (PrepareDomain (re_policy env) domain) ps"
  obtain conn1 ps1 n1 r where t: "try_mxs env ov recs None (?c, ?ps, n) = Return ((conn1, ps1, n1), r)"
    using assms l unfolding newConn_def Let_def prod.case by (auto elim!: obind_ReturnE simp del: obind_Return_iff)
  note eq = assms(1) [unfolded newConn_def Let_def prod.case l sum.case t obind.simps]
  obtain le where r: "r = Inr le" using eq by (cases r) auto
  then have "conn1 = conn" "ps1 = ps'" "n1 = n'" using eq by (auto split: option.splits)
  with try_mxs_ok [OF t [unfolded r] assms(2) sts_from_PrepareDomain] l show ?thesis by (fastforce simp: fresh_conn_def)
qed

lemma obtain_conn_requiretls:
  assumes "obtain_conn env domain (rd, w) = Return ((rd', w'), Inr conn)" "RequireTLS (SMTPOpts (rd_msgMeta rd))"
    "others_rely env D M" "rt_relaxedREQUIRETLS env \<Longrightarrow> D = {}"
  shows "rd_msgMeta rd' = rd_msgMeta rd \<and> (\<exists>ps ps' n0 n1. newConn env domain (ps, n0) = Return ((ps', n1), Inr conn))"
proof -
  obtain p n r where g: "pool_Get (mx_ops (re_net env)) (rt_pool env) (re_now env) (\<lambda>n. (n, Inr None)) domain (rw_pool w, rw_net w) = Return ((p, n), r)"
    using assms(1) unfolding obtain_conn_def prod.case by (auto elim!: obind_ReturnE simp del: obind_Return_iff)
  obtain rd1 w1 where o: "other_meta env (rd, w\<lparr>rw_pool := p, rw_net := n\<rparr>) = (rd1, w1)" by fastforce
  note m = other_meta_RequireTLS [OF assms(3,4) o]
  note eq = assms(1) [unfolded obtain_conn_def prod.case g obind.simps o]
  obtain c where "r = Inr c" using eq by (cases r) auto
  with eq assms(2) m show ?thesis by (auto elim!: obind_ReturnE simp del: obind_Return_iff)
qed

lemma close_with_Inl [simp]: "close_with env conn e st \<noteq> Return (st', Inr c)"
  by (cases st) (auto simp: close_with_def elim!: obind_ReturnE simp del: obind_Return_iff)

lemma connectionForDomain_new:
  assumes "connectionForDomain env te domain (rd, w) = Return ((rd', w'), Inr conn)" "map_of (rd_connections rd) domain = None"
    "RequireTLS (SMTPOpts (rd_msgMeta rd))" "others_rely env D M" "rt_relaxedREQUIRETLS env \<Longrightarrow> D = {}"
  shows "\<exists>conn1 ps n0 ps' n1. newConn env domain (ps, n0) = Return ((ps', n1), Inr conn1) \<and> requiretls_check conn1 = None \<and>
    conn = conn1\<lparr>mc_lastUseAt := re_now env 1\<rparr>"
proof -
  obtain rd1 w1 r where o: "obtain_conn env domain (rd, w) = Return ((rd1, w1), r)"
    using assms(1,2) unfolding connectionForDomain_def by (auto elim!: obind_ReturnE simp del: obind_Return_iff)
  note eq = assms(1) [unfolded connectionForDomain_def fst_conv assms(2) option.case o obind.simps prod.case]
  obtain c where r: "r = Inr c" using eq by (cases r) auto
  note n = obtain_conn_requiretls [OF o [unfolded r] assms(3-5)]
  obtain rd2 w2 where i: "other_meta env (rd1, w1) = (rd2, w2)" by fastforce
  have m: "RequireTLS (SMTPOpts (rd_msgMeta rd2))" using other_meta_RequireTLS [OF assms(4,5) i] n assms(3) by simp
  note eq = eq [unfolded r sum.case i prod.case if_P [OF m]]
  have chk: "requiretls_check c = None" using eq by (cases "requiretls_check c") auto
  obtain g err where t: "TakeDest te domain (rw_limits w2) = Return (g, err)"
    using eq chk by (auto elim!: obind_ReturnE simp del: obind_Return_iff)
  obtain rd3 w3 where j: "other_meta env (rd2, w2\<lparr>rw_limits := g\<rparr>) = (rd3, w3)" by fastforce
  note eq = eq [unfolded chk option.case t obind.simps prod.case j Let_def]
  have err: "err = None" using eq by (cases err) auto
  obtain cl where cl: "sc_cl (mc_C c) = Some cl" using eq err by (cases "sc_cl (mc_C c)") auto
  have "conn = c\<lparr>mc_lastUseAt := re_now env 1\<rparr>" using eq [unfolded err option.case cl]
    by (auto elim!: obind_ReturnE simp del: obind_Return_iff split: option.split_asm if_split_asm)
  with n chk show ?thesis by blast
qed

lemma requiretls_check_None: "requiretls_check conn = None \<Longrightarrow> mc_tlsLevel conn = TLSAuthenticated \<and> MX_MTASTS \<le> mc_mxLevel conn"
  by (cases "mc_tlsLevel conn") (auto simp: requiretls_check_def level_simps split: if_splits)

lemma attemptMX_authenticated:
  assumes a: "attemptMX env ov host (conn0, ps0, n0) = Return ((conn, ps', n'), None)"
    and l: "mc_tlsLevel conn = TLSAuthenticated" "MX_MTASTS \<le> mc_mxLevel conn"
    and i: "others_rely env D M" "sts_from (re_policy env) (insert d D) ps0"
  shows "\<not> ov \<and> (\<exists>cl n. sc_cl (mc_C conn) = Some cl \<and>
    ((\<exists>e\<in>insert d D. \<exists>pol. px_mtastsGet (re_policy env) e = Inr pol \<and> sts_Match pol host) \<or> mc_dnssecOk conn0) \<and>
    ((\<exists>cfg. rt_tlsConfig env = Some cfg \<and> tls_handshake (re_net env) (cfg\<lparr>ServerName := host\<rparr>) (mc_C conn, n)) \<or>
     (\<exists>mx\<in>insert host M. \<exists>er tlsas. px_extResolver (re_policy env) = Some er \<and> discoverTLSA er (px_FQDN (re_policy env) mx) = Inr tlsas \<and>
       verifyDANE (px_dane (re_policy env)) tlsas (re_TLSState env cl n) = Return (True, None))))"
proof -
  from attemptMX_ok [OF a] obtain cl l0 te ps1 n1 ps2 n2 where cl: "sc_cl (mc_C conn) = Some cl"
    and o1: "re_otherPolicies env (ps0, n0) = (ps1, n1)" and co: "connect env host (mc_C conn0, n1) = Return ((mc_C conn, n2), l0, te, None)"
    and o2: "re_otherPolicies env (ps2, n2) = (ps', n')"
    and o: "if ov then mc_mxLevel conn = MXNone
     else check_mx_all (re_policy env) host (mc_dnssecOk conn0) MXNone ps1 = Return (ps2, Inr (mc_mxLevel conn)) \<and>
       check_conn_all (re_policy env) (re_TLSState env cl n2) l0 ps' = Return (Inr (mc_tlsLevel conn))" by blast
  have no: "\<not> ov" using o l(2) by (auto simp: level_simps)
  with o have c: "check_mx_all (re_policy env) host (mc_dnssecOk conn0) MXNone ps1 = Return (ps2, Inr (mc_mxLevel conn))"
    "check_conn_all (re_policy env) (re_TLSState env cl n2) l0 ps' = Return (Inr (mc_tlsLevel conn))" by simp_all
  note m = check_mx_all_ok [OF c(1)] and k = check_conn_all_ok [OF c(2)]
  have "MXNone < mc_mxLevel conn" using l(2) by (cases "mc_mxLevel conn") (simp_all add: level_simps)
  with m have "(\<exists>pol. MTASTS (Some (Inr pol)) \<in> set ps1 \<and> sts_Match pol host) \<or> mc_dnssecOk conn0" by blast
  then have mx: "(\<exists>e\<in>insert d D. \<exists>pol. px_mtastsGet (re_policy env) e = Inr pol \<and> sts_Match pol host) \<or> mc_dnssecOk conn0"
    using sts_from_others [OF i(1) o1 i(2)] unfolding sts_from_def by metis
  have t: "tlsa_from (re_policy env) (insert host M) ps'" using tlsa_from_others [OF i(1) o2] tlsa_from_PrepareConn m by blast
  have "(\<exists>cfg. rt_tlsConfig env = Some cfg \<and> tls_handshake (re_net env) (cfg\<lparr>ServerName := host\<rparr>) (mc_C conn, n2)) \<or>
     (\<exists>mx\<in>insert host M. \<exists>er tlsas. px_extResolver (re_policy env) = Some er \<and> discoverTLSA er (px_FQDN (re_policy env) mx) = Inr tlsas \<and>
       verifyDANE (px_dane (re_policy env)) tlsas (re_TLSState env cl n2) = Return (True, None))"
  proof (cases "l0 = TLSAuthenticated")
    case True
    with connect_level [OF co] show ?thesis by auto
  next
    case False
    then have "l0 < mc_tlsLevel conn" using l(1) k by (simp add: order.order_iff_strict)
    with k obtain er recs where r: "px_extResolver (re_policy env) = Some er" "DANE (Some (Inr recs)) \<in> set ps'"
      "verifyDANE (px_dane (re_policy env)) recs (re_TLSState env cl n2) = Return (True, None)" by blast
    from t r(1,2) have "\<exists>mx\<in>insert host M. Inr recs = discoverTLSA er (px_FQDN (re_policy env) mx)" unfolding tlsa_from_def by blast
    with r(1,3) show ?thesis by metis
  qed
  with no cl mx show ?thesis by blast
qed

text \<open>Every recipient that was added is filed under its domain.\<close>

definition filed :: "remote_delivery \<Rightarrow> bool" where
  "filed rd \<longleftrightarrow> (\<forall>r\<in>set (rd_recipients rd). \<exists>d rs. (d, rs) \<in> set (rd_rcptsByDomain rd) \<and> r \<in> set rs) \<and> distinct (map fst (rd_rcptsByDomain rd))"

lemma AddRcpt_filed:
  assumes "filed rd"
  shows "filed (fst (remote_AddRcpt to rd))"
proof (cases "Quarantine (rd_msgMeta rd) \<or> snd (snd (Split to)) \<noteq> None \<or> fst (snd (Split to)) = ''''")
  case True
  then have "fst (remote_AddRcpt to rd) = rd" by (auto simp: remote_AddRcpt_def split: prod.splits option.splits)
  with assms show ?thesis by simp
next
  case False
  then obtain m d where sp: "Split to = (m, d, None)" "d \<noteq> ''''" by (cases "Split to") auto
  define old where "old = (case map_of (rd_rcptsByDomain rd) d of None \<Rightarrow> [] | Some rs \<Rightarrow> rs)"
  let ?new = "AList.update d (old @ [to]) (rd_rcptsByDomain rd)"
  from False sp have r: "fst (remote_AddRcpt to rd) = rd\<lparr>rd_rcptsByDomain := ?new, rd_recipients := rd_recipients rd @ [to]\<rparr>"
    by (simp add: remote_AddRcpt_def old_def Let_def)
  have m: "map_of ?new = (map_of (rd_rcptsByDomain rd))(d \<mapsto> old @ [to])" by (simp add: AList.update_conv')
  have "\<exists>e rs. map_of ?new e = Some rs \<and> x \<in> set rs" if x: "x \<in> set (rd_recipients rd @ [to])" for x
  proof (cases "x = to")
    case False
    with x assms obtain e rs where "map_of (rd_rcptsByDomain rd) e = Some rs" "x \<in> set rs"
      by (auto simp: filed_def)
    then show ?thesis unfolding m by (cases "e = d") (auto simp: old_def)
  qed (auto simp: m)
  then have "\<forall>x\<in>set (rd_recipients rd @ [to]). \<exists>e rs. (e, rs) \<in> set ?new \<and> x \<in> set rs" by (meson map_of_SomeD)
  then show ?thesis using assms by (simp add: filed_def r AList.distinct_update)
qed

lemma AddRcpts_filed: "filed rd \<Longrightarrow> filed (fold (\<lambda>r rd. fst (remote_AddRcpt r rd)) rs rd)"
  by (induction rs arbitrary: rd) (simp_all add: AddRcpt_filed)

text \<open>An ASCII recipient is refused or recorded on the connection.\<close>

lemma conn_Rcpt_ascii:
  assumes "conn_Rcpt no tx r (c, n) = Return ((c', n'), err)" "IsASCII r"
  shows "sc_rcpts c' = sc_rcpts c @ (if err = None then [r] else [])"
proof -
  obtain cl where cl: "sc_cl c = Some cl" using assms(1) by (cases "sc_cl c") (auto simp: conn_Rcpt_def)
  obtain m e where "no_Rcpt no cl r n = (m, e)" by fastforce
  with assms cl show ?thesis by (cases e) (auto simp: conn_Rcpt_def wrap_opt_def split: option.splits)
qed

lemma send_rcpts_reports:
  assumes "send_rcpts env rs (c, n) = Return ((c', n'), sts)" "\<forall>r\<in>set rs. IsASCII r"
  shows "set rs \<subseteq> fst ` set sts \<union> set (sc_rcpts c') \<and> set (sc_rcpts c) \<subseteq> set (sc_rcpts c')"
  using assms
proof (induction rs arbitrary: c n sts)
  case (Cons r rs)
  obtain c1 n1 err where r: "conn_Rcpt (re_net env) (re_text env) r (c, n) = Return ((c1, n1), err)"
    using Cons.prems(1) by (auto elim!: obind_ReturnE simp del: obind_Return_iff)
  obtain sts1 where rest: "send_rcpts env rs (c1, n1) = Return ((c', n'), sts1)"
    "sts = (case err of None \<Rightarrow> sts1 | Some e \<Rightarrow> (r, Some (moduleError e)) # sts1)"
    using Cons.prems(1) r by (auto elim!: obind_ReturnE simp del: obind_Return_iff)
  from Cons.IH [OF rest(1)] conn_Rcpt_ascii [OF r] Cons.prems(2) rest(2) show ?case by (cases err) auto
qed simp

lemma deliver_domain_reports:
  assumes "deliver_domain env te hdr body (d, rs) st = Return (st', sts)" "\<forall>r\<in>set rs. IsASCII r"
  shows "set rs \<subseteq> fst ` set sts"
proof -
  obtain rd w where st: "st = (rd, w)" by fastforce
  obtain n err where h: "tryHTTP env rd d rs hdr body (rw_net w) = (n, err)" by fastforce
  show ?thesis
  proof (cases err)
    case None
    with assms(1) h st show ?thesis by (force simp: deliver_domain_def)
  next
    case (Some e)
    note eq = assms(1) [unfolded deliver_domain_def st prod.case h Some option.case]
    then obtain rd1 w1 r where c: "connectionForDomain env te d (rd, w\<lparr>rw_net := n\<rparr>) = Return ((rd1, w1), r)"
      by (auto elim!: obind_ReturnE simp del: obind_Return_iff)
    note eq = eq [unfolded c obind.simps prod.case]
    show ?thesis
    proof (cases r)
      case (Inl e)
      with eq show ?thesis by force
    next
      case (Inr conn)
      with eq obtain conn' n' where s: "smtp_deliver env rs hdr body (conn, rw_net w1) = Return ((conn', n'), sts)"
        by (auto elim!: obind_ReturnE simp del: obind_Return_iff)
      obtain c1 n1 sts1 where sr: "send_rcpts env rs (mc_C conn, rw_net w1) = Return ((c1, n1), sts1)"
        using s unfolding smtp_deliver_def prod.case by (auto elim!: obind_ReturnE simp del: obind_Return_iff)
      note eq = s [unfolded smtp_deliver_def prod.case sr obind.simps Let_def]
      have "\<exists>g. sts = sts1 @ map (\<lambda>r. (r, g)) (sc_rcpts c1)"
      proof (cases body)
        case (Inr content)
        with eq show ?thesis by (auto elim!: obind_ReturnE simp del: obind_Return_iff)
      qed (use eq in auto)
      with send_rcpts_reports [OF sr assms(2)] show ?thesis by force
    qed
  qed
qed

lemma deliver_domains_reports:
  assumes "deliver_domains env te hdr body ds st = Return (st', sts)" "\<forall>(d, rs)\<in>set ds. \<forall>r\<in>set rs. IsASCII r"
  shows "(\<Union>(d, rs)\<in>set ds. set rs) \<subseteq> fst ` set sts"
  using assms
proof (induction ds arbitrary: st sts)
  case (Cons x ds)
  obtain d rs where x: "x = (d, rs)" by fastforce
  obtain st1 sts1 where h: "deliver_domain env te hdr body (d, rs) st = Return (st1, sts1)"
    using Cons.prems(1) x by (auto elim!: obind_ReturnE simp del: obind_Return_iff)
  then obtain sts2 where t: "deliver_domains env te hdr body ds st1 = Return (st', sts2)" "sts = sts1 @ sts2"
    using Cons.prems(1) x by (auto elim!: obind_ReturnE simp del: obind_Return_iff)
  from Cons.prems(2) have "\<forall>(d, rs)\<in>set ds. \<forall>r\<in>set rs. IsASCII r" by simp
  note ih = Cons.IH [OF t(1) this]
  have "set rs \<subseteq> fst ` set sts1" using deliver_domain_reports [OF h] Cons.prems(2) x by auto
  with ih t(2) x show ?case by auto
qed simp

section \<open>Inputs of the examples\<close>

definition sample_net :: "unit net_ops" where
  "sample_net = \<lparr>no_Dial = (\<lambda>h n. (n, Inr 1)), no_TLSClient = (\<lambda>cl cfg n. n), no_Hello = (\<lambda>cl n. (n, None)), no_Extension = (\<lambda>cl x n. x = ''STARTTLS'' \<or> x = ''REQUIRETLS''),
     no_StartTLS = (\<lambda>cl cfg n. (n, None)), no_Mail = (\<lambda>cl f o' n. (n, None)), no_Rcpt = (\<lambda>cl r n. (n, None)), no_Data = (\<lambda>cl n. (n, None)),
     no_WriteHeader = (\<lambda>cl h n. (n, None)), no_Copy = (\<lambda>cl b n. (n, None)), no_CloseData = (\<lambda>cl n. (n, Some (Opaque ''refused'' None))),
     no_CloseLMTP = (\<lambda>cl n. (n, [], None)), no_Reset = (\<lambda>cl n. (n, None)), no_Quit = (\<lambda>cl n. (n, None)), no_Close = (\<lambda>cl n. (n, None)),
     no_OpError = (\<lambda>e. None), no_isVerify = (\<lambda>e. None), no_Temporary = (\<lambda>c. None), no_format = (\<lambda>m. '''')\<rparr>"

definition sample_remote :: "unit remote_env" where
  "sample_remote = \<lparr>rt_ipv4 = False, rt_tlsConfig = Some \<lparr>ServerName = '''', InsecureSkipVerify = False\<rparr>, rt_overrides = None, rt_endpointRewrite = '''',
     rt_policies = [MTASTS None], rt_allowSecOverride = True, rt_relaxedREQUIRETLS = False, rt_connReuseLimit = 10, rt_pool = sample_cfg,
     re_text = sample_text, re_net = sample_net, re_TLSState = (\<lambda>cl n. sample_tls\<lparr>VerifiedChains := True\<rparr>), re_policy = sample_env,
     re_LookupMX = (\<lambda>d. Inr [(''mx'', 10)]), re_AuthLookupMX = None, re_osLookupMX = (\<lambda>d. Inr []), re_LookupIP4 = (\<lambda>h. []),
     re_To4 = (\<lambda>h. True), re_dnsReason = (\<lambda>e. ''''), re_SortPref = (\<lambda>rs. rs), re_POST = (\<lambda>u f r h b n. (n, Inr 404)), re_now = (\<lambda>i. 0),
     re_otherPolicies = (\<lambda>(ps, n). (map (PrepareDomain sample_env ''e'') ps, n)), re_otherMeta = id\<rparr>"

definition sample_rd :: remote_delivery where
  "sample_rd = \<lparr>rd_mailFrom = '''', rd_addr = ''a'', rd_msgMeta = sample_msg\<lparr>SMTPOpts := \<lparr>UTF8 = False, RequireTLS = True\<rparr>\<rparr>, rd_recipients = [],
     rd_rcptsByDomain = [], rd_connections = [], rd_policies = [MTASTS None]\<rparr>"

definition sample_rw :: "unit remote_world" where
  "sample_rw = \<lparr>rw_net = (), rw_pool = NewPool, rw_limits = \<lparr>g_global = [], g_ip = None, g_source = None, g_dest = None\<rparr>\<rparr>"


lemma sample_connect:
  "connect sample_remote ''mx'' (smtpconn_New\<lparr>sc_AddrInSMTPMsg := True\<rparr>, ()) =
   Return ((smtpconn_New\<lparr>sc_AddrInSMTPMsg := True, sc_cl := Some 1, sc_serverName := ''mx''\<rparr>, ()), TLSAuthenticated, None, None)"
  by (simp add: connect_def connect_host_def resolve_cached_def sample_remote_def ParseIP_def connect_retry.simps conn_Connect_def attemptConnect_def
      sample_net_def hello_tls_def Let_def smtpconn_New_def)

definition sample_conn :: mx_conn where
  "sample_conn = (fresh_conn sample_remote ''d'' 0)\<lparr>mc_C := smtpconn_New\<lparr>sc_AddrInSMTPMsg := True, sc_cl := Some 1, sc_serverName := ''mx''\<rparr>,
     mc_mxLevel := MX_MTASTS, mc_tlsLevel := TLSAuthenticated\<rparr>"

lemma sample_attempt:
  "attemptMX sample_remote False ''mx'' (fresh_conn sample_remote ''d'' 0, [PrepareDomain sample_env ''d'' (MTASTS None)], ()) =
   Return ((sample_conn, [PrepareDomain sample_env ''d'' (MTASTS None)], ()), None)"
proof -
  let ?ps = "[PrepareDomain sample_env ''d'' (MTASTS None)]"
  have e: "re_policy sample_remote = sample_env" "re_TLSState sample_remote = (\<lambda>cl n. sample_tls\<lparr>VerifiedChains := True\<rparr>)" by (simp_all add: sample_remote_def)
  have m: "check_mx_all sample_env ''mx'' False MXNone ?ps = Return (?ps, Inr MX_MTASTS)"
    by (simp add: sample_env_def fut_get_def level_simps)
  have c: "check_conn_all sample_env (sample_tls\<lparr>VerifiedChains := True\<rparr>) TLSAuthenticated ?ps = Return (Inr TLSAuthenticated)"
    by (simp add: sample_env_def sample_tls_def fut_get_def level_simps)
  have d: "mc_dnssecOk (fresh_conn sample_remote ''d'' 0) = False" "mc_C (fresh_conn sample_remote ''d'' 0) = smtpconn_New\<lparr>sc_AddrInSMTPMsg := True\<rparr>"
    by (simp_all add: fresh_conn_def)
  have s: "sc_cl (smtpconn_New\<lparr>sc_AddrInSMTPMsg := True, sc_cl := Some 1, sc_serverName := ''mx''\<rparr>) = Some 1" by simp
  have o: "re_otherPolicies sample_remote (?ps, ()) = (?ps, ())" by (simp add: sample_remote_def sample_env_def)
  show ?thesis unfolding attemptMX_def prod.case o e d if_False m obind.simps sum.case sample_connect Let_def option.case s c
    by (simp add: sample_conn_def fresh_conn_def)
qed

lemma sample_newConn:
  "newConn sample_remote ''d'' ([MTASTS None], ()) = Return (([PrepareDomain sample_env ''d'' (MTASTS None)], ()), Inr sample_conn)"
proof -
  have l: "lookupMX sample_remote ''d'' = Inr (False, [(''mx'', 10)], False)"
    by (simp add: lookupMX_def literal_host_def HasPrefix_def sample_remote_def ParseIP_def sample_env_def)
  have e: "re_policy sample_remote = sample_env" "re_now sample_remote = (\<lambda>_. 0)" by (simp_all add: sample_remote_def)
  have d: "(fresh_conn sample_remote ''d'' 0)\<lparr>mc_dnssecOk := False\<rparr> = fresh_conn sample_remote ''d'' 0" by (simp add: fresh_conn_def)
  have t: "try_mxs sample_remote False [(''mx'', 10)] None (fresh_conn sample_remote ''d'' 0, [PrepareDomain sample_env ''d'' (MTASTS None)], ()) =
    Return ((sample_conn, [PrepareDomain sample_env ''d'' (MTASTS None)], ()), Inr None)"
    unfolding try_mxs.simps sample_attempt by simp
  show ?thesis unfolding newConn_def prod.case l sum.case Let_def e d list.map t by (simp add: sample_conn_def)
qed

lemma sample_connects: "\<exists>rd' w' conn. connectionForDomain sample_remote sample_take ''d'' (sample_rd, sample_rw) = Return ((rd', w'), Inr conn)"
proof -
  have k: "Get_locked cfg now ''d'' NewPool = Return (NewPool, CallNew)" for cfg now by (simp add: Get_locked_def NewPool_def pool_keys_def)
  have i: "other_meta sample_remote st = st" for st by (cases st) (simp add: other_meta_def sample_remote_def)
  have o: "obtain_conn sample_remote ''d'' (sample_rd, sample_rw) =
    Return ((sample_rd\<lparr>rd_policies := [PrepareDomain sample_env ''d'' (MTASTS None)]\<rparr>, sample_rw), Inr sample_conn)"
    using sample_newConn by (simp add: obtain_conn_def i sample_rd_def sample_rw_def pool_Get_def k)
  have t: "TakeDest sample_take ''d'' (rw_limits sample_rw) = Return (rw_limits sample_rw, None)"
    by (simp add: TakeDest_def sample_rw_def)
  have c: "requiretls_check sample_conn = None" "sc_cl (mc_C sample_conn) = Some 1" by (simp_all add: sample_conn_def requiretls_check_def)
  have m: "conn_Mail (re_net sample_remote) (re_text sample_remote) f op (mc_C sample_conn, ()) = Return ((), None)" if "\<not> UTF8 op" for f op
    using that by (simp add: conn_Mail_def c sample_remote_def sample_net_def wrap_opt_def)
  have u: "\<not> UTF8 (SMTPOpts (rd_msgMeta sample_rd))" "rd_connections sample_rd = []" by (simp_all add: sample_rd_def)
  have x: "\<not> rt_relaxedREQUIRETLS sample_remote" by (simp add: sample_remote_def)
  show ?thesis unfolding connectionForDomain_def fst_conv u map_of.simps option.case o obind.simps prod.case sum.case i
    by (simp add: c t m u x i Let_def)
qed

lemma sample_rely: "others_rely sample_remote {''e''} {}"
proof -
  have "list_all2 (\<lambda>p q. q = p \<or> q = PrepareDomain sample_env ''e'' p) ps (map (PrepareDomain sample_env ''e'') ps)" for ps
    by (simp add: list_all2_conv_all_nth)
  then show ?thesis by (simp add: others_rely_def sample_remote_def)
qed

section \<open>Properties\<close>

text \<open>C14. REQUIRETLS is kept on the way to the MX. Let a delivery with REQUIRETLS get an SMTP connection for a domain it has none for, while the
  goroutines of the domains \<open>D\<close> work on the same policies and connect to the servers \<open>M\<close>. Then the connection leads to an MX of the domain; the MX is
  authentic, because the lookup was authenticated or an MTA-STS policy lists it, the policy of the domain itself or, through the shared future, of one
  of \<open>D\<close>; and the server has proved to be this MX, by a certificate for its name that was verified in the handshake or by a TLSA record, of this MX
  or, through the shared future, of one of \<open>M\<close>. A delivery to one domain has no such others: \<open>D\<close> and \<open>M\<close> are empty. Relaxed mode with
  other domains is excluded, because they may clear the flag of the message. The HTTP request that is tried before is not covered.\<close>

theorem requiretls_secure:
  assumes "connectionForDomain env te domain (rd, w) = Return ((rd', w'), Inr conn)" "map_of (rd_connections rd) domain = None"
    "RequireTLS (SMTPOpts (rd_msgMeta rd))" "others_rely env D M" "rt_relaxedREQUIRETLS env \<Longrightarrow> D = {}"
  shows "\<exists>dnssec recs host pref cl n. lookupMX env domain = Inr (dnssec, recs, False) \<and> (host, pref) \<in> set recs \<and> sc_cl (mc_C conn) = Some cl \<and>
    ((\<exists>d\<in>insert domain D. \<exists>pol. px_mtastsGet (re_policy env) d = Inr pol \<and> sts_Match pol host) \<or> dnssec) \<and>
    ((\<exists>cfg. rt_tlsConfig env = Some cfg \<and> tls_handshake (re_net env) (cfg\<lparr>ServerName := host\<rparr>) (mc_C conn, n)) \<or>
     (\<exists>mx\<in>insert host M. \<exists>er tlsas. px_extResolver (re_policy env) = Some er \<and> discoverTLSA er (px_FQDN (re_policy env) mx) = Inr tlsas \<and>
       verifyDANE (px_dane (re_policy env)) tlsas (re_TLSState env cl n) = Return (True, None)))"
proof -
  from connectionForDomain_new [OF assms] obtain conn1 ps n0 ps' n1 where
    nc: "newConn env domain (ps, n0) = Return ((ps', n1), Inr conn1)" and chk: "requiretls_check conn1 = None" and c: "mc_C conn = mc_C conn1" by auto
  note l = requiretls_check_None [OF chk]
  from newConn_ok [OF nc assms(4)] l obtain dnssec recs ov host pref conn0 ps0 m where
    a: "lookupMX env domain = Inr (dnssec, recs, ov)" "(host, pref) \<in> set recs" "attemptMX env ov host (conn0, ps0, m) = Return ((conn1, ps', n1), None)"
      "mc_dnssecOk conn0 = dnssec" "sts_from (re_policy env) (insert domain D) ps0" by auto
  from attemptMX_authenticated [OF a(3) _ _ assms(4) a(5)] l have ov: "\<not> ov" and cl: "\<exists>cl n. sc_cl (mc_C conn1) = Some cl \<and>
    ((\<exists>d\<in>insert domain D. \<exists>pol. px_mtastsGet (re_policy env) d = Inr pol \<and> sts_Match pol host) \<or> mc_dnssecOk conn0) \<and>
    ((\<exists>cfg. rt_tlsConfig env = Some cfg \<and> tls_handshake (re_net env) (cfg\<lparr>ServerName := host\<rparr>) (mc_C conn1, n)) \<or>
     (\<exists>mx\<in>insert host M. \<exists>er tlsas. px_extResolver (re_policy env) = Some er \<and> discoverTLSA er (px_FQDN (re_policy env) mx) = Inr tlsas \<and>
       verifyDANE (px_dane (re_policy env)) tlsas (re_TLSState env cl n) = Return (True, None)))" by simp_all
  from a(1) ov have "lookupMX env domain = Inr (dnssec, recs, False)" by simp
  with cl [unfolded a(4)] a(2) show ?thesis unfolding c by blast
qed

theorem requiretls_secure_witness:
  "\<exists>rd' w' conn. connectionForDomain sample_remote sample_take ''d'' (sample_rd, sample_rw) = Return ((rd', w'), Inr conn) \<and>
   (\<exists>dnssec recs host pref cl n. lookupMX sample_remote ''d'' = Inr (dnssec, recs, False) \<and> (host, pref) \<in> set recs \<and> sc_cl (mc_C conn) = Some cl \<and>
    ((\<exists>d\<in>insert ''d'' {''e''}. \<exists>pol. px_mtastsGet (re_policy sample_remote) d = Inr pol \<and> sts_Match pol host) \<or> dnssec) \<and>
    ((\<exists>cfg. rt_tlsConfig sample_remote = Some cfg \<and> tls_handshake (re_net sample_remote) (cfg\<lparr>ServerName := host\<rparr>) (mc_C conn, n)) \<or>
     (\<exists>mx\<in>insert host {}. \<exists>er tlsas. px_extResolver (re_policy sample_remote) = Some er \<and> discoverTLSA er (px_FQDN (re_policy sample_remote) mx) = Inr tlsas \<and>
       verifyDANE (px_dane (re_policy sample_remote)) tlsas (re_TLSState sample_remote cl n) = Return (True, None))))"
proof -
  obtain rd' w' conn where c: "connectionForDomain sample_remote sample_take ''d'' (sample_rd, sample_rw) = Return ((rd', w'), Inr conn)"
    using sample_connects by blast
  have s: "map_of (rd_connections sample_rd) ''d'' = None" "RequireTLS (SMTPOpts (rd_msgMeta sample_rd))" "\<not> rt_relaxedREQUIRETLS sample_remote"
    by (simp_all add: sample_rd_def sample_remote_def)
  from requiretls_secure [OF c s(1,2) sample_rely] s(3) c show ?thesis by blast
qed

text \<open>C25. The status of every recipient: when the delivery of a message to ASCII recipients returns, in whatever order its goroutines ran and whatever
  the servers did, every recipient that \<open>AddRcpt\<close> accepted has got a status.\<close>

theorem remote_reports_every_recipient:
  assumes "remote_Start env te addr meta mailFrom w0 = Return (w1, Inr rd0)" "rd = fold (\<lambda>r rd. fst (remote_AddRcpt r rd)) rs rd0"
    "remote_BodyNonAtomic env te order hdr body (rd, w) = Return (st', sts)" "\<And>xs. set (order xs) = set xs"
    "\<And>d rs r. (d, rs) \<in> set (rd_rcptsByDomain rd) \<Longrightarrow> r \<in> set rs \<Longrightarrow> IsASCII r"
  shows "set (rd_recipients rd) \<subseteq> fst ` set sts"
proof (cases "Quarantine (rd_msgMeta rd)")
  case True
  with assms(3) show ?thesis by (force simp: remote_BodyNonAtomic_def)
next
  case False
  have "filed rd0" using assms(1)
    by (auto simp: remote_Start_def filed_def Let_def elim!: obind_ReturnE simp del: obind_Return_iff split: prod.splits option.splits if_splits)
  from AddRcpts_filed [OF this] assms(2) have f: "filed rd" by simp
  from False assms(3) have d: "deliver_domains env te hdr body (order (rd_rcptsByDomain rd)) (rd, w) = Return (st', sts)"
    by (simp add: remote_BodyNonAtomic_def)
  have "\<forall>(d, rs)\<in>set (order (rd_rcptsByDomain rd)). \<forall>r\<in>set rs. IsASCII r" using assms(4,5) by blast
  from deliver_domains_reports [OF d this] f assms(4) show ?thesis by (fastforce simp: filed_def)
qed

definition sample_http :: "unit remote_env" where
  "sample_http = sample_remote\<lparr>re_POST := (\<lambda>u f r h b n. (n, Inr 200))\<rparr>"

theorem remote_reports_every_recipient_witness:
  "\<exists>w1 rd0 st' sts. remote_Start sample_http sample_take ''a'' sample_msg '''' sample_rw = Return (w1, Inr rd0) \<and>
    rd_recipients (fst (remote_AddRcpt ''b@y'' rd0)) = [''b@y''] \<and>
    remote_BodyNonAtomic sample_http sample_take rev [] (Inr ''hi'') (fst (remote_AddRcpt ''b@y'' rd0), w1) = Return (st', sts) \<and>
    set (rd_recipients (fst (remote_AddRcpt ''b@y'' rd0))) \<subseteq> fst ` set sts"
proof -
  have f: "\<not> EqualFoldASCII ''b@y'' ''postmaster''" "IsASCII ''b@y''" by code_simp+
  then have sp: "Split ''b@y'' = (''b'', ''y'', None)" by (simp add: Split_def)
  define rd0 where "rd0 = \<lparr>rd_mailFrom = '''', rd_addr = ''a'', rd_msgMeta = sample_msg, rd_recipients = [], rd_rcptsByDomain = [],
    rd_connections = [], rd_policies = if TLSRequireOverride sample_msg \<and> rt_allowSecOverride sample_http then [] else rt_policies sample_http\<rparr>"
  have "op_TakeContext mops (te_global sample_take) [] = Return ([], None)" by (simp add: multi_ops_def)
  then have t: "TakeMsg sample_take ''a'' '''' (rw_limits sample_rw) = Return (rw_limits sample_rw, None)" by (simp add: TakeMsg_def sample_rw_def)
  have "\<exists>w1. remote_Start sample_http sample_take ''a'' sample_msg '''' sample_rw = Return (w1, Inr rd0)"
    by (simp add: remote_Start_def rd0_def t Let_def)
  then obtain w1 where st: "remote_Start sample_http sample_take ''a'' sample_msg '''' sample_rw = Return (w1, Inr rd0)" by blast
  have a: "fst (remote_AddRcpt ''b@y'' rd0) = rd0\<lparr>rd_rcptsByDomain := [(''y'', [''b@y''])], rd_recipients := [''b@y'']\<rparr>"
    by (simp add: remote_AddRcpt_def sp rd0_def sample_msg_def)
  then have "\<exists>st' sts. remote_BodyNonAtomic sample_http sample_take rev [] (Inr ''hi'') (fst (remote_AddRcpt ''b@y'' rd0), w1) = Return (st', sts)"
    by (simp add: remote_BodyNonAtomic_def rd0_def sample_msg_def deliver_domain_def tryHTTP_def sample_http_def sample_remote_def doHTTPRequest_def
        doHTTPRequestURL_def Let_def)
  then obtain st' sts where b: "remote_BodyNonAtomic sample_http sample_take rev [] (Inr ''hi'') (fst (remote_AddRcpt ''b@y'' rd0), w1) = Return (st', sts)" by blast
  have "fst (remote_AddRcpt ''b@y'' rd0) = fold (\<lambda>r rd. fst (remote_AddRcpt r rd)) [''b@y''] rd0" by simp
  from remote_reports_every_recipient [OF st this b] a f(2) st b show ?thesis by (intro exI [of _ w1] exI [of _ rd0] exI [of _ st'] exI [of _ sts]) simp
qed

text \<open>A recipient without a status: a recipient that is not ASCII is converted for a server without SMTPUTF8 and recorded in its converted form;
  when the server then refuses the message, the refusal is reported for the converted address and the recipient that was added gets no status at all.\<close>

theorem converted_recipient_lost:
  assumes "sc_cl (mc_C conn) = Some cl" "sc_rcpts (mc_C conn) = []" "\<not> sc_lmtp (mc_C conn)" "\<not> IsASCII r" "\<not> no_Extension (re_net env) cl ''SMTPUTF8'' n"
    "ToASCII (re_text env) r = (r', None)" "r' \<noteq> r" "no_Rcpt (re_net env) cl r' n = (n1, None)"
  shows "\<exists>st' e. smtp_deliver env [r] hdr (Inr content) (conn, n) = Return (st', [(r', e)]) \<and> r \<notin> fst ` set [(r', e)]"
proof -
  let ?c = "(mc_C conn)\<lparr>sc_rcpts := [r']\<rparr>"
  have s: "send_rcpts env [r] (mc_C conn, n) = Return ((?c, n1), [])"
    using assms by (simp add: conn_Rcpt_def)
  obtain m err where "send_message (re_net env) cl hdr content (no_CloseData (re_net env) cl) n1 = (m, err)" by fastforce
  then have d: "conn_Data (re_net env) hdr content (?c, n1) = Return (m, wrap_opt (re_net env) ?c err)"
    using assms(1,3) by (simp add: conn_Data_def)
  show ?thesis using assms(7) unfolding smtp_deliver_def prod.case s obind.simps sum.case Let_def d by simp
qed

definition sample_idn :: "unit remote_env" where
  "sample_idn = sample_remote\<lparr>re_text := sample_text\<lparr>idna_ToASCII := (\<lambda>s. (''xn--9ca'', None))\<rparr>\<rparr>"

end
