(* ===== verification/Sql_Db.thy ===== *)
theory Sql_Db
  imports Exterrors "HOL-Library.List_Lexorder" "HOL-Library.Char_ord"
begin

text \<open>
  Model of the database of the mail storage: the tables and prepared statements of \<^verbatim>\<open>internal/go-imap-sql/sql.go\<close>.

  A table is the list of its rows in the order in which the engine yields them, a statement is a function on the database that checks the constraints of
  the schema. Transactions are functions on the database as well: the new value is kept on commit and dropped on rollback, so transactions run one
  after the other. \<open>sql_like\<close> is the operator \<open>LIKE\<close>, which depends on the engine.
\<close>

section \<open>Tables\<close>

record user_row =
  us_id :: nat
  us_username :: string
  us_msgsizelimit :: "nat option"
  us_inboxId :: nat

record mbox_row =
  mb_id :: nat
  mb_uid :: nat
  mb_name :: string
  mb_sub :: bool
  mb_mark :: bool
  mb_msgsizelimit :: "nat option"
  mb_uidnext :: nat
  mb_uidvalidity :: nat
  mb_specialuse :: "string option"
  mb_msgsCount :: int

record extkey_row =
  ek_id :: string
  ek_uid :: nat
  ek_refs :: int

record msg_row =
  ms_mboxId :: nat
  ms_msgId :: nat
  ms_date :: int
  ms_bodyLen :: nat
  ms_mark :: bool
  ms_bodyStructure :: string
  ms_cachedHeader :: string
  ms_extBodyKey :: string
  ms_seen :: bool
  ms_compressAlgo :: string
  ms_recent :: bool

type_synonym flag_row = "nat \<times> nat \<times> string"

record sqldb =
  db_users :: "user_row list"
  db_mboxes :: "mbox_row list"
  db_extKeys :: "extkey_row list"
  db_msgs :: "msg_row list"
  db_flags :: "flag_row list"
  db_userSeq :: nat
  db_mboxSeq :: nat

definition empty_db :: sqldb where
  "empty_db = \<lparr>db_users = [], db_mboxes = [], db_extKeys = [], db_msgs = [], db_flags = [], db_userSeq = 0, db_mboxSeq = 0\<rparr>"

abbreviation ms_key :: "msg_row \<Rightarrow> nat \<times> nat" where
  "ms_key r \<equiv> (ms_mboxId r, ms_msgId r)"

abbreviation fl_key :: "flag_row \<Rightarrow> nat \<times> nat" where
  "fl_key f \<equiv> (fst f, fst (snd f))"

section \<open>Errors and constraints\<close>

definition unique_err :: goerr where
  "unique_err = Opaque ''UNIQUE constraint failed'' None"

definition fk_err :: goerr where
  "fk_err = Opaque ''FOREIGN KEY constraint failed'' None"

definition null_err :: goerr where
  "null_err = Opaque ''NOT NULL constraint failed'' None"

definition isForeignKeyErr :: "goerr \<Rightarrow> bool" where
  "isForeignKeyErr err \<longleftrightarrow> Contains (Error err) ''UNIQUE'' \<or> Contains (Error err) ''Duplicate entry'' \<or> Contains (Error err) ''unique''"

text \<open>The comparison of an error with a sentinel value, an error made by \<open>errors.New\<close>.\<close>

fun same_err :: "goerr \<Rightarrow> goerr \<Rightarrow> bool" where
  "same_err (Opaque a s) (Opaque b t) \<longleftrightarrow> a = b \<and> s = t"
| "same_err _ _ \<longleftrightarrow> False"

lemma same_err_sentinel: "same_err e (Opaque b t) \<longleftrightarrow> e = Opaque b t"
  by (cases e) auto

text \<open>A statement fails when the engine cannot run it, \<open>flt\<close>, or when it breaks a constraint.\<close>

type_synonym sql_faults = "string \<Rightarrow> nat \<Rightarrow> bool"

definition run :: "sql_faults \<Rightarrow> string \<Rightarrow> nat \<Rightarrow> (goerr + 'a) \<Rightarrow> goerr + 'a" where
  "run flt name i r = (if flt name i then Inl (Opaque name None) else r)"

lemma run_InrD: "run flt name i r = Inr x \<Longrightarrow> r = Inr x"
  by (simp add: run_def split: if_splits)

fun fold_rows :: "('r \<Rightarrow> 'd \<Rightarrow> goerr + 'd) \<Rightarrow> 'r list \<Rightarrow> 'd \<Rightarrow> goerr + 'd" where
  "fold_rows f [] d = Inr d"
| "fold_rows f (r # rs) d = ebind (f r d) (fold_rows f rs)"

text \<open>Insertion of a message: its mailbox and its body key exist, its UID is new in the mailbox.\<close>

definition insert_msg :: "msg_row \<Rightarrow> sqldb \<Rightarrow> goerr + sqldb" where
  "insert_msg r d =
     (if ms_key r \<in> ms_key ` set (db_msgs d) then Inl unique_err
      else if ms_mboxId r \<notin> mb_id ` set (db_mboxes d) \<or> ms_extBodyKey r \<notin> ek_id ` set (db_extKeys d) then Inl fk_err
      else Inr (d\<lparr>db_msgs := db_msgs d @ [r]\<rparr>))"

definition insert_flag :: "flag_row \<Rightarrow> sqldb \<Rightarrow> goerr + sqldb" where
  "insert_flag f d =
     (if f \<in> set (db_flags d) then Inl unique_err
      else if fl_key f \<notin> ms_key ` set (db_msgs d) then Inl fk_err
      else Inr (d\<lparr>db_flags := db_flags d @ [f]\<rparr>))"

text \<open>Deletion cascades from users to mailboxes, messages and flags.\<close>

definition delete_msgs :: "(msg_row \<Rightarrow> bool) \<Rightarrow> sqldb \<Rightarrow> sqldb" where
  "delete_msgs P d =
     (let gone = ms_key ` set (filter P (db_msgs d)) in
      d\<lparr>db_msgs := filter (\<lambda>r. \<not> P r) (db_msgs d), db_flags := filter (\<lambda>f. fl_key f \<notin> gone) (db_flags d)\<rparr>)"

definition delete_mboxes :: "(mbox_row \<Rightarrow> bool) \<Rightarrow> sqldb \<Rightarrow> sqldb" where
  "delete_mboxes P d =
     (let gone = mb_id ` set (filter P (db_mboxes d)) in
      (delete_msgs (\<lambda>r. ms_mboxId r \<in> gone) d)\<lparr>db_mboxes := filter (\<lambda>b. \<not> P b) (db_mboxes d)\<rparr>)"

definition delete_users :: "(user_row \<Rightarrow> bool) \<Rightarrow> sqldb \<Rightarrow> sqldb" where
  "delete_users P d =
     (let gone = us_id ` set (filter P (db_users d)) in
      (delete_mboxes (\<lambda>b. mb_uid b \<in> gone) d)\<lparr>db_users := filter (\<lambda>u. \<not> P u) (db_users d)\<rparr>)"

text \<open>A key that a message refers to cannot be deleted.\<close>

definition delete_extKeys :: "(extkey_row \<Rightarrow> bool) \<Rightarrow> sqldb \<Rightarrow> goerr + sqldb" where
  "delete_extKeys P d =
     (if \<exists>k\<in>set (db_extKeys d). P k \<and> ek_id k \<in> ms_extBodyKey ` set (db_msgs d) then Inl fk_err
      else Inr (d\<lparr>db_extKeys := filter (\<lambda>k. \<not> P k) (db_extKeys d)\<rparr>))"

definition update_mboxes :: "(mbox_row \<Rightarrow> bool) \<Rightarrow> (mbox_row \<Rightarrow> mbox_row) \<Rightarrow> sqldb \<Rightarrow> sqldb" where
  "update_mboxes P f d = d\<lparr>db_mboxes := map (\<lambda>b. if P b then f b else b) (db_mboxes d)\<rparr>"

definition update_msgs :: "(msg_row \<Rightarrow> bool) \<Rightarrow> (msg_row \<Rightarrow> msg_row) \<Rightarrow> sqldb \<Rightarrow> sqldb" where
  "update_msgs P f d = d\<lparr>db_msgs := map (\<lambda>r. if P r then f r else r) (db_msgs d)\<rparr>"

definition update_refs :: "(extkey_row \<Rightarrow> bool) \<Rightarrow> (int \<Rightarrow> int) \<Rightarrow> sqldb \<Rightarrow> sqldb" where
  "update_refs P f d = d\<lparr>db_extKeys := map (\<lambda>k. if P k then k\<lparr>ek_refs := f (ek_refs k)\<rparr> else k) (db_extKeys d)\<rparr>"

section \<open>Statements on users\<close>

definition st_userMeta :: "string \<Rightarrow> sqldb \<Rightarrow> (nat \<times> nat) option" where
  "st_userMeta username d = map_option (\<lambda>u. (us_id u, us_inboxId u)) (find (\<lambda>u. us_username u = username) (db_users d))"

definition st_listUsers :: "sqldb \<Rightarrow> (nat \<times> string) list" where
  "st_listUsers d = map (\<lambda>u. (us_id u, us_username u)) (sort_key us_id (db_users d))"

definition st_addUser :: "string \<Rightarrow> sqldb \<Rightarrow> goerr + sqldb" where
  "st_addUser username d =
     (if username \<in> us_username ` set (db_users d) then Inl unique_err
      else
        let i = Suc (db_userSeq d) in
        Inr (d\<lparr>db_users := db_users d @ [\<lparr>us_id = i, us_username = username, us_msgsizelimit = None, us_inboxId = 0\<rparr>], db_userSeq := i\<rparr>))"

definition st_delUser :: "string \<Rightarrow> sqldb \<Rightarrow> sqldb \<times> nat" where
  "st_delUser username d =
     (delete_users (\<lambda>u. us_username u = username) d, length (filter (\<lambda>u. us_username u = username) (db_users d)))"

definition st_setUserMsgSizeLimit :: "nat option \<Rightarrow> nat \<Rightarrow> sqldb \<Rightarrow> sqldb" where
  "st_setUserMsgSizeLimit v uid d =
     d\<lparr>db_users := map (\<lambda>u. if us_id u = uid then u\<lparr>us_msgsizelimit := v\<rparr> else u) (db_users d)\<rparr>"

definition st_userMsgSizeLimit :: "nat \<Rightarrow> sqldb \<Rightarrow> nat option option" where
  "st_userMsgSizeLimit uid d = map_option us_msgsizelimit (find (\<lambda>u. us_id u = uid) (db_users d))"

definition st_setInboxId :: "nat \<Rightarrow> nat \<Rightarrow> sqldb \<Rightarrow> sqldb" where
  "st_setInboxId inboxId uid d = d\<lparr>db_users := map (\<lambda>u. if us_id u = uid then u\<lparr>us_inboxId := inboxId\<rparr> else u) (db_users d)\<rparr>"

section \<open>Statements on mailboxes\<close>

definition st_listMboxes :: "nat \<Rightarrow> sqldb \<Rightarrow> (nat \<times> string) list" where
  "st_listMboxes uid d = map (\<lambda>b. (mb_id b, mb_name b)) (sort_key mb_id (filter (\<lambda>b. mb_uid b = uid) (db_mboxes d)))"

definition st_listSubbedMboxes :: "nat \<Rightarrow> sqldb \<Rightarrow> (nat \<times> string) list" where
  "st_listSubbedMboxes uid d = map (\<lambda>b. (mb_id b, mb_name b)) (sort_key mb_id (filter (\<lambda>b. mb_uid b = uid \<and> mb_sub b) (db_mboxes d)))"

text \<open>A new row with the defaults of the schema.\<close>

definition new_mbox :: "nat \<Rightarrow> nat \<Rightarrow> string \<Rightarrow> nat \<Rightarrow> string option \<Rightarrow> mbox_row" where
  "new_mbox i uid name uidvalidity specialuse =
     \<lparr>mb_id = i, mb_uid = uid, mb_name = name, mb_sub = True, mb_mark = False, mb_msgsizelimit = None, mb_uidnext = 1, mb_uidvalidity = uidvalidity,
       mb_specialuse = specialuse, mb_msgsCount = 0\<rparr>"

definition mbox_taken :: "nat \<Rightarrow> string \<Rightarrow> sqldb \<Rightarrow> bool" where
  "mbox_taken uid name d \<longleftrightarrow> (uid, name) \<in> (\<lambda>b. (mb_uid b, mb_name b)) ` set (db_mboxes d)"

definition st_createMbox :: "nat \<Rightarrow> string \<Rightarrow> nat \<Rightarrow> string option \<Rightarrow> sqldb \<Rightarrow> goerr + sqldb" where
  "st_createMbox uid name uidvalidity specialuse d =
     (if mbox_taken uid name d then Inl unique_err
      else if uid \<notin> us_id ` set (db_users d) then Inl fk_err
      else
        let i = Suc (db_mboxSeq d) in
        Inr (d\<lparr>db_mboxes := db_mboxes d @ [new_mbox i uid name uidvalidity specialuse], db_mboxSeq := i\<rparr>))"

definition st_createMboxExistsOk :: "nat \<Rightarrow> string \<Rightarrow> nat \<Rightarrow> sqldb \<Rightarrow> goerr + sqldb" where
  "st_createMboxExistsOk uid name uidvalidity d = (if mbox_taken uid name d then Inr d else st_createMbox uid name uidvalidity None d)"

definition st_deleteMbox :: "nat \<Rightarrow> string \<Rightarrow> sqldb \<Rightarrow> sqldb \<times> nat" where
  "st_deleteMbox uid name d =
     (delete_mboxes (\<lambda>b. mb_uid b = uid \<and> mb_name b = name) d, length (filter (\<lambda>b. mb_uid b = uid \<and> mb_name b = name) (db_mboxes d)))"

text \<open>A new name for one mailbox, which must not be taken by another one.\<close>

definition set_name :: "string \<Rightarrow> mbox_row \<Rightarrow> sqldb \<Rightarrow> goerr + sqldb" where
  "set_name name b d =
     (if \<exists>c\<in>set (db_mboxes d). mb_id c \<noteq> mb_id b \<and> mb_uid c = mb_uid b \<and> mb_name c = name then Inl unique_err
      else Inr (update_mboxes (\<lambda>c. mb_id c = mb_id b) (\<lambda>c. c\<lparr>mb_name := name\<rparr>) d))"

definition st_renameMbox :: "string \<Rightarrow> nat \<Rightarrow> string \<Rightarrow> sqldb \<Rightarrow> goerr + sqldb" where
  "st_renameMbox newName uid name d = fold_rows (set_name newName) (filter (\<lambda>b. mb_uid b = uid \<and> mb_name b = name) (db_mboxes d)) d"

text \<open>\<open>substr\<close> counts characters.\<close>

definition sql_substr :: "string \<Rightarrow> nat \<Rightarrow> string" where
  "sql_substr s n = encode_runes (drop n (runes s))"

definition st_renameMboxChilds :: "(string \<Rightarrow> string \<Rightarrow> bool) \<Rightarrow> string \<Rightarrow> nat \<Rightarrow> string \<Rightarrow> nat \<Rightarrow> sqldb \<Rightarrow> goerr + sqldb" where
  "st_renameMboxChilds like newPrefix len pattern uid d =
     fold_rows (\<lambda>b. set_name (newPrefix @ sql_substr (mb_name b) len) b) (filter (\<lambda>b. like pattern (mb_name b) \<and> mb_uid b = uid) (db_mboxes d)) d"

definition st_getMboxAttrs :: "nat \<Rightarrow> string \<Rightarrow> sqldb \<Rightarrow> (bool \<times> string option) option" where
  "st_getMboxAttrs uid name d =
     map_option (\<lambda>b. (mb_mark b, mb_specialuse b)) (find (\<lambda>b. mb_uid b = uid \<and> mb_name b = name) (db_mboxes d))"

definition st_setSubbed :: "bool \<Rightarrow> nat \<Rightarrow> string \<Rightarrow> sqldb \<Rightarrow> sqldb" where
  "st_setSubbed sub uid name = update_mboxes (\<lambda>b. mb_uid b = uid \<and> mb_name b = name) (\<lambda>b. b\<lparr>mb_sub := sub\<rparr>)"

definition st_hasChildren :: "(string \<Rightarrow> string \<Rightarrow> bool) \<Rightarrow> string \<Rightarrow> nat \<Rightarrow> sqldb \<Rightarrow> nat" where
  "st_hasChildren like pattern uid d = length (filter (\<lambda>b. like pattern (mb_name b) \<and> mb_uid b = uid) (db_mboxes d))"

definition mbox_of :: "nat \<Rightarrow> sqldb \<Rightarrow> mbox_row option" where
  "mbox_of i d = find (\<lambda>b. mb_id b = i) (db_mboxes d)"

definition st_uidNext :: "nat \<Rightarrow> sqldb \<Rightarrow> nat option" where
  "st_uidNext i d = map_option mb_uidnext (mbox_of i d)"

definition st_increaseMsgCount :: "nat \<Rightarrow> nat \<Rightarrow> nat \<Rightarrow> sqldb \<Rightarrow> sqldb" where
  "st_increaseMsgCount n k i =
     update_mboxes (\<lambda>b. mb_id b = i) (\<lambda>b. b\<lparr>mb_uidnext := mb_uidnext b + n, mb_msgsCount := mb_msgsCount b + int k\<rparr>)"

definition st_decreaseMsgCount :: "nat \<Rightarrow> nat \<Rightarrow> sqldb \<Rightarrow> sqldb" where
  "st_decreaseMsgCount k i = update_mboxes (\<lambda>b. mb_id b = i) (\<lambda>b. b\<lparr>mb_msgsCount := mb_msgsCount b - int k\<rparr>)"

definition st_uidValidity :: "nat \<Rightarrow> sqldb \<Rightarrow> nat option" where
  "st_uidValidity i d = map_option mb_uidvalidity (mbox_of i d)"

definition st_msgsCount :: "nat \<Rightarrow> sqldb \<Rightarrow> int option" where
  "st_msgsCount i d = map_option mb_msgsCount (mbox_of i d)"

definition st_mboxId :: "nat \<Rightarrow> string \<Rightarrow> sqldb \<Rightarrow> nat option" where
  "st_mboxId uid name d = map_option mb_id (find (\<lambda>b. mb_uid b = uid \<and> mb_name b = name) (sort_key mb_id (db_mboxes d)))"

definition st_setMboxMsgSizeLimit :: "nat option \<Rightarrow> nat \<Rightarrow> sqldb \<Rightarrow> sqldb" where
  "st_setMboxMsgSizeLimit v i = update_mboxes (\<lambda>b. mb_id b = i) (\<lambda>b. b\<lparr>mb_msgsizelimit := v\<rparr>)"

definition st_mboxMsgSizeLimit :: "nat \<Rightarrow> sqldb \<Rightarrow> nat option option" where
  "st_mboxMsgSizeLimit i d = map_option mb_msgsizelimit (mbox_of i d)"

definition st_specialUseMbox :: "nat \<Rightarrow> string \<Rightarrow> sqldb \<Rightarrow> (string \<times> nat) option" where
  "st_specialUseMbox uid attr d =
     map_option (\<lambda>b. (mb_name b, mb_id b)) (find (\<lambda>b. mb_uid b = uid \<and> mb_specialuse b = Some attr) (db_mboxes d))"

section \<open>Statements on messages\<close>

definition in_mbox :: "nat \<Rightarrow> msg_row \<Rightarrow> bool" where
  "in_mbox i r \<longleftrightarrow> ms_mboxId r = i"

definition in_range :: "nat \<Rightarrow> nat \<Rightarrow> nat \<Rightarrow> msg_row \<Rightarrow> bool" where
  "in_range i a b r \<longleftrightarrow> ms_mboxId r = i \<and> a \<le> ms_msgId r \<and> ms_msgId r \<le> b"

text \<open>The rows of a mailbox or of a range of it, ordered by UID.\<close>

definition msgs_by :: "(msg_row \<Rightarrow> bool) \<Rightarrow> sqldb \<Rightarrow> msg_row list" where
  "msgs_by P d = sort_key ms_msgId (filter P (db_msgs d))"

definition st_recentCount :: "nat \<Rightarrow> sqldb \<Rightarrow> nat" where
  "st_recentCount i d = length (filter (\<lambda>r. in_mbox i r \<and> ms_recent r) (db_msgs d))"

definition st_clearRecent :: "nat \<Rightarrow> sqldb \<Rightarrow> sqldb" where
  "st_clearRecent i = update_msgs (in_mbox i) (\<lambda>r. r\<lparr>ms_recent := False\<rparr>)"

definition st_firstUnseenUid :: "nat \<Rightarrow> sqldb \<Rightarrow> nat option" where
  "st_firstUnseenUid i d = map_option ms_msgId (find (\<lambda>r. in_mbox i r \<and> \<not> ms_seen r) (db_msgs d))"

definition st_unseenCount :: "nat \<Rightarrow> sqldb \<Rightarrow> nat" where
  "st_unseenCount i d = length (filter (\<lambda>r. in_mbox i r \<and> \<not> ms_seen r) (db_msgs d))"

definition has_flag :: "sqldb \<Rightarrow> string \<Rightarrow> msg_row \<Rightarrow> bool" where
  "has_flag d f r \<longleftrightarrow> (ms_mboxId r, ms_msgId r, f) \<in> set (db_flags d)"

abbreviation deleted_flag :: string where
  "deleted_flag \<equiv> CHR 0x5C # ''Deleted''"

abbreviation recent_flag :: string where
  "recent_flag \<equiv> CHR 0x5C # ''Recent''"

abbreviation seen_flag :: string where
  "seen_flag \<equiv> CHR 0x5C # ''Seen''"

definition st_deletedUids :: "nat \<Rightarrow> sqldb \<Rightarrow> nat list" where
  "st_deletedUids i d = sort (map (\<lambda>f. fst (snd f)) (filter (\<lambda>f. fst f = i \<and> snd (snd f) = deleted_flag) (db_flags d)))"

definition st_expungeMbox :: "nat \<Rightarrow> sqldb \<Rightarrow> sqldb" where
  "st_expungeMbox i d = delete_msgs (\<lambda>r. in_mbox i r \<and> has_flag d deleted_flag r) d"

text \<open>The copies of a range: numbered from \<open>uidnext\<close> of the destination on, after \<open>off\<close> earlier copies.\<close>

definition copies :: "nat \<Rightarrow> nat \<Rightarrow> msg_row list \<Rightarrow> msg_row list" where
  "copies dest start rs =
     map2 (\<lambda>i r. r\<lparr>ms_mboxId := dest, ms_msgId := start + i, ms_mark := False, ms_recent := False\<rparr>) [0..<length rs] rs"

definition st_copyMsgsUid :: "nat \<Rightarrow> nat \<Rightarrow> nat \<Rightarrow> nat \<Rightarrow> nat \<Rightarrow> sqldb \<Rightarrow> goerr + sqldb \<times> nat" where
  "st_copyMsgsUid dest off src a b d =
     (let rs = msgs_by (in_range src a b) d in
      case st_uidNext dest d of
        None \<Rightarrow> if rs = [] then Inr (d, 0) else Inl null_err
      | Some n \<Rightarrow> ebind (fold_rows insert_msg (copies dest (n + off) rs) d) (\<lambda>d. Inr (d, length rs)))"

definition st_copyMsgFlagsUid :: "nat \<Rightarrow> nat \<Rightarrow> nat \<Rightarrow> nat \<Rightarrow> nat \<Rightarrow> sqldb \<Rightarrow> goerr + sqldb" where
  "st_copyMsgFlagsUid dest off src a b d =
     (let rs = msgs_by (in_range src a b) d;
          new = (\<lambda>n. concat (map (\<lambda>f. map (\<lambda>(i, r). (dest, n + off + i, snd (snd f)))
                   (filter (\<lambda>(i, r). ms_key r = fl_key f) (zip [0..<length rs] rs))) (db_flags d)))
      in case st_uidNext dest d of
           None \<Rightarrow> if new 0 = [] then Inr d else Inl null_err
         | Some n \<Rightarrow> fold_rows insert_flag (new n) d)"

definition st_massClearFlagsUid :: "nat \<Rightarrow> nat \<Rightarrow> nat \<Rightarrow> sqldb \<Rightarrow> sqldb" where
  "st_massClearFlagsUid i a b d =
     d\<lparr>db_flags := filter (\<lambda>(m, u, f). \<not> (m = i \<and> a \<le> u \<and> u \<le> b \<and> f \<noteq> recent_flag)) (db_flags d)\<rparr>"

text \<open>The subquery is used as a single value, the first row it yields.\<close>

definition st_addRecentToLast :: "nat \<Rightarrow> nat \<Rightarrow> sqldb \<Rightarrow> sqldb" where
  "st_addRecentToLast i n d =
     (case take n (rev (msgs_by (in_mbox i) d)) of
        [] \<Rightarrow> d
      | l # _ \<Rightarrow> update_msgs (\<lambda>r. in_mbox i r \<and> ms_msgId r = ms_msgId l) (\<lambda>r. r\<lparr>ms_recent := True\<rparr>) d)"

definition st_markUid :: "nat \<Rightarrow> nat \<Rightarrow> nat \<Rightarrow> sqldb \<Rightarrow> sqldb" where
  "st_markUid i a b = update_msgs (in_range i a b) (\<lambda>r. r\<lparr>ms_mark := True\<rparr>)"

definition st_markedUids :: "nat \<Rightarrow> sqldb \<Rightarrow> (nat \<times> string) list" where
  "st_markedUids i d = map (\<lambda>r. (ms_msgId r, ms_extBodyKey r)) (msgs_by (\<lambda>r. in_mbox i r \<and> ms_mark r) d)"

definition st_delMarked :: "sqldb \<Rightarrow> sqldb" where
  "st_delMarked = delete_msgs ms_mark"

definition st_setSeenFlagUid :: "bool \<Rightarrow> nat \<Rightarrow> nat \<Rightarrow> nat \<Rightarrow> sqldb \<Rightarrow> sqldb" where
  "st_setSeenFlagUid v i a b = update_msgs (in_range i a b) (\<lambda>r. r\<lparr>ms_seen := v\<rparr>)"

definition flags_of :: "msg_row \<Rightarrow> sqldb \<Rightarrow> string list" where
  "flags_of r d = map (\<lambda>f. snd (snd f)) (filter (\<lambda>f. fl_key f = ms_key r) (db_flags d))"

definition st_msgFlagsUid :: "nat \<Rightarrow> nat \<Rightarrow> nat \<Rightarrow> sqldb \<Rightarrow> (nat \<times> string list) list" where
  "st_msgFlagsUid i a b d = map (\<lambda>r. (ms_msgId r, flags_of r d)) (msgs_by (in_range i a b) d)"

definition st_usedFlags :: "nat \<Rightarrow> sqldb \<Rightarrow> string list" where
  "st_usedFlags i d = sort (remdups (map (\<lambda>f. snd (snd f)) (filter (\<lambda>f. fst f = i) (db_flags d))))"

definition st_listMsgUids :: "nat \<Rightarrow> sqldb \<Rightarrow> nat list" where
  "st_listMsgUids i d = map ms_msgId (msgs_by (in_mbox i) d)"

definition st_listMsgUidsRecent :: "nat \<Rightarrow> sqldb \<Rightarrow> (nat \<times> bool) list" where
  "st_listMsgUidsRecent i d = take 100000 (map (\<lambda>r. (ms_msgId r, ms_recent r)) (msgs_by (in_mbox i) d))"

definition st_flagsAdd :: "string list \<Rightarrow> nat \<Rightarrow> nat \<Rightarrow> nat \<Rightarrow> sqldb \<Rightarrow> sqldb" where
  "st_flagsAdd flags i a b d =
     d\<lparr>db_flags := fold (\<lambda>f fs. if f \<in> set fs then fs else fs @ [f])
        (concat (map (\<lambda>r. map (\<lambda>f. (i, ms_msgId r, f)) flags) (filter (in_range i a b) (db_msgs d)))) (db_flags d)\<rparr>"

definition st_flagsRem :: "string list \<Rightarrow> nat \<Rightarrow> nat \<Rightarrow> nat \<Rightarrow> sqldb \<Rightarrow> sqldb" where
  "st_flagsRem flags i a b d = d\<lparr>db_flags := filter (\<lambda>(m, u, f). \<not> (m = i \<and> a \<le> u \<and> u \<le> b \<and> f \<in> set flags)) (db_flags d)\<rparr>"

section \<open>Statements on body keys\<close>

definition st_addExtKey :: "string \<Rightarrow> nat \<Rightarrow> int \<Rightarrow> sqldb \<Rightarrow> goerr + sqldb" where
  "st_addExtKey k uid refs d =
     (if k \<in> ek_id ` set (db_extKeys d) then Inl unique_err
      else Inr (d\<lparr>db_extKeys := db_extKeys d @ [\<lparr>ek_id = k, ek_uid = uid, ek_refs = refs\<rparr>]\<rparr>))"

definition st_decreaseRefForDeleted :: "nat \<Rightarrow> nat \<Rightarrow> sqldb \<Rightarrow> sqldb" where
  "st_decreaseRefForDeleted uid i d =
     update_refs (\<lambda>k. ek_uid k = uid \<and> ek_id k \<in> ms_extBodyKey ` set (filter (\<lambda>r. in_mbox i r \<and> has_flag d deleted_flag r) (db_msgs d))) (\<lambda>n. n - 1) d"

definition st_incrementRefUid :: "nat \<Rightarrow> nat \<Rightarrow> nat \<Rightarrow> nat \<Rightarrow> sqldb \<Rightarrow> sqldb" where
  "st_incrementRefUid uid i a b d =
     update_refs (\<lambda>k. ek_uid k = uid \<and> ek_id k \<in> ms_extBodyKey ` set (filter (in_range i a b) (db_msgs d))) (\<lambda>n. n + 1) d"

definition st_zeroRef :: "nat \<Rightarrow> nat \<Rightarrow> sqldb \<Rightarrow> string list" where
  "st_zeroRef uid i d =
     map ms_extBodyKey (filter (\<lambda>r. in_mbox i r \<and> (\<exists>k\<in>set (db_extKeys d). ek_id k = ms_extBodyKey r \<and> ek_uid k = uid \<and> ek_refs k = 0)) (db_msgs d))"

definition st_zeroRefUser :: "nat \<Rightarrow> sqldb \<Rightarrow> string list" where
  "st_zeroRefUser uid d = map ek_id (filter (\<lambda>k. ek_uid k = uid \<and> ek_refs k = 0) (db_extKeys d))"

definition st_refUser :: "string \<Rightarrow> sqldb \<Rightarrow> string list" where
  "st_refUser username d = map ek_id (filter (\<lambda>k. \<exists>u\<in>set (db_users d). us_username u = username \<and> us_id u = ek_uid k) (db_extKeys d))"

definition st_deleteZeroRef :: "nat \<Rightarrow> sqldb \<Rightarrow> goerr + sqldb" where
  "st_deleteZeroRef uid = delete_extKeys (\<lambda>k. ek_uid k = uid \<and> ek_refs k = 0)"

definition st_deleteUserRef :: "string \<Rightarrow> sqldb \<Rightarrow> goerr + sqldb" where
  "st_deleteUserRef username d = delete_extKeys (\<lambda>k. \<exists>u\<in>set (db_users d). us_username u = username \<and> us_id u = ek_uid k) d"

text \<open>The mailbox is looked up by its name alone; of several rows the first one counts.\<close>

definition st_decreaseRefForMbox :: "nat \<Rightarrow> string \<Rightarrow> sqldb \<Rightarrow> sqldb" where
  "st_decreaseRefForMbox uid name d =
     (case find (\<lambda>b. mb_name b = name) (db_mboxes d) of
        None \<Rightarrow> d
      | Some b \<Rightarrow> update_refs (\<lambda>k. ek_uid k = uid \<and> ek_id k \<in> ms_extBodyKey ` set (filter (in_mbox (mb_id b)) (db_msgs d))) (\<lambda>n. n - 1) d)"

end
