(* ===== verification/Sql_Inv.thy ===== *)
theory Sql_Inv
  imports Sql_Db
begin

text \<open>
  Invariants of the mail storage, and what the statements keep of them.

  \<open>schema_ok\<close> are the constraints of the schema, \<open>uid_bound\<close> says that UIDs stay below \<open>uidnext\<close>, \<open>count_is\<close> that \<open>msgsCount\<close> counts the messages;
  inside a transaction both may be off by a pending number for each mailbox. \<open>since d0 d\<close> compares a database with an earlier one: no mailbox
  number and no UID has got a new meaning.
\<close>

section \<open>Invariants\<close>

definition schema_ok :: "sqldb \<Rightarrow> bool" where
  "schema_ok d \<longleftrightarrow>
     distinct (map us_id (db_users d)) \<and> distinct (map us_username (db_users d)) \<and> (\<forall>u\<in>set (db_users d). us_id u \<le> db_userSeq d) \<and>
     distinct (map mb_id (db_mboxes d)) \<and> distinct (map (\<lambda>b. (mb_uid b, mb_name b)) (db_mboxes d)) \<and>
     (\<forall>b\<in>set (db_mboxes d). mb_id b \<le> db_mboxSeq d \<and> mb_uid b \<in> us_id ` set (db_users d)) \<and>
     distinct (map ek_id (db_extKeys d)) \<and>
     distinct (map ms_key (db_msgs d)) \<and>
     (\<forall>r\<in>set (db_msgs d). ms_mboxId r \<in> mb_id ` set (db_mboxes d) \<and> ms_extBodyKey r \<in> ek_id ` set (db_extKeys d)) \<and>
     distinct (db_flags d) \<and> (\<forall>f\<in>set (db_flags d). fl_key f \<in> ms_key ` set (db_msgs d))"

definition uid_bound :: "(nat \<Rightarrow> nat) \<Rightarrow> sqldb \<Rightarrow> bool" where
  "uid_bound e d \<longleftrightarrow> (\<forall>r\<in>set (db_msgs d). \<forall>b\<in>set (db_mboxes d). mb_id b = ms_mboxId r \<longrightarrow> ms_msgId r < mb_uidnext b + e (mb_id b))"

definition count_is :: "(nat \<Rightarrow> int) \<Rightarrow> sqldb \<Rightarrow> bool" where
  "count_is e d \<longleftrightarrow> (\<forall>b\<in>set (db_mboxes d). int (length (filter (in_mbox (mb_id b)) (db_msgs d))) = mb_msgsCount b + e (mb_id b))"

definition ms_core :: "msg_row \<Rightarrow> int \<times> nat \<times> string \<times> string \<times> string \<times> string" where
  "ms_core r = (ms_date r, ms_bodyLen r, ms_bodyStructure r, ms_cachedHeader r, ms_extBodyKey r, ms_compressAlgo r)"

definition since :: "sqldb \<Rightarrow> sqldb \<Rightarrow> bool" where
  "since d0 d \<longleftrightarrow>
     db_mboxSeq d0 \<le> db_mboxSeq d \<and>
     (\<forall>b\<in>set (db_mboxes d). mb_id b \<le> db_mboxSeq d0 \<longrightarrow>
        (\<exists>b0\<in>set (db_mboxes d0). mb_id b0 = mb_id b \<and> mb_uidnext b0 \<le> mb_uidnext b \<and> mb_uidvalidity b0 = mb_uidvalidity b)) \<and>
     (\<forall>r\<in>set (db_msgs d). \<forall>b0\<in>set (db_mboxes d0). mb_id b0 = ms_mboxId r \<longrightarrow> ms_msgId r < mb_uidnext b0 \<longrightarrow>
        (\<exists>r0\<in>set (db_msgs d0). ms_key r0 = ms_key r \<and> ms_core r0 = ms_core r))"

definition unmarked :: "sqldb \<Rightarrow> bool" where
  "unmarked d \<longleftrightarrow> (\<forall>r\<in>set (db_msgs d). \<not> ms_mark r)"

text \<open>The invariant of the database between two transactions, except for the counters.\<close>

definition store_ok :: "sqldb \<Rightarrow> sqldb \<Rightarrow> bool" where
  "store_ok d0 d \<longleftrightarrow> schema_ok d \<and> uid_bound (\<lambda>_. 0) d \<and> since d0 d \<and> unmarked d"

lemma since_refl: "since d d"
  by (auto simp: since_def)

lemma store_ok_empty: "store_ok empty_db empty_db"
  by (simp add: store_ok_def empty_db_def schema_ok_def uid_bound_def since_def unmarked_def)

lemma find_distinct: "distinct (map f xs) \<Longrightarrow> x \<in> set xs \<Longrightarrow> find (\<lambda>y. f y = f x) xs = Some x"
  by (induction xs) (auto simp: image_iff)

lemma mbox_of_iff:
  assumes "schema_ok d"
  shows "mbox_of i d = Some b \<longleftrightarrow> b \<in> set (db_mboxes d) \<and> mb_id b = i"
  using assms find_distinct [of mb_id "db_mboxes d" b] by (auto simp: mbox_of_def find_Some_iff schema_ok_def)

section \<open>Updates of rows\<close>

declare if_image_distrib [simp del]

text \<open>The schema sees only some columns.\<close>

lemma schema_ok_cong:
  assumes u: "map (\<lambda>u. (us_id u, us_username u)) (db_users d) = map (\<lambda>u. (us_id u, us_username u)) (db_users d')" "db_userSeq d = db_userSeq d'"
    and b: "map (\<lambda>b. (mb_id b, mb_uid b, mb_name b)) (db_mboxes d) = map (\<lambda>b. (mb_id b, mb_uid b, mb_name b)) (db_mboxes d')" "db_mboxSeq d = db_mboxSeq d'"
    and k: "map ek_id (db_extKeys d) = map ek_id (db_extKeys d')"
    and m: "map (\<lambda>r. (ms_key r, ms_extBodyKey r)) (db_msgs d) = map (\<lambda>r. (ms_key r, ms_extBodyKey r)) (db_msgs d')"
    and f: "db_flags d = db_flags d'"
  shows "schema_ok d = schema_ok d'"
proof -
  note p = arg_cong [where f = "map fst"] arg_cong [where f = "map snd"] arg_cong [where f = "map (\<lambda>x. fst (snd x))"]
  have u1: "map us_id (db_users d) = map us_id (db_users d')" "map us_username (db_users d) = map us_username (db_users d')"
    using p(1,2) [OF u(1)] by (simp_all add: o_def)
  have b1: "map mb_id (db_mboxes d) = map mb_id (db_mboxes d')" "map (\<lambda>b. (mb_uid b, mb_name b)) (db_mboxes d) = map (\<lambda>b. (mb_uid b, mb_name b)) (db_mboxes d')"
    using p(1,2) [OF b(1)] by (simp_all add: o_def)
  have m1: "map ms_key (db_msgs d) = map ms_key (db_msgs d')" using p(1) [OF m] by (simp add: o_def)
  have si: "us_id ` set (db_users d) = us_id ` set (db_users d')" "mb_id ` set (db_mboxes d) = mb_id ` set (db_mboxes d')"
    "ek_id ` set (db_extKeys d) = ek_id ` set (db_extKeys d')" "ms_key ` set (db_msgs d) = ms_key ` set (db_msgs d')"
    using arg_cong [OF u1(1), of set] arg_cong [OF b1(1), of set] arg_cong [OF k, of set] arg_cong [OF m1, of set] by simp_all
  have q1: "(\<forall>u\<in>set us. us_id u \<le> n) = (\<forall>y\<in>set (map us_id us). y \<le> n)" for us n by simp
  have qu: "(\<forall>u\<in>set (db_users d). us_id u \<le> n) = (\<forall>u\<in>set (db_users d'). us_id u \<le> n)" for n by (simp only: q1 u1(1))
  have q2: "(\<forall>b\<in>set bs. mb_id b \<le> n \<and> mb_uid b \<in> A) = (\<forall>y\<in>set (map (\<lambda>b. (mb_id b, mb_uid b, mb_name b)) bs). fst y \<le> n \<and> fst (snd y) \<in> A)" for bs n A
    by simp
  have qb: "(\<forall>b\<in>set (db_mboxes d). mb_id b \<le> n \<and> mb_uid b \<in> A) = (\<forall>b\<in>set (db_mboxes d'). mb_id b \<le> n \<and> mb_uid b \<in> A)" for n A
    by (simp only: q2 b(1))
  have q3: "(\<forall>r\<in>set rs. ms_mboxId r \<in> A \<and> ms_extBodyKey r \<in> B) =
    (\<forall>y\<in>set (map (\<lambda>r. (ms_key r, ms_extBodyKey r)) rs). fst (fst y) \<in> A \<and> snd y \<in> B)" for rs A B by simp
  have qm: "(\<forall>r\<in>set (db_msgs d). ms_mboxId r \<in> A \<and> ms_extBodyKey r \<in> B) = (\<forall>r\<in>set (db_msgs d'). ms_mboxId r \<in> A \<and> ms_extBodyKey r \<in> B)" for A B
    by (simp only: q3 m)
  show ?thesis unfolding schema_ok_def u1 b1 m1 si qu qb qm k f u(2) b(2) ..
qed

text \<open>Columns of a message that are neither its key nor its core.\<close>

lemma update_msgs_inv:
  assumes keep: "\<And>r. ms_key (f r) = ms_key r" "\<And>r. ms_core (f r) = ms_core r"
  shows "schema_ok (update_msgs P f d) = schema_ok d" "uid_bound e (update_msgs P f d) = uid_bound e d"
    "count_is c (update_msgs P f d) = count_is c d" "since d0 (update_msgs P f d) = since d0 d"
proof -
  let ?u = "\<lambda>r. if P r then f r else r"
  have k: "ms_mboxId (?u r) = ms_mboxId r" "ms_msgId (?u r) = ms_msgId r" "ms_extBodyKey (?u r) = ms_extBodyKey r" "ms_core (?u r) = ms_core r" for r
    using keep [of r] by (auto simp: ms_core_def)
  show "schema_ok (update_msgs P f d) = schema_ok d" by (rule schema_ok_cong) (simp_all add: update_msgs_def k)
  show "uid_bound e (update_msgs P f d) = uid_bound e d" by (simp add: uid_bound_def update_msgs_def k)
  have "length (filter (in_mbox i) (map ?u xs)) = length (filter (in_mbox i) xs)" for i xs
    by (induction xs) (auto simp: in_mbox_def k)
  then show "count_is c (update_msgs P f d) = count_is c d" by (simp add: count_is_def update_msgs_def)
  show "since d0 (update_msgs P f d) = since d0 d" by (simp add: since_def update_msgs_def k)
qed

text \<open>Columns of a mailbox other than number, owner, name and validity; \<open>uidnext\<close> does not decrease.\<close>

lemma update_mboxes_inv:
  assumes keep: "\<And>b. mb_id (f b) = mb_id b" "\<And>b. mb_uid (f b) = mb_uid b" "\<And>b. mb_name (f b) = mb_name b" "\<And>b. mb_uidvalidity (f b) = mb_uidvalidity b"
    "\<And>b. mb_uidnext b \<le> mb_uidnext (f b)"
  shows "schema_ok (update_mboxes P f d) = schema_ok d" "since d0 d \<Longrightarrow> since d0 (update_mboxes P f d)"
    "(\<And>b. b \<in> set (db_mboxes d) \<Longrightarrow> mb_uidnext b + e (mb_id b) \<le> mb_uidnext (if P b then f b else b) + e' (mb_id b)) \<Longrightarrow> uid_bound e d \<Longrightarrow>
      uid_bound e' (update_mboxes P f d)"
    "(\<And>b. b \<in> set (db_mboxes d) \<Longrightarrow> mb_msgsCount b + c (mb_id b) = mb_msgsCount (if P b then f b else b) + c' (mb_id b)) \<Longrightarrow> count_is c d \<Longrightarrow>
      count_is c' (update_mboxes P f d)"
proof -
  let ?u = "\<lambda>b. if P b then f b else b"
  have k: "mb_id (?u b) = mb_id b" "mb_uid (?u b) = mb_uid b" "mb_name (?u b) = mb_name b" "mb_uidvalidity (?u b) = mb_uidvalidity b"
    "mb_uidnext b \<le> mb_uidnext (?u b)" for b
    using keep by auto
  show "schema_ok (update_mboxes P f d) = schema_ok d" by (rule schema_ok_cong) (simp_all add: update_mboxes_def k)
  show "since d0 (update_mboxes P f d)" if "since d0 d"
  proof -
    have "\<exists>b0\<in>set (db_mboxes d0). mb_id b0 = mb_id (?u b) \<and> mb_uidnext b0 \<le> mb_uidnext (?u b) \<and> mb_uidvalidity b0 = mb_uidvalidity (?u b)"
      if b: "b \<in> set (db_mboxes d)" "mb_id (?u b) \<le> db_mboxSeq d0" for b
    proof -
      from \<open>since d0 d\<close> b k(1) [of b] obtain b0 where "b0 \<in> set (db_mboxes d0)" "mb_id b0 = mb_id b" "mb_uidnext b0 \<le> mb_uidnext b"
        "mb_uidvalidity b0 = mb_uidvalidity b" unfolding since_def by metis
      with k [of b] show ?thesis by (metis le_trans)
    qed
    with that show ?thesis by (simp add: since_def update_mboxes_def)
  qed
  show "uid_bound e' (update_mboxes P f d)"
    if le: "\<And>b. b \<in> set (db_mboxes d) \<Longrightarrow> mb_uidnext b + e (mb_id b) \<le> mb_uidnext (?u b) + e' (mb_id b)" and ub: "uid_bound e d"
  proof -
    have "ms_msgId r < mb_uidnext (?u b) + e' (mb_id (?u b))" if "r \<in> set (db_msgs d)" "b \<in> set (db_mboxes d)" "mb_id (?u b) = ms_mboxId r" for r b
    proof -
      from ub that k(1) [of b] have "ms_msgId r < mb_uidnext b + e (mb_id b)" by (auto simp: uid_bound_def)
      with le [OF that(2)] k(1) [of b] show ?thesis by simp
    qed
    then show ?thesis by (simp add: uid_bound_def update_mboxes_def)
  qed
  show "count_is c' (update_mboxes P f d)"
    if le: "\<And>b. b \<in> set (db_mboxes d) \<Longrightarrow> mb_msgsCount b + c (mb_id b) = mb_msgsCount (?u b) + c' (mb_id b)" and ub: "count_is c d"
    using le ub k(1) by (simp add: count_is_def update_mboxes_def)
qed

lemma update_refs_inv:
  shows "schema_ok (update_refs P f d) = schema_ok d" "uid_bound e (update_refs P f d) = uid_bound e d" "count_is c (update_refs P f d) = count_is c d"
    "since d0 (update_refs P f d) = since d0 d" "unmarked (update_refs P f d) = unmarked d"
proof -
  show "schema_ok (update_refs P f d) = schema_ok d" by (rule schema_ok_cong) (simp_all add: update_refs_def)
qed (simp_all add: uid_bound_def count_is_def since_def unmarked_def update_refs_def)

section \<open>Insertions\<close>

lemma since_uidnext:
  assumes "since d0 d" "schema_ok d0" "b0 \<in> set (db_mboxes d0)" "b \<in> set (db_mboxes d)" "mb_id b0 = mb_id b"
  shows "mb_uidnext b0 \<le> mb_uidnext b"
proof -
  from assms(2,3) have "mb_id b0 \<le> db_mboxSeq d0" by (auto simp: schema_ok_def)
  with assms obtain b1 where b1: "b1 \<in> set (db_mboxes d0)" "mb_id b1 = mb_id b" "mb_uidnext b1 \<le> mb_uidnext b" unfolding since_def by metis
  have "b1 = b0" using mbox_of_iff [OF assms(2), of "mb_id b" b0] mbox_of_iff [OF assms(2), of "mb_id b" b1] assms b1 by simp
  with b1 show ?thesis by simp
qed

lemma insert_msg_inv:
  assumes "insert_msg r d = Inr d'" "schema_ok d"
  shows "d' = d\<lparr>db_msgs := db_msgs d @ [r]\<rparr>" "schema_ok d'"
    "(\<And>b. b \<in> set (db_mboxes d) \<Longrightarrow> mb_id b = ms_mboxId r \<Longrightarrow> ms_msgId r < mb_uidnext b + e (mb_id b)) \<Longrightarrow> uid_bound e d \<Longrightarrow> uid_bound e d'"
    "count_is c d \<Longrightarrow> count_is (c(ms_mboxId r := c (ms_mboxId r) + 1)) d'"
    "(\<And>b0. b0 \<in> set (db_mboxes d0) \<Longrightarrow> mb_id b0 = ms_mboxId r \<Longrightarrow> mb_uidnext b0 \<le> ms_msgId r) \<Longrightarrow> since d0 d \<Longrightarrow> since d0 d'"
    "unmarked d \<Longrightarrow> \<not> ms_mark r \<Longrightarrow> unmarked d'" "ms_mboxId r \<in> mb_id ` set (db_mboxes d)"
proof -
  show d': "d' = d\<lparr>db_msgs := db_msgs d @ [r]\<rparr>" using assms(1) by (simp add: insert_msg_def split: if_splits)
  have ok: "ms_key r \<notin> ms_key ` set (db_msgs d)" "ms_mboxId r \<in> mb_id ` set (db_mboxes d)" "ms_extBodyKey r \<in> ek_id ` set (db_extKeys d)"
    using assms(1) by (simp_all add: insert_msg_def split: if_splits)
  show "ms_mboxId r \<in> mb_id ` set (db_mboxes d)" by (rule ok)
  show "schema_ok d'" using assms(2) ok unfolding d' schema_ok_def by auto
  show "uid_bound e d'" if "\<And>b. b \<in> set (db_mboxes d) \<Longrightarrow> mb_id b = ms_mboxId r \<Longrightarrow> ms_msgId r < mb_uidnext b + e (mb_id b)" "uid_bound e d"
    using that unfolding d' uid_bound_def by auto
  show "count_is (c(ms_mboxId r := c (ms_mboxId r) + 1)) d'" if "count_is c d"
    using that unfolding d' count_is_def by (auto simp: in_mbox_def)
  show "since d0 d'" if "\<And>b0. b0 \<in> set (db_mboxes d0) \<Longrightarrow> mb_id b0 = ms_mboxId r \<Longrightarrow> mb_uidnext b0 \<le> ms_msgId r" "since d0 d"
    using that unfolding d' since_def by fastforce
  show "unmarked d'" if "unmarked d" "\<not> ms_mark r" using that unfolding d' unmarked_def by auto
qed

text \<open>Changes of the flags alone.\<close>

lemma flags_only_inv:
  assumes "d' = d\<lparr>db_flags := fs\<rparr>"
  shows "uid_bound e d' = uid_bound e d" "count_is c d' = count_is c d" "since d0 d' = since d0 d" "unmarked d' = unmarked d"
    "schema_ok d \<Longrightarrow> distinct fs \<Longrightarrow> fl_key ` set fs \<subseteq> ms_key ` set (db_msgs d) \<Longrightarrow> schema_ok d'"
  using assms by (auto simp: uid_bound_def count_is_def since_def unmarked_def schema_ok_def)

lemma schema_flags:
  assumes "schema_ok d"
  shows "distinct (db_flags d)" "fl_key ` set (db_flags d) \<subseteq> ms_key ` set (db_msgs d)"
  using assms by (auto simp: schema_ok_def)

lemma schema_flags_filter:
  assumes "schema_ok d"
  shows "schema_ok (d\<lparr>db_flags := filter P (db_flags d)\<rparr>)"
proof (rule flags_only_inv(5) [OF refl assms])
  show "fl_key ` set (filter P (db_flags d)) \<subseteq> ms_key ` set (db_msgs d)" using schema_flags(2) [OF assms] by auto
qed (use assms in \<open>simp add: schema_ok_def\<close>)

lemma insert_flag_inv:
  assumes "insert_flag f d = Inr d'" "schema_ok d"
  shows "schema_ok d'" "\<exists>fs. d' = d\<lparr>db_flags := fs\<rparr>"
proof -
  have d': "d' = d\<lparr>db_flags := db_flags d @ [f]\<rparr>" and ok: "f \<notin> set (db_flags d)" "fl_key f \<in> ms_key ` set (db_msgs d)"
    using assms(1) by (simp_all add: insert_flag_def split: if_splits)
  show "schema_ok d'" using schema_flags [OF assms(2)] ok by (intro flags_only_inv(5) [OF d' assms(2)]) auto
  show "\<exists>fs. d' = d\<lparr>db_flags := fs\<rparr>" using d' by blast
qed

lemma insert_flags_inv:
  assumes "fold_rows insert_flag fs d = Inr d'" "schema_ok d"
  shows "schema_ok d' \<and> (\<exists>gs. d' = d\<lparr>db_flags := gs\<rparr>)"
  using assms
proof (induction fs arbitrary: d)
  case Nil
  then have "d' = d\<lparr>db_flags := db_flags d\<rparr>" by simp
  with Nil show ?case by (metis fold_rows.simps(1) sum.inject(2))
next
  case (Cons f fs)
  then obtain d1 where "insert_flag f d = Inr d1" "fold_rows insert_flag fs d1 = Inr d'" by (auto simp: ebind_Inr_iff)
  with insert_flag_inv [of f d d1] Cons show ?case by fastforce
qed

lemma fold_add_new:
  "distinct fs \<Longrightarrow> distinct (fold (\<lambda>f fs. if f \<in> set fs then fs else fs @ [f]) gs fs) \<and>
    set (fold (\<lambda>f fs. if f \<in> set fs then fs else fs @ [f]) gs fs) = set fs \<union> set gs"
  by (induction gs arbitrary: fs) auto

lemma flagsAdd_schema:
  assumes "schema_ok d"
  shows "schema_ok (st_flagsAdd flags i a b d)"
proof -
  let ?new = "concat (map (\<lambda>r. map (\<lambda>f. (i, ms_msgId r, f)) flags) (filter (in_range i a b) (db_msgs d)))"
  have "fl_key ` set ?new \<subseteq> ms_key ` set (db_msgs d)" by (auto simp: in_range_def)
  with schema_flags [OF assms] fold_add_new [of "db_flags d" ?new] show ?thesis
    unfolding st_flagsAdd_def by (intro flags_only_inv(5) [OF refl assms]) (auto simp: image_Un)
qed

section \<open>Deletions\<close>

lemma delete_msgs_inv:
  shows "schema_ok d \<Longrightarrow> schema_ok (delete_msgs P d)" "uid_bound e d \<Longrightarrow> uid_bound e (delete_msgs P d)" "since d0 d \<Longrightarrow> since d0 (delete_msgs P d)"
    "unmarked d \<Longrightarrow> unmarked (delete_msgs P d)"
proof -
  show "schema_ok (delete_msgs P d)" if ok: "schema_ok d"
  proof -
    have "fl_key f \<in> ms_key ` set (filter (\<lambda>r. \<not> P r) (db_msgs d))" if "f \<in> set (db_flags d)" "fl_key f \<notin> ms_key ` set (filter P (db_msgs d))" for f
      using schema_flags(2) [OF ok] that by (auto simp: image_iff)
    then show ?thesis using ok unfolding schema_ok_def delete_msgs_def Let_def by (auto simp: distinct_map_filter)
  qed
qed (auto simp: uid_bound_def since_def unmarked_def delete_msgs_def Let_def)

lemma delete_msgs_count:
  assumes "count_is c d" "\<And>b. b \<in> set (db_mboxes d) \<Longrightarrow> int (length (filter (\<lambda>r. in_mbox (mb_id b) r \<and> P r) (db_msgs d))) = k (mb_id b)"
  shows "count_is (\<lambda>i. c i - k i) (delete_msgs P d)"
proof -
  have "int (length (filter (in_mbox i) (filter (\<lambda>r. \<not> P r) rs))) = int (length (filter (in_mbox i) rs)) - int (length (filter (\<lambda>r. in_mbox i r \<and> P r) rs))" for i rs
    by (induction rs) auto
  with assms show ?thesis by (auto simp: count_is_def delete_msgs_def Let_def)
qed

lemma filter_other_mboxes: "i \<notin> G \<Longrightarrow> filter (in_mbox i) (filter (\<lambda>r. ms_mboxId r \<notin> G) rs) = filter (in_mbox i) rs"
  by (induction rs) (auto simp: in_mbox_def)

lemma delete_mboxes_inv:
  shows "schema_ok d \<Longrightarrow> schema_ok (delete_mboxes P d)" "schema_ok d \<Longrightarrow> uid_bound e d \<Longrightarrow> uid_bound e (delete_mboxes P d)"
    "since d0 d \<Longrightarrow> since d0 (delete_mboxes P d)" "unmarked d \<Longrightarrow> unmarked (delete_mboxes P d)" "schema_ok d \<Longrightarrow> count_is c d \<Longrightarrow> count_is c (delete_mboxes P d)"
proof -
  let ?gone = "mb_id ` set (filter P (db_mboxes d))"
  let ?d = "delete_msgs (\<lambda>r. ms_mboxId r \<in> ?gone) d"
  have eq: "delete_mboxes P d = ?d\<lparr>db_mboxes := filter (\<lambda>b. \<not> P b) (db_mboxes d)\<rparr>" by (simp add: delete_mboxes_def Let_def)
  show "schema_ok (delete_mboxes P d)" if ok: "schema_ok d"
  proof -
    have "ms_mboxId r \<in> mb_id ` set (filter (\<lambda>b. \<not> P b) (db_mboxes d))" if r: "r \<in> set (db_msgs d)" "ms_mboxId r \<notin> ?gone" for r
    proof -
      from ok r obtain b where b: "b \<in> set (db_mboxes d)" "mb_id b = ms_mboxId r" by (auto simp: schema_ok_def)
      then have "P b \<Longrightarrow> ms_mboxId r \<in> ?gone" by force
      with b r(2) show ?thesis by force
    qed
    moreover have "schema_ok ?d" by (rule delete_msgs_inv(1) [OF ok])
    ultimately show ?thesis using ok unfolding eq schema_ok_def by (auto simp: delete_msgs_def Let_def distinct_map_filter)
  qed
  show "uid_bound e (delete_mboxes P d)" if "schema_ok d" "uid_bound e d"
    using that delete_msgs_inv(2) [OF that(2)] unfolding eq uid_bound_def by (auto simp: delete_msgs_def Let_def)
  show "since d0 (delete_mboxes P d)" if "since d0 d"
    using that unfolding eq since_def by (auto simp: delete_msgs_def Let_def)
  show "unmarked (delete_mboxes P d)" if "unmarked d"
    using that unfolding eq unmarked_def by (auto simp: delete_msgs_def Let_def)
  show "count_is c (delete_mboxes P d)" if ok: "schema_ok d" and c: "count_is c d"
  proof -
    have "filter (in_mbox (mb_id b)) (filter (\<lambda>r. ms_mboxId r \<notin> ?gone) (db_msgs d)) = filter (in_mbox (mb_id b)) (db_msgs d)"
      if b: "b \<in> set (db_mboxes d)" "\<not> P b" for b
    proof -
      have "mb_id b \<notin> ?gone" using ok b unfolding schema_ok_def by (auto simp: distinct_map inj_on_def)
      then show ?thesis by (rule filter_other_mboxes)
    qed
    with c show ?thesis unfolding eq count_is_def by (auto simp: delete_msgs_def Let_def)
  qed
qed

lemma delete_users_inv:
  shows "schema_ok d \<Longrightarrow> schema_ok (delete_users P d)" "schema_ok d \<Longrightarrow> uid_bound e d \<Longrightarrow> uid_bound e (delete_users P d)"
    "since d0 d \<Longrightarrow> since d0 (delete_users P d)" "unmarked d \<Longrightarrow> unmarked (delete_users P d)" "schema_ok d \<Longrightarrow> count_is c d \<Longrightarrow> count_is c (delete_users P d)"
proof -
  let ?gone = "us_id ` set (filter P (db_users d))"
  let ?d = "delete_mboxes (\<lambda>b. mb_uid b \<in> ?gone) d"
  have eq: "delete_users P d = ?d\<lparr>db_users := filter (\<lambda>u. \<not> P u) (db_users d)\<rparr>" by (simp add: delete_users_def Let_def)
  have fr: "db_users ?d = db_users d" "db_mboxes ?d = filter (\<lambda>b. mb_uid b \<notin> ?gone) (db_mboxes d)" by (simp_all add: delete_mboxes_def delete_msgs_def Let_def)
  show "schema_ok (delete_users P d)" if ok: "schema_ok d"
  proof -
    have "mb_uid b \<in> us_id ` set (filter (\<lambda>u. \<not> P u) (db_users d))" if b: "b \<in> set (db_mboxes d)" "mb_uid b \<notin> ?gone" for b
    proof -
      from ok b obtain u where u: "u \<in> set (db_users d)" "us_id u = mb_uid b" by (auto simp: schema_ok_def)
      then have "P u \<Longrightarrow> mb_uid b \<in> ?gone" by force
      with u b(2) show ?thesis by force
    qed
    moreover have "schema_ok ?d" by (rule delete_mboxes_inv(1) [OF ok])
    ultimately show ?thesis using fr unfolding eq schema_ok_def by (auto simp: distinct_map_filter)
  qed
  show "uid_bound e (delete_users P d)" if "schema_ok d" "uid_bound e d" using delete_mboxes_inv(2) [OF that] unfolding eq by (simp add: uid_bound_def)
  show "since d0 (delete_users P d)" if "since d0 d" using delete_mboxes_inv(3) [OF that] unfolding eq by (simp add: since_def)
  show "unmarked (delete_users P d)" if "unmarked d" using delete_mboxes_inv(4) [OF that] unfolding eq by (simp add: unmarked_def)
  show "count_is c (delete_users P d)" if "schema_ok d" "count_is c d" using delete_mboxes_inv(5) [OF that] unfolding eq by (simp add: count_is_def)
qed

lemma delete_extKeys_inv:
  assumes "delete_extKeys P d = Inr d'"
  shows "schema_ok d \<Longrightarrow> schema_ok d'" "uid_bound e d' = uid_bound e d" "since d0 d' = since d0 d" "unmarked d' = unmarked d" "count_is c d' = count_is c d"
proof -
  have d': "d' = d\<lparr>db_extKeys := filter (\<lambda>k. \<not> P k) (db_extKeys d)\<rparr>" and
    ok: "\<not> (\<exists>k\<in>set (db_extKeys d). P k \<and> ek_id k \<in> ms_extBodyKey ` set (db_msgs d))"
    using assms by (simp_all add: delete_extKeys_def split: if_splits)
  show "schema_ok d'" if "schema_ok d"
  proof -
    have "ms_extBodyKey r \<in> ek_id ` set (filter (\<lambda>k. \<not> P k) (db_extKeys d))" if "r \<in> set (db_msgs d)" for r
      using ok \<open>schema_ok d\<close> that unfolding schema_ok_def by (fastforce simp: image_iff)
    with that show ?thesis unfolding d' schema_ok_def by (auto simp: distinct_map_filter)
  qed
qed (use assms in \<open>auto simp: delete_extKeys_def uid_bound_def since_def unmarked_def count_is_def split: if_splits\<close>)

section \<open>Copies\<close>

lemma copies_Cons: "copies dest n (r # rs) = r\<lparr>ms_mboxId := dest, ms_msgId := n, ms_mark := False, ms_recent := False\<rparr> # copies dest (Suc n) rs"
proof -
  have "[0..<length (r # rs)] = 0 # map Suc [0..<length rs]" by (simp add: map_Suc_upt upt_conv_Cons del: upt_Suc)
  then show ?thesis by (simp add: copies_def zip_map1 o_def case_prod_beta)
qed

text \<open>Insertion of numbered copies into a mailbox, \<open>n\<close> beyond its \<open>uidnext\<close>.\<close>

lemma insert_copies_inv:
  assumes "fold_rows insert_msg (copies dest (nx + n) rs) d = Inr d'" "schema_ok d" "schema_ok d0" "since d0 d" "uid_bound (\<lambda>i. if i = dest then n else 0) d"
    "st_uidNext dest d = Some nx"
  shows "schema_ok d' \<and> since d0 d' \<and> uid_bound (\<lambda>i. if i = dest then n + length rs else 0) d' \<and> (\<exists>ns. d' = d\<lparr>db_msgs := db_msgs d @ ns\<rparr> \<and> ns = copies dest (nx + n) rs)"
  using assms
proof (induction rs arbitrary: n d)
  case Nil
  then show ?case by (auto simp: copies_def intro: exI [of _ "[]"] cong: if_cong)
next
  case (Cons r rs)
  let ?r = "r\<lparr>ms_mboxId := dest, ms_msgId := nx + n, ms_mark := False, ms_recent := False\<rparr>"
  obtain d1 where d1: "insert_msg ?r d = Inr d1" "fold_rows insert_msg (copies dest (nx + Suc n) rs) d1 = Inr d'"
    using Cons.prems(1) by (auto simp: copies_Cons ebind_Inr_iff)
  note ins = insert_msg_inv [OF d1(1) Cons.prems(2)]
  have nx: "mb_uidnext b = nx" if "b \<in> set (db_mboxes d)" "mb_id b = dest" for b
    using Cons.prems(6) mbox_of_iff [OF Cons.prems(2), of dest b] that by (auto simp: st_uidNext_def)
  have "since d0 d1"
  proof (rule ins(5) [OF _ Cons.prems(4)])
    fix b0 assume b0: "b0 \<in> set (db_mboxes d0)" "mb_id b0 = ms_mboxId ?r"
    obtain b where "b \<in> set (db_mboxes d)" "mb_id b = dest" using ins(7) by auto
    with since_uidnext [OF Cons.prems(4,3) b0(1), of b] nx b0(2) show "mb_uidnext b0 \<le> ms_msgId ?r" by simp
  qed
  moreover have "uid_bound (\<lambda>i. if i = dest then Suc n else 0) d1"
  proof (rule ins(3))
    show "uid_bound (\<lambda>i. if i = dest then Suc n else 0) d" using Cons.prems(5) by (fastforce simp: uid_bound_def)
  qed (use nx in simp)
  moreover have "st_uidNext dest d1 = Some nx" using Cons.prems(6) ins(1) by (simp add: st_uidNext_def mbox_of_def)
  ultimately have "schema_ok d' \<and> since d0 d' \<and> uid_bound (\<lambda>i. if i = dest then Suc n + length rs else 0) d' \<and>
    (\<exists>ns. d' = d1\<lparr>db_msgs := db_msgs d1 @ ns\<rparr> \<and> ns = copies dest (nx + Suc n) rs)"
    using Cons.IH [OF d1(2) ins(2) Cons.prems(3)] by blast
  then show ?case using ins(1) by (auto simp: copies_Cons cong: if_cong)
qed

lemma copies_simps [simp]: "length (copies dest n rs) = length rs" "r \<in> set (copies dest n rs) \<Longrightarrow> ms_mboxId r = dest \<and> \<not> ms_mark r \<and> n \<le> ms_msgId r \<and> ms_msgId r < n + length rs"
proof -
  show "length (copies dest n rs) = length rs" by (simp add: copies_def)
  show "r \<in> set (copies dest n rs) \<Longrightarrow> ms_mboxId r = dest \<and> \<not> ms_mark r \<and> n \<le> ms_msgId r \<and> ms_msgId r < n + length rs"
  proof (induction rs arbitrary: n)
    case Nil
    then show ?case by (simp add: copies_def)
  next
    case (Cons a rs)
    from Cons.prems show ?case using Cons.IH [of "Suc n"] by (auto simp: copies_Cons)
  qed
qed

lemma copyMsgsUid_inv:
  assumes "st_copyMsgsUid dest n src a b d = Inr (d', k)" "schema_ok d" "schema_ok d0" "since d0 d" "uid_bound (\<lambda>i. if i = dest then n else 0) d"
  shows "schema_ok d'" "since d0 d'" "uid_bound (\<lambda>i. if i = dest then n + k else 0) d'" "k = length (msgs_by (in_range src a b) d)"
    "\<exists>ns. d' = d\<lparr>db_msgs := db_msgs d @ ns\<rparr> \<and> length ns = k \<and> (\<forall>r\<in>set ns. ms_mboxId r = dest \<and> \<not> ms_mark r)"
proof -
  let ?rs = "msgs_by (in_range src a b) d"
  have "schema_ok d' \<and> since d0 d' \<and> uid_bound (\<lambda>i. if i = dest then n + k else 0) d' \<and> k = length ?rs \<and>
    (\<exists>ns. d' = d\<lparr>db_msgs := db_msgs d @ ns\<rparr> \<and> length ns = k \<and> (\<forall>r\<in>set ns. ms_mboxId r = dest \<and> \<not> ms_mark r))"
  proof (cases "st_uidNext dest d")
    case None
    then have "d' = d" "k = 0" "?rs = []" using assms(1) by (auto simp: st_copyMsgsUid_def split: if_splits)
    with assms show ?thesis by (auto intro: exI [of _ "[]"] cong: if_cong)
  next
    case (Some nx)
    then have f: "fold_rows insert_msg (copies dest (nx + n) ?rs) d = Inr d'" "k = length ?rs" using assms(1) by (auto simp: st_copyMsgsUid_def Let_def ebind_Inr_iff)
    from insert_copies_inv [OF f(1) assms(2-5) Some] f(2) show ?thesis by auto
  qed
  then show "schema_ok d'" "since d0 d'" "uid_bound (\<lambda>i. if i = dest then n + k else 0) d'" "k = length ?rs"
    "\<exists>ns. d' = d\<lparr>db_msgs := db_msgs d @ ns\<rparr> \<and> length ns = k \<and> (\<forall>r\<in>set ns. ms_mboxId r = dest \<and> \<not> ms_mark r)" by auto
qed

lemma copyMsgFlagsUid_inv:
  assumes "st_copyMsgFlagsUid dest n src a b d = Inr d'" "schema_ok d"
  shows "schema_ok d' \<and> (\<exists>fs. d' = d\<lparr>db_flags := fs\<rparr>)"
proof (cases "st_uidNext dest d")
  case None
  then have "d' = d" using assms(1) by (auto simp: st_copyMsgFlagsUid_def Let_def split: if_splits)
  then have "d' = d\<lparr>db_flags := db_flags d\<rparr>" by simp
  with assms(2) \<open>d' = d\<close> show ?thesis by metis
next
  case (Some nx)
  then show ?thesis using assms insert_flags_inv by (auto simp: st_copyMsgFlagsUid_def Let_def)
qed

section \<open>Mailboxes and users\<close>

text \<open>\<open>uidnext\<close> grows to take in the UIDs handed out before.\<close>

lemma increaseMsgCount_inv:
  shows "schema_ok (st_increaseMsgCount n k i d) = schema_ok d" "since d0 d \<Longrightarrow> since d0 (st_increaseMsgCount n k i d)"
    "uid_bound (\<lambda>j. if j = i then n else 0) d \<Longrightarrow> uid_bound (\<lambda>_. 0) (st_increaseMsgCount n k i d)"
    "count_is (\<lambda>j. (if j = i then int k else 0) + c j) d \<Longrightarrow> count_is c (st_increaseMsgCount n k i d)" "unmarked (st_increaseMsgCount n k i d) = unmarked d"
  unfolding st_increaseMsgCount_def
  by (rule update_mboxes_inv; simp)+ (auto simp: unmarked_def update_mboxes_def)

lemma decreaseMsgCount_inv:
  shows "schema_ok (st_decreaseMsgCount k i d) = schema_ok d" "since d0 d \<Longrightarrow> since d0 (st_decreaseMsgCount k i d)"
    "uid_bound e d \<Longrightarrow> uid_bound e (st_decreaseMsgCount k i d)"
    "count_is (\<lambda>j. c j - (if j = i then int k else 0)) d \<Longrightarrow> count_is c (st_decreaseMsgCount k i d)" "unmarked (st_decreaseMsgCount k i d) = unmarked d"
  unfolding st_decreaseMsgCount_def
  by (rule update_mboxes_inv; simp)+ (auto simp: unmarked_def update_mboxes_def)

lemma addExtKey_inv:
  assumes "st_addExtKey k uid refs d = Inr d'"
  shows "schema_ok d \<Longrightarrow> schema_ok d'" "uid_bound e d' = uid_bound e d" "since d0 d' = since d0 d" "unmarked d' = unmarked d" "count_is c d' = count_is c d"
proof -
  have d': "d' = d\<lparr>db_extKeys := db_extKeys d @ [\<lparr>ek_id = k, ek_uid = uid, ek_refs = refs\<rparr>]\<rparr>" and k: "k \<notin> ek_id ` set (db_extKeys d)"
    using assms by (simp_all add: st_addExtKey_def split: if_splits)
  show "schema_ok d'" if "schema_ok d" using that k unfolding d' schema_ok_def by (simp add: ball_Un)
qed (use assms in \<open>auto simp: st_addExtKey_def uid_bound_def since_def unmarked_def count_is_def split: if_splits\<close>)

lemma createMbox_inv:
  assumes "st_createMbox uid name v sp d = Inr d'" "schema_ok d"
  shows "schema_ok d'" "uid_bound e d \<Longrightarrow> uid_bound e d'" "schema_ok d0 \<Longrightarrow> since d0 d \<Longrightarrow> since d0 d'" "unmarked d' = unmarked d"
    "count_is (\<lambda>_. 0) d \<Longrightarrow> count_is (\<lambda>_. 0) d'"
proof -
  let ?b = "new_mbox (Suc (db_mboxSeq d)) uid name v sp"
  have d': "d' = d\<lparr>db_mboxes := db_mboxes d @ [?b], db_mboxSeq := Suc (db_mboxSeq d)\<rparr>" and ok: "\<not> mbox_taken uid name d" "uid \<in> us_id ` set (db_users d)"
    using assms(1) by (simp_all add: st_createMbox_def Let_def split: if_splits)
  have new: "mb_id b \<noteq> Suc (db_mboxSeq d)" if "b \<in> set (db_mboxes d)" for b using assms(2) that by (fastforce simp: schema_ok_def)
  have msgs: "ms_mboxId r \<noteq> Suc (db_mboxSeq d)" if "r \<in> set (db_msgs d)" for r using assms(2) that new by (force simp: schema_ok_def)
  have p: "mb_id ?b = Suc (db_mboxSeq d)" "mb_uid ?b = uid" "mb_name ?b = name" "mb_uidnext ?b = 1" "mb_msgsCount ?b = 0" by (simp_all add: new_mbox_def)
  show "schema_ok d'" using assms(2) ok new unfolding d' schema_ok_def by (auto simp: p mbox_taken_def image_iff le_Suc_eq)
  show "uid_bound e d'" if "uid_bound e d" using that unfolding d' uid_bound_def by (auto simp: p dest: msgs)
  show "since d0 d'" if "schema_ok d0" "since d0 d" using that unfolding d' since_def by (auto simp: p)
  show "unmarked d' = unmarked d" by (simp add: d' unmarked_def)
  have "filter (in_mbox (Suc (db_mboxSeq d))) (db_msgs d) = []" using msgs by (auto simp: filter_empty_conv in_mbox_def)
  then show "count_is (\<lambda>_. 0) d'" if "count_is (\<lambda>_. 0) d" using that unfolding d' count_is_def by (auto simp: p)
qed

lemma addUser_inv:
  assumes "st_addUser name d = Inr d'" "schema_ok d"
  shows "schema_ok d'" "uid_bound e d' = uid_bound e d" "since d0 d' = since d0 d" "unmarked d' = unmarked d" "count_is c d' = count_is c d"
proof -
  have d': "d' = d\<lparr>db_users := db_users d @ [\<lparr>us_id = Suc (db_userSeq d), us_username = name, us_msgsizelimit = None, us_inboxId = 0\<rparr>], db_userSeq := Suc (db_userSeq d)\<rparr>"
    and ok: "name \<notin> us_username ` set (db_users d)"
    using assms(1) by (simp_all add: st_addUser_def Let_def split: if_splits)
  have "us_id u \<noteq> Suc (db_userSeq d)" if "u \<in> set (db_users d)" for u using assms(2) that by (fastforce simp: schema_ok_def)
  then show "schema_ok d'" using assms(2) ok unfolding d' schema_ok_def by (auto simp: image_iff le_Suc_eq)
qed (use assms in \<open>auto simp: st_addUser_def Let_def uid_bound_def since_def unmarked_def count_is_def split: if_splits\<close>)

lemma update_users_inv:
  assumes "d' = d\<lparr>db_users := map f (db_users d)\<rparr>" "\<And>u. us_id (f u) = us_id u" "\<And>u. us_username (f u) = us_username u"
  shows "schema_ok d' = schema_ok d" "uid_bound e d' = uid_bound e d" "since d0 d' = since d0 d" "unmarked d' = unmarked d" "count_is c d' = count_is c d"
proof -
  show "schema_ok d' = schema_ok d" by (rule schema_ok_cong) (simp_all add: assms)
qed (simp_all add: assms(1) uid_bound_def since_def unmarked_def count_is_def)

text \<open>A new name keeps everything but names; \<open>b\<close> may be an older state of the row.\<close>

definition keeps_boxes :: "sqldb \<Rightarrow> sqldb \<Rightarrow> bool" where
  "keeps_boxes d d' \<longleftrightarrow> map (\<lambda>b. b\<lparr>mb_name := []\<rparr>) (db_mboxes d') = map (\<lambda>b. b\<lparr>mb_name := []\<rparr>) (db_mboxes d) \<and>
     db_users d' = db_users d \<and> db_extKeys d' = db_extKeys d \<and> db_msgs d' = db_msgs d \<and> db_flags d' = db_flags d \<and>
     db_userSeq d' = db_userSeq d \<and> db_mboxSeq d' = db_mboxSeq d"

lemma keeps_boxes_set:
  assumes "keeps_boxes d d'" "c' \<in> set (db_mboxes d')"
  shows "\<exists>c\<in>set (db_mboxes d). mb_id c' = mb_id c \<and> mb_uid c' = mb_uid c \<and> mb_uidnext c' = mb_uidnext c \<and> mb_uidvalidity c' = mb_uidvalidity c \<and>
    mb_msgsCount c' = mb_msgsCount c"
proof -
  have "c'\<lparr>mb_name := []\<rparr> \<in> set (map (\<lambda>b. b\<lparr>mb_name := []\<rparr>) (db_mboxes d'))" using assms(2) by simp
  then obtain c where "c \<in> set (db_mboxes d)" "c'\<lparr>mb_name := []\<rparr> = c\<lparr>mb_name := []\<rparr>" using assms(1) unfolding keeps_boxes_def by auto
  then show ?thesis by (intro bexI [of _ c]) (auto dest: arg_cong [where f = mb_id] arg_cong [where f = mb_uid] arg_cong [where f = mb_uidnext]
      arg_cong [where f = mb_uidvalidity] arg_cong [where f = mb_msgsCount])
qed

lemma keeps_boxes_inv:
  assumes "keeps_boxes d d'"
  shows "uid_bound e d \<Longrightarrow> uid_bound e d'" "since d0 d \<Longrightarrow> since d0 d'" "unmarked d' = unmarked d" "count_is c d \<Longrightarrow> count_is c d'"
proof -
  have m: "db_msgs d' = db_msgs d" "db_mboxSeq d' = db_mboxSeq d" using assms by (simp_all add: keeps_boxes_def)
  show "uid_bound e d'" if "uid_bound e d" using that m keeps_boxes_set [OF assms] by (fastforce simp: uid_bound_def)
  show "since d0 d'" if "since d0 d" using that m keeps_boxes_set [OF assms] unfolding since_def by metis
  show "unmarked d' = unmarked d" by (simp add: unmarked_def m)
  show "count_is c d'" if "count_is c d" using that m keeps_boxes_set [OF assms] by (fastforce simp: count_is_def)
qed

lemma set_name_inv:
  assumes "set_name name b d = Inr d'" "schema_ok d" "\<forall>c\<in>set (db_mboxes d). mb_id c = mb_id b \<longrightarrow> mb_uid c = mb_uid b"
  shows "schema_ok d' \<and> keeps_boxes d d'"
proof -
  let ?u = "\<lambda>c. if mb_id c = mb_id b then c\<lparr>mb_name := name\<rparr> else c" and ?k = "\<lambda>c. (mb_uid c, mb_name c)"
  have d': "d' = d\<lparr>db_mboxes := map ?u (db_mboxes d)\<rparr>" and
    free: "\<And>c. c \<in> set (db_mboxes d) \<Longrightarrow> mb_id c \<noteq> mb_id b \<Longrightarrow> mb_uid c = mb_uid b \<Longrightarrow> mb_name c \<noteq> name"
    using assms(1) by (auto simp: set_name_def update_mboxes_def split: if_splits)
  have ids: "distinct (map mb_id (db_mboxes d))" "distinct (map ?k (db_mboxes d))" using assms(2) by (simp_all add: schema_ok_def)
  have "inj_on (\<lambda>c. ?k (?u c)) (set (db_mboxes d))"
  proof (rule inj_onI)
    fix x y assume xy: "x \<in> set (db_mboxes d)" "y \<in> set (db_mboxes d)" "?k (?u x) = ?k (?u y)"
    show "x = y"
    proof (cases "mb_id x = mb_id b"; cases "mb_id y = mb_id b")
      assume "mb_id x = mb_id b" "mb_id y = mb_id b"
      with ids(1) xy show ?thesis by (auto simp: distinct_map inj_on_def)
    next
      assume "mb_id x \<noteq> mb_id b" "mb_id y \<noteq> mb_id b"
      with ids(2) xy show ?thesis by (auto simp: distinct_map inj_on_def)
    next
      assume i: "mb_id x = mb_id b" "mb_id y \<noteq> mb_id b"
      then have "mb_uid x = mb_uid b" using assms(3) xy(1) by blast
      with free [of y] xy i show ?thesis by simp
    next
      assume i: "mb_id x \<noteq> mb_id b" "mb_id y = mb_id b"
      then have "mb_uid y = mb_uid b" using assms(3) xy(2) by blast
      with free [of x] xy i show ?thesis by simp
    qed
  qed
  moreover have "distinct (db_mboxes d)" using ids(1) by (simp add: distinct_map)
  ultimately have k: "distinct (map ?k (map ?u (db_mboxes d)))" by (simp add: distinct_map o_def)
  have i: "map mb_id (map ?u bs) = map mb_id bs" "mb_id ` set (map ?u bs) = mb_id ` set bs" for bs
    by (simp, simp only: set_map image_image) (rule image_cong; simp)
  have ball: "\<forall>c\<in>set (map ?u (db_mboxes d)). mb_id c \<le> db_mboxSeq d \<and> mb_uid c \<in> us_id ` set (db_users d)"
    using assms(2) by (auto simp: schema_ok_def)
  have flds: "db_users d' = db_users d" "db_mboxes d' = map ?u (db_mboxes d)" "db_extKeys d' = db_extKeys d" "db_msgs d' = db_msgs d" "db_flags d' = db_flags d"
    "db_userSeq d' = db_userSeq d" "db_mboxSeq d' = db_mboxSeq d" by (simp_all add: d')
  have "schema_ok d'" using assms(2) k ball unfolding schema_ok_def flds i by (elim conjE, intro conjI) assumption+
  moreover have "keeps_boxes d d'" by (simp add: d' keeps_boxes_def)
  ultimately show ?thesis by blast
qed

lemma set_names_inv:
  assumes "fold_rows (\<lambda>b. set_name (f b) b) bs d = Inr d'" "schema_ok d" "\<forall>b\<in>set bs. \<forall>c\<in>set (db_mboxes d). mb_id c = mb_id b \<longrightarrow> mb_uid c = mb_uid b"
  shows "schema_ok d' \<and> keeps_boxes d d'"
  using assms
proof (induction bs arbitrary: d)
  case Nil
  then show ?case by (simp add: keeps_boxes_def)
next
  case (Cons b bs)
  obtain d1 where d1: "set_name (f b) b d = Inr d1" "fold_rows (\<lambda>b. set_name (f b) b) bs d1 = Inr d'"
    using Cons.prems(1) by (auto simp: ebind_Inr_iff)
  have cb: "\<forall>c\<in>set (db_mboxes d). mb_id c = mb_id b \<longrightarrow> mb_uid c = mb_uid b" by (rule bspec [OF Cons.prems(3)]) simp
  have cs: "mb_uid c = mb_uid x" if "x \<in> set bs" "c \<in> set (db_mboxes d)" "mb_id c = mb_id x" for x c
    by (rule Cons.prems(3) [rule_format]) (use that in simp_all)
  from set_name_inv [OF d1(1) Cons.prems(2) cb] have k: "schema_ok d1" "keeps_boxes d d1" by blast+
  have "\<forall>x\<in>set bs. \<forall>c\<in>set (db_mboxes d1). mb_id c = mb_id x \<longrightarrow> mb_uid c = mb_uid x"
  proof (intro ballI impI)
    fix x c assume x: "x \<in> set bs" "c \<in> set (db_mboxes d1)" "mb_id c = mb_id x"
    from keeps_boxes_set [OF k(2) x(2)] obtain c0 where "c0 \<in> set (db_mboxes d)" "mb_id c = mb_id c0" "mb_uid c = mb_uid c0" by blast
    with cs [OF x(1), of c0] x(3) show "mb_uid c = mb_uid x" by metis
  qed
  from Cons.IH [OF d1(2) k(1) this] k(2) show ?case by (simp add: keeps_boxes_def)
qed

section \<open>Invariants of the administrative statements\<close>

lemma same_owner:
  assumes "schema_ok d" "b \<in> set (db_mboxes d)" "c \<in> set (db_mboxes d)" "mb_id c = mb_id b"
  shows "mb_uid c = mb_uid b"
  using assms mbox_of_iff [OF assms(1), of "mb_id b" b] mbox_of_iff [OF assms(1), of "mb_id b" c] by simp

text \<open>What a property of the database has to satisfy to survive every statement that neither adds nor copies nor expunges a message. The operations on
  accounts, mailboxes and flags are shown to keep every such property, once.\<close>

locale store_invariant =
  fixes I :: "sqldb \<Rightarrow> bool"
  assumes createMbox: "st_createMbox uid name v sp d = Inr d' \<Longrightarrow> I d \<Longrightarrow> I d'"
    and addUser: "st_addUser name d = Inr d' \<Longrightarrow> I d \<Longrightarrow> I d'"
    and update_users: "(\<And>u. us_id (f u) = us_id u) \<Longrightarrow> (\<And>u. us_username (f u) = us_username u) \<Longrightarrow> I d \<Longrightarrow> I (d\<lparr>db_users := map f (db_users d)\<rparr>)"
    and update_refs: "I d \<Longrightarrow> I (update_refs P g d)"
    and delete_users: "I d \<Longrightarrow> I (delete_users Q d)"
    and delete_mboxes: "I d \<Longrightarrow> I (delete_mboxes R d)"
    and delete_extKeys: "delete_extKeys P d = Inr d' \<Longrightarrow> I d \<Longrightarrow> I d'"
    and renamed: "schema_ok d' \<Longrightarrow> keeps_boxes d d' \<Longrightarrow> I d \<Longrightarrow> I d'"
    and schema: "I d \<Longrightarrow> schema_ok d"
    and update_mboxes: "(\<And>b. mb_id (h b) = mb_id b \<and> mb_uid (h b) = mb_uid b \<and> mb_name (h b) = mb_name b \<and> mb_uidvalidity (h b) = mb_uidvalidity b \<and>
      mb_uidnext (h b) = mb_uidnext b \<and> mb_msgsCount (h b) = mb_msgsCount b) \<Longrightarrow> I d \<Longrightarrow> I (update_mboxes R h d)"
    and update_msgs: "(\<And>r. ms_key (k r) = ms_key r \<and> ms_core (k r) = ms_core r \<and> ms_mark (k r) = ms_mark r) \<Longrightarrow> I d \<Longrightarrow> I (update_msgs M k d)"
    and remove_flags: "I d \<Longrightarrow> I (d\<lparr>db_flags := filter F (db_flags d)\<rparr>)"
    and flagsAdd: "I d \<Longrightarrow> I (st_flagsAdd fl i a b d)"
begin

lemma renames_keep:
  assumes "fold_rows (\<lambda>b. set_name (nm b) b) (filter R (db_mboxes d)) d = Inr d'" "I d"
  shows "I d'"
proof -
  note ok = schema [OF assms(2)]
  have "\<forall>b\<in>set (filter R (db_mboxes d)). \<forall>c\<in>set (db_mboxes d). mb_id c = mb_id b \<longrightarrow> mb_uid c = mb_uid b"
    by (intro ballI impI, rule same_owner [OF ok]) simp_all
  from set_names_inv [OF assms(1) ok this] renamed assms(2) show ?thesis by blast
qed

end

text \<open>The invariant and the exact counters are two such properties. An old state \<open>d0\<close> has to satisfy the constraints of the schema, too.\<close>

definition store_kept :: "sqldb \<Rightarrow> sqldb \<Rightarrow> bool" where
  "store_kept d0 d \<longleftrightarrow> store_ok d0 d \<and> schema_ok d0"

abbreviation counts_right :: "sqldb \<Rightarrow> bool" where
  "counts_right d \<equiv> count_is (\<lambda>_. 0) d"

definition exact :: "sqldb \<Rightarrow> bool" where
  "exact d \<longleftrightarrow> schema_ok d \<and> counts_right d"

interpretation stored: store_invariant "store_kept d0" for d0
proof
  fix d and R :: "mbox_row \<Rightarrow> bool" and h :: "mbox_row \<Rightarrow> mbox_row" assume h: "\<And>b. mb_id (h b) = mb_id b \<and> mb_uid (h b) = mb_uid b \<and> mb_name (h b) = mb_name b \<and>
      mb_uidvalidity (h b) = mb_uidvalidity b \<and> mb_uidnext (h b) = mb_uidnext b \<and> mb_msgsCount (h b) = mb_msgsCount b" and d: "store_kept d0 d"
  then show "store_kept d0 (update_mboxes R h d)"
    using update_mboxes_inv(1,2,3) [of h, where d = d and P = R] unfolding store_kept_def store_ok_def by (simp add: unmarked_def update_mboxes_def)
next
  fix d and M and k :: "msg_row \<Rightarrow> msg_row" assume k: "\<And>r. ms_key (k r) = ms_key r \<and> ms_core (k r) = ms_core r \<and> ms_mark (k r) = ms_mark r" and d: "store_kept d0 d"
  have "unmarked (update_msgs M k d)" using d k by (auto simp: store_kept_def store_ok_def unmarked_def update_msgs_def)
  with d update_msgs_inv [where f = k and P = M and d = d] k show "store_kept d0 (update_msgs M k d)" by (simp add: store_kept_def store_ok_def)
next
  fix d F assume "store_kept d0 d"
  then show "store_kept d0 (d\<lparr>db_flags := filter F (db_flags d)\<rparr>)"
    using schema_flags_filter [of d F] flags_only_inv(1,3,4) [OF refl, where d = d and fs = "filter F (db_flags d)"] by (simp add: store_kept_def store_ok_def)
next
  fix d fl i a b assume "store_kept d0 d"
  then show "store_kept d0 (st_flagsAdd fl i a b d)"
    using flagsAdd_schema [of d fl i a b] flags_only_inv(1,3,4) [OF st_flagsAdd_def [of fl i a b d]] by (simp add: store_kept_def store_ok_def)
qed (auto simp: store_kept_def store_ok_def createMbox_inv addUser_inv update_users_inv [OF refl] update_refs_inv delete_users_inv delete_mboxes_inv
  delete_extKeys_inv keeps_boxes_inv)

interpretation sound: store_invariant schema_ok
  by unfold_locales (simp_all add: createMbox_inv addUser_inv update_users_inv [OF refl] update_refs_inv delete_users_inv delete_mboxes_inv
    delete_extKeys_inv update_mboxes_inv update_msgs_inv schema_flags_filter flagsAdd_schema)

interpretation counted: store_invariant exact
proof
  fix d and R :: "mbox_row \<Rightarrow> bool" and h :: "mbox_row \<Rightarrow> mbox_row" assume h: "\<And>b. mb_id (h b) = mb_id b \<and> mb_uid (h b) = mb_uid b \<and> mb_name (h b) = mb_name b \<and>
      mb_uidvalidity (h b) = mb_uidvalidity b \<and> mb_uidnext (h b) = mb_uidnext b \<and> mb_msgsCount (h b) = mb_msgsCount b" and d: "exact d"
  then show "exact (update_mboxes R h d)" using update_mboxes_inv(1,4) [of h, where d = d and P = R] unfolding exact_def by simp
next
  fix d and M and k :: "msg_row \<Rightarrow> msg_row" assume k: "\<And>r. ms_key (k r) = ms_key r \<and> ms_core (k r) = ms_core r \<and> ms_mark (k r) = ms_mark r" and d: "exact d"
  then show "exact (update_msgs M k d)" using update_msgs_inv [where f = k and P = M and d = d] by (simp add: exact_def)
next
  fix d F assume "exact d"
  then show "exact (d\<lparr>db_flags := filter F (db_flags d)\<rparr>)"
    using schema_flags_filter [of d F] flags_only_inv(2) [OF refl, where d = d and fs = "filter F (db_flags d)"] by (simp add: exact_def)
next
  fix d fl i a b assume "exact d"
  then show "exact (st_flagsAdd fl i a b d)"
    using flagsAdd_schema [of d fl i a b] flags_only_inv(2) [OF st_flagsAdd_def [of fl i a b d]] by (simp add: exact_def)
qed (auto simp: exact_def createMbox_inv addUser_inv update_users_inv [OF refl] update_refs_inv delete_users_inv delete_mboxes_inv
  delete_extKeys_inv keeps_boxes_inv)

section \<open>An example\<close>

definition demo_mbox :: "nat \<Rightarrow> nat \<Rightarrow> string \<Rightarrow> nat \<Rightarrow> int \<Rightarrow> mbox_row" where
  "demo_mbox i uid name nx n = (new_mbox i uid name 7 None)\<lparr>mb_uidnext := nx, mb_msgsCount := n\<rparr>"

definition demo_msg :: "nat \<Rightarrow> nat \<Rightarrow> string \<Rightarrow> msg_row" where
  "demo_msg i u k = \<lparr>ms_mboxId = i, ms_msgId = u, ms_date = 100, ms_bodyLen = 10, ms_mark = False, ms_bodyStructure = '''', ms_cachedHeader = '''',
     ms_extBodyKey = k, ms_seen = False, ms_compressAlgo = '''', ms_recent = False\<rparr>"

text \<open>Two accounts with one message each, both with UID 1; only the second one is flagged.\<close>

definition demo_db :: sqldb where
  "demo_db = \<lparr>db_users = [\<lparr>us_id = 1, us_username = ''a'', us_msgsizelimit = None, us_inboxId = 1\<rparr>, \<lparr>us_id = 2, us_username = ''b'', us_msgsizelimit = None, us_inboxId = 2\<rparr>],
     db_mboxes = [demo_mbox 1 1 ''INBOX'' 2 1, demo_mbox 2 2 ''INBOX'' 2 1],
     db_extKeys = [\<lparr>ek_id = ''k1'', ek_uid = 1, ek_refs = 1\<rparr>, \<lparr>ek_id = ''k2'', ek_uid = 2, ek_refs = 1\<rparr>],
     db_msgs = [demo_msg 1 1 ''k1'', demo_msg 2 1 ''k2''], db_flags = [(2, 1, seen_flag), (2, 1, deleted_flag)], db_userSeq = 2, db_mboxSeq = 2\<rparr>"

lemmas demo_simps = demo_db_def demo_mbox_def demo_msg_def new_mbox_def

lemma demo_db_ok: "schema_ok demo_db" "uid_bound (\<lambda>_. 0) demo_db" "count_is (\<lambda>_. 0) demo_db" "unmarked demo_db"
  by (simp_all add: schema_ok_def uid_bound_def count_is_def unmarked_def demo_simps in_mbox_def)

end
