(* ===== verification/Sql_Mailbox.thy ===== *)
theory Sql_Mailbox
  imports Sql_Inv
begin

text \<open>
  Model of the operations on a mailbox: \<^verbatim>\<open>internal/go-imap-sql/mailbox.go\<close> and \<^verbatim>\<open>flags.go\<close>.

  The world of an operation is the database, the store of the message bodies and the notifications sent to the connections. The engine, the store and
  the registry of connections may fail or answer in every way. The texts that the code puts around an error are left out.
\<close>

section \<open>The world\<close>

datatype store_event =
    NewMessage nat nat
  | NewMessages nat nat nat
  | Removed nat nat
  | FlagsChanged nat nat "string list" bool

record sql_world =
  w_db :: sqldb
  w_store :: "string \<rightharpoonup> string"
  w_events :: "store_event list"

text \<open>\<open>se_parse\<close> is \<open>ReadHeader\<close> and \<open>extractCachedData\<close> on a message, \<open>se_encode\<close> the compression, \<open>se_key\<close> the random key, \<open>se_recent\<close> the
  answer of the registry about \<open>\Recent\<close>, \<open>se_del\<close> the keys that the store fails to delete.\<close>

record sql_env =
  se_flt :: sql_faults
  se_like :: "string \<Rightarrow> string \<Rightarrow> bool"
  se_postgres :: bool
  se_MaxMsgBytes :: "nat option"
  se_CompressAlgo :: string
  se_key :: "nat \<Rightarrow> goerr + string"
  se_parse :: "string \<Rightarrow> goerr + string \<times> string"
  se_encode :: "string \<Rightarrow> string"
  se_recent :: "nat \<Rightarrow> nat \<Rightarrow> bool"
  se_del :: "string \<Rightarrow> bool"
  se_now :: int
  se_Uint32 :: "nat \<Rightarrow> nat"

record sql_mailbox =
  sm_user :: nat
  sm_username :: string
  sm_inbox :: nat
  sm_name :: string
  sm_id :: nat

abbreviation exec :: "sql_env \<Rightarrow> string \<Rightarrow> nat \<Rightarrow> (goerr + 'a) \<Rightarrow> goerr + 'a" where
  "exec env \<equiv> run (se_flt env)"

definition ErrNoRows :: goerr where
  "ErrNoRows = Opaque ''sql: no rows in result set'' None"

definition ErrNoSuchMailbox :: goerr where
  "ErrNoSuchMailbox = Opaque ''No such mailbox'' None"

definition ErrTooBig :: goerr where
  "ErrTooBig = Opaque ''Message size exceeding limit'' None"

text \<open>\<open>Scan\<close> of a number into a variable of type \<open>uint32\<close>, and the conversion to it.\<close>

definition scan_u32 :: "nat \<Rightarrow> goerr + nat" where
  "scan_u32 n = (if n < 2 ^ 32 then Inr n else Inl (Opaque ''value out of range'' None))"

definition u32 :: "nat \<Rightarrow> nat" where
  "u32 n = n mod 2 ^ 32"

section \<open>The store of bodies\<close>

fun ext_Delete :: "sql_env \<Rightarrow> string list \<Rightarrow> (string \<rightharpoonup> string) \<Rightarrow> (string \<rightharpoonup> string) \<times> goerr option" where
  "ext_Delete env [] st = (st, None)"
| "ext_Delete env (k # ks) st =
     (if st k = None then ext_Delete env ks st
      else if se_del env k then (st, Some (Opaque (''external: '' @ k) None))
      else ext_Delete env ks (st(k := None)))"

definition processBody ::
    "sql_env \<Rightarrow> nat \<Rightarrow> string \<Rightarrow> (string \<rightharpoonup> string) \<Rightarrow> (string \<rightharpoonup> string) \<times> (goerr + string \<times> string \<times> string)" where
  "processBody env i literal st =
     (case se_key env i of
        Inl e \<Rightarrow> (st, Inl e)
      | Inr k \<Rightarrow>
          (case exec env ''Create'' i (Inr ()) of
             Inl e \<Rightarrow> (st, Inl e)
           | Inr _ \<Rightarrow>
               let st = st(k \<mapsto> '''') in
               case exec env ''WrapCompress'' i (Inr ()) of
                 Inl e \<Rightarrow> (st, Inl e)
               | Inr _ \<Rightarrow>
                   (case ebind (exec env ''ReadBody'' i (Inr ())) (\<lambda>_. se_parse env literal) of
                      Inl e \<Rightarrow> (fst (ext_Delete env [k] st), Inl e)
                    | Inr (bodyStruct, cachedHeader) \<Rightarrow>
                        let st = st(k \<mapsto> se_encode env literal) in
                        case exec env ''Sync'' i (Inr ()) of
                          Inl e \<Rightarrow> (st, Inl e)
                        | Inr _ \<Rightarrow> (st, Inr (bodyStruct, cachedHeader, k)))))"

section \<open>New messages\<close>

definition incrementMsgCounters :: "sql_env \<Rightarrow> nat \<Rightarrow> nat \<Rightarrow> sqldb \<Rightarrow> goerr + sqldb \<times> nat" where
  "incrementMsgCounters env i mid d =
     (if se_postgres env then
        exec env ''increaseMsgCount'' i
          (case st_uidNext mid d of
             None \<Rightarrow> Inl ErrNoRows
           | Some n \<Rightarrow> ebind (scan_u32 n) (\<lambda>n. Inr (st_increaseMsgCount 1 1 mid d, n)))
      else
        ebind (exec env ''uidNextLocked'' i (case st_uidNext mid d of None \<Rightarrow> Inl ErrNoRows | Some n \<Rightarrow> Inr n)) (\<lambda>n.
          ebind (exec env ''increaseMsgCount'' i (Inr (st_increaseMsgCount 1 1 mid d))) (\<lambda>d. Inr (d, u32 n))))"

definition createMessageLimit :: "sql_env \<Rightarrow> nat \<Rightarrow> sqldb \<Rightarrow> nat option" where
  "createMessageLimit env mid d =
     (case exec env ''mboxMsgSizeLimit'' 0 (case st_mboxMsgSizeLimit mid d of None \<Rightarrow> Inl ErrNoRows | Some l \<Rightarrow> Inr l) of
        Inl _ \<Rightarrow> Some 0
      | Inr None \<Rightarrow> None
      | Inr (Some v) \<Rightarrow> Some (u32 v))"

definition user_CreateMessageLimit :: "sql_env \<Rightarrow> nat \<Rightarrow> sqldb \<Rightarrow> nat option" where
  "user_CreateMessageLimit env uid d =
     (case exec env ''userMsgSizeLimit'' 0 (case st_userMsgSizeLimit uid d of None \<Rightarrow> Inl ErrNoRows | Some l \<Rightarrow> Inr l) of
        Inl _ \<Rightarrow> Some 0
      | Inr None \<Rightarrow> None
      | Inr (Some v) \<Rightarrow> Some (u32 v))"

definition checkAppendLimit :: "sql_env \<Rightarrow> sql_mailbox \<Rightarrow> nat \<Rightarrow> sqldb \<Rightarrow> goerr option" where
  "checkAppendLimit env m len d =
     (case createMessageLimit env (sm_id m) d of
        Some l \<Rightarrow> if u32 len > l then Some ErrTooBig else None
      | None \<Rightarrow>
          (case user_CreateMessageLimit env (sm_user m) d of
             Some l \<Rightarrow> if u32 len > l then Some ErrTooBig else None
           | None \<Rightarrow> (case se_MaxMsgBytes env of Some l \<Rightarrow> if u32 len > l then Some ErrTooBig else None | None \<Rightarrow> None)))"

text \<open>The statements after the body is stored: the key, the row and the flags. The registry is told between them.\<close>

definition add_message ::
    "sql_env \<Rightarrow> nat \<Rightarrow> nat \<Rightarrow> nat \<Rightarrow> nat \<Rightarrow> int \<Rightarrow> nat \<Rightarrow> string \<times> string \<times> string \<Rightarrow> bool \<Rightarrow> bool \<Rightarrow> string list \<Rightarrow> sqldb \<Rightarrow> goerr + sqldb" where
  "add_message env i uid mid msgId date len body seen recent flags d =
     (case body of (bodyStruct, cachedHdr, k) \<Rightarrow>
        ebind (exec env ''addMsg'' i
            (insert_msg \<lparr>ms_mboxId = mid, ms_msgId = msgId, ms_date = date, ms_bodyLen = len, ms_mark = False, ms_bodyStructure = bodyStruct,
               ms_cachedHeader = cachedHdr, ms_extBodyKey = k, ms_seen = seen, ms_compressAlgo = se_CompressAlgo env, ms_recent = recent\<rparr> d)) (\<lambda>d.
          if flags = [] then Inr d else exec env ''flagsAdd'' i (Inr (st_flagsAdd flags mid msgId msgId d))))"

definition CreateMessage :: "sql_env \<Rightarrow> sql_mailbox \<Rightarrow> string list \<Rightarrow> int option \<Rightarrow> string \<Rightarrow> sql_world \<Rightarrow> sql_world \<times> goerr option" where
  "CreateMessage env m flags date fullBody w =
     (case checkAppendLimit env m (length fullBody) (w_db w) of
        Some e \<Rightarrow> (w, Some e)
      | None \<Rightarrow>
          let date = (case date of None \<Rightarrow> se_now env | Some t \<Rightarrow> t);
              haveSeen = (seen_flag \<in> set flags);
              flags = filter (\<lambda>f. f \<noteq> recent_flag) flags
          in
          case ebind (if flags = [] then Inr () else exec env ''getFlagsAddStmt'' 0 (Inr ())) (\<lambda>_.
               ebind (exec env ''Begin'' 0 (Inr ())) (\<lambda>_. incrementMsgCounters env 0 (sm_id m) (w_db w))) of
            Inl e \<Rightarrow> (w, Some e)
          | Inr (d, msgId) \<Rightarrow>
              (case processBody env 0 fullBody (w_store w) of
                 (st, Inl e) \<Rightarrow> (w\<lparr>w_store := st\<rparr>, Some e)
               | (st, Inr (bodyStruct, cachedHdr, k)) \<Rightarrow>
                   (case exec env ''addExtKey'' 0 (st_addExtKey k (sm_user m) 1 d) of
                      Inl e \<Rightarrow> (w\<lparr>w_store := fst (ext_Delete env [k] st)\<rparr>, Some e)
                    | Inr d \<Rightarrow>
                        let w = w\<lparr>w_events := w_events w @ [NewMessage (sm_id m) msgId]\<rparr> in
                        case ebind (add_message env 0 (sm_user m) (sm_id m) msgId date (length fullBody) (bodyStruct, cachedHdr, k) haveSeen
                               (se_recent env (sm_id m) msgId) flags d) (\<lambda>d. exec env ''Commit'' 0 (Inr d)) of
                          Inl e \<Rightarrow> (w\<lparr>w_store := fst (ext_Delete env [k] st)\<rparr>, Some e)
                        | Inr d \<Rightarrow> (w\<lparr>w_db := d, w_store := st\<rparr>, None))))"

section \<open>Moving and copying\<close>

type_synonym ranges = "(nat \<times> nat) list"

definition mark_all :: "sql_env \<Rightarrow> nat \<Rightarrow> ranges \<Rightarrow> sqldb \<Rightarrow> goerr + sqldb" where
  "mark_all env mid rs d = fold_rows (\<lambda>(a, b) d. exec env ''markUid'' a (Inr (st_markUid mid a b d))) rs d"

text \<open>The loops over the ranges: they copy messages and flags; only \<open>copyMessages\<close> counts references.\<close>

fun copy_ranges :: "sql_env \<Rightarrow> bool \<Rightarrow> nat \<Rightarrow> nat \<Rightarrow> nat \<Rightarrow> ranges \<Rightarrow> nat \<Rightarrow> sqldb \<Rightarrow> goerr + sqldb \<times> nat" where
  "copy_ranges env refs uid src dest [] copied d = Inr (d, copied)"
| "copy_ranges env refs uid src dest ((a, b) # rs) copied d =
     ebind (exec env ''copyMsgsUid'' a (st_copyMsgsUid dest copied src a b d)) (\<lambda>(d, affected).
       ebind (exec env ''copyMsgFlagsUid'' a (st_copyMsgFlagsUid dest copied src a b d)) (\<lambda>d.
         ebind (exec env ''RowsAffected'' a (Inr ())) (\<lambda>_.
           ebind (if refs then exec env ''incrementRefUid'' a (Inr (st_incrementRefUid uid src a b d)) else Inr d) (\<lambda>d.
             copy_ranges env refs uid src dest rs (u32 (copied + u32 affected)) d))))"

definition MoveMessages_tx :: "sql_env \<Rightarrow> sql_mailbox \<Rightarrow> (goerr + ranges) \<Rightarrow> string \<Rightarrow> sqldb \<Rightarrow> goerr + sqldb \<times> store_event list" where
  "MoveMessages_tx env m seqset dest d =
     ebind (exec env ''Begin'' 0 (Inr ())) (\<lambda>_.
     ebind seqset (\<lambda>seqset.
     ebind (mark_all env (sm_id m) seqset d) (\<lambda>d.
     ebind (exec env ''mboxId'' 0 (case st_mboxId (sm_user m) dest d of None \<Rightarrow> Inl ErrNoSuchMailbox | Some i \<Rightarrow> Inr i)) (\<lambda>destID.
     ebind (copy_ranges env False (sm_user m) (sm_id m) destID seqset 0 d) (\<lambda>(d, copiedCount).
     ebind (exec env ''markedUids'' 0 (Inr (map fst (st_markedUids (sm_id m) d)))) (\<lambda>expunged.
     ebind (exec env ''delMarked'' 0 (Inr (st_delMarked d))) (\<lambda>d.
     ebind (exec env ''decreaseMsgCount'' 0 (Inr (st_decreaseMsgCount copiedCount (sm_id m) d))) (\<lambda>d.
     ebind (exec env ''uidNext'' 0 (case st_uidNext destID d of None \<Rightarrow> Inl ErrNoRows | Some n \<Rightarrow> scan_u32 n)) (\<lambda>oldUidNext.
     ebind (exec env ''increaseMsgCount'' 0 (Inr (st_increaseMsgCount copiedCount copiedCount destID d))) (\<lambda>d.
     ebind (exec env ''Commit'' 0 (Inr d)) (\<lambda>d.
       Inr (d, map (Removed (sm_id m)) expunged @ [NewMessages destID oldUidNext (u32 (oldUidNext + copiedCount + (2 ^ 32 - 1)))]))))))))))))"

definition MoveMessages :: "sql_env \<Rightarrow> sql_mailbox \<Rightarrow> (goerr + ranges) \<Rightarrow> string \<Rightarrow> sql_world \<Rightarrow> sql_world \<times> goerr option" where
  "MoveMessages env m seqset dest w =
     (case MoveMessages_tx env m seqset dest (w_db w) of
        Inl e \<Rightarrow> (w, Some e)
      | Inr (d, evs) \<Rightarrow> (w\<lparr>w_db := d, w_events := w_events w @ evs\<rparr>, None))"

text \<open>\<open>copyMessages\<close>. A failed lookup of the destination other than an absent one is not noticed, and leaves its number 0.\<close>

definition copyMessages :: "sql_env \<Rightarrow> sql_mailbox \<Rightarrow> ranges \<Rightarrow> string \<Rightarrow> sqldb \<Rightarrow> goerr + sqldb \<times> nat \<times> nat \<times> nat" where
  "copyMessages env m seqset dest d =
     ebind (case exec env ''mboxId'' 0 (Inr (st_mboxId (sm_user m) dest d)) of
              Inr None \<Rightarrow> Inl ErrNoSuchMailbox
            | Inr (Some i) \<Rightarrow> Inr i
            | Inl _ \<Rightarrow> Inr 0) (\<lambda>destID.
     ebind (copy_ranges env True (sm_user m) (sm_id m) destID seqset 0 d) (\<lambda>(d, totalCopied).
     ebind (exec env ''uidNext'' 0 (case st_uidNext destID d of None \<Rightarrow> Inl ErrNoRows | Some n \<Rightarrow> scan_u32 n)) (\<lambda>oldUidNext.
     ebind (exec env ''increaseMsgCount'' 0 (Inr (st_increaseMsgCount totalCopied totalCopied destID d))) (\<lambda>d.
       Inr (d, oldUidNext, u32 (oldUidNext + totalCopied + (2 ^ 32 - 1)), destID)))))"

definition CopyMessages :: "sql_env \<Rightarrow> sql_mailbox \<Rightarrow> bool \<Rightarrow> (goerr + ranges) \<Rightarrow> string \<Rightarrow> sql_world \<Rightarrow> sql_world \<times> goerr option" where
  "CopyMessages env m uid seqset dest w =
     (case exec env ''Begin'' 0 (Inr ()) of
        Inl e \<Rightarrow> (w, Some e)
      | Inr _ \<Rightarrow>
          (case seqset of
             Inl e \<Rightarrow> (w, if uid then None else Some e)
           | Inr seqset \<Rightarrow>
               (case copyMessages env m seqset dest (w_db w) of
                  Inl e \<Rightarrow> (w, Some e)
                | Inr (d, firstCopy, lastCopy, destID) \<Rightarrow>
                    let w = w\<lparr>w_events := w_events w @ [NewMessages destID firstCopy lastCopy]\<rparr>;
                        persistRecent = se_recent env destID firstCopy
                    in
                    case ebind (if persistRecent then exec env ''addRecentToLast'' 0
                                   (Inr (st_addRecentToLast destID (u32 (lastCopy + (2 ^ 32 + 1) - firstCopy)) d)) else Inr d) (\<lambda>d.
                         exec env ''Commit'' 0 (Inr d)) of
                      Inl e \<Rightarrow> (w, Some e)
                    | Inr d \<Rightarrow> (w\<lparr>w_db := d\<rparr>, None))))"

section \<open>Removing\<close>

text \<open>The bodies of the marked messages are deleted from the store while the transaction is open.\<close>

definition delMessages ::
    "sql_env \<Rightarrow> sql_mailbox \<Rightarrow> ranges \<Rightarrow> sqldb \<times> (string \<rightharpoonup> string) \<Rightarrow> (string \<rightharpoonup> string) \<times> (goerr + sqldb \<times> nat list)" where
  "delMessages env m seqset st =
     (case st of (d, store) \<Rightarrow>
        (case ebind (mark_all env (sm_id m) seqset d) (\<lambda>d. exec env ''markedUids'' 0 (Inr (d, st_markedUids (sm_id m) d))) of
           Inl e \<Rightarrow> (store, Inl e)
         | Inr (d, marked) \<Rightarrow>
             (case ext_Delete env (map snd marked) store of
                (store, Some e) \<Rightarrow> (store, Inl e)
              | (store, None) \<Rightarrow>
                  (store,
                   ebind (exec env ''delMarked'' 0 (Inr (st_delMarked d))) (\<lambda>d.
                   ebind (exec env ''decreaseMsgCount'' 0 (Inr (st_decreaseMsgCount (u32 (length marked)) (sm_id m) d))) (\<lambda>d.
                     Inr (d, map fst marked)))))))"

definition DelMessages :: "sql_env \<Rightarrow> sql_mailbox \<Rightarrow> (goerr + ranges) \<Rightarrow> sql_world \<Rightarrow> sql_world \<times> goerr option" where
  "DelMessages env m seqset w =
     (case ebind (exec env ''Begin'' 0 (Inr ())) (\<lambda>_. seqset) of
        Inl e \<Rightarrow> (w, Some e)
      | Inr seqset \<Rightarrow>
          (case delMessages env m seqset (w_db w, w_store w) of
             (store, r) \<Rightarrow>
               (case ebind r (\<lambda>(d, deleted). exec env ''Commit'' 0 (Inr (d, deleted))) of
                  Inl e \<Rightarrow> (w\<lparr>w_store := store\<rparr>, Some e)
                | Inr (d, deleted) \<Rightarrow> (w\<lparr>w_db := d, w_store := store, w_events := w_events w @ map (Removed (sm_id m)) deleted\<rparr>, None))))"

definition expungeExternal :: "sql_env \<Rightarrow> sql_mailbox \<Rightarrow> sqldb \<Rightarrow> goerr + sqldb \<times> string list" where
  "expungeExternal env m d =
     ebind (exec env ''decreaseRefForDeleted'' 0 (Inr (st_decreaseRefForDeleted (sm_user m) (sm_id m) d))) (\<lambda>d.
       exec env ''zeroRef'' 0 (Inr (d, st_zeroRef (sm_user m) (sm_id m) d)))"

definition Expunge_tx :: "sql_env \<Rightarrow> sql_mailbox \<Rightarrow> sqldb \<Rightarrow> goerr + sqldb \<times> nat list \<times> string list" where
  "Expunge_tx env m d =
     ebind (exec env ''Begin'' 0 (Inr ())) (\<lambda>_.
     ebind (exec env ''deletedUids'' 0 (Inr (st_deletedUids (sm_id m) d))) (\<lambda>uids.
     ebind (expungeExternal env m d) (\<lambda>(d, keys).
     ebind (exec env ''expungeMbox'' 0 (Inr (st_expungeMbox (sm_id m) d))) (\<lambda>d.
     ebind (exec env ''decreaseMsgCount'' 0 (Inr (st_decreaseMsgCount (u32 (length uids)) (sm_id m) d))) (\<lambda>d.
     ebind (exec env ''deleteZeroRef'' 0 (st_deleteZeroRef (sm_user m) d)) (\<lambda>d.
     ebind (exec env ''Commit'' 0 (Inr d)) (\<lambda>d. Inr (d, uids, keys))))))))"

definition Expunge :: "sql_env \<Rightarrow> sql_mailbox \<Rightarrow> sql_world \<Rightarrow> sql_world \<times> goerr option" where
  "Expunge env m w =
     (case Expunge_tx env m (w_db w) of
        Inl e \<Rightarrow> (w, Some e)
      | Inr (d, uids, keys) \<Rightarrow>
          (case ext_Delete env keys (w_store w) of
             (store, Some e) \<Rightarrow> (w\<lparr>w_db := d, w_store := store\<rparr>, Some e)
           | (store, None) \<Rightarrow> (w\<lparr>w_db := d, w_store := store, w_events := w_events w @ map (Removed (sm_id m)) uids\<rparr>, None)))"

section \<open>Flags\<close>

datatype flags_op = SetFlags | AddFlags | RemoveFlags

definition update_range :: "sql_env \<Rightarrow> nat \<Rightarrow> flags_op \<Rightarrow> bool \<Rightarrow> string list \<Rightarrow> nat \<times> nat \<Rightarrow> sqldb \<Rightarrow> goerr + sqldb" where
  "update_range env mid op seenModified flags rg d =
     (case rg of (a, b) \<Rightarrow>
        ebind (if op = SetFlags then exec env ''massClearFlagsUid'' a (Inr (st_massClearFlagsUid mid a b d)) else Inr d) (\<lambda>d.
        ebind (if seenModified then exec env ''setSeenFlagUid'' a (Inr (st_setSeenFlagUid (op \<noteq> RemoveFlags) mid a b d)) else Inr d) (\<lambda>d.
          if flags = [] then Inr d
          else if op = RemoveFlags then exec env ''flagsRem'' a (Inr (st_flagsRem flags mid a b d))
          else exec env ''flagsAdd'' a (Inr (st_flagsAdd flags mid a b d)))))"

text \<open>The flags of a message come as one text, split at \<open>{\<close>; no flags come as one empty flag.\<close>

definition flag_text :: "string list \<Rightarrow> string" where
  "flag_text fs = (case fs of [] \<Rightarrow> '''' | f # fs \<Rightarrow> f @ concat (map (\<lambda>g. CHR 0x7B # g) fs))"

definition flagUpdates :: "sql_env \<Rightarrow> nat \<Rightarrow> ranges \<Rightarrow> sqldb \<Rightarrow> goerr + (nat \<times> string list) list" where
  "flagUpdates env mid seqset d =
     fold_rows (\<lambda>(a, b) acc. exec env ''msgFlagsUid'' a (Inr (acc @ map (\<lambda>(u, fs). (u, SplitByte (flag_text fs) (CHR 0x7B))) (st_msgFlagsUid mid a b d)))) seqset []"

definition UpdateMessagesFlags_tx ::
    "sql_env \<Rightarrow> sql_mailbox \<Rightarrow> (goerr + ranges) \<Rightarrow> flags_op \<Rightarrow> string list \<Rightarrow> sqldb \<Rightarrow> goerr + sqldb \<times> (nat \<times> string list) list" where
  "UpdateMessagesFlags_tx env m seqset op flags d =
     (let seenModified = (seen_flag \<in> set flags); flags = filter (\<lambda>f. f \<noteq> recent_flag) flags in
      ebind (if flags = [] then Inr () else exec env ''getFlagsStmt'' 0 (Inr ())) (\<lambda>_.
      ebind (exec env ''Begin'' 0 (Inr ())) (\<lambda>_.
      ebind seqset (\<lambda>seqset.
      ebind (fold_rows (update_range env (sm_id m) op seenModified flags) seqset d) (\<lambda>d.
      ebind (flagUpdates env (sm_id m) seqset d) (\<lambda>upds.
      ebind (exec env ''Commit'' 0 (Inr d)) (\<lambda>d. Inr (d, upds))))))))"

definition UpdateMessagesFlags ::
    "sql_env \<Rightarrow> sql_mailbox \<Rightarrow> (goerr + ranges) \<Rightarrow> flags_op \<Rightarrow> bool \<Rightarrow> string list \<Rightarrow> sql_world \<Rightarrow> sql_world \<times> goerr option" where
  "UpdateMessagesFlags env m seqset op silent flags w =
     (case UpdateMessagesFlags_tx env m seqset op flags (w_db w) of
        Inl e \<Rightarrow> (w, Some e)
      | Inr (d, upds) \<Rightarrow> (w\<lparr>w_db := d, w_events := w_events w @ map (\<lambda>(u, fs). FlagsChanged (sm_id m) u fs silent) upds\<rparr>, None))"

section \<open>Opening\<close>

record mbox_status =
  st_Flags :: "string list"
  st_PermanentFlags :: "string list"
  st_Messages :: nat
  st_Recent :: nat
  st_Unseen :: "nat option"
  st_UnseenSeqNum :: nat
  st_UidNext :: nat
  st_UidValidity :: nat

definition readUids :: "sql_env \<Rightarrow> nat \<Rightarrow> sqldb \<Rightarrow> goerr + nat list \<times> nat list" where
  "readUids env mid d =
     ebind (exec env ''listMsgUidsRecent'' 0 (Inr (st_listMsgUidsRecent mid d))) (\<lambda>rows. Inr (map fst rows, map fst (filter snd rows)))"

abbreviation standardFlags :: "string list" where
  "standardFlags \<equiv> [seen_flag, CHR 0x5C # ''Answered'', CHR 0x5C # ''Flagged'', deleted_flag, CHR 0x5C # ''Draft'']"

definition unseen_pos :: "nat option \<Rightarrow> nat list \<Rightarrow> nat" where
  "unseen_pos unseenUid uids =
     (case find (\<lambda>i. uids ! i = (case unseenUid of None \<Rightarrow> 0 | Some u \<Rightarrow> u)) (rev [0..<length uids]) of None \<Rightarrow> 0 | Some i \<Rightarrow> Suc i)"

text \<open>\<open>initSelected\<close>: a failed \<open>clearRecent\<close> or commit is only logged. The count of unseen messages that a client is not told is \<^term>\<open>None\<close>.\<close>

definition initSelected :: "sql_env \<Rightarrow> bool \<Rightarrow> nat \<Rightarrow> bool \<Rightarrow> sqldb \<Rightarrow> goerr + sqldb \<times> nat list \<times> nat list \<times> mbox_status" where
  "initSelected env DisableRecent mid unsetRecent d =
     (let unsetRecent = (unsetRecent \<and> \<not> DisableRecent); d0 = d in
      ebind (exec env ''Begin'' 0 (Inr ())) (\<lambda>_.
      ebind (exec env ''usedFlags'' 0 (Inr (filter (\<lambda>f. f \<notin> set standardFlags) (st_usedFlags mid d)))) (\<lambda>used.
      ebind (exec env ''firstUnseenUid'' 0 (Inr (st_firstUnseenUid mid d))) (\<lambda>unseenUid.
      ebind (exec env ''unseenCount'' 0 (Inr (st_unseenCount mid d))) (\<lambda>unseen.
      ebind (readUids env mid d) (\<lambda>(uids, recent).
        let d = (if unsetRecent \<and> \<not> se_flt env ''clearRecent'' 0 then st_clearRecent mid d else d) in
        ebind (exec env ''uidNext'' 0 (case st_uidNext mid d of None \<Rightarrow> Inr 1 | Some n \<Rightarrow> scan_u32 n)) (\<lambda>uidNext.
        ebind (exec env ''uidValidity'' 0 (case st_uidValidity mid d of None \<Rightarrow> Inl ErrNoRows | Some n \<Rightarrow> scan_u32 n)) (\<lambda>uidValidity.
          Inr (if unsetRecent \<and> \<not> se_flt env ''Commit'' 0 then d else d0, uids, recent,
            \<lparr>st_Flags = standardFlags @ used, st_PermanentFlags = standardFlags @ [CHR 0x5C # ''*''] @ used, st_Messages = u32 (length uids),
              st_Recent = length recent, st_Unseen = (if unseen = 0 then None else Some unseen),
              st_UnseenSeqNum = unseen_pos unseenUid uids,
              st_UidNext = uidNext, st_UidValidity = uidValidity\<rparr>)))))))))"

section \<open>Lemmas\<close>

text \<open>The sizes below which the counters of type \<open>uint32\<close> do not wrap around.\<close>

definition small :: "sqldb \<Rightarrow> bool" where
  "small d \<longleftrightarrow> length (db_msgs d) < 2 ^ 32 \<and> (\<forall>b\<in>set (db_mboxes d). mb_uidnext b \<le> 2 ^ 32)"

lemma update_msgs_twice:
  assumes "\<And>r. f (f r) = f r" "\<And>r. Q (f r) = Q r"
  shows "update_msgs Q f (update_msgs P f d) = update_msgs (\<lambda>r. P r \<or> Q r) f d"
  using assms by (simp add: update_msgs_def)

lemma mark_all_eq:
  assumes "mark_all env i rs d = Inr d'"
  shows "d' = update_msgs (\<lambda>r. \<exists>(a, b)\<in>set rs. in_range i a b r) (\<lambda>r. r\<lparr>ms_mark := True\<rparr>) d"
  using assms
proof (induction rs arbitrary: d)
  case Nil
  then show ?case by (simp add: mark_all_def update_msgs_def)
next
  case (Cons x rs)
  obtain a b where x: "x = (a, b)" by fastforce
  have "mark_all env i rs (st_markUid i a b d) = Inr d'"
    using Cons.prems x by (auto simp: mark_all_def ebind_Inr_iff dest!: run_InrD)
  note Cons.IH [OF this, unfolded st_markUid_def]
  also have "update_msgs (\<lambda>r. \<exists>(a, b)\<in>set rs. in_range i a b r) (\<lambda>r. r\<lparr>ms_mark := True\<rparr>) (update_msgs (in_range i a b) (\<lambda>r. r\<lparr>ms_mark := True\<rparr>) d) =
    update_msgs (\<lambda>r. in_range i a b r \<or> (\<exists>(a, b)\<in>set rs. in_range i a b r)) (\<lambda>r. r\<lparr>ms_mark := True\<rparr>) d"
    by (rule update_msgs_twice) (simp_all add: in_range_def)
  also have "(\<lambda>r. in_range i a b r \<or> (\<exists>(a, b)\<in>set rs. in_range i a b r)) = (\<lambda>r. \<exists>(a, b)\<in>set (x # rs). in_range i a b r)" by (simp add: x)
  finally show ?case .
qed

lemmas marked_inv = update_msgs_inv [where f = "\<lambda>r. r\<lparr>ms_mark := True\<rparr>", simplified ms_core_def, simplified]

lemma mark_all_inv:
  assumes "mark_all env i rs d = Inr d'"
  shows "schema_ok d' = schema_ok d" "uid_bound e d' = uid_bound e d" "count_is c d' = count_is c d" "since d0 d' = since d0 d" "db_mboxes d' = db_mboxes d"
    "length (db_msgs d') = length (db_msgs d)"
  unfolding mark_all_eq [OF assms] by (rule marked_inv | simp add: update_msgs_def)+

lemma fold_insert_msg_eq: "fold_rows insert_msg rs d = Inr d' \<Longrightarrow> d' = d\<lparr>db_msgs := db_msgs d @ rs\<rparr>"
proof (induction rs arbitrary: d)
  case (Cons r rs)
  then obtain d1 where d1: "insert_msg r d = Inr d1" "fold_rows insert_msg rs d1 = Inr d'" by (auto simp: ebind_Inr_iff)
  from d1(1) have "d1 = d\<lparr>db_msgs := db_msgs d @ [r]\<rparr>" by (simp add: insert_msg_def split: if_splits)
  with Cons.IH [OF d1(2)] show ?case by simp
qed simp

lemma fold_insert_flag_msgs: "fold_rows insert_flag fs d = Inr d' \<Longrightarrow> db_msgs d' = db_msgs d"
  by (induction fs arbitrary: d) (auto simp: ebind_Inr_iff insert_flag_def split: if_splits)

lemma copyMsgsUid_append:
  "st_copyMsgsUid dest n src a b d = Inr (d', k) \<Longrightarrow> \<exists>ns. db_msgs d' = db_msgs d @ ns \<and> (\<forall>r\<in>set ns. ms_mboxId r = dest \<and> \<not> ms_mark r)"
  by (auto simp: st_copyMsgsUid_def Let_def ebind_Inr_iff split: option.splits if_splits dest!: fold_insert_msg_eq)

lemma copyMsgFlagsUid_msgs: "st_copyMsgFlagsUid dest n src a b d = Inr d' \<Longrightarrow> db_msgs d' = db_msgs d"
  by (auto simp: st_copyMsgFlagsUid_def Let_def split: option.splits if_splits dest!: fold_insert_flag_msgs)

lemma copy_ranges_step:
  assumes "copy_ranges env refs uid src dest ((a, b) # rs) n d = Inr (d', n')"
  obtains d1 k d2 d3 where "st_copyMsgsUid dest n src a b d = Inr (d1, k)" "st_copyMsgFlagsUid dest n src a b d1 = Inr d2"
    "d3 = (if refs then st_incrementRefUid uid src a b d2 else d2)" "copy_ranges env refs uid src dest rs (u32 (n + u32 k)) d3 = Inr (d', n')"
  using assms by (cases refs) (auto simp: ebind_Inr_iff dest!: run_InrD)

lemma copy_ranges_append:
  "copy_ranges env refs uid src dest rs n d = Inr (d', n') \<Longrightarrow> \<exists>ns. db_msgs d' = db_msgs d @ ns \<and> (\<forall>r\<in>set ns. ms_mboxId r = dest \<and> \<not> ms_mark r)"
proof (induction rs arbitrary: n d)
  case (Cons x rs)
  obtain a b where x: "x = (a, b)" by fastforce
  from copy_ranges_step [OF Cons.prems [unfolded x]] obtain d1 k d2 d3 where s: "st_copyMsgsUid dest n src a b d = Inr (d1, k)"
    "st_copyMsgFlagsUid dest n src a b d1 = Inr d2" "d3 = (if refs then st_incrementRefUid uid src a b d2 else d2)"
    "copy_ranges env refs uid src dest rs (u32 (n + u32 k)) d3 = Inr (d', n')" by blast
  have "db_msgs d3 = db_msgs d2" using s(3) by (simp add: st_incrementRefUid_def update_refs_def)
  moreover obtain ns where "db_msgs d1 = db_msgs d @ ns" "\<forall>r\<in>set ns. ms_mboxId r = dest \<and> \<not> ms_mark r" using copyMsgsUid_append [OF s(1)] by blast
  moreover obtain ms where "db_msgs d' = db_msgs d3 @ ms" "\<forall>r\<in>set ms. ms_mboxId r = dest \<and> \<not> ms_mark r" using Cons.IH [OF s(4)] by blast
  ultimately show ?case using copyMsgFlagsUid_msgs [OF s(2)] by (intro exI [of _ "ns @ ms"]) auto
qed simp

lemma copy_ranges_inv:
  assumes "copy_ranges env refs uid src dest rs n d = Inr (d', n')" "schema_ok d" "schema_ok d0" "since d0 d" "uid_bound (\<lambda>i. if i = dest then n else 0) d"
    "n + (length (db_msgs d') - length (db_msgs d)) < 2 ^ 32"
  shows "schema_ok d' \<and> since d0 d' \<and> uid_bound (\<lambda>i. if i = dest then n' else 0) d' \<and> n' = n + (length (db_msgs d') - length (db_msgs d)) \<and>
    db_mboxes d' = db_mboxes d \<and> (\<exists>ns. db_msgs d' = db_msgs d @ ns \<and> (\<forall>r\<in>set ns. ms_mboxId r = dest \<and> \<not> ms_mark r))"
  using assms
proof (induction rs arbitrary: n d)
  case Nil
  then show ?case by (auto cong: if_cong)
next
  case (Cons x rs)
  obtain a b where x: "x = (a, b)" by fastforce
  from copy_ranges_step [OF Cons.prems(1) [unfolded x]] obtain d1 k d2 d3 where
    1: "st_copyMsgsUid dest n src a b d = Inr (d1, k)" and 2: "st_copyMsgFlagsUid dest n src a b d1 = Inr d2" and
    3: "d3 = (if refs then st_incrementRefUid uid src a b d2 else d2)" and
    4: "copy_ranges env refs uid src dest rs (u32 (n + u32 k)) d3 = Inr (d', n')" by blast
  note c = copyMsgsUid_inv [OF 1 Cons.prems(2-5)]
  obtain ns where ns: "d1 = d\<lparr>db_msgs := db_msgs d @ ns\<rparr>" "length ns = k" "\<forall>r\<in>set ns. ms_mboxId r = dest \<and> \<not> ms_mark r" using c(5) by blast
  obtain fs where fs: "schema_ok d2" "d2 = d1\<lparr>db_flags := fs\<rparr>" using copyMsgFlagsUid_inv [OF 2 c(1)] by blast
  note f = flags_only_inv(1-3) [OF fs(2)]
  have d3: "schema_ok d3" "since d0 d3" "uid_bound (\<lambda>i. if i = dest then n + k else 0) d3" "db_mboxes d3 = db_mboxes d" "db_msgs d3 = db_msgs d @ ns"
    using c f fs ns 3 by (simp_all add: st_incrementRefUid_def update_refs_inv) (simp_all add: update_refs_def)
  have mono: "length (db_msgs d3) \<le> length (db_msgs d')" using copy_ranges_append [OF 4] by auto
  have "k < 2 ^ 32" "n + k < 2 ^ 32" using mono Cons.prems(6) d3(5) ns(2) by simp_all
  then have u: "u32 (n + u32 k) = n + k" by (simp add: u32_def)
  have "n + k + (length (db_msgs d') - length (db_msgs d3)) < 2 ^ 32" using mono Cons.prems(6) d3(5) ns(2) by simp
  from Cons.IH [OF 4 [unfolded u] d3(1) Cons.prems(3) d3(2,3) this] d3(4,5) ns(2,3) mono show ?case by fastforce
qed

lemma increased_box:
  assumes "c \<in> set (db_mboxes (st_increaseMsgCount n k i d))" "mb_id c = i"
  shows "\<exists>c0\<in>set (db_mboxes d). mb_id c0 = i \<and> mb_uidnext c = mb_uidnext c0 + n"
proof -
  from assms(1) obtain c0 where c0: "c0 \<in> set (db_mboxes d)"
    "c = (if mb_id c0 = i then c0\<lparr>mb_uidnext := mb_uidnext c0 + n, mb_msgsCount := mb_msgsCount c0 + int k\<rparr> else c0)"
    unfolding st_increaseMsgCount_def update_mboxes_def by auto
  then have "mb_id c0 = i" using assms(2) by (cases "mb_id c0 = i") auto
  with c0 show ?thesis by (intro bexI [of _ c0]) simp_all
qed

lemma incrementMsgCounters_eq:
  assumes "incrementMsgCounters env j i d = Inr (d', n)" "\<forall>b\<in>set (db_mboxes d'). mb_uidnext b \<le> 2 ^ 32" "schema_ok d"
  shows "d' = st_increaseMsgCount 1 1 i d" "\<exists>b\<in>set (db_mboxes d). mb_id b = i \<and> mb_uidnext b = n"
proof -
  obtain n0 where n0: "st_uidNext i d = Some n0" and d': "d' = st_increaseMsgCount 1 1 i d" and n: "n = n0 \<or> n = u32 n0"
    using assms(1) by (auto simp: incrementMsgCounters_def ebind_Inr_iff scan_u32_def split: if_splits option.splits dest!: run_InrD)
  show "d' = st_increaseMsgCount 1 1 i d" by (rule d')
  from n0 mbox_of_iff [OF assms(3)] obtain b where b: "b \<in> set (db_mboxes d)" "mb_id b = i" "mb_uidnext b = n0" by (auto simp: st_uidNext_def)
  then have "b\<lparr>mb_uidnext := mb_uidnext b + 1, mb_msgsCount := mb_msgsCount b + 1\<rparr> \<in> set (db_mboxes d')"
    by (force simp: d' st_increaseMsgCount_def update_mboxes_def)
  with assms(2) have "mb_uidnext b + 1 \<le> 2 ^ 32" by fastforce
  with b n show "\<exists>b\<in>set (db_mboxes d). mb_id b = i \<and> mb_uidnext b = n" by (auto simp: u32_def)
qed

lemma incrementMsgCounters_inc: "incrementMsgCounters env j i d = Inr (d', n) \<Longrightarrow> d' = st_increaseMsgCount 1 1 i d"
  by (auto simp: incrementMsgCounters_def ebind_Inr_iff split: if_splits option.splits dest!: run_InrD)

text \<open>The statements of a new message after the counters.\<close>

lemma add_message_inv:
  assumes "add_message env j uid i n t len (bs, ch, k) sn rc fl d = Inr d'" "schema_ok d" "uid_bound (\<lambda>_. 0) d" "since d0 d" "unmarked d"
    "\<And>b. b \<in> set (db_mboxes d) \<Longrightarrow> mb_id b = i \<Longrightarrow> n < mb_uidnext b" "\<And>b0. b0 \<in> set (db_mboxes d0) \<Longrightarrow> mb_id b0 = i \<Longrightarrow> mb_uidnext b0 \<le> n"
  shows "store_ok d0 d'" "db_mboxes d' = db_mboxes d" "\<exists>r. db_msgs d' = db_msgs d @ [r] \<and> ms_key r = (i, n)"
proof -
  let ?r = "\<lparr>ms_mboxId = i, ms_msgId = n, ms_date = t, ms_bodyLen = len, ms_mark = False, ms_bodyStructure = bs, ms_cachedHeader = ch, ms_extBodyKey = k,
    ms_seen = sn, ms_compressAlgo = se_CompressAlgo env, ms_recent = rc\<rparr>"
  obtain d1 where d1: "insert_msg ?r d = Inr d1" "d' = (if fl = [] then d1 else st_flagsAdd fl i n n d1)"
    using assms(1) by (auto simp: add_message_def ebind_Inr_iff dest!: run_InrD split: if_splits)
  note ins = insert_msg_inv [OF d1(1) assms(2)]
  have ub: "uid_bound (\<lambda>_. 0) d1" by (rule ins(3)) (use assms(3,6) in auto)
  have s: "since d0 d1" by (rule ins(5)) (use assms(4,7) in auto)
  have u: "unmarked d1" by (rule ins(6)) (use assms(5) in auto)
  have d': "d' = d1\<lparr>db_flags := db_flags d'\<rparr>" using d1(2) by (simp add: st_flagsAdd_def)
  have "schema_ok d'" using d1(2) flagsAdd_schema ins(2) by simp
  then show "store_ok d0 d'" unfolding store_ok_def using flags_only_inv(1,3,4) [OF d'] ub s u by blast
  have "db_mboxes d' = db_mboxes d1" "db_msgs d' = db_msgs d1" using d1(2) by (simp_all add: st_flagsAdd_def)
  then show "db_mboxes d' = db_mboxes d" "\<exists>r. db_msgs d' = db_msgs d @ [r] \<and> ms_key r = (i, n)" using ins(1) by auto
qed

lemma new_message_ok:
  assumes "incrementMsgCounters env j i d = Inr (d1, n)" "add_message env j' uid i n t len (bs, ch, k) sn rc fl d2 = Inr d3" "store_ok d0 d" "schema_ok d0"
    "schema_ok d2" "uid_bound (\<lambda>_. 0) d2 = uid_bound (\<lambda>_. 0) d1" "since d0 d2 = since d0 d1" "unmarked d2 = unmarked d1" "db_mboxes d2 = db_mboxes d1"
    "\<forall>b\<in>set (db_mboxes d3). mb_uidnext b \<le> 2 ^ 32"
  shows "store_ok d0 d3"
proof -
  have ok: "schema_ok d" "uid_bound (\<lambda>_. 0) d" "since d0 d" "unmarked d" using assms(3) by (simp_all add: store_ok_def)
  have boxes: "db_mboxes d3 = db_mboxes d2" using assms(2)
    by (auto simp: add_message_def ebind_Inr_iff insert_msg_def st_flagsAdd_def dest!: run_InrD split: if_splits)
  from incrementMsgCounters_eq [OF assms(1) _ ok(1)] boxes assms(9,10) obtain b where
    inc: "d1 = st_increaseMsgCount 1 1 i d" and b: "b \<in> set (db_mboxes d)" "mb_id b = i" "mb_uidnext b = n" by auto
  have ub: "uid_bound (\<lambda>_. 0) d1" unfolding inc by (rule increaseMsgCount_inv(3)) (use ok(2) in \<open>fastforce simp: uid_bound_def\<close>)
  show ?thesis
  proof (rule add_message_inv(1) [OF assms(2,5)])
    show "uid_bound (\<lambda>_. 0) d2" using ub assms(6) by simp
    show "since d0 d2" using assms(7) increaseMsgCount_inv(2) [OF ok(3)] inc by simp
    show "unmarked d2" using assms(8) increaseMsgCount_inv(5) ok(4) inc by simp
    show "n < mb_uidnext c" if c: "c \<in> set (db_mboxes d2)" "mb_id c = i" for c
    proof -
      obtain c0 where c0: "c0 \<in> set (db_mboxes d)" "mb_id c0 = i" "mb_uidnext c = mb_uidnext c0 + 1"
        using increased_box [of c 1 1 i d] c unfolding assms(9) inc by blast
      have "mbox_of i d = Some c0" "mbox_of i d = Some b" using mbox_of_iff [OF ok(1)] c0 b by blast+
      then have "c0 = b" by simp
      then have "mb_uidnext c = n + 1" using c0(3) b(3) by simp
      then show ?thesis by simp
    qed
    show "mb_uidnext b0 \<le> n" if "b0 \<in> set (db_mboxes d0)" "mb_id b0 = i" for b0
      using since_uidnext [OF ok(3) assms(4) that(1) b(1)] that(2) b(2,3) by simp
  qed
qed

section \<open>The operations keep the invariant\<close>

lemma CreateMessage_db:
  assumes "CreateMessage env m fl t body w = (w', e)"
  shows "w_db w' = w_db w \<or> (\<exists>d1 d2 n tm len bs ch k sn rc fl'. incrementMsgCounters env 0 (sm_id m) (w_db w) = Inr (d1, n) \<and>
    st_addExtKey k (sm_user m) 1 d1 = Inr d2 \<and> add_message env 0 (sm_user m) (sm_id m) n tm len (bs, ch, k) sn rc fl' d2 = Inr (w_db w'))"
  using assms unfolding CreateMessage_def
  by (auto simp: Let_def ebind_Inr_iff split: option.splits sum.splits prod.splits if_splits dest!: run_InrD)

lemma CreateMessage_ok:
  assumes "CreateMessage env m fl t body w = (w', e)" "store_ok d0 (w_db w)" "schema_ok d0" "small (w_db w')"
  shows "store_ok d0 (w_db w')"
proof (rule disjE [OF CreateMessage_db [OF assms(1)]])
  assume "w_db w' = w_db w"
  with assms(2) show ?thesis by simp
next
  assume "\<exists>d1 d2 n tm len bs ch k sn rc fl'. incrementMsgCounters env 0 (sm_id m) (w_db w) = Inr (d1, n) \<and>
    st_addExtKey k (sm_user m) 1 d1 = Inr d2 \<and> add_message env 0 (sm_user m) (sm_id m) n tm len (bs, ch, k) sn rc fl' d2 = Inr (w_db w')"
  then obtain d1 d2 n tm len bs ch k sn rc fl' where 1: "incrementMsgCounters env 0 (sm_id m) (w_db w) = Inr (d1, n)" and
    2: "st_addExtKey k (sm_user m) 1 d1 = Inr d2" and 3: "add_message env 0 (sm_user m) (sm_id m) n tm len (bs, ch, k) sn rc fl' d2 = Inr (w_db w')" by blast
  have sc: "schema_ok d1" using incrementMsgCounters_inc [OF 1] assms(2) by (simp add: store_ok_def increaseMsgCount_inv)
  have bx: "db_mboxes d2 = db_mboxes d1" using 2 by (auto simp: st_addExtKey_def split: if_splits)
  show ?thesis
    by (rule new_message_ok [OF 1 3 assms(2,3) addExtKey_inv(1) [OF 2 sc] addExtKey_inv(2-4) [OF 2] bx]) (use assms(4) in \<open>simp add: small_def\<close>)
qed

text \<open>Moving.\<close>

lemma MoveMessages_tx_steps:
  assumes "MoveMessages_tx env m sq dest d = Inr (d', evs)"
  obtains rs d1 j d2 n nx d3 where "sq = Inr rs" "mark_all env (sm_id m) rs d = Inr d1" "st_mboxId (sm_user m) dest d1 = Some j"
    "copy_ranges env False (sm_user m) (sm_id m) j rs 0 d1 = Inr (d2, n)" "d3 = st_decreaseMsgCount n (sm_id m) (st_delMarked d2)"
    "st_uidNext j d3 = Some nx" "d' = st_increaseMsgCount n n j d3"
    "evs = map (Removed (sm_id m)) (map fst (st_markedUids (sm_id m) d2)) @ [NewMessages j nx (u32 (nx + n + (2 ^ 32 - 1)))]"
  using assms unfolding MoveMessages_tx_def
  by (auto simp: ebind_Inr_iff scan_u32_def dest!: run_InrD split: option.splits if_splits)

lemma MoveMessages_ok:
  assumes "MoveMessages env m sq dest w = (w', e)" "store_ok d0 (w_db w)" "schema_ok d0" "small (w_db w')"
  shows "store_ok d0 (w_db w')"
proof (cases "MoveMessages_tx env m sq dest (w_db w)")
  case (Inl err)
  with assms show ?thesis by (simp add: MoveMessages_def)
next
  case (Inr x)
  then obtain d' evs where x: "MoveMessages_tx env m sq dest (w_db w) = Inr (d', evs)" by (cases x) simp
  with assms(1) have w': "w_db w' = d'" by (auto simp: MoveMessages_def)
  from MoveMessages_tx_steps [OF x] obtain rs d1 j d2 n nx d3 where st: "mark_all env (sm_id m) rs (w_db w) = Inr d1"
    "copy_ranges env False (sm_user m) (sm_id m) j rs 0 d1 = Inr (d2, n)" "d3 = st_decreaseMsgCount n (sm_id m) (st_delMarked d2)"
    "d' = st_increaseMsgCount n n j d3" by metis
  have ok: "schema_ok (w_db w)" "uid_bound (\<lambda>_. 0) (w_db w)" "since d0 (w_db w)" "unmarked (w_db w)" using assms(2) by (simp_all add: store_ok_def)
  note mk = mark_all_inv [OF st(1)]
  have len: "length (db_msgs d2) - length (db_msgs d1) < 2 ^ 32"
  proof -
    obtain ns where ns: "db_msgs d2 = db_msgs d1 @ ns" "\<forall>r\<in>set ns. \<not> ms_mark r" using copy_ranges_append [OF st(2)] by blast
    have "db_msgs d' = filter (\<lambda>r. \<not> ms_mark r) (db_msgs d2)"
      by (simp add: st st_increaseMsgCount_def st_decreaseMsgCount_def st_delMarked_def update_mboxes_def delete_msgs_def Let_def)
    with ns have "length ns \<le> length (db_msgs d')" by simp
    with assms(4) ns(1) w' show ?thesis by (simp add: small_def)
  qed
  have "schema_ok d2 \<and> since d0 d2 \<and> uid_bound (\<lambda>i. if i = j then n else 0) d2 \<and> n = 0 + (length (db_msgs d2) - length (db_msgs d1)) \<and>
    db_mboxes d2 = db_mboxes d1 \<and> (\<exists>ns. db_msgs d2 = db_msgs d1 @ ns \<and> (\<forall>r\<in>set ns. ms_mboxId r = j \<and> \<not> ms_mark r))"
    by (rule copy_ranges_inv [OF st(2)]) (use mk ok assms(3) len in \<open>simp_all cong: if_cong\<close>)
  then have "schema_ok d3 \<and> since d0 d3 \<and> uid_bound (\<lambda>i. if i = j then n else 0) d3 \<and> unmarked d3"
    unfolding st(3) st_delMarked_def by (simp add: decreaseMsgCount_inv delete_msgs_inv) (simp add: unmarked_def delete_msgs_def Let_def)
  then show ?thesis unfolding w' st(4) store_ok_def by (simp add: increaseMsgCount_inv)
qed

text \<open>Copying.\<close>

lemma copyMessages_steps:
  assumes "copyMessages env m rs dest d = Inr (d', a, b, j)"
  obtains d1 n where "copy_ranges env True (sm_user m) (sm_id m) j rs 0 d = Inr (d1, n)" "st_uidNext j d1 = Some a" "d' = st_increaseMsgCount n n j d1"
    "b = u32 (a + n + (2 ^ 32 - 1))"
  using assms unfolding copyMessages_def
  by (auto simp: ebind_Inr_iff scan_u32_def dest!: run_InrD split: option.splits if_splits sum.splits)

lemma recent_inv:
  shows "schema_ok (st_addRecentToLast i n d) = schema_ok d" "uid_bound e (st_addRecentToLast i n d) = uid_bound e d"
    "count_is c (st_addRecentToLast i n d) = count_is c d" "since d0 (st_addRecentToLast i n d) = since d0 d"
    "unmarked (st_addRecentToLast i n d) = unmarked d" "length (db_msgs (st_addRecentToLast i n d)) = length (db_msgs d)"
    "db_mboxes (st_addRecentToLast i n d) = db_mboxes d"
proof -
  obtain P where P: "st_addRecentToLast i n d = update_msgs P (\<lambda>r. r\<lparr>ms_recent := True\<rparr>) d"
  proof (cases "take n (rev (msgs_by (in_mbox i) d))")
    case Nil
    then have "st_addRecentToLast i n d = update_msgs (\<lambda>_. False) (\<lambda>r. r\<lparr>ms_recent := True\<rparr>) d" unfolding st_addRecentToLast_def by (simp only: list.case) (simp add: update_msgs_def)
    then show ?thesis by (rule that)
  next
    case (Cons l ls)
    then have "st_addRecentToLast i n d = update_msgs (\<lambda>r. in_mbox i r \<and> ms_msgId r = ms_msgId l) (\<lambda>r. r\<lparr>ms_recent := True\<rparr>) d"
      by (simp add: st_addRecentToLast_def)
    then show ?thesis by (rule that)
  qed
  show "schema_ok (st_addRecentToLast i n d) = schema_ok d" "uid_bound e (st_addRecentToLast i n d) = uid_bound e d"
    "count_is c (st_addRecentToLast i n d) = count_is c d" "since d0 (st_addRecentToLast i n d) = since d0 d"
    "length (db_msgs (st_addRecentToLast i n d)) = length (db_msgs d)" "db_mboxes (st_addRecentToLast i n d) = db_mboxes d"
    unfolding P by (simp_all add: update_msgs_inv ms_core_def) (simp_all add: update_msgs_def)
  show "unmarked (st_addRecentToLast i n d) = unmarked d" unfolding P unmarked_def update_msgs_def by auto
qed

lemma CopyMessages_db:
  assumes "CopyMessages env m u sq dest w = (w', e)" "w_db w' \<noteq> w_db w"
  shows "\<exists>rs d a b j. copyMessages env m rs dest (w_db w) = Inr (d, a, b, j) \<and> (w_db w' = d \<or> (\<exists>n. w_db w' = st_addRecentToLast j n d))"
  using assms unfolding CopyMessages_def by (simp add: Let_def ebind_Inr_iff split: sum.splits prod.splits if_splits) (auto dest!: run_InrD, blast+)

lemma CopyMessages_ok:
  assumes "CopyMessages env m u sq dest w = (w', e)" "store_ok d0 (w_db w)" "schema_ok d0" "small (w_db w')"
  shows "store_ok d0 (w_db w')"
proof (cases "w_db w' = w_db w")
  case False
  from CopyMessages_db [OF assms(1) False] obtain rs d a b j where c: "copyMessages env m rs dest (w_db w) = Inr (d, a, b, j)" and
    w': "w_db w' = d \<or> (\<exists>n. w_db w' = st_addRecentToLast j n d)" by blast
  from copyMessages_steps [OF c] obtain d1 n where st: "copy_ranges env True (sm_user m) (sm_id m) j rs 0 (w_db w) = Inr (d1, n)" "d = st_increaseMsgCount n n j d1"
    by metis
  have ok: "schema_ok (w_db w)" "uid_bound (\<lambda>_. 0) (w_db w)" "since d0 (w_db w)" "unmarked (w_db w)" using assms(2) by (simp_all add: store_ok_def)
  have "length (db_msgs d) = length (db_msgs d1)" by (simp add: st st_increaseMsgCount_def update_mboxes_def)
  with w' assms(4) have len: "length (db_msgs d1) < 2 ^ 32" by (auto simp: small_def recent_inv)
  have "schema_ok d1 \<and> since d0 d1 \<and> uid_bound (\<lambda>i. if i = j then n else 0) d1 \<and> n = 0 + (length (db_msgs d1) - length (db_msgs (w_db w))) \<and>
    db_mboxes d1 = db_mboxes (w_db w) \<and> (\<exists>ns. db_msgs d1 = db_msgs (w_db w) @ ns \<and> (\<forall>r\<in>set ns. ms_mboxId r = j \<and> \<not> ms_mark r))"
    by (rule copy_ranges_inv [OF st(1)]) (use ok assms(3) len in \<open>simp_all cong: if_cong\<close>)
  then have "schema_ok d1" "since d0 d1" "uid_bound (\<lambda>i. if i = j then n else 0) d1" "unmarked d1" using ok(4) by (auto simp: unmarked_def)
  then have "store_ok d0 d" unfolding st(2) store_ok_def by (simp add: increaseMsgCount_inv)
  then show ?thesis using w' by (auto simp: store_ok_def recent_inv)
qed (use assms in simp)

text \<open>Removing.\<close>

lemma delMessages_steps:
  assumes "delMessages env m rs (d, st) = (st', Inr (d', us))"
  obtains d1 where "mark_all env (sm_id m) rs d = Inr d1" "us = map fst (st_markedUids (sm_id m) d1)"
    "ext_Delete env (map snd (st_markedUids (sm_id m) d1)) st = (st', None)"
    "d' = st_decreaseMsgCount (u32 (length us)) (sm_id m) (st_delMarked d1)"
  using assms unfolding delMessages_def
  by (auto simp: ebind_Inr_iff split: sum.splits prod.splits option.splits dest!: run_InrD)

lemma delMarked_unmarked: "unmarked (st_delMarked d)"
  by (simp add: unmarked_def st_delMarked_def delete_msgs_def Let_def)

lemma DelMessages_db:
  assumes "DelMessages env m sq w = (w', e)" "w_db w' \<noteq> w_db w"
  shows "\<exists>rs st us. delMessages env m rs (w_db w, w_store w) = (st, Inr (w_db w', us))"
proof -
  from assms obtain rs st us where "delMessages env m rs (w_db w, w_store w) = (st, Inr (w_db w', us))"
    unfolding DelMessages_def by (auto simp: ebind_Inr_iff split: sum.splits prod.splits dest!: run_InrD)
  then show ?thesis by blast
qed

lemma DelMessages_ok:
  assumes "DelMessages env m sq w = (w', e)" "store_ok d0 (w_db w)"
  shows "store_ok d0 (w_db w')"
proof (cases "w_db w' = w_db w")
  case False
  from DelMessages_db [OF assms(1) False] obtain rs st us where c: "delMessages env m rs (w_db w, w_store w) = (st, Inr (w_db w', us))" by blast
  from delMessages_steps [OF c] obtain d1 where st: "mark_all env (sm_id m) rs (w_db w) = Inr d1"
    "w_db w' = st_decreaseMsgCount (u32 (length us)) (sm_id m) (st_delMarked d1)" by metis
  from assms(2) mark_all_inv [OF st(1)] have "schema_ok d1 \<and> uid_bound (\<lambda>_. 0) d1 \<and> since d0 d1" by (simp add: store_ok_def)
  then have "store_ok d0 (st_delMarked d1)" unfolding store_ok_def by (simp add: delMarked_unmarked) (simp add: st_delMarked_def delete_msgs_inv)
  then show ?thesis unfolding st(2) by (simp add: store_ok_def decreaseMsgCount_inv)
qed (use assms in simp)

lemma Expunge_tx_steps:
  assumes "Expunge_tx env m d = Inr (d', uids, keys)"
  obtains d1 d2 where "d1 = st_decreaseRefForDeleted (sm_user m) (sm_id m) d" "uids = st_deletedUids (sm_id m) d" "keys = st_zeroRef (sm_user m) (sm_id m) d1"
    "d2 = st_decreaseMsgCount (u32 (length uids)) (sm_id m) (st_expungeMbox (sm_id m) d1)" "st_deleteZeroRef (sm_user m) d2 = Inr d'"
  using assms unfolding Expunge_tx_def expungeExternal_def by (auto simp: ebind_Inr_iff dest!: run_InrD)

lemma Expunge_ok:
  assumes "Expunge env m w = (w', e)" "store_ok d0 (w_db w)"
  shows "store_ok d0 (w_db w')"
proof (cases "w_db w' = w_db w")
  case False
  then obtain uids keys where c: "Expunge_tx env m (w_db w) = Inr (w_db w', uids, keys)"
    using assms(1) unfolding Expunge_def by (auto split: sum.splits prod.splits option.splits)
  from Expunge_tx_steps [OF c] obtain d1 d2 where st: "d1 = st_decreaseRefForDeleted (sm_user m) (sm_id m) (w_db w)"
    "d2 = st_decreaseMsgCount (u32 (length uids)) (sm_id m) (st_expungeMbox (sm_id m) d1)" "st_deleteZeroRef (sm_user m) d2 = Inr (w_db w')" by metis
  from assms(2) have "store_ok d0 d1" by (simp add: st(1) st_decreaseRefForDeleted_def store_ok_def update_refs_inv)
  then have "store_ok d0 d2" by (simp add: st(2) store_ok_def decreaseMsgCount_inv st_expungeMbox_def delete_msgs_inv)
  then show ?thesis using delete_extKeys_inv [OF st(3) [unfolded st_deleteZeroRef_def]] by (simp add: store_ok_def)
qed (use assms in simp)

text \<open>Flags and the opening of a mailbox keep every property that the administrative statements keep.\<close>

lemma fold_rows_keeps:
  assumes "fold_rows f rs d = Inr d'" "I d" "\<And>r d d'. r \<in> set rs \<Longrightarrow> f r d = Inr d' \<Longrightarrow> I d \<Longrightarrow> I d'"
  shows "I d'"
  using assms
proof (induction rs arbitrary: d)
  case (Cons r rs)
  then obtain d1 where "f r d = Inr d1" "fold_rows f rs d1 = Inr d'" by (auto simp: ebind_Inr_iff)
  with Cons.IH [of d1] Cons.prems(2,3) show ?case by (meson list.set_intros)
qed simp

context store_invariant
begin

lemma flag_rows_keep:
  assumes "I d"
  shows "I (st_massClearFlagsUid i a b d)" "I (st_flagsRem fl i a b d)" "I (st_setSeenFlagUid v i a b d)"
  using assms by (auto simp: st_massClearFlagsUid_def st_flagsRem_def st_setSeenFlagUid_def ms_core_def intro!: remove_flags update_msgs)

lemma update_range_keeps:
  assumes "update_range env i op sn fl rg d = Inr d'" "I d"
  shows "I d'"
proof -
  obtain a b where rg: "rg = (a, b)" by fastforce
  let ?c = "if op = SetFlags then exec env ''massClearFlagsUid'' a (Inr (st_massClearFlagsUid i a b d)) else Inr d"
  let ?s = "\<lambda>d. if sn then exec env ''setSeenFlagUid'' a (Inr (st_setSeenFlagUid (op \<noteq> RemoveFlags) i a b d)) else Inr d"
  let ?f = "\<lambda>d. if fl = [] then Inr d else if op = RemoveFlags then exec env ''flagsRem'' a (Inr (st_flagsRem fl i a b d))
    else exec env ''flagsAdd'' a (Inr (st_flagsAdd fl i a b d))"
  obtain d1 d2 where e: "?c = Inr d1" "?s d1 = Inr d2" "?f d2 = Inr d'"
    using assms(1) unfolding rg update_range_def prod.case ebind_Inr_iff by blast
  from e(1) have "I d1" using assms(2) flag_rows_keep(1) [OF assms(2)] by (cases "op = SetFlags") (auto dest!: run_InrD)
  with e(2) have "I d2" using flag_rows_keep(3) by (cases sn) (auto dest!: run_InrD)
  with e(3) show ?thesis using flag_rows_keep(2) flagsAdd by (cases "fl = []"; cases "op = RemoveFlags") (auto dest!: run_InrD)
qed

lemma UpdateMessagesFlags_keeps:
  assumes "UpdateMessagesFlags env m sq op si fl w = (w', e)" "I (w_db w)"
  shows "I (w_db w')"
proof (cases "w_db w' = w_db w")
  case False
  then obtain upds where "UpdateMessagesFlags_tx env m sq op fl (w_db w) = Inr (w_db w', upds)"
    using assms(1) unfolding UpdateMessagesFlags_def by (simp split: sum.splits prod.splits) auto
  then have "\<exists>rs sn fl'. fold_rows (update_range env (sm_id m) op sn fl') rs (w_db w) = Inr (w_db w')"
    unfolding UpdateMessagesFlags_tx_def Let_def ebind_Inr_iff by (elim exE conjE) (drule run_InrD, blast)
  then obtain rs sn fl' where f: "fold_rows (update_range env (sm_id m) op sn fl') rs (w_db w) = Inr (w_db w')" by blast
  show ?thesis by (rule fold_rows_keeps [OF f, of I]) (use assms(2) update_range_keeps in auto)
qed (use assms in simp)

lemma initSelected_keeps:
  assumes "initSelected env dr i ur d = Inr (d', us, rc, stt)" "I d"
  shows "I d'"
proof -
  have "d' = d \<or> d' = st_clearRecent i d" using assms(1) unfolding initSelected_def
    by (auto simp: Let_def ebind_Inr_iff split: prod.splits if_splits dest!: run_InrD)
  with assms(2) show ?thesis by (auto simp: st_clearRecent_def ms_core_def intro!: update_msgs)
qed

end

section \<open>An example\<close>

text \<open>An engine without faults, and the world with the example database.\<close>

definition demo_env :: sql_env where
  "demo_env = \<lparr>se_flt = \<lambda>_ _. False, se_like = \<lambda>_ _. False, se_postgres = False, se_MaxMsgBytes = None, se_CompressAlgo = '''', se_key = \<lambda>i. Inr (''n'' @ replicate i CHR ''0''),
     se_parse = \<lambda>_. Inr ('''', ''''), se_encode = \<lambda>s. s, se_recent = \<lambda>_ _. True, se_del = \<lambda>_. False, se_now = 1000, se_Uint32 = \<lambda>_. 7\<rparr>"

definition demo_world :: sql_world where
  "demo_world = \<lparr>w_db = demo_db, w_store = [''k1'' \<mapsto> ''first'', ''k2'' \<mapsto> ''second''], w_events = []\<rparr>"

definition demo_inbox :: sql_mailbox where
  "demo_inbox = \<lparr>sm_user = 1, sm_username = ''a'', sm_inbox = 1, sm_name = ''INBOX'', sm_id = 1\<rparr>"

end
