(* ===== verification/Sql_User.thy ===== *)
theory Sql_User
  imports Sql_Mailbox Address
begin

text \<open>
  Model of the accounts and of the mailbox tree of an account: \<^verbatim>\<open>internal/go-imap-sql/user.go\<close> and the account operations of
  \<^verbatim>\<open>internal/go-imap-sql/backend.go\<close>.
\<close>

section \<open>Accounts\<close>

record sql_user =
  su_id :: nat
  su_username :: string
  su_inboxId :: nat

definition ErrUserAlreadyExists :: goerr where
  "ErrUserAlreadyExists = Opaque ''imap: user already exists'' None"

definition ErrUserDoesntExists :: goerr where
  "ErrUserDoesntExists = Opaque ''imap: user doesn't exists'' None"

definition ErrMailboxAlreadyExists :: goerr where
  "ErrMailboxAlreadyExists = Opaque ''Mailbox already exists'' None"

definition ErrUnsupportedSpecialAttr :: goerr where
  "ErrUnsupportedSpecialAttr = Opaque ''imap: special attribute is not supported'' None"

definition normalizeUsername :: "textlib \<Rightarrow> string \<Rightarrow> string" where
  "normalizeUsername lib u = ToLower lib u"

definition getUserMeta :: "sql_env \<Rightarrow> string \<Rightarrow> sqldb \<Rightarrow> goerr + nat \<times> nat" where
  "getUserMeta env username d = exec env ''userMeta'' 0 (case st_userMeta username d of None \<Rightarrow> Inl ErrNoRows | Some x \<Rightarrow> Inr x)"

text \<open>\<open>createUser\<close> inside a transaction.\<close>

definition createUser :: "sql_env \<Rightarrow> string \<Rightarrow> sqldb \<Rightarrow> goerr + sqldb \<times> nat \<times> nat" where
  "createUser env username d =
     (case exec env ''addUser'' 0 (st_addUser username d) of
        Inl e \<Rightarrow> Inl (if isForeignKeyErr e then ErrUserAlreadyExists else e)
      | Inr d \<Rightarrow>
          ebind (getUserMeta env username d) (\<lambda>(uid, _).
          ebind (exec env ''createMbox'' 0 (st_createMbox uid ''INBOX'' (u32 (se_Uint32 env 0)) None d)) (\<lambda>d.
          ebind (exec env ''mboxId'' 0 (case st_mboxId uid ''INBOX'' d of None \<Rightarrow> Inl ErrNoRows | Some i \<Rightarrow> Inr i)) (\<lambda>inboxId.
          ebind (exec env ''setInboxId'' 0 (Inr (st_setInboxId inboxId uid d))) (\<lambda>d. Inr (d, uid, inboxId))))))"

definition CreateUser :: "sql_env \<Rightarrow> textlib \<Rightarrow> string \<Rightarrow> sql_world \<Rightarrow> sql_world \<times> goerr option" where
  "CreateUser env lib username w =
     (case ebind (exec env ''Begin'' 0 (Inr ())) (\<lambda>_. ebind (createUser env (normalizeUsername lib username) (w_db w)) (\<lambda>(d, _).
             exec env ''Commit'' 0 (Inr d))) of
        Inl e \<Rightarrow> (w, Some e)
      | Inr d \<Rightarrow> (w\<lparr>w_db := d\<rparr>, None))"

text \<open>The bodies are deleted before the transaction is committed.\<close>

definition DeleteUser :: "sql_env \<Rightarrow> textlib \<Rightarrow> string \<Rightarrow> sql_world \<Rightarrow> sql_world \<times> goerr option" where
  "DeleteUser env lib username w =
     (let username = ToLower lib username in
      case ebind (exec env ''Begin'' 0 (Inr ())) (\<lambda>_.
           ebind (exec env ''refUser'' 0 (Inr (st_refUser username (w_db w)))) (\<lambda>keys.
           ebind (exec env ''delUser'' 0 (Inr (st_delUser username (w_db w)))) (\<lambda>(d, affected).
           ebind (exec env ''RowsAffected'' 0 (Inr ())) (\<lambda>_.
             if affected = 0 then Inl ErrUserDoesntExists else Inr (keys, d))))) of
        Inl e \<Rightarrow> (w, Some e)
      | Inr (keys, d) \<Rightarrow>
          (case ext_Delete env keys (w_store w) of
             (st, Some e) \<Rightarrow> (w\<lparr>w_store := st\<rparr>, Some e)
           | (st, None) \<Rightarrow>
               (case ebind (exec env ''deleteUserRef'' 0 (st_deleteUserRef username d)) (\<lambda>d. exec env ''Commit'' 0 (Inr d)) of
                  Inl e \<Rightarrow> (w\<lparr>w_store := st\<rparr>, Some e)
                | Inr d \<Rightarrow> (w\<lparr>w_store := st, w_db := d\<rparr>, None))))"

definition ListUsers :: "sql_env \<Rightarrow> sqldb \<Rightarrow> goerr + string list" where
  "ListUsers env d = exec env ''listUsers'' 0 (Inr (map snd (st_listUsers d)))"

definition GetUser :: "sql_env \<Rightarrow> textlib \<Rightarrow> string \<Rightarrow> sqldb \<Rightarrow> goerr + sql_user" where
  "GetUser env lib username d =
     (let username = normalizeUsername lib username in
      case getUserMeta env username d of
        Inl e \<Rightarrow> Inl (if same_err e ErrNoRows then ErrUserDoesntExists else e)
      | Inr (uid, inboxId) \<Rightarrow> Inr \<lparr>su_id = uid, su_username = username, su_inboxId = inboxId\<rparr>)"

text \<open>A failed commit still yields the account, together with the error. The user that exists after all is looked up again.\<close>

definition GetOrCreateUser :: "sql_env \<Rightarrow> textlib \<Rightarrow> string \<Rightarrow> sql_world \<Rightarrow> sql_world \<times> sql_user option \<times> goerr option" where
  "GetOrCreateUser env lib username w =
     (let username = normalizeUsername lib username in
      case ebind (exec env ''Begin'' 0 (Inr ())) (\<lambda>_.
             case getUserMeta env username (w_db w) of
               Inr (uid, inboxId) \<Rightarrow> Inr (w_db w, uid, inboxId)
             | Inl e \<Rightarrow> if same_err e ErrNoRows then createUser env username (w_db w) else Inl e) of
        Inl e \<Rightarrow>
          if same_err e ErrUserAlreadyExists then
            (case GetUser env lib username (w_db w) of Inl e \<Rightarrow> (w, None, Some e) | Inr u \<Rightarrow> (w, Some u, None))
          else (w, None, Some e)
      | Inr (d, uid, inboxId) \<Rightarrow>
          let u = \<lparr>su_id = uid, su_username = username, su_inboxId = inboxId\<rparr> in
          (case exec env ''Commit'' 0 (Inr d) of
             Inl e \<Rightarrow> (w, Some u, Some e)
           | Inr d \<Rightarrow> (w\<lparr>w_db := d\<rparr>, Some u, None)))"

section \<open>Mailboxes of an account\<close>

record mailbox_info =
  mi_Attributes :: "string list"
  mi_Delimiter :: string
  mi_Name :: string

definition mbox_attrs :: "sql_env \<Rightarrow> sql_user \<Rightarrow> sqldb \<Rightarrow> nat \<times> mailbox_info \<Rightarrow> mailbox_info" where
  "mbox_attrs env u d r =
     (case r of (i, info) \<Rightarrow>
        (case exec env ''getMboxAttrs'' i (case st_getMboxAttrs (su_id u) (mi_Name info) d of None \<Rightarrow> Inl ErrNoRows | Some x \<Rightarrow> Inr x) of
           Inl _ \<Rightarrow> info
         | Inr (mark, specialUse) \<Rightarrow>
             let attrs = (case specialUse of Some s \<Rightarrow> [s] | None \<Rightarrow> if mark then [CHR 0x5C # ''Marked''] else []) in
             case exec env ''hasChildren'' i (Inr (st_hasChildren (se_like env) (mi_Name info @ ''.%'') (su_id u) d)) of
               Inl _ \<Rightarrow> info
             | Inr n \<Rightarrow> info\<lparr>mi_Attributes := attrs @ [if n \<noteq> 0 then CHR 0x5C # ''HasChildren'' else CHR 0x5C # ''HasNoChildren'']\<rparr>))"

definition ListMailboxes :: "sql_env \<Rightarrow> sql_user \<Rightarrow> bool \<Rightarrow> sqldb \<Rightarrow> goerr + mailbox_info list" where
  "ListMailboxes env u subscribed d =
     ebind (if subscribed then exec env ''listSubbedMboxes'' 0 (Inr (st_listSubbedMboxes (su_id u) d))
            else exec env ''listMboxes'' 0 (Inr (st_listMboxes (su_id u) d))) (\<lambda>rows.
       let res = map (\<lambda>(_, name). \<lparr>mi_Attributes = [], mi_Delimiter = ''.'', mi_Name = name\<rparr>) rows in
       Inr (map (mbox_attrs env u d) (zip [0..<length res] res)))"

definition mbox_handle :: "sql_user \<Rightarrow> nat \<Rightarrow> string \<Rightarrow> sql_mailbox" where
  "mbox_handle u i name = \<lparr>sm_user = su_id u, sm_username = su_username u, sm_inbox = su_inboxId u, sm_name = name, sm_id = i\<rparr>"

text \<open>The part of \<open>GetMailbox\<close> without a connection: \<open>INBOX\<close> goes by the number that the account has kept.\<close>

definition find_mailbox :: "sql_env \<Rightarrow> sql_user \<Rightarrow> string \<Rightarrow> sqldb \<Rightarrow> goerr + sql_mailbox" where
  "find_mailbox env u name d =
     (if EqualFoldASCII name ''inbox'' then Inr (mbox_handle u (su_inboxId u) name)
      else ebind (exec env ''mboxId'' 0 (case st_mboxId (su_id u) name d of None \<Rightarrow> Inl ErrNoSuchMailbox | Some i \<Rightarrow> Inr i)) (\<lambda>i. Inr (mbox_handle u i name)))"

definition GetMailbox ::
    "sql_env \<Rightarrow> bool \<Rightarrow> sql_user \<Rightarrow> string \<Rightarrow> bool \<Rightarrow> bool \<Rightarrow> sql_world \<Rightarrow> sql_world \<times> (goerr + sql_mailbox \<times> mbox_status option)" where
  "GetMailbox env DisableRecent u name readOnly conn w =
     (case find_mailbox env u name (w_db w) of
        Inl e \<Rightarrow> (w, Inl e)
      | Inr m \<Rightarrow>
          if \<not> conn then (w, Inr (m, None))
          else
            (case initSelected env DisableRecent (sm_id m) (\<not> readOnly) (w_db w) of
               Inl e \<Rightarrow> (w, Inl e)
             | Inr (d, uids, recent, status) \<Rightarrow>
                 (w\<lparr>w_db := d\<rparr>, ebind (exec env ''mngr.Mailbox'' 0 (Inr ())) (\<lambda>_. Inr (m, Some status)))))"

text \<open>The names of the parents of a mailbox, outermost first.\<close>

definition parent_dirs :: "string \<Rightarrow> string list" where
  "parent_dirs name =
     (let parts = SplitByte name CHR ''.'' in
      map (\<lambda>k. concat (map (\<lambda>(i, p). (if i = 0 then '''' else ''.'') @ p) (zip [0..<Suc k] parts))) [0..<length parts - 1])"

definition createParentDirs :: "sql_env \<Rightarrow> nat \<Rightarrow> string \<Rightarrow> sqldb \<Rightarrow> goerr + sqldb" where
  "createParentDirs env uid name d =
     fold_rows (\<lambda>(i, dir) d. exec env ''createMboxExistsOk'' i (st_createMboxExistsOk uid dir (u32 (se_Uint32 env (Suc i))) d))
       (zip [0..<length (parent_dirs name)] (parent_dirs name)) d"

definition create_mailbox_tx :: "sql_env \<Rightarrow> nat \<Rightarrow> string \<Rightarrow> string option \<Rightarrow> sqldb \<Rightarrow> goerr + sqldb" where
  "create_mailbox_tx env uid name specialUse d =
     ebind (exec env ''Begin'' 0 (Inr ())) (\<lambda>_.
     ebind (createParentDirs env uid name d) (\<lambda>d.
       case exec env ''createMbox'' 0 (st_createMbox uid name (u32 (se_Uint32 env 0)) specialUse d) of
         Inl e \<Rightarrow> Inl (if isForeignKeyErr e then ErrMailboxAlreadyExists else e)
       | Inr d \<Rightarrow> exec env ''Commit'' 0 (Inr d)))"

definition CreateMailbox :: "sql_env \<Rightarrow> sql_user \<Rightarrow> string \<Rightarrow> sql_world \<Rightarrow> sql_world \<times> goerr option" where
  "CreateMailbox env u name w =
     (case create_mailbox_tx env (su_id u) name None (w_db w) of Inl e \<Rightarrow> (w, Some e) | Inr d \<Rightarrow> (w\<lparr>w_db := d\<rparr>, None))"

definition special_attrs :: "string list" where
  "special_attrs = [CHR 0x5C # ''Archive'', CHR 0x5C # ''Drafts'', CHR 0x5C # ''Junk'', CHR 0x5C # ''Sent'', CHR 0x5C # ''Trash'']"

definition CreateMailboxSpecial :: "sql_env \<Rightarrow> sql_user \<Rightarrow> string \<Rightarrow> string \<Rightarrow> sql_world \<Rightarrow> sql_world \<times> goerr option" where
  "CreateMailboxSpecial env u name specialUseAttr w =
     (if specialUseAttr \<notin> set special_attrs then (w, Some ErrUnsupportedSpecialAttr)
      else (case create_mailbox_tx env (su_id u) name (Some specialUseAttr) (w_db w) of Inl e \<Rightarrow> (w, Some e) | Inr d \<Rightarrow> (w\<lparr>w_db := d\<rparr>, None)))"

definition DeleteMailbox :: "sql_env \<Rightarrow> textlib \<Rightarrow> sql_user \<Rightarrow> string \<Rightarrow> sql_world \<Rightarrow> sql_world \<times> goerr option" where
  "DeleteMailbox env lib u name w =
     (if ToLower lib name = ''inbox'' then (w, Some (errors_New ''DeleteMailbox: can't delete INBOX''))
      else
        case ebind (exec env ''Begin'' 0 (Inr ())) (\<lambda>_.
             ebind (exec env ''decreaseRefForMbox'' 0 (Inr (st_decreaseRefForMbox (su_id u) name (w_db w)))) (\<lambda>d.
               exec env ''zeroRefUser'' 0 (Inr (d, st_zeroRefUser (su_id u) d)))) of
          Inl e \<Rightarrow> (w, Some e)
        | Inr (d, keys) \<Rightarrow>
            (case ext_Delete env keys (w_store w) of
               (st, Some e) \<Rightarrow> (w\<lparr>w_store := st\<rparr>, Some e)
             | (st, None) \<Rightarrow>
                 (case ebind (exec env ''deleteMbox'' 0 (Inr (st_deleteMbox (su_id u) name d))) (\<lambda>(d, affected).
                       ebind (exec env ''RowsAffected'' 0 (Inr ())) (\<lambda>_.
                       ebind (if affected = 0 then Inl ErrNoSuchMailbox else Inr d) (\<lambda>d.
                       ebind (exec env ''deleteZeroRef'' 0 (st_deleteZeroRef (su_id u) d)) (\<lambda>d.
                         exec env ''Commit'' 0 (Inr d))))) of
                    Inl e \<Rightarrow> (w\<lparr>w_store := st\<rparr>, Some e)
                  | Inr d \<Rightarrow> (w\<lparr>w_store := st, w_db := d\<rparr>, None))))"

definition RenameMailbox_tx :: "sql_env \<Rightarrow> nat \<Rightarrow> string \<Rightarrow> string \<Rightarrow> sqldb \<Rightarrow> goerr + sqldb" where
  "RenameMailbox_tx env uid existingName newName d =
     ebind (exec env ''Begin'' 0 (Inr ())) (\<lambda>_.
     ebind (createParentDirs env uid newName d) (\<lambda>d.
     ebind (exec env ''renameMbox'' 0 (st_renameMbox newName uid existingName d)) (\<lambda>d.
     ebind (exec env ''renameMboxChilds'' 0
              (st_renameMboxChilds (se_like env) (newName @ ''.'') (length (existingName @ ''.'')) (existingName @ ''.%'') uid d)) (\<lambda>d.
     ebind (if EqualFoldASCII existingName ''inbox'' then
              ebind (exec env ''createMbox'' 0 (st_createMbox uid existingName (u32 (se_Uint32 env 0)) None d)) (\<lambda>d.
              ebind (exec env ''mboxId'' 0 (case st_mboxId uid ''INBOX'' d of None \<Rightarrow> Inl ErrNoRows | Some i \<Rightarrow> Inr i)) (\<lambda>inboxId.
                exec env ''setInboxId'' 0 (Inr (st_setInboxId inboxId uid d))))
            else Inr d) (\<lambda>d. exec env ''Commit'' 0 (Inr d))))))"

definition RenameMailbox :: "sql_env \<Rightarrow> sql_user \<Rightarrow> string \<Rightarrow> string \<Rightarrow> sql_world \<Rightarrow> sql_world \<times> goerr option" where
  "RenameMailbox env u existingName newName w =
     (case RenameMailbox_tx env (su_id u) existingName newName (w_db w) of Inl e \<Rightarrow> (w, Some e) | Inr d \<Rightarrow> (w\<lparr>w_db := d\<rparr>, None))"

definition user_CreateMessage :: "sql_env \<Rightarrow> sql_user \<Rightarrow> string \<Rightarrow> string list \<Rightarrow> int option \<Rightarrow> string \<Rightarrow> sql_world \<Rightarrow> sql_world \<times> goerr option" where
  "user_CreateMessage env u mboxName flags date fullBody w =
     (case find_mailbox env u mboxName (w_db w) of Inl e \<Rightarrow> (w, Some e) | Inr m \<Rightarrow> CreateMessage env m flags date fullBody w)"

definition SetSubscribed :: "sql_env \<Rightarrow> sql_user \<Rightarrow> string \<Rightarrow> bool \<Rightarrow> sql_world \<Rightarrow> sql_world \<times> goerr option" where
  "SetSubscribed env u mboxName sub w =
     (case exec env ''setSubbed'' 0 (Inr (st_setSubbed sub (su_id u) mboxName (w_db w))) of Inl e \<Rightarrow> (w, Some e) | Inr d \<Rightarrow> (w\<lparr>w_db := d\<rparr>, None))"

definition user_SetMessageLimit :: "sql_env \<Rightarrow> sql_user \<Rightarrow> nat option \<Rightarrow> sql_world \<Rightarrow> sql_world \<times> goerr option" where
  "user_SetMessageLimit env u val w =
     (case exec env ''setUserMsgSizeLimit'' 0 (Inr (st_setUserMsgSizeLimit val (su_id u) (w_db w))) of Inl e \<Rightarrow> (w, Some e) | Inr d \<Rightarrow> (w\<lparr>w_db := d\<rparr>, None))"

definition mbox_SetMessageLimit :: "sql_env \<Rightarrow> sql_mailbox \<Rightarrow> nat option \<Rightarrow> sql_world \<Rightarrow> sql_world \<times> goerr option" where
  "mbox_SetMessageLimit env m val w =
     (case exec env ''setMboxMsgSizeLimit'' 0 (Inr (st_setMboxMsgSizeLimit val (sm_id m) (w_db w))) of Inl e \<Rightarrow> (w, Some e) | Inr d \<Rightarrow> (w\<lparr>w_db := d\<rparr>, None))"

section \<open>STATUS\<close>

datatype status_item = StatusMessages | StatusRecent | StatusUidNext | StatusUidValidity | StatusUnseen | StatusAppendLimit

definition io_error :: goerr where
  "io_error = errors_New ''I/O error''"

text \<open>The answers in the order asked for; \<^term>\<open>None\<close> for an item that is left out.\<close>

definition status_of :: "sql_env \<Rightarrow> nat \<Rightarrow> sqldb \<Rightarrow> status_item \<Rightarrow> goerr + (status_item \<times> int) option" where
  "status_of env i d item =
     (case item of
        StatusMessages \<Rightarrow>
          (case exec env ''msgsCount'' 0 (case st_msgsCount i d of None \<Rightarrow> Inl ErrNoRows | Some n \<Rightarrow> if 0 \<le> n \<and> n < 2 ^ 32 then Inr n else Inl io_error) of
             Inl _ \<Rightarrow> Inl io_error | Inr n \<Rightarrow> Inr (Some (item, n)))
      | StatusRecent \<Rightarrow>
          (case exec env ''recentCount'' 0 (scan_u32 (st_recentCount i d)) of Inl _ \<Rightarrow> Inl io_error | Inr n \<Rightarrow> Inr (Some (item, int n)))
      | StatusUidNext \<Rightarrow>
          (case exec env ''uidNext'' 0 (case st_uidNext i d of None \<Rightarrow> Inl ErrNoRows | Some n \<Rightarrow> scan_u32 n) of
             Inl _ \<Rightarrow> Inl io_error | Inr n \<Rightarrow> Inr (Some (item, int n)))
      | StatusUidValidity \<Rightarrow>
          (case exec env ''uidValidity'' 0 (case st_uidValidity i d of None \<Rightarrow> Inl ErrNoRows | Some n \<Rightarrow> scan_u32 n) of
             Inl _ \<Rightarrow> Inl io_error | Inr n \<Rightarrow> Inr (Some (item, int n)))
      | StatusUnseen \<Rightarrow>
          (case exec env ''unseenCount'' 0 (scan_u32 (st_unseenCount i d)) of Inl _ \<Rightarrow> Inr None | Inr n \<Rightarrow> Inr (Some (item, int n)))
      | StatusAppendLimit \<Rightarrow>
          (case exec env ''mboxMsgSizeLimit'' 0 (case st_mboxMsgSizeLimit i d of None \<Rightarrow> Inl ErrNoRows | Some l \<Rightarrow> Inr l) of
             Inl _ \<Rightarrow> Inr (Some (item, 0)) | Inr None \<Rightarrow> Inr (Some (item, 0)) | Inr (Some n) \<Rightarrow> Inr (Some (item, int (u32 n)))))"

fun status_items :: "sql_env \<Rightarrow> nat \<Rightarrow> sqldb \<Rightarrow> status_item list \<Rightarrow> goerr + (status_item \<times> int) list" where
  "status_items env i d [] = Inr []"
| "status_items env i d (x # xs) =
     ebind (status_of env i d x) (\<lambda>r. ebind (status_items env i d xs) (\<lambda>rs. Inr (case r of None \<Rightarrow> rs | Some a \<Rightarrow> a # rs)))"

definition Status :: "sql_env \<Rightarrow> sql_user \<Rightarrow> string \<Rightarrow> status_item list \<Rightarrow> sqldb \<Rightarrow> goerr + (status_item \<times> int) list" where
  "Status env u mbox items d =
     ebind (exec env ''Begin'' 0 (Inr ())) (\<lambda>_.
     ebind (exec env ''mboxId'' 0 (case st_mboxId (su_id u) mbox d of None \<Rightarrow> Inl ErrNoSuchMailbox | Some i \<Rightarrow> Inr i)) (\<lambda>i.
       status_items env i d items))"

section \<open>The operations keep the invariants\<close>

lemma create_mailbox_tx_steps:
  assumes "create_mailbox_tx env uid name sp d = Inr d'"
  shows "\<exists>d1. createParentDirs env uid name d = Inr d1 \<and> st_createMbox uid name (u32 (se_Uint32 env 0)) sp d1 = Inr d'"
proof -
  let ?c = "\<lambda>d. exec env ''createMbox'' 0 (st_createMbox uid name (u32 (se_Uint32 env 0)) sp d)"
  obtain d1 where st1: "createParentDirs env uid name d = Inr d1"
    and c: "(case ?c d1 of Inl e \<Rightarrow> Inl (if isForeignKeyErr e then ErrMailboxAlreadyExists else e) | Inr d \<Rightarrow> exec env ''Commit'' 0 (Inr d)) = Inr d'"
    using assms unfolding create_mailbox_tx_def ebind_Inr_iff by blast
  from c have "?c d1 = Inr d'" by (cases "?c d1") (auto dest!: run_InrD)
  with st1 run_InrD [OF this] show ?thesis by blast
qed

context store_invariant
begin

lemma setInboxId_keeps: "I d \<Longrightarrow> I (st_setInboxId i uid d)"
  unfolding st_setInboxId_def by (rule update_users) simp_all

lemma createUser_keeps:
  assumes "createUser env name d = Inr (d', uid, i)" "I d"
  shows "I d'"
proof -
  obtain d1 d2 uid' where st: "st_addUser name d = Inr d1" "st_createMbox uid' ''INBOX'' (u32 (se_Uint32 env 0)) None d1 = Inr d2" "d' = st_setInboxId i uid d2"
    using assms(1) unfolding createUser_def by (auto simp: ebind_Inr_iff split: sum.splits dest!: run_InrD)
  from createMbox [OF st(2) addUser [OF st(1) assms(2)]] show ?thesis by (simp add: st(3) setInboxId_keeps)
qed

lemma CreateUser_keeps:
  assumes "CreateUser env lib name w = (w', e)" "I (w_db w)"
  shows "I (w_db w')"
proof (cases "w_db w' = w_db w")
  case False
  with assms(1) obtain uid i where "createUser env (normalizeUsername lib name) (w_db w) = Inr (w_db w', uid, i)"
    unfolding CreateUser_def by (auto simp: ebind_Inr_iff split: sum.splits dest!: run_InrD)
  from createUser_keeps [OF this assms(2)] show ?thesis .
qed (use assms in simp)

lemma GetOrCreateUser_keeps:
  assumes "GetOrCreateUser env lib name w = (w', u, e)" "I (w_db w)"
  shows "I (w_db w')"
proof (cases "w_db w' = w_db w")
  case False
  with assms(1) obtain uid i where "createUser env (normalizeUsername lib name) (w_db w) = Inr (w_db w', uid, i)"
    unfolding GetOrCreateUser_def by (auto simp: Let_def ebind_Inr_iff split: sum.splits if_splits dest!: run_InrD)
  from createUser_keeps [OF this assms(2)] show ?thesis .
qed (use assms in simp)

lemma DeleteUser_keeps:
  assumes "DeleteUser env lib name w = (w', e)" "I (w_db w)"
  shows "I (w_db w')"
proof (cases "w_db w' = w_db w")
  case False
  with assms(1) obtain d k where st: "st_delUser (ToLower lib name) (w_db w) = (d, k)" "st_deleteUserRef (ToLower lib name) d = Inr (w_db w')"
    unfolding DeleteUser_def by (auto simp: Let_def ebind_Inr_iff split: sum.splits prod.splits option.splits if_splits dest!: run_InrD)
  from assms(2) st(1) have "I d" by (auto simp: st_delUser_def delete_users)
  from delete_extKeys [OF st(2) [unfolded st_deleteUserRef_def] this] show ?thesis .
qed (use assms in simp)

lemma createParentDirs_keeps:
  assumes "createParentDirs env uid name d = Inr d'" "I d"
  shows "I d'"
proof (rule fold_rows_keeps [OF assms(1) [unfolded createParentDirs_def], of I])
  fix r x x'
  assume "(case r of (i, dir) \<Rightarrow> \<lambda>d. exec env ''createMboxExistsOk'' i (st_createMboxExistsOk uid dir (u32 (se_Uint32 env (Suc i))) d)) x = Inr x'" "I x"
  then show "I x'" using createMbox by (cases r) (auto simp: st_createMboxExistsOk_def split: if_splits dest!: run_InrD)
qed (rule assms(2))

lemma create_mailbox_tx_keeps: "create_mailbox_tx env uid name sp d = Inr d' \<Longrightarrow> I d \<Longrightarrow> I d'"
  using create_mailbox_tx_steps createParentDirs_keeps createMbox by blast

lemma CreateMailbox_keeps:
  assumes "CreateMailbox env u name w = (w', e) \<or> CreateMailboxSpecial env u name attr w = (w', e)" "I (w_db w)"
  shows "I (w_db w')"
  using assms(1) create_mailbox_tx_keeps [OF _ assms(2)] assms(2) unfolding CreateMailbox_def CreateMailboxSpecial_def
  by (auto split: sum.splits if_splits)

lemma DeleteMailbox_keeps:
  assumes "DeleteMailbox env lib u name w = (w', e)" "I (w_db w)"
  shows "I (w_db w')"
proof (cases "w_db w' = w_db w")
  case False
  with assms(1) obtain d k where st: "st_deleteMbox (su_id u) name (st_decreaseRefForMbox (su_id u) name (w_db w)) = (d, k)" "st_deleteZeroRef (su_id u) d = Inr (w_db w')"
    unfolding DeleteMailbox_def by (auto simp: Let_def ebind_Inr_iff split: sum.splits prod.splits option.splits if_splits dest!: run_InrD)
  from assms(2) have "I (st_decreaseRefForMbox (su_id u) name (w_db w))" by (auto simp: st_decreaseRefForMbox_def update_refs split: option.splits)
  with st(1) have "I d" by (auto simp: st_deleteMbox_def delete_mboxes)
  from delete_extKeys [OF st(2) [unfolded st_deleteZeroRef_def] this] show ?thesis .
qed (use assms in simp)

lemma RenameMailbox_keeps:
  assumes "RenameMailbox env u a b w = (w', e)" "I (w_db w)"
  shows "I (w_db w')"
proof (cases "RenameMailbox_tx env (su_id u) a b (w_db w)")
  case (Inr d')
  let ?inb = "\<lambda>d. if EqualFoldASCII a ''inbox'' then
      ebind (exec env ''createMbox'' 0 (st_createMbox (su_id u) a (u32 (se_Uint32 env 0)) None d)) (\<lambda>d.
      ebind (exec env ''mboxId'' 0 (case st_mboxId (su_id u) ''INBOX'' d of None \<Rightarrow> Inl ErrNoRows | Some i \<Rightarrow> Inr i)) (\<lambda>inboxId.
        exec env ''setInboxId'' 0 (Inr (st_setInboxId inboxId (su_id u) d)))) else Inr d"
  obtain d1 d2 d3 where st: "createParentDirs env (su_id u) b (w_db w) = Inr d1" "st_renameMbox b (su_id u) a d1 = Inr d2"
    "st_renameMboxChilds (se_like env) (b @ ''.'') (length (a @ ''.'')) (a @ ''.%'') (su_id u) d2 = Inr d3" "?inb d3 = Inr d'"
    using Inr unfolding RenameMailbox_tx_def ebind_Inr_iff by (blast dest: run_InrD)
  have "I d1" by (rule createParentDirs_keeps [OF st(1) assms(2)])
  with st(2) have "I d2" unfolding st_renameMbox_def by (rule renames_keep)
  with st(3) have d3: "I d3" unfolding st_renameMboxChilds_def by (rule renames_keep)
  have "I d'"
  proof (cases "EqualFoldASCII a ''inbox''")
    case True
    with st(4) obtain d4 i where "st_createMbox (su_id u) a (u32 (se_Uint32 env 0)) None d3 = Inr d4" "d' = st_setInboxId i (su_id u) d4"
      by (auto simp: ebind_Inr_iff dest!: run_InrD)
    with createMbox [OF _ d3] show ?thesis by (simp add: setInboxId_keeps)
  next
    case False
    with st(4) d3 show ?thesis by simp
  qed
  with Inr assms(1) show ?thesis by (auto simp: RenameMailbox_def)
qed (use assms in \<open>simp add: RenameMailbox_def\<close>)

lemma limits_keep:
  assumes "SetSubscribed env u name sub w = (w', e) \<or> user_SetMessageLimit env u v w = (w', e) \<or> mbox_SetMessageLimit env m v w = (w', e)" "I (w_db w)"
  shows "I (w_db w')"
  using assms unfolding SetSubscribed_def user_SetMessageLimit_def mbox_SetMessageLimit_def st_setSubbed_def st_setMboxMsgSizeLimit_def st_setUserMsgSizeLimit_def
  by (auto split: sum.splits intro!: update_mboxes update_users dest!: run_InrD)

lemma GetMailbox_keeps:
  assumes "GetMailbox env dr u name ro conn w = (w', r)" "I (w_db w)"
  shows "I (w_db w')"
  using assms(1) initSelected_keeps [OF _ assms(2)] assms(2) unfolding GetMailbox_def by (auto split: sum.splits if_splits prod.splits)

end

end
