(* ===== verification/Sql_Delivery.thy ===== *)
theory Sql_Delivery
  imports Sql_User Module_Api
begin

text \<open>
  Model of the delivery of a message to several accounts: \<^verbatim>\<open>internal/go-imap-sql/delivery.go\<close>.

  A delivery keeps its own transaction open from the body to \<open>Commit\<close> or \<open>Abort\<close>; \<open>dv_tx\<close> is the database as this transaction sees it. The calls made for
  each account fail independently of each other: the environment of a call is \<open>envs\<close> at the number of the call. \<open>dv_grow\<close> is the growth of a slice.
\<close>

section \<open>State\<close>

datatype tx_state = NoTx | OpenTx sqldb | DoneTx

record sql_delivery =
  dv_tx :: tx_state
  dv_users :: "sql_user list"
  dv_mboxes :: "sql_mailbox list"
  dv_cap :: nat
  dv_extKey :: string
  dv_perRcptHeader :: "string \<rightharpoonup> header"
  dv_flagOverrides :: "string \<rightharpoonup> string list"
  dv_mboxOverrides :: "string \<rightharpoonup> string"
  dv_pending :: "(nat \<times> nat) list"

record delivery_lib =
  dv_WriteHeader :: "header \<Rightarrow> goerr + string"
  dv_extract :: "header \<Rightarrow> string \<Rightarrow> goerr + string \<times> string"
  dv_grow :: "nat \<Rightarrow> nat"

definition ErrTxDone :: goerr where
  "ErrTxDone = Opaque ''sql: transaction has already been committed or rolled back'' None"

definition NewDelivery :: sql_delivery where
  "NewDelivery = \<lparr>dv_tx = NoTx, dv_users = [], dv_mboxes = [], dv_cap = 0, dv_extKey = '''', dv_perRcptHeader = Map.empty, dv_flagOverrides = Map.empty,
     dv_mboxOverrides = Map.empty, dv_pending = []\<rparr>"

text \<open>\<open>clean\<close> keeps the transaction and the overrides.\<close>

definition dv_clean :: "sql_delivery \<Rightarrow> sql_delivery" where
  "dv_clean dv = dv\<lparr>dv_users := [], dv_mboxes := [], dv_extKey := '''', dv_perRcptHeader := Map.empty, dv_pending := []\<rparr>"

section \<open>Recipients and mailboxes\<close>

definition dv_AddRcpt :: "sql_env \<Rightarrow> textlib \<Rightarrow> string \<Rightarrow> header \<Rightarrow> sqldb \<Rightarrow> sql_delivery \<Rightarrow> sql_delivery \<times> goerr option" where
  "dv_AddRcpt env lib username userHeader d dv =
     (let username = normalizeUsername lib username in
      case getUserMeta env username d of
        Inl e \<Rightarrow> (dv, Some (if same_err e ErrNoRows then ErrUserDoesntExists else e))
      | Inr (uid, inboxId) \<Rightarrow>
          (dv\<lparr>dv_users := dv_users dv @ [\<lparr>su_id = uid, su_username = username, su_inboxId = inboxId\<rparr>],
              dv_perRcptHeader := (dv_perRcptHeader dv)(username \<mapsto> userHeader)\<rparr>, None))"

definition reserve_mboxes :: "sql_delivery \<Rightarrow> sql_delivery" where
  "reserve_mboxes dv =
     (if dv_cap dv < length (dv_users dv) then dv\<lparr>dv_mboxes := [], dv_cap := length (dv_users dv)\<rparr> else dv)"

definition append_mbox :: "delivery_lib \<Rightarrow> sql_mailbox \<Rightarrow> sql_delivery \<Rightarrow> sql_delivery" where
  "append_mbox l m dv =
     dv\<lparr>dv_mboxes := dv_mboxes dv @ [m], dv_cap := (if length (dv_mboxes dv) < dv_cap dv then dv_cap dv else dv_grow l (dv_cap dv))\<rparr>"

definition drop_mboxes :: "sql_delivery \<Rightarrow> sql_delivery" where
  "drop_mboxes dv = dv\<lparr>dv_mboxes := [], dv_cap := 0\<rparr>"

text \<open>The mailbox a filter has chosen for an account, when it is there.\<close>

definition override_mbox :: "sql_env \<Rightarrow> sql_user \<Rightarrow> sqldb \<Rightarrow> sql_delivery \<Rightarrow> sql_mailbox option" where
  "override_mbox env u d dv =
     (case dv_mboxOverrides dv (su_username u) of
        None \<Rightarrow> None
      | Some name \<Rightarrow> if name = '''' then None else (case find_mailbox env u name d of Inl _ \<Rightarrow> None | Inr m \<Rightarrow> Some m))"

definition created_mbox ::
    "sql_env \<Rightarrow> sql_user \<Rightarrow> string \<Rightarrow> sql_world \<times> goerr option \<Rightarrow> sql_world \<times> (goerr + sql_mailbox)" where
  "created_mbox env u name r =
     (case r of
        (w, Some e) \<Rightarrow> if same_err e ErrMailboxAlreadyExists then (w, find_mailbox env u name (w_db w)) else (w, Inl e)
      | (w, None) \<Rightarrow> (w, find_mailbox env u name (w_db w)))"

definition user_mbox :: "sql_env \<Rightarrow> sql_env \<Rightarrow> string \<Rightarrow> sql_user \<Rightarrow> sql_world \<Rightarrow> sql_world \<times> (goerr + sql_mailbox)" where
  "user_mbox env env' name u w =
     (case find_mailbox env u name (w_db w) of
        Inr m \<Rightarrow> (w, Inr m)
      | Inl e \<Rightarrow> if \<not> same_err e ErrNoSuchMailbox then (w, Inl e) else created_mbox env' u name (CreateMailbox env' u name w))"

definition special_mbox :: "sql_env \<Rightarrow> sql_env \<Rightarrow> string \<Rightarrow> string \<Rightarrow> sql_user \<Rightarrow> sql_world \<Rightarrow> sql_world \<times> (goerr + sql_mailbox)" where
  "special_mbox env env' attribute fallbackName u w =
     (case exec env ''specialUseMbox'' 0 (case st_specialUseMbox (su_id u) attribute (w_db w) of None \<Rightarrow> Inl ErrNoRows | Some x \<Rightarrow> Inr x) of
        Inr (name, i) \<Rightarrow> (w, Inr (mbox_handle u i name))
      | Inl e \<Rightarrow> if \<not> same_err e ErrNoRows then (w, Inl e) else created_mbox env' u fallbackName (CreateMailboxSpecial env' u fallbackName attribute w))"

text \<open>The loop of \<open>Mailbox\<close> and \<open>SpecialMailbox\<close> over the accounts.\<close>

fun choose_mboxes ::
    "(nat \<Rightarrow> sql_env) \<Rightarrow> delivery_lib \<Rightarrow> (sql_env \<Rightarrow> sql_env \<Rightarrow> sql_user \<Rightarrow> sql_world \<Rightarrow> sql_world \<times> (goerr + sql_mailbox)) \<Rightarrow> nat \<Rightarrow> sql_user list \<Rightarrow>
     sql_delivery \<Rightarrow> sql_world \<Rightarrow> sql_delivery \<times> sql_world \<times> goerr option" where
  "choose_mboxes envs l f i [] dv w = (dv, w, None)"
| "choose_mboxes envs l f i (u # us) dv w =
     (case override_mbox (envs i) u (w_db w) dv of
        Some m \<Rightarrow> choose_mboxes envs l f (i + 3) us (append_mbox l m dv) w
      | None \<Rightarrow>
          (case f (envs (i + 1)) (envs (i + 2)) u w of
             (w, Inl e) \<Rightarrow> (drop_mboxes dv, w, Some e)
           | (w, Inr m) \<Rightarrow> choose_mboxes envs l f (i + 3) us (append_mbox l m dv) w))"

definition dv_Mailbox :: "(nat \<Rightarrow> sql_env) \<Rightarrow> delivery_lib \<Rightarrow> string \<Rightarrow> sql_delivery \<Rightarrow> sql_world \<Rightarrow> sql_delivery \<times> sql_world \<times> goerr option" where
  "dv_Mailbox envs l name dv w =
     choose_mboxes envs l (\<lambda>env env'. user_mbox env env' name) 0 (dv_users dv) (reserve_mboxes dv) w"

definition dv_SpecialMailbox ::
    "(nat \<Rightarrow> sql_env) \<Rightarrow> delivery_lib \<Rightarrow> string \<Rightarrow> string \<Rightarrow> sql_delivery \<Rightarrow> sql_world \<Rightarrow> sql_delivery \<times> sql_world \<times> goerr option" where
  "dv_SpecialMailbox envs l attribute fallbackName dv w =
     choose_mboxes envs l (\<lambda>env env'. special_mbox env env' attribute fallbackName) 0 (dv_users dv) (reserve_mboxes dv) w"

definition dv_UserMailbox :: "string \<Rightarrow> string \<Rightarrow> string list \<Rightarrow> sql_delivery \<Rightarrow> sql_delivery" where
  "dv_UserMailbox username mailbox flags dv =
     dv\<lparr>dv_mboxOverrides := (dv_mboxOverrides dv)(username \<mapsto> mailbox), dv_flagOverrides := (dv_flagOverrides dv)(username \<mapsto> flags)\<rparr>"

section \<open>The body\<close>

definition processParsedBody ::
    "sql_env \<Rightarrow> delivery_lib \<Rightarrow> nat \<Rightarrow> string \<Rightarrow> header \<Rightarrow> string \<Rightarrow> (string \<rightharpoonup> string) \<Rightarrow> (string \<rightharpoonup> string) \<times> (goerr + string \<times> string \<times> string)" where
  "processParsedBody env l i headerInput hdr body st =
     (case se_key env i of
        Inl e \<Rightarrow> (st, Inl e)
      | Inr k \<Rightarrow>
          (case exec env ''Create'' i (Inr ()) of
             Inl e \<Rightarrow> (st, Inl e)
           | Inr _ \<Rightarrow>
               let st = st(k \<mapsto> '''') in
               case exec env ''WrapCompress'' i (Inr ()) of
                 Inl e \<Rightarrow> (st, Inl e)
               | Inr _ \<Rightarrow>
                   (case ebind (exec env ''Write'' i (Inr ())) (\<lambda>_. ebind (dv_extract l hdr body) (\<lambda>r. ebind (exec env ''Copy'' i (Inr ())) (\<lambda>_. Inr r))) of
                      Inl e \<Rightarrow> (fst (ext_Delete env [k] st), Inl e)
                    | Inr (bodyStruct, cachedHeader) \<Rightarrow>
                        let st = st(k \<mapsto> se_encode env (headerInput @ body)) in
                        case exec env ''Sync'' i (Inr ()) of
                          Inl e \<Rightarrow> (st, Inl e)
                        | Inr _ \<Rightarrow> (st, Inr (bodyStruct, cachedHeader, k)))))"

text \<open>\<open>Add\<close> puts a field on top of a header.\<close>

definition rcpt_header :: "sql_delivery \<Rightarrow> header \<Rightarrow> sql_mailbox \<Rightarrow> header" where
  "rcpt_header dv hdr m = (case dv_perRcptHeader dv (sm_username m) of None \<Rightarrow> hdr | Some fs \<Rightarrow> rev fs @ hdr)"

definition rcpt_flags :: "sql_delivery \<Rightarrow> sql_mailbox \<Rightarrow> string list" where
  "rcpt_flags dv m = (case dv_flagOverrides dv (sm_username m) of None \<Rightarrow> [] | Some fs \<Rightarrow> fs)"

record body_state =
  bs_db :: sqldb
  bs_store :: "string \<rightharpoonup> string"
  bs_pending :: "(nat \<times> nat) list"

definition mboxDelivery ::
    "sql_env \<Rightarrow> delivery_lib \<Rightarrow> nat \<Rightarrow> sql_delivery \<Rightarrow> header \<Rightarrow> nat \<Rightarrow> string \<Rightarrow> sql_mailbox \<Rightarrow> body_state \<Rightarrow> body_state \<times> goerr option" where
  "mboxDelivery env l i dv hdr bodyLen body m s =
     (let hdr = rcpt_header dv hdr m in
      case ebind (dv_WriteHeader l hdr) (\<lambda>blob. ebind (exec env ''Open'' i (Inr ())) (\<lambda>_. Inr blob)) of
        Inl e \<Rightarrow> (s, Some e)
      | Inr blob \<Rightarrow>
          (case processParsedBody env l i blob hdr body (bs_store s) of
             (st, Inl e) \<Rightarrow> (s\<lparr>bs_store := st\<rparr>, Some e)
           | (st, Inr (bodyStruct, cachedHeader, k)) \<Rightarrow>
               let undo = fst (ext_Delete env [k] st) in
               (case exec env ''addExtKey'' i (st_addExtKey k (sm_user m) 1 (bs_db s)) of
                  Inl e \<Rightarrow> (s\<lparr>bs_store := undo\<rparr>, Some e)
                | Inr d \<Rightarrow>
                    (case incrementMsgCounters env i (sm_id m) d of
                       Inl e \<Rightarrow> (s\<lparr>bs_db := d, bs_store := undo\<rparr>, Some e)
                     | Inr (d, msgId) \<Rightarrow>
                         let s = s\<lparr>bs_pending := bs_pending s @ [(sm_id m, msgId)]\<rparr> in
                         case add_message env i (sm_user m) (sm_id m) msgId (se_now env) (length blob + bodyLen) (bodyStruct, cachedHeader, k) False True
                                (rcpt_flags dv m) d of
                           Inl e \<Rightarrow> (s\<lparr>bs_db := d, bs_store := undo\<rparr>, Some e)
                         | Inr d \<Rightarrow> (s\<lparr>bs_db := d, bs_store := st\<rparr>, None)))))"

fun deliver_all ::
    "sql_env \<Rightarrow> delivery_lib \<Rightarrow> nat \<Rightarrow> sql_delivery \<Rightarrow> header \<Rightarrow> nat \<Rightarrow> string \<Rightarrow> sql_mailbox list \<Rightarrow> body_state \<Rightarrow> body_state \<times> goerr option" where
  "deliver_all env l i dv hdr bodyLen body [] s = (s, None)"
| "deliver_all env l i dv hdr bodyLen body (m # ms) s =
     (case mboxDelivery env l i dv hdr bodyLen body m s of
        (s, Some e) \<Rightarrow> (s, Some e)
      | (s, None) \<Rightarrow> deliver_all env l (Suc i) dv hdr bodyLen body ms s)"

text \<open>\<open>BodyParsed\<close>. After an error of the body the transaction stays open, with what was written before.\<close>

definition dv_BodyParsed ::
    "(nat \<Rightarrow> sql_env) \<Rightarrow> delivery_lib \<Rightarrow> header \<Rightarrow> nat \<Rightarrow> string \<Rightarrow> sql_delivery \<Rightarrow> sql_world \<Rightarrow> sql_delivery \<times> sql_world \<times> goerr option" where
  "dv_BodyParsed envs l hdr bodyLen body dv w =
     (case (if dv_mboxes dv = [] then dv_Mailbox envs l ''INBOX'' dv w else (dv, w, None)) of
        (dv, w, Some e) \<Rightarrow> (dv, w, Some e)
      | (dv, w, None) \<Rightarrow>
          let env = envs (3 * length (dv_users dv)) in
          case ebind (if \<exists>m\<in>set (dv_mboxes dv). rcpt_flags dv m \<noteq> [] then exec env ''getFlagsAddStmt'' 0 (Inr ()) else Inr ()) (\<lambda>_.
                 exec env ''Begin'' 0 (Inr ())) of
            Inl e \<Rightarrow> (dv, w, Some e)
          | Inr _ \<Rightarrow>
              (case deliver_all env l 0 dv hdr bodyLen body (dv_mboxes dv) \<lparr>bs_db = w_db w, bs_store = w_store w, bs_pending = dv_pending dv\<rparr> of
                 (s, e) \<Rightarrow> (dv\<lparr>dv_tx := OpenTx (bs_db s), dv_pending := bs_pending s\<rparr>, w\<lparr>w_store := bs_store s\<rparr>, e)))"

section \<open>The end\<close>

definition dv_Abort :: "sql_env \<Rightarrow> sql_delivery \<Rightarrow> sql_world \<Rightarrow> sql_delivery \<times> sql_world \<times> goerr option" where
  "dv_Abort env dv w =
     (case (case dv_tx dv of NoTx \<Rightarrow> (dv, None) | OpenTx _ \<Rightarrow> (dv\<lparr>dv_tx := DoneTx\<rparr>, (if se_flt env ''Rollback'' 0 then Some (Opaque ''Rollback'' None) else None))
            | DoneTx \<Rightarrow> (dv, Some ErrTxDone)) of
        (dv, Some e) \<Rightarrow> (dv, w, Some e)
      | (dv, None) \<Rightarrow>
          (case (if dv_extKey dv \<noteq> '''' then ext_Delete env [dv_extKey dv] (w_store w) else (w_store w, None)) of
             (st, Some e) \<Rightarrow> (dv, w\<lparr>w_store := st\<rparr>, Some e)
           | (st, None) \<Rightarrow> (dv_clean dv, w\<lparr>w_store := st\<rparr>, None)))"

definition dv_Commit :: "sql_env \<Rightarrow> sql_delivery \<Rightarrow> sql_world \<Rightarrow> sql_delivery \<times> sql_world \<times> goerr option" where
  "dv_Commit env dv w =
     (case (case dv_tx dv of NoTx \<Rightarrow> (dv, w, None)
            | OpenTx d \<Rightarrow> (case exec env ''Commit'' 0 (Inr d) of Inl e \<Rightarrow> (dv\<lparr>dv_tx := DoneTx\<rparr>, w, Some e) | Inr d \<Rightarrow> (dv\<lparr>dv_tx := DoneTx\<rparr>, w\<lparr>w_db := d\<rparr>, None))
            | DoneTx \<Rightarrow> (dv, w, Some ErrTxDone)) of
        (dv, w, Some e) \<Rightarrow> (dv, w, Some e)
      | (dv, w, None) \<Rightarrow> (dv_clean dv, w\<lparr>w_events := w_events w @ map (\<lambda>(i, u). NewMessage i u) (dv_pending dv)\<rparr>, None))"

section \<open>Lemmas\<close>

text \<open>A database that has more: mailboxes in the same places with no smaller \<open>uidnext\<close>, and no fewer messages.\<close>

definition grows :: "sqldb \<Rightarrow> sqldb \<Rightarrow> bool" where
  "grows d d' \<longleftrightarrow> list_all2 (\<lambda>b c. mb_uidnext b \<le> mb_uidnext c) (db_mboxes d) (db_mboxes d') \<and> length (db_msgs d) \<le> length (db_msgs d')"

lemma grows_refl: "grows d d"
  by (simp add: grows_def list.rel_refl)

lemma grows_trans: "grows a b \<Longrightarrow> grows b c \<Longrightarrow> grows a c"
  unfolding grows_def by (auto elim: list_all2_trans [rotated] intro: le_trans)

lemma grows_small: "grows d d' \<Longrightarrow> small d' \<Longrightarrow> small d"
  unfolding grows_def small_def by (auto simp: list_all2_conv_all_nth all_set_conv_all_nth) (metis le_trans)

lemma grows_increase: "grows d (st_increaseMsgCount n k i d)"
  by (simp add: grows_def st_increaseMsgCount_def update_mboxes_def list_all2_conv_all_nth)

lemma add_message_steps:
  assumes "add_message env j uid i n t len (bs, ch, k) sn rc fl d = Inr d'"
  obtains r where "r = \<lparr>ms_mboxId = i, ms_msgId = n, ms_date = t, ms_bodyLen = len, ms_mark = False, ms_bodyStructure = bs,
               ms_cachedHeader = ch, ms_extBodyKey = k, ms_seen = sn, ms_compressAlgo = se_CompressAlgo env, ms_recent = rc\<rparr>"
    "db_msgs d' = db_msgs d @ [r]" "db_mboxes d' = db_mboxes d" "db_extKeys d' = db_extKeys d" "set (db_flags d) \<subseteq> set (db_flags d')"
    "\<forall>f\<in>set fl. has_flag d' f r"
proof -
  let ?r = "\<lparr>ms_mboxId = i, ms_msgId = n, ms_date = t, ms_bodyLen = len, ms_mark = False, ms_bodyStructure = bs,
               ms_cachedHeader = ch, ms_extBodyKey = k, ms_seen = sn, ms_compressAlgo = se_CompressAlgo env, ms_recent = rc\<rparr>"
  let ?d = "d\<lparr>db_msgs := db_msgs d @ [?r]\<rparr>"
  have i: "insert_msg ?r d = Inr ?d" and d': "d' = (if fl = [] then ?d else st_flagsAdd fl i n n ?d)"
    using assms by (auto simp: add_message_def ebind_Inr_iff insert_msg_def dest!: run_InrD split: if_splits)
  let ?new = "concat (map (\<lambda>r. map (\<lambda>f. (i, ms_msgId r, f)) fl) (filter (in_range i n n) (db_msgs ?d)))"
  let ?add = "\<lambda>gs fs. fold (\<lambda>f fs. if f \<in> set fs then fs else fs @ [f]) gs fs"
  have set_add: "set (?add gs fs) = set fs \<union> set gs" for gs :: "flag_row list" and fs by (induction gs arbitrary: fs) auto
  have "(i, n, f) \<in> set ?new" if "f \<in> set fl" for f using that by (auto simp: in_range_def)
  with set_add [of ?new "db_flags d"] have "fl \<noteq> [] \<Longrightarrow> set (db_flags d) \<subseteq> set (db_flags d') \<and> (\<forall>f\<in>set fl. (i, n, f) \<in> set (db_flags d'))"
    by (auto simp: d' st_flagsAdd_def)
  then have "set (db_flags d) \<subseteq> set (db_flags d')" "\<forall>f\<in>set fl. has_flag d' f ?r" using d' by (cases "fl = []"; simp add: has_flag_def)+
  then show ?thesis by (intro that [OF refl]) (simp_all add: d' st_flagsAdd_def)
qed

lemma mboxDelivery_steps:
  assumes "mboxDelivery env l i dv hdr bl body m s = (s', None)"
  obtains blob k bs ch d1 d2 n where "dv_WriteHeader l (rcpt_header dv hdr m) = Inr blob"
    "bs_store s' = (bs_store s)(k \<mapsto> se_encode env (blob @ body))" "st_addExtKey k (sm_user m) 1 (bs_db s) = Inr d1"
    "incrementMsgCounters env i (sm_id m) d1 = Inr (d2, n)"
    "add_message env i (sm_user m) (sm_id m) n (se_now env) (length blob + bl) (bs, ch, k) False True (rcpt_flags dv m) d2 = Inr (bs_db s')"
    "bs_pending s' = bs_pending s @ [(sm_id m, n)]"
proof -
  have p: "\<exists>k. fst r = st(k \<mapsto> se_encode env (blob @ body)) \<and> x = (b, c, k)"
    if "r = processParsedBody env l i blob h body st" "snd r = Inr x" "x = (b, c, k')" for r blob h st x b c k'
    using that unfolding processParsedBody_def by (auto simp: Let_def split: sum.splits)
  obtain blob where b: "dv_WriteHeader l (rcpt_header dv hdr m) = Inr blob" and
    m: "(case processParsedBody env l i blob (rcpt_header dv hdr m) body (bs_store s) of
             (st, Inl e) \<Rightarrow> (s\<lparr>bs_store := st\<rparr>, Some e)
           | (st, Inr (bodyStruct, cachedHeader, k)) \<Rightarrow>
               let undo = fst (ext_Delete env [k] st) in
               (case exec env ''addExtKey'' i (st_addExtKey k (sm_user m) 1 (bs_db s)) of
                  Inl e \<Rightarrow> (s\<lparr>bs_store := undo\<rparr>, Some e)
                | Inr d \<Rightarrow>
                    (case incrementMsgCounters env i (sm_id m) d of
                       Inl e \<Rightarrow> (s\<lparr>bs_db := d, bs_store := undo\<rparr>, Some e)
                     | Inr (d, msgId) \<Rightarrow>
                         let s = s\<lparr>bs_pending := bs_pending s @ [(sm_id m, msgId)]\<rparr> in
                         case add_message env i (sm_user m) (sm_id m) msgId (se_now env) (length blob + bl) (bodyStruct, cachedHeader, k) False True
                                (rcpt_flags dv m) d of
                           Inl e \<Rightarrow> (s\<lparr>bs_db := d, bs_store := undo\<rparr>, Some e)
                         | Inr d \<Rightarrow> (s\<lparr>bs_db := d, bs_store := st\<rparr>, None)))) = (s', None)"
    using assms unfolding mboxDelivery_def Let_def by (auto simp: ebind_def split: sum.split_asm)
  obtain st bs ch k where pb: "processParsedBody env l i blob (rcpt_header dv hdr m) body (bs_store s) = (st, Inr (bs, ch, k))"
    using m by (cases "processParsedBody env l i blob (rcpt_header dv hdr m) body (bs_store s)") (auto split: sum.splits)
  from p [OF pb [symmetric]] have st: "st = (bs_store s)(k \<mapsto> se_encode env (blob @ body))" by auto
  obtain d1 where d1: "exec env ''addExtKey'' i (st_addExtKey k (sm_user m) 1 (bs_db s)) = Inr d1"
    using m unfolding pb Let_def by (auto split: sum.splits)
  obtain d2 n where d2: "incrementMsgCounters env i (sm_id m) d1 = Inr (d2, n)" using m by (auto simp: pb d1 Let_def split: sum.splits)
  obtain d3 where d3: "add_message env i (sm_user m) (sm_id m) n (se_now env) (length blob + bl) (bs, ch, k) False True (rcpt_flags dv m) d2 = Inr d3"
    using m by (auto simp: pb d1 d2 Let_def split: sum.splits)
  have s': "s' = s\<lparr>bs_pending := bs_pending s @ [(sm_id m, n)], bs_db := d3, bs_store := st\<rparr>" using m by (simp add: pb d1 d2 d3 Let_def)
  show ?thesis by (rule that [OF b _ run_InrD [OF d1] d2, where bs = bs and ch = ch]) (simp_all add: s' st d3)
qed

text \<open>What one account gets: a new unseen message with the fields of the account on top, its body in the store, a notification.\<close>

definition delivered ::
    "sql_env \<Rightarrow> delivery_lib \<Rightarrow> sql_delivery \<Rightarrow> header \<Rightarrow> nat \<Rightarrow> string \<Rightarrow> body_state \<Rightarrow> sql_mailbox \<Rightarrow> msg_row \<Rightarrow> bool" where
  "delivered env l dv hdr n body s m r \<longleftrightarrow>
     ms_mboxId r = sm_id m \<and> ms_recent r \<and> \<not> ms_seen r \<and> (\<forall>f\<in>set (rcpt_flags dv m). has_flag (bs_db s) f r) \<and>
     (sm_id m, ms_msgId r) \<in> set (bs_pending s) \<and> ms_extBodyKey r \<in> ek_id ` set (db_extKeys (bs_db s)) \<and>
     (\<exists>blob. dv_WriteHeader l (rcpt_header dv hdr m) = Inr blob \<and> ms_bodyLen r = length blob + n \<and>
        bs_store s (ms_extBodyKey r) = Some (se_encode env (blob @ body)))"

lemma mboxDelivery_delivered:
  assumes "mboxDelivery env l i dv hdr bl body m s = (s', None)"
  shows "\<exists>r. db_msgs (bs_db s') = db_msgs (bs_db s) @ [r] \<and> delivered env l dv hdr bl body s' m r"
    "delivered env l dv hdr bl body s m' r' \<Longrightarrow> delivered env l dv hdr bl body s' m' r'" "grows (bs_db s) (bs_db s')"
proof -
  from assms obtain blob k bs ch d1 d2 n where
    st: "dv_WriteHeader l (rcpt_header dv hdr m) = Inr blob" "bs_store s' = (bs_store s)(k \<mapsto> se_encode env (blob @ body))"
    "st_addExtKey k (sm_user m) 1 (bs_db s) = Inr d1" "incrementMsgCounters env i (sm_id m) d1 = Inr (d2, n)"
    "add_message env i (sm_user m) (sm_id m) n (se_now env) (length blob + bl) (bs, ch, k) False True (rcpt_flags dv m) d2 = Inr (bs_db s')"
    "bs_pending s' = bs_pending s @ [(sm_id m, n)]" by (rule mboxDelivery_steps)
  from add_message_steps [OF st(5)] obtain r where
    r: "r = \<lparr>ms_mboxId = sm_id m, ms_msgId = n, ms_date = se_now env, ms_bodyLen = length blob + bl, ms_mark = False, ms_bodyStructure = bs,
               ms_cachedHeader = ch, ms_extBodyKey = k, ms_seen = False, ms_compressAlgo = se_CompressAlgo env, ms_recent = True\<rparr>"
    "db_msgs (bs_db s') = db_msgs d2 @ [r]" "db_mboxes (bs_db s') = db_mboxes d2" "db_extKeys (bs_db s') = db_extKeys d2"
    "set (db_flags d2) \<subseteq> set (db_flags (bs_db s'))" "\<forall>f\<in>set (rcpt_flags dv m). has_flag (bs_db s') f r" by blast
  have k: "k \<notin> ek_id ` set (db_extKeys (bs_db s))" "d1 = (bs_db s)\<lparr>db_extKeys := db_extKeys (bs_db s) @ [\<lparr>ek_id = k, ek_uid = sm_user m, ek_refs = 1\<rparr>]\<rparr>"
    using st(3) by (simp_all add: st_addExtKey_def split: if_splits)
  have d2: "d2 = st_increaseMsgCount 1 1 (sm_id m) d1" by (rule incrementMsgCounters_inc [OF st(4)])
  have e: "db_msgs d2 = db_msgs (bs_db s)" "db_extKeys d2 = db_extKeys d1" "db_flags d2 = db_flags (bs_db s)"
    by (simp_all add: d2 k(2) st_increaseMsgCount_def update_mboxes_def)
  have "delivered env l dv hdr bl body s' m r" using r(1,6) st(1,2,6) k(2) r(4) e(2) by (simp add: delivered_def)
  with r(2) e(1) show "\<exists>r. db_msgs (bs_db s') = db_msgs (bs_db s) @ [r] \<and> delivered env l dv hdr bl body s' m r" by auto
  show "delivered env l dv hdr bl body s' m' r'" if "delivered env l dv hdr bl body s m' r'"
  proof -
    from that have "ms_extBodyKey r' \<noteq> k" using k(1) by (auto simp: delivered_def)
    with that r(4,5) e k(2) st(2,6) show ?thesis by (auto simp: delivered_def has_flag_def)
  qed
  have "grows d1 (bs_db s')" using grows_increase [of d1 1 1 "sm_id m"] r(2,3) e(1) by (simp add: grows_def d2)
  then show "grows (bs_db s) (bs_db s')" by (simp add: grows_def k(2))
qed

lemma deliver_all_delivered:
  assumes "deliver_all env l i dv hdr bl body ms s = (s', None)"
  shows "\<exists>rs. db_msgs (bs_db s') = db_msgs (bs_db s) @ rs \<and> list_all2 (delivered env l dv hdr bl body s') ms rs"
    "delivered env l dv hdr bl body s m' r' \<Longrightarrow> delivered env l dv hdr bl body s' m' r'" "grows (bs_db s) (bs_db s')"
  using assms
proof (induction ms arbitrary: i s m' r')
  case Nil
  { case 1 then show ?case by simp next case 2 then show ?case by simp next case 3 then show ?case by (simp add: grows_refl) }
next
  case (Cons m ms)
  have "\<exists>s1. mboxDelivery env l i dv hdr bl body m s = (s1, None) \<and> deliver_all env l (Suc i) dv hdr bl body ms s1 = (s', None)"
    if "deliver_all env l i dv hdr bl body (m # ms) s = (s', None)" for i s using that by (auto split: prod.splits option.splits)
  note s1 = this
  { case 1
    from s1 [OF 1] obtain s1 where s1: "mboxDelivery env l i dv hdr bl body m s = (s1, None)" "deliver_all env l (Suc i) dv hdr bl body ms s1 = (s', None)" by blast
    from mboxDelivery_delivered(1) [OF s1(1)] obtain r where r: "db_msgs (bs_db s1) = db_msgs (bs_db s) @ [r]" "delivered env l dv hdr bl body s1 m r" by blast
    from Cons.IH(1) [OF s1(2)] obtain rs where rs: "db_msgs (bs_db s') = db_msgs (bs_db s1) @ rs" "list_all2 (delivered env l dv hdr bl body s') ms rs" by blast
    from Cons.IH(2) [OF r(2) s1(2)] rs r(1) show ?case by (intro exI [of _ "r # rs"]) simp
  next
    case 2
    from s1 [OF 2(2)] obtain s1 where s1: "mboxDelivery env l i dv hdr bl body m s = (s1, None)" "deliver_all env l (Suc i) dv hdr bl body ms s1 = (s', None)" by blast
    from Cons.IH(2) [OF mboxDelivery_delivered(2) [OF s1(1) 2(1)] s1(2)] show ?case .
  next
    case 3
    from s1 [OF 3] obtain s1 where s1: "mboxDelivery env l i dv hdr bl body m s = (s1, None)" "deliver_all env l (Suc i) dv hdr bl body ms s1 = (s', None)" by blast
    from grows_trans [OF mboxDelivery_delivered(3) [OF s1(1)] Cons.IH(3) [OF s1(2)]] show ?case .
  }
qed

lemma mboxDelivery_store_ok:
  assumes "mboxDelivery env l i dv hdr bl body m s = (s', None)" "store_ok d0 (bs_db s)" "schema_ok d0" "small (bs_db s')"
  shows "store_ok d0 (bs_db s')"
proof -
  from assms(1) obtain blob k bs ch d1 d2 n where "dv_WriteHeader l (rcpt_header dv hdr m) = Inr blob"
    "bs_store s' = (bs_store s)(k \<mapsto> se_encode env (blob @ body))" and st: "st_addExtKey k (sm_user m) 1 (bs_db s) = Inr d1"
    "incrementMsgCounters env i (sm_id m) d1 = Inr (d2, n)"
    "add_message env i (sm_user m) (sm_id m) n (se_now env) (length blob + bl) (bs, ch, k) False True (rcpt_flags dv m) d2 = Inr (bs_db s')"
    and "bs_pending s' = bs_pending s @ [(sm_id m, n)]" by (rule mboxDelivery_steps)
  have ok: "store_ok d0 d1" using addExtKey_inv [OF st(1)] assms(2) by (simp add: store_ok_def)
  have "schema_ok d2" using incrementMsgCounters_inc [OF st(2)] ok by (simp add: store_ok_def increaseMsgCount_inv)
  from new_message_ok [OF st(2,3) ok assms(3) this refl refl refl refl] assms(4) show ?thesis by (simp add: small_def)
qed

lemma deliver_all_store_ok:
  assumes "deliver_all env l i dv hdr bl body ms s = (s', None)" "store_ok d0 (bs_db s)" "schema_ok d0" "small (bs_db s')"
  shows "store_ok d0 (bs_db s')"
  using assms
proof (induction ms arbitrary: i s)
  case (Cons m ms)
  from Cons.prems(1) obtain s1 where s1: "mboxDelivery env l i dv hdr bl body m s = (s1, None)" "deliver_all env l (Suc i) dv hdr bl body ms s1 = (s', None)"
    by (auto split: prod.splits option.splits)
  have "small (bs_db s1)" by (rule grows_small [OF deliver_all_delivered(3) [OF s1(2)] Cons.prems(4)])
  from Cons.IH [OF s1(2) mboxDelivery_store_ok [OF s1(1) Cons.prems(2,3) this] Cons.prems(3,4)] show ?case .
qed simp

text \<open>Choosing the mailboxes adds mailboxes only.\<close>

lemma createMbox_msgs: "st_createMbox uid name v sp d = Inr d' \<Longrightarrow> db_msgs d' = db_msgs d"
  by (auto simp: st_createMbox_def Let_def split: if_splits)

lemma create_mailbox_msgs:
  assumes "create_mailbox_tx env uid name sp d = Inr d'"
  shows "db_msgs d' = db_msgs d"
proof -
  obtain d1 where st: "createParentDirs env uid name d = Inr d1" "st_createMbox uid name (u32 (se_Uint32 env 0)) sp d1 = Inr d'"
    using create_mailbox_tx_steps [OF assms] by blast
  have "db_msgs d1 = db_msgs d"
    by (rule fold_rows_keeps [OF st(1) [unfolded createParentDirs_def], of "\<lambda>x. db_msgs x = db_msgs d"])
      (auto simp: st_createMboxExistsOk_def createMbox_msgs split: if_splits dest!: run_InrD)
  with createMbox_msgs [OF st(2)] show ?thesis by simp
qed

lemma find_mailbox_user: "find_mailbox env u name d = Inr m \<Longrightarrow> sm_user m = su_id u \<and> sm_username m = su_username u"
  by (auto simp: find_mailbox_def mbox_handle_def ebind_Inr_iff split: if_splits)

text \<open>What choosing one mailbox keeps: everything but the table of the mailboxes, and the invariant.\<close>

definition only_mboxes :: "sql_world \<Rightarrow> sql_world \<Rightarrow> bool" where
  "only_mboxes w w' \<longleftrightarrow> db_msgs (w_db w') = db_msgs (w_db w) \<and> w_store w' = w_store w \<and> w_events w' = w_events w \<and>
     (\<forall>d0. store_kept d0 (w_db w) \<longrightarrow> store_kept d0 (w_db w')) \<and> (exact (w_db w) \<longrightarrow> exact (w_db w'))"

lemma only_mboxes_refl: "only_mboxes w w"
  by (simp add: only_mboxes_def)

lemma only_mboxes_trans: "only_mboxes a b \<Longrightarrow> only_mboxes b c \<Longrightarrow> only_mboxes a c"
  by (simp add: only_mboxes_def)

lemma create_only_mboxes:
  assumes "CreateMailbox env u name w = (w', e) \<or> CreateMailboxSpecial env u name attr w = (w', e)"
  shows "only_mboxes w w'"
  using assms create_mailbox_msgs stored.CreateMailbox_keeps [OF assms] counted.CreateMailbox_keeps [OF assms] unfolding only_mboxes_def
  by (auto simp: CreateMailbox_def CreateMailboxSpecial_def split: sum.splits if_splits)

lemma created_mbox_user: "created_mbox env u name (w, e) = (w', Inr m) \<Longrightarrow> sm_user m = su_id u" "created_mbox env u name (w, e) = (w', r) \<Longrightarrow> w' = w"
  by (auto simp: created_mbox_def dest: find_mailbox_user split: option.splits if_splits)

lemma chosen_mbox:
  assumes "user_mbox env env' name u w = (w', r) \<or> special_mbox env env' attr name u w = (w', r)"
  shows "only_mboxes w w'" "r = Inr m \<Longrightarrow> sm_user m = su_id u"
proof -
  obtain w1 e1 w2 e2 where c: "CreateMailbox env' u name w = (w1, e1)" "CreateMailboxSpecial env' u name attr w = (w2, e2)" by fastforce
  have o: "only_mboxes w w1" "only_mboxes w w2" using create_only_mboxes c by blast+
  show "only_mboxes w w'" using assms o
    by (auto simp: user_mbox_def special_mbox_def c only_mboxes_refl dest: created_mbox_user(2) split: sum.splits if_splits)
  show "sm_user m = su_id u" if "r = Inr m" using assms that
    by (auto simp: user_mbox_def special_mbox_def c mbox_handle_def dest: find_mailbox_user created_mbox_user(1) split: sum.splits if_splits)
qed

lemma choose_mboxes_inv:
  assumes "choose_mboxes envs l f i us dv w = (dv', w', e)" "\<And>env env' u w w' r m. f env env' u w = (w', r) \<Longrightarrow> only_mboxes w w' \<and> (r = Inr m \<longrightarrow> sm_user m = su_id u)"
  shows "only_mboxes w w' \<and> dv_users dv' = dv_users dv \<and> dv_pending dv' = dv_pending dv \<and> dv_tx dv' = dv_tx dv \<and> dv_extKey dv' = dv_extKey dv \<and>
    dv_perRcptHeader dv' = dv_perRcptHeader dv \<and> dv_flagOverrides dv' = dv_flagOverrides dv \<and>
    (e = None \<longrightarrow> map sm_user (dv_mboxes dv') = map sm_user (dv_mboxes dv) @ map su_id us)"
  using assms(1)
proof (induction us arbitrary: i dv w)
  case Nil
  then show ?case by (simp add: only_mboxes_refl)
next
  case (Cons u us)
  show ?case
  proof (cases "override_mbox (envs i) u (w_db w) dv")
    case (Some m)
    then have m: "sm_user m = su_id u" by (auto simp: override_mbox_def dest: find_mailbox_user split: option.splits if_splits sum.splits)
    from Cons.IH [of "i + 3" "append_mbox l m dv" w] Cons.prems Some m show ?thesis by (simp add: append_mbox_def)
  next
    case None
    obtain w1 r where f: "f (envs (i + 1)) (envs (i + 2)) u w = (w1, r)" by fastforce
    show ?thesis
    proof (cases r)
      case (Inl e')
      with Cons.prems None f assms(2) [OF f] show ?thesis by (auto simp: drop_mboxes_def)
    next
      case (Inr m)
      with Cons.prems None f have ch: "choose_mboxes envs l f (i + 3) us (append_mbox l m dv) w1 = (dv', w', e)" by simp
      have o: "only_mboxes w w1" "sm_user m = su_id u" using assms(2) [OF f] Inr by blast+
      from Cons.IH [OF ch] o(2) only_mboxes_trans [OF o(1), of w'] show ?thesis by (auto simp: append_mbox_def)
    qed
  qed
qed

lemma dv_Mailbox_inv:
  assumes "dv_Mailbox envs l name dv w = (dv', w', e) \<or> dv_SpecialMailbox envs l attr name dv w = (dv', w', e)"
  shows "only_mboxes w w' \<and> dv_users dv' = dv_users dv \<and> dv_pending dv' = dv_pending dv \<and> dv_tx dv' = dv_tx dv \<and> dv_extKey dv' = dv_extKey dv \<and>
    dv_perRcptHeader dv' = dv_perRcptHeader dv \<and> dv_flagOverrides dv' = dv_flagOverrides dv \<and>
    (e = None \<longrightarrow> dv_mboxes dv = [] \<longrightarrow> map sm_user (dv_mboxes dv') = map su_id (dv_users dv))"
proof -
  have f: "choose_mboxes envs l (\<lambda>env env'. user_mbox env env' name) 0 (dv_users dv) (reserve_mboxes dv) w = (dv', w', e) \<or>
    choose_mboxes envs l (\<lambda>env env'. special_mbox env env' attr name) 0 (dv_users dv) (reserve_mboxes dv) w = (dv', w', e)"
    using assms by (simp add: dv_Mailbox_def dv_SpecialMailbox_def)
  let ?R = "only_mboxes w w' \<and> dv_users dv' = dv_users (reserve_mboxes dv) \<and> dv_pending dv' = dv_pending (reserve_mboxes dv) \<and> dv_tx dv' = dv_tx (reserve_mboxes dv) \<and>
    dv_extKey dv' = dv_extKey (reserve_mboxes dv) \<and> dv_perRcptHeader dv' = dv_perRcptHeader (reserve_mboxes dv) \<and>
    dv_flagOverrides dv' = dv_flagOverrides (reserve_mboxes dv) \<and>
    (e = None \<longrightarrow> map sm_user (dv_mboxes dv') = map sm_user (dv_mboxes (reserve_mboxes dv)) @ map su_id (dv_users dv))"
  have ?R
  proof (rule disjE [OF f])
    assume "choose_mboxes envs l (\<lambda>env env'. user_mbox env env' name) 0 (dv_users dv) (reserve_mboxes dv) w = (dv', w', e)"
    then show ?R by (rule choose_mboxes_inv) (use chosen_mbox in blast)
  next
    assume "choose_mboxes envs l (\<lambda>env env'. special_mbox env env' attr name) 0 (dv_users dv) (reserve_mboxes dv) w = (dv', w', e)"
    then show ?R by (rule choose_mboxes_inv) (use chosen_mbox in blast)
  qed
  then show ?thesis by (simp add: reserve_mboxes_def split: if_splits)
qed

text \<open>The body, and the state it leaves.\<close>

lemma BodyParsed_steps:
  assumes "dv_BodyParsed envs l hdr n body dv w = (dv1, w1, e)"
  obtains dv0 w0 where "only_mboxes w w0" "dv_pending dv0 = dv_pending dv" "dv_perRcptHeader dv0 = dv_perRcptHeader dv" "dv_flagOverrides dv0 = dv_flagOverrides dv"
    "w_db w1 = w_db w0" "w_events w1 = w_events w0"
    "e = None \<longrightarrow> dv_mboxes dv = [] \<longrightarrow> map sm_user (dv_mboxes dv1) = map su_id (dv_users dv)"
    "e = None \<longrightarrow> (\<exists>s. deliver_all (envs (3 * length (dv_users dv))) l 0 dv0 hdr n body (dv_mboxes dv1) \<lparr>bs_db = w_db w0, bs_store = w_store w0, bs_pending = dv_pending dv\<rparr> =
        (s, None) \<and> dv_tx dv1 = OpenTx (bs_db s) \<and> dv_pending dv1 = bs_pending s \<and> w_store w1 = bs_store s)"
proof -
  obtain dv0 w0 e0 where c: "(if dv_mboxes dv = [] then dv_Mailbox envs l ''INBOX'' dv w else (dv, w, None)) = (dv0, w0, e0)" by (metis prod_cases3)
  have i: "only_mboxes w w0" "dv_pending dv0 = dv_pending dv" "dv_perRcptHeader dv0 = dv_perRcptHeader dv" "dv_flagOverrides dv0 = dv_flagOverrides dv"
    "dv_users dv0 = dv_users dv" "e0 = None \<Longrightarrow> dv_mboxes dv = [] \<Longrightarrow> map sm_user (dv_mboxes dv0) = map su_id (dv_users dv)"
    using c dv_Mailbox_inv [of envs l "''INBOX''" dv w dv0 w0 e0] by (auto simp: only_mboxes_refl split: if_splits)
  show ?thesis
  proof (cases e0)
    case (Some x)
    with assms c i show ?thesis by (intro that [of w0 dv0]) (auto simp: dv_BodyParsed_def)
  next
    case None
    let ?env = "envs (3 * length (dv_users dv))"
    obtain s e' where s: "deliver_all ?env l 0 dv0 hdr n body (dv_mboxes dv0) \<lparr>bs_db = w_db w0, bs_store = w_store w0, bs_pending = dv_pending dv\<rparr> = (s, e')" by fastforce
    let ?pre = "ebind (if \<exists>m\<in>set (dv_mboxes dv0). rcpt_flags dv0 m \<noteq> [] then exec ?env ''getFlagsAddStmt'' 0 (Inr ()) else Inr ()) (\<lambda>_. exec ?env ''Begin'' 0 (Inr ()))"
    have b: "(dv1, w1, e) = (case ?pre of Inl e \<Rightarrow> (dv0, w0, Some e)
      | Inr _ \<Rightarrow> (dv0\<lparr>dv_tx := OpenTx (bs_db s), dv_pending := bs_pending s\<rparr>, w0\<lparr>w_store := bs_store s\<rparr>, e'))"
      using assms unfolding dv_BodyParsed_def c None prod.case option.case Let_def i(2,5) s by (rule sym)
    show ?thesis
    proof (cases ?pre)
      case (Inl x)
      with b have "dv1 = dv0" "w1 = w0" "e = Some x" by simp_all
      with i show ?thesis by (intro that [of w0 dv0]) simp_all
    next
      case (Inr x)
      with b have "dv1 = dv0\<lparr>dv_tx := OpenTx (bs_db s), dv_pending := bs_pending s\<rparr>" "w1 = w0\<lparr>w_store := bs_store s\<rparr>" "e = e'" by simp_all
      with i s None show ?thesis by (intro that [of w0 dv0]) simp_all
    qed
  qed
qed

lemma delivered_cong:
  assumes "dv_perRcptHeader dv = dv_perRcptHeader dv'" "dv_flagOverrides dv = dv_flagOverrides dv'"
  shows "delivered env l dv = delivered env l dv'"
  using assms by (intro ext) (simp add: delivered_def rcpt_header_def rcpt_flags_def)

lemma Commit_steps:
  assumes "dv_Commit env dv w = (dv', w', e)" "dv_tx dv = OpenTx d"
  shows "w_store w' = w_store w" "e = None \<Longrightarrow> w_db w' = d \<and> w_events w' = w_events w @ map (\<lambda>(i, u). NewMessage i u) (dv_pending dv)"
    "e \<noteq> None \<Longrightarrow> w' = w"
  using assms by (auto simp: dv_Commit_def dest!: run_InrD split: sum.splits)

lemma Abort_world:
  assumes "dv_Abort env dv w = (dv', w', e)"
  shows "w_db w' = w_db w" "w_events w' = w_events w"
  using assms by (auto simp: dv_Abort_def split: tx_state.splits if_splits prod.splits option.splits)

section \<open>Properties\<close>

text \<open>C13. A delivery is all or nothing. After the body and \<open>Commit\<close> have succeeded every recipient has exactly one new message: unseen, with the header fields of
  this recipient on top, the flags a filter chose, its body in the store under its own key, and a notification that is sent after the commit. When the body
  or the commit fails, or the delivery is aborted, no message and no notification is there.\<close>

theorem delivery_all_or_nothing:
  assumes "dv_BodyParsed envs l hdr n body dv w = (dv1, w1, e1)" "dv_mboxes dv = []" "dv_pending dv = []"
  shows "(e1 = None \<and> dv_Commit env dv1 w1 = (dv2, w2, None) \<longrightarrow>
       map sm_user (dv_mboxes dv1) = map su_id (dv_users dv) \<and>
       w_events w2 = w_events w @ map (\<lambda>(i, u). NewMessage i u) (dv_pending dv1) \<and>
       (\<exists>rs. db_msgs (w_db w2) = db_msgs (w_db w) @ rs \<and>
          list_all2 (delivered (envs (3 * length (dv_users dv))) l dv hdr n body \<lparr>bs_db = w_db w2, bs_store = w_store w2, bs_pending = dv_pending dv1\<rparr>)
            (dv_mboxes dv1) rs)) \<and>
     (dv_Abort env dv1 w1 = (dv3, w3, e3) \<or> e1 = None \<and> dv_Commit env dv1 w1 = (dv3, w3, Some e4) \<longrightarrow>
       db_msgs (w_db w3) = db_msgs (w_db w) \<and> w_events w3 = w_events w)"
proof -
  from assms(1) obtain dv0 w0 where
    o: "only_mboxes w w0" and h: "dv_pending dv0 = dv_pending dv" "dv_perRcptHeader dv0 = dv_perRcptHeader dv" "dv_flagOverrides dv0 = dv_flagOverrides dv" and
    w1: "w_db w1 = w_db w0" "w_events w1 = w_events w0" and
    us: "e1 = None \<longrightarrow> dv_mboxes dv = [] \<longrightarrow> map sm_user (dv_mboxes dv1) = map su_id (dv_users dv)" and
    all: "e1 = None \<longrightarrow> (\<exists>s. deliver_all (envs (3 * length (dv_users dv))) l 0 dv0 hdr n body (dv_mboxes dv1)
        \<lparr>bs_db = w_db w0, bs_store = w_store w0, bs_pending = dv_pending dv\<rparr> =
        (s, None) \<and> dv_tx dv1 = OpenTx (bs_db s) \<and> dv_pending dv1 = bs_pending s \<and> w_store w1 = bs_store s)" by (rule BodyParsed_steps)
  have w0: "db_msgs (w_db w0) = db_msgs (w_db w)" "w_events w0 = w_events w" using o by (simp_all add: only_mboxes_def)
  show ?thesis
  proof (intro conjI impI)
    assume c: "e1 = None \<and> dv_Commit env dv1 w1 = (dv2, w2, None)"
    then obtain s where s: "deliver_all (envs (3 * length (dv_users dv))) l 0 dv0 hdr n body (dv_mboxes dv1)
        \<lparr>bs_db = w_db w0, bs_store = w_store w0, bs_pending = dv_pending dv\<rparr> =
        (s, None)" "dv_tx dv1 = OpenTx (bs_db s)" "dv_pending dv1 = bs_pending s" "w_store w1 = bs_store s" using all by blast
    note cm = Commit_steps [OF conjunct2 [OF c] s(2)]
    show "map sm_user (dv_mboxes dv1) = map su_id (dv_users dv)" using us c assms(2) by blast
    show "w_events w2 = w_events w @ map (\<lambda>(i, u). NewMessage i u) (dv_pending dv1)" using cm w1 w0 by simp
    have "\<lparr>bs_db = w_db w2, bs_store = w_store w2, bs_pending = dv_pending dv1\<rparr> = s" using cm s by simp
    then show "\<exists>rs. db_msgs (w_db w2) = db_msgs (w_db w) @ rs \<and>
      list_all2 (delivered (envs (3 * length (dv_users dv))) l dv hdr n body \<lparr>bs_db = w_db w2, bs_store = w_store w2, bs_pending = dv_pending dv1\<rparr>) (dv_mboxes dv1) rs"
      using deliver_all_delivered(1) [OF s(1)] cm w0 delivered_cong [OF h(2,3)] by simp
  next
    assume "dv_Abort env dv1 w1 = (dv3, w3, e3) \<or> e1 = None \<and> dv_Commit env dv1 w1 = (dv3, w3, Some e4)"
    then have "w_db w3 = w_db w1 \<and> w_events w3 = w_events w1"
    proof
      assume "dv_Abort env dv1 w1 = (dv3, w3, e3)"
      from Abort_world [OF this] show ?thesis by blast
    next
      assume c: "e1 = None \<and> dv_Commit env dv1 w1 = (dv3, w3, Some e4)"
      with all obtain d where "dv_tx dv1 = OpenTx d" by blast
      from Commit_steps(3) [OF conjunct2 [OF c] this] show ?thesis by simp
    qed
    then show "db_msgs (w_db w3) = db_msgs (w_db w)" "w_events w3 = w_events w" using w1 w0 by simp_all
  qed
qed

definition demo_dl :: delivery_lib where
  "demo_dl = \<lparr>dv_WriteHeader = \<lambda>h. Inr (concat (map (\<lambda>(k, x). k @ x) h)), dv_extract = \<lambda>_ _. Inr ('''', ''''), dv_grow = \<lambda>n. 2 * n + 1\<rparr>"

definition demo_dv :: sql_delivery where
  "demo_dv = NewDelivery\<lparr>dv_users := [\<lparr>su_id = 1, su_username = ''a'', su_inboxId = 1\<rparr>, \<lparr>su_id = 2, su_username = ''b'', su_inboxId = 2\<rparr>],
     dv_perRcptHeader := [''a'' \<mapsto> [(''To'', ''a'')], ''b'' \<mapsto> [(''To'', ''b'')]]\<rparr>"

lemma inbox_name: "EqualFoldASCII ''INBOX'' ''inbox''"
  by (simp add: EqualFoldASCII_def runes_ascii fold_matches_def ascii_lower_rune_def ascii_def)

lemma demo_body:
  "\<exists>dv w. dv_BodyParsed (\<lambda>_. demo_env) demo_dl [] 2 ''hi'' demo_dv demo_world = (dv, w, None) \<and> (\<exists>dv2 w2. dv_Commit demo_env dv w = (dv2, w2, None))"
  by (simp add: dv_BodyParsed_def dv_Mailbox_def demo_dv_def NewDelivery_def reserve_mboxes_def override_mbox_def user_mbox_def find_mailbox_def inbox_name mbox_handle_def
      append_mbox_def rcpt_flags_def rcpt_header_def mboxDelivery_def Let_def run_def demo_env_def demo_dl_def demo_world_def processParsedBody_def st_addExtKey_def demo_simps
      incrementMsgCounters_def st_uidNext_def mbox_of_def st_increaseMsgCount_def update_mboxes_def u32_def add_message_def insert_msg_def dv_Commit_def)

text \<open>Two accounts get the message.\<close>

theorem delivery_all_or_nothing_witness:
  "\<exists>dv1 w1 dv2 w2 rs. dv_BodyParsed (\<lambda>_. demo_env) demo_dl [] 2 ''hi'' demo_dv demo_world = (dv1, w1, None) \<and> dv_Commit demo_env dv1 w1 = (dv2, w2, None) \<and>
     map sm_user (dv_mboxes dv1) = [1, 2] \<and> db_msgs (w_db w2) = db_msgs demo_db @ rs \<and> length rs = 2"
proof -
  from demo_body obtain dv1 w1 dv2 w2 where b: "dv_BodyParsed (\<lambda>_. demo_env) demo_dl [] 2 ''hi'' demo_dv demo_world = (dv1, w1, None)"
    "dv_Commit demo_env dv1 w1 = (dv2, w2, None)" by blast
  have d: "dv_mboxes demo_dv = []" "dv_pending demo_dv = []" "map su_id (dv_users demo_dv) = [1, 2]" "w_db demo_world = demo_db"
    by (simp_all add: demo_dv_def NewDelivery_def demo_world_def)
  from conjunct1 [OF delivery_all_or_nothing [OF b(1) d(1,2), of demo_env dv2 w2]] b(2) d(3,4) obtain rs where
    r: "map sm_user (dv_mboxes dv1) = [1, 2]" "db_msgs (w_db w2) = db_msgs demo_db @ rs" "length (dv_mboxes dv1) = length rs"
    by (auto dest: list_all2_lengthD)
  from arg_cong [OF r(1), of length] r(3) have "length rs = 2" by simp
  with b r show ?thesis by (intro exI [of _ dv1] exI [of _ w1] exI [of _ dv2] exI [of _ w2] exI [of _ rs] conjI)
qed

end
