(* ===== verification/Quota.thy ===== *)
theory Quota
  imports Go_Base
begin

text \<open>
  Model of the cache of storage quotas, \<^verbatim>\<open>internal/quota/cache.go\<close>, and its specification: the bytes in use of each account, the limits that were set for
  single accounts, and one default for all others.
\<close>

section \<open>The cache\<close>

record quota_entry =
  UsedBytes :: int
  MaxBytes :: int
  IsDefault :: bool

record quota_cache =
  qc_entries :: "string \<rightharpoonup> quota_entry"
  qc_default :: int

definition quota_New :: quota_cache where
  "quota_New = \<lparr>qc_entries = Map.empty, qc_default = 0\<rparr>"

definition load_quota :: "int option \<Rightarrow> int option \<Rightarrow> int \<Rightarrow> quota_entry option" where
  "load_quota used limit def =
     (if used = None \<and> limit = None then None
      else
        let e = \<lparr>UsedBytes = (case used of None \<Rightarrow> 0 | Some n \<Rightarrow> n), MaxBytes = (case limit of None \<Rightarrow> 0 | Some m \<Rightarrow> if m > 0 then m else 0), IsDefault = False\<rparr> in
        Some (if MaxBytes e = 0 then e\<lparr>MaxBytes := def, IsDefault := True\<rparr> else e))"

definition Load :: "(string \<rightharpoonup> int) \<Rightarrow> (string \<rightharpoonup> int) \<Rightarrow> int \<Rightarrow> quota_cache \<Rightarrow> quota_cache" where
  "Load usedMap quotaMap def c = \<lparr>qc_entries = (\<lambda>u. load_quota (usedMap u) (quotaMap u) def), qc_default = def\<rparr>"

definition Get :: "string \<Rightarrow> quota_cache \<Rightarrow> quota_entry \<times> bool" where
  "Get u c =
     (case qc_entries c u of
        None \<Rightarrow> (\<lparr>UsedBytes = 0, MaxBytes = qc_default c, IsDefault = True\<rparr>, True)
      | Some e \<Rightarrow> (e, False))"

definition SetMax :: "string \<Rightarrow> int \<Rightarrow> quota_cache \<Rightarrow> quota_cache" where
  "SetMax u limit c =
     (let e = (case qc_entries c u of None \<Rightarrow> \<lparr>UsedBytes = 0, MaxBytes = 0, IsDefault = False\<rparr> | Some e \<Rightarrow> e) in
      c\<lparr>qc_entries := (qc_entries c)(u \<mapsto> e\<lparr>MaxBytes := limit, IsDefault := False\<rparr>)\<rparr>)"

definition ResetMax :: "string \<Rightarrow> quota_cache \<Rightarrow> quota_cache" where
  "ResetMax u c =
     (case qc_entries c u of
        None \<Rightarrow> c
      | Some e \<Rightarrow> c\<lparr>qc_entries := (qc_entries c)(u \<mapsto> e\<lparr>MaxBytes := qc_default c, IsDefault := True\<rparr>)\<rparr>)"

definition SetDefaultQuota :: "int \<Rightarrow> quota_cache \<Rightarrow> quota_cache" where
  "SetDefaultQuota def c =
     c\<lparr>qc_default := def,
       qc_entries := (\<lambda>u. map_option (\<lambda>e. if IsDefault e \<and> MaxBytes e = qc_default c then e\<lparr>MaxBytes := def\<rparr> else e) (qc_entries c u))\<rparr>"

text \<open>The entry of an account for a change of its use; a missing one is made with the default.\<close>

definition used_entry :: "string \<Rightarrow> quota_cache \<Rightarrow> quota_entry" where
  "used_entry u c = (case qc_entries c u of None \<Rightarrow> \<lparr>UsedBytes = 0, MaxBytes = qc_default c, IsDefault = True\<rparr> | Some e \<Rightarrow> e)"

definition UpdateUsed :: "string \<Rightarrow> int \<Rightarrow> quota_cache \<Rightarrow> quota_cache" where
  "UpdateUsed u used c = c\<lparr>qc_entries := (qc_entries c)(u \<mapsto> (used_entry u c)\<lparr>UsedBytes := used\<rparr>)\<rparr>"

definition AddUsed :: "string \<Rightarrow> int \<Rightarrow> quota_cache \<Rightarrow> quota_cache \<times> int" where
  "AddUsed u delta c =
     (let n = wrap64 (UsedBytes (used_entry u c) + delta); n = (if n < 0 then 0 else n) in
      (c\<lparr>qc_entries := (qc_entries c)(u \<mapsto> (used_entry u c)\<lparr>UsedBytes := n\<rparr>)\<rparr>, n))"

definition Invalidate :: "string \<Rightarrow> quota_cache \<Rightarrow> quota_cache" where
  "Invalidate u c = c\<lparr>qc_entries := (qc_entries c)(u := None)\<rparr>"

definition InvalidateAll :: "quota_cache \<Rightarrow> quota_cache" where
  "InvalidateAll c = c\<lparr>qc_entries := Map.empty\<rparr>"

definition cache_DefaultQuota :: "quota_cache \<Rightarrow> int" where
  "cache_DefaultQuota c = qc_default c"

section \<open>The specification\<close>

text \<open>The bytes in use of the accounts it knows, the limits set for single accounts, the default. Counts are of type \<open>int64\<close>: a sum beyond
  its range wraps around before it is cut off at 0.\<close>

record quota_spec =
  qs_used :: "string \<rightharpoonup> int"
  qs_limit :: "string \<rightharpoonup> int"
  qs_default :: int

datatype quota_op =
    OpLoad "string \<rightharpoonup> int" "string \<rightharpoonup> int" int
  | OpSetMax string int
  | OpResetMax string
  | OpSetDefault int
  | OpUpdateUsed string int
  | OpAddUsed string int
  | OpInvalidate string
  | OpInvalidateAll

definition cache_step :: "quota_op \<Rightarrow> quota_cache \<Rightarrow> quota_cache" where
  "cache_step x c =
     (case x of
        OpLoad used limit def \<Rightarrow> Load used limit def c
      | OpSetMax u m \<Rightarrow> SetMax u m c
      | OpResetMax u \<Rightarrow> ResetMax u c
      | OpSetDefault def \<Rightarrow> SetDefaultQuota def c
      | OpUpdateUsed u n \<Rightarrow> UpdateUsed u n c
      | OpAddUsed u n \<Rightarrow> fst (AddUsed u n c)
      | OpInvalidate u \<Rightarrow> Invalidate u c
      | OpInvalidateAll \<Rightarrow> InvalidateAll c)"

definition known :: "quota_spec \<Rightarrow> string \<Rightarrow> int" where
  "known s u = (case qs_used s u of None \<Rightarrow> 0 | Some n \<Rightarrow> n)"

definition spec_step :: "quota_op \<Rightarrow> quota_spec \<Rightarrow> quota_spec" where
  "spec_step x s =
     (case x of
        OpLoad used limit def \<Rightarrow>
          \<lparr>qs_used = (\<lambda>u. case used u of Some n \<Rightarrow> Some n | None \<Rightarrow> map_option (\<lambda>_. 0) (limit u)),
            qs_limit = (\<lambda>u. case limit u of Some m \<Rightarrow> if m > 0 then Some m else None | None \<Rightarrow> None), qs_default = def\<rparr>
      | OpSetMax u m \<Rightarrow> s\<lparr>qs_used := (qs_used s)(u \<mapsto> known s u), qs_limit := (qs_limit s)(u \<mapsto> m)\<rparr>
      | OpResetMax u \<Rightarrow> s\<lparr>qs_limit := (qs_limit s)(u := None)\<rparr>
      | OpSetDefault def \<Rightarrow> s\<lparr>qs_default := def\<rparr>
      | OpUpdateUsed u n \<Rightarrow> s\<lparr>qs_used := (qs_used s)(u \<mapsto> n)\<rparr>
      | OpAddUsed u n \<Rightarrow> s\<lparr>qs_used := (qs_used s)(u \<mapsto> max 0 (wrap64 (known s u + n)))\<rparr>
      | OpInvalidate u \<Rightarrow> s\<lparr>qs_used := (qs_used s)(u := None), qs_limit := (qs_limit s)(u := None)\<rparr>
      | OpInvalidateAll \<Rightarrow> s\<lparr>qs_used := Map.empty, qs_limit := Map.empty\<rparr>)"

text \<open>The abstraction, and the invariant under which an entry marked as default has the default.\<close>

definition abs_cache :: "quota_cache \<Rightarrow> quota_spec" where
  "abs_cache c =
     \<lparr>qs_used = (\<lambda>u. map_option UsedBytes (qc_entries c u)),
       qs_limit = (\<lambda>u. case qc_entries c u of None \<Rightarrow> None | Some e \<Rightarrow> if IsDefault e then None else Some (MaxBytes e)), qs_default = qc_default c\<rparr>"

definition default_ok :: "quota_cache \<Rightarrow> bool" where
  "default_ok c \<longleftrightarrow> (\<forall>u e. qc_entries c u = Some e \<longrightarrow> IsDefault e \<longrightarrow> MaxBytes e = qc_default c)"

lemmas quota_ops = cache_step_def spec_step_def Load_def load_quota_def SetMax_def ResetMax_def SetDefaultQuota_def UpdateUsed_def AddUsed_def Invalidate_def
  InvalidateAll_def used_entry_def known_def Let_def

lemma default_ok_step:
  assumes "default_ok c"
  shows "default_ok (cache_step x c)"
  using assms by (cases x) (auto simp: default_ok_def quota_ops split: option.splits if_splits dest: arg_cong [where f = MaxBytes])

lemma abs_step:
  assumes "default_ok c"
  shows "abs_cache (cache_step x c) = spec_step x (abs_cache c)"
  using assms by (cases x) (auto simp: abs_cache_def default_ok_def quota_ops fun_eq_iff map_option_case split: option.splits if_splits)

section \<open>Properties\<close>

definition spec_limit :: "quota_spec \<Rightarrow> string \<Rightarrow> int" where
  "spec_limit s u = (case qs_limit s u of None \<Rightarrow> qs_default s | Some m \<Rightarrow> m)"

text \<open>C16. After any sequence of operations the quota cache answers as its specification: the bytes in use last set or counted (with the wrap-around
  of \<open>int64\<close>, and cut off at 0), the limit set for the account,
  and otherwise the default that is in force now, also for the entries made under an earlier default; it reports a miss exactly for accounts it does
  not know.\<close>

theorem quota_cache_refines:
  shows "Get u (fold cache_step ops quota_New) =
    (let s = fold spec_step ops (abs_cache quota_New) in
     (\<lparr>UsedBytes = known s u, MaxBytes = spec_limit s u, IsDefault = (qs_limit s u = None)\<rparr>, qs_used s u = None))"
proof -
  have "default_ok (fold cache_step ops c) \<and> abs_cache (fold cache_step ops c) = fold spec_step ops (abs_cache c)" if "default_ok c" for c
    using that by (induction ops arbitrary: c) (simp_all add: default_ok_step abs_step)
  from this [of quota_New] have c: "default_ok (fold cache_step ops quota_New)" "fold spec_step ops (abs_cache quota_New) = abs_cache (fold cache_step ops quota_New)"
    by (simp_all add: default_ok_def quota_New_def)
  show ?thesis unfolding c(2) Let_def using c(1)
    by (cases "qc_entries (fold cache_step ops quota_New) u") (auto simp: Get_def abs_cache_def known_def spec_limit_def default_ok_def)
qed

end
