(* ===== verification/Imap_Storage.thy ===== *)
theory Imap_Storage
  imports Sql_Delivery Quota
begin

text \<open>
  Model of the storage module, \<^verbatim>\<open>internal/storage/imapsql\<close>: accounts, quotas, the block list, removal of old messages, and the delivery of
  messages into the storage.

  The tables of the module are next to those of the mail storage in one database; a row of \<open>quotas\<close> whose limit is NULL reads as the limit 0. Iteration over the map of
  recipients is in the order in which they were added.
\<close>

section \<open>State\<close>

record quota_row =
  qr_Username :: string
  qr_MaxStorage :: int
  qr_CreatedAt :: int
  qr_FirstLoginAt :: int
  qr_LastLoginAt :: int

record storage =
  st_w :: sql_world
  st_cache :: "quota_cache option"
  st_quotas :: "quota_row list"
  st_blocked :: "(string \<times> string) list"

text \<open>\<open>iv_settings\<close> is the table of settings, \<open>iv_filter\<close> the IMAP filter, \<open>iv_serial\<close> says which errors are serialization errors.\<close>

record store_env =
  iv_env :: sql_env
  iv_text :: textlib
  iv_dl :: delivery_lib
  iv_deliveryNorm :: "string \<Rightarrow> goerr + string"
  iv_deliveryMap :: "(string \<Rightarrow> goerr + string option) option"
  iv_authNorm :: "string \<Rightarrow> goerr + string"
  iv_authMap :: "(string \<Rightarrow> goerr + string option) option"
  iv_settings :: "(string \<Rightarrow> goerr + string option) option"
  iv_autoCreate :: bool
  iv_defaultQuota :: int
  iv_filter :: "(string \<Rightarrow> string \<Rightarrow> header \<Rightarrow> string \<Rightarrow> goerr + string \<times> string list) option"
  iv_junkMbox :: string
  iv_serial :: "goerr \<Rightarrow> bool"
  iv_now :: int

definition imapsql_error :: "int \<Rightarrow> ench \<Rightarrow> string \<Rightarrow> goerr option \<Rightarrow> goerr" where
  "imapsql_error code ec msg e =
     SMTPError \<lparr>Code = code, EnhancedCode = ec, Message = msg, CheckName = '''', TargetName = ''imapsql'', ModifierName = '''', Reason = '''', Misc = Map.empty\<rparr> e"

definition userDoesNotExist :: "goerr option \<Rightarrow> goerr" where
  "userDoesNotExist actual = imapsql_error 501 (5, 1, 1) ''User does not exist'' actual"

definition ErrInvalidCredentials :: goerr where
  "ErrInvalidCredentials = Opaque ''Invalid credentials'' None"

text \<open>The normalization of a name with an optional table behind it.\<close>

definition store_normalize :: "(string \<Rightarrow> goerr + string) \<Rightarrow> (string \<Rightarrow> goerr + string option) option \<Rightarrow> string \<Rightarrow> goerr + string" where
  "store_normalize norm table s =
     (case table of
        None \<Rightarrow> norm s
      | Some lookup \<Rightarrow>
          ebind (norm s) (\<lambda>s. case lookup s of Inl e \<Rightarrow> Inl (userDoesNotExist (Some e)) | Inr None \<Rightarrow> Inl (userDoesNotExist None) | Inr (Some t) \<Rightarrow> Inr t))"

definition on_cache :: "(quota_cache \<Rightarrow> quota_cache) \<Rightarrow> storage \<Rightarrow> storage" where
  "on_cache f st = st\<lparr>st_cache := map_option f (st_cache st)\<rparr>"

section \<open>Registration\<close>

definition IsRegistrationOpen :: "store_env \<Rightarrow> goerr + bool" where
  "IsRegistrationOpen v =
     (case iv_settings v of
        None \<Rightarrow> Inr (iv_autoCreate v)
      | Some t \<Rightarrow> ebind (t ''__REGISTRATION_OPEN__'') (\<lambda>x. Inr (case x of None \<Rightarrow> iv_autoCreate v | Some s \<Rightarrow> s = ''true'')))"

definition IsJitRegistrationEnabled :: "store_env \<Rightarrow> goerr + bool" where
  "IsJitRegistrationEnabled v =
     (case iv_settings v of
        None \<Rightarrow> IsRegistrationOpen v
      | Some t \<Rightarrow> ebind (t ''__JIT_REGISTRATION_ENABLED__'') (\<lambda>x. case x of None \<Rightarrow> IsRegistrationOpen v | Some s \<Rightarrow> Inr (s = ''true'')))"

section \<open>Quotas\<close>

definition q_find :: "string \<Rightarrow> storage \<Rightarrow> quota_row option" where
  "q_find u st = find (\<lambda>q. qr_Username q = u) (st_quotas st)"

definition q_save :: "quota_row \<Rightarrow> storage \<Rightarrow> storage" where
  "q_save q st =
     st\<lparr>st_quotas := (if q_find (qr_Username q) st = None then st_quotas st @ [q]
                       else map (\<lambda>r. if qr_Username r = qr_Username q then q else r) (st_quotas st))\<rparr>"

definition q_delete :: "string \<Rightarrow> storage \<Rightarrow> storage" where
  "q_delete u st = st\<lparr>st_quotas := filter (\<lambda>q. qr_Username q \<noteq> u) (st_quotas st)\<rparr>"

definition q_first :: "store_env \<Rightarrow> nat \<Rightarrow> string \<Rightarrow> storage \<Rightarrow> goerr + quota_row option" where
  "q_first v i u st = exec (iv_env v) ''quotas.First'' i (Inr (q_find u st))"

abbreviation global_default :: string where
  "global_default \<equiv> ''__GLOBAL_DEFAULT__''"

definition owned :: "string \<Rightarrow> sqldb \<Rightarrow> msg_row \<Rightarrow> bool" where
  "owned u d r \<longleftrightarrow> (\<exists>b\<in>set (db_mboxes d). mb_id b = ms_mboxId r \<and> (\<exists>x\<in>set (db_users d). us_id x = mb_uid b \<and> us_username x = u))"

definition used_storage :: "string \<Rightarrow> sqldb \<Rightarrow> int" where
  "used_storage u d = int (sum_list (map ms_bodyLen (filter (owned u d) (db_msgs d))))"

definition GetDefaultQuota :: "store_env \<Rightarrow> storage \<Rightarrow> int" where
  "GetDefaultQuota v st = (case q_first v 1 global_default st of Inr (Some g) \<Rightarrow> qr_MaxStorage g | _ \<Rightarrow> iv_defaultQuota v)"

definition GetQuota :: "store_env \<Rightarrow> string \<Rightarrow> storage \<Rightarrow> storage \<times> (goerr + int \<times> int \<times> bool)" where
  "GetQuota v u st =
     (case (case st_cache st of None \<Rightarrow> None | Some c \<Rightarrow> (case Get u c of (e, miss) \<Rightarrow> if miss then None else Some e)) of
        Some e \<Rightarrow> (st, Inr (UsedBytes e, MaxBytes e, IsDefault e))
      | None \<Rightarrow>
          let used = (case exec (iv_env v) ''msgs.Sum'' 0 (Inr (used_storage u (w_db (st_w st)))) of Inl _ \<Rightarrow> 0 | Inr n \<Rightarrow> n) in
          (case q_first v 0 u st of
             Inl e \<Rightarrow> (st, Inl e)
           | Inr (Some q) \<Rightarrow> (on_cache (\<lambda>c. UpdateUsed u used (SetMax u (qr_MaxStorage q) c)) st, Inr (used, qr_MaxStorage q, False))
           | Inr None \<Rightarrow> (on_cache (UpdateUsed u used) st, Inr (used, GetDefaultQuota v st, True))))"

definition store_SetDefaultQuota :: "store_env \<Rightarrow> int \<Rightarrow> storage \<Rightarrow> storage \<times> goerr option" where
  "store_SetDefaultQuota v m st =
     (case exec (iv_env v) ''quotas.Save'' 0 (Inr (q_save \<lparr>qr_Username = global_default, qr_MaxStorage = m, qr_CreatedAt = 0, qr_FirstLoginAt = 0, qr_LastLoginAt = 0\<rparr> st)) of
        Inl e \<Rightarrow> (st, Some e)
      | Inr st \<Rightarrow> (on_cache (SetDefaultQuota m) st, None))"

definition new_quota :: "store_env \<Rightarrow> string \<Rightarrow> int \<Rightarrow> quota_row" where
  "new_quota v u m = \<lparr>qr_Username = u, qr_MaxStorage = m, qr_CreatedAt = iv_now v, qr_FirstLoginAt = 1, qr_LastLoginAt = 0\<rparr>"

definition SetQuota :: "store_env \<Rightarrow> string \<Rightarrow> int \<Rightarrow> storage \<Rightarrow> storage \<times> goerr option" where
  "SetQuota v u m st =
     (case ebind (q_first v 0 u st) (\<lambda>q. exec (iv_env v) ''quotas.Save'' 0
             (Inr (q_save (case q of None \<Rightarrow> new_quota v u m | Some q \<Rightarrow> q\<lparr>qr_MaxStorage := m\<rparr>) st))) of
        Inl e \<Rightarrow> (st, Some e)
      | Inr st \<Rightarrow> (on_cache (SetMax u m) st, None))"

definition ResetQuota :: "store_env \<Rightarrow> string \<Rightarrow> storage \<Rightarrow> storage \<times> goerr option" where
  "ResetQuota v u st =
     (case exec (iv_env v) ''quotas.Update'' 0 (Inr (st\<lparr>st_quotas := map (\<lambda>q. if qr_Username q = u then q\<lparr>qr_MaxStorage := 0\<rparr> else q) (st_quotas st)\<rparr>)) of
        Inl e \<Rightarrow> (st, Some e)
      | Inr st \<Rightarrow> (on_cache (ResetMax u) st, None))"

definition GetAllUsedStorage :: "store_env \<Rightarrow> sqldb \<Rightarrow> goerr + (string \<rightharpoonup> int)" where
  "GetAllUsedStorage v d =
     exec (iv_env v) ''msgs.Group'' 0 (Inr (\<lambda>u. if \<exists>r\<in>set (db_msgs d). owned u d r then Some (used_storage u d) else None))"

definition populateQuotaCache :: "store_env \<Rightarrow> storage \<Rightarrow> storage \<times> goerr option" where
  "populateQuotaCache v st =
     (case ebind (ListUsers (iv_env v) (w_db (st_w st))) (\<lambda>users.
           ebind (GetAllUsedStorage v (w_db (st_w st))) (\<lambda>actual.
           ebind (exec (iv_env v) ''quotas.Find'' 0 (Inr (filter (\<lambda>q. qr_Username q \<noteq> global_default) (st_quotas st)))) (\<lambda>qs.
             Inr (\<lambda>u. case actual u of Some n \<Rightarrow> Some n | None \<Rightarrow> if u \<in> set users then Some 0 else None,
                  map_of (map (\<lambda>q. (qr_Username q, qr_MaxStorage q)) qs))))) of
        Inl e \<Rightarrow> (st, Some e)
      | Inr (used, quotas) \<Rightarrow> (on_cache (Load used quotas (GetDefaultQuota v st)) st, None))"

section \<open>Accounts\<close>

definition BlockUser :: "store_env \<Rightarrow> string \<Rightarrow> string \<Rightarrow> storage \<Rightarrow> storage \<times> goerr option" where
  "BlockUser v u reason st =
     (case exec (iv_env v) ''blocked.Save'' 0 (Inr (st\<lparr>st_blocked := (u, reason) # filter (\<lambda>b. fst b \<noteq> u) (st_blocked st)\<rparr>)) of
        Inl e \<Rightarrow> (st, Some e) | Inr st \<Rightarrow> (st, None))"

definition UnblockUser :: "store_env \<Rightarrow> string \<Rightarrow> storage \<Rightarrow> storage \<times> goerr option" where
  "UnblockUser v u st =
     (case exec (iv_env v) ''blocked.Delete'' 0 (Inr (st\<lparr>st_blocked := filter (\<lambda>b. fst b \<noteq> u) (st_blocked st)\<rparr>)) of
        Inl e \<Rightarrow> (st, Some e) | Inr st \<Rightarrow> (st, None))"

definition IsBlocked :: "store_env \<Rightarrow> string \<Rightarrow> storage \<Rightarrow> bool \<times> goerr option" where
  "IsBlocked v u st =
     (case exec (iv_env v) ''blocked.Count'' 0 (Inr (u \<in> fst ` set (st_blocked st))) of Inl e \<Rightarrow> (False, Some e) | Inr b \<Rightarrow> (b, None))"

definition CreateIMAPAcct :: "store_env \<Rightarrow> string \<Rightarrow> storage \<Rightarrow> storage \<times> goerr option" where
  "CreateIMAPAcct v name st =
     (case CreateUser (iv_env v) (iv_text v) name (st_w st) of
        (w, Some e) \<Rightarrow> (st\<lparr>st_w := w\<rparr>, Some e)
      | (w, None) \<Rightarrow>
          let st = st\<lparr>st_w := w\<rparr> in
          (case q_first v 0 name st of
             Inl e \<Rightarrow> (st, Some e)
           | Inr None \<Rightarrow> (case exec (iv_env v) ''quotas.Create'' 0 (Inr (q_save (new_quota v name 0) st)) of Inl e \<Rightarrow> (st, Some e) | Inr st \<Rightarrow> (st, None))
           | Inr (Some q) \<Rightarrow>
               if qr_CreatedAt q = 0 then
                 (case exec (iv_env v) ''quotas.Save'' 0 (Inr (q_save (q\<lparr>qr_CreatedAt := iv_now v\<rparr>) st)) of Inl e \<Rightarrow> (st, Some e) | Inr st \<Rightarrow> (st, None))
               else (st, None)))"

definition DeleteIMAPAcct :: "store_env \<Rightarrow> string \<Rightarrow> storage \<Rightarrow> storage \<times> goerr option" where
  "DeleteIMAPAcct v name st =
     (let st = (if se_flt (iv_env v) ''quotas.Delete'' 0 then st else q_delete name st) in
      case DeleteUser (iv_env v) (iv_text v) name (st_w st) of (w, e) \<Rightarrow> (st\<lparr>st_w := w\<rparr>, e))"

definition DeleteAccount :: "store_env \<Rightarrow> string \<Rightarrow> string \<Rightarrow> storage \<Rightarrow> storage \<times> goerr option" where
  "DeleteAccount v name reason st =
     (let st = fst (DeleteIMAPAcct v name st);
          st = (if se_flt (iv_env v) ''quotas.Delete'' 1 then st else q_delete name st);
          st = on_cache (Invalidate name) st in
      BlockUser v name (if reason = '''' then ''account deleted'' else reason) st)"

text \<open>The record of a user found or made; its row in \<open>quotas\<close> is written as far as possible.\<close>

definition ensure_quota :: "store_env \<Rightarrow> string \<Rightarrow> storage \<Rightarrow> storage" where
  "ensure_quota v name st =
     (case q_first v 0 name st of
        Inl _ \<Rightarrow> st
      | Inr None \<Rightarrow> if se_flt (iv_env v) ''quotas.Create'' 0 then st else q_save (new_quota v name 0) st
      | Inr (Some q) \<Rightarrow> if qr_CreatedAt q = 0 \<and> \<not> se_flt (iv_env v) ''quotas.Save'' 0 then q_save (q\<lparr>qr_CreatedAt := iv_now v\<rparr>) st else st)"

definition GetOrCreateIMAPAcct :: "store_env \<Rightarrow> string \<Rightarrow> storage \<Rightarrow> storage \<times> (goerr + sql_user)" where
  "GetOrCreateIMAPAcct v username st =
     (case store_normalize (iv_authNorm v) (iv_authMap v) username of
        Inl _ \<Rightarrow> (st, Inl ErrInvalidCredentials)
      | Inr name \<Rightarrow>
          (case IsJitRegistrationEnabled v of
             Inl e \<Rightarrow> (st, Inl e)
           | Inr jit \<Rightarrow>
               if jit \<and> fst (IsBlocked v name st) then (st, Inl ErrInvalidCredentials)
               else if jit then
                 (case GetOrCreateUser (iv_env v) (iv_text v) name (st_w st) of
                    (w, _, Some e) \<Rightarrow> (st\<lparr>st_w := w\<rparr>, Inl e)
                  | (w, None, None) \<Rightarrow> (st\<lparr>st_w := w\<rparr>, Inl ErrUserDoesntExists)
                  | (w, Some u, None) \<Rightarrow> (ensure_quota v name (st\<lparr>st_w := w\<rparr>), Inr u))
               else
                 (case GetUser (iv_env v) (iv_text v) name (w_db (st_w st)) of
                    Inl e \<Rightarrow> (st, Inl (if same_err e ErrUserDoesntExists then ErrInvalidCredentials else e))
                  | Inr u \<Rightarrow> (ensure_quota v name st, Inr u))))"

definition store_Lookup :: "store_env \<Rightarrow> string \<Rightarrow> storage \<Rightarrow> goerr + bool" where
  "store_Lookup v key st =
     (case store_normalize (iv_authNorm v) (iv_authMap v) key of
        Inl _ \<Rightarrow> Inr False
      | Inr name \<Rightarrow>
          (case GetUser (iv_env v) (iv_text v) name (w_db (st_w st)) of
             Inl e \<Rightarrow> if same_err e ErrUserDoesntExists then Inr False else Inl e
           | Inr _ \<Rightarrow> Inr True))"

definition UpdateFirstLogin :: "store_env \<Rightarrow> string \<Rightarrow> storage \<Rightarrow> storage \<times> goerr option" where
  "UpdateFirstLogin v u st =
     (case q_first v 0 u st of
        Inl e \<Rightarrow> (st, Some e)
      | Inr None \<Rightarrow> (st, None)
      | Inr (Some q) \<Rightarrow>
          let q = q\<lparr>qr_LastLoginAt := iv_now v, qr_FirstLoginAt := (if qr_FirstLoginAt q = 1 then iv_now v else qr_FirstLoginAt q)\<rparr> in
          (case exec (iv_env v) ''quotas.Save'' 0 (Inr (q_save q st)) of Inl e \<Rightarrow> (st, Some e) | Inr st \<Rightarrow> (st, None)))"

definition MigrateFirstLoginFromCreatedAt :: "store_env \<Rightarrow> storage \<Rightarrow> storage \<times> goerr option" where
  "MigrateFirstLoginFromCreatedAt v st =
     (let st1 = st\<lparr>st_quotas := map (\<lambda>q. if qr_CreatedAt q = 0 then q\<lparr>qr_CreatedAt := iv_now v\<rparr> else q) (st_quotas st)\<rparr> in
      if se_flt (iv_env v) ''quotas.Update'' 0 then (st, Some (Opaque ''quotas.Update'' None))
      else if se_flt (iv_env v) ''quotas.Count'' 0 then (st1, Some (Opaque ''quotas.Count'' None))
      else if \<not> (\<exists>q\<in>set (st_quotas st1). qr_FirstLoginAt q = 0) then (st1, None)
      else if se_flt (iv_env v) ''quotas.Update'' 1 then (st1, Some (Opaque ''quotas.Update'' None))
      else (st1\<lparr>st_quotas := map (\<lambda>q. if qr_FirstLoginAt q = 0 then q\<lparr>qr_FirstLoginAt := iv_now v\<rparr> else q) (st_quotas st1)\<rparr>, None))"

text \<open>The accounts never used; the credentials of an account whose storage is gone are deleted by \<open>auth\<close>, which may fail.\<close>

fun prune_accounts :: "(nat \<Rightarrow> store_env) \<Rightarrow> nat \<Rightarrow> quota_row list \<Rightarrow> storage \<times> string list \<Rightarrow> storage \<times> string list" where
  "prune_accounts vs i [] s = s"
| "prune_accounts vs i (q # qs) (st, gone) =
     (case DeleteIMAPAcct (vs i) (qr_Username q) st of
        (st, Some _) \<Rightarrow> prune_accounts vs (Suc i) qs (st, gone)
      | (st, None) \<Rightarrow> prune_accounts vs (Suc i) qs (st, gone @ [qr_Username q]))"

definition PruneUnusedAccounts :: "store_env \<Rightarrow> (nat \<Rightarrow> store_env) \<Rightarrow> int \<Rightarrow> storage \<Rightarrow> storage \<times> (goerr + string list)" where
  "PruneUnusedAccounts v vs retention st =
     (let cutoff = iv_now v - retention in
      case exec (iv_env v) ''quotas.Find'' 0 (Inr (filter (\<lambda>q. qr_FirstLoginAt q = 1 \<and> qr_CreatedAt q < cutoff) (st_quotas st))) of
        Inl e \<Rightarrow> (st, Inl e)
      | Inr qs \<Rightarrow> (case prune_accounts vs 0 qs (st, []) of (st, gone) \<Rightarrow> (st, Inr gone)))"

definition GetStat :: "sqldb \<Rightarrow> int \<times> nat" where
  "GetStat d = (int (sum_list (map ms_bodyLen (db_msgs d))), length (db_users d))"

definition GetAccountDate :: "store_env \<Rightarrow> string \<Rightarrow> storage \<Rightarrow> int" where
  "GetAccountDate v u st =
     (case q_first v 0 u st of
        Inr (Some q) \<Rightarrow> if qr_CreatedAt q \<noteq> 0 then qr_CreatedAt q else
          (case filter (owned u (w_db (st_w st))) (db_msgs (w_db (st_w st))) of [] \<Rightarrow> 0 | ms \<Rightarrow> Min (ms_date ` set ms))
      | _ \<Rightarrow> (case filter (owned u (w_db (st_w st))) (db_msgs (w_db (st_w st))) of [] \<Rightarrow> 0 | ms \<Rightarrow> Min (ms_date ` set ms)))"

definition GetAllAccountInfo :: "store_env \<Rightarrow> storage \<Rightarrow> goerr + (string \<rightharpoonup> int \<times> int \<times> int)" where
  "GetAllAccountInfo v st =
     exec (iv_env v) ''quotas.Find'' 0 (Inr (map_of (map (\<lambda>q. (qr_Username q, qr_CreatedAt q, qr_FirstLoginAt q, qr_LastLoginAt q)) (st_quotas st))))"

section \<open>Removal of messages\<close>

text \<open>These statements delete rows of \<open>msgs\<close> alone: the counters of the mailboxes, the keys and the bodies stay.\<close>

definition purge :: "store_env \<Rightarrow> (msg_row \<Rightarrow> bool) \<Rightarrow> storage \<Rightarrow> storage \<times> goerr option" where
  "purge v P st =
     (case exec (iv_env v) ''msgs.Delete'' 0 (Inr (delete_msgs P (w_db (st_w st)))) of
        Inl e \<Rightarrow> (st, Some e)
      | Inr d \<Rightarrow> (st\<lparr>st_w := (st_w st)\<lparr>w_db := d\<rparr>\<rparr>, None))"

definition PurgeIMAPMsgs :: "store_env \<Rightarrow> string \<Rightarrow> storage \<Rightarrow> storage \<times> goerr option" where
  "PurgeIMAPMsgs v u st = purge v (owned u (w_db (st_w st))) st"

definition PurgeAllIMAPMsgs :: "store_env \<Rightarrow> storage \<Rightarrow> storage \<times> goerr option" where
  "PurgeAllIMAPMsgs v st = purge v (\<lambda>_. True) st"

definition PurgeReadIMAPMsgs :: "store_env \<Rightarrow> storage \<Rightarrow> storage \<times> goerr option" where
  "PurgeReadIMAPMsgs v st = purge v ms_seen st"

definition PruneUnreadIMAPMsgs :: "store_env \<Rightarrow> int \<Rightarrow> storage \<Rightarrow> storage \<times> goerr option" where
  "PruneUnreadIMAPMsgs v retention st = purge v (\<lambda>r. \<not> ms_seen r \<and> ms_date r < iv_now v - retention) st"

definition PruneMessages :: "store_env \<Rightarrow> int \<Rightarrow> storage \<Rightarrow> storage \<times> goerr option" where
  "PruneMessages v retention st = purge v (\<lambda>r. ms_date r < iv_now v - retention) st"

section \<open>Delivery\<close>

record store_delivery =
  sd_dv :: sql_delivery
  sd_from :: string
  sd_quarantine :: bool
  sd_added :: "(string \<times> string) list"
  sd_bodyLen :: int

definition sd_Start :: "bool \<Rightarrow> string \<Rightarrow> store_delivery" where
  "sd_Start quarantine mailFrom = \<lparr>sd_dv = NewDelivery, sd_from = mailFrom, sd_quarantine = quarantine, sd_added = [], sd_bodyLen = 0\<rparr>"

definition sd_AddRcpt :: "store_env \<Rightarrow> string \<Rightarrow> storage \<times> store_delivery \<Rightarrow> (storage \<times> store_delivery) \<times> goerr option" where
  "sd_AddRcpt v rcptTo s =
     (case s of (st, sd) \<Rightarrow>
        (case store_normalize (iv_deliveryNorm v) (iv_deliveryMap v) rcptTo of
           Inl e \<Rightarrow> (s, Some (userDoesNotExist (Some e)))
         | Inr name \<Rightarrow>
             if name \<in> fst ` set (sd_added sd) then (s, None)
             else
               let st = (case IsJitRegistrationEnabled v of Inr True \<Rightarrow> fst (CreateIMAPAcct v name st) | _ \<Rightarrow> st) in
               (case dv_AddRcpt (iv_env v) (iv_text v) name [(''Delivered-To'', name)] (w_db (st_w st)) (sd_dv sd) of
                  (_, Some e) \<Rightarrow>
                    ((st, sd), Some (if same_err e ErrUserDoesntExists \<or> same_err e ErrNoSuchMailbox then userDoesNotExist (Some e)
                       else if iv_serial v e then imapsql_error 453 (4, 3, 2) ''Internal server error, try again later'' (Some e) else e))
                | (dv, None) \<Rightarrow> ((st, sd\<lparr>sd_dv := dv, sd_added := sd_added sd @ [(name, rcptTo)]\<rparr>), None))))"

fun check_quotas :: "store_env \<Rightarrow> int \<Rightarrow> string list \<Rightarrow> storage \<Rightarrow> storage \<times> goerr option" where
  "check_quotas v len [] st = (st, None)"
| "check_quotas v len (u # us) st =
     (case GetQuota v u st of
        (st, Inl _) \<Rightarrow> check_quotas v len us st
      | (st, Inr (used, limit, _)) \<Rightarrow>
          if limit > 0 \<and> wrap64 (used + len) > limit then (st, Some (imapsql_error 552 (5, 2, 2) ''Quota exceeded'' None))
          else check_quotas v len us st)"

definition apply_filters :: "store_env \<Rightarrow> header \<Rightarrow> string \<Rightarrow> store_delivery \<Rightarrow> store_delivery" where
  "apply_filters v hdr body sd =
     (case iv_filter v of
        None \<Rightarrow> sd
      | Some f \<Rightarrow>
          if sd_quarantine sd then sd
          else sd\<lparr>sd_dv := fold (\<lambda>(u, to) dv. case f u to hdr body of Inl _ \<Rightarrow> dv | Inr (folder, flags) \<Rightarrow> dv_UserMailbox u folder flags dv) (sd_added sd) (sd_dv sd)\<rparr>)"

definition serial_error :: "store_env \<Rightarrow> goerr option \<Rightarrow> goerr option" where
  "serial_error v e =
     (case e of None \<Rightarrow> None
      | Some x \<Rightarrow> Some (if iv_serial v x then imapsql_error 453 (4, 3, 2) ''Storage access serialiation problem, try again later'' (Some x) else x))"

definition SanitizeForHeader :: "string \<Rightarrow> string" where
  "SanitizeForHeader raw = filter (\<lambda>c. c \<noteq> CHR 0x0A) raw"

text \<open>\<open>Body\<close>: \<open>envs\<close> for the calls made for each account, first those of the quarantine mailbox, then those of the body.\<close>

definition sd_Body ::
    "store_env \<Rightarrow> (nat \<Rightarrow> sql_env) \<Rightarrow> (nat \<Rightarrow> sql_env) \<Rightarrow> header \<Rightarrow> string \<Rightarrow> storage \<times> store_delivery \<Rightarrow> (storage \<times> store_delivery) \<times> goerr option" where
  "sd_Body v envs envs' hdr body s =
     (case s of (st, sd) \<Rightarrow>
        let sd = sd\<lparr>sd_bodyLen := int (length body)\<rparr> in
        (case check_quotas v (int (length body)) (map fst (sd_added sd)) st of
           (st, Some e) \<Rightarrow> ((st, sd), Some e)
         | (st, None) \<Rightarrow>
             let sd = apply_filters v hdr body sd in
             (case (if sd_quarantine sd then dv_SpecialMailbox envs (iv_dl v) (CHR 0x5C # ''Junk'') (iv_junkMbox v) (sd_dv sd) (st_w st) else (sd_dv sd, st_w st, None)) of
                (dv, w, Some e) \<Rightarrow> ((st\<lparr>st_w := w\<rparr>, sd\<lparr>sd_dv := dv\<rparr>), serial_error v (Some e))
              | (dv, w, None) \<Rightarrow>
                  (case dv_BodyParsed envs' (iv_dl v) ((''Return-Path'', ''<'' @ SanitizeForHeader (sd_from sd) @ ''>'') # hdr) (length body) body dv w of
                     (dv, w, e) \<Rightarrow> ((st\<lparr>st_w := w\<rparr>, sd\<lparr>sd_dv := dv\<rparr>), serial_error v e)))))"

definition sd_Abort :: "store_env \<Rightarrow> storage \<times> store_delivery \<Rightarrow> (storage \<times> store_delivery) \<times> goerr option" where
  "sd_Abort v s = (case s of (st, sd) \<Rightarrow> (case dv_Abort (iv_env v) (sd_dv sd) (st_w st) of (dv, w, e) \<Rightarrow> ((st\<lparr>st_w := w\<rparr>, sd\<lparr>sd_dv := dv\<rparr>), e)))"

definition sd_Commit :: "store_env \<Rightarrow> storage \<times> store_delivery \<Rightarrow> (storage \<times> store_delivery) \<times> goerr option" where
  "sd_Commit v s =
     (case s of (st, sd) \<Rightarrow>
        (case dv_Commit (iv_env v) (sd_dv sd) (st_w st) of
           (dv, w, Some e) \<Rightarrow> ((st\<lparr>st_w := w\<rparr>, sd\<lparr>sd_dv := dv\<rparr>), Some e)
         | (dv, w, None) \<Rightarrow>
             let st = st\<lparr>st_w := w\<rparr>; sd' = sd\<lparr>sd_dv := dv\<rparr> in
             ((if sd_bodyLen sd > 0 then on_cache (\<lambda>c. fold (\<lambda>(u, _) c. fst (AddUsed u (sd_bodyLen sd) c)) (sd_added sd) c) st else st, sd'), None)))"

section \<open>Lemmas\<close>

lemma Get_hit: "qc_entries c u = Some e \<Longrightarrow> Get u c = (e, False)"
  by (simp add: Get_def)

lemma GetQuota_hit:
  assumes "st_cache st = Some c" "qc_entries c u = Some e"
  shows "GetQuota v u st = (st, Inr (UsedBytes e, MaxBytes e, IsDefault e))"
  using assms by (simp add: GetQuota_def Get_hit)

lemma GetQuota_keeps:
  assumes "GetQuota v u st = (st', r)"
  shows "st_w st' = st_w st"
    "st_cache st = Some c \<Longrightarrow> qc_entries c u' = Some e \<Longrightarrow> \<exists>c'. st_cache st' = Some c' \<and> qc_entries c' u' = Some e"
proof -
  show "st_w st' = st_w st" using assms by (auto simp: GetQuota_def on_cache_def Let_def split: option.splits sum.splits prod.splits if_splits)
  show "\<exists>c'. st_cache st' = Some c' \<and> qc_entries c' u' = Some e" if c: "st_cache st = Some c" "qc_entries c u' = Some e"
  proof (cases "qc_entries c u")
    case (Some x)
    with assms GetQuota_hit [OF c(1)] c show ?thesis by auto
  next
    case None
    with c have "u' \<noteq> u" by auto
    with assms c None show ?thesis
      by (auto simp: GetQuota_def Get_def on_cache_def UpdateUsed_def SetMax_def Let_def split: option.splits sum.splits if_splits)
  qed
qed

lemma check_quotas_keeps:
  assumes "check_quotas v len us st = (st', r)"
  shows "st_w st' = st_w st"
  using assms
proof (induction us arbitrary: st)
  case (Cons u us)
  obtain st1 q where q: "GetQuota v u st = (st1, q)" by fastforce
  from GetQuota_keeps(1) [OF q] Cons q show ?case by (auto split: sum.splits if_splits)
qed simp

lemma check_quotas_hits:
  assumes "st_cache st = Some c" "u \<in> set us" "qc_entries c u = Some e" "check_quotas v len us st = (st', r)"
  shows "r = None \<Longrightarrow> 0 < MaxBytes e \<Longrightarrow> wrap64 (UsedBytes e + len) \<le> MaxBytes e"
    "0 < MaxBytes e \<Longrightarrow> MaxBytes e < wrap64 (UsedBytes e + len) \<Longrightarrow> r = Some (imapsql_error 552 (5, 2, 2) ''Quota exceeded'' None)"
proof -
  have "(0 < MaxBytes e \<and> MaxBytes e < wrap64 (UsedBytes e + len) \<longrightarrow> r = Some (imapsql_error 552 (5, 2, 2) ''Quota exceeded'' None))"
    using assms
  proof (induction us arbitrary: st c)
    case (Cons x us)
    obtain st1 q where q: "GetQuota v x st = (st1, q)" by fastforce
    show ?case
    proof (cases "x = u")
      case True
      with Cons.prems GetQuota_hit [OF Cons.prems(1,3)] show ?thesis by auto
    next
      case False
      obtain c1 where "st_cache st1 = Some c1" "qc_entries c1 u = Some e" using GetQuota_keeps(2) [OF q Cons.prems(1,3)] by blast
      with Cons.IH [of st1 c1] Cons.prems(2,4) q False show ?thesis by (auto split: sum.splits if_splits)
    qed
  qed simp
  then show "r = None \<Longrightarrow> 0 < MaxBytes e \<Longrightarrow> wrap64 (UsedBytes e + len) \<le> MaxBytes e"
    "0 < MaxBytes e \<Longrightarrow> MaxBytes e < wrap64 (UsedBytes e + len) \<Longrightarrow> r = Some (imapsql_error 552 (5, 2, 2) ''Quota exceeded'' None)" by auto
qed

section \<open>Properties\<close>

text \<open>C17. As long as the bytes in use and the new body together stay in the range of \<open>int64\<close> (beyond it the sum wraps around and the message is accepted): a message
  is refused with 552, and nothing is stored, when it takes one of its recipients over a positive limit in the cache; a body that is accepted fits
  into the cached limits of all recipients. What the storage holds at that time does not matter.\<close>

theorem body_respects_quota:
  assumes "sd_Body v envs envs' hdr body (st, sd) = ((st', sd'), e)" "st_cache st = Some c" "(u, to) \<in> set (sd_added sd)" "qc_entries c u = Some q"
    "0 < MaxBytes q" "min_int64 \<le> UsedBytes q" "UsedBytes q + int (length body) \<le> max_int64"
  shows "(MaxBytes q < UsedBytes q + int (length body) \<longrightarrow> e = Some (imapsql_error 552 (5, 2, 2) ''Quota exceeded'' None) \<and> st_w st' = st_w st) \<and>
    (e = None \<longrightarrow> UsedBytes q + int (length body) \<le> MaxBytes q)"
proof -
  obtain st1 r where k: "check_quotas v (int (length body)) (map fst (sd_added sd)) st = (st1, r)" by fastforce
  have u: "u \<in> set (map fst (sd_added sd))" using assms(3) by force
  have w: "wrap64 (UsedBytes q + int (length body)) = UsedBytes q + int (length body)" using assms(6,7) by (intro wrap64_id) simp_all
  note h = check_quotas_hits [OF assms(2) u assms(4) k, unfolded w]
  have fail: "e = r \<and> st' = st1" if "r = Some x" for x using assms(1) k that by (simp add: sd_Body_def Let_def)
  show ?thesis
  proof (intro conjI impI)
    assume "MaxBytes q < UsedBytes q + int (length body)"
    with h(2) assms(5) have "r = Some (imapsql_error 552 (5, 2, 2) ''Quota exceeded'' None)" by blast
    with fail check_quotas_keeps [OF k] show "e = Some (imapsql_error 552 (5, 2, 2) ''Quota exceeded'' None)" "st_w st' = st_w st" by auto
  next
    assume "e = None"
    with fail have "r = None" by (cases r) auto
    with h(1) assms(5) show "UsedBytes q + int (length body) \<le> MaxBytes q" by blast
  qed
qed

text \<open>An account that is made while the server runs has no limit until the next start: its row in \<open>quotas\<close> has the limit 0, which the first check copies into
  the cache as a limit of its own, so that messages of every size are accepted whatever the default quota is.\<close>

theorem new_account_unlimited:
  assumes "CreateIMAPAcct v name st = (st', None)" "q_find name st = None" "st_cache st = Some c" "qc_entries c name = None"
  shows "snd (check_quotas v len [name] st') = None"
proof -
  obtain w where w: "CreateUser (iv_env v) (iv_text v) name (st_w st) = (w, None)" using assms(1)
    by (auto simp: CreateIMAPAcct_def Let_def split: prod.splits option.splits)
  have f: "\<not> se_flt (iv_env v) ''quotas.First'' 0" and st': "st' = q_save (new_quota v name 0) (st\<lparr>st_w := w\<rparr>)"
    using assms(1,2) unfolding CreateIMAPAcct_def w by (auto simp: Let_def q_first_def q_find_def run_def split: if_splits)
  have "q_find name st' = Some (new_quota v name 0)" using assms(2)
    by (auto simp: st' q_save_def q_find_def new_quota_def find_None_iff find_Some_iff nth_append intro!: exI [of _ "length (st_quotas st)"])
  moreover have "st_cache st' = Some c" using assms(3) by (simp add: st' q_save_def)
  ultimately show ?thesis using f assms(4) by (simp add: GetQuota_def Get_def q_first_def run_def new_quota_def Let_def)
qed

definition demo_senv :: store_env where
  "demo_senv = \<lparr>iv_env = demo_env, iv_text = sample_text, iv_dl = demo_dl, iv_deliveryNorm = Inr, iv_deliveryMap = None, iv_authNorm = Inr, iv_authMap = None,
     iv_settings = None, iv_autoCreate = True, iv_defaultQuota = 50, iv_filter = None, iv_junkMbox = ''Junk'', iv_serial = \<lambda>_. False, iv_now = 1000\<rparr>"

definition demo_storage :: storage where
  "demo_storage = \<lparr>st_w = demo_world, st_cache = Some \<lparr>qc_entries = [''a'' \<mapsto> \<lparr>UsedBytes = 48, MaxBytes = 50, IsDefault = True\<rparr>], qc_default = 50\<rparr>,
     st_quotas = [], st_blocked = [(''c'', ''account deleted'')]\<rparr>"

text \<open>A message of five bytes for an account with two bytes left.\<close>

theorem body_respects_quota_witness:
  "snd (sd_Body demo_senv (\<lambda>_. demo_env) (\<lambda>_. demo_env) [] ''hello'' (demo_storage, (sd_Start False '''')\<lparr>sd_added := [(''a'', ''a'')]\<rparr>)) =
     Some (imapsql_error 552 (5, 2, 2) ''Quota exceeded'' None)"
proof -
  let ?sd = "(sd_Start False '''')\<lparr>sd_added := [(''a'', ''a'')]\<rparr>"
  let ?q = "\<lparr>UsedBytes = 48, MaxBytes = 50, IsDefault = True\<rparr>"
  obtain st' sd' e where b: "sd_Body demo_senv (\<lambda>_. demo_env) (\<lambda>_. demo_env) [] ''hello'' (demo_storage, ?sd) = ((st', sd'), e)"
    by (metis prod.exhaust)
  have c: "st_cache demo_storage = Some \<lparr>qc_entries = [''a'' \<mapsto> ?q], qc_default = 50\<rparr>" by (simp add: demo_storage_def)
  from body_respects_quota [OF b c, of "''a''" "''a''" ?q] b show ?thesis by (simp add: sd_Start_def min_int64_def max_int64_def)
qed

lemma lower_c: "ToLower sample_text ''c'' = ''c''"
  by (rule ToLower_lower_ascii) (simp add: lower_ascii_def ascii_def)

lemma demo_create: "\<exists>st. CreateIMAPAcct demo_senv ''c'' demo_storage = (st, None) \<and> us_username ` set (db_users (w_db (st_w st))) = {''a'', ''b'', ''c''}"
  by (simp add: CreateIMAPAcct_def CreateUser_def normalizeUsername_def lower_c demo_senv_def demo_storage_def demo_env_def demo_world_def run_def createUser_def
      st_addUser_def demo_simps getUserMeta_def st_userMeta_def st_createMbox_def mbox_taken_def st_mboxId_def st_setInboxId_def u32_def Let_def q_first_def q_find_def q_save_def
      new_quota_def insort_key.simps)

text \<open>An account that was deleted and blocked is made again by the next message for it when accounts are made on delivery: \<open>AddRcpt\<close> does not ask the block list,
  while the login of the same account is refused.\<close>

theorem blocked_account_recreated:
  "\<exists>st sd. sd_AddRcpt demo_senv ''c'' (demo_storage, sd_Start False '''') = ((st, sd), None) \<and> ''c'' \<notin> us_username ` set (db_users (w_db (st_w demo_storage))) \<and>
     ''c'' \<in> us_username ` set (db_users (w_db (st_w st))) \<and> fst (IsBlocked demo_senv ''c'' st) \<and> snd (GetOrCreateIMAPAcct demo_senv ''c'' st) = Inl ErrInvalidCredentials"
  by (simp add: sd_AddRcpt_def sd_Start_def store_normalize_def IsJitRegistrationEnabled_def IsRegistrationOpen_def dv_AddRcpt_def NewDelivery_def IsBlocked_def GetOrCreateIMAPAcct_def
      CreateIMAPAcct_def CreateUser_def normalizeUsername_def lower_c demo_senv_def demo_storage_def demo_env_def demo_world_def run_def createUser_def
      st_addUser_def demo_simps getUserMeta_def st_userMeta_def st_createMbox_def mbox_taken_def st_mboxId_def st_setInboxId_def u32_def Let_def q_first_def q_find_def q_save_def
      new_quota_def insort_key.simps)

text \<open>What \<open>DeleteUser\<close> leaves alone: the other accounts with their mailboxes and messages.\<close>

definition kept :: "user_row \<Rightarrow> sqldb \<Rightarrow> sqldb \<Rightarrow> bool" where
  "kept x d d' \<longleftrightarrow> x \<in> set (db_users d') \<and> filter (\<lambda>b. mb_uid b = us_id x) (db_mboxes d') = filter (\<lambda>b. mb_uid b = us_id x) (db_mboxes d) \<and>
     (\<forall>b\<in>set (db_mboxes d). mb_uid b = us_id x \<longrightarrow> filter (in_mbox (mb_id b)) (db_msgs d') = filter (in_mbox (mb_id b)) (db_msgs d))"

lemma kept_refl: "x \<in> set (db_users d) \<Longrightarrow> kept x d d"
  by (simp add: kept_def)

lemma kept_trans:
  assumes "kept x a b" "kept x b c"
  shows "kept x a c"
proof -
  have "m \<in> set (db_mboxes b)" if "m \<in> set (db_mboxes a)" "mb_uid m = us_id x" for m
  proof -
    from that have "m \<in> set (filter (\<lambda>b. mb_uid b = us_id x) (db_mboxes a))" by simp
    also have "\<dots> = set (filter (\<lambda>b. mb_uid b = us_id x) (db_mboxes b))" using assms(1) by (simp only: kept_def)
    finally show ?thesis by simp
  qed
  with assms show ?thesis by (simp add: kept_def)
qed

lemma delete_users_kept:
  assumes "schema_ok d" "x \<in> set (db_users d)" "us_username x \<noteq> u"
  shows "kept x d (delete_users (\<lambda>y. us_username y = u) d)"
proof -
  let ?gone = "us_id ` set (filter (\<lambda>y. us_username y = u) (db_users d))"
  let ?mb = "mb_id ` set (filter (\<lambda>b. mb_uid b \<in> ?gone) (db_mboxes d))"
  have g: "us_id x \<notin> ?gone" using assms unfolding schema_ok_def by (auto simp: distinct_map inj_on_def)
  have "filter (\<lambda>b. mb_uid b = us_id x) (filter (\<lambda>b. mb_uid b \<notin> ?gone) (db_mboxes d)) = filter (\<lambda>b. mb_uid b = us_id x) (db_mboxes d)"
    unfolding filter_filter by (rule filter_cong [OF refl]) (metis g)
  moreover have "filter (in_mbox (mb_id b)) (filter (\<lambda>r. ms_mboxId r \<notin> ?mb) (db_msgs d)) = filter (in_mbox (mb_id b)) (db_msgs d)"
    if b: "b \<in> set (db_mboxes d)" "mb_uid b = us_id x" for b
  proof (rule filter_other_mboxes)
    show "mb_id b \<notin> ?mb"
    proof
      assume "mb_id b \<in> ?mb"
      then obtain c where "c \<in> set (db_mboxes d)" "mb_id c = mb_id b" "mb_uid c \<in> ?gone" by auto
      with same_owner [OF assms(1) b(1)] b(2) g show False by metis
    qed
  qed
  ultimately show ?thesis using assms(2,3) by (simp add: kept_def delete_users_def delete_mboxes_def delete_msgs_def Let_def)
qed

lemma delete_extKeys_only: "delete_extKeys P d = Inr d' \<Longrightarrow> \<exists>ks. d' = d\<lparr>db_extKeys := ks\<rparr>"
  by (auto simp: delete_extKeys_def split: if_splits)

lemma DeleteUser_kept:
  assumes "DeleteUser env lib name w = (w', e)" "schema_ok (w_db w)" "x \<in> set (db_users (w_db w))" "us_username x \<noteq> ToLower lib name"
  shows "kept x (w_db w) (w_db w')"
proof (cases "w_db w' = w_db w")
  case True
  with assms(3) kept_refl show ?thesis by simp
next
  case False
  with assms(1) obtain d k where st: "st_delUser (ToLower lib name) (w_db w) = (d, k)" "st_deleteUserRef (ToLower lib name) d = Inr (w_db w')"
    unfolding DeleteUser_def by (auto simp: Let_def ebind_Inr_iff split: sum.splits prod.splits option.splits if_splits dest!: run_InrD)
  have "kept x (w_db w) d" using delete_users_kept [OF assms(2-4)] st(1) by (auto simp: st_delUser_def)
  moreover obtain ks where "w_db w' = d\<lparr>db_extKeys := ks\<rparr>" using delete_extKeys_only [OF st(2) [unfolded st_deleteUserRef_def]] by blast
  ultimately show ?thesis by (simp add: kept_def)
qed

lemma prune_accounts_kept:
  assumes "prune_accounts vs i qs (st, gone) = (st', gone')" "schema_ok (w_db (st_w st))" "x \<in> set (db_users (w_db (st_w st)))"
    "\<And>j q. q \<in> set qs \<Longrightarrow> us_username x \<noteq> ToLower (iv_text (vs j)) (qr_Username q)"
  shows "kept x (w_db (st_w st)) (w_db (st_w st'))"
  using assms
proof (induction qs arbitrary: i st gone)
  case Nil
  then show ?case by (simp add: kept_refl)
next
  case (Cons q qs)
  obtain st1 e where d: "DeleteIMAPAcct (vs i) (qr_Username q) st = (st1, e)" by fastforce
  then have du: "DeleteUser (iv_env (vs i)) (iv_text (vs i)) (qr_Username q) (st_w st) = (st_w st1, e)"
    by (auto simp: DeleteIMAPAcct_def Let_def q_delete_def split: prod.splits if_splits)
  have k: "kept x (w_db (st_w st)) (w_db (st_w st1))"
    by (rule DeleteUser_kept [OF du]) (use Cons.prems in simp_all)
  have "prune_accounts vs (Suc i) qs (st1, if e = None then gone @ [qr_Username q] else gone) = (st', gone')"
    using Cons.prems(1) d by (auto split: option.splits)
  from Cons.IH [OF this sound.DeleteUser_keeps [OF du Cons.prems(2)]] k Cons.prems(4) have "kept x (w_db (st_w st1)) (w_db (st_w st'))" by (auto simp: kept_def)
  with k show ?case by (rule kept_trans)
qed

text \<open>The removal of unused accounts leaves an account with its mailboxes and messages alone unless a row of \<open>quotas\<close> with its name was made before the
  retention time and says that it never logged in.\<close>

theorem prune_only_unused:
  assumes "PruneUnusedAccounts v vs retention st = (st', r)" "schema_ok (w_db (st_w st))" "x \<in> set (db_users (w_db (st_w st)))"
    "\<And>j q. q \<in> set (st_quotas st) \<Longrightarrow> qr_FirstLoginAt q = 1 \<Longrightarrow> qr_CreatedAt q < iv_now v - retention \<Longrightarrow> us_username x \<noteq> ToLower (iv_text (vs j)) (qr_Username q)"
  shows "kept x (w_db (st_w st)) (w_db (st_w st'))"
proof (cases "se_flt (iv_env v) ''quotas.Find'' 0")
  case True
  with assms(1) have "st' = st" by (simp add: PruneUnusedAccounts_def Let_def run_def)
  with kept_refl [OF assms(3)] show ?thesis by simp
next
  case False
  let ?qs = "filter (\<lambda>q. qr_FirstLoginAt q = 1 \<and> qr_CreatedAt q < iv_now v - retention) (st_quotas st)"
  obtain gone where "prune_accounts vs 0 ?qs (st, []) = (st', gone)"
    using assms(1) False by (auto simp: PruneUnusedAccounts_def Let_def run_def split: prod.splits)
  from prune_accounts_kept [OF this assms(2,3)] assms(4) show ?thesis by simp
qed

text \<open>Two accounts, of which the second one never logged in.\<close>

end
