(* ===== verification/Sql_Count.thy ===== *)
theory Sql_Count
  imports Sql_Delivery
begin

text \<open>
  The counters of the mailboxes: which operations keep \<open>msgsCount\<close> equal to the number of messages.

  A move keeps this when its ranges do not overlap and its destination is another mailbox.
\<close>

section \<open>Counting\<close>

lemma append_count:
  assumes "count_is c d" "db_msgs d' = db_msgs d @ ns" "\<forall>r\<in>set ns. ms_mboxId r = j" "db_mboxes d' = db_mboxes d"
  shows "count_is (\<lambda>i. c i + (if i = j then int (length ns) else 0)) d'"
proof -
  have "length (filter (in_mbox i) ns) = (if i = j then length ns else 0)" for i
    using assms(3) by (induction ns) (auto simp: in_mbox_def)
  with assms(1,2,4) show ?thesis by (auto simp: count_is_def)
qed

lemma increase_count: "count_is c d \<Longrightarrow> count_is (\<lambda>j. c j - (if j = i then int k else 0)) (st_increaseMsgCount n k i d)"
  by (rule increaseMsgCount_inv(4)) (simp add: count_is_def)

lemma new_message_count:
  assumes "incrementMsgCounters env j i d = Inr (d1, n)" "add_message env j' uid i n t len (bs, ch, k) sn rc fl d2 = Inr d3" "counts_right d"
    "db_msgs d2 = db_msgs d1" "db_mboxes d2 = db_mboxes d1"
  shows "counts_right d3"
proof -
  have "\<exists>r. ms_mboxId r = i \<and> db_msgs d3 = db_msgs d2 @ [r] \<and> db_mboxes d3 = db_mboxes d2" by (rule add_message_steps [OF assms(2)]) auto
  then obtain r where r: "ms_mboxId r = i" "db_msgs d3 = db_msgs d2 @ [r]" "db_mboxes d3 = db_mboxes d2" by blast
  have "count_is (\<lambda>j. 0 - (if j = i then int 1 else 0)) d1"
    unfolding incrementMsgCounters_inc [OF assms(1)] by (rule increase_count [OF assms(3)])
  from append_count [OF this, of d3 "[r]" i] r assms(4,5) show ?thesis by (simp cong: if_cong)
qed

lemma deliver_all_count:
  assumes "deliver_all env l i dv hdr bl body ms s = (s', None)" "counts_right (bs_db s)"
  shows "counts_right (bs_db s')"
  using assms
proof (induction ms arbitrary: i s)
  case (Cons m ms)
  from Cons.prems(1) obtain s1 where s1: "mboxDelivery env l i dv hdr bl body m s = (s1, None)" "deliver_all env l (Suc i) dv hdr bl body ms s1 = (s', None)"
    by (auto split: prod.splits option.splits)
  have "counts_right (bs_db s1)"
  proof (rule mboxDelivery_steps [OF s1(1)])
    fix k d1 d2 n blob bs ch
    assume st: "st_addExtKey k (sm_user m) 1 (bs_db s) = Inr d1" "incrementMsgCounters env i (sm_id m) d1 = Inr (d2, n)"
      "add_message env i (sm_user m) (sm_id m) n (se_now env) (length blob + bl) (bs, ch, k) False True (rcpt_flags dv m) d2 = Inr (bs_db s1)"
    from addExtKey_inv(5) [OF st(1)] Cons.prems(2) have "counts_right d1" by simp
    from new_message_count [OF st(2,3) this refl refl] show "counts_right (bs_db s1)" .
  qed
  from Cons.IH [OF s1(2) this] show ?case .
qed simp

lemma copied_count:
  assumes "copy_ranges env refs uid src j rs 0 d = Inr (d1, n)" "store_ok d0 d" "schema_ok d0" "length (db_msgs d1) < 2 ^ 32" "count_is c d"
  shows "count_is (\<lambda>i. c i + (if i = j then int n else 0)) d1"
proof -
  have ok: "schema_ok d" "since d0 d" "uid_bound (\<lambda>i. if i = j then 0 else 0) d" using assms(2) by (simp_all add: store_ok_def cong: if_cong)
  have len: "0 + (length (db_msgs d1) - length (db_msgs d)) < 2 ^ 32" using assms(4) by simp
  from copy_ranges_inv [OF assms(1) ok(1) assms(3) ok(2,3) len] obtain ns where
    "n = length (db_msgs d1) - length (db_msgs d)" "db_mboxes d1 = db_mboxes d" "db_msgs d1 = db_msgs d @ ns" "\<forall>r\<in>set ns. ms_mboxId r = j" by auto
  with append_count [OF assms(5), of d1 ns j] show ?thesis by (simp cong: if_cong)
qed

section \<open>Operations on a mailbox\<close>

lemma CreateMessage_count:
  assumes "CreateMessage env m fl t body w = (w', e)" "counts_right (w_db w)"
  shows "counts_right (w_db w')"
proof (rule disjE [OF CreateMessage_db [OF assms(1)]])
  assume "w_db w' = w_db w"
  with assms(2) show ?thesis by simp
next
  assume "\<exists>d1 d2 n tm len bs ch k sn rc fl'. incrementMsgCounters env 0 (sm_id m) (w_db w) = Inr (d1, n) \<and>
    st_addExtKey k (sm_user m) 1 d1 = Inr d2 \<and> add_message env 0 (sm_user m) (sm_id m) n tm len (bs, ch, k) sn rc fl' d2 = Inr (w_db w')"
  then obtain d1 d2 n tm len bs ch k sn rc fl' where 1: "incrementMsgCounters env 0 (sm_id m) (w_db w) = Inr (d1, n)" and
    2: "st_addExtKey k (sm_user m) 1 d1 = Inr d2" and 3: "add_message env 0 (sm_user m) (sm_id m) n tm len (bs, ch, k) sn rc fl' d2 = Inr (w_db w')" by blast
  from new_message_count [OF 1 3 assms(2)] 2 show ?thesis by (auto simp: st_addExtKey_def split: if_splits)
qed

lemma CopyMessages_count:
  assumes "CopyMessages env m u sq dest w = (w', e)" "store_ok d0 (w_db w)" "schema_ok d0" "small (w_db w')" "counts_right (w_db w)"
  shows "counts_right (w_db w')"
proof (cases "w_db w' = w_db w")
  case False
  from CopyMessages_db [OF assms(1) False] obtain rs d a b j where c: "copyMessages env m rs dest (w_db w) = Inr (d, a, b, j)" and
    w': "w_db w' = d \<or> (\<exists>n. w_db w' = st_addRecentToLast j n d)" by blast
  from copyMessages_steps [OF c] obtain d1 n where st: "copy_ranges env True (sm_user m) (sm_id m) j rs 0 (w_db w) = Inr (d1, n)" "d = st_increaseMsgCount n n j d1"
    by metis
  have "length (db_msgs d) = length (db_msgs d1)" by (simp add: st st_increaseMsgCount_def update_mboxes_def)
  with w' assms(4) have len: "length (db_msgs d1) < 2 ^ 32" by (auto simp: small_def recent_inv)
  from copied_count [OF st(1) assms(2,3) len assms(5)] have "count_is (\<lambda>i. (if i = j then int n else 0) + 0) d1" by (simp cong: if_cong)
  from increaseMsgCount_inv(4) [OF this] have "counts_right d" unfolding st(2) by simp
  with w' show ?thesis by (auto simp: recent_inv)
qed (use assms in simp)

text \<open>The marked messages of a database whose marks were all set just now.\<close>

lemma marked_count:
  assumes "mark_all env i rs d = Inr d1" "unmarked d" "count_is c d"
  shows "count_is (\<lambda>j. c j - (if j = i then int (length (filter ms_mark (db_msgs d1))) else 0)) (st_delMarked d1)"
proof -
  have in_i: "ms_mark r \<Longrightarrow> in_mbox i r" if "r \<in> set (db_msgs d1)" for r
    using that assms(2) unfolding mark_all_eq [OF assms(1)] by (auto simp: update_msgs_def unmarked_def in_range_def in_mbox_def split: if_splits)
  have k: "int (length (filter (\<lambda>r. in_mbox (mb_id b) r \<and> ms_mark r) (db_msgs d1))) =
    (if mb_id b = i then int (length (filter ms_mark (db_msgs d1))) else 0)" for b
  proof (cases "mb_id b = i")
    case True
    then have "filter (\<lambda>r. in_mbox (mb_id b) r \<and> ms_mark r) (db_msgs d1) = filter ms_mark (db_msgs d1)" using in_i by (intro filter_cong) auto
    with True show ?thesis by simp
  next
    case False
    then have "filter (\<lambda>r. in_mbox (mb_id b) r \<and> ms_mark r) (db_msgs d1) = []" using in_i by (auto simp: filter_empty_conv in_mbox_def)
    with False show ?thesis by simp
  qed
  from mark_all_inv(3) [OF assms(1)] assms(3) have "count_is c d1" by simp
  then show ?thesis unfolding st_delMarked_def by (rule delete_msgs_count) (rule k)
qed

lemma markedUids_length:
  assumes "mark_all env i rs d = Inr d1" "unmarked d"
  shows "length (st_markedUids i d1) = length (filter ms_mark (db_msgs d1))"
proof -
  have "ms_mark r \<Longrightarrow> in_mbox i r" if "r \<in> set (db_msgs d1)" for r
    using that assms(2) unfolding mark_all_eq [OF assms(1)] by (auto simp: update_msgs_def unmarked_def in_range_def in_mbox_def split: if_splits)
  then have "filter (\<lambda>r. in_mbox i r \<and> ms_mark r) (db_msgs d1) = filter ms_mark (db_msgs d1)" by (intro filter_cong) auto
  then show ?thesis by (simp add: st_markedUids_def msgs_by_def)
qed

lemma DelMessages_count:
  assumes "DelMessages env m sq w = (w', e)" "store_ok d0 (w_db w)" "small (w_db w)" "counts_right (w_db w)"
  shows "counts_right (w_db w')"
proof (cases "w_db w' = w_db w")
  case False
  from DelMessages_db [OF assms(1) False] obtain rs st us where c: "delMessages env m rs (w_db w, w_store w) = (st, Inr (w_db w', us))" by blast
  from delMessages_steps [OF c] obtain d1 where st: "mark_all env (sm_id m) rs (w_db w) = Inr d1" "us = map fst (st_markedUids (sm_id m) d1)"
    "w_db w' = st_decreaseMsgCount (u32 (length us)) (sm_id m) (st_delMarked d1)" by metis
  have um: "unmarked (w_db w)" using assms(2) by (simp add: store_ok_def)
  have l0: "length us = length (filter ms_mark (db_msgs d1))" using markedUids_length [OF st(1) um] st(2) by simp
  also have "\<dots> \<le> length (db_msgs (w_db w))" using mark_all_inv(6) [OF st(1)] length_filter_le [of ms_mark "db_msgs d1"] by simp
  finally have u: "u32 (length us) = length us" using assms(3) by (simp add: u32_def small_def)
  from marked_count [OF st(1) um assms(4)] have "count_is (\<lambda>j. 0 - (if j = sm_id m then int (length us) else 0)) (st_delMarked d1)" unfolding l0 .
  from decreaseMsgCount_inv(4) [OF this] show ?thesis unfolding st(3) u by simp
qed (use assms in simp)

lemma deleted_length:
  assumes "schema_ok d"
  shows "length (st_deletedUids i d) = length (filter (\<lambda>r. in_mbox i r \<and> has_flag d deleted_flag r) (db_msgs d))"
proof -
  let ?F = "filter (\<lambda>f. fst f = i \<and> snd (snd f) = deleted_flag) (db_flags d)" and ?R = "filter (\<lambda>r. in_mbox i r \<and> has_flag d deleted_flag r) (db_msgs d)"
  have d: "distinct (db_flags d)" "distinct (map ms_key (db_msgs d))" "fl_key ` set (db_flags d) \<subseteq> ms_key ` set (db_msgs d)"
    using assms schema_flags [OF assms] by (simp_all add: schema_ok_def)
  have "length ?F = card (set ?F)" by (rule distinct_card [symmetric]) (simp add: d(1))
  also have "\<dots> = card (fl_key ` set ?F)" by (rule card_image [symmetric]) (auto simp: inj_on_def)
  also have "fl_key ` set ?F = ms_key ` set ?R"
  proof
    show "fl_key ` set ?F \<subseteq> ms_key ` set ?R"
    proof
      fix x assume "x \<in> fl_key ` set ?F"
      then obtain f where "f \<in> set ?F" "x = fl_key f" by blast
      then have f: "f \<in> set (db_flags d)" "fst f = i" "snd (snd f) = deleted_flag" "x = fl_key f" by simp_all
      from subsetD [OF d(3) imageI [OF f(1)]] obtain r where r: "ms_key r = x" "r \<in> set (db_msgs d)" unfolding f(4) by (elim imageE) simp
      have k: "ms_mboxId r = i" "ms_msgId r = fst (snd f)" using f(2,4) r(1) by simp_all
      have "(ms_mboxId r, ms_msgId r, deleted_flag) = f" using f(2,3) k by (simp add: prod_eq_iff)
      then have "r \<in> set ?R" using f(1) k(1) r(2) by (simp add: in_mbox_def has_flag_def)
      from imageI [OF this, of ms_key] r(1) show "x \<in> ms_key ` set ?R" by simp
    qed
    show "ms_key ` set ?R \<subseteq> fl_key ` set ?F"
    proof
      fix x assume "x \<in> ms_key ` set ?R"
      then obtain r where "r \<in> set ?R" and x: "x = ms_key r" by blast
      then have "(i, ms_msgId r, deleted_flag) \<in> set ?F" "ms_mboxId r = i" by (auto simp: in_mbox_def has_flag_def)
      from imageI [OF this(1), of fl_key] this(2) x show "x \<in> fl_key ` set ?F" by simp
    qed
  qed
  also have "card (ms_key ` set ?R) = length ?R"
    using distinct_card [OF distinct_map_filter [OF d(2), of "\<lambda>r. in_mbox i r \<and> has_flag d deleted_flag r"]] by (simp only: set_map length_map)
  finally show ?thesis by (simp add: st_deletedUids_def)
qed

lemma Expunge_count:
  assumes "Expunge env m w = (w', e)" "store_ok d0 (w_db w)" "small (w_db w)" "counts_right (w_db w)"
  shows "counts_right (w_db w')"
proof (cases "w_db w' = w_db w")
  case False
  then obtain uids keys where c: "Expunge_tx env m (w_db w) = Inr (w_db w', uids, keys)"
    using assms(1) unfolding Expunge_def by (auto split: sum.splits prod.splits option.splits)
  from Expunge_tx_steps [OF c] obtain d1 d2 where st: "d1 = st_decreaseRefForDeleted (sm_user m) (sm_id m) (w_db w)" "uids = st_deletedUids (sm_id m) (w_db w)"
    "d2 = st_decreaseMsgCount (u32 (length uids)) (sm_id m) (st_expungeMbox (sm_id m) d1)" "st_deleteZeroRef (sm_user m) d2 = Inr (w_db w')" by metis
  have ok: "schema_ok (w_db w)" using assms(2) by (simp add: store_ok_def)
  have d1: "counts_right d1" "db_msgs d1 = db_msgs (w_db w)" "db_flags d1 = db_flags (w_db w)"
    using assms(4) by (simp_all add: st(1) st_decreaseRefForDeleted_def update_refs_inv) (simp_all add: update_refs_def)
  let ?P = "\<lambda>r. in_mbox (sm_id m) r \<and> has_flag d1 deleted_flag r"
  have n: "length (filter ?P (db_msgs d1)) = length uids" using deleted_length [OF ok, of "sm_id m"] st(2) d1(2,3) by (simp add: has_flag_def)
  then have "length uids \<le> length (db_msgs (w_db w))" using length_filter_le [of ?P "db_msgs d1"] d1(2) by simp
  then have u: "u32 (length uids) = length uids" using assms(3) by (simp add: u32_def small_def)
  have "int (length (filter (\<lambda>r. in_mbox (mb_id b) r \<and> ?P r) (db_msgs d1))) = (if mb_id b = sm_id m then int (length uids) else 0)" for b
  proof (cases "mb_id b = sm_id m")
    case True
    with n show ?thesis by simp
  next
    case False
    then have "filter (\<lambda>r. in_mbox (mb_id b) r \<and> ?P r) (db_msgs d1) = []" by (auto simp: filter_empty_conv in_mbox_def)
    with False show ?thesis by simp
  qed
  then have "count_is (\<lambda>i. 0 - (if i = sm_id m then int (length uids) else 0)) (st_expungeMbox (sm_id m) d1)"
    unfolding st_expungeMbox_def by (intro delete_msgs_count [OF d1(1)])
  from decreaseMsgCount_inv(4) [OF this] have "counts_right d2" unfolding st(3) u by simp
  with delete_extKeys_inv(5) [OF st(4) [unfolded st_deleteZeroRef_def]] show ?thesis by simp
qed (use assms in simp)

text \<open>A move: the ranges do not overlap and the destination is another mailbox.\<close>

fun disjoint_ranges :: "ranges \<Rightarrow> bool" where
  "disjoint_ranges [] \<longleftrightarrow> True"
| "disjoint_ranges ((a, b) # rs) \<longleftrightarrow> (\<forall>(c, e)\<in>set rs. b < c \<or> e < a) \<and> disjoint_ranges rs"

definition ranged :: "nat \<Rightarrow> ranges \<Rightarrow> sqldb \<Rightarrow> nat" where
  "ranged i rs d = length (filter (\<lambda>r. \<exists>(a, b)\<in>set rs. in_range i a b r) (db_msgs d))"

lemma ranged_Cons:
  assumes "disjoint_ranges ((a, b) # rs)"
  shows "ranged i ((a, b) # rs) d = length (filter (in_range i a b) (db_msgs d)) + ranged i rs d"
proof -
  have "\<not> (in_range i a b r \<and> (\<exists>(c, e)\<in>set rs. in_range i c e r))" for r using assms by (fastforce simp: in_range_def)
  then have "length (filter (\<lambda>r. in_range i a b r \<or> (\<exists>(c, e)\<in>set rs. in_range i c e r)) ms) =
    length (filter (in_range i a b) ms) + length (filter (\<lambda>r. \<exists>(c, e)\<in>set rs. in_range i c e r) ms)" for ms
    by (induction ms) auto
  then show ?thesis by (simp add: ranged_def)
qed

lemma ranged_append: "db_msgs d' = db_msgs d @ ns \<Longrightarrow> \<forall>r\<in>set ns. ms_mboxId r = j \<Longrightarrow> i \<noteq> j \<Longrightarrow> ranged i rs d' = ranged i rs d"
  by (auto simp: ranged_def filter_empty_conv in_range_def)

lemma sort_key_Nil: "sort_key f xs = [] \<longleftrightarrow> xs = []"
  by (metis length_0_conv length_sort)

lemma copy_ranges_sum:
  assumes "copy_ranges env refs uid src dest rs n d = Inr (d', n')" "src \<noteq> dest" "disjoint_ranges rs" "n + (length (db_msgs d') - length (db_msgs d)) < 2 ^ 32"
  shows "n' = n + ranged src rs d"
  using assms
proof (induction rs arbitrary: n d)
  case Nil
  then show ?case by (simp add: ranged_def)
next
  case (Cons x rs)
  obtain a b where x: "x = (a, b)" by fastforce
  from copy_ranges_step [OF Cons.prems(1) [unfolded x]] obtain d1 k d2 d3 where s: "st_copyMsgsUid dest n src a b d = Inr (d1, k)"
    "st_copyMsgFlagsUid dest n src a b d1 = Inr d2" "d3 = (if refs then st_incrementRefUid uid src a b d2 else d2)"
    "copy_ranges env refs uid src dest rs (u32 (n + u32 k)) d3 = Inr (d', n')" by blast
  have k: "k = length (filter (in_range src a b) (db_msgs d))" "\<exists>ns. db_msgs d1 = db_msgs d @ ns \<and> length ns = k \<and> (\<forall>r\<in>set ns. ms_mboxId r = dest)"
    using s(1) by (auto simp: st_copyMsgsUid_def Let_def ebind_Inr_iff msgs_by_def sort_key_Nil split: option.splits if_splits dest!: fold_insert_msg_eq)
  then obtain ns where ns: "db_msgs d1 = db_msgs d @ ns" "length ns = k" "\<forall>r\<in>set ns. ms_mboxId r = dest" by blast
  have d3: "db_msgs d3 = db_msgs d1" using copyMsgFlagsUid_msgs [OF s(2)] s(3) by (simp add: st_incrementRefUid_def update_refs_def)
  obtain ns' where ns': "db_msgs d' = db_msgs d3 @ ns'" using copy_ranges_append [OF s(4)] by blast
  have nk: "n + k + length ns' < 2 ^ 32" using Cons.prems(4) ns ns' d3 by simp
  then have u: "u32 (n + u32 k) = n + k" by (simp add: u32_def)
  have "n' = (n + k) + ranged src rs d3"
    by (rule Cons.IH [OF s(4) [unfolded u] Cons.prems(2)]) (use Cons.prems(3) nk ns' in \<open>simp_all add: x\<close>)
  also have "ranged src rs d3 = ranged src rs d" by (rule ranged_append [OF _ ns(3) Cons.prems(2)]) (simp add: d3 ns(1))
  finally show ?case using ranged_Cons [of a b rs src d] Cons.prems(3) k(1) by (simp add: x)
qed

lemma mark_all_marks:
  assumes "mark_all env i rs d = Inr d1" "unmarked d" "r \<in> set (db_msgs d1)"
  shows "ms_mark r \<longleftrightarrow> (\<exists>(a, b)\<in>set rs. in_range i a b r)"
proof -
  let ?P = "\<lambda>r. \<exists>(a, b)\<in>set rs. in_range i a b r"
  have "db_msgs d1 = map (\<lambda>r. if ?P r then r\<lparr>ms_mark := True\<rparr> else r) (db_msgs d)"
    unfolding mark_all_eq [OF assms(1)] update_msgs_def by simp
  with assms(3) have "r \<in> (\<lambda>r. if ?P r then r\<lparr>ms_mark := True\<rparr> else r) ` set (db_msgs d)" by (simp only: set_map)
  then obtain x where x: "x \<in> set (db_msgs d)" "r = (if ?P x then x\<lparr>ms_mark := True\<rparr> else x)" by (rule imageE)
  have "\<not> ms_mark x" using assms(2) x(1) by (simp add: unmarked_def)
  moreover have "?P (x\<lparr>ms_mark := True\<rparr>) = ?P x" by (simp add: in_range_def)
  ultimately show ?thesis using x(2) by (cases "?P x") simp_all
qed

lemma MoveMessages_count:
  assumes "MoveMessages env m (Inr rs) dest w = (w', e)" "store_ok d0 (w_db w)" "schema_ok d0" "small (w_db w')" "counts_right (w_db w)"
    "disjoint_ranges rs" "st_mboxId (sm_user m) dest (w_db w) \<noteq> Some (sm_id m)"
  shows "counts_right (w_db w')"
proof (cases "MoveMessages_tx env m (Inr rs) dest (w_db w)")
  case (Inl err)
  with assms show ?thesis by (simp add: MoveMessages_def)
next
  case (Inr x)
  then obtain d' evs where x: "MoveMessages_tx env m (Inr rs) dest (w_db w) = Inr (d', evs)" by (cases x) simp
  with assms(1) have w': "w_db w' = d'" by (auto simp: MoveMessages_def)
  from MoveMessages_tx_steps [OF x] obtain rs' d1 j d2 n nx d3 where st0: "Inr rs = (Inr rs' :: goerr + ranges)" "mark_all env (sm_id m) rs' (w_db w) = Inr d1"
    "st_mboxId (sm_user m) dest d1 = Some j" "copy_ranges env False (sm_user m) (sm_id m) j rs' 0 d1 = Inr (d2, n)"
    "d3 = st_decreaseMsgCount n (sm_id m) (st_delMarked d2)" "d' = st_increaseMsgCount n n j d3" by metis
  then have st: "mark_all env (sm_id m) rs (w_db w) = Inr d1" "copy_ranges env False (sm_user m) (sm_id m) j rs 0 d1 = Inr (d2, n)" by simp_all
  have ok: "schema_ok (w_db w)" "uid_bound (\<lambda>_. 0) (w_db w)" "since d0 (w_db w)" "unmarked (w_db w)" using assms(2) by (simp_all add: store_ok_def)
  note mk = mark_all_inv [OF st(1)]
  have "st_mboxId (sm_user m) dest (w_db w) = Some j" using st0(3) mk(5) by (simp add: st_mboxId_def)
  with assms(7) have ne: "sm_id m \<noteq> j" by auto
  obtain ns where ns: "db_msgs d2 = db_msgs d1 @ ns" "\<forall>r\<in>set ns. ms_mboxId r = j \<and> \<not> ms_mark r" using copy_ranges_append [OF st(2)] by blast
  have "db_msgs d' = filter (\<lambda>r. \<not> ms_mark r) (db_msgs d2)"
    by (simp add: st0 st_increaseMsgCount_def st_decreaseMsgCount_def st_delMarked_def update_mboxes_def delete_msgs_def Let_def)
  with ns have "length ns \<le> length (db_msgs d')" by simp
  with assms(4) w' have len: "length ns < 2 ^ 32" by (simp add: small_def)
  then have len0: "0 + (length (db_msgs d2) - length (db_msgs d1)) < 2 ^ 32" using ns(1) by simp
  have ci: "schema_ok d2 \<and> since d0 d2 \<and> uid_bound (\<lambda>i. if i = j then n else 0) d2 \<and> n = 0 + (length (db_msgs d2) - length (db_msgs d1)) \<and>
    db_mboxes d2 = db_mboxes d1 \<and> (\<exists>ns. db_msgs d2 = db_msgs d1 @ ns \<and> (\<forall>r\<in>set ns. ms_mboxId r = j \<and> \<not> ms_mark r))"
    by (rule copy_ranges_inv [OF st(2)]) (use mk ok assms(3) len0 in \<open>simp_all cong: if_cong\<close>)
  then have n: "n = length ns" "db_mboxes d2 = db_mboxes d1" using ns(1) by auto
  have "n = ranged (sm_id m) rs d1" using copy_ranges_sum [OF st(2) ne assms(6) len0] by simp
  also have "\<dots> = length (filter ms_mark (db_msgs d1))"
  proof -
    have "ms_mark r \<longleftrightarrow> (\<exists>(a, b)\<in>set rs. in_range (sm_id m) a b r)" if "r \<in> set (db_msgs d1)" for r
      by (rule mark_all_marks [OF st(1) ok(4) that])
    then have "filter ms_mark (db_msgs d1) = filter (\<lambda>r. \<exists>(a, b)\<in>set rs. in_range (sm_id m) a b r) (db_msgs d1)" by (rule filter_cong [OF refl])
    then show ?thesis by (simp only: ranged_def)
  qed
  finally have marked: "n = length (filter ms_mark (db_msgs d1))" .
  from marked_count [OF st(1) ok(4) assms(5)] have c1: "count_is (\<lambda>i. 0 - (if i = sm_id m then int n else 0)) (st_delMarked d1)" unfolding marked .
  have "db_msgs (st_delMarked d2) = db_msgs (st_delMarked d1) @ ns" "db_mboxes (st_delMarked d2) = db_mboxes (st_delMarked d1)"
    using ns n(2) by (auto simp: st_delMarked_def delete_msgs_def Let_def filter_id_conv)
  from append_count [OF c1 this(1) _ this(2), of j] ns(2) have "count_is (\<lambda>i. 0 - (if i = sm_id m then int n else 0) + (if i = j then int n else 0)) (st_delMarked d2)"
    unfolding n(1) by simp
  then have "count_is (\<lambda>i. ((if i = j then int n else 0) + 0) - (if i = sm_id m then int n else 0)) (st_delMarked d2)" by (simp add: algebra_simps)
  from decreaseMsgCount_inv(4) [OF this] have "count_is (\<lambda>i. (if i = j then int n else 0) + 0) d3" by (simp add: st0(5))
  from increaseMsgCount_inv(4) [OF this] show ?thesis unfolding w' st0(6) .
qed

end
