(* ===== verification/Sql_Store.thy ===== *)
theory Sql_Store
  imports Imap_Storage Sql_Count
begin

text \<open>
  Runs of the storage: any sequence of the operations of go-imap-sql and of the storage module on one database.

  Transactions run one after the other (the statement that begins one takes the lock of the database), so a step is one operation, and a delivery is one
  step from its body to its commit. Every statement, the commit included, may fail. The flag of a step says that the step keeps the counters of the
  mailboxes: the purge statements of the storage module do not, and a move does when its ranges do not overlap and it goes to another mailbox.
\<close>

definition plain_move :: "sql_mailbox \<Rightarrow> (goerr + ranges) \<Rightarrow> string \<Rightarrow> sql_world \<Rightarrow> bool" where
  "plain_move m sq dest w \<longleftrightarrow> (case sq of Inl _ \<Rightarrow> True | Inr rs \<Rightarrow> disjoint_ranges rs) \<and> st_mboxId (sm_user m) dest (w_db w) \<noteq> Some (sm_id m)"

inductive sql_step :: "bool \<Rightarrow> sql_world \<Rightarrow> sql_world \<Rightarrow> bool" where
  appended: "CreateMessage env m fl t body w = (w', e) \<Longrightarrow> sql_step c w w'"
| moved: "MoveMessages env m sq dest w = (w', e) \<Longrightarrow> (c \<Longrightarrow> plain_move m sq dest w) \<Longrightarrow> sql_step c w w'"
| copied: "CopyMessages env m u sq dest w = (w', e) \<Longrightarrow> sql_step c w w'"
| deleted: "DelMessages env m sq w = (w', e) \<Longrightarrow> sql_step c w w'"
| expunged: "Expunge env m w = (w', e) \<Longrightarrow> sql_step c w w'"
| flagged: "UpdateMessagesFlags env m sq op si fl w = (w', e) \<Longrightarrow> sql_step c w w'"
| opened: "GetMailbox env dr usr name ro conn w = (w', r) \<Longrightarrow> sql_step c w w'"
| user_created: "CreateUser env lib name w = (w', e) \<Longrightarrow> sql_step c w w'"
| user_fetched: "GetOrCreateUser env lib name w = (w', usr, e) \<Longrightarrow> sql_step c w w'"
| user_deleted: "DeleteUser env lib name w = (w', e) \<Longrightarrow> sql_step c w w'"
| mbox_created: "CreateMailbox env usr name w = (w', e) \<or> CreateMailboxSpecial env usr name attr w = (w', e) \<Longrightarrow> sql_step c w w'"
| mbox_deleted: "DeleteMailbox env lib usr name w = (w', e) \<Longrightarrow> sql_step c w w'"
| mbox_renamed: "RenameMailbox env usr a b w = (w', e) \<Longrightarrow> sql_step c w w'"
| limited: "SetSubscribed env usr name sub w = (w', e) \<or> user_SetMessageLimit env usr v w = (w', e) \<or> mbox_SetMessageLimit env m v w = (w', e) \<Longrightarrow> sql_step c w w'"
| filed: "dv_Mailbox envs l name dv w = (dv', w', e) \<or> dv_SpecialMailbox envs l attr name dv w = (dv', w', e) \<Longrightarrow> sql_step c w w'"
| delivered: "dv_BodyParsed envs l hdr n body dv w = (dv1, w1, None) \<Longrightarrow> dv_Commit env dv1 w1 = (dv2, w', e) \<Longrightarrow> sql_step c w w'"
| aborted: "dv_BodyParsed envs l hdr n body dv w = (dv1, w1, e1) \<Longrightarrow> dv_Abort env dv1 w1 = (dv2, w', e) \<Longrightarrow> sql_step c w w'"
| purged: "purge v P st = (st', e) \<Longrightarrow> sql_step False (st_w st) (st_w st')"

text \<open>A run, as long as the database stays \<open>small\<close>: fewer than \<open>2 ^ 32\<close> messages and no UID beyond 32 bits.\<close>

inductive sql_run :: "bool \<Rightarrow> sql_world \<Rightarrow> sql_world \<Rightarrow> bool" where
  run_refl: "sql_run c w w"
| run_step: "sql_run c w w1 \<Longrightarrow> sql_step c w1 w2 \<Longrightarrow> small (w_db w2) \<Longrightarrow> sql_run c w w2"

definition new_world :: sql_world where
  "new_world = \<lparr>w_db = empty_db, w_store = Map.empty, w_events = []\<rparr>"

section \<open>Every step keeps the invariant\<close>

lemma store_keptI: "store_ok d0 d \<Longrightarrow> schema_ok d0 \<Longrightarrow> store_kept d0 d"
  by (simp add: store_kept_def)

lemma store_keptD: "store_kept d0 d \<Longrightarrow> store_ok d0 d" "store_kept d0 d \<Longrightarrow> schema_ok d0"
  by (simp_all add: store_kept_def)

lemma delivery_kept:
  assumes "dv_BodyParsed envs l hdr n body dv w = (dv1, w1, None)" "dv_Commit env dv1 w1 = (dv2, w', e)"
  shows "store_kept d0 (w_db w) \<Longrightarrow> small (w_db w') \<Longrightarrow> store_kept d0 (w_db w')" "exact (w_db w) \<Longrightarrow> schema_ok (w_db w') \<Longrightarrow> exact (w_db w')"
proof -
  obtain w0 dv0 s where w0: "only_mboxes w w0" "w_db w1 = w_db w0" and
    s: "deliver_all (envs (3 * length (dv_users dv))) l 0 dv0 hdr n body (dv_mboxes dv1) \<lparr>bs_db = w_db w0, bs_store = w_store w0, bs_pending = dv_pending dv\<rparr> = (s, None)"
      "dv_tx dv1 = OpenTx (bs_db s)"
    using BodyParsed_steps [OF assms(1)] by metis
  from Commit_steps [OF assms(2) s(2)] have w': "w' = w1 \<or> w_db w' = bs_db s" by (cases e) simp_all
  show "store_kept d0 (w_db w')" if k: "store_kept d0 (w_db w)" and sm: "small (w_db w')"
  proof -
    from w0(1) k have k0: "store_kept d0 (w_db w0)" by (simp add: only_mboxes_def)
    from w' show ?thesis
    proof
      assume d: "w_db w' = bs_db s"
      from deliver_all_store_ok [OF s(1), of d0] store_keptD [OF k0] sm d show ?thesis by (simp add: store_kept_def)
    qed (use k0 w0(2) in simp)
  qed
  show "exact (w_db w')" if k: "exact (w_db w)" and sm: "schema_ok (w_db w')"
  proof -
    from w0(1) k have k0: "exact (w_db w0)" by (simp add: only_mboxes_def)
    from w' show ?thesis
    proof
      assume d: "w_db w' = bs_db s"
      from deliver_all_count [OF s(1)] k0 sm d show ?thesis by (simp add: exact_def)
    qed (use k0 w0(2) in simp)
  qed
qed

lemma abort_kept:
  assumes "dv_BodyParsed envs l hdr n body dv w = (dv1, w1, e1)" "dv_Abort env dv1 w1 = (dv2, w', e)"
  shows "store_kept d0 (w_db w) \<Longrightarrow> store_kept d0 (w_db w')" "exact (w_db w) \<Longrightarrow> exact (w_db w')"
proof -
  obtain w0 where "only_mboxes w w0" "w_db w1 = w_db w0" using BodyParsed_steps [OF assms(1)] by metis
  with Abort_world [OF assms(2)] show "store_kept d0 (w_db w) \<Longrightarrow> store_kept d0 (w_db w')" "exact (w_db w) \<Longrightarrow> exact (w_db w')"
    by (simp_all add: only_mboxes_def)
qed

lemma purge_kept:
  assumes "purge v P st = (st', e)" "store_kept d0 (w_db (st_w st))"
  shows "store_kept d0 (w_db (st_w st'))"
  using assms delete_msgs_inv by (auto simp: purge_def store_kept_def store_ok_def split: sum.splits if_splits dest!: run_InrD)

lemma step_store:
  assumes "sql_step c w w'" "store_kept d0 (w_db w)" "small (w_db w')"
  shows "store_kept d0 (w_db w')"
  using assms
proof (cases rule: sql_step.cases)
  case (delivered envs l hdr n body dv dv1 w1 env dv2 e)
  then show ?thesis using delivery_kept(1) assms by blast
next
  case (filed envs l name dv dv' e attr)
  then show ?thesis using dv_Mailbox_inv assms unfolding only_mboxes_def by blast
qed (use store_keptD [OF assms(2)] in \<open>blast intro: store_keptI assms CreateMessage_ok MoveMessages_ok CopyMessages_ok DelMessages_ok Expunge_ok
      stored.UpdateMessagesFlags_keeps stored.GetMailbox_keeps stored.CreateUser_keeps stored.GetOrCreateUser_keeps stored.DeleteUser_keeps stored.CreateMailbox_keeps
      stored.DeleteMailbox_keeps stored.RenameMailbox_keeps stored.limits_keep abort_kept purge_kept\<close>)+

lemma step_count:
  assumes "sql_step True w w'" "store_kept d0 (w_db w)" "small (w_db w)" "small (w_db w')" "exact (w_db w)"
  shows "exact (w_db w')"
proof -
  have ok: "schema_ok (w_db w')" "store_ok d0 (w_db w)" "schema_ok d0" "counts_right (w_db w)"
    using step_store [OF assms(1,2,4)] assms(2,5) by (simp_all add: store_kept_def store_ok_def exact_def)
  have ex: "counts_right (w_db w') \<Longrightarrow> ?thesis" using ok(1) by (simp add: exact_def)
  from assms(1) show ?thesis
  proof (cases rule: sql_step.cases)
    case (moved env m sq dest e)
    show ?thesis
    proof (cases sq)
      case (Inl x)
      with moved assms(5) show ?thesis by (auto simp: MoveMessages_def MoveMessages_tx_def ebind_Inr_iff split: sum.splits)
    next
      case (Inr rs)
      with moved MoveMessages_count [OF _ ok(2,3) assms(4) ok(4)] show ?thesis by (intro ex) (auto simp: plain_move_def)
    qed
  next
    case (filed envs l name dv dv' e attr)
    then show ?thesis using dv_Mailbox_inv assms(5) unfolding only_mboxes_def by blast
  next
    case (delivered envs l hdr n body dv dv1 w1 env dv2 e)
    then show ?thesis using delivery_kept(2) ok(1) assms(5) by blast
  qed (blast intro: ex ok assms CreateMessage_count CopyMessages_count DelMessages_count Expunge_count
      counted.UpdateMessagesFlags_keeps counted.GetMailbox_keeps counted.CreateUser_keeps counted.GetOrCreateUser_keeps counted.DeleteUser_keeps counted.CreateMailbox_keeps
      counted.DeleteMailbox_keeps counted.RenameMailbox_keeps counted.limits_keep abort_kept)+
qed

lemma run_store: "sql_run c w w' \<Longrightarrow> store_kept d0 (w_db w) \<Longrightarrow> store_kept d0 (w_db w')"
  by (induction rule: sql_run.induct) (auto intro: step_store)

lemma new_world_ok: "store_kept empty_db (w_db new_world)" "small (w_db new_world)" "exact (w_db new_world)"
  using store_ok_empty by (simp_all add: new_world_def store_kept_def store_ok_def small_def exact_def count_is_def empty_db_def)

lemma run_small: "sql_run c w w' \<Longrightarrow> small (w_db w) \<Longrightarrow> small (w_db w')"
  by (induction rule: sql_run.induct) simp_all

lemma run_count: "sql_run c w w' \<Longrightarrow> c \<Longrightarrow> store_kept d0 (w_db w) \<Longrightarrow> small (w_db w) \<Longrightarrow> exact (w_db w) \<Longrightarrow> exact (w_db w')"
proof (induction rule: sql_run.induct)
  case (run_step c w w1 w2)
  then show ?case using step_count [OF _ run_store [OF run_step.hyps(1)] run_small [OF run_step.hyps(1)]] by simp
qed simp

lemma reached_ok:
  assumes "sql_run c new_world w"
  shows "schema_ok (w_db w)" "uid_bound (\<lambda>_. 0) (w_db w)" "unmarked (w_db w)"
  using run_store [OF assms new_world_ok(1)] by (simp_all add: store_kept_def store_ok_def)

section \<open>Properties\<close>

text \<open>C11. Whatever operations run on a new database, and whatever statements of them fail: the constraints of the schema hold between two operations (keys are unique,
  every mailbox has an account, every message a mailbox and a key for its body, every flag a message), every UID is below \<open>uidnext\<close> of its mailbox, and no
  message is left marked for removal.\<close>

theorem storage_invariant:
  assumes "sql_run c new_world w"
  shows "schema_ok (w_db w) \<and> uid_bound (\<lambda>_. 0) (w_db w) \<and> unmarked (w_db w)"
  using reached_ok [OF assms] by blast

text \<open>C12. A UID is never given twice. Between two states of a run, a mailbox that is still there keeps \<open>uidvalidity\<close> and does not lower \<open>uidnext\<close>, and a message
  whose UID is below the old \<open>uidnext\<close> of its mailbox is an old message: with the same date, size, structure, cached header and body.\<close>

theorem uids_never_reused:
  assumes "sql_run c new_world w" "sql_run c' w w'" "b \<in> set (db_mboxes (w_db w))"
  shows "(\<forall>b'\<in>set (db_mboxes (w_db w')). mb_id b' = mb_id b \<longrightarrow> mb_uidvalidity b' = mb_uidvalidity b \<and> mb_uidnext b \<le> mb_uidnext b') \<and>
     (\<forall>r\<in>set (db_msgs (w_db w')). ms_mboxId r = mb_id b \<and> ms_msgId r < mb_uidnext b \<longrightarrow>
        (\<exists>r0\<in>set (db_msgs (w_db w)). ms_key r0 = ms_key r \<and> ms_core r0 = ms_core r))"
proof -
  note ok = reached_ok [OF assms(1)]
  then have "store_kept (w_db w) (w_db w)" by (simp add: store_kept_def store_ok_def since_refl)
  from run_store [OF assms(2) this] have s: "since (w_db w) (w_db w')" by (simp add: store_kept_def store_ok_def)
  have seq: "mb_id b \<le> db_mboxSeq (w_db w)" using ok(1) assms(3) by (simp add: schema_ok_def)
  have one: "b0 = b" if "b0 \<in> set (db_mboxes (w_db w))" "mb_id b0 = mb_id b" for b0
    using that assms(3) mbox_of_iff [OF ok(1), of "mb_id b" b] mbox_of_iff [OF ok(1), of "mb_id b" b0] by simp
  show ?thesis
  proof (intro conjI ballI impI)
    fix b' assume b': "b' \<in> set (db_mboxes (w_db w'))" "mb_id b' = mb_id b"
    with s seq obtain b0 where b0: "b0 \<in> set (db_mboxes (w_db w))" "mb_id b0 = mb_id b'" "mb_uidnext b0 \<le> mb_uidnext b'" "mb_uidvalidity b0 = mb_uidvalidity b'"
      unfolding since_def by metis
    with one [OF b0(1)] b'(2) show "mb_uidvalidity b' = mb_uidvalidity b" "mb_uidnext b \<le> mb_uidnext b'" by simp_all
  next
    fix r assume "r \<in> set (db_msgs (w_db w'))" "ms_mboxId r = mb_id b \<and> ms_msgId r < mb_uidnext b"
    with s assms(3) show "\<exists>r0\<in>set (db_msgs (w_db w)). ms_key r0 = ms_key r \<and> ms_core r0 = ms_core r" unfolding since_def by metis
  qed
qed

text \<open>C15. The counter of a mailbox is the number of its messages, as long as nothing was purged and every move had ranges that do not overlap and another
  mailbox as its destination.\<close>

theorem counters_exact:
  assumes "sql_run True new_world w" "b \<in> set (db_mboxes (w_db w))"
  shows "mb_msgsCount b = int (length (filter (in_mbox (mb_id b)) (db_msgs (w_db w))))"
  using run_count [OF assms(1) TrueI new_world_ok] assms(2) by (simp add: exact_def count_is_def)

text \<open>An account, and a message in its inbox.\<close>

lemma lower_a: "normalizeUsername sample_text ''a'' = ''a''"
  unfolding normalizeUsername_def by (rule ToLower_lower_ascii) (simp add: lower_ascii_def ascii_def)

definition world1 :: sql_world where
  "world1 = fst (CreateUser demo_env sample_text ''a'' new_world)"

definition world2 :: sql_world where
  "world2 = fst (CreateMessage demo_env demo_inbox [] None ''hi'' world1)"

lemma world1_eq: "world1 = new_world\<lparr>w_db := empty_db\<lparr>db_users := [\<lparr>us_id = 1, us_username = ''a'', us_msgsizelimit = None, us_inboxId = 1\<rparr>],
    db_mboxes := [new_mbox 1 1 ''INBOX'' 7 None], db_userSeq := 1, db_mboxSeq := 1\<rparr>\<rparr>"
  by (simp add: world1_def CreateUser_def lower_a new_world_def empty_db_def demo_env_def run_def createUser_def st_addUser_def getUserMeta_def st_userMeta_def
      st_createMbox_def mbox_taken_def st_mboxId_def st_setInboxId_def u32_def Let_def new_mbox_def)

lemma world2_eq: "w_db world2 = (w_db world1)\<lparr>db_mboxes := [(new_mbox 1 1 ''INBOX'' 7 None)\<lparr>mb_uidnext := 2, mb_msgsCount := 1\<rparr>],
    db_extKeys := [\<lparr>ek_id = ''n'', ek_uid = 1, ek_refs = 1\<rparr>], db_msgs := [(demo_msg 1 1 ''n'')\<lparr>ms_date := 1000, ms_bodyLen := 2, ms_recent := True\<rparr>]\<rparr>"
  by (simp add: world2_def world1_eq CreateMessage_def checkAppendLimit_def createMessageLimit_def user_CreateMessageLimit_def st_mboxMsgSizeLimit_def
      st_userMsgSizeLimit_def mbox_of_def new_world_def empty_db_def demo_env_def run_def demo_inbox_def incrementMsgCounters_def st_uidNext_def
      st_increaseMsgCount_def update_mboxes_def processBody_def st_addExtKey_def add_message_def insert_msg_def u32_def Let_def new_mbox_def demo_msg_def)

lemma world_runs: "sql_run c new_world world1" "sql_run c world1 world2"
proof -
  have "CreateUser demo_env sample_text ''a'' new_world = (world1, snd (CreateUser demo_env sample_text ''a'' new_world))" by (simp add: world1_def)
  then have "sql_step c new_world world1" by (rule user_created)
  moreover have "small (w_db world1)" by (simp add: world1_eq small_def new_mbox_def empty_db_def new_world_def)
  ultimately show "sql_run c new_world world1" by (rule run_step [OF run_refl])
  have "CreateMessage demo_env demo_inbox [] None ''hi'' world1 = (world2, snd (CreateMessage demo_env demo_inbox [] None ''hi'' world1))" by (simp add: world2_def)
  then have "sql_step c world1 world2" by (rule appended)
  moreover have "small (w_db world2)" by (simp add: world2_eq world1_eq small_def new_mbox_def empty_db_def new_world_def)
  ultimately show "sql_run c world1 world2" by (rule run_step [OF run_refl])
qed

lemma run_append: "sql_run c b d \<Longrightarrow> sql_run c a b \<Longrightarrow> sql_run c a d"
  by (induction rule: sql_run.induct) (auto intro: run_step)

theorem storage_invariant_witness: "length (db_msgs (w_db world2)) = 1 \<and> schema_ok (w_db world2)"
  using storage_invariant [OF run_append [OF world_runs(2,1)]] by (simp add: world2_eq)

theorem uids_never_reused_witness: "length (db_msgs (w_db world2)) = 1 \<and> filter (\<lambda>r. ms_mboxId r = 1 \<and> ms_msgId r < 1) (db_msgs (w_db world2)) = []"
  using uids_never_reused [OF world_runs, of "new_mbox 1 1 ''INBOX'' 7 None"]
  by (simp add: world1_eq world2_eq new_mbox_def empty_db_def new_world_def filter_empty_conv)

theorem counters_exact_witness: "length (filter (in_mbox 1) (db_msgs (w_db world2))) = 1"
  using counters_exact [OF run_append [OF world_runs(2,1)], of "(new_mbox 1 1 ''INBOX'' 7 None)\<lparr>mb_uidnext := 2, mb_msgsCount := 1\<rparr>"] by (simp add: world2_eq new_mbox_def)

text \<open>The limit for appended messages: the one of the mailbox, else the one of the account, else the one of the server.\<close>

definition append_limit :: "sql_env \<Rightarrow> sql_mailbox \<Rightarrow> sqldb \<Rightarrow> nat option" where
  "append_limit env m d =
     (case st_mboxMsgSizeLimit (sm_id m) d of
        Some (Some l) \<Rightarrow> Some l
      | _ \<Rightarrow> (case st_userMsgSizeLimit (sm_user m) d of Some (Some l) \<Rightarrow> Some l | _ \<Rightarrow> se_MaxMsgBytes env))"

lemma checkAppendLimit_None:
  assumes "checkAppendLimit env m n d = None" "append_limit env m d = Some l"
  shows "u32 n \<le> l"
proof -
  have u: "u32 k \<le> k" for k by (simp add: u32_def)
  note defs = checkAppendLimit_def append_limit_def createMessageLimit_def user_CreateMessageLimit_def run_def
  show ?thesis
  proof (cases "\<exists>v. st_mboxMsgSizeLimit (sm_id m) d = Some (Some v)")
    case True
    then obtain v where v: "st_mboxMsgSizeLimit (sm_id m) d = Some (Some v)" by blast
    with assms(2) have "l = v" by (simp add: append_limit_def)
    moreover have "u32 n \<le> u32 v" using assms(1) v by (auto simp: defs split: if_splits)
    ultimately show ?thesis using u [of v] by simp
  next
    case False
    show ?thesis
    proof (cases "createMessageLimit env (sm_id m) d")
      case (Some k)
      with False have "k = 0" by (auto simp: createMessageLimit_def run_def split: option.splits if_splits)
      with assms(1) Some show ?thesis by (simp add: checkAppendLimit_def split: if_splits)
    next
      case None
      note none = this
      show ?thesis
      proof (cases "user_CreateMessageLimit env (sm_user m) d")
        case None
        then have "st_userMsgSizeLimit (sm_user m) d = Some None" by (auto simp: user_CreateMessageLimit_def run_def split: option.splits if_splits)
        with False assms none None show ?thesis by (auto simp: checkAppendLimit_def append_limit_def split: option.splits if_splits)
      next
        case (Some k)
        with assms(1) none have "u32 n \<le> k" by (simp add: checkAppendLimit_def split: if_splits)
        moreover have "k = 0 \<or> (\<exists>v. st_userMsgSizeLimit (sm_user m) d = Some (Some v) \<and> k = u32 v)"
          using Some by (auto simp: user_CreateMessageLimit_def run_def split: option.splits if_splits)
        ultimately show ?thesis using False assms(2) u by (auto simp: append_limit_def split: option.splits intro: order_trans)
      qed
    qed
  qed
qed

text \<open>C18. A message of less than \<open>2 ^ 32\<close> bytes that was appended is not longer than the limit: the one of the mailbox when it has one, else the one of the account,
  else the one of the server, even when the queries for these limits fail. A message that is too long changes nothing.\<close>

theorem append_bounded:
  assumes "CreateMessage env m fl t body w = (w', e)" "append_limit env m (w_db w) = Some l" "length body < 2 ^ 32"
  shows "(e = None \<longrightarrow> length body \<le> l) \<and> (l < length body \<longrightarrow> w' = w \<and> e = Some ErrTooBig)"
proof -
  have n: "u32 (length body) = length body" using assms(3) by (simp add: u32_def)
  show ?thesis
  proof (cases "checkAppendLimit env m (length body) (w_db w)")
    case None
    with checkAppendLimit_None [OF None assms(2)] show ?thesis by (simp add: n)
  next
    case (Some x)
    then have "x = ErrTooBig" by (auto simp: checkAppendLimit_def split: option.splits if_splits)
    with Some assms(1) show ?thesis by (auto simp: CreateMessage_def)
  qed
qed

theorem append_bounded_witness:
  "CreateMessage (demo_env\<lparr>se_MaxMsgBytes := Some 1\<rparr>) demo_inbox [] None ''hi'' demo_world = (demo_world, Some ErrTooBig)"
proof -
  obtain w' e where c: "CreateMessage (demo_env\<lparr>se_MaxMsgBytes := Some 1\<rparr>) demo_inbox [] None ''hi'' demo_world = (w', e)" by fastforce
  have "append_limit (demo_env\<lparr>se_MaxMsgBytes := Some 1\<rparr>) demo_inbox (w_db demo_world) = Some 1"
    by (simp add: append_limit_def demo_world_def demo_inbox_def demo_simps st_mboxMsgSizeLimit_def mbox_of_def st_userMsgSizeLimit_def)
  from append_bounded [OF c this] c show ?thesis by simp
qed

text \<open>The database after a copy of the first message of the example into its own mailbox.\<close>

definition copied_db :: sqldb where
  "copied_db = demo_db\<lparr>db_mboxes := [demo_mbox 1 1 ''INBOX'' 3 2, demo_mbox 2 2 ''INBOX'' 2 1],
     db_extKeys := [\<lparr>ek_id = ''k1'', ek_uid = 1, ek_refs = 2\<rparr>, \<lparr>ek_id = ''k2'', ek_uid = 2, ek_refs = 1\<rparr>],
     db_msgs := [demo_msg 1 1 ''k1'', demo_msg 2 1 ''k2'', demo_msg 1 2 ''k1'']\<rparr>"

definition quiet_env :: sql_env where
  "quiet_env = demo_env\<lparr>se_recent := \<lambda>_ _. False\<rparr>"

lemma quiet: "se_flt quiet_env = (\<lambda>_ _. False)" "se_recent quiet_env = (\<lambda>_ _. False)" "se_del quiet_env = (\<lambda>_. False)"
  by (simp_all add: quiet_env_def demo_env_def)

lemma demo_copied:
  shows "msgs_by (in_range 1 1 1) demo_db = [demo_msg 1 1 ''k1'']"
    and "msgs_by (in_range 1 1 1) (demo_db\<lparr>db_msgs := db_msgs demo_db @ [demo_msg 1 2 ''k1'']\<rparr>) = [demo_msg 1 1 ''k1'']"
    and "st_uidNext 1 demo_db = Some 2"
    and "insert_msg (demo_msg 1 2 ''k1'') demo_db = Inr (demo_db\<lparr>db_msgs := db_msgs demo_db @ [demo_msg 1 2 ''k1'']\<rparr>)"
  by (simp_all add: st_uidNext_def msgs_by_def in_range_def demo_simps mbox_of_def insert_msg_def)

lemma copies_one: "copies i n [r] = [r\<lparr>ms_mboxId := i, ms_msgId := n, ms_mark := False, ms_recent := False\<rparr>]"
proof -
  have "zip [0..<length [r]] [r] = [(0, r)]" by simp
  then show ?thesis unfolding copies_def by (simp only: list.map prod.case add_0_right)
qed

lemma demo_copies: "copies 1 2 [demo_msg 1 1 ''k1''] = [demo_msg 1 2 ''k1'']"
  unfolding copies_one demo_msg_def by (simp only: msg_row.update_convs)

lemma demo_copied_msgs:
  "st_copyMsgsUid 1 0 1 1 1 demo_db = Inr (demo_db\<lparr>db_msgs := db_msgs demo_db @ [demo_msg 1 2 ''k1'']\<rparr>, 1)"
  by (simp add: st_copyMsgsUid_def Let_def demo_copied demo_copies del: One_nat_def)

lemma demo_copied_flags:
  "st_copyMsgFlagsUid 1 0 1 1 1 (demo_db\<lparr>db_msgs := db_msgs demo_db @ [demo_msg 1 2 ''k1'']\<rparr>) = Inr (demo_db\<lparr>db_msgs := db_msgs demo_db @ [demo_msg 1 2 ''k1'']\<rparr>)"
  unfolding st_copyMsgFlagsUid_def demo_copied(2) by (simp add: demo_simps mbox_of_def st_uidNext_def Let_def)

lemma demo_copy: "copyMessages quiet_env demo_inbox [(1, 1)] ''INBOX'' demo_db = Inr (copied_db, 2, 2, 1)"
proof -
  have i: "st_mboxId 1 ''INBOX'' demo_db = Some 1" by (simp add: st_mboxId_def demo_simps)
  have r: "copy_ranges quiet_env True 1 1 1 [(1, 1)] 0 demo_db =
      Inr (st_incrementRefUid 1 1 1 1 (demo_db\<lparr>db_msgs := db_msgs demo_db @ [demo_msg 1 2 ''k1'']\<rparr>), 1)"
    by (simp only: copy_ranges.simps demo_copied_msgs demo_copied_flags run_def quiet if_False if_True sum.case ebind_simps prod.case Let_def) (simp add: u32_def)
  have c: "st_increaseMsgCount 1 1 1 (st_incrementRefUid 1 1 1 1 (demo_db\<lparr>db_msgs := db_msgs demo_db @ [demo_msg 1 2 ''k1'']\<rparr>)) = copied_db"
    "st_uidNext 1 (st_incrementRefUid 1 1 1 1 (demo_db\<lparr>db_msgs := db_msgs demo_db @ [demo_msg 1 2 ''k1'']\<rparr>)) = Some 2"
    by (simp_all add: copied_db_def st_incrementRefUid_def st_increaseMsgCount_def update_mboxes_def update_refs_def in_range_def demo_simps st_uidNext_def mbox_of_def)
  show ?thesis
    by (simp add: copyMessages_def demo_inbox_def i r c run_def quiet scan_u32_def u32_def del: One_nat_def copy_ranges.simps)
qed

lemma demo_delete: "st_markUid 1 1 1 copied_db = copied_db\<lparr>db_msgs := [(demo_msg 1 1 ''k1'')\<lparr>ms_mark := True\<rparr>, demo_msg 2 1 ''k2'', demo_msg 1 2 ''k1'']\<rparr>"
  by (simp add: st_markUid_def update_msgs_def in_range_def copied_db_def demo_simps)

lemma demo_marked: "st_markedUids 1 (st_markUid 1 1 1 copied_db) = [(1, ''k1'')]"
  "db_msgs (st_delMarked (st_markUid 1 1 1 copied_db)) = [demo_msg 2 1 ''k2'', demo_msg 1 2 ''k1'']"
  by (simp_all add: demo_delete st_markedUids_def msgs_by_def in_mbox_def st_delMarked_def delete_msgs_def Let_def demo_msg_def del: One_nat_def)

text \<open>A copied message loses its body when the original is removed with \<open>DelMessages\<close>: that deletes the bodies of all removed messages and does not look at
  the number of references, so the copy stays in the mailbox with a key that the store no longer has.\<close>

theorem copy_loses_body:
  "\<exists>w1 w2 r. CopyMessages quiet_env demo_inbox True (Inr [(1, 1)]) ''INBOX'' demo_world = (w1, None) \<and>
     DelMessages quiet_env demo_inbox (Inr [(1, 1)]) w1 = (w2, None) \<and>
     r \<in> set (db_msgs (w_db w2)) \<and> ms_key r = (1, 2) \<and> w_store w1 (ms_extBodyKey r) = Some ''first'' \<and> w_store w2 (ms_extBodyKey r) = None"
proof -
  let ?w1 = "demo_world\<lparr>w_db := copied_db, w_events := [NewMessages 1 2 2]\<rparr>"
  have c: "CopyMessages quiet_env demo_inbox True (Inr [(1, 1)]) ''INBOX'' demo_world = (?w1, None)"
    by (simp add: CopyMessages_def demo_copy run_def quiet demo_world_def Let_def del: One_nat_def)
  have st: "w_store ?w1 = [''k1'' \<mapsto> ''first'', ''k2'' \<mapsto> ''second'']" "w_db ?w1 = copied_db" "sm_id demo_inbox = 1" by (simp_all add: demo_world_def demo_inbox_def)
  have "\<exists>w2. DelMessages quiet_env demo_inbox (Inr [(1, 1)]) ?w1 = (w2, None) \<and> db_msgs (w_db w2) = [demo_msg 2 1 ''k2'', demo_msg 1 2 ''k1''] \<and> w_store w2 ''k1'' = None"
    unfolding DelMessages_def delMessages_def st mark_all_def
    by (simp add: run_def quiet demo_marked st_decreaseMsgCount_def update_mboxes_def del: One_nat_def)
  with c st show ?thesis by (fastforce simp: demo_msg_def simp del: One_nat_def)
qed

end
