(* ===== verification/Sql_Search.thy ===== *)
theory Sql_Search
  imports Sql_Mailbox Imap_Mess Module_Api
begin

text \<open>
  Model of \<open>SEARCH\<close> and of the database side of \<open>FETCH\<close>: \<^verbatim>\<open>search.go\<close>, \<^verbatim>\<open>sql_search.go\<close> and \<^verbatim>\<open>fetch.go\<close> of
  \<^verbatim>\<open>internal/go-imap-sql\<close>.

  \<open>backendutil.Match\<close> and the body sections are parameters. A nil slice and an empty one are not told apart.
\<close>

section \<open>Criteria\<close>

record search_fields =
  sf_Since :: "int option"
  sf_Before :: "int option"
  sf_SentSince :: "int option"
  sf_SentBefore :: "int option"
  sf_Header :: header
  sf_Body :: "string list"
  sf_Text :: "string list"
  sf_WithFlags :: "string list"
  sf_WithoutFlags :: "string list"
  sf_Larger :: nat
  sf_Smaller :: nat

datatype search_criteria = SearchCriteria
  (sc_SeqNum: "seqset option")
  (sc_Uid: "seqset option")
  (sc_fields: search_fields)
  (sc_Not: "search_criteria list")
  (sc_Or: "(search_criteria \<times> search_criteria) list")

definition fields_need_body :: "search_fields \<Rightarrow> bool" where
  "fields_need_body f \<longleftrightarrow> sf_Header f \<noteq> [] \<or> sf_Body f \<noteq> [] \<or> sf_Text f \<noteq> [] \<or> sf_SentSince f \<noteq> None \<or> sf_SentBefore f \<noteq> None \<or>
     sf_Smaller f \<noteq> 0 \<or> sf_Larger f \<noteq> 0"

fun searchNeedsBody :: "search_criteria \<Rightarrow> bool" where
  "searchNeedsBody (SearchCriteria sq uid f nots ors) \<longleftrightarrow>
     fields_need_body f \<or> (\<exists>c\<in>set nots. searchNeedsBody c) \<or> (\<exists>p\<in>set ors. case p of (a, b) \<Rightarrow> searchNeedsBody a \<or> searchNeedsBody b)"

definition searchOnlyWithFlags :: "search_criteria \<Rightarrow> bool" where
  "searchOnlyWithFlags c \<longleftrightarrow>
     \<not> fields_need_body (sc_fields c) \<and> sc_Uid c = None \<and> sc_SeqNum c = None \<and> sf_Since (sc_fields c) = None \<and> sf_Before (sc_fields c) = None \<and>
     sc_Not c = [] \<and> sc_Or c = []"

fun noSeqNumNeeded :: "search_criteria \<Rightarrow> bool" where
  "noSeqNumNeeded (SearchCriteria sq uid f nots ors) \<longleftrightarrow>
     sq = None \<and> (\<forall>c\<in>set nots. noSeqNumNeeded c) \<and> (\<forall>p\<in>set ors. case p of (a, b) \<Rightarrow> noSeqNumNeeded a \<and> noSeqNumNeeded b)"

text \<open>\<open>ResolveCriteria\<close> of the handle on all fields.\<close>

fun resolve_search :: "seqset_lib \<Rightarrow> mailbox_handle \<Rightarrow> search_criteria \<Rightarrow> search_criteria" where
  "resolve_search lib hndl (SearchCriteria sq uid f nots ors) =
     SearchCriteria None (resolve_uids lib hndl sq uid) f (map (resolve_search lib hndl) nots)
       (map (\<lambda>(a, b). (resolve_search lib hndl a, resolve_search lib hndl b)) ors)"

section \<open>Search by flags\<close>

text \<open>The rows of the join of one message with the flags: they are matched by the UID alone.\<close>

definition joined :: "nat \<Rightarrow> string list \<Rightarrow> sqldb \<Rightarrow> flag_row list" where
  "joined u flags d = filter (\<lambda>f. fst (snd f) = u \<and> snd (snd f) \<in> set flags) (db_flags d)"

definition with_match :: "string list \<Rightarrow> sqldb \<Rightarrow> msg_row \<Rightarrow> bool" where
  "with_match flags d r \<longleftrightarrow>
     (if length flags = 0 then True else if length flags = 1 then joined (ms_msgId r) flags d \<noteq> []
      else length (joined (ms_msgId r) flags d) = length flags)"

definition st_flagSearch :: "nat \<Rightarrow> string list \<Rightarrow> string list \<Rightarrow> sqldb \<Rightarrow> nat list" where
  "st_flagSearch i withFlags withoutFlags d =
     (let excluded = (if withoutFlags = [] then [] else remdups (map ms_msgId (filter (\<lambda>r. in_mbox i r \<and> with_match withoutFlags d r) (db_msgs d)))) in
      remdups (map ms_msgId (filter (\<lambda>r. in_mbox i r \<and> with_match withFlags d r \<and> ms_msgId r \<notin> set excluded) (db_msgs d))))"

text \<open>What the connection knows of its view of the mailbox.\<close>

definition handle_recent :: "seqset_lib \<Rightarrow> mailbox_handle \<Rightarrow> nat \<Rightarrow> bool" where
  "handle_recent lib hndl u = (IsRecent lib u hndl = Return True)"

definition handle_seq :: "mailbox_handle \<Rightarrow> nat \<Rightarrow> nat option" where
  "handle_seq hndl u = (case UidAsSeq u hndl of (n, ok) \<Rightarrow> if ok then Some n else None)"

definition flagSearch :: "sql_env \<Rightarrow> seqset_lib \<Rightarrow> mailbox_handle \<Rightarrow> nat \<Rightarrow> bool \<Rightarrow> string list \<Rightarrow> string list \<Rightarrow> sqldb \<Rightarrow> goerr + nat list" where
  "flagSearch env lib hndl i uid withFlags withoutFlags d =
     (let recentRequired = (recent_flag \<in> set withFlags); recentExcluded = (recent_flag \<in> set withoutFlags);
          withFlags = filter (\<lambda>f. f \<noteq> recent_flag) withFlags; withoutFlags = filter (\<lambda>f. f \<noteq> recent_flag) withoutFlags in
      ebind (exec env ''getFlagSearchStmt'' 0 (Inr ())) (\<lambda>_.
      ebind (exec env ''flagSearch'' 0 (Inr (st_flagSearch i withFlags withoutFlags d))) (\<lambda>rows.
        let ids = filter (\<lambda>u. if handle_recent lib hndl u then \<not> recentExcluded else \<not> recentRequired) rows in
        Inr (if uid then ids else map (\<lambda>u. the (handle_seq hndl u)) (filter (\<lambda>u. handle_seq hndl u \<noteq> None) ids)))))"

definition allSearch :: "sql_env \<Rightarrow> mailbox_handle \<Rightarrow> nat \<Rightarrow> bool \<Rightarrow> sqldb \<Rightarrow> goerr + nat list" where
  "allSearch env hndl i uid d =
     (if \<not> uid then Inr [1..<Suc (MsgsCount hndl)] else exec env ''listMsgUids'' 0 (Inr (st_listMsgUids i d)))"

text \<open>The reference for a search by flags.\<close>

definition matchFlags :: "string list \<Rightarrow> string list \<Rightarrow> string list \<Rightarrow> bool" where
  "matchFlags flags req excl \<longleftrightarrow> (\<forall>f\<in>set excl. f \<notin> set flags) \<and> (\<forall>f\<in>set req. f \<in> set flags)"

section \<open>Search in general\<close>

record search_lib =
  sl_open :: "string \<Rightarrow> string \<Rightarrow> string option"
  sl_parse :: "string \<Rightarrow> bool"
  sl_Match :: "string option \<Rightarrow> nat \<Rightarrow> nat \<Rightarrow> int \<Rightarrow> string list \<Rightarrow> search_criteria \<Rightarrow> goerr + bool"

text \<open>A body that cannot be read or parsed leaves its message out; \<open>sl_open\<close> undoes the compression.\<close>

definition searchMatches ::
    "search_lib \<Rightarrow> mailbox_handle \<Rightarrow> (string \<rightharpoonup> string) \<Rightarrow> bool \<Rightarrow> bool \<Rightarrow> search_criteria \<Rightarrow> sqldb \<Rightarrow> msg_row \<Rightarrow> goerr + nat option" where
  "searchMatches sl hndl store uid needBody c d r =
     (let body = (case store (ms_extBodyKey r) of None \<Rightarrow> None | Some b \<Rightarrow> sl_open sl (ms_compressAlgo r) b);
          text = (if needBody then body else Some '''') in
      case text of
        None \<Rightarrow> Inr None
      | Some t \<Rightarrow>
          if needBody \<and> \<not> sl_parse sl t then Inr None
          else
            (case (if uid then Some 0 else handle_seq hndl (ms_msgId r)) of
               None \<Rightarrow> Inr None
             | Some n \<Rightarrow>
                 ebind (sl_Match sl (if needBody then Some t else None) n (ms_msgId r) (ms_date r) (flags_of r d) c) (\<lambda>ok.
                   Inr (if ok then Some (if uid then ms_msgId r else n) else None))))"

fun search_rows ::
    "search_lib \<Rightarrow> mailbox_handle \<Rightarrow> (string \<rightharpoonup> string) \<Rightarrow> bool \<Rightarrow> bool \<Rightarrow> search_criteria \<Rightarrow> sqldb \<Rightarrow> msg_row list \<Rightarrow> goerr + nat list" where
  "search_rows sl hndl store uid needBody c d [] = Inr []"
| "search_rows sl hndl store uid needBody c d (r # rs) =
     ebind (searchMatches sl hndl store uid needBody c d r) (\<lambda>x.
     ebind (search_rows sl hndl store uid needBody c d rs) (\<lambda>xs. Inr (case x of None \<Rightarrow> xs | Some n \<Rightarrow> if n = 0 then xs else n # xs)))"

definition SearchMessages :: "sql_env \<Rightarrow> search_lib \<Rightarrow> seqset_lib \<Rightarrow> mailbox_handle \<Rightarrow> nat \<Rightarrow> bool \<Rightarrow> search_criteria \<Rightarrow> sql_world \<Rightarrow> goerr + nat list" where
  "SearchMessages env sl lib hndl i uid c w =
     (if searchOnlyWithFlags c then
        if sf_WithFlags (sc_fields c) = [] \<and> sf_WithoutFlags (sc_fields c) = [] then allSearch env hndl i uid (w_db w)
        else flagSearch env lib hndl i uid (sf_WithFlags (sc_fields c)) (sf_WithoutFlags (sc_fields c)) (w_db w)
      else
        let c = resolve_search lib hndl c in
        ebind (exec env ''searchFetchNoSeq'' 0 (Inr (msgs_by (in_mbox i) (w_db w)))) (\<lambda>rows.
          search_rows sl hndl (w_store w) uid (searchNeedsBody c) c (w_db w) rows))"

section \<open>FETCH\<close>

datatype fetch_item = FetchInternalDate | FetchRFC822Size | FetchUid | FetchEnvelope | FetchBody | FetchBodyStructure | FetchFlags | FetchSection string

datatype fetched = FDate int | FSize nat | FUid nat | FEnvelope string | FStructure bool string | FFlags "string list" | FSection string string

record fetch_lib =
  fl_peek :: "string \<Rightarrow> bool option"
  fl_section :: "string \<Rightarrow> string \<Rightarrow> string option \<Rightarrow> goerr + string"

text \<open>\<open>fl_peek\<close> is \<open>ParseBodySectionName\<close>, \<^term>\<open>None\<close> when it refuses the item.\<close>

fun shouldSetSeen :: "fetch_lib \<Rightarrow> fetch_item list \<Rightarrow> bool" where
  "shouldSetSeen l [] = False"
| "shouldSetSeen l (FetchSection s # items) =
     (case fl_peek l s of None \<Rightarrow> False | Some peek \<Rightarrow> if \<not> peek then True else shouldSetSeen l items)"
| "shouldSetSeen l (_ # items) = shouldSetSeen l items"

definition fetch_flags :: "seqset_lib \<Rightarrow> mailbox_handle \<Rightarrow> sqldb \<Rightarrow> msg_row \<Rightarrow> string list" where
  "fetch_flags lib hndl d r =
     (let t = flag_text (flags_of r d) in
      (if t \<noteq> '''' then SplitByte t (CHR 0x7B) else []) @ (if handle_recent lib hndl (ms_msgId r) then [recent_flag] else []))"

definition fetch_one ::
    "fetch_lib \<Rightarrow> seqset_lib \<Rightarrow> mailbox_handle \<Rightarrow> (string \<rightharpoonup> string) \<Rightarrow> sqldb \<Rightarrow> msg_row \<Rightarrow> fetch_item \<Rightarrow> goerr + fetched" where
  "fetch_one l lib hndl store d r item =
     (case item of
        FetchInternalDate \<Rightarrow> Inr (FDate (ms_date r))
      | FetchRFC822Size \<Rightarrow> Inr (FSize (ms_bodyLen r))
      | FetchUid \<Rightarrow> Inr (FUid (ms_msgId r))
      | FetchEnvelope \<Rightarrow> Inr (FEnvelope (ms_cachedHeader r))
      | FetchBody \<Rightarrow> Inr (FStructure False (ms_bodyStructure r))
      | FetchBodyStructure \<Rightarrow> Inr (FStructure True (ms_bodyStructure r))
      | FetchFlags \<Rightarrow> Inr (FFlags (fetch_flags lib hndl d r))
      | FetchSection s \<Rightarrow> ebind (fl_section l s (ms_cachedHeader r) (store (ms_extBodyKey r))) (\<lambda>t. Inr (FSection s t)))"

fun fetch_items ::
    "fetch_lib \<Rightarrow> seqset_lib \<Rightarrow> mailbox_handle \<Rightarrow> (string \<rightharpoonup> string) \<Rightarrow> sqldb \<Rightarrow> msg_row \<Rightarrow> fetch_item list \<Rightarrow> goerr + fetched list" where
  "fetch_items l lib hndl store d r [] = Inr []"
| "fetch_items l lib hndl store d r (x # xs) =
     ebind (fetch_one l lib hndl store d r x) (\<lambda>a. ebind (fetch_items l lib hndl store d r xs) (\<lambda>as. Inr (a # as)))"

text \<open>\<open>scanMessages\<close>: a message with an item that cannot be read is left out.\<close>

fun scanMessages ::
    "fetch_lib \<Rightarrow> seqset_lib \<Rightarrow> mailbox_handle \<Rightarrow> (string \<rightharpoonup> string) \<Rightarrow> sqldb \<Rightarrow> fetch_item list \<Rightarrow> msg_row list \<Rightarrow> (nat \<times> fetched list) list" where
  "scanMessages l lib hndl store d items [] = []"
| "scanMessages l lib hndl store d items (r # rs) =
     (case handle_seq hndl (ms_msgId r) of
        None \<Rightarrow> scanMessages l lib hndl store d items rs
      | Some n \<Rightarrow>
          (case fetch_items l lib hndl store d r items of
             Inl _ \<Rightarrow> scanMessages l lib hndl store d items rs
           | Inr as \<Rightarrow> (n, as) # scanMessages l lib hndl store d items rs))"

text \<open>The loop over the ranges runs in the transaction; what it answers before an error is sent.\<close>

fun list_ranges ::
    "sql_env \<Rightarrow> fetch_lib \<Rightarrow> seqset_lib \<Rightarrow> mailbox_handle \<Rightarrow> nat \<Rightarrow> bool \<Rightarrow> fetch_item list \<Rightarrow> (string \<rightharpoonup> string) \<Rightarrow> ranges \<Rightarrow> sqldb \<Rightarrow>
     sqldb \<times> (nat \<times> fetched list) list \<times> goerr option" where
  "list_ranges env l lib hndl i setSeen items store [] d = (d, [], None)"
| "list_ranges env l lib hndl i setSeen items store ((a, b) # rs) d =
     (case ebind (if setSeen then
                    ebind (exec env ''flagsAdd'' a (Inr (st_flagsAdd [seen_flag] i a b d))) (\<lambda>d. exec env ''setSeenFlagUid'' a (Inr (st_setSeenFlagUid True i a b d)))
                  else Inr d) (\<lambda>d. exec env ''fetch'' a (Inr d)) of
        Inl e \<Rightarrow> (d, [], Some e)
      | Inr d \<Rightarrow>
          (case list_ranges env l lib hndl i setSeen items store rs d of
             (d', out, e) \<Rightarrow> (d', scanMessages l lib hndl store d items (filter (in_range i a b) (db_msgs d)) @ out, e)))"

text \<open>The transaction of \<open>ListMessages\<close> is only ever rolled back, so the database stays as it is.\<close>

definition ListMessages ::
    "sql_env \<Rightarrow> fetch_lib \<Rightarrow> seqset_lib \<Rightarrow> mailbox_handle \<Rightarrow> sql_mailbox \<Rightarrow> bool \<Rightarrow> bool \<Rightarrow> (goerr + ranges) \<Rightarrow> fetch_item list \<Rightarrow> sql_world \<Rightarrow>
     sql_world \<times> (nat \<times> fetched list) list \<times> goerr option" where
  "ListMessages env l lib hndl m readOnly uid seqset items w =
     (let setSeen = (\<not> readOnly \<and> shouldSetSeen l items); items = (if setSeen then items @ [FetchFlags] else items) in
      case ebind (if setSeen then exec env ''getFlagsAddStmt'' 0 (Inr ()) else Inr ()) (\<lambda>_.
           ebind (exec env ''getFetchStmt'' 0 (Inr ())) (\<lambda>_. exec env ''Begin'' 0 (Inr ()))) of
        Inl e \<Rightarrow> (w, [], Some e)
      | Inr _ \<Rightarrow>
          (case seqset of
             Inl e \<Rightarrow> (w, [], if uid then None else Some e)
           | Inr rs \<Rightarrow> (case list_ranges env l lib hndl (sm_id m) setSeen items (w_store w) rs (w_db w) of (d, out, e) \<Rightarrow> (w, out, e))))"

section \<open>Lemmas\<close>

text \<open>No flag of another mailbox has the UID of a message of this mailbox.\<close>

definition own_uids :: "nat \<Rightarrow> sqldb \<Rightarrow> bool" where
  "own_uids i d \<longleftrightarrow> (\<forall>r\<in>set (db_msgs d). in_mbox i r \<longrightarrow> (\<forall>f\<in>set (db_flags d). fst (snd f) = ms_msgId r \<longrightarrow> fst f = i))"

lemma joined_own:
  assumes "schema_ok d" "own_uids i d" "r \<in> set (db_msgs d)" "in_mbox i r"
  shows "map (\<lambda>f. snd (snd f)) (joined (ms_msgId r) flags d) = filter (\<lambda>f. f \<in> set flags) (flags_of r d)" "distinct (flags_of r d)"
proof -
  have "joined (ms_msgId r) flags d = filter (\<lambda>f. fl_key f = ms_key r \<and> snd (snd f) \<in> set flags) (db_flags d)"
    unfolding joined_def by (rule filter_cong) (use assms in \<open>auto simp: own_uids_def in_mbox_def\<close>)
  then show "map (\<lambda>f. snd (snd f)) (joined (ms_msgId r) flags d) = filter (\<lambda>f. f \<in> set flags) (flags_of r d)"
    by (simp add: flags_of_def filter_map o_def conj_commute filter_filter)
  have "distinct (db_flags d)" using assms(1) by (simp add: schema_ok_def)
  then show "distinct (flags_of r d)" unfolding flags_of_def distinct_map by (auto simp: inj_on_def)
qed

lemma with_match_own:
  assumes "schema_ok d" "own_uids i d" "r \<in> set (db_msgs d)" "in_mbox i r" "distinct flags"
  shows "with_match flags d r \<longleftrightarrow> set flags \<subseteq> set (flags_of r d)"
proof -
  let ?fs = "filter (\<lambda>f. f \<in> set flags) (flags_of r d)"
  have j: "length (joined (ms_msgId r) flags d) = length ?fs" "joined (ms_msgId r) flags d = [] \<longleftrightarrow> ?fs = []"
    using joined_own(1) [OF assms(1-4), of flags] by (metis length_map, metis map_is_Nil_conv)
  have "length ?fs = card (set (flags_of r d) \<inter> set flags)"
    using joined_own(2) [OF assms(1-4)] by (simp add: distinct_card [symmetric] Int_def conj_commute)
  moreover have "card (set (flags_of r d) \<inter> set flags) = length flags \<longleftrightarrow> set flags \<subseteq> set (flags_of r d)"
    using assms(5) by (metis Int_absorb1 List.finite_set card_subset_eq distinct_card inf.cobounded2 inf.orderI inf_commute)
  moreover have "?fs \<noteq> [] \<longleftrightarrow> set flags \<subseteq> set (flags_of r d)" if "length flags = 1"
    using that by (auto simp: length_Suc_conv filter_empty_conv)
  ultimately show ?thesis unfolding with_match_def using j by auto
qed

section \<open>Properties\<close>

text \<open>The SQL search by flags finds the messages of the mailbox that have all the required flags and not the excluded one, as \<open>matchFlags\<close> says,
  as long as no other mailbox has a flag at the UID of a message of this mailbox and at most one flag is excluded.\<close>

theorem flag_search_exact:
  assumes "schema_ok d" "own_uids i d" "distinct req" "length excl \<le> 1"
  shows "set (st_flagSearch i req excl d) = ms_msgId ` {r \<in> set (db_msgs d). in_mbox i r \<and> matchFlags (flags_of r d) req excl}"
proof -
  have w: "with_match flags d r \<longleftrightarrow> set flags \<subseteq> set (flags_of r d)" if "r \<in> set (db_msgs d)" "in_mbox i r" "distinct flags" for flags r
    by (rule with_match_own [OF assms(1,2) that])
  have same: "r' = r" if "r \<in> set (db_msgs d)" "r' \<in> set (db_msgs d)" "in_mbox i r" "in_mbox i r'" "ms_msgId r' = ms_msgId r" for r r'
    using assms(1) that unfolding schema_ok_def by (auto simp: distinct_map inj_on_def in_mbox_def)
  have de: "distinct excl" using assms(4) by (cases excl) auto
  have ex: "(\<exists>r'\<in>set (db_msgs d). in_mbox i r' \<and> with_match excl d r' \<and> ms_msgId r' = ms_msgId r) \<longleftrightarrow> set excl \<subseteq> set (flags_of r d)"
    if "r \<in> set (db_msgs d)" "in_mbox i r" for r using that same w [OF _ _ de] by metis
  have one: "excl \<noteq> [] \<Longrightarrow> \<not> set excl \<subseteq> A \<longleftrightarrow> (\<forall>f\<in>set excl. f \<notin> A)" for A using assms(4) by (cases excl) auto
  let ?excl = "if excl = [] then [] else remdups (map ms_msgId (filter (\<lambda>r. in_mbox i r \<and> with_match excl d r) (db_msgs d)))"
  have e: "ms_msgId r \<notin> set ?excl \<longleftrightarrow> (\<forall>f\<in>set excl. f \<notin> set (flags_of r d))" if r: "r \<in> set (db_msgs d)" "in_mbox i r" for r
  proof (cases "excl = []")
    case False
    then have "ms_msgId r \<in> set ?excl \<longleftrightarrow> (\<exists>r'\<in>set (db_msgs d). in_mbox i r' \<and> with_match excl d r' \<and> ms_msgId r' = ms_msgId r)" by (auto simp: image_iff)
    with ex [OF r] one [OF False] show ?thesis by simp
  qed simp
  have m: "in_mbox i r \<and> with_match req d r \<and> ms_msgId r \<notin> set ?excl \<longleftrightarrow> in_mbox i r \<and> matchFlags (flags_of r d) req excl" if "r \<in> set (db_msgs d)" for r
    using w [OF that _ assms(3)] e [OF that] unfolding matchFlags_def by blast
  have "{r \<in> set (db_msgs d). in_mbox i r \<and> with_match req d r \<and> ms_msgId r \<notin> set ?excl} = {r \<in> set (db_msgs d). in_mbox i r \<and> matchFlags (flags_of r d) req excl}"
    using m by blast
  then show ?thesis unfolding st_flagSearch_def Let_def by simp
qed

text \<open>The search in the mailbox of the second account, whose UID is also in use in the first one, but without flags there.\<close>

text \<open>Where these conditions fail the search answers wrongly. A search for seen messages in the mailbox of the first account finds its message, which
  nobody has flagged, because a message of another account has the same UID and the flag; and a search that excludes two flags still finds a message
  with one of them.\<close>

theorem flag_search_leaks:
  "st_flagSearch 1 [seen_flag] [] demo_db = [1] \<and> map (\<lambda>r. flags_of r demo_db) (filter (in_mbox 1) (db_msgs demo_db)) = [[]] \<and>
   st_flagSearch 2 [] [seen_flag, CHR 0x5C # ''Draft''] demo_db = [1] \<and>
   map (\<lambda>r. flags_of r demo_db) (filter (in_mbox 2) (db_msgs demo_db)) = [[seen_flag, deleted_flag]]"
  by (simp add: st_flagSearch_def with_match_def joined_def demo_simps in_mbox_def flags_of_def)

end
