(* ===== verification/Tables.thy ===== *)
theory Tables
  imports Address Go_Lib "HOL-Library.AList"
begin

text \<open>
  Tables (\<^verbatim>\<open>internal/table\<close>, \<^verbatim>\<open>framework/module/table.go\<close>) and the modifier that rewrites addresses with them (\<^verbatim>\<open>internal/modify/replace_addr.go\<close>).

  A table is a record of its methods; \<open>tb_Multi\<close> is \<^term>\<open>None\<close> when it does not implement \<open>MultiTable\<close>. Regular expressions are the
  argument \<open>re_lib\<close>. A table that can be changed takes and returns its contents.
\<close>

record table =
  tb_Lookup :: "string \<Rightarrow> string \<times> bool \<times> goerr option"
  tb_Multi :: "(string \<Rightarrow> string list \<times> goerr option) option"

section \<open>Constant tables (identity.go, static.go, email_localpart.go, email_with_domain.go)\<close>

definition identity_table :: table where
  "identity_table = \<lparr>tb_Lookup = (\<lambda>key. (key, True, None)), tb_Multi = None\<rparr>"

definition static_Lookup :: "(string \<rightharpoonup> string list) \<Rightarrow> string \<Rightarrow> string \<times> bool \<times> goerr option" where
  "static_Lookup m key = (case m key of None \<Rightarrow> ('''', False, None) | Some [] \<Rightarrow> ('''', False, None) | Some (v # vs) \<Rightarrow> (v, True, None))"

definition static_LookupMulti :: "(string \<rightharpoonup> string list) \<Rightarrow> string \<Rightarrow> string list \<times> goerr option" where
  "static_LookupMulti m key = (case m key of None \<Rightarrow> [] | Some vs \<Rightarrow> vs, None)"

definition static_table :: "(string \<rightharpoonup> string list) \<Rightarrow> table" where
  "static_table m = \<lparr>tb_Lookup = static_Lookup m, tb_Multi = Some (static_LookupMulti m)\<rparr>"

definition localpart_Lookup :: "bool \<Rightarrow> string \<Rightarrow> string \<times> bool \<times> goerr option" where
  "localpart_Lookup allowNonEmail key =
     (case Split key of
        (_, _, Some _) \<Rightarrow> if allowNonEmail then (key, True, None) else ('''', False, None)
      | (mbox, _, None) \<Rightarrow> (mbox, True, None))"

definition localpart_table :: "bool \<Rightarrow> table" where
  "localpart_table allowNonEmail = \<lparr>tb_Lookup = localpart_Lookup allowNonEmail, tb_Multi = None\<rparr>"

text \<open>\<open>Init\<close> refuses an empty list of domains and invalid ones.\<close>

definition domain_Init :: "textlib \<Rightarrow> string list \<Rightarrow> goerr option" where
  "domain_Init lib domains =
     (case find (\<lambda>d. \<not> ValidDomain lib d) domains of
        Some d \<Rightarrow> Some (errors_New (''table.email_with_domain: invalid domain: '' @ d))
      | None \<Rightarrow> if domains = [] then Some (errors_New ''table.email_with_domain: at least one domain is required'') else None)"

definition domain_Lookup :: "string list \<Rightarrow> string \<Rightarrow> (string \<times> bool \<times> goerr option) outcome" where
  "domain_Lookup domains key =
     (case domains of [] \<Rightarrow> Panic ''index out of range'' | d # ds \<Rightarrow> Return (QuoteMbox key @ ''@'' @ d, True, None))"

definition domain_LookupMulti :: "string list \<Rightarrow> string \<Rightarrow> string list \<times> goerr option" where
  "domain_LookupMulti domains key = (map (\<lambda>d. QuoteMbox key @ ''@'' @ d) domains, None)"

section \<open>Regular expressions (regexp.go)\<close>

text \<open>\<open>re_find\<close> compiles an expression and finds the first match, \<open>re_expand\<close> puts the groups of the match into a replacement.\<close>

record re_lib =
  re_find :: "string \<Rightarrow> goerr + (string \<Rightarrow> nat list option)"
  re_expand :: "string \<Rightarrow> string \<Rightarrow> string \<Rightarrow> nat list \<Rightarrow> string"

record regexp_table =
  rx_find :: "string \<Rightarrow> nat list option"
  rx_regex :: string
  rx_replacements :: "string list"
  rx_expand :: bool

definition regexp_pattern :: "bool \<Rightarrow> bool \<Rightarrow> string \<Rightarrow> string" where
  "regexp_pattern fullMatch caseInsensitive regex =
     (let regex = (if fullMatch \<and> \<not> HasPrefix regex ''^'' then ''^'' @ regex else regex);
          regex = (if fullMatch \<and> \<not> HasSuffix regex ''$'' then regex @ ''$'' else regex)
      in if caseInsensitive then ''(?i)'' @ regex else regex)"

definition regexp_Init :: "re_lib \<Rightarrow> bool \<Rightarrow> bool \<Rightarrow> bool \<Rightarrow> string list \<Rightarrow> (goerr + regexp_table) outcome" where
  "regexp_Init rl fullMatch caseInsensitive expand inlineArgs =
     (case inlineArgs of
        [] \<Rightarrow> Panic ''index out of range''
      | regex # replacements \<Rightarrow>
          let regex = regexp_pattern fullMatch caseInsensitive regex in
          Return (case re_find rl regex of
             Inl e \<Rightarrow> Inl (Wrapf ''table.regexp: '' e)
           | Inr f \<Rightarrow> Inr \<lparr>rx_find = f, rx_regex = regex, rx_replacements = replacements, rx_expand = expand\<rparr>))"

definition regexp_LookupMulti :: "re_lib \<Rightarrow> regexp_table \<Rightarrow> string \<Rightarrow> string list \<times> goerr option" where
  "regexp_LookupMulti rl r key =
     (case rx_find r key of
        None \<Rightarrow> ([], None)
      | Some ms \<Rightarrow> (map (\<lambda>x. if rx_expand r then re_expand rl (rx_regex r) x key ms else x) (rx_replacements r), None))"

text \<open>\<open>Lookup\<close> by way of \<open>LookupMulti\<close>, as regexp.go and chain.go have it.\<close>

definition first_of :: "string list \<times> goerr option \<Rightarrow> string \<times> bool \<times> goerr option" where
  "first_of r = (case r of (_, Some e) \<Rightarrow> ('''', False, Some e) | ([], None) \<Rightarrow> ('''', False, None) | (v # vs, None) \<Rightarrow> (v, True, None))"

definition regexp_as_table :: "re_lib \<Rightarrow> regexp_table \<Rightarrow> table" where
  "regexp_as_table rl r = \<lparr>tb_Lookup = first_of \<circ> regexp_LookupMulti rl r, tb_Multi = Some (regexp_LookupMulti rl r)\<rparr>"

section \<open>Chains (chain.go)\<close>

text \<open>The values of one key in a step.\<close>

definition step_values :: "table \<Rightarrow> string \<Rightarrow> goerr + string list" where
  "step_values t key =
     (case tb_Multi t of
        Some m \<Rightarrow> (case m key of (_, Some e) \<Rightarrow> Inl e | (vs, None) \<Rightarrow> Inr vs)
      | None \<Rightarrow> (case tb_Lookup t key of (_, _, Some e) \<Rightarrow> Inl e | (v, ok, None) \<Rightarrow> Inr (if ok then [v] else [])))"

text \<open>The inner loop: \<open>Inr None\<close> when some key has no value.\<close>

fun step_keys :: "table \<Rightarrow> string list \<Rightarrow> string list \<Rightarrow> goerr + string list option" where
  "step_keys t [] newResult = Inr (Some newResult)"
| "step_keys t (key # keys) newResult =
     (case step_values t key of
        Inl e \<Rightarrow> Inl e
      | Inr vs \<Rightarrow> if vs = [] then Inr None else step_keys t keys (newResult @ vs))"

fun chain_loop :: "(table \<times> bool) list \<Rightarrow> string list \<Rightarrow> string list \<times> goerr option" where
  "chain_loop [] result = (result, None)"
| "chain_loop ((t, optional) # steps) result =
     (case step_keys t result [] of
        Inl e \<Rightarrow> ([], Some e)
      | Inr None \<Rightarrow> if optional then chain_loop steps result else ([], None)
      | Inr (Some newResult) \<Rightarrow> chain_loop steps newResult)"

definition chain_LookupMulti :: "(table \<times> bool) list \<Rightarrow> string \<Rightarrow> string list \<times> goerr option" where
  "chain_LookupMulti steps key = chain_loop steps [key]"

definition chain_Lookup :: "(table \<times> bool) list \<Rightarrow> string \<Rightarrow> string \<times> bool \<times> goerr option" where
  "chain_Lookup steps key = first_of (chain_LookupMulti steps key)"

definition chain_table :: "(table \<times> bool) list \<Rightarrow> table" where
  "chain_table steps = \<lparr>tb_Lookup = chain_Lookup steps, tb_Multi = Some (chain_LookupMulti steps)\<rparr>"

section \<open>Files (file.go)\<close>

text \<open>\<open>bufio.Scanner\<close>: lines without their ends; a line of 64 KiB or more stops it.\<close>

definition drop_CR :: "string \<Rightarrow> string" where
  "drop_CR l = (if l \<noteq> [] \<and> last l = CHR 0x0D then butlast l else l)"

definition scan_lines :: "string \<Rightarrow> string list \<times> goerr option" where
  "scan_lines text =
     (let ls = SplitByte text CHR 0x0A;
          ls = (if last ls = '''' then butlast ls else ls)
      in (map drop_CR (takeWhile (\<lambda>l. length l < 65536) ls),
          if list_all (\<lambda>l. length l < 65536) ls then None else Some (errors_New ''bufio.Scanner: token too long'')))"

definition append_values :: "string \<Rightarrow> string list \<Rightarrow> (string \<rightharpoonup> string list) \<Rightarrow> (string \<rightharpoonup> string list)" where
  "append_values from tos m = m(from \<mapsto> (case m from of None \<Rightarrow> [] | Some vs \<Rightarrow> vs) @ tos)"

fun read_lines :: "string \<Rightarrow> nat \<Rightarrow> string list \<Rightarrow> (string \<rightharpoonup> string list) \<Rightarrow> (string \<rightharpoonup> string list) \<times> goerr option" where
  "read_lines path n [] m = (m, None)"
| "read_lines path n (line # ls) m =
     (let text = TrimSpace line in
      if HasPrefix line ''#'' \<or> text = '''' then read_lines path (Suc n) ls m
      else
        let parts = (case cut_at '':'' text of None \<Rightarrow> (text, '''') | Some p \<Rightarrow> p);
            from = TrimSpace (fst parts)
        in if from = '''' then (m, Some (errors_New (path @ '':'' @ nat_digits (Suc n) @ '': empty address before colon'')))
           else read_lines path (Suc n) ls (append_values from (map TrimSpace (SplitByte (snd parts) CHR '','')) m))"

definition readFile :: "string \<Rightarrow> goerr + string \<Rightarrow> (string \<rightharpoonup> string list) \<Rightarrow> (string \<rightharpoonup> string list) \<times> goerr option" where
  "readFile path content m =
     (case content of
        Inl e \<Rightarrow> (m, Some e)
      | Inr text \<Rightarrow>
          (case scan_lines text of (ls, serr) \<Rightarrow>
             (case read_lines path 0 ls m of (m, Some e) \<Rightarrow> (m, Some e) | (m, None) \<Rightarrow> (m, serr))))"

record file_table =
  ft_file :: string
  ft_m :: "string \<rightharpoonup> string list"
  ft_stamp :: time

text \<open>What system calls see of the file at one moment: it is missing, it cannot be looked at, or it has a modification time and content (or a read
  error). The content is read in pieces, each at a later moment than the one before: \<open>read_pieces\<close> takes for every read the number of bytes it asks for and
  the version of the file at that moment, and the version at which the rest is read up to the end.\<close>

datatype stat_result = NotExist | StatError | ModTime time

datatype file_version = Missing goerr | Broken goerr | Version time "goerr + string"

fun fv_stat :: "file_version \<Rightarrow> stat_result" where
  "fv_stat (Missing e) = NotExist"
| "fv_stat (Broken e) = StatError"
| "fv_stat (Version t c) = ModTime t"

fun fv_text :: "file_version \<Rightarrow> goerr + string" where
  "fv_text (Missing e) = Inl e"
| "fv_text (Broken e) = Inl e"
| "fv_text (Version t c) = c"

fun read_pieces :: "nat \<Rightarrow> (nat \<times> file_version) list \<Rightarrow> file_version \<Rightarrow> goerr + string" where
  "read_pieces off [] v = (case fv_text v of Inl e \<Rightarrow> Inl e | Inr t \<Rightarrow> Inr (drop off t))"
| "read_pieces off ((n, u) # ps) v =
     (case fv_text u of
        Inl e \<Rightarrow> Inl e
      | Inr t \<Rightarrow>
          (let piece = take n (drop off t) in
           case read_pieces (off + length piece) ps v of Inl e \<Rightarrow> Inl e | Inr rest \<Rightarrow> Inr (piece @ rest)))"

definition reloadInterval :: duration where
  "reloadInterval = 15 * 10 ^ 9"

definition file_Init :: "(goerr \<Rightarrow> bool) \<Rightarrow> string \<Rightarrow> goerr + string \<Rightarrow> goerr + file_table" where
  "file_Init not_exist path content =
     (case readFile path content Map.empty of
        (m, Some e) \<Rightarrow> if not_exist e then Inr \<lparr>ft_file = path, ft_m = m, ft_stamp = 0\<rparr> else Inl e
      | (m, None) \<Rightarrow> Inr \<lparr>ft_file = path, ft_m = m, ft_stamp = 0\<rparr>)"

text \<open>One reload: the file is looked at before and after it is read; it may change at any moment between. After a failed \<open>os.Stat\<close> the code goes on with a nil
  pointer.\<close>

definition reload :: "file_version \<Rightarrow> time \<Rightarrow> (nat \<times> file_version) list \<Rightarrow> file_version \<Rightarrow> file_version \<Rightarrow> file_table \<Rightarrow> file_table outcome" where
  "reload v1 now pieces v v2 f =
     (case fv_stat v1 of
        NotExist \<Rightarrow> Return (f\<lparr>ft_m := Map.empty\<rparr>)
      | StatError \<Rightarrow> nil_deref
      | ModTime t \<Rightarrow>
          if t < ft_stamp f \<or> time_sub now t < go_quot reloadInterval 2 then Return f
          else
            (case readFile (ft_file f) (read_pieces 0 pieces v) Map.empty of
               (_, Some _) \<Rightarrow> Return f
             | (newm, None) \<Rightarrow>
                 (case fv_stat v2 of
                    ModTime t2 \<Rightarrow> if t2 \<noteq> t then Return f else Return (f\<lparr>ft_m := newm, ft_stamp := t\<rparr>)
                  | _ \<Rightarrow> Return f)))"

definition file_as_table :: "file_table \<Rightarrow> table" where
  "file_as_table f = static_table (ft_m f)"

text \<open>The goroutine that reloads, with all versions of the file it sees in their order: a panic ends it, what others see is the last table.\<close>

inductive file_run :: "file_table \<Rightarrow> file_version list \<Rightarrow> file_table \<Rightarrow> bool" for f0 where
  started: "file_run f0 [] f0"
| reloaded: "file_run f0 vs f \<Longrightarrow> reload v1 now pieces v v2 f = Return f' \<Longrightarrow> file_run f0 (vs @ v1 # map snd pieces @ [v, v2]) f'"
| stopped: "file_run f0 vs f \<Longrightarrow> reload v1 now pieces v v2 f = Panic msg \<Longrightarrow> file_run f0 (vs @ [v1]) f"

text \<open>What the check of the modification time relies on: the time never goes back, and the content does not change without it.\<close>

definition mtime_order :: "file_version \<Rightarrow> file_version \<Rightarrow> bool" where
  "mtime_order a b =
     (case (fv_stat a, fv_stat b) of
        (ModTime s, ModTime t) \<Rightarrow> s \<le> t \<and> (s = t \<longrightarrow> fv_text a = fv_text b)
      | _ \<Rightarrow> True)"

definition mtime_law :: "file_version list \<Rightarrow> bool" where
  "mtime_law vs = sorted_wrt mtime_order vs"

section \<open>Rewriting of addresses (replace_addr.go)\<close>

text \<open>The replacement of a local part: a whole address, or a local part that keeps the domain.\<close>

definition local_replacement :: "textlib \<Rightarrow> string \<Rightarrow> string \<Rightarrow> goerr + string" where
  "local_replacement lib domain x =
     (if Contains x ''@'' \<and> \<not> HasPrefix x [CHR 0x22] \<and> \<not> HasSuffix x [CHR 0x22] then
        if Valid lib x then Inr x else Inl (errors_New (''refusing to replace recipient with invalid address '' @ x))
      else Inr (x @ ''@'' @ domain))"

fun local_replacements :: "textlib \<Rightarrow> string \<Rightarrow> string list \<Rightarrow> goerr + string list" where
  "local_replacements lib domain [] = Inr []"
| "local_replacements lib domain (x # xs) =
     ebind (local_replacement lib domain x) (\<lambda>y. ebind (local_replacements lib domain xs) (\<lambda>ys. Inr (y # ys)))"

definition rewrite :: "textlib \<Rightarrow> (string \<Rightarrow> string list \<times> goerr option) \<Rightarrow> string \<Rightarrow> string list \<times> goerr option" where
  "rewrite lib lookup val =
     (case ForLookup lib val of
        (_, Some err) \<Rightarrow> ([val], Some (Wrapf ''malformed address: '' err))
      | (normAddr, None) \<Rightarrow>
          (case lookup normAddr of
             (_, Some err) \<Rightarrow> ([val], Some err)
           | (replacements, None) \<Rightarrow>
               if replacements \<noteq> [] then
                 (case find (\<lambda>x. \<not> Valid lib x) replacements of
                    Some x \<Rightarrow> ([''''], Some (errors_New (''refusing to replace recipient with the invalid address '' @ x)))
                  | None \<Rightarrow> (replacements, None))
               else
                 (case Split normAddr of
                    (_, _, Some _) \<Rightarrow> ([val], None)
                  | (mbox, domain, None) \<Rightarrow>
                      (case lookup mbox of
                         (_, Some err) \<Rightarrow> ([val], Some err)
                       | (replacements, None) \<Rightarrow>
                           if replacements \<noteq> [] then
                             (case local_replacements lib domain replacements of Inl e \<Rightarrow> ([''''], Some e) | Inr rs \<Rightarrow> (rs, None))
                           else ([val], None)))))"

record replace_addr =
  ra_sender :: bool
  ra_rcpt :: bool
  ra_lookup :: "string \<Rightarrow> string list \<times> goerr option"

definition replace_New :: "string \<Rightarrow> (string \<Rightarrow> string list \<times> goerr option) \<Rightarrow> replace_addr" where
  "replace_New modName lookup = \<lparr>ra_sender = (modName = ''modify.replace_sender''), ra_rcpt = (modName = ''modify.replace_rcpt''), ra_lookup = lookup\<rparr>"

definition RewriteSender :: "textlib \<Rightarrow> replace_addr \<Rightarrow> string \<Rightarrow> (string \<times> goerr option) outcome" where
  "RewriteSender lib r mailFrom =
     (if ra_sender r then
        (case rewrite lib (ra_lookup r) mailFrom of
           (_, Some err) \<Rightarrow> Return (mailFrom, Some err)
         | ([], None) \<Rightarrow> Panic ''index out of range''
         | (x # xs, None) \<Rightarrow> Return (x, None))
      else Return (mailFrom, None))"

definition RewriteRcpt :: "textlib \<Rightarrow> replace_addr \<Rightarrow> string \<Rightarrow> string list \<times> goerr option" where
  "RewriteRcpt lib r rcptTo = (if ra_rcpt r then rewrite lib (ra_lookup r) rcptTo else ([rcptTo], None))"

section \<open>Lemmas\<close>

lemma local_replacements_eq: "local_replacements lib domain xs = Inr ys \<Longrightarrow> list_all2 (\<lambda>x y. local_replacement lib domain x = Inr y) xs ys"
  by (induction xs arbitrary: ys) (auto simp: ebind_Inr_iff)

lemma local_replacement_ok: "local_replacement lib domain x = Inr y \<Longrightarrow> Valid lib y \<or> y = x @ ''@'' @ domain"
  by (auto simp: local_replacement_def split: if_splits)

text \<open>The values of a key, and of the chain as a composition of relations.\<close>

definition values_of :: "table \<Rightarrow> string \<Rightarrow> string list" where
  "values_of t key = (case step_values t key of Inl _ \<Rightarrow> [] | Inr vs \<Rightarrow> vs)"

fun chained :: "(table \<times> bool) list \<Rightarrow> string \<Rightarrow> string set" where
  "chained [] key = {key}"
| "chained ((t, optional) # steps) key = (\<Union>v\<in>set (values_of t key). chained steps v)"

lemma step_keys_Some: "step_keys t keys acc = Inr (Some vs) \<Longrightarrow> vs = acc @ concat (map (values_of t) keys) \<and> (\<forall>k\<in>set keys. values_of t k \<noteq> [])"
proof (induction keys arbitrary: acc)
  case (Cons k ks)
  then obtain ys where y: "step_values t k = Inr ys" "ys \<noteq> []" "step_keys t ks (acc @ ys) = Inr (Some vs)" by (auto split: sum.splits if_splits)
  then have "values_of t k = ys" by (simp add: values_of_def)
  with Cons.IH [OF y(3)] y(2) show ?case by simp
qed simp

lemma chain_loop_set:
  assumes "chain_loop steps ks = (vs, None)" "vs \<noteq> []" "\<forall>(t, optional)\<in>set steps. \<not> optional"
  shows "set vs = (\<Union>k\<in>set ks. chained steps k)"
  using assms
proof (induction steps arbitrary: ks)
  case (Cons s steps)
  obtain t where s: "s = (t, False)" using Cons.prems(3) by (cases s) auto
  from Cons.prems(1,2) obtain ns where ns: "step_keys t ks [] = Inr (Some ns)" "chain_loop steps ns = (vs, None)"
    by (auto simp: s split: sum.splits option.splits)
  from Cons.IH [OF ns(2) Cons.prems(2)] Cons.prems(3) step_keys_Some [OF ns(1)] show ?case by (simp add: s)
qed simp

section \<open>Properties\<close>

text \<open>A chain of tables whose steps are all mandatory returns exactly the values that its steps, read as relations, relate to the key.\<close>

theorem chain_composes:
  assumes "chain_LookupMulti steps key = (vs, None)" "vs \<noteq> []" "\<forall>(t, optional)\<in>set steps. \<not> optional"
  shows "set vs = chained steps key"
  using chain_loop_set [OF assms(1) [unfolded chain_LookupMulti_def] assms(2,3)] by simp

text \<open>Rewriting an address never leaves it without a replacement, so that the sender modifier does not panic. Without an error every result is the address itself,
  a valid address, or a replacement from the table in front of the domain of the normalized address.\<close>

theorem rewrite_results:
  assumes "rewrite lib lookup val = (rs, e)"
  shows "rs \<noteq> [] \<and> (e = None \<longrightarrow> (\<forall>r\<in>set rs. r = val \<or> Valid lib r \<or>
      (\<exists>mbox domain x. Split (fst (ForLookup lib val)) = (mbox, domain, None) \<and> x \<in> set (fst (lookup mbox)) \<and> r = x @ ''@'' @ domain)))"
proof -
  have l: "rs \<noteq> [] \<and> (\<forall>r\<in>set rs. Valid lib r \<or> (\<exists>x\<in>set xs. r = x @ ''@'' @ domain))"
    if "local_replacements lib domain xs = Inr rs" "xs \<noteq> []" for domain xs
    using local_replacements_eq [OF that(1)] that(2) local_replacement_ok
    by (auto simp: list_all2_conv_all_nth in_set_conv_nth) (metis nth_mem)+
  have f: "\<forall>r\<in>set rs. Valid lib r" if "find (\<lambda>x. \<not> Valid lib x) rs = None" for rs using that by (auto simp: find_None_iff)
  from assms show ?thesis unfolding rewrite_def
    by (auto split: prod.splits option.splits if_splits sum.splits dest!: f l)
qed

lemma file_run_path: "file_run f0 vs f \<Longrightarrow> ft_file f = ft_file f0"
  by (induction rule: file_run.induct) (auto simp: reload_def nil_deref_def split: stat_result.splits if_splits prod.splits option.splits)

text \<open>Pieces of one and the same content make up that content.\<close>

lemma read_pieces_same:
  assumes "\<forall>u\<in>set (map snd ps @ [v]). fv_text u = Inr t"
  shows "read_pieces off ps v = Inr (drop off t)"
  using assms
proof (induction ps arbitrary: off)
  case (Cons p ps)
  obtain n u where p: "p = (n, u)" by fastforce
  have "take n (drop off t) @ drop (off + length (take n (drop off t))) t = drop off t"
    by (cases "length t \<le> off + n") (simp_all, metis add.commute append_take_drop_id drop_drop)
  with Cons p show ?case by simp
qed simp

lemma read_pieces_error:
  assumes "read_pieces off ps v = Inr t" "u \<in> set (map snd ps @ [v])"
  shows "\<exists>t'. fv_text u = Inr t'"
  using assms
proof (induction ps arbitrary: off t)
  case (Cons p ps)
  then show ?case by (cases p) (auto simp: Let_def split: sum.splits)
qed (auto split: sum.splits)

text \<open>Between two equal modification times the file had one content only.\<close>

lemma mtime_between:
  assumes "mtime_law (v1 # us @ [v2])" "fv_stat v1 = ModTime t" "fv_stat v2 = ModTime t" "u \<in> set us" "fv_text u = Inr x"
  shows "fv_text v1 = Inr x"
proof -
  obtain s where u: "u = Version s (Inr x)" using assms(5) by (cases u) auto
  have "mtime_order v1 u" "mtime_order u v2" using assms(1,4) by (auto simp: mtime_law_def sorted_wrt_append)
  with u assms(2,3) show ?thesis by (simp add: mtime_order_def)
qed

lemma reload_complete:
  assumes "reload v1 now pieces v v2 f = Return f'" "mtime_law (v1 # map snd pieces @ [v, v2])"
  shows "ft_m f' = ft_m f \<or> ft_m f' = Map.empty \<or> readFile (ft_file f) (fv_text v1) Map.empty = (ft_m f', None)"
proof -
  have "fv_text v1 = read_pieces 0 pieces v" if t: "fv_stat v1 = ModTime t" "fv_stat v2 = ModTime t"
    and r: "readFile (ft_file f) (read_pieces 0 pieces v) Map.empty = (m, None)" for t m
  proof -
    from r obtain c where c: "read_pieces 0 pieces v = Inr c" by (cases "read_pieces 0 pieces v") (auto simp: readFile_def)
    have law: "mtime_law (v1 # (map snd pieces @ [v]) @ [v2])" using assms(2) by simp
    obtain x where v: "fv_text v = Inr x" using read_pieces_error [OF c, of v] by auto
    have v1: "fv_text v1 = Inr x" using mtime_between [OF law t _ v] by simp
    have "fv_text u = Inr x" if "u \<in> set (map snd pieces @ [v])" for u
      using read_pieces_error [OF c that] mtime_between [OF law t that] v1 by fastforce
    then have "\<forall>u\<in>set (map snd pieces @ [v]). fv_text u = Inr x" by blast
    from read_pieces_same [OF this, of 0] v1 show ?thesis by simp
  qed
  with assms(1) show ?thesis
    by (auto simp: reload_def nil_deref_def split: stat_result.splits if_splits prod.splits option.splits)
qed

text \<open>C32. A file table is never half read. The file may change at any moment, also between the reads of one reload, and may be missing or unreadable. If
  its modification time never goes back and its content never changes without a new modification time, then after any number of reloads the table
  is the one at the start, the empty table, or the complete and correct content of one version of the file that \<open>os.Stat\<close> saw.\<close>

theorem file_table_atomic:
  assumes "file_run f0 vs f" "mtime_law vs"
  shows "ft_m f = ft_m f0 \<or> ft_m f = Map.empty \<or> (\<exists>v\<in>set vs. readFile (ft_file f0) (fv_text v) Map.empty = (ft_m f, None))"
  using assms
proof (induction rule: file_run.induct)
  case (reloaded vs f v1 now pieces v v2 f')
  have law: "mtime_law vs" "mtime_law (v1 # map snd pieces @ [v, v2])" using reloaded.prems by (auto simp: mtime_law_def sorted_wrt_append)
  from reload_complete [OF reloaded.hyps(2) law(2)] reloaded.IH [OF law(1)] file_run_path [OF reloaded.hyps(1)] show ?case by auto
next
  case (stopped vs f v1 now pieces v v2 msg)
  then show ?case by (auto simp: mtime_law_def sorted_wrt_append)
qed simp

text \<open>A file with one line, read in two pieces.\<close>

lemma demo_line: "TrimSpace ''a:b'' = ''a:b''" "TrimSpace ''a'' = ''a''" "TrimSpace ''b'' = ''b''"
  by (simp_all add: TrimSpace_def trim_left.simps space_runes_def encode_rune_def encode_bytes_def valid_rune_def HasPrefix_def char_of_def bit_0 bit_Suc)

lemma demo_reload:
  "reload (Version 5 (Inr ''a:b'')) (10 ^ 12) [(1, Version 5 (Inr ''a:b''))] (Version 5 (Inr ''a:b'')) (Version 5 (Inr ''a:b''))
     \<lparr>ft_file = ''t'', ft_m = Map.empty, ft_stamp = 0\<rparr> = Return \<lparr>ft_file = ''t'', ft_m = [''a'' \<mapsto> [''b'']], ft_stamp = 5\<rparr>"
  by (simp add: reload_def readFile_def scan_lines_def drop_CR_def HasPrefix_def demo_line append_values_def Let_def time_sub_def go_quot_def reloadInterval_def max_int64_def min_int64_def)

theorem file_table_atomic_witness:
  "\<exists>f. file_run \<lparr>ft_file = ''t'', ft_m = Map.empty, ft_stamp = 0\<rparr> (replicate 4 (Version 5 (Inr ''a:b''))) f \<and>
     ft_m f = [''a'' \<mapsto> [''b'']] \<and> readFile ''t'' (Inr ''a:b'') Map.empty = (ft_m f, None)"
proof -
  let ?old = "\<lparr>ft_file = ''t'', ft_m = Map.empty, ft_stamp = 0\<rparr>" and ?new = "\<lparr>ft_file = ''t'', ft_m = [''a'' \<mapsto> [''b'']], ft_stamp = 5\<rparr>"
  have r: "file_run ?old (replicate 4 (Version 5 (Inr ''a:b''))) ?new"
    using file_run.reloaded [OF file_run.started demo_reload] by (simp add: numeral_eq_Suc)
  have "mtime_law (replicate 4 (Version 5 (Inr ''a:b'')))" by (simp add: numeral_eq_Suc mtime_law_def mtime_order_def)
  from file_table_atomic [OF r this] r show ?thesis by (intro exI [of _ ?new]) (auto dest: fun_cong [of _ _ "''a''"])
qed

text \<open>The sender modifier never panics, and neither does \<open>email_with_domain\<close> after its \<open>Init\<close>.\<close>

theorem RewriteSender_returns: "\<exists>out. RewriteSender lib r mailFrom = Return out"
proof -
  obtain rs e where "rewrite lib (ra_lookup r) mailFrom = (rs, e)" by fastforce
  with rewrite_results [OF this] show ?thesis by (cases rs; cases e) (auto simp: RewriteSender_def)
qed

theorem domain_Lookup_returns: "domain_Init lib domains = None \<Longrightarrow> \<exists>v. domain_Lookup domains key = Return (v, True, None) \<and> v \<in> set (fst (domain_LookupMulti domains key))"
  by (cases domains) (auto simp: domain_Init_def domain_Lookup_def domain_LookupMulti_def split: option.splits)

text \<open>A regular expression and a chain answer \<open>Lookup\<close> with the first of all values.\<close>

theorem chain_Lookup_first: "tb_Lookup (chain_table steps) key = (v, True, None) \<Longrightarrow> \<exists>vs. chain_LookupMulti steps key = (v # vs, None)"
  by (auto simp: chain_table_def chain_Lookup_def first_of_def split: prod.splits option.splits list.splits)

end
