(* ===== verification/Pass_Table.thy ===== *)
theory Pass_Table
  imports Tables
begin

text \<open>
  Credentials in a table (\<^verbatim>\<open>internal/auth/pass_table\<close>), and the tables that can hold them (\<^verbatim>\<open>internal/table/sql_query.go\<close>,
  \<^verbatim>\<open>sql_table.go\<close>, \<^verbatim>\<open>gorm.go\<close>).

  A changeable table is a record of functions over its contents; the locale \<open>mutable_table\<close> is the contract of \<open>MutableTable\<close>. bcrypt, Argon2 and the
  random numbers are the argument \<open>hash_lib\<close>. The goroutine that hashes an old password again is a job that runs at any later time.
\<close>

section \<open>Tables that can be changed\<close>

record 's mtable =
  mt_Lookup :: "string \<Rightarrow> 's \<Rightarrow> string \<times> bool \<times> goerr option"
  mt_mutable :: bool
  mt_Keys :: "'s \<Rightarrow> string list \<times> goerr option"
  mt_RemoveKey :: "string \<Rightarrow> 's \<Rightarrow> 's \<times> goerr option"
  mt_SetKey :: "string \<Rightarrow> string \<Rightarrow> 's \<Rightarrow> 's \<times> goerr option"

text \<open>What the rows mean, and what the methods of a table promise.\<close>

locale mutable_table =
  fixes T :: "'s mtable" and view :: "'s \<Rightarrow> string \<rightharpoonup> string"
  assumes lookup_ok: "mt_Lookup T k s = (v, ok, None) \<Longrightarrow> view s k = (if ok then Some v else None)"
    and lookup_err: "mt_Lookup T k s = (v, ok, Some e) \<Longrightarrow> \<not> ok"
    and set_ok: "mt_SetKey T k v s = (s', None) \<Longrightarrow> view s' = (view s)(k \<mapsto> v)"
    and set_err: "mt_SetKey T k v s = (s', Some e) \<Longrightarrow> s' = s"
    and remove_ok: "mt_RemoveKey T k s = (s', None) \<Longrightarrow> view s' = (view s)(k := None)"
    and remove_err: "mt_RemoveKey T k s = (s', Some e) \<Longrightarrow> s' = s"

text \<open>The table of sql\_table: a table with the key as primary key, the queries of sql\_table.go, and a fault for every query. Without the query for
  \<open>upsert\<close> the key is looked up first.\<close>

record sql_queries =
  sq_mod :: string
  sq_list :: bool
  sq_del :: bool
  sq_upsert :: bool
  sq_set :: bool
  sq_add :: bool
  sq_flt :: "string \<Rightarrow> string \<Rightarrow> bool"

type_synonym rows = "(string \<times> string) list"

definition db_error :: goerr where
  "db_error = Opaque ''database error'' None"

definition SQL_Lookup :: "sql_queries \<Rightarrow> string \<Rightarrow> rows \<Rightarrow> string \<times> bool \<times> goerr option" where
  "SQL_Lookup q val rows =
     (if sq_flt q ''lookup'' val then ('''', False, Some db_error)
      else case map_of rows val of None \<Rightarrow> ('''', False, None) | Some v \<Rightarrow> (v, True, None))"

definition SQL_LookupMulti :: "sql_queries \<Rightarrow> string \<Rightarrow> rows \<Rightarrow> string list \<times> goerr option" where
  "SQL_LookupMulti q val rows =
     (if sq_flt q ''lookup'' val then ([], Some (Wrapf (sq_mod q @ ''; lookup '' @ val @ '': '') db_error))
      else (map snd (filter (\<lambda>r. fst r = val) rows), None))"

definition SQL_Keys :: "sql_queries \<Rightarrow> rows \<Rightarrow> string list \<times> goerr option" where
  "SQL_Keys q rows =
     (if \<not> sq_list q then ([], Some (errors_New (sq_mod q @ '': table is not mutable (no 'list' query)'')))
      else if sq_flt q ''list'' '''' then ([], Some (Wrapf (sq_mod q @ '': list: '') db_error))
      else (map fst rows, None))"

definition SQL_RemoveKey :: "sql_queries \<Rightarrow> string \<Rightarrow> rows \<Rightarrow> rows \<times> goerr option" where
  "SQL_RemoveKey q k rows =
     (if \<not> sq_del q then (rows, Some (errors_New (sq_mod q @ '': table is not mutable (no 'del' query)'')))
      else if sq_flt q ''del'' k then (rows, Some (Wrapf (sq_mod q @ '': del '' @ k @ '': '') db_error))
      else (AList.delete k rows, None))"

definition SQL_SetKey :: "sql_queries \<Rightarrow> string \<Rightarrow> string \<Rightarrow> rows \<Rightarrow> rows \<times> goerr option" where
  "SQL_SetKey q k v rows =
     (if sq_upsert q then
        if sq_flt q ''upsert'' k then (rows, Some (Wrapf (sq_mod q @ '': upsert '' @ k @ '': '') db_error)) else (AList.update k v rows, None)
      else if \<not> sq_set q then (rows, Some (errors_New (sq_mod q @ '': table is not mutable (no 'set' query)'')))
      else if \<not> sq_add q then (rows, Some (errors_New (sq_mod q @ '': table is not mutable (no 'add' query)'')))
      else
        (case SQL_Lookup q k rows of
           (_, _, Some e) \<Rightarrow> (rows, Some (Wrapf (sq_mod q @ '': set '' @ k @ '': '') e))
         | (_, exists, None) \<Rightarrow>
             if sq_flt q (if exists then ''set'' else ''add'') k then (rows, Some (Wrapf (sq_mod q @ '': set '' @ k @ '': '') db_error))
             else (AList.update k v rows, None)))"

definition sql_mtable :: "sql_queries \<Rightarrow> rows mtable" where
  "sql_mtable q = \<lparr>mt_Lookup = SQL_Lookup q, mt_mutable = True, mt_Keys = SQL_Keys q, mt_RemoveKey = SQL_RemoveKey q, mt_SetKey = SQL_SetKey q\<rparr>"

text \<open>The same with gorm.\<close>

definition gorm_mtable :: "(string \<Rightarrow> string \<Rightarrow> bool) \<Rightarrow> rows mtable" where
  "gorm_mtable flt =
     \<lparr>mt_Lookup = (\<lambda>k rows. if flt ''First'' k then ('''', False, Some db_error) else case map_of rows k of None \<Rightarrow> ('''', False, None) | Some v \<Rightarrow> (v, True, None)),
      mt_mutable = True,
      mt_Keys = (\<lambda>rows. if flt ''Pluck'' '''' then ([], Some db_error) else (map fst rows, None)),
      mt_RemoveKey = (\<lambda>k rows. if flt ''Delete'' k then (rows, Some db_error) else (AList.delete k rows, None)),
      mt_SetKey = (\<lambda>k v rows. if flt ''Save'' k then (rows, Some db_error) else (AList.update k v rows, None))\<rparr>"

interpretation sqlt: mutable_table "sql_mtable q" map_of for q
  by unfold_locales
    (auto simp: sql_mtable_def SQL_Lookup_def SQL_SetKey_def SQL_RemoveKey_def update_conv' delete_conv' restrict_map_def split: if_splits option.splits prod.splits)

interpretation gormt: mutable_table "gorm_mtable flt" map_of for flt
  by unfold_locales (auto simp: gorm_mtable_def update_conv' delete_conv' split: if_splits option.splits)

section \<open>Hashes (hash.go)\<close>

record hash_opts =
  BcryptCost :: int
  Argon2Time :: nat
  Argon2Memory :: nat
  Argon2Threads :: nat

record hash_lib =
  rand_Read :: "nat \<Rightarrow> goerr + string"
  bcrypt_Generate :: "string \<Rightarrow> int \<Rightarrow> goerr + string"
  bcrypt_Compare :: "string \<Rightarrow> string \<Rightarrow> goerr option"
  argon2_IDKey :: "string \<Rightarrow> string \<Rightarrow> nat \<Rightarrow> nat \<Rightarrow> nat \<Rightarrow> nat \<Rightarrow> string outcome"

definition DefaultHash :: string where
  "DefaultHash = ''sha256''"

definition mismatch :: goerr where
  "mismatch = errors_New ''pass_table: hash mismatch''"

definition b64_error :: goerr where
  "b64_error = Opaque ''illegal base64 data'' None"

definition computeSHA256 :: "hash_lib \<Rightarrow> string \<Rightarrow> goerr + string" where
  "computeSHA256 hl pass =
     (case rand_Read hl 32 of
        Inl e \<Rightarrow> Inl (Wrapf ''pass_table: failed to generate salt: '' e)
      | Inr salt \<Rightarrow> Inr (EncodeToString salt @ '':'' @ EncodeToString (Sum256 (salt @ pass))))"

definition verifySHA256 :: "string \<Rightarrow> string \<Rightarrow> goerr option" where
  "verifySHA256 pass hashSalt =
     (case SplitByte hashSalt CHR '':'' of
        [a, b] \<Rightarrow>
          (case (DecodeString a, DecodeString b) of
             (Some salt, Some hash) \<Rightarrow> if Sum256 (salt @ pass) = hash then None else Some mismatch
           | _ \<Rightarrow> Some (Wrapf ''pass_table: malformed hash string, cannot decode pass: '' b64_error))
      | _ \<Rightarrow> Some (errors_New ''pass_table: malformed hash string, no salt''))"

definition ParseUint :: "nat \<Rightarrow> string \<Rightarrow> goerr + nat" where
  "ParseUint bits s =
     (if s = '''' \<or> \<not> list_all is_digit s then Inl (errors_New (''strconv.ParseUint: parsing '' @ s @ '': invalid syntax''))
      else if dec_val s \<ge> 2 ^ bits then Inl (errors_New (''strconv.ParseUint: parsing '' @ s @ '': value out of range''))
      else Inr (dec_val s))"

definition computeArgon2 :: "hash_lib \<Rightarrow> hash_opts \<Rightarrow> string \<Rightarrow> (goerr + string) outcome" where
  "computeArgon2 hl opts pass =
     (case rand_Read hl 16 of
        Inl e \<Rightarrow> Return (Inl (Wrapf ''pass_table: failed to generate salt: '' e))
      | Inr salt \<Rightarrow>
          obind (argon2_IDKey hl pass salt (Argon2Time opts) (Argon2Memory opts) (Argon2Threads opts) 64) (\<lambda>hash.
            Return (Inr (nat_digits (Argon2Time opts) @ '':'' @ nat_digits (Argon2Memory opts) @ '':'' @ nat_digits (Argon2Threads opts) @ '':'' @
              EncodeToString salt @ '':'' @ EncodeToString hash))))"

text \<open>\<open>strings.SplitN\<close> with one byte as the separator.\<close>

fun SplitN :: "nat \<Rightarrow> string \<Rightarrow> char \<Rightarrow> string list" where
  "SplitN 0 s c = []"
| "SplitN (Suc 0) s c = [s]"
| "SplitN (Suc (Suc n)) s c = (case cut_at [c] s of None \<Rightarrow> [s] | Some (a, b) \<Rightarrow> a # SplitN (Suc n) b c)"

text \<open>A hash with fewer than five parts panics, unless a part before it is already refused.\<close>

definition part :: "string list \<Rightarrow> nat \<Rightarrow> (string \<Rightarrow> goerr + 'a) \<Rightarrow> ('a \<Rightarrow> goerr option outcome) \<Rightarrow> goerr option outcome" where
  "part parts i conv k =
     (if length parts \<le> i then Panic ''index out of range''
      else case conv (parts ! i) of Inl e \<Rightarrow> Return (Some (Wrapf ''pass_table: malformed hash string: '' e)) | Inr x \<Rightarrow> k x)"

definition decode_part :: "string \<Rightarrow> goerr + string" where
  "decode_part s = (case DecodeString s of None \<Rightarrow> Inl b64_error | Some x \<Rightarrow> Inr x)"

definition verifyArgon2 :: "hash_lib \<Rightarrow> string \<Rightarrow> string \<Rightarrow> goerr option outcome" where
  "verifyArgon2 hl pass hashSalt =
     (let parts = SplitN 5 hashSalt CHR '':'' in
      part parts 0 (ParseUint 32) (\<lambda>time.
      part parts 1 (ParseUint 32) (\<lambda>memory.
      part parts 2 (ParseUint 8) (\<lambda>threads.
      part parts 3 decode_part (\<lambda>salt.
      part parts 4 decode_part (\<lambda>hash.
        obind (argon2_IDKey hl pass salt time memory threads 64) (\<lambda>passHash.
          Return (if passHash = hash then None else Some mismatch))))))))"

definition HashCompute :: "hash_lib \<Rightarrow> string \<Rightarrow> (hash_opts \<Rightarrow> string \<Rightarrow> (goerr + string) outcome) option" where
  "HashCompute hl algo =
     (if algo = ''sha256'' then Some (\<lambda>_ pass. Return (computeSHA256 hl pass))
      else if algo = ''bcrypt'' then Some (\<lambda>opts pass. Return (bcrypt_Generate hl pass (BcryptCost opts)))
      else if algo = ''argon2'' then Some (computeArgon2 hl) else None)"

definition HashVerify :: "hash_lib \<Rightarrow> string \<Rightarrow> (string \<Rightarrow> string \<Rightarrow> goerr option outcome) option" where
  "HashVerify hl algo =
     (if algo = ''sha256'' then Some (\<lambda>pass h. Return (verifySHA256 pass h))
      else if algo = ''bcrypt'' then Some (\<lambda>pass h. Return (bcrypt_Compare hl h pass))
      else if algo = ''argon2'' then Some (verifyArgon2 hl) else None)"

section \<open>Login names (auth.go)\<close>

record auth_lib =
  al_text :: textlib
  al_EqualFold :: "string \<Rightarrow> string \<Rightarrow> bool"
  al_hash :: hash_lib

definition ValidateLoginDomain :: "auth_lib \<Rightarrow> string \<Rightarrow> string \<Rightarrow> goerr option" where
  "ValidateLoginDomain al username expectedDomain =
     (if expectedDomain = '''' then None
      else if Contains username ''%'' then Some (errors_New ''invalid username: contains URL-encoded characters'')
      else
        (case SplitByte username CHR ''@'' of
           [localpart, domain] \<Rightarrow>
             if localpart = '''' then Some (errors_New ''invalid username: empty localpart'')
             else if \<not> al_EqualFold al (WrapIP domain) expectedDomain then Some (errors_New (''invalid login domain: expected @'' @ expectedDomain))
             else None
         | _ \<Rightarrow> Some (errors_New ''invalid username format: expected localpart@domain'')))"

section \<open>The credentials (table.go)\<close>

record 's pass_auth =
  pa_mod :: string
  pa_table :: "'s mtable"
  pa_settings :: "'s mtable option"
  pa_autoCreate :: bool
  pa_jitDomain :: string

record 's auth_state =
  as_table :: 's
  as_settings :: 's

definition ErrUnknownCredentials :: goerr where
  "ErrUnknownCredentials = errors_New ''unknown credentials''"

definition not_mutable :: "'s pass_auth \<Rightarrow> goerr" where
  "not_mutable a = errors_New (pa_mod a @ '': table is not mutable, no management functionality available'')"

definition auth_key :: "auth_lib \<Rightarrow> string \<Rightarrow> string \<times> goerr option" where
  "auth_key al username = precis_CaseMapped (al_text al) (NormalizeUsername username)"

text \<open>Settings are kept in a table of their own, or next to the credentials.\<close>

definition settings_Lookup :: "'s pass_auth \<Rightarrow> string \<Rightarrow> 's auth_state \<Rightarrow> string \<times> bool \<times> goerr option" where
  "settings_Lookup a key st =
     (case pa_settings a of None \<Rightarrow> mt_Lookup (pa_table a) key (as_table st) | Some t \<Rightarrow> mt_Lookup t key (as_settings st))"

definition settings_update ::
    "'s pass_auth \<Rightarrow> ('s mtable \<Rightarrow> 's \<Rightarrow> 's \<times> goerr option) \<Rightarrow> 's auth_state \<Rightarrow> 's auth_state \<times> goerr option" where
  "settings_update a f st =
     (case pa_settings a of
        None \<Rightarrow> if \<not> mt_mutable (pa_table a) then (st, Some (not_mutable a))
                else (case f (pa_table a) (as_table st) of (s, e) \<Rightarrow> (st\<lparr>as_table := s\<rparr>, e))
      | Some t \<Rightarrow> if \<not> mt_mutable t then (st, Some (not_mutable a))
                  else (case f t (as_settings st) of (s, e) \<Rightarrow> (st\<lparr>as_settings := s\<rparr>, e)))"

definition SetSetting :: "'s pass_auth \<Rightarrow> string \<Rightarrow> string \<Rightarrow> 's auth_state \<Rightarrow> 's auth_state \<times> goerr option" where
  "SetSetting a key value = settings_update a (\<lambda>t. mt_SetKey t key value)"

definition DeleteSetting :: "'s pass_auth \<Rightarrow> string \<Rightarrow> 's auth_state \<Rightarrow> 's auth_state \<times> goerr option" where
  "DeleteSetting a key = settings_update a (\<lambda>t. mt_RemoveKey t key)"

definition GetSetting :: "'s pass_auth \<Rightarrow> string \<Rightarrow> 's auth_state \<Rightarrow> string \<times> bool \<times> goerr option" where
  "GetSetting a key st =
     (case settings_Lookup a key st of (_, _, Some e) \<Rightarrow> ('''', False, Some e) | (v, ok, None) \<Rightarrow> if ok then (v, True, None) else ('''', False, None))"

text \<open>A switch, with the value it has when it is not set.\<close>

definition switch :: "'s pass_auth \<Rightarrow> string \<Rightarrow> goerr + bool \<Rightarrow> 's auth_state \<Rightarrow> goerr + bool" where
  "switch a key unset st =
     (case settings_Lookup a key st of (_, _, Some e) \<Rightarrow> Inl e | (v, ok, None) \<Rightarrow> if ok then Inr (v = ''true'') else unset)"

definition set_switch :: "'s pass_auth \<Rightarrow> string \<Rightarrow> bool \<Rightarrow> 's auth_state \<Rightarrow> 's auth_state \<times> goerr option" where
  "set_switch a key on = SetSetting a key (if on then ''true'' else ''false'')"

definition pt_IsRegistrationOpen :: "'s pass_auth \<Rightarrow> 's auth_state \<Rightarrow> goerr + bool" where
  "pt_IsRegistrationOpen a st = switch a ''__REGISTRATION_OPEN__'' (Inr (pa_autoCreate a)) st"

definition SetRegistrationOpen :: "'s pass_auth \<Rightarrow> bool \<Rightarrow> 's auth_state \<Rightarrow> 's auth_state \<times> goerr option" where
  "SetRegistrationOpen a = set_switch a ''__REGISTRATION_OPEN__''"

definition pt_IsTurnEnabled :: "'s pass_auth \<Rightarrow> 's auth_state \<Rightarrow> goerr + bool" where
  "pt_IsTurnEnabled a st = switch a ''__TURN_ENABLED__'' (Inr True) st"

definition SetTurnEnabled :: "'s pass_auth \<Rightarrow> bool \<Rightarrow> 's auth_state \<Rightarrow> 's auth_state \<times> goerr option" where
  "SetTurnEnabled a = set_switch a ''__TURN_ENABLED__''"

definition IsLoggingDisabled :: "'s pass_auth \<Rightarrow> 's auth_state \<Rightarrow> goerr + bool" where
  "IsLoggingDisabled a st = switch a ''__LOG_DISABLED__'' (Inr False) st"

text \<open>The result tells whether the output of the log was switched off; this happens before the setting is stored, and not in debug mode.\<close>

definition SetLoggingDisabled :: "'s pass_auth \<Rightarrow> bool \<Rightarrow> bool \<Rightarrow> 's auth_state \<Rightarrow> 's auth_state \<times> bool \<times> goerr option" where
  "SetLoggingDisabled a debug disabled st =
     (if \<not> mt_mutable (case pa_settings a of None \<Rightarrow> pa_table a | Some t \<Rightarrow> t) then (st, False, Some (not_mutable a))
      else case set_switch a ''__LOG_DISABLED__'' disabled st of (st, e) \<Rightarrow> (st, disabled \<and> \<not> debug, e))"

definition pt_IsJitRegistrationEnabled :: "'s pass_auth \<Rightarrow> 's auth_state \<Rightarrow> goerr + bool" where
  "pt_IsJitRegistrationEnabled a st = switch a ''__JIT_REGISTRATION_ENABLED__'' (pt_IsRegistrationOpen a st) st"

definition SetJitRegistrationEnabled :: "'s pass_auth \<Rightarrow> bool \<Rightarrow> 's auth_state \<Rightarrow> 's auth_state \<times> goerr option" where
  "SetJitRegistrationEnabled a = set_switch a ''__JIT_REGISTRATION_ENABLED__''"

definition pt_Lookup :: "auth_lib \<Rightarrow> 's pass_auth \<Rightarrow> string \<Rightarrow> 's auth_state \<Rightarrow> string \<times> bool \<times> goerr option" where
  "pt_Lookup al a username st =
     (case auth_key al username of (_, Some e) \<Rightarrow> ('''', False, Some e) | (key, None) \<Rightarrow> mt_Lookup (pa_table a) key (as_table st))"

definition pt_ListUsers :: "'s pass_auth \<Rightarrow> 's auth_state \<Rightarrow> string list \<times> goerr option" where
  "pt_ListUsers a st =
     (if \<not> mt_mutable (pa_table a) then ([], Some (not_mutable a))
      else case mt_Keys (pa_table a) (as_table st) of
        (_, Some e) \<Rightarrow> ([], Some (Wrapf (pa_mod a @ '': list users: '') e))
      | (l, None) \<Rightarrow> (l, None))"

text \<open>A new hash under a key; \<open>what\<close> names the caller in errors. \<open>CreateUserIfNotExists\<close> and \<open>SetUserPassword\<close> overwrite what is there.\<close>

definition put_hash :: "'s pass_auth \<Rightarrow> string \<Rightarrow> string \<Rightarrow> string \<Rightarrow> goerr + string \<Rightarrow> 's auth_state \<Rightarrow> 's auth_state \<times> goerr option" where
  "put_hash a what key algo hash st =
     (case hash of
        Inl e \<Rightarrow> (st, Some (Wrapf (pa_mod a @ what @ key @ '': hash generation: '') e))
      | Inr h \<Rightarrow>
          (case mt_SetKey (pa_table a) key (algo @ '':'' @ h) (as_table st) of
             (s, Some e) \<Rightarrow> (st\<lparr>as_table := s\<rparr>, Some (Wrapf (pa_mod a @ what @ key @ '': '') e))
           | (s, None) \<Rightarrow> (st\<lparr>as_table := s\<rparr>, None)))"

definition put_user :: "auth_lib \<Rightarrow> 's pass_auth \<Rightarrow> string \<Rightarrow> string \<Rightarrow> string \<Rightarrow> 's auth_state \<Rightarrow> 's auth_state \<times> goerr option" where
  "put_user al a what username password st =
     (if \<not> mt_mutable (pa_table a) then (st, Some (not_mutable a))
      else case auth_key al username of
        (_, Some e) \<Rightarrow> (st, Some (Wrapf (pa_mod a @ what @ NormalizeUsername username @ '' (raw): '') e))
      | (key, None) \<Rightarrow> put_hash a what key DefaultHash (computeSHA256 (al_hash al) password) st)"

definition CreateUserIfNotExists :: "auth_lib \<Rightarrow> 's pass_auth \<Rightarrow> string \<Rightarrow> string \<Rightarrow> 's auth_state \<Rightarrow> 's auth_state \<times> goerr option" where
  "CreateUserIfNotExists al a = put_user al a '': create user ''"

definition SetUserPassword :: "auth_lib \<Rightarrow> 's pass_auth \<Rightarrow> string \<Rightarrow> string \<Rightarrow> 's auth_state \<Rightarrow> 's auth_state \<times> goerr option" where
  "SetUserPassword al a = put_user al a '': set password ''"

definition CreateUserHash ::
    "auth_lib \<Rightarrow> 's pass_auth \<Rightarrow> string \<Rightarrow> string \<Rightarrow> string \<Rightarrow> hash_opts \<Rightarrow> 's auth_state \<Rightarrow> ('s auth_state \<times> goerr option) outcome" where
  "CreateUserHash al a username password hashAlgo opts st =
     (if \<not> mt_mutable (pa_table a) then Return (st, Some (not_mutable a))
      else case HashCompute (al_hash al) hashAlgo of
        None \<Rightarrow> Return (st, Some (errors_New (pa_mod a @ '': unknown hash function: '' @ hashAlgo)))
      | Some compute \<Rightarrow>
          (case auth_key al username of
             (_, Some e) \<Rightarrow> Return (st, Some (Wrapf (pa_mod a @ '': create user '' @ NormalizeUsername username @ '' (raw): '') e))
           | (key, None) \<Rightarrow>
               (case mt_Lookup (pa_table a) key (as_table st) of
                  (_, _, Some e) \<Rightarrow> Return (st, Some (Wrapf (pa_mod a @ '': create user '' @ key @ '': '') e))
                | (_, True, None) \<Rightarrow> Return (st, Some (errors_New (pa_mod a @ '': credentials for '' @ key @ '' already exist'')))
                | (_, False, None) \<Rightarrow> obind (compute opts password) (\<lambda>hash. Return (put_hash a '': create user '' key hashAlgo hash st)))))"

definition pt_CreateUser :: "auth_lib \<Rightarrow> 's pass_auth \<Rightarrow> string \<Rightarrow> string \<Rightarrow> 's auth_state \<Rightarrow> ('s auth_state \<times> goerr option) outcome" where
  "pt_CreateUser al a username password =
     CreateUserHash al a username password DefaultHash \<lparr>BcryptCost = 0, Argon2Time = 0, Argon2Memory = 0, Argon2Threads = 0\<rparr>"

definition pt_DeleteUser :: "auth_lib \<Rightarrow> 's pass_auth \<Rightarrow> string \<Rightarrow> 's auth_state \<Rightarrow> 's auth_state \<times> goerr option" where
  "pt_DeleteUser al a username st =
     (if \<not> mt_mutable (pa_table a) then (st, Some (not_mutable a))
      else case auth_key al username of
        (_, Some e) \<Rightarrow> (st, Some (Wrapf (pa_mod a @ '': del user '' @ NormalizeUsername username @ '' (raw): '') e))
      | (key, None) \<Rightarrow>
          (case mt_RemoveKey (pa_table a) key (as_table st) of
             (s, Some e) \<Rightarrow> (st\<lparr>as_table := s\<rparr>, Some (Wrapf (pa_mod a @ '': del user '' @ key @ '': '') e))
           | (s, None) \<Rightarrow> (st\<lparr>as_table := s\<rparr>, None)))"

text \<open>The job of a login: the goroutine that stores the password with the default hash.\<close>

type_synonym job = "string \<times> string"

definition run_job :: "auth_lib \<Rightarrow> 's pass_auth \<Rightarrow> job \<Rightarrow> 's auth_state \<Rightarrow> 's auth_state" where
  "run_job al a j st = fst (SetUserPassword al a (fst j) (snd j) st)"

definition check_hash :: "auth_lib \<Rightarrow> 's pass_auth \<Rightarrow> string \<Rightarrow> string \<Rightarrow> string \<Rightarrow> string \<Rightarrow> (goerr option \<times> job list) outcome" where
  "check_hash al a username key password hash =
     (case SplitN 2 hash CHR '':'' of
        [algo, h] \<Rightarrow>
          (case HashVerify (al_hash al) algo of
             None \<Rightarrow> Return (Some (errors_New (pa_mod a @ '': auth plain '' @ key @ '': unknown hash: '' @ algo)), [])
           | Some verify \<Rightarrow> obind (verify password h) (\<lambda>r.
               Return (case r of Some e \<Rightarrow> (Some e, []) | None \<Rightarrow> (None, if algo \<noteq> DefaultHash then [(username, password)] else []))))
      | _ \<Rightarrow> Return (Some (errors_New (pa_mod a @ '': auth plain '' @ key @ '': no hash tag'')), []))"

text \<open>An account that is not found is made, when accounts are made on login. The error of the lookup is looked at afterwards only.\<close>

definition pt_AuthPlain ::
    "auth_lib \<Rightarrow> 's pass_auth \<Rightarrow> string \<Rightarrow> string \<Rightarrow> 's auth_state \<Rightarrow> ('s auth_state \<times> goerr option \<times> job list) outcome" where
  "pt_AuthPlain al a username password st =
     (let username = NormalizeUsername username in
      case precis_CaseMapped (al_text al) username of
        (_, Some e) \<Rightarrow> Return (st, Some e, [])
      | (key, None) \<Rightarrow>
          (case mt_Lookup (pa_table a) key (as_table st) of
             (_, False, _) \<Rightarrow>
               Return (case pt_IsJitRegistrationEnabled a st of
                  Inl e \<Rightarrow> (st, Some e, [])
                | Inr False \<Rightarrow> (st, Some ErrUnknownCredentials, [])
                | Inr True \<Rightarrow>
                    if ValidateLoginDomain al username (pa_jitDomain a) \<noteq> None then (st, Some ErrUnknownCredentials, [])
                    else (case CreateUserIfNotExists al a username password st of
                            (st, Some e) \<Rightarrow> (st, Some (Wrapf (pa_mod a @ '': auto-create failed for '' @ key @ '': '') e), [])
                          | (st, None) \<Rightarrow> (st, None, [])))
           | (_, True, Some e) \<Rightarrow> Return (st, Some e, [])
           | (hash, True, None) \<Rightarrow> obind (check_hash al a username key password hash) (\<lambda>(r, jobs). Return (st, r, jobs))))"

section \<open>Lemmas\<close>

lemma cut_at_colon: "CHR '':'' \<notin> set a \<Longrightarrow> cut_at '':'' (a @ CHR '':'' # b) = Some (a, b)"
  by (induction a) (auto simp: HasPrefix_def)

lemma SplitByte_append: "c \<notin> set a \<Longrightarrow> SplitByte (a @ c # b) c = a # SplitByte b c"
  by (induction a) auto

lemma SplitByte_length: "length (SplitByte s c) = Suc (count_list s c)"
proof (induction s)
  case (Cons x s)
  then show ?case by (cases "SplitByte s c") auto
qed simp

lemma SplitByte_parts: "p \<in> set (SplitByte s c) \<Longrightarrow> c \<notin> set p"
proof (induction s arbitrary: p)
  case (Cons x s)
  then show ?case by (cases "SplitByte s c") (auto split: if_splits)
qed simp

lemma WrapIP_at: "count_list (WrapIP d) CHR ''@'' = count_list d CHR ''@''"
proof -
  have dw: "count_list (dropWhile P s) CHR ''@'' = count_list s CHR ''@''" if "\<not> P CHR ''@''" for P and s :: string using that by (induction s) auto
  let ?P = "\<lambda>c. c \<in> {CHR ''['', CHR '']''}"
  have "count_list (TrimSet d {CHR ''['', CHR '']''}) CHR ''@'' = count_list d CHR ''@''"
    using dw [of ?P d] dw [of ?P "rev (dropWhile ?P d)"] unfolding TrimSet_def by simp
  then show ?thesis by (simp add: WrapIP_def Let_def)
qed

lemma NormalizeUsername_idem: "NormalizeUsername (NormalizeUsername u) = NormalizeUsername u"
proof (cases "length (SplitByte u CHR ''@'') = 2")
  case True
  then obtain a b where ab: "SplitByte u CHR ''@'' = [a, b]" by (auto simp: numeral_2_eq_2 length_Suc_conv)
  have n: "CHR ''@'' \<notin> set a" "CHR ''@'' \<notin> set b" using SplitByte_parts [of _ u "CHR ''@''"] ab by auto
  then have "CHR ''@'' \<notin> set (WrapIP b)" using WrapIP_at [of b] by (metis count_list_0_iff)
  then have "SplitByte (a @ CHR ''@'' # WrapIP b) CHR ''@'' = [a, WrapIP b]" using n(1) by (simp add: SplitByte_append SplitByte_no_sep)
  then show ?thesis using ab by (simp add: NormalizeUsername_def Let_def WrapIP_idem)
next
  case False
  then have "length (SplitByte (WrapIP u) CHR ''@'') \<noteq> 2" by (simp add: SplitByte_length WrapIP_at)
  with False show ?thesis by (simp add: NormalizeUsername_def Let_def WrapIP_idem)
qed

lemma verify_computed:
  assumes "computeSHA256 hl p = Inr h"
  obtains salt where "rand_Read hl 32 = Inr salt" "CHR '':'' \<notin> set (EncodeToString salt)"
    "\<And>q. verifySHA256 q h = (if Sum256 (salt @ q) = Sum256 (salt @ p) then None else Some mismatch)"
proof -
  from assms obtain salt where s: "rand_Read hl 32 = Inr salt" "h = EncodeToString salt @ '':'' @ EncodeToString (Sum256 (salt @ p))"
    by (auto simp: computeSHA256_def split: sum.splits)
  have "SplitByte h CHR '':'' = [EncodeToString salt, EncodeToString (Sum256 (salt @ p))]"
    by (simp add: s(2) SplitByte_append SplitByte_no_sep EncodeToString_no_colon)
  then have "verifySHA256 q h = (if Sum256 (salt @ q) = Sum256 (salt @ p) then None else Some mismatch)" for q
    by (simp add: verifySHA256_def DecodeString_EncodeToString)
  with s(1) show ?thesis by (intro that) (simp_all add: EncodeToString_no_colon)
qed

lemma check_default:
  assumes "computeSHA256 (al_hash al) p = Inr h"
  obtains salt where "rand_Read (al_hash al) 32 = Inr salt"
    "\<And>q. check_hash al a u key q (DefaultHash @ '':'' @ h) = Return (if Sum256 (salt @ q) = Sum256 (salt @ p) then None else Some mismatch, [])"
proof (rule verify_computed [OF assms])
  fix salt assume v: "rand_Read (al_hash al) 32 = Inr salt"
    "\<And>q. verifySHA256 q h = (if Sum256 (salt @ q) = Sum256 (salt @ p) then None else Some mismatch)"
  have "SplitN 2 (DefaultHash @ '':'' @ h) CHR '':'' = [''sha256'', h]"
    using cut_at_colon [of "''sha256''" h] by (simp add: DefaultHash_def numeral_2_eq_2)
  then have "check_hash al a u key q (DefaultHash @ '':'' @ h) = Return (if Sum256 (salt @ q) = Sum256 (salt @ p) then None else Some mismatch, [])" for q
    using v(2) [of q] by (simp add: check_hash_def HashVerify_def DefaultHash_def)
  with v(1) show ?thesis by (rule that)
qed

lemma put_user_steps:
  assumes "put_user al a what u p st = (st', e)"
  obtains "st' = st" "e \<noteq> None" | key h s e0 where "auth_key al u = (key, None)" "computeSHA256 (al_hash al) p = Inr h"
    "mt_SetKey (pa_table a) key (DefaultHash @ '':'' @ h) (as_table st) = (s, e0)" "st' = st\<lparr>as_table := s\<rparr>" "(e = None) = (e0 = None)"
proof -
  obtain key ek where k: "auth_key al u = (key, ek)" by fastforce
  show ?thesis
  proof (cases "mt_mutable (pa_table a) \<and> ek = None \<and> (\<exists>h. computeSHA256 (al_hash al) p = Inr h)")
    case True
    then obtain h where h: "computeSHA256 (al_hash al) p = Inr h" by blast
    obtain s e0 where s: "mt_SetKey (pa_table a) key (DefaultHash @ '':'' @ h) (as_table st) = (s, e0)" by fastforce
    with assms True k h have "st' = st\<lparr>as_table := s\<rparr>" "(e = None) = (e0 = None)" by (auto simp: put_user_def put_hash_def split: option.splits)
    with True k h s show ?thesis by (intro that(2)) simp_all
  next
    case False
    with assms k have "st' = st" "e \<noteq> None" by (auto simp: put_user_def put_hash_def split: if_splits option.splits sum.splits)
    then show ?thesis by (rule that(1))
  qed
qed

text \<open>What the contract of the table gives for the credentials.\<close>

context mutable_table
begin

lemma login_after_set:
  assumes "pa_table a = T" "put_user al a what u p st = (st', None)" "auth_key al u = (key, None)" "snd (snd (mt_Lookup T key (as_table st'))) = None"
  shows "\<exists>salt. rand_Read (al_hash al) 32 = Inr salt \<and>
    (\<forall>q. pt_AuthPlain al a u q st' = Return (st', if Sum256 (salt @ q) = Sum256 (salt @ p) then None else Some mismatch, []))"
proof (rule put_user_steps [OF assms(2)])
  fix key' h s e0
  assume s: "auth_key al u = (key', None)" "computeSHA256 (al_hash al) p = Inr h" "mt_SetKey (pa_table a) key' (DefaultHash @ '':'' @ h) (as_table st) = (s, e0)"
    "st' = st\<lparr>as_table := s\<rparr>" "(None = None) = (e0 = None)"
  have k: "key' = key" using s(1) assms(3) by simp
  have v: "view (as_table st') key = Some (DefaultHash @ '':'' @ h)" using set_ok [of key "DefaultHash @ '':'' @ h"] s assms(1) k by simp
  obtain v' ok where l: "mt_Lookup T key (as_table st') = (v', ok, None)" using assms(4) by (metis prod.collapse)
  from lookup_ok [OF l] v have l': "mt_Lookup T key (as_table st') = (DefaultHash @ '':'' @ h, True, None)" using l by (simp split: if_splits)
  show ?thesis
  proof (rule check_default [OF s(2), of a "NormalizeUsername u" key])
    fix salt assume c: "rand_Read (al_hash al) 32 = Inr salt"
      "\<And>q. check_hash al a (NormalizeUsername u) key q (DefaultHash @ '':'' @ h) = Return (if Sum256 (salt @ q) = Sum256 (salt @ p) then None else Some mismatch, [])"
    have "pt_AuthPlain al a u q st' = Return (st', if Sum256 (salt @ q) = Sum256 (salt @ p) then None else Some mismatch, [])" for q
      using assms(1,3) l' c(2) [of q] by (simp add: pt_AuthPlain_def Let_def auth_key_def)
    with c(1) show ?thesis by blast
  qed
qed simp

lemma login_adds:
  assumes "pa_table a = T" "pt_AuthPlain al a u p st = Return (st', e, jobs)" "auth_key al u = (key, None)" "snd (snd (mt_Lookup T key (as_table st))) = None"
  shows "as_settings st' = as_settings st \<and> (view (as_table st') = view (as_table st) \<or> view (as_table st) key = None \<and> (\<exists>h. view (as_table st') = (view (as_table st))(key \<mapsto> h)))"
proof -
  obtain v ok where l: "mt_Lookup T key (as_table st) = (v, ok, None)" using assms(4) by (metis prod.collapse)
  have k2: "auth_key al (NormalizeUsername u) = (key, None)" using assms(3) by (simp add: auth_key_def NormalizeUsername_idem)
  have put: "as_settings st' = as_settings st \<and> (view (as_table st') = view (as_table st) \<or> (\<exists>h. view (as_table st') = (view (as_table st))(key \<mapsto> h)))"
    if "CreateUserIfNotExists al a (NormalizeUsername u) p st = (st', e')" for e'
    using that unfolding CreateUserIfNotExists_def
  proof (rule put_user_steps)
    fix key' h s e0
    assume s: "auth_key al (NormalizeUsername u) = (key', None)" "mt_SetKey (pa_table a) key' (DefaultHash @ '':'' @ h) (as_table st) = (s, e0)" "st' = st\<lparr>as_table := s\<rparr>"
    with k2 assms(1) set_ok [of key "DefaultHash @ '':'' @ h" "as_table st" s] set_err [of key "DefaultHash @ '':'' @ h" "as_table st" s] show ?thesis
      by (cases e0) auto
  qed simp
  show ?thesis
  proof (cases ok)
    case True
    with assms l have "st' = st" by (auto simp: pt_AuthPlain_def Let_def auth_key_def)
    then show ?thesis by simp
  next
    case False
    then have n: "view (as_table st) key = None" using lookup_ok [OF l] by simp
    from assms(1-3) l False consider "st' = st" | e' where "CreateUserIfNotExists al a (NormalizeUsername u) p st = (st', e')"
      by (auto simp: pt_AuthPlain_def Let_def auth_key_def split: sum.splits bool.splits if_splits prod.splits option.splits)
    then show ?thesis using put n by cases auto
  qed
qed

end

section \<open>Properties\<close>

text \<open>C21. A password that was set is the one that logs in, as long as the lookup of the account in the table does not fail with an error of the database (what
  happens otherwise is \<open>failed_lookup_takes_over\<close>): after \<open>SetUserPassword\<close> the login with a password is accepted exactly when its salted digest is
  the one of the password that was set, it changes nothing, and no re-hashing is started.\<close>

theorem password_roundtrip:
  assumes "pa_table a = sql_mtable q" "SetUserPassword al a u p st = (st', None)" "auth_key al u = (key, None)" "\<not> sq_flt q ''lookup'' key"
  shows "\<exists>salt. rand_Read (al_hash al) 32 = Inr salt \<and>
    (\<forall>p'. pt_AuthPlain al a u p' st' = Return (st', if Sum256 (salt @ p') = Sum256 (salt @ p) then None else Some mismatch, []))"
proof -
  have "snd (snd (mt_Lookup (sql_mtable q) key (as_table st'))) = None" using assms(4) by (simp add: sql_mtable_def SQL_Lookup_def split: option.splits)
  from sqlt.login_after_set [OF assms(1,2) [unfolded SetUserPassword_def] assms(3) this] show ?thesis .
qed

text \<open>As long as the table can be read, a login changes no existing account: it leaves the settings and all accounts alone, or adds the one account that was missing.\<close>

theorem login_creates_only:
  assumes "pa_table a = sql_mtable q" "pt_AuthPlain al a u p st = Return (st', e, jobs)" "auth_key al u = (key, None)" "\<not> sq_flt q ''lookup'' key"
  shows "as_settings st' = as_settings st \<and> (map_of (as_table st') = map_of (as_table st) \<or>
    map_of (as_table st) key = None \<and> (\<exists>h. map_of (as_table st') = (map_of (as_table st))(key \<mapsto> h)))"
proof -
  have "snd (snd (mt_Lookup (sql_mtable q) key (as_table st))) = None" using assms(4) by (simp add: sql_mtable_def SQL_Lookup_def split: option.splits)
  from sqlt.login_adds [OF assms(1-3) this] show ?thesis .
qed

text \<open>An account with an old hash; the table may fail.\<close>

definition demo_hash :: hash_lib where
  "demo_hash = \<lparr>rand_Read = (\<lambda>n. Inr (replicate n CHR ''s'')), bcrypt_Generate = (\<lambda>p c. Inr (''bc'' @ p)),
     bcrypt_Compare = (\<lambda>h p. if h = ''bc'' @ p then None else Some mismatch), argon2_IDKey = (\<lambda>p s t m h k. Return p)\<rparr>"

definition demo_al :: auth_lib where
  "demo_al = \<lparr>al_text = sample_text, al_EqualFold = (\<lambda>a b. a = b), al_hash = demo_hash\<rparr>"

definition demo_queries :: "(string \<Rightarrow> string \<Rightarrow> bool) \<Rightarrow> sql_queries" where
  "demo_queries flt = \<lparr>sq_mod = ''table.sql_table'', sq_list = True, sq_del = True, sq_upsert = True, sq_set = True, sq_add = True, sq_flt = flt\<rparr>"

definition demo_auth :: "(string \<Rightarrow> string \<Rightarrow> bool) \<Rightarrow> rows pass_auth" where
  "demo_auth flt = \<lparr>pa_mod = ''auth.pass_table'', pa_table = sql_mtable (demo_queries flt), pa_settings = None, pa_autoCreate = True, pa_jitDomain = ''''\<rparr>"

definition demo_users :: "rows auth_state" where
  "demo_users = \<lparr>as_table = [(''a'', ''bcrypt:bcold'')], as_settings = []\<rparr>"

lemma demo_name: "NormalizeUsername ''a'' = ''a''" "auth_key demo_al ''a'' = (''a'', None)"
proof -
  show n: "NormalizeUsername ''a'' = ''a''"
    by (simp add: NormalizeUsername_def WrapIP_def TrimSet_def ParseIP_def parse_ipv4_def parse_ipv6_def ipv6_loop.simps Let_def)
  show "auth_key demo_al ''a'' = (''a'', None)" by (simp add: auth_key_def n demo_al_def sample_text_def)
qed

lemmas demo_auth_simps = demo_auth_def demo_queries_def sql_mtable_def SQL_SetKey_def SQL_Lookup_def SQL_RemoveKey_def demo_users_def demo_al_def demo_hash_def

lemma demo_set: "\<exists>h. SetUserPassword demo_al (demo_auth (\<lambda>_ _. False)) ''a'' ''p'' demo_users = (\<lparr>as_table = [(''a'', ''sha256:'' @ h)], as_settings = []\<rparr>, None)"
  unfolding SetUserPassword_def put_user_def demo_name
  by (simp add: put_hash_def computeSHA256_def demo_auth_simps DefaultHash_def)

theorem password_roundtrip_witness:
  "\<exists>st. SetUserPassword demo_al (demo_auth (\<lambda>_ _. False)) ''a'' ''p'' demo_users = (st, None) \<and> pt_AuthPlain demo_al (demo_auth (\<lambda>_ _. False)) ''a'' ''p'' st = Return (st, None, [])"
proof -
  obtain st where st: "SetUserPassword demo_al (demo_auth (\<lambda>_ _. False)) ''a'' ''p'' demo_users = (st, None)" using demo_set by blast
  have t: "pa_table (demo_auth (\<lambda>_ _. False)) = sql_mtable (demo_queries (\<lambda>_ _. False))" "\<not> sq_flt (demo_queries (\<lambda>_ _. False)) ''lookup'' ''a''"
    by (simp_all add: demo_auth_def demo_queries_def)
  from password_roundtrip [OF t(1) st demo_name(2) t(2)] st show ?thesis by auto
qed

lemma demo_login: "pt_AuthPlain demo_al (demo_auth flt) ''a'' ''old'' demo_users = Return (demo_users, None, [(''a'', ''old'')])" if "\<not> flt ''lookup'' ''a''"
  using that demo_name(2) unfolding pt_AuthPlain_def demo_name(1) Let_def auth_key_def
  by (simp add: demo_auth_simps check_hash_def SplitN.simps numeral_2_eq_2 HasPrefix_def HashVerify_def DefaultHash_def)

text \<open>C40. A failed lookup gives an account away. For every account, existing or not, every password and every state of the table: when the lookup of the account fails
  with an error of the database, accounts are made on login, the domain of the name is valid for that, and the upsert of the row works, then the login is accepted
  and the password of the login replaces the one of the account: once the database answers again, exactly the passwords with the same salted digest log in. Other accounts
  are not changed.\<close>

theorem failed_lookup_takes_over:
  assumes "pa_table a = sql_mtable q" "auth_key al u = (key, None)" "sq_flt q ''lookup'' key" "pt_IsJitRegistrationEnabled a st = Inr True"
    and "ValidateLoginDomain al (NormalizeUsername u) (pa_jitDomain a) = None" "sq_upsert q" "\<not> sq_flt q ''upsert'' key" "rand_Read (al_hash al) 32 = Inr salt"
    and "pa_table a' = sql_mtable q'" "\<not> sq_flt q' ''lookup'' key"
  shows "\<exists>st' h. pt_AuthPlain al a u p st = Return (st', None, []) \<and> map_of (as_table st') = (map_of (as_table st))(key \<mapsto> ''sha256:'' @ h) \<and>
    (\<forall>p'. pt_AuthPlain al a' u p' st' = Return (st', if Sum256 (salt @ p') = Sum256 (salt @ p) then None else Some mismatch, []))"
proof -
  obtain h where h: "computeSHA256 (al_hash al) p = Inr h" using assms(8) by (simp add: computeSHA256_def)
  let ?st = "st\<lparr>as_table := AList.update key (DefaultHash @ '':'' @ h) (as_table st)\<rparr>"
  have k: "precis_CaseMapped (al_text al) (NormalizeUsername u) = (key, None)" using assms(2) by (simp add: auth_key_def)
  have "CreateUserIfNotExists al a (NormalizeUsername u) p st = (?st, None)"
    using assms(1,6,7) k h by (simp add: CreateUserIfNotExists_def put_user_def put_hash_def auth_key_def NormalizeUsername_idem sql_mtable_def SQL_SetKey_def)
  then have "pt_AuthPlain al a u p st = Return (?st, None, [])"
    using assms(1,3-5) k by (simp add: pt_AuthPlain_def Let_def sql_mtable_def SQL_Lookup_def)
  moreover have "pt_AuthPlain al a' u p' ?st = Return (?st, if Sum256 (salt @ p') = Sum256 (salt @ p) then None else Some mismatch, [])" for p'
  proof (rule check_default [OF h, of a' "NormalizeUsername u" key])
    fix salt' assume "rand_Read (al_hash al) 32 = Inr salt'"
      "\<And>q. check_hash al a' (NormalizeUsername u) key q (DefaultHash @ '':'' @ h) = Return (if Sum256 (salt' @ q) = Sum256 (salt' @ p) then None else Some mismatch, [])"
    with assms(8-10) k show ?thesis by (simp add: pt_AuthPlain_def Let_def sql_mtable_def SQL_Lookup_def update_conv')
  qed
  ultimately show ?thesis by (intro exI [of _ ?st] exI [of _ h]) (simp add: update_conv' DefaultHash_def)
qed

text \<open>The account of the example has an old password; the table fails once.\<close>

theorem failed_lookup_takes_over_witness:
  "\<exists>st. pt_AuthPlain demo_al (demo_auth (\<lambda>op k. op = ''lookup'' \<and> k = ''a'')) ''a'' ''evil'' demo_users = Return (st, None, []) \<and>
     map_of (as_table demo_users) ''a'' = Some ''bcrypt:bcold'' \<and> pt_AuthPlain demo_al (demo_auth (\<lambda>_ _. False)) ''a'' ''evil'' st = Return (st, None, [])"
proof -
  let ?flt = "\<lambda>op k. op = ''lookup'' \<and> k = ''a''"
  have j: "pt_IsJitRegistrationEnabled (demo_auth ?flt) demo_users = Inr True"
    by (simp add: pt_IsJitRegistrationEnabled_def pt_IsRegistrationOpen_def switch_def settings_Lookup_def demo_auth_simps)
  have v: "ValidateLoginDomain demo_al (NormalizeUsername ''a'') (pa_jitDomain (demo_auth ?flt)) = None"
    by (simp add: ValidateLoginDomain_def demo_auth_def)
  have t: "pa_table (demo_auth flt) = sql_mtable (demo_queries flt)" for flt by (simp add: demo_auth_def)
  have q: "sq_flt (demo_queries ?flt) ''lookup'' ''a''" "sq_upsert (demo_queries ?flt)" "\<not> sq_flt (demo_queries ?flt) ''upsert'' ''a''"
    "\<not> sq_flt (demo_queries (\<lambda>_ _. False)) ''lookup'' ''a''" by (simp_all add: demo_queries_def)
  have r: "rand_Read (al_hash demo_al) 32 = Inr (replicate 32 CHR ''s'')" by (simp add: demo_al_def demo_hash_def)
  from failed_lookup_takes_over [OF t demo_name(2) q(1) j v q(2,3) r t q(4), of "''evil''"]
  obtain st where "pt_AuthPlain demo_al (demo_auth ?flt) ''a'' ''evil'' demo_users = Return (st, None, [])"
    "\<And>p'. pt_AuthPlain demo_al (demo_auth (\<lambda>_ _. False)) ''a'' p' st =
       Return (st, if Sum256 (replicate 32 CHR ''s'' @ p') = Sum256 (replicate 32 CHR ''s'' @ ''evil'') then None else Some mismatch, [])"
    by blast
  then show ?thesis by (auto simp: demo_users_def)
qed

text \<open>An account that is deleted while the goroutine of its last login has not run yet is made again by this goroutine.\<close>

theorem deleted_account_returns:
  "\<exists>job st h. pt_AuthPlain demo_al (demo_auth (\<lambda>_ _. False)) ''a'' ''old'' demo_users = Return (demo_users, None, [job]) \<and>
     pt_DeleteUser demo_al (demo_auth (\<lambda>_ _. False)) ''a'' demo_users = (st, None) \<and> map_of (as_table st) ''a'' = None \<and>
     map_of (as_table (run_job demo_al (demo_auth (\<lambda>_ _. False)) job st)) ''a'' = Some (''sha256:'' @ h)"
proof -
  let ?st = "\<lparr>as_table = [], as_settings = []\<rparr> :: rows auth_state"
  have l: "pt_AuthPlain demo_al (demo_auth (\<lambda>_ _. False)) ''a'' ''old'' demo_users = Return (demo_users, None, [(''a'', ''old'')])" by (rule demo_login) simp
  have d: "pt_DeleteUser demo_al (demo_auth (\<lambda>_ _. False)) ''a'' demo_users = (?st, None)"
    unfolding pt_DeleteUser_def demo_name by (simp add: demo_auth_simps)
  obtain h where h: "computeSHA256 (al_hash demo_al) ''old'' = Inr h" by (simp add: computeSHA256_def demo_al_def demo_hash_def)
  have "run_job demo_al (demo_auth (\<lambda>_ _. False)) (''a'', ''old'') ?st = \<lparr>as_table = [(''a'', ''sha256:'' @ h)], as_settings = []\<rparr>"
    unfolding run_job_def SetUserPassword_def put_user_def fst_conv snd_conv demo_name by (simp add: put_hash_def h) (simp add: demo_auth_simps DefaultHash_def)
  with l d show ?thesis by (intro exI [of _ "(''a'', ''old'')"] exI [of _ ?st] exI [of _ h]) simp
qed

text \<open>A setting is read back, other settings keep their values, and the switches follow.\<close>

theorem setting_roundtrip:
  assumes "pa_settings a = Some (sql_mtable q)" "SetSetting a k v st = (st', None)" "\<And>k'. \<not> sq_flt q ''lookup'' k'"
  shows "GetSetting a k st' = (v, True, None) \<and> as_table st' = as_table st \<and> (k' \<noteq> k \<longrightarrow> GetSetting a k' st' = GetSetting a k' st)"
proof -
  from assms(1,2) obtain s where s: "mt_SetKey (sql_mtable q) k v (as_settings st) = (s, None)" "st' = st\<lparr>as_settings := s\<rparr>"
    by (auto simp: SetSetting_def settings_update_def sql_mtable_def split: prod.splits)
  from sqlt.set_ok [OF s(1)] s(2) assms(1,3) show ?thesis by (simp add: GetSetting_def settings_Lookup_def sql_mtable_def SQL_Lookup_def)
qed

theorem switch_roundtrip:
  assumes "pa_settings a = Some (sql_mtable q)" "\<And>k'. \<not> sq_flt q ''lookup'' k'"
  shows "SetRegistrationOpen a b st = (st', None) \<Longrightarrow> pt_IsRegistrationOpen a st' = Inr b"
    and "SetTurnEnabled a b st = (st', None) \<Longrightarrow> pt_IsTurnEnabled a st' = Inr b"
    and "SetJitRegistrationEnabled a b st = (st', None) \<Longrightarrow> pt_IsJitRegistrationEnabled a st' = Inr b"
    and "SetLoggingDisabled a debug b st = (st', off, None) \<Longrightarrow> IsLoggingDisabled a st' = Inr b \<and> off = (b \<and> \<not> debug)"
proof -
  have sw: "switch a k u st' = Inr b" if "set_switch a k b st = (st', None)" for k u
    using setting_roundtrip [OF assms(1) that [unfolded set_switch_def] assms(2), of k]
    by (cases b) (auto simp: GetSetting_def switch_def split: prod.splits option.splits if_splits)
  show "SetRegistrationOpen a b st = (st', None) \<Longrightarrow> pt_IsRegistrationOpen a st' = Inr b"
    "SetTurnEnabled a b st = (st', None) \<Longrightarrow> pt_IsTurnEnabled a st' = Inr b"
    "SetJitRegistrationEnabled a b st = (st', None) \<Longrightarrow> pt_IsJitRegistrationEnabled a st' = Inr b"
    by (simp_all add: SetRegistrationOpen_def SetTurnEnabled_def SetJitRegistrationEnabled_def pt_IsRegistrationOpen_def pt_IsTurnEnabled_def pt_IsJitRegistrationEnabled_def sw)
  show "SetLoggingDisabled a debug b st = (st', off, None) \<Longrightarrow> IsLoggingDisabled a st' = Inr b \<and> off = (b \<and> \<not> debug)"
    using sw by (auto simp: SetLoggingDisabled_def IsLoggingDisabled_def split: if_splits prod.splits)
qed

text \<open>An account that was deleted is not found and, where accounts are not made on login, cannot log in.\<close>

theorem deleted_account_refused:
  assumes "pa_table a = sql_mtable q" "pt_DeleteUser al a u st = (st', None)" "auth_key al u = (key, None)" "\<not> sq_flt q ''lookup'' key" "pt_IsJitRegistrationEnabled a st' = Inr False"
  shows "pt_Lookup al a u st' = ('''', False, None) \<and> pt_AuthPlain al a u p st' = Return (st', Some ErrUnknownCredentials, [])"
proof -
  from assms(1-3) obtain s where s: "mt_RemoveKey (sql_mtable q) key (as_table st) = (s, None)" "st' = st\<lparr>as_table := s\<rparr>"
    by (auto simp: pt_DeleteUser_def split: if_splits prod.splits option.splits)
  from sqlt.remove_ok [OF s(1)] have "map_of s key = None" by simp
  with s(2) assms show ?thesis by (simp add: pt_Lookup_def pt_AuthPlain_def sql_mtable_def SQL_Lookup_def auth_key_def Let_def)
qed

end
