(* ===== verification/Sasl_Auth.thy ===== *)
theory Sasl_Auth
  imports Pass_Table Limits
begin

text \<open>
  Authentication of a connection: \<^verbatim>\<open>internal/auth/sasl.go\<close>, the LOGIN mechanism (\<^verbatim>\<open>internal/auth/sasllogin\<close>), and the providers
  \<^verbatim>\<open>plain_separate\<close>, \<^verbatim>\<open>external\<close>, \<^verbatim>\<open>pam\<close>, \<^verbatim>\<open>shadow\<close> and \<^verbatim>\<open>netauth\<close> of \<^verbatim>\<open>internal/auth\<close>, next to the credential table of \<open>Pass_Table\<close>.

  A provider is a record of its methods over a state \<open>'s\<close> of its own; \<open>pr_userdb\<close> is present when it also implements \<open>PlainUserDB\<close>. The callback that the
  endpoint passes is a function of the identity, the username and the password; the authenticators return the arguments of its call. Helper programs, libpam, crypt and the
  NetAuth client are arguments.
\<close>

record 's provider =
  pr_AuthPlain :: "string \<Rightarrow> string \<Rightarrow> 's \<Rightarrow> ('s \<times> goerr option) outcome"
  pr_userdb :: "(('s \<Rightarrow> goerr + bool) \<times> ('s \<Rightarrow> goerr + bool)) option"

section \<open>Mechanisms (sasl.go)\<close>

type_synonym normalize = "string \<Rightarrow> string \<times> goerr option"

record 's sasl_auth =
  sa_EnableLogin :: bool
  sa_AuthMap :: "table option"
  sa_AuthNormalize :: "normalize option"
  sa_Plain :: "'s provider list"

definition ErrUnsupportedMech :: goerr where
  "ErrUnsupportedMech = errors_New ''Unsupported SASL mechanism''"

definition ErrInvalidAuthCred :: goerr where
  "ErrInvalidAuthCred = errors_New ''auth: invalid credentials''"

definition SASLMechanisms :: "'s sasl_auth \<Rightarrow> string list" where
  "SASLMechanisms s = (if sa_Plain s \<noteq> [] then ''PLAIN'' # (if sa_EnableLogin s then [''LOGIN''] else []) else [])"

definition usernameForAuth :: "'s sasl_auth \<Rightarrow> string \<Rightarrow> goerr + string" where
  "usernameForAuth s saslUsername =
     ebind (case sa_AuthNormalize s of
              None \<Rightarrow> Inr saslUsername
            | Some norm \<Rightarrow> (case norm saslUsername of (_, Some e) \<Rightarrow> Inl e | (u, None) \<Rightarrow> Inr u)) (\<lambda>u.
       case sa_AuthMap s of
         None \<Rightarrow> Inr u
       | Some t \<Rightarrow> (case tb_Lookup t u of (_, _, Some e) \<Rightarrow> Inl e | (mapped, ok, None) \<Rightarrow> if ok then Inr mapped else Inl ErrInvalidAuthCred))"

text \<open>The loop over the providers; \<open>lastErr\<close> is never nil when it ends.\<close>

fun auth_loop :: "'s sasl_auth \<Rightarrow> string \<Rightarrow> string \<Rightarrow> 's provider list \<Rightarrow> goerr option \<Rightarrow> 's \<Rightarrow> ('s \<times> goerr option) outcome" where
  "auth_loop s username password [] lastErr w =
     Return (w, Some (case lastErr of None \<Rightarrow> errors_New ''no auth. provider accepted creds, last err: %!w(<nil>)''
                                    | Some e \<Rightarrow> Wrapf ''no auth. provider accepted creds, last err: '' e))"
| "auth_loop s username password (p # ps) lastErr w =
     (case usernameForAuth s username of
        Inl e \<Rightarrow> Return (w, Some e)
      | Inr mappedUsername \<Rightarrow>
          obind (pr_AuthPlain p mappedUsername password w) (\<lambda>(w, e).
            if e = None then Return (w, None) else auth_loop s username password ps e w))"

definition sasl_AuthPlain :: "'s sasl_auth \<Rightarrow> string \<Rightarrow> string \<Rightarrow> 's \<Rightarrow> ('s \<times> goerr option) outcome" where
  "sasl_AuthPlain s username password w =
     (if sa_Plain s = [] then Return (w, Some ErrUnsupportedMech) else auth_loop s username password (sa_Plain s) None w)"

text \<open>The authenticators: the new state, the error, and the call of the callback (identity, username, password).\<close>

type_synonym cb_call = "string \<times> string \<times> string"
type_synonym success_cb = "string \<Rightarrow> string \<Rightarrow> string \<Rightarrow> goerr option"

definition plain_authenticate ::
    "'s sasl_auth \<Rightarrow> success_cb \<Rightarrow> string \<Rightarrow> string \<Rightarrow> string \<Rightarrow> 's \<Rightarrow> ('s \<times> goerr option \<times> cb_call option) outcome" where
  "plain_authenticate s successCb identity username password w =
     (let identity = (if identity = '''' then username else identity) in
      if identity \<noteq> username then Return (w, Some ErrInvalidAuthCred, None)
      else obind (sasl_AuthPlain s username password w) (\<lambda>(w, err).
        if err \<noteq> None then Return (w, Some ErrInvalidAuthCred, None)
        else Return (w, successCb identity username password, Some (identity, username, password))))"

definition login_authenticate ::
    "'s sasl_auth \<Rightarrow> success_cb \<Rightarrow> string \<Rightarrow> string \<Rightarrow> 's \<Rightarrow> ('s \<times> goerr option \<times> cb_call option) outcome" where
  "login_authenticate s successCb username password w =
     (case usernameForAuth s username of
        Inl e \<Rightarrow> Return (w, Some e, None)
      | Inr username \<Rightarrow>
          obind (sasl_AuthPlain s username password w) (\<lambda>(w, err).
            if err \<noteq> None then Return (w, Some ErrInvalidAuthCred, None)
            else Return (w, successCb username username password, Some (username, username, password))))"

section \<open>The LOGIN dialog (sasllogin.go)\<close>

text \<open>The states are numbers in the code and are increased after every response; \<open>LoginDone\<close> stands for all numbers above the last constant.\<close>

datatype login_state = loginNotStarted | loginWaitingUsername | loginWaitingPassword | LoginDone

fun login_next_state :: "login_state \<Rightarrow> login_state" where
  "login_next_state loginNotStarted = loginWaitingUsername"
| "login_next_state loginWaitingUsername = loginWaitingPassword"
| "login_next_state loginWaitingPassword = LoginDone"
| "login_next_state LoginDone = LoginDone"

record login_server =
  ls_state :: login_state
  ls_username :: string
  ls_password :: string

definition NewLoginServer :: login_server where
  "NewLoginServer = \<lparr>ls_state = loginNotStarted, ls_username = '''', ls_password = ''''\<rparr>"

text \<open>The answer to a response: challenge, end of the dialog and error, or the call of \<open>authenticate\<close>, whose error is the one that is returned. A response that is absent
  is the empty string when it is read.\<close>

datatype login_answer = Challenge string | Authenticate string string | Unexpected

definition resp_text :: "string option \<Rightarrow> string" where
  "resp_text r = (case r of None \<Rightarrow> '''' | Some s \<Rightarrow> s)"

definition login_Next :: "string option \<Rightarrow> login_server \<Rightarrow> login_server \<times> login_answer" where
  "login_Next response a =
     (let ask = (\<lambda>a. (a\<lparr>ls_username := resp_text response, ls_state := login_next_state (ls_state a)\<rparr>, Challenge ''Password:'')) in
      case ls_state a of
        loginNotStarted \<Rightarrow>
          if response = None then (a\<lparr>ls_state := loginWaitingUsername\<rparr>, Challenge ''Username:'')
          else ask (a\<lparr>ls_state := loginWaitingUsername\<rparr>)
      | loginWaitingUsername \<Rightarrow> ask a
      | loginWaitingPassword \<Rightarrow>
          (a\<lparr>ls_password := resp_text response, ls_state := LoginDone\<rparr>, Authenticate (ls_username a) (resp_text response))
      | LoginDone \<Rightarrow> (a, Unexpected))"

fun login_run :: "string option list \<Rightarrow> login_server \<Rightarrow> login_answer list" where
  "login_run [] a = []"
| "login_run (r # rs) a = (case login_Next r a of (a, ans) \<Rightarrow> ans # login_run rs a)"

datatype sasl_server = PlainServer | LoginServer login_server | FailingSASLServ goerr

definition CreateSASL :: "'s sasl_auth \<Rightarrow> string \<Rightarrow> sasl_server" where
  "CreateSASL s mech =
     (if mech = ''PLAIN'' then PlainServer
      else if mech = ''LOGIN'' \<and> sa_EnableLogin s then LoginServer NewLoginServer
      else FailingSASLServ ErrUnsupportedMech)"

fun first_answer :: "(('s \<Rightarrow> goerr + bool) \<times> ('s \<Rightarrow> goerr + bool) \<Rightarrow> 's \<Rightarrow> goerr + bool) \<Rightarrow> bool \<Rightarrow> 's provider list \<Rightarrow> 's \<Rightarrow> bool" where
  "first_answer sel dflt [] w = dflt"
| "first_answer sel dflt (p # ps) w =
     (case pr_userdb p of
        None \<Rightarrow> first_answer sel dflt ps w
      | Some db \<Rightarrow> (case sel db w of Inr b \<Rightarrow> b | Inl _ \<Rightarrow> first_answer sel dflt ps w))"

definition sasl_IsTurnEnabled :: "'s sasl_auth \<Rightarrow> 's \<Rightarrow> bool" where
  "sasl_IsTurnEnabled s = first_answer fst True (sa_Plain s)"

definition sasl_IsRegistrationOpen :: "'s sasl_auth \<Rightarrow> 's \<Rightarrow> bool" where
  "sasl_IsRegistrationOpen s = first_answer snd False (sa_Plain s)"

section \<open>Users and passwords from different modules (plain_separate.go)\<close>

record 's plain_separate =
  ps_userTbls :: "table list"
  ps_passwd :: "'s provider list"

fun user_listed :: "table list \<Rightarrow> string \<Rightarrow> goerr + bool" where
  "user_listed [] username = Inr False"
| "user_listed (t # ts) username =
     (case tb_Lookup t username of (_, _, Some e) \<Rightarrow> Inl e | (_, ok, None) \<Rightarrow> if ok then Inr True else user_listed ts username)"

definition sep_Lookup :: "'s plain_separate \<Rightarrow> string \<Rightarrow> string \<times> bool \<times> goerr option" where
  "sep_Lookup a username =
     (if ps_userTbls a = [] then ('''', True, None)
      else case user_listed (ps_userTbls a) username of
        Inl e \<Rightarrow> ('''', False, Some (Wrapf ''plain_separate: underlying table error: '' e))
      | Inr ok \<Rightarrow> ('''', ok, None))"

fun passwd_loop :: "'s provider list \<Rightarrow> string \<Rightarrow> string \<Rightarrow> goerr option \<Rightarrow> 's \<Rightarrow> ('s \<times> goerr option) outcome" where
  "passwd_loop [] username password lastErr w = Return (w, lastErr)"
| "passwd_loop (p # ps) username password lastErr w =
     obind (pr_AuthPlain p username password w) (\<lambda>(w, e). if e = None then Return (w, None) else passwd_loop ps username password e w)"

definition sep_AuthPlain :: "'s plain_separate \<Rightarrow> string \<Rightarrow> string \<Rightarrow> 's \<Rightarrow> ('s \<times> goerr option) outcome" where
  "sep_AuthPlain a username password w =
     (case if ps_userTbls a = [] then Inr True else user_listed (ps_userTbls a) username of
        Inl e \<Rightarrow> Return (w, Some e)
      | Inr ok \<Rightarrow> if \<not> ok then Return (w, Some (errors_New ''user not found in tables'')) else passwd_loop (ps_passwd a) username password None w)"

section \<open>External programs and libraries (auth.go, external, pam, netauth)\<close>

definition CheckDomainAuth :: "auth_lib \<Rightarrow> string \<Rightarrow> bool \<Rightarrow> string list option \<Rightarrow> string \<times> bool" where
  "CheckDomainAuth al username perDomain allowedDomains =
     (let parts = SplitByte username CHR ''@'' in
      if perDomain \<and> length parts \<noteq> 2 then ('''', False)
      else
        let domain = (if length parts = 2 then parts ! 1 else '''');
            accountName = (if perDomain then username else parts ! 0);
            listed = (case allowedDomains of None \<Rightarrow> False | Some ds \<Rightarrow> list_ex (al_EqualFold al domain) ds);
            allowed = (domain = '''' \<or> listed)
        in if allowedDomains \<noteq> None \<and> \<not> allowed then ('''', False) else (accountName, allowed))"

text \<open>How a helper program ends.\<close>

datatype helper_end = HelperOk | HelperExit int goerr | HelperStdin goerr | HelperStart goerr | HelperWrite goerr | HelperWait goerr

definition AuthUsingHelper :: "(string \<Rightarrow> string \<Rightarrow> string \<Rightarrow> helper_end) \<Rightarrow> string \<Rightarrow> string \<Rightarrow> string \<Rightarrow> goerr option" where
  "AuthUsingHelper run binaryPath accountName password =
     (case run binaryPath (accountName @ [CHR 0x0A]) (password @ [CHR 0x0A]) of
        HelperOk \<Rightarrow> None
      | HelperExit c e \<Rightarrow> if c \<noteq> 1 then Some (Wrapf ''helperauth: '' e) else Some ErrUnknownCredentials
      | HelperStdin e \<Rightarrow> Some (Wrapf ''helperauth: stdin init: '' e)
      | HelperStart e \<Rightarrow> Some (Wrapf ''helperauth: process start: '' e)
      | HelperWrite e \<Rightarrow> Some (Wrapf ''helperauth: stdin write: '' e)
      | HelperWait e \<Rightarrow> Some (Wrapf ''helperauth: process wait: '' e))"

record external_auth =
  ea_helperPath :: string
  ea_perDomain :: bool
  ea_domains :: "string list option"

definition external_AuthPlain :: "auth_lib \<Rightarrow> (string \<Rightarrow> string \<Rightarrow> string \<Rightarrow> helper_end) \<Rightarrow> external_auth \<Rightarrow> string \<Rightarrow> string \<Rightarrow> goerr option" where
  "external_AuthPlain al run ea username password =
     (case CheckDomainAuth al username (ea_perDomain ea) (ea_domains ea) of
        (accountName, ok) \<Rightarrow> if \<not> ok then Some ErrUnknownCredentials else AuthUsingHelper run (ea_helperPath ea) accountName password)"

text \<open>After the helper has accepted, libpam is called as well; a build without libpam has \<open>pam_stub\<close>.\<close>

definition pam_stub :: "string \<Rightarrow> string \<Rightarrow> goerr option" where
  "pam_stub username password = Some (errors_New ''pam: Can't call libpam directly'')"

definition pam_AuthPlain ::
    "(string \<Rightarrow> string \<Rightarrow> string \<Rightarrow> helper_end) \<Rightarrow> (string \<Rightarrow> string \<Rightarrow> goerr option) \<Rightarrow> string option \<Rightarrow> string \<Rightarrow> string \<Rightarrow> goerr option" where
  "pam_AuthPlain run runPAMAuth helper username password =
     (case case helper of None \<Rightarrow> None | Some path \<Rightarrow> AuthUsingHelper run path username password of
        Some e \<Rightarrow> Some e
      | None \<Rightarrow> runPAMAuth username password)"

record netauth_client =
  na_EntityInfo :: "string \<Rightarrow> goerr + string"
  na_AuthEntity :: "string \<Rightarrow> string \<Rightarrow> goerr option"
  na_EntityGroups :: "string \<Rightarrow> goerr + string list"

definition checkMustGroup :: "netauth_client \<Rightarrow> string \<Rightarrow> string \<Rightarrow> goerr option" where
  "checkMustGroup nacl mustGroup username =
     (case na_EntityGroups nacl username of
        Inl e \<Rightarrow> Some (Wrapf ''auth.netauth: groups: '' e)
      | Inr gs \<Rightarrow> if mustGroup \<in> set gs then None
                  else Some (errors_New (''auth.netauth: missing required group ('' @ username @ '' not in '' @ mustGroup @ '')'')))"

definition netauth_Lookup :: "netauth_client \<Rightarrow> string \<Rightarrow> string \<Rightarrow> string \<times> bool \<times> goerr option" where
  "netauth_Lookup nacl mustGroup username =
     (case na_EntityInfo nacl username of
        Inl e \<Rightarrow> ('''', False, Some (Wrapf ''auth.netauth: search: '' e))
      | Inr i \<Rightarrow> (case if mustGroup \<noteq> '''' then checkMustGroup nacl mustGroup username else None of
                    Some e \<Rightarrow> ('''', False, Some e) | None \<Rightarrow> (i, True, None)))"

definition netauth_AuthPlain :: "netauth_client \<Rightarrow> string \<Rightarrow> string \<Rightarrow> string \<Rightarrow> goerr option" where
  "netauth_AuthPlain nacl mustGroup username password =
     (if na_AuthEntity nacl username password \<noteq> None then Some ErrUnknownCredentials
      else if mustGroup \<noteq> '''' then checkMustGroup nacl mustGroup username else None)"

section \<open>Shadow passwords (shadow)\<close>

record shadow_entry =
  sh_Name :: string
  sh_Pass :: string
  sh_LastChange :: int
  sh_MinPassAge :: int
  sh_MaxPassAge :: int
  sh_WarnPeriod :: int
  sh_InactivityPeriod :: int
  sh_AcctExpiry :: int
  sh_Flags :: int

definition ErrNoSuchUser :: goerr where
  "ErrNoSuchUser = errors_New ''shadow: user entry is not present in database''"

definition ErrWrongPassword :: goerr where
  "ErrWrongPassword = errors_New ''shadow: wrong password''"

fun shadow_fields :: "nat \<Rightarrow> string list \<Rightarrow> goerr + int list" where
  "shadow_fields i [] = Inr []"
| "shadow_fields i (p # ps) =
     (case if p = '''' then Some (- 1) else Atoi p of
        None \<Rightarrow> Inl (errors_New (''read: invalid value for field '' @ nat_digits i))
      | Some v \<Rightarrow> ebind (shadow_fields (Suc i) ps) (\<lambda>vs. Inr (v # vs)))"

definition parseEntry :: "string \<Rightarrow> goerr + shadow_entry" where
  "parseEntry line =
     (let parts = SplitByte line CHR '':'' in
      if length parts \<noteq> 9 then Inl (errors_New ''read: malformed entry'')
      else ebind (shadow_fields 2 (drop 2 parts)) (\<lambda>v. Inr \<lparr>sh_Name = parts ! 0, sh_Pass = parts ! 1, sh_LastChange = v ! 0, sh_MinPassAge = v ! 1,
        sh_MaxPassAge = v ! 2, sh_WarnPeriod = v ! 3, sh_InactivityPeriod = v ! 4, sh_AcctExpiry = v ! 5, sh_Flags = v ! 6\<rparr>))"

fun shadow_entries :: "string list \<Rightarrow> shadow_entry list \<times> goerr option" where
  "shadow_entries [] = ([], None)"
| "shadow_entries (l # ls) =
     (case parseEntry l of
        Inl e \<Rightarrow> ([], Some e)
      | Inr ent \<Rightarrow> (case shadow_entries ls of (es, e) \<Rightarrow> (ent # es, e)))"

definition shadow_Read :: "goerr + string \<Rightarrow> shadow_entry list \<times> goerr option" where
  "shadow_Read file =
     (case file of
        Inl e \<Rightarrow> ([], Some e)
      | Inr text \<Rightarrow>
          (case scan_lines text of (ls, serr) \<Rightarrow>
             (case shadow_entries ls of (res, Some e) \<Rightarrow> (res, Some e) | (res, None) \<Rightarrow> (res, serr))))"

definition shadow_Lookup :: "goerr + string \<Rightarrow> string \<Rightarrow> goerr + shadow_entry" where
  "shadow_Lookup file name =
     (case shadow_Read file of
        (_, Some e) \<Rightarrow> Inl e
      | (entries, None) \<Rightarrow> (case find (\<lambda>e. sh_Name e = name) entries of None \<Rightarrow> Inl ErrNoSuchUser | Some e \<Rightarrow> Inr e))"

text \<open>Days since 1970, from seconds.\<close>

definition nowDays :: "int \<Rightarrow> int" where
  "nowDays unix = go_quot unix 86400"

definition IsAccountValid :: "int \<Rightarrow> shadow_entry \<Rightarrow> bool" where
  "IsAccountValid unix e \<longleftrightarrow> sh_AcctExpiry e = - 1 \<or> nowDays unix < sh_AcctExpiry e"

definition IsPasswordValid :: "int \<Rightarrow> shadow_entry \<Rightarrow> bool" where
  "IsPasswordValid unix e \<longleftrightarrow> sh_LastChange e = - 1 \<or> sh_MaxPassAge e = - 1 \<or> sh_InactivityPeriod e = - 1 \<or>
     nowDays unix < wrap64 (wrap64 (sh_LastChange e + sh_MaxPassAge e) + sh_InactivityPeriod e)"

text \<open>\<open>crypt.NewFromHash(h).Verify(h, pass)\<close>; a panic is recovered.\<close>

datatype crypt_result = KeyMatch | KeyMismatch | CryptError goerr | CryptPanic string

definition VerifyPassword :: "(string \<Rightarrow> string \<Rightarrow> crypt_result) \<Rightarrow> shadow_entry \<Rightarrow> string \<Rightarrow> goerr option" where
  "VerifyPassword crypt e pass =
     (if sh_Pass e = '''' then Some (errors_New ''verify: null password'')
      else if hd (sh_Pass e) = CHR ''!'' then Some (errors_New ''verify: locked password'')
      else case crypt (sh_Pass e) pass of
        KeyMatch \<Rightarrow> None | KeyMismatch \<Rightarrow> Some ErrWrongPassword | CryptError err \<Rightarrow> Some err | CryptPanic msg \<Rightarrow> Some (errors_New msg))"

definition shadow_table_Lookup :: "int \<Rightarrow> goerr + string \<Rightarrow> bool \<Rightarrow> string \<Rightarrow> string \<times> bool \<times> goerr option" where
  "shadow_table_Lookup unix file useHelper username =
     (if useHelper then ('''', False, Some (errors_New ''shadow: table lookup are not possible when using a helper''))
      else case shadow_Lookup file username of
        Inl e \<Rightarrow> if e = ErrNoSuchUser then ('''', False, None) else ('''', False, Some e)
      | Inr ent \<Rightarrow> ('''', IsAccountValid unix ent, None))"

definition shadow_AuthPlain ::
    "(string \<Rightarrow> string \<Rightarrow> crypt_result) \<Rightarrow> (string \<Rightarrow> string \<Rightarrow> string \<Rightarrow> helper_end) \<Rightarrow> int \<Rightarrow> goerr + string \<Rightarrow> string option \<Rightarrow> string \<Rightarrow> string \<Rightarrow> goerr option" where
  "shadow_AuthPlain crypt run unix file helper username password =
     (case helper of
        Some path \<Rightarrow> AuthUsingHelper run path username password
      | None \<Rightarrow>
          (case shadow_Lookup file username of
             Inl e \<Rightarrow> Some e
           | Inr ent \<Rightarrow>
               if \<not> IsAccountValid unix ent then Some (errors_New ''shadow: account is expired'')
               else if \<not> IsPasswordValid unix ent then Some (errors_New ''shadow: password is expired'')
               else (case VerifyPassword crypt ent password of
                       None \<Rightarrow> None
                     | Some e \<Rightarrow> if e = ErrWrongPassword then Some ErrUnknownCredentials else Some e)))"

section \<open>The modules as providers\<close>

text \<open>The state of a credential table: its contents and the goroutines that are to hash a password again.\<close>

definition pass_table_provider :: "auth_lib \<Rightarrow> 's pass_auth \<Rightarrow> ('s auth_state \<times> (string \<times> string) list) provider" where
  "pass_table_provider al a = \<lparr>
     pr_AuthPlain = (\<lambda>u p (st, jobs). obind (pt_AuthPlain al a u p st) (\<lambda>(st', e, js). Return ((st', jobs @ js), e))),
     pr_userdb = Some (pt_IsTurnEnabled a \<circ> fst, pt_IsRegistrationOpen a \<circ> fst)\<rparr>"

definition plain_separate_provider :: "'s plain_separate \<Rightarrow> 's provider" where
  "plain_separate_provider a = \<lparr>pr_AuthPlain = sep_AuthPlain a, pr_userdb = None\<rparr>"

definition pure_provider :: "(string \<Rightarrow> string \<Rightarrow> goerr option) \<Rightarrow> 's provider" where
  "pure_provider f = \<lparr>pr_AuthPlain = (\<lambda>u p w. Return (w, f u p)), pr_userdb = None\<rparr>"

section \<open>Lemmas\<close>

lemma auth_loop_accepted:
  assumes "auth_loop s u p ps le w = Return (w', None)"
  shows "\<exists>m pr w1. usernameForAuth s u = Inr m \<and> pr \<in> set ps \<and> pr_AuthPlain pr m p w1 = Return (w', None)"
  using assms
proof (induction ps arbitrary: le w)
  case (Cons pr ps)
  then obtain m where m: "usernameForAuth s u = Inr m" by (auto split: sum.splits)
  with Cons.prems obtain w1 e where a: "pr_AuthPlain pr m p w = Return (w1, e)" by auto
  show ?case
  proof (cases e)
    case None
    with m a Cons.prems show ?thesis by auto
  next
    case (Some err)
    with m a Cons.prems have "auth_loop s u p ps e w1 = Return (w', None)" by simp
    from Cons.IH [OF this] show ?thesis by auto
  qed
qed simp

lemma sasl_AuthPlain_accepted:
  "sasl_AuthPlain s u p w = Return (w', None) \<Longrightarrow> \<exists>m pr w1. usernameForAuth s u = Inr m \<and> pr \<in> set (sa_Plain s) \<and> pr_AuthPlain pr m p w1 = Return (w', None)"
  using auth_loop_accepted [of s u p "sa_Plain s" None w w'] by (auto simp: sasl_AuthPlain_def split: if_splits)

lemma plain_call:
  assumes "plain_authenticate s cb i u p w = Return (w', e, Some call)"
  shows "call = (u, u, p) \<and> (i = '''' \<or> i = u) \<and> e = cb u u p \<and> sasl_AuthPlain s u p w = Return (w', None)"
  using assms by (auto simp: plain_authenticate_def Let_def split: if_splits)

lemma login_call:
  assumes "login_authenticate s cb u p w = Return (w', e, Some call)"
  shows "\<exists>m. usernameForAuth s u = Inr m \<and> call = (m, m, p) \<and> e = cb m m p \<and> sasl_AuthPlain s m p w = Return (w', None)"
  using assms by (auto simp: login_authenticate_def split: if_splits sum.splits)

text \<open>What the endpoints rely on: every provider accepts valid credentials only. Then the callback runs for valid credentials only, with either mechanism.\<close>

locale sound_providers =
  fixes s :: "'s sasl_auth" and valid :: "string \<Rightarrow> string \<Rightarrow> 's \<Rightarrow> bool"
  assumes provider_sound: "pr \<in> set (sa_Plain s) \<Longrightarrow> pr_AuthPlain pr u p w = Return (w', None) \<Longrightarrow> valid u p w"
begin

lemma accepted_valid: "sasl_AuthPlain s u p w = Return (w', None) \<Longrightarrow> \<exists>m w1. usernameForAuth s u = Inr m \<and> valid m p w1"
  using sasl_AuthPlain_accepted [of s u p w w'] provider_sound by blast

lemma plain_valid: "plain_authenticate s cb i u p w = Return (w', e, Some call) \<Longrightarrow> call = (u, u, p) \<and> (\<exists>m w1. usernameForAuth s u = Inr m \<and> valid m p w1)"
  using plain_call [of s cb i u p w w' e call] accepted_valid [of u p w w'] by blast

lemma login_valid:
  "login_authenticate s cb u p w = Return (w', e, Some call) \<Longrightarrow>
     \<exists>m m' w1. call = (m, m, p) \<and> usernameForAuth s u = Inr m \<and> usernameForAuth s m = Inr m' \<and> valid m' p w1"
  using login_call [of s cb u p w w' e call] accepted_valid [of _ p w w'] by blast

end

text \<open>The password is the one of the account, or the account was not there and is made.\<close>

definition login_allowed :: "auth_lib \<Rightarrow> 's pass_auth \<Rightarrow> string \<Rightarrow> string \<Rightarrow> 's auth_state \<Rightarrow> bool" where
  "login_allowed al a u p st \<longleftrightarrow>
     (\<exists>key v ok e. auth_key al u = (key, None) \<and> mt_Lookup (pa_table a) key (as_table st) = (v, ok, e) \<and>
        (if ok then e = None \<and> (\<exists>algo h verify. v = algo @ '':'' @ h \<and> HashVerify (al_hash al) algo = Some verify \<and> verify p h = Return None)
         else pt_IsJitRegistrationEnabled a st = Inr True \<and> ValidateLoginDomain al (NormalizeUsername u) (pa_jitDomain a) = None))"

lemma cut_at_single: "cut_at [c] s = Some (a, b) \<Longrightarrow> s = a @ c # b"
  by (induction s arbitrary: a) (auto simp: HasPrefix_def split: if_splits option.splits)

lemma SplitN_two: "SplitN 2 s c = [a, b] \<Longrightarrow> s = a @ c # b"
  by (auto simp: numeral_2_eq_2 split: option.splits dest: cut_at_single)

lemma check_hash_accepted:
  assumes "check_hash al a u key p v = Return (None, js)"
  shows "\<exists>algo h verify. v = algo @ '':'' @ h \<and> HashVerify (al_hash al) algo = Some verify \<and> verify p h = Return None"
proof -
  from assms obtain algo h where s: "SplitN 2 v CHR '':'' = [algo, h]" by (auto simp: check_hash_def split: list.splits)
  with assms obtain verify where "HashVerify (al_hash al) algo = Some verify" "verify p h = Return None"
    by (auto simp: check_hash_def split: option.splits)
  with SplitN_two [OF s] show ?thesis by auto
qed

lemma pt_AuthPlain_allowed:
  assumes "pt_AuthPlain al a u p st = Return (st', None, js)"
  shows "login_allowed al a u p st"
proof -
  obtain key where k: "precis_CaseMapped (al_text al) (NormalizeUsername u) = (key, None)"
    using assms by (auto simp: pt_AuthPlain_def Let_def split: prod.splits option.splits)
  obtain v ok e where l: "mt_Lookup (pa_table a) key (as_table st) = (v, ok, e)" by (metis prod.collapse)
  show ?thesis
  proof (cases ok)
    case True
    with assms k l have e: "e = None" by (auto simp: pt_AuthPlain_def Let_def split: option.splits)
    with assms k l True have "\<exists>js. check_hash al a (NormalizeUsername u) key p v = Return (None, js)" by (auto simp: pt_AuthPlain_def Let_def)
    with check_hash_accepted k l True e show ?thesis by (fastforce simp: login_allowed_def auth_key_def)
  next
    case False
    with assms k l have "pt_IsJitRegistrationEnabled a st = Inr True \<and> ValidateLoginDomain al (NormalizeUsername u) (pa_jitDomain a) = None"
      by (auto simp: pt_AuthPlain_def Let_def split: sum.splits bool.splits if_splits)
    with k l False show ?thesis by (auto simp: login_allowed_def auth_key_def)
  qed
qed

interpretation ptp: sound_providers "\<lparr>sa_EnableLogin = l, sa_AuthMap = m, sa_AuthNormalize = n, sa_Plain = [pass_table_provider al a]\<rparr>"
    "\<lambda>u p w. login_allowed al a u p (fst w)" for l m n al a
  by unfold_locales (auto simp: pass_table_provider_def split: prod.splits intro: pt_AuthPlain_allowed)

lemma passwd_loop_accepted:
  "passwd_loop ps u p le w = Return (w', None) \<Longrightarrow> ps = [] \<and> le = None \<or> (\<exists>pr\<in>set ps. \<exists>w1. pr_AuthPlain pr u p w1 = Return (w', None))"
  by (induction ps arbitrary: le w) (auto split: if_splits)

lemma user_listed_True: "user_listed ts u = Inr True \<Longrightarrow> \<exists>t\<in>set ts. \<exists>v. tb_Lookup t u = (v, True, None)"
  by (induction ts) (auto split: prod.splits option.splits if_splits)

lemma sep_AuthPlain_accepted:
  assumes "sep_AuthPlain a u p w = Return (w', None)" "ps_passwd a \<noteq> []"
  shows "(ps_userTbls a = [] \<or> (\<exists>t\<in>set (ps_userTbls a). \<exists>v. tb_Lookup t u = (v, True, None))) \<and>
    (\<exists>pr\<in>set (ps_passwd a). \<exists>w1. pr_AuthPlain pr u p w1 = Return (w', None))"
  using assms passwd_loop_accepted [of "ps_passwd a" u p None w w'] user_listed_True [of "ps_userTbls a" u]
  by (auto simp: sep_AuthPlain_def split: sum.splits if_splits)

interpretation sep: sound_providers
    "\<lparr>sa_EnableLogin = l, sa_AuthMap = m, sa_AuthNormalize = n, sa_Plain = [plain_separate_provider \<lparr>ps_userTbls = ts, ps_passwd = pr # prs\<rparr>]\<rparr>"
    "\<lambda>u p w. (ts = [] \<or> (\<exists>t\<in>set ts. \<exists>v. tb_Lookup t u = (v, True, None))) \<and> (\<exists>p'\<in>set (pr # prs). \<exists>w1 w2. pr_AuthPlain p' u p w1 = Return (w2, None))"
  for l m n ts pr prs
proof (unfold_locales, goal_cases)
  case (1 pr' u p w w')
  then show ?case using sep_AuthPlain_accepted [of "\<lparr>ps_userTbls = ts, ps_passwd = pr # prs\<rparr>" u p w w'] by (auto simp: plain_separate_provider_def)
qed

section \<open>Properties\<close>

text \<open>C22. With a credential table behind SASL PLAIN, the endpoint learns of an authenticated user only in two cases: the lookup of the account that belongs to
  the name found a row and the row has the password; or the lookup found nothing, because there is no row or because the database failed, and accounts are made on login for
  this domain. The identity is the name of the client, and a foreign identity is refused.\<close>

theorem sasl_plain_sound:
  assumes "sa_Plain s = [pass_table_provider al a]" "pa_table a = sql_mtable q"
    and "plain_authenticate s cb identity u p (st, jobs) = Return (w', e, Some call)"
    and "usernameForAuth s u = Inr m" "auth_key al m = (key, None)"
  shows "call = (u, u, p) \<and> (identity = '''' \<or> identity = u) \<and>
    (case (if sq_flt q ''lookup'' key then None else map_of (as_table st) key) of
       Some v \<Rightarrow> \<exists>algo h verify. v = algo @ '':'' @ h \<and> HashVerify (al_hash al) algo = Some verify \<and> verify p h = Return None
     | None \<Rightarrow> pt_IsJitRegistrationEnabled a st = Inr True \<and> ValidateLoginDomain al (NormalizeUsername m) (pa_jitDomain a) = None)"
proof -
  note c = plain_call [OF assms(3)]
  with assms(1,4) obtain st' js where "pt_AuthPlain al a m p st = Return (st', None, js)"
    by (auto simp: sasl_AuthPlain_def pass_table_provider_def split: if_splits)
  then have "login_allowed al a m p st" by (rule pt_AuthPlain_allowed)
  with assms(2,5) have "case (if sq_flt q ''lookup'' key then None else map_of (as_table st) key) of
       Some v \<Rightarrow> \<exists>algo h verify. v = algo @ '':'' @ h \<and> HashVerify (al_hash al) algo = Some verify \<and> verify p h = Return None
     | None \<Rightarrow> pt_IsJitRegistrationEnabled a st = Inr True \<and> ValidateLoginDomain al (NormalizeUsername m) (pa_jitDomain a) = None"
    by (auto simp: login_allowed_def sql_mtable_def SQL_Lookup_def split: option.splits if_splits)
  with c show ?thesis by blast
qed

definition demo_sasl :: "table option \<Rightarrow> (rows auth_state \<times> job list) sasl_auth" where
  "demo_sasl m = \<lparr>sa_EnableLogin = True, sa_AuthMap = m, sa_AuthNormalize = None, sa_Plain = [pass_table_provider demo_al (demo_auth (\<lambda>_ _. False))]\<rparr>"

theorem sasl_plain_sound_witness:
  "\<exists>w' e. plain_authenticate (demo_sasl None) (\<lambda>_ _ _. None) '''' ''a'' ''old'' (demo_users, []) = Return (w', e, Some (''a'', ''a'', ''old'')) \<and>
     (\<exists>algo h verify. ''bcrypt:bcold'' = algo @ '':'' @ h \<and> HashVerify (al_hash demo_al) algo = Some verify \<and> verify ''old'' h = Return None)"
proof -
  have l: "pt_AuthPlain demo_al (demo_auth (\<lambda>_ _. False)) ''a'' ''old'' demo_users = Return (demo_users, None, [(''a'', ''old'')])" by (rule demo_login) simp
  have u: "usernameForAuth (demo_sasl None) ''a'' = Inr ''a''" by (simp add: usernameForAuth_def demo_sasl_def)
  have p: "plain_authenticate (demo_sasl None) (\<lambda>_ _ _. None) '''' ''a'' ''old'' (demo_users, []) =
      Return ((demo_users, [(''a'', ''old'')]), None, Some (''a'', ''a'', ''old''))"
    using u by (simp add: plain_authenticate_def sasl_AuthPlain_def pass_table_provider_def demo_sasl_def l Let_def)
  have t: "sa_Plain (demo_sasl None) = [pass_table_provider demo_al (demo_auth (\<lambda>_ _. False))]" "pa_table (demo_auth (\<lambda>_ _. False)) = sql_mtable (demo_queries (\<lambda>_ _. False))"
      "\<not> sq_flt (demo_queries (\<lambda>_ _. False)) ''lookup'' ''a''"
    by (simp_all add: demo_auth_def demo_queries_def demo_sasl_def)
  from sasl_plain_sound [OF t(1,2) p u demo_name(2)] t(3) p show ?thesis by (auto simp: demo_users_def)
qed

text \<open>The dialog of LOGIN asks for the username unless the client has sent it first, then for the password, calls the authenticator exactly once with what was
  sent, and refuses everything after that.\<close>

theorem login_dialog:
  "login_run (None # u # p # rs) NewLoginServer =
     [Challenge ''Username:'', Challenge ''Password:'', Authenticate (resp_text u) (resp_text p)] @ replicate (length rs) Unexpected \<and>
   login_run (Some v # p # rs) NewLoginServer = [Challenge ''Password:'', Authenticate v (resp_text p)] @ replicate (length rs) Unexpected"
proof -
  have d: "ls_state a = LoginDone \<Longrightarrow> login_run rs a = replicate (length rs) Unexpected" for a
    by (induction rs arbitrary: a) (simp_all add: login_Next_def Let_def)
  show ?thesis by (simp add: login_Next_def Let_def NewLoginServer_def d resp_text_def [of "Some v"])
qed

text \<open>LOGIN maps the username a second time: a name that PLAIN accepts is refused when the mapped name is no key of the map.\<close>

theorem login_maps_twice:
  "\<exists>w' w''. plain_authenticate (demo_sasl (Some (static_table [''x'' \<mapsto> [''a'']]))) (\<lambda>_ _ _. None) '''' ''x'' ''old'' (demo_users, []) =
       Return (w', None, Some (''x'', ''x'', ''old'')) \<and>
     login_authenticate (demo_sasl (Some (static_table [''x'' \<mapsto> [''a'']]))) (\<lambda>_ _ _. None) ''x'' ''old'' (demo_users, []) = Return (w'', Some ErrInvalidAuthCred, None)"
proof -
  have l: "pt_AuthPlain demo_al (demo_auth (\<lambda>_ _. False)) ''a'' ''old'' demo_users = Return (demo_users, None, [(''a'', ''old'')])" by (rule demo_login) simp
  let ?s = "demo_sasl (Some (static_table [''x'' \<mapsto> [''a'']]))"
  have u: "usernameForAuth ?s ''x'' = Inr ''a''" "usernameForAuth ?s ''a'' = Inl ErrInvalidAuthCred"
    by (simp_all add: usernameForAuth_def demo_sasl_def static_table_def static_Lookup_def)
  show ?thesis using u
    by (simp add: plain_authenticate_def login_authenticate_def sasl_AuthPlain_def pass_table_provider_def demo_sasl_def l Let_def)
qed

text \<open>A \<open>plain_separate\<close> without a password provider accepts every password of a listed user.\<close>

theorem separate_without_passwords: "ps_passwd a = [] \<Longrightarrow> snd (sep_Lookup a u) = (True, None) \<Longrightarrow> sep_AuthPlain a u p w = Return (w, None)"
  by (auto simp: sep_AuthPlain_def sep_Lookup_def split: sum.splits if_splits)

text \<open>A name with two at signs belongs to no domain for \<open>CheckDomainAuth\<close> and is not compared with the allowed domains.\<close>

theorem domain_check_bypass: "CheckDomainAuth al ''root@evil@x'' False (Some ds) = (''root'', True)"
  by (simp add: CheckDomainAuth_def)

text \<open>A helper that accepts does not make PAM accept in a build without libpam.\<close>

theorem pam_helper_never_accepts: "pam_AuthPlain run pam_stub helper u p \<noteq> None"
  by (simp add: pam_AuthPlain_def pam_stub_def split: option.splits)

text \<open>Without a helper, shadow passwords accept a user only by an entry of the file that is neither expired nor locked nor empty and whose hash matches.\<close>

theorem shadow_accepts_valid:
  assumes "shadow_AuthPlain crypt run unix file None u p = None"
  shows "\<exists>e\<in>set (fst (shadow_Read file)). sh_Name e = u \<and> IsAccountValid unix e \<and> IsPasswordValid unix e \<and> sh_Pass e \<noteq> '''' \<and> hd (sh_Pass e) \<noteq> CHR ''!'' \<and>
    crypt (sh_Pass e) p = KeyMatch"
proof -
  from assms obtain e where e: "shadow_Lookup file u = Inr e" "IsAccountValid unix e" "IsPasswordValid unix e" "VerifyPassword crypt e p = None"
    by (auto simp: shadow_AuthPlain_def split: sum.splits if_splits option.splits)
  from e(1) have "e \<in> set (fst (shadow_Read file)) \<and> sh_Name e = u"
    by (auto simp: shadow_Lookup_def find_Some_iff split: prod.splits option.splits)
  with e(2-) show ?thesis by (intro bexI [of _ e]) (auto simp: VerifyPassword_def split: if_splits crypt_result.splits)
qed

text \<open>An announced mechanism is never refused.\<close>

theorem announced_mechanisms_work: "mech \<in> set (SASLMechanisms s) \<Longrightarrow> CreateSASL s mech \<noteq> FailingSASLServ e"
  by (auto simp: SASLMechanisms_def CreateSASL_def split: if_splits)

text \<open>NetAuth with \<open>require_group\<close> accepts only members of the group, and finds only them.\<close>

theorem netauth_needs_group:
  assumes "g \<noteq> ''''" "netauth_AuthPlain nacl g u p = None \<or> snd (netauth_Lookup nacl g u) = (True, None)"
  shows "\<exists>gs. na_EntityGroups nacl u = Inr gs \<and> g \<in> set gs"
  using assms by (auto simp: netauth_AuthPlain_def netauth_Lookup_def checkMustGroup_def split: sum.splits if_splits option.splits)

text \<open>An external program is asked only for accounts of the allowed domains, apart from names with no or several at signs.\<close>

theorem external_needs_domain:
  assumes "external_AuthPlain al run ea u p = None" "ea_domains ea = Some ds" "SplitByte u CHR ''@'' = [mbox, domain]" "domain \<noteq> ''''"
  shows "\<exists>d\<in>set ds. al_EqualFold al domain d"
  using assms by (auto simp: external_AuthPlain_def CheckDomainAuth_def Let_def list_ex_iff split: if_splits prod.splits)

text \<open>The switches of a credential table reach the endpoints through SASL.\<close>

theorem switches_reach_endpoints:
  "sa_Plain s = [pass_table_provider al a] \<Longrightarrow> pt_IsTurnEnabled a st = Inr t \<Longrightarrow> pt_IsRegistrationOpen a st = Inr r \<Longrightarrow>
     sasl_IsTurnEnabled s (st, jobs) = t \<and> sasl_IsRegistrationOpen s (st, jobs) = r"
  by (simp add: sasl_IsTurnEnabled_def sasl_IsRegistrationOpen_def pass_table_provider_def)

end
