(* ===== verification/Checks.thy ===== *)
theory Checks
  imports Check_Runner Limits Go_Lib
begin

text \<open>
  Single checks of messages: the actions on failure (\<^verbatim>\<open>framework/config/module/check_action.go\<close>), checks without state
  (\<^verbatim>\<open>internal/check/stateless_check.go\<close>, \<^verbatim>\<open>requiretls\<close>, \<^verbatim>\<open>dns\<close>), block lists (\<^verbatim>\<open>internal/check/dnsbl\<close>), SPF
  (\<^verbatim>\<open>internal/check/spf\<close>) and DKIM (\<^verbatim>\<open>internal/check/dkim\<close>).

  The resolver and the SPF and DKIM libraries are arguments. The connection of a message is the record \<open>net_conn\<close>; \<open>nc_ip\<close> is absent when the client is not
  connected over TCP. The lists of \<open>dnsbl\<close> are asked in parallel; the model asks them in the order in which they answer.
\<close>

unbundle bit_operations_syntax

section \<open>Actions (check_action.go)\<close>

definition policy_err :: "int \<Rightarrow> ench \<Rightarrow> string \<Rightarrow> string \<Rightarrow> goerr option \<Rightarrow> goerr" where
  "policy_err code ec msg checkName err =
     SMTPError \<lparr>Code = code, EnhancedCode = ec, Message = msg, CheckName = checkName, TargetName = '''', ModifierName = '''', Reason = '''', Misc = Map.empty\<rparr> err"

definition failed :: "goerr \<Rightarrow> check_result" where
  "failed e = empty_result\<lparr>res_Reason := Some e\<rparr>"

record fail_action =
  fa_Quarantine :: bool
  fa_Reject :: bool
  fa_ReasonOverride :: "smtp_info option"

definition no_action :: fail_action where
  "no_action = \<lparr>fa_Quarantine = False, fa_Reject = False, fa_ReasonOverride = None\<rparr>"

definition fa_Apply :: "fail_action \<Rightarrow> check_result \<Rightarrow> check_result" where
  "fa_Apply cfa r =
     (case res_Reason r of
        None \<Rightarrow> r
      | Some reason \<Rightarrow>
          let r = (case fa_ReasonOverride cfa of
                     None \<Rightarrow> r
                   | Some o' \<Rightarrow> r\<lparr>res_Reason := Some (policy_err (Code o') (EnhancedCode o') (Message o') '''' (Some reason))\<rparr>)
          in r\<lparr>res_Quarantine := fa_Quarantine cfa \<or> res_Quarantine r, res_Reject := fa_Reject cfa \<or> res_Reject r\<rparr>)"

definition parseEnhancedCode :: "string \<Rightarrow> goerr + ench" where
  "parseEnhancedCode s =
     (case SplitByte s CHR ''.'' of
        [a, b, c] \<Rightarrow>
          (case (Atoi a, Atoi b, Atoi c) of
             (Some x, Some y, Some z) \<Rightarrow> Inr (x, y, z)
           | _ \<Rightarrow> Inl (errors_New ''strconv.Atoi: invalid syntax''))
      | _ \<Rightarrow> Inl (errors_New ''wrong amount of enhanced code parts''))"

definition reject_error :: "int \<Rightarrow> ench \<Rightarrow> string \<Rightarrow> smtp_info" where
  "reject_error code ec msg =
     \<lparr>Code = code, EnhancedCode = ec, Message = msg, CheckName = '''', TargetName = '''', ModifierName = '''', Reason = ''reject directive used'', Misc = Map.empty\<rparr>"

definition reject_code :: "string \<Rightarrow> ench \<Rightarrow> string \<Rightarrow> goerr + smtp_info" where
  "reject_code arg ec msg =
     (case Atoi arg of
        None \<Rightarrow> Inl (errors_New ''invalid error code integer'')
      | Some code \<Rightarrow>
          if go_quot code 100 \<noteq> 4 \<and> go_quot code 100 \<noteq> 5 then Inl (errors_New ''error code should start with either 4 or 5'')
          else Inr (reject_error code (if fst ec = 0 then (go_quot code 100, snd ec) else ec) msg))"

definition reject_codes :: "string \<Rightarrow> string \<Rightarrow> string \<Rightarrow> goerr + smtp_info" where
  "reject_codes arg encharg msg =
     ebind (parseEnhancedCode encharg) (\<lambda>ec.
       if fst ec \<noteq> 4 \<and> fst ec \<noteq> 5 then Inl (errors_New ''enhanced code should use either 4 or 5 as a first number'') else reject_code arg ec msg)"

definition ParseRejectDirective :: "string list \<Rightarrow> goerr + smtp_info" where
  "ParseRejectDirective args =
     (let msg = ''Message rejected due to a local policy'' in
      case args of
        [] \<Rightarrow> Inr (reject_error 554 (5, 7, 0) msg)
      | [c] \<Rightarrow> reject_code c (0, 7, 0) msg
      | [c, ec] \<Rightarrow> reject_codes c ec msg
      | [c, ec, m] \<Rightarrow> if m = '''' then Inl (errors_New ''message can't be empty'') else reject_codes c ec m
      | _ \<Rightarrow> Inl (errors_New ''invalid count of arguments''))"

definition ParseActionDirective :: "string list \<Rightarrow> goerr + fail_action" where
  "ParseActionDirective args =
     (case args of
        [] \<Rightarrow> Inl (errors_New ''expected at least 1 argument'')
      | act # rest \<Rightarrow>
          ebind (if act = ''reject'' \<or> act = ''quarantine'' then
                   if rest \<noteq> [] then (case ParseRejectDirective rest of Inl e \<Rightarrow> Inl e | Inr o' \<Rightarrow> Inr (Some o')) else Inr None
                 else if act = ''ignore'' then Inr None
                 else Inl (errors_New ''invalid action''))
            (\<lambda>o'. Inr \<lparr>fa_Quarantine = (act = ''quarantine''), fa_Reject = (act = ''reject''), fa_ReasonOverride = o'\<rparr>))"

section \<open>Checks without state (stateless_check.go, requiretls.go, dns.go)\<close>

type_synonym ip = "nat list"

record net_conn =
  nc_Hostname :: string
  nc_ip :: "ip option"
  nc_rdns :: "(goerr + string option) option"
  nc_tls :: bool
  nc_dnsbl :: "check_result option"

text \<open>What a lookup returns; \<open>as_DNSError\<close> is the text and \<open>IsNotFound\<close> of an error that is a \<open>*net.DNSError\<close>.\<close>

record resolver =
  rs_MX :: "string \<Rightarrow> goerr + string list"
  rs_Host :: "string \<Rightarrow> goerr + string list"
  rs_IPAddr :: "string \<Rightarrow> goerr + ip list"
  rs_TXT :: "string \<Rightarrow> goerr + string list"
  as_DNSError :: "goerr \<Rightarrow> (string \<times> bool) option"

definition UnwrapDNSErr :: "resolver \<Rightarrow> goerr \<Rightarrow> string" where
  "UnwrapDNSErr rs err = (case as_DNSError rs err of None \<Rightarrow> '''' | Some (e, _) \<Rightarrow> e)"

record stateless_check =
  sc_failAction :: fail_action
  sc_conn :: "(net_conn option \<Rightarrow> check_result) option"
  sc_sender :: "(net_conn option \<Rightarrow> string \<Rightarrow> check_result) option"
  sc_rcpt :: "(net_conn option \<Rightarrow> string \<Rightarrow> check_result) option"
  sc_body :: "(net_conn option \<Rightarrow> header \<Rightarrow> buffer \<Rightarrow> check_result) option"

definition stateless_Connection :: "stateless_check \<Rightarrow> net_conn option \<Rightarrow> check_result" where
  "stateless_Connection c conn = (case sc_conn c of None \<Rightarrow> empty_result | Some f \<Rightarrow> fa_Apply (sc_failAction c) (f conn))"

definition stateless_Sender :: "stateless_check \<Rightarrow> net_conn option \<Rightarrow> string \<Rightarrow> check_result" where
  "stateless_Sender c conn mailFrom = (case sc_sender c of None \<Rightarrow> empty_result | Some f \<Rightarrow> fa_Apply (sc_failAction c) (f conn mailFrom))"

definition stateless_Rcpt :: "stateless_check \<Rightarrow> net_conn option \<Rightarrow> string \<Rightarrow> check_result" where
  "stateless_Rcpt c conn rcptTo = (case sc_rcpt c of None \<Rightarrow> empty_result | Some f \<Rightarrow> fa_Apply (sc_failAction c) (f conn rcptTo))"

definition stateless_Body :: "stateless_check \<Rightarrow> net_conn option \<Rightarrow> header \<Rightarrow> buffer \<Rightarrow> check_result" where
  "stateless_Body c conn hdr body = (case sc_body c of None \<Rightarrow> empty_result | Some f \<Rightarrow> fa_Apply (sc_failAction c) (f conn hdr body))"

definition requireTLS :: "net_conn option \<Rightarrow> check_result" where
  "requireTLS conn =
     (if (case conn of None \<Rightarrow> False | Some c \<Rightarrow> nc_tls c) then empty_result
      else failed (policy_err 550 (5, 7, 1) ''TLS conversation required'' ''require_tls'' None))"

definition dns_policy_err :: "resolver \<Rightarrow> goerr \<Rightarrow> int \<Rightarrow> ench \<Rightarrow> string \<Rightarrow> goerr" where
  "dns_policy_err rs err temp ec checkName =
     SMTPError \<lparr>Code = SMTPCode (Some err) temp 550, EnhancedCode = SMTPEnchCode (Some err) ec, Message = ''DNS error during policy check'', CheckName = checkName,
       TargetName = '''', ModifierName = '''', Reason = UnwrapDNSErr rs err, Misc = Map.empty\<rparr> (Some err)"

definition requireMatchingRDNS :: "textlib \<Rightarrow> resolver \<Rightarrow> net_conn option \<Rightarrow> check_result" where
  "requireMatchingRDNS lib rs conn =
     (case conn of
        None \<Rightarrow> empty_result
      | Some c \<Rightarrow>
          (case nc_rdns c of
             None \<Rightarrow> empty_result
           | Some (Inl err) \<Rightarrow> failed (dns_policy_err rs err 450 (0, 7, 25) ''require_matching_rdns'')
           | Some (Inr None) \<Rightarrow> failed (policy_err 550 (5, 7, 25) ''No PTR record found'' ''require_matching_rdns'' None)
           | Some (Inr (Some rdnsName)) \<Rightarrow>
               let srcDomain = TrimSuffix (nc_Hostname c) ''.'' in
               if ParseIP srcDomain then empty_result
               else if dns_Equal lib (TrimSuffix rdnsName ''.'') srcDomain then empty_result
               else failed (policy_err 550 (5, 7, 25) ''rDNS name does not match source hostname'' ''require_matching_rdns'' None)))"

definition ip_literal :: "string \<Rightarrow> bool" where
  "ip_literal d \<longleftrightarrow> HasPrefix d ''['' \<and> HasSuffix d '']''"

definition requireMXRecord :: "resolver \<Rightarrow> net_conn option \<Rightarrow> string \<Rightarrow> check_result" where
  "requireMXRecord rs conn mailFrom =
     (if mailFrom = '''' then empty_result
      else case Split mailFrom of
        (_, _, Some _) \<Rightarrow> failed (policy_err 501 (5, 1, 8) ''Malformed sender address'' ''require_mx_record'' None)
      | (_, domain, None) \<Rightarrow>
          if domain = '''' then failed (policy_err 501 (5, 1, 8) ''No domain part in address'' ''require_mx_record'' None)
          else if ip_literal domain \<or> ParseIP domain then empty_result
          else (case rs_MX rs domain of
                  Inl err \<Rightarrow> failed (dns_policy_err rs err 450 (0, 7, 0) ''require_mx_record'')
                | Inr srcMx \<Rightarrow>
                    if srcMx = [] then failed (policy_err 501 (5, 7, 27) ''Domain in MAIL FROM does not have any MX records'' ''require_mx_record'' None)
                    else if ''.'' \<in> set srcMx then failed (policy_err 501 (5, 7, 27) ''Domain in MAIL FROM has null MX record'' ''require_mx_record'' None)
                    else empty_result))"

text \<open>The registered checks with their default actions.\<close>

definition require_tls :: stateless_check where
  "require_tls = \<lparr>sc_failAction = no_action\<lparr>fa_Reject := True\<rparr>, sc_conn = Some requireTLS, sc_sender = None, sc_rcpt = None, sc_body = None\<rparr>"

definition require_matching_rdns :: "textlib \<Rightarrow> resolver \<Rightarrow> stateless_check" where
  "require_matching_rdns lib rs =
     \<lparr>sc_failAction = no_action\<lparr>fa_Quarantine := True\<rparr>, sc_conn = Some (requireMatchingRDNS lib rs), sc_sender = None, sc_rcpt = None, sc_body = None\<rparr>"

definition require_mx_record :: "resolver \<Rightarrow> stateless_check" where
  "require_mx_record rs =
     \<lparr>sc_failAction = no_action\<lparr>fa_Quarantine := True\<rparr>, sc_conn = None, sc_sender = Some (requireMXRecord rs), sc_rcpt = None, sc_body = None\<rparr>"

section \<open>Block lists (common.go, dnsbl.go)\<close>

text \<open>Addresses of package \<open>net\<close>: \<open>To4\<close>, \<open>String\<close>, and the test for a network, given by its address and its mask.\<close>

definition To4 :: "ip \<Rightarrow> ip option" where
  "To4 a =
     (if length a = 4 then Some a
      else if length a = 16 \<and> take 12 a = replicate 10 0 @ [255, 255] then Some (drop 12 a) else None)"

definition v4_or_self :: "ip \<Rightarrow> ip" where
  "v4_or_self a = (case To4 a of None \<Rightarrow> a | Some b \<Rightarrow> b)"

type_synonym ip_net = "ip \<times> ip"

definition net_Contains :: "ip_net \<Rightarrow> ip \<Rightarrow> bool" where
  "net_Contains n a =
     (let a = v4_or_self a in
      length a = length (fst n) \<and> list_all (\<lambda>i. fst n ! i AND snd n ! i = a ! i AND snd n ! i) [0..<length a])"

definition hex_char :: "nat \<Rightarrow> char" where
  "hex_char n = ''0123456789abcdef'' ! (n mod 16)"

fun hex_digits :: "nat \<Rightarrow> string" where
  "hex_digits n = (if n < 16 then [hex_char n] else hex_digits (n div 16) @ [hex_char n])"

fun join_with :: "string \<Rightarrow> string list \<Rightarrow> string" where
  "join_with sep [] = ''''"
| "join_with sep [x] = x"
| "join_with sep (x # xs) = x @ sep @ join_with sep xs"

fun ip_groups :: "ip \<Rightarrow> nat list" where
  "ip_groups (a # b # r) = (256 * a + b) # ip_groups r"
| "ip_groups _ = []"

text \<open>The first longest run of at least two zero groups is written as two colons.\<close>

definition zero_run :: "nat list \<Rightarrow> nat \<Rightarrow> nat" where
  "zero_run gs i = length (takeWhile (\<lambda>g. g = 0) (drop i gs))"

definition longest_run :: "nat list \<Rightarrow> nat \<times> nat" where
  "longest_run gs = fold (\<lambda>i (j, n). if zero_run gs i > n then (i, zero_run gs i) else (j, n)) [0..<length gs] (0, 1)"

definition ip_String :: "ip \<Rightarrow> string" where
  "ip_String a =
     (case To4 a of
        Some b \<Rightarrow> join_with ''.'' (map nat_digits b)
      | None \<Rightarrow>
          (let gs = ip_groups a; txt = join_with '':'' \<circ> map hex_digits in
           case longest_run gs of (i, n) \<Rightarrow> if n < 2 then txt gs else txt (take i gs) @ ''::'' @ txt (drop (i + n) gs)))"

definition queryString :: "ip \<Rightarrow> string" where
  "queryString a =
     (case To4 a of
        Some b \<Rightarrow> join_with ''.'' (map nat_digits (rev b))
      | None \<Rightarrow> join_with ''.'' (map (\<lambda>octet. [hex_char (octet AND 15)] @ ''.'' @ [hex_char (drop_bit 4 (octet AND 0xF0))]) (rev a)))"

record bl_list =
  bl_Zone :: string
  bl_ClientIPv4 :: bool
  bl_ClientIPv6 :: bool
  bl_EHLO :: bool
  bl_MAILFROM :: bool
  bl_ScoreAdj :: int
  bl_Responses :: "ip_net list"

definition defaultBL :: bl_list where
  "defaultBL = \<lparr>bl_Zone = '''', bl_ClientIPv4 = True, bl_ClientIPv6 = False, bl_EHLO = False, bl_MAILFROM = False, bl_ScoreAdj = 0, bl_Responses = []\<rparr>"

text \<open>The lists named in the arguments of the module.\<close>

definition inline_lists :: "string list \<Rightarrow> bl_list list" where
  "inline_lists zones = map (\<lambda>z. defaultBL\<lparr>bl_Zone := z\<rparr>) zones"

text \<open>The lists of a block: the settings once for every zone.\<close>

fun zone_lists :: "bl_list \<Rightarrow> string list \<Rightarrow> goerr + bl_list list" where
  "zone_lists cfg [] = Inr []"
| "zone_lists cfg (z # zs) =
     (if bl_ScoreAdj cfg < 0 \<and> bl_EHLO cfg then Inl (errors_New ''dnsbl: 'ehlo' should not be used with negative score'')
      else if bl_ScoreAdj cfg < 0 \<and> bl_MAILFROM cfg then Inl (errors_New ''dnsbl: 'mailfrom' should not be used with negative score'')
      else ebind (zone_lists cfg zs) (\<lambda>ls. Inr (cfg\<lparr>bl_Zone := z\<rparr> # ls)))"

datatype list_result = NotListed | Listed string string string | LookupError goerr

definition listing :: "resolver \<Rightarrow> string \<Rightarrow> string \<Rightarrow> string \<Rightarrow> string list \<Rightarrow> list_result" where
  "listing rs query identity zone addrs =
     Listed identity zone (join_with ''; '' (case rs_TXT rs query of Inl _ \<Rightarrow> addrs | Inr txts \<Rightarrow> if txts = [] then addrs else txts))"

definition lookup_failed :: "resolver \<Rightarrow> goerr \<Rightarrow> list_result" where
  "lookup_failed rs err = (case as_DNSError rs err of Some (_, True) \<Rightarrow> NotListed | _ \<Rightarrow> LookupError err)"

definition checkDomain :: "resolver \<Rightarrow> bl_list \<Rightarrow> string \<Rightarrow> list_result" where
  "checkDomain rs cfg domain =
     (let query = domain @ ''.'' @ bl_Zone cfg in
      case rs_Host rs query of
        Inl err \<Rightarrow> lookup_failed rs err
      | Inr addrs \<Rightarrow> if addrs = [] then NotListed else listing rs query domain (bl_Zone cfg) addrs)"

definition checkIP :: "resolver \<Rightarrow> bl_list \<Rightarrow> ip \<Rightarrow> list_result" where
  "checkIP rs cfg a =
     (let ipv6 = (To4 a = None); a = v4_or_self a in
      if ipv6 \<and> \<not> bl_ClientIPv6 cfg \<or> \<not> ipv6 \<and> \<not> bl_ClientIPv4 cfg then NotListed
      else
        let query = queryString a @ ''.'' @ bl_Zone cfg in
        (case rs_IPAddr rs query of
           Inl err \<Rightarrow> lookup_failed rs err
         | Inr addrs \<Rightarrow>
             let filteredAddrs = filter (\<lambda>x. bl_Responses cfg = [] \<or> list_ex (\<lambda>n. net_Contains n x) (bl_Responses cfg)) addrs in
             if filteredAddrs = [] then NotListed
             else listing rs query (ip_String a) (bl_Zone cfg) (map ip_String filteredAddrs)))"

definition check_mailfrom :: "textlib \<Rightarrow> resolver \<Rightarrow> bl_list \<Rightarrow> string \<Rightarrow> string \<Rightarrow> list_result" where
  "check_mailfrom lib rs cfg ehlo mailFrom =
     (if bl_MAILFROM cfg \<and> mailFrom \<noteq> '''' then
        (case Split mailFrom of
           (_, domain, err) \<Rightarrow>
             if err \<noteq> None \<or> domain = '''' then NotListed
             else if bl_EHLO cfg \<and> dns_Equal lib domain ehlo then NotListed
             else checkDomain rs cfg domain)
      else NotListed)"

definition checkList :: "textlib \<Rightarrow> resolver \<Rightarrow> bl_list \<Rightarrow> ip \<Rightarrow> string \<Rightarrow> string \<Rightarrow> list_result" where
  "checkList lib rs cfg a ehlo mailFrom =
     (case if bl_ClientIPv4 cfg \<or> bl_ClientIPv6 cfg then checkIP rs cfg a else NotListed of
        NotListed \<Rightarrow>
          if bl_EHLO cfg \<and> ehlo \<noteq> '''' then
            if ip_literal ehlo then NotListed
            else (case checkDomain rs cfg ehlo of NotListed \<Rightarrow> check_mailfrom lib rs cfg ehlo mailFrom | r \<Rightarrow> r)
          else check_mailfrom lib rs cfg ehlo mailFrom
      | r \<Rightarrow> r)"

record dnsbl =
  bl_checkEarly :: bool
  bl_bls :: "bl_list list"
  bl_quarantineThres :: int
  bl_rejectThres :: int

text \<open>The goroutines in the order in which they end: the score, and the first error of the group.\<close>

fun score_lists :: "textlib \<Rightarrow> resolver \<Rightarrow> ip \<Rightarrow> string \<Rightarrow> string \<Rightarrow> bl_list list \<Rightarrow> int \<times> goerr option \<Rightarrow> int \<times> goerr option" where
  "score_lists lib rs a ehlo mailFrom [] st = st"
| "score_lists lib rs a ehlo mailFrom (l # ls) (score, err) =
     score_lists lib rs a ehlo mailFrom ls
       (case checkList lib rs l a ehlo mailFrom of
          NotListed \<Rightarrow> (score, err)
        | Listed _ _ _ \<Rightarrow> (wrap64 (score + bl_ScoreAdj l), err)
        | LookupError e \<Rightarrow> (score, if err = None then Some e else err))"

definition listed_err :: goerr where
  "listed_err = policy_err 554 (5, 7, 0) ''Client identity is listed in the used DNSBL'' ''dnsbl'' None"

definition checkLists :: "textlib \<Rightarrow> resolver \<Rightarrow> (bl_list list \<Rightarrow> bl_list list) \<Rightarrow> dnsbl \<Rightarrow> ip \<Rightarrow> string \<Rightarrow> string \<Rightarrow> check_result" where
  "checkLists lib rs sched bl a ehlo mailFrom =
     (case score_lists lib rs a ehlo mailFrom (sched (bl_bls bl)) (0, None) of
        (_, Some err) \<Rightarrow>
          (failed (policy_err (SMTPCode (Some err) 451 554) (SMTPEnchCode (Some err) (0, 7, 0)) ''DNS error during policy check'' ''dnsbl'' (Some err)))\<lparr>res_Reject := True\<rparr>
      | (score, None) \<Rightarrow>
          if score \<ge> bl_rejectThres bl then (failed listed_err)\<lparr>res_Reject := True\<rparr>
          else if score \<ge> bl_quarantineThres bl then (failed listed_err)\<lparr>res_Quarantine := True\<rparr>
          else empty_result)"

text \<open>The check of a new connection, which is refused or keeps the result for its messages.\<close>

definition dnsbl_early :: "textlib \<Rightarrow> resolver \<Rightarrow> (bl_list list \<Rightarrow> bl_list list) \<Rightarrow> dnsbl \<Rightarrow> net_conn \<Rightarrow> net_conn \<times> goerr option" where
  "dnsbl_early lib rs sched bl c =
     (case nc_ip c of
        None \<Rightarrow> (c, None)
      | Some a \<Rightarrow>
          (let result = checkLists lib rs sched bl a (nc_Hostname c) '''' in
           if res_Reject result \<and> bl_checkEarly bl then (c, res_Reason result) else (c\<lparr>nc_dnsbl := Some result\<rparr>, None)))"

definition dnsbl_Connection :: "net_conn option \<Rightarrow> check_result" where
  "dnsbl_Connection conn = (case Option.bind conn nc_dnsbl of None \<Rightarrow> empty_result | Some r \<Rightarrow> r)"

section \<open>SPF (spf.go)\<close>

datatype spf_value = SpfNone | SpfNeutral | SpfPass | SpfFail | SpfSoftFail | SpfTempError | SpfPermError | SpfOther string

record spf_check =
  sp_enforceEarly :: bool
  sp_none :: fail_action
  sp_neutral :: fail_action
  sp_fail :: fail_action
  sp_softfail :: fail_action
  sp_permerr :: fail_action
  sp_temperr :: fail_action

text \<open>The libraries: \<open>CheckHostWithSender\<close>, which may panic, and those of DMARC.\<close>

record spf_lib =
  sl_text :: textlib
  sl_CheckHost :: "ip \<Rightarrow> string \<Rightarrow> string \<Rightarrow> (spf_value \<times> goerr option) outcome"
  sl_dmarc :: dmarc_lib
  sl_txt :: txt_lookup

text \<open>The channel: nothing sent yet, a result, or closed after a panic.\<close>

datatype spf_chan = SpfEmpty | SpfSent spf_value "goerr option" | SpfClosed

record spf_state =
  ss_conn :: "net_conn option"
  ss_OriginalFrom :: string
  ss_spfFetch :: spf_chan
  ss_skip :: bool

definition spf_State :: "net_conn option \<Rightarrow> string \<Rightarrow> spf_state" where
  "spf_State conn from = \<lparr>ss_conn = conn, ss_OriginalFrom = from, ss_spfFetch = SpfEmpty, ss_skip = False\<rparr>"

fun spf_auth_value :: "spf_value \<Rightarrow> result_value" where
  "spf_auth_value SpfNone = ResultNone"
| "spf_auth_value SpfNeutral = ResultOther ''neutral''"
| "spf_auth_value SpfPass = ResultPass"
| "spf_auth_value SpfFail = ResultFail"
| "spf_auth_value SpfSoftFail = ResultOther ''softfail''"
| "spf_auth_value SpfTempError = ResultTempError"
| "spf_auth_value SpfPermError = ResultPermError"
| "spf_auth_value (SpfOther _) = ResultNone"

text \<open>The texts for the client, and the action; \<^term>\<open>None\<close> for the two results without one.\<close>

fun spf_failure :: "spf_check \<Rightarrow> spf_value \<Rightarrow> (fail_action \<times> int \<times> ench \<times> string) option" where
  "spf_failure c SpfNone = Some (sp_none c, 550, (5, 7, 23), ''No SPF policy'')"
| "spf_failure c SpfNeutral = Some (sp_neutral c, 550, (5, 7, 23), ''Neutral SPF result is not permitted'')"
| "spf_failure c SpfPass = None"
| "spf_failure c SpfFail = Some (sp_fail c, 550, (5, 7, 23), ''SPF authentication failed'')"
| "spf_failure c SpfSoftFail = Some (sp_softfail c, 550, (5, 7, 23), ''SPF authentication soft-failed'')"
| "spf_failure c SpfTempError = Some (sp_temperr c, 451, (4, 7, 23), ''SPF authentication failed with a temporary error'')"
| "spf_failure c SpfPermError = Some (sp_permerr c, 550, (5, 7, 23), ''SPF authentication failed with a permanent error'')"
| "spf_failure c (SpfOther s) = Some (no_action, 550, (4, 7, 23), ''Unknown SPF status: '' @ s)"

text \<open>A message without connection is skipped before this is called.\<close>

definition spfResult :: "spf_check \<Rightarrow> spf_state \<Rightarrow> spf_value \<Rightarrow> goerr option \<Rightarrow> check_result outcome" where
  "spfResult c st res err =
     (case ss_conn st of
        None \<Rightarrow> nil_deref
      | Some conn \<Rightarrow>
          (let spfAuth = SPF \<lparr>spf_Value = spf_auth_value res, spf_From = fst (snd (Split (ss_OriginalFrom st))), spf_Helo = nc_Hostname conn\<rparr>;
               r = empty_result\<lparr>res_AuthResult := [spfAuth]\<rparr>
           in Return (case spf_failure c res of
                None \<Rightarrow> r
              | Some (action, code, ec, msg) \<Rightarrow> fa_Apply action (r\<lparr>res_Reason := Some (policy_err code ec msg ''check.spf'' err)\<rparr>))))"

definition relyOnDMARC :: "spf_lib \<Rightarrow> string list \<Rightarrow> bool outcome" where
  "relyOnDMARC lib froms =
     (case ExtractFromDomain (sl_dmarc lib) froms of
        Inl _ \<Rightarrow> Return False
      | Inr fdom \<Rightarrow>
          obind (FetchRecord (sl_dmarc lib) (sl_txt lib) fdom) (\<lambda>(pdom, rec, err).
            Return (case (err, rec) of
                (None, Some r) \<Rightarrow>
                  (let policy = (if \<not> dns_Equal (sl_text lib) pdom fdom then (case SubdomainPolicy r of None \<Rightarrow> rec_Policy r | Some p \<Rightarrow> p) else rec_Policy r)
                   in policy \<noteq> PolicyNone)
              | _ \<Rightarrow> False)))"

definition prepareMailFrom :: "spf_lib \<Rightarrow> string \<Rightarrow> goerr + string" where
  "prepareMailFrom lib from =
     (case Split from of
        (_, _, Some _) \<Rightarrow> Inl (policy_err 550 (5, 1, 7) ''Malformed address'' ''spf'' None)
      | (fromMbox, fdom, None) \<Rightarrow>
          (case idna_ToASCII (sl_text lib) fdom of
             (_, Some _) \<Rightarrow> Inl (policy_err 550 (5, 1, 7) ''Malformed address'' ''spf'' None)
           | (fdom, None) \<Rightarrow> Inr ((if IsASCII fromMbox then fromMbox else '''') @ ''@'' @ FQDN (sl_dmarc lib) fdom)))"

definition spf_Connection :: "spf_lib \<Rightarrow> spf_check \<Rightarrow> spf_state \<Rightarrow> (spf_state \<times> check_result) outcome" where
  "spf_Connection lib c st =
     (case Option.bind (ss_conn st) (\<lambda>conn. map_option (Pair conn) (nc_ip conn)) of
        None \<Rightarrow> Return (st\<lparr>ss_skip := True\<rparr>, empty_result)
      | Some (conn, a) \<Rightarrow>
          let mailFromOriginal = (if ss_OriginalFrom st = '''' then ''postmaster@'' @ nc_Hostname conn else ss_OriginalFrom st) in
          if ip_literal (fst (snd (Split mailFromOriginal))) then Return (st\<lparr>ss_skip := True\<rparr>, empty_result)
          else (case prepareMailFrom lib mailFromOriginal of
                  Inl err \<Rightarrow> Return (st\<lparr>ss_skip := True\<rparr>, (failed err)\<lparr>res_Reject := True\<rparr>)
                | Inr mailFrom \<Rightarrow>
                    let run = sl_CheckHost lib a (FQDN (sl_dmarc lib) (nc_Hostname conn)) mailFrom in
                    if sp_enforceEarly c then obind run (\<lambda>(res, err). obind (spfResult c st res err) (\<lambda>r. Return (st, r)))
                    else (case run of
                            Return (res, err) \<Rightarrow> Return (st\<lparr>ss_spfFetch := SpfSent res err\<rparr>, empty_result)
                          | Panic _ \<Rightarrow> Return (st\<lparr>ss_spfFetch := SpfClosed\<rparr>, empty_result)
                          | Blocked \<Rightarrow> Return (st, empty_result))))"

definition spf_panic_err :: goerr where
  "spf_panic_err = WithTemporary (WithFields (errors_New ''panic recovered'')
     [''check'' \<mapsto> FStr ''spf'', ''smtp_msg'' \<mapsto> FStr ''Internal error during policy check'']) True"

text \<open>The body stage takes the result from the channel; \<open>froms\<close> are the From fields of the header.\<close>

definition spf_Body :: "spf_lib \<Rightarrow> spf_check \<Rightarrow> spf_state \<Rightarrow> string list \<Rightarrow> (spf_state \<times> check_result) outcome" where
  "spf_Body lib c st froms =
     (if sp_enforceEarly c \<or> ss_skip st then Return (st, empty_result)
      else case ss_spfFetch st of
        SpfEmpty \<Rightarrow> Blocked
      | SpfClosed \<Rightarrow> Return (st, (failed spf_panic_err)\<lparr>res_Reject := True\<rparr>)
      | SpfSent res err \<Rightarrow>
          obind (relyOnDMARC lib froms) (\<lambda>rely.
          obind (spfResult c st res err) (\<lambda>r.
            Return (st\<lparr>ss_spfFetch := SpfEmpty\<rparr>, if rely then r\<lparr>res_Quarantine := False, res_Reject := False\<rparr> else r))))"

section \<open>DKIM (dkim.go)\<close>

text \<open>\<open>textproto.CanonicalMIMEHeaderKey\<close>: keys with other bytes than those of a token stay as they are.\<close>

definition token_byte :: "char \<Rightarrow> bool" where
  "token_byte c \<longleftrightarrow> (let n = (of_char c :: nat) in
     48 \<le> n \<and> n \<le> 57 \<or> 65 \<le> n \<and> n \<le> 90 \<or> 97 \<le> n \<and> n \<le> 122) \<or> c \<in> set ''!#$%&*+-.^_`|~'' \<or> c = CHR 0x27"

fun canon_bytes :: "bool \<Rightarrow> string \<Rightarrow> string" where
  "canon_bytes up [] = []"
| "canon_bytes up (c # cs) =
     (let n = (of_char c :: nat);
          d = (if up \<and> 97 \<le> n \<and> n \<le> 122 then char_of (n - 32) else if \<not> up \<and> 65 \<le> n \<and> n \<le> 90 then char_of (n + 32) else c)
      in d # canon_bytes (c = CHR ''-'') cs)"

definition CanonicalMIMEHeaderKey :: "string \<Rightarrow> string" where
  "CanonicalMIMEHeaderKey s = (if list_all token_byte s then canon_bytes True s else s)"

record verification =
  vf_Domain :: string
  vf_Identifier :: string
  vf_HeaderKeys :: "string list"
  vf_Err :: "goerr option"
  vf_PermFail :: bool
  vf_TempFail :: bool

record dkim_check =
  dk_requiredFields :: "string list"
  dk_brokenSigAction :: fail_action
  dk_noSigAction :: fail_action
  dk_failOpen :: bool

definition dkim_Init :: "string list \<Rightarrow> fail_action \<Rightarrow> fail_action \<Rightarrow> bool \<Rightarrow> dkim_check" where
  "dkim_Init required broken noSig failOpen =
     \<lparr>dk_requiredFields = map CanonicalMIMEHeaderKey required, dk_brokenSigAction = broken, dk_noSigAction = noSig, dk_failOpen = failOpen\<rparr>"

definition required_signed :: "dkim_check \<Rightarrow> verification \<Rightarrow> bool" where
  "required_signed c v \<longleftrightarrow> set (dk_requiredFields c) \<subseteq> CanonicalMIMEHeaderKey ` set (vf_HeaderKeys v)"

definition dkim_value :: "dkim_check \<Rightarrow> verification \<Rightarrow> result_value" where
  "dkim_value c v =
     (if vf_Err v \<noteq> None then if vf_TempFail v then ResultTempError else if vf_PermFail v then ResultPermError else ResultFail
      else if required_signed c v then ResultPass else ResultPermError)"

definition dkim_reason :: "dkim_check \<Rightarrow> verification \<Rightarrow> string" where
  "dkim_reason c v =
     (case vf_Err v of
        Some e \<Rightarrow> TrimPrefix (Error e) ''dkim: ''
      | None \<Rightarrow> if required_signed c v then '''' else ''some header fields are not signed'')"

definition dkim_report :: "dkim_check \<Rightarrow> verification \<Rightarrow> auth_result" where
  "dkim_report c v =
     DKIM \<lparr>dkim_Value = dkim_value c v, dkim_Reason = dkim_reason c v, dkim_Domain = vf_Domain v, dkim_Identifier = vf_Identifier v\<rparr>"

text \<open>The loop over the signatures: a temporary failure ends it unless \<open>fail_open\<close> is set.\<close>

fun dkim_loop :: "dkim_check \<Rightarrow> verification list \<Rightarrow> auth_result list \<Rightarrow> bool \<Rightarrow> goerr + auth_result list \<times> bool" where
  "dkim_loop c [] results goodSigs = Inr (results, goodSigs)"
| "dkim_loop c (v # vs) results goodSigs =
     (if vf_Err v \<noteq> None \<and> vf_TempFail v \<and> \<not> dk_failOpen c
      then Inl (policy_err 421 (4, 7, 20) ''Temporary error during DKIM verification'' ''check.dkim'' (vf_Err v))
      else dkim_loop c vs (results @ [dkim_report c v]) (goodSigs \<or> dkim_value c v = ResultPass))"

definition dkim_internal :: "goerr \<Rightarrow> string \<Rightarrow> check_result" where
  "dkim_internal err msg = (failed (WithTemporary (WithFields err [''check'' \<mapsto> FStr ''check.dkim'', ''smtp_msg'' \<mapsto> FStr msg]) True))\<lparr>res_Reject := True\<rparr>"

definition dkim_Body :: "dkim_check \<Rightarrow> string \<Rightarrow> bool \<Rightarrow> goerr + string \<Rightarrow> (string \<Rightarrow> goerr + verification list) \<Rightarrow> check_result" where
  "dkim_Body c originalFrom hasSig body verify =
     (if ip_literal (fst (snd (Split originalFrom))) then empty_result
      else if \<not> hasSig then
        fa_Apply (dk_noSigAction c) ((failed (policy_err 550 (5, 7, 20) ''No DKIM signatures'' ''check.dkim'' None))
          \<lparr>res_AuthResult := [DKIM \<lparr>dkim_Value = ResultNone, dkim_Reason = '''', dkim_Domain = '''', dkim_Identifier = ''''\<rparr>]\<rparr>)
      else case body of
        Inl err \<Rightarrow> dkim_internal err ''Internal I/O error''
      | Inr text \<Rightarrow>
          (case verify text of
             Inl err \<Rightarrow> dkim_internal err ''Internal error during policy check''
           | Inr verifications \<Rightarrow>
               (case dkim_loop c verifications [] False of
                  Inl err \<Rightarrow> (failed err)\<lparr>res_Reject := True\<rparr>
                | Inr (results, goodSigs) \<Rightarrow>
                    let res = empty_result\<lparr>res_AuthResult := results\<rparr> in
                    if goodSigs then res
                    else fa_Apply (dk_brokenSigAction c) (res\<lparr>res_Reason := Some (policy_err 550 (5, 7, 20) ''No passing DKIM signatures'' ''check.dkim'' None)\<rparr>))))"

section \<open>Lemmas\<close>

lemma wrap64_add: "wrap64 (wrap64 a + b) = wrap64 (a + b)"
  by (simp add: wrap64_def mod_simps algebra_simps)

definition listed :: "list_result \<Rightarrow> bool" where
  "listed r \<longleftrightarrow> (\<exists>i z t. r = Listed i z t)"

lemma score_lists_ok:
  assumes "\<forall>l\<in>set ls. \<forall>e. checkList lib rs l a ehlo mf \<noteq> LookupError e"
  shows "score_lists lib rs a ehlo mf ls (wrap64 s, None) =
    (wrap64 (s + sum_list (map bl_ScoreAdj (filter (\<lambda>l. listed (checkList lib rs l a ehlo mf)) ls))), None)"
  using assms
proof (induction ls arbitrary: s)
  case (Cons l ls)
  from Cons.prems Cons.IH [of "s + bl_ScoreAdj l"] Cons.IH [of s] show ?case
    by (cases "checkList lib rs l a ehlo mf") (auto simp: listed_def wrap64_add add.assoc)
qed simp

lemma fa_Apply_reason [simp]: "(res_Reason (fa_Apply act r) = None) = (res_Reason r = None)"
  by (auto simp: fa_Apply_def Let_def split: option.splits)

lemma fa_Apply_auth [simp]: "res_AuthResult (fa_Apply act r) = res_AuthResult r"
  by (auto simp: fa_Apply_def Let_def split: option.splits)

lemma fa_Apply_flags:
  "res_Reason r \<noteq> None \<Longrightarrow> res_Reject (fa_Apply act r) = (fa_Reject act \<or> res_Reject r) \<and> res_Quarantine (fa_Apply act r) = (fa_Quarantine act \<or> res_Quarantine r)"
  by (auto simp: fa_Apply_def Let_def split: option.splits)

lemma dkim_loop_Inr:
  "dkim_loop c vs rs g = Inr (rs', g') \<Longrightarrow>
     rs' = rs @ map (dkim_report c) vs \<and> (g' \<longleftrightarrow> g \<or> (\<exists>v\<in>set vs. dkim_value c v = ResultPass))"
proof (induction vs arbitrary: rs g)
  case (Cons v vs)
  then have "dkim_loop c vs (rs @ [dkim_report c v]) (g \<or> dkim_value c v = ResultPass) = Inr (rs', g')"
    by (simp split: if_splits)
  from Cons.IH [OF this] show ?case by auto
qed simp

lemma dkim_pass_iff: "dkim_value c v = ResultPass \<longleftrightarrow> vf_Err v = None \<and> required_signed c v"
  by (auto simp: dkim_value_def)

text \<open>The sum of the scores of the lists that have the client.\<close>

definition bl_score :: "textlib \<Rightarrow> resolver \<Rightarrow> dnsbl \<Rightarrow> ip \<Rightarrow> string \<Rightarrow> string \<Rightarrow> int" where
  "bl_score lib rs bl a ehlo mf = wrap64 (\<Sum>l\<leftarrow>filter (\<lambda>l. listed (checkList lib rs l a ehlo mf)) (bl_bls bl). bl_ScoreAdj l)"

lemma checkLists_score:
  assumes "\<forall>l\<in>set (bl_bls bl). \<forall>e. checkList lib rs l a ehlo mf \<noteq> LookupError e" "mset (sched (bl_bls bl)) = mset (bl_bls bl)"
  shows "score_lists lib rs a ehlo mf (sched (bl_bls bl)) (0, None) = (bl_score lib rs bl a ehlo mf, None)"
proof -
  have z: "wrap64 0 = 0" by (simp add: wrap64_id min_int64_def max_int64_def)
  have "mset (map bl_ScoreAdj (filter (\<lambda>l. listed (checkList lib rs l a ehlo mf)) (sched (bl_bls bl)))) =
      mset (map bl_ScoreAdj (filter (\<lambda>l. listed (checkList lib rs l a ehlo mf)) (bl_bls bl)))" using assms(2) by simp
  from arg_cong [OF this, of sum_mset, unfolded sum_mset_sum_list] score_lists_ok [of "sched (bl_bls bl)" lib rs a ehlo mf 0] assms(1) mset_eq_setD [OF assms(2)] show ?thesis
    by (simp add: z bl_score_def)
qed

text \<open>A list that fails decides: the group keeps the error of one of the lists that failed.\<close>

lemma score_lists_keeps: "\<exists>s. score_lists lib rs a ehlo mf ls (n, Some e) = (s, Some e)"
proof (induction ls arbitrary: n)
  case (Cons l ls)
  then show ?case by (cases "checkList lib rs l a ehlo mf") simp_all
qed simp

lemma score_lists_failed:
  assumes "\<exists>l\<in>set ls. \<exists>e. checkList lib rs l a ehlo mf = LookupError e"
  shows "\<exists>l\<in>set ls. \<exists>e s. checkList lib rs l a ehlo mf = LookupError e \<and> score_lists lib rs a ehlo mf ls (n, None) = (s, Some e)"
  using assms
proof (induction ls arbitrary: n)
  case (Cons l ls)
  show ?case
  proof (cases "checkList lib rs l a ehlo mf")
    case NotListed
    with Cons.prems Cons.IH [of n] show ?thesis by auto
  next
    case (Listed i z t)
    with Cons.prems Cons.IH [of "wrap64 (n + bl_ScoreAdj l)"] show ?thesis by auto
  next
    case (LookupError e)
    with score_lists_keeps [of lib rs a ehlo mf ls n e] show ?thesis by auto
  qed
qed simp

section \<open>Properties\<close>

text \<open>C33. Whatever the order in which the block lists answer: when the lookup in one of them fails, the client is rejected with the DNS error of one of the
  failing lists, whatever the others say. When none fails, the client is rejected exactly when the sum of the scores of the lists that have it (with the wrap-around
  of \<open>int\<close>) reaches the reject threshold, quarantined exactly when it reaches only the quarantine threshold, and gives no reason otherwise.\<close>

theorem dnsbl_decision:
  assumes "mset (sched (bl_bls bl)) = mset (bl_bls bl)"
  shows "if \<exists>l\<in>set (bl_bls bl). \<exists>e. checkList lib rs l a ehlo mf = LookupError e
    then \<exists>l\<in>set (bl_bls bl). \<exists>e. checkList lib rs l a ehlo mf = LookupError e \<and>
      checkLists lib rs sched bl a ehlo mf =
        (failed (policy_err (SMTPCode (Some e) 451 554) (SMTPEnchCode (Some e) (0, 7, 0)) ''DNS error during policy check'' ''dnsbl'' (Some e)))\<lparr>res_Reject := True\<rparr>
    else checkLists lib rs sched bl a ehlo mf =
      (if bl_rejectThres bl \<le> bl_score lib rs bl a ehlo mf then (failed listed_err)\<lparr>res_Reject := True\<rparr>
       else if bl_quarantineThres bl \<le> bl_score lib rs bl a ehlo mf then (failed listed_err)\<lparr>res_Quarantine := True\<rparr>
       else empty_result)"
proof (cases "\<exists>l\<in>set (bl_bls bl). \<exists>e. checkList lib rs l a ehlo mf = LookupError e")
  case True
  have "set (sched (bl_bls bl)) = set (bl_bls bl)" using mset_eq_setD [OF assms] .
  with score_lists_failed [of "sched (bl_bls bl)" lib rs a ehlo mf 0] True show ?thesis by (fastforce simp: checkLists_def)
next
  case False
  then have "\<forall>l\<in>set (bl_bls bl). \<forall>e. checkList lib rs l a ehlo mf \<noteq> LookupError e" by blast
  from checkLists_score [of bl lib rs a ehlo mf sched, OF this assms] False show ?thesis by (simp add: checkLists_def)
qed

definition demo_rs :: resolver where
  "demo_rs = \<lparr>rs_MX = (\<lambda>_. Inr []), rs_Host = (\<lambda>_. Inr []), rs_IPAddr = (\<lambda>_. Inr [[127, 0, 0, 2]]), rs_TXT = (\<lambda>_. Inr []),
     as_DNSError = (\<lambda>_. None)\<rparr>"

definition demo_bl :: "int \<Rightarrow> dnsbl" where
  "demo_bl score = \<lparr>bl_checkEarly = False, bl_bls = [defaultBL\<lparr>bl_Zone := ''bl'', bl_ScoreAdj := score\<rparr>], bl_quarantineThres = 1, bl_rejectThres = 9999\<rparr>"

lemma demo_listed: "listed (checkList sample_text demo_rs (defaultBL\<lparr>bl_Zone := ''bl'', bl_ScoreAdj := n\<rparr>) [1, 2, 3, 4] ''h'' '''')"
  by (simp add: checkList_def checkIP_def defaultBL_def To4_def v4_or_self_def demo_rs_def listing_def Let_def listed_def)

theorem dnsbl_decision_witness: "checkLists sample_text demo_rs rev (demo_bl 5) [1, 2, 3, 4] ''h'' '''' = (failed listed_err)\<lparr>res_Quarantine := True\<rparr>"
proof -
  have l: "\<forall>l\<in>set (bl_bls (demo_bl 5)). \<forall>e. checkList sample_text demo_rs l [1, 2, 3, 4] ''h'' '''' \<noteq> LookupError e"
    using demo_listed [of 5] by (auto simp: demo_bl_def listed_def)
  have s: "bl_score sample_text demo_rs (demo_bl 5) [1, 2, 3, 4] ''h'' '''' = 5"
    using demo_listed [of 5] by (simp add: bl_score_def demo_bl_def wrap64_id min_int64_def max_int64_def)
  have m: "mset (rev (bl_bls (demo_bl 5))) = mset (bl_bls (demo_bl 5))" by simp
  from dnsbl_decision [of rev "demo_bl 5", OF m, of sample_text demo_rs "[1, 2, 3, 4]" "''h''" "''''"] l s show ?thesis by (auto simp: demo_bl_def)
qed

text \<open>The lists that are named as arguments have the score 0: with positive thresholds they change nothing, whoever they list.\<close>

theorem inline_lists_inert:
  assumes "bl_bls bl = inline_lists zones" "\<forall>l\<in>set (bl_bls bl). \<forall>e. checkList lib rs l a ehlo mf \<noteq> LookupError e"
    and "mset (sched (bl_bls bl)) = mset (bl_bls bl)" "0 < bl_quarantineThres bl" "0 < bl_rejectThres bl"
  shows "checkLists lib rs sched bl a ehlo mf = empty_result"
proof -
  have "(\<Sum>l\<leftarrow>filter (\<lambda>l. listed (checkList lib rs l a ehlo mf)) (inline_lists zones). bl_ScoreAdj l) = 0"
    by (simp add: inline_lists_def defaultBL_def filter_map o_def)
  then have "bl_score lib rs bl a ehlo mf = 0" using assms(1) by (simp add: bl_score_def wrap64_id min_int64_def max_int64_def)
  with assms(4,5) show ?thesis by (simp add: checkLists_def checkLists_score [of bl lib rs a ehlo mf sched, OF assms(2,3)])
qed

text \<open>The option \<open>mailfrom\<close> has no effect: the only caller passes an empty sender.\<close>

theorem mailfrom_option_ignored: "checkList lib rs (cfg\<lparr>bl_MAILFROM := b\<rparr>) a ehlo '''' = checkList lib rs cfg a ehlo ''''"
proof -
  have "checkIP rs (cfg\<lparr>bl_MAILFROM := b\<rparr>) a = checkIP rs cfg a"
    by (cases "rs_IPAddr rs (queryString (v4_or_self a) @ ''.'' @ bl_Zone cfg)") (auto simp: checkIP_def Let_def)
  moreover have "checkDomain rs (cfg\<lparr>bl_MAILFROM := b\<rparr>) d = checkDomain rs cfg d" for d by (cases "rs_Host rs (d @ ''.'' @ bl_Zone cfg)") (simp_all add: checkDomain_def)
  moreover have "check_mailfrom lib rs (cfg\<lparr>bl_MAILFROM := b\<rparr>) ehlo '''' = check_mailfrom lib rs cfg ehlo ''''" by (simp add: check_mailfrom_def)
  ultimately show ?thesis by (cases "checkIP rs cfg a"; cases "checkDomain rs cfg ehlo") (auto simp: checkList_def)
qed

text \<open>SPF in the normal mode: when the lookup gives a result, the body stage reports exactly this result for DMARC, with the domain of the sender and the name of the
  client; it rejects or quarantines only as configured for this result, and not at all when the From domain has a DMARC policy.\<close>

theorem spf_reported:
  assumes "\<not> sp_enforceEarly c" "spf_Connection lib c (spf_State (Some conn) from) = Return (st, r1)" "ss_spfFetch st = SpfSent res err"
    and "relyOnDMARC lib froms = Return rely"
  shows "r1 = empty_result \<and> (\<exists>st' r. spf_Body lib c st froms = Return (st', r) \<and>
    res_AuthResult r = [SPF \<lparr>spf_Value = spf_auth_value res, spf_From = fst (snd (Split from)), spf_Helo = nc_Hostname conn\<rparr>] \<and>
    (res_Reject r \<longleftrightarrow> \<not> rely \<and> (\<exists>act x. spf_failure c res = Some (act, x) \<and> fa_Reject act)) \<and>
    (res_Quarantine r \<longleftrightarrow> \<not> rely \<and> (\<exists>act x. spf_failure c res = Some (act, x) \<and> fa_Quarantine act)))"
proof -
  have st: "st = (spf_State (Some conn) from)\<lparr>ss_spfFetch := SpfSent res err\<rparr> \<and> r1 = empty_result"
    using assms(1-3) by (auto simp: spf_Connection_def spf_State_def Let_def split: option.splits if_splits sum.splits outcome.splits prod.splits)
  let ?r = "empty_result\<lparr>res_AuthResult := [SPF \<lparr>spf_Value = spf_auth_value res, spf_From = fst (snd (Split from)), spf_Helo = nc_Hostname conn\<rparr>]\<rparr>"
  let ?out = "case spf_failure c res of None \<Rightarrow> ?r | Some (act, code, ec, msg) \<Rightarrow> fa_Apply act (?r\<lparr>res_Reason := Some (policy_err code ec msg ''check.spf'' err)\<rparr>)"
  have "spf_Body lib c st froms = Return (st\<lparr>ss_spfFetch := SpfEmpty\<rparr>, if rely then ?out\<lparr>res_Quarantine := False, res_Reject := False\<rparr> else ?out)"
    using st assms(1,4) by (simp add: spf_Body_def spf_State_def spfResult_def Let_def)
  moreover have "res_AuthResult ?out = res_AuthResult ?r" by (simp split: option.splits prod.splits)
  moreover have "res_Reject ?out \<longleftrightarrow> (\<exists>act x. spf_failure c res = Some (act, x) \<and> fa_Reject act)" "res_Quarantine ?out \<longleftrightarrow> (\<exists>act x. spf_failure c res = Some (act, x) \<and> fa_Quarantine act)"
    by (auto simp: fa_Apply_flags empty_result_def split: option.splits prod.splits)
  ultimately show ?thesis using st by simp
qed

text \<open>What the library answers for the signatures of a message, and the temporary failure that stops the check.\<close>

definition dkim_answer :: "goerr + string \<Rightarrow> (string \<Rightarrow> goerr + verification list) \<Rightarrow> verification list option" where
  "dkim_answer body verify = (case body of Inl _ \<Rightarrow> None | Inr text \<Rightarrow> (case verify text of Inl _ \<Rightarrow> None | Inr vs \<Rightarrow> Some vs))"

definition dkim_stopped :: "dkim_check \<Rightarrow> verification list \<Rightarrow> bool" where
  "dkim_stopped c vs \<longleftrightarrow> \<not> dk_failOpen c \<and> list_ex (\<lambda>v. vf_Err v \<noteq> None \<and> vf_TempFail v) vs"

lemma dkim_loop_stopped: "(\<exists>e. dkim_loop c vs rs g = Inl e) \<longleftrightarrow> dkim_stopped c vs"
  by (induction vs arbitrary: rs g) (auto simp: dkim_stopped_def)

text \<open>A correct signature that covers all required fields, and the entry that DMARC is to get for a signature.\<close>

definition good_signature :: "dkim_check \<Rightarrow> verification \<Rightarrow> bool" where
  "good_signature c v \<longleftrightarrow> vf_Err v = None \<and> (\<forall>f \<in> set (dk_requiredFields c). \<exists>k \<in> set (vf_HeaderKeys v). CanonicalMIMEHeaderKey k = f)"

definition expected_report :: "dkim_check \<Rightarrow> verification \<Rightarrow> auth_result" where
  "expected_report c v =
     (case vf_Err v of
        None \<Rightarrow> DKIM \<lparr>dkim_Value = if good_signature c v then ResultPass else ResultPermError,
          dkim_Reason = if good_signature c v then '''' else ''some header fields are not signed'', dkim_Domain = vf_Domain v, dkim_Identifier = vf_Identifier v\<rparr>
      | Some e \<Rightarrow> DKIM \<lparr>dkim_Value = if vf_TempFail v then ResultTempError else if vf_PermFail v then ResultPermError else ResultFail,
          dkim_Reason = TrimPrefix (Error e) ''dkim: '', dkim_Domain = vf_Domain v, dkim_Identifier = vf_Identifier v\<rparr>)"

lemma required_signed_good: "vf_Err v = None \<and> required_signed c v \<longleftrightarrow> good_signature c v"
  by (force simp: required_signed_def good_signature_def)

lemma dkim_report_expected: "dkim_report c v = expected_report c v"
proof (cases "vf_Err v")
  case None
  with required_signed_good [of v c] show ?thesis by (simp add: dkim_report_def dkim_value_def dkim_reason_def expected_report_def)
qed (simp add: dkim_report_def dkim_value_def dkim_reason_def expected_report_def)

text \<open>C34. DKIM gives no reason against a message in exactly two cases: the domain of the sender is an IP literal (then nothing is checked or reported); or the
  message has a signature, the body opens and the library answers, no temporary failure stops the check (none of the signatures fails temporarily, or \<open>fail_open\<close> is set),
  and one of the signatures is correct and covers all required fields. All signatures are reported for DMARC in their order, with value, reason, domain and identifier; a
  message without a signature is reported as \<open>none\<close>; a check that was stopped reports nothing and rejects.\<close>

theorem dkim_passes_iff:
  "let r = dkim_Body c from hasSig body verify; literal = ip_literal (fst (snd (Split from))) in
   (res_Reason r = None \<longleftrightarrow> literal \<or> hasSig \<and> (\<exists>vs. dkim_answer body verify = Some vs \<and> \<not> dkim_stopped c vs \<and>
      (\<exists>v. v \<in> set vs \<and> good_signature c v))) \<and>
   res_AuthResult r =
     (if literal then []
      else if \<not> hasSig then [DKIM \<lparr>dkim_Value = ResultNone, dkim_Reason = '''', dkim_Domain = '''', dkim_Identifier = ''''\<rparr>]
      else case dkim_answer body verify of
        None \<Rightarrow> []
      | Some vs \<Rightarrow> if dkim_stopped c vs then [] else map (expected_report c) vs) \<and>
   (\<not> literal \<and> hasSig \<and> (case dkim_answer body verify of None \<Rightarrow> True | Some vs \<Rightarrow> dkim_stopped c vs) \<longrightarrow> res_Reject r)"
proof (cases "ip_literal (fst (snd (Split from))) \<or> \<not> hasSig")
  case True
  then show ?thesis by (auto simp: dkim_Body_def failed_def empty_result_def Let_def)
next
  case False
  show ?thesis
  proof (cases "dkim_answer body verify")
    case None
    with False show ?thesis
      by (auto simp: dkim_Body_def dkim_answer_def dkim_internal_def failed_def empty_result_def Let_def split: sum.splits)
  next
    case (Some vs)
    then obtain x where t: "body = Inr x" "verify x = Inr vs" by (auto simp: dkim_answer_def split: sum.splits)
    show ?thesis
    proof (cases "dkim_stopped c vs")
      case True
      with dkim_loop_stopped [of c vs "[]" False] False Some t show ?thesis by (auto simp: dkim_Body_def failed_def empty_result_def Let_def)
    next
      case nostop: False
      with dkim_loop_stopped [of c vs "[]" False] obtain results good where l: "dkim_loop c vs [] False = Inr (results, good)"
        by (cases "dkim_loop c vs [] False") auto
      from dkim_loop_Inr [OF l] have g: "good \<longleftrightarrow> (\<exists>v. v \<in> set vs \<and> good_signature c v)" "results = map (expected_report c) vs"
        by (auto simp: dkim_pass_iff required_signed_good [symmetric] dkim_report_expected)
      with False Some t l nostop show ?thesis by (auto simp: dkim_Body_def Let_def empty_result_def)
    qed
  qed
qed

theorem dkim_passes_iff_witness:
  "res_Reason (dkim_Body (dkim_Init [''from'', ''SUBJECT''] no_action no_action False) '''' True (Inr ''m'')
     (\<lambda>_. Inr [\<lparr>vf_Domain = ''d'', vf_Identifier = ''@d'', vf_HeaderKeys = [''From'', ''subject''], vf_Err = None, vf_PermFail = False, vf_TempFail = False\<rparr>])) = None"
proof -
  let ?v = "\<lparr>vf_Domain = ''d'', vf_Identifier = ''@d'', vf_HeaderKeys = [''From'', ''subject''], vf_Err = None, vf_PermFail = False, vf_TempFail = False\<rparr>"
  have k: "CanonicalMIMEHeaderKey ''from'' = ''From''" "CanonicalMIMEHeaderKey ''SUBJECT'' = ''Subject''" "CanonicalMIMEHeaderKey ''From'' = ''From''"
      "CanonicalMIMEHeaderKey ''subject'' = ''Subject''" by code_simp+
  have r: "good_signature (dkim_Init [''from'', ''SUBJECT''] no_action no_action False) ?v" by (simp add: good_signature_def dkim_Init_def k)
  have s: "\<not> ip_literal (fst (snd (Split '''')))" by (simp add: Split_def ip_literal_def HasPrefix_def EqualFoldASCII_def)
  from dkim_passes_iff [of "dkim_Init [''from'', ''SUBJECT''] no_action no_action False" "''''" True "Inr ''m''" "\<lambda>_. Inr [?v]"] r s show ?thesis
    by (simp add: Let_def dkim_answer_def dkim_stopped_def)
qed

text \<open>A client on the lists is refused at once, or all its messages get the result of the lists.\<close>

theorem dnsbl_result_kept:
  assumes "dnsbl_early lib rs sched bl c = (c', e)" "nc_ip c = Some a"
  shows "(case e of Some err \<Rightarrow> bl_checkEarly bl \<and> res_Reject (checkLists lib rs sched bl a (nc_Hostname c) '''')
    | None \<Rightarrow> dnsbl_Connection (Some c') = checkLists lib rs sched bl a (nc_Hostname c) '''')"
proof -
  have "res_Reject (checkLists lib rs sched bl a h m) \<Longrightarrow> res_Reason (checkLists lib rs sched bl a h m) \<noteq> None" for h m
    by (auto simp: checkLists_def failed_def empty_result_def split: prod.splits option.splits if_splits)
  from this [of "nc_Hostname c" "''''"] assms show ?thesis by (auto simp: dnsbl_early_def dnsbl_Connection_def Let_def split: if_splits option.splits)
qed

text \<open>With its default action the check for TLS rejects exactly the messages that did not come over TLS.\<close>

theorem require_tls_rejects: "res_Reject (stateless_Connection require_tls conn) \<longleftrightarrow> \<not> (\<exists>c. conn = Some c \<and> nc_tls c)"
  by (auto simp: stateless_Connection_def require_tls_def requireTLS_def fa_Apply_def failed_def empty_result_def no_action_def policy_err_def split: option.splits)

text \<open>An action that was read from the configuration is one of three, and its reason has an SMTP code of class 4 or 5.\<close>

theorem parsed_action:
  assumes "ParseActionDirective args = Inr act"
  shows "(fa_Reject act = (hd args = ''reject'')) \<and> (fa_Quarantine act = (hd args = ''quarantine'')) \<and>
    (\<forall>info. fa_ReasonOverride act = Some info \<longrightarrow> go_quot (Code info) 100 \<in> {4, 5} \<and> fst (EnhancedCode info) \<in> {4, 5})"
proof -
  let ?ok = "\<lambda>info. go_quot (Code info) 100 \<in> {4, 5} \<and> fst (EnhancedCode info) \<in> {4, 5}"
  have c: "?ok info" if "reject_code arg ec msg = Inr info" "fst ec \<in> {0, 4, 5}" for arg ec msg info
    using that by (auto simp: reject_code_def reject_error_def split: option.splits if_splits)
  have cs: "?ok info" if "reject_codes arg encharg msg = Inr info" for arg encharg msg info
    using that c by (fastforce simp: reject_codes_def ebind_Inr_iff split: if_splits)
  have d: "?ok (reject_error 554 (5, 7, 0) msg)" for msg by (simp add: reject_error_def go_quot_pos)
  have p: "?ok info" if "ParseRejectDirective rest = Inr info" for rest info
    using that d cs c [of _ "(0, 7, 0)"] by (simp add: ParseRejectDirective_def Let_def split: list.splits if_splits) blast
  from assms show ?thesis by (auto simp: ParseActionDirective_def ebind_Inr_iff split: list.splits if_splits sum.splits dest: p)
qed

end
