(* ===== verification/Check_Sender.thy ===== *)
theory Check_Sender
  imports Checks Pgp_Verify Tables
begin

text \<open>
  Who may use a sender address, and what an account may send: \<^verbatim>\<open>internal/authz\<close>, \<^verbatim>\<open>internal/check/authorize_sender\<close> and
  \<^verbatim>\<open>internal/check/pgp_encryption\<close>.

  The parser of addresses of \<^verbatim>\<open>net/mail\<close> is an argument. \<open>sd_conn\<close> is the connection of the message; a locally generated message has none.
\<close>

section \<open>Authorization (lookup.go, normalization.go)\<close>

fun email_allowed :: "string list \<Rightarrow> string list \<Rightarrow> goerr + bool" where
  "email_allowed valids [] = Inr False"
| "email_allowed valids (addr # addrs) =
     (case Split addr of
        (_, _, Some e) \<Rightarrow> Inl (Wrapf ''authz: '' e)
      | (_, domain, None) \<Rightarrow> if list_ex (\<lambda>ent. ent = domain \<or> ent = ''*'' \<or> ent = addr) valids then Inr True else email_allowed valids addrs)"

definition valid_emails :: "table \<Rightarrow> string \<Rightarrow> goerr + string list" where
  "valid_emails mapping username =
     (case tb_Multi mapping of
        Some multi \<Rightarrow> (case multi username of (_, Some e) \<Rightarrow> Inl (Wrapf ''authz: '' e) | (vs, None) \<Rightarrow> Inr vs)
      | None \<Rightarrow> (case tb_Lookup mapping username of (_, _, Some e) \<Rightarrow> Inl (Wrapf ''authz: '' e) | (v, ok, None) \<Rightarrow> Inr (if ok then [v] else [])))"

definition AuthorizeEmailUse :: "string \<Rightarrow> string list \<Rightarrow> table \<Rightarrow> goerr + bool" where
  "AuthorizeEmailUse username addrs mapping = ebind (valid_emails mapping username) (\<lambda>vs. email_allowed vs addrs)"

type_synonym norm_func = "string \<Rightarrow> string \<times> goerr option"

definition NormalizeNoop :: norm_func where
  "NormalizeNoop s = (s, None)"

definition NormalizeAuto :: "textlib \<Rightarrow> norm_func" where
  "NormalizeAuto lib s = (if Valid lib s then PRECISFold lib s else precis_CaseMapped lib s)"

definition NormalizeFuncs :: "textlib \<Rightarrow> string \<rightharpoonup> norm_func" where
  "NormalizeFuncs lib = [''auto'' \<mapsto> NormalizeAuto lib, ''precis_casefold_email'' \<mapsto> PRECISFold lib, ''precis_casefold'' \<mapsto> precis_CaseMapped lib,
     ''precis_email'' \<mapsto> PRECIS lib, ''precis'' \<mapsto> precis_CasePreserved lib, ''casefold'' \<mapsto> (\<lambda>s. (ToLower lib s, None)), ''noop'' \<mapsto> NormalizeNoop]"

section \<open>The check of the sender (authorize_sender.go)\<close>

record sender_check =
  sd_checkHeader :: bool
  sd_emailPrepare :: table
  sd_userToEmail :: table
  sd_unauthAction :: fail_action
  sd_noMatchAction :: fail_action
  sd_errAction :: fail_action
  sd_fromNorm :: norm_func
  sd_authNorm :: norm_func

definition sd_failure :: "fail_action \<Rightarrow> int \<Rightarrow> ench \<Rightarrow> string \<Rightarrow> goerr option \<Rightarrow> check_result" where
  "sd_failure act code ec msg err = fa_Apply act (failed (policy_err code ec msg ''check.authorize_sender'' err))"

text \<open>The prepared addresses, or an error; a table with several values is asked for all of them.\<close>

definition prepared_emails :: "table \<Rightarrow> string \<Rightarrow> goerr + string list" where
  "prepared_emails t from =
     (case tb_Multi t of
        Some multi \<Rightarrow> (case multi from of (_, Some e) \<Rightarrow> Inl e | (vs, None) \<Rightarrow> Inr (if vs \<noteq> [] then vs else [from]))
      | None \<Rightarrow> (case tb_Lookup t from of (_, _, Some e) \<Rightarrow> Inl e | (v, ok, None) \<Rightarrow> Inr (if ok then [v] else [from])))"

definition authzSender :: "sender_check \<Rightarrow> string \<Rightarrow> string \<Rightarrow> check_result" where
  "authzSender c authName email =
     (if authName = '''' then sd_failure (sd_unauthAction c) 530 (5, 7, 0) ''Authentication required'' None
      else case sd_fromNorm c email of
        (_, Some err) \<Rightarrow> sd_failure (sd_errAction c) 553 (5, 1, 7) ''Unable to normalize sender address'' (Some err)
      | (fromEmailNorm, None) \<Rightarrow>
          (case sd_authNorm c authName of
             (_, Some _) \<Rightarrow> sd_failure (sd_errAction c) 535 (5, 7, 8) ''Unable to normalize authorization username'' None
           | (authNameNorm, None) \<Rightarrow>
               (case prepared_emails (sd_emailPrepare c) fromEmailNorm of
                  Inl err \<Rightarrow> sd_failure (sd_errAction c) 454 (4, 7, 0) ''Internal error during policy check'' (Some err)
                | Inr preparedEmail \<Rightarrow>
                    (case AuthorizeEmailUse authNameNorm preparedEmail (sd_userToEmail c) of
                       Inl err \<Rightarrow> sd_failure (sd_errAction c) 454 (4, 7, 0) ''Internal error during policy check'' (Some err)
                     | Inr ok \<Rightarrow> if ok then empty_result else sd_failure (sd_noMatchAction c) 553 (5, 7, 0) ''Unauthorized use of sender address'' None))))"

definition sender_CheckSender :: "sender_check \<Rightarrow> conn_state option \<Rightarrow> string \<Rightarrow> check_result" where
  "sender_CheckSender c conn fromEmail = (case conn of None \<Rightarrow> empty_result | Some cs \<Rightarrow> authzSender c (AuthUser cs) fromEmail)"

text \<open>The fields From and Sender as \<open>Get\<close> returns them, and the parsers for an address list and an address.\<close>

record mail_lib =
  mp_AddressList :: "string \<Rightarrow> goerr + string list"
  mp_Address :: "string \<Rightarrow> goerr + string"

definition sender_CheckBody :: "mail_lib \<Rightarrow> sender_check \<Rightarrow> conn_state option \<Rightarrow> string \<Rightarrow> string \<Rightarrow> check_result" where
  "sender_CheckBody ml c conn fromHdr senderHdr =
     (if \<not> sd_checkHeader c then empty_result
      else case conn of
        None \<Rightarrow> empty_result
      | Some cs \<Rightarrow>
          if fromHdr = '''' then sd_failure (sd_errAction c) 550 (5, 7, 0) ''Missing From header'' None
          else (case mp_AddressList ml fromHdr of
              Inl err \<Rightarrow> sd_failure (sd_errAction c) 550 (5, 7, 0) ''Malformed From header'' (Some err)
            | Inr [] \<Rightarrow> sd_failure (sd_errAction c) 550 (5, 7, 0) ''Malformed From header'' None
            | Inr (_ # _ # _) \<Rightarrow> sd_failure (sd_errAction c) 550 (5, 7, 0) ''Multiple From addresses are not allowed'' None
            | Inr [fromEmail] \<Rightarrow>
                (case if senderHdr = '''' then Inr '''' else mp_Address ml senderHdr of
                   Inl err \<Rightarrow> sd_failure (sd_errAction c) 550 (5, 7, 0) ''Malformed Sender header'' (Some err)
                 | Inr senderAddr \<Rightarrow>
                     (let res = authzSender c (AuthUser cs) fromEmail in
                      if res_Reason res = None then res
                      else
                        let res = (if senderAddr \<noteq> '''' \<and> senderAddr \<noteq> fromEmail then authzSender c (AuthUser cs) senderAddr else res) in
                        if res_Reason res = None then res
                        else sd_failure (sd_noMatchAction c) 553 (5, 7, 0) ''Unauthorized use of sender address'' None))))"

section \<open>Encryption of outgoing messages (pgp_encryption.go)\<close>

record pgp_check =
  pe_passthroughSenders :: "string list"
  pe_passthroughRecipients :: "string list"
  pe_requireEncryption :: bool
  pe_allowSecureJoin :: bool

record pgp_state =
  pe_mailFrom :: string
  pe_rcptTos :: "string list"

record pgp_lib =
  pl_text :: textlib
  pl_mime :: mime_lib
  pl_EqualFold :: "string \<Rightarrow> string \<Rightarrow> bool"
  pl_ParseAddress :: "string \<Rightarrow> goerr + string"

definition pgp_CheckSender :: "string \<Rightarrow> pgp_state \<Rightarrow> pgp_state" where
  "pgp_CheckSender mailFrom st = st\<lparr>pe_mailFrom := mailFrom\<rparr>"

definition pgp_CheckRcpt :: "string \<Rightarrow> pgp_state \<Rightarrow> pgp_state" where
  "pgp_CheckRcpt rcptTo st = st\<lparr>pe_rcptTos := pe_rcptTos st @ [rcptTo]\<rparr>"

definition recipientMatchesPassthrough :: "pgp_lib \<Rightarrow> pgp_check \<Rightarrow> string \<Rightarrow> bool" where
  "recipientMatchesPassthrough lib c recipient \<longleftrightarrow>
     list_ex (\<lambda>addr. pl_EqualFold lib recipient addr \<or>
       HasPrefix addr ''@'' \<and> HasSuffix (ToLower (pl_text lib) recipient) (ToLower (pl_text lib) addr)) (pe_passthroughRecipients c)"

definition pgp_err :: "int \<Rightarrow> ench \<Rightarrow> string \<Rightarrow> string \<Rightarrow> Exterrors.fields \<Rightarrow> goerr option \<Rightarrow> check_result" where
  "pgp_err code ec msg reason misc err =
     (failed (SMTPError \<lparr>Code = code, EnhancedCode = ec, Message = msg, CheckName = ''pgp_encryption'', TargetName = '''', ModifierName = '''', Reason = reason, Misc = misc\<rparr> err))
       \<lparr>res_Reject := True\<rparr>"

text \<open>A bounce: automatically submitted, from a mailer daemon, and a report.\<close>

definition daemon_report :: "pgp_lib \<Rightarrow> string \<Rightarrow> string \<Rightarrow> string \<Rightarrow> bool" where
  "daemon_report lib autoSubmitted mimeFrom contentType \<longleftrightarrow>
     autoSubmitted \<noteq> '''' \<and> autoSubmitted \<noteq> ''no'' \<and> mimeFrom \<noteq> '''' \<and>
     (case pl_ParseAddress lib mimeFrom of Inl _ \<Rightarrow> False | Inr a \<Rightarrow> HasPrefix (ToLower (pl_text lib) a) ''mailer-daemon@'') \<and>
     HasPrefix contentType ''multipart/report''"

text \<open>The loop over the recipients, with the number of the recipient. The body is opened once or twice for each of them; \<open>opens\<close> is what these calls
  return. The header for the second test has only the two fields that are set.\<close>

fun pgp_rcpts :: "pgp_lib \<Rightarrow> pgp_check \<Rightarrow> string \<Rightarrow> string \<Rightarrow> string \<Rightarrow> (nat \<Rightarrow> goerr + string) \<Rightarrow> nat \<Rightarrow> string list \<Rightarrow> check_result" where
  "pgp_rcpts lib c mailFrom contentType secureJoin opens i [] = empty_result"
| "pgp_rcpts lib c mailFrom contentType secureJoin opens i (recipient # rcpts) =
     (if recipientMatchesPassthrough lib c recipient then pgp_rcpts lib c mailFrom contentType secureJoin opens (Suc i) rcpts
      else if length (SplitByte recipient CHR ''@'') \<noteq> 2 then pgp_err 554 (5, 6, 0) ''Invalid recipient address format'' ''invalid recipient format'' Map.empty None
      else case opens (2 * i) of
        Inl err \<Rightarrow> pgp_err 451 (4, 0, 0) ''Cannot read message body'' ''body read error'' Map.empty (Some err)
      | Inr text \<Rightarrow>
          (case IsValidEncryptedMessage (pl_text lib) (pl_mime lib) contentType text of
             Inl err \<Rightarrow> pgp_err 451 (4, 0, 0) ''Error validating message encryption'' ''encryption validation error'' Map.empty (Some err)
           | Inr isEncrypted \<Rightarrow>
               if isEncrypted \<or> pe_allowSecureJoin c \<and>
                   (case opens (2 * i + 1) of Inl _ \<Rightarrow> False
                    | Inr text2 \<Rightarrow> IsSecureJoinMessage (pl_text lib) (pl_mime lib) [(''Content-Type'', contentType), (''Secure-Join'', secureJoin)] text2)
               then pgp_rcpts lib c mailFrom contentType secureJoin opens (Suc i) rcpts
               else pgp_err 523 (5, 7, 1) ''Encryption Needed: Invalid Unencrypted Mail'' ''unencrypted message''
                 [''recipient'' \<mapsto> FStr recipient, ''sender'' \<mapsto> FStr mailFrom] None))"

definition pgp_CheckBody :: "pgp_lib \<Rightarrow> pgp_check \<Rightarrow> pgp_state \<Rightarrow> header \<Rightarrow> (nat \<Rightarrow> goerr + string) \<Rightarrow> check_result" where
  "pgp_CheckBody lib c st hdr opens =
     (let get = ml_Get (pl_mime lib) hdr; mimeFrom = get ''From''; contentType = get ''Content-Type'' in
      if \<not> pe_requireEncryption c then empty_result
      else if pe_mailFrom st \<in> set (pe_passthroughSenders c) then empty_result
      else if daemon_report lib (get ''Auto-Submitted'') mimeFrom contentType then empty_result
      else
        let rcpts = pgp_rcpts lib c (pe_mailFrom st) contentType (get ''Secure-Join'') opens 0 (pe_rcptTos st) in
        if mimeFrom \<noteq> '''' then
          (case pl_ParseAddress lib mimeFrom of
             Inl err \<Rightarrow> pgp_err 554 (5, 6, 0) ''Invalid From header'' ''invalid mime from'' Map.empty (Some err)
           | Inr a \<Rightarrow>
               if \<not> pl_EqualFold lib a (pe_mailFrom st) then pgp_err 554 (5, 6, 0) ''From header does not match envelope sender'' ''from mismatch'' Map.empty None
               else rcpts)
        else rcpts)"

section \<open>Lemmas\<close>

lemma sd_failure_reason [simp]: "res_Reason (sd_failure act code ec msg err) \<noteq> None"
  by (simp add: sd_failure_def failed_def)

lemma email_allowed_True:
  "email_allowed vs addrs = Inr True \<Longrightarrow> \<exists>a\<in>set addrs. \<exists>mbox domain. Split a = (mbox, domain, None) \<and> (domain \<in> set vs \<or> ''*'' \<in> set vs \<or> a \<in> set vs)"
  by (induction addrs) (auto simp: list_ex_iff split: prod.splits option.splits if_splits)

text \<open>The account may use the address: one of the addresses it is prepared to, or its domain, or everything, is listed for the account.\<close>

definition may_use :: "sender_check \<Rightarrow> string \<Rightarrow> string \<Rightarrow> bool" where
  "may_use c user email \<longleftrightarrow> user \<noteq> '''' \<and>
     (\<exists>from name ps vs a mbox domain. sd_fromNorm c email = (from, None) \<and> sd_authNorm c user = (name, None) \<and> prepared_emails (sd_emailPrepare c) from = Inr ps \<and>
        valid_emails (sd_userToEmail c) name = Inr vs \<and> a \<in> set ps \<and> Split a = (mbox, domain, None) \<and> (domain \<in> set vs \<or> ''*'' \<in> set vs \<or> a \<in> set vs))"

lemma authzSender_may_use: "res_Reason (authzSender c user email) = None \<Longrightarrow> may_use c user email"
  unfolding authzSender_def may_use_def AuthorizeEmailUse_def
  by (auto split: if_splits prod.splits option.splits sum.splits simp: ebind_Inr_iff dest!: email_allowed_True)

lemma pgp_err_reject [simp]: "res_Reject (pgp_err code ec msg reason misc err)"
  by (simp add: pgp_err_def)

lemma pgp_rcpts_accepted:
  assumes "\<not> res_Reject (pgp_rcpts lib c mf ct sj opens i rcpts)" "\<forall>k text. opens k = Inr text \<longrightarrow> text = content"
  shows "\<forall>r\<in>set rcpts. recipientMatchesPassthrough lib c r \<or> IsValidEncryptedMessage (pl_text lib) (pl_mime lib) ct content = Inr True \<or>
    pe_allowSecureJoin c \<and> IsSecureJoinMessage (pl_text lib) (pl_mime lib) [(''Content-Type'', ct), (''Secure-Join'', sj)] content"
  using assms(1)
proof (induction rcpts arbitrary: i)
  case (Cons r rcpts)
  let ?ok = "recipientMatchesPassthrough lib c r \<or> IsValidEncryptedMessage (pl_text lib) (pl_mime lib) ct content = Inr True \<or>
    pe_allowSecureJoin c \<and> IsSecureJoinMessage (pl_text lib) (pl_mime lib) [(''Content-Type'', ct), (''Secure-Join'', sj)] content"
  from Cons.prems assms(2) have "?ok \<and> \<not> res_Reject (pgp_rcpts lib c mf ct sj opens (Suc i) rcpts)"
    by (auto split: if_splits sum.splits)
  with Cons.IH show ?case by auto
qed simp

section \<open>Properties\<close>

text \<open>C23. A message that passes the sender authorization without a reason, at MAIL and with its header, comes from an authenticated account that may use the envelope
  sender, and may use the address in From or the one in Sender.\<close>

theorem sender_authorized:
  assumes "sd_checkHeader c" "res_Reason (sender_CheckSender c (Some cs) mailFrom) = None" "res_Reason (sender_CheckBody ml c (Some cs) fromHdr senderHdr) = None"
  shows "AuthUser cs \<noteq> '''' \<and> may_use c (AuthUser cs) mailFrom \<and>
    (\<exists>f. mp_AddressList ml fromHdr = Inr [f] \<and> (may_use c (AuthUser cs) f \<or> (\<exists>a. mp_Address ml senderHdr = Inr a \<and> may_use c (AuthUser cs) a)))"
proof -
  have m: "may_use c (AuthUser cs) mailFrom" using assms(2) by (simp add: sender_CheckSender_def authzSender_may_use)
  from assms(1,3) obtain f where f: "mp_AddressList ml fromHdr = Inr [f]" by (auto simp: sender_CheckBody_def split: if_splits sum.splits list.splits)
  with assms(1,3) have "res_Reason (authzSender c (AuthUser cs) f) = None \<or> (\<exists>a. mp_Address ml senderHdr = Inr a \<and> res_Reason (authzSender c (AuthUser cs) a) = None)"
    by (auto simp: sender_CheckBody_def Let_def split: if_splits sum.splits)
  moreover have "AuthUser cs \<noteq> ''''" using m by (simp add: may_use_def)
  ultimately show ?thesis using m f authzSender_may_use by blast
qed

definition demo_sender :: sender_check where
  "demo_sender = \<lparr>sd_checkHeader = True, sd_emailPrepare = identity_table, sd_userToEmail = identity_table, sd_unauthAction = no_action, sd_noMatchAction = no_action,
     sd_errAction = no_action, sd_fromNorm = NormalizeNoop, sd_authNorm = NormalizeNoop\<rparr>"

theorem sender_authorized_witness:
  "res_Reason (sender_CheckBody \<lparr>mp_AddressList = (\<lambda>s. Inr [s]), mp_Address = Inr\<rparr> demo_sender (Some \<lparr>Hostname = ''h'', AuthUser = ''b@y''\<rparr>) ''b@y'' '''') = None \<and>
     may_use demo_sender ''b@y'' ''b@y''"
proof -
  have "ascii ''b@y''" by (simp add: ascii_def)
  then have s: "Split ''b@y'' = (''b'', ''y'', None)" by (simp add: Split_def EqualFoldASCII_def runes_ascii)
  let ?cs = "\<lparr>Hostname = ''h'', AuthUser = ''b@y''\<rparr>" and ?ml = "\<lparr>mp_AddressList = (\<lambda>s. Inr [s]), mp_Address = Inr\<rparr>"
  have a: "authzSender demo_sender ''b@y'' ''b@y'' = empty_result"
    by (simp add: authzSender_def demo_sender_def NormalizeNoop_def prepared_emails_def identity_table_def AuthorizeEmailUse_def valid_emails_def s)
  then have r: "res_Reason (sender_CheckSender demo_sender (Some ?cs) ''b@y'') = None" by (simp add: sender_CheckSender_def empty_result_def)
  have b: "res_Reason (sender_CheckBody ?ml demo_sender (Some ?cs) ''b@y'' '''') = None"
    using a by (simp add: sender_CheckBody_def demo_sender_def empty_result_def Let_def)
  from sender_authorized [OF _ r b] b show ?thesis by (simp add: demo_sender_def)
qed

text \<open>C24. With \<open>require_encryption\<close>, and a body that always reads the same, a message passes only if its sender is exempt, it is a report of a mailer daemon, or for each of
  its recipients, the exempt ones apart, the message is encrypted or, where this is allowed, a secure join.\<close>

theorem pgp_check_encrypted:
  assumes "pe_requireEncryption c" "\<not> res_Reject (pgp_CheckBody lib c st hdr opens)" "\<forall>k text. opens k = Inr text \<longrightarrow> text = content"
  shows "pe_mailFrom st \<in> set (pe_passthroughSenders c) \<or>
    daemon_report lib (ml_Get (pl_mime lib) hdr ''Auto-Submitted'') (ml_Get (pl_mime lib) hdr ''From'') (ml_Get (pl_mime lib) hdr ''Content-Type'') \<or>
    (\<forall>r\<in>set (pe_rcptTos st). recipientMatchesPassthrough lib c r \<or>
       IsValidEncryptedMessage (pl_text lib) (pl_mime lib) (ml_Get (pl_mime lib) hdr ''Content-Type'') content = Inr True \<or>
       pe_allowSecureJoin c \<and> IsSecureJoinMessage (pl_text lib) (pl_mime lib)
         [(''Content-Type'', ml_Get (pl_mime lib) hdr ''Content-Type''), (''Secure-Join'', ml_Get (pl_mime lib) hdr ''Secure-Join'')] content)"
proof (cases "pe_mailFrom st \<in> set (pe_passthroughSenders c) \<or>
    daemon_report lib (ml_Get (pl_mime lib) hdr ''Auto-Submitted'') (ml_Get (pl_mime lib) hdr ''From'') (ml_Get (pl_mime lib) hdr ''Content-Type'')")
  case False
  with assms(1,2) have "\<not> res_Reject (pgp_rcpts lib c (pe_mailFrom st) (ml_Get (pl_mime lib) hdr ''Content-Type'') (ml_Get (pl_mime lib) hdr ''Secure-Join'') opens 0 (pe_rcptTos st))"
    by (auto simp: pgp_CheckBody_def Let_def split: if_splits sum.splits)
  from pgp_rcpts_accepted [OF this assms(3)] show ?thesis by blast
qed blast

definition demo_pgp_lib :: pgp_lib where
  "demo_pgp_lib = \<lparr>pl_text = sample_text, pl_mime = \<lparr>ml_Get = (\<lambda>h k. case map_of h k of None \<Rightarrow> '''' | Some v \<Rightarrow> v), ParseMediaType = (\<lambda>s. Inr (s, '''')),
     ReadParts = (\<lambda>_ _. ([], PartsEOF))\<rparr>, pl_EqualFold = (\<lambda>a b. a = b), pl_ParseAddress = Inr\<rparr>"

definition demo_pgp :: pgp_check where
  "demo_pgp = \<lparr>pe_passthroughSenders = [''root@y''], pe_passthroughRecipients = [], pe_requireEncryption = True, pe_allowSecureJoin = True\<rparr>"

theorem pgp_check_encrypted_witness:
  "\<not> res_Reject (pgp_CheckBody demo_pgp_lib demo_pgp \<lparr>pe_mailFrom = ''root@y'', pe_rcptTos = [''b@y'']\<rparr> [] (\<lambda>_. Inr ''plain'')) \<and> ''root@y'' \<in> set (pe_passthroughSenders demo_pgp)"
proof -
  let ?st = "\<lparr>pe_mailFrom = ''root@y'', pe_rcptTos = [''b@y'']\<rparr>"
  have r: "pe_requireEncryption demo_pgp" "\<not> res_Reject (pgp_CheckBody demo_pgp_lib demo_pgp ?st [] (\<lambda>_. Inr ''plain''))"
    by (simp_all add: pgp_CheckBody_def demo_pgp_def Let_def empty_result_def)
  from pgp_check_encrypted [OF r, of "''plain''"] r show ?thesis by (simp add: demo_pgp_def)
qed

text \<open>A local account passes an unencrypted message under a foreign From: the exemption for bounces looks at the header only and comes before the comparison of From
  with the envelope sender.\<close>

theorem mailer_daemon_bypass:
  "pgp_CheckBody demo_pgp_lib demo_pgp \<lparr>pe_mailFrom = ''b@y'', pe_rcptTos = [''c@z'']\<rparr>
     [(''From'', ''mailer-daemon@bank''), (''Auto-Submitted'', ''x''), (''Content-Type'', ''multipart/report'')] (\<lambda>_. Inr ''plain'') = empty_result"
proof -
  have "lower_ascii ''mailer-daemon@bank''" by (simp add: lower_ascii_def ascii_def)
  from ToLower_lower_ascii [OF this] show ?thesis
    by (simp add: pgp_CheckBody_def demo_pgp_def demo_pgp_lib_def daemon_report_def HasPrefix_def Let_def)
qed

end
