(* ===== verification/Spec2Isabelle.thy ===== *)
theory Spec2Isabelle
  imports Address Queue Limits Msg_Pipeline Cfg_Tree Imap_Registry Smtp_Session Remote Sql_Store Sql_Search Sasl_Auth Check_Sender
begin

text \<open>
  Verification of madmail, a mail server written in Go (a fork of maddy).

  \<^bold>\<open>The program.\<close> A message enters through an endpoint (SMTP, submission, LMTP), passes the
  limits and the message pipeline, which runs checks and modifiers and selects delivery targets by
  sender and recipients, and ends in a target: the local storage, the remote delivery, or the
  queue, which stores it on disk and retries the remote delivery, sending a bounce in the end. All
  these parts talk to each other through the interfaces of \<^verbatim>\<open>framework/module\<close>; errors are the
  values of \<^verbatim>\<open>framework/exterrors\<close>, addresses are handled by \<^verbatim>\<open>framework/address\<close>.

  \<^bold>\<open>The theories.\<close>

  \<^item> \<open>Go_Base\<close>, \<open>Go_Net\<close>, \<open>Go_Lib\<close>: the prelude. Outcomes of a Go call (return, panic, block), numbers and
    times, strings as byte lists, the UTF-8 decoder and encoder and their round trip,
    \<open>net.ParseIP\<close>, base64 with its round trip, and SHA-256 on words of 32 bits.
  \<^item> \<open>Exterrors\<close> (\<^verbatim>\<open>framework/exterrors\<close>): error values, their chain, classification as
    temporary, and the fields collected along the chain. The locale \<open>error_classifier\<close> is the
    contract of the two classifications.
  \<^item> \<open>Address\<close> (\<^verbatim>\<open>framework/address\<close>, \<^verbatim>\<open>framework/dns/norm.go\<close>, \<^verbatim>\<open>idna.go\<close>):
    splitting, quoting, validation, normalization and comparison of addresses. The Unicode
    libraries are the argument \<open>textlib\<close>.
  \<^item> \<open>Module_Api\<close> (\<^verbatim>\<open>framework/module\<close>): message metadata, buffers, delivery targets as records of
    functions, and a target that records the calls made on it.
  \<^item> \<open>Time_Wheel\<close> (\<^verbatim>\<open>internal/target/queue/timewheel.go\<close>): the scheduler as a step relation over
    all interleavings of \<open>Add\<close>, the goroutine \<open>tick\<close> and \<open>Close\<close>. Shown by rule induction: a slot
    is dispatched at most once, never early, and the goroutine never sleeps past a slot. The locale
    \<open>scheduler\<close> is what the queue relies on.
  \<^item> \<open>Queue_Disk\<close> (\<^verbatim>\<open>internal/target/queue/queue.go\<close>): the files of a message, with a fault
    for every system call and, for the update of the metadata, what a power loss can leave. \<^verbatim>\<open>encoding/json\<close> is trusted to
    read back what it wrote. Shown: round trip, atomic update outside Windows, no redelivery after removal, what a failed store leaves behind.
  \<^item> \<open>Dsn\<close> (\<^verbatim>\<open>internal/dsn/dsn.go\<close>): the fields and parts of a bounce. Shown: a bounce is
    generated whatever the error texts contain, and it reports every failed recipient.
  \<^item> \<open>Queue\<close> (\<^verbatim>\<open>internal/target/queue/queue.go\<close>): delivery attempts, retries, bounces, dispatch, start-up, and the object
    through which messages enter. Shown: the protocol with the target, no recipient is lost, the
    retry decision, every message leaves the queue after \<open>max_tries\<close> attempts for each copy of a recipient while system calls succeed,
    an accepted message is on disk and scheduled.
  \<^item> \<open>Limiters\<close>, \<open>Limits\<close> (\<^verbatim>\<open>internal/limits\<close>): semaphores, token buckets, combined limiters and
    sets of them, and the group that the endpoints use. The locale \<open>limiter_contract\<close> is the
    interface \<open>L\<close>; it is interpreted by the two basic limiters and by \<open>MultiLimit\<close> over them, and
    the facts about \<open>BucketSet\<close> and the group are proved from it.
  \<^item> \<open>Dmarc\<close> (\<^verbatim>\<open>internal/dmarc\<close>): policy lookup, alignment, verdict, action.
  \<^item> \<open>Check_Runner\<close> (\<^verbatim>\<open>internal/msgpipeline/check_runner.go\<close>): groups of checks. The locales
    \<open>check_calls\<close> and \<open>check_invariant\<close>, which extends it, carry an invariant of single calls through all operations; they are interpreted by
    checks that record the recipients, each once, and by checks that log every body they are asked about.
  \<^item> \<open>Msg_Pipeline\<close> (\<^verbatim>\<open>internal/msgpipeline/msgpipeline.go\<close>, \<^verbatim>\<open>internal/modify/group.go\<close>):
    routing, recipients, body, commit and abort. Shown: every started delivery is finished once, and \<open>Body\<close> sends nothing that a check was not asked
    about or that one rejected.
  \<^item> \<open>Cfg_Lexer\<close>, \<open>Cfg_Parser\<close>, \<open>Cfg_Print\<close>, \<open>Cfg_Tree\<close> (\<^verbatim>\<open>framework/config/lexer\<close>, \<^verbatim>\<open>framework/cfgparser\<close>): the
    configuration language with quoting, blocks, snippets, macros, imports and environment variables. Shown:
    reading ends for every input, printed trees are read back, a parsed tree holds no macro or import any more.
  \<^item> \<open>Imap_Seq\<close>, \<open>Imap_Mess\<close>, \<open>Imap_Sync\<close>, \<open>Imap_Registry\<close> (\<^verbatim>\<open>internal/go-imap-mess\<close>): sequence numbers, the updates
    that connections owe their clients, and the registry of open mailboxes. Shown: the updates of \<open>Sync\<close> turn the
    client's view into the new one, idle connections wake up, the registry lists the open handles; besides, the cases in which the code fails to do so.
  \<^item> \<open>Pgp_Verify\<close> (\<^verbatim>\<open>internal/pgp_verify\<close>): which messages count as encrypted. The packet scanner is equivalent to a
    grammar.
  \<^item> \<open>Smtp_Session\<close> (\<^verbatim>\<open>internal/endpoint/smtp\<close>): the session with all its commands, and a server of many sessions.
    Shown: limits stay balanced over all interleavings of commands outside three named defects, only accepted messages reach the pipeline.
  \<^item> \<open>Conn_Pool\<close> (\<^verbatim>\<open>internal/smtpconn/pool\<close>): idle connections by key, as a step relation over all interleavings. Shown: a
    connection has one owner at any time.
  \<^item> \<open>Mx_Auth\<close> (\<^verbatim>\<open>framework/module/mxauth.go\<close>, \<^verbatim>\<open>internal/target/remote/security.go\<close>, \<^verbatim>\<open>dane.go\<close>, \<^verbatim>\<open>policy_group.go\<close>):
    security levels, DANE and the policies. Shown: the decision of DANE, and what a connection that passed the policies satisfies.
  \<^item> \<open>Smtp_Conn\<close> (\<^verbatim>\<open>internal/smtpconn\<close>): the SMTP and LMTP client; \<open>Endpoint_Cache\<close> (\<^verbatim>\<open>internal/endpoint_cache\<close>): overrides of hosts.
  \<^item> \<open>Remote\<close> (\<^verbatim>\<open>internal/target/remote\<close>): delivery over HTTP and SMTP, on top of the four theories above. The goroutines of the domains run one after the
    other, and what the others do to the shared policies and metadata is an argument. Shown: what REQUIRETLS guarantees under this interference, and that every
    recipient gets a status.

  \<^item> \<open>Sql_Db\<close>, \<open>Sql_Inv\<close> (\<^verbatim>\<open>internal/go-imap-sql/sql.go\<close>): the tables of the mail storage, every statement as a function
    on them, and the invariant. The locale \<open>store_invariant\<close> is what a property of the tables has to satisfy to survive all statements but
    those for messages; the operations on accounts, mailboxes and flags are proved to keep every such property, and it is interpreted by the constraints of the
    schema, by the invariant of the UIDs and by the exactness of the counters.
  \<^item> \<open>Sql_Mailbox\<close>, \<open>Sql_User\<close>, \<open>Sql_Delivery\<close>, \<open>Sql_Search\<close> (\<^verbatim>\<open>mailbox.go\<close>, \<^verbatim>\<open>flags.go\<close>, \<^verbatim>\<open>user.go\<close>,
    \<^verbatim>\<open>backend.go\<close>, \<^verbatim>\<open>delivery.go\<close>, \<^verbatim>\<open>search.go\<close>, \<^verbatim>\<open>sql_search.go\<close>, \<^verbatim>\<open>fetch.go\<close> in \<^verbatim>\<open>internal/go-imap-sql\<close>): the operations of
    the storage, with a fault for every statement, the store of the bodies and the notifications of the registry. Shown: a delivery is all or nothing, and when a
    search by flags is exact.
  \<^item> \<open>Sql_Count\<close>, \<open>Sql_Store\<close>: runs of all these operations as a step relation. Shown by rule induction: the invariant, that UIDs are never
    given twice, exact counters; besides, the limit on appended messages.
  \<^item> \<open>Quota\<close> (\<^verbatim>\<open>internal/quota/cache.go\<close>): the quota cache, which refines a map of usage and limits. \<open>Imap_Storage\<close>
    (\<^verbatim>\<open>internal/storage/imapsql\<close>): accounts, quotas, the block list, retention and the delivery target. Shown: the quota is checked before
    anything is written.

  \<^item> \<open>Tables\<close> (\<^verbatim>\<open>internal/table\<close>, \<^verbatim>\<open>internal/modify/replace_addr.go\<close>): lookups, chains, files that change while they are
    read, and the rewriting of addresses. Shown: a file table is never half read when the file has honest modification times, a chain composes its steps, the modifier never panics.
  \<^item> \<open>Pass_Table\<close> (\<^verbatim>\<open>internal/auth/pass_table\<close>, \<^verbatim>\<open>internal/table/sql_query.go\<close>, \<^verbatim>\<open>gorm.go\<close>): accounts, hashes and settings. The locale
    \<open>mutable_table\<close> is the contract of a table that can be changed, interpreted by the SQL table and by gorm. Shown: round trips of passwords and settings, and what a
    login can change.
  \<^item> \<open>Sasl_Auth\<close> (\<^verbatim>\<open>internal/auth\<close>): PLAIN and LOGIN over a list of providers, and the providers. The locale \<open>sound_providers\<close> is what the
    endpoints rely on; it is interpreted by the credential table and by separate tables for users and passwords. Shown: only valid credentials reach the endpoint.
  \<^item> \<open>Checks\<close>, \<open>Check_Sender\<close> (\<^verbatim>\<open>internal/check\<close>, \<^verbatim>\<open>internal/authz\<close>, \<^verbatim>\<open>framework/config/module/check_action.go\<close>): actions on
    failure, checks without state, block lists, SPF, DKIM, sender authorization and the demand for encryption. Shown: the decision of each check.

  \<^bold>\<open>State and effects.\<close> Go structs are records, calls take and return the state they change.
  Panics and endless waits are values of \<open>outcome\<close>. Pointers that serve as keys of maps are numbers.
  Everything the repository does not contain (targets, checks, modifiers, tables, libraries, the
  resolver, the clock, random numbers, failing system calls, the scheduler and the order of map
  iteration) is an argument, so that the theorems hold for every behaviour of it; where a
  property needs a documented law of such a part, it is a hypothesis of the theorem.

  \<^bold>\<open>Bounds.\<close> All functions are total. Recursion is structural, except for the walk along an error chain, which ends
  because the size of the error decreases, for the retries of a TLS handshake, whose level decreases, and for the digits of a number. The parser of configuration files alone
  takes fuel: two calls for each token and for each of the 255 levels of imports, which \<open>config_read_ends\<close> proves to be enough.

  \<^bold>\<open>Not modelled.\<close> The \<open>Init\<close> methods (except that of the limits), the set-up of endpoints, schema migrations of the storage,
  LDAP, milters and other checks by external services, DKIM signing, web and administration interfaces, log output. Contexts appear only as the choice of a
  \<open>select\<close>. The goroutines of one group of checks are run one after the other, in every order. Transactions of the
  storage and calls of the registry of mailboxes run one after the other.

  \<^bold>\<open>Plan.\<close> The configuration of the pipeline and the relay to a downstream server are to follow.
\<close>

end
